(* ===== verification/Prelude.thy ===== *)
theory Prelude
  imports Main "HOL-Library.Word"
begin

text \<open>
  Shared vocabulary of the development: the C integer types at their width, the copy loops and
  byte-order helpers that the firmware repeats in several files, the wrap-safe deadline
  comparison, and the collections of simplification rules the component theories extend.
\<close>

unbundle bit_operations_syntax

section \<open>Machine integers\<close>

type_synonym u8 = "8 word"
type_synonym u16 = "16 word"
type_synonym u32 = "32 word"
type_synonym u64 = "64 word"

type_synonym bytes = "u8 list"

named_theorems deadline_simps
  \<open>wrap-around deadline comparisons decided from the distance of the two times\<close>
named_theorems byte_order
  \<open>big- and little-endian readers and writers\<close>
named_theorems nat_of_word
  \<open>the order of words as the order of natural numbers\<close>

lemmas word_order_nat [nat_of_word] = word_less_nat_alt word_le_nat_alt

lemma unat_add_small:
  fixes a b :: "'a::len word"
  assumes "unat a + unat b < 2 ^ LENGTH('a)"
  shows "unat (a + b) = unat a + unat b"
  using assms by (simp add: unat_word_ariths)

lemma unat_sub_le:
  fixes a b :: "'a::len word"
  assumes "b \<le> a"
  shows "unat (a - b) = unat a - unat b"
  using assms by (simp add: unat_sub)

lemma unat_ucast_up:
  fixes x :: "'a::len word"
  assumes "LENGTH('a) \<le> LENGTH('b::len)"
  shows "unat (ucast x :: 'b word) = unat x"
  using assms by (metis is_up.rep_eq uint_up_ucast unat_eq_nat_uint)

lemma unat_ucast_small:
  fixes x :: "'a::len word"
  assumes "unat x < 2 ^ LENGTH('b::len)"
  shows "unat (ucast x :: 'b word) = unat x"
  using assms by (simp add: unsigned_ucast_eq take_bit_nat_eq_self)

lemma unat_dec: "0 < (x :: 'a::len word) \<Longrightarrow> unat (x - 1) = unat x - 1"
  by (rule trans [OF unat_sub_le]) (simp_all add: word_le_nat_alt word_less_nat_alt)

lemma xor_cancel: "(x :: 'a::len word) XOR a = x XOR b \<longleftrightarrow> a = b" "a XOR x = b XOR x \<longleftrightarrow> a = b"
  by (auto simp: bit_eq_iff bit_xor_iff)

lemma unat_u8_less [simp]: "unat (x :: u8) < 256"
  using unsigned_less [of x] by simp

lemma unat_u16_less [simp]: "unat (x :: u16) < 65536"
  using unsigned_less [of x] by simp

lemma unat_u32_less [simp]: "unat (x :: u32) < 4294967296"
  using unsigned_less [of x] by simp

lemma unat_u8_u16 [simp]: "unat (ucast (x :: u8) :: u16) = unat x"
  by (rule unat_ucast_up) simp

lemma unat_u8_u32 [simp]: "unat (ucast (x :: u8) :: u32) = unat x"
  by (rule unat_ucast_up) simp

lemma unat_u16_u32 [simp]: "unat (ucast (x :: u16) :: u32) = unat x"
  by (rule unat_ucast_up) simp

lemma and_low_nibble: "(x :: 'a::len word) AND 15 = take_bit 4 x"
  by (simp add: take_bit_eq_mask mask_eq_exp_minus_1)

lemma unat_and_mask4: "unat (x AND 15 :: 'a::len word) = unat x mod 16"
  by (simp add: and_low_nibble unsigned_take_bit_eq take_bit_nat_def)

section \<open>Deadlines on a free-running 32-bit counter\<close>

text \<open>
  The firmware compares times of a wrapping counter by the sign of the 32-bit difference,
  \<open>((int32_t)(now - deadline)) >= 0\<close>. The same three lines stand in several files; each
  component defines its own copy and reduces it to this one.
\<close>

definition time_reached :: "u32 \<Rightarrow> u32 \<Rightarrow> bool" where
  "time_reached now deadline \<longleftrightarrow> 0 \<le> sint (now - deadline)"

lemma sint_u32:
  "sint (x :: u32) = (if unat x < 2 ^ 31 then int (unat x) else int (unat x) - 2 ^ 32)"
proof -
  define k where "k = unat x"
  have k: "uint x = int k" "k < 4294967296" by (simp_all add: k_def)
  have "sint x = (int k + 2147483648) mod 4294967296 - 2147483648"
    by (simp add: sint_uint signed_take_bit_eq_take_bit_shift take_bit_eq_mod k)
  also have "\<dots> = (if k < 2147483648 then int k else int k - 4294967296)"
    using k(2) by (simp add: mod_pos_geq)
  finally show ?thesis by (simp add: k_def)
qed

lemma time_reached_nat: "time_reached now deadline \<longleftrightarrow> unat (now - deadline) < 2 ^ 31"
proof -
  have "int (unat (now - deadline)) < 2 ^ 32" using uint_lt2p [of "now - deadline"] by simp
  then show ?thesis by (auto simp: time_reached_def sint_u32)
qed

lemma time_reached_refl [simp, deadline_simps]: "time_reached now now"
  by (simp add: time_reached_nat)

lemma time_not_reached_ahead [deadline_simps]:
  assumes "0 < t" "t \<le> 0x7FFFFFFF"
  shows "\<not> time_reached now (now + t)"
proof -
  have "unat t \<noteq> 0" "unat t \<le> 0x7FFFFFFF"
    using assms by (simp_all add: word_less_nat_alt word_le_nat_alt)
  moreover have "now - (now + t) = 0 - t" by simp
  moreover have "unat (0 - t) = 2 ^ 32 - unat t"
    using \<open>unat t \<noteq> 0\<close> by (subst unat_sub_if') simp
  ultimately show ?thesis by (simp add: time_reached_nat)
qed

lemma time_reached_after [deadline_simps]:
  assumes "t \<le> 0x7FFFFFFF" "d \<le> 0x7FFFFFFF"
  shows "time_reached (now + d) (now + t) \<longleftrightarrow> t \<le> d"
proof (cases "t \<le> d")
  case True
  then have "unat (d - t) = unat d - unat t" by (rule unat_sub_le)
  moreover have "unat d \<le> 0x7FFFFFFF" using assms by (simp add: word_le_nat_alt)
  ultimately show ?thesis using True by (simp add: time_reached_nat)
next
  case False
  then have lt: "unat d < unat t" by (simp add: word_le_nat_alt)
  have "unat t \<le> 0x7FFFFFFF" using assms by (simp add: word_le_nat_alt)
  moreover have "unat (d - t) = unat d + 2 ^ 32 - unat t"
    using lt by (simp add: unat_sub_if' )
  ultimately show ?thesis using False lt by (simp add: time_reached_nat)
qed

section \<open>Byte copies\<close>

text \<open>
  \<open>for (i = 0; i < n; i++) dst[doff + i] = src[soff + i];\<close> as a fold over the index, with the
  bytes of the two arrays as lists.
\<close>

definition copy_bytes :: "nat \<Rightarrow> 'a list \<Rightarrow> nat \<Rightarrow> 'a list \<Rightarrow> nat \<Rightarrow> 'a list" where
  "copy_bytes n dst doff src soff = fold (\<lambda>i d. d[doff + i := src ! (soff + i)]) [0..<n] dst"

lemma copy_bytes_0 [simp]: "copy_bytes 0 dst doff src soff = dst"
  by (simp add: copy_bytes_def)

lemma copy_bytes_Suc:
  "copy_bytes (Suc n) dst doff src soff =
    (copy_bytes n dst doff src soff)[doff + n := src ! (soff + n)]"
  by (simp add: copy_bytes_def)

lemma length_copy_bytes [simp]: "length (copy_bytes n dst doff src soff) = length dst"
  by (induction n) (auto simp: copy_bytes_Suc)

lemma nth_copy_bytes:
  "k < length dst \<Longrightarrow> copy_bytes n dst doff src soff ! k =
    (if doff \<le> k \<and> k < doff + n then src ! (soff + (k - doff)) else dst ! k)"
  by (induction n) (auto simp: copy_bytes_Suc nth_list_update less_Suc_eq)

lemma copy_bytes_splice:
  assumes "doff + n \<le> length dst" "soff + n \<le> length src"
  shows "copy_bytes n dst doff src soff =
    take doff dst @ take n (drop soff src) @ drop (doff + n) dst"
  using assms by (intro nth_equalityI) (auto simp: nth_copy_bytes nth_append)

lemma take_copy_bytes_prefix:
  assumes "doff + n \<le> length dst" "soff + n \<le> length src"
  shows "take (doff + n) (copy_bytes n dst doff src soff) =
    take doff dst @ take n (drop soff src)"
  using assms by (simp add: copy_bytes_splice)

section \<open>Byte order\<close>

definition read_u16_le :: "bytes \<Rightarrow> nat \<Rightarrow> u16" where
  "read_u16_le d p = ucast (d ! p) OR push_bit 8 (ucast (d ! (p + 1)))"

definition read_u32_le :: "bytes \<Rightarrow> nat \<Rightarrow> u32" where
  "read_u32_le d p = ucast (d ! p) OR push_bit 8 (ucast (d ! (p + 1)))
     OR push_bit 16 (ucast (d ! (p + 2))) OR push_bit 24 (ucast (d ! (p + 3)))"

definition read_u32_be :: "bytes \<Rightarrow> nat \<Rightarrow> u32" where
  "read_u32_be d p = push_bit 24 (ucast (d ! p)) OR push_bit 16 (ucast (d ! (p + 1)))
     OR push_bit 8 (ucast (d ! (p + 2))) OR ucast (d ! (p + 3))"

definition write_u16_le :: "bytes \<Rightarrow> nat \<Rightarrow> u16 \<Rightarrow> bytes" where
  "write_u16_le d p v = d[p := ucast v, p + 1 := ucast (drop_bit 8 v)]"

definition write_u32_le :: "bytes \<Rightarrow> nat \<Rightarrow> u32 \<Rightarrow> bytes" where
  "write_u32_le d p v = d[p := ucast v, p + 1 := ucast (drop_bit 8 v),
     p + 2 := ucast (drop_bit 16 v), p + 3 := ucast (drop_bit 24 v)]"

definition write_u16_be :: "bytes \<Rightarrow> nat \<Rightarrow> u16 \<Rightarrow> bytes" where
  "write_u16_be d p v = d[p := ucast (drop_bit 8 v), p + 1 := ucast v]"

definition write_u32_be :: "bytes \<Rightarrow> nat \<Rightarrow> u32 \<Rightarrow> bytes" where
  "write_u32_be d p v = d[p := ucast (drop_bit 24 v), p + 1 := ucast (drop_bit 16 v),
     p + 2 := ucast (drop_bit 8 v), p + 3 := ucast v]"

lemma length_write [simp]:
  "length (write_u16_le d p v) = length d" "length (write_u32_le d p w) = length d"
  "length (write_u16_be d p v) = length d" "length (write_u32_be d p w) = length d"
  by (simp_all add: write_u16_le_def write_u32_le_def write_u16_be_def write_u32_be_def)

lemma u32_bytes_rejoin:
  "ucast (ucast (v :: u32) :: u8) OR push_bit 8 (ucast (ucast (drop_bit 8 v) :: u8))
    OR push_bit 16 (ucast (ucast (drop_bit 16 v) :: u8))
    OR push_bit 24 (ucast (ucast (drop_bit 24 v) :: u8)) = v" (is "?l = v")
proof (rule bit_word_eqI)
  fix n assume "n < LENGTH(32)"
  then consider "n < 8" | "8 \<le> n" "n < 16" | "16 \<le> n" "n < 24" | "24 \<le> n" "n < 32"
    by fastforce
  then show "bit ?l n = bit v n" by cases (auto simp: bit_simps)
qed

lemma u16_bytes_rejoin:
  "ucast (ucast (v :: u16) :: u8) OR push_bit 8 (ucast (ucast (drop_bit 8 v) :: u8)) = v"
  by (rule bit_word_eqI) (auto simp: bit_simps not_less)

lemma read_u32_le_written [simp, byte_order]:
  "p + 4 \<le> length d \<Longrightarrow> read_u32_le (write_u32_le d p v) p = v"
  by (simp add: read_u32_le_def write_u32_le_def nth_list_update u32_bytes_rejoin)

lemma read_u16_le_written [simp, byte_order]:
  "p + 2 \<le> length d \<Longrightarrow> read_u16_le (write_u16_le d p v) p = v"
  by (simp add: read_u16_le_def write_u16_le_def nth_list_update u16_bytes_rejoin)

lemma read_u32_be_written [simp, byte_order]:
  assumes "p + 4 \<le> length d"
  shows "read_u32_be (write_u32_be d p v) p = v"
  using assms u32_bytes_rejoin [of v]
  by (simp add: read_u32_be_def write_u32_be_def nth_list_update ac_simps)

lemma nth_write_u32_le:
  "k < length d \<Longrightarrow> write_u32_le d p v ! k =
    (if k = p then ucast v else if k = p + 1 then ucast (drop_bit 8 v)
     else if k = p + 2 then ucast (drop_bit 16 v) else if k = p + 3 then ucast (drop_bit 24 v)
     else d ! k)"
  by (auto simp: write_u32_le_def nth_list_update)

lemma nth_write_u16_le:
  "k < length d \<Longrightarrow> write_u16_le d p v ! k =
    (if k = p then ucast v else if k = p + 1 then ucast (drop_bit 8 v) else d ! k)"
  by (auto simp: write_u16_le_def nth_list_update)

lemma read_write_u32_le_disjoint [byte_order]:
  assumes "q + 4 \<le> p \<or> p + 4 \<le> q"
  shows "read_u32_le (write_u32_le d p v) q = read_u32_le d q"
  using assms by (auto simp: read_u32_le_def write_u32_le_def)

lemma read_u16_write_u32_le_disjoint [byte_order]:
  assumes "q + 2 \<le> p \<or> p + 4 \<le> q"
  shows "read_u16_le (write_u32_le d p v) q = read_u16_le d q"
  using assms by (auto simp: read_u16_le_def write_u32_le_def)

lemma read_u32_write_u16_le_disjoint [byte_order]:
  assumes "q + 4 \<le> p \<or> p + 2 \<le> q"
  shows "read_u32_le (write_u16_le d p v) q = read_u32_le d q"
  using assms by (auto simp: read_u32_le_def write_u16_le_def)

lemma read_write_u16_le_disjoint [byte_order]:
  assumes "q + 2 \<le> p \<or> p + 2 \<le> q"
  shows "read_u16_le (write_u16_le d p v) q = read_u16_le d q"
  using assms by (auto simp: read_u16_le_def write_u16_le_def)

lemma read_u32_le_update [byte_order]:
  "p < q \<or> q + 4 \<le> p \<Longrightarrow> read_u32_le (d[p := b]) q = read_u32_le d q"
  by (auto simp: read_u32_le_def)

lemma read_u16_le_update [byte_order]:
  "p < q \<or> q + 2 \<le> p \<Longrightarrow> read_u16_le (d[p := b]) q = read_u16_le d q"
  by (auto simp: read_u16_le_def)

lemma nth_write_disjoint [byte_order]:
  "k < p \<or> p + 4 \<le> k \<Longrightarrow> write_u32_le d p v ! k = d ! k"
  "k < p \<or> p + 2 \<le> k \<Longrightarrow> write_u16_le d p w ! k = d ! k"
  by (auto simp: write_u32_le_def write_u16_le_def)

lemma nth_fold_clear:
  "length (fold (\<lambda>i d. d[i := z]) [0..<n] d) = length d"
  "k < length d \<Longrightarrow> fold (\<lambda>i d. d[i := z]) [0..<n] d ! k = (if k < n then z else d ! k)"
  by (induction n) (auto simp: nth_list_update less_Suc_eq)

lemma fold_clear:
  "fold (\<lambda>i d. d[i := z]) [0..<n] d = replicate (min n (length d)) z @ drop n d"
  by (rule nth_equalityI) (auto simp: nth_fold_clear nth_append)

lemma read_zeros [byte_order]:
  "p + 4 \<le> n \<Longrightarrow> read_u32_le (replicate n 0) p = 0"
  by (simp add: read_u32_le_def)

lemma read_u32_le_nth:
  assumes "k < 4"
  shows "ucast (drop_bit (8 * k) (read_u32_le e p)) = e ! (p + k)"
proof -
  consider "k = 0" | "k = 1" | "k = 2" | "k = 3" using assms by fastforce
  then show ?thesis
    by cases (rule bit_word_eqI, auto simp: read_u32_le_def bit_simps dest: bit_imp_le_length)+
qed

lemma read_u32_le_eqD:
  "read_u32_le e p = read_u32_le f q \<Longrightarrow> k < 4 \<Longrightarrow> e ! (p + k) = f ! (q + k)"
  by (metis read_u32_le_nth)

lemma read_u32_le_inj_byte:
  assumes "p + 4 \<le> length d" "p \<le> i" "i < p + 4" "b \<noteq> d ! i"
  shows "read_u32_le (d[i := b]) p \<noteq> read_u32_le d p"
proof -
  have "i - p < 4" using assms(2,3) by linarith
  then show ?thesis using assms read_u32_le_eqD [of "d[i := b]" p d p "i - p"] by auto
qed

end
