(* ===== verification/IsoTpTransport.thy ===== *)
theory IsoTpTransport
  imports Prelude
begin

text \<open>
  The ISO-TP (ISO 15765-2) channel of \<open>Core/Src/isotp_transport.c\<close>: segmentation and
  reassembly of messages of up to 4095 bytes over eight-byte Classic CAN frames, with flow
  control, separation time and the N_Bs and N_Cr timeouts.

  The channel record carries the bytes behind the two buffer pointers of the configuration
  (\<open>rx_buffer\<close>, \<open>tx_buffer\<close>), which the caller hands over for the life of the channel. A
  pointer argument that the code compares with NULL is an \<open>option\<close>; the result is the result
  code, the channel and the out-frame as the call leaves them. The two flags of type
  \<open>uint8_t\<close> that only take 0 and 1 are \<open>bool\<close>.
\<close>

section \<open>Data\<close>

datatype IsoTp_Result =
    ISOTP_RESULT_OK | ISOTP_RESULT_FRAME_READY | ISOTP_RESULT_MESSAGE_READY
  | ISOTP_RESULT_WAIT | ISOTP_RESULT_INVALID_ARGUMENT | ISOTP_RESULT_INVALID_FRAME
  | ISOTP_RESULT_PAYLOAD_TOO_LARGE | ISOTP_RESULT_RECEIVE_OVERFLOW
  | ISOTP_RESULT_REMOTE_OVERFLOW | ISOTP_RESULT_BUSY | ISOTP_RESULT_UNEXPECTED_FRAME
  | ISOTP_RESULT_SEQUENCE_ERROR | ISOTP_RESULT_TIMEOUT | ISOTP_RESULT_WAIT_LIMIT

datatype IsoTp_RxState = ISOTP_RX_IDLE | ISOTP_RX_RECEIVING | ISOTP_RX_COMPLETE

datatype IsoTp_TxState =
  ISOTP_TX_IDLE | ISOTP_TX_WAIT_FLOW_CONTROL | ISOTP_TX_SEND_CONSECUTIVE | ISOTP_TX_COMPLETE

record IsoTp_CanFrame =
  frame_data :: bytes
  frame_dlc :: u8

record IsoTp_Config =
  rx_buffer_capacity :: u16
  tx_buffer_capacity :: u16
  flow_control_timeout_us :: u32
  consecutive_frame_timeout_us :: u32
  rx_block_size :: u8
  rx_st_min :: u8
  max_wait_frames :: u8

record IsoTp_Channel =
  ch_config :: IsoTp_Config
  rx_buffer :: bytes
  tx_buffer :: bytes
  rx_state :: IsoTp_RxState
  tx_state :: IsoTp_TxState
  rx_length :: u16
  rx_offset :: u16
  tx_length :: u16
  tx_offset :: u16
  rx_deadline_us :: u32
  tx_deadline_us :: u32
  tx_st_min_us :: u32
  rx_next_sequence :: u8
  rx_block_count :: u8
  tx_next_sequence :: u8
  tx_block_remaining :: u8
  tx_wait_count :: u8
  ch_initialized :: bool

section \<open>Internal operations\<close>

definition IsoTp_ClearFrame :: "IsoTp_CanFrame \<Rightarrow> IsoTp_CanFrame" where
  "IsoTp_ClearFrame frame = frame\<lparr>frame_data := replicate 8 0, frame_dlc := 8\<rparr>"

definition IsoTp_DeadlineReached :: "u32 \<Rightarrow> u32 \<Rightarrow> bool" where
  "IsoTp_DeadlineReached now_us deadline_us \<longleftrightarrow> 0 \<le> sint (now_us - deadline_us)"

definition IsoTp_DecodeStMin :: "u8 \<Rightarrow> u32 option" where
  "IsoTp_DecodeStMin encoded =
    (if encoded \<le> 0x7F then Some (ucast encoded * 1000)
     else if 0xF1 \<le> encoded \<and> encoded \<le> 0xF9 then Some (ucast (encoded - 0xF0) * 100)
     else None)"

definition IsoTp_ResetReceiveState :: "IsoTp_Channel \<Rightarrow> IsoTp_Channel" where
  "IsoTp_ResetReceiveState ch = ch\<lparr>
     rx_state := ISOTP_RX_IDLE, rx_length := 0, rx_offset := 0, rx_deadline_us := 0,
     rx_next_sequence := 0, rx_block_count := 0\<rparr>"

definition IsoTp_ResetTransmitState :: "IsoTp_Channel \<Rightarrow> IsoTp_Channel" where
  "IsoTp_ResetTransmitState ch = ch\<lparr>
     tx_state := ISOTP_TX_IDLE, tx_length := 0, tx_offset := 0, tx_deadline_us := 0,
     tx_st_min_us := 0, tx_next_sequence := 0, tx_block_remaining := 0, tx_wait_count := 0\<rparr>"

definition IsoTp_BuildFlowControl :: "IsoTp_Channel \<Rightarrow> u8 \<Rightarrow> IsoTp_CanFrame \<Rightarrow> IsoTp_CanFrame" where
  "IsoTp_BuildFlowControl ch flow_status frame =
    (let frame = IsoTp_ClearFrame frame;
         d = (frame_data frame)[0 := 0x30 OR flow_status]
     in frame\<lparr>frame_data :=
          (if flow_status = 0
           then d[1 := rx_block_size (ch_config ch), 2 := rx_st_min (ch_config ch)]
           else d)\<rparr>)"

definition IsoTp_ReceiveSingleFrame ::
  "IsoTp_Channel \<Rightarrow> IsoTp_CanFrame \<Rightarrow> IsoTp_Result \<times> IsoTp_Channel" where
  "IsoTp_ReceiveSingleFrame ch frame =
    (if rx_state ch \<noteq> ISOTP_RX_IDLE then (ISOTP_RESULT_BUSY, ch)
     else
       let payload_length = frame_data frame ! 0 AND 0x0F in
       if payload_length = 0 \<or> payload_length > 7
          \<or> (ucast payload_length :: u16) > rx_buffer_capacity (ch_config ch)
          \<or> payload_length + 1 > frame_dlc frame
       then (ISOTP_RESULT_INVALID_FRAME, ch)
       else
         (ISOTP_RESULT_MESSAGE_READY, ch\<lparr>
            rx_buffer := copy_bytes (unat payload_length) (rx_buffer ch) 0 (frame_data frame) 1,
            rx_length := ucast payload_length,
            rx_offset := ucast payload_length,
            rx_state := ISOTP_RX_COMPLETE\<rparr>))"

definition IsoTp_ReceiveFirstFrame ::
  "IsoTp_Channel \<Rightarrow> IsoTp_CanFrame \<Rightarrow> u32 \<Rightarrow> IsoTp_CanFrame
    \<Rightarrow> IsoTp_Result \<times> IsoTp_Channel \<times> IsoTp_CanFrame" where
  "IsoTp_ReceiveFirstFrame ch frame now_us response_frame =
    (if rx_state ch \<noteq> ISOTP_RX_IDLE then (ISOTP_RESULT_BUSY, ch, response_frame)
     else if frame_dlc frame \<noteq> 8 then (ISOTP_RESULT_INVALID_FRAME, ch, response_frame)
     else
       let payload_length :: u16 =
             push_bit 8 (ucast (frame_data frame ! 0 AND 0x0F)) OR ucast (frame_data frame ! 1) in
       if payload_length \<le> 7 then (ISOTP_RESULT_INVALID_FRAME, ch, response_frame)
       else if payload_length > rx_buffer_capacity (ch_config ch) then
         (ISOTP_RESULT_RECEIVE_OVERFLOW, ch, IsoTp_BuildFlowControl ch 2 response_frame)
       else
         let ch = ch\<lparr>
           rx_buffer := copy_bytes 6 (rx_buffer ch) 0 (frame_data frame) 2,
           rx_length := payload_length,
           rx_offset := 6,
           rx_next_sequence := 1,
           rx_block_count := 0,
           rx_deadline_us := now_us + consecutive_frame_timeout_us (ch_config ch),
           rx_state := ISOTP_RX_RECEIVING\<rparr>
         in (ISOTP_RESULT_FRAME_READY, ch, IsoTp_BuildFlowControl ch 0 response_frame))"

definition IsoTp_ReceiveConsecutiveFrame ::
  "IsoTp_Channel \<Rightarrow> IsoTp_CanFrame \<Rightarrow> u32 \<Rightarrow> IsoTp_CanFrame
    \<Rightarrow> IsoTp_Result \<times> IsoTp_Channel \<times> IsoTp_CanFrame" where
  "IsoTp_ReceiveConsecutiveFrame ch frame now_us response_frame =
    (if rx_state ch \<noteq> ISOTP_RX_RECEIVING then (ISOTP_RESULT_UNEXPECTED_FRAME, ch, response_frame)
     else if IsoTp_DeadlineReached now_us (rx_deadline_us ch) then
       (ISOTP_RESULT_TIMEOUT, IsoTp_ResetReceiveState ch, response_frame)
     else if frame_data frame ! 0 AND 0x0F \<noteq> rx_next_sequence ch then
       (ISOTP_RESULT_SEQUENCE_ERROR, IsoTp_ResetReceiveState ch, response_frame)
     else
       let remaining = rx_length ch - rx_offset ch;
           copy_length :: u8 = (if remaining > 7 then 7 else ucast remaining) in
       if frame_dlc frame < 2 \<or> copy_length + 1 > frame_dlc frame then
         (ISOTP_RESULT_INVALID_FRAME, IsoTp_ResetReceiveState ch, response_frame)
       else
         let ch = ch\<lparr>
           rx_buffer := copy_bytes (unat copy_length) (rx_buffer ch) (unat (rx_offset ch))
                          (frame_data frame) 1,
           rx_offset := rx_offset ch + ucast copy_length,
           rx_next_sequence := (rx_next_sequence ch + 1) AND 0x0F\<rparr> in
         if rx_offset ch = rx_length ch then
           (ISOTP_RESULT_MESSAGE_READY,
            ch\<lparr>rx_state := ISOTP_RX_COMPLETE, rx_deadline_us := 0\<rparr>, response_frame)
         else
           let ch = ch\<lparr>rx_deadline_us :=
                         now_us + consecutive_frame_timeout_us (ch_config ch)\<rparr> in
           if rx_block_size (ch_config ch) \<noteq> 0 then
             let ch = ch\<lparr>rx_block_count := rx_block_count ch + 1\<rparr> in
             if rx_block_count ch \<ge> rx_block_size (ch_config ch) then
               let ch = ch\<lparr>rx_block_count := 0\<rparr> in
               (ISOTP_RESULT_FRAME_READY, ch, IsoTp_BuildFlowControl ch 0 response_frame)
             else (ISOTP_RESULT_OK, ch, response_frame)
           else (ISOTP_RESULT_OK, ch, response_frame))"

definition IsoTp_ReceiveFlowControl ::
  "IsoTp_Channel \<Rightarrow> IsoTp_CanFrame \<Rightarrow> u32 \<Rightarrow> IsoTp_Result \<times> IsoTp_Channel" where
  "IsoTp_ReceiveFlowControl ch frame now_us =
    (if tx_state ch \<noteq> ISOTP_TX_WAIT_FLOW_CONTROL then (ISOTP_RESULT_UNEXPECTED_FRAME, ch)
     else if IsoTp_DeadlineReached now_us (tx_deadline_us ch) then
       (ISOTP_RESULT_TIMEOUT, IsoTp_ResetTransmitState ch)
     else if frame_dlc frame < 3 then
       (ISOTP_RESULT_INVALID_FRAME, IsoTp_ResetTransmitState ch)
     else
       let flow_status = frame_data frame ! 0 AND 0x0F in
       if flow_status = 0 then
         (case IsoTp_DecodeStMin (frame_data frame ! 2) of
            None \<Rightarrow> (ISOTP_RESULT_INVALID_FRAME, IsoTp_ResetTransmitState ch)
          | Some st_min_us \<Rightarrow>
              (ISOTP_RESULT_OK, ch\<lparr>
                 tx_block_remaining := frame_data frame ! 1,
                 tx_st_min_us := st_min_us,
                 tx_deadline_us := now_us,
                 tx_wait_count := 0,
                 tx_state := ISOTP_TX_SEND_CONSECUTIVE\<rparr>))
       else if flow_status = 1 then
         (if tx_wait_count ch \<ge> max_wait_frames (ch_config ch) then
            (ISOTP_RESULT_WAIT_LIMIT, IsoTp_ResetTransmitState ch)
          else
            (ISOTP_RESULT_WAIT, ch\<lparr>
               tx_wait_count := tx_wait_count ch + 1,
               tx_deadline_us := now_us + flow_control_timeout_us (ch_config ch)\<rparr>))
       else if flow_status = 2 then (ISOTP_RESULT_REMOTE_OVERFLOW, IsoTp_ResetTransmitState ch)
       else (ISOTP_RESULT_INVALID_FRAME, IsoTp_ResetTransmitState ch))"

section \<open>The interface of the channel\<close>

text \<open>\<open>*channel = (IsoTp_Channel_t){0}\<close> with the buffers of the configuration attached.\<close>

definition IsoTp_Init ::
  "IsoTp_Channel option \<Rightarrow> (IsoTp_Config \<times> bytes option \<times> bytes option) option
    \<Rightarrow> IsoTp_Result \<times> IsoTp_Channel option" where
  "IsoTp_Init channel config =
    (case (channel, config) of
       (Some _, Some (cfg, Some rxb, Some txb)) \<Rightarrow>
         (if rx_buffer_capacity cfg = 0 \<or> tx_buffer_capacity cfg = 0
             \<or> flow_control_timeout_us cfg = 0 \<or> flow_control_timeout_us cfg > 0x7FFFFFFF
             \<or> consecutive_frame_timeout_us cfg = 0
             \<or> consecutive_frame_timeout_us cfg > 0x7FFFFFFF
             \<or> IsoTp_DecodeStMin (rx_st_min cfg) = None
          then (ISOTP_RESULT_INVALID_ARGUMENT, channel)
          else (ISOTP_RESULT_OK, Some \<lparr>
             ch_config = cfg, rx_buffer = rxb, tx_buffer = txb,
             rx_state = ISOTP_RX_IDLE, tx_state = ISOTP_TX_IDLE,
             rx_length = 0, rx_offset = 0, tx_length = 0, tx_offset = 0,
             rx_deadline_us = 0, tx_deadline_us = 0, tx_st_min_us = 0,
             rx_next_sequence = 0, rx_block_count = 0, tx_next_sequence = 0,
             tx_block_remaining = 0, tx_wait_count = 0, ch_initialized = True\<rparr>))
     | _ \<Rightarrow> (ISOTP_RESULT_INVALID_ARGUMENT, channel))"

definition IsoTp_StartTransmit_body ::
  "IsoTp_Channel \<Rightarrow> bytes \<Rightarrow> u16 \<Rightarrow> u32 \<Rightarrow> IsoTp_CanFrame
    \<Rightarrow> IsoTp_Result \<times> IsoTp_Channel \<times> IsoTp_CanFrame" where
  "IsoTp_StartTransmit_body ch payload payload_length now_us frame =
    (if \<not> ch_initialized ch \<or> payload_length = 0 then (ISOTP_RESULT_INVALID_ARGUMENT, ch, frame)
     else if payload_length > 4095 \<or> payload_length > tx_buffer_capacity (ch_config ch) then
       (ISOTP_RESULT_PAYLOAD_TOO_LARGE, ch, frame)
     else if tx_state ch = ISOTP_TX_WAIT_FLOW_CONTROL \<or> tx_state ch = ISOTP_TX_SEND_CONSECUTIVE
     then (ISOTP_RESULT_BUSY, ch, frame)
     else
       let ch = ch\<lparr>
             tx_buffer := copy_bytes (unat payload_length) (tx_buffer ch) 0 payload 0,
             tx_length := payload_length,
             tx_wait_count := 0\<rparr>;
           frame = IsoTp_ClearFrame frame in
       if payload_length \<le> 7 then
         (ISOTP_RESULT_FRAME_READY,
          ch\<lparr>tx_offset := payload_length, tx_state := ISOTP_TX_COMPLETE\<rparr>,
          frame\<lparr>frame_data :=
            copy_bytes (unat payload_length)
              ((frame_data frame)[0 := ucast payload_length]) 1 (tx_buffer ch) 0\<rparr>)
       else
         (ISOTP_RESULT_FRAME_READY,
          ch\<lparr>tx_offset := 6, tx_next_sequence := 1, tx_block_remaining := 0, tx_st_min_us := 0,
             tx_deadline_us := now_us + flow_control_timeout_us (ch_config ch),
             tx_state := ISOTP_TX_WAIT_FLOW_CONTROL\<rparr>,
          frame\<lparr>frame_data :=
            copy_bytes 6
              ((frame_data frame)[0 := ucast (0x10 OR (drop_bit 8 payload_length AND 0x0F)),
                                  1 := ucast payload_length]) 2 (tx_buffer ch) 0\<rparr>))"

definition IsoTp_StartTransmit ::
  "IsoTp_Channel option \<Rightarrow> bytes option \<Rightarrow> u16 \<Rightarrow> u32 \<Rightarrow> IsoTp_CanFrame option
    \<Rightarrow> IsoTp_Result \<times> IsoTp_Channel option \<times> IsoTp_CanFrame option" where
  "IsoTp_StartTransmit channel payload payload_length now_us frame =
    (case (channel, payload, frame) of
       (Some ch, Some p, Some f) \<Rightarrow>
         (case IsoTp_StartTransmit_body ch p payload_length now_us f of
            (r, ch', f') \<Rightarrow> (r, Some ch', Some f'))
     | _ \<Rightarrow> (ISOTP_RESULT_INVALID_ARGUMENT, channel, frame))"

definition IsoTp_OnCanFrame_body ::
  "IsoTp_Channel \<Rightarrow> IsoTp_CanFrame \<Rightarrow> u32 \<Rightarrow> IsoTp_CanFrame
    \<Rightarrow> IsoTp_Result \<times> IsoTp_Channel \<times> IsoTp_CanFrame" where
  "IsoTp_OnCanFrame_body ch frame now_us response_frame =
    (if \<not> ch_initialized ch \<or> frame_dlc frame = 0 \<or> frame_dlc frame > 8 then
       (ISOTP_RESULT_INVALID_ARGUMENT, ch, response_frame)
     else
       let pci_type = frame_data frame ! 0 AND 0xF0 in
       if pci_type = 0x00 then
         (case IsoTp_ReceiveSingleFrame ch frame of (r, ch') \<Rightarrow> (r, ch', response_frame))
       else if pci_type = 0x10 then IsoTp_ReceiveFirstFrame ch frame now_us response_frame
       else if pci_type = 0x20 then IsoTp_ReceiveConsecutiveFrame ch frame now_us response_frame
       else if pci_type = 0x30 then
         (case IsoTp_ReceiveFlowControl ch frame now_us of (r, ch') \<Rightarrow> (r, ch', response_frame))
       else (ISOTP_RESULT_INVALID_FRAME, ch, response_frame))"

definition IsoTp_OnCanFrame ::
  "IsoTp_Channel option \<Rightarrow> IsoTp_CanFrame option \<Rightarrow> u32 \<Rightarrow> IsoTp_CanFrame option
    \<Rightarrow> IsoTp_Result \<times> IsoTp_Channel option \<times> IsoTp_CanFrame option" where
  "IsoTp_OnCanFrame channel frame now_us response_frame =
    (case (channel, frame, response_frame) of
       (Some ch, Some f, Some rf) \<Rightarrow>
         (case IsoTp_OnCanFrame_body ch f now_us rf of
            (r, ch', rf') \<Rightarrow> (r, Some ch', Some rf'))
     | _ \<Rightarrow> (ISOTP_RESULT_INVALID_ARGUMENT, channel, response_frame))"

definition IsoTp_Process_body ::
  "IsoTp_Channel \<Rightarrow> u32 \<Rightarrow> IsoTp_CanFrame
    \<Rightarrow> IsoTp_Result \<times> IsoTp_Channel \<times> IsoTp_CanFrame" where
  "IsoTp_Process_body ch now_us frame =
    (if \<not> ch_initialized ch then (ISOTP_RESULT_INVALID_ARGUMENT, ch, frame)
     else if rx_state ch = ISOTP_RX_RECEIVING \<and> IsoTp_DeadlineReached now_us (rx_deadline_us ch)
     then (ISOTP_RESULT_TIMEOUT, IsoTp_ResetReceiveState ch, frame)
     else if tx_state ch = ISOTP_TX_WAIT_FLOW_CONTROL
             \<and> IsoTp_DeadlineReached now_us (tx_deadline_us ch)
     then (ISOTP_RESULT_TIMEOUT, IsoTp_ResetTransmitState ch, frame)
     else if tx_state ch \<noteq> ISOTP_TX_SEND_CONSECUTIVE then (ISOTP_RESULT_WAIT, ch, frame)
     else if \<not> IsoTp_DeadlineReached now_us (tx_deadline_us ch) then (ISOTP_RESULT_WAIT, ch, frame)
     else
       let remaining = tx_length ch - tx_offset ch;
           copy_length :: u8 = (if remaining > 7 then 7 else ucast remaining);
           frame = IsoTp_ClearFrame frame;
           frame = frame\<lparr>frame_data :=
             copy_bytes (unat copy_length)
               ((frame_data frame)[0 := 0x20 OR tx_next_sequence ch]) 1
               (tx_buffer ch) (unat (tx_offset ch))\<rparr>;
           ch = ch\<lparr>tx_offset := tx_offset ch + ucast copy_length,
                   tx_next_sequence := (tx_next_sequence ch + 1) AND 0x0F\<rparr> in
       if tx_offset ch = tx_length ch then
         (ISOTP_RESULT_FRAME_READY,
          ch\<lparr>tx_state := ISOTP_TX_COMPLETE, tx_deadline_us := 0\<rparr>, frame)
       else
         let paced = (\<lambda>ch. (ISOTP_RESULT_FRAME_READY,
                              ch\<lparr>tx_deadline_us := now_us + tx_st_min_us ch\<rparr>, frame)) in
         if tx_block_remaining ch \<noteq> 0 then
           let ch = ch\<lparr>tx_block_remaining := tx_block_remaining ch - 1\<rparr> in
           if tx_block_remaining ch = 0 then
             (ISOTP_RESULT_FRAME_READY,
              ch\<lparr>tx_state := ISOTP_TX_WAIT_FLOW_CONTROL,
                 tx_deadline_us := now_us + flow_control_timeout_us (ch_config ch)\<rparr>, frame)
           else paced ch
         else paced ch)"

definition IsoTp_Process ::
  "IsoTp_Channel option \<Rightarrow> u32 \<Rightarrow> IsoTp_CanFrame option
    \<Rightarrow> IsoTp_Result \<times> IsoTp_Channel option \<times> IsoTp_CanFrame option" where
  "IsoTp_Process channel now_us frame =
    (case (channel, frame) of
       (Some ch, Some f) \<Rightarrow>
         (case IsoTp_Process_body ch now_us f of (r, ch', f') \<Rightarrow> (r, Some ch', Some f'))
     | _ \<Rightarrow> (ISOTP_RESULT_INVALID_ARGUMENT, channel, frame))"

definition IsoTp_HasReceivedMessage :: "IsoTp_Channel option \<Rightarrow> bool" where
  "IsoTp_HasReceivedMessage channel =
    (case channel of None \<Rightarrow> False
     | Some ch \<Rightarrow> ch_initialized ch \<and> rx_state ch = ISOTP_RX_COMPLETE)"

definition IsoTp_GetReceivedData :: "IsoTp_Channel option \<Rightarrow> bytes option" where
  "IsoTp_GetReceivedData channel =
    (if IsoTp_HasReceivedMessage channel then map_option rx_buffer channel else None)"

definition IsoTp_GetReceivedLength :: "IsoTp_Channel option \<Rightarrow> u16" where
  "IsoTp_GetReceivedLength channel =
    (if IsoTp_HasReceivedMessage channel then (case channel of Some ch \<Rightarrow> rx_length ch | None \<Rightarrow> 0)
     else 0)"

definition IsoTp_IsTransmitComplete :: "IsoTp_Channel option \<Rightarrow> bool" where
  "IsoTp_IsTransmitComplete channel =
    (case channel of None \<Rightarrow> False
     | Some ch \<Rightarrow> ch_initialized ch \<and> tx_state ch = ISOTP_TX_COMPLETE)"

definition IsoTp_ReleaseReceivedMessage :: "IsoTp_Channel option \<Rightarrow> IsoTp_Channel option" where
  "IsoTp_ReleaseReceivedMessage channel = map_option (\<lambda>ch.
     if ch_initialized ch \<and> rx_state ch = ISOTP_RX_COMPLETE
     then IsoTp_ResetReceiveState ch else ch) channel"

definition IsoTp_CancelReceive :: "IsoTp_Channel option \<Rightarrow> IsoTp_Channel option" where
  "IsoTp_CancelReceive channel = map_option (\<lambda>ch.
     if ch_initialized ch then IsoTp_ResetReceiveState ch else ch) channel"

definition IsoTp_CancelTransmit :: "IsoTp_Channel option \<Rightarrow> IsoTp_Channel option" where
  "IsoTp_CancelTransmit channel = map_option (\<lambda>ch.
     if ch_initialized ch then IsoTp_ResetTransmitState ch else ch) channel"


section \<open>Well-formed channels\<close>

text \<open>
  What \<open>IsoTp_Init\<close> checks of the configuration, and what holds of a message in progress:
  the offset is 6 plus a multiple of 7 below the length, the length fits the buffer, and the
  sequence number is the number of consecutive frames so far, plus one, modulo 16.
\<close>

definition isotp_config_ok :: "IsoTp_Config \<Rightarrow> bool" where
  "isotp_config_ok cfg \<longleftrightarrow> rx_buffer_capacity cfg \<noteq> 0 \<and> tx_buffer_capacity cfg \<noteq> 0
     \<and> 0 < flow_control_timeout_us cfg \<and> flow_control_timeout_us cfg \<le> 0x7FFFFFFF
     \<and> 0 < consecutive_frame_timeout_us cfg \<and> consecutive_frame_timeout_us cfg \<le> 0x7FFFFFFF
     \<and> IsoTp_DecodeStMin (rx_st_min cfg) \<noteq> None"

definition isotp_progress_ok :: "u16 \<Rightarrow> u16 \<Rightarrow> u16 \<Rightarrow> u8 \<Rightarrow> bool" where
  "isotp_progress_ok cap len off sn \<longleftrightarrow>
     7 < len \<and> len \<le> cap \<and> len \<le> 4095 \<and> 6 \<le> off \<and> off < len
     \<and> 7 dvd (unat off - 6)
     \<and> unat sn = ((unat off - 6) div 7 + 1) mod 16"

definition isotp_rx_inv :: "IsoTp_Channel \<Rightarrow> bool" where
  "isotp_rx_inv ch \<longleftrightarrow>
     length (rx_buffer ch) = unat (rx_buffer_capacity (ch_config ch)) \<and>
     (case rx_state ch of
        ISOTP_RX_IDLE \<Rightarrow> rx_length ch = 0 \<and> rx_offset ch = 0
      | ISOTP_RX_RECEIVING \<Rightarrow>
          isotp_progress_ok (rx_buffer_capacity (ch_config ch)) (rx_length ch) (rx_offset ch)
            (rx_next_sequence ch)
          \<and> (rx_block_size (ch_config ch) \<noteq> 0 \<longrightarrow> rx_block_count ch < rx_block_size (ch_config ch))
      | ISOTP_RX_COMPLETE \<Rightarrow>
          0 < rx_length ch \<and> rx_length ch \<le> rx_buffer_capacity (ch_config ch)
          \<and> rx_offset ch = rx_length ch)"

definition isotp_tx_inv :: "IsoTp_Channel \<Rightarrow> bool" where
  "isotp_tx_inv ch \<longleftrightarrow>
     length (tx_buffer ch) = unat (tx_buffer_capacity (ch_config ch)) \<and>
     (case tx_state ch of
        ISOTP_TX_IDLE \<Rightarrow> True
      | ISOTP_TX_COMPLETE \<Rightarrow>
          tx_offset ch = tx_length ch \<and> tx_length ch \<le> tx_buffer_capacity (ch_config ch)
      | _ \<Rightarrow>
          isotp_progress_ok (tx_buffer_capacity (ch_config ch)) (tx_length ch) (tx_offset ch)
            (tx_next_sequence ch))"

definition isotp_inv :: "IsoTp_Channel \<Rightarrow> bool" where
  "isotp_inv ch \<longleftrightarrow> ch_initialized ch \<and> isotp_config_ok (ch_config ch)
     \<and> isotp_rx_inv ch \<and> isotp_tx_inv ch"

lemma IsoTp_DeadlineReached_eq: "IsoTp_DeadlineReached = time_reached"
  by (intro ext) (simp add: IsoTp_DeadlineReached_def time_reached_def)

lemma chunk_length:
  fixes len off :: u16
  assumes "off \<le> len"
  shows "unat (if len - off > 7 then 7 else ucast (len - off) :: u8)
    = min 7 (unat len - unat off)"
proof (cases "len - off > 7")
  case True then show ?thesis using assms by (simp add: word_less_nat_alt unat_sub_le)
next
  case False
  then have "unat (len - off) \<le> 7" by (simp add: word_less_nat_alt)
  then show ?thesis using False assms by (simp add: unat_ucast_small unat_sub_le)
qed

lemma next_sequence: "unat ((s + 1) AND 0x0F :: u8) = (unat s + 1) mod 16"
proof -
  have "unat (s + 1) = (unat s + 1) mod 256" by (simp add: unat_word_ariths)
  then show ?thesis by (simp add: unat_and_mask4 mod_mod_cancel)
qed

text \<open>One more frame moves the offset by at most seven; unless it ends the message, by seven.\<close>

lemma progress_step:
  assumes ok: "isotp_progress_ok cap len off sn"
    and n: "unat n = min 7 (unat len - unat off)"
  shows "unat (off + ucast (n :: u8)) = unat off + unat n"
    and "off + ucast n \<noteq> len \<Longrightarrow>
         isotp_progress_ok cap len (off + ucast n) ((sn + 1) AND 0x0F)"
    and "unat off + unat n \<le> unat len"
    and "unat len \<le> unat cap"
proof -
  show u: "unat (off + ucast n) = unat off + unat n"
    using ok n by (subst unat_add_small) (auto simp: isotp_progress_ok_def nat_of_word)
  show "unat off + unat n \<le> unat len" "unat len \<le> unat cap"
    using ok n by (auto simp: isotp_progress_ok_def nat_of_word)
  assume "off + ucast n \<noteq> len"
  then have ne: "unat off + unat n \<noteq> unat len" using u by (metis word_unat_eq_iff)
  with ok n have n7: "unat n = 7" by (auto simp: isotp_progress_ok_def nat_of_word)
  obtain k where k: "unat off - 6 = 7 * k" using ok by (auto simp: isotp_progress_ok_def dvd_def)
  then have k': "unat off = 7 * k + 6" using ok by (auto simp: isotp_progress_ok_def nat_of_word)
  show "isotp_progress_ok cap len (off + ucast n) ((sn + 1) AND 0x0F)"
    using ok n7 ne k' n unfolding isotp_progress_ok_def word_less_nat_alt word_le_nat_alt u next_sequence
    by (auto simp: mod_Suc_eq)
qed


lemma progress_bounds:
  assumes "isotp_progress_ok cap len off sn"
  shows "off \<le> len" "len \<le> cap" "0 < len"
  using assms unfolding isotp_progress_ok_def by (auto simp: nat_of_word)

lemma tx_inv_frame [simp]:
  "isotp_tx_inv (ch\<lparr>rx_buffer := b\<rparr>) = isotp_tx_inv ch"
  "isotp_tx_inv (ch\<lparr>rx_state := s\<rparr>) = isotp_tx_inv ch"
  "isotp_tx_inv (ch\<lparr>rx_length := w\<rparr>) = isotp_tx_inv ch"
  "isotp_tx_inv (ch\<lparr>rx_offset := w\<rparr>) = isotp_tx_inv ch"
  "isotp_tx_inv (ch\<lparr>rx_deadline_us := d\<rparr>) = isotp_tx_inv ch"
  "isotp_tx_inv (ch\<lparr>rx_next_sequence := c\<rparr>) = isotp_tx_inv ch"
  "isotp_tx_inv (ch\<lparr>rx_block_count := c\<rparr>) = isotp_tx_inv ch"
  "isotp_tx_inv (ch\<lparr>tx_deadline_us := d\<rparr>) = isotp_tx_inv ch"
  "isotp_tx_inv (ch\<lparr>tx_wait_count := c\<rparr>) = isotp_tx_inv ch"
  "isotp_tx_inv (ch\<lparr>tx_block_remaining := c\<rparr>) = isotp_tx_inv ch"
  "isotp_tx_inv (ch\<lparr>tx_st_min_us := d\<rparr>) = isotp_tx_inv ch"
  by (simp_all add: isotp_tx_inv_def cong: IsoTp_TxState.case_cong)

lemma rx_inv_frame [simp]:
  "isotp_rx_inv (ch\<lparr>tx_buffer := b\<rparr>) = isotp_rx_inv ch"
  "isotp_rx_inv (ch\<lparr>tx_state := s\<rparr>) = isotp_rx_inv ch"
  "isotp_rx_inv (ch\<lparr>tx_length := w\<rparr>) = isotp_rx_inv ch"
  "isotp_rx_inv (ch\<lparr>tx_offset := w\<rparr>) = isotp_rx_inv ch"
  "isotp_rx_inv (ch\<lparr>tx_deadline_us := d\<rparr>) = isotp_rx_inv ch"
  "isotp_rx_inv (ch\<lparr>tx_st_min_us := d\<rparr>) = isotp_rx_inv ch"
  "isotp_rx_inv (ch\<lparr>tx_next_sequence := c\<rparr>) = isotp_rx_inv ch"
  "isotp_rx_inv (ch\<lparr>tx_block_remaining := c\<rparr>) = isotp_rx_inv ch"
  "isotp_rx_inv (ch\<lparr>tx_wait_count := c\<rparr>) = isotp_rx_inv ch"
  "isotp_rx_inv (ch\<lparr>rx_deadline_us := d\<rparr>) = isotp_rx_inv ch"
  by (simp_all add: isotp_rx_inv_def cong: IsoTp_RxState.case_cong)

lemma inv_reset [simp]:
  "isotp_rx_inv ch \<Longrightarrow> isotp_rx_inv (IsoTp_ResetReceiveState ch)"
  "isotp_tx_inv ch \<Longrightarrow> isotp_tx_inv (IsoTp_ResetTransmitState ch)"
  "isotp_tx_inv (IsoTp_ResetReceiveState ch) = isotp_tx_inv ch"
  "isotp_rx_inv (IsoTp_ResetTransmitState ch) = isotp_rx_inv ch"
  by (simp_all add: IsoTp_ResetReceiveState_def IsoTp_ResetTransmitState_def)
    (simp_all add: isotp_rx_inv_def isotp_tx_inv_def)

lemma reset_config [simp]:
  "ch_config (IsoTp_ResetReceiveState ch) = ch_config ch"
  "ch_config (IsoTp_ResetTransmitState ch) = ch_config ch"
  "ch_initialized (IsoTp_ResetReceiveState ch) = ch_initialized ch"
  "ch_initialized (IsoTp_ResetTransmitState ch) = ch_initialized ch"
  by (simp_all add: IsoTp_ResetReceiveState_def IsoTp_ResetTransmitState_def)

lemma inv_ReceiveSingleFrame:
  assumes "isotp_inv ch" "IsoTp_ReceiveSingleFrame ch f = (r, ch')"
  shows "isotp_inv ch'"
  using assms
  by (auto simp: IsoTp_ReceiveSingleFrame_def isotp_inv_def Let_def not_less
      word_neq_0_conv [symmetric] nat_of_word split: if_splits)
    (simp add: isotp_rx_inv_def nat_of_word unat_gt_0)

lemma ff_length_bound:
  "push_bit 8 (ucast (x AND 0x0F :: u8)) OR ucast (y :: u8) \<le> (4095 :: u16)"
proof -
  define w where "w = push_bit 8 (ucast (x AND 0x0F :: u8)) OR (ucast (y :: u8) :: u16)"
  have b: "n < 12" if "bit w n" for n
    using that bit_imp_le_length [of y n] by (auto simp: w_def and_low_nibble bit_simps)
  have eq: "w = take_bit 12 w"
    by (rule bit_word_eqI) (use b in \<open>auto simp: bit_take_bit_iff\<close>)
  have "unat w = take_bit 12 (unat w)"
    by (subst eq) (rule unsigned_take_bit_eq)
  then have "unat w < 2 ^ 12" by (metis take_bit_nat_less_exp)
  then show ?thesis by (simp add: w_def word_le_nat_alt)
qed

lemma inv_ReceiveFirstFrame:
  assumes "isotp_inv ch" "IsoTp_ReceiveFirstFrame ch f now rf = (r, ch', rf')"
  shows "isotp_inv ch'"
  using assms
  apply (auto simp: IsoTp_ReceiveFirstFrame_def isotp_inv_def Let_def not_less not_le
      split: if_splits)
  apply (auto simp: isotp_rx_inv_def isotp_progress_ok_def ff_length_bound not_le not_less word_neq_0_conv)
  apply (auto simp: nat_of_word)
  done

lemma inv_ReceiveConsecutiveFrame:
  assumes "isotp_inv ch" "IsoTp_ReceiveConsecutiveFrame ch f now rf = (r, ch', rf')"
  shows "isotp_inv ch'"
proof (cases "rx_state ch = ISOTP_RX_RECEIVING")
  case False then show ?thesis using assms by (auto simp: IsoTp_ReceiveConsecutiveFrame_def)
next
  case True
  define n :: u8 where
    "n = (if rx_length ch - rx_offset ch > 7 then 7 else ucast (rx_length ch - rx_offset ch))"
  have ok: "isotp_progress_ok (rx_buffer_capacity (ch_config ch)) (rx_length ch) (rx_offset ch)
              (rx_next_sequence ch)"
    using True assms(1) by (simp add: isotp_inv_def isotp_rx_inv_def)
  note st = progress_step(2) [OF ok chunk_length [OF progress_bounds(1) [OF ok]], folded n_def]
    progress_bounds [OF ok]
  show ?thesis using assms True st
    by (auto simp: IsoTp_ReceiveConsecutiveFrame_def isotp_inv_def Let_def n_def [symmetric]
        split: if_splits)
      (auto simp: isotp_rx_inv_def not_le word_neq_0_conv)
qed

lemma inv_ReceiveFlowControl:
  assumes "isotp_inv ch" "IsoTp_ReceiveFlowControl ch f now = (r, ch')"
  shows "isotp_inv ch'"
  using assms
  by (auto simp: IsoTp_ReceiveFlowControl_def isotp_inv_def Let_def split: if_splits option.splits)
    (simp add: isotp_tx_inv_def)

lemma inv_OnCanFrame:
  assumes "isotp_inv ch" "IsoTp_OnCanFrame_body ch f now rf = (r, ch', rf')"
  shows "isotp_inv ch'"
  using assms
  by (auto simp: IsoTp_OnCanFrame_body_def Let_def split: if_splits prod.splits
      dest: inv_ReceiveSingleFrame inv_ReceiveFirstFrame inv_ReceiveConsecutiveFrame
        inv_ReceiveFlowControl)

lemma inv_StartTransmit:
  assumes "isotp_inv ch" "IsoTp_StartTransmit_body ch p len now f = (r, ch', f')"
  shows "isotp_inv ch'"
  using assms
  apply (auto simp: IsoTp_StartTransmit_body_def isotp_inv_def Let_def not_less not_le split: if_splits)
   apply (auto simp: isotp_tx_inv_def isotp_progress_ok_def nat_of_word)
  done

lemma inv_Process:
  assumes "isotp_inv ch" "IsoTp_Process_body ch now f = (r, ch', f')"
  shows "isotp_inv ch'"
proof (cases "tx_state ch = ISOTP_TX_SEND_CONSECUTIVE")
  case False then show ?thesis using assms
    by (auto simp: IsoTp_Process_body_def isotp_inv_def split: if_splits)
next
  case True
  define n :: u8 where
    "n = (if tx_length ch - tx_offset ch > 7 then 7 else ucast (tx_length ch - tx_offset ch))"
  have ok: "isotp_progress_ok (tx_buffer_capacity (ch_config ch)) (tx_length ch) (tx_offset ch)
              (tx_next_sequence ch)"
    using True assms(1) by (simp add: isotp_inv_def isotp_tx_inv_def)
  note st = progress_step(2) [OF ok chunk_length [OF progress_bounds(1) [OF ok]], folded n_def]
    progress_bounds [OF ok]
  show ?thesis using assms True st
    by (auto simp: IsoTp_Process_body_def isotp_inv_def Let_def n_def [symmetric]
        split: if_splits)
      (auto simp: isotp_tx_inv_def)
qed

section \<open>Every call keeps the channel well formed\<close>

datatype isotp_call =
    CallStartTransmit bytes u16 u32 IsoTp_CanFrame
  | CallOnCanFrame IsoTp_CanFrame u32 IsoTp_CanFrame
  | CallProcess u32 IsoTp_CanFrame
  | CallRelease
  | CallCancelReceive
  | CallCancelTransmit

fun isotp_step :: "isotp_call \<Rightarrow> IsoTp_Channel option \<Rightarrow> IsoTp_Channel option" where
  "isotp_step (CallStartTransmit p n now f) ch =
     fst (snd (IsoTp_StartTransmit ch (Some p) n now (Some f)))"
| "isotp_step (CallOnCanFrame f now rf) ch =
     fst (snd (IsoTp_OnCanFrame ch (Some f) now (Some rf)))"
| "isotp_step (CallProcess now f) ch = fst (snd (IsoTp_Process ch now (Some f)))"
| "isotp_step CallRelease ch = IsoTp_ReleaseReceivedMessage ch"
| "isotp_step CallCancelReceive ch = IsoTp_CancelReceive ch"
| "isotp_step CallCancelTransmit ch = IsoTp_CancelTransmit ch"

lemma inv_resets [simp]:
  "isotp_inv ch \<Longrightarrow> isotp_inv (IsoTp_ResetReceiveState ch)"
  "isotp_inv ch \<Longrightarrow> isotp_inv (IsoTp_ResetTransmitState ch)"
  by (simp_all add: isotp_inv_def)

lemma config_StartTransmit:
  "IsoTp_StartTransmit_body ch p n now f = (r, ch', f') \<Longrightarrow> ch_config ch' = ch_config ch"
  by (auto simp: IsoTp_StartTransmit_body_def Let_def split: if_splits)

lemma config_OnCanFrame:
  "IsoTp_OnCanFrame_body ch f now rf = (r, ch', rf') \<Longrightarrow> ch_config ch' = ch_config ch"
  by (auto simp: IsoTp_OnCanFrame_body_def IsoTp_ReceiveSingleFrame_def IsoTp_ReceiveFirstFrame_def
      IsoTp_ReceiveConsecutiveFrame_def IsoTp_ReceiveFlowControl_def Let_def
      split: if_splits option.splits)

lemma config_Process:
  "IsoTp_Process_body ch now f = (r, ch', f') \<Longrightarrow> ch_config ch' = ch_config ch"
  by (auto simp: IsoTp_Process_body_def Let_def split: if_splits)

lemma isotp_step_inv:
  assumes "isotp_inv ch"
  shows "\<exists>ch'. isotp_step c (Some ch) = Some ch' \<and> isotp_inv ch' \<and> ch_config ch' = ch_config ch"
  using assms
  by (cases c)
    (auto simp: IsoTp_StartTransmit_def IsoTp_OnCanFrame_def IsoTp_Process_def
      IsoTp_ReleaseReceivedMessage_def IsoTp_CancelReceive_def IsoTp_CancelTransmit_def
      split: prod.splits
      dest: inv_StartTransmit inv_OnCanFrame inv_Process
        config_StartTransmit config_OnCanFrame config_Process)

lemma isotp_steps_inv:
  assumes "isotp_inv ch"
  shows "\<exists>ch'. fold isotp_step cs (Some ch) = Some ch' \<and> isotp_inv ch' \<and> ch_config ch' = ch_config ch"
  using assms
proof (induction cs arbitrary: ch)
  case (Cons c cs)
  from isotp_step_inv [OF Cons.prems, of c] obtain ch1
    where "isotp_step c (Some ch) = Some ch1" "isotp_inv ch1" "ch_config ch1 = ch_config ch" by blast
  with Cons.IH [of ch1] show ?case by simp
qed simp

lemma isotp_init_inv:
  assumes "IsoTp_Init (Some ch0) (Some (cfg, Some rxb, Some txb)) = (ISOTP_RESULT_OK, Some ch)"
    and "length rxb = unat (rx_buffer_capacity cfg)" "length txb = unat (tx_buffer_capacity cfg)"
  shows "isotp_inv ch" "ch_config ch = cfg"
  using assms
  by (auto simp: IsoTp_Init_def isotp_inv_def isotp_config_ok_def isotp_rx_inv_def isotp_tx_inv_def
      word_neq_0_conv not_less split: if_splits)


definition demo_config :: IsoTp_Config where
  "demo_config = \<lparr>rx_buffer_capacity = 16, tx_buffer_capacity = 16,
     flow_control_timeout_us = 1000000, consecutive_frame_timeout_us = 1000000,
     rx_block_size = 1, rx_st_min = 5, max_wait_frames = 1\<rparr>"

definition demo_channel :: IsoTp_Channel where
  "demo_channel = \<lparr>ch_config = demo_config, rx_buffer = replicate 16 0, tx_buffer = replicate 16 0,
     rx_state = ISOTP_RX_IDLE, tx_state = ISOTP_TX_IDLE, rx_length = 0, rx_offset = 0,
     tx_length = 0, tx_offset = 0, rx_deadline_us = 0, tx_deadline_us = 0, tx_st_min_us = 0,
     rx_next_sequence = 0, rx_block_count = 0, tx_next_sequence = 0, tx_block_remaining = 0,
     tx_wait_count = 0, ch_initialized = True\<rparr>"

lemma demo_init:
  "IsoTp_Init (Some ch) (Some (demo_config, Some (replicate 16 0), Some (replicate 16 0)))
    = (ISOTP_RESULT_OK, Some demo_channel)"
  by (simp add: IsoTp_Init_def demo_channel_def demo_config_def IsoTp_DecodeStMin_def)

lemma demo_inv: "isotp_inv demo_channel"
  by (rule isotp_init_inv(1) [OF demo_init]) (simp_all add: demo_config_def)

text \<open>
  C6. Memory safety of a channel. Whatever frames arrive from the bus and whatever calls are
  made in whatever order and at whatever times, a channel set up by \<open>IsoTp_Init\<close> keeps its
  buffers at their size, its receive and transmit offsets inside the message and the message
  inside the buffer, so that no copy loop writes or reads outside an array; the sequence
  number of a message in progress is the number of consecutive frames so far, modulo 16.
\<close>

theorem isotp_calls_stay_in_bounds:
  assumes "IsoTp_Init (Some ch0) (Some (cfg, Some rxb, Some txb)) = (ISOTP_RESULT_OK, Some ch)"
    and "length rxb = unat (rx_buffer_capacity cfg)" "length txb = unat (tx_buffer_capacity cfg)"
  shows "\<exists>ch'. fold isotp_step calls (Some ch) = Some ch'
     \<and> length (rx_buffer ch') = length rxb \<and> length (tx_buffer ch') = length txb
     \<and> rx_offset ch' \<le> rx_length ch' \<and> unat (rx_length ch') \<le> length (rx_buffer ch')
     \<and> (tx_state ch' \<noteq> ISOTP_TX_IDLE \<longrightarrow>
          tx_offset ch' \<le> tx_length ch' \<and> unat (tx_length ch') \<le> length (tx_buffer ch'))
     \<and> (rx_state ch' = ISOTP_RX_RECEIVING \<longrightarrow> rx_offset ch' < rx_length ch'
          \<and> unat (rx_next_sequence ch') = ((unat (rx_offset ch') - 6) div 7 + 1) mod 16)"
proof -
  note init = isotp_init_inv [OF assms]
  obtain ch' where run: "fold isotp_step calls (Some ch) = Some ch'"
    and inv: "isotp_inv ch'" and cfg: "ch_config ch' = cfg"
    using isotp_steps_inv [OF init(1), of calls] init(2) by auto
  have rx: "isotp_rx_inv ch'" and tx: "isotp_tx_inv ch'" using inv by (simp_all add: isotp_inv_def)
  have "length (rx_buffer ch') = length rxb" "length (tx_buffer ch') = length txb"
    using rx tx cfg assms(2,3) by (simp_all add: isotp_rx_inv_def isotp_tx_inv_def)
  moreover have "rx_offset ch' \<le> rx_length ch'" "unat (rx_length ch') \<le> length (rx_buffer ch')"
    using rx by (auto simp: isotp_rx_inv_def nat_of_word dest: progress_bounds split: IsoTp_RxState.splits)
  moreover have "tx_state ch' \<noteq> ISOTP_TX_IDLE \<longrightarrow>
      tx_offset ch' \<le> tx_length ch' \<and> unat (tx_length ch') \<le> length (tx_buffer ch')"
    using tx by (auto simp: isotp_tx_inv_def nat_of_word dest: progress_bounds split: IsoTp_TxState.splits)
  moreover have "rx_state ch' = ISOTP_RX_RECEIVING \<longrightarrow> rx_offset ch' < rx_length ch'
      \<and> unat (rx_next_sequence ch') = ((unat (rx_offset ch') - 6) div 7 + 1) mod 16"
    using rx by (auto simp: isotp_rx_inv_def isotp_progress_ok_def)
  ultimately show ?thesis using run by blast
qed

theorem isotp_calls_stay_in_bounds_witness:
  "\<exists>ch'. fold isotp_step
       [CallOnCanFrame \<lparr>frame_data = [0x02, 7, 9, 0, 0, 0, 0, 0], frame_dlc = 3\<rparr> 5
          \<lparr>frame_data = replicate 8 0, frame_dlc = 0\<rparr>,
        CallStartTransmit [1, 2, 3] 3 6 \<lparr>frame_data = replicate 8 0, frame_dlc = 0\<rparr>, CallRelease]
       (Some demo_channel) = Some ch'
    \<and> length (rx_buffer ch') = 16 \<and> rx_offset ch' \<le> rx_length ch'"
  using isotp_calls_stay_in_bounds [OF demo_init [of demo_channel], of
       "[CallOnCanFrame \<lparr>frame_data = [0x02, 7, 9, 0, 0, 0, 0, 0], frame_dlc = 3\<rparr> 5
          \<lparr>frame_data = replicate 8 0, frame_dlc = 0\<rparr>,
        CallStartTransmit [1, 2, 3] 3 6 \<lparr>frame_data = replicate 8 0, frame_dlc = 0\<rparr>, CallRelease]"]
  by (auto simp: demo_config_def)

lemma consecutive_in_time:
  assumes "isotp_inv ch" "rx_state ch = ISOTP_RX_RECEIVING" "\<not> IsoTp_DeadlineReached now (rx_deadline_us ch)"
    and "n = min 7 (unat (rx_length ch) - unat (rx_offset ch))"
    and "IsoTp_ReceiveConsecutiveFrame ch cf now rf = (r, ch', rf')"
  shows "r \<noteq> ISOTP_RESULT_TIMEOUT"
    and "frame_data cf ! 0 AND 0x0F = rx_next_sequence ch \<Longrightarrow> n < unat (frame_dlc cf)
      \<Longrightarrow> r \<in> {ISOTP_RESULT_OK, ISOTP_RESULT_FRAME_READY, ISOTP_RESULT_MESSAGE_READY}
        \<and> unat (rx_offset ch') = unat (rx_offset ch) + n
        \<and> rx_buffer ch' = copy_bytes n (rx_buffer ch) (unat (rx_offset ch)) (frame_data cf) 1
        \<and> (if unat (rx_offset ch) + n = unat (rx_length ch) then rx_state ch' = ISOTP_RX_COMPLETE
           else rx_state ch' = ISOTP_RX_RECEIVING
             \<and> rx_deadline_us ch' = now + consecutive_frame_timeout_us (ch_config ch))"
proof -
  define k :: u8 where
    "k = (if rx_length ch - rx_offset ch > 7 then 7 else ucast (rx_length ch - rx_offset ch))"
  have ok: "isotp_progress_ok (rx_buffer_capacity (ch_config ch)) (rx_length ch) (rx_offset ch) (rx_next_sequence ch)"
    using assms(1,2) by (simp add: isotp_inv_def isotp_rx_inv_def)
  note b = progress_bounds [OF ok]
  note kn = chunk_length [OF b(1), folded k_def]
  show "r \<noteq> ISOTP_RESULT_TIMEOUT"
    using assms(2,3,5) by (auto simp: IsoTp_ReceiveConsecutiveFrame_def Let_def split: if_splits)
  show "r \<in> {ISOTP_RESULT_OK, ISOTP_RESULT_FRAME_READY, ISOTP_RESULT_MESSAGE_READY}
        \<and> unat (rx_offset ch') = unat (rx_offset ch) + n
        \<and> rx_buffer ch' = copy_bytes n (rx_buffer ch) (unat (rx_offset ch)) (frame_data cf) 1
        \<and> (if unat (rx_offset ch) + n = unat (rx_length ch) then rx_state ch' = ISOTP_RX_COMPLETE
           else rx_state ch' = ISOTP_RX_RECEIVING
             \<and> rx_deadline_us ch' = now + consecutive_frame_timeout_us (ch_config ch))"
    if expected: "frame_data cf ! 0 AND 0x0F = rx_next_sequence ch" "n < unat (frame_dlc cf)"
  proof -
    have k: "unat k = n" using kn assms(4) by simp
    have "0 < n" "n \<le> 7" using ok assms(4) by (auto simp: isotp_progress_ok_def word_less_nat_alt)
    then have long: "\<not> frame_dlc cf < 2" "\<not> k + 1 > frame_dlc cf"
      using expected(2) k by (simp_all add: word_less_nat_alt unat_word_ariths)
    have off: "unat (rx_offset ch + ucast k) = unat (rx_offset ch) + n"
      using progress_step(1) [OF ok kn] k by simp
    then have complete: "rx_offset ch + ucast k = rx_length ch \<longleftrightarrow> unat (rx_offset ch) + n = unat (rx_length ch)"
      by (metis word_unat_eq_iff)
    show ?thesis
      using assms(2,3,5) expected(1) long off complete
      by (auto simp: IsoTp_ReceiveConsecutiveFrame_def k_def [symmetric] k Let_def split: if_splits)
  qed
qed

text \<open>
  C13. A reception that stalls is given up, and only one that stalls. When the N_Cr time has passed since the
  last frame (and less than half the range of the counter), the next poll reports a timeout and leaves
  the receiver idle, ready for a new message; a late consecutive frame is refused in the same
  way and nothing of it reaches the buffer. Before that time neither a poll nor a consecutive frame
  reports or causes a timeout of the reception: the poll leaves it running, and the expected frame, if
  it is long enough, is accepted, its bytes are stored, and the time starts again unless the message is complete.
\<close>

theorem isotp_receive_timeout:
  assumes "isotp_inv ch" "rx_state ch = ISOTP_RX_RECEIVING"
    and "rx_deadline_us ch = t0 + consecutive_frame_timeout_us (ch_config ch)"
    and "d \<le> 0x7FFFFFFF" "n = min 7 (unat (rx_length ch) - unat (rx_offset ch))"
  shows "if consecutive_frame_timeout_us (ch_config ch) \<le> d
     then IsoTp_Process_body ch (t0 + d) f
            = (ISOTP_RESULT_TIMEOUT, IsoTp_ResetReceiveState ch, f)
        \<and> IsoTp_ReceiveConsecutiveFrame ch cf (t0 + d) rf
            = (ISOTP_RESULT_TIMEOUT, IsoTp_ResetReceiveState ch, rf)
        \<and> rx_state (IsoTp_ResetReceiveState ch) = ISOTP_RX_IDLE
        \<and> rx_buffer (IsoTp_ResetReceiveState ch) = rx_buffer ch
     else rx_state (fst (snd (IsoTp_Process_body ch (t0 + d) f))) = ISOTP_RX_RECEIVING
        \<and> (case IsoTp_ReceiveConsecutiveFrame ch cf (t0 + d) rf of (r, ch', rf') \<Rightarrow>
            r \<noteq> ISOTP_RESULT_TIMEOUT
            \<and> (frame_data cf ! 0 AND 0x0F = rx_next_sequence ch \<and> n < unat (frame_dlc cf) \<longrightarrow>
                r \<in> {ISOTP_RESULT_OK, ISOTP_RESULT_FRAME_READY, ISOTP_RESULT_MESSAGE_READY}
                \<and> unat (rx_offset ch') = unat (rx_offset ch) + n
                \<and> rx_buffer ch' = copy_bytes n (rx_buffer ch) (unat (rx_offset ch)) (frame_data cf) 1
                \<and> (if unat (rx_offset ch) + n = unat (rx_length ch) then rx_state ch' = ISOTP_RX_COMPLETE
                   else rx_state ch' = ISOTP_RX_RECEIVING
                     \<and> rx_deadline_us ch' = t0 + d + consecutive_frame_timeout_us (ch_config ch))))"
proof -
  have "ch_initialized ch" "consecutive_frame_timeout_us (ch_config ch) \<le> 0x7FFFFFFF"
    using assms(1) by (simp_all add: isotp_inv_def isotp_config_ok_def)
  then have reached: "IsoTp_DeadlineReached (t0 + d) (rx_deadline_us ch)
      \<longleftrightarrow> consecutive_frame_timeout_us (ch_config ch) \<le> d"
    using assms(3,4) by (simp add: IsoTp_DeadlineReached_eq time_reached_after)
  show ?thesis
  proof (cases "consecutive_frame_timeout_us (ch_config ch) \<le> d")
    case True
    then show ?thesis using reached \<open>ch_initialized ch\<close> assms(2)
      by (simp add: IsoTp_Process_body_def IsoTp_ReceiveConsecutiveFrame_def)
        (simp add: IsoTp_ResetReceiveState_def)
  next
    case False
    then have late: "\<not> IsoTp_DeadlineReached (t0 + d) (rx_deadline_us ch)" using reached by simp
    have "rx_state (fst (snd (IsoTp_Process_body ch (t0 + d) f))) = ISOTP_RX_RECEIVING"
      using late \<open>ch_initialized ch\<close> assms(2) by (simp add: IsoTp_Process_body_def Let_def IsoTp_ResetTransmitState_def)
    with False show ?thesis using consecutive_in_time [OF assms(1,2) late assms(5)] by (auto split: prod.split)
  qed
qed

definition demo_receiving :: IsoTp_Channel where
  "demo_receiving = fst (snd (IsoTp_ReceiveFirstFrame demo_channel
     \<lparr>frame_data = [0x10, 10, 1, 2, 3, 4, 5, 6], frame_dlc = 8\<rparr> 0
     \<lparr>frame_data = replicate 8 0, frame_dlc = 0\<rparr>))"

lemma demo_receiving_inv: "isotp_inv demo_receiving"
  unfolding demo_receiving_def
  by (cases "IsoTp_ReceiveFirstFrame demo_channel
     \<lparr>frame_data = [0x10, 10, 1, 2, 3, 4, 5, 6], frame_dlc = 8\<rparr> 0
     \<lparr>frame_data = replicate 8 0, frame_dlc = 0\<rparr>")
    (auto dest: inv_ReceiveFirstFrame [OF demo_inv])

theorem isotp_receive_timeout_witness:
  "fst (IsoTp_Process_body demo_receiving (0 + 1000000) \<lparr>frame_data = [], frame_dlc = 0\<rparr>)
     = ISOTP_RESULT_TIMEOUT
   \<and> rx_state (fst (snd (IsoTp_Process_body demo_receiving (0 + 999999)
        \<lparr>frame_data = [], frame_dlc = 0\<rparr>))) = ISOTP_RX_RECEIVING"
proof -
  have r: "rx_state demo_receiving = ISOTP_RX_RECEIVING"
    "rx_deadline_us demo_receiving = 0 + consecutive_frame_timeout_us (ch_config demo_receiving)"
    "consecutive_frame_timeout_us (ch_config demo_receiving) = 1000000"
    by (simp_all add: demo_receiving_def demo_channel_def demo_config_def
        IsoTp_ReceiveFirstFrame_def Let_def)
  show ?thesis
    using isotp_receive_timeout [OF demo_receiving_inv r(1,2), of 1000000]
      isotp_receive_timeout [OF demo_receiving_inv r(1,2), of 999999]
    by (simp add: r(3))
qed

end
