(* ===== verification/IsoTpTransfer.thy ===== *)
theory IsoTpTransfer
  imports IsoTpTransport
begin

text \<open>
  What the channel of \<open>Core/Src/isotp_transport.c\<close> promises: the frames of a message
  according to ISO 15765-2 (\<open>isotp_segment\<close>), and a sender and a receiver that exchange
  frames until the message has arrived.
\<close>

section \<open>The frames of a message\<close>

definition isotp_pad :: "bytes \<Rightarrow> IsoTp_CanFrame" where
  "isotp_pad bs = \<lparr>frame_data = take 8 (bs @ replicate 8 0), frame_dlc = 8\<rparr>"

function isotp_consecutive :: "nat \<Rightarrow> bytes \<Rightarrow> IsoTp_CanFrame list" where
  "isotp_consecutive k xs =
    (if xs = [] then []
     else isotp_pad (word_of_nat (32 + k mod 16) # take 7 xs) # isotp_consecutive (Suc k) (drop 7 xs))"
  by pat_completeness auto
termination
  by (relation "measure (\<lambda>(k, xs). length xs)") auto

declare isotp_consecutive.simps [simp del]

definition isotp_first :: "bytes \<Rightarrow> IsoTp_CanFrame" where
  "isotp_first p =
    (if length p \<le> 7 then isotp_pad (word_of_nat (length p) # p)
     else isotp_pad (word_of_nat (16 + length p div 256) # word_of_nat (length p mod 256) # take 6 p))"

definition isotp_segment :: "bytes \<Rightarrow> IsoTp_CanFrame list" where
  "isotp_segment p = isotp_first p # (if length p \<le> 7 then [] else isotp_consecutive 1 (drop 6 p))"

lemma isotp_pad_data:
  "length bs \<le> 8 \<Longrightarrow> frame_data (isotp_pad bs) = bs @ replicate (8 - length bs) 0"
  by (simp add: isotp_pad_def)

lemma isotp_pad_dlc [simp]: "frame_dlc (isotp_pad bs) = 8"
  by (simp add: isotp_pad_def)

lemma length_isotp_pad [simp]: "length (frame_data (isotp_pad bs)) = 8"
  by (simp add: isotp_pad_def)

lemma isotp_pad_nth0 [simp]: "frame_data (isotp_pad (x # bs)) ! 0 = x"
  by (simp add: isotp_pad_def)

lemma isotp_pad_chunk:
  assumes "length xs \<le> 7"
  shows "take (length xs) (drop (Suc 0) (frame_data (isotp_pad (x # xs)))) = xs"
  using assms by (simp add: isotp_pad_data)

text \<open>The frame a builder leaves is the padded frame of its bytes, whatever the frame held.\<close>

lemma cleared_frame_1:
  assumes "n \<le> 7" "off + n \<le> length src"
  shows "IsoTp_ClearFrame f\<lparr>frame_data :=
      copy_bytes n ((frame_data (IsoTp_ClearFrame f))[0 := h]) (Suc 0) src off\<rparr>
    = isotp_pad (h # take n (drop off src))" (is "?f = ?g")
proof (rule IsoTp_CanFrame.equality)
  show "frame_data ?f = frame_data ?g"
    using assms
    by (intro nth_equalityI)
      (auto simp: IsoTp_ClearFrame_def isotp_pad_def nth_copy_bytes nth_append nth_Cons' nth_list_update min_def)
qed (simp_all add: IsoTp_ClearFrame_def)

lemma cleared_frame_2:
  assumes "6 \<le> length src"
  shows "IsoTp_ClearFrame f\<lparr>frame_data :=
      copy_bytes 6 ((frame_data (IsoTp_ClearFrame f))[0 := a, Suc 0 := b]) 2 src 0\<rparr>
    = isotp_pad (a # b # take 6 src)" (is "?f = ?g")
proof (rule IsoTp_CanFrame.equality)
  show "frame_data ?f = frame_data ?g"
    using assms
    by (intro nth_equalityI)
      (auto simp: IsoTp_ClearFrame_def isotp_pad_def nth_copy_bytes nth_append nth_Cons' nth_list_update min_def numeral_2_eq_2)
qed (simp_all add: IsoTp_ClearFrame_def)

section \<open>The sender\<close>

lemma consecutive_pci:
  assumes "k < 16"
  shows "0x20 OR word_of_nat k = (word_of_nat (32 + k) :: u8)"
    and "(word_of_nat (32 + k) :: u8) AND 0x0F = word_of_nat k"
    and "(word_of_nat (32 + k) :: u8) AND 0xF0 = 0x20"
proof -
  show "0x20 OR word_of_nat k = (word_of_nat (32 + k) :: u8)"
    and "(word_of_nat (32 + k) :: u8) AND 0x0F = word_of_nat k"
    and "(word_of_nat (32 + k) :: u8) AND 0xF0 = 0x20"
    using assms by (auto simp: numeral_eq_Suc less_Suc_eq)
qed

lemma StartTransmit_single:
  assumes inv: "isotp_inv ch" and p: "p \<noteq> []" "length p \<le> 7"
    "length p \<le> unat (tx_buffer_capacity (ch_config ch))"
    and idle: "tx_state ch \<in> {ISOTP_TX_IDLE, ISOTP_TX_COMPLETE}"
  shows "\<exists>ch'. IsoTp_StartTransmit_body ch p (word_of_nat (length p)) now f
      = (ISOTP_RESULT_FRAME_READY, ch', isotp_first p)
     \<and> tx_state ch' = ISOTP_TX_COMPLETE \<and> take (length p) (tx_buffer ch') = p
     \<and> rx_state ch' = rx_state ch"
proof -
  have l: "unat (word_of_nat (length p) :: u16) = length p" using p by (simp add: unat_of_nat)
  have u: "ucast (word_of_nat (length p) :: u16) = (word_of_nat (length p) :: u8)"
    using p(2) by (simp add: word_unat_eq_iff unat_of_nat unat_ucast_small)
  have "length p \<le> length (tx_buffer ch)" using inv p(3) by (simp add: isotp_inv_def isotp_tx_inv_def)
  then show ?thesis using assms l u
    by (auto simp: IsoTp_StartTransmit_body_def Let_def nat_of_word isotp_inv_def isotp_first_def 
        cleared_frame_1 copy_bytes_splice)
qed

lemma u16_to_u8_of_nat: "ucast (word_of_nat k :: u16) = (word_of_nat k :: u8)"
  by (simp add: word_unat_eq_iff unsigned_ucast_eq unat_of_nat take_bit_eq_mod mod_mod_cancel)

lemma first_frame_bytes:
  assumes "n \<le> 4095"
  shows "ucast (0x10 OR (drop_bit 8 (word_of_nat n :: u16) AND 0x0F)) = (word_of_nat (16 + n div 256) :: u8)"
    and "ucast (word_of_nat n :: u16) = (word_of_nat (n mod 256) :: u8)"
    and "(word_of_nat (16 + n div 256) :: u8) AND 0xF0 = 0x10"
    and "push_bit 8 (ucast ((word_of_nat (16 + n div 256) :: u8) AND 0x0F)) OR
         ucast (word_of_nat (n mod 256) :: u8) = (word_of_nat n :: u16)"
proof -
  define q where "q = n div 256"
  have q: "q < 16" using assms by (simp add: q_def)
  have "drop_bit 8 (word_of_nat n :: u16) = word_of_nat q"
    using assms q by (simp add: word_unat_eq_iff drop_bit_eq_div unat_div unat_of_nat q_def)
  moreover have "(0x10 OR (word_of_nat q AND 0x0F) :: u16) = word_of_nat (16 + q)"
    "(word_of_nat (16 + q) :: u8) AND 0xF0 = 0x10" "(word_of_nat (16 + q) :: u8) AND 0x0F = word_of_nat q"
    using q by (auto simp: numeral_eq_Suc less_Suc_eq)
  ultimately show "ucast (0x10 OR (drop_bit 8 (word_of_nat n :: u16) AND 0x0F)) = (word_of_nat (16 + n div 256) :: u8)"
    "(word_of_nat (16 + n div 256) :: u8) AND 0xF0 = 0x10"
    by (simp_all only: q_def [symmetric] u16_to_u8_of_nat)
  show lo: "ucast (word_of_nat n :: u16) = (word_of_nat (n mod 256) :: u8)"
    using assms by (simp add: word_unat_eq_iff unsigned_ucast_eq unat_of_nat take_bit_eq_mod)
  have "push_bit 8 (ucast (ucast (drop_bit 8 (word_of_nat n :: u16)) :: u8)) OR
     ucast (ucast (word_of_nat n :: u16) :: u8) = (word_of_nat n :: u16)"
    using u16_bytes_rejoin [of "word_of_nat n"] by (simp add: or.commute)
  moreover have "ucast (drop_bit 8 (word_of_nat n :: u16)) = (word_of_nat q :: u8)"
    using \<open>drop_bit 8 (word_of_nat n :: u16) = word_of_nat q\<close> q
    by (simp add: word_unat_eq_iff unat_ucast_small unat_of_nat)
  ultimately show "push_bit 8 (ucast ((word_of_nat (16 + n div 256) :: u8) AND 0x0F)) OR
         ucast (word_of_nat (n mod 256) :: u8) = (word_of_nat n :: u16)"
    using \<open>(word_of_nat (16 + q) :: u8) AND 0x0F = word_of_nat q\<close> lo by (simp add: q_def)
qed

lemma StartTransmit_first:
  assumes inv: "isotp_inv ch" and p: "7 < length p" "length p \<le> 4095"
    "length p \<le> unat (tx_buffer_capacity (ch_config ch))"
    and idle: "tx_state ch \<in> {ISOTP_TX_IDLE, ISOTP_TX_COMPLETE}"
  shows "\<exists>ch'. IsoTp_StartTransmit_body ch p (word_of_nat (length p)) now f
      = (ISOTP_RESULT_FRAME_READY, ch', isotp_first p)
     \<and> tx_state ch' = ISOTP_TX_WAIT_FLOW_CONTROL \<and> take (length p) (tx_buffer ch') = p
     \<and> tx_length ch' = word_of_nat (length p) \<and> tx_offset ch' = 6
     \<and> tx_deadline_us ch' = now + flow_control_timeout_us (ch_config ch)
     \<and> rx_state ch' = rx_state ch"
proof -
  have l: "unat (word_of_nat (length p) :: u16) = length p" using p by (simp add: unat_of_nat)
  have b: "length p \<le> length (tx_buffer ch)" using inv p(3) by (simp add: isotp_inv_def isotp_tx_inv_def)
  have ne: "(word_of_nat (length p) :: u16) \<noteq> 0" using l p by (metis not_less0 unat_0)
  have t6: "take 6 (p @ drop (length p) (tx_buffer ch)) = take 6 p" using p by simp
  show ?thesis using assms l b ne t6
    by (auto simp: IsoTp_StartTransmit_body_def Let_def nat_of_word isotp_inv_def isotp_first_def
        first_frame_bytes cleared_frame_2 copy_bytes_splice)
qed

text \<open>One call of \<open>IsoTp_Process\<close> that is due sends the next chunk of at most seven bytes.\<close>

lemma Process_sends:
  assumes inv: "isotp_inv s" and st: "tx_state s = ISOTP_TX_SEND_CONSECUTIVE"
    and rx: "rx_state s \<noteq> ISOTP_RX_RECEIVING \<or> \<not> time_reached now (rx_deadline_us s)" and due: "time_reached now (tx_deadline_us s)"
  defines "off \<equiv> unat (tx_offset s)" and "len \<equiv> unat (tx_length s)"
  defines "n \<equiv> min 7 (len - off)"
  shows "\<exists>s'. IsoTp_Process_body s now f = (ISOTP_RESULT_FRAME_READY, s',
       isotp_pad (word_of_nat (32 + ((off - 6) div 7 + 1) mod 16) # take n (drop off (tx_buffer s))))
     \<and> unat (tx_offset s') = off + n \<and> tx_length s' = tx_length s
     \<and> tx_buffer s' = tx_buffer s \<and> rx_state s' = rx_state s \<and> ch_config s' = ch_config s
     \<and> tx_st_min_us s' = tx_st_min_us s
     \<and> (if off + n = len then tx_state s' = ISOTP_TX_COMPLETE
        else if tx_block_remaining s = 1 then
          tx_state s' = ISOTP_TX_WAIT_FLOW_CONTROL
          \<and> tx_deadline_us s' = now + flow_control_timeout_us (ch_config s)
        else tx_state s' = ISOTP_TX_SEND_CONSECUTIVE
          \<and> tx_deadline_us s' = now + tx_st_min_us s
          \<and> tx_block_remaining s' = (if tx_block_remaining s = 0 then 0 else tx_block_remaining s - 1))"
proof -
  define m :: u8 where
    "m = (if tx_length s - tx_offset s > 7 then 7 else ucast (tx_length s - tx_offset s))"
  have ok: "isotp_progress_ok (tx_buffer_capacity (ch_config s)) (tx_length s) (tx_offset s)
              (tx_next_sequence s)"
    using st inv by (simp add: isotp_inv_def isotp_tx_inv_def)
  note b = progress_bounds [OF ok]
  have m: "unat m = n" using chunk_length [OF b(1)] by (simp add: m_def n_def len_def off_def)
  have o: "unat (tx_offset s + ucast m) = off + n"
    using progress_step(1) [OF ok chunk_length [OF b(1)], folded m_def] m by (simp add: off_def)
  then have e: "tx_offset s + ucast m = tx_length s \<longleftrightarrow> off + n = len"
    by (simp add: word_unat_eq_iff len_def)
  have sn: "tx_next_sequence s = word_of_nat (((off - 6) div 7 + 1) mod 16)"
    using ok by (simp add: isotp_progress_ok_def off_def word_unat_eq_iff unat_of_nat)
  have cap: "off + n \<le> length (tx_buffer s)"
    using progress_step(3,4) [OF ok chunk_length [OF b(1)], folded m_def] m inv
    by (simp add: off_def isotp_inv_def isotp_tx_inv_def)
  have f: "IsoTp_ClearFrame f\<lparr>frame_data := copy_bytes (unat m)
        ((frame_data (IsoTp_ClearFrame f))[0 := 0x20 OR tx_next_sequence s]) (Suc 0) (tx_buffer s) (unat (tx_offset s))\<rparr>
      = isotp_pad (word_of_nat (32 + ((off - 6) div 7 + 1) mod 16) # take n (drop off (tx_buffer s)))"
    using cap by (simp add: m cleared_frame_1 n_def sn consecutive_pci off_def)
  have "ch_initialized s" using inv by (simp add: isotp_inv_def)
  then show ?thesis
    using st rx due o e f
    by (auto simp: IsoTp_Process_body_def Let_def m_def [symmetric] IsoTp_DeadlineReached_eq)
qed

section \<open>The receiver\<close>

definition isotp_continue :: "IsoTp_Config \<Rightarrow> IsoTp_CanFrame" where
  "isotp_continue cfg = isotp_pad [0x30, rx_block_size cfg, rx_st_min cfg]"

lemma BuildFlowControl_continue:
  "IsoTp_BuildFlowControl ch 0 f = isotp_continue (ch_config ch)"
  by (simp add: IsoTp_BuildFlowControl_def IsoTp_ClearFrame_def isotp_continue_def isotp_pad_def
      Let_def numeral_eq_Suc)

lemma OnCanFrame_single:
  assumes inv: "isotp_inv r" and p: "p \<noteq> []" "length p \<le> 7"
    "length p \<le> unat (rx_buffer_capacity (ch_config r))" and idle: "rx_state r = ISOTP_RX_IDLE"
  shows "\<exists>r'. IsoTp_OnCanFrame_body r (isotp_first p) now rf = (ISOTP_RESULT_MESSAGE_READY, r', rf)
     \<and> rx_state r' = ISOTP_RX_COMPLETE \<and> unat (rx_length r') = length p
     \<and> take (length p) (rx_buffer r') = p"
proof -
  have b: "length p \<le> length (rx_buffer r)" using inv p(3) by (simp add: isotp_inv_def isotp_rx_inv_def)
  have f: "isotp_first p = isotp_pad (word_of_nat (length p) # p)" using p by (simp add: isotp_first_def)
  have k: "length p < 16" "length p < 255" using p by simp_all
  then have pci: "(word_of_nat (length p) :: u8) AND 0xF0 = 0"
    "(word_of_nat (length p) :: u8) AND 0x0F = word_of_nat (length p)"
    by (auto simp: numeral_eq_Suc less_Suc_eq)
  have u: "unat (word_of_nat (length p) :: u8) = length p" "unat (word_of_nat (length p) + 1 :: u8) = Suc (length p)"
    using k by (simp_all add: unat_word_ariths unat_of_nat)
  have ne: "(word_of_nat (length p) :: u8) \<noteq> 0" using u(1) p by (metis length_0_conv unat_0)
  have c: "take (length p) (drop (Suc 0) (frame_data (isotp_pad (word_of_nat (length p) # p)))) = p"
    using isotp_pad_chunk p by simp
  have l8: "Suc (length p) \<le> 8" using p by simp
  show ?thesis using inv p b u ne idle c l8
    by (simp add: IsoTp_OnCanFrame_body_def IsoTp_ReceiveSingleFrame_def Let_def pci f nat_of_word isotp_inv_def
        copy_bytes_splice)
qed

lemma OnCanFrame_first:
  assumes inv: "isotp_inv r" and p: "7 < length p" "length p \<le> 4095"
    "length p \<le> unat (rx_buffer_capacity (ch_config r))" and idle: "rx_state r = ISOTP_RX_IDLE"
  shows "\<exists>r'. IsoTp_OnCanFrame_body r (isotp_first p) now rf
      = (ISOTP_RESULT_FRAME_READY, r', isotp_continue (ch_config r))
     \<and> rx_state r' = ISOTP_RX_RECEIVING \<and> rx_length r' = word_of_nat (length p) \<and> rx_offset r' = 6
     \<and> take 6 (rx_buffer r') = take 6 p \<and> rx_block_count r' = 0
     \<and> rx_deadline_us r' = now + consecutive_frame_timeout_us (ch_config r)"
proof -
  have b: "length p \<le> length (rx_buffer r)" using inv p(3) by (simp add: isotp_inv_def isotp_rx_inv_def)
  let ?d = "word_of_nat (16 + length p div 256) # word_of_nat (length p mod 256) # take 6 p"
  have f: "isotp_first p = isotp_pad ?d" using p by (simp add: isotp_first_def)
  have data: "frame_data (isotp_pad ?d) = ?d" using p by (simp add: isotp_pad_def)
  have l: "unat (word_of_nat (length p) :: u16) = length p" using p by (simp add: unat_of_nat)
  show ?thesis using inv p b l idle
    by (simp add: IsoTp_OnCanFrame_body_def IsoTp_ReceiveFirstFrame_def Let_def f data nat_of_word
        isotp_inv_def first_frame_bytes [OF p(2)] BuildFlowControl_continue copy_bytes_splice
        del: of_nat_add)
qed

lemma OnCanFrame_consecutive:
  assumes inv: "isotp_inv r" and st: "rx_state r = ISOTP_RX_RECEIVING"
    and intime: "\<not> time_reached now (rx_deadline_us r)"
  defines "off \<equiv> unat (rx_offset r)" and "len \<equiv> unat (rx_length r)"
  defines "n \<equiv> min 7 (len - off)"
  assumes chunk: "length chunk = n"
  shows "\<exists>r' res rf'. IsoTp_OnCanFrame_body r
       (isotp_pad (word_of_nat (32 + ((off - 6) div 7 + 1) mod 16) # chunk)) now rf = (res, r', rf')
     \<and> unat (rx_offset r') = off + n \<and> rx_length r' = rx_length r
     \<and> take (off + n) (rx_buffer r') = take off (rx_buffer r) @ chunk
     \<and> (if off + n = len then res = ISOTP_RESULT_MESSAGE_READY \<and> rx_state r' = ISOTP_RX_COMPLETE
        else rx_state r' = ISOTP_RX_RECEIVING
          \<and> rx_deadline_us r' = now + consecutive_frame_timeout_us (ch_config r)
          \<and> (if rx_block_size (ch_config r) \<noteq> 0 \<and> rx_block_count r + 1 \<ge> rx_block_size (ch_config r)
             then res = ISOTP_RESULT_FRAME_READY \<and> rf' = isotp_continue (ch_config r) \<and> rx_block_count r' = 0
             else res = ISOTP_RESULT_OK \<and> rx_block_count r' = (if rx_block_size (ch_config r) = 0 then rx_block_count r else rx_block_count r + 1)))"
proof -
  define m :: u8 where
    "m = (if rx_length r - rx_offset r > 7 then 7 else ucast (rx_length r - rx_offset r))"
  have ok: "isotp_progress_ok (rx_buffer_capacity (ch_config r)) (rx_length r) (rx_offset r)
              (rx_next_sequence r)"
    using st inv by (simp add: isotp_inv_def isotp_rx_inv_def)
  note b = progress_bounds [OF ok]
  have m: "unat m = n" using chunk_length [OF b(1)] by (simp add: m_def n_def len_def off_def)
  have o: "unat (rx_offset r + ucast m) = off + n"
    using progress_step(1) [OF ok chunk_length [OF b(1)], folded m_def] m by (simp add: off_def)
  then have e: "rx_offset r + ucast m = rx_length r \<longleftrightarrow> off + n = len"
    by (simp add: word_unat_eq_iff len_def)
  define k where "k = ((off - 6) div 7 + 1) mod 16"
  have sn: "rx_next_sequence r = word_of_nat k" and k: "k < 16"
    using ok by (simp_all add: isotp_progress_ok_def off_def word_unat_eq_iff unat_of_nat k_def)
  have cap: "off + n \<le> length (rx_buffer r)"
    using progress_step(3,4) [OF ok chunk_length [OF b(1)], folded m_def] m inv
    by (simp add: off_def isotp_inv_def isotp_rx_inv_def)
  have n: "n \<le> 7" "0 < n" using ok by (auto simp: n_def len_def off_def isotp_progress_ok_def nat_of_word)
  then have dlc: "\<not> (m + 1 > 8)" using m by (simp add: nat_of_word unat_word_ariths)
  let ?fr = "isotp_pad (word_of_nat (32 + k) # chunk)"
  have c: "copy_bytes n (rx_buffer r) off (frame_data ?fr) 1 = take off (rx_buffer r) @ chunk @ drop (off + n) (rx_buffer r)"
    using cap n chunk isotp_pad_chunk [of chunk] by (simp add: copy_bytes_splice)
  define rb where "rb = take off (rx_buffer r) @ chunk @ drop (off + n) (rx_buffer r)"
  have rb: "take (off + n) rb = take off (rx_buffer r) @ chunk"
    using cap chunk by (simp add: rb_def)
  have "ch_initialized r" using inv by (simp add: isotp_inv_def)
  then have run: "IsoTp_OnCanFrame_body r ?fr now rf = IsoTp_ReceiveConsecutiveFrame r ?fr now rf"
    by (simp add: IsoTp_OnCanFrame_body_def consecutive_pci [OF k] del: of_nat_add)
  have seq: "\<not> frame_data ?fr ! 0 AND 0x0F \<noteq> rx_next_sequence r"
    by (simp add: consecutive_pci [OF k] sn del: of_nat_add)
  have t: "\<not> IsoTp_DeadlineReached now (rx_deadline_us r)" using intime by (simp add: IsoTp_DeadlineReached_eq)
  have "\<not> rx_state r \<noteq> ISOTP_RX_RECEIVING" using st by simp
  note guards = this t seq dlc
  show ?thesis
    unfolding k_def [symmetric] run IsoTp_ReceiveConsecutiveFrame_def Let_def m_def [symmetric] isotp_pad_dlc
    using o e rb
    by (simp only: guards if_False simp_thms m c [folded rb_def] off_def [symmetric])
      (auto simp: BuildFlowControl_continue st)
qed

lemma OnCanFrame_continue:
  assumes inv: "isotp_inv s" and st: "tx_state s = ISOTP_TX_WAIT_FLOW_CONTROL"
    and intime: "\<not> time_reached now (tx_deadline_us s)"
    and stmin: "IsoTp_DecodeStMin (rx_st_min cfg) = Some t"
  shows "IsoTp_OnCanFrame_body s (isotp_continue cfg) now rf = (ISOTP_RESULT_OK,
     s\<lparr>tx_block_remaining := rx_block_size cfg, tx_st_min_us := t, tx_deadline_us := now,
       tx_wait_count := 0, tx_state := ISOTP_TX_SEND_CONSECUTIVE\<rparr>, rf)"
proof -
  have "frame_data (isotp_continue cfg) ! 0 = 0x30" "frame_data (isotp_continue cfg) ! 1 = rx_block_size cfg"
    "frame_data (isotp_continue cfg) ! 2 = rx_st_min cfg" "frame_dlc (isotp_continue cfg) = 8"
    by (simp_all add: isotp_continue_def isotp_pad_def)
  then show ?thesis
    using assms by (simp add: IsoTp_OnCanFrame_body_def IsoTp_ReceiveFlowControl_def isotp_inv_def
      IsoTp_DeadlineReached_eq)
qed

section \<open>A sender and a receiver\<close>

text \<open>
  One exchange at time \<open>now\<close>: the frame \<open>f\<close> of the sender goes to the receiver, and the
  flow control it answers with, if any, goes back to the sender. \<open>junk\<close> is what the
  out-frame of a call holds before the call.
\<close>

definition isotp_deliver ::
  "IsoTp_CanFrame \<Rightarrow> u32 \<Rightarrow> IsoTp_CanFrame \<Rightarrow> IsoTp_Channel \<Rightarrow> IsoTp_Channel
    \<Rightarrow> IsoTp_Channel \<times> IsoTp_Channel" where
  "isotp_deliver junk now f s r =
    (case IsoTp_OnCanFrame_body r f now junk of
       (res, r', rf) \<Rightarrow>
         (if res = ISOTP_RESULT_FRAME_READY
          then (fst (snd (IsoTp_OnCanFrame_body s rf now junk)), r')
          else (s, r')))"

text \<open>The main loops of both sides, with the delays between the polls of the sender.\<close>

fun isotp_transfer ::
  "IsoTp_CanFrame \<Rightarrow> u32 list \<Rightarrow> u32 \<Rightarrow> IsoTp_Channel \<Rightarrow> IsoTp_Channel
    \<Rightarrow> IsoTp_CanFrame list \<times> IsoTp_Channel \<times> IsoTp_Channel" where
  "isotp_transfer junk [] now s r = ([], s, r)"
| "isotp_transfer junk (d # ds) now s r =
    (case IsoTp_Process_body s (now + d) junk of
       (res, s', f) \<Rightarrow>
         (if res = ISOTP_RESULT_FRAME_READY
          then (case isotp_deliver junk (now + d) f s' r of
                  (s'', r') \<Rightarrow>
                    (case isotp_transfer junk ds (now + d) s'' r' of (fs, e) \<Rightarrow> (f # fs, e)))
          else isotp_transfer junk ds (now + d) s' r))"

text \<open>
  The result is the list of data frames the sender put on the bus, in their order, and the
  channels at the end.
\<close>

definition isotp_send ::
  "IsoTp_CanFrame \<Rightarrow> bytes \<Rightarrow> u32 list \<Rightarrow> u32 \<Rightarrow> IsoTp_Channel \<Rightarrow> IsoTp_Channel
    \<Rightarrow> IsoTp_CanFrame list \<times> IsoTp_Channel \<times> IsoTp_Channel" where
  "isotp_send junk p ds now s r =
    (case IsoTp_StartTransmit_body s p (word_of_nat (length p)) now junk of
       (res, s', f) \<Rightarrow>
         (if res = ISOTP_RESULT_FRAME_READY
          then (case isotp_deliver junk now f s' r of
                  (s'', r') \<Rightarrow>
                    (case isotp_transfer junk ds now s'' r' of (fs, e) \<Rightarrow> (f # fs, e)))
          else ([], s', r)))"

definition isotp_delivered :: "bytes \<Rightarrow> IsoTp_Channel \<times> IsoTp_Channel \<Rightarrow> bool" where
  "isotp_delivered p = (\<lambda>(s, r). tx_state s = ISOTP_TX_COMPLETE \<and> rx_state s \<noteq> ISOTP_RX_RECEIVING
     \<and> ch_initialized s \<and> rx_state r = ISOTP_RX_COMPLETE \<and> unat (rx_length r) = length p
     \<and> take (length p) (rx_buffer r) = p)"

definition isotp_coupled :: "bytes \<Rightarrow> u32 \<Rightarrow> IsoTp_Channel \<Rightarrow> IsoTp_Channel \<Rightarrow> bool" where
  "isotp_coupled p now s r \<longleftrightarrow> isotp_inv s \<and> isotp_inv r \<and> length p \<le> 4095
     \<and> rx_state s \<noteq> ISOTP_RX_RECEIVING \<and> tx_state s = ISOTP_TX_SEND_CONSECUTIVE
     \<and> rx_state r = ISOTP_RX_RECEIVING
     \<and> tx_length s = word_of_nat (length p) \<and> rx_length r = word_of_nat (length p)
     \<and> tx_offset s = rx_offset r
     \<and> take (length p) (tx_buffer s) = p
     \<and> take (unat (rx_offset r)) (rx_buffer r) = take (unat (rx_offset r)) p
     \<and> IsoTp_DecodeStMin (rx_st_min (ch_config r)) = Some (tx_st_min_us s)
     \<and> (tx_deadline_us s = now \<or> tx_deadline_us s = now + tx_st_min_us s)
     \<and> rx_deadline_us r = now + consecutive_frame_timeout_us (ch_config r)
     \<and> unat (rx_block_size (ch_config r)) = unat (tx_block_remaining s) + unat (rx_block_count r)"

lemma DecodeStMin_bound: "IsoTp_DecodeStMin x = Some t \<Longrightarrow> t \<le> 0x7FFFFFFF"
proof -
  assume a: "IsoTp_DecodeStMin x = Some t"
  have "unat (ucast x * 1000 :: u32) \<le> 255000" "unat (ucast (x - 0xF0) * 100 :: u32) \<le> 25500"
    using unat_u8_less [of x] unat_u8_less [of "x - 0xF0"]
    by (simp_all add: unat_word_ariths del: unat_u8_less)
  with a show ?thesis by (auto simp: IsoTp_DecodeStMin_def nat_of_word split: if_splits)
qed

lemma coupled_offset:
  assumes "isotp_coupled p now s r"
  shows "unat (rx_offset r) < length p" "unat (tx_offset s) = unat (rx_offset r)"
    "unat (tx_length s) = length p" "unat (rx_length r) = length p"
proof -
  have "isotp_rx_inv r" "rx_state r = ISOTP_RX_RECEIVING" and l: "length p \<le> 4095"
    and eq: "rx_length r = word_of_nat (length p)" "tx_length s = word_of_nat (length p)"
      "tx_offset s = rx_offset r"
    using assms by (simp_all add: isotp_coupled_def isotp_inv_def)
  then show "unat (rx_offset r) < length p" "unat (tx_offset s) = unat (rx_offset r)"
    "unat (tx_length s) = length p" "unat (rx_length r) = length p"
    using l by (auto simp: isotp_rx_inv_def isotp_progress_ok_def nat_of_word unat_of_nat)
qed

lemma isotp_exchange:
  assumes J: "isotp_coupled p now s r"
    and d: "tx_st_min_us s \<le> d" "d < consecutive_frame_timeout_us (ch_config r)"
  defines "off \<equiv> unat (rx_offset r)"
  defines "n \<equiv> min 7 (length p - off)"
  defines "f \<equiv> isotp_pad (word_of_nat (32 + ((off - 6) div 7 + 1) mod 16) # take n (drop off p))"
  shows "\<exists>s1 s2 r2. IsoTp_Process_body s (now + d) junk = (ISOTP_RESULT_FRAME_READY, s1, f)
     \<and> isotp_deliver junk (now + d) f s1 r = (s2, r2)
     \<and> (if off + n = length p then isotp_delivered p (s2, r2)
        else isotp_coupled p (now + d) s2 r2 \<and> unat (rx_offset r2) = off + n
          \<and> ch_config r2 = ch_config r \<and> tx_st_min_us s2 = tx_st_min_us s)"
proof -
  have inv: "isotp_inv s" "isotp_inv r" using J by (simp_all add: isotp_coupled_def)
  have p: "unat (word_of_nat (length p) :: u16) = length p"
    using J by (simp add: isotp_coupled_def unat_of_nat)
  have cfg: "consecutive_frame_timeout_us (ch_config r) \<le> 0x7FFFFFFF"
    using inv by (simp add: isotp_inv_def isotp_config_ok_def)
  have dm: "d \<le> 0x7FFFFFFF" using d(2) cfg by simp
  have stm: "tx_st_min_us s \<le> 0x7FFFFFFF"
    using J DecodeStMin_bound by (auto simp: isotp_coupled_def)
  have due: "time_reached (now + d) (tx_deadline_us s)"
    using J time_reached_after [OF stm dm] time_reached_after [of 0 d now] dm d(1)
    by (auto simp: isotp_coupled_def)
  have intime: "\<not> time_reached (now + d) (rx_deadline_us r)"
    using J time_reached_after [OF cfg dm] d(2) by (simp add: isotp_coupled_def)
  have offs: "unat (tx_offset s) = off" "unat (tx_length s) = length p" "unat (rx_length r) = length p"
    and lt: "off < length p"
    using coupled_offset [OF J] by (simp_all add: off_def)
  have n: "off + n \<le> length p" using lt by (simp add: n_def)
  have chunk: "take n (drop off (tx_buffer s)) = take n (drop off p)"
  proof -
    have "p = take (length p) (tx_buffer s)" using J by (simp add: isotp_coupled_def)
    then have "take n (drop off p) = take n (drop off (take (length p) (tx_buffer s)))" by simp
    also have "\<dots> = take n (drop off (tx_buffer s))" using n by (simp add: drop_take min_def)
    finally show ?thesis by simp
  qed
  have cl: "length (take n (drop off p)) = n" using n by simp
  obtain s1 where P: "IsoTp_Process_body s (now + d) junk = (ISOTP_RESULT_FRAME_READY, s1, f)"
    and s1: "unat (tx_offset s1) = off + n" "tx_length s1 = tx_length s" "tx_buffer s1 = tx_buffer s"
      "rx_state s1 = rx_state s" "ch_config s1 = ch_config s" "tx_st_min_us s1 = tx_st_min_us s"
    and s1c: "if off + n = length p then tx_state s1 = ISOTP_TX_COMPLETE
        else if tx_block_remaining s = 1 then
          tx_state s1 = ISOTP_TX_WAIT_FLOW_CONTROL
          \<and> tx_deadline_us s1 = now + d + flow_control_timeout_us (ch_config s)
        else tx_state s1 = ISOTP_TX_SEND_CONSECUTIVE
          \<and> tx_deadline_us s1 = now + d + tx_st_min_us s
          \<and> tx_block_remaining s1 = (if tx_block_remaining s = 0 then 0 else tx_block_remaining s - 1)"
    using Process_sends [OF inv(1) _ _ due, of junk] J offs chunk
    by (auto simp: isotp_coupled_def n_def f_def)
  obtain r2 res rf where R: "IsoTp_OnCanFrame_body r f (now + d) junk = (res, r2, rf)"
    and r2: "unat (rx_offset r2) = off + n" "rx_length r2 = rx_length r"
      "take (off + n) (rx_buffer r2) = take off (rx_buffer r) @ take n (drop off p)"
    and r2c: "if off + n = length p then res = ISOTP_RESULT_MESSAGE_READY \<and> rx_state r2 = ISOTP_RX_COMPLETE
        else rx_state r2 = ISOTP_RX_RECEIVING
          \<and> rx_deadline_us r2 = now + d + consecutive_frame_timeout_us (ch_config r)
          \<and> (if rx_block_size (ch_config r) \<noteq> 0 \<and> rx_block_count r + 1 \<ge> rx_block_size (ch_config r)
             then res = ISOTP_RESULT_FRAME_READY \<and> rf = isotp_continue (ch_config r) \<and> rx_block_count r2 = 0
             else res = ISOTP_RESULT_OK \<and> rx_block_count r2 =
               (if rx_block_size (ch_config r) = 0 then rx_block_count r else rx_block_count r + 1))"
    using OnCanFrame_consecutive [OF inv(2) _ intime, of "take n (drop off p)" junk] J offs cl
    by (auto simp: isotp_coupled_def n_def off_def f_def)
  have inv1: "isotp_inv s1" "isotp_inv r2" and cfg2: "ch_config r2 = ch_config r"
    using inv P R by (auto dest: inv_Process inv_OnCanFrame config_OnCanFrame)
  have got: "take (off + n) (rx_buffer r2) = take (off + n) p"
    using J r2(3) by (simp add: isotp_coupled_def off_def take_add)
  show ?thesis
  proof (cases "off + n = length p")
    case True
    then have "isotp_deliver junk (now + d) f s1 r = (s1, r2)"
      using R r2c by (simp add: isotp_deliver_def)
    moreover have "isotp_delivered p (s1, r2)"
      using True J s1 s1c r2 r2c got offs inv1 by (simp add: isotp_delivered_def isotp_coupled_def isotp_inv_def)
    ultimately show ?thesis using P True by simp
  next
    case False
    have blk: "unat (rx_block_size (ch_config r)) = unat (tx_block_remaining s) + unat (rx_block_count r)"
      "rx_block_size (ch_config r) \<noteq> 0 \<longrightarrow> rx_block_count r < rx_block_size (ch_config r)"
      using J inv by (simp_all add: isotp_coupled_def isotp_inv_def isotp_rx_inv_def)
    have cnt: "unat (rx_block_count r + 1) = unat (rx_block_count r) + 1" if "rx_block_size (ch_config r) \<noteq> 0"
      using that blk(2) unat_u8_less [of "rx_block_size (ch_config r)"]
      by (subst unat_add_small) (auto simp: nat_of_word simp del: unat_u8_less)
    have eq1: "tx_block_remaining s = 1 \<longleftrightarrow>
        rx_block_size (ch_config r) \<noteq> 0 \<and> rx_block_count r + 1 \<ge> rx_block_size (ch_config r)"
      using blk cnt by (cases "rx_block_size (ch_config r) = 0") (auto simp: nat_of_word word_unat_eq_iff)
    have eq0: "tx_block_remaining s = 0 \<longleftrightarrow> rx_block_size (ch_config r) = 0"
      using blk by (auto simp: nat_of_word word_unat_eq_iff)
    have offs': "tx_offset s1 = rx_offset r2" using s1 r2 by (simp add: word_unat_eq_iff)
    have coupled: "isotp_coupled p (now + d) s2 r2"
      if "isotp_inv s2" "rx_state s2 = rx_state s1" "tx_state s2 = ISOTP_TX_SEND_CONSECUTIVE"
        "tx_length s2 = tx_length s1" "tx_offset s2 = tx_offset s1" "tx_buffer s2 = tx_buffer s1"
        "tx_st_min_us s2 = tx_st_min_us s"
        "tx_deadline_us s2 = now + d \<or> tx_deadline_us s2 = now + d + tx_st_min_us s"
        "unat (rx_block_size (ch_config r)) = unat (tx_block_remaining s2) + unat (rx_block_count r2)" for s2
      using that J s1 r2 r2c False got offs' inv1 cfg2 by (auto simp: isotp_coupled_def)
    show ?thesis
    proof (cases "tx_block_remaining s = 1")
      case True
      have fc: "0 < flow_control_timeout_us (ch_config s)" "flow_control_timeout_us (ch_config s) \<le> 0x7FFFFFFF"
        using inv by (simp_all add: isotp_inv_def isotp_config_ok_def)
      have "\<not> time_reached (now + d) (tx_deadline_us s1)"
        using time_not_reached_ahead [OF fc] s1c False True by simp
      moreover have "IsoTp_DecodeStMin (rx_st_min (ch_config r)) = Some (tx_st_min_us s)"
        using J by (simp add: isotp_coupled_def)
      ultimately have C: "IsoTp_OnCanFrame_body s1 rf (now + d) junk = (ISOTP_RESULT_OK,
         s1\<lparr>tx_block_remaining := rx_block_size (ch_config r), tx_st_min_us := tx_st_min_us s,
           tx_deadline_us := now + d, tx_wait_count := 0, tx_state := ISOTP_TX_SEND_CONSECUTIVE\<rparr>, junk)"
        (is "_ = (_, ?s2, _)")
        using OnCanFrame_continue [OF inv1(1)] s1c r2c False True eq1 by simp
      have D: "isotp_deliver junk (now + d) f s1 r = (?s2, r2)"
        using R r2c False True eq1 C by (simp add: isotp_deliver_def)
      have "isotp_coupled p (now + d) ?s2 r2"
        by (rule coupled) (use inv_OnCanFrame [OF inv1(1) C] r2c False True eq1 in auto)
      then show ?thesis using P D False r2(1) cfg2 by auto
    next
      case nxt: False
      then have D: "isotp_deliver junk (now + d) f s1 r = (s1, r2)"
        using R r2c False eq1 by (simp add: isotp_deliver_def)
      have rem: "unat (tx_block_remaining s - 1) = unat (tx_block_remaining s) - 1"
        if "tx_block_remaining s \<noteq> 0"
        using that by (subst unat_sub_le) (auto simp: nat_of_word unat_gt_0 Suc_le_eq)
      have "unat (rx_block_size (ch_config r)) = unat (tx_block_remaining s1) + unat (rx_block_count r2)"
        using blk(1) s1c r2c False nxt eq0 eq1 rem cnt by (auto simp: word_unat_eq_iff)
      then have "isotp_coupled p (now + d) s1 r2"
        by (intro coupled) (use inv1 s1 s1c False nxt in auto)
      then show ?thesis using P D False r2(1) cfg2 s1 by auto
    qed
  qed
qed

lemma isotp_transfer_idle:
  assumes "isotp_delivered p (s, r)"
  shows "isotp_transfer junk ds now s r = ([], s, r)"
  using assms
  by (induction ds arbitrary: now) (auto simp: isotp_delivered_def IsoTp_Process_body_def)

lemma isotp_transfer_delivers:
  assumes "isotp_coupled p now s r"
    and "\<forall>d \<in> set ds. tx_st_min_us s \<le> d \<and> d < consecutive_frame_timeout_us (ch_config r)"
    and "length p - unat (rx_offset r) \<le> 7 * length ds" "6 \<le> unat (rx_offset r)"
  shows "\<exists>e. isotp_transfer junk ds now s r
      = (isotp_consecutive ((unat (rx_offset r) - 6) div 7 + 1) (drop (unat (rx_offset r)) p), e)
    \<and> isotp_delivered p e"
  using assms
proof (induction ds arbitrary: now s r)
  case Nil
  then show ?case using coupled_offset(1) by fastforce
next
  case (Cons d ds)
  define off where "off = unat (rx_offset r)"
  define n where "n = min 7 (length p - off)"
  define f where "f = isotp_pad (word_of_nat (32 + ((off - 6) div 7 + 1) mod 16) # take n (drop off p))"
  have lt: "off < length p" using coupled_offset(1) [OF Cons.prems(1)] by (simp add: off_def)
  obtain s1 s2 r2 where P: "IsoTp_Process_body s (now + d) junk = (ISOTP_RESULT_FRAME_READY, s1, f)"
    and D: "isotp_deliver junk (now + d) f s1 r = (s2, r2)"
    and X: "if off + n = length p then isotp_delivered p (s2, r2)
        else isotp_coupled p (now + d) s2 r2 \<and> unat (rx_offset r2) = off + n
          \<and> ch_config r2 = ch_config r \<and> tx_st_min_us s2 = tx_st_min_us s"
    using isotp_exchange [OF Cons.prems(1), of d junk] Cons.prems(2)
    unfolding off_def n_def f_def by auto
  have seg: "isotp_consecutive ((off - 6) div 7 + 1) (drop off p)
    = f # isotp_consecutive ((off - 6) div 7 + 2) (drop (off + 7) p)"
    using lt by (subst isotp_consecutive.simps) (simp add: f_def n_def min_def ac_simps)
  show ?case
  proof (cases "off + n = length p")
    case True
    then have "drop (off + 7) p = []" by (auto simp: n_def)
    then have "isotp_consecutive k (drop (off + 7) p) = []" for k
      by (simp add: isotp_consecutive.simps [of k "[]"])
    then show ?thesis using True X P D seg by (auto simp: isotp_transfer_idle off_def)
  next
    case False
    then have n7: "n = 7" using lt by (auto simp: n_def)
    have "\<exists>e. isotp_transfer junk ds (now + d) s2 r2
      = (isotp_consecutive ((unat (rx_offset r2) - 6) div 7 + 1) (drop (unat (rx_offset r2)) p), e)
      \<and> isotp_delivered p e"
      using X Cons.prems False n7 by (intro Cons.IH) (auto simp: off_def)
    moreover have "(off + 7 - 6) div 7 + 1 = (off - 6) div 7 + 2"
      using Cons.prems(4) by (simp add: off_def)
    ultimately show ?thesis using X P D False seg n7 by (auto simp: off_def)
  qed
qed

text \<open>
  C1. Message transfer over ISO-TP, from end to end. For every payload of 1 to 4095 bytes that
  fits both buffers and every schedule of polls whose delays respect the separation time the
  receiver asks for and stay below its N_Cr timeout: after \<open>IsoTp_StartTransmit\<close> on an idle
  sender, the calls of \<open>IsoTp_Process\<close> and \<open>IsoTp_OnCanFrame\<close> on the two sides put exactly
  the frames of ISO 15765-2 on the bus (single frame, or first frame and consecutive frames
  with their sequence numbers and padding), handle the flow control of every block, and leave
  the complete message in the receive buffer and the sender in its complete state.
\<close>

theorem isotp_send_delivers:
  assumes inv: "isotp_inv s" "isotp_inv r"
    and s: "tx_state s \<in> {ISOTP_TX_IDLE, ISOTP_TX_COMPLETE}" "rx_state s \<noteq> ISOTP_RX_RECEIVING"
    and r: "rx_state r = ISOTP_RX_IDLE"
    and p: "p \<noteq> []" "length p \<le> 4095" "length p \<le> unat (tx_buffer_capacity (ch_config s))"
      "length p \<le> unat (rx_buffer_capacity (ch_config r))"
    and st: "IsoTp_DecodeStMin (rx_st_min (ch_config r)) = Some t"
    and ds: "\<forall>d \<in> set ds. t \<le> d \<and> d < consecutive_frame_timeout_us (ch_config r)"
      "length p \<le> 7 * length ds + 6"
  shows "\<exists>e. isotp_send junk p ds now s r = (isotp_segment p, e) \<and> isotp_delivered p e"
proof (cases "length p \<le> 7")
  case True
  obtain s1 where S: "IsoTp_StartTransmit_body s p (word_of_nat (length p)) now junk
      = (ISOTP_RESULT_FRAME_READY, s1, isotp_first p)" and s1: "tx_state s1 = ISOTP_TX_COMPLETE" 
    "rx_state s1 = rx_state s"
    using StartTransmit_single [OF inv(1) p(1) True p(3) s(1)] by blast
  obtain r1 where R: "IsoTp_OnCanFrame_body r (isotp_first p) now junk = (ISOTP_RESULT_MESSAGE_READY, r1, junk)"
    "rx_state r1 = ISOTP_RX_COMPLETE" "unat (rx_length r1) = length p" "take (length p) (rx_buffer r1) = p"
    using OnCanFrame_single [OF inv(2) p(1) True p(4) r] by blast
  have "isotp_inv s1" using inv(1) S by (rule inv_StartTransmit)
  then have "isotp_delivered p (s1, r1)"
    using s s1 R by (simp add: isotp_delivered_def isotp_inv_def)
  then show ?thesis using S R True
    by (simp add: isotp_send_def isotp_deliver_def isotp_transfer_idle isotp_segment_def)
next
  case False
  then have p7: "7 < length p" by simp
  obtain s1 where S: "IsoTp_StartTransmit_body s p (word_of_nat (length p)) now junk
      = (ISOTP_RESULT_FRAME_READY, s1, isotp_first p)"
    and s1: "tx_state s1 = ISOTP_TX_WAIT_FLOW_CONTROL" "take (length p) (tx_buffer s1) = p"
      "tx_length s1 = word_of_nat (length p)" "tx_offset s1 = 6"
      "tx_deadline_us s1 = now + flow_control_timeout_us (ch_config s)" "rx_state s1 = rx_state s"
    using StartTransmit_first [OF inv(1) p7 p(2,3) s(1)] by blast
  obtain r1 where R: "IsoTp_OnCanFrame_body r (isotp_first p) now junk
      = (ISOTP_RESULT_FRAME_READY, r1, isotp_continue (ch_config r))"
    and r1: "rx_state r1 = ISOTP_RX_RECEIVING" "rx_length r1 = word_of_nat (length p)" "rx_offset r1 = 6"
      "take 6 (rx_buffer r1) = take 6 p" "rx_block_count r1 = 0"
      "rx_deadline_us r1 = now + consecutive_frame_timeout_us (ch_config r)"
    using OnCanFrame_first [OF inv(2) p7 p(2,4) r] by blast
  have inv1: "isotp_inv s1" "isotp_inv r1" and cfg: "ch_config r1 = ch_config r"
    using inv S R by (auto dest: inv_StartTransmit inv_OnCanFrame config_OnCanFrame)
  have "0 < flow_control_timeout_us (ch_config s)" "flow_control_timeout_us (ch_config s) \<le> 0x7FFFFFFF"
    using inv by (simp_all add: isotp_inv_def isotp_config_ok_def)
  then have intime: "\<not> time_reached now (tx_deadline_us s1)"
    using s1(5) time_not_reached_ahead by simp
  note C = OnCanFrame_continue [OF inv1(1) s1(1) intime st, of junk]
  let ?s2 = "s1\<lparr>tx_block_remaining := rx_block_size (ch_config r), tx_st_min_us := t,
    tx_deadline_us := now, tx_wait_count := 0, tx_state := ISOTP_TX_SEND_CONSECUTIVE\<rparr>"
  have "isotp_inv ?s2" using inv1(1) C by (rule inv_OnCanFrame)
  then have J: "isotp_coupled p now ?s2 r1"
    using inv1 s s1 r1 p cfg st by (simp add: isotp_coupled_def)
  have "\<exists>e. isotp_transfer junk ds now ?s2 r1
      = (isotp_consecutive ((unat (rx_offset r1) - 6) div 7 + 1) (drop (unat (rx_offset r1)) p), e)
    \<and> isotp_delivered p e"
    by (rule isotp_transfer_delivers [OF J]) (use ds cfg r1 in auto)
  then show ?thesis using S R C r1 False
    by (auto simp: isotp_send_def isotp_deliver_def isotp_segment_def)
qed

theorem isotp_send_delivers_witness:
  "\<exists>e. isotp_send (isotp_pad []) [1, 2, 3, 4, 5, 6, 7, 8, 9, 10] [6000] 0 demo_channel demo_channel
      = (isotp_segment [1, 2, 3, 4, 5, 6, 7, 8, 9, 10], e)
    \<and> isotp_delivered [1, 2, 3, 4, 5, 6, 7, 8, 9, 10] e"
  by (rule isotp_send_delivers [OF demo_inv demo_inv, where t = 5000])
    (simp_all add: demo_channel_def demo_config_def IsoTp_DecodeStMin_def)

end
