(* ===== verification/BootMap.thy ===== *)
theory BootMap
  imports Prelude
begin

text \<open>
  The flash layout of \<open>src/Core/Inc/boot_memory_map.h\<close>, and the facts about it that the
  static assertions of the sources check at compile time.
\<close>

definition BOOT_FLASH_BASE_ADDRESS :: u32 where "BOOT_FLASH_BASE_ADDRESS = 0x08000000"
definition BOOT_FLASH_END_ADDRESS :: u32 where "BOOT_FLASH_END_ADDRESS = 0x08200000"
definition BOOT_FLASH_BANK_SIZE :: u32 where "BOOT_FLASH_BANK_SIZE = 0x00100000"
definition BOOT_FLASH_SECTOR_SIZE :: u32 where "BOOT_FLASH_SECTOR_SIZE = 0x00002000"
definition BOOT_FLASH_PROGRAM_UNIT_SIZE :: u32 where "BOOT_FLASH_PROGRAM_UNIT_SIZE = 16"
definition BOOT_LOADER_BASE_ADDRESS :: u32 where "BOOT_LOADER_BASE_ADDRESS = 0x08000000"
definition BOOT_LOADER_REGION_SIZE :: u32 where "BOOT_LOADER_REGION_SIZE = 0x00020000"
definition BOOT_SLOT_A_BASE_ADDRESS :: u32 where "BOOT_SLOT_A_BASE_ADDRESS = 0x08020000"
definition BOOT_SLOT_A_REGION_SIZE :: u32 where "BOOT_SLOT_A_REGION_SIZE = 0x000E0000"
definition BOOT_SLOT_B_BASE_ADDRESS :: u32 where "BOOT_SLOT_B_BASE_ADDRESS = 0x08100000"
definition BOOT_SLOT_B_REGION_SIZE :: u32 where "BOOT_SLOT_B_REGION_SIZE = 0x000E0000"
definition BOOT_CONTROL_BASE_ADDRESS :: u32 where "BOOT_CONTROL_BASE_ADDRESS = 0x081E0000"
definition BOOT_CONTROL_REGION_SIZE :: u32 where "BOOT_CONTROL_REGION_SIZE = 0x00020000"
definition BOOT_CONTROL_RECORD_0_ADDRESS :: u32 where
  "BOOT_CONTROL_RECORD_0_ADDRESS = BOOT_CONTROL_BASE_ADDRESS"
definition BOOT_CONTROL_RECORD_1_ADDRESS :: u32 where
  "BOOT_CONTROL_RECORD_1_ADDRESS = BOOT_CONTROL_BASE_ADDRESS + BOOT_FLASH_SECTOR_SIZE"
definition BOOT_IMAGE_MANIFEST_SIZE :: u32 where "BOOT_IMAGE_MANIFEST_SIZE = 128"
definition BOOT_IMAGE_HEADER_SIZE :: u32 where "BOOT_IMAGE_HEADER_SIZE = 1024"
definition BOOT_IMAGE_VECTOR_ALIGNMENT :: u32 where "BOOT_IMAGE_VECTOR_ALIGNMENT = 1024"

lemmas boot_map = BOOT_FLASH_BASE_ADDRESS_def BOOT_FLASH_END_ADDRESS_def BOOT_FLASH_BANK_SIZE_def
  BOOT_FLASH_SECTOR_SIZE_def BOOT_FLASH_PROGRAM_UNIT_SIZE_def BOOT_LOADER_BASE_ADDRESS_def
  BOOT_LOADER_REGION_SIZE_def BOOT_SLOT_A_BASE_ADDRESS_def BOOT_SLOT_A_REGION_SIZE_def
  BOOT_SLOT_B_BASE_ADDRESS_def BOOT_SLOT_B_REGION_SIZE_def BOOT_CONTROL_BASE_ADDRESS_def
  BOOT_CONTROL_REGION_SIZE_def BOOT_CONTROL_RECORD_0_ADDRESS_def
  BOOT_CONTROL_RECORD_1_ADDRESS_def BOOT_IMAGE_MANIFEST_SIZE_def BOOT_IMAGE_HEADER_SIZE_def
  BOOT_IMAGE_VECTOR_ALIGNMENT_def

text \<open>The regions follow one another without gaps and end at the end of the flash.\<close>

lemma boot_regions_contiguous:
  "BOOT_LOADER_BASE_ADDRESS + BOOT_LOADER_REGION_SIZE = BOOT_SLOT_A_BASE_ADDRESS"
  "BOOT_SLOT_A_BASE_ADDRESS + BOOT_SLOT_A_REGION_SIZE = BOOT_FLASH_BASE_ADDRESS + BOOT_FLASH_BANK_SIZE"
  "BOOT_SLOT_A_BASE_ADDRESS + BOOT_SLOT_A_REGION_SIZE = BOOT_SLOT_B_BASE_ADDRESS"
  "BOOT_SLOT_B_BASE_ADDRESS + BOOT_SLOT_B_REGION_SIZE = BOOT_CONTROL_BASE_ADDRESS"
  "BOOT_CONTROL_BASE_ADDRESS + BOOT_CONTROL_REGION_SIZE = BOOT_FLASH_END_ADDRESS"
  by (simp_all add: boot_map)

text \<open>
  The flash array as a map from addresses to bytes: the \<open>n\<close> bytes from \<open>a\<close>, and the addresses
  that lie among them (the distance from \<open>a\<close> modulo the address space is below \<open>n\<close>).
\<close>

type_synonym flash = "u32 \<Rightarrow> u8"

definition flash_bytes :: "flash \<Rightarrow> u32 \<Rightarrow> nat \<Rightarrow> bytes" where
  "flash_bytes m a n = map (\<lambda>i. m (a + of_nat i)) [0..<n]"

definition in_range :: "u32 \<Rightarrow> nat \<Rightarrow> u32 \<Rightarrow> bool" where
  "in_range a n x \<longleftrightarrow> unat (x - a) < n"

lemma length_flash_bytes [simp]: "length (flash_bytes m a n) = n"
  by (simp add: flash_bytes_def)

lemma nth_flash_bytes [simp]: "i < n \<Longrightarrow> flash_bytes m a n ! i = m (a + of_nat i)"
  by (simp add: flash_bytes_def)

lemma in_range_offset [simp]: "i < 2 ^ 32 \<Longrightarrow> in_range a n (a + of_nat i) \<longleftrightarrow> i < n"
  by (simp add: in_range_def unat_of_nat)

lemma in_range_shift:
  assumes "k < 2 ^ 32" "i < 2 ^ 32"
  shows "in_range (a + of_nat k) n (a + of_nat i) \<longleftrightarrow>
    (if k \<le> i then i - k < n else i + 2 ^ 32 - k < n)"
proof -
  have "a + of_nat i - (a + of_nat k) = (of_nat i - of_nat k :: u32)" by simp
  moreover have "unat (of_nat i - of_nat k :: u32) = (if k \<le> i then i - k else i + 2 ^ 32 - k)"
    using assms by (simp add: unat_sub_if' unat_of_nat)
  ultimately show ?thesis by (simp add: in_range_def)
qed

lemma in_range_mono: "in_range a n x \<Longrightarrow> n \<le> m \<Longrightarrow> in_range a m x"
  by (simp add: in_range_def)

lemma in_range_sub:
  assumes "in_range (a + of_nat k) n x" "k + n \<le> m" "m < 2 ^ 32"
  shows "in_range a m x"
proof -
  define y where "y = unat (x - (a + of_nat k))"
  have "x - a = of_nat (y + k)" by (simp add: y_def)
  moreover have "y + k < m" using assms by (simp add: in_range_def y_def)
  ultimately show ?thesis using assms(3) by (simp add: in_range_def unat_of_nat del: of_nat_add)
qed

lemma flash_bytes_cong:
  "(\<And>i. i < n \<Longrightarrow> m (a + of_nat i) = m' (a + of_nat i)) \<Longrightarrow> flash_bytes m a n = flash_bytes m' a n"
  by (simp add: flash_bytes_def)

lemma flash_bytes_eqI:
  "length d = n \<Longrightarrow> (\<And>i. i < n \<Longrightarrow> m (a + of_nat i) = d ! i) \<Longrightarrow> flash_bytes m a n = d"
  by (rule nth_equalityI) simp_all

end
