(* ===== verification/BootControl.thy ===== *)
theory BootControl
  imports Prelude
begin

text \<open>
  The boot-control record of \<open>src/Core/Src/boot_control.c\<close>: which slot is confirmed, which one
  is on trial, how many trial boots are left and how far the anti-rollback counter has moved.
  The state is a record with the fields of \<open>Boot_ControlState_t\<close>; a 64-byte flash record is a
  byte list. A pointer argument the code tests against NULL is an \<open>option\<close>.
  The lemmas show the validity invariant, the encoding (round trip, uncommitted and corrupted
  records), and the order of generations.
\<close>

section \<open>Data\<close>

definition BOOT_CONTROL_RECORD_MAGIC :: u32 where "BOOT_CONTROL_RECORD_MAGIC = 0x31544342"
definition BOOT_CONTROL_RECORD_VERSION :: u16 where "BOOT_CONTROL_RECORD_VERSION = 1"
definition BOOT_CONTROL_RECORD_SIZE :: u16 where "BOOT_CONTROL_RECORD_SIZE = 64"
definition BOOT_CONTROL_CRC_OFFSET :: u32 where "BOOT_CONTROL_CRC_OFFSET = 56"
definition BOOT_CONTROL_COMMIT_OFFSET :: nat where "BOOT_CONTROL_COMMIT_OFFSET = 60"
definition BOOT_CONTROL_COMMIT_MARKER :: u32 where "BOOT_CONTROL_COMMIT_MARKER = 0xC04E7A5A"
definition BOOT_CONTROL_MAX_PENDING_ATTEMPTS :: u8 where "BOOT_CONTROL_MAX_PENDING_ATTEMPTS = 3"

lemmas boot_record_consts = BOOT_CONTROL_RECORD_MAGIC_def BOOT_CONTROL_RECORD_VERSION_def
  BOOT_CONTROL_RECORD_SIZE_def BOOT_CONTROL_CRC_OFFSET_def BOOT_CONTROL_COMMIT_OFFSET_def
  BOOT_CONTROL_COMMIT_MARKER_def

text \<open>
  A slot read from flash is a byte cast to the enumeration, so a value outside the three
  enumerators is possible; it is kept as \<open>BOOT_SLOT_OTHER\<close>.
\<close>

datatype Boot_Slot = BOOT_SLOT_NONE | BOOT_SLOT_A | BOOT_SLOT_B | BOOT_SLOT_OTHER u8

definition boot_slot_byte :: "Boot_Slot \<Rightarrow> u8" where
  "boot_slot_byte s = (case s of BOOT_SLOT_NONE \<Rightarrow> 0 | BOOT_SLOT_A \<Rightarrow> 1 | BOOT_SLOT_B \<Rightarrow> 2
     | BOOT_SLOT_OTHER b \<Rightarrow> b)"

definition boot_slot_of_byte :: "u8 \<Rightarrow> Boot_Slot" where
  "boot_slot_of_byte b = (if b = 0 then BOOT_SLOT_NONE else if b = 1 then BOOT_SLOT_A
     else if b = 2 then BOOT_SLOT_B else BOOT_SLOT_OTHER b)"

datatype Boot_ControlResult = BOOT_CONTROL_RESULT_OK | BOOT_CONTROL_RESULT_INVALID_ARGUMENT
  | BOOT_CONTROL_RESULT_INVALID_STATE | BOOT_CONTROL_RESULT_NO_VALID_RECORD
  | BOOT_CONTROL_RESULT_RECORD_CONFLICT | BOOT_CONTROL_RESULT_SECURITY_ROLLBACK

datatype Boot_Decision = BOOT_DECISION_RECOVERY | BOOT_DECISION_SLOT_A | BOOT_DECISION_SLOT_B

record Boot_ControlState =
  generation :: u32
  confirmed_slot :: Boot_Slot
  pending_slot :: Boot_Slot
  attempts_remaining :: u8
  minimum_security_counter :: u32
  confirmed_security_counter :: u32
  pending_security_counter :: u32
  confirmed_build_version :: u32
  pending_build_version :: u32

definition boot_state_zero :: Boot_ControlState where
  "boot_state_zero = \<lparr>generation = 0, confirmed_slot = BOOT_SLOT_NONE,
     pending_slot = BOOT_SLOT_NONE, attempts_remaining = 0, minimum_security_counter = 0,
     confirmed_security_counter = 0, pending_security_counter = 0,
     confirmed_build_version = 0, pending_build_version = 0\<rparr>"

section \<open>Helpers\<close>

definition Boot_Control_ReadU16Le :: "bytes \<Rightarrow> nat \<Rightarrow> u16" where
  "Boot_Control_ReadU16Le d p = ucast (d ! p) OR push_bit 8 (ucast (d ! (p + 1)))"

definition Boot_Control_ReadU32Le :: "bytes \<Rightarrow> nat \<Rightarrow> u32" where
  "Boot_Control_ReadU32Le d p = ucast (d ! p) OR push_bit 8 (ucast (d ! (p + 1)))
     OR push_bit 16 (ucast (d ! (p + 2))) OR push_bit 24 (ucast (d ! (p + 3)))"

definition Boot_Control_WriteU16Le :: "bytes \<Rightarrow> nat \<Rightarrow> u16 \<Rightarrow> bytes" where
  "Boot_Control_WriteU16Le d p v = d[p := ucast v, p + 1 := ucast (drop_bit 8 v)]"

definition Boot_Control_WriteU32Le :: "bytes \<Rightarrow> nat \<Rightarrow> u32 \<Rightarrow> bytes" where
  "Boot_Control_WriteU32Le d p v = d[p := ucast v, p + 1 := ucast (drop_bit 8 v),
     p + 2 := ucast (drop_bit 16 v), p + 3 := ucast (drop_bit 24 v)]"

lemma boot_control_byte_order [byte_order]:
  "Boot_Control_ReadU16Le = read_u16_le" "Boot_Control_ReadU32Le = read_u32_le"
  "Boot_Control_WriteU16Le = write_u16_le" "Boot_Control_WriteU32Le = write_u32_le"
  by (simp_all add: fun_eq_iff Boot_Control_ReadU16Le_def Boot_Control_ReadU32Le_def
      Boot_Control_WriteU16Le_def Boot_Control_WriteU32Le_def read_u16_le_def read_u32_le_def
      write_u16_le_def write_u32_le_def)

text \<open>One round of the inner loop, and the loop over the bytes.\<close>

definition boot_crc32_bit :: "u32 \<Rightarrow> u32" where
  "boot_crc32_bit crc = (let mask = - (crc AND 1) in drop_bit 1 crc XOR (0xEDB88320 AND mask))"

definition boot_crc32_byte :: "u32 \<Rightarrow> u8 \<Rightarrow> u32" where
  "boot_crc32_byte crc b = (boot_crc32_bit ^^ 8) (crc XOR ucast b)"

definition Boot_Control_CalculateCrc32 :: "bytes \<Rightarrow> u32 \<Rightarrow> u32" where
  "Boot_Control_CalculateCrc32 data len =
     NOT (fold (\<lambda>i crc. boot_crc32_byte crc (data ! i)) [0..<unat len] 0xFFFFFFFF)"

definition Boot_Control_IsSlot :: "Boot_Slot \<Rightarrow> bool" where
  "Boot_Control_IsSlot slot \<longleftrightarrow> slot = BOOT_SLOT_A \<or> slot = BOOT_SLOT_B"

definition Boot_Control_IsStateValid_body :: "Boot_ControlState \<Rightarrow> bool" where
  "Boot_Control_IsStateValid_body st =
    (if generation st = 0 \<or> \<not> Boot_Control_IsSlot (confirmed_slot st)
        \<or> confirmed_security_counter st \<noteq> minimum_security_counter st then False
     else if pending_slot st = BOOT_SLOT_NONE then
       attempts_remaining st = 0 \<and> pending_security_counter st = 0
       \<and> pending_build_version st = 0
     else Boot_Control_IsSlot (pending_slot st) \<and> pending_slot st \<noteq> confirmed_slot st
       \<and> attempts_remaining st \<le> BOOT_CONTROL_MAX_PENDING_ATTEMPTS
       \<and> minimum_security_counter st < pending_security_counter st)"

definition Boot_Control_IsStateValid :: "Boot_ControlState option \<Rightarrow> bool" where
  "Boot_Control_IsStateValid state = (case state of None \<Rightarrow> False
     | Some st \<Rightarrow> Boot_Control_IsStateValid_body st)"

definition Boot_Control_NextGeneration :: "u32 \<Rightarrow> u32" where
  "Boot_Control_NextGeneration g = (let g = g + 1 in if g = 0 then 1 else g)"

definition Boot_Control_IsGenerationNewer :: "u32 \<Rightarrow> u32 \<Rightarrow> bool" where
  "Boot_Control_IsGenerationNewer candidate reference \<longleftrightarrow> 0 < sint (candidate - reference)"

definition Boot_Control_ClearPending :: "Boot_ControlState \<Rightarrow> Boot_ControlState" where
  "Boot_Control_ClearPending st = st\<lparr>pending_slot := BOOT_SLOT_NONE, attempts_remaining := 0,
     pending_security_counter := 0, pending_build_version := 0\<rparr>"

definition Boot_Control_StatesEqual :: "Boot_ControlState \<Rightarrow> Boot_ControlState \<Rightarrow> bool" where
  "Boot_Control_StatesEqual l r \<longleftrightarrow> generation l = generation r
     \<and> confirmed_slot l = confirmed_slot r \<and> pending_slot l = pending_slot r
     \<and> attempts_remaining l = attempts_remaining r
     \<and> minimum_security_counter l = minimum_security_counter r
     \<and> confirmed_security_counter l = confirmed_security_counter r
     \<and> pending_security_counter l = pending_security_counter r
     \<and> confirmed_build_version l = confirmed_build_version r
     \<and> pending_build_version l = pending_build_version r"

section \<open>Records\<close>

definition boot_reserved_words_zero :: "bytes \<Rightarrow> bool" where
  "boot_reserved_words_zero record \<longleftrightarrow>
     (\<forall>i \<in> set [0..<4]. Boot_Control_ReadU32Le record (40 + i * 4) = 0)"

text \<open>
  \<open>DecodeRecord\<close> fills the caller's state only after every field check has passed; the
  returned flag is then the validity of the state it wrote.
\<close>

definition Boot_Control_DecodeRecord ::
    "bytes option \<Rightarrow> Boot_ControlState option \<Rightarrow> bool \<times> Boot_ControlState option" where
  "Boot_Control_DecodeRecord record state = (case (record, state) of
     (Some r, Some st) \<Rightarrow>
       if Boot_Control_ReadU32Le r 0 \<noteq> BOOT_CONTROL_RECORD_MAGIC
         \<or> Boot_Control_ReadU16Le r 4 \<noteq> BOOT_CONTROL_RECORD_VERSION
         \<or> Boot_Control_ReadU16Le r 6 \<noteq> BOOT_CONTROL_RECORD_SIZE
         \<or> r ! 15 \<noteq> 0 \<or> Boot_Control_ReadU32Le r 36 \<noteq> 0
         \<or> Boot_Control_ReadU32Le r BOOT_CONTROL_COMMIT_OFFSET \<noteq> BOOT_CONTROL_COMMIT_MARKER
       then (False, state)
       else if \<not> boot_reserved_words_zero r then (False, state)
       else if Boot_Control_CalculateCrc32 r BOOT_CONTROL_CRC_OFFSET
           \<noteq> Boot_Control_ReadU32Le r (unat BOOT_CONTROL_CRC_OFFSET) then (False, state)
       else let st' = \<lparr>generation = Boot_Control_ReadU32Le r 8,
              confirmed_slot = boot_slot_of_byte (r ! 12),
              pending_slot = boot_slot_of_byte (r ! 13),
              attempts_remaining = r ! 14,
              minimum_security_counter = Boot_Control_ReadU32Le r 16,
              confirmed_security_counter = Boot_Control_ReadU32Le r 20,
              pending_security_counter = Boot_Control_ReadU32Le r 24,
              confirmed_build_version = Boot_Control_ReadU32Le r 28,
              pending_build_version = Boot_Control_ReadU32Le r 32\<rparr>
            in (Boot_Control_IsStateValid (Some st'), Some st')
   | _ \<Rightarrow> (False, state))"

definition Boot_Control_Initialize :: "Boot_ControlState option \<Rightarrow> Boot_Slot \<Rightarrow> u32 \<Rightarrow> u32
    \<Rightarrow> Boot_ControlResult \<times> Boot_ControlState option" where
  "Boot_Control_Initialize state slot security_counter build_version =
    (if state = None \<or> \<not> Boot_Control_IsSlot slot
     then (BOOT_CONTROL_RESULT_INVALID_ARGUMENT, state)
     else (BOOT_CONTROL_RESULT_OK, Some (boot_state_zero\<lparr>generation := 1,
       confirmed_slot := slot, minimum_security_counter := security_counter,
       confirmed_security_counter := security_counter,
       confirmed_build_version := build_version\<rparr>)))"

definition Boot_Control_PrepareRecord_body :: "Boot_ControlState \<Rightarrow> bytes \<Rightarrow> bytes" where
  "Boot_Control_PrepareRecord_body st record =
    (let r = fold (\<lambda>i d. d[i := 0]) [0..<unat BOOT_CONTROL_RECORD_SIZE] record;
         r = Boot_Control_WriteU32Le r 0 BOOT_CONTROL_RECORD_MAGIC;
         r = Boot_Control_WriteU16Le r 4 BOOT_CONTROL_RECORD_VERSION;
         r = Boot_Control_WriteU16Le r 6 BOOT_CONTROL_RECORD_SIZE;
         r = Boot_Control_WriteU32Le r 8 (generation st);
         r = r[12 := boot_slot_byte (confirmed_slot st)];
         r = r[13 := boot_slot_byte (pending_slot st)];
         r = r[14 := attempts_remaining st];
         r = Boot_Control_WriteU32Le r 16 (minimum_security_counter st);
         r = Boot_Control_WriteU32Le r 20 (confirmed_security_counter st);
         r = Boot_Control_WriteU32Le r 24 (pending_security_counter st);
         r = Boot_Control_WriteU32Le r 28 (confirmed_build_version st);
         r = Boot_Control_WriteU32Le r 32 (pending_build_version st);
         crc = Boot_Control_CalculateCrc32 r BOOT_CONTROL_CRC_OFFSET;
         r = Boot_Control_WriteU32Le r (unat BOOT_CONTROL_CRC_OFFSET) crc
     in Boot_Control_WriteU32Le r BOOT_CONTROL_COMMIT_OFFSET 0xFFFFFFFF)"

definition Boot_Control_PrepareRecord :: "Boot_ControlState option \<Rightarrow> bytes option
    \<Rightarrow> Boot_ControlResult \<times> bytes option" where
  "Boot_Control_PrepareRecord state record = (case record of
     None \<Rightarrow> (BOOT_CONTROL_RESULT_INVALID_ARGUMENT, record)
   | Some r \<Rightarrow> (case state of
       None \<Rightarrow> (BOOT_CONTROL_RESULT_INVALID_STATE, record)
     | Some st \<Rightarrow> if \<not> Boot_Control_IsStateValid state
         then (BOOT_CONTROL_RESULT_INVALID_STATE, record)
         else (BOOT_CONTROL_RESULT_OK, Some (Boot_Control_PrepareRecord_body st r))))"

definition Boot_Control_MarkRecordCommitted :: "bytes option \<Rightarrow> bytes option" where
  "Boot_Control_MarkRecordCommitted record = map_option
     (\<lambda>r. Boot_Control_WriteU32Le r BOOT_CONTROL_COMMIT_OFFSET BOOT_CONTROL_COMMIT_MARKER) record"

text \<open>The choice between two decoded records, then the whole of \<open>Load\<close>.\<close>

definition Boot_Control_Load_body ::
    "bytes \<Rightarrow> bytes \<Rightarrow> Boot_ControlResult \<times> Boot_ControlState \<times> u8" where
  "Boot_Control_Load_body record_0 record_1 =
    (let (valid_0, s0) = Boot_Control_DecodeRecord (Some record_0) (Some boot_state_zero);
         (valid_1, s1) = Boot_Control_DecodeRecord (Some record_1) (Some boot_state_zero);
         state_0 = the s0; state_1 = the s1
     in if \<not> valid_0 \<and> \<not> valid_1
        then (BOOT_CONTROL_RESULT_NO_VALID_RECORD, boot_state_zero, 0xFF)
        else if \<not> valid_1 then (BOOT_CONTROL_RESULT_OK, state_0, 0)
        else if \<not> valid_0 then (BOOT_CONTROL_RESULT_OK, state_1, 1)
        else let generation_delta = generation state_1 - generation state_0
          in if generation_delta = 0 then
               if \<not> Boot_Control_StatesEqual state_0 state_1
               then (BOOT_CONTROL_RESULT_RECORD_CONFLICT, boot_state_zero, 0xFF)
               else (BOOT_CONTROL_RESULT_OK, state_0, 0)
             else if generation_delta = 0x80000000
             then (BOOT_CONTROL_RESULT_RECORD_CONFLICT, boot_state_zero, 0xFF)
             else if Boot_Control_IsGenerationNewer (generation state_1) (generation state_0)
             then (BOOT_CONTROL_RESULT_OK, state_1, 1)
             else (BOOT_CONTROL_RESULT_OK, state_0, 0))"

definition Boot_Control_Load :: "bytes option \<Rightarrow> bytes option \<Rightarrow> Boot_ControlState option
    \<Rightarrow> u8 option \<Rightarrow> Boot_ControlResult \<times> Boot_ControlState option \<times> u8 option" where
  "Boot_Control_Load record_0 record_1 state selected = (case (record_0, record_1, state, selected) of
     (Some r0, Some r1, Some _, Some _) \<Rightarrow>
       (let (res, st, sel) = Boot_Control_Load_body r0 r1 in (res, Some st, Some sel))
   | _ \<Rightarrow> (BOOT_CONTROL_RESULT_INVALID_ARGUMENT, state, selected))"

section \<open>Operations on the state\<close>

definition Boot_Control_ScheduleUpdate_body :: "Boot_ControlState \<Rightarrow> Boot_Slot \<Rightarrow> u32 \<Rightarrow> u32
    \<Rightarrow> Boot_ControlResult \<times> Boot_ControlState" where
  "Boot_Control_ScheduleUpdate_body st target_slot security_counter build_version =
    (if \<not> Boot_Control_IsSlot target_slot then (BOOT_CONTROL_RESULT_INVALID_ARGUMENT, st)
     else if \<not> Boot_Control_IsStateValid_body st \<or> target_slot = confirmed_slot st
        \<or> pending_slot st \<noteq> BOOT_SLOT_NONE then (BOOT_CONTROL_RESULT_INVALID_STATE, st)
     else if security_counter \<le> minimum_security_counter st
     then (BOOT_CONTROL_RESULT_SECURITY_ROLLBACK, st)
     else (BOOT_CONTROL_RESULT_OK, st\<lparr>pending_slot := target_slot,
       attempts_remaining := BOOT_CONTROL_MAX_PENDING_ATTEMPTS,
       pending_security_counter := security_counter,
       pending_build_version := build_version,
       generation := Boot_Control_NextGeneration (generation st)\<rparr>))"

definition Boot_Control_ScheduleUpdate :: "Boot_ControlState option \<Rightarrow> Boot_Slot \<Rightarrow> u32 \<Rightarrow> u32
    \<Rightarrow> Boot_ControlResult \<times> Boot_ControlState option" where
  "Boot_Control_ScheduleUpdate state target_slot security_counter build_version = (case state of
     None \<Rightarrow> (BOOT_CONTROL_RESULT_INVALID_ARGUMENT, None)
   | Some st \<Rightarrow> map_prod id Some
       (Boot_Control_ScheduleUpdate_body st target_slot security_counter build_version))"

text \<open>
  \<open>SelectBoot\<close> on non-NULL arguments. \<open>None\<close> for the two outputs means that the call left
  them as they were (the early return for an invalid state).
\<close>

definition boot_slot_decision :: "Boot_Slot \<Rightarrow> Boot_Decision" where
  "boot_slot_decision s = (if s = BOOT_SLOT_A then BOOT_DECISION_SLOT_A else BOOT_DECISION_SLOT_B)"

definition Boot_Control_SelectBoot_body :: "Boot_ControlState \<Rightarrow> u8 \<Rightarrow> u8
    \<Rightarrow> Boot_ControlResult \<times> Boot_ControlState \<times> (Boot_Decision \<times> u8) option" where
  "Boot_Control_SelectBoot_body st a b =
    (if \<not> Boot_Control_IsStateValid_body st then (BOOT_CONTROL_RESULT_INVALID_STATE, st, None)
     else let slot_a_valid = a \<noteq> 0; slot_b_valid = b \<noteq> 0;
              confirmed_valid = (if confirmed_slot st = BOOT_SLOT_A then slot_a_valid
                                 else slot_b_valid);
              pending_valid = (if pending_slot st = BOOT_SLOT_A then slot_a_valid
                               else slot_b_valid)
       in if pending_slot st \<noteq> BOOT_SLOT_NONE \<and> pending_valid \<and> attempts_remaining st > 0
          then (BOOT_CONTROL_RESULT_OK,
                st\<lparr>attempts_remaining := attempts_remaining st - 1,
                   generation := Boot_Control_NextGeneration (generation st)\<rparr>,
                Some (boot_slot_decision (pending_slot st), 1))
          else let (st', changed) =
                 (if pending_slot st \<noteq> BOOT_SLOT_NONE
                  then ((Boot_Control_ClearPending st)
                    \<lparr>generation := Boot_Control_NextGeneration (generation st)\<rparr>, 1)
                  else (st, 0))
            in (BOOT_CONTROL_RESULT_OK, st',
                Some (if confirmed_valid then boot_slot_decision (confirmed_slot st')
                      else BOOT_DECISION_RECOVERY, changed)))"

definition Boot_Control_SelectBoot :: "Boot_ControlState option \<Rightarrow> u8 \<Rightarrow> u8
    \<Rightarrow> Boot_Decision option \<Rightarrow> u8 option
    \<Rightarrow> Boot_ControlResult \<times> Boot_ControlState option \<times> Boot_Decision option \<times> u8 option" where
  "Boot_Control_SelectBoot state a b decision state_changed =
    (case (state, decision, state_changed) of
       (Some st, Some d, Some c) \<Rightarrow>
         (let (res, st', out) = Boot_Control_SelectBoot_body st a b;
              (d', c') = (case out of None \<Rightarrow> (d, c) | Some p \<Rightarrow> p)
          in (res, Some st', Some d', Some c'))
     | _ \<Rightarrow> (BOOT_CONTROL_RESULT_INVALID_ARGUMENT, state, decision, state_changed))"

definition Boot_Control_ConfirmRunning_body :: "Boot_ControlState \<Rightarrow> Boot_Slot \<Rightarrow> u32 \<Rightarrow> u32
    \<Rightarrow> Boot_ControlResult \<times> Boot_ControlState \<times> u8 option" where
  "Boot_Control_ConfirmRunning_body st running_slot security_counter build_version =
    (if \<not> Boot_Control_IsSlot running_slot
     then (BOOT_CONTROL_RESULT_INVALID_ARGUMENT, st, None)
     else if \<not> Boot_Control_IsStateValid_body st
     then (BOOT_CONTROL_RESULT_INVALID_STATE, st, None)
     else if pending_slot st = BOOT_SLOT_NONE \<and> running_slot = confirmed_slot st
        \<and> security_counter = confirmed_security_counter st
        \<and> build_version = confirmed_build_version st
     then (BOOT_CONTROL_RESULT_OK, st, Some 0)
     else if running_slot \<noteq> pending_slot st \<or> security_counter \<noteq> pending_security_counter st
        \<or> build_version \<noteq> pending_build_version st
     then (BOOT_CONTROL_RESULT_INVALID_STATE, st, Some 0)
     else let st1 = st\<lparr>confirmed_slot := running_slot,
                minimum_security_counter := security_counter,
                confirmed_security_counter := security_counter,
                confirmed_build_version := build_version\<rparr>;
              st2 = Boot_Control_ClearPending st1
       in (BOOT_CONTROL_RESULT_OK,
           st2\<lparr>generation := Boot_Control_NextGeneration (generation st2)\<rparr>, Some 1))"

definition Boot_Control_ConfirmRunning :: "Boot_ControlState option \<Rightarrow> Boot_Slot \<Rightarrow> u32 \<Rightarrow> u32
    \<Rightarrow> u8 option \<Rightarrow> Boot_ControlResult \<times> Boot_ControlState option \<times> u8 option" where
  "Boot_Control_ConfirmRunning state running_slot security_counter build_version state_changed =
    (case (state, state_changed) of
       (Some st, Some c) \<Rightarrow>
         (let (res, st', out) = Boot_Control_ConfirmRunning_body st running_slot
                security_counter build_version
          in (res, Some st', Some (case out of None \<Rightarrow> c | Some c' \<Rightarrow> c')))
     | _ \<Rightarrow> (BOOT_CONTROL_RESULT_INVALID_ARGUMENT, state, state_changed))"

lemma boot_slot_roundtrip: "boot_slot_of_byte (boot_slot_byte s) = s \<longleftrightarrow>
   (\<forall>b. s = BOOT_SLOT_OTHER b \<longrightarrow> b \<noteq> 0 \<and> b \<noteq> 1 \<and> b \<noteq> 2)"
  by (cases s) (auto simp: boot_slot_of_byte_def boot_slot_byte_def)

lemma boot_slot_bytes [simp]:
  "Boot_Control_IsSlot s \<or> s = BOOT_SLOT_NONE \<Longrightarrow> boot_slot_of_byte (boot_slot_byte s) = s"
  by (auto simp: boot_slot_roundtrip Boot_Control_IsSlot_def)

section \<open>The checksum\<close>

lemma boot_crc32_bit_alt: "boot_crc32_bit x = drop_bit 1 x XOR (if bit x 0 then 0xEDB88320 else 0)"
  by (simp add: boot_crc32_bit_def Let_def and_one_eq mod_2_eq_odd bit_0)

lemma boot_crc32_bit_inj: "inj boot_crc32_bit"
proof (rule injI)
  fix x y assume eq: "boot_crc32_bit x = boot_crc32_bit y"
  have top: "bit (boot_crc32_bit z) 31 = bit z 0" for z
    using bit_imp_le_length [of z 32] by (auto simp: boot_crc32_bit_alt bit_simps)
  have b0: "bit x 0 = bit y 0" using top [of x] top [of y] eq by simp
  then have "drop_bit 1 x = drop_bit 1 y"
    using eq by (simp add: boot_crc32_bit_alt xor_cancel split: if_splits)
  then have "bit x (Suc n) = bit y (Suc n)" for n
    by (metis bit_drop_bit_eq comp_apply plus_1_eq_Suc)
  with b0 show "x = y" by (intro bit_word_eqI) (metis not0_implies_Suc)
qed

lemma boot_crc32_rounds_inj: "(boot_crc32_bit ^^ n) x = (boot_crc32_bit ^^ n) y \<longleftrightarrow> x = y"
  using inj_fn [OF boot_crc32_bit_inj, of n] by (simp add: inj_eq)

lemma boot_crc32_byte_inj_state: "boot_crc32_byte x b = boot_crc32_byte y b \<Longrightarrow> x = y"
  by (simp add: boot_crc32_byte_def boot_crc32_rounds_inj xor_cancel)

lemma boot_crc32_byte_inj_byte: "boot_crc32_byte x b = boot_crc32_byte x c \<Longrightarrow> b = c"
  by (simp only: boot_crc32_byte_def boot_crc32_rounds_inj xor_cancel)
    (metis unat_u8_u32 word_unat_eq_iff)

lemma boot_crc32_fold_inj:
  "fold (\<lambda>i crc. boot_crc32_byte crc (d ! i)) is x = fold (\<lambda>i crc. boot_crc32_byte crc (d ! i)) is y
    \<Longrightarrow> x = y"
  by (induction "is" arbitrary: x y) (auto dest: boot_crc32_byte_inj_state)

lemma boot_crc_cong:
  assumes "\<And>i. i < unat n \<Longrightarrow> d ! i = e ! i"
  shows "Boot_Control_CalculateCrc32 d n = Boot_Control_CalculateCrc32 e n"
proof -
  have "fold (\<lambda>i crc. boot_crc32_byte crc (d ! i)) [0..<unat n] c
      = fold (\<lambda>i crc. boot_crc32_byte crc (e ! i)) [0..<unat n] c" for c
    by (rule fold_cong) (simp_all add: assms)
  then show ?thesis by (simp add: Boot_Control_CalculateCrc32_def)
qed

lemma boot_crc_single_byte:
  assumes "i < unat n" "i < length d" "b \<noteq> d ! i"
  shows "Boot_Control_CalculateCrc32 (d[i := b]) n \<noteq> Boot_Control_CalculateCrc32 d n"
proof
  let ?f = "\<lambda>d i crc. boot_crc32_byte crc (d ! i)"
  assume "Boot_Control_CalculateCrc32 (d[i := b]) n = Boot_Control_CalculateCrc32 d n"
  moreover have split: "[0..<unat n] = [0..<i] @ i # [Suc i..<unat n]"
    using assms(1) upt_add_eq_append [of 0 i "unat n - i"] by (simp add: upt_conv_Cons)
  moreover have "fold (?f (d[i := b])) [0..<i] c = fold (?f d) [0..<i] c" for c
    by (rule fold_cong) auto
  moreover have "fold (?f (d[i := b])) [Suc i..<unat n] c = fold (?f d) [Suc i..<unat n] c" for c
    by (rule fold_cong) auto
  ultimately have "boot_crc32_byte (fold (?f d) [0..<i] 0xFFFFFFFF) b
      = boot_crc32_byte (fold (?f d) [0..<i] 0xFFFFFFFF) (d ! i)"
    using assms(2) by (auto simp: Boot_Control_CalculateCrc32_def dest: boot_crc32_fold_inj)
  then show False using assms(3) by (auto dest: boot_crc32_byte_inj_byte)
qed


section \<open>Encoding\<close>

lemma boot_crc_write [byte_order]:
  assumes "unat n \<le> p"
  shows "Boot_Control_CalculateCrc32 (write_u32_le d p v) n = Boot_Control_CalculateCrc32 d n"
  using assms by (intro boot_crc_cong) (simp add: byte_order)

text \<open>The fields of a prepared record; the commit word is left erased.\<close>

lemma prepared_record:
  fixes st :: Boot_ControlState and r :: bytes
  assumes "length r = 64"
  defines "p \<equiv> Boot_Control_PrepareRecord_body st r"
  shows "length p = 64" "read_u32_le p 0 = BOOT_CONTROL_RECORD_MAGIC"
    "read_u16_le p 4 = BOOT_CONTROL_RECORD_VERSION" "read_u16_le p 6 = BOOT_CONTROL_RECORD_SIZE"
    "read_u32_le p 8 = generation st" "p ! 12 = boot_slot_byte (confirmed_slot st)"
    "p ! 13 = boot_slot_byte (pending_slot st)" "p ! 14 = attempts_remaining st" "p ! 15 = 0"
    "read_u32_le p 16 = minimum_security_counter st"
    "read_u32_le p 20 = confirmed_security_counter st"
    "read_u32_le p 24 = pending_security_counter st"
    "read_u32_le p 28 = confirmed_build_version st"
    "read_u32_le p 32 = pending_build_version st"
    "read_u32_le p 36 = 0" "read_u32_le p 40 = 0" "read_u32_le p 44 = 0" "read_u32_le p 48 = 0"
    "read_u32_le p 52 = 0" "read_u32_le p 60 = 0xFFFFFFFF"
    "read_u32_le p 56 = Boot_Control_CalculateCrc32 p 56"
  using assms(1)
  by (simp_all add: p_def Boot_Control_PrepareRecord_body_def Let_def fold_clear byte_order
      BOOT_CONTROL_CRC_OFFSET_def BOOT_CONTROL_COMMIT_OFFSET_def BOOT_CONTROL_RECORD_SIZE_def)


text \<open>What a committed record carries, and the frame of the commit write.\<close>

abbreviation boot_record_of :: "Boot_ControlState \<Rightarrow> bytes \<Rightarrow> bytes" where
  "boot_record_of st r \<equiv> Boot_Control_WriteU32Le (Boot_Control_PrepareRecord_body st r)
     BOOT_CONTROL_COMMIT_OFFSET BOOT_CONTROL_COMMIT_MARKER"

lemma reserved_words_zero_eq: "boot_reserved_words_zero r \<longleftrightarrow> read_u32_le r 40 = 0
    \<and> read_u32_le r 44 = 0 \<and> read_u32_le r 48 = 0 \<and> read_u32_le r 52 = 0"
  by (simp add: boot_reserved_words_zero_def byte_order upt_rec)

lemma boot_decode_committed:
  assumes "length r = 64" "Boot_Control_IsStateValid_body st"
  shows "Boot_Control_DecodeRecord (Some (boot_record_of st r)) (Some st0) = (True, Some st)"
proof -
  note p = prepared_record [OF assms(1), of st]
  have "Boot_Control_IsSlot (confirmed_slot st)"
    "Boot_Control_IsSlot (pending_slot st) \<or> pending_slot st = BOOT_SLOT_NONE"
    using assms(2) by (auto simp: Boot_Control_IsStateValid_body_def split: if_splits)
  then show ?thesis using assms(2) p
    by (cases st) (simp add: Boot_Control_DecodeRecord_def byte_order reserved_words_zero_eq Let_def
        Boot_Control_IsStateValid_def BOOT_CONTROL_COMMIT_OFFSET_def BOOT_CONTROL_CRC_OFFSET_def)
qed

lemma boot_decode_needs_commit:
  assumes "read_u32_le r 60 \<noteq> BOOT_CONTROL_COMMIT_MARKER"
  shows "\<not> fst (Boot_Control_DecodeRecord (Some r) st0)"
  using assms by (cases st0) (simp_all add: Boot_Control_DecodeRecord_def byte_order
      BOOT_CONTROL_COMMIT_OFFSET_def)

lemma boot_decode_uncommitted:
  assumes "length r = 64"
  shows "\<not> fst (Boot_Control_DecodeRecord (Some (Boot_Control_PrepareRecord_body st r)) st0)"
  using prepared_record(20) [OF assms, of st]
  by (intro boot_decode_needs_commit) (simp add: BOOT_CONTROL_COMMIT_MARKER_def)

lemma boot_decode_valid:
  assumes "Boot_Control_DecodeRecord (Some r) (Some st0) = (True, s)"
  shows "\<exists>st. s = Some st \<and> Boot_Control_IsStateValid_body st"
  using assms by (auto simp: Boot_Control_DecodeRecord_def Boot_Control_IsStateValid_def Let_def
      split: if_splits)

lemma boot_decode_fields:
  assumes "fst (Boot_Control_DecodeRecord (Some r) (Some st0))"
  shows "read_u32_le r 56 = Boot_Control_CalculateCrc32 r 56"
    "read_u32_le r 60 = BOOT_CONTROL_COMMIT_MARKER"
  using assms by (auto simp: Boot_Control_DecodeRecord_def byte_order Let_def
      BOOT_CONTROL_CRC_OFFSET_def BOOT_CONTROL_COMMIT_OFFSET_def split: if_splits)

text \<open>A single damaged byte anywhere in a valid record makes it undecodable.\<close>

lemma boot_decode_single_byte:
  assumes "length r = 64" "fst (Boot_Control_DecodeRecord (Some r) (Some st0))"
    and "i < 64" "b \<noteq> r ! i"
  shows "\<not> fst (Boot_Control_DecodeRecord (Some (r[i := b])) (Some st1))"
proof
  assume "fst (Boot_Control_DecodeRecord (Some (r[i := b])) (Some st1))"
  note new = boot_decode_fields [OF this] and old = boot_decode_fields [OF assms(2)]
  consider "i < 56" | "56 \<le> i" "i < 60" | "60 \<le> i" by linarith
  then show False
  proof cases
    case 1
    then show False using new(1) old(1) boot_crc_single_byte [of i 56 r b] assms
      by (simp add: read_u32_le_update)
  next
    case 2
    then have "Boot_Control_CalculateCrc32 (r[i := b]) 56 = Boot_Control_CalculateCrc32 r 56"
      by (intro boot_crc_cong) simp
    then show False using new(1) old(1) read_u32_le_inj_byte [of 56 r i b] 2 assms by simp
  next
    case 3
    then show False using new(2) old(2) read_u32_le_inj_byte [of 60 r i b] assms by simp
  qed
qed

section \<open>Generations\<close>

lemma generation_newer_nat:
  "Boot_Control_IsGenerationNewer a b \<longleftrightarrow> 0 < unat (a - b) \<and> unat (a - b) < 2 ^ 31"
proof -
  define k where "k = unat (a - b)"
  have "k < 2 ^ 32" using unat_u32_less [of "a - b"] by (simp add: k_def)
  then show ?thesis
    unfolding Boot_Control_IsGenerationNewer_def sint_u32 k_def [symmetric] by auto
qed

lemma next_generation_newer:
  "Boot_Control_NextGeneration g - g = 1 \<or> Boot_Control_NextGeneration g - g = 2"
  "Boot_Control_IsGenerationNewer (Boot_Control_NextGeneration g) g"
proof -
  show d: "Boot_Control_NextGeneration g - g = 1 \<or> Boot_Control_NextGeneration g - g = 2"
  proof (cases "g + 1 = 0")
    case True
    then have "g = - 1" by (simp add: eq_neg_iff_add_eq_0)
    then show ?thesis by (simp add: Boot_Control_NextGeneration_def)
  next
    case False
    then show ?thesis by (simp add: Boot_Control_NextGeneration_def Let_def)
  qed
  then show "Boot_Control_IsGenerationNewer (Boot_Control_NextGeneration g) g"
    by (auto simp: generation_newer_nat)
qed

lemma generation_newer_asym:
  assumes "Boot_Control_IsGenerationNewer a b"
  shows "\<not> Boot_Control_IsGenerationNewer b a"
proof -
  have ne: "unat (a - b) \<noteq> 0" and lt: "unat (a - b) < 2 ^ 31"
    using assms by (simp_all add: generation_newer_nat)
  have "unat (b - a) = unat (0 - (a - b))" by simp
  also have "\<dots> = 2 ^ 32 - unat (a - b)" using ne by (subst unat_sub_if') simp
  finally show ?thesis using lt ne by (simp add: generation_newer_nat)
qed


section \<open>The update life cycle\<close>

text \<open>
  The contract of the record, without generations and padding fields: one confirmed image, and
  at most one candidate with a number of trial boots left. An image is its slot, security
  counter and build version.
\<close>

type_synonym boot_image = "Boot_Slot \<times> u32 \<times> u32"

datatype boot_phase = Stable boot_image | Trial boot_image boot_image nat

definition boot_phase_of :: "Boot_ControlState \<Rightarrow> boot_phase" where
  "boot_phase_of st =
    (let cur = (confirmed_slot st, confirmed_security_counter st, confirmed_build_version st)
     in if pending_slot st = BOOT_SLOT_NONE then Stable cur
        else Trial cur (pending_slot st, pending_security_counter st, pending_build_version st)
               (unat (attempts_remaining st)))"

fun spec_schedule :: "boot_image \<Rightarrow> boot_phase \<Rightarrow> boot_phase option" where
  "spec_schedule (slot, sec, build) (Stable (cslot, csec, cbuild)) =
     (if slot \<noteq> cslot \<and> csec < sec
      then Some (Trial (cslot, csec, cbuild) (slot, sec, build) 3) else None)"
| "spec_schedule _ (Trial _ _ _) = None"

fun spec_boot :: "(Boot_Slot \<Rightarrow> bool) \<Rightarrow> boot_phase \<Rightarrow> Boot_Slot option \<times> boot_phase" where
  "spec_boot good (Trial cur cand (Suc n)) =
     (if good (fst cand) then (Some (fst cand), Trial cur cand n)
      else (if good (fst cur) then Some (fst cur) else None, Stable cur))"
| "spec_boot good (Trial cur cand 0) =
     (if good (fst cur) then Some (fst cur) else None, Stable cur)"
| "spec_boot good (Stable cur) = (if good (fst cur) then Some (fst cur) else None, Stable cur)"

fun spec_confirm :: "boot_image \<Rightarrow> boot_phase \<Rightarrow> boot_phase option" where
  "spec_confirm running (Stable cur) = (if running = cur then Some (Stable cur) else None)"
| "spec_confirm running (Trial cur cand n) = (if running = cand then Some (Stable cand) else None)"

definition boot_decision_slot :: "Boot_Decision \<Rightarrow> Boot_Slot option" where
  "boot_decision_slot d = (case d of BOOT_DECISION_RECOVERY \<Rightarrow> None
     | BOOT_DECISION_SLOT_A \<Rightarrow> Some BOOT_SLOT_A | BOOT_DECISION_SLOT_B \<Rightarrow> Some BOOT_SLOT_B)"

lemma boot_decision_slot_of [simp]:
  "Boot_Control_IsSlot s \<Longrightarrow> boot_decision_slot (boot_slot_decision s) = Some s"
  "boot_decision_slot BOOT_DECISION_RECOVERY = None"
  by (auto simp: Boot_Control_IsSlot_def boot_slot_decision_def boot_decision_slot_def)

lemma next_generation_neq_0 [simp]: "Boot_Control_NextGeneration g \<noteq> 0"
  by (simp add: Boot_Control_NextGeneration_def Let_def)

lemma boot_valid_cases:
  assumes "Boot_Control_IsStateValid_body st"
  obtains (stable) "pending_slot st = BOOT_SLOT_NONE" "attempts_remaining st = 0"
      "pending_security_counter st = 0" "pending_build_version st = 0"
      "generation st \<noteq> 0" "Boot_Control_IsSlot (confirmed_slot st)"
      "confirmed_security_counter st = minimum_security_counter st"
    | (trial) "Boot_Control_IsSlot (pending_slot st)" "pending_slot st \<noteq> confirmed_slot st"
      "attempts_remaining st \<le> 3" "minimum_security_counter st < pending_security_counter st"
      "generation st \<noteq> 0" "Boot_Control_IsSlot (confirmed_slot st)"
      "confirmed_security_counter st = minimum_security_counter st"
  using assms by (auto simp: Boot_Control_IsStateValid_body_def BOOT_CONTROL_MAX_PENDING_ATTEMPTS_def
      split: if_splits)

lemma not_slot_none [simp]: "\<not> Boot_Control_IsSlot BOOT_SLOT_NONE"
  by (simp add: Boot_Control_IsSlot_def)

lemma slot_not_none [simp]: "Boot_Control_IsSlot s \<Longrightarrow> s \<noteq> BOOT_SLOT_NONE"
  by auto

lemma schedule_valid:
  assumes "Boot_Control_ScheduleUpdate_body st s c v = (res, st')"
    and "Boot_Control_IsStateValid_body st"
  shows "Boot_Control_IsStateValid_body st'"
    "minimum_security_counter st' = minimum_security_counter st"
    "res \<noteq> BOOT_CONTROL_RESULT_OK \<Longrightarrow> st' = st"
  using assms by (auto simp: Boot_Control_ScheduleUpdate_body_def split: if_splits)
    (auto simp: Boot_Control_IsStateValid_body_def split: if_splits)

lemma confirm_valid:
  assumes "Boot_Control_ConfirmRunning_body st s c v = (res, st', ch)"
    and "Boot_Control_IsStateValid_body st"
  shows "Boot_Control_IsStateValid_body st'"
    "minimum_security_counter st \<le> minimum_security_counter st'"
    "res \<noteq> BOOT_CONTROL_RESULT_OK \<Longrightarrow> st' = st"
  using assms by (auto simp: Boot_Control_ConfirmRunning_body_def Let_def
      Boot_Control_ClearPending_def Boot_Control_IsStateValid_body_def split: if_splits)

lemma select_valid:
  assumes "Boot_Control_SelectBoot_body st a b = (res, st', out)"
    and "Boot_Control_IsStateValid_body st"
  shows "Boot_Control_IsStateValid_body st'
    \<and> minimum_security_counter st' = minimum_security_counter st \<and> res = BOOT_CONTROL_RESULT_OK"
  using assms(2)
proof (cases rule: boot_valid_cases)
  case stable
  then show ?thesis using assms by (auto simp: Boot_Control_SelectBoot_body_def Let_def)
next
  case trial
  have "x - 1 \<le> 3" if "0 < x" "x \<le> 3" for x :: u8
    using that by (simp add: nat_of_word unat_dec)
  then show ?thesis
    using assms trial by (auto simp: Boot_Control_SelectBoot_body_def Let_def
        Boot_Control_ClearPending_def Boot_Control_IsStateValid_body_def
        BOOT_CONTROL_MAX_PENDING_ATTEMPTS_def split: if_splits)
qed

text \<open>The three operations of the code are the operations of the contract.\<close>

lemma schedule_refines:
  assumes "Boot_Control_IsStateValid_body st" "Boot_Control_IsSlot s"
  shows "spec_schedule (s, c, v) (boot_phase_of st) =
    (let (res, st') = Boot_Control_ScheduleUpdate_body st s c v
     in if res = BOOT_CONTROL_RESULT_OK then Some (boot_phase_of st') else None)"
  using assms(1)
proof (cases rule: boot_valid_cases)
  case stable
  then show ?thesis using assms
    by (auto simp: boot_phase_of_def Boot_Control_ScheduleUpdate_body_def
        BOOT_CONTROL_MAX_PENDING_ATTEMPTS_def)
next
  case trial
  then show ?thesis using assms
    by (auto simp: boot_phase_of_def Boot_Control_ScheduleUpdate_body_def)
qed

lemma confirm_refines:
  assumes "Boot_Control_IsStateValid_body st" "Boot_Control_IsSlot s"
  shows "spec_confirm (s, c, v) (boot_phase_of st) =
    (let (res, st', ch) = Boot_Control_ConfirmRunning_body st s c v
     in if res = BOOT_CONTROL_RESULT_OK then Some (boot_phase_of st') else None)"
  using assms(1)
proof (cases rule: boot_valid_cases)
  case stable
  then show ?thesis using assms
    by (auto simp: boot_phase_of_def Boot_Control_ConfirmRunning_body_def)
next
  case trial
  then show ?thesis using assms
    by (auto simp: boot_phase_of_def Boot_Control_ConfirmRunning_body_def
        Boot_Control_ClearPending_def Let_def)
qed

lemma select_refines:
  assumes "Boot_Control_IsStateValid_body st"
    and "good = (\<lambda>s. if s = BOOT_SLOT_A then a \<noteq> 0 else b \<noteq> 0)"
    and "Boot_Control_SelectBoot_body st a b = (res, st', out)"
  shows "\<exists>d ch. res = BOOT_CONTROL_RESULT_OK \<and> out = Some (d, ch)
    \<and> spec_boot good (boot_phase_of st) = (boot_decision_slot d, boot_phase_of st')"
  using assms(1)
proof (cases rule: boot_valid_cases)
  case stable
  then show ?thesis using assms
    by (auto simp: boot_phase_of_def Boot_Control_SelectBoot_body_def Let_def)
next
  case trial
  show ?thesis
  proof (cases "0 < attempts_remaining st")
    case True
    then have "unat (attempts_remaining st) = Suc (unat (attempts_remaining st - 1))"
      by (simp add: unat_dec unat_gt_0)
    then show ?thesis using assms trial True
      by (auto simp: boot_phase_of_def Boot_Control_SelectBoot_body_def Let_def
          Boot_Control_ClearPending_def split: if_splits)
  next
    case False
    then have "attempts_remaining st = 0" by (simp add: word_gt_0)
    then show ?thesis using assms trial
      by (auto simp: boot_phase_of_def Boot_Control_SelectBoot_body_def Let_def
          Boot_Control_ClearPending_def split: if_splits)
  qed
qed


text \<open>The successful calls as a step relation on the record, and runs of them.\<close>

datatype boot_event = Scheduled boot_image | Booted Boot_Decision | Confirmed boot_image

inductive boot_step :: "Boot_ControlState \<Rightarrow> boot_event \<Rightarrow> Boot_ControlState \<Rightarrow> bool" where
  schedule: "Boot_Control_ScheduleUpdate_body st s c v = (BOOT_CONTROL_RESULT_OK, st')
    \<Longrightarrow> boot_step st (Scheduled (s, c, v)) st'"
| select: "Boot_Control_SelectBoot_body st a b = (BOOT_CONTROL_RESULT_OK, st', Some (d, ch))
    \<Longrightarrow> boot_step st (Booted d) st'"
| confirm: "Boot_Control_ConfirmRunning_body st s c v = (BOOT_CONTROL_RESULT_OK, st', Some ch)
    \<Longrightarrow> boot_step st (Confirmed (s, c, v)) st'"

inductive boot_run :: "Boot_ControlState \<Rightarrow> boot_event list \<Rightarrow> Boot_ControlState \<Rightarrow> bool" where
  none: "boot_run st [] st"
| more: "boot_run st evs st1 \<Longrightarrow> boot_step st1 e st2 \<Longrightarrow> boot_run st (evs @ [e]) st2"

inductive_cases boot_schedule_elim: "boot_step st (Scheduled i) st'"
inductive_cases boot_select_elim: "boot_step st (Booted d) st'"
inductive_cases boot_confirm_elim: "boot_step st (Confirmed i) st'"

fun phase_current :: "boot_phase \<Rightarrow> boot_image" where
  "phase_current (Stable cur) = cur"
| "phase_current (Trial cur _ _) = cur"

fun phase_candidate :: "boot_phase \<Rightarrow> boot_image option" where
  "phase_candidate (Stable _) = None"
| "phase_candidate (Trial _ cand _) = Some cand"

lemma boot_step_valid:
  assumes "boot_step st e st'" "Boot_Control_IsStateValid_body st"
  shows "Boot_Control_IsStateValid_body st'"
    "minimum_security_counter st \<le> minimum_security_counter st'"
  using assms by (cases rule: boot_step.cases;
      auto dest: schedule_valid select_valid confirm_valid)+

lemma boot_run_valid:
  assumes "boot_run st evs st'" "Boot_Control_IsStateValid_body st"
  shows "Boot_Control_IsStateValid_body st'
    \<and> minimum_security_counter st \<le> minimum_security_counter st'"
  using assms by (induction rule: boot_run.induct) (auto dest: boot_step_valid)

lemma valid_trial_counter:
  assumes "Boot_Control_IsStateValid_body st" "phase_candidate (boot_phase_of st) = Some (s, c, v)"
  shows "minimum_security_counter st < c" "s \<noteq> confirmed_slot st" "Boot_Control_IsSlot s"
  using assms by (auto simp: Boot_Control_IsStateValid_body_def boot_phase_of_def Let_def split: if_splits)

lemma phase_current_of [simp]: "phase_current (boot_phase_of st)
    = (confirmed_slot st, confirmed_security_counter st, confirmed_build_version st)"
  by (simp add: boot_phase_of_def Let_def)

lemma boot_step_images:
  assumes "boot_step st e st'" "Boot_Control_IsStateValid_body st"
  defines "p \<equiv> boot_phase_of st" and "p' \<equiv> boot_phase_of st'"
  shows "phase_current p' = phase_current p
      \<or> (e = Confirmed (phase_current p') \<and> phase_candidate p = Some (phase_current p'))"
    "phase_candidate p' = Some img \<Longrightarrow> phase_candidate p = Some img \<or> e = Scheduled img"
proof -
  show "phase_current p' = phase_current p
      \<or> (e = Confirmed (phase_current p') \<and> phase_candidate p = Some (phase_current p'))"
    using assms(1) by (cases rule: boot_step.cases)
      (auto simp: p_def p'_def boot_phase_of_def Boot_Control_ScheduleUpdate_body_def
        Boot_Control_SelectBoot_body_def Boot_Control_ConfirmRunning_body_def Let_def
        Boot_Control_ClearPending_def split: if_splits)
  show "phase_candidate p' = Some img \<Longrightarrow> phase_candidate p = Some img \<or> e = Scheduled img"
    using assms(1) by (cases rule: boot_step.cases)
      (auto simp: p_def p'_def boot_phase_of_def Boot_Control_ScheduleUpdate_body_def
        Boot_Control_SelectBoot_body_def Boot_Control_ConfirmRunning_body_def Let_def
        Boot_Control_ClearPending_def split: if_splits)
qed

lemma boot_run_images:
  assumes "boot_run st evs st'" "Boot_Control_IsStateValid_body st"
  defines "cur \<equiv> phase_current \<circ> boot_phase_of" and "cand \<equiv> phase_candidate \<circ> boot_phase_of"
  shows "(cur st' = cur st \<or> Confirmed (cur st') \<in> set evs
        \<and> (cand st = Some (cur st') \<or> Scheduled (cur st') \<in> set evs))
    \<and> (\<forall>img. cand st' = Some img \<longrightarrow> cand st = Some img \<or> Scheduled img \<in> set evs)"
  using assms(1,2)
proof (induction rule: boot_run.induct)
  case (more st evs st1 e st2)
  have valid: "Boot_Control_IsStateValid_body st1"
    using boot_run_valid [OF more.hyps(1) more.prems] by simp
  have step: "cur st2 = cur st1 \<or> e = Confirmed (cur st2) \<and> cand st1 = Some (cur st2)"
    "\<And>img. cand st2 = Some img \<Longrightarrow> cand st1 = Some img \<or> e = Scheduled img"
    using boot_step_images [OF more.hyps(2) valid] by (simp_all add: cur_def cand_def)
  from step(1) show ?case
  proof
    assume "cur st2 = cur st1"
    then show ?thesis using more.IH [OF more.prems] step(2) by auto
  next
    assume "e = Confirmed (cur st2) \<and> cand st1 = Some (cur st2)"
    then show ?thesis using more.IH [OF more.prems] step(2) by auto
  qed
qed simp


section \<open>Loading\<close>

lemma boot_load_body_one:
  assumes "Boot_Control_DecodeRecord (Some r) (Some boot_state_zero) = (True, Some st)"
    and "\<not> fst (Boot_Control_DecodeRecord (Some q) (Some boot_state_zero))"
  shows "Boot_Control_Load_body r q = (BOOT_CONTROL_RESULT_OK, st, 0)"
    "Boot_Control_Load_body q r = (BOOT_CONTROL_RESULT_OK, st, 1)"
  using assms
  by (auto simp: Boot_Control_Load_body_def split: prod.splits)

lemma states_equal_iff: "Boot_Control_StatesEqual l r \<longleftrightarrow> l = r"
  by (cases l; cases r) (auto simp: Boot_Control_StatesEqual_def)

lemma boot_load_body_newer:
  assumes "Boot_Control_DecodeRecord (Some r) (Some boot_state_zero) = (True, Some st)"
    and "Boot_Control_DecodeRecord (Some q) (Some boot_state_zero) = (True, Some st')"
    and "Boot_Control_IsGenerationNewer (generation st') (generation st)"
  shows "Boot_Control_Load_body r q = (BOOT_CONTROL_RESULT_OK, st', 1)"
    "Boot_Control_Load_body q r = (BOOT_CONTROL_RESULT_OK, st', 0)"
proof -
  have d: "unat (generation st' - generation st) \<noteq> 0" "unat (generation st' - generation st) < 2 ^ 31"
    using assms(3) by (simp_all add: generation_newer_nat)
  have "unat (generation st - generation st') = unat (0 - (generation st' - generation st))" by simp
  also have "\<dots> = 2 ^ 32 - unat (generation st' - generation st)"
    using d(1) by (subst unat_sub_if') simp
  finally have e: "unat (generation st - generation st') \<noteq> 0"
    "unat (generation st - generation st') \<noteq> 2 ^ 31" using d by simp_all
  have ne: "generation st' - generation st \<noteq> 0" "generation st' - generation st \<noteq> 0x80000000"
    "generation st - generation st' \<noteq> 0" "generation st - generation st' \<noteq> 0x80000000"
    using d e by (metis unat_0, force, metis unat_0, force)
  show "Boot_Control_Load_body r q = (BOOT_CONTROL_RESULT_OK, st', 1)"
    "Boot_Control_Load_body q r = (BOOT_CONTROL_RESULT_OK, st', 0)"
    using assms ne generation_newer_asym [OF assms(3)]
    by (simp_all add: Boot_Control_Load_body_def Let_def)
qed

lemma boot_load_some [simp]:
  "Boot_Control_Load (Some r) (Some q) (Some s) (Some n) =
    (let (res, st, sel) = Boot_Control_Load_body r q in (res, Some st, Some sel))"
  by (simp add: Boot_Control_Load_def)

section \<open>Properties\<close>

definition demo_boot_state :: Boot_ControlState where
  "demo_boot_state = \<lparr>generation = 7, confirmed_slot = BOOT_SLOT_A, pending_slot = BOOT_SLOT_B,
     attempts_remaining = 3, minimum_security_counter = 4, confirmed_security_counter = 4,
     pending_security_counter = 5, confirmed_build_version = 10, pending_build_version = 11\<rparr>"

lemma demo_boot_state_valid: "Boot_Control_IsStateValid_body demo_boot_state"
  by (simp add: demo_boot_state_def Boot_Control_IsStateValid_body_def Boot_Control_IsSlot_def
      BOOT_CONTROL_MAX_PENDING_ATTEMPTS_def)

text \<open>
  C10. Encoding of the boot-control record. For every valid state, the record that
  \<open>PrepareRecord\<close> lays out is not accepted by the decoder before its commit marker is
  programmed; once marked, \<open>Load\<close> reads back exactly that state, whether the other copy is
  the same record or one that does not decode, and reports which copy it used.
\<close>

theorem boot_record_roundtrip:
  assumes "Boot_Control_IsStateValid_body st" "length r = 64"
    and "\<not> fst (Boot_Control_DecodeRecord (Some q) (Some boot_state_zero))"
  shows "\<exists>p. Boot_Control_PrepareRecord (Some st) (Some r) = (BOOT_CONTROL_RESULT_OK, Some p)
    \<and> length p = 64
    \<and> \<not> fst (Boot_Control_DecodeRecord (Some p) (Some s))
    \<and> Boot_Control_Load (Boot_Control_MarkRecordCommitted (Some p)) (Some q) (Some s) (Some n)
        = (BOOT_CONTROL_RESULT_OK, Some st, Some 0)
    \<and> Boot_Control_Load (Some q) (Boot_Control_MarkRecordCommitted (Some p)) (Some s) (Some n)
        = (BOOT_CONTROL_RESULT_OK, Some st, Some 1)
    \<and> Boot_Control_Load (Boot_Control_MarkRecordCommitted (Some p))
        (Boot_Control_MarkRecordCommitted (Some p)) (Some s) (Some n)
        = (BOOT_CONTROL_RESULT_OK, Some st, Some 0)"
proof -
  let ?p = "Boot_Control_PrepareRecord_body st r"
  note dec = boot_decode_committed [OF assms(2,1), of boot_state_zero]
  have mark: "Boot_Control_MarkRecordCommitted (Some ?p) = Some (boot_record_of st r)"
    by (simp add: Boot_Control_MarkRecordCommitted_def)
  have "Boot_Control_Load_body (boot_record_of st r) (boot_record_of st r)
      = (BOOT_CONTROL_RESULT_OK, st, 0)"
    using dec by (simp add: Boot_Control_Load_body_def states_equal_iff)
  then show ?thesis
    using assms(1) prepared_record(1) [OF assms(2)] boot_decode_uncommitted [OF assms(2)]
      boot_load_body_one [OF dec assms(3)]
    by (intro exI [of _ ?p])
      (simp add: mark Boot_Control_PrepareRecord_def Boot_Control_IsStateValid_def)
qed

theorem boot_record_roundtrip_witness:
  "Boot_Control_Load (Boot_Control_MarkRecordCommitted
      (snd (Boot_Control_PrepareRecord (Some demo_boot_state) (Some (replicate 64 0)))))
      (Some (replicate 64 0xFF)) (Some boot_state_zero) (Some 0)
    = (BOOT_CONTROL_RESULT_OK, Some demo_boot_state, Some 0)"
proof -
  have "\<not> fst (Boot_Control_DecodeRecord (Some (replicate 64 0xFF)) (Some boot_state_zero))"
    by (rule boot_decode_needs_commit) (simp add: read_u32_le_def BOOT_CONTROL_COMMIT_MARKER_def)
  from boot_record_roundtrip [OF demo_boot_state_valid _ this, of "replicate 64 0" boot_state_zero 0]
  show ?thesis by auto
qed

text \<open>
  C9. A damaged copy is never used. If both copies of the record decode and then any one byte
  of one of them changes to any other value (in the fields, the checksum or the commit
  marker), \<open>Load\<close> rejects that copy and returns the state of the intact one.
\<close>

theorem boot_damaged_copy_rejected:
  assumes "length r = 64"
    and "Boot_Control_DecodeRecord (Some r) (Some boot_state_zero) = (True, Some st)"
    and "Boot_Control_DecodeRecord (Some q) (Some boot_state_zero) = (True, Some st')"
    and "i < 64" "b \<noteq> r ! i"
  shows "Boot_Control_Load (Some (r[i := b])) (Some q) (Some s) (Some n)
      = (BOOT_CONTROL_RESULT_OK, Some st', Some 1)
    \<and> Boot_Control_Load (Some q) (Some (r[i := b])) (Some s) (Some n)
      = (BOOT_CONTROL_RESULT_OK, Some st', Some 0)"
proof -
  have "\<not> fst (Boot_Control_DecodeRecord (Some (r[i := b])) (Some boot_state_zero))"
    by (rule boot_decode_single_byte [OF assms(1) _ assms(4,5), of boot_state_zero]) (simp add: assms(2))
  from boot_load_body_one [OF assms(3) this] show ?thesis by simp
qed

theorem boot_damaged_copy_rejected_witness:
  "Boot_Control_Load (Some ((boot_record_of demo_boot_state (replicate 64 0))[14 := 9]))
      (Some (boot_record_of demo_boot_state (replicate 64 0))) (Some boot_state_zero) (Some 0)
    = (BOOT_CONTROL_RESULT_OK, Some demo_boot_state, Some 1)"
proof -
  have len: "length (replicate 64 0 :: bytes) = 64" by simp
  note p = prepared_record [OF len, of demo_boot_state]
  note dec = boot_decode_committed [OF len demo_boot_state_valid, of boot_state_zero]
  have "boot_record_of demo_boot_state (replicate 64 0) ! 14 = 3"
    using p(8) by (simp add: byte_order BOOT_CONTROL_COMMIT_OFFSET_def demo_boot_state_def)
  then show ?thesis
    using boot_damaged_copy_rejected [OF _ dec dec, of 14 9 boot_state_zero 0] p(1)
    by (simp add: byte_order)
qed

text \<open>
  C5. The update life cycle is the one the design promises. On valid states the three
  operations of the code compute exactly the abstract life cycle: an update is accepted only
  for the other slot, with a greater security counter and no other update pending, and gives
  three trial boots; a boot uses the candidate while it is valid and trials remain, consumes
  one, and otherwise drops the candidate for good and falls back to the confirmed image (or to
  recovery); a confirmation is accepted for exactly the image on trial, or repeats the
  confirmed one.
\<close>

theorem boot_control_refines_lifecycle:
  assumes "Boot_Control_IsStateValid_body st" "Boot_Control_IsSlot s"
  shows "spec_schedule (s, c, v) (boot_phase_of st) =
      (let (res, st') = Boot_Control_ScheduleUpdate_body st s c v
       in if res = BOOT_CONTROL_RESULT_OK then Some (boot_phase_of st') else None)
    \<and> spec_confirm (s, c, v) (boot_phase_of st) =
      (let (res, st', ch) = Boot_Control_ConfirmRunning_body st s c v
       in if res = BOOT_CONTROL_RESULT_OK then Some (boot_phase_of st') else None)
    \<and> (\<exists>st' d ch. Boot_Control_SelectBoot_body st a b = (BOOT_CONTROL_RESULT_OK, st', Some (d, ch))
       \<and> spec_boot (\<lambda>s. if s = BOOT_SLOT_A then a \<noteq> 0 else b \<noteq> 0) (boot_phase_of st)
          = (boot_decision_slot d, boot_phase_of st'))"
proof -
  obtain res st' out where sel: "Boot_Control_SelectBoot_body st a b = (res, st', out)"
    by (metis prod.exhaust)
  show ?thesis
    using schedule_refines [OF assms] confirm_refines [OF assms]
      select_refines [OF assms(1) refl sel] sel by auto
qed

theorem boot_control_refines_lifecycle_witness:
  "spec_confirm (BOOT_SLOT_B, 5, 11) (boot_phase_of demo_boot_state) =
     (let (res, st', ch) = Boot_Control_ConfirmRunning_body demo_boot_state BOOT_SLOT_B 5 11
      in if res = BOOT_CONTROL_RESULT_OK then Some (boot_phase_of st') else None)
   \<and> spec_confirm (BOOT_SLOT_B, 5, 11) (boot_phase_of demo_boot_state)
     = Some (Stable (BOOT_SLOT_B, 5, 11))"
  using boot_control_refines_lifecycle [OF demo_boot_state_valid, of BOOT_SLOT_B 5 11]
  by (auto simp: Boot_Control_IsSlot_def demo_boot_state_def boot_phase_of_def)

text \<open>
  C8. No rollback, and nothing is confirmed by accident. Along every sequence of successful
  calls from a valid state, the state stays valid and the minimum security counter never
  decreases; the confirmed image is the one it started with or one that was explicitly
  confirmed after having been scheduled (or having been on trial at the start), and any image
  still on trial has a counter above the minimum.
\<close>

theorem boot_lifecycle_no_rollback:
  assumes "boot_run st evs st'" "Boot_Control_IsStateValid_body st"
  shows "Boot_Control_IsStateValid_body st'
    \<and> minimum_security_counter st \<le> minimum_security_counter st'
    \<and> (phase_current (boot_phase_of st') = phase_current (boot_phase_of st)
       \<or> Confirmed (phase_current (boot_phase_of st')) \<in> set evs
         \<and> (phase_candidate (boot_phase_of st) = Some (phase_current (boot_phase_of st'))
            \<or> Scheduled (phase_current (boot_phase_of st')) \<in> set evs))
    \<and> (\<forall>s c v. phase_candidate (boot_phase_of st') = Some (s, c, v)
        \<longrightarrow> minimum_security_counter st' < c \<and> s \<noteq> confirmed_slot st')"
  using boot_run_valid [OF assms] boot_run_images [OF assms] valid_trial_counter [of st']
  by (simp only: comp_def) blast

theorem boot_lifecycle_no_rollback_witness:
  "\<exists>st'. boot_run demo_boot_state [Confirmed (BOOT_SLOT_B, 5, 11)] st'
    \<and> minimum_security_counter st' = 5
    \<and> minimum_security_counter demo_boot_state \<le> minimum_security_counter st'"
proof -
  define st' where "st' = fst (snd (Boot_Control_ConfirmRunning_body demo_boot_state BOOT_SLOT_B 5 11))"
  have "boot_step demo_boot_state (Confirmed (BOOT_SLOT_B, 5, 11)) st'"
    by (rule boot_step.confirm [where ch = 1])
      (simp add: st'_def Boot_Control_ConfirmRunning_body_def demo_boot_state_def
        Boot_Control_IsStateValid_body_def Boot_Control_IsSlot_def
        BOOT_CONTROL_MAX_PENDING_ATTEMPTS_def Let_def)
  then have run: "boot_run demo_boot_state [Confirmed (BOOT_SLOT_B, 5, 11)] st'"
    using boot_run.more [OF boot_run.none] by fastforce
  then have "minimum_security_counter demo_boot_state \<le> minimum_security_counter st'"
    using boot_lifecycle_no_rollback [OF run demo_boot_state_valid] by blast
  moreover have "minimum_security_counter st' = 5"
    using demo_boot_state_valid
    by (simp add: st'_def Boot_Control_ConfirmRunning_body_def Let_def Boot_Control_ClearPending_def)
      (simp add: demo_boot_state_def Boot_Control_IsSlot_def)
  ultimately show ?thesis using run by blast
qed

fun boot_decisions :: "Boot_ControlState \<Rightarrow> (u8 \<times> u8) list \<Rightarrow> Boot_Decision list \<times> Boot_ControlState" where
  "boot_decisions st [] = ([], st)"
| "boot_decisions st ((a, b) # fs) = (case Boot_Control_SelectBoot_body st a b of
     (_, st', None) \<Rightarrow> ([], st')
   | (_, st', Some (d, _)) \<Rightarrow> (let (ds, st'') = boot_decisions st' fs in (d # ds, st'')))"

lemma boot_decisions_stable:
  assumes "Boot_Control_IsStateValid_body st" "pending_slot st = BOOT_SLOT_NONE"
    and "\<forall>(a, b) \<in> set fs. a \<noteq> 0 \<and> b \<noteq> 0"
  shows "boot_decisions st fs = (replicate (length fs) (boot_slot_decision (confirmed_slot st)), st)"
  using assms(3) by (induction fs)
    (auto simp: Boot_Control_SelectBoot_body_def assms(1,2) split: if_splits)

lemma boot_decisions_trial:
  assumes "Boot_Control_IsStateValid_body st" "pending_slot st \<noteq> BOOT_SLOT_NONE"
    and "\<forall>(a, b) \<in> set fs. a \<noteq> 0 \<and> b \<noteq> 0"
  shows "fst (boot_decisions st fs) =
      replicate (min (length fs) (unat (attempts_remaining st))) (boot_slot_decision (pending_slot st))
      @ replicate (length fs - unat (attempts_remaining st)) (boot_slot_decision (confirmed_slot st))
    \<and> (unat (attempts_remaining st) < length fs
       \<longrightarrow> pending_slot (snd (boot_decisions st fs)) = BOOT_SLOT_NONE
        \<and> confirmed_slot (snd (boot_decisions st fs)) = confirmed_slot st)"
  using assms
proof (induction fs arbitrary: st)
  case (Cons ab fs)
  obtain a b where ab: "ab = (a, b)" by fastforce
  obtain res st' out where sel: "Boot_Control_SelectBoot_body st a b = (res, st', out)"
    by (metis prod.exhaust)
  note valid' = select_valid [OF sel Cons.prems(1)]
  show ?case
  proof (cases "0 < attempts_remaining st")
    case True
    with sel Cons.prems have "out = Some (boot_slot_decision (pending_slot st), 1)"
      "pending_slot st' = pending_slot st" "confirmed_slot st' = confirmed_slot st"
      "attempts_remaining st' = attempts_remaining st - 1"
      by (auto simp: ab Boot_Control_SelectBoot_body_def Let_def split: if_splits)
    moreover have "unat (attempts_remaining st) = Suc (unat (attempts_remaining st - 1))"
      using True by (simp add: unat_dec unat_gt_0)
    ultimately show ?thesis
      using Cons.IH [of st'] valid' Cons.prems by (auto simp: ab sel split: prod.splits)
  next
    case False
    then have 0: "attempts_remaining st = 0" by (simp add: word_gt_0)
    with sel Cons.prems have out: "out = Some (boot_slot_decision (confirmed_slot st), 1)"
      "pending_slot st' = BOOT_SLOT_NONE" "confirmed_slot st' = confirmed_slot st"
      by (auto simp: ab Boot_Control_SelectBoot_body_def Boot_Control_ClearPending_def Let_def
          split: if_splits)
    then show ?thesis using boot_decisions_stable [of st' fs] valid' Cons.prems
      by (simp add: ab sel 0)
  qed
qed simp

text \<open>
  C7. A candidate that never confirms is tried a bounded number of times. When both slots hold
  valid images and an update is pending with \<open>k\<close> attempts left, the next \<open>k\<close> boots start the
  candidate and every later boot starts the confirmed image; from the boot after the last
  trial on nothing is pending any more.
\<close>

theorem boot_trial_then_fallback:
  assumes "Boot_Control_IsStateValid_body st" "pending_slot st \<noteq> BOOT_SLOT_NONE"
    and "\<forall>(a, b) \<in> set fs. a \<noteq> 0 \<and> b \<noteq> 0"
  defines "k \<equiv> unat (attempts_remaining st)"
  shows "fst (boot_decisions st fs) =
      replicate (min (length fs) k) (boot_slot_decision (pending_slot st))
      @ replicate (length fs - k) (boot_slot_decision (confirmed_slot st))
    \<and> k \<le> 3
    \<and> (k < length fs \<longrightarrow> pending_slot (snd (boot_decisions st fs)) = BOOT_SLOT_NONE
        \<and> confirmed_slot (snd (boot_decisions st fs)) = confirmed_slot st)"
proof -
  have "k \<le> 3" using assms(1,2) unfolding k_def
    by (auto simp: Boot_Control_IsStateValid_body_def BOOT_CONTROL_MAX_PENDING_ATTEMPTS_def
        word_le_nat_alt split: if_splits)
  then show ?thesis
    using boot_decisions_trial [OF assms(1-3)] by (simp add: k_def)
qed

theorem boot_trial_then_fallback_witness:
  "fst (boot_decisions demo_boot_state [(1, 1), (1, 1), (1, 2), (1, 1), (1, 1)]) =
    [BOOT_DECISION_SLOT_B, BOOT_DECISION_SLOT_B, BOOT_DECISION_SLOT_B,
     BOOT_DECISION_SLOT_A, BOOT_DECISION_SLOT_A]"
  using boot_trial_then_fallback [OF demo_boot_state_valid,
      of "[(1, 1), (1, 1), (1, 2), (1, 1), (1, 1)]"]
  by (simp add: demo_boot_state_def boot_slot_decision_def del: boot_decisions.simps)

end
