(* ===== verification/BootFlash.thy ===== *)
theory BootFlash
  imports BootControl BootMap
begin

text \<open>
  Persisting the boot-control state, \<open>src/Core/Src/boot_flash.c\<close>: unlock, erase the sector of
  one of the two copies, read back, program the body, read back, program the unit with the
  checksum and the commit marker, read back, lock. The flash driver is the record of function
  pointers \<open>Boot_FlashBackend_t\<close> over a state \<open>'w\<close> that contains the flash array.
  The locale \<open>flash_backend\<close> states what the driver may change; inside it stands the crash
  safety of the update. The driver of the repository is modelled in \<open>BootFlashStm32\<close>.
\<close>

datatype Boot_FlashResult = BOOT_FLASH_RESULT_OK | BOOT_FLASH_RESULT_INVALID_ARGUMENT
  | BOOT_FLASH_RESULT_INVALID_STATE | BOOT_FLASH_RESULT_UNLOCK_FAILED
  | BOOT_FLASH_RESULT_ERASE_FAILED | BOOT_FLASH_RESULT_ERASE_VERIFY_FAILED
  | BOOT_FLASH_RESULT_BODY_PROGRAM_FAILED | BOOT_FLASH_RESULT_BODY_VERIFY_FAILED
  | BOOT_FLASH_RESULT_COMMIT_PROGRAM_FAILED | BOOT_FLASH_RESULT_FINAL_VERIFY_FAILED
  | BOOT_FLASH_RESULT_LOCK_FAILED

text \<open>
  A driver call returns its success flag and the new state; \<open>read\<close> also returns the caller's
  buffer. A NULL function pointer is \<open>None\<close>.
\<close>

record 'w Boot_FlashBackend =
  be_unlock :: "('w \<Rightarrow> bool \<times> 'w) option"
  be_lock :: "('w \<Rightarrow> bool \<times> 'w) option"
  be_erase_sector :: "(u32 \<Rightarrow> 'w \<Rightarrow> bool \<times> 'w) option"
  be_program_unit :: "(u32 \<Rightarrow> bytes \<Rightarrow> 'w \<Rightarrow> bool \<times> 'w) option"
  be_read :: "(u32 \<Rightarrow> bytes \<Rightarrow> u32 \<Rightarrow> 'w \<Rightarrow> bool \<times> bytes \<times> 'w) option"

record Boot_FlashEvidence =
  ev_record_address :: u32
  ev_target_record :: u8
  ev_body_units_programmed :: u8
  ev_commit_programmed :: bool
  ev_locked :: bool

definition flash_evidence_zero :: Boot_FlashEvidence where
  "flash_evidence_zero = \<lparr>ev_record_address = 0, ev_target_record = 0,
     ev_body_units_programmed = 0, ev_commit_programmed = False, ev_locked = False\<rparr>"

definition BOOT_FLASH_BODY_SIZE :: u32 where
  "BOOT_FLASH_BODY_SIZE = ucast BOOT_CONTROL_RECORD_SIZE - BOOT_FLASH_PROGRAM_UNIT_SIZE"

definition BOOT_FLASH_BODY_UNIT_COUNT :: u32 where
  "BOOT_FLASH_BODY_UNIT_COUNT = BOOT_FLASH_BODY_SIZE div BOOT_FLASH_PROGRAM_UNIT_SIZE"

lemma boot_flash_sizes [simp]:
  "BOOT_FLASH_BODY_SIZE = 48" "BOOT_FLASH_BODY_UNIT_COUNT = 3"
  by (simp_all add: BOOT_FLASH_BODY_UNIT_COUNT_def BOOT_FLASH_BODY_SIZE_def boot_record_consts boot_map)

section \<open>Operations\<close>

definition Boot_Flash_RecordAddress :: "u8 \<Rightarrow> u32" where
  "Boot_Flash_RecordAddress target_record = (if target_record = 0
     then BOOT_CONTROL_RECORD_0_ADDRESS else BOOT_CONTROL_RECORD_1_ADDRESS)"

text \<open>
  The outer loop of \<open>VerifyRange\<close> over the unit offsets, with its early returns. The content
  of the local buffer before the first read is irrelevant; it starts as zeros here.
\<close>

fun Boot_Flash_VerifyRange_loop :: "'w Boot_FlashBackend \<Rightarrow> u32 \<Rightarrow> bytes \<Rightarrow> nat list
    \<Rightarrow> bytes \<Rightarrow> 'w \<Rightarrow> bool \<times> 'w" where
  "Boot_Flash_VerifyRange_loop be address expected [] readback w = (True, w)"
| "Boot_Flash_VerifyRange_loop be address expected (offset # offsets) readback w =
    (case the (be_read be) (address + of_nat offset) readback 16 w of (ok, readback', w') \<Rightarrow>
       if \<not> ok then (False, w')
       else if \<exists>i \<in> set [0..<16]. readback' ! i \<noteq> expected ! (offset + i) then (False, w')
       else Boot_Flash_VerifyRange_loop be address expected offsets readback' w')"

definition Boot_Flash_VerifyRange :: "'w Boot_FlashBackend \<Rightarrow> u32 \<Rightarrow> bytes \<Rightarrow> u32
    \<Rightarrow> 'w \<Rightarrow> bool \<times> 'w" where
  "Boot_Flash_VerifyRange be address expected len w = Boot_Flash_VerifyRange_loop be address expected
     (map (\<lambda>k. 16 * k) [0..<(unat len + 15) div 16]) (replicate 16 0) w"

definition Boot_Flash_VerifyErasedRecord :: "'w Boot_FlashBackend \<Rightarrow> u32 \<Rightarrow> 'w \<Rightarrow> bool \<times> 'w" where
  "Boot_Flash_VerifyErasedRecord be address w =
     (let erased = fold (\<lambda>i d. d[i := 0xFF]) [0..<64] (replicate 64 0)
      in Boot_Flash_VerifyRange be address erased 64 w)"

definition Boot_Flash_Finish :: "'w Boot_FlashBackend \<Rightarrow> Boot_FlashResult \<Rightarrow> Boot_FlashEvidence
    \<Rightarrow> 'w \<Rightarrow> Boot_FlashResult \<times> Boot_FlashEvidence \<times> 'w" where
  "Boot_Flash_Finish be result ev w = (case the (be_lock be) w of (ok, w') \<Rightarrow>
     if \<not> ok then (BOOT_FLASH_RESULT_LOCK_FAILED, ev, w')
     else (result, ev\<lparr>ev_locked := True\<rparr>, w'))"

text \<open>The loop that programs the body units stops at the first failure.\<close>

fun boot_flash_program_body :: "'w Boot_FlashBackend \<Rightarrow> u32 \<Rightarrow> bytes \<Rightarrow> nat list
    \<Rightarrow> Boot_FlashEvidence \<Rightarrow> 'w \<Rightarrow> Boot_FlashResult \<times> Boot_FlashEvidence \<times> 'w" where
  "boot_flash_program_body be address record [] ev w = (BOOT_FLASH_RESULT_OK, ev, w)"
| "boot_flash_program_body be address record (unit_index # units) ev w =
    (let unit_offset = unit_index * 16
     in case the (be_program_unit be) (address + of_nat unit_offset)
            (take 16 (drop unit_offset record)) w of (ok, w') \<Rightarrow>
       if \<not> ok then (BOOT_FLASH_RESULT_BODY_PROGRAM_FAILED, ev, w')
       else boot_flash_program_body be address record units
         (ev\<lparr>ev_body_units_programmed := ev_body_units_programmed ev + 1\<rparr>) w')"

text \<open>The phases between unlock and lock, in the order of the code.\<close>

definition boot_flash_erase_phase :: "'w Boot_FlashBackend \<Rightarrow> u32 \<Rightarrow> 'w
    \<Rightarrow> Boot_FlashResult \<times> 'w" where
  "boot_flash_erase_phase be address w =
    (case the (be_erase_sector be) address w of (ok, w1) \<Rightarrow>
       if \<not> ok then (BOOT_FLASH_RESULT_ERASE_FAILED, w1)
       else case Boot_Flash_VerifyErasedRecord be address w1 of (blank, w2) \<Rightarrow>
         if \<not> blank then (BOOT_FLASH_RESULT_ERASE_VERIFY_FAILED, w2)
         else (BOOT_FLASH_RESULT_OK, w2))"

definition boot_flash_body_phase :: "'w Boot_FlashBackend \<Rightarrow> u32 \<Rightarrow> bytes
    \<Rightarrow> Boot_FlashEvidence \<Rightarrow> 'w \<Rightarrow> Boot_FlashResult \<times> Boot_FlashEvidence \<times> 'w" where
  "boot_flash_body_phase be address record ev w =
    (case boot_flash_program_body be address record [0..<unat BOOT_FLASH_BODY_UNIT_COUNT] ev w of
       (res, ev1, w1) \<Rightarrow>
         if res \<noteq> BOOT_FLASH_RESULT_OK then (res, ev1, w1)
         else case Boot_Flash_VerifyRange be address record BOOT_FLASH_BODY_SIZE w1 of (ok, w2) \<Rightarrow>
           (if \<not> ok then BOOT_FLASH_RESULT_BODY_VERIFY_FAILED else BOOT_FLASH_RESULT_OK, ev1, w2))"

definition boot_flash_commit_phase :: "'w Boot_FlashBackend \<Rightarrow> u32 \<Rightarrow> bytes
    \<Rightarrow> Boot_FlashEvidence \<Rightarrow> 'w \<Rightarrow> Boot_FlashResult \<times> Boot_FlashEvidence \<times> 'w" where
  "boot_flash_commit_phase be address record ev w =
    (let record = the (Boot_Control_MarkRecordCommitted (Some record))
     in case the (be_program_unit be) (address + BOOT_FLASH_BODY_SIZE)
            (take 16 (drop (unat BOOT_FLASH_BODY_SIZE) record)) w of (ok, w1) \<Rightarrow>
       if \<not> ok then (BOOT_FLASH_RESULT_COMMIT_PROGRAM_FAILED, ev, w1)
       else case Boot_Flash_VerifyRange be address record 64 w1 of (ok, w2) \<Rightarrow>
         (if \<not> ok then BOOT_FLASH_RESULT_FINAL_VERIFY_FAILED else BOOT_FLASH_RESULT_OK,
          ev\<lparr>ev_commit_programmed := True\<rparr>, w2))"

definition Boot_Flash_PersistControl_body :: "'w Boot_FlashBackend \<Rightarrow> Boot_ControlState \<Rightarrow> u8
    \<Rightarrow> Boot_FlashEvidence \<Rightarrow> bytes \<Rightarrow> 'w \<Rightarrow> Boot_FlashResult \<times> Boot_FlashEvidence \<times> 'w" where
  "Boot_Flash_PersistControl_body be st target_record ev0 record0 w =
    (case Boot_Control_PrepareRecord (Some st) (Some record0) of (prepare_result, prepared) \<Rightarrow>
     if prepare_result \<noteq> BOOT_CONTROL_RESULT_OK
     then (BOOT_FLASH_RESULT_INVALID_STATE, ev0, w)
     else
      let record = the prepared;
          address = Boot_Flash_RecordAddress target_record;
          ev = ev0\<lparr>ev_record_address := address, ev_target_record := target_record\<rparr>
      in case the (be_unlock be) w of (unlocked, w1) \<Rightarrow>
        if \<not> unlocked then Boot_Flash_Finish be BOOT_FLASH_RESULT_UNLOCK_FAILED ev w1
        else case boot_flash_erase_phase be address w1 of (res2, w2) \<Rightarrow>
          if res2 \<noteq> BOOT_FLASH_RESULT_OK then Boot_Flash_Finish be res2 ev w2
          else case boot_flash_body_phase be address record ev w2 of (res3, ev3, w3) \<Rightarrow>
            if res3 \<noteq> BOOT_FLASH_RESULT_OK then Boot_Flash_Finish be res3 ev3 w3
            else case boot_flash_commit_phase be address record ev3 w3 of (res4, ev4, w4) \<Rightarrow>
              Boot_Flash_Finish be res4 ev4 w4)"

text \<open>
  The whole function. \<open>record0\<close> is the uninitialised local array, which \<open>PrepareRecord\<close> clears.
\<close>

definition Boot_Flash_PersistControl :: "'w Boot_FlashBackend option \<Rightarrow> Boot_ControlState option
    \<Rightarrow> u8 \<Rightarrow> Boot_FlashEvidence option \<Rightarrow> bytes \<Rightarrow> 'w
    \<Rightarrow> Boot_FlashResult \<times> Boot_FlashEvidence option \<times> 'w" where
  "Boot_Flash_PersistControl backend state target_record evidence record0 w =
    (let evidence = map_option (\<lambda>_. flash_evidence_zero\<lparr>ev_target_record := 0xFF\<rparr>) evidence
     in case (backend, state, evidence) of
       (Some be, Some st, Some ev) \<Rightarrow>
         if target_record > 1 \<or> be_unlock be = None \<or> be_lock be = None
            \<or> be_erase_sector be = None \<or> be_program_unit be = None \<or> be_read be = None
         then (BOOT_FLASH_RESULT_INVALID_ARGUMENT, evidence, w)
         else (case Boot_Flash_PersistControl_body be st target_record ev record0 w of
           (res, ev', w') \<Rightarrow> (res, Some ev', w'))
     | _ \<Rightarrow> (BOOT_FLASH_RESULT_INVALID_ARGUMENT, evidence, w))"

section \<open>Torn records\<close>

lemma boot_decode_reserved:
  assumes "fst (Boot_Control_DecodeRecord (Some r) (Some s0))"
  shows "read_u32_le r 48 = 0" "read_u32_le r 52 = 0"
  using assms by (auto simp: Boot_Control_DecodeRecord_def reserved_words_zero_eq split: if_splits)

lemma same_word_bytes:
  assumes "read_u32_le r p = read_u32_le q p" "p \<le> i" "i < p + 4"
  shows "r ! i = q ! i"
proof -
  have "i - p < 4" using assms(2,3) by linarith
  then show ?thesis using read_u32_le_eqD [OF assms(1), of "i - p"] assms(2) by simp
qed

text \<open>
  A record whose body is the prepared one and whose last unit is anything at all decodes only
  if the last unit is the complete one as well.
\<close>

lemma boot_decode_torn_commit:
  assumes "length r = 64" "length r0 = 64"
    and body: "\<And>i. i < 48 \<Longrightarrow> r ! i = Boot_Control_PrepareRecord_body st r0 ! i"
    and dec: "fst (Boot_Control_DecodeRecord (Some r) (Some s0))"
  shows "r = boot_record_of st r0"
proof -
  let ?p = "Boot_Control_PrepareRecord_body st r0" and ?q = "boot_record_of st r0"
  note p = prepared_record [OF assms(2), of st]
  have q: "length ?q = 64" "i < 60 \<Longrightarrow> ?q ! i = ?p ! i" for i
    using p(1) by (simp_all add: byte_order BOOT_CONTROL_COMMIT_OFFSET_def)
  note r0 = boot_decode_reserved [OF dec] and rc = boot_decode_fields [OF dec]
  have low: "r ! i = ?p ! i" if "i < 56" for i
    using that body [of i] same_word_bytes [of r 48 ?p i] same_word_bytes [of r 52 ?p i] r0 p(18,19)
    by (cases "i < 48"; cases "i < 52") auto
  then have "Boot_Control_CalculateCrc32 r 56 = Boot_Control_CalculateCrc32 ?p 56"
    by (intro boot_crc_cong) simp
  then have "read_u32_le r 56 = read_u32_le ?p 56" using rc(1) p(21) by simp
  then have mid: "r ! i = ?p ! i" if "i < 60" for i
    using low same_word_bytes [of r 56 ?p i] that by (cases "i < 56") auto
  have "read_u32_le r 60 = read_u32_le ?q 60"
    using rc(2) p(1) by (simp add: byte_order BOOT_CONTROL_COMMIT_OFFSET_def)
  then have "r ! i = ?q ! i" if "i < 64" for i
    using mid q(2) same_word_bytes [of r 60 ?q i] that by (cases "i < 60") auto
  then show ?thesis using assms(1) q(1) by (intro nth_equalityI) auto
qed

text \<open>The results of an update whose erase was not confirmed (or that could not lock the flash again).\<close>

definition boot_erase_failure :: "Boot_FlashResult \<Rightarrow> bool" where
  "boot_erase_failure res \<longleftrightarrow> res \<in> {BOOT_FLASH_RESULT_ERASE_FAILED, BOOT_FLASH_RESULT_ERASE_VERIFY_FAILED,
     BOOT_FLASH_RESULT_LOCK_FAILED}"

section \<open>What a driver promises\<close>

text \<open>
  The contract the update needs from a driver: erasing and programming, whether they succeed
  or not, change at most the sector or the unit they were asked for, the other calls change
  nothing, and a successful read returns the bytes of the array.
\<close>

locale flash_backend =
  fixes be :: "'w Boot_FlashBackend" and mem :: "'w \<Rightarrow> flash"
  assumes ops_present: "be_unlock be \<noteq> None" "be_lock be \<noteq> None" "be_erase_sector be \<noteq> None"
      "be_program_unit be \<noteq> None" "be_read be \<noteq> None"
    and unlock_frame: "the (be_unlock be) w = (ok, w') \<Longrightarrow> mem w' = mem w"
    and lock_frame: "the (be_lock be) w = (ok, w') \<Longrightarrow> mem w' = mem w"
    and erase_frame: "the (be_erase_sector be) a w = (ok, w') \<Longrightarrow> \<not> in_range a 8192 x
      \<Longrightarrow> mem w' x = mem w x"
    and program_frame: "the (be_program_unit be) a d w = (ok, w') \<Longrightarrow> \<not> in_range a 16 x
      \<Longrightarrow> mem w' x = mem w x"
    and read_frame: "the (be_read be) a buf n w = (ok, buf', w') \<Longrightarrow> mem w' = mem w"
    and read_ok: "the (be_read be) a buf n w = (True, buf', w') \<Longrightarrow> length buf = unat n
      \<Longrightarrow> buf' = flash_bytes (mem w) a (unat n)"
begin

lemma verify_loop:
  assumes "Boot_Flash_VerifyRange_loop be a expected offs rb w = (ok, w')" "length rb = 16"
  shows "mem w' = mem w \<and>
    (ok \<longrightarrow> (\<forall>off \<in> set offs. \<forall>i < 16. mem w (a + of_nat (off + i)) = expected ! (off + i)))"
  using assms
proof (induction offs arbitrary: rb w)
  case (Cons off offs)
  obtain rok rb' w1 where rd: "the (be_read be) (a + of_nat off) rb 16 w = (rok, rb', w1)"
    by (metis prod.exhaust)
  note frame = read_frame [OF rd]
  show ?case
  proof (cases "rok \<and> (\<forall>i < 16. rb' ! i = expected ! (off + i))")
    case True
    then have rb': "rb' = flash_bytes (mem w) (a + of_nat off) 16"
      using read_ok [of "a + of_nat off" rb 16 w rb' w1] rd Cons.prems(2) by simp
    have "Boot_Flash_VerifyRange_loop be a expected offs rb' w1 = (ok, w')"
      using Cons.prems(1) True by (simp add: rd)
    from Cons.IH [OF this] rb' True show ?thesis by (simp add: frame add.assoc)
  next
    case False
    then have "\<not> ok \<and> w' = w1" using Cons.prems(1) by (auto simp: rd split: if_splits)
    then show ?thesis by (simp add: frame)
  qed
qed simp

lemma verify_range:
  assumes "Boot_Flash_VerifyRange be a expected n w = (ok, w')"
  shows "mem w' = mem w" "ok \<Longrightarrow> i < unat n \<Longrightarrow> mem w (a + of_nat i) = expected ! i"
proof -
  note loop = verify_loop [OF assms [unfolded Boot_Flash_VerifyRange_def]]
  show "mem w' = mem w" using loop by simp
  assume "ok" "i < unat n"
  then have "16 * (i div 16) \<in> set (map (\<lambda>k. 16 * k) [0..<(unat n + 15) div 16])" by auto
  moreover have "i mod 16 < 16" by simp
  ultimately have "mem w (a + of_nat (16 * (i div 16) + i mod 16)) = expected ! (16 * (i div 16) + i mod 16)"
    using loop \<open>ok\<close> by (metis length_replicate)
  then show "mem w (a + of_nat i) = expected ! i" by simp
qed

lemma verify_erased:
  assumes "Boot_Flash_VerifyErasedRecord be a w = (ok, w')"
  shows "mem w' = mem w" "ok \<Longrightarrow> i < 64 \<Longrightarrow> mem w (a + of_nat i) = 0xFF"
  using verify_range [OF assms [unfolded Boot_Flash_VerifyErasedRecord_def Let_def]]
  by (simp_all add: fold_clear)

lemma finish_frame:
  assumes "Boot_Flash_Finish be res ev w = (res', ev', w')"
  shows "mem w' = mem w" "res' = res \<or> res' = BOOT_FLASH_RESULT_LOCK_FAILED"
    "ev_body_units_programmed ev' = ev_body_units_programmed ev"
  using assms by (auto simp: Boot_Flash_Finish_def dest: lock_frame split: prod.splits if_splits)

lemma erase_phase:
  assumes "boot_flash_erase_phase be a w = (res, w')"
  shows "\<not> in_range a 8192 x \<Longrightarrow> mem w' x = mem w x"
    "res = BOOT_FLASH_RESULT_OK \<Longrightarrow> i < 64 \<Longrightarrow> mem w' (a + of_nat i) = 0xFF"
  using assms by (auto simp: boot_flash_erase_phase_def erase_frame verify_erased
      split: prod.splits if_splits)

lemma program_body:
  assumes "boot_flash_program_body be a record units ev w = (res, ev', w')"
    and "\<forall>u \<in> set units. u < 3" "\<not> in_range a 48 x"
  shows "mem w' x = mem w x"
  using assms
proof (induction units arbitrary: ev w)
  case (Cons u units)
  obtain ok w1 where pr: "the (be_program_unit be) (a + of_nat (u * 16)) (take 16 (drop (u * 16) record)) w
      = (ok, w1)" by fastforce
  have "u * 16 + 16 \<le> 48" using Cons.prems(2) by auto
  then have "mem w1 x = mem w x"
    using program_frame [OF pr, of x] in_range_sub [of a "u * 16" 16 x 48] Cons.prems(3) by auto
  then show ?case using Cons pr by (auto simp: Let_def split: if_splits)
qed simp

lemma body_phase:
  assumes "boot_flash_body_phase be a record ev w = (res, ev', w')"
  shows "\<not> in_range a 48 x \<Longrightarrow> mem w' x = mem w x"
    "res = BOOT_FLASH_RESULT_OK \<Longrightarrow> i < 48 \<Longrightarrow> mem w' (a + of_nat i) = record ! i"
  using assms by (auto simp: boot_flash_body_phase_def program_body verify_range
      split: prod.splits if_splits)

lemma commit_phase:
  assumes "boot_flash_commit_phase be a record ev w = (res, ev', w')"
  shows "\<not> in_range (a + 48) 16 x \<Longrightarrow> mem w' x = mem w x"
    "res = BOOT_FLASH_RESULT_OK \<Longrightarrow> i < 64 \<Longrightarrow>
      mem w' (a + of_nat i) = the (Boot_Control_MarkRecordCommitted (Some record)) ! i"
  using assms by (auto simp: boot_flash_commit_phase_def Let_def program_frame verify_range
      split: prod.splits if_splits)

lemma persist_run:
  assumes "Boot_Control_IsStateValid_body st" "a = Boot_Flash_RecordAddress t"
    and "ev = ev0\<lparr>ev_record_address := a, ev_target_record := t\<rparr>"
    and "the (be_unlock be) w = (ok1, w1)" "boot_flash_erase_phase be a w1 = (res2, w2)"
    and "boot_flash_body_phase be a (Boot_Control_PrepareRecord_body st r0) ev w2 = (res3, ev3, w3)"
    and "boot_flash_commit_phase be a (Boot_Control_PrepareRecord_body st r0) ev3 w3 = (res4, ev4, w4)"
  shows "Boot_Flash_PersistControl_body be st t ev0 r0 w =
    (if \<not> ok1 then Boot_Flash_Finish be BOOT_FLASH_RESULT_UNLOCK_FAILED ev w1
     else if res2 \<noteq> BOOT_FLASH_RESULT_OK then Boot_Flash_Finish be res2 ev w2
     else if res3 \<noteq> BOOT_FLASH_RESULT_OK then Boot_Flash_Finish be res3 ev3 w3
     else Boot_Flash_Finish be res4 ev4 w4)"
  using assms by (simp add: Boot_Flash_PersistControl_body_def Boot_Control_PrepareRecord_def
      Boot_Control_IsStateValid_def Let_def)

text \<open>
  The update with all its outcomes. Only the sector of the target copy changes; success means
  that the committed record is in the array; once a body unit has been programmed, a
  target that decodes is that record, however the call ended; and in every case a target that decodes is that
  record or the one that was there before, unless the erase of the sector was not confirmed.
\<close>

lemma persist_outcome:
  assumes "Boot_Flash_PersistControl_body be st t ev0 r0 w = (res, ev', w')"
    and "Boot_Control_IsStateValid_body st" "length r0 = 64" "ev_body_units_programmed ev0 = 0"
  defines "a \<equiv> Boot_Flash_RecordAddress t"
  shows "\<not> in_range a 8192 x \<Longrightarrow> mem w' x = mem w x"
    "res = BOOT_FLASH_RESULT_OK \<Longrightarrow> flash_bytes (mem w') a 64 = boot_record_of st r0"
    "ev_body_units_programmed ev' \<noteq> 0
      \<Longrightarrow> fst (Boot_Control_DecodeRecord (Some (flash_bytes (mem w') a 64)) (Some s0))
      \<Longrightarrow> flash_bytes (mem w') a 64 = boot_record_of st r0"
    "fst (Boot_Control_DecodeRecord (Some (flash_bytes (mem w') a 64)) (Some s0))
      \<Longrightarrow> flash_bytes (mem w') a 64 = boot_record_of st r0 \<or> flash_bytes (mem w') a 64 = flash_bytes (mem w) a 64
        \<or> boot_erase_failure res \<and> ev_body_units_programmed ev' = 0"
proof -
  let ?p = "Boot_Control_PrepareRecord_body st r0"
  let ?ev = "ev0\<lparr>ev_record_address := a, ev_target_record := t\<rparr>"
  let ?out = "\<lambda>res ev' w'. (\<not> in_range a 8192 x \<longrightarrow> mem w' x = mem w x)
    \<and> (res = BOOT_FLASH_RESULT_OK \<longrightarrow> flash_bytes (mem w') a 64 = boot_record_of st r0)
    \<and> (ev_body_units_programmed ev' \<noteq> 0
      \<longrightarrow> fst (Boot_Control_DecodeRecord (Some (flash_bytes (mem w') a 64)) (Some s0))
      \<longrightarrow> flash_bytes (mem w') a 64 = boot_record_of st r0)
    \<and> (fst (Boot_Control_DecodeRecord (Some (flash_bytes (mem w') a 64)) (Some s0))
      \<longrightarrow> flash_bytes (mem w') a 64 = boot_record_of st r0 \<or> flash_bytes (mem w') a 64 = flash_bytes (mem w) a 64
        \<or> boot_erase_failure res \<and> ev_body_units_programmed ev' = 0)"
  have finish: "?out res ev' w'" if "Boot_Flash_Finish be fres fev fw = (res, ev', w')" "?out fres fev fw"
    for fres fev fw
    using finish_frame [OF that(1)] that(2) by (auto simp: boot_erase_failure_def)
  obtain ok1 w1 where u: "the (be_unlock be) w = (ok1, w1)" by fastforce
  obtain res2 w2 where e: "boot_flash_erase_phase be a w1 = (res2, w2)" by fastforce
  obtain res3 ev3 w3 where b: "boot_flash_body_phase be a ?p ?ev w2 = (res3, ev3, w3)"
    by (metis prod.exhaust)
  obtain res4 ev4 w4 where c: "boot_flash_commit_phase be a ?p ev3 w3 = (res4, ev4, w4)"
    by (metis prod.exhaust)
  note run = assms(1) [unfolded persist_run [OF assms(2) a_def [THEN meta_eq_to_obj_eq] refl u e b c]]
  have f1: "mem w1 = mem w" by (rule unlock_frame [OF u])
  have not_blank: "boot_erase_failure res2" if "res2 \<noteq> BOOT_FLASH_RESULT_OK"
    using e that by (auto simp: boot_erase_failure_def boot_flash_erase_phase_def split: prod.splits if_splits)
  note f2 = erase_phase [OF e] and f3 = body_phase [OF b] and f4 = commit_phase [OF c]
  have sector: "\<not> in_range a 48 x" "\<not> in_range (a + 48) 16 x" if "\<not> in_range a 8192 x" for x
    using that in_range_mono [of a 48 x 8192] in_range_sub [of a 48 16 x 8192] by auto
  have blank: "i < 64 \<Longrightarrow> 48 \<le> i \<Longrightarrow> mem w3 (a + of_nat i) = 0xFF"
    if "res2 = BOOT_FLASH_RESULT_OK" for i
    using f2(2) [OF that, of i] f3(1) [of "a + of_nat i"] by simp
  have "?out res ev' w'"
  proof (cases "ok1 \<and> res2 = BOOT_FLASH_RESULT_OK")
    case False
    then show ?thesis using run f1 f2(1) assms(4) not_blank
      by (cases ok1) (intro finish [of res2 ?ev w2], simp_all,
          intro finish [of BOOT_FLASH_RESULT_UNLOCK_FAILED ?ev w1], simp_all)
  next
    case erased: True
    show ?thesis
    proof (cases "res3 = BOOT_FLASH_RESULT_OK")
      case False
      have "read_u32_le (flash_bytes (mem w3) a 64) 60 = 0xFFFFFFFF"
        using blank [of 60] blank [of 61] blank [of 62] blank [of 63] erased
        by (simp add: read_u32_le_def nth_flash_bytes)
      then have "\<not> fst (Boot_Control_DecodeRecord (Some (flash_bytes (mem w3) a 64)) (Some s0))"
        by (intro boot_decode_needs_commit) (simp add: BOOT_CONTROL_COMMIT_MARKER_def)
      then have "?out res3 ev3 w3" using False f1 f2(1) f3(1) sector by auto
      then show ?thesis using run erased False by (intro finish [of res3 ev3 w3]) simp_all
    next
      case True
      have low: "mem w4 (a + of_nat i) = ?p ! i" if "i < 48" for i
        using f3(2) [OF True that] f4(1) [of "a + of_nat i"] that in_range_shift [of 48 i a 16] by simp
      have "?out res4 ev4 w4"
      proof (intro conjI impI)
        show "mem w4 x = mem w x" if "\<not> in_range a 8192 x"
          using that f1 f2(1) f3(1) f4(1) sector by simp
        show "flash_bytes (mem w4) a 64 = boot_record_of st r0" if "res4 = BOOT_FLASH_RESULT_OK"
          using f4(2) [OF that] prepared_record(1) [OF assms(3), of st]
          by (intro flash_bytes_eqI) (simp_all add: Boot_Control_MarkRecordCommitted_def byte_order)
        show "flash_bytes (mem w4) a 64 = boot_record_of st r0"
          if "fst (Boot_Control_DecodeRecord (Some (flash_bytes (mem w4) a 64)) (Some s0))"
          using low that by (intro boot_decode_torn_commit [OF _ assms(3)]) simp_all
        then show "flash_bytes (mem w4) a 64 = boot_record_of st r0 \<or> flash_bytes (mem w4) a 64 = flash_bytes (mem w) a 64
            \<or> boot_erase_failure res4 \<and> ev_body_units_programmed ev4 = 0"
          if "fst (Boot_Control_DecodeRecord (Some (flash_bytes (mem w4) a 64)) (Some s0))" using that by blast
      qed
      then show ?thesis using run erased True by (intro finish [of res4 ev4 w4]) simp_all
    qed
  qed
  then show "\<not> in_range a 8192 x \<Longrightarrow> mem w' x = mem w x"
    "res = BOOT_FLASH_RESULT_OK \<Longrightarrow> flash_bytes (mem w') a 64 = boot_record_of st r0"
    "ev_body_units_programmed ev' \<noteq> 0
      \<Longrightarrow> fst (Boot_Control_DecodeRecord (Some (flash_bytes (mem w') a 64)) (Some s0))
      \<Longrightarrow> flash_bytes (mem w') a 64 = boot_record_of st r0"
    "fst (Boot_Control_DecodeRecord (Some (flash_bytes (mem w') a 64)) (Some s0))
      \<Longrightarrow> flash_bytes (mem w') a 64 = boot_record_of st r0 \<or> flash_bytes (mem w') a 64 = flash_bytes (mem w) a 64
        \<or> boot_erase_failure res \<and> ev_body_units_programmed ev' = 0" by blast+
qed

end

section \<open>Progress\<close>

text \<open>
  A driver whose operations succeed once the flash is unlocked. The update then goes through.
\<close>

abbreviation record_unit :: "u8 \<Rightarrow> nat \<Rightarrow> u32" where
  "record_unit t k \<equiv> Boot_Flash_RecordAddress t + of_nat (16 * k)"

locale working_flash_backend = flash_backend be mem
  for be :: "'w Boot_FlashBackend" and mem :: "'w \<Rightarrow> flash" +
  fixes ready :: "'w \<Rightarrow> bool"
  assumes unlock_works: "the (be_unlock be) w = (ok, w') \<Longrightarrow> ok \<and> ready w'"
    and lock_works: "ready w \<Longrightarrow> the (be_lock be) w = (ok, w') \<Longrightarrow> ok"
    and erase_works: "ready w \<Longrightarrow> the (be_erase_sector be) (Boot_Flash_RecordAddress t) w = (ok, w')
      \<Longrightarrow> ok \<and> ready w' \<and> (\<forall>x. in_range (Boot_Flash_RecordAddress t) 8192 x \<longrightarrow> mem w' x = 0xFF)"
    and program_works: "ready w \<Longrightarrow> k < 4 \<Longrightarrow> length u = 16
      \<Longrightarrow> \<forall>i < 16. mem w (record_unit t k + of_nat i) = 0xFF
      \<Longrightarrow> the (be_program_unit be) (record_unit t k) u w = (ok, w')
      \<Longrightarrow> ok \<and> ready w' \<and> flash_bytes (mem w') (record_unit t k) 16 = u"
    and read_works: "ready w \<Longrightarrow> k < 4 \<Longrightarrow> the (be_read be) (record_unit t k) buf 16 w = (ok, buf', w')
      \<Longrightarrow> ok \<and> ready w'"
begin

lemma verify_loop_works:
  assumes "ready w" "\<forall>k \<in> set ks. k < 4" "length rb = 16"
    and "\<forall>k \<in> set ks. \<forall>i < 16. mem w (record_unit t k + of_nat i) = expected ! (16 * k + i)"
    and "Boot_Flash_VerifyRange_loop be (Boot_Flash_RecordAddress t) expected (map (\<lambda>k. 16 * k) ks) rb w
       = (ok, w')"
  shows "ok \<and> ready w'"
  using assms
proof (induction ks arbitrary: rb w)
  case (Cons k ks)
  obtain rok rb' w1 where rd: "the (be_read be) (record_unit t k) rb 16 w = (rok, rb', w1)"
    by (metis prod.exhaust)
  have live: "rok" "ready w1" using read_works [OF Cons.prems(1) _ rd] Cons.prems(2) by auto
  then have "rb' = flash_bytes (mem w) (record_unit t k) 16"
    using read_ok [of "record_unit t k" rb 16 w rb' w1] rd Cons.prems(3) by simp
  then have rb': "length rb' = 16" "\<forall>i < 16. rb' ! i = expected ! (16 * k + i)"
    using Cons.prems(4) by (simp_all del: of_nat_mult)
  have "Boot_Flash_VerifyRange_loop be (Boot_Flash_RecordAddress t) expected
      (map (\<lambda>k. 16 * k) ks) rb' w1 = (ok, w')"
    using Cons.prems(5) rb'(2) live by (auto simp: rd simp del: of_nat_mult)
  from Cons.IH [OF live(2) _ rb'(1) _ this] Cons.prems read_frame [OF rd] show ?case by simp
qed simp

lemma verify_range_works:
  assumes "ready w" "unat n = 16 * m" "m \<le> 4"
    and "\<forall>i < unat n. mem w (Boot_Flash_RecordAddress t + of_nat i) = expected ! i"
    and "Boot_Flash_VerifyRange be (Boot_Flash_RecordAddress t) expected n w = (ok, w')"
  shows "ok \<and> ready w'"
proof -
  have m: "(unat n + 15) div 16 = m" using assms(2) by simp
  have "mem w (record_unit t k + of_nat i) = expected ! (16 * k + i)" if "k < m" "i < 16" for k i
  proof -
    have "16 * k + i < unat n" using that assms(2) by simp
    with assms(4) have "mem w (Boot_Flash_RecordAddress t + of_nat (16 * k + i)) = expected ! (16 * k + i)"
      by blast
    then show ?thesis by (simp add: add.assoc)
  qed
  then show ?thesis
    using verify_loop_works [of w "[0..<m]" "replicate 16 0" t expected ok w'] assms(1,3,5)
    by (simp add: Boot_Flash_VerifyRange_def m del: of_nat_mult)
qed

lemma program_body_works:
  assumes "boot_flash_program_body be (Boot_Flash_RecordAddress t) record [m..<3] ev w = (res, ev', w')"
    and "ready w" "length record = 64" "m \<le> 3"
    and "\<forall>i < 16 * m. mem w (Boot_Flash_RecordAddress t + of_nat i) = record ! i"
    and "\<forall>i < 64. 16 * m \<le> i \<longrightarrow> mem w (Boot_Flash_RecordAddress t + of_nat i) = 0xFF"
  shows "res = BOOT_FLASH_RESULT_OK \<and> ready w'
    \<and> (\<forall>i < 48. mem w' (Boot_Flash_RecordAddress t + of_nat i) = record ! i)
    \<and> (\<forall>i < 64. 48 \<le> i \<longrightarrow> mem w' (Boot_Flash_RecordAddress t + of_nat i) = 0xFF)"
  using assms
proof (induction "3 - m" arbitrary: m ev w)
  case (Suc n)
  then have m: "m < 3" by simp
  let ?a = "Boot_Flash_RecordAddress t" and ?u = "take 16 (drop (16 * m) record)"
  obtain ok w1 where pr: "the (be_program_unit be) (record_unit t m) ?u w = (ok, w1)" by fastforce
  have blank: "\<forall>i < 16. mem w (record_unit t m + of_nat i) = 0xFF"
  proof (intro allI impI)
    fix i :: nat assume "i < 16"
    then have "mem w (?a + of_nat (16 * m + i)) = 0xFF"
      using Suc.prems(6) m by (simp del: of_nat_add)
    then show "mem w (record_unit t m + of_nat i) = 0xFF" by (simp add: add.assoc)
  qed
  have live: "ok" "ready w1" and unit: "flash_bytes (mem w1) (record_unit t m) 16 = ?u"
    using program_works [OF Suc.prems(2) _ _ blank pr] m Suc.prems(3) by simp_all
  have keep: "mem w1 (?a + of_nat i) = mem w (?a + of_nat i)" if "i < 64" "i < 16 * m \<or> 16 * m + 16 \<le> i" for i
    using program_frame [OF pr, of "?a + of_nat i"] in_range_shift [of "16 * m" i ?a 16] that m
    by (auto simp del: of_nat_mult)
  have new: "mem w1 (?a + of_nat i) = record ! i" if "16 * m \<le> i" "i < 16 * m + 16" for i
  proof -
    have "mem w1 (record_unit t m + of_nat (i - 16 * m)) = ?u ! (i - 16 * m)"
      using arg_cong [OF unit, of "\<lambda>l. l ! (i - 16 * m)"] that by (simp del: of_nat_mult of_nat_diff)
    moreover have "record_unit t m + of_nat (i - 16 * m) = ?a + of_nat i"
      using that by (simp add: of_nat_diff)
    ultimately show ?thesis using that Suc.prems(3) m by simp
  qed
  have low: "\<forall>i < 16 * Suc m. mem w1 (?a + of_nat i) = record ! i"
  proof (intro allI impI)
    fix i assume "i < 16 * Suc m"
    then show "mem w1 (?a + of_nat i) = record ! i"
      using keep [of i] new [of i] Suc.prems(5) m by (cases "i < 16 * m") auto
  qed
  have high: "\<forall>i < 64. 16 * Suc m \<le> i \<longrightarrow> mem w1 (?a + of_nat i) = 0xFF"
    using keep Suc.prems(6) by simp
  have "boot_flash_program_body be ?a record [Suc m..<3]
      (ev\<lparr>ev_body_units_programmed := ev_body_units_programmed ev + 1\<rparr>) w1 = (res, ev', w')"
    using Suc.prems(1) pr live m by (simp add: upt_conv_Cons mult.commute)
  from Suc.hyps(1) [OF _ this live(2) Suc.prems(3) _ low high] Suc.hyps(2) m show ?case by simp
qed simp

lemma erase_phase_works:
  assumes "ready w1" "boot_flash_erase_phase be (Boot_Flash_RecordAddress t) w1 = (res2, w2)"
  shows "res2 = BOOT_FLASH_RESULT_OK \<and> ready w2
    \<and> (\<forall>i < 64. mem w2 (Boot_Flash_RecordAddress t + of_nat i) = 0xFF)"
proof -
  obtain ok wa where er: "the (be_erase_sector be) (Boot_Flash_RecordAddress t) w1 = (ok, wa)" by fastforce
  note live = erase_works [OF assms(1) er]
  obtain bok wb where v: "Boot_Flash_VerifyErasedRecord be (Boot_Flash_RecordAddress t) wa = (bok, wb)" by fastforce
  have "bok \<and> ready wb"
    using live v by (intro verify_range_works [where m = 4 and n = 64 and t = t])
      (auto simp: Boot_Flash_VerifyErasedRecord_def Let_def fold_clear)
  then show ?thesis using assms(2) live verify_erased(1) [OF v]
    by (simp add: boot_flash_erase_phase_def er v)
qed

lemma body_phase_works:
  assumes "ready w2" "length p = 64"
    and "boot_flash_body_phase be (Boot_Flash_RecordAddress t) p ev w2 = (res3, ev3, w3)"
    and "\<forall>i < 64. mem w2 (Boot_Flash_RecordAddress t + of_nat i) = 0xFF"
  shows "res3 = BOOT_FLASH_RESULT_OK \<and> ready w3
    \<and> (\<forall>i < 48. mem w3 (Boot_Flash_RecordAddress t + of_nat i) = p ! i)
    \<and> (\<forall>i < 64. 48 \<le> i \<longrightarrow> mem w3 (Boot_Flash_RecordAddress t + of_nat i) = 0xFF)"
proof -
  obtain pres pev wa where pb: "boot_flash_program_body be (Boot_Flash_RecordAddress t) p [0..<3] ev w2 = (pres, pev, wa)"
    by (metis prod.exhaust)
  have live: "pres = BOOT_FLASH_RESULT_OK \<and> ready wa
      \<and> (\<forall>i < 48. mem wa ((Boot_Flash_RecordAddress t) + of_nat i) = p ! i)
      \<and> (\<forall>i < 64. 48 \<le> i \<longrightarrow> mem wa ((Boot_Flash_RecordAddress t) + of_nat i) = 0xFF)"
    using assms(1,2,4) by (intro program_body_works [OF pb]) simp_all
  obtain bok wb where v: "Boot_Flash_VerifyRange be (Boot_Flash_RecordAddress t) p 48 wa = (bok, wb)" by fastforce
  have "bok \<and> ready wb" using live v by (intro verify_range_works [OF _ _ _ _ v, where m = 3]) simp_all
  then show ?thesis using assms(3) live verify_range(1) [OF v]
    by (simp add: boot_flash_body_phase_def pb v)
qed

lemma commit_phase_works:
  assumes "ready w3" "length p = 64"
    and "\<forall>i < 48. mem w3 (Boot_Flash_RecordAddress t + of_nat i) = p ! i"
    and "\<forall>i < 64. 48 \<le> i \<longrightarrow> mem w3 (Boot_Flash_RecordAddress t + of_nat i) = 0xFF"
    and "boot_flash_commit_phase be (Boot_Flash_RecordAddress t) p ev3 w3 = (res4, ev4, w4)"
  shows "res4 = BOOT_FLASH_RESULT_OK \<and> ready w4"
proof -
  let ?a = "Boot_Flash_RecordAddress t" and ?q = "Boot_Control_WriteU32Le p BOOT_CONTROL_COMMIT_OFFSET BOOT_CONTROL_COMMIT_MARKER"
  have mark: "the (Boot_Control_MarkRecordCommitted (Some p)) = ?q"
    by (simp add: Boot_Control_MarkRecordCommitted_def)
  have q: "length ?q = 64" "i < 48 \<Longrightarrow> ?q ! i = p ! i" for i
    using assms(2) by (simp_all add: byte_order BOOT_CONTROL_COMMIT_OFFSET_def)
  obtain ok wa where pr: "the (be_program_unit be) (record_unit t 3) (take 16 (drop 48 ?q)) w3 = (ok, wa)"
    by fastforce
  have blank: "\<forall>i < 16. mem w3 (record_unit t 3 + of_nat i) = 0xFF"
  proof (intro allI impI)
    fix i :: nat assume "i < 16"
    then have "mem w3 (?a + of_nat (48 + i)) = 0xFF" using assms(4) by (simp del: of_nat_add)
    then show "mem w3 (record_unit t 3 + of_nat i) = 0xFF" by (simp add: add.assoc)
  qed
  have live: "ok" "ready wa" and unit: "flash_bytes (mem wa) (record_unit t 3) 16 = take 16 (drop 48 ?q)"
    using program_works [OF _ _ _ blank pr] assms(1) q(1) by simp_all
  have "\<forall>i < 64. mem wa (?a + of_nat i) = ?q ! i"
  proof (intro allI impI)
    fix i :: nat assume i: "i < 64"
    show "mem wa (?a + of_nat i) = ?q ! i"
    proof (cases "i < 48")
      case True
      then show ?thesis
        using program_frame [OF pr, of "?a + of_nat i"] in_range_shift [of 48 i ?a 16] assms(3) q(2) by simp
    next
      case False
      then have "mem wa (record_unit t 3 + of_nat (i - 48)) = take 16 (drop 48 ?q) ! (i - 48)"
        using arg_cong [OF unit, of "\<lambda>l. l ! (i - 48)"] i by (simp del: of_nat_mult of_nat_diff)
      moreover have "record_unit t 3 + of_nat (i - 48) = ?a + of_nat i"
        using False by (simp add: of_nat_diff)
      ultimately show ?thesis using False i q(1) by simp
    qed
  qed
  moreover obtain bok wb where v: "Boot_Flash_VerifyRange be ?a ?q 64 wa = (bok, wb)" by fastforce
  ultimately have "bok \<and> ready wb"
    using live by (intro verify_range_works [OF _ _ _ _ v, where m = 4]) simp_all
  then show ?thesis using assms(5) pr live v by (simp add: boot_flash_commit_phase_def mark Let_def)
qed

lemma persist_works:
  assumes "Boot_Flash_PersistControl_body be st t ev0 r0 w = (res, ev', w')"
    and "Boot_Control_IsStateValid_body st" "length r0 = 64"
  shows "res = BOOT_FLASH_RESULT_OK"
proof -
  let ?p = "Boot_Control_PrepareRecord_body st r0" and ?a = "Boot_Flash_RecordAddress t"
  let ?ev = "ev0\<lparr>ev_record_address := ?a, ev_target_record := t\<rparr>"
  note p = prepared_record [OF assms(3), of st]
  obtain ok1 w1 where u: "the (be_unlock be) w = (ok1, w1)" by fastforce
  obtain res2 w2 where e: "boot_flash_erase_phase be ?a w1 = (res2, w2)" by fastforce
  obtain res3 ev3 w3 where b: "boot_flash_body_phase be ?a ?p ?ev w2 = (res3, ev3, w3)"
    by (metis prod.exhaust)
  obtain res4 ev4 w4 where c: "boot_flash_commit_phase be ?a ?p ev3 w3 = (res4, ev4, w4)"
    by (metis prod.exhaust)
  have r1: "ok1" "ready w1" using unlock_works [OF u] by simp_all
  note r2 = erase_phase_works [OF r1(2) e]
  have r3: "res3 = BOOT_FLASH_RESULT_OK \<and> ready w3
      \<and> (\<forall>i < 48. mem w3 (?a + of_nat i) = ?p ! i) \<and> (\<forall>i < 64. 48 \<le> i \<longrightarrow> mem w3 (?a + of_nat i) = 0xFF)"
    using body_phase_works [OF _ p(1) b] r2 by blast
  have r4: "res4 = BOOT_FLASH_RESULT_OK \<and> ready w4"
    using commit_phase_works [OF _ p(1) _ _ c] r3 by blast
  obtain lok wl where l: "the (be_lock be) w4 = (lok, wl)" by fastforce
  have "lok" using lock_works [OF _ l] r4 by simp
  then show ?thesis
    using assms(1) persist_run [OF assms(2) refl refl u e b c] r1 r2 r3 r4 l
    by (simp add: Boot_Flash_Finish_def)
qed

end

end
