(* ===== verification/BootFlashStm32.thy ===== *)
theory BootFlashStm32
  imports BootFlash
begin

text \<open>
  The flash driver of the board, \<open>src/Core/Src/boot_flash_stm32.c\<close>, over the ST HAL. The HAL
  calls and the contents of the flash array are a record of functions over a hardware state
  \<open>'h\<close>; \<open>hal_flash_documented\<close> names what the driver relies on of them. The theory shows that
  the driver keeps the contract of \<open>BootFlash\<close>, so the update of the boot-control record on
  this board is crash safe.
\<close>

section \<open>The HAL interface\<close>

datatype flash_bank = FLASH_BANK_1 | FLASH_BANK_2

record 'h hal_flash =
  HAL_FLASH_Unlock :: "'h \<Rightarrow> bool \<times> 'h"
  HAL_FLASH_Lock :: "'h \<Rightarrow> bool \<times> 'h"
  HAL_FLASHEx_Erase :: "flash_bank \<Rightarrow> u32 \<Rightarrow> 'h \<Rightarrow> bool \<times> u32 \<times> 'h"
  HAL_FLASH_Program :: "u32 \<Rightarrow> bytes \<Rightarrow> 'h \<Rightarrow> bool \<times> 'h"
  HAL_FLASHEx_ComputeCRC :: "flash_bank \<Rightarrow> u32 \<Rightarrow> u32 \<Rightarrow> 'h \<Rightarrow> bool \<times> 'h"
  flash_array :: "'h \<Rightarrow> flash"

definition bank_base_address :: "flash_bank \<Rightarrow> u32" where
  "bank_base_address b = (case b of FLASH_BANK_1 \<Rightarrow> 0x08000000 | FLASH_BANK_2 \<Rightarrow> 0x08100000)"

text \<open>
  Reference manual: an erase of one sector affects that sector of the bank only, programming a
  flash word affects its 16 bytes only, and the other calls do not alter the array.
\<close>

definition hal_flash_documented :: "'h hal_flash \<Rightarrow> bool" where
  "hal_flash_documented hal \<longleftrightarrow>
    (\<forall>h. flash_array hal (snd (HAL_FLASH_Unlock hal h)) = flash_array hal h)
    \<and> (\<forall>h. flash_array hal (snd (HAL_FLASH_Lock hal h)) = flash_array hal h)
    \<and> (\<forall>b s h x. \<not> in_range (bank_base_address b + s * 8192) 8192 x
        \<longrightarrow> flash_array hal (snd (snd (HAL_FLASHEx_Erase hal b s h))) x = flash_array hal h x)
    \<and> (\<forall>a d h x. \<not> in_range a 16 x
        \<longrightarrow> flash_array hal (snd (HAL_FLASH_Program hal a d h)) x = flash_array hal h x)
    \<and> (\<forall>b s e h. flash_array hal (snd (HAL_FLASHEx_ComputeCRC hal b s e h)) = flash_array hal h)"

section \<open>The driver\<close>

record 'h flash_driver =
  boot_flash_stm32_unlocked :: bool
  flash_hw :: 'h

definition Boot_Flash_Stm32Unlock :: "'h hal_flash \<Rightarrow> 'h flash_driver \<Rightarrow> bool \<times> 'h flash_driver" where
  "Boot_Flash_Stm32Unlock hal d = (case HAL_FLASH_Unlock hal (flash_hw d) of (status, h) \<Rightarrow>
     (status, d\<lparr>boot_flash_stm32_unlocked := status, flash_hw := h\<rparr>))"

definition Boot_Flash_Stm32Lock :: "'h hal_flash \<Rightarrow> 'h flash_driver \<Rightarrow> bool \<times> 'h flash_driver" where
  "Boot_Flash_Stm32Lock hal d = (case HAL_FLASH_Lock hal (flash_hw d) of (status, h) \<Rightarrow>
     (status, d\<lparr>boot_flash_stm32_unlocked := False, flash_hw := h\<rparr>))"

definition Boot_Flash_Stm32EraseSector :: "'h hal_flash \<Rightarrow> u32 \<Rightarrow> 'h flash_driver
    \<Rightarrow> bool \<times> 'h flash_driver" where
  "Boot_Flash_Stm32EraseSector hal sector_address d =
    (if sector_address < BOOT_SLOT_A_BASE_ADDRESS \<or> BOOT_FLASH_END_ADDRESS \<le> sector_address
        \<or> sector_address mod BOOT_FLASH_SECTOR_SIZE \<noteq> 0 then (False, d)
     else let (bank, bank_base) = (if sector_address < BOOT_SLOT_B_BASE_ADDRESS
                then (FLASH_BANK_1, BOOT_FLASH_BASE_ADDRESS)
                else (FLASH_BANK_2, BOOT_SLOT_B_BASE_ADDRESS));
              sector = (sector_address - bank_base) div BOOT_FLASH_SECTOR_SIZE
       in case HAL_FLASHEx_Erase hal bank sector (flash_hw d) of (status, sector_error, h) \<Rightarrow>
         (status \<and> sector_error = 0xFFFFFFFF, d\<lparr>flash_hw := h\<rparr>))"

definition Boot_Flash_Stm32ProgramUnit :: "'h hal_flash \<Rightarrow> u32 \<Rightarrow> bytes \<Rightarrow> 'h flash_driver
    \<Rightarrow> bool \<times> 'h flash_driver" where
  "Boot_Flash_Stm32ProgramUnit hal address data d =
    (if address < BOOT_SLOT_A_BASE_ADDRESS
        \<or> BOOT_FLASH_END_ADDRESS - BOOT_FLASH_PROGRAM_UNIT_SIZE < address
        \<or> address mod BOOT_FLASH_PROGRAM_UNIT_SIZE \<noteq> 0 then (False, d)
     else case HAL_FLASH_Program hal address (take 16 data) (flash_hw d) of (status, h) \<Rightarrow>
       (status, d\<lparr>flash_hw := h\<rparr>))"

definition Boot_Flash_Stm32CheckReadable :: "'h hal_flash \<Rightarrow> u32 \<Rightarrow> u32 \<Rightarrow> 'h flash_driver
    \<Rightarrow> bool \<times> 'h flash_driver" where
  "Boot_Flash_Stm32CheckReadable hal address len d =
    (let range_end = address + len - 1;
         crc_start = address AND NOT (BOOT_FLASH_PROGRAM_UNIT_SIZE - 1);
         crc_end = range_end OR (BOOT_FLASH_PROGRAM_UNIT_SIZE - 1)
     in if address < BOOT_SLOT_B_BASE_ADDRESS \<and> BOOT_SLOT_B_BASE_ADDRESS \<le> crc_end
        then (False, d)
        else
          let bank = (if address < BOOT_SLOT_B_BASE_ADDRESS then FLASH_BANK_1 else FLASH_BANK_2);
              (unlock_ok, lock_after_check, h1) =
                (if \<not> boot_flash_stm32_unlocked d
                 then (case HAL_FLASH_Unlock hal (flash_hw d) of (ok, h) \<Rightarrow> (ok, True, h))
                 else (True, False, flash_hw d))
          in if \<not> unlock_ok then (False, d\<lparr>flash_hw := h1\<rparr>)
             else case HAL_FLASHEx_ComputeCRC hal bank crc_start crc_end h1 of (crc_status, h2) \<Rightarrow>
               if lock_after_check then
                 (case HAL_FLASH_Lock hal h2 of (lock_status, h3) \<Rightarrow>
                   (lock_status \<and> crc_status, d\<lparr>flash_hw := h3\<rparr>))
               else (crc_status, d\<lparr>flash_hw := h2\<rparr>))"

text \<open>
  The cache line invalidation before the copy keeps the data cache coherent with the array; it
  has no counterpart here, where a read sees the array directly.
\<close>

definition Boot_Flash_Stm32Read :: "'h hal_flash \<Rightarrow> u32 \<Rightarrow> bytes \<Rightarrow> u32 \<Rightarrow> 'h flash_driver
    \<Rightarrow> bool \<times> bytes \<times> 'h flash_driver" where
  "Boot_Flash_Stm32Read hal address data len d =
    (if len = 0 \<or> address < BOOT_FLASH_BASE_ADDRESS \<or> BOOT_FLASH_END_ADDRESS < address
        \<or> BOOT_FLASH_END_ADDRESS - address < len then (False, data, d)
     else case Boot_Flash_Stm32CheckReadable hal address len d of (readable, d') \<Rightarrow>
       if \<not> readable then (False, data, d')
       else (True, flash_bytes (flash_array hal (flash_hw d')) address (unat len)
                   @ drop (unat len) data, d'))"

definition Boot_Flash_Stm32Init :: "'h hal_flash \<Rightarrow> 'h flash_driver Boot_FlashBackend option
    \<Rightarrow> 'h flash_driver \<Rightarrow> 'h flash_driver Boot_FlashBackend option \<times> 'h flash_driver" where
  "Boot_Flash_Stm32Init hal backend d = (case backend of
     None \<Rightarrow> (None, d)
   | Some be \<Rightarrow> (Some (be\<lparr>be_unlock := Some (Boot_Flash_Stm32Unlock hal),
         be_lock := Some (Boot_Flash_Stm32Lock hal),
         be_erase_sector := Some (Boot_Flash_Stm32EraseSector hal),
         be_program_unit := Some (Boot_Flash_Stm32ProgramUnit hal),
         be_read := Some (Boot_Flash_Stm32Read hal)\<rparr>),
       d\<lparr>boot_flash_stm32_unlocked := False\<rparr>))"

definition stm32_backend :: "'h hal_flash \<Rightarrow> 'h flash_driver Boot_FlashBackend" where
  "stm32_backend hal = the (fst (Boot_Flash_Stm32Init hal
     (Some \<lparr>be_unlock = None, be_lock = None, be_erase_sector = None, be_program_unit = None,
        be_read = None\<rparr>) undefined))"

abbreviation stm32_flash :: "'h hal_flash \<Rightarrow> 'h flash_driver \<Rightarrow> flash" where
  "stm32_flash hal d \<equiv> flash_array hal (flash_hw d)"

lemma stm32_backend_ops [simp]:
  "be_unlock (stm32_backend hal) = Some (Boot_Flash_Stm32Unlock hal)"
  "be_lock (stm32_backend hal) = Some (Boot_Flash_Stm32Lock hal)"
  "be_erase_sector (stm32_backend hal) = Some (Boot_Flash_Stm32EraseSector hal)"
  "be_program_unit (stm32_backend hal) = Some (Boot_Flash_Stm32ProgramUnit hal)"
  "be_read (stm32_backend hal) = Some (Boot_Flash_Stm32Read hal)"
  by (simp_all add: stm32_backend_def Boot_Flash_Stm32Init_def)

section \<open>The driver keeps the contract\<close>

lemma sector_of_address:
  assumes "s mod 8192 = 0" "b mod 8192 = 0"
  shows "b + (s - b) div 8192 * 8192 = (s :: u32)"
proof -
  have "s = s div 8192 * 8192" "b = b div 8192 * 8192"
    using div_mult_mod_eq [of s 8192] div_mult_mod_eq [of b 8192] assms by simp_all
  then have "s - b = push_bit 13 (s div 8192 - b div 8192)"
    by (simp add: push_bit_eq_mult left_diff_distrib)
  then have "take_bit 13 (s - b) = 0" by (simp add: take_bit_push_bit)
  then have "(s - b) mod 8192 = 0" by (simp add: take_bit_eq_mod)
  then have "(s - b) div 8192 * 8192 = s - b" using div_mult_mod_eq [of "s - b" 8192] by simp
  then show ?thesis by simp
qed

lemma stm32_check_frame:
  assumes "hal_flash_documented hal" "Boot_Flash_Stm32CheckReadable hal a n d = (ok, d')"
  shows "stm32_flash hal d' = stm32_flash hal d"
proof -
  have h: "flash_array hal h' = flash_array hal h" if "HAL_FLASH_Unlock hal h = (ok, h')" for h ok h'
    using assms(1) that unfolding hal_flash_documented_def by (metis snd_conv)
  have l: "flash_array hal h' = flash_array hal h" if "HAL_FLASH_Lock hal h = (ok, h')" for h ok h'
    using assms(1) that unfolding hal_flash_documented_def by (metis snd_conv)
  have c: "flash_array hal h' = flash_array hal h" if "HAL_FLASHEx_ComputeCRC hal b s e h = (ok, h')"
    for b s e h ok h'
    using assms(1) that unfolding hal_flash_documented_def by (metis snd_conv)
  show ?thesis using assms(2)
    by (auto simp: Boot_Flash_Stm32CheckReadable_def Let_def h l c split: if_splits prod.splits)
qed


lemma stm32_erase_frame:
  assumes "hal_flash_documented hal" "Boot_Flash_Stm32EraseSector hal a d = (ok, d')"
    and "\<not> in_range a 8192 x"
  shows "stm32_flash hal d' x = stm32_flash hal d x"
proof -
  have e: "flash_array hal h' x = flash_array hal h x"
    if "HAL_FLASHEx_Erase hal b s h = (ok, err, h')" "bank_base_address b + s * 8192 = a" for b s h ok err h'
    using assms(1,3) that unfolding hal_flash_documented_def by (metis snd_conv)
  have base: "(0x08000000 :: u32) mod 8192 = 0" "(0x08100000 :: u32) mod 8192 = 0" by simp_all
  show ?thesis using assms(2) sector_of_address [OF _ base(1), of a] sector_of_address [OF _ base(2), of a]
    by (auto simp: Boot_Flash_Stm32EraseSector_def Let_def boot_map bank_base_address_def e
        split: if_splits prod.splits)
qed

lemma stm32_program_frame:
  assumes "hal_flash_documented hal" "Boot_Flash_Stm32ProgramUnit hal a u d = (ok, d')"
    and "\<not> in_range a 16 x"
  shows "stm32_flash hal d' x = stm32_flash hal d x"
proof -
  have "flash_array hal h' x = flash_array hal h x" if "HAL_FLASH_Program hal a v h = (ok, h')" for v h ok h'
    using assms(1,3) that unfolding hal_flash_documented_def by (metis snd_conv)
  then show ?thesis using assms(2)
    by (auto simp: Boot_Flash_Stm32ProgramUnit_def split: if_splits prod.splits)
qed

lemma stm32_read:
  assumes "hal_flash_documented hal" "Boot_Flash_Stm32Read hal a buf n d = (ok, buf', d')"
  shows "stm32_flash hal d' = stm32_flash hal d"
    "ok \<Longrightarrow> length buf = unat n \<Longrightarrow> buf' = flash_bytes (stm32_flash hal d) a (unat n)"
  using assms(2) stm32_check_frame [OF assms(1)]
  by (auto simp: Boot_Flash_Stm32Read_def split: if_splits prod.splits)

lemma stm32_lock_frame:
  assumes "hal_flash_documented hal"
  shows "Boot_Flash_Stm32Unlock hal d = (ok, d') \<Longrightarrow> stm32_flash hal d' = stm32_flash hal d"
    "Boot_Flash_Stm32Lock hal d = (ok, d') \<Longrightarrow> stm32_flash hal d' = stm32_flash hal d"
  using assms unfolding hal_flash_documented_def Boot_Flash_Stm32Unlock_def Boot_Flash_Stm32Lock_def
  by (auto split: prod.splits) (metis snd_conv)+

lemma stm32_flash_backend:
  assumes "hal_flash_documented hal"
  shows "flash_backend (stm32_backend hal) (stm32_flash hal)"
  by unfold_locales (auto dest: stm32_lock_frame [OF assms] stm32_erase_frame [OF assms]
      stm32_program_frame [OF assms] stm32_read [OF assms])

locale documented_hal =
  fixes hal :: "'h hal_flash"
  assumes documented: "hal_flash_documented hal"

sublocale documented_hal \<subseteq> flash_backend "stm32_backend hal" "stm32_flash hal"
  by (rule stm32_flash_backend [OF documented])

text \<open>
  Hardware that works: after an unlock, erasing gives a blank sector, programming a blank unit
  stores the data, and reads are accepted.
\<close>

definition hal_flash_working :: "'h hal_flash \<Rightarrow> ('h \<Rightarrow> bool) \<Rightarrow> bool" where
  "hal_flash_working hal up \<longleftrightarrow>
    (\<forall>h ok h'. HAL_FLASH_Unlock hal h = (ok, h') \<longrightarrow> ok \<and> up h')
    \<and> (\<forall>h ok h'. up h \<and> HAL_FLASH_Lock hal h = (ok, h') \<longrightarrow> ok)
    \<and> (\<forall>h b s ok err h'. up h \<and> HAL_FLASHEx_Erase hal b s h = (ok, err, h') \<longrightarrow>
        ok \<and> err = 0xFFFFFFFF \<and> up h'
        \<and> (\<forall>x. in_range (bank_base_address b + s * 8192) 8192 x \<longrightarrow> flash_array hal h' x = 0xFF))
    \<and> (\<forall>h a d ok h'. up h \<and> length d = 16 \<and> flash_bytes (flash_array hal h) a 16 = replicate 16 0xFF
        \<and> HAL_FLASH_Program hal a d h = (ok, h') \<longrightarrow>
        ok \<and> up h' \<and> flash_bytes (flash_array hal h') a 16 = d)
    \<and> (\<forall>h b s e ok h'. up h \<and> HAL_FLASHEx_ComputeCRC hal b s e h = (ok, h') \<longrightarrow> ok \<and> up h')"

abbreviation stm32_ready :: "('h \<Rightarrow> bool) \<Rightarrow> 'h flash_driver \<Rightarrow> bool" where
  "stm32_ready up d \<equiv> boot_flash_stm32_unlocked d \<and> up (flash_hw d)"

lemma record_address_cases:
  "Boot_Flash_RecordAddress t = 0x081E0000 \<or> Boot_Flash_RecordAddress t = 0x081E2000"
  by (simp add: Boot_Flash_RecordAddress_def boot_map)

lemma record_unit_cases:
  assumes "k < 4"
  shows "record_unit t k \<in> {0x081E0000, 0x081E0010, 0x081E0020, 0x081E0030,
    0x081E2000, 0x081E2010, 0x081E2020, 0x081E2030}"
proof -
  consider "k = 0" | "k = 1" | "k = 2" | "k = 3" using assms by fastforce
  then show ?thesis using record_address_cases [of t] by cases auto
qed

locale working_hal = documented_hal +
  fixes up :: "'a \<Rightarrow> bool"
  assumes working: "hal_flash_working hal up"
begin

lemma hal_works:
  "HAL_FLASH_Unlock hal h = (ok, h') \<Longrightarrow> ok \<and> up h'"
  "up h \<Longrightarrow> HAL_FLASH_Lock hal h = (ok, h') \<Longrightarrow> ok"
  "up h \<Longrightarrow> HAL_FLASHEx_Erase hal b s h = (ok, err, h') \<Longrightarrow> ok \<and> err = 0xFFFFFFFF \<and> up h'
    \<and> (\<forall>x. in_range (bank_base_address b + s * 8192) 8192 x \<longrightarrow> flash_array hal h' x = 0xFF)"
  "up h \<Longrightarrow> length d = 16 \<Longrightarrow> flash_bytes (flash_array hal h) a 16 = replicate 16 0xFF
    \<Longrightarrow> HAL_FLASH_Program hal a d h = (ok, h')
    \<Longrightarrow> ok \<and> up h' \<and> flash_bytes (flash_array hal h') a 16 = d"
  "up h \<Longrightarrow> HAL_FLASHEx_ComputeCRC hal b s e h = (ok, h') \<Longrightarrow> ok \<and> up h'"
proof -
  note w1 = working [unfolded hal_flash_working_def, THEN conjunct1]
  note r1 = working [unfolded hal_flash_working_def, THEN conjunct2]
  note w2 = r1 [THEN conjunct1] and r2 = r1 [THEN conjunct2]
  note w3 = r2 [THEN conjunct1] and r3 = r2 [THEN conjunct2]
  note w4 = r3 [THEN conjunct1] and w5 = r3 [THEN conjunct2]
  show "HAL_FLASH_Unlock hal h = (ok, h') \<Longrightarrow> ok \<and> up h'" using w1 by blast
  show "up h \<Longrightarrow> HAL_FLASH_Lock hal h = (ok, h') \<Longrightarrow> ok" using w2 by blast
  show "up h \<Longrightarrow> HAL_FLASHEx_Erase hal b s h = (ok, err, h') \<Longrightarrow> ok \<and> err = 0xFFFFFFFF \<and> up h'
    \<and> (\<forall>x. in_range (bank_base_address b + s * 8192) 8192 x \<longrightarrow> flash_array hal h' x = 0xFF)"
    using w3 by blast
  show "up h \<Longrightarrow> length d = 16 \<Longrightarrow> flash_bytes (flash_array hal h) a 16 = replicate 16 0xFF
    \<Longrightarrow> HAL_FLASH_Program hal a d h = (ok, h')
    \<Longrightarrow> ok \<and> up h' \<and> flash_bytes (flash_array hal h') a 16 = d" using w4 by blast
  show "up h \<Longrightarrow> HAL_FLASHEx_ComputeCRC hal b s e h = (ok, h') \<Longrightarrow> ok \<and> up h'" using w5 by blast
qed

lemma stm32_erase_works:
  assumes "stm32_ready up d"
    and "Boot_Flash_Stm32EraseSector hal (Boot_Flash_RecordAddress t) d = (ok, d')"
  shows "ok \<and> stm32_ready up d'
    \<and> (\<forall>x. in_range (Boot_Flash_RecordAddress t) 8192 x \<longrightarrow> stm32_flash hal d' x = 0xFF)"
proof -
  define s where "s = (Boot_Flash_RecordAddress t - BOOT_SLOT_B_BASE_ADDRESS) div BOOT_FLASH_SECTOR_SIZE"
  obtain hok err h' where er: "HAL_FLASHEx_Erase hal FLASH_BANK_2 s (flash_hw d) = (hok, err, h')"
    by (metis prod.exhaust)
  have "bank_base_address FLASH_BANK_2 + s * 8192 = Boot_Flash_RecordAddress t"
    using record_address_cases [of t] by (auto simp: s_def bank_base_address_def boot_map)
  with hal_works(3) [OF _ er] assms(1) have works: "hok \<and> err = 0xFFFFFFFF \<and> up h'
      \<and> (\<forall>x. in_range (Boot_Flash_RecordAddress t) 8192 x \<longrightarrow> flash_array hal h' x = 0xFF)"
    by simp
  have "(ok, d') = (hok \<and> err = 0xFFFFFFFF, d\<lparr>flash_hw := h'\<rparr>)"
    using assms(2) er record_address_cases [of t]
    by (auto simp: Boot_Flash_Stm32EraseSector_def Let_def boot_map s_def)
  then show ?thesis using works assms(1) by simp
qed

lemma stm32_program_works:
  assumes "stm32_ready up d" "k < 4" "length u = 16"
    and "\<forall>i < 16. stm32_flash hal d (record_unit t k + of_nat i) = 0xFF"
    and "Boot_Flash_Stm32ProgramUnit hal (record_unit t k) u d = (ok, d')"
  shows "ok \<and> stm32_ready up d' \<and> flash_bytes (stm32_flash hal d') (record_unit t k) 16 = u"
proof -
  have "flash_bytes (stm32_flash hal d) (record_unit t k) 16 = replicate 16 0xFF"
    using assms(4) by (intro flash_bytes_eqI) simp_all
  note works = hal_works(4) [OF _ assms(3) this]
  have "\<not> (record_unit t k < BOOT_SLOT_A_BASE_ADDRESS
      \<or> BOOT_FLASH_END_ADDRESS - BOOT_FLASH_PROGRAM_UNIT_SIZE < record_unit t k
      \<or> record_unit t k mod BOOT_FLASH_PROGRAM_UNIT_SIZE \<noteq> 0)"
    using record_unit_cases [OF assms(2), of t] by (elim insertE) (simp_all add: boot_map)
  then show ?thesis using assms(1,3,5) works
    by (auto simp: Boot_Flash_Stm32ProgramUnit_def split: prod.splits)
qed

lemma stm32_read_works:
  assumes "stm32_ready up d" "k < 4" "Boot_Flash_Stm32Read hal (record_unit t k) buf 16 d = (ok, buf', d')"
  shows "ok \<and> stm32_ready up d'"
proof -
  have range: "\<not> ((16::u32) = 0 \<or> record_unit t k < BOOT_FLASH_BASE_ADDRESS
      \<or> BOOT_FLASH_END_ADDRESS < record_unit t k
      \<or> BOOT_FLASH_END_ADDRESS - record_unit t k < 16)"
    and bank: "\<not> record_unit t k < BOOT_SLOT_B_BASE_ADDRESS"
    using record_unit_cases [OF assms(2), of t] by (elim insertE; simp add: boot_map)+
  obtain rok dc where "Boot_Flash_Stm32CheckReadable hal (record_unit t k) 16 d = (rok, dc)" by fastforce
  moreover from this have "rok \<and> stm32_ready up dc"
    using assms(1) bank by (auto simp: Boot_Flash_Stm32CheckReadable_def Let_def dest: hal_works(5)
        split: prod.splits if_splits)
  ultimately show ?thesis using assms(3) range by (simp add: Boot_Flash_Stm32Read_def)
qed

end

lemma stm32_working_flash_backend:
  assumes "hal_flash_documented hal" "hal_flash_working hal up"
  shows "working_flash_backend (stm32_backend hal) (stm32_flash hal) (stm32_ready up)"
proof (intro working_flash_backend.intro working_flash_backend_axioms.intro stm32_flash_backend [OF assms(1)])
  have wh: "working_hal hal up" using assms by unfold_locales
  show "stm32_ready up d \<Longrightarrow> the (be_lock (stm32_backend hal)) d = (ok, d') \<Longrightarrow> ok" for d ok d'
    by (auto simp: Boot_Flash_Stm32Lock_def dest: working_hal.hal_works [OF wh] split: prod.splits)
  show "the (be_unlock (stm32_backend hal)) d = (ok, d') \<Longrightarrow> ok \<and> stm32_ready up d'" for d ok d'
    by (auto simp: Boot_Flash_Stm32Unlock_def dest: working_hal.hal_works [OF wh] split: prod.splits)
  show "stm32_ready up d \<Longrightarrow>
      the (be_erase_sector (stm32_backend hal)) (Boot_Flash_RecordAddress t) d = (ok, d') \<Longrightarrow>
      ok \<and> stm32_ready up d' \<and> (\<forall>x. in_range (Boot_Flash_RecordAddress t) 8192 x \<longrightarrow>
        stm32_flash hal d' x = 0xFF)" for d t ok d'
    using working_hal.stm32_erase_works [OF wh, of d t ok d'] by simp
  show "stm32_ready up d \<Longrightarrow> k < 4 \<Longrightarrow> length u = 16
      \<Longrightarrow> \<forall>i < 16. stm32_flash hal d (record_unit t k + of_nat i) = 0xFF
      \<Longrightarrow> the (be_program_unit (stm32_backend hal)) (record_unit t k) u d = (ok, d')
      \<Longrightarrow> ok \<and> stm32_ready up d' \<and> flash_bytes (stm32_flash hal d') (record_unit t k) 16 = u"
    for d k u t ok d'
    using working_hal.stm32_program_works [OF wh, of d k u t ok d'] by simp
  show "stm32_ready up d \<Longrightarrow> k < 4
      \<Longrightarrow> the (be_read (stm32_backend hal)) (record_unit t k) buf 16 d = (ok, buf', d')
      \<Longrightarrow> ok \<and> stm32_ready up d'" for d k t buf ok buf' d'
    using working_hal.stm32_read_works [OF wh, of d k t buf ok buf' d'] by simp
qed

sublocale working_hal \<subseteq> working_flash_backend "stm32_backend hal" "stm32_flash hal" "stm32_ready up"
  by (rule stm32_working_flash_backend [OF documented working])

section \<open>An array that behaves as documented\<close>

record sim_flash =
  sim_unlocked :: bool
  sim_array :: flash

definition sim_hal :: "sim_flash hal_flash" where
  "sim_hal = \<lparr>HAL_FLASH_Unlock = (\<lambda>h. (True, h\<lparr>sim_unlocked := True\<rparr>)),
     HAL_FLASH_Lock = (\<lambda>h. (True, h\<lparr>sim_unlocked := False\<rparr>)),
     HAL_FLASHEx_Erase = (\<lambda>b s h. if sim_unlocked h
       then (True, 0xFFFFFFFF, h\<lparr>sim_array := (\<lambda>x. if in_range (bank_base_address b + s * 8192) 8192 x
              then 0xFF else sim_array h x)\<rparr>)
       else (False, 0xFFFFFFFF, h)),
     HAL_FLASH_Program = (\<lambda>a d h. if sim_unlocked h
       then (True, h\<lparr>sim_array := (\<lambda>x. if in_range a 16 x
              then sim_array h x AND d ! unat (x - a) else sim_array h x)\<rparr>)
       else (False, h)),
     HAL_FLASHEx_ComputeCRC = (\<lambda>b s e h. (sim_unlocked h, h)),
     flash_array = sim_array\<rparr>"

lemma sim_documented: "hal_flash_documented sim_hal"
  by (auto simp: hal_flash_documented_def sim_hal_def)

lemma and_FF: "(0xFF :: u8) AND b = b"
proof -
  have "(0xFF :: u8) = - 1" by simp
  then show ?thesis by (simp only: and.left_neutral)
qed

lemma sim_working: "hal_flash_working sim_hal sim_unlocked"
proof -
  have "flash_bytes (\<lambda>x. if in_range a 16 x then m x AND d ! unat (x - a) else m x) a 16 = d"
    if "flash_bytes m a 16 = replicate 16 0xFF" "length d = 16" for m :: flash and a d
  proof (rule flash_bytes_eqI [OF that(2)])
    fix i :: nat assume i: "i < 16"
    then have "m (a + of_nat i) = 0xFF" using arg_cong [OF that(1), of "\<lambda>l. l ! i"] by simp
    then show "(if in_range a 16 (a + of_nat i) then m (a + of_nat i) AND d ! unat (a + of_nat i - a)
        else m (a + of_nat i)) = d ! i" using i by (simp add: and_FF unat_of_nat)
  qed
  then show ?thesis by (simp add: hal_flash_working_def sim_hal_def)
qed



section \<open>Properties\<close>

text \<open>What the boot loader finds in the two sectors.\<close>

definition boot_load_flash :: "flash \<Rightarrow> Boot_ControlResult \<times> Boot_ControlState option \<times> u8 option" where
  "boot_load_flash m = Boot_Control_Load (Some (flash_bytes m BOOT_CONTROL_RECORD_0_ADDRESS 64))
     (Some (flash_bytes m BOOT_CONTROL_RECORD_1_ADDRESS 64)) (Some boot_state_zero) (Some 0)"

definition boot_copy_holds :: "flash \<Rightarrow> u8 \<Rightarrow> Boot_ControlState \<Rightarrow> bool" where
  "boot_copy_holds m t st \<longleftrightarrow> Boot_Control_DecodeRecord
     (Some (flash_bytes m (Boot_Flash_RecordAddress t) 64)) (Some boot_state_zero) = (True, Some st)"


lemma boot_load_flash_new:
  assumes "boot_copy_holds m t st" "t \<le> 1" "boot_copy_holds m (1 - t) st'"
    and "Boot_Control_IsGenerationNewer (generation st') (generation st)"
  shows "boot_load_flash m = (BOOT_CONTROL_RESULT_OK, Some st', Some (1 - t))"
proof -
  have "t = 0 \<or> t = 1" using assms(2) by (simp add: le_less word_less_1)
  then show ?thesis
    using assms(1,3) boot_load_body_newer [OF _ _ assms(4)]
    by (auto simp: boot_load_flash_def boot_copy_holds_def Boot_Flash_RecordAddress_def)
qed

lemma boot_record_sectors_apart:
  assumes "t \<le> 1" "i < 64"
  shows "\<not> in_range (Boot_Flash_RecordAddress (1 - t)) 8192 (Boot_Flash_RecordAddress t + of_nat i)"
proof -
  have "t = 0 \<or> t = 1" using assms(1) by (simp add: le_less word_less_1)
  then show ?thesis
    using in_range_shift [of 8192 i "0x081E0000" 8192] in_range_shift [of 0 "8192 + i" "0x081E0000" 8192] assms(2)
    by (auto simp: Boot_Flash_RecordAddress_def boot_map)
qed


lemma one_minus_le: "(t :: u8) \<le> 1 \<Longrightarrow> 1 - t \<le> 1"
  by (auto simp: le_less word_less_1)



text \<open>
  C11. The update goes through when the flash works: every step of the sequence succeeds, the
  call reports success, and the next boot finds the new state in the copy that was written.
\<close>

theorem boot_update_succeeds:
  assumes "hal_flash_documented hal" "hal_flash_working hal up"
    and "boot_copy_holds (stm32_flash hal d) active st" "active \<le> 1"
    and "Boot_Control_IsStateValid_body st'"
    and "Boot_Control_IsGenerationNewer (generation st') (generation st)" "length r0 = 64"
  shows "\<exists>ev d'. Boot_Flash_PersistControl (Some (stm32_backend hal)) (Some st') (1 - active) (Some ev0) r0 d
      = (BOOT_FLASH_RESULT_OK, Some ev, d')
    \<and> boot_load_flash (stm32_flash hal d') = (BOOT_CONTROL_RESULT_OK, Some st', Some (1 - active))"
proof -
  let ?ev0 = "flash_evidence_zero\<lparr>ev_target_record := 0xFF\<rparr>"
  obtain res ev d' where body: "Boot_Flash_PersistControl_body (stm32_backend hal) st' (1 - active)
      ?ev0 r0 d = (res, ev, d')" by (metis prod.exhaust)
  have "res = BOOT_FLASH_RESULT_OK"
    by (rule working_flash_backend.persist_works [OF stm32_working_flash_backend [OF assms(1,2)] body
          assms(5,7)])
  moreover have "Boot_Flash_PersistControl (Some (stm32_backend hal)) (Some st') (1 - active) (Some ev0) r0 d
      = (res, Some ev, d')"
    using body one_minus_le [OF assms(4)] by (auto simp: Boot_Flash_PersistControl_def)
  moreover have "boot_load_flash (stm32_flash hal d')
      = (BOOT_CONTROL_RESULT_OK, Some st', Some (1 - active))"
  proof -
    note out = flash_backend.persist_outcome [OF stm32_flash_backend [OF assms(1)] body assms(5,7)]
    have units: "ev_body_units_programmed ?ev0 = 0" by (simp add: flash_evidence_zero_def)
    have "flash_bytes (stm32_flash hal d') (Boot_Flash_RecordAddress active) 64
        = flash_bytes (stm32_flash hal d) (Boot_Flash_RecordAddress active) 64"
      by (rule flash_bytes_cong) (rule out(1) [OF units boot_record_sectors_apart [OF assms(4)]])
    then have "boot_copy_holds (stm32_flash hal d') active st"
      using assms(3) by (simp add: boot_copy_holds_def)
    moreover have "boot_copy_holds (stm32_flash hal d') (1 - active) st'"
      using out(2) [OF units \<open>res = BOOT_FLASH_RESULT_OK\<close>]
      by (simp add: boot_copy_holds_def boot_decode_committed [OF assms(7,5)])
    ultimately show ?thesis by (rule boot_load_flash_new [OF _ assms(4) _ assms(6)])
  qed
  ultimately show ?thesis by blast
qed

text \<open>A device whose first copy holds the demonstration state and whose other flash is blank.\<close>

definition demo_flash :: "sim_flash flash_driver" where
  "demo_flash = \<lparr>boot_flash_stm32_unlocked = False, flash_hw = \<lparr>sim_unlocked = False,
     sim_array = (\<lambda>x. if in_range BOOT_CONTROL_RECORD_0_ADDRESS 64 x
       then boot_record_of demo_boot_state (replicate 64 0) ! unat (x - BOOT_CONTROL_RECORD_0_ADDRESS)
       else 0xFF)\<rparr>\<rparr>"

definition demo_boot_next :: Boot_ControlState where
  "demo_boot_next = demo_boot_state\<lparr>attempts_remaining := 2, generation := 8\<rparr>"

lemma demo_flash_holds: "boot_copy_holds (stm32_flash sim_hal demo_flash) 0 demo_boot_state"
proof -
  have len: "length (replicate 64 0 :: bytes) = 64" by simp
  have "flash_bytes (stm32_flash sim_hal demo_flash) BOOT_CONTROL_RECORD_0_ADDRESS 64
      = boot_record_of demo_boot_state (replicate 64 0)"
    using prepared_record(1) [OF len, of demo_boot_state]
    by (intro flash_bytes_eqI) (simp_all add: sim_hal_def demo_flash_def unat_of_nat byte_order)
  then show ?thesis using boot_decode_committed [OF len demo_boot_state_valid]
    by (simp add: boot_copy_holds_def Boot_Flash_RecordAddress_def)
qed

lemma demo_boot_next_valid: "Boot_Control_IsStateValid_body demo_boot_next"
  "Boot_Control_IsGenerationNewer (generation demo_boot_next) (generation demo_boot_state)"
  by (simp_all add: demo_boot_next_def demo_boot_state_def Boot_Control_IsStateValid_body_def
      Boot_Control_IsSlot_def BOOT_CONTROL_MAX_PENDING_ATTEMPTS_def generation_newer_nat)

theorem boot_update_succeeds_witness:
  "\<exists>ev d'. Boot_Flash_PersistControl (Some (stm32_backend sim_hal)) (Some demo_boot_next) 1
      (Some flash_evidence_zero) (replicate 64 0) demo_flash = (BOOT_FLASH_RESULT_OK, Some ev, d')
    \<and> boot_load_flash (stm32_flash sim_hal d') = (BOOT_CONTROL_RESULT_OK, Some demo_boot_next, Some 1)"
  using boot_update_succeeds [OF sim_documented sim_working demo_flash_holds _ demo_boot_next_valid,
      of "replicate 64 0" flash_evidence_zero] by simp



end
