(* ===== verification/BootImage.thy ===== *)
theory BootImage
  imports BootMap
begin

text \<open>
  Checking an application image before it is started, \<open>src/Core/Src/boot_image.c\<close>, and the
  preparation of the jump to it, \<open>src/Core/Src/boot_jump.c\<close>. The verifier's reader and its two
  cryptographic checks are functions over a state \<open>'w\<close>; what SHA-256 and the signature scheme
  guarantee is not part of the model, only that an image is accepted when both were asked
  about exactly the right bytes and agreed.
\<close>

section \<open>Data\<close>

definition BOOT_IMAGE_MAGIC :: u32 where "BOOT_IMAGE_MAGIC = 0x31474D49"
definition BOOT_IMAGE_FORMAT_VERSION :: u16 where "BOOT_IMAGE_FORMAT_VERSION = 1"
definition BOOT_IMAGE_DIGEST_SIZE :: nat where "BOOT_IMAGE_DIGEST_SIZE = 32"
definition BOOT_IMAGE_SIGNATURE_SIZE :: nat where "BOOT_IMAGE_SIGNATURE_SIZE = 64"
definition BOOT_IMAGE_SIGNED_REGION_SIZE :: u32 where "BOOT_IMAGE_SIGNED_REGION_SIZE = 64"
definition BOOT_IMAGE_OFFSET_DIGEST :: nat where "BOOT_IMAGE_OFFSET_DIGEST = 32"
definition BOOT_IMAGE_OFFSET_SIGNATURE :: nat where "BOOT_IMAGE_OFFSET_SIGNATURE = 64"

lemmas boot_image_consts = BOOT_IMAGE_MAGIC_def BOOT_IMAGE_FORMAT_VERSION_def
  BOOT_IMAGE_DIGEST_SIZE_def BOOT_IMAGE_SIGNATURE_SIZE_def BOOT_IMAGE_SIGNED_REGION_SIZE_def
  BOOT_IMAGE_OFFSET_DIGEST_def BOOT_IMAGE_OFFSET_SIGNATURE_def

datatype Boot_ImageResult = BOOT_IMAGE_RESULT_OK | BOOT_IMAGE_RESULT_INVALID_ARGUMENT
  | BOOT_IMAGE_RESULT_READ_FAILED | BOOT_IMAGE_RESULT_BAD_MAGIC | BOOT_IMAGE_RESULT_BAD_FORMAT
  | BOOT_IMAGE_RESULT_BAD_HEADER | BOOT_IMAGE_RESULT_BAD_FLAGS
  | BOOT_IMAGE_RESULT_SIZE_OUT_OF_RANGE | BOOT_IMAGE_RESULT_VECTOR_ADDRESS
  | BOOT_IMAGE_RESULT_STACK_POINTER | BOOT_IMAGE_RESULT_ENTRY_ADDRESS
  | BOOT_IMAGE_RESULT_SECURITY_ROLLBACK | BOOT_IMAGE_RESULT_SIGNATURE_INVALID
  | BOOT_IMAGE_RESULT_DIGEST_INVALID

record Boot_ImageSlot =
  base_address :: u32
  region_size :: u32

record Boot_MemoryRegion =
  start_address :: u32
  end_address :: u32

text \<open>
  The reader fills a buffer of the given length; the checks see the address range of the image
  or the signed bytes. The array of RAM regions is a list, its length field is kept as in the
  code.
\<close>

record 'w Boot_ImageVerifier =
  iv_read :: "(u32 \<Rightarrow> bytes \<Rightarrow> u32 \<Rightarrow> 'w \<Rightarrow> bool \<times> bytes \<times> 'w) option"
  iv_verify_digest :: "(u32 \<Rightarrow> u32 \<Rightarrow> bytes \<Rightarrow> 'w \<Rightarrow> bool \<times> 'w) option"
  iv_verify_signature :: "(bytes \<Rightarrow> u32 \<Rightarrow> bytes \<Rightarrow> 'w \<Rightarrow> bool \<times> 'w) option"
  ram_regions :: "Boot_MemoryRegion list option"
  ram_region_count :: u32
  iv_minimum_security_counter :: u32

record Boot_ImageInfo =
  image_address :: u32
  image_size :: u32
  vector_address :: u32
  entry_address :: u32
  initial_stack_pointer :: u32
  security_counter :: u32
  build_version :: u32

definition boot_image_info_zero :: Boot_ImageInfo where
  "boot_image_info_zero = \<lparr>image_address = 0, image_size = 0, vector_address = 0,
     entry_address = 0, initial_stack_pointer = 0, security_counter = 0, build_version = 0\<rparr>"

section \<open>Validation\<close>

definition Boot_Image_ReadU16Le :: "bytes \<Rightarrow> nat \<Rightarrow> u16" where
  "Boot_Image_ReadU16Le d p = ucast (d ! p) OR push_bit 8 (ucast (d ! (p + 1)))"

definition Boot_Image_ReadU32Le :: "bytes \<Rightarrow> nat \<Rightarrow> u32" where
  "Boot_Image_ReadU32Le d p = ucast (d ! p) OR push_bit 8 (ucast (d ! (p + 1)))
     OR push_bit 16 (ucast (d ! (p + 2))) OR push_bit 24 (ucast (d ! (p + 3)))"

definition Boot_Image_IsRangeValid :: "u32 \<Rightarrow> u32 \<Rightarrow> u32 \<Rightarrow> u32 \<Rightarrow> bool" where
  "Boot_Image_IsRangeValid start len region_start rsize =
    (if len = 0 \<or> start < region_start then False
     else let offset = start - region_start
       in offset \<le> rsize \<and> len \<le> rsize - offset)"

text \<open>The loop over the RAM regions, with its early success.\<close>

fun boot_image_in_ram :: "u32 \<Rightarrow> Boot_MemoryRegion list \<Rightarrow> bool" where
  "boot_image_in_ram sp [] = False"
| "boot_image_in_ram sp (region # regions) =
    (if start_address region < end_address region \<and> start_address region < sp
        \<and> sp \<le> end_address region then True
     else boot_image_in_ram sp regions)"

definition Boot_Image_IsStackPointerValid :: "u32 \<Rightarrow> 'w Boot_ImageVerifier \<Rightarrow> bool" where
  "Boot_Image_IsStackPointerValid sp verifier =
    (if sp AND 7 \<noteq> 0 then False
     else boot_image_in_ram sp (take (unat (ram_region_count verifier)) (the (ram_regions verifier))))"

text \<open>
  The checks on the manifest alone, up to the rollback check, in the order of the code. The
  result is the image address and size when they pass.
\<close>

definition boot_image_check_manifest :: "Boot_ImageSlot \<Rightarrow> u32 \<Rightarrow> bytes
    \<Rightarrow> Boot_ImageResult + (u32 \<times> u32)" where
  "boot_image_check_manifest slot minimum_counter manifest =
    (if Boot_Image_ReadU32Le manifest 0 \<noteq> BOOT_IMAGE_MAGIC then Inl BOOT_IMAGE_RESULT_BAD_MAGIC
     else if Boot_Image_ReadU16Le manifest 4 \<noteq> BOOT_IMAGE_FORMAT_VERSION
     then Inl BOOT_IMAGE_RESULT_BAD_FORMAT
     else let header_size = ucast (Boot_Image_ReadU16Le manifest 6) :: u32
       in if header_size \<noteq> BOOT_IMAGE_HEADER_SIZE
            \<or> header_size mod BOOT_IMAGE_VECTOR_ALIGNMENT \<noteq> 0
          then Inl BOOT_IMAGE_RESULT_BAD_HEADER
          else if Boot_Image_ReadU32Le manifest 28 \<noteq> 0 then Inl BOOT_IMAGE_RESULT_BAD_FLAGS
          else let isize = Boot_Image_ReadU32Le manifest 8;
                   address = base_address slot + header_size
            in if address < base_address slot
                 \<or> \<not> Boot_Image_IsRangeValid address isize (base_address slot) (region_size slot)
                 \<or> isize < 8
               then Inl BOOT_IMAGE_RESULT_SIZE_OUT_OF_RANGE
               else if Boot_Image_ReadU32Le manifest 12 \<noteq> address
               then Inl BOOT_IMAGE_RESULT_VECTOR_ADDRESS
               else if Boot_Image_ReadU32Le manifest 20 < minimum_counter
               then Inl BOOT_IMAGE_RESULT_SECURITY_ROLLBACK
               else Inr (address, isize))"

text \<open>The checks on the vector table, and the two cryptographic checks.\<close>

definition boot_image_check_vectors :: "'w Boot_ImageVerifier \<Rightarrow> bytes \<Rightarrow> bytes \<Rightarrow> u32 \<Rightarrow> u32
    \<Rightarrow> Boot_ImageResult + unit" where
  "boot_image_check_vectors verifier manifest vectors address isize =
    (let initial_sp = Boot_Image_ReadU32Le vectors 0;
         entry = Boot_Image_ReadU32Le manifest 16;
         reset_handler = Boot_Image_ReadU32Le vectors 4
     in if \<not> Boot_Image_IsStackPointerValid initial_sp verifier
        then Inl BOOT_IMAGE_RESULT_STACK_POINTER
        else if entry AND 1 = 0 \<or> entry \<noteq> reset_handler
          \<or> \<not> Boot_Image_IsRangeValid (entry AND NOT 1) 2 address isize
        then Inl BOOT_IMAGE_RESULT_ENTRY_ADDRESS
        else Inr ())"

definition Boot_Image_Validate_body :: "Boot_ImageSlot \<Rightarrow> 'w Boot_ImageVerifier \<Rightarrow> bytes \<Rightarrow> bytes
    \<Rightarrow> 'w \<Rightarrow> Boot_ImageResult \<times> Boot_ImageInfo \<times> 'w" where
  "Boot_Image_Validate_body slot verifier manifest0 vectors0 w =
    (case the (iv_read verifier) (base_address slot) manifest0 BOOT_IMAGE_MANIFEST_SIZE w of
       (ok, manifest, w1) \<Rightarrow>
     if \<not> ok then (BOOT_IMAGE_RESULT_READ_FAILED, boot_image_info_zero, w1)
     else case boot_image_check_manifest slot (iv_minimum_security_counter verifier) manifest of
       Inl err \<Rightarrow> (err, boot_image_info_zero, w1)
     | Inr (address, isize) \<Rightarrow>
       (case the (iv_read verifier) (Boot_Image_ReadU32Le manifest 12) vectors0 8 w1 of
          (ok, vectors, w2) \<Rightarrow>
        if \<not> ok then (BOOT_IMAGE_RESULT_READ_FAILED, boot_image_info_zero, w2)
        else case boot_image_check_vectors verifier manifest vectors address isize of
          Inl err \<Rightarrow> (err, boot_image_info_zero, w2)
        | Inr _ \<Rightarrow>
          (case the (iv_verify_signature verifier) manifest BOOT_IMAGE_SIGNED_REGION_SIZE
               (drop BOOT_IMAGE_OFFSET_SIGNATURE manifest) w2 of (sig_ok, w3) \<Rightarrow>
           if \<not> sig_ok then (BOOT_IMAGE_RESULT_SIGNATURE_INVALID, boot_image_info_zero, w3)
           else case the (iv_verify_digest verifier) address isize
               (drop BOOT_IMAGE_OFFSET_DIGEST manifest) w3 of (digest_ok, w4) \<Rightarrow>
             if \<not> digest_ok then (BOOT_IMAGE_RESULT_DIGEST_INVALID, boot_image_info_zero, w4)
             else (BOOT_IMAGE_RESULT_OK,
               \<lparr>image_address = address, image_size = isize,
                vector_address = Boot_Image_ReadU32Le manifest 12,
                entry_address = Boot_Image_ReadU32Le manifest 16,
                initial_stack_pointer = Boot_Image_ReadU32Le vectors 0,
                security_counter = Boot_Image_ReadU32Le manifest 20,
                build_version = Boot_Image_ReadU32Le manifest 24\<rparr>, w4))))"

definition Boot_Image_Validate :: "Boot_ImageSlot option \<Rightarrow> 'w Boot_ImageVerifier option
    \<Rightarrow> Boot_ImageInfo option \<Rightarrow> bytes \<Rightarrow> bytes \<Rightarrow> 'w
    \<Rightarrow> Boot_ImageResult \<times> Boot_ImageInfo option \<times> 'w" where
  "Boot_Image_Validate slot verifier image_info manifest0 vectors0 w =
    (let image_info = map_option (\<lambda>_. boot_image_info_zero) image_info
     in case (slot, verifier, image_info) of
       (Some s, Some v, Some _) \<Rightarrow>
         if iv_read v = None \<or> iv_verify_digest v = None \<or> iv_verify_signature v = None
            \<or> ram_regions v = None \<or> ram_region_count v = 0
            \<or> region_size s < BOOT_IMAGE_HEADER_SIZE
         then (BOOT_IMAGE_RESULT_INVALID_ARGUMENT, image_info, w)
         else (case Boot_Image_Validate_body s v manifest0 vectors0 w of
           (res, info, w') \<Rightarrow> (res, Some info, w'))
     | _ \<Rightarrow> (BOOT_IMAGE_RESULT_INVALID_ARGUMENT, image_info, w))"

section \<open>Jump\<close>

datatype Boot_JumpResult = BOOT_JUMP_RESULT_OK | BOOT_JUMP_RESULT_INVALID_ARGUMENT
  | BOOT_JUMP_RESULT_IMAGE_MISMATCH | BOOT_JUMP_RESULT_QUIESCE_FAILED
  | BOOT_JUMP_RESULT_BRANCH_RETURNED

record Boot_JumpPlan =
  jp_vector_address :: u32
  jp_initial_stack_pointer :: u32
  jp_entry_address :: u32

definition boot_jump_plan_zero :: Boot_JumpPlan where
  "boot_jump_plan_zero = \<lparr>jp_vector_address = 0, jp_initial_stack_pointer = 0, jp_entry_address = 0\<rparr>"

definition Boot_Jump_IsRangeValid :: "u32 \<Rightarrow> u32 \<Rightarrow> u32 \<Rightarrow> u32 \<Rightarrow> bool" where
  "Boot_Jump_IsRangeValid start len region_start rsize =
    (if len = 0 \<or> start < region_start then False
     else let offset = start - region_start
       in offset \<le> rsize \<and> len \<le> rsize - offset)"

definition Boot_Jump_Prepare_body :: "Boot_ImageSlot \<Rightarrow> Boot_ImageInfo
    \<Rightarrow> Boot_JumpResult \<times> Boot_JumpPlan" where
  "Boot_Jump_Prepare_body slot info =
    (if region_size slot < BOOT_IMAGE_HEADER_SIZE
     then (BOOT_JUMP_RESULT_INVALID_ARGUMENT, boot_jump_plan_zero)
     else if 0xFFFFFFFF - BOOT_IMAGE_HEADER_SIZE < base_address slot
     then (BOOT_JUMP_RESULT_IMAGE_MISMATCH, boot_jump_plan_zero)
     else let expected = base_address slot + BOOT_IMAGE_HEADER_SIZE
       in if image_address info \<noteq> expected \<or> vector_address info \<noteq> expected
            \<or> vector_address info mod BOOT_IMAGE_VECTOR_ALIGNMENT \<noteq> 0
            \<or> initial_stack_pointer info AND 7 \<noteq> 0
            \<or> entry_address info AND 1 = 0
            \<or> \<not> Boot_Jump_IsRangeValid (image_address info) (image_size info)
                  (base_address slot) (region_size slot)
            \<or> \<not> Boot_Jump_IsRangeValid (entry_address info AND NOT 1) 2
                  (image_address info) (image_size info)
          then (BOOT_JUMP_RESULT_IMAGE_MISMATCH, boot_jump_plan_zero)
          else (BOOT_JUMP_RESULT_OK, \<lparr>jp_vector_address = vector_address info,
            jp_initial_stack_pointer = initial_stack_pointer info,
            jp_entry_address = entry_address info\<rparr>))"

definition Boot_Jump_Prepare :: "Boot_ImageSlot option \<Rightarrow> Boot_ImageInfo option
    \<Rightarrow> Boot_JumpPlan option \<Rightarrow> Boot_JumpResult \<times> Boot_JumpPlan option" where
  "Boot_Jump_Prepare slot info plan = (case (slot, info, plan) of
     (Some s, Some i, Some _) \<Rightarrow> map_prod id Some (Boot_Jump_Prepare_body s i)
   | _ \<Rightarrow> (BOOT_JUMP_RESULT_INVALID_ARGUMENT, map_option (\<lambda>_. boot_jump_plan_zero) plan))"

text \<open>
  The operations of \<open>Boot_JumpOperations_t\<close> over a state; on the target \<open>branch\<close> does not
  return, a platform where it does is halted.
\<close>

record 'w Boot_JumpOperations =
  quiesce_peripherals :: "('w \<Rightarrow> bool \<times> 'w) option"
  mask_interrupts :: "('w \<Rightarrow> 'w) option"
  stop_systick :: "('w \<Rightarrow> 'w) option"
  clear_interrupt_state :: "('w \<Rightarrow> 'w) option"
  disable_caches :: "('w \<Rightarrow> 'w) option"
  set_vector_table :: "(u32 \<Rightarrow> 'w \<Rightarrow> 'w) option"
  branch :: "(u32 \<Rightarrow> u32 \<Rightarrow> 'w \<Rightarrow> 'w) option"
  halt :: "('w \<Rightarrow> 'w) option"

definition Boot_Jump_Execute :: "Boot_JumpPlan option \<Rightarrow> 'w Boot_JumpOperations option \<Rightarrow> 'w
    \<Rightarrow> Boot_JumpResult \<times> 'w" where
  "Boot_Jump_Execute plan operations w = (case (plan, operations) of
     (Some p, Some ops) \<Rightarrow>
       if jp_vector_address p = 0 \<or> jp_initial_stack_pointer p = 0
          \<or> jp_entry_address p AND 1 = 0
          \<or> quiesce_peripherals ops = None \<or> mask_interrupts ops = None \<or> stop_systick ops = None
          \<or> clear_interrupt_state ops = None \<or> disable_caches ops = None
          \<or> set_vector_table ops = None \<or> branch ops = None \<or> halt ops = None
       then (BOOT_JUMP_RESULT_INVALID_ARGUMENT, w)
       else (case the (quiesce_peripherals ops) w of (quiet, w) \<Rightarrow>
         if \<not> quiet then (BOOT_JUMP_RESULT_QUIESCE_FAILED, w)
         else let w = the (mask_interrupts ops) w;
                  w = the (stop_systick ops) w;
                  w = the (clear_interrupt_state ops) w;
                  w = the (disable_caches ops) w;
                  w = the (set_vector_table ops) (jp_vector_address p) w;
                  w = the (branch ops) (jp_initial_stack_pointer p) (jp_entry_address p) w;
                  w = the (halt ops) w
           in (BOOT_JUMP_RESULT_BRANCH_RETURNED, w))
   | _ \<Rightarrow> (BOOT_JUMP_RESULT_INVALID_ARGUMENT, w))"

section \<open>Ranges\<close>

lemma range_valid_nat:
  "Boot_Image_IsRangeValid a n r s \<longleftrightarrow>
    n \<noteq> 0 \<and> unat r \<le> unat a \<and> unat a + unat n \<le> unat r + unat s"
proof (cases "a < r \<or> n = 0")
  case True
  then show ?thesis by (auto simp: Boot_Image_IsRangeValid_def nat_of_word)
next
  case False
  then have le: "r \<le> a" "unat r \<le> unat a" by (simp_all add: word_le_nat_alt not_less)
  note off = unat_sub_le [OF le(1)]
  have "a - r \<le> s \<Longrightarrow> unat (s - (a - r)) = unat s - (unat a - unat r)"
    using unat_sub_le [of "a - r" s] off by simp
  then show ?thesis using False le off
    by (auto simp: Boot_Image_IsRangeValid_def Let_def word_le_nat_alt)
qed

lemma jump_range_valid [simp]: "Boot_Jump_IsRangeValid = Boot_Image_IsRangeValid"
  by (simp add: fun_eq_iff Boot_Jump_IsRangeValid_def Boot_Image_IsRangeValid_def)

lemma in_ram_iff: "boot_image_in_ram sp rs \<longleftrightarrow>
    (\<exists>r \<in> set rs. start_address r < end_address r \<and> start_address r < sp \<and> sp \<le> end_address r)"
  by (induction rs) auto

lemma image_byte_order [byte_order]:
  "Boot_Image_ReadU16Le = read_u16_le" "Boot_Image_ReadU32Le = read_u32_le"
  by (simp_all add: fun_eq_iff Boot_Image_ReadU16Le_def Boot_Image_ReadU32Le_def read_u16_le_def
      read_u32_le_def)

section \<open>What an accepted image satisfies\<close>

text \<open>The demands on slot, image data and verifier, independent of the order of the checks.\<close>

definition image_well_placed :: "Boot_ImageSlot \<Rightarrow> 'w Boot_ImageVerifier \<Rightarrow> Boot_ImageInfo \<Rightarrow> bool" where
  "image_well_placed slot v info \<longleftrightarrow>
     unat (image_address info) = unat (base_address slot) + 1024
     \<and> unat (image_address info) + unat (image_size info) \<le> unat (base_address slot) + unat (region_size slot)
     \<and> 8 \<le> image_size info
     \<and> vector_address info = image_address info
     \<and> odd (unat (entry_address info))
     \<and> unat (image_address info) < unat (entry_address info)
     \<and> unat (entry_address info) + 1 \<le> unat (image_address info) + unat (image_size info)
     \<and> initial_stack_pointer info AND 7 = 0
     \<and> (\<exists>r \<in> set (the (ram_regions v)). start_address r < initial_stack_pointer info
          \<and> initial_stack_pointer info \<le> end_address r)
     \<and> iv_minimum_security_counter v \<le> security_counter info"

lemma check_manifest_ok:
  assumes "boot_image_check_manifest slot minc m = Inr (address, isize)"
  shows "address = base_address slot + 1024" "unat address = unat (base_address slot) + 1024"
    "Boot_Image_IsRangeValid address isize (base_address slot) (region_size slot)" "8 \<le> isize"
    "read_u32_le m 12 = address" "minc \<le> read_u32_le m 20" "isize = read_u32_le m 8"
    "read_u32_le m 0 = BOOT_IMAGE_MAGIC" "read_u16_le m 4 = BOOT_IMAGE_FORMAT_VERSION"
    "read_u32_le m 28 = 0"
proof -
  have c: "address = base_address slot + 1024 \<and> \<not> address < base_address slot
    \<and> Boot_Image_IsRangeValid address isize (base_address slot) (region_size slot) \<and> 8 \<le> isize
    \<and> read_u32_le m 12 = address \<and> minc \<le> read_u32_le m 20 \<and> isize = read_u32_le m 8
    \<and> read_u32_le m 0 = BOOT_IMAGE_MAGIC \<and> read_u16_le m 4 = BOOT_IMAGE_FORMAT_VERSION
    \<and> read_u32_le m 28 = 0"
    using assms by (auto simp: boot_image_check_manifest_def Let_def byte_order not_less
        BOOT_IMAGE_HEADER_SIZE_def split: if_splits)
  then show "address = base_address slot + 1024"
    "Boot_Image_IsRangeValid address isize (base_address slot) (region_size slot)" "8 \<le> isize"
    "read_u32_le m 12 = address" "minc \<le> read_u32_le m 20" "isize = read_u32_le m 8"
    "read_u32_le m 0 = BOOT_IMAGE_MAGIC" "read_u16_le m 4 = BOOT_IMAGE_FORMAT_VERSION"
    "read_u32_le m 28 = 0" by blast+
  have "base_address slot \<le> base_address slot + 1024" using c by (metis not_less)
  then show "unat address = unat (base_address slot) + 1024"
    using c unat_plus_simple [of "base_address slot" 1024] by simp
qed

lemma odd_entry:
  fixes e :: u32
  assumes "e AND 1 \<noteq> 0"
  shows "odd (unat e)" "unat (e AND NOT 1) = unat e - 1"
proof -
  have one: "e AND 1 = 1" using assms by (simp add: and_one_eq mod_2_eq_odd)
  then have "odd e" by (simp add: and_one_eq mod_2_eq_odd split: if_splits)
  have "bit (unat e) 0 = bit e 0" unfolding bit_unsigned_iff by simp
  with \<open>odd e\<close> show o: "odd (unat e)" by (simp add: bit_0)
  have "(e AND NOT 1) + (e AND 1) = (e AND NOT 1) OR (e AND 1)"
    by (rule disjunctive_add_eq_or) (rule bit_word_eqI, simp add: bit_simps, blast intro: gr0I)
  also have "\<dots> = e"
  proof (rule bit_word_eqI)
    fix n assume "n < LENGTH(32)"
    then show "bit ((e AND NOT 1) OR (e AND 1)) n = bit e n"
      by (cases n) (simp_all add: bit_simps)
  qed
  finally have "e AND NOT 1 = e - 1" using one by (simp add: algebra_simps)
  then show "unat (e AND NOT 1) = unat e - 1"
    using o unat_dec [of e] odd_pos [OF o] by (simp add: unat_gt_0 word_gt_0)
qed

lemma check_vectors_ok:
  assumes "boot_image_check_vectors v m vectors address isize = Inr ()"
    and "unat address + unat isize < 2 ^ 32"
  shows "read_u32_le vectors 0 AND 7 = 0" 
    "\<exists>r \<in> set (the (ram_regions v)). start_address r < read_u32_le vectors 0
          \<and> read_u32_le vectors 0 \<le> end_address r"
    "read_u32_le m 16 = read_u32_le vectors 4" "odd (unat (read_u32_le m 16))"
    "unat address < unat (read_u32_le m 16)"
    "unat (read_u32_le m 16) + 1 \<le> unat address + unat isize"
  using assms odd_entry [of "read_u32_le m 16"] odd_pos [of "unat (read_u32_le m 16)"]
  by (auto simp: boot_image_check_vectors_def Let_def byte_order Boot_Image_IsStackPointerValid_def
      in_ram_iff range_valid_nat dest: in_set_takeD split: if_splits)


text \<open>The run of an accepting validation: the two reads and the two questions it asked.\<close>

lemma validate_ok:
  assumes "Boot_Image_Validate_body slot v m0 v0 w = (BOOT_IMAGE_RESULT_OK, info, w')"
  shows "\<exists>m vectors w1 w2 w3 address isize.
    the (iv_read v) (base_address slot) m0 128 w = (True, m, w1)
    \<and> boot_image_check_manifest slot (iv_minimum_security_counter v) m = Inr (address, isize)
    \<and> the (iv_read v) address v0 8 w1 = (True, vectors, w2)
    \<and> boot_image_check_vectors v m vectors address isize = Inr ()
    \<and> the (iv_verify_signature v) m 64 (drop 64 m) w2 = (True, w3)
    \<and> the (iv_verify_digest v) address isize (drop 32 m) w3 = (True, w')
    \<and> info = \<lparr>image_address = address, image_size = isize, vector_address = address,
         entry_address = read_u32_le m 16, initial_stack_pointer = read_u32_le vectors 0,
         security_counter = read_u32_le m 20, build_version = read_u32_le m 24\<rparr>"
proof -
  obtain ok1 m w1 where r1: "the (iv_read v) (base_address slot) m0 128 w = (ok1, m, w1)"
    by (metis prod.exhaust)
  have "ok1" using assms r1
    by (cases ok1) (simp_all add: Boot_Image_Validate_body_def BOOT_IMAGE_MANIFEST_SIZE_def)
  obtain address isize where cm:
    "boot_image_check_manifest slot (iv_minimum_security_counter v) m = Inr (address, isize)"
  proof (cases "boot_image_check_manifest slot (iv_minimum_security_counter v) m")
    case (Inl err)
    then have "err = BOOT_IMAGE_RESULT_OK"
      using assms r1 \<open>ok1\<close> by (simp add: Boot_Image_Validate_body_def BOOT_IMAGE_MANIFEST_SIZE_def)
    with Inl show ?thesis by (auto simp: boot_image_check_manifest_def Let_def split: if_splits)
  qed (use that in auto)
  have va: "Boot_Image_ReadU32Le m 12 = address"
    using check_manifest_ok(5) [OF cm] by (simp add: byte_order)
  obtain ok2 vectors w2 where r2: "the (iv_read v) address v0 8 w1 = (ok2, vectors, w2)"
    by (metis prod.exhaust)
  obtain ok3 w3 where s: "the (iv_verify_signature v) m 64 (drop 64 m) w2 = (ok3, w3)" by fastforce
  obtain ok4 w4 where d: "the (iv_verify_digest v) address isize (drop 32 m) w3 = (ok4, w4)"
    by fastforce
  have "ok2" "boot_image_check_vectors v m vectors address isize = Inr ()" "ok3" "ok4" "w' = w4"
    "info = \<lparr>image_address = address, image_size = isize, vector_address = address,
         entry_address = read_u32_le m 16, initial_stack_pointer = read_u32_le vectors 0,
         security_counter = read_u32_le m 20, build_version = read_u32_le m 24\<rparr>"
    using assms \<open>ok1\<close> r1 r2 s d cm va
    by (auto simp: Boot_Image_Validate_body_def boot_image_consts BOOT_IMAGE_MANIFEST_SIZE_def
        byte_order boot_image_check_vectors_def Let_def split: if_splits)
  then show ?thesis using r1 \<open>ok1\<close> cm r2 s d by auto
qed

text \<open>
  C4. An image is accepted only if it may be started. When \<open>Boot_Image_Validate\<close> reports OK, the
  image lies completely inside its slot behind the header (no wrap-around), its vector table is
  at its start, its entry point is a Thumb address inside it and equals the reset vector that
  was read, its initial stack pointer is aligned and inside a RAM region, its security counter
  is not below the required minimum, and both the signature over the 64 signed bytes of the
  manifest that was read and the digest over exactly the image range were checked and agreed.
\<close>

theorem boot_image_accepted:
  assumes "Boot_Image_Validate (Some slot) (Some v) (Some info0) m0 v0 w
      = (BOOT_IMAGE_RESULT_OK, Some info, w')"
    and "unat (base_address slot) + unat (region_size slot) < 2 ^ 32"
  shows "image_well_placed slot v info
    \<and> (\<exists>m vectors w1 w2 w3. the (iv_read v) (base_address slot) m0 128 w = (True, m, w1)
        \<and> read_u32_le m 0 = BOOT_IMAGE_MAGIC
        \<and> the (iv_read v) (image_address info) v0 8 w1 = (True, vectors, w2)
        \<and> initial_stack_pointer info = read_u32_le vectors 0
        \<and> entry_address info = read_u32_le vectors 4 \<and> entry_address info = read_u32_le m 16
        \<and> security_counter info = read_u32_le m 20
        \<and> the (iv_verify_signature v) m 64 (drop 64 m) w2 = (True, w3)
        \<and> the (iv_verify_digest v) (image_address info) (image_size info) (drop 32 m) w3 = (True, w'))"
proof -
  have "Boot_Image_Validate_body slot v m0 v0 w = (BOOT_IMAGE_RESULT_OK, info, w')"
    using assms(1) by (auto simp: Boot_Image_Validate_def split: if_splits prod.splits)
  from validate_ok [OF this] obtain m vectors w1 w2 w3 address isize where run:
    "the (iv_read v) (base_address slot) m0 128 w = (True, m, w1)"
    "boot_image_check_manifest slot (iv_minimum_security_counter v) m = Inr (address, isize)"
    "the (iv_read v) address v0 8 w1 = (True, vectors, w2)"
    "boot_image_check_vectors v m vectors address isize = Inr ()"
    "the (iv_verify_signature v) m 64 (drop 64 m) w2 = (True, w3)"
    "the (iv_verify_digest v) address isize (drop 32 m) w3 = (True, w')"
    and info: "info = \<lparr>image_address = address, image_size = isize, vector_address = address,
         entry_address = read_u32_le m 16, initial_stack_pointer = read_u32_le vectors 0,
         security_counter = read_u32_le m 20, build_version = read_u32_le m 24\<rparr>"
    by blast
  note man = check_manifest_ok [OF run(2)]
  have inside: "unat address + unat isize \<le> unat (base_address slot) + unat (region_size slot)"
    using man(3) by (simp add: range_valid_nat)
  note vec = check_vectors_ok [OF run(4)]
  show ?thesis
    using run(1,3,5,6) man vec inside assms(2) by (simp add: image_well_placed_def info)
qed

text \<open>A device with one valid image in slot A, for the concrete runs.\<close>

definition demo_manifest :: bytes where
  "demo_manifest = (let m = replicate 128 0; m = write_u32_le m 0 BOOT_IMAGE_MAGIC;
     m = write_u16_le m 4 1; m = write_u16_le m 6 1024; m = write_u32_le m 8 256;
     m = write_u32_le m 12 0x08020400; m = write_u32_le m 16 0x08020411;
     m = write_u32_le m 20 5 in write_u32_le m 24 11)"

definition demo_vectors :: bytes where
  "demo_vectors = write_u32_le (write_u32_le (replicate 8 0) 0 0x20020000) 4 0x08020411"

definition demo_verifier :: "unit Boot_ImageVerifier" where
  "demo_verifier = \<lparr>iv_read = Some (\<lambda>a b n w. (True, if n = 8 then demo_vectors else demo_manifest, w)),
     iv_verify_digest = Some (\<lambda>a n d w. (True, w)), iv_verify_signature = Some (\<lambda>m n s w. (True, w)),
     ram_regions = Some [\<lparr>start_address = 0x20000000, end_address = 0x20020000\<rparr>],
     ram_region_count = 1, iv_minimum_security_counter = 4\<rparr>"

definition demo_slot :: Boot_ImageSlot where
  "demo_slot = \<lparr>base_address = BOOT_SLOT_A_BASE_ADDRESS, region_size = BOOT_SLOT_A_REGION_SIZE\<rparr>"

definition demo_image_info :: Boot_ImageInfo where
  "demo_image_info = \<lparr>image_address = 0x08020400, image_size = 256, vector_address = 0x08020400,
     entry_address = 0x08020411, initial_stack_pointer = 0x20020000, security_counter = 5,
     build_version = 11\<rparr>"

lemma demo_manifest_fields:
  "read_u32_le demo_manifest 0 = BOOT_IMAGE_MAGIC" "read_u16_le demo_manifest 4 = 1"
  "read_u16_le demo_manifest 6 = 1024" "read_u32_le demo_manifest 8 = 256"
  "read_u32_le demo_manifest 12 = 0x08020400" "read_u32_le demo_manifest 16 = 0x08020411"
  "read_u32_le demo_manifest 20 = 5" "read_u32_le demo_manifest 24 = 11"
  "read_u32_le demo_manifest 28 = 0"
  "read_u32_le demo_vectors 0 = 0x20020000" "read_u32_le demo_vectors 4 = 0x08020411"
  by (simp_all add: demo_manifest_def demo_vectors_def Let_def byte_order)

lemma demo_image_valid: "Boot_Image_Validate (Some demo_slot) (Some demo_verifier)
    (Some boot_image_info_zero) (replicate 128 0) (replicate 8 0) ()
    = (BOOT_IMAGE_RESULT_OK, Some demo_image_info, ())"
  by (simp add: Boot_Image_Validate_def Boot_Image_Validate_body_def boot_image_check_manifest_def
      boot_image_check_vectors_def byte_order demo_manifest_fields demo_slot_def demo_verifier_def
      boot_map BOOT_IMAGE_FORMAT_VERSION_def Boot_Image_IsStackPointerValid_def Let_def
      Boot_Image_IsRangeValid_def demo_image_info_def)

theorem boot_image_accepted_witness:
  "image_well_placed demo_slot demo_verifier demo_image_info"
  using boot_image_accepted [OF demo_image_valid] by (simp add: demo_slot_def boot_map)

text \<open>
  C12. The boot loader can start every image it accepted. For a slot aligned to the vector
  table, the information that an accepting validation returns passes the checks of
  \<open>Boot_Jump_Prepare\<close>, and the plan jumps to the validated vector table, stack and entry point.
\<close>

theorem boot_accepted_image_jumps:
  assumes "Boot_Image_Validate (Some slot) (Some v) (Some info0) m0 v0 w
      = (BOOT_IMAGE_RESULT_OK, Some info, w')"
    and "base_address slot mod 1024 = 0"
  shows "Boot_Jump_Prepare (Some slot) (Some info) (Some plan0) =
    (BOOT_JUMP_RESULT_OK, Some \<lparr>jp_vector_address = vector_address info,
       jp_initial_stack_pointer = initial_stack_pointer info, jp_entry_address = entry_address info\<rparr>)"
proof -
  have size: "\<not> region_size slot < BOOT_IMAGE_HEADER_SIZE"
    and body: "Boot_Image_Validate_body slot v m0 v0 w = (BOOT_IMAGE_RESULT_OK, info, w')"
    using assms(1) by (auto simp: Boot_Image_Validate_def split: if_splits prod.splits)
  from validate_ok [OF body] obtain m vectors address isize where run:
    "boot_image_check_manifest slot (iv_minimum_security_counter v) m = Inr (address, isize)"
    "boot_image_check_vectors v m vectors address isize = Inr ()"
    and info: "info = \<lparr>image_address = address, image_size = isize, vector_address = address,
         entry_address = read_u32_le m 16, initial_stack_pointer = read_u32_le vectors 0,
         security_counter = read_u32_le m 20, build_version = read_u32_le m 24\<rparr>"
    by blast
  note man = check_manifest_ok [OF run(1)]
  have "unat (base_address slot) + 1024 < 2 ^ 32" using man(2) unat_u32_less [of address] by simp
  then have room: "\<not> 0xFFFFFFFF - BOOT_IMAGE_HEADER_SIZE < base_address slot"
    by (simp add: nat_of_word boot_map)
  have "base_address slot = base_address slot div 1024 * 1024"
    using div_mult_mod_eq [of "base_address slot" 1024] assms(2) by simp
  then have "base_address slot + 1024 = push_bit 10 (base_address slot div 1024 + 1)"
    by (simp add: push_bit_eq_mult distrib_right)
  then have "take_bit 10 (base_address slot + 1024) = 0" by (simp add: take_bit_push_bit)
  then have aligned: "address mod 1024 = 0" using man(1) by (simp add: take_bit_eq_mod)
  show ?thesis
    using size room aligned man(1,3) run(2) boot_map
    by (auto simp: Boot_Jump_Prepare_def Boot_Jump_Prepare_body_def info Let_def
        boot_image_check_vectors_def byte_order Boot_Image_IsStackPointerValid_def split: if_splits)
qed

theorem boot_accepted_image_jumps_witness:
  "Boot_Jump_Prepare (Some demo_slot) (Some demo_image_info) (Some boot_jump_plan_zero) =
    (BOOT_JUMP_RESULT_OK, Some \<lparr>jp_vector_address = 0x08020400,
       jp_initial_stack_pointer = 0x20020000, jp_entry_address = 0x08020411\<rparr>)"
  using boot_accepted_image_jumps [OF demo_image_valid, of boot_jump_plan_zero]
  by (simp add: demo_slot_def boot_map demo_image_info_def)

end
