(* ===== verification/BootTarget.thy ===== *)
theory BootTarget
  imports BootControl BootImage
begin

text \<open>
  The boot loader's main sequence, \<open>src/Core/Src/boot_target.c\<close>: read and load the control
  record, validate both slots, select, persist a changed state to the other copy, prepare and
  execute the jump. The platform is the record of callbacks over a state \<open>'w\<close>.
\<close>

datatype Boot_TargetResult = BOOT_TARGET_RESULT_OK | BOOT_TARGET_RESULT_INVALID_ARGUMENT
  | BOOT_TARGET_RESULT_CONTROL_READ_FAILED | BOOT_TARGET_RESULT_CONTROL_INVALID
  | BOOT_TARGET_RESULT_CONTROL_WRITE_FAILED | BOOT_TARGET_RESULT_RECOVERY
  | BOOT_TARGET_RESULT_JUMP_PREPARE_FAILED | BOOT_TARGET_RESULT_JUMP_RETURNED

record 'w Boot_TargetPlatform =
  bt_read :: "(u32 \<Rightarrow> bytes \<Rightarrow> u32 \<Rightarrow> 'w \<Rightarrow> bool \<times> bytes \<times> 'w) option"
  bt_validate_image :: "(Boot_ImageSlot \<Rightarrow> u32 \<Rightarrow> Boot_ImageInfo \<Rightarrow> 'w
    \<Rightarrow> Boot_ImageResult \<times> Boot_ImageInfo \<times> 'w) option"
  bt_persist_control :: "(Boot_ControlState \<Rightarrow> u8 \<Rightarrow> 'w \<Rightarrow> bool \<times> 'w) option"
  bt_jump :: "(Boot_JumpPlan \<Rightarrow> 'w \<Rightarrow> Boot_JumpResult \<times> 'w) option"

record Boot_TargetEvidence =
  te_control_result :: Boot_ControlResult
  te_slot_a_image_result :: Boot_ImageResult
  te_slot_b_image_result :: Boot_ImageResult
  te_decision :: Boot_Decision
  te_jump_result :: Boot_JumpResult
  te_selected_control_record :: u8
  te_state_persisted :: bool

definition boot_target_evidence_zero :: Boot_TargetEvidence where
  "boot_target_evidence_zero = \<lparr>te_control_result = BOOT_CONTROL_RESULT_OK,
     te_slot_a_image_result = BOOT_IMAGE_RESULT_OK, te_slot_b_image_result = BOOT_IMAGE_RESULT_OK,
     te_decision = BOOT_DECISION_RECOVERY, te_jump_result = BOOT_JUMP_RESULT_OK,
     te_selected_control_record = 0, te_state_persisted = False\<rparr>"

definition boot_slot_a :: Boot_ImageSlot where
  "boot_slot_a = \<lparr>base_address = BOOT_SLOT_A_BASE_ADDRESS, region_size = BOOT_SLOT_A_REGION_SIZE\<rparr>"

definition boot_slot_b :: Boot_ImageSlot where
  "boot_slot_b = \<lparr>base_address = BOOT_SLOT_B_BASE_ADDRESS, region_size = BOOT_SLOT_B_REGION_SIZE\<rparr>"

definition Boot_Target_ImageMatchesState :: "Boot_Slot \<Rightarrow> Boot_ControlState \<Rightarrow> Boot_ImageInfo \<Rightarrow> bool" where
  "Boot_Target_ImageMatchesState slot st info =
    (if slot = confirmed_slot st
     then security_counter info = confirmed_security_counter st
       \<and> build_version info = confirmed_build_version st
     else if slot = pending_slot st
     then security_counter info = pending_security_counter st
       \<and> build_version info = pending_build_version st
     else False)"

text \<open>Loading: both copies are read, the second only if the first read succeeded.\<close>

definition boot_target_load :: "'w Boot_TargetPlatform \<Rightarrow> Boot_TargetEvidence \<Rightarrow> 'w
    \<Rightarrow> (Boot_TargetResult + Boot_ControlState) \<times> Boot_TargetEvidence \<times> 'w" where
  "boot_target_load pf ev w =
    (case the (bt_read pf) BOOT_CONTROL_RECORD_0_ADDRESS (replicate 64 0) 64 w of (ok0, record_0, w1) \<Rightarrow>
     if \<not> ok0 then (Inl BOOT_TARGET_RESULT_CONTROL_READ_FAILED, ev, w1)
     else case the (bt_read pf) BOOT_CONTROL_RECORD_1_ADDRESS (replicate 64 0) 64 w1 of (ok1, record_1, w2) \<Rightarrow>
       if \<not> ok1 then (Inl BOOT_TARGET_RESULT_CONTROL_READ_FAILED, ev, w2)
       else case Boot_Control_Load (Some record_0) (Some record_1) (Some boot_state_zero)
           (Some (te_selected_control_record ev)) of (res, st, sel) \<Rightarrow>
         let ev = ev\<lparr>te_control_result := res, te_selected_control_record := the sel\<rparr>
         in if res \<noteq> BOOT_CONTROL_RESULT_OK then (Inl BOOT_TARGET_RESULT_CONTROL_INVALID, ev, w2)
            else (Inr (the st), ev, w2))"

text \<open>After the selection: persist a changed state, then jump.\<close>

definition boot_target_start :: "'w Boot_TargetPlatform \<Rightarrow> Boot_ImageInfo \<Rightarrow> Boot_ImageInfo
    \<Rightarrow> Boot_TargetEvidence \<Rightarrow> 'w \<Rightarrow> Boot_TargetResult \<times> Boot_TargetEvidence \<times> 'w" where
  "boot_target_start pf a_info b_info ev w =
    (if te_decision ev = BOOT_DECISION_RECOVERY then (BOOT_TARGET_RESULT_RECOVERY, ev, w)
     else let (selected_slot, selected_info) = (if te_decision ev = BOOT_DECISION_SLOT_A
                then (boot_slot_a, a_info) else (boot_slot_b, b_info))
       in case Boot_Jump_Prepare (Some selected_slot) (Some selected_info) (Some boot_jump_plan_zero) of
         (jr, plan) \<Rightarrow>
           let ev = ev\<lparr>te_jump_result := jr\<rparr>
           in if jr \<noteq> BOOT_JUMP_RESULT_OK then (BOOT_TARGET_RESULT_JUMP_PREPARE_FAILED, ev, w)
              else case the (bt_jump pf) (the plan) w of (jr', w') \<Rightarrow>
                (BOOT_TARGET_RESULT_JUMP_RETURNED, ev\<lparr>te_jump_result := jr'\<rparr>, w'))"

definition boot_target_persist :: "'w Boot_TargetPlatform \<Rightarrow> Boot_ControlState \<Rightarrow> bool
    \<Rightarrow> Boot_TargetEvidence \<Rightarrow> 'w \<Rightarrow> bool \<times> Boot_TargetEvidence \<times> 'w" where
  "boot_target_persist pf st state_changed ev w =
    (if state_changed then
       let target_record = (if te_selected_control_record ev = 0 then 1 else 0)
       in case the (bt_persist_control pf) st target_record w of (ok, w') \<Rightarrow>
         if \<not> ok then (False, ev, w')
         else (True, ev\<lparr>te_selected_control_record := target_record, te_state_persisted := True\<rparr>, w')
     else (True, ev, w))"

definition Boot_Target_Run_body :: "'w Boot_TargetPlatform \<Rightarrow> Boot_ImageInfo \<Rightarrow> Boot_TargetEvidence
    \<Rightarrow> 'w \<Rightarrow> Boot_TargetResult \<times> Boot_TargetEvidence \<times> 'w" where
  "Boot_Target_Run_body pf info0 ev w =
    (case boot_target_load pf ev w of
       (Inl err, ev, w) \<Rightarrow> (err, ev, w)
     | (Inr st, ev, w) \<Rightarrow>
       (case the (bt_validate_image pf) boot_slot_a (minimum_security_counter st) info0 w of (ra, a_info, w) \<Rightarrow>
        case the (bt_validate_image pf) boot_slot_b (minimum_security_counter st) info0 w of (rb, b_info, w) \<Rightarrow>
        let ev = ev\<lparr>te_slot_a_image_result := ra, te_slot_b_image_result := rb\<rparr>;
            slot_a_valid = (if ra = BOOT_IMAGE_RESULT_OK
              \<and> Boot_Target_ImageMatchesState BOOT_SLOT_A st a_info then 1 else 0);
            slot_b_valid = (if rb = BOOT_IMAGE_RESULT_OK
              \<and> Boot_Target_ImageMatchesState BOOT_SLOT_B st b_info then 1 else 0)
        in case Boot_Control_SelectBoot (Some st) slot_a_valid slot_b_valid (Some (te_decision ev)) (Some 0) of
          (cr, st', d, changed) \<Rightarrow>
            let ev = ev\<lparr>te_control_result := cr, te_decision := the d\<rparr>
            in if cr \<noteq> BOOT_CONTROL_RESULT_OK then (BOOT_TARGET_RESULT_CONTROL_INVALID, ev, w)
               else case boot_target_persist pf (the st') (the changed \<noteq> 0) ev w of (ok, ev, w) \<Rightarrow>
                 if \<not> ok then (BOOT_TARGET_RESULT_CONTROL_WRITE_FAILED, ev, w)
                 else boot_target_start pf a_info b_info ev w))"

definition Boot_Target_Run :: "'w Boot_TargetPlatform option \<Rightarrow> Boot_TargetEvidence option
    \<Rightarrow> Boot_ImageInfo \<Rightarrow> 'w \<Rightarrow> Boot_TargetResult \<times> Boot_TargetEvidence option \<times> 'w" where
  "Boot_Target_Run platform evidence info0 w =
    (let evidence = map_option (\<lambda>_. boot_target_evidence_zero\<lparr>te_selected_control_record := 0xFF\<rparr>) evidence
     in case (platform, evidence) of
       (Some pf, Some ev) \<Rightarrow>
         if bt_read pf = None \<or> bt_validate_image pf = None \<or> bt_persist_control pf = None
            \<or> bt_jump pf = None then (BOOT_TARGET_RESULT_INVALID_ARGUMENT, evidence, w)
         else (case Boot_Target_Run_body pf info0 ev w of (res, ev', w') \<Rightarrow> (res, Some ev', w'))
     | _ \<Rightarrow> (BOOT_TARGET_RESULT_INVALID_ARGUMENT, evidence, w))"

section \<open>What is jumped to, and after what\<close>

text \<open>
  The jumps and persisted states of a run, recorded by a platform whose state is extended with
  a log.
\<close>

datatype boot_action = Persisted Boot_ControlState u8 bool | Jumped Boot_JumpPlan

definition boot_logged :: "'w Boot_TargetPlatform \<Rightarrow> ('w \<times> boot_action list) Boot_TargetPlatform" where
  "boot_logged pf = \<lparr>
     bt_read = map_option (\<lambda>f a buf n (w, l). case f a buf n w of (ok, b, w') \<Rightarrow> (ok, b, w', l)) (bt_read pf),
     bt_validate_image = map_option (\<lambda>f s m i (w, l). case f s m i w of (r, i', w') \<Rightarrow> (r, i', w', l))
       (bt_validate_image pf),
     bt_persist_control = map_option (\<lambda>f st t (w, l). case f st t w of (ok, w') \<Rightarrow>
       (ok, w', l @ [Persisted st t ok])) (bt_persist_control pf),
     bt_jump = map_option (\<lambda>f plan (w, l). case f plan w of (r, w') \<Rightarrow> (r, w', l @ [Jumped plan]))
       (bt_jump pf)\<rparr>"

abbreviation target_complete :: "'w Boot_TargetPlatform \<Rightarrow> bool" where
  "target_complete pf \<equiv> bt_read pf \<noteq> None \<and> bt_validate_image pf \<noteq> None
     \<and> bt_persist_control pf \<noteq> None \<and> bt_jump pf \<noteq> None"

lemma logged_ops:
  assumes "target_complete pf"
  shows "the (bt_read (boot_logged pf)) a buf n (w, l) =
     (case the (bt_read pf) a buf n w of (ok, b, w') \<Rightarrow> (ok, b, w', l))"
  "the (bt_validate_image (boot_logged pf)) s m i (w, l) =
     (case the (bt_validate_image pf) s m i w of (r, i', w') \<Rightarrow> (r, i', w', l))"
  "the (bt_persist_control (boot_logged pf)) st t (w, l) =
     (case the (bt_persist_control pf) st t w of (ok, w') \<Rightarrow> (ok, w', l @ [Persisted st t ok]))"
  "the (bt_jump (boot_logged pf)) plan (w, l) =
     (case the (bt_jump pf) plan w of (r, w') \<Rightarrow> (r, w', l @ [Jumped plan]))"
  using assms by (auto simp: boot_logged_def)

lemma boot_load_shape:
  assumes "Boot_Control_Load (Some r0) (Some r1) (Some s) (Some n) = (res, st, sel)"
  shows "st = Some (the st)" "sel = Some (the sel)"
  using assms by (auto simp: split: prod.splits)

lemma load_logged:
  assumes "target_complete pf" "boot_target_load (boot_logged pf) ev (w, l) = (r, ev1, w1, l1)"
  shows "l1 = l" "r = Inr st \<Longrightarrow> \<exists>r0 r1 wr.
      the (bt_read pf) BOOT_CONTROL_RECORD_0_ADDRESS (replicate 64 0) 64 w = (True, r0, wr)
      \<and> the (bt_read pf) BOOT_CONTROL_RECORD_1_ADDRESS (replicate 64 0) 64 wr = (True, r1, w1)
      \<and> Boot_Control_Load (Some r0) (Some r1) (Some boot_state_zero) (Some (te_selected_control_record ev))
        = (BOOT_CONTROL_RESULT_OK, Some st, Some (te_selected_control_record ev1))"
proof -
  obtain ok0 r0 wa where a: "the (bt_read pf) BOOT_CONTROL_RECORD_0_ADDRESS (replicate 64 0) 64 w = (ok0, r0, wa)"
    by (metis prod.exhaust)
  obtain ok1 r1 wb where b: "the (bt_read pf) BOOT_CONTROL_RECORD_1_ADDRESS (replicate 64 0) 64 wa = (ok1, r1, wb)"
    by (metis prod.exhaust)
  obtain res s sel where c: "Boot_Control_Load (Some r0) (Some r1) (Some boot_state_zero)
      (Some (te_selected_control_record ev)) = (res, s, sel)" by (metis prod.exhaust)
  note run = assms(2) [unfolded boot_target_load_def logged_ops [OF assms(1)] a]
  have "l1 = l \<and> (r = Inr st \<longrightarrow> ok0 \<and> ok1 \<and> wb = w1 \<and> res = BOOT_CONTROL_RESULT_OK \<and> the s = st
      \<and> te_selected_control_record ev1 = the sel)"
  proof (cases "ok0 \<and> ok1")
    case True
    then show ?thesis using assms(2)
      by (auto simp del: boot_load_some simp: boot_target_load_def logged_ops [OF assms(1)] a b c Let_def
          split: if_splits)
  next
    case False
    then show ?thesis using assms(2)
      by (cases ok0) (auto simp: boot_target_load_def logged_ops [OF assms(1)] a b)
  qed
  then show "l1 = l" "r = Inr st \<Longrightarrow> \<exists>r0 r1 wr.
      the (bt_read pf) BOOT_CONTROL_RECORD_0_ADDRESS (replicate 64 0) 64 w = (True, r0, wr)
      \<and> the (bt_read pf) BOOT_CONTROL_RECORD_1_ADDRESS (replicate 64 0) 64 wr = (True, r1, w1)
      \<and> Boot_Control_Load (Some r0) (Some r1) (Some boot_state_zero) (Some (te_selected_control_record ev))
        = (BOOT_CONTROL_RESULT_OK, Some st, Some (te_selected_control_record ev1))"
    using a b c boot_load_shape [OF c] by (auto simp del: boot_load_some)
qed

lemma persist_logged:
  assumes "target_complete pf" "boot_target_persist (boot_logged pf) st ch ev (w, l) = (ok, ev1, w1, l1)"
  shows "l1 = (if ch then l @ [Persisted st (if te_selected_control_record ev = 0 then 1 else 0) ok] else l)"
    "te_decision ev1 = te_decision ev"
  using assms(2) by (auto simp: boot_target_persist_def logged_ops [OF assms(1)] Let_def split: prod.splits if_splits)

definition selected_image :: "Boot_Decision \<Rightarrow> Boot_ImageInfo \<Rightarrow> Boot_ImageInfo \<Rightarrow> Boot_ImageSlot \<times> Boot_ImageInfo" where
  "selected_image d a b = (if d = BOOT_DECISION_SLOT_A then (boot_slot_a, a) else (boot_slot_b, b))"

lemma start_logged:
  assumes "target_complete pf" "boot_target_start (boot_logged pf) a b ev (w, l) = (res, ev1, w1, l1)"
  shows "l1 = l \<or> (\<exists>plan. te_decision ev \<noteq> BOOT_DECISION_RECOVERY \<and> l1 = l @ [Jumped plan]
      \<and> Boot_Jump_Prepare_body (fst (selected_image (te_decision ev) a b))
          (snd (selected_image (te_decision ev) a b)) = (BOOT_JUMP_RESULT_OK, plan))"
  using assms(2) by (auto simp: boot_target_start_def logged_ops [OF assms(1)] Let_def selected_image_def
      Boot_Jump_Prepare_def map_prod_def split: prod.splits if_splits)

lemma jump_plan_of:
  assumes "Boot_Jump_Prepare_body slot info = (BOOT_JUMP_RESULT_OK, plan)"
  shows "plan = \<lparr>jp_vector_address = vector_address info,
     jp_initial_stack_pointer = initial_stack_pointer info, jp_entry_address = entry_address info\<rparr>"
  using assms by (auto simp: Boot_Jump_Prepare_body_def Let_def split: if_splits)

lemma load_valid:
  assumes "Boot_Control_Load (Some r0) (Some r1) (Some s) (Some n) = (BOOT_CONTROL_RESULT_OK, Some st, Some sel)"
  shows "Boot_Control_IsStateValid_body st"
proof -
  have dec: "fst (Boot_Control_DecodeRecord (Some r) (Some boot_state_zero))
      \<Longrightarrow> Boot_Control_IsStateValid_body (the (snd (Boot_Control_DecodeRecord (Some r) (Some boot_state_zero))))" for r
    using boot_decode_valid [of r boot_state_zero]
    by (cases "Boot_Control_DecodeRecord (Some r) (Some boot_state_zero)") auto
  show ?thesis using assms dec [of r0] dec [of r1]
    by (auto simp: Boot_Control_Load_body_def Let_def split: prod.splits if_splits)
qed

text \<open>What a selection means for the slot it picks.\<close>

lemma select_slot:
  assumes "Boot_Control_SelectBoot_body st a b = (BOOT_CONTROL_RESULT_OK, st', Some (d, ch))"
    and "d \<noteq> BOOT_DECISION_RECOVERY" "Boot_Control_IsStateValid_body st"
  shows "((d = BOOT_DECISION_SLOT_A \<longrightarrow> a \<noteq> 0) \<and> (d \<noteq> BOOT_DECISION_SLOT_A \<longrightarrow> b \<noteq> 0))
    \<and> (boot_decision_slot d = Some (pending_slot st) \<and> ch \<noteq> 0
        \<and> attempts_remaining st' = attempts_remaining st - 1 \<and> 0 < attempts_remaining st
      \<or> boot_decision_slot d = Some (confirmed_slot st) \<and> pending_slot st' = BOOT_SLOT_NONE \<and> (ch = 0 \<longrightarrow> st' = st))"
  using assms(3)
proof (cases rule: boot_valid_cases)
  case stable
  then show ?thesis
    using assms by (auto simp: Boot_Control_SelectBoot_body_def Let_def boot_slot_decision_def
        boot_decision_slot_def Boot_Control_IsSlot_def split: if_splits)
next
  case trial
  then show ?thesis
    using assms by (auto simp: Boot_Control_SelectBoot_body_def Let_def boot_slot_decision_def
        boot_decision_slot_def Boot_Control_IsSlot_def Boot_Control_ClearPending_def split: if_splits)
qed

text \<open>
  The part of the run after loading: the two validations, the selection, and what the log
  then holds.
\<close>

lemma run_after_load:
  assumes "target_complete pf" "Boot_Control_IsStateValid_body st"
    and load: "boot_target_load (boot_logged pf) ev0 (w, []) = (Inr st, ev1, w1, [])"
    and run: "Boot_Target_Run_body (boot_logged pf) info0 ev0 (w, []) = (res, ev, w', log)"
    and va: "the (bt_validate_image pf) boot_slot_a (minimum_security_counter st) info0 w1 = (ra, ai, wa)"
    and vb: "the (bt_validate_image pf) boot_slot_b (minimum_security_counter st) info0 wa = (rb, bi, wb)"
    and av: "av = (if ra = BOOT_IMAGE_RESULT_OK \<and> Boot_Target_ImageMatchesState BOOT_SLOT_A st ai then 1 else 0)"
    and bv: "bv = (if rb = BOOT_IMAGE_RESULT_OK \<and> Boot_Target_ImageMatchesState BOOT_SLOT_B st bi then 1 else 0)"
    and sel: "Boot_Control_SelectBoot_body st av bv = (BOOT_CONTROL_RESULT_OK, st', Some (d, ch))"
    and jump: "Jumped plan \<in> set log"
  defines "pre \<equiv> if ch \<noteq> 0
    then [Persisted st' (if te_selected_control_record ev1 = 0 then 1 else 0) True] else []"
  shows "d \<noteq> BOOT_DECISION_RECOVERY \<and> log = pre @ [Jumped plan]
    \<and> Boot_Jump_Prepare_body (fst (selected_image d ai bi)) (snd (selected_image d ai bi))
        = (BOOT_JUMP_RESULT_OK, plan)"
proof -
  let ?ev = "ev1\<lparr>te_slot_a_image_result := ra, te_slot_b_image_result := rb,
    te_control_result := BOOT_CONTROL_RESULT_OK, te_decision := d\<rparr>"
  obtain ok ev2 w2 l2 where p: "boot_target_persist (boot_logged pf) st' (ch \<noteq> 0) ?ev (wb, []) = (ok, ev2, w2, l2)"
    by (metis prod.exhaust)
  obtain res3 ev3 w3 l3 where s: "boot_target_start (boot_logged pf) ai bi ev2 (w2, l2) = (res3, ev3, w3, l3)"
    by (metis prod.exhaust)
  note pl = persist_logged [OF assms(1) p]
  have dec: "te_decision ev2 = d" "l2 = (if ch \<noteq> 0
      then [Persisted st' (if te_selected_control_record ev1 = 0 then 1 else 0) ok] else [])"
    using pl by simp_all
  have log: "log = (if ok then l3 else l2)"
    using run load va vb sel p s
    by (simp add: Boot_Target_Run_body_def logged_ops [OF assms(1)] Let_def Boot_Control_SelectBoot_def
        av [symmetric] bv [symmetric] split: if_splits)
  have "Jumped plan \<notin> set l2" using dec(2) by (auto split: if_splits)
  with jump log have "ok" "l3 \<noteq> l2" by (auto split: if_splits)
  moreover from start_logged [OF assms(1) s] dec jump log \<open>ok\<close> \<open>l3 \<noteq> l2\<close> \<open>Jumped plan \<notin> set l2\<close>
  have "d \<noteq> BOOT_DECISION_RECOVERY" "l3 = l2 @ [Jumped plan]"
    "Boot_Jump_Prepare_body (fst (selected_image d ai bi)) (snd (selected_image d ai bi))
        = (BOOT_JUMP_RESULT_OK, plan)" by auto
  ultimately show ?thesis using log dec(2) by (simp add: pre_def)
qed

text \<open>
  C3. The boot loader starts only what the record and the checks allow, and accounts for it
  first. Whatever the callbacks do, a jump in a run implies that both copies of the record were read in this run,
  that the loader took its state from exactly these bytes, that both slots were validated with the
  minimum security counter of this state, and that the jump goes to the vector table, stack and entry
  of one of the two images just validated, whose counter and version are the ones the record holds for
  that slot. If the image is the confirmed one, any change of the record was persisted before; if it is on trial, an attempt
  was left and the record with one attempt less was written to the other copy, successfully,
  before the jump. There is at most one jump.
\<close>

theorem boot_target_starts_checked_image:
  assumes "Boot_Target_Run (Some (boot_logged pf)) (Some ev0) info0 (w, []) = (res, Some ev, w', log)"
    and "Jumped plan \<in> set log"
  shows "\<exists>r0 wr r1 w1 rec st ra ai w2 rb bi w3 slot_id slot info st'.
    the (bt_read pf) BOOT_CONTROL_RECORD_0_ADDRESS (replicate 64 0) 64 w = (True, r0, wr)
    \<and> the (bt_read pf) BOOT_CONTROL_RECORD_1_ADDRESS (replicate 64 0) 64 wr = (True, r1, w1)
    \<and> Boot_Control_Load (Some r0) (Some r1) (Some boot_state_zero) (Some 0xFF)
      = (BOOT_CONTROL_RESULT_OK, Some st, Some rec)
    \<and> the (bt_validate_image pf) boot_slot_a (minimum_security_counter st) info0 w1 = (ra, ai, w2)
    \<and> the (bt_validate_image pf) boot_slot_b (minimum_security_counter st) info0 w2 = (rb, bi, w3)
    \<and> (slot_id, slot, BOOT_IMAGE_RESULT_OK, info)
      \<in> {(BOOT_SLOT_A, boot_slot_a, ra, ai), (BOOT_SLOT_B, boot_slot_b, rb, bi)}
    \<and> Boot_Target_ImageMatchesState slot_id st info
    \<and> plan = \<lparr>jp_vector_address = vector_address info,
        jp_initial_stack_pointer = initial_stack_pointer info, jp_entry_address = entry_address info\<rparr>
    \<and> (slot_id = confirmed_slot st \<and> pending_slot st' = BOOT_SLOT_NONE
          \<and> (st' = st \<and> log = [Jumped plan] \<or> log = [Persisted st' (if rec = 0 then 1 else 0) True, Jumped plan])
       \<or> slot_id = pending_slot st \<and> 0 < attempts_remaining st
          \<and> attempts_remaining st' = attempts_remaining st - 1
          \<and> log = [Persisted st' (if rec = 0 then 1 else 0) True, Jumped plan])"
proof -
  let ?ev0 = "boot_target_evidence_zero\<lparr>te_selected_control_record := 0xFF\<rparr>"
  have complete: "target_complete pf"
    and run: "Boot_Target_Run_body (boot_logged pf) info0 ?ev0 (w, []) = (res, ev, w', log)"
    using assms by (auto simp: Boot_Target_Run_def boot_logged_def split: if_splits prod.splits)
  obtain r ev1 w1 l1 where load: "boot_target_load (boot_logged pf) ?ev0 (w, []) = (r, ev1, w1, l1)"
    by (metis prod.exhaust)
  note ll = load_logged [OF complete load]
  obtain st where r: "r = Inr st"
    using assms(2) run load ll(1) by (cases r) (auto simp: Boot_Target_Run_body_def)
  obtain r0 r1 wr where reads: "the (bt_read pf) BOOT_CONTROL_RECORD_0_ADDRESS (replicate 64 0) 64 w = (True, r0, wr)"
    "the (bt_read pf) BOOT_CONTROL_RECORD_1_ADDRESS (replicate 64 0) 64 wr = (True, r1, w1)"
    and loaded: "Boot_Control_Load (Some r0) (Some r1) (Some boot_state_zero) (Some 0xFF)
      = (BOOT_CONTROL_RESULT_OK, Some st, Some (te_selected_control_record ev1))"
    using ll(2) [OF r] by (auto simp del: boot_load_some)
  note valid = load_valid [OF loaded]
  obtain ra ai wa where va: "the (bt_validate_image pf) boot_slot_a (minimum_security_counter st) info0 w1
      = (ra, ai, wa)" by (metis prod.exhaust)
  obtain rb bi wb where vb: "the (bt_validate_image pf) boot_slot_b (minimum_security_counter st) info0 wa
      = (rb, bi, wb)" by (metis prod.exhaust)
  let ?av = "if ra = BOOT_IMAGE_RESULT_OK \<and> Boot_Target_ImageMatchesState BOOT_SLOT_A st ai then 1 else 0 :: u8"
  let ?bv = "if rb = BOOT_IMAGE_RESULT_OK \<and> Boot_Target_ImageMatchesState BOOT_SLOT_B st bi then 1 else 0 :: u8"
  obtain cr st' out where s: "Boot_Control_SelectBoot_body st ?av ?bv = (cr, st', out)" by (metis prod.exhaust)
  obtain d ch where sel: "Boot_Control_SelectBoot_body st ?av ?bv = (BOOT_CONTROL_RESULT_OK, st', Some (d, ch))"
    using select_refines [OF valid refl s] s by auto
  note jump = run_after_load [OF complete valid load [unfolded r ll(1)] run va vb refl refl sel assms(2)]
  note pick = select_slot [OF sel _ valid]
  obtain slot_id slot info where image: "boot_decision_slot d = Some slot_id"
    "(slot_id, slot, BOOT_IMAGE_RESULT_OK, info)
      \<in> {(BOOT_SLOT_A, boot_slot_a, ra, ai), (BOOT_SLOT_B, boot_slot_b, rb, bi)}"
    "selected_image d ai bi = (slot, info)" "Boot_Target_ImageMatchesState slot_id st info"
  proof (cases "d = BOOT_DECISION_SLOT_A")
    case True
    then show ?thesis using that [of BOOT_SLOT_A boot_slot_a ai] pick jump
      by (auto simp: boot_decision_slot_def selected_image_def split: if_splits)
  next
    case False
    then have "d = BOOT_DECISION_SLOT_B" using jump by (cases d) auto
    then show ?thesis using that [of BOOT_SLOT_B boot_slot_b bi] pick jump
      by (auto simp: boot_decision_slot_def selected_image_def split: if_splits)
  qed
  have "plan = \<lparr>jp_vector_address = vector_address info,
        jp_initial_stack_pointer = initial_stack_pointer info, jp_entry_address = entry_address info\<rparr>"
    using jump image(3) jump_plan_of by auto
  moreover have "slot_id = confirmed_slot st \<and> pending_slot st' = BOOT_SLOT_NONE
      \<and> (st' = st \<and> log = [Jumped plan]
        \<or> log = [Persisted st' (if te_selected_control_record ev1 = 0 then 1 else 0) True, Jumped plan])
      \<or> slot_id = pending_slot st \<and> 0 < attempts_remaining st
      \<and> attempts_remaining st' = attempts_remaining st - 1
      \<and> log = [Persisted st' (if te_selected_control_record ev1 = 0 then 1 else 0) True, Jumped plan]"
    using pick jump image(1) by auto
  ultimately show ?thesis using reads loaded va vb image(2,4) by blast
qed

text \<open>A device with the demonstration record in both copies and a valid candidate in slot B.\<close>

definition demo_candidate :: Boot_ImageInfo where
  "demo_candidate = \<lparr>image_address = 0x08100400, image_size = 256, vector_address = 0x08100400,
     entry_address = 0x08100411, initial_stack_pointer = 0x20020000, security_counter = 5,
     build_version = 11\<rparr>"

definition demo_platform :: "unit Boot_TargetPlatform" where
  "demo_platform = \<lparr>
     bt_read = Some (\<lambda>a buf n w. (True, boot_record_of demo_boot_state (replicate 64 0), w)),
     bt_validate_image = Some (\<lambda>s m i w. (if s = boot_slot_b then BOOT_IMAGE_RESULT_OK
       else BOOT_IMAGE_RESULT_BAD_MAGIC, demo_candidate, w)),
     bt_persist_control = Some (\<lambda>st t w. (True, w)),
     bt_jump = Some (\<lambda>plan w. (BOOT_JUMP_RESULT_BRANCH_RETURNED, w))\<rparr>"

lemma demo_target_run:
  "\<exists>ev st' plan. Boot_Target_Run (Some (boot_logged demo_platform)) (Some boot_target_evidence_zero)
      boot_image_info_zero ((), []) =
    (BOOT_TARGET_RESULT_JUMP_RETURNED, Some ev, (), [Persisted st' 1 True, Jumped plan])
    \<and> attempts_remaining st' = 2 \<and> jp_entry_address plan = 0x08100411"
proof -
  have len: "length (replicate 64 0 :: bytes) = 64" by simp
  note dec = boot_decode_committed [OF len demo_boot_state_valid, of boot_state_zero]
  have "Boot_Control_Load_body (boot_record_of demo_boot_state (replicate 64 0))
      (boot_record_of demo_boot_state (replicate 64 0)) = (BOOT_CONTROL_RESULT_OK, demo_boot_state, 0)"
    using dec by (simp add: Boot_Control_Load_body_def states_equal_iff)
  moreover have "boot_slot_a \<noteq> boot_slot_b" by (simp add: boot_slot_a_def boot_slot_b_def boot_map)
  moreover have "Boot_Control_SelectBoot_body demo_boot_state 0 1 = (BOOT_CONTROL_RESULT_OK,
      demo_boot_state\<lparr>attempts_remaining := 2, generation := 8\<rparr>, Some (BOOT_DECISION_SLOT_B, 1))"
    using demo_boot_state_valid
    by (simp add: Boot_Control_SelectBoot_body_def)
      (simp add: demo_boot_state_def boot_slot_decision_def Boot_Control_NextGeneration_def)
  moreover have "Boot_Jump_Prepare_body boot_slot_b demo_candidate = (BOOT_JUMP_RESULT_OK,
      \<lparr>jp_vector_address = 0x08100400, jp_initial_stack_pointer = 0x20020000,
       jp_entry_address = 0x08100411\<rparr>)"
    by (simp add: Boot_Jump_Prepare_body_def boot_slot_b_def demo_candidate_def boot_map
        Boot_Image_IsRangeValid_def)
  moreover have "Boot_Target_ImageMatchesState BOOT_SLOT_B demo_boot_state demo_candidate"
    by (simp add: Boot_Target_ImageMatchesState_def demo_boot_state_def demo_candidate_def)
  ultimately show ?thesis
    by (simp add: Boot_Target_Run_def Boot_Target_Run_body_def boot_target_load_def boot_logged_def
        demo_platform_def Boot_Control_SelectBoot_def boot_target_persist_def boot_target_start_def
        Boot_Jump_Prepare_def Let_def demo_boot_state_def [symmetric])
qed

theorem boot_target_starts_checked_image_witness:
  "\<exists>ev st' plan w1 w2 r info. Boot_Target_Run (Some (boot_logged demo_platform)) (Some boot_target_evidence_zero)
      boot_image_info_zero ((), []) =
    (BOOT_TARGET_RESULT_JUMP_RETURNED, Some ev, (), [Persisted st' 1 True, Jumped plan])
    \<and> (\<exists>slot m. slot \<in> {boot_slot_a, boot_slot_b}
        \<and> the (bt_validate_image demo_platform) slot m boot_image_info_zero w1 = (BOOT_IMAGE_RESULT_OK, info, w2))
    \<and> jp_entry_address plan = entry_address info"
proof -
  obtain ev st' plan where run: "Boot_Target_Run (Some (boot_logged demo_platform))
      (Some boot_target_evidence_zero) boot_image_info_zero ((), []) =
    (BOOT_TARGET_RESULT_JUMP_RETURNED, Some ev, (), [Persisted st' 1 True, Jumped plan])"
    using demo_target_run by blast
  from boot_target_starts_checked_image [OF run, of plan] show ?thesis using run by fastforce
qed

end
