(* ===== verification/UdsServer.thy ===== *)
theory UdsServer
  imports Prelude
begin

text \<open>
  The diagnostic server, \<open>src/Core/Src/uds_server.c\<close>: sessions with their timeout, tester
  present, reading data identifiers and the dispatch of the programming services. The two
  application callbacks and the programming abort are functions over a state \<open>'w\<close>. A handler
  works on the record \<open>uds_io\<close>: the server, the caller's response buffer and length, and the
  application state. The part of the response buffer behind an offset is handed to a callback
  as a list of its own and put back in place afterwards.
\<close>

section \<open>Constants and data\<close>

definition CAN_PROTOCOL_UDS_P2_SERVER_MAX_MS :: u16 where "CAN_PROTOCOL_UDS_P2_SERVER_MAX_MS = 50"
definition CAN_PROTOCOL_UDS_P2_STAR_SERVER_MAX_MS :: u32 where
  "CAN_PROTOCOL_UDS_P2_STAR_SERVER_MAX_MS = 5000"
definition CAN_PROTOCOL_UDS_S3_SERVER_TIMEOUT_MS :: u32 where
  "CAN_PROTOCOL_UDS_S3_SERVER_TIMEOUT_MS = 5000"
definition CAN_PROTOCOL_UDS_SESSION_DEFAULT :: u8 where "CAN_PROTOCOL_UDS_SESSION_DEFAULT = 0x01"
definition CAN_PROTOCOL_UDS_SESSION_PROGRAMMING :: u8 where "CAN_PROTOCOL_UDS_SESSION_PROGRAMMING = 0x02"
definition CAN_PROTOCOL_UDS_SESSION_EXTENDED_DIAGNOSTIC :: u8 where
  "CAN_PROTOCOL_UDS_SESSION_EXTENDED_DIAGNOSTIC = 0x03"
definition CAN_PROTOCOL_UDS_SERVICE_DIAGNOSTIC_SESSION_CONTROL :: u8 where
  "CAN_PROTOCOL_UDS_SERVICE_DIAGNOSTIC_SESSION_CONTROL = 0x10"
definition CAN_PROTOCOL_UDS_SERVICE_READ_DATA_BY_IDENTIFIER :: u8 where
  "CAN_PROTOCOL_UDS_SERVICE_READ_DATA_BY_IDENTIFIER = 0x22"
definition CAN_PROTOCOL_UDS_SERVICE_ROUTINE_CONTROL :: u8 where
  "CAN_PROTOCOL_UDS_SERVICE_ROUTINE_CONTROL = 0x31"
definition CAN_PROTOCOL_UDS_SERVICE_REQUEST_DOWNLOAD :: u8 where
  "CAN_PROTOCOL_UDS_SERVICE_REQUEST_DOWNLOAD = 0x34"
definition CAN_PROTOCOL_UDS_SERVICE_TRANSFER_DATA :: u8 where
  "CAN_PROTOCOL_UDS_SERVICE_TRANSFER_DATA = 0x36"
definition CAN_PROTOCOL_UDS_SERVICE_REQUEST_TRANSFER_EXIT :: u8 where
  "CAN_PROTOCOL_UDS_SERVICE_REQUEST_TRANSFER_EXIT = 0x37"
definition CAN_PROTOCOL_UDS_SERVICE_TESTER_PRESENT :: u8 where
  "CAN_PROTOCOL_UDS_SERVICE_TESTER_PRESENT = 0x3E"

lemmas uds_consts = CAN_PROTOCOL_UDS_P2_SERVER_MAX_MS_def CAN_PROTOCOL_UDS_P2_STAR_SERVER_MAX_MS_def
  CAN_PROTOCOL_UDS_S3_SERVER_TIMEOUT_MS_def CAN_PROTOCOL_UDS_SESSION_DEFAULT_def
  CAN_PROTOCOL_UDS_SESSION_PROGRAMMING_def CAN_PROTOCOL_UDS_SESSION_EXTENDED_DIAGNOSTIC_def
  CAN_PROTOCOL_UDS_SERVICE_DIAGNOSTIC_SESSION_CONTROL_def
  CAN_PROTOCOL_UDS_SERVICE_READ_DATA_BY_IDENTIFIER_def CAN_PROTOCOL_UDS_SERVICE_ROUTINE_CONTROL_def
  CAN_PROTOCOL_UDS_SERVICE_REQUEST_DOWNLOAD_def CAN_PROTOCOL_UDS_SERVICE_TRANSFER_DATA_def
  CAN_PROTOCOL_UDS_SERVICE_REQUEST_TRANSFER_EXIT_def CAN_PROTOCOL_UDS_SERVICE_TESTER_PRESENT_def

definition UDS_POSITIVE_RESPONSE_OFFSET :: u8 where "UDS_POSITIVE_RESPONSE_OFFSET = 0x40"
definition UDS_NEGATIVE_RESPONSE_SERVICE :: u8 where "UDS_NEGATIVE_RESPONSE_SERVICE = 0x7F"
definition UDS_SUPPRESS_POSITIVE_RESPONSE_MASK :: u8 where "UDS_SUPPRESS_POSITIVE_RESPONSE_MASK = 0x80"
definition UDS_SUBFUNCTION_MASK :: u8 where "UDS_SUBFUNCTION_MASK = 0x7F"

datatype Uds_NegativeResponseCode = UDS_NRC_NONE | UDS_NRC_SERVICE_NOT_SUPPORTED
  | UDS_NRC_SUBFUNCTION_NOT_SUPPORTED | UDS_NRC_INCORRECT_MESSAGE_LENGTH | UDS_NRC_RESPONSE_TOO_LONG
  | UDS_NRC_CONDITIONS_NOT_CORRECT | UDS_NRC_REQUEST_SEQUENCE_ERROR | UDS_NRC_SECURITY_ACCESS_DENIED
  | UDS_NRC_REQUEST_OUT_OF_RANGE | UDS_NRC_UPLOAD_DOWNLOAD_NOT_ACCEPTED
  | UDS_NRC_TRANSFER_DATA_SUSPENDED | UDS_NRC_GENERAL_PROGRAMMING_FAILURE
  | UDS_NRC_WRONG_BLOCK_SEQUENCE_COUNTER | UDS_NRC_SERVICE_NOT_SUPPORTED_IN_ACTIVE_SESSION

fun uds_nrc_byte :: "Uds_NegativeResponseCode \<Rightarrow> u8" where
  "uds_nrc_byte UDS_NRC_NONE = 0x00"
| "uds_nrc_byte UDS_NRC_SERVICE_NOT_SUPPORTED = 0x11"
| "uds_nrc_byte UDS_NRC_SUBFUNCTION_NOT_SUPPORTED = 0x12"
| "uds_nrc_byte UDS_NRC_INCORRECT_MESSAGE_LENGTH = 0x13"
| "uds_nrc_byte UDS_NRC_RESPONSE_TOO_LONG = 0x14"
| "uds_nrc_byte UDS_NRC_CONDITIONS_NOT_CORRECT = 0x22"
| "uds_nrc_byte UDS_NRC_REQUEST_SEQUENCE_ERROR = 0x24"
| "uds_nrc_byte UDS_NRC_SECURITY_ACCESS_DENIED = 0x33"
| "uds_nrc_byte UDS_NRC_REQUEST_OUT_OF_RANGE = 0x31"
| "uds_nrc_byte UDS_NRC_UPLOAD_DOWNLOAD_NOT_ACCEPTED = 0x70"
| "uds_nrc_byte UDS_NRC_TRANSFER_DATA_SUSPENDED = 0x71"
| "uds_nrc_byte UDS_NRC_GENERAL_PROGRAMMING_FAILURE = 0x72"
| "uds_nrc_byte UDS_NRC_WRONG_BLOCK_SEQUENCE_COUNTER = 0x73"
| "uds_nrc_byte UDS_NRC_SERVICE_NOT_SUPPORTED_IN_ACTIVE_SESSION = 0x7F"

datatype Uds_DidReadResult = UDS_DID_READ_OK | UDS_DID_READ_NOT_SUPPORTED
  | UDS_DID_READ_CONDITIONS_NOT_CORRECT | UDS_DID_READ_BUFFER_TOO_SMALL

type_synonym 'w Uds_ReadDidCallback =
  "u16 \<Rightarrow> bytes \<Rightarrow> u16 \<Rightarrow> u16 \<Rightarrow> 'w \<Rightarrow> Uds_DidReadResult \<times> bytes \<times> u16 \<times> 'w"

type_synonym 'w Uds_ProgrammingCallback =
  "u8 \<Rightarrow> bytes \<Rightarrow> u16 \<Rightarrow> bytes \<Rightarrow> u16 \<Rightarrow> u16 \<Rightarrow> 'w
    \<Rightarrow> Uds_NegativeResponseCode \<times> bytes \<times> u16 \<times> 'w"

type_synonym 'w Uds_ProgrammingAbortCallback = "'w \<Rightarrow> 'w"

record 'w Uds_ServerConfig =
  read_did :: "'w Uds_ReadDidCallback option"
  programming :: "'w Uds_ProgrammingCallback option"
  programming_abort :: "'w Uds_ProgrammingAbortCallback option"

record Uds_ServerStats =
  requests :: u32
  positive_responses :: u32
  negative_responses :: u32
  suppressed_responses :: u32
  unsupported_services :: u32
  unsupported_subfunctions :: u32
  invalid_lengths :: u32
  unsupported_dids :: u32
  session_changes :: u32
  session_timeouts :: u32
  tester_present_requests :: u32
  programming_requests :: u32
  programming_aborts :: u32
  current_session :: u8
  last_service :: u8
  last_nrc :: Uds_NegativeResponseCode

definition uds_stats_zero :: Uds_ServerStats where
  "uds_stats_zero = \<lparr>requests = 0, positive_responses = 0, negative_responses = 0,
     suppressed_responses = 0, unsupported_services = 0, unsupported_subfunctions = 0,
     invalid_lengths = 0, unsupported_dids = 0, session_changes = 0, session_timeouts = 0,
     tester_present_requests = 0, programming_requests = 0, programming_aborts = 0,
     current_session = 0, last_service = 0, last_nrc = UDS_NRC_NONE\<rparr>"

datatype Uds_ServerResult = UDS_SERVER_RESULT_OK | UDS_SERVER_RESULT_RESPONSE_READY
  | UDS_SERVER_RESULT_NO_RESPONSE | UDS_SERVER_RESULT_INVALID_ARGUMENT
  | UDS_SERVER_RESULT_RESPONSE_BUFFER_TOO_SMALL

record 'w Uds_Server =
  us_config :: "'w Uds_ServerConfig"
  us_stats :: Uds_ServerStats
  session_deadline_ms :: u32
  session_timer_active :: bool
  us_initialized :: bool

text \<open>What a request handler reads and writes.\<close>

record 'w uds_io =
  io_server :: "'w Uds_Server"
  io_response :: bytes
  io_length :: u16
  io_world :: 'w

abbreviation io_stats :: "'w uds_io \<Rightarrow> Uds_ServerStats" where
  "io_stats io \<equiv> us_stats (io_server io)"

abbreviation io_count :: "(Uds_ServerStats \<Rightarrow> Uds_ServerStats) \<Rightarrow> 'w uds_io \<Rightarrow> 'w uds_io" where
  "io_count f io \<equiv> io\<lparr>io_server := (io_server io)\<lparr>us_stats := f (io_stats io)\<rparr>\<rparr>"

section \<open>Session timer and responses\<close>

definition Uds_DeadlineReached :: "u32 \<Rightarrow> u32 \<Rightarrow> bool" where
  "Uds_DeadlineReached now_ms deadline_ms \<longleftrightarrow> 0 \<le> sint (now_ms - deadline_ms)"

definition Uds_WriteU16Be :: "bytes \<Rightarrow> nat \<Rightarrow> u16 \<Rightarrow> bytes" where
  "Uds_WriteU16Be d p v = d[p := ucast (drop_bit 8 v), p + 1 := ucast v]"

definition Uds_RefreshSessionTimer :: "'w Uds_Server \<Rightarrow> u32 \<Rightarrow> 'w Uds_Server" where
  "Uds_RefreshSessionTimer server now_ms =
    (if current_session (us_stats server) \<noteq> CAN_PROTOCOL_UDS_SESSION_DEFAULT
     then server\<lparr>session_deadline_ms := now_ms + CAN_PROTOCOL_UDS_S3_SERVER_TIMEOUT_MS,
            session_timer_active := True\<rparr>
     else server)"

definition Uds_AbortProgramming :: "'w Uds_Server \<Rightarrow> 'w \<Rightarrow> 'w Uds_Server \<times> 'w" where
  "Uds_AbortProgramming server w =
    (server\<lparr>us_stats := (us_stats server)\<lparr>programming_aborts := programming_aborts (us_stats server) + 1\<rparr>\<rparr>,
     case programming_abort (us_config server) of None \<Rightarrow> w | Some f \<Rightarrow> f w)"

definition Uds_NegativeResponse :: "u8 \<Rightarrow> Uds_NegativeResponseCode \<Rightarrow> u16 \<Rightarrow> 'w uds_io
    \<Rightarrow> Uds_ServerResult \<times> 'w uds_io" where
  "Uds_NegativeResponse service nrc capacity io =
    (if capacity < 3 then (UDS_SERVER_RESULT_RESPONSE_BUFFER_TOO_SMALL, io)
     else (UDS_SERVER_RESULT_RESPONSE_READY,
       io_count (\<lambda>s. s\<lparr>negative_responses := negative_responses s + 1, last_nrc := nrc\<rparr>)
         (io\<lparr>io_response := (io_response io)[0 := UDS_NEGATIVE_RESPONSE_SERVICE, 1 := service,
               2 := uds_nrc_byte nrc], io_length := 3\<rparr>)))"

section \<open>Services\<close>

text \<open>The switch of the session, with the abort when the programming session is left.\<close>

definition uds_change_session :: "u8 \<Rightarrow> u32 \<Rightarrow> 'w uds_io \<Rightarrow> 'w uds_io" where
  "uds_change_session requested now_ms io =
    (let io = (if current_session (io_stats io) \<noteq> requested then
           (let io = (if current_session (io_stats io) = CAN_PROTOCOL_UDS_SESSION_PROGRAMMING
                \<and> requested \<noteq> CAN_PROTOCOL_UDS_SESSION_PROGRAMMING
              then (case Uds_AbortProgramming (io_server io) (io_world io) of (server, w) \<Rightarrow>
                 io\<lparr>io_server := server, io_world := w\<rparr>)
              else io)
            in io_count (\<lambda>s. s\<lparr>session_changes := session_changes s + 1\<rparr>) io)
         else io);
         io = io_count (\<lambda>s. s\<lparr>current_session := requested\<rparr>) io
     in if requested = CAN_PROTOCOL_UDS_SESSION_DEFAULT
        then io\<lparr>io_server := (io_server io)\<lparr>session_timer_active := False\<rparr>\<rparr>
        else io\<lparr>io_server := Uds_RefreshSessionTimer (io_server io) now_ms\<rparr>)"

definition Uds_ProcessSessionControl :: "bytes \<Rightarrow> u16 \<Rightarrow> u32 \<Rightarrow> u16 \<Rightarrow> 'w uds_io
    \<Rightarrow> Uds_ServerResult \<times> 'w uds_io" where
  "Uds_ProcessSessionControl request request_length now_ms capacity io =
    (if request_length \<noteq> 2 then
       Uds_NegativeResponse (request ! 0) UDS_NRC_INCORRECT_MESSAGE_LENGTH capacity
         (io_count (\<lambda>s. s\<lparr>invalid_lengths := invalid_lengths s + 1\<rparr>) io)
     else
      let suppress_response = request ! 1 AND UDS_SUPPRESS_POSITIVE_RESPONSE_MASK;
          requested_session = request ! 1 AND UDS_SUBFUNCTION_MASK
      in if requested_session \<noteq> CAN_PROTOCOL_UDS_SESSION_DEFAULT
           \<and> requested_session \<noteq> CAN_PROTOCOL_UDS_SESSION_PROGRAMMING
           \<and> requested_session \<noteq> CAN_PROTOCOL_UDS_SESSION_EXTENDED_DIAGNOSTIC
         then Uds_NegativeResponse (request ! 0) UDS_NRC_SUBFUNCTION_NOT_SUPPORTED capacity
           (io_count (\<lambda>s. s\<lparr>unsupported_subfunctions := unsupported_subfunctions s + 1\<rparr>) io)
         else
           let io = uds_change_session requested_session now_ms io
           in if suppress_response \<noteq> 0 then (UDS_SERVER_RESULT_NO_RESPONSE,
                io_count (\<lambda>s. s\<lparr>suppressed_responses := suppressed_responses s + 1\<rparr>) io)
              else if capacity < 6 then (UDS_SERVER_RESULT_RESPONSE_BUFFER_TOO_SMALL, io)
              else
                let p2_star_units = ucast (CAN_PROTOCOL_UDS_P2_STAR_SERVER_MAX_MS div 10);
                    r = (io_response io)[0 := CAN_PROTOCOL_UDS_SERVICE_DIAGNOSTIC_SESSION_CONTROL
                           + UDS_POSITIVE_RESPONSE_OFFSET, 1 := requested_session];
                    r = Uds_WriteU16Be r 2 CAN_PROTOCOL_UDS_P2_SERVER_MAX_MS;
                    r = Uds_WriteU16Be r 4 p2_star_units
                in (UDS_SERVER_RESULT_RESPONSE_READY,
                    io_count (\<lambda>s. s\<lparr>positive_responses := positive_responses s + 1,
                        last_nrc := UDS_NRC_NONE\<rparr>)
                      (io\<lparr>io_response := r, io_length := 6\<rparr>)))"

definition Uds_ProcessTesterPresent :: "bytes \<Rightarrow> u16 \<Rightarrow> u16 \<Rightarrow> 'w uds_io
    \<Rightarrow> Uds_ServerResult \<times> 'w uds_io" where
  "Uds_ProcessTesterPresent request request_length capacity io =
    (if request_length \<noteq> 2 then
       Uds_NegativeResponse (request ! 0) UDS_NRC_INCORRECT_MESSAGE_LENGTH capacity
         (io_count (\<lambda>s. s\<lparr>invalid_lengths := invalid_lengths s + 1\<rparr>) io)
     else
      let suppress_response = request ! 1 AND UDS_SUPPRESS_POSITIVE_RESPONSE_MASK;
          subfunction = request ! 1 AND UDS_SUBFUNCTION_MASK
      in if subfunction \<noteq> 0 then
           Uds_NegativeResponse (request ! 0) UDS_NRC_SUBFUNCTION_NOT_SUPPORTED capacity
             (io_count (\<lambda>s. s\<lparr>unsupported_subfunctions := unsupported_subfunctions s + 1\<rparr>) io)
         else
           let io = io_count (\<lambda>s. s\<lparr>tester_present_requests := tester_present_requests s + 1\<rparr>) io
           in if suppress_response \<noteq> 0 then (UDS_SERVER_RESULT_NO_RESPONSE,
                io_count (\<lambda>s. s\<lparr>suppressed_responses := suppressed_responses s + 1\<rparr>) io)
              else if capacity < 2 then (UDS_SERVER_RESULT_RESPONSE_BUFFER_TOO_SMALL, io)
              else (UDS_SERVER_RESULT_RESPONSE_READY,
                io_count (\<lambda>s. s\<lparr>positive_responses := positive_responses s + 1,
                    last_nrc := UDS_NRC_NONE\<rparr>)
                  (io\<lparr>io_response := (io_response io)[0 := CAN_PROTOCOL_UDS_SERVICE_TESTER_PRESENT
                        + UDS_POSITIVE_RESPONSE_OFFSET, 1 := 0], io_length := 2\<rparr>)))"

text \<open>
  Reading identifiers: one round of the loop body up to the result of the callback, the error
  exit, and the loop over the request offsets 1, 3, ... below the request length.
\<close>

definition uds_read_one_did :: "u16 \<Rightarrow> u16 \<Rightarrow> u16 \<Rightarrow> 'w uds_io
    \<Rightarrow> Uds_DidReadResult \<times> u16 \<times> u16 \<times> 'w uds_io" where
  "uds_read_one_did did capacity response_offset io =
    (case read_did (us_config (io_server io)) of
       None \<Rightarrow> (UDS_DID_READ_NOT_SUPPORTED, 0, response_offset, io)
     | Some callback \<Rightarrow>
       if capacity - response_offset < 2 then (UDS_DID_READ_BUFFER_TOO_SMALL, 0, response_offset, io)
       else
        let response = Uds_WriteU16Be (io_response io) (unat response_offset) did;
            response_offset = response_offset + 2;
            off = unat response_offset
        in case callback did (drop off response) (capacity - response_offset) 0 (io_world io) of
             (did_result, data, data_length, w) \<Rightarrow>
               (if did_result = UDS_DID_READ_OK \<and> capacity - response_offset < data_length
                then UDS_DID_READ_BUFFER_TOO_SMALL else did_result,
                data_length, response_offset,
                io\<lparr>io_response := take off response @ data, io_world := w\<rparr>))"

definition uds_did_error :: "u8 \<Rightarrow> Uds_DidReadResult \<Rightarrow> u16 \<Rightarrow> 'w uds_io
    \<Rightarrow> Uds_ServerResult \<times> 'w uds_io" where
  "uds_did_error service did_result capacity io =
    (if did_result = UDS_DID_READ_NOT_SUPPORTED then
       Uds_NegativeResponse service UDS_NRC_REQUEST_OUT_OF_RANGE capacity
         (io_count (\<lambda>s. s\<lparr>unsupported_dids := unsupported_dids s + 1\<rparr>) io)
     else if did_result = UDS_DID_READ_BUFFER_TOO_SMALL then
       Uds_NegativeResponse service UDS_NRC_RESPONSE_TOO_LONG capacity io
     else Uds_NegativeResponse service UDS_NRC_CONDITIONS_NOT_CORRECT capacity io)"

fun uds_read_dids :: "bytes \<Rightarrow> u16 \<Rightarrow> nat list \<Rightarrow> u16 \<Rightarrow> 'w uds_io
    \<Rightarrow> Uds_ServerResult \<times> 'w uds_io" where
  "uds_read_dids request capacity [] response_offset io =
    (UDS_SERVER_RESULT_RESPONSE_READY,
     io_count (\<lambda>s. s\<lparr>positive_responses := positive_responses s + 1, last_nrc := UDS_NRC_NONE\<rparr>)
       (io\<lparr>io_length := response_offset\<rparr>))"
| "uds_read_dids request capacity (request_offset # offsets) response_offset io =
    (let did = push_bit 8 (ucast (request ! request_offset)) OR ucast (request ! (request_offset + 1))
     in case uds_read_one_did did capacity response_offset io of
          (did_result, data_length, response_offset', io') \<Rightarrow>
            if did_result \<noteq> UDS_DID_READ_OK then uds_did_error (request ! 0) did_result capacity io'
            else uds_read_dids request capacity offsets (response_offset' + data_length) io')"

definition Uds_ProcessReadDid :: "bytes \<Rightarrow> u16 \<Rightarrow> u16 \<Rightarrow> 'w uds_io
    \<Rightarrow> Uds_ServerResult \<times> 'w uds_io" where
  "Uds_ProcessReadDid request request_length capacity io =
    (if request_length < 3 \<or> request_length AND 1 = 0 then
       Uds_NegativeResponse (request ! 0) UDS_NRC_INCORRECT_MESSAGE_LENGTH capacity
         (io_count (\<lambda>s. s\<lparr>invalid_lengths := invalid_lengths s + 1\<rparr>) io)
     else if capacity < 1 then (UDS_SERVER_RESULT_RESPONSE_BUFFER_TOO_SMALL, io)
     else uds_read_dids request capacity
       (map (\<lambda>k. 2 * k + 1) [0..<unat request_length div 2]) 1
       (io\<lparr>io_response := (io_response io)[0 := CAN_PROTOCOL_UDS_SERVICE_READ_DATA_BY_IDENTIFIER
             + UDS_POSITIVE_RESPONSE_OFFSET]\<rparr>))"

definition Uds_ProcessProgramming :: "bytes \<Rightarrow> u16 \<Rightarrow> u16 \<Rightarrow> 'w uds_io
    \<Rightarrow> Uds_ServerResult \<times> 'w uds_io" where
  "Uds_ProcessProgramming request request_length capacity io =
    (if current_session (io_stats io) \<noteq> CAN_PROTOCOL_UDS_SESSION_PROGRAMMING then
       Uds_NegativeResponse (request ! 0) UDS_NRC_SERVICE_NOT_SUPPORTED_IN_ACTIVE_SESSION capacity io
     else case programming (us_config (io_server io)) of
       None \<Rightarrow> Uds_NegativeResponse (request ! 0) UDS_NRC_CONDITIONS_NOT_CORRECT capacity io
     | Some callback \<Rightarrow>
       if capacity < 1 then (UDS_SERVER_RESULT_RESPONSE_BUFFER_TOO_SMALL, io)
       else
        let io = io_count (\<lambda>s. s\<lparr>programming_requests := programming_requests s + 1\<rparr>) io
        in case callback (request ! 0) request request_length (drop 1 (io_response io))
               (capacity - 1) 0 (io_world io) of
             (nrc, data, data_length, w) \<Rightarrow>
               let io = io\<lparr>io_response := take 1 (io_response io) @ data, io_world := w\<rparr>
               in if nrc \<noteq> UDS_NRC_NONE then Uds_NegativeResponse (request ! 0) nrc capacity io
                  else if capacity - 1 < data_length
                  then Uds_NegativeResponse (request ! 0) UDS_NRC_RESPONSE_TOO_LONG capacity io
                  else (UDS_SERVER_RESULT_RESPONSE_READY,
                    io_count (\<lambda>s. s\<lparr>positive_responses := positive_responses s + 1,
                        last_nrc := UDS_NRC_NONE\<rparr>)
                      (io\<lparr>io_response := (io_response io)[0 := request ! 0 + UDS_POSITIVE_RESPONSE_OFFSET],
                          io_length := data_length + 1\<rparr>)))"

section \<open>Server\<close>

definition Uds_Server_Init :: "'w Uds_Server option \<Rightarrow> 'w Uds_ServerConfig option
    \<Rightarrow> Uds_ServerResult \<times> 'w Uds_Server option" where
  "Uds_Server_Init server config = (case (server, config) of
     (Some _, Some cfg) \<Rightarrow> (UDS_SERVER_RESULT_OK,
       Some \<lparr>us_config = cfg,
         us_stats = uds_stats_zero\<lparr>current_session := CAN_PROTOCOL_UDS_SESSION_DEFAULT\<rparr>,
         session_deadline_ms = 0, session_timer_active = False, us_initialized = True\<rparr>)
   | _ \<Rightarrow> (UDS_SERVER_RESULT_INVALID_ARGUMENT, server))"

definition Uds_Server_Tick_body :: "'w Uds_Server \<Rightarrow> u32 \<Rightarrow> 'w \<Rightarrow> 'w Uds_Server \<times> 'w" where
  "Uds_Server_Tick_body server now_ms w =
    (if \<not> us_initialized server \<or> \<not> session_timer_active server then (server, w)
     else if Uds_DeadlineReached now_ms (session_deadline_ms server) then
       (let (server, w) = (if current_session (us_stats server) = CAN_PROTOCOL_UDS_SESSION_PROGRAMMING
              then Uds_AbortProgramming server w else (server, w))
        in (server\<lparr>us_stats := (us_stats server)\<lparr>current_session := CAN_PROTOCOL_UDS_SESSION_DEFAULT,
               session_timeouts := session_timeouts (us_stats server) + 1\<rparr>,
             session_timer_active := False\<rparr>, w))
     else (server, w))"

definition Uds_Server_Tick :: "'w Uds_Server option \<Rightarrow> u32 \<Rightarrow> 'w \<Rightarrow> 'w Uds_Server option \<times> 'w" where
  "Uds_Server_Tick server now_ms w = (case server of None \<Rightarrow> (None, w)
     | Some s \<Rightarrow> map_prod Some id (Uds_Server_Tick_body s now_ms w))"

definition uds_dispatch :: "bytes \<Rightarrow> u16 \<Rightarrow> u32 \<Rightarrow> u16 \<Rightarrow> 'w uds_io
    \<Rightarrow> Uds_ServerResult \<times> 'w uds_io" where
  "uds_dispatch request request_length now_ms capacity io =
    (let service = request ! 0
     in if service = CAN_PROTOCOL_UDS_SERVICE_DIAGNOSTIC_SESSION_CONTROL
        then Uds_ProcessSessionControl request request_length now_ms capacity io
        else if service = CAN_PROTOCOL_UDS_SERVICE_READ_DATA_BY_IDENTIFIER
        then Uds_ProcessReadDid request request_length capacity io
        else if service = CAN_PROTOCOL_UDS_SERVICE_TESTER_PRESENT
        then Uds_ProcessTesterPresent request request_length capacity io
        else if service = CAN_PROTOCOL_UDS_SERVICE_ROUTINE_CONTROL
          \<or> service = CAN_PROTOCOL_UDS_SERVICE_REQUEST_DOWNLOAD
          \<or> service = CAN_PROTOCOL_UDS_SERVICE_TRANSFER_DATA
          \<or> service = CAN_PROTOCOL_UDS_SERVICE_REQUEST_TRANSFER_EXIT
        then Uds_ProcessProgramming request request_length capacity io
        else Uds_NegativeResponse service UDS_NRC_SERVICE_NOT_SUPPORTED capacity
          (io_count (\<lambda>s. s\<lparr>unsupported_services := unsupported_services s + 1\<rparr>) io))"

definition Uds_Server_ProcessRequest_body :: "bytes \<Rightarrow> u16 \<Rightarrow> u32 \<Rightarrow> u16 \<Rightarrow> 'w uds_io
    \<Rightarrow> Uds_ServerResult \<times> 'w uds_io" where
  "Uds_Server_ProcessRequest_body request request_length now_ms capacity io =
    (if request_length = 0 \<or> \<not> us_initialized (io_server io)
     then (UDS_SERVER_RESULT_INVALID_ARGUMENT, io)
     else
      let io = io\<lparr>io_length := 0\<rparr>;
          (server, w) = Uds_Server_Tick_body (io_server io) now_ms (io_world io);
          io = io\<lparr>io_server := Uds_RefreshSessionTimer server now_ms, io_world := w\<rparr>;
          io = io_count (\<lambda>s. s\<lparr>requests := requests s + 1, last_service := request ! 0\<rparr>) io
      in uds_dispatch request request_length now_ms capacity io)"

definition Uds_Server_ProcessRequest :: "'w Uds_Server option \<Rightarrow> bytes option \<Rightarrow> u16 \<Rightarrow> u32
    \<Rightarrow> bytes option \<Rightarrow> u16 \<Rightarrow> u16 option \<Rightarrow> 'w
    \<Rightarrow> Uds_ServerResult \<times> 'w Uds_Server option \<times> bytes option \<times> u16 option \<times> 'w" where
  "Uds_Server_ProcessRequest server request request_length now_ms response capacity response_length w =
    (case (server, request, response, response_length) of
       (Some s, Some req, Some rsp, Some len) \<Rightarrow>
         (case Uds_Server_ProcessRequest_body req request_length now_ms capacity
            \<lparr>io_server = s, io_response = rsp, io_length = len, io_world = w\<rparr> of
          (res, io) \<Rightarrow> (res, Some (io_server io), Some (io_response io), Some (io_length io), io_world io))
     | _ \<Rightarrow> (UDS_SERVER_RESULT_INVALID_ARGUMENT, server, response, response_length, w))"

definition Uds_Server_GetStats :: "'w Uds_Server option \<Rightarrow> Uds_ServerStats option \<Rightarrow> Uds_ServerStats option" where
  "Uds_Server_GetStats server stats = (case (server, stats) of
     (Some s, Some _) \<Rightarrow> Some (us_stats s) | _ \<Rightarrow> stats)"

section \<open>Session invariant\<close>

text \<open>The session is one of the three, and its timer runs exactly outside the default session.\<close>

definition uds_session_inv :: "'w Uds_Server \<Rightarrow> bool" where
  "uds_session_inv server \<longleftrightarrow>
     current_session (us_stats server) \<in> {CAN_PROTOCOL_UDS_SESSION_DEFAULT,
       CAN_PROTOCOL_UDS_SESSION_PROGRAMMING, CAN_PROTOCOL_UDS_SESSION_EXTENDED_DIAGNOSTIC}
     \<and> (session_timer_active server \<longleftrightarrow> current_session (us_stats server) \<noteq> CAN_PROTOCOL_UDS_SESSION_DEFAULT)"

text \<open>
  A handler leaves the session alone, up to counters: the same configuration, session and
  timer.
\<close>

definition same_session :: "'w uds_io \<Rightarrow> 'w uds_io \<Rightarrow> bool" where
  "same_session io io' \<longleftrightarrow> us_config (io_server io') = us_config (io_server io)
     \<and> us_initialized (io_server io') = us_initialized (io_server io)
     \<and> current_session (io_stats io') = current_session (io_stats io)
     \<and> session_timer_active (io_server io') = session_timer_active (io_server io)
     \<and> session_deadline_ms (io_server io') = session_deadline_ms (io_server io)"

lemma same_session_refl [simp]: "same_session io io"
  by (simp add: same_session_def)

lemma same_session_trans: "same_session a b \<Longrightarrow> same_session b c \<Longrightarrow> same_session a c"
  by (simp add: same_session_def)

lemma negative_session:
  "same_session a b \<Longrightarrow> same_session a (snd (Uds_NegativeResponse s nrc cap b))"
  by (simp add: Uds_NegativeResponse_def same_session_def)

lemma tester_present_session: "same_session io (snd (Uds_ProcessTesterPresent req n cap io))"
  by (auto simp: Uds_ProcessTesterPresent_def Let_def intro!: negative_session)
    (auto simp: same_session_def)

lemma read_one_session:
  assumes "uds_read_one_did did cap off io = (r, n, off', io')"
  shows "same_session io io'"
  using assms by (auto simp: uds_read_one_did_def Let_def same_session_def
      split: option.splits if_splits prod.splits)

lemma did_error_session: "same_session a b \<Longrightarrow> same_session a (snd (uds_did_error s r cap b))"
  by (auto simp: uds_did_error_def intro!: negative_session) (auto simp: same_session_def)

lemma read_dids_session: "same_session a b \<Longrightarrow> same_session a (snd (uds_read_dids req cap offs off b))"
proof (induction offs arbitrary: off b)
  case Nil
  then show ?case by (simp add: same_session_def)
next
  case (Cons p offs)
  obtain r n off' io' where one: "uds_read_one_did (push_bit 8 (ucast (req ! p)) OR ucast (req ! Suc p))
      cap off b = (r, n, off', io')" by (metis prod.exhaust)
  show ?case using same_session_trans [OF Cons.prems read_one_session [OF one]] Cons.IH
    by (simp add: one Let_def did_error_session)
qed

lemma read_did_session: "same_session io (snd (Uds_ProcessReadDid req n cap io))"
  by (auto simp: Uds_ProcessReadDid_def intro!: negative_session read_dids_session)
    (auto simp: same_session_def)

lemma programming_session: "same_session io (snd (Uds_ProcessProgramming req n cap io))"
  by (auto simp: Uds_ProcessProgramming_def Let_def intro!: negative_session
      split: option.splits prod.splits)
    (auto simp: same_session_def)

lemma tick_inv:
  assumes "uds_session_inv s"
  shows "uds_session_inv (fst (Uds_Server_Tick_body s now w))"
  using assms by (auto simp: Uds_Server_Tick_body_def Let_def uds_session_inv_def Uds_AbortProgramming_def
      uds_consts)

lemma refresh_inv: "uds_session_inv s \<Longrightarrow> uds_session_inv (Uds_RefreshSessionTimer s now)"
  by (auto simp: Uds_RefreshSessionTimer_def uds_session_inv_def)

lemma inv_same_session: "same_session a b \<Longrightarrow> uds_session_inv (io_server a) \<Longrightarrow> uds_session_inv (io_server b)"
  by (simp add: same_session_def uds_session_inv_def)

lemma change_session_inv:
  assumes "s \<in> {CAN_PROTOCOL_UDS_SESSION_DEFAULT, CAN_PROTOCOL_UDS_SESSION_PROGRAMMING,
    CAN_PROTOCOL_UDS_SESSION_EXTENDED_DIAGNOSTIC}"
  shows "uds_session_inv (io_server (uds_change_session s now io))"
    "current_session (io_stats (uds_change_session s now io)) = s"
  using assms by (auto simp: uds_change_session_def Let_def uds_session_inv_def
      Uds_RefreshSessionTimer_def Uds_AbortProgramming_def split: prod.splits)

lemma session_control_cases:
  obtains (same) "same_session io (snd (Uds_ProcessSessionControl req n now cap io))"
      "io_world (snd (Uds_ProcessSessionControl req n now cap io)) = io_world io"
  | (change) s where "s \<in> {CAN_PROTOCOL_UDS_SESSION_DEFAULT, CAN_PROTOCOL_UDS_SESSION_PROGRAMMING,
        CAN_PROTOCOL_UDS_SESSION_EXTENDED_DIAGNOSTIC}" "s = req ! 1 AND UDS_SUBFUNCTION_MASK"
      "same_session (uds_change_session s now io) (snd (Uds_ProcessSessionControl req n now cap io))"
      "io_world (snd (Uds_ProcessSessionControl req n now cap io)) = io_world (uds_change_session s now io)"
proof (cases "n = 2 \<and> req ! 1 AND UDS_SUBFUNCTION_MASK \<in> {CAN_PROTOCOL_UDS_SESSION_DEFAULT,
    CAN_PROTOCOL_UDS_SESSION_PROGRAMMING, CAN_PROTOCOL_UDS_SESSION_EXTENDED_DIAGNOSTIC}")
  case True
  then show ?thesis
    by (intro change [of "req ! 1 AND UDS_SUBFUNCTION_MASK"])
      (auto simp: Uds_ProcessSessionControl_def Let_def same_session_def)
next
  case False
  then have "Uds_ProcessSessionControl req n now cap io = Uds_NegativeResponse (req ! 0)
      (if n \<noteq> 2 then UDS_NRC_INCORRECT_MESSAGE_LENGTH else UDS_NRC_SUBFUNCTION_NOT_SUPPORTED) cap
      (if n \<noteq> 2 then io_count (\<lambda>s. s\<lparr>invalid_lengths := invalid_lengths s + 1\<rparr>) io
       else io_count (\<lambda>s. s\<lparr>unsupported_subfunctions := unsupported_subfunctions s + 1\<rparr>) io)"
    by (auto simp: Uds_ProcessSessionControl_def Let_def)
  then show ?thesis by (intro same) (auto simp: Uds_NegativeResponse_def same_session_def)
qed

lemma dispatch_inv:
  assumes "uds_session_inv (io_server io)"
  shows "uds_session_inv (io_server (snd (uds_dispatch req n now cap io)))"
proof -
  have "uds_session_inv (io_server (snd (Uds_ProcessSessionControl req n now cap io)))"
    by (rule session_control_cases [of io req n now cap])
      (auto intro: inv_same_session assms change_session_inv)
  then show ?thesis
    using inv_same_session [OF tester_present_session assms] inv_same_session [OF read_did_session assms]
      inv_same_session [OF programming_session assms] inv_same_session [OF negative_session assms]
    by (auto simp: uds_dispatch_def Let_def same_session_def)
qed

lemma process_inv:
  assumes "uds_session_inv (io_server io)"
  shows "uds_session_inv (io_server (snd (Uds_Server_ProcessRequest_body req n now cap io)))"
proof -
  obtain s w where t: "Uds_Server_Tick_body (io_server io) now (io_world io) = (s, w)" by fastforce
  have "uds_session_inv (Uds_RefreshSessionTimer s now)"
    using refresh_inv tick_inv [OF assms, of now "io_world io"] by (simp add: t)
  then show ?thesis using assms
    by (simp add: Uds_Server_ProcessRequest_body_def t Let_def)
      (intro impI dispatch_inv, simp add: uds_session_inv_def)
qed


section \<open>Answers inside the buffer\<close>

text \<open>Nothing behind the capacity changes, and the buffer keeps its length.\<close>

definition uds_within :: "u16 \<Rightarrow> bytes \<Rightarrow> bytes \<Rightarrow> bool" where
  "uds_within cap r r' \<longleftrightarrow> length r' = length r \<and> drop (unat cap) r' = drop (unat cap) r"

text \<open>A well-formed answer to a request: positive, or negative with a reason.\<close>

definition uds_answer :: "u8 \<Rightarrow> u16 \<Rightarrow> bytes \<Rightarrow> u16 \<Rightarrow> bool" where
  "uds_answer sid cap r n \<longleftrightarrow> 0 < n \<and> n \<le> cap
     \<and> (r ! 0 = sid + 0x40 \<or> n = 3 \<and> (\<exists>nrc. nrc \<noteq> UDS_NRC_NONE \<and> r ! 0 = 0x7F \<and> r ! 1 = sid \<and> r ! 2 = uds_nrc_byte nrc))"

definition uds_outcome :: "u8 \<Rightarrow> u16 \<Rightarrow> bytes \<Rightarrow> Uds_ServerResult \<times> 'w uds_io \<Rightarrow> bool" where
  "uds_outcome sid cap r0 x \<longleftrightarrow> uds_within cap r0 (io_response (snd x))
     \<and> (fst x = UDS_SERVER_RESULT_RESPONSE_READY \<longrightarrow> uds_answer sid cap (io_response (snd x)) (io_length (snd x)))
     \<and> (fst x \<noteq> UDS_SERVER_RESULT_RESPONSE_READY \<longrightarrow> io_length (snd x) = 0)"

lemma within_refl [simp]: "uds_within cap r r"
  by (simp add: uds_within_def)

lemma within_trans: "uds_within cap a b \<Longrightarrow> uds_within cap b c \<Longrightarrow> uds_within cap a c"
  by (simp add: uds_within_def)

lemma within_update: "k < unat cap \<Longrightarrow> uds_within cap r (r[k := b])"
  by (simp add: uds_within_def)

lemma within_updates:
  "uds_within cap a r \<Longrightarrow> k < unat cap \<Longrightarrow> uds_within cap a (r[k := b])"
  by (simp add: uds_within_def)

lemma within_tail:
  assumes "uds_within cap a r" "off \<le> unat cap" "unat cap \<le> length r" "n = cap - of_nat off"
    and "length d = length (drop off r)" "drop (unat n) d = drop (unat n) (drop off r)"
  shows "uds_within cap a (take off r @ d)"
proof -
  have "off < 65536" using assms(2) unat_u16_less [of cap] by linarith
  then have "unat (of_nat off :: u16) = off" by (simp add: unat_of_nat)
  then have n: "unat n = unat cap - off"
    using assms(2) unat_sub_le [of "of_nat off" cap] by (simp add: assms(4) word_le_nat_alt)
  have "drop (unat cap) (take off r @ d) = drop (unat cap - off) d"
    using assms(2,3) by simp
  also have "\<dots> = drop (unat cap) r" using assms(2,6) by (simp add: n)
  finally show ?thesis using assms(1,3,5) assms(2) by (simp add: uds_within_def)
qed

section \<open>What the application promises\<close>

text \<open>
  A callback is handed the free part of the response buffer and its size; it may fill that
  part and must not touch what lies behind it.
\<close>

locale uds_application =
  fixes cfg :: "'w Uds_ServerConfig"
  assumes did_in_bounds: "read_did cfg = Some f \<Longrightarrow> f did buf cap len w = (r, buf', len', w')
      \<Longrightarrow> unat cap \<le> length buf \<Longrightarrow> length buf' = length buf \<and> drop (unat cap) buf' = drop (unat cap) buf"
    and programming_in_bounds: "programming cfg = Some g \<Longrightarrow> g srv req n buf cap len w = (nrc, buf', len', w')
      \<Longrightarrow> unat cap \<le> length buf \<Longrightarrow> length buf' = length buf \<and> drop (unat cap) buf' = drop (unat cap) buf"
begin

lemma negative_outcome:
  assumes "uds_within cap r0 (io_response io)" "unat cap \<le> length r0" "io_length io = 0" "nrc \<noteq> UDS_NRC_NONE"
  shows "uds_outcome sid cap r0 (Uds_NegativeResponse sid nrc cap io)"
proof (cases "cap < 3")
  case True
  then show ?thesis using assms by (simp add: uds_outcome_def Uds_NegativeResponse_def)
next
  case False
  then have "3 \<le> unat cap" "3 \<le> cap" by (simp_all add: nat_of_word)
  moreover have "length (io_response io) = length r0" using assms(1) by (simp add: uds_within_def)
  moreover from this have "3 \<le> length (io_response io)" using \<open>3 \<le> unat cap\<close> assms(2) by simp
  moreover from this have "r0 \<noteq> []" using \<open>length (io_response io) = length r0\<close> by auto
  ultimately show ?thesis using False assms
    by (auto simp: uds_outcome_def Uds_NegativeResponse_def uds_answer_def UDS_NEGATIVE_RESPONSE_SERVICE_def
        intro!: within_updates)
qed

lemma session_control_outcome:
  assumes "unat cap \<le> length (io_response io)" "io_length io = 0"
    "req ! 0 = CAN_PROTOCOL_UDS_SERVICE_DIAGNOSTIC_SESSION_CONTROL"
  shows "uds_outcome (req ! 0) cap (io_response io) (Uds_ProcessSessionControl req n now cap io)"
proof -
  have keep: "io_response (uds_change_session s now io) = io_response io"
    "io_length (uds_change_session s now io) = io_length io" for s
    by (auto simp: uds_change_session_def Let_def split: prod.splits)
  have "\<not> cap < 6 \<Longrightarrow> 6 \<le> unat cap \<and> io_response io \<noteq> []" using assms(1) by (auto simp: nat_of_word)
  then show ?thesis
    using assms by (auto simp: Uds_ProcessSessionControl_def Let_def keep intro!: negative_outcome)
      (auto simp: uds_outcome_def keep uds_answer_def Uds_WriteU16Be_def uds_consts UDS_POSITIVE_RESPONSE_OFFSET_def
        not_less intro!: within_updates)
qed

lemma tester_present_outcome:
  assumes "unat cap \<le> length (io_response io)" "io_length io = 0"
    "req ! 0 = CAN_PROTOCOL_UDS_SERVICE_TESTER_PRESENT"
  shows "uds_outcome (req ! 0) cap (io_response io) (Uds_ProcessTesterPresent req n cap io)"
proof -
  have "\<not> cap < 2 \<Longrightarrow> 2 \<le> unat cap \<and> io_response io \<noteq> []" using assms(1) by (auto simp: nat_of_word)
  then show ?thesis
    using assms by (auto simp: Uds_ProcessTesterPresent_def Let_def intro!: negative_outcome)
      (auto simp: uds_outcome_def uds_answer_def uds_consts UDS_POSITIVE_RESPONSE_OFFSET_def
        not_less intro!: within_updates)
qed

lemma programming_outcome:
  assumes "unat cap \<le> length (io_response io)" "io_length io = 0" "us_config (io_server io) = cfg"
  shows "uds_outcome (req ! 0) cap (io_response io) (Uds_ProcessProgramming req n cap io)"
proof (cases "current_session (io_stats io) = CAN_PROTOCOL_UDS_SESSION_PROGRAMMING
    \<and> programming cfg \<noteq> None \<and> \<not> cap < 1")
  case False
  then show ?thesis using assms
    by (auto simp: Uds_ProcessProgramming_def intro!: negative_outcome split: option.splits)
      (auto simp: uds_outcome_def)
next
  case True
  then obtain f where f: "programming cfg = Some f" by auto
  have cap: "1 \<le> unat cap" "1 \<le> cap" using True by (simp_all add: nat_of_word)
  then have cap1: "unat (cap - 1) = unat cap - 1" by (simp add: unat_dec nat_of_word)
  obtain nrc d len w where call: "f (req ! 0) req n (drop (Suc 0) (io_response io)) (cap - 1) 0 (io_world io)
      = (nrc, d, len, w)" by (metis prod.exhaust)
  have d: "length d = length (drop (Suc 0) (io_response io))"
    "drop (unat (cap - 1)) d = drop (unat (cap - 1)) (drop (Suc 0) (io_response io))"
    using programming_in_bounds [OF f call] assms(1) cap1 by (simp_all add: diff_le_mono)
  have r: "uds_within cap (io_response io) (take (Suc 0) (io_response io) @ d)"
    using cap assms(1) d by (intro within_tail [where n = "cap - 1"]) simp_all
  have len: "0 < len + 1 \<and> len + 1 \<le> cap" if "\<not> cap - 1 < len"
  proof -
    have "unat len \<le> unat cap - 1" using that cap1 by (simp add: nat_of_word)
    then have "unat len < 65535" using cap unat_u16_less [of cap] by linarith
    then have "unat (len + 1) = unat len + 1" using unat_add_small [of len 1] by simp
    then show ?thesis using \<open>unat len \<le> unat cap - 1\<close> cap by (simp add: nat_of_word)
  qed
  define io2 where "io2 = (io_count (\<lambda>s. s\<lparr>programming_requests := programming_requests s + 1\<rparr>) io)
    \<lparr>io_response := take (Suc 0) (io_response io) @ d, io_world := w\<rparr>"
  have run: "Uds_ProcessProgramming req n cap io =
    (if nrc \<noteq> UDS_NRC_NONE then Uds_NegativeResponse (req ! 0) nrc cap io2
     else if cap - 1 < len then Uds_NegativeResponse (req ! 0) UDS_NRC_RESPONSE_TOO_LONG cap io2
     else (UDS_SERVER_RESULT_RESPONSE_READY,
       io_count (\<lambda>s. s\<lparr>positive_responses := positive_responses s + 1, last_nrc := UDS_NRC_NONE\<rparr>)
         (io2\<lparr>io_response := (io_response io2)[0 := req ! 0 + UDS_POSITIVE_RESPONSE_OFFSET],
            io_length := len + 1\<rparr>)))"
    using True by (simp add: Uds_ProcessProgramming_def assms(3) f call Let_def io2_def)
  have io2: "uds_within cap (io_response io) (io_response io2)" "io_length io2 = 0" "io_response io2 \<noteq> []"
    using r assms(1,2) cap by (auto simp: io2_def)
  have ready: "uds_outcome (req ! 0) cap (io_response io) (UDS_SERVER_RESULT_RESPONSE_READY,
       io_count (\<lambda>s. s\<lparr>positive_responses := positive_responses s + 1, last_nrc := UDS_NRC_NONE\<rparr>)
         (io2\<lparr>io_response := (io_response io2)[0 := req ! 0 + UDS_POSITIVE_RESPONSE_OFFSET],
            io_length := len + 1\<rparr>))" if "\<not> cap - 1 < len"
    using len [OF that] io2 cap
    by (auto simp: uds_outcome_def uds_answer_def UDS_POSITIVE_RESPONSE_OFFSET_def intro!: within_updates)
  show ?thesis unfolding run using ready by (auto intro!: negative_outcome io2 assms(1))
qed

text \<open>Reading identifiers: the write position stays between 1 and the capacity.\<close>

lemma read_one_within:
  assumes "uds_read_one_did did cap off io = (r, n, off', io')" "us_config (io_server io) = cfg"
    and "uds_within cap r0 (io_response io)" "unat cap \<le> length r0" "off \<le> cap"
  shows "uds_within cap r0 (io_response io') \<and> off' \<le> cap \<and> off \<le> off'
    \<and> io_length io' = io_length io \<and> us_config (io_server io') = cfg
    \<and> (0 < unat off \<longrightarrow> take 1 (io_response io') = take 1 (io_response io))
    \<and> (r = UDS_DID_READ_OK \<longrightarrow> n \<le> cap - off')"
proof (cases "read_did cfg = None \<or> cap - off < 2")
  case True
  then show ?thesis using assms by (auto simp: uds_read_one_did_def split: option.splits if_splits)
next
  case False
  then obtain f where f: "read_did cfg = Some f" and two: "\<not> cap - off < 2" by auto
  have off: "unat off \<le> unat cap" "unat (cap - off) = unat cap - unat off"
    using assms(5) unat_sub_le [of off cap] by (simp_all add: word_le_nat_alt)
  then have room: "unat off + 2 \<le> unat cap" using two by (simp add: nat_of_word)
  then have "unat off + 2 < 65536" using unat_u16_less [of cap] by linarith
  then have off2: "unat (off + 2) = unat off + 2" using unat_add_small [of off 2] by simp
  let ?r = "Uds_WriteU16Be (io_response io) (unat off) did"
  have w: "uds_within cap r0 ?r" using assms(3) room
    by (auto simp: Uds_WriteU16Be_def intro!: within_updates)
  then have len: "length ?r = length r0" by (simp add: uds_within_def)
  obtain r' d k w where call: "f did (drop (unat off + 2) ?r) (cap - (off + 2)) 0 (io_world io) = (r', d, k, w)"
    by (metis prod.exhaust)
  have cap': "unat (cap - (off + 2)) = unat cap - (unat off + 2)"
    using unat_sub_le [of "off + 2" cap] room by (simp add: word_le_nat_alt off2)
  have d: "length d = length (drop (unat off + 2) ?r)"
    "drop (unat (cap - (off + 2))) d = drop (unat (cap - (off + 2))) (drop (unat off + 2) ?r)"
    using did_in_bounds [OF f call] assms(4) cap' len by auto
  have "uds_within cap r0 (take (unat off + 2) ?r @ d)"
    using w room assms(4) len d by (intro within_tail [where n = "cap - (off + 2)"]) (simp_all add: off2 [symmetric])
  moreover have "off + 2 \<le> cap" "off \<le> off + 2" using room off2 by (simp_all add: word_le_nat_alt)
  moreover have "take 1 (take (unat off + 2) ?r @ d) = take 1 (io_response io)" if "0 < unat off"
    using that len room assms(4) by (cases "io_response io") (auto simp: Uds_WriteU16Be_def nth_Cons' split: nat.splits)
  ultimately show ?thesis
    using assms(1,2) f two call by (auto simp: uds_read_one_did_def Let_def off2 not_less split: if_splits)
qed

lemma read_dids_outcome:
  assumes "uds_within cap r0 (io_response io)" "unat cap \<le> length r0" "0 < off" "off \<le> cap"
    and "io_length io = 0" "us_config (io_server io) = cfg" "take 1 (io_response io) = [sid + 0x40]"
    and "sid = req ! 0"
  shows "uds_outcome sid cap r0 (uds_read_dids req cap offs off io)"
  using assms
proof (induction offs arbitrary: off io)
  case Nil
  then show ?case by (cases "io_response io") (auto simp: uds_outcome_def uds_answer_def)
next
  case (Cons p offs)
  obtain r n off' io' where one: "uds_read_one_did (push_bit 8 (ucast (req ! p)) OR ucast (req ! Suc p))
      cap off io = (r, n, off', io')" by (metis prod.exhaust)
  have pos: "0 < unat off" using Cons.prems(3) by (simp add: word_less_nat_alt)
  note step = read_one_within [OF one Cons.prems(6,1,2,4)]
  show ?case
  proof (cases "r = UDS_DID_READ_OK")
    case True
    have off': "unat off' \<le> unat cap" "unat (cap - off') = unat cap - unat off'"
      using step unat_sub_le [of off' cap] by (simp_all add: word_le_nat_alt)
    moreover have "unat n \<le> unat (cap - off')" using step True by (simp only: word_le_nat_alt)
    ultimately have n: "unat off' + unat n \<le> unat cap" by linarith
    then have "unat off' + unat n < 65536" using unat_u16_less [of cap] by linarith
    then have sum: "unat (off' + n) = unat off' + unat n" using unat_add_small [of off' n] by simp
    have "0 < off' + n" "off' + n \<le> cap"
      using n sum step pos by (simp_all add: nat_of_word)
    then show ?thesis using Cons.IH [of io' "off' + n"] step Cons.prems pos True by (simp add: one Let_def)
  next
    case False
    have "uds_outcome sid cap r0 (uds_did_error (req ! 0) r cap io')"
      using step Cons.prems False by (auto simp: uds_did_error_def intro!: negative_outcome)
    then show ?thesis using False by (simp add: one Let_def)
  qed
qed

lemma read_did_outcome:
  assumes "unat cap \<le> length (io_response io)" "io_length io = 0" "us_config (io_server io) = cfg"
    and "req ! 0 = CAN_PROTOCOL_UDS_SERVICE_READ_DATA_BY_IDENTIFIER"
  shows "uds_outcome (req ! 0) cap (io_response io) (Uds_ProcessReadDid req n cap io)"
proof (cases "n < 3 \<or> n AND 1 = 0 \<or> cap < 1")
  case True
  then show ?thesis using assms
    by (auto simp: Uds_ProcessReadDid_def intro!: negative_outcome) (auto simp: uds_outcome_def)
next
  case False
  then have cap: "1 \<le> unat cap" "1 \<le> cap" by (simp_all add: nat_of_word)
  have "uds_outcome (req ! 0) cap (io_response io) (uds_read_dids req cap offs 1
       (io\<lparr>io_response := (io_response io)[0 := CAN_PROTOCOL_UDS_SERVICE_READ_DATA_BY_IDENTIFIER
             + UDS_POSITIVE_RESPONSE_OFFSET]\<rparr>))" for offs
    using assms cap by (intro read_dids_outcome)
      (auto simp: uds_consts UDS_POSITIVE_RESPONSE_OFFSET_def take_update_swap intro!: within_updates,
        cases "io_response io", auto)
  then show ?thesis using False by (simp add: Uds_ProcessReadDid_def)
qed

lemma dispatch_outcome:
  assumes "unat cap \<le> length (io_response io)" "io_length io = 0" "us_config (io_server io) = cfg"
  shows "uds_outcome (req ! 0) cap (io_response io) (uds_dispatch req n now cap io)"
  using assms session_control_outcome [OF assms(1,2)] tester_present_outcome [OF assms(1,2)]
    read_did_outcome [OF assms] programming_outcome [OF assms]
  by (auto simp: uds_dispatch_def Let_def intro!: negative_outcome)

lemma process_outcome:
  assumes "unat cap \<le> length (io_response io)" "us_config (io_server io) = cfg"
    and "n \<noteq> 0" "us_initialized (io_server io)"
  shows "uds_outcome (req ! 0) cap (io_response io) (Uds_Server_ProcessRequest_body req n now cap io)"
proof -
  obtain s w where t: "Uds_Server_Tick_body (io_server io) now (io_world io) = (s, w)" by fastforce
  have "us_config s = cfg" using t assms(2)
    by (auto simp: Uds_Server_Tick_body_def Uds_AbortProgramming_def Let_def split: if_splits)
  then have "us_config (Uds_RefreshSessionTimer s now) = cfg" by (simp add: Uds_RefreshSessionTimer_def)
  moreover define io2 where "io2 = io_count (\<lambda>s. s\<lparr>requests := requests s + 1, last_service := req ! 0\<rparr>)
    (io\<lparr>io_length := 0, io_server := Uds_RefreshSessionTimer s now, io_world := w\<rparr>)"
  ultimately have "us_config (io_server io2) = cfg" "io_length io2 = 0" "io_response io2 = io_response io"
    by simp_all
  then have "uds_outcome (req ! 0) cap (io_response io) (uds_dispatch req n now cap io2)"
    using dispatch_outcome [of cap io2] assms(1) by simp
  then show ?thesis using assms(3,4)
    by (simp add: Uds_Server_ProcessRequest_body_def t Let_def io2_def)
qed

end

text \<open>
  C17. Every answer stays inside the buffer and is well formed. For every request and every
  application that keeps to the part of the buffer it is given, processing leaves the length of
  the response buffer and everything behind its capacity unchanged; a reported response has
  between one byte and the capacity, and is either a positive response to that service or a
  three-byte negative response with that service and a reason; otherwise the length is zero.
\<close>

theorem uds_response_in_bounds:
  assumes "uds_application (us_config s)" "us_initialized s" "n \<noteq> 0" "unat cap \<le> length rsp"
  shows "\<exists>res s' rsp' len' w'. Uds_Server_ProcessRequest (Some s) (Some req) n now (Some rsp) cap (Some len) w
      = (res, Some s', Some rsp', Some len', w')
    \<and> uds_within cap rsp rsp'
    \<and> (res = UDS_SERVER_RESULT_RESPONSE_READY \<longrightarrow> uds_answer (req ! 0) cap rsp' len')
    \<and> (res \<noteq> UDS_SERVER_RESULT_RESPONSE_READY \<longrightarrow> len' = 0)"
proof -
  let ?io = "\<lparr>io_server = s, io_response = rsp, io_length = len, io_world = w\<rparr>"
  obtain res io where run: "Uds_Server_ProcessRequest_body req n now cap ?io = (res, io)" by fastforce
  have "uds_outcome (req ! 0) cap rsp (res, io)"
    using uds_application.process_outcome [OF assms(1), of cap ?io n req now] assms(2-4) by (simp add: run)
  then show ?thesis by (auto simp: Uds_Server_ProcessRequest_def run uds_outcome_def)
qed

section \<open>Lifetime of a session\<close>

lemma deadline_eq: "Uds_DeadlineReached = time_reached"
  by (simp add: fun_eq_iff Uds_DeadlineReached_def time_reached_def)

text \<open>A request restarts the timer of whatever session it leaves the server in.\<close>

definition timer_fresh :: "u32 \<Rightarrow> 'w Uds_Server \<Rightarrow> bool" where
  "timer_fresh now s \<longleftrightarrow> (current_session (us_stats s) \<noteq> CAN_PROTOCOL_UDS_SESSION_DEFAULT
     \<longrightarrow> session_deadline_ms s = now + CAN_PROTOCOL_UDS_S3_SERVER_TIMEOUT_MS)"

lemma timer_fresh_same: "same_session a b \<Longrightarrow> timer_fresh now (io_server a) \<Longrightarrow> timer_fresh now (io_server b)"
  by (simp add: same_session_def timer_fresh_def)

lemma change_session_fresh: "timer_fresh now (io_server (uds_change_session s now io))"
  by (auto simp: uds_change_session_def timer_fresh_def Uds_RefreshSessionTimer_def Let_def)

lemma dispatch_fresh:
  assumes "timer_fresh now (io_server io)"
  shows "timer_fresh now (io_server (snd (uds_dispatch req n now cap io)))"
proof -
  have "timer_fresh now (io_server (snd (Uds_ProcessSessionControl req n now cap io)))"
    by (rule session_control_cases [of io req n now cap])
      (auto intro: timer_fresh_same assms change_session_fresh)
  then show ?thesis
    using timer_fresh_same [OF tester_present_session assms] timer_fresh_same [OF read_did_session assms]
      timer_fresh_same [OF programming_session assms] timer_fresh_same [OF negative_session assms]
    by (auto simp: uds_dispatch_def Let_def same_session_def)
qed

lemma process_fresh:
  assumes "us_initialized (io_server io)" "n \<noteq> 0"
  shows "timer_fresh now (io_server (snd (Uds_Server_ProcessRequest_body req n now cap io)))"
proof -
  obtain s w where t: "Uds_Server_Tick_body (io_server io) now (io_world io) = (s, w)" by fastforce
  have "timer_fresh now (Uds_RefreshSessionTimer s now)"
    by (simp add: timer_fresh_def Uds_RefreshSessionTimer_def)
  then show ?thesis using assms
    by (simp add: Uds_Server_ProcessRequest_body_def t Let_def)
      (intro dispatch_fresh, simp add: timer_fresh_def)
qed

text \<open>Configuration and initialisation never change.\<close>

definition same_setup :: "'w Uds_Server \<Rightarrow> 'w Uds_Server \<Rightarrow> bool" where
  "same_setup a b \<longleftrightarrow> us_config b = us_config a \<and> us_initialized b = us_initialized a"

lemma same_session_setup: "same_session a b \<Longrightarrow> same_setup (io_server a) (io_server b)"
  by (simp add: same_session_def same_setup_def)

lemma change_session_setup: "same_setup (io_server io) (io_server (uds_change_session s now io))"
  by (auto simp: uds_change_session_def Let_def same_setup_def Uds_RefreshSessionTimer_def
      Uds_AbortProgramming_def)

lemma tick_setup: "same_setup s (fst (Uds_Server_Tick_body s now w))"
  by (auto simp: Uds_Server_Tick_body_def Let_def same_setup_def Uds_AbortProgramming_def)

lemma dispatch_setup: "same_setup (io_server io) (io_server (snd (uds_dispatch req n now cap io)))"
proof -
  have "same_setup (io_server io) (io_server (snd (Uds_ProcessSessionControl req n now cap io)))"
  proof (rule session_control_cases [of io req n now cap])
    fix s assume "same_session (uds_change_session s now io) (snd (Uds_ProcessSessionControl req n now cap io))"
    from same_session_setup [OF this] change_session_setup [of io s now]
    show ?thesis by (simp add: same_setup_def)
  qed (rule same_session_setup)
  moreover have "same_setup (io_server io) (io_server (snd (Uds_NegativeResponse s nrc cap (io_count f io))))"
    for s nrc f by (simp add: Uds_NegativeResponse_def same_setup_def)
  ultimately show ?thesis
    by (simp add: uds_dispatch_def Let_def same_session_setup tester_present_session read_did_session
        programming_session)
qed

lemma process_setup: "same_setup (io_server io) (io_server (snd (Uds_Server_ProcessRequest_body req n now cap io)))"
proof -
  obtain s w where t: "Uds_Server_Tick_body (io_server io) now (io_world io) = (s, w)" by fastforce
  define io2 where "io2 = io_count (\<lambda>s. s\<lparr>requests := requests s + 1, last_service := req ! 0\<rparr>)
    (io\<lparr>io_length := 0, io_server := Uds_RefreshSessionTimer s now, io_world := w\<rparr>)"
  have "same_setup (io_server io) (io_server io2)"
    using tick_setup [of "io_server io" now "io_world io"]
    by (simp add: io2_def t same_setup_def Uds_RefreshSessionTimer_def)
  then show ?thesis using dispatch_setup [of io2 req n now cap]
    by (simp add: Uds_Server_ProcessRequest_body_def t Let_def io2_def [symmetric])
      (simp add: same_setup_def io2_def)
qed

lemma tick_expired:
  assumes "us_initialized s" "uds_session_inv s"
    and "current_session (us_stats s) \<noteq> CAN_PROTOCOL_UDS_SESSION_DEFAULT"
    and "Uds_DeadlineReached now (session_deadline_ms s)"
  shows "current_session (us_stats (fst (Uds_Server_Tick_body s now w))) = CAN_PROTOCOL_UDS_SESSION_DEFAULT"
    "\<not> session_timer_active (fst (Uds_Server_Tick_body s now w))"
    "session_timeouts (us_stats (fst (Uds_Server_Tick_body s now w))) = session_timeouts (us_stats s) + 1"
    "snd (Uds_Server_Tick_body s now w) =
      (if current_session (us_stats s) = CAN_PROTOCOL_UDS_SESSION_PROGRAMMING
       then snd (Uds_AbortProgramming s w) else w)"
  using assms by (simp_all add: Uds_Server_Tick_body_def uds_session_inv_def Let_def
      Uds_AbortProgramming_def)

text \<open>
  C18. A session lives exactly as long as it is used. After any request at time \<open>t\<close> that leaves
  the server outside the default session, ticks within the five seconds of the S3 timeout
  change nothing, and the first tick after it (within half the counter range) returns to the
  default session, stops the timer, counts the timeout, and aborts programming exactly if the
  programming session was the one that expired.
\<close>

theorem uds_session_lifetime:
  assumes "us_initialized s0" "uds_session_inv s0" "n \<noteq> 0" "d \<le> 0x7FFFFFFF"
    and "Uds_Server_ProcessRequest (Some s0) (Some req) n t (Some rsp) cap (Some len) w0
      = (res, Some s, Some rsp', Some len', w1)"
    and "current_session (us_stats s) \<noteq> CAN_PROTOCOL_UDS_SESSION_DEFAULT"
  shows "if d < 5000 then Uds_Server_Tick (Some s) (t + d) w = (Some s, w)
     else \<exists>s'. Uds_Server_Tick (Some s) (t + d) w = (Some s',
            if current_session (us_stats s) = CAN_PROTOCOL_UDS_SESSION_PROGRAMMING
            then (case programming_abort (us_config s) of None \<Rightarrow> w | Some f \<Rightarrow> f w) else w)
          \<and> current_session (us_stats s') = CAN_PROTOCOL_UDS_SESSION_DEFAULT
          \<and> \<not> session_timer_active s'
          \<and> session_timeouts (us_stats s') = session_timeouts (us_stats s) + 1"
proof -
  let ?io = "\<lparr>io_server = s0, io_response = rsp, io_length = len, io_world = w0\<rparr>"
  have s: "s = io_server (snd (Uds_Server_ProcessRequest_body req n t cap ?io))"
    using assms(5) by (auto simp: Uds_Server_ProcessRequest_def split: prod.splits)
  have inv: "uds_session_inv s" and fresh: "timer_fresh t s"
    using process_inv [of ?io req n t cap] process_fresh [of ?io n t req cap] assms(1-3) by (simp_all add: s)
  have "us_initialized s" using process_setup [of ?io req n t cap] assms(1) by (simp add: s same_setup_def)
  have dl: "Uds_DeadlineReached (t + d) (session_deadline_ms s) \<longleftrightarrow> 5000 \<le> d"
    using fresh assms(4,6) time_reached_after [of 5000 d t]
    by (simp add: timer_fresh_def deadline_eq uds_consts)
  show ?thesis
  proof (cases "d < 5000")
    case True
    then have "\<not> 5000 \<le> d" by simp
    then show ?thesis using True by (simp add: Uds_Server_Tick_def Uds_Server_Tick_body_def dl)
  next
    case False
    then have "5000 \<le> d" by simp
    note tick = tick_expired [OF \<open>us_initialized s\<close> inv assms(6), of "t + d" w, unfolded dl, OF this]
    obtain s' w' where t: "Uds_Server_Tick_body s (t + d) w = (s', w')" by fastforce
    show ?thesis using False tick by (simp add: t Uds_Server_Tick_def Uds_AbortProgramming_def)
  qed
qed


definition demo_uds_server :: "nat Uds_Server" where
  "demo_uds_server = the (snd (Uds_Server_Init (Some undefined)
     (Some \<lparr>read_did = None, programming = None, programming_abort = Some (\<lambda>w. w + 1)\<rparr>)))"

lemma demo_uds_init: "us_initialized demo_uds_server" "uds_session_inv demo_uds_server"
  "current_session (us_stats demo_uds_server) = CAN_PROTOCOL_UDS_SESSION_DEFAULT"
  "programming_abort (us_config demo_uds_server) = Some (\<lambda>w. w + 1)"
  "read_did (us_config demo_uds_server) = None" "programming (us_config demo_uds_server) = None"
  "\<not> session_timer_active demo_uds_server"
  by (simp_all add: demo_uds_server_def Uds_Server_Init_def uds_session_inv_def)

lemma demo_uds_enter:
  "\<exists>s rsp'. Uds_Server_ProcessRequest (Some demo_uds_server) (Some [0x10, 0x02]) 2 1000
      (Some (replicate 16 0)) 16 (Some 0) 0
    = (UDS_SERVER_RESULT_RESPONSE_READY, Some s, Some rsp', Some 6, 0)
    \<and> current_session (us_stats s) = CAN_PROTOCOL_UDS_SESSION_PROGRAMMING
    \<and> programming_abort (us_config s) = Some (\<lambda>w. w + 1)"
  using demo_uds_init
  by (simp add: Uds_Server_ProcessRequest_def Uds_Server_ProcessRequest_body_def Uds_Server_Tick_body_def
      Uds_RefreshSessionTimer_def uds_dispatch_def Uds_ProcessSessionControl_def uds_change_session_def
      uds_consts UDS_SUPPRESS_POSITIVE_RESPONSE_MASK_def UDS_SUBFUNCTION_MASK_def Let_def)

theorem uds_session_lifetime_witness:
  "\<exists>s s'. Uds_Server_Tick (Some s) 6000 (7 :: nat) = (Some s', 8)
    \<and> current_session (us_stats s') = CAN_PROTOCOL_UDS_SESSION_DEFAULT"
proof -
  obtain s rsp' where req: "Uds_Server_ProcessRequest (Some demo_uds_server) (Some [0x10, 0x02]) 2 1000
      (Some (replicate 16 0)) 16 (Some 0) 0
    = (UDS_SERVER_RESULT_RESPONSE_READY, Some s, Some rsp', Some 6, 0)"
    and s: "current_session (us_stats s) = CAN_PROTOCOL_UDS_SESSION_PROGRAMMING"
      "programming_abort (us_config s) = Some (\<lambda>w. w + 1)"
    using demo_uds_enter by blast
  have "current_session (us_stats s) \<noteq> CAN_PROTOCOL_UDS_SESSION_DEFAULT" by (simp add: s uds_consts)
  from uds_session_lifetime [OF demo_uds_init(1,2) _ _ req this, of 5000 7]
  show ?thesis by (auto simp: s)
qed

theorem uds_response_in_bounds_witness:
  "\<exists>res s' rsp' len' w'. Uds_Server_ProcessRequest (Some demo_uds_server) (Some [0x22, 0xF1, 0x00]) 3 1000
      (Some (replicate 16 0)) 8 (Some 0) 0 = (res, Some s', Some rsp', Some len', w')
    \<and> uds_within 8 (replicate 16 0) rsp'"
proof -
  have "uds_application (us_config demo_uds_server)"
    by unfold_locales (simp_all add: demo_uds_init)
  from uds_response_in_bounds [OF this demo_uds_init(1), of 3 8 "replicate 16 0" "[0x22, 0xF1, 0x00]" 1000 0 0]
  show ?thesis by auto
qed

end
