(* ===== verification/UdsDownload.thy ===== *)
theory UdsDownload
  imports UdsServer BootControl BootMap
begin

text \<open>
  Downloading a new image over UDS, \<open>src/Core/Src/uds_download.c\<close>: the erase routine, the
  request, the numbered blocks, and the exit. The flash backend is the record of function
  pointers over a state \<open>'w\<close>. A handler works on the record \<open>dl_io\<close>: the download state, the
  response data buffer and length, and the backend state.
\<close>

section \<open>Constants and data\<close>

definition CAN_PROTOCOL_UDS_ROUTINE_ERASE_INACTIVE_SLOT :: u16 where
  "CAN_PROTOCOL_UDS_ROUTINE_ERASE_INACTIVE_SLOT = 0xFF00"
definition CAN_PROTOCOL_UDS_DOWNLOAD_DATA_FORMAT_IDENTIFIER :: u8 where
  "CAN_PROTOCOL_UDS_DOWNLOAD_DATA_FORMAT_IDENTIFIER = 0x00"
definition CAN_PROTOCOL_UDS_DOWNLOAD_ADDRESS_LENGTH_FORMAT_IDENTIFIER :: u8 where
  "CAN_PROTOCOL_UDS_DOWNLOAD_ADDRESS_LENGTH_FORMAT_IDENTIFIER = 0x44"
definition CAN_PROTOCOL_UDS_DOWNLOAD_MAX_BLOCK_LENGTH :: u16 where
  "CAN_PROTOCOL_UDS_DOWNLOAD_MAX_BLOCK_LENGTH = 258"
definition UDS_ROUTINE_START :: u8 where "UDS_ROUTINE_START = 0x01"
definition UDS_ROUTINE_REQUEST_RESULTS :: u8 where "UDS_ROUTINE_REQUEST_RESULTS = 0x03"
definition UDS_REQUEST_DOWNLOAD_LENGTH :: u16 where "UDS_REQUEST_DOWNLOAD_LENGTH = 11"
definition UDS_ROUTINE_REQUEST_LENGTH :: u16 where "UDS_ROUTINE_REQUEST_LENGTH = 4"
definition UDS_ROUTINE_RESPONSE_LENGTH :: u16 where "UDS_ROUTINE_RESPONSE_LENGTH = 13"
definition UDS_DOWNLOAD_ROUTINE_STATUS_READY :: u8 where "UDS_DOWNLOAD_ROUTINE_STATUS_READY = 0"
definition UDS_DOWNLOAD_ROUTINE_STATUS_IN_PROGRESS :: u8 where
  "UDS_DOWNLOAD_ROUTINE_STATUS_IN_PROGRESS = 1"
definition UDS_DOWNLOAD_ROUTINE_STATUS_FAILED :: u8 where "UDS_DOWNLOAD_ROUTINE_STATUS_FAILED = 2"

lemmas dl_consts = CAN_PROTOCOL_UDS_ROUTINE_ERASE_INACTIVE_SLOT_def
  CAN_PROTOCOL_UDS_DOWNLOAD_DATA_FORMAT_IDENTIFIER_def
  CAN_PROTOCOL_UDS_DOWNLOAD_ADDRESS_LENGTH_FORMAT_IDENTIFIER_def
  CAN_PROTOCOL_UDS_DOWNLOAD_MAX_BLOCK_LENGTH_def UDS_ROUTINE_START_def
  UDS_ROUTINE_REQUEST_RESULTS_def UDS_REQUEST_DOWNLOAD_LENGTH_def UDS_ROUTINE_REQUEST_LENGTH_def
  UDS_ROUTINE_RESPONSE_LENGTH_def UDS_DOWNLOAD_ROUTINE_STATUS_READY_def
  UDS_DOWNLOAD_ROUTINE_STATUS_IN_PROGRESS_def UDS_DOWNLOAD_ROUTINE_STATUS_FAILED_def

datatype Uds_DownloadBackendResult = UDS_DOWNLOAD_BACKEND_OK | UDS_DOWNLOAD_BACKEND_PENDING
  | UDS_DOWNLOAD_BACKEND_FAILED

datatype Uds_DownloadState = UDS_DOWNLOAD_STATE_IDLE | UDS_DOWNLOAD_STATE_ERASING
  | UDS_DOWNLOAD_STATE_READY | UDS_DOWNLOAD_STATE_TRANSFER | UDS_DOWNLOAD_STATE_COMPLETE
  | UDS_DOWNLOAD_STATE_FAILED

type_synonym 'w Uds_DownloadEraseFn = "Boot_Slot \<Rightarrow> u32 \<Rightarrow> u32 \<Rightarrow> 'w \<Rightarrow> Uds_DownloadBackendResult \<times> 'w"
type_synonym 'w Uds_DownloadWriteFn = "u32 \<Rightarrow> bytes \<Rightarrow> u16 \<Rightarrow> 'w \<Rightarrow> bool \<times> 'w"
type_synonym 'w Uds_DownloadFinalizeFn = "Boot_Slot \<Rightarrow> u32 \<Rightarrow> bytes \<Rightarrow> u32 \<Rightarrow> 'w \<Rightarrow> bool \<times> 'w"

record 'w Uds_DownloadConfig =
  dl_authorize :: "('w \<Rightarrow> bool \<times> 'w) option"
  dl_start_erase :: "'w Uds_DownloadEraseFn option"
  dl_poll_erase :: "'w Uds_DownloadEraseFn option"
  dl_write :: "'w Uds_DownloadWriteFn option"
  dl_finalize :: "'w Uds_DownloadFinalizeFn option"
  dl_abort :: "('w \<Rightarrow> 'w) option"
  dl_running_slot :: Boot_Slot

record Uds_DownloadStats =
  erase_requests :: u32
  blocks_written :: u32
  duplicate_blocks :: u32
  bytes_received :: u32
  completed_downloads :: u32
  failed_downloads :: u32
  dl_state :: Uds_DownloadState
  target_slot :: Boot_Slot
  expected_block_sequence :: u8

record 'w Uds_Download =
  dl_config :: "'w Uds_DownloadConfig"
  dl_stats :: Uds_DownloadStats
  dl_header :: bytes
  target_address :: u32
  target_size :: u32
  artifact_size :: u32
  received_size :: u32
  last_block_sequence :: u8
  has_last_block :: bool
  dl_initialized :: bool

record 'w dl_io =
  dio_download :: "'w Uds_Download"
  dio_response :: bytes
  dio_length :: u16
  dio_world :: 'w

abbreviation dl_upd :: "('w Uds_Download \<Rightarrow> 'w Uds_Download) \<Rightarrow> 'w dl_io \<Rightarrow> 'w dl_io" where
  "dl_upd f io \<equiv> io\<lparr>dio_download := f (dio_download io)\<rparr>"

abbreviation dl_count :: "(Uds_DownloadStats \<Rightarrow> Uds_DownloadStats) \<Rightarrow> 'w dl_io \<Rightarrow> 'w dl_io" where
  "dl_count f \<equiv> dl_upd (\<lambda>d. d\<lparr>dl_stats := f (dl_stats d)\<rparr>)"

abbreviation dl_st :: "'w dl_io \<Rightarrow> Uds_DownloadState" where
  "dl_st io \<equiv> dl_state (dl_stats (dio_download io))"

section \<open>Helpers\<close>

definition Uds_Download_ReadU32Be :: "bytes \<Rightarrow> nat \<Rightarrow> u32" where
  "Uds_Download_ReadU32Be d p = push_bit 24 (ucast (d ! p)) OR push_bit 16 (ucast (d ! (p + 1)))
     OR push_bit 8 (ucast (d ! (p + 2))) OR ucast (d ! (p + 3))"

definition Uds_Download_WriteU32Be :: "bytes \<Rightarrow> nat \<Rightarrow> u32 \<Rightarrow> bytes" where
  "Uds_Download_WriteU32Be d p v = d[p := ucast (drop_bit 24 v), p + 1 := ucast (drop_bit 16 v),
     p + 2 := ucast (drop_bit 8 v), p + 3 := ucast v]"

definition Uds_Download_SetState :: "Uds_DownloadState \<Rightarrow> 'w dl_io \<Rightarrow> 'w dl_io" where
  "Uds_Download_SetState st io = dl_count (\<lambda>s. s\<lparr>dl_state := st\<rparr>) io"

definition Uds_Download_Fail :: "'w dl_io \<Rightarrow> 'w dl_io" where
  "Uds_Download_Fail io =
    (let io = Uds_Download_SetState UDS_DOWNLOAD_STATE_FAILED io;
         io = dl_count (\<lambda>s. s\<lparr>failed_downloads := failed_downloads s + 1\<rparr>) io
     in case dl_abort (dl_config (dio_download io)) of
          None \<Rightarrow> io | Some f \<Rightarrow> io\<lparr>dio_world := f (dio_world io)\<rparr>)"

definition Uds_Download_SlotAddress :: "Boot_Slot \<Rightarrow> u32" where
  "Uds_Download_SlotAddress slot = (if slot = BOOT_SLOT_A then BOOT_SLOT_A_BASE_ADDRESS
     else BOOT_SLOT_B_BASE_ADDRESS)"

definition Uds_Download_SlotSize :: "Boot_Slot \<Rightarrow> u32" where
  "Uds_Download_SlotSize slot = (if slot = BOOT_SLOT_A then BOOT_SLOT_A_REGION_SIZE
     else BOOT_SLOT_B_REGION_SIZE)"

section \<open>Erase routine\<close>

definition Uds_Download_WriteRoutineResponse :: "u8 \<Rightarrow> u8 \<Rightarrow> u16 \<Rightarrow> 'w dl_io
    \<Rightarrow> Uds_NegativeResponseCode \<times> 'w dl_io" where
  "Uds_Download_WriteRoutineResponse subfunction routine_status capacity io =
    (if capacity < UDS_ROUTINE_RESPONSE_LENGTH then (UDS_NRC_RESPONSE_TOO_LONG, io)
     else
      let d = dio_download io;
          r = (dio_response io)[0 := subfunction,
            1 := ucast (drop_bit 8 CAN_PROTOCOL_UDS_ROUTINE_ERASE_INACTIVE_SLOT),
            2 := ucast CAN_PROTOCOL_UDS_ROUTINE_ERASE_INACTIVE_SLOT,
            3 := routine_status, 4 := boot_slot_byte (target_slot (dl_stats d))];
          r = Uds_Download_WriteU32Be r 5 (target_address d);
          r = Uds_Download_WriteU32Be r 9 (target_size d)
      in (UDS_NRC_NONE, io\<lparr>dio_response := r, dio_length := UDS_ROUTINE_RESPONSE_LENGTH\<rparr>))"

text \<open>Starting the erase of the slot that is not running.\<close>

definition dl_routine_start :: "'w dl_io \<Rightarrow> (Uds_NegativeResponseCode + Uds_DownloadBackendResult) \<times> 'w dl_io" where
  "dl_routine_start io =
    (case the (dl_authorize (dl_config (dio_download io))) (dio_world io) of (authorized, w) \<Rightarrow>
       let io = io\<lparr>dio_world := w\<rparr>
       in if \<not> authorized then (Inl UDS_NRC_SECURITY_ACCESS_DENIED, io)
          else if dl_st io \<noteq> UDS_DOWNLOAD_STATE_IDLE then (Inl UDS_NRC_REQUEST_SEQUENCE_ERROR, io)
          else
           let slot = (if dl_running_slot (dl_config (dio_download io)) = BOOT_SLOT_A
                  then BOOT_SLOT_B else BOOT_SLOT_A);
               io = dl_count (\<lambda>s. s\<lparr>target_slot := slot\<rparr>) io;
               io = dl_upd (\<lambda>d. d\<lparr>target_address := Uds_Download_SlotAddress slot,
                  target_size := Uds_Download_SlotSize slot\<rparr>) io;
               io = dl_count (\<lambda>s. s\<lparr>erase_requests := erase_requests s + 1\<rparr>) io
           in case the (dl_start_erase (dl_config (dio_download io))) slot
                 (target_address (dio_download io)) (target_size (dio_download io)) (dio_world io) of
               (res, w) \<Rightarrow> (Inr res, io\<lparr>dio_world := w\<rparr>))"

definition dl_routine_results :: "'w dl_io \<Rightarrow> (Uds_NegativeResponseCode + Uds_DownloadBackendResult) \<times> 'w dl_io" where
  "dl_routine_results io =
    (let d = dio_download io
     in if dl_st io = UDS_DOWNLOAD_STATE_ERASING then
          (case the (dl_poll_erase (dl_config d)) (target_slot (dl_stats d)) (target_address d)
               (target_size d) (dio_world io) of (res, w) \<Rightarrow> (Inr res, io\<lparr>dio_world := w\<rparr>))
        else if dl_st io = UDS_DOWNLOAD_STATE_READY then (Inr UDS_DOWNLOAD_BACKEND_OK, io)
        else if dl_st io = UDS_DOWNLOAD_STATE_FAILED then (Inr UDS_DOWNLOAD_BACKEND_FAILED, io)
        else (Inl UDS_NRC_REQUEST_SEQUENCE_ERROR, io))"

definition Uds_Download_ProcessRoutine :: "bytes \<Rightarrow> u16 \<Rightarrow> u16 \<Rightarrow> 'w dl_io
    \<Rightarrow> Uds_NegativeResponseCode \<times> 'w dl_io" where
  "Uds_Download_ProcessRoutine request request_length capacity io =
    (if request_length \<noteq> UDS_ROUTINE_REQUEST_LENGTH then (UDS_NRC_INCORRECT_MESSAGE_LENGTH, io)
     else if push_bit 8 (ucast (request ! 2)) OR ucast (request ! 3)
        \<noteq> CAN_PROTOCOL_UDS_ROUTINE_ERASE_INACTIVE_SLOT then (UDS_NRC_REQUEST_OUT_OF_RANGE, io)
     else case (if request ! 1 = UDS_ROUTINE_START then dl_routine_start io
                else if request ! 1 = UDS_ROUTINE_REQUEST_RESULTS then dl_routine_results io
                else (Inl UDS_NRC_SUBFUNCTION_NOT_SUPPORTED, io)) of
       (Inl nrc, io) \<Rightarrow> (nrc, io)
     | (Inr backend_result, io) \<Rightarrow>
        let (routine_status, io) =
          (case backend_result of
             UDS_DOWNLOAD_BACKEND_OK \<Rightarrow> (UDS_DOWNLOAD_ROUTINE_STATUS_READY,
               Uds_Download_SetState UDS_DOWNLOAD_STATE_READY io)
           | UDS_DOWNLOAD_BACKEND_PENDING \<Rightarrow> (UDS_DOWNLOAD_ROUTINE_STATUS_IN_PROGRESS,
               Uds_Download_SetState UDS_DOWNLOAD_STATE_ERASING io)
           | UDS_DOWNLOAD_BACKEND_FAILED \<Rightarrow> (UDS_DOWNLOAD_ROUTINE_STATUS_FAILED, Uds_Download_Fail io))
        in Uds_Download_WriteRoutineResponse (request ! 1) routine_status capacity io)"

section \<open>Transfer\<close>

definition Uds_Download_ProcessRequestDownload :: "bytes \<Rightarrow> u16 \<Rightarrow> u16 \<Rightarrow> 'w dl_io
    \<Rightarrow> Uds_NegativeResponseCode \<times> 'w dl_io" where
  "Uds_Download_ProcessRequestDownload request request_length capacity io =
    (if request_length \<noteq> UDS_REQUEST_DOWNLOAD_LENGTH then (UDS_NRC_INCORRECT_MESSAGE_LENGTH, io)
     else if request ! 1 \<noteq> CAN_PROTOCOL_UDS_DOWNLOAD_DATA_FORMAT_IDENTIFIER
        \<or> request ! 2 \<noteq> CAN_PROTOCOL_UDS_DOWNLOAD_ADDRESS_LENGTH_FORMAT_IDENTIFIER
     then (UDS_NRC_REQUEST_OUT_OF_RANGE, io)
     else if dl_st io \<noteq> UDS_DOWNLOAD_STATE_READY then (UDS_NRC_REQUEST_SEQUENCE_ERROR, io)
     else
      let address = Uds_Download_ReadU32Be request 3;
          dsize = Uds_Download_ReadU32Be request 7
      in if address \<noteq> target_address (dio_download io) \<or> dsize < BOOT_IMAGE_HEADER_SIZE
            \<or> target_size (dio_download io) < dsize \<or> dsize mod BOOT_FLASH_PROGRAM_UNIT_SIZE \<noteq> 0
         then (UDS_NRC_REQUEST_OUT_OF_RANGE, io)
         else if capacity < 3 then (UDS_NRC_RESPONSE_TOO_LONG, io)
         else
          let io = dl_upd (\<lambda>d. d\<lparr>dl_header := replicate 1024 0xFF, artifact_size := dsize,
                 received_size := 0, has_last_block := False\<rparr>) io;
              io = dl_count (\<lambda>s. s\<lparr>expected_block_sequence := 1\<rparr>) io;
              io = Uds_Download_SetState UDS_DOWNLOAD_STATE_TRANSFER io
          in (UDS_NRC_NONE, io\<lparr>dio_response := (dio_response io)[0 := 0x20,
                 1 := ucast (drop_bit 8 CAN_PROTOCOL_UDS_DOWNLOAD_MAX_BLOCK_LENGTH),
                 2 := ucast CAN_PROTOCOL_UDS_DOWNLOAD_MAX_BLOCK_LENGTH], dio_length := 3\<rparr>))"

text \<open>
  Storing an accepted block: the part below the header size goes to the header copy, the rest
  is written to flash; \<open>None\<close> is the failure of the write. Then the acknowledgement.
\<close>

definition dl_store_block :: "bytes \<Rightarrow> u16 \<Rightarrow> 'w dl_io \<Rightarrow> bool \<times> 'w dl_io" where
  "dl_store_block block_data block_length io =
    (let d = dio_download io;
         (header_length, io) =
           (if received_size d < BOOT_IMAGE_HEADER_SIZE then
             (let header_remaining = BOOT_IMAGE_HEADER_SIZE - received_size d;
                  header_length = (if ucast block_length < header_remaining then block_length
                                   else ucast header_remaining) :: u16
              in (header_length, dl_upd (\<lambda>d. d\<lparr>dl_header := copy_bytes (unat header_length)
                    (dl_header d) (unat (received_size d)) block_data 0\<rparr>) io))
            else (0, io))
     in if header_length < block_length then
          (let write_length = block_length - header_length;
               write_address = target_address d + received_size d + ucast header_length
           in case the (dl_write (dl_config d)) write_address
                (take (unat write_length) (drop (unat header_length) block_data)) write_length (dio_world io) of
              (ok, w) \<Rightarrow> (ok, io\<lparr>dio_world := w\<rparr>))
        else (True, io))"

definition dl_accept_block :: "u8 \<Rightarrow> u16 \<Rightarrow> 'w dl_io \<Rightarrow> 'w dl_io" where
  "dl_accept_block sequence_number block_length io =
    (let io = dl_upd (\<lambda>d. d\<lparr>received_size := received_size d + ucast block_length\<rparr>) io;
         io = dl_count (\<lambda>s. s\<lparr>bytes_received := bytes_received s + ucast block_length,
                blocks_written := blocks_written s + 1\<rparr>) io;
         io = dl_upd (\<lambda>d. d\<lparr>last_block_sequence := sequence_number, has_last_block := True\<rparr>) io;
         io = dl_count (\<lambda>s. s\<lparr>expected_block_sequence := expected_block_sequence s + 1\<rparr>) io
     in io\<lparr>dio_response := (dio_response io)[0 := sequence_number], dio_length := 1\<rparr>)"

definition Uds_Download_ProcessTransferData :: "bytes \<Rightarrow> u16 \<Rightarrow> u16 \<Rightarrow> 'w dl_io
    \<Rightarrow> Uds_NegativeResponseCode \<times> 'w dl_io" where
  "Uds_Download_ProcessTransferData request request_length capacity io =
    (let d = dio_download io
     in if request_length < 3 \<or> CAN_PROTOCOL_UDS_DOWNLOAD_MAX_BLOCK_LENGTH < request_length
        then (UDS_NRC_INCORRECT_MESSAGE_LENGTH, io)
        else if dl_st io \<noteq> UDS_DOWNLOAD_STATE_TRANSFER then (UDS_NRC_REQUEST_SEQUENCE_ERROR, io)
        else if has_last_block d \<and> request ! 1 = last_block_sequence d then
          (if capacity < 1 then (UDS_NRC_RESPONSE_TOO_LONG, io)
           else (UDS_NRC_NONE, (dl_count (\<lambda>s. s\<lparr>duplicate_blocks := duplicate_blocks s + 1\<rparr>) io)
             \<lparr>dio_response := (dio_response io)[0 := request ! 1], dio_length := 1\<rparr>))
        else if request ! 1 \<noteq> expected_block_sequence (dl_stats d)
        then (UDS_NRC_WRONG_BLOCK_SEQUENCE_COUNTER, io)
        else
         let block_data = drop 2 request; block_length = request_length - 2
         in if artifact_size d - received_size d < ucast block_length
            then (UDS_NRC_TRANSFER_DATA_SUSPENDED, Uds_Download_Fail io)
            else if capacity < 1 then (UDS_NRC_RESPONSE_TOO_LONG, io)
            else case dl_store_block block_data block_length io of (ok, io) \<Rightarrow>
              if \<not> ok then (UDS_NRC_GENERAL_PROGRAMMING_FAILURE, Uds_Download_Fail io)
              else (UDS_NRC_NONE, dl_accept_block (request ! 1) block_length io))"

definition Uds_Download_ProcessTransferExit :: "u16 \<Rightarrow> 'w dl_io
    \<Rightarrow> Uds_NegativeResponseCode \<times> 'w dl_io" where
  "Uds_Download_ProcessTransferExit request_length io =
    (let d = dio_download io
     in if request_length \<noteq> 1 then (UDS_NRC_INCORRECT_MESSAGE_LENGTH, io)
        else if dl_st io \<noteq> UDS_DOWNLOAD_STATE_TRANSFER \<or> received_size d \<noteq> artifact_size d
        then (UDS_NRC_REQUEST_SEQUENCE_ERROR, io)
        else case the (dl_finalize (dl_config d)) (target_slot (dl_stats d)) (target_address d)
            (dl_header d) (artifact_size d) (dio_world io) of (ok, w) \<Rightarrow>
          let io = io\<lparr>dio_world := w\<rparr>
          in if \<not> ok then (UDS_NRC_GENERAL_PROGRAMMING_FAILURE, Uds_Download_Fail io)
             else (UDS_NRC_NONE, (dl_count (\<lambda>s. s\<lparr>completed_downloads := completed_downloads s + 1\<rparr>)
               (Uds_Download_SetState UDS_DOWNLOAD_STATE_COMPLETE io))\<lparr>dio_length := 0\<rparr>))"

section \<open>Interface\<close>

definition dl_stats_zero :: Uds_DownloadStats where
  "dl_stats_zero = \<lparr>erase_requests = 0, blocks_written = 0, duplicate_blocks = 0,
     bytes_received = 0, completed_downloads = 0, failed_downloads = 0,
     dl_state = UDS_DOWNLOAD_STATE_IDLE, target_slot = BOOT_SLOT_NONE, expected_block_sequence = 0\<rparr>"

definition Uds_Download_Init :: "'w Uds_Download option \<Rightarrow> 'w Uds_DownloadConfig option
    \<Rightarrow> Uds_ServerResult \<times> 'w Uds_Download option" where
  "Uds_Download_Init download config = (case (download, config) of
     (Some _, Some cfg) \<Rightarrow>
       if dl_authorize cfg = None \<or> dl_start_erase cfg = None \<or> dl_poll_erase cfg = None
          \<or> dl_write cfg = None \<or> dl_finalize cfg = None
          \<or> dl_running_slot cfg \<noteq> BOOT_SLOT_A \<and> dl_running_slot cfg \<noteq> BOOT_SLOT_B
       then (UDS_SERVER_RESULT_INVALID_ARGUMENT, download)
       else (UDS_SERVER_RESULT_OK, Some \<lparr>dl_config = cfg, dl_stats = dl_stats_zero,
         dl_header = replicate 1024 0, target_address = 0, target_size = 0, artifact_size = 0,
         received_size = 0, last_block_sequence = 0, has_last_block = False, dl_initialized = True\<rparr>)
   | _ \<Rightarrow> (UDS_SERVER_RESULT_INVALID_ARGUMENT, download))"

definition Uds_Download_Handle_body :: "u8 \<Rightarrow> bytes \<Rightarrow> u16 \<Rightarrow> u16 \<Rightarrow> 'w dl_io
    \<Rightarrow> Uds_NegativeResponseCode \<times> 'w dl_io" where
  "Uds_Download_Handle_body service request request_length capacity io =
    (if request_length = 0 \<or> \<not> dl_initialized (dio_download io)
     then (UDS_NRC_CONDITIONS_NOT_CORRECT, io)
     else
      let io = io\<lparr>dio_length := 0\<rparr>
      in if service = CAN_PROTOCOL_UDS_SERVICE_ROUTINE_CONTROL
         then Uds_Download_ProcessRoutine request request_length capacity io
         else if service = CAN_PROTOCOL_UDS_SERVICE_REQUEST_DOWNLOAD
         then Uds_Download_ProcessRequestDownload request request_length capacity io
         else if service = CAN_PROTOCOL_UDS_SERVICE_TRANSFER_DATA
         then Uds_Download_ProcessTransferData request request_length capacity io
         else if service = CAN_PROTOCOL_UDS_SERVICE_REQUEST_TRANSFER_EXIT
         then Uds_Download_ProcessTransferExit request_length io
         else (UDS_NRC_SERVICE_NOT_SUPPORTED, io))"

definition Uds_Download_Handle :: "'w Uds_Download option \<Rightarrow> u8 \<Rightarrow> bytes option \<Rightarrow> u16
    \<Rightarrow> bytes option \<Rightarrow> u16 \<Rightarrow> u16 option \<Rightarrow> 'w
    \<Rightarrow> Uds_NegativeResponseCode \<times> 'w Uds_Download option \<times> bytes option \<times> u16 option \<times> 'w" where
  "Uds_Download_Handle context service request request_length response capacity len w =
    (case (context, request, response, len) of
       (Some d, Some req, Some rsp, Some n) \<Rightarrow>
         (case Uds_Download_Handle_body service req request_length capacity
             \<lparr>dio_download = d, dio_response = rsp, dio_length = n, dio_world = w\<rparr> of
          (nrc, io) \<Rightarrow> (nrc, Some (dio_download io), Some (dio_response io), Some (dio_length io), dio_world io))
     | _ \<Rightarrow> (UDS_NRC_CONDITIONS_NOT_CORRECT, context, response, len, w))"

definition Uds_Download_Abort_body :: "'w Uds_Download \<Rightarrow> 'w \<Rightarrow> 'w Uds_Download \<times> 'w" where
  "Uds_Download_Abort_body d w =
    (if \<not> dl_initialized d then (d, w)
     else (d\<lparr>dl_stats := (dl_stats d)\<lparr>dl_state := UDS_DOWNLOAD_STATE_IDLE, target_slot := BOOT_SLOT_NONE,
              expected_block_sequence := 0\<rparr>,
            target_address := 0, target_size := 0, artifact_size := 0, received_size := 0,
            has_last_block := False\<rparr>,
          case dl_abort (dl_config d) of None \<Rightarrow> w
          | Some f \<Rightarrow> if dl_state (dl_stats d) = UDS_DOWNLOAD_STATE_ERASING
              \<or> dl_state (dl_stats d) = UDS_DOWNLOAD_STATE_READY
              \<or> dl_state (dl_stats d) = UDS_DOWNLOAD_STATE_TRANSFER then f w else w))"

definition Uds_Download_Abort :: "'w Uds_Download option \<Rightarrow> 'w \<Rightarrow> 'w Uds_Download option \<times> 'w" where
  "Uds_Download_Abort download w = (case download of None \<Rightarrow> (None, w)
     | Some d \<Rightarrow> map_prod Some id (Uds_Download_Abort_body d w))"

definition Uds_Download_GetStats :: "'w Uds_Download option \<Rightarrow> Uds_DownloadStats option \<Rightarrow> Uds_DownloadStats option" where
  "Uds_Download_GetStats download stats = (case (download, stats) of
     (Some d, Some _) \<Rightarrow> Some (dl_stats d) | _ \<Rightarrow> stats)"

text \<open>The pair of callbacks with which the server drives a download; the context is the download.\<close>

definition download_callback :: "('w Uds_Download \<times> 'w) Uds_ProgrammingCallback" where
  "download_callback service request request_length buf capacity len = (\<lambda>(d, w).
     case Uds_Download_Handle_body service request request_length capacity
         \<lparr>dio_download = d, dio_response = buf, dio_length = len, dio_world = w\<rparr> of
       (nrc, io) \<Rightarrow> (nrc, dio_response io, dio_length io, (dio_download io, dio_world io)))"

definition download_abort_callback :: "('w Uds_Download \<times> 'w) Uds_ProgrammingAbortCallback" where
  "download_abort_callback = (\<lambda>(d, w). Uds_Download_Abort_body d w)"

end
