(* ===== verification/UdsDownloadSafety.thy ===== *)
theory UdsDownloadSafety
  imports UdsDownload
begin

text \<open>
  The safety of \<open>src/Core/Src/uds_download.c\<close>: the calls it makes on the flash backend, recorded
  in a log, follow an abstract programming protocol on the slot that is not running. The
  invariant \<open>dl_inv\<close> links the state of the download to the state of the protocol; there is
  one preservation lemma per request, and one for the abort.
\<close>

section \<open>The protocol on the flash backend\<close>

text \<open>
  The calls of the backend, recorded by a configuration that logs every call of another one.
\<close>

datatype dl_action = Dl_Authorized bool | Dl_EraseStarted Boot_Slot u32 u32
  | Dl_ErasePolled Boot_Slot u32 u32 | Dl_Written u32 bytes u16 bool
  | Dl_Finalized Boot_Slot u32 bytes u32 bool | Dl_Aborted

definition dl_logged :: "'w Uds_DownloadConfig \<Rightarrow> ('w \<times> dl_action list) Uds_DownloadConfig" where
  "dl_logged cfg = \<lparr>
     dl_authorize = map_option (\<lambda>f (w, l). case f w of (ok, w') \<Rightarrow> (ok, w', l @ [Dl_Authorized ok]))
       (dl_authorize cfg),
     dl_start_erase = map_option (\<lambda>f s a n (w, l). case f s a n w of (r, w') \<Rightarrow>
       (r, w', l @ [Dl_EraseStarted s a n])) (dl_start_erase cfg),
     dl_poll_erase = map_option (\<lambda>f s a n (w, l). case f s a n w of (r, w') \<Rightarrow>
       (r, w', l @ [Dl_ErasePolled s a n])) (dl_poll_erase cfg),
     dl_write = map_option (\<lambda>f a d n (w, l). case f a d n w of (ok, w') \<Rightarrow>
       (ok, w', l @ [Dl_Written a d n ok])) (dl_write cfg),
     dl_finalize = map_option (\<lambda>f s a h n (w, l). case f s a h n w of (ok, w') \<Rightarrow>
       (ok, w', l @ [Dl_Finalized s a h n ok])) (dl_finalize cfg),
     dl_abort = map_option (\<lambda>f (w, l). (f w, l @ [Dl_Aborted])) (dl_abort cfg),
     dl_running_slot = dl_running_slot cfg\<rparr>"

abbreviation dl_complete :: "'w Uds_DownloadConfig \<Rightarrow> bool" where
  "dl_complete cfg \<equiv> dl_authorize cfg \<noteq> None \<and> dl_start_erase cfg \<noteq> None \<and> dl_poll_erase cfg \<noteq> None
     \<and> dl_write cfg \<noteq> None \<and> dl_finalize cfg \<noteq> None"

lemma dl_logged_ops:
  assumes "dl_complete cfg"
  shows "the (dl_authorize (dl_logged cfg)) (w, l) =
     (case the (dl_authorize cfg) w of (ok, w') \<Rightarrow> (ok, w', l @ [Dl_Authorized ok]))"
  "the (dl_start_erase (dl_logged cfg)) s a n (w, l) =
     (case the (dl_start_erase cfg) s a n w of (r, w') \<Rightarrow> (r, w', l @ [Dl_EraseStarted s a n]))"
  "the (dl_poll_erase (dl_logged cfg)) s a n (w, l) =
     (case the (dl_poll_erase cfg) s a n w of (r, w') \<Rightarrow> (r, w', l @ [Dl_ErasePolled s a n]))"
  "the (dl_write (dl_logged cfg)) a d k (w, l) =
     (case the (dl_write cfg) a d k w of (ok, w') \<Rightarrow> (ok, w', l @ [Dl_Written a d k ok]))"
  "the (dl_finalize (dl_logged cfg)) s a h n (w, l) =
     (case the (dl_finalize cfg) s a h n w of (ok, w') \<Rightarrow> (ok, w', l @ [Dl_Finalized s a h n ok]))"
  using assms by (auto simp: dl_logged_def)

lemma dl_logged_abort: "dl_abort (dl_logged cfg) =
     map_option (\<lambda>f (w, l). (f w, l @ [Dl_Aborted])) (dl_abort cfg)"
  by (simp add: dl_logged_def)

definition dl_inactive_slot :: "'w Uds_DownloadConfig \<Rightarrow> Boot_Slot" where
  "dl_inactive_slot cfg = (if dl_running_slot cfg = BOOT_SLOT_A then BOOT_SLOT_B else BOOT_SLOT_A)"

text \<open>
  The abstract specification: a monitor that knows whether the last call was a granted
  authorisation, and the offset in the slot up to which the image is there. An erase follows
  its authorisation directly and covers the whole inactive slot; the writes start behind the
  header, follow one another without gaps, and stay in the slot; the image that is finalised
  ends where the last write ended; after a failed write, a finalisation or an abort nothing
  but a new erase may follow.
\<close>

fun dl_protocol_step :: "Boot_Slot \<Rightarrow> bool \<times> nat \<Rightarrow> dl_action \<Rightarrow> (bool \<times> nat) option" where
  "dl_protocol_step slot (g, p) (Dl_Authorized ok) = Some (ok, p)"
| "dl_protocol_step slot (g, p) (Dl_EraseStarted s a n) =
    (if g \<and> s = slot \<and> a = Uds_Download_SlotAddress slot \<and> n = Uds_Download_SlotSize slot
     then Some (False, 1024) else None)"
| "dl_protocol_step slot (g, p) (Dl_ErasePolled s a n) =
    (if p = 1024 \<and> s = slot \<and> a = Uds_Download_SlotAddress slot \<and> n = Uds_Download_SlotSize slot
     then Some (False, p) else None)"
| "dl_protocol_step slot (g, p) (Dl_Written a d n ok) =
    (if 1024 \<le> p \<and> unat a = unat (Uds_Download_SlotAddress slot) + p
        \<and> p + unat n \<le> unat (Uds_Download_SlotSize slot)
     then Some (False, if ok then p + unat n else 0) else None)"
| "dl_protocol_step slot (g, p) (Dl_Finalized s a h n ok) =
    (if 1024 \<le> p \<and> s = slot \<and> a = Uds_Download_SlotAddress slot \<and> unat n = p \<and> p mod 16 = 0 \<and> length h = 1024
     then Some (False, 0) else None)"
| "dl_protocol_step slot (g, p) Dl_Aborted = Some (False, 0)"

definition dl_protocol :: "Boot_Slot \<Rightarrow> dl_action list \<Rightarrow> (bool \<times> nat) option" where
  "dl_protocol slot log = foldl (\<lambda>st a. Option.bind st (\<lambda>s. dl_protocol_step slot s a)) (Some (False, 0)) log"

lemma dl_protocol_Nil [simp]: "dl_protocol slot [] = Some (False, 0)"
  by (simp add: dl_protocol_def)

lemma dl_protocol_snoc [simp]:
  "dl_protocol slot (log @ [a]) = Option.bind (dl_protocol slot log) (\<lambda>s. dl_protocol_step slot s a)"
  by (simp add: dl_protocol_def)

lemma dl_protocol_snoc2 [simp]:
  "dl_protocol slot (log @ [a, b]) = Option.bind (Option.bind (dl_protocol slot log)
     (\<lambda>s. dl_protocol_step slot s a)) (\<lambda>s. dl_protocol_step slot s b)"
  using dl_protocol_snoc [of slot "log @ [a]" b] by simp

definition dl_targeted :: "Boot_Slot \<Rightarrow> 'w Uds_Download \<Rightarrow> bool" where
  "dl_targeted slot d \<longleftrightarrow> target_slot (dl_stats d) = slot \<and> target_address d = Uds_Download_SlotAddress slot
     \<and> target_size d = Uds_Download_SlotSize slot"

text \<open>How the state of the download relates to the monitor's.\<close>

fun dl_linked :: "Boot_Slot \<Rightarrow> 'w Uds_Download \<Rightarrow> nat \<Rightarrow> bool" where
  "dl_linked slot d p = (case dl_state (dl_stats d) of
     UDS_DOWNLOAD_STATE_ERASING \<Rightarrow> dl_targeted slot d \<and> p = 1024
   | UDS_DOWNLOAD_STATE_READY \<Rightarrow> dl_targeted slot d \<and> p = 1024
   | UDS_DOWNLOAD_STATE_TRANSFER \<Rightarrow> dl_targeted slot d \<and> p = max 1024 (unat (received_size d))
       \<and> unat (received_size d) \<le> unat (artifact_size d) \<and> 1024 \<le> unat (artifact_size d)
       \<and> unat (artifact_size d) \<le> unat (Uds_Download_SlotSize slot) \<and> unat (artifact_size d) mod 16 = 0
   | _ \<Rightarrow> True)"

lemma linked_stats:
  assumes "dl_state s = dl_state (dl_stats d)" "target_slot s = target_slot (dl_stats d)"
  shows "dl_linked slot (d\<lparr>dl_stats := s\<rparr>) p \<longleftrightarrow> dl_linked slot d p"
  using assms by (cases "dl_state (dl_stats d)") (simp_all add: dl_targeted_def)

definition dl_setup :: "'w Uds_DownloadConfig \<Rightarrow> ('w \<times> dl_action list) Uds_Download \<Rightarrow> bool" where
  "dl_setup cfg d \<longleftrightarrow> dl_complete cfg \<and> dl_config d = dl_logged cfg \<and> length (dl_header d) = 1024
     \<and> dl_initialized d"

definition dl_inv :: "'w Uds_DownloadConfig \<Rightarrow> ('w \<times> dl_action list) Uds_Download \<times> 'w \<times> dl_action list \<Rightarrow> bool" where
  "dl_inv cfg = (\<lambda>(d, w, log). dl_setup cfg d
     \<and> (\<exists>g p. dl_protocol (dl_inactive_slot cfg) log = Some (g, p) \<and> dl_linked (dl_inactive_slot cfg) d p))"

abbreviation dl_io_inv :: "'w Uds_DownloadConfig \<Rightarrow> ('w \<times> dl_action list) dl_io \<Rightarrow> bool" where
  "dl_io_inv cfg io \<equiv> dl_inv cfg (dio_download io, dio_world io)"

lemma dl_invE:
  assumes "dl_io_inv cfg io"
  obtains w log g p where "dio_world io = (w, log)" "dl_setup cfg (dio_download io)"
    "dl_protocol (dl_inactive_slot cfg) log = Some (g, p)" "dl_linked (dl_inactive_slot cfg) (dio_download io) p"
  using assms by (cases "dio_world io") (auto simp: dl_inv_def)

lemma slot_bounds:
  "unat (Uds_Download_SlotAddress slot) + unat (Uds_Download_SlotSize slot) < 2 ^ 32"
  "unat (Uds_Download_SlotSize slot) = 0xE0000"
  by (simp_all add: Uds_Download_SlotAddress_def Uds_Download_SlotSize_def boot_map)

lemma SetState_ops [simp]:
  "dio_world (Uds_Download_SetState st io) = dio_world io"
  "dio_download (Uds_Download_SetState st io) = (dio_download io)\<lparr>dl_stats := (dl_stats (dio_download io))\<lparr>dl_state := st\<rparr>\<rparr>"
  "dio_response (Uds_Download_SetState st io) = dio_response io"
  "dio_length (Uds_Download_SetState st io) = dio_length io"
  by (simp_all add: Uds_Download_SetState_def)

text \<open>A failure leaves only the claim that the log is well formed.\<close>

lemma fail_inv:
  assumes "dl_setup cfg (dio_download io)" "dio_world io = (w, log)"
    "dl_protocol (dl_inactive_slot cfg) log \<noteq> None"
  shows "dl_io_inv cfg (Uds_Download_Fail io)"
  using assms by (cases "dl_abort cfg")
    (auto simp: Uds_Download_Fail_def dl_inv_def dl_setup_def dl_logged_abort Let_def)

lemma routine_response_inv:
  "dl_io_inv cfg (snd (Uds_Download_WriteRoutineResponse sub st cap io)) \<longleftrightarrow> dl_io_inv cfg io"
  by (simp add: Uds_Download_WriteRoutineResponse_def Let_def)

lemma routine_start_inv:
  assumes "dl_io_inv cfg io" "dl_routine_start io = (r, io')"
  shows "dl_setup cfg (dio_download io')"
    "case r of Inl _ \<Rightarrow> dl_io_inv cfg io' | Inr _ \<Rightarrow> dl_targeted (dl_inactive_slot cfg) (dio_download io')
      \<and> (\<exists>w log. dio_world io' = (w, log) \<and> dl_protocol (dl_inactive_slot cfg) log = Some (False, 1024))"
proof -
  obtain w log g p where io: "dio_world io = (w, log)" "dl_setup cfg (dio_download io)"
    "dl_protocol (dl_inactive_slot cfg) log = Some (g, p)" "dl_linked (dl_inactive_slot cfg) (dio_download io) p"
    using assms(1) by (rule dl_invE)
  then have c: "dl_complete cfg" "dl_config (dio_download io) = dl_logged cfg" by (simp_all add: dl_setup_def)
  have slot: "dl_running_slot (dl_logged cfg) = dl_running_slot cfg" by (simp add: dl_logged_def)
  obtain ok w1 where a: "the (dl_authorize cfg) w = (ok, w1)" by fastforce
  note run = assms(2) [unfolded dl_routine_start_def c(2) io(1) dl_logged_ops [OF c(1)] a prod.case Let_def]
  have "dl_setup cfg (dio_download io') \<and> (case r of Inl _ \<Rightarrow> dl_io_inv cfg io' | Inr _ \<Rightarrow> dl_targeted (dl_inactive_slot cfg) (dio_download io')
      \<and> (\<exists>w log. dio_world io' = (w, log) \<and> dl_protocol (dl_inactive_slot cfg) log = Some (False, 1024)))"
  proof (cases "ok \<and> dl_st io = UDS_DOWNLOAD_STATE_IDLE")
    case True
    obtain r2 w2 where s: "the (dl_start_erase cfg) (dl_inactive_slot cfg) (Uds_Download_SlotAddress (dl_inactive_slot cfg))
      (Uds_Download_SlotSize (dl_inactive_slot cfg)) w1 = (r2, w2)" by fastforce
    show ?thesis using run True io c
      by (auto simp: slot dl_inactive_slot_def [symmetric] dl_logged_ops [OF c(1)] s dl_setup_def dl_targeted_def)
  next
    case False
    then show ?thesis using run io c by (auto simp: dl_inv_def dl_setup_def split: if_splits)
  qed
  then show "dl_setup cfg (dio_download io')" "case r of Inl _ \<Rightarrow> dl_io_inv cfg io' | Inr _ \<Rightarrow> dl_targeted (dl_inactive_slot cfg) (dio_download io')
      \<and> (\<exists>w log. dio_world io' = (w, log) \<and> dl_protocol (dl_inactive_slot cfg) log = Some (False, 1024))" by blast+
qed


lemma routine_results_inv:
  assumes "dl_io_inv cfg io" "dl_routine_results io = (r, io')"
  shows "dl_io_inv cfg io'"
    "r = Inr res \<Longrightarrow> res \<noteq> UDS_DOWNLOAD_BACKEND_FAILED \<Longrightarrow> dl_st io' \<in> {UDS_DOWNLOAD_STATE_ERASING, UDS_DOWNLOAD_STATE_READY}"
proof -
  obtain w log g p where io: "dio_world io = (w, log)" "dl_setup cfg (dio_download io)"
    "dl_protocol (dl_inactive_slot cfg) log = Some (g, p)" "dl_linked (dl_inactive_slot cfg) (dio_download io) p"
    using assms(1) by (rule dl_invE)
  then have c: "dl_complete cfg" "dl_config (dio_download io) = dl_logged cfg" by (simp_all add: dl_setup_def)
  obtain r2 w2 where s: "the (dl_poll_erase cfg) (dl_inactive_slot cfg) (Uds_Download_SlotAddress (dl_inactive_slot cfg))
      (Uds_Download_SlotSize (dl_inactive_slot cfg)) w = (r2, w2)" by fastforce
  have "dl_st io = UDS_DOWNLOAD_STATE_ERASING \<Longrightarrow> io' = io\<lparr>dio_world := (w2, log @ [Dl_ErasePolled (dl_inactive_slot cfg)
      (Uds_Download_SlotAddress (dl_inactive_slot cfg)) (Uds_Download_SlotSize (dl_inactive_slot cfg))])\<rparr>"
    using assms(2) io(4) by (simp add: dl_routine_results_def c(2) io(1) dl_logged_ops [OF c(1)]
        dl_targeted_def s)
  moreover have "dl_st io \<noteq> UDS_DOWNLOAD_STATE_ERASING \<Longrightarrow> io' = io"
    using assms(2) by (auto simp: dl_routine_results_def Let_def split: if_splits)
  ultimately show "dl_io_inv cfg io'"
    using io assms(1) by (cases "dl_st io = UDS_DOWNLOAD_STATE_ERASING") (auto simp: dl_inv_def)
  show "r = Inr res \<Longrightarrow> res \<noteq> UDS_DOWNLOAD_BACKEND_FAILED \<Longrightarrow> dl_st io' \<in> {UDS_DOWNLOAD_STATE_ERASING, UDS_DOWNLOAD_STATE_READY}"
    using assms(2) by (auto simp: dl_routine_results_def Let_def split: if_splits prod.splits)
qed

lemma inv_protocol:
  assumes "dl_io_inv cfg io"
  obtains w log where "dio_world io = (w, log)" "dl_setup cfg (dio_download io)"
    "dl_protocol (dl_inactive_slot cfg) log \<noteq> None"
  using assms by (rule dl_invE) auto

lemma fail_inv': "dl_io_inv cfg io \<Longrightarrow> dl_io_inv cfg (Uds_Download_Fail io)"
  by (erule inv_protocol) (rule fail_inv)

lemma routine_inv:
  assumes "dl_io_inv cfg io"
  shows "dl_io_inv cfg (snd (Uds_Download_ProcessRoutine req n cap io))"
proof (cases "n \<noteq> UDS_ROUTINE_REQUEST_LENGTH \<or> push_bit 8 (ucast (req ! 2)) OR ucast (req ! 3)
    \<noteq> CAN_PROTOCOL_UDS_ROUTINE_ERASE_INACTIVE_SLOT
    \<or> req ! 1 \<noteq> UDS_ROUTINE_START \<and> req ! 1 \<noteq> UDS_ROUTINE_REQUEST_RESULTS")
  case True
  then show ?thesis using assms by (auto simp: Uds_Download_ProcessRoutine_def)
next
  case False
  define part where "part = (if req ! 1 = UDS_ROUTINE_START then dl_routine_start io else dl_routine_results io)"
  obtain r io1 where part: "part = (r, io1)" by fastforce
  have run: "Uds_Download_ProcessRoutine req n cap io = (case r of Inl nrc \<Rightarrow> (nrc, io1) | Inr res \<Rightarrow>
      let (st, io2) = (case res of
             UDS_DOWNLOAD_BACKEND_OK \<Rightarrow> (UDS_DOWNLOAD_ROUTINE_STATUS_READY,
               Uds_Download_SetState UDS_DOWNLOAD_STATE_READY io1)
           | UDS_DOWNLOAD_BACKEND_PENDING \<Rightarrow> (UDS_DOWNLOAD_ROUTINE_STATUS_IN_PROGRESS,
               Uds_Download_SetState UDS_DOWNLOAD_STATE_ERASING io1)
           | UDS_DOWNLOAD_BACKEND_FAILED \<Rightarrow> (UDS_DOWNLOAD_ROUTINE_STATUS_FAILED, Uds_Download_Fail io1))
      in Uds_Download_WriteRoutineResponse (req ! 1) st cap io2)"
    using False part by (auto simp: Uds_Download_ProcessRoutine_def part_def split: sum.splits)
  have "dl_setup cfg (dio_download io1) \<and> (case r of Inl _ \<Rightarrow> dl_io_inv cfg io1 | Inr res \<Rightarrow>
      (\<exists>w log. dio_world io1 = (w, log) \<and> dl_protocol (dl_inactive_slot cfg) log \<noteq> None
       \<and> (res \<noteq> UDS_DOWNLOAD_BACKEND_FAILED \<longrightarrow> dl_targeted (dl_inactive_slot cfg) (dio_download io1)
          \<and> (\<exists>g. dl_protocol (dl_inactive_slot cfg) log = Some (g, 1024)))))"
  proof (cases "req ! 1 = UDS_ROUTINE_START")
    case True
    then have "dl_routine_start io = (r, io1)" using part by (simp add: part_def)
    from routine_start_inv [OF assms this] show ?thesis by (auto split: sum.splits)
  next
    case False
    then have res: "dl_routine_results io = (r, io1)" using part by (simp add: part_def)
    have "dl_io_inv cfg io1" by (rule routine_results_inv(1) [OF assms res])
    then obtain w log g p where io1: "dio_world io1 = (w, log)" "dl_setup cfg (dio_download io1)"
      "dl_protocol (dl_inactive_slot cfg) log = Some (g, p)" "dl_linked (dl_inactive_slot cfg) (dio_download io1) p"
      by (rule dl_invE)
    show ?thesis
    proof (cases r)
      case (Inl nrc)
      then show ?thesis using \<open>dl_io_inv cfg io1\<close> io1(2) by simp
    next
      case (Inr b)
      from routine_results_inv(2) [OF assms res this] show ?thesis using io1 Inr
        by (auto simp: dl_targeted_def)
    qed
  qed
  then show ?thesis
    by (auto simp: run routine_response_inv intro: fail_inv split: sum.splits Uds_DownloadBackendResult.splits)
      (auto simp: dl_inv_def dl_setup_def dl_targeted_def)
qed

definition dl_request_ok :: "bytes \<Rightarrow> u16 \<Rightarrow> u16 \<Rightarrow> 'w dl_io \<Rightarrow> bool" where
  "dl_request_ok req n cap io \<longleftrightarrow> n = UDS_REQUEST_DOWNLOAD_LENGTH
     \<and> req ! 1 = CAN_PROTOCOL_UDS_DOWNLOAD_DATA_FORMAT_IDENTIFIER
     \<and> req ! 2 = CAN_PROTOCOL_UDS_DOWNLOAD_ADDRESS_LENGTH_FORMAT_IDENTIFIER
     \<and> dl_st io = UDS_DOWNLOAD_STATE_READY
     \<and> Uds_Download_ReadU32Be req 3 = target_address (dio_download io)
     \<and> 1024 \<le> Uds_Download_ReadU32Be req 7
     \<and> Uds_Download_ReadU32Be req 7 \<le> target_size (dio_download io)
     \<and> Uds_Download_ReadU32Be req 7 mod 16 = 0 \<and> 3 \<le> cap"

lemma request_download_run:
  "dl_request_ok req n cap io \<Longrightarrow> Uds_Download_ProcessRequestDownload req n cap io =
    (UDS_NRC_NONE, io\<lparr>dio_download := (dio_download io)
       \<lparr>dl_header := replicate 1024 0xFF, artifact_size := Uds_Download_ReadU32Be req 7,
         received_size := 0, has_last_block := False, dl_stats := (dl_stats (dio_download io))
        \<lparr>expected_block_sequence := 1, dl_state := UDS_DOWNLOAD_STATE_TRANSFER\<rparr>\<rparr>,
      dio_response := (dio_response io)[0 := 0x20, 1 := 1, 2 := ucast (258 :: u16)], dio_length := 3\<rparr>)"
  "\<not> dl_request_ok req n cap io \<Longrightarrow> snd (Uds_Download_ProcessRequestDownload req n cap io) = io"
  by (auto simp: dl_request_ok_def Uds_Download_ProcessRequestDownload_def Let_def not_less boot_map
      Uds_Download_SetState_def CAN_PROTOCOL_UDS_DOWNLOAD_MAX_BLOCK_LENGTH_def)

lemma request_download_inv:
  assumes "dl_io_inv cfg io"
  shows "dl_io_inv cfg (snd (Uds_Download_ProcessRequestDownload req n cap io))"
proof (cases "dl_request_ok req n cap io")
  case True
  obtain w log g p where io: "dio_world io = (w, log)" "dl_setup cfg (dio_download io)"
    "dl_protocol (dl_inactive_slot cfg) log = Some (g, p)" "dl_linked (dl_inactive_slot cfg) (dio_download io) p"
    using assms by (rule dl_invE)
  let ?s = "Uds_Download_ReadU32Be req 7"
  have t: "dl_targeted (dl_inactive_slot cfg) (dio_download io)" "p = 1024"
    using io(4) True by (simp_all add: dl_request_ok_def)
  have "1024 \<le> unat ?s" "unat ?s \<le> unat (Uds_Download_SlotSize (dl_inactive_slot cfg))"
    using True t by (simp_all add: dl_request_ok_def nat_of_word dl_targeted_def)
  moreover have "unat ?s mod 16 = 0" using True unat_mod [of ?s 16] by (simp add: dl_request_ok_def)
  ultimately show ?thesis using io t
    by (simp add: request_download_run(1) [OF True] dl_inv_def dl_setup_def) (simp add: dl_targeted_def)
next
  case False
  then show ?thesis using assms by (simp add: request_download_run(2))
qed

definition dl_header_part :: "nat \<Rightarrow> nat \<Rightarrow> nat" where
  "dl_header_part received n = (if received < 1024 then min n (1024 - received) else 0)"

lemma header_part_0 [simp]: "dl_header_part r 0 = 0"
  by (simp add: dl_header_part_def)

lemma header_part_le: "dl_header_part r n \<le> n" "r + dl_header_part r n \<le> max 1024 r"
  "dl_header_part r n < n \<Longrightarrow> r + dl_header_part r n = max 1024 r"
  "\<not> dl_header_part r n < n \<Longrightarrow> 0 < n \<Longrightarrow> dl_header_part r n = n \<and> r + n \<le> 1024"
  by (auto simp: dl_header_part_def split: if_splits)

text \<open>Storing a block, with the split at the end of the header in natural numbers.\<close>

abbreviation dl_with_header :: "bytes \<Rightarrow> u16 \<Rightarrow> 'w dl_io \<Rightarrow> 'w dl_io" where
  "dl_with_header data n io \<equiv> dl_upd (\<lambda>d. d\<lparr>dl_header := copy_bytes
     (dl_header_part (unat (received_size d)) (unat n)) (dl_header d) (unat (received_size d)) data 0\<rparr>) io"

lemma store_run:
  fixes io :: "'w dl_io"
  assumes n: "unat n < 1024"
  defines "h \<equiv> dl_header_part (unat (received_size (dio_download io))) (unat n)"
  shows "dl_store_block data n io = (if h < unat n then
      (case the (dl_write (dl_config (dio_download io)))
          (target_address (dio_download io) + received_size (dio_download io) + of_nat h)
          (take (unat n - h) (drop h data)) (n - of_nat h) (dio_world io) of
        (ok, w) \<Rightarrow> (ok, (dl_with_header data n io)\<lparr>dio_world := w\<rparr>))
      else (True, dl_with_header data n io))"
proof -
  let ?d = "dio_download io"
  define h16 :: u16 where "h16 = of_nat h"
  have h: "h \<le> unat n" by (simp add: h_def header_part_le)
  then have h16: "unat h16 = h" using n by (simp add: h16_def unat_of_nat)
  have len: "unat (n - h16) = unat n - h" using h by (simp add: unat_sub_le word_le_nat_alt h16)
  have up: "ucast h16 = (of_nat h :: u32)" using h n by (simp add: word_unat_eq_iff h16 unat_of_nat)
  show ?thesis
  proof (cases "unat (received_size ?d) < 1024")
    case True
    have sub: "unat (1024 - received_size ?d) = 1024 - unat (received_size ?d)"
      using True by (simp add: unat_sub_le word_le_nat_alt)
    have hl: "(if ucast n < BOOT_IMAGE_HEADER_SIZE - received_size ?d then n
      else ucast (BOOT_IMAGE_HEADER_SIZE - received_size ?d)) = h16"
    proof (cases "unat n < 1024 - unat (received_size ?d)")
      case True
      with n show ?thesis using \<open>unat (received_size ?d) < 1024\<close>
        by (simp add: boot_map nat_of_word sub h16_def h_def dl_header_part_def)
    next
      case False
      have "unat (ucast (1024 - received_size ?d) :: u16) = 1024 - unat (received_size ?d)"
        by (subst unat_ucast_small) (simp_all add: sub)
      then show ?thesis using False \<open>unat (received_size ?d) < 1024\<close>
        by (simp add: boot_map nat_of_word sub h16 h_def dl_header_part_def word_unat_eq_iff)
    qed
    have "received_size ?d < BOOT_IMAGE_HEADER_SIZE" using True by (simp add: boot_map nat_of_word)
    then show ?thesis unfolding dl_store_block_def Let_def hl using True len [unfolded h16_def]
      by (simp add: word_less_nat_alt h16 [unfolded h16_def] up [unfolded h16_def] h_def [symmetric] h16_def)
  next
    case False
    then have "h = 0" "\<not> received_size ?d < BOOT_IMAGE_HEADER_SIZE"
      by (simp_all add: h_def dl_header_part_def boot_map nat_of_word)
    then show ?thesis using len
      by (simp add: dl_store_block_def word_less_nat_alt Let_def h_def h16_def)
  qed
qed

lemma store_inv:
  assumes "dl_io_inv cfg io" "dl_st io = UDS_DOWNLOAD_STATE_TRANSFER" "0 < unat n" "unat n < 1024"
    and "unat (received_size (dio_download io)) + unat n \<le> unat (artifact_size (dio_download io))"
    and "dl_store_block data n io = (ok, io')"
  shows "\<exists>h. dio_download io' = (dio_download io)\<lparr>dl_header := h\<rparr> \<and> length h = 1024"
    "\<exists>w' log' g. dio_world io' = (w', log') \<and> dl_protocol (dl_inactive_slot cfg) log' = Some (g, if ok
        then max 1024 (unat (received_size (dio_download io)) + unat n) else 0)"
proof -
  let ?d = "dio_download io" and ?s = "dl_inactive_slot cfg"
  obtain w log g p where io: "dio_world io = (w, log)" "dl_setup cfg ?d"
    "dl_protocol ?s log = Some (g, p)" "dl_linked ?s ?d p" using assms(1) by (rule dl_invE)
  then have c: "dl_complete cfg" "dl_config ?d = dl_logged cfg" "length (dl_header ?d) = 1024"
    by (simp_all add: dl_setup_def)
  have t: "target_address ?d = Uds_Download_SlotAddress ?s" "p = max 1024 (unat (received_size ?d))"
    and fit: "unat (artifact_size ?d) \<le> unat (Uds_Download_SlotSize ?s)"
    using io(4) assms(2) by (simp_all add: dl_targeted_def)
  define h where "h = dl_header_part (unat (received_size ?d)) (unat n)"
  note hp = header_part_le [of "unat (received_size ?d)" "unat n", folded h_def]
  note run = store_run [OF assms(4), of data io, folded h_def, unfolded c(2) io(1) dl_logged_ops [OF c(1)]]
  have "dio_download io' = ?d\<lparr>dl_header := copy_bytes h (dl_header ?d) (unat (received_size ?d)) data 0\<rparr>"
    using assms(6) by (auto simp: run h_def [symmetric] split: if_splits prod.splits)
  then show "\<exists>h. dio_download io' = ?d\<lparr>dl_header := h\<rparr> \<and> length h = 1024"
    using c(3) by (intro exI [of _ "copy_bytes h (dl_header ?d) (unat (received_size ?d)) data 0"]) simp
  show "(\<exists>w' log' g. dio_world io' = (w', log') \<and> dl_protocol ?s log' = Some (g, if ok
        then max 1024 (unat (received_size ?d) + unat n) else 0))"
  proof (cases "h < unat n")
    case True
    let ?a = "target_address ?d + received_size ?d + of_nat h"
    have "unat (received_size ?d) + h \<le> 0xE0000"
      using hp(1) assms(5) fit slot_bounds(2) [of ?s] by linarith
    then have a: "unat ?a = unat (Uds_Download_SlotAddress ?s) + p"
      using t hp(3) [OF True] slot_bounds [of ?s] by (simp add: unat_add_small unat_of_nat)
    have k: "unat (n - of_nat h) = unat n - h"
      using hp(1) assms(4) by (simp add: unat_sub_le word_le_nat_alt unat_of_nat)
    have p: "p + (unat n - h) = unat (received_size ?d) + unat n" "1024 \<le> p"
      using hp(3) [OF True] True t by simp_all
    obtain ok2 w2 where wr: "the (dl_write cfg) ?a (take (unat n - h) (drop h data)) (n - of_nat h) w
      = (ok2, w2)" by fastforce
    have "ok = ok2" "io' = (dl_with_header data n io)\<lparr>dio_world := (w2, log @ [Dl_Written ?a
        (take (unat n - h) (drop h data)) (n - of_nat h) ok])\<rparr>"
      using assms(6) True by (auto simp: run wr h_def [symmetric])
    moreover have "max 1024 (unat (received_size ?d) + unat n) = unat (received_size ?d) + unat n"
      using p by linarith
    moreover have "dl_protocol ?s (log @ [Dl_Written ?a (take (unat n - h) (drop h data)) (n - of_nat h) ok])
        = Some (False, if ok then unat (received_size ?d) + unat n else 0)"
      using io(3) a k p assms(5) fit by simp
    ultimately show ?thesis by (auto simp: max_def)
  next
    case False
    then have "max 1024 (unat (received_size ?d) + unat n) = p" using hp(4) assms(3) t by auto
    moreover have "ok" "io' = dl_with_header data n io" using assms(6) False by (simp_all add: run h_def [symmetric])
    ultimately show ?thesis using io(1,3) by simp
  qed
qed

definition dl_accepts :: "bytes \<Rightarrow> u16 \<Rightarrow> u16 \<Rightarrow> 'w dl_io \<Rightarrow> bool" where
  "dl_accepts req n cap io \<longleftrightarrow> 3 \<le> unat n \<and> unat n \<le> 258 \<and> dl_st io = UDS_DOWNLOAD_STATE_TRANSFER
     \<and> \<not> (has_last_block (dio_download io) \<and> req ! 1 = last_block_sequence (dio_download io))
     \<and> req ! 1 = expected_block_sequence (dl_stats (dio_download io))
     \<and> ucast (n - 2) \<le> artifact_size (dio_download io) - received_size (dio_download io) \<and> 1 \<le> cap"

text \<open>A block either is stored, or the download fails, or at most the counters change.\<close>

lemma transfer_run:
  "dl_accepts req n cap io \<Longrightarrow> Uds_Download_ProcessTransferData req n cap io =
    (case dl_store_block (drop 2 req) (n - 2) io of (ok, io') \<Rightarrow>
       if \<not> ok then (UDS_NRC_GENERAL_PROGRAMMING_FAILURE, Uds_Download_Fail io')
       else (UDS_NRC_NONE, dl_accept_block (req ! 1) (n - 2) io'))"
  "\<not> dl_accepts req n cap io \<Longrightarrow> snd (Uds_Download_ProcessTransferData req n cap io) \<in>
    {io, Uds_Download_Fail io, (dl_count (\<lambda>s. s\<lparr>duplicate_blocks := duplicate_blocks s + 1\<rparr>) io)
             \<lparr>dio_response := (dio_response io)[0 := req ! 1], dio_length := 1\<rparr>}"
  by (auto simp: dl_accepts_def Uds_Download_ProcessTransferData_def Let_def not_less dl_consts nat_of_word)

lemma accept_state:
  "dio_world (dl_accept_block s n io) = dio_world io"
  "dl_st (dl_accept_block s n io) = dl_st io"
  "received_size (dio_download (dl_accept_block s n io)) = received_size (dio_download io) + ucast n"
  "artifact_size (dio_download (dl_accept_block s n io)) = artifact_size (dio_download io)"
  "dl_targeted slot (dio_download (dl_accept_block s n io)) = dl_targeted slot (dio_download io)"
  "dl_setup cfg (dio_download (dl_accept_block s n io')) = dl_setup cfg (dio_download io')"
  by (simp_all add: dl_accept_block_def dl_targeted_def dl_setup_def Let_def)

lemma transfer_inv:
  assumes "dl_io_inv cfg io"
  shows "dl_io_inv cfg (snd (Uds_Download_ProcessTransferData req n cap io))"
proof (cases "dl_accepts req n cap io")
  case False
  have "dl_io_inv cfg ((dl_count (\<lambda>s. s\<lparr>duplicate_blocks := duplicate_blocks s + 1\<rparr>) io)
             \<lparr>dio_response := (dio_response io)[0 := req ! 1], dio_length := 1\<rparr>)"
    using assms by (auto simp: dl_inv_def dl_setup_def linked_stats simp del: dl_linked.simps split: prod.splits)
  then show ?thesis using transfer_run(2) [OF False] assms fail_inv' [OF assms] by auto
next
  case True
  let ?d = "dio_download io"
  obtain w log g p where io: "dl_setup cfg ?d" "dl_linked (dl_inactive_slot cfg) ?d p"
    using assms by (rule dl_invE)
  have st: "dl_st io = UDS_DOWNLOAD_STATE_TRANSFER" using True by (simp add: dl_accepts_def)
  have "3 \<le> unat n" "unat n \<le> 258" using True by (simp_all add: dl_accepts_def)
  then have n: "unat (n - 2) = unat n - 2" "0 < unat (n - 2)" "unat (n - 2) < 1024"
    by (simp_all add: unat_sub_le word_le_nat_alt)
  have le: "unat (received_size ?d) \<le> unat (artifact_size ?d)"
    and fit: "unat (artifact_size ?d) \<le> 0xE0000"
    using io(2) st by (simp_all add: slot_bounds)
  have "unat (n - 2) \<le> unat (artifact_size ?d - received_size ?d)"
    using True by (simp add: dl_accepts_def word_le_nat_alt)
  then have room: "unat (received_size ?d) + unat (n - 2) \<le> unat (artifact_size ?d)"
    using le by (simp add: unat_sub_le word_le_nat_alt)
  then have total: "unat (received_size ?d + ucast (n - 2)) = unat (received_size ?d) + unat (n - 2)"
    using fit by (simp add: unat_add_small)
  obtain ok io1 where store: "dl_store_block (drop 2 req) (n - 2) io = (ok, io1)" by fastforce
  note stored = store_inv [OF assms st n(2,3) room store]
  obtain h where h: "dio_download io1 = ?d\<lparr>dl_header := h\<rparr>" "length h = 1024" using stored(1) by blast
  obtain w' log' g' where w': "dio_world io1 = (w', log')" "dl_protocol (dl_inactive_slot cfg) log' =
    Some (g', if ok then max 1024 (unat (received_size ?d) + unat (n - 2)) else 0)" using stored(2) by blast
  have cfgok: "dl_setup cfg (dio_download io1)" using io(1) h by (simp add: dl_setup_def)
  show ?thesis
  proof (cases ok)
    case False
    have "dl_io_inv cfg (Uds_Download_Fail io1)" by (rule fail_inv [OF cfgok w'(1)]) (simp add: w'(2))
    with False show ?thesis by (simp add: transfer_run(1) [OF True] store)
  next
    case ok: True
    have "dl_linked (dl_inactive_slot cfg) (dio_download (dl_accept_block (req ! 1) (n - 2) io1))
      (max 1024 (unat (received_size ?d) + unat (n - 2)))"
      using io(2) st room by (simp add: accept_state h total) (simp add: dl_targeted_def)
    then have "dl_io_inv cfg (dl_accept_block (req ! 1) (n - 2) io1)"
      using cfgok w' ok by (simp add: dl_inv_def accept_state del: dl_linked.simps)
    with ok show ?thesis by (simp add: transfer_run(1) [OF True] store)
  qed
qed

lemma exit_inv:
  assumes "dl_io_inv cfg io"
  shows "dl_io_inv cfg (snd (Uds_Download_ProcessTransferExit n io))"
proof (cases "n = 1 \<and> dl_st io = UDS_DOWNLOAD_STATE_TRANSFER
    \<and> received_size (dio_download io) = artifact_size (dio_download io)")
  case False
  then show ?thesis using assms by (auto simp: Uds_Download_ProcessTransferExit_def Let_def)
next
  case True
  let ?d = "dio_download io" and ?s = "dl_inactive_slot cfg"
  obtain w log g p where io: "dio_world io = (w, log)" "dl_setup cfg ?d"
    "dl_protocol ?s log = Some (g, p)" "dl_linked ?s ?d p" using assms by (rule dl_invE)
  then have c: "dl_complete cfg" "dl_config ?d = dl_logged cfg" "length (dl_header ?d) = 1024"
    by (simp_all add: dl_setup_def)
  obtain ok w1 where f: "the (dl_finalize cfg) ?s (Uds_Download_SlotAddress ?s) (dl_header ?d) (artifact_size ?d) w
    = (ok, w1)" by fastforce
  let ?log = "log @ [Dl_Finalized ?s (Uds_Download_SlotAddress ?s) (dl_header ?d) (artifact_size ?d) ok]"
  have t: "dl_targeted ?s ?d" "p = unat (artifact_size ?d)" "1024 \<le> p" "p mod 16 = 0"
    using io(4) True by simp_all
  then have p: "dl_protocol ?s ?log = Some (False, 0)" using io(3) c(3) by simp
  have run: "snd (Uds_Download_ProcessTransferExit n io) = (if ok then
      (dl_count (\<lambda>s. s\<lparr>completed_downloads := completed_downloads s + 1\<rparr>)
        (Uds_Download_SetState UDS_DOWNLOAD_STATE_COMPLETE (io\<lparr>dio_world := (w1, ?log)\<rparr>)))\<lparr>dio_length := 0\<rparr>
      else Uds_Download_Fail (io\<lparr>dio_world := (w1, ?log)\<rparr>))"
    using True t(1) f by (simp add: Uds_Download_ProcessTransferExit_def dl_targeted_def c(2) io(1)
        dl_logged_ops [OF c(1)] Let_def)
  have "dl_io_inv cfg (Uds_Download_Fail (io\<lparr>dio_world := (w1, ?log)\<rparr>))"
    by (rule fail_inv [of _ _ w1 ?log]) (simp_all add: io(2) p del: dl_protocol_snoc)
  moreover have "dl_io_inv cfg ((dl_count (\<lambda>s. s\<lparr>completed_downloads := completed_downloads s + 1\<rparr>)
        (Uds_Download_SetState UDS_DOWNLOAD_STATE_COMPLETE (io\<lparr>dio_world := (w1, ?log)\<rparr>)))\<lparr>dio_length := 0\<rparr>)"
    using io(2) p by (auto simp: dl_inv_def dl_setup_def simp del: dl_protocol_snoc)
  ultimately show ?thesis unfolding run by (cases ok) (simp_all only: if_True if_False)
qed

lemma handle_inv:
  assumes "dl_io_inv cfg io"
  shows "dl_io_inv cfg (snd (Uds_Download_Handle_body service req n cap io))"
proof -
  have "dl_io_inv cfg (io\<lparr>dio_length := 0\<rparr>)" using assms by simp
  then show ?thesis using assms
    by (simp add: Uds_Download_Handle_body_def Let_def routine_inv request_download_inv transfer_inv exit_inv)
qed

lemma abort_inv:
  assumes "dl_inv cfg (d, w)"
  shows "dl_inv cfg (Uds_Download_Abort_body d w)"
  using assms by (cases w; cases "dl_abort cfg")
    (auto simp: Uds_Download_Abort_body_def dl_inv_def dl_setup_def dl_logged_abort)


text \<open>The calls a server makes, in any order; a request has its service byte first.\<close>

datatype dl_call = Dl_Request u8 bytes u16 bytes u16 | Dl_Leave

fun dl_call_step :: "dl_call \<Rightarrow> 'w Uds_Download \<times> 'w \<Rightarrow> 'w Uds_Download \<times> 'w" where
  "dl_call_step (Dl_Request service req n rsp cap) (d, w) =
    (case Uds_Download_Handle (Some d) service (Some req) n (Some rsp) cap (Some 0) w of
       (_, d', _, _, w') \<Rightarrow> (the d', w'))"
| "dl_call_step Dl_Leave (d, w) = (case Uds_Download_Abort (Some d) w of (d', w') \<Rightarrow> (the d', w'))"

lemma call_step_inv: "dl_inv cfg x \<Longrightarrow> dl_inv cfg (dl_call_step c x)"
proof (cases c)
  case (Dl_Request service req n rsp cap)
  assume "dl_inv cfg x"
  then show ?thesis
    using handle_inv [of cfg "\<lparr>dio_download = fst x, dio_response = rsp, dio_length = 0, dio_world = snd x\<rparr>" service req n cap]
    by (cases x) (auto simp: Dl_Request Uds_Download_Handle_def split: prod.splits)
next
  case Dl_Leave
  assume "dl_inv cfg x"
  then show ?thesis using abort_inv [of cfg "fst x" "snd x"]
    by (cases x; cases "Uds_Download_Abort_body (fst x) (snd x)") (auto simp: Dl_Leave Uds_Download_Abort_def)
qed

lemma init_inv:
  assumes "Uds_Download_Init (Some d0) (Some (dl_logged cfg)) = (UDS_SERVER_RESULT_OK, Some d)"
  shows "dl_inv cfg (d, w, [])"
  using assms by (auto simp: Uds_Download_Init_def dl_inv_def dl_setup_def dl_stats_zero_def dl_logged_def
      split: if_splits)

text \<open>
  C14. However the handler and the abort are called after the initialisation, whatever the
  requests contain and whatever the flash backend answers, the calls made on the backend
  follow the programming protocol on the slot that is not running: every erase directly
  follows a granted authorisation and covers exactly that slot; every write continues where
  the previous one ended, starting behind the header, and stays in the slot; an image is
  finalised only in full, with a size that is a multiple of the program unit.
\<close>

theorem download_follows_protocol:
  assumes "Uds_Download_Init (Some d0) (Some (dl_logged cfg)) = (UDS_SERVER_RESULT_OK, Some d)"
    and "fold dl_call_step cs (d, w, []) = (d', w', log)"
  shows "dl_protocol (dl_inactive_slot cfg) log \<noteq> None"
proof -
  have "dl_inv cfg x \<Longrightarrow> dl_inv cfg (fold dl_call_step cs x)" for x
    by (induction cs arbitrary: x) (simp_all add: call_step_inv)
  from this [OF init_inv [OF assms(1)], of w] show ?thesis
    by (auto simp: assms(2) dl_inv_def simp del: dl_linked.simps)
qed

text \<open>A backend that always succeeds, counting its calls.\<close>

definition demo_backend :: "nat Uds_DownloadConfig" where
  "demo_backend = \<lparr>dl_authorize = Some (\<lambda>w. (True, w + 1)),
     dl_start_erase = Some (\<lambda>s a n w. (UDS_DOWNLOAD_BACKEND_OK, w + 1)),
     dl_poll_erase = Some (\<lambda>s a n w. (UDS_DOWNLOAD_BACKEND_OK, w + 1)),
     dl_write = Some (\<lambda>a d n w. (True, w + 1)), dl_finalize = Some (\<lambda>s a h n w. (True, w + 1)),
     dl_abort = Some (\<lambda>w. w + 1), dl_running_slot = BOOT_SLOT_A\<rparr>"

definition demo_download :: "(nat \<times> dl_action list) Uds_Download" where
  "demo_download = \<lparr>dl_config = dl_logged demo_backend, dl_stats = dl_stats_zero,
     dl_header = replicate 1024 0, target_address = 0, target_size = 0, artifact_size = 0,
     received_size = 0, last_block_sequence = 0, has_last_block = False, dl_initialized = True\<rparr>"

lemma demo_download_init:
  "Uds_Download_Init (Some demo_download) (Some (dl_logged demo_backend)) = (UDS_SERVER_RESULT_OK, Some demo_download)"
  by (simp add: Uds_Download_Init_def demo_download_def dl_logged_def demo_backend_def)

theorem download_follows_protocol_witness:
  "dl_protocol BOOT_SLOT_B (snd (snd (fold dl_call_step
     [Dl_Request 0x31 [0x31, 0x01, 0xFF, 0x00] 4 (replicate 13 0) 13, Dl_Leave]
     (demo_download, 0, [])))) \<noteq> None"
proof -
  let ?cs = "[Dl_Request 0x31 [0x31, 0x01, 0xFF, 0x00] 4 (replicate 13 0) 13, Dl_Leave]"
  obtain d' w' log where "fold dl_call_step ?cs (demo_download, 0, []) = (d', w', log)" by (metis prod.exhaust)
  from download_follows_protocol [OF demo_download_init this] show ?thesis
    by (simp only: \<open>fold dl_call_step ?cs _ = _\<close> snd_conv)
      (simp add: dl_inactive_slot_def demo_backend_def)
qed

end
