(* ===== verification/UdsDownloadTransfer.thy ===== *)
theory UdsDownloadTransfer
  imports UdsDownloadSafety
begin

text \<open>
  The function of \<open>src/Core/Src/uds_download.c\<close>: a client that requests a download, sends the
  blocks and ends the transfer has its image written by the backend, also when blocks are
  repeated. \<open>dl_at\<close> says what has been received; there is one lemma per request.
\<close>

section \<open>A complete download\<close>

text \<open>
  The requests of a client that programs an image in blocks, each block sent once and then
  repeated any number of times (as after a lost acknowledgement); the answers of the handler;
  and what it means that a list of backend calls writes given data from an address on.
\<close>

fun dl_blocks :: "nat \<Rightarrow> (bytes \<times> nat) list \<Rightarrow> bytes list" where
  "dl_blocks i [] = []"
| "dl_blocks i ((b, k) # bs) = replicate (Suc k) (0x36 # of_nat i # b) @ dl_blocks (Suc i) bs"

definition dl_program :: "u32 \<Rightarrow> (bytes \<times> nat) list \<Rightarrow> bytes list" where
  "dl_program address bs = (Uds_Download_WriteU32Be (Uds_Download_WriteU32Be (0x34 # 0x00 # 0x44 # replicate 8 0) 3 address)
     7 (of_nat (length (concat (map fst bs))))) # dl_blocks 1 bs @ [[0x37]]"

fun dl_serve :: "bytes list \<Rightarrow> 'w Uds_Download \<times> 'w \<Rightarrow> Uds_NegativeResponseCode list \<times> 'w Uds_Download \<times> 'w" where
  "dl_serve [] x = ([], x)"
| "dl_serve (r # rs) (d, w) = (case Uds_Download_Handle (Some d) (r ! 0) (Some r) (of_nat (length r))
       (Some (replicate 16 0)) 16 (Some 0) w of
     (nrc, d', _, _, w') \<Rightarrow> case dl_serve rs (the d', w') of (nrcs, y) \<Rightarrow> (nrc # nrcs, y))"

fun dl_programs :: "u32 \<Rightarrow> bytes \<Rightarrow> dl_action list \<Rightarrow> bool" where
  "dl_programs a data [] \<longleftrightarrow> data = []"
| "dl_programs a data (Dl_Written x d n ok # ws) \<longleftrightarrow> x = a \<and> ok \<and> length d = unat n \<and> take (unat n) data = d
     \<and> dl_programs (a + ucast n) (drop (unat n) data) ws"
| "dl_programs a data (_ # ws) \<longleftrightarrow> False"

lemma dl_programs_append:
  "dl_programs a d ws \<Longrightarrow> dl_programs (a + of_nat (length d)) e vs \<Longrightarrow> dl_programs a (d @ e) (ws @ vs)"
proof (induction a d ws rule: dl_programs.induct)
  case (2 a data x d n ok ws)
  from 2(2) have le: "unat n \<le> length data" by (auto simp: min_def split: if_splits)
  then have "a + ucast n + of_nat (length (drop (unat n) data)) = a + of_nat (length data)"
    by (simp add: of_nat_diff)
  with 2 le show ?case by auto
qed simp_all

text \<open>The download has received the first part of an image of \<open>N\<close> bytes in \<open>i - 1\<close> blocks.\<close>

definition dl_at :: "'w Uds_DownloadConfig \<Rightarrow> nat \<Rightarrow> nat \<Rightarrow> bytes \<Rightarrow> ('w \<times> dl_action list) Uds_Download \<Rightarrow> bool" where
  "dl_at cfg N i got d \<longleftrightarrow> dl_setup cfg d \<and> dl_state (dl_stats d) = UDS_DOWNLOAD_STATE_TRANSFER
     \<and> dl_targeted (dl_inactive_slot cfg) d \<and> unat (artifact_size d) = N \<and> N \<le> 0xE0000
     \<and> unat (received_size d) = length got \<and> length got \<le> N
     \<and> expected_block_sequence (dl_stats d) = of_nat i
     \<and> (has_last_block d \<longrightarrow> last_block_sequence d + 1 = of_nat i)
     \<and> take (length got) (dl_header d) = take 1024 got"

text \<open>The header copy after a block, and the part of the block that goes to flash.\<close>

lemma header_received:
  assumes "length hdr = 1024" "take (length got) hdr = take 1024 got"
  shows "take (length got + length b) (copy_bytes (dl_header_part (length got) (length b)) hdr (length got) b 0)
    = take 1024 (got @ b)"
proof (cases "length got < 1024")
  case True
  then have "length got + dl_header_part (length got) (length b) \<le> 1024"
    "dl_header_part (length got) (length b) \<le> length b"
    using header_part_le [of "length got" "length b"] by simp_all
  with True assms show ?thesis
    by (cases "dl_header_part (length got) (length b) < length b")
      (use header_part_le [of "length got" "length b"] in \<open>auto simp: copy_bytes_splice dl_header_part_def min_def
        split: if_splits\<close>)
next
  case False
  then show ?thesis using assms by (simp add: dl_header_part_def)
qed

lemma block_programs:
  assumes "length b \<le> 256" and h: "h = dl_header_part (length got) (length b)" and "unat r = length got"
  shows "dl_programs (base + of_nat (max 1024 (length got))) (drop (1024 - length got) b)
    (if h < length b then [Dl_Written (base + r + of_nat h) (drop h b) (of_nat (length b) - of_nat h) True] else [])"
proof (cases "h < length b")
  case True
  note hp = header_part_le [of "length got" "length b", folded h]
  have n: "unat (of_nat (length b) - of_nat h :: u16) = length b - h"
    using True assms(1) by (simp add: unat_sub_le word_le_nat_alt unat_of_nat)
  have "r = of_nat (length got)" by (simp flip: assms(3))
  then have "base + r + of_nat h = base + of_nat (max 1024 (length got))"
    using hp(3) True by (metis add.assoc of_nat_add)
  moreover have "drop (1024 - length got) b = drop h b" using True h by (auto simp: dl_header_part_def)
  ultimately show ?thesis using True n by simp
next
  case False
  then have "length b \<le> 1024 - length got" using h
    by (cases "b = []") (auto simp: dl_header_part_def min_def split: if_splits)
  with False show ?thesis by simp
qed

lemma block_accepted:
  assumes at: "dl_at cfg N i got d" and b: "1 \<le> length b" "length b \<le> 256" "length got + length b \<le> N"
    and works: "\<forall>a data n w. fst (the (dl_write cfg) a data n w)"
  obtains d' rsp w' ws where "Uds_Download_Handle_body 0x36 (0x36 # of_nat i # b) (of_nat (length b + 2)) 16
      \<lparr>dio_download = d, dio_response = r, dio_length = 0, dio_world = (w, log)\<rparr>
    = (UDS_NRC_NONE, \<lparr>dio_download = d', dio_response = rsp, dio_length = 1, dio_world = (w', log @ ws)\<rparr>)"
    "dl_at cfg N (Suc i) (got @ b) d'" "has_last_block d'"
    "dl_programs (Uds_Download_SlotAddress (dl_inactive_slot cfg) + of_nat (max 1024 (length got)))
       (drop (1024 - length got) b) ws"
proof -
  let ?io = "\<lparr>dio_download = d, dio_response = r, dio_length = 0 :: u16, dio_world = (w, log)\<rparr>"
  let ?s = "dl_inactive_slot cfg"
  define n :: u16 where "n = of_nat (length b + 2)"
  have n: "unat n = length b + 2" unfolding n_def by (subst unat_of_nat) (use b in simp)
  have n2: "n - 2 = of_nat (length b)" by (simp add: n_def)
  have c: "dl_complete cfg" "dl_config d = dl_logged cfg" "dl_initialized d" "length (dl_header d) = 1024"
    and rec: "unat (received_size d) = length got" and art: "unat (artifact_size d) = N" "N \<le> 0xE0000"
    and tgt: "target_address d = Uds_Download_SlotAddress ?s"
    using at by (simp_all add: dl_at_def dl_setup_def dl_targeted_def)
  have nb: "unat (of_nat (length b) :: u16) = length b" using b by (simp add: unat_of_nat)
  have acc: "dl_accepts (0x36 # of_nat i # b) n 16 ?io"
    using at b rec art by (auto simp: dl_accepts_def n n2 dl_at_def word_le_nat_alt unat_sub_le unat_of_nat)
  define h where "h = dl_header_part (length got) (length b)"
  note hp = header_part_le [of "length got" "length b", folded h_def]
  let ?a = "Uds_Download_SlotAddress ?s + received_size d + of_nat h"
  let ?hd = "copy_bytes h (dl_header d) (length got) b 0"
  obtain w2 where wr: "the (dl_write cfg) ?a (drop h b) (of_nat (length b) - of_nat h) w = (True, w2)"
    using works by (metis prod.collapse)
  define io1 where "io1 = ?io\<lparr>dio_download := d\<lparr>dl_header := ?hd\<rparr>, dio_world := (if h < length b
    then (w2, log @ [Dl_Written ?a (drop h b) (of_nat (length b) - of_nat h) True]) else (w, log))\<rparr>"
  have store: "dl_store_block (drop 2 (0x36 # of_nat i # b)) (of_nat (length b)) ?io = (True, io1)"
    using b by (simp add: store_run nb rec h_def [symmetric] c dl_logged_ops [OF c(1)] wr tgt io1_def)
  define d2 where "d2 = dio_download (dl_accept_block (of_nat i) (of_nat (length b)) io1)"
  define ws where "ws = (if h < length b then [Dl_Written ?a (drop h b) (of_nat (length b) - of_nat h) True] else [])"
  have run: "Uds_Download_Handle_body 0x36 (0x36 # of_nat i # b) n 16 ?io
    = (UDS_NRC_NONE, dl_accept_block (of_nat i) (of_nat (length b)) io1)"
    using transfer_run(1) [OF acc] store c(3) n b
    by (simp add: Uds_Download_Handle_body_def uds_consts n2 word_unat_eq_iff)
  show ?thesis
  proof (rule that [folded n_def])
    show "Uds_Download_Handle_body 0x36 (0x36 # of_nat i # b) n 16 ?io = (UDS_NRC_NONE,
      \<lparr>dio_download = d2, dio_response = r[0 := of_nat i], dio_length = 1,
        dio_world = (if h < length b then w2 else w, log @ ws)\<rparr>)"
      by (simp add: run d2_def ws_def dl_accept_block_def io1_def Let_def)
  next
    have "ucast (of_nat (length b) :: u16) = (of_nat (length b) :: u32)"
      using b by (simp add: word_unat_eq_iff unat_of_nat)
    moreover have "unat (received_size d + of_nat (length b)) = length got + length b"
      using rec b art by (simp add: unat_add_small unat_of_nat)
    ultimately have sz: "unat (received_size d + ucast (of_nat (length b) :: u16)) = length got + length b"
      by simp
    have "take (length got + length b) ?hd = take 1024 (got @ b)"
      unfolding h_def by (rule header_received) (use at c(4) in \<open>simp_all add: dl_at_def\<close>)
    then show "dl_at cfg N (Suc i) (got @ b) d2"
      using at b sz by (simp add: d2_def io1_def dl_accept_block_def dl_at_def dl_setup_def dl_targeted_def Let_def)
  next
    show "has_last_block d2" by (simp add: d2_def dl_accept_block_def Let_def)
  next
    show "dl_programs (Uds_Download_SlotAddress ?s + of_nat (max 1024 (length got))) (drop (1024 - length got) b) ws"
      using block_programs [OF b(2) h_def rec] by (simp add: ws_def)
  qed
qed

lemma block_repeated:
  assumes at: "dl_at cfg N (Suc i) got d" "has_last_block d" and b: "1 \<le> length b" "length b \<le> 256"
  obtains d' rsp where "Uds_Download_Handle_body 0x36 (0x36 # of_nat i # b) (of_nat (length b + 2)) 16
      \<lparr>dio_download = d, dio_response = r, dio_length = 0, dio_world = x\<rparr>
    = (UDS_NRC_NONE, \<lparr>dio_download = d', dio_response = rsp, dio_length = 1, dio_world = x\<rparr>)"
    "dl_at cfg N (Suc i) got d'" "has_last_block d'"
proof -
  define n :: u16 where "n = of_nat (length b + 2)"
  have n: "unat n = length b + 2" unfolding n_def by (subst unat_of_nat) (use b in simp)
  have "last_block_sequence d = of_nat i" using at by (simp add: dl_at_def)
  moreover have "n \<noteq> 0" "\<not> n < 3" "\<not> 258 < n" using n b by (auto simp: nat_of_word)
  ultimately have run: "Uds_Download_Handle_body 0x36 (0x36 # of_nat i # b) n 16
      \<lparr>dio_download = d, dio_response = r, dio_length = 0, dio_world = x\<rparr>
    = (UDS_NRC_NONE, \<lparr>dio_download = d\<lparr>dl_stats := (dl_stats d)\<lparr>duplicate_blocks := duplicate_blocks (dl_stats d) + 1\<rparr>\<rparr>,
        dio_response = r[0 := of_nat i], dio_length = 1, dio_world = x\<rparr>)"
    using at by (simp add: Uds_Download_Handle_body_def uds_consts dl_consts dl_at_def dl_setup_def
        Uds_Download_ProcessTransferData_def Let_def)
  show ?thesis
    by (rule that [folded n_def, OF run]) (use at in \<open>simp_all add: dl_at_def dl_setup_def dl_targeted_def\<close>)
qed

lemma serve_append: "dl_serve (rs @ rs') x = (case dl_serve rs x of (ns, y) \<Rightarrow>
    case dl_serve rs' y of (ns', z) \<Rightarrow> (ns @ ns', z))"
  by (induction rs arbitrary: x) (auto split: prod.splits)

lemma serve_repeats:
  assumes "dl_at cfg N (Suc i) got d" "has_last_block d" "1 \<le> length b" "length b \<le> 256"
  shows "\<exists>d'. dl_serve (replicate k (0x36 # of_nat i # b)) (d, x) = (replicate k UDS_NRC_NONE, d', x)
    \<and> dl_at cfg N (Suc i) got d' \<and> has_last_block d'"
  using assms(1,2)
proof (induction k arbitrary: d)
  case (Suc k)
  obtain d1 rsp where one: "Uds_Download_Handle_body 0x36 (0x36 # of_nat i # b) (of_nat (length b + 2)) 16
      \<lparr>dio_download = d, dio_response = replicate 16 0, dio_length = 0, dio_world = x\<rparr>
    = (UDS_NRC_NONE, \<lparr>dio_download = d1, dio_response = rsp, dio_length = 1, dio_world = x\<rparr>)"
    and d1: "dl_at cfg N (Suc i) got d1" "has_last_block d1"
    using block_repeated [OF Suc.prems assms(3,4)] by blast
  from Suc.IH [OF d1] show ?case using one by (auto simp: Uds_Download_Handle_def add.commute)
qed simp

lemma serve_blocks:
  assumes "dl_at cfg N i got d" "length got + length (concat (map fst bs)) \<le> N"
    and "\<forall>(b, k) \<in> set bs. 1 \<le> length b \<and> length b \<le> 256"
    and works: "\<forall>a data n w. fst (the (dl_write cfg) a data n w)"
  shows "\<exists>ns d' w' ws. dl_serve (dl_blocks i bs) (d, w, log) = (ns, d', w', log @ ws) \<and> set ns \<subseteq> {UDS_NRC_NONE}
    \<and> dl_at cfg N (i + length bs) (got @ concat (map fst bs)) d'
    \<and> dl_programs (Uds_Download_SlotAddress (dl_inactive_slot cfg) + of_nat (max 1024 (length got)))
       (drop (1024 - length got) (concat (map fst bs))) ws"
  using assms(1-3)
proof (induction i bs arbitrary: got d w log rule: dl_blocks.induct)
  case (1 i)
  then show ?case by (auto intro: exI [of _ "[]"])
next
  case (2 i b k bs)
  let ?base = "Uds_Download_SlotAddress (dl_inactive_slot cfg)"
  have b: "1 \<le> length b" "length b \<le> 256" "length got + length b \<le> N" using 2 by auto
  obtain d1 rsp w1 ws where one: "Uds_Download_Handle_body 0x36 (0x36 # of_nat i # b) (of_nat (length b + 2)) 16
      \<lparr>dio_download = d, dio_response = replicate 16 0, dio_length = 0, dio_world = (w, log)\<rparr>
    = (UDS_NRC_NONE, \<lparr>dio_download = d1, dio_response = rsp, dio_length = 1, dio_world = (w1, log @ ws)\<rparr>)"
    and d1: "dl_at cfg N (Suc i) (got @ b) d1" "has_last_block d1"
    and ws: "dl_programs (?base + of_nat (max 1024 (length got))) (drop (1024 - length got) b) ws"
    using block_accepted [OF 2(2) b works] by blast
  obtain d2 where rep: "dl_serve (replicate k (0x36 # of_nat i # b)) (d1, w1, log @ ws)
      = (replicate k UDS_NRC_NONE, d2, w1, log @ ws)" and d2: "dl_at cfg N (Suc i) (got @ b) d2"
    using serve_repeats [OF d1 b(1,2), of k "(w1, log @ ws)"] by blast
  obtain ns d' w' vs where rest: "dl_serve (dl_blocks (Suc i) bs) (d2, w1, log @ ws) = (ns, d', w', (log @ ws) @ vs)"
    "set ns \<subseteq> {UDS_NRC_NONE}" "dl_at cfg N (Suc i + length bs) ((got @ b) @ concat (map fst bs)) d'"
    and vs: "dl_programs (?base + of_nat (max 1024 (length (got @ b)))) (drop (1024 - length (got @ b)) (concat (map fst bs))) vs"
    using 2(1) [OF d2, of w1 "log @ ws"] 2(3,4) by auto
  have "dl_programs (?base + of_nat (max 1024 (length got)))
       (drop (1024 - length got) b @ drop (1024 - length (got @ b)) (concat (map fst bs))) (ws @ vs)"
  proof (rule dl_programs_append [OF ws])
    have "max 1024 (length got) + length (drop (1024 - length got) b) = max 1024 (length (got @ b))"
      by (simp add: max_def)
    then have "?base + of_nat (max 1024 (length got)) + of_nat (length (drop (1024 - length got) b))
        = ?base + of_nat (max 1024 (length (got @ b)))" by (simp only: add.assoc of_nat_add [symmetric])
    then show "dl_programs (?base + of_nat (max 1024 (length got)) + of_nat (length (drop (1024 - length got) b)))
        (drop (1024 - length (got @ b)) (concat (map fst bs))) vs" using vs by (simp only:)
  qed
  moreover have "drop (1024 - length got) b @ drop (1024 - length (got @ b)) (concat (map fst bs))
      = drop (1024 - length got) (concat (map fst ((b, k) # bs)))" by simp
  moreover have "dl_serve (dl_blocks i ((b, k) # bs)) (d, w, log)
      = (UDS_NRC_NONE # replicate k UDS_NRC_NONE @ ns, d', w', log @ ws @ vs)"
    using one rep rest(1) by (simp add: Uds_Download_Handle_def serve_append add.commute)
  moreover have "dl_at cfg N (i + length ((b, k) # bs)) (got @ concat (map fst ((b, k) # bs))) d'"
    using rest(3) by simp
  moreover have "set (UDS_NRC_NONE # replicate k UDS_NRC_NONE @ ns) \<subseteq> {UDS_NRC_NONE}"
    using rest(2) by auto
  ultimately show ?case by (intro exI conjI) (simp only:)+
qed


lemma dl_byte_order: "Uds_Download_ReadU32Be = read_u32_be" "Uds_Download_WriteU32Be = write_u32_be"
  by (simp_all add: fun_eq_iff Uds_Download_ReadU32Be_def read_u32_be_def
      Uds_Download_WriteU32Be_def write_u32_be_def)

lemma program_request:
  fixes a n
  defines "r \<equiv> Uds_Download_WriteU32Be (Uds_Download_WriteU32Be (0x34 # 0x00 # 0x44 # replicate 8 0) 3 a) 7 n"
  shows "length r = 11" "r ! 0 = 0x34" "r ! 1 = 0" "r ! 2 = 0x44" "Uds_Download_ReadU32Be r 3 = a"
    "Uds_Download_ReadU32Be r 7 = n"
proof -
  have l: "length (write_u32_be (0x34 # 0x00 # 0x44 # replicate 8 0) 3 a) = 11" by simp
  show "length r = 11" "r ! 0 = 0x34" "r ! 1 = 0" "r ! 2 = 0x44" by (simp_all add: r_def dl_byte_order write_u32_be_def)
  have "read_u32_be r 3 = read_u32_be (write_u32_be (0x34 # 0x00 # 0x44 # replicate 8 0) 3 a) 3"
    by (simp add: r_def dl_byte_order write_u32_be_def [of _ 7] read_u32_be_def)
  then show "Uds_Download_ReadU32Be r 3 = a" by (simp add: dl_byte_order)
  show "Uds_Download_ReadU32Be r 7 = n" by (simp add: r_def dl_byte_order l)
qed

lemma download_requested:
  assumes "dl_io_inv cfg \<lparr>dio_download = d, dio_response = r, dio_length = 0, dio_world = x\<rparr>"
    and "dl_state (dl_stats d) = UDS_DOWNLOAD_STATE_READY"
    and N: "1024 \<le> N" "N \<le> 0xE0000" "N mod 16 = 0"
  defines "req \<equiv> Uds_Download_WriteU32Be (Uds_Download_WriteU32Be (0x34 # 0x00 # 0x44 # replicate 8 0) 3
      (Uds_Download_SlotAddress (dl_inactive_slot cfg))) 7 (of_nat N)"
  obtains d' rsp where "Uds_Download_Handle_body 0x34 req 11 16
      \<lparr>dio_download = d, dio_response = r, dio_length = 0, dio_world = x\<rparr>
    = (UDS_NRC_NONE, \<lparr>dio_download = d', dio_response = rsp, dio_length = 3, dio_world = x\<rparr>)"
    "dl_at cfg N 1 [] d'"
proof -
  let ?io = "\<lparr>dio_download = d, dio_response = r, dio_length = 0 :: u16, dio_world = x\<rparr>"
  note req = program_request [of "Uds_Download_SlotAddress (dl_inactive_slot cfg)" "of_nat N", folded req_def]
  have d: "dl_targeted (dl_inactive_slot cfg) d" "dl_setup cfg d"
    using assms(1,2) by (auto simp: dl_inv_def)
  have n: "unat (of_nat N :: u32) = N" using N by (simp add: unat_of_nat)
  have "of_nat N mod (16 :: u32) = 0" using unat_mod [of "of_nat N :: u32" 16] N(3) n
    by (simp add: word_unat_eq_iff)
  then have ok: "dl_request_ok req 11 16 ?io"
    using assms(2) d req N n slot_bounds(2) [of "dl_inactive_slot cfg"]
    by (simp add: dl_request_ok_def dl_consts dl_targeted_def nat_of_word)
  have run: "Uds_Download_Handle_body 0x34 req 11 16 ?io = (UDS_NRC_NONE, \<lparr>dio_download = d
       \<lparr>dl_header := replicate 1024 0xFF, artifact_size := of_nat N,
         received_size := 0, has_last_block := False, dl_stats := (dl_stats d)
        \<lparr>expected_block_sequence := 1, dl_state := UDS_DOWNLOAD_STATE_TRANSFER\<rparr>\<rparr>,
      dio_response = r[0 := 0x20, 1 := 1, 2 := ucast (258 :: u16)], dio_length = 3, dio_world = x\<rparr>)"
    using d(2) by (simp add: Uds_Download_Handle_body_def uds_consts request_download_run(1) [OF ok] dl_setup_def req(6))
  show ?thesis
    by (rule that [OF run]) (use d n N in \<open>simp add: dl_at_def dl_setup_def dl_targeted_def\<close>)
qed


lemma download_finished:
  assumes at: "dl_at cfg N i got d" "length got = N" "1024 \<le> N"
    and works: "\<forall>s a h n w. fst (the (dl_finalize cfg) s a h n w)"
  obtains d' w' rsp where "Uds_Download_Handle_body 0x37 [0x37] 1 16
      \<lparr>dio_download = d, dio_response = r, dio_length = 0, dio_world = (w, log)\<rparr>
    = (UDS_NRC_NONE, \<lparr>dio_download = d', dio_response = rsp, dio_length = 0, dio_world = (w', log @
        [Dl_Finalized (dl_inactive_slot cfg) (Uds_Download_SlotAddress (dl_inactive_slot cfg))
          (take 1024 got) (of_nat N) True])\<rparr>)"
    "dl_state (dl_stats d') = UDS_DOWNLOAD_STATE_COMPLETE"
proof -
  let ?s = "dl_inactive_slot cfg"
  have c: "dl_complete cfg" "dl_config d = dl_logged cfg" "dl_initialized d" "length (dl_header d) = 1024"
    using at(1) by (simp_all add: dl_at_def dl_setup_def)
  have h: "dl_header d = take 1024 got" using at c(4) by (simp add: dl_at_def)
  have n: "unat (artifact_size d) = N" "unat (received_size d) = N" using at(1,2) by (simp_all add: dl_at_def)
  have sz: "artifact_size d = of_nat N" "received_size d = artifact_size d"
    using n(2) by (simp_all add: word_unat_eq_iff n(1)) (simp flip: n(1))
  obtain w2 where f: "the (dl_finalize cfg) ?s (Uds_Download_SlotAddress ?s) (take 1024 got) (of_nat N) w = (True, w2)"
    using works by (metis prod.collapse)
  have run: "Uds_Download_Handle_body 0x37 [0x37] 1 16
      \<lparr>dio_download = d, dio_response = r, dio_length = 0, dio_world = (w, log)\<rparr>
    = (UDS_NRC_NONE, \<lparr>dio_download = d\<lparr>dl_stats := (dl_stats d)\<lparr>dl_state := UDS_DOWNLOAD_STATE_COMPLETE,
          completed_downloads := completed_downloads (dl_stats d) + 1\<rparr>\<rparr>,
        dio_response = r, dio_length = 0, dio_world = (w2, log @
        [Dl_Finalized ?s (Uds_Download_SlotAddress ?s) (take 1024 got) (of_nat N) True])\<rparr>)"
    using at(1) c f sz by (simp add: Uds_Download_Handle_body_def uds_consts Uds_Download_ProcessTransferExit_def
        dl_at_def dl_targeted_def dl_logged_ops [OF c(1)] h Let_def)
  show ?thesis by (rule that [OF run]) simp
qed

lemma calls_inv: "dl_inv cfg x \<Longrightarrow> dl_inv cfg (fold dl_call_step cs x)"
  by (induction cs arbitrary: x) (simp_all add: call_step_inv)

text \<open>
  C15. A client that finds the handler ready after an erase (after whatever calls before) and
  sends an image in blocks of 1 to 256 bytes, each block possibly repeated after a lost
  acknowledgement, gets every request accepted by a working backend; the backend has then
  received the image: everything behind the header was written once and in order to the
  inactive slot behind the place of the header, and the finalisation got the header and the
  size of the image, exactly once and last. The block numbers wrap around at 256.
\<close>

theorem download_transfers_image:
  assumes "Uds_Download_Init (Some d0) (Some (dl_logged cfg)) = (UDS_SERVER_RESULT_OK, Some d1)"
    and "fold dl_call_step cs (d1, w0, []) = (d, w, log)" "dl_state (dl_stats d) = UDS_DOWNLOAD_STATE_READY"
    and bs: "\<forall>(b, k) \<in> set bs. 1 \<le> length b \<and> length b \<le> 256" "img = concat (map fst bs)"
    and sz: "1024 \<le> length img" "length img \<le> 0xE0000" "length img mod 16 = 0"
    and works: "\<forall>a data n w. fst (the (dl_write cfg) a data n w)" "\<forall>s a h n w. fst (the (dl_finalize cfg) s a h n w)"
    and base: "base = Uds_Download_SlotAddress (dl_inactive_slot cfg)"
  shows "\<exists>nrcs d' w' ws. dl_serve (dl_program base bs) (d, w, log) = (nrcs, d', w', log @ ws
        @ [Dl_Finalized (dl_inactive_slot cfg) base (take 1024 img) (of_nat (length img)) True])
    \<and> set nrcs = {UDS_NRC_NONE} \<and> dl_programs (base + 1024) (drop 1024 img) ws
    \<and> dl_state (dl_stats d') = UDS_DOWNLOAD_STATE_COMPLETE"
proof -
  have inv: "dl_io_inv cfg \<lparr>dio_download = d, dio_response = replicate 16 0, dio_length = 0, dio_world = (w, log)\<rparr>"
    using calls_inv [OF init_inv [OF assms(1)], of cs w0] assms(2) by simp
  obtain d2 rsp where req: "Uds_Download_Handle_body 0x34 (hd (dl_program base bs)) 11 16
      \<lparr>dio_download = d, dio_response = replicate 16 0, dio_length = 0, dio_world = (w, log)\<rparr>
    = (UDS_NRC_NONE, \<lparr>dio_download = d2, dio_response = rsp, dio_length = 3, dio_world = (w, log)\<rparr>)"
    and d2: "dl_at cfg (length img) 1 [] d2"
    by (rule download_requested [OF inv assms(3) sz, unfolded bs(2), folded base])
      (simp add: dl_program_def bs(2))
  obtain ns d3 w3 ws where sent: "dl_serve (dl_blocks 1 bs) (d2, w, log) = (ns, d3, w3, log @ ws)"
    "set ns \<subseteq> {UDS_NRC_NONE}" "dl_at cfg (length img) (1 + length bs) img d3"
    and ws: "dl_programs (base + 1024) (drop 1024 img) ws"
    using serve_blocks [OF d2 _ bs(1) works(1), of w log] bs(2) base by auto
  obtain d' w' rsp2 where fin: "Uds_Download_Handle_body 0x37 [0x37] 1 16
      \<lparr>dio_download = d3, dio_response = replicate 16 0, dio_length = 0, dio_world = (w3, log @ ws)\<rparr>
    = (UDS_NRC_NONE, \<lparr>dio_download = d', dio_response = rsp2, dio_length = 0, dio_world = (w', (log @ ws) @
        [Dl_Finalized (dl_inactive_slot cfg) base (take 1024 img) (of_nat (length img)) True])\<rparr>)"
    and fin_st: "dl_state (dl_stats d') = UDS_DOWNLOAD_STATE_COMPLETE"
    using download_finished [OF sent(3) refl sz(1) works(2)] base by metis
  have "dl_serve (dl_program base bs) (d, w, log) = (UDS_NRC_NONE # ns @ [UDS_NRC_NONE], d', w', log @ ws
        @ [Dl_Finalized (dl_inactive_slot cfg) base (take 1024 img) (of_nat (length img)) True])"
    using req sent(1) fin program_request [of base "of_nat (length (concat (map fst bs)))"]
    by (simp add: dl_program_def Uds_Download_Handle_def serve_append)
  then show ?thesis using sent(2) ws fin_st by (intro exI conjI) (assumption | auto)+
qed


lemma demo_erased:
  "\<exists>d. fold dl_call_step [Dl_Request 0x31 [0x31, 0x01, 0xFF, 0x00] 4 (replicate 13 0) 13] (demo_download, 0, [])
     = (d, 2, [Dl_Authorized True, Dl_EraseStarted BOOT_SLOT_B 0x08100000 0xE0000])
   \<and> dl_state (dl_stats d) = UDS_DOWNLOAD_STATE_READY"
  by (simp add: demo_download_def demo_backend_def dl_logged_def Uds_Download_Handle_def
      Uds_Download_Handle_body_def Uds_Download_ProcessRoutine_def uds_consts dl_consts dl_routine_start_def
      dl_stats_zero_def Uds_Download_SlotAddress_def Uds_Download_SlotSize_def boot_map Let_def
      Uds_Download_WriteRoutineResponse_def Uds_Download_SetState_def)

definition demo_blocks :: "(bytes \<times> nat) list" where
  "demo_blocks = replicate 4 (replicate 256 7, 0) @ [(replicate 16 9, 2)]"

theorem download_transfers_image_witness:
  "\<exists>d w log nrcs d' w' ws. dl_serve (dl_program 0x08100000 demo_blocks) (d, w :: nat, log) = (nrcs, d', w', log @ ws
        @ [Dl_Finalized BOOT_SLOT_B 0x08100000 (replicate 1024 7) 1040 True])
    \<and> set nrcs = {UDS_NRC_NONE} \<and> dl_programs 0x08100400 (replicate 16 9) ws"
proof -
  obtain d where run: "fold dl_call_step [Dl_Request 0x31 [0x31, 0x01, 0xFF, 0x00] 4 (replicate 13 0) 13]
      (demo_download, 0, []) = (d, 2, [Dl_Authorized True, Dl_EraseStarted BOOT_SLOT_B 0x08100000 0xE0000])"
    and st: "dl_state (dl_stats d) = UDS_DOWNLOAD_STATE_READY" using demo_erased by blast
  let ?img = "replicate 1024 7 @ replicate 16 9 :: bytes"
  have "replicate 256 (7 :: u8) @ replicate 256 7 @ replicate 256 7 @ replicate 256 7 = replicate 1024 7"
    by (simp flip: replicate_add)
  note eq = this
  have "replicate 4 p = [p, p, p, p]" for p :: "bytes \<times> nat" by (simp add: numeral_eq_Suc)
  then have img: "?img = concat (map fst demo_blocks)" by (simp add: demo_blocks_def flip: eq)
  have slot: "dl_inactive_slot demo_backend = BOOT_SLOT_B" by (simp add: dl_inactive_slot_def demo_backend_def)
  have blocks: "\<forall>(b, k) \<in> set demo_blocks. 1 \<le> length b \<and> length b \<le> 256"
    by (simp add: demo_blocks_def)
  have works: "\<forall>a data n w. fst (the (dl_write demo_backend) a data n w)"
    "\<forall>s a h n w. fst (the (dl_finalize demo_backend) s a h n w)"
    by (simp_all add: demo_backend_def)
  have base: "0x08100000 = Uds_Download_SlotAddress (dl_inactive_slot demo_backend)"
    by (simp add: slot Uds_Download_SlotAddress_def boot_map)
  have sz: "1024 \<le> length ?img" "length ?img \<le> 0xE0000" "length ?img mod 16 = 0"
    "take 1024 ?img = replicate 1024 7" "drop 1024 ?img = replicate 16 9" "of_nat (length ?img) = (1040 :: u32)"
    and plus: "0x08100000 + 1024 = (0x08100400 :: u32)"
    by simp_all
  obtain nrcs d' w' ws where sent: "dl_serve (dl_program 0x08100000 demo_blocks)
      (d, 2, [Dl_Authorized True, Dl_EraseStarted BOOT_SLOT_B 0x08100000 0xE0000])
    = (nrcs, d', w', [Dl_Authorized True, Dl_EraseStarted BOOT_SLOT_B 0x08100000 0xE0000] @ ws
        @ [Dl_Finalized BOOT_SLOT_B 0x08100000 (replicate 1024 7) 1040 True])"
    "set nrcs = {UDS_NRC_NONE}" "dl_programs 0x08100400 (replicate 16 9) ws"
    using download_transfers_image [OF demo_download_init run st blocks img sz(1-3) works base]
    unfolding sz(4-6) slot plus by (elim exE conjE) (rule that)
  show ?thesis by (intro exI conjI) (rule sent)+
qed

end
