(* ===== verification/CanTransport.thy ===== *)
theory CanTransport
  imports Prelude
begin

text \<open>
  The transmit queue of the CAN bus, \<open>src/Core/Src/can_transport.c\<close>: a direct attempt when
  nothing waits, otherwise a software queue of 16 messages with the events in front, one waiting
  copy of every periodic message, and the eviction of a periodic message by an event. The file's
  static variables are the record \<open>CAN_Transport\<close>; the HAL is a record of functions over a state
  \<open>'w\<close>. The C enumeration of identifier types can hold a value outside it, which the code
  rejects; that is the constructor \<open>CAN_TRANSPORT_ID_OTHER\<close>.
\<close>

section \<open>Data\<close>

definition CAN_TRANSPORT_TX_QUEUE_CAPACITY :: u8 where "CAN_TRANSPORT_TX_QUEUE_CAPACITY = 16"
definition CAN_TRANSPORT_QUEUE_STUCK_TIMEOUT_MS :: u32 where "CAN_TRANSPORT_QUEUE_STUCK_TIMEOUT_MS = 1000"

definition FDCAN_STANDARD_ID :: u32 where "FDCAN_STANDARD_ID = 0x00000000"
definition FDCAN_EXTENDED_ID :: u32 where "FDCAN_EXTENDED_ID = 0x40000000"
definition FDCAN_DATA_FRAME :: u32 where "FDCAN_DATA_FRAME = 0x00000000"
definition FDCAN_DLC_BYTES_8 :: u32 where "FDCAN_DLC_BYTES_8 = 0x00000008"
definition FDCAN_ESI_ACTIVE :: u32 where "FDCAN_ESI_ACTIVE = 0x00000000"
definition FDCAN_BRS_OFF :: u32 where "FDCAN_BRS_OFF = 0x00000000"
definition FDCAN_CLASSIC_CAN :: u32 where "FDCAN_CLASSIC_CAN = 0x00000000"
definition FDCAN_NO_TX_EVENTS :: u32 where "FDCAN_NO_TX_EVENTS = 0x00000000"

datatype CAN_Transport_IdType = CAN_TRANSPORT_ID_STANDARD | CAN_TRANSPORT_ID_EXTENDED
  | CAN_TRANSPORT_ID_OTHER nat

datatype CAN_Transport_Result = CAN_TRANSPORT_OK | CAN_TRANSPORT_QUEUED
  | CAN_TRANSPORT_NOT_INITIALIZED | CAN_TRANSPORT_INVALID_ARGUMENT | CAN_TRANSPORT_INVALID_ID
  | CAN_TRANSPORT_QUEUE_FULL | CAN_TRANSPORT_HAL_ERROR

record CAN_Transport_Message =
  msg_identifier :: u32
  id_type :: CAN_Transport_IdType
  msg_data :: bytes
  high_priority :: bool
  replaceable :: bool

record CAN_Transport_Stats =
  sent_direct :: u32
  enqueued :: u32
  coalesced :: u32
  high_priority_enqueued :: u32
  periodic_evicted :: u32
  sent_from_queue :: u32
  queue_overflow :: u32
  hal_error :: u32
  queue_stuck_events :: u32
  current_pending_ms :: u32
  longest_pending_ms :: u32
  pending_count :: u8
  queue_high_watermark :: u8
  queue_stuck_active :: bool

text \<open>The handle of the peripheral is its address, and the HAL's transmit header.\<close>

type_synonym fdcan_handle = nat

record FDCAN_TxHeader =
  Identifier :: u32
  IdType :: u32
  TxFrameType :: u32
  DataLength :: u32
  ErrorStateIndicator :: u32
  BitRateSwitch :: u32
  FDFormat :: u32
  TxEventFifoControl :: u32
  MessageMarker :: u32

record 'w can_hal =
  HAL_GetTick :: "'w \<Rightarrow> u32 \<times> 'w"
  HAL_FDCAN_GetTxFifoFreeLevel :: "fdcan_handle \<Rightarrow> 'w \<Rightarrow> u32 \<times> 'w"
  HAL_FDCAN_AddMessageToTxFifoQ :: "fdcan_handle \<Rightarrow> FDCAN_TxHeader \<Rightarrow> bytes \<Rightarrow> 'w \<Rightarrow> bool \<times> 'w"

record CAN_Transport =
  can_handle :: "fdcan_handle option"
  tx_queue :: "CAN_Transport_Message list"
  tx_queue_count :: u8
  transport_stats :: CAN_Transport_Stats
  queue_pending_since_tick :: u32
  queue_pending_timer_active :: bool
  queue_stuck_reported :: bool

abbreviation ct_count :: "(CAN_Transport_Stats \<Rightarrow> CAN_Transport_Stats) \<Rightarrow> CAN_Transport \<Rightarrow> CAN_Transport" where
  "ct_count f s \<equiv> s\<lparr>transport_stats := f (transport_stats s)\<rparr>"

definition can_stats_zero :: CAN_Transport_Stats where
  "can_stats_zero = \<lparr>sent_direct = 0, enqueued = 0, coalesced = 0, high_priority_enqueued = 0,
     periodic_evicted = 0, sent_from_queue = 0, queue_overflow = 0, hal_error = 0,
     queue_stuck_events = 0, current_pending_ms = 0, longest_pending_ms = 0, pending_count = 0,
     queue_high_watermark = 0, queue_stuck_active = False\<rparr>"

text \<open>The state before the initialisation: the static initialisers.\<close>

definition can_transport_static :: CAN_Transport where
  "can_transport_static = \<lparr>can_handle = None, tx_queue = replicate 16 \<lparr>msg_identifier = 0,
       id_type = CAN_TRANSPORT_ID_STANDARD, msg_data = replicate 8 0, high_priority = False,
       replaceable = False\<rparr>,
     tx_queue_count = 0, transport_stats = can_stats_zero, queue_pending_since_tick = 0,
     queue_pending_timer_active = False, queue_stuck_reported = False\<rparr>"

section \<open>Operations\<close>

definition CAN_Transport_CopyData :: "bytes \<Rightarrow> bytes \<Rightarrow> bytes" where
  "CAN_Transport_CopyData destination source = copy_bytes 8 destination 0 source 0"

definition CAN_Transport_UpdateQueueHealth :: "'w can_hal \<Rightarrow> CAN_Transport \<Rightarrow> 'w \<Rightarrow> CAN_Transport \<times> 'w" where
  "CAN_Transport_UpdateQueueHealth hal s w =
    (if tx_queue_count s = 0 then
      (let (s, w) =
         (if queue_pending_timer_active s then
           (case HAL_GetTick hal w of (tick, w) \<Rightarrow>
             let pending_duration = tick - queue_pending_since_tick s
             in (if longest_pending_ms (transport_stats s) < pending_duration
                 then ct_count (\<lambda>t. t\<lparr>longest_pending_ms := pending_duration\<rparr>) s else s, w))
          else (s, w))
       in (ct_count (\<lambda>t. t\<lparr>current_pending_ms := 0, queue_stuck_active := False\<rparr>)
             (s\<lparr>queue_pending_timer_active := False, queue_stuck_reported := False\<rparr>), w))
     else
      (case HAL_GetTick hal w of (now, w) \<Rightarrow>
        let s = (if \<not> queue_pending_timer_active s
               then s\<lparr>queue_pending_since_tick := now, queue_pending_timer_active := True,
                      queue_stuck_reported := False\<rparr>
               else s);
            pending_duration = now - queue_pending_since_tick s;
            s = ct_count (\<lambda>t. t\<lparr>current_pending_ms := pending_duration\<rparr>) s;
            s = (if longest_pending_ms (transport_stats s) < pending_duration
               then ct_count (\<lambda>t. t\<lparr>longest_pending_ms := pending_duration\<rparr>) s else s);
            s = (if CAN_TRANSPORT_QUEUE_STUCK_TIMEOUT_MS \<le> pending_duration \<and> \<not> queue_stuck_reported s
               then ct_count (\<lambda>t. t\<lparr>queue_stuck_active := True,
                      queue_stuck_events := queue_stuck_events t + 1\<rparr>) (s\<lparr>queue_stuck_reported := True\<rparr>)
               else s)
        in (s, w)))"

definition can_tx_header :: "CAN_Transport_Message \<Rightarrow> FDCAN_TxHeader" where
  "can_tx_header message = \<lparr>Identifier = msg_identifier message,
     IdType = (if id_type message = CAN_TRANSPORT_ID_STANDARD then FDCAN_STANDARD_ID else FDCAN_EXTENDED_ID),
     TxFrameType = FDCAN_DATA_FRAME, DataLength = FDCAN_DLC_BYTES_8,
     ErrorStateIndicator = FDCAN_ESI_ACTIVE, BitRateSwitch = FDCAN_BRS_OFF,
     FDFormat = FDCAN_CLASSIC_CAN, TxEventFifoControl = FDCAN_NO_TX_EVENTS, MessageMarker = 0\<rparr>"

definition CAN_Transport_TryHardwareSend :: "'w can_hal \<Rightarrow> fdcan_handle \<Rightarrow> CAN_Transport_Message
    \<Rightarrow> 'w \<Rightarrow> CAN_Transport_Result \<times> 'w" where
  "CAN_Transport_TryHardwareSend hal handle message w =
    (case HAL_FDCAN_GetTxFifoFreeLevel hal handle w of (level, w) \<Rightarrow>
      if level = 0 then (CAN_TRANSPORT_QUEUE_FULL, w)
      else case HAL_FDCAN_AddMessageToTxFifoQ hal handle (can_tx_header message) (msg_data message) w of
        (ok, w) \<Rightarrow> (if \<not> ok then CAN_TRANSPORT_HAL_ERROR else CAN_TRANSPORT_OK, w))"

text \<open>
  The loops over the queue: the search for the last replaceable message (downwards from the
  count), the closing of a gap, the end of the events, and the opening of a gap.
\<close>

fun can_evict_index :: "CAN_Transport_Message list \<Rightarrow> nat \<Rightarrow> nat" where
  "can_evict_index q 0 = 0"
| "can_evict_index q (Suc n) = (if replaceable (q ! n) then n else can_evict_index q n)"

definition can_close_gap :: "nat \<Rightarrow> nat \<Rightarrow> 'm list \<Rightarrow> 'm list" where
  "can_close_gap from_index n q = fold (\<lambda>i q. q[i := q ! (i + 1)]) [from_index..<n - 1] q"

function can_insert_index :: "CAN_Transport_Message list \<Rightarrow> nat \<Rightarrow> nat \<Rightarrow> nat" where
  "can_insert_index q n i = (if i < n \<and> high_priority (q ! i) then can_insert_index q n (i + 1) else i)"
  by pat_completeness auto
termination by (relation "measure (\<lambda>(q, n, i). n - i)") auto

definition can_open_gap :: "nat \<Rightarrow> nat \<Rightarrow> 'm list \<Rightarrow> 'm list" where
  "can_open_gap n to_index q = fold (\<lambda>i q. q[i := q ! (i - 1)]) (rev [to_index + 1..<n + 1]) q"

definition CAN_Transport_Enqueue :: "'w can_hal \<Rightarrow> CAN_Transport_Message \<Rightarrow> CAN_Transport \<Rightarrow> 'w
    \<Rightarrow> CAN_Transport_Result \<times> CAN_Transport \<times> 'w" where
  "CAN_Transport_Enqueue hal message s w =
    (let queue_was_empty = (tx_queue_count s = 0);
         evicted =
          (if CAN_TRANSPORT_TX_QUEUE_CAPACITY \<le> tx_queue_count s then
            (if \<not> high_priority message then Inl (ct_count (\<lambda>t. t\<lparr>queue_overflow := queue_overflow t + 1\<rparr>) s)
             else
              let evict_index = can_evict_index (tx_queue s) (unat (tx_queue_count s))
              in if \<not> replaceable (tx_queue s ! evict_index)
                 then Inl (ct_count (\<lambda>t. t\<lparr>queue_overflow := queue_overflow t + 1\<rparr>) s)
                 else Inr (ct_count (\<lambda>t. t\<lparr>periodic_evicted := periodic_evicted t + 1\<rparr>)
                   (s\<lparr>tx_queue := can_close_gap evict_index (unat (tx_queue_count s)) (tx_queue s),
                      tx_queue_count := tx_queue_count s - 1\<rparr>)))
           else Inr s)
     in case evicted of
          Inl s \<Rightarrow> (CAN_TRANSPORT_QUEUE_FULL, s, w)
        | Inr s \<Rightarrow>
          let n = unat (tx_queue_count s);
              insert_index = (if high_priority message then can_insert_index (tx_queue s) n 0 else n);
              s = s\<lparr>tx_queue := (can_open_gap n insert_index (tx_queue s))[insert_index := message],
                    tx_queue_count := tx_queue_count s + 1\<rparr>;
              s = ct_count (\<lambda>t. t\<lparr>enqueued := enqueued t + 1\<rparr>) s;
              (s, w) = (if queue_was_empty then
                 (case HAL_GetTick hal w of (tick, w) \<Rightarrow>
                   (ct_count (\<lambda>t. t\<lparr>current_pending_ms := 0, queue_stuck_active := False\<rparr>)
                      (s\<lparr>queue_pending_since_tick := tick, queue_pending_timer_active := True,
                         queue_stuck_reported := False\<rparr>), w))
                 else (s, w));
              s = (if high_priority message
                 then ct_count (\<lambda>t. t\<lparr>high_priority_enqueued := high_priority_enqueued t + 1\<rparr>) s else s);
              s = (if queue_high_watermark (transport_stats s) < tx_queue_count s
                 then ct_count (\<lambda>t. t\<lparr>queue_high_watermark := tx_queue_count s\<rparr>) s else s)
          in (CAN_TRANSPORT_QUEUED, s, w))"

text \<open>The index of the waiting periodic message with an identifier; a null pointer is \<open>None\<close>.\<close>

definition CAN_Transport_FindPending :: "u32 \<Rightarrow> CAN_Transport_IdType \<Rightarrow> CAN_Transport \<Rightarrow> nat option" where
  "CAN_Transport_FindPending ident idt s =
    List.find (\<lambda>i. msg_identifier (tx_queue s ! i) = ident \<and> id_type (tx_queue s ! i) = idt
       \<and> replaceable (tx_queue s ! i)) [0..<unat (tx_queue_count s)]"

definition can_make_message :: "u32 \<Rightarrow> CAN_Transport_IdType \<Rightarrow> bytes \<Rightarrow> bool \<Rightarrow> bool \<Rightarrow> CAN_Transport_Message" where
  "can_make_message ident idt data replace_pending high = \<lparr>msg_identifier = ident, id_type = idt,
     msg_data = CAN_Transport_CopyData (replicate 8 0) data, high_priority = high, replaceable = replace_pending\<rparr>"

definition CAN_Transport_SendClassicInternal :: "'w can_hal \<Rightarrow> u32 \<Rightarrow> CAN_Transport_IdType \<Rightarrow> bytes option
    \<Rightarrow> bool \<Rightarrow> bool \<Rightarrow> CAN_Transport \<Rightarrow> 'w \<Rightarrow> CAN_Transport_Result \<times> CAN_Transport \<times> 'w" where
  "CAN_Transport_SendClassicInternal hal ident idt data replace_pending high s w =
    (case can_handle s of None \<Rightarrow> (CAN_TRANSPORT_NOT_INITIALIZED, s, w) | Some handle \<Rightarrow>
     case data of None \<Rightarrow> (CAN_TRANSPORT_INVALID_ARGUMENT, s, w) | Some data \<Rightarrow>
     if idt = CAN_TRANSPORT_ID_STANDARD \<and> 0x7FF < ident then (CAN_TRANSPORT_INVALID_ID, s, w)
     else if idt = CAN_TRANSPORT_ID_EXTENDED \<and> 0x1FFFFFFF < ident then (CAN_TRANSPORT_INVALID_ID, s, w)
     else if idt \<noteq> CAN_TRANSPORT_ID_STANDARD \<and> idt \<noteq> CAN_TRANSPORT_ID_EXTENDED
     then (CAN_TRANSPORT_INVALID_ARGUMENT, s, w)
     else case CAN_Transport_UpdateQueueHealth hal s w of (s, w) \<Rightarrow>
      let message = can_make_message ident idt data replace_pending high;
          (sent, s, w) = (if tx_queue_count s = 0 then
             (case CAN_Transport_TryHardwareSend hal handle message w of (res, w) \<Rightarrow>
               if res = CAN_TRANSPORT_OK
               then (True, ct_count (\<lambda>t. t\<lparr>sent_direct := sent_direct t + 1\<rparr>) s, w)
               else if res = CAN_TRANSPORT_HAL_ERROR
               then (False, ct_count (\<lambda>t. t\<lparr>hal_error := hal_error t + 1\<rparr>) s, w)
               else (False, s, w))
             else (False, s, w))
      in if sent then (CAN_TRANSPORT_OK, s, w)
         else case (if replace_pending then CAN_Transport_FindPending ident idt s else None) of
           Some i \<Rightarrow> (CAN_TRANSPORT_QUEUED,
             ct_count (\<lambda>t. t\<lparr>coalesced := coalesced t + 1\<rparr>)
               (s\<lparr>tx_queue := (tx_queue s)[i := (tx_queue s ! i)
                 \<lparr>msg_data := CAN_Transport_CopyData (msg_data (tx_queue s ! i)) data\<rparr>]\<rparr>), w)
         | None \<Rightarrow> CAN_Transport_Enqueue hal message s w)"

definition CAN_Transport_Init :: "fdcan_handle option \<Rightarrow> CAN_Transport \<Rightarrow> CAN_Transport" where
  "CAN_Transport_Init hfdcan s = s\<lparr>can_handle := hfdcan, tx_queue_count := 0,
     transport_stats := can_stats_zero, queue_pending_since_tick := 0,
     queue_pending_timer_active := False, queue_stuck_reported := False\<rparr>"

definition CAN_Transport_SendClassic :: "'w can_hal \<Rightarrow> u32 \<Rightarrow> CAN_Transport_IdType \<Rightarrow> bytes option
    \<Rightarrow> CAN_Transport \<Rightarrow> 'w \<Rightarrow> CAN_Transport_Result \<times> CAN_Transport \<times> 'w" where
  "CAN_Transport_SendClassic hal ident idt data = CAN_Transport_SendClassicInternal hal ident idt data False False"

definition CAN_Transport_SendClassicLatest :: "'w can_hal \<Rightarrow> u32 \<Rightarrow> CAN_Transport_IdType \<Rightarrow> bytes option
    \<Rightarrow> CAN_Transport \<Rightarrow> 'w \<Rightarrow> CAN_Transport_Result \<times> CAN_Transport \<times> 'w" where
  "CAN_Transport_SendClassicLatest hal ident idt data = CAN_Transport_SendClassicInternal hal ident idt data True False"

definition CAN_Transport_SendClassicHighPriority :: "'w can_hal \<Rightarrow> u32 \<Rightarrow> CAN_Transport_IdType \<Rightarrow> bytes option
    \<Rightarrow> CAN_Transport \<Rightarrow> 'w \<Rightarrow> CAN_Transport_Result \<times> CAN_Transport \<times> 'w" where
  "CAN_Transport_SendClassicHighPriority hal ident idt data = CAN_Transport_SendClassicInternal hal ident idt data False True"

text \<open>Draining the queue while the peripheral takes messages.\<close>

function CAN_Transport_Process_loop :: "'w can_hal \<Rightarrow> fdcan_handle \<Rightarrow> CAN_Transport \<Rightarrow> 'w
    \<Rightarrow> CAN_Transport \<times> 'w" where
  "CAN_Transport_Process_loop hal handle s w =
    (if tx_queue_count s = 0 then (s, w)
     else case CAN_Transport_TryHardwareSend hal handle (tx_queue s ! 0) w of (res, w') \<Rightarrow>
      if res \<noteq> CAN_TRANSPORT_OK then
        (if res = CAN_TRANSPORT_HAL_ERROR then ct_count (\<lambda>t. t\<lparr>hal_error := hal_error t + 1\<rparr>) s else s, w')
      else
       let n = tx_queue_count s - 1;
           s' = s\<lparr>tx_queue_count := n, tx_queue := can_close_gap 0 (unat n + 1) (tx_queue s)\<rparr>
       in CAN_Transport_Process_loop hal handle
            (ct_count (\<lambda>t. t\<lparr>sent_from_queue := sent_from_queue t + 1\<rparr>) s') w')"
  by pat_completeness auto
termination
  by (relation "measure (\<lambda>(hal, handle, s, w). unat (tx_queue_count s))")
    (auto simp: unat_dec word_less_nat_alt unat_gt_0)

definition CAN_Transport_Process :: "'w can_hal \<Rightarrow> CAN_Transport \<Rightarrow> 'w \<Rightarrow> CAN_Transport \<times> 'w" where
  "CAN_Transport_Process hal s w = (case can_handle s of None \<Rightarrow> (s, w) | Some handle \<Rightarrow>
     case CAN_Transport_UpdateQueueHealth hal s w of (s, w) \<Rightarrow>
     case CAN_Transport_Process_loop hal handle s w of (s, w) \<Rightarrow>
       CAN_Transport_UpdateQueueHealth hal s w)"

definition CAN_Transport_GetStats :: "'w can_hal \<Rightarrow> CAN_Transport_Stats option \<Rightarrow> CAN_Transport \<Rightarrow> 'w
    \<Rightarrow> CAN_Transport_Stats option \<times> CAN_Transport \<times> 'w" where
  "CAN_Transport_GetStats hal stats s w = (case stats of None \<Rightarrow> (None, s, w) | Some _ \<Rightarrow>
     case CAN_Transport_UpdateQueueHealth hal s w of (s, w) \<Rightarrow>
       (Some ((transport_stats s)\<lparr>pending_count := tx_queue_count s\<rparr>), s, w))"

end
