(* ===== verification/CanTransportDelivery.thy ===== *)
theory CanTransportDelivery
  imports CanTransport "HOL-Library.Sublist"
begin

text \<open>
  The queue of \<open>src/Core/Src/can_transport.c\<close> refines an abstract list of waiting messages; the
  loops over the array are characterised first, then one call at a time, then sequences of
  calls, for which the accepted messages, the frames on the bus and the waiting messages fit
  together.
\<close>

declare can_insert_index.simps [simp del] CAN_Transport_Process_loop.simps [simp del]

section \<open>The queue as a list\<close>

text \<open>The waiting messages, and the abstract operations on them.\<close>

definition can_pending :: "CAN_Transport \<Rightarrow> CAN_Transport_Message list" where
  "can_pending s = take (unat (tx_queue_count s)) (tx_queue s)"

definition spec_insert :: "CAN_Transport_Message \<Rightarrow> CAN_Transport_Message list \<Rightarrow> CAN_Transport_Message list" where
  "spec_insert m q = (if high_priority m
     then takeWhile high_priority q @ m # dropWhile high_priority q else q @ [m])"

definition spec_evict :: "CAN_Transport_Message list \<Rightarrow> CAN_Transport_Message list option" where
  "spec_evict q = (case dropWhile (\<lambda>m. \<not> replaceable m) (rev q) of [] \<Rightarrow> None
     | _ # before \<Rightarrow> Some (rev before @ rev (takeWhile (\<lambda>m. \<not> replaceable m) (rev q))))"

definition spec_enqueue :: "CAN_Transport_Message \<Rightarrow> CAN_Transport_Message list \<Rightarrow> CAN_Transport_Message list option" where
  "spec_enqueue m q = (if length q < 16 then Some (spec_insert m q)
     else if high_priority m then map_option (spec_insert m) (spec_evict q) else None)"

definition can_queue_ok :: "CAN_Transport \<Rightarrow> bool" where
  "can_queue_ok s \<longleftrightarrow> length (tx_queue s) = 16 \<and> unat (tx_queue_count s) \<le> 16"

lemma length_pending: "can_queue_ok s \<Longrightarrow> length (can_pending s) = unat (tx_queue_count s)"
  by (simp add: can_pending_def can_queue_ok_def)

section \<open>The loops\<close>

lemma close_gap_step: "i \<le> n \<Longrightarrow> can_close_gap i (Suc (Suc n)) q = (can_close_gap i (Suc n) q)[n := can_close_gap i (Suc n) q ! Suc n]"
  by (simp add: can_close_gap_def)

lemma close_gap_nth:
  "n \<le> length q \<Longrightarrow> length (can_close_gap i n q) = length q \<and>
    (\<forall>k < length q. can_close_gap i n q ! k = (if i \<le> k \<and> k < n - 1 then q ! (k + 1) else q ! k))"
proof (induction n)
  case (Suc n)
  show ?case
  proof (cases "n = 0 \<or> n - 1 < i")
    case True
    then show ?thesis by (auto simp: can_close_gap_def)
  next
    case False
    then obtain m where n: "n = Suc m" "i \<le> m" by (cases n) auto
    show ?thesis using Suc n by (auto simp: close_gap_step nth_list_update less_Suc_eq)
  qed
qed (simp add: can_close_gap_def)

lemma close_gap_take:
  assumes "n \<le> length q" "i < n"
  shows "take (n - 1) (can_close_gap i n q) = take i q @ drop (Suc i) (take n q)"
  using assms close_gap_nth [of n q i] by (intro nth_equalityI) (auto simp: nth_append min_absorb2 min_absorb1)

lemma open_gap_step: "t \<le> n \<Longrightarrow> can_open_gap (Suc n) t q = can_open_gap n t (q[Suc n := q ! n])"
  by (simp add: can_open_gap_def)

lemma open_gap_nth:
  "n < length q \<Longrightarrow> t \<le> n \<Longrightarrow> length (can_open_gap n t q) = length q \<and>
    (\<forall>k < length q. can_open_gap n t q ! k = (if t < k \<and> k \<le> n then q ! (k - 1) else q ! k))"
proof (induction n arbitrary: q)
  case (Suc n)
  show ?case
  proof (cases "t = Suc n")
    case True
    then show ?thesis by (auto simp: can_open_gap_def)
  next
    case False
    then have "t \<le> n" using Suc by simp
    then show ?thesis using Suc.IH [of "q[Suc n := q ! n]"] Suc.prems
      by (auto simp: open_gap_step nth_list_update le_Suc_eq)
  qed
qed (simp add: can_open_gap_def)

lemma open_gap_insert:
  assumes "n < length q" "t \<le> n"
  shows "take (Suc n) ((can_open_gap n t q)[t := m]) = take t q @ m # drop t (take n q)"
  using assms open_gap_nth [OF assms]
  by (intro nth_equalityI) (auto simp: nth_append nth_Cons' nth_list_update min_absorb2 min_absorb1)

lemma insert_index_scan: "i \<le> n \<Longrightarrow> n \<le> length q \<Longrightarrow>
    can_insert_index q n i = i + length (takeWhile high_priority (drop i (take n q)))"
proof (induction q n i rule: can_insert_index.induct)
  case (1 q n i)
  show ?case
  proof (cases "i < n")
    case True
    then have "drop i (take n q) = q ! i # drop (Suc i) (take n q)"
      using 1 by (simp add: Cons_nth_drop_Suc [symmetric])
    then show ?thesis using 1 True by (simp add: can_insert_index.simps [of q n i])
  next
    case False
    then show ?thesis using 1(2,3) by (subst can_insert_index.simps) simp
  qed
qed

lemma evict_index_split:
  "n \<le> length q \<Longrightarrow> \<exists>m \<in> set (take n q). replaceable m \<Longrightarrow> can_evict_index q n < n
    \<and> replaceable (q ! can_evict_index q n) \<and> (\<forall>m \<in> set (drop (Suc (can_evict_index q n)) (take n q)). \<not> replaceable m)"
proof (induction n)
  case (Suc n)
  have t: "take (Suc n) q = take n q @ [q ! n]" using Suc.prems by (simp add: take_Suc_conv_app_nth)
  show ?case
  proof (cases "replaceable (q ! n)")
    case False
    then have "\<exists>m \<in> set (take n q). replaceable m" using Suc.prems t by auto
    with Suc have "can_evict_index q n < n \<and> replaceable (q ! can_evict_index q n)
      \<and> (\<forall>m \<in> set (drop (Suc (can_evict_index q n)) (take n q)). \<not> replaceable m)" by simp
    with False show ?thesis using Suc.prems(1) by (auto simp: t)
  qed (use Suc.prems in \<open>simp add: t\<close>)
qed simp

lemma evict_index_none:
  "n \<le> length q \<Longrightarrow> 0 < n \<Longrightarrow> \<forall>m \<in> set (take n q). \<not> replaceable m \<Longrightarrow> \<not> replaceable (q ! can_evict_index q n)"
proof -
  assume a: "n \<le> length q" "0 < n" "\<forall>m \<in> set (take n q). \<not> replaceable m"
  then have "\<forall>i < n. \<not> replaceable (q ! i)" by (metis in_set_conv_nth length_take min.absorb2 nth_take)
  moreover have "can_evict_index q k < max 1 k" for k by (induction k) (auto simp: max_def split: if_splits)
  ultimately show ?thesis using a(2) by (metis max.absorb2 less_one nat_less_le not_less max_def)
qed

lemma spec_evict_split:
  assumes "replaceable x" "\<forall>m \<in> set b. \<not> replaceable m"
  shows "spec_evict (a @ x # b) = Some (a @ b)"
  using assms by (simp add: spec_evict_def takeWhile_append dropWhile_append)

lemma spec_evict_none: "\<forall>m \<in> set q. \<not> replaceable m \<Longrightarrow> spec_evict q = None"
  by (simp add: spec_evict_def dropWhile_eq_Nil_conv [THEN iffD2])


section \<open>Refinement of the queue\<close>

text \<open>The part of \<open>CAN_Transport_Enqueue\<close> that makes room, and the part that inserts.\<close>

definition can_room :: "CAN_Transport_Message \<Rightarrow> CAN_Transport \<Rightarrow> CAN_Transport option" where
  "can_room m s = (if unat (tx_queue_count s) < 16 then Some s
     else let e = can_evict_index (tx_queue s) (unat (tx_queue_count s))
       in if high_priority m \<and> replaceable (tx_queue s ! e)
          then Some (ct_count (\<lambda>t. t\<lparr>periodic_evicted := periodic_evicted t + 1\<rparr>)
            (s\<lparr>tx_queue := can_close_gap e (unat (tx_queue_count s)) (tx_queue s),
               tx_queue_count := tx_queue_count s - 1\<rparr>)) else None)"

lemma room_refines:
  assumes "can_queue_ok s"
  shows "case can_room m s of
      None \<Rightarrow> length (can_pending s) = 16 \<and> (high_priority m \<longrightarrow> spec_evict (can_pending s) = None)
    | Some s' \<Rightarrow> can_queue_ok s' \<and> unat (tx_queue_count s') < 16 \<and> can_handle s' = can_handle s
        \<and> (if length (can_pending s) < 16 then s' = s
           else high_priority m \<and> spec_evict (can_pending s) = Some (can_pending s'))"
proof (cases "unat (tx_queue_count s) < 16")
  case True
  then show ?thesis using assms by (simp add: can_room_def length_pending)
next
  case False
  then have n: "unat (tx_queue_count s) = 16" and q: "length (tx_queue s) = 16"
    using assms by (simp_all add: can_queue_ok_def)
  let ?e = "can_evict_index (tx_queue s) 16"
  have pend: "can_pending s = tx_queue s" "length (can_pending s) = 16" using q n by (simp_all add: can_pending_def)
  show ?thesis
  proof (cases "\<exists>m \<in> set (tx_queue s). replaceable m")
    case True
    from evict_index_split [of 16 "tx_queue s"] True q
    have e: "?e < 16" "replaceable (tx_queue s ! ?e)" "\<forall>m \<in> set (drop (Suc ?e) (tx_queue s)). \<not> replaceable m" by simp_all
    have "tx_queue s = take ?e (tx_queue s) @ tx_queue s ! ?e # drop (Suc ?e) (tx_queue s)"
      using e(1) q by (simp add: id_take_nth_drop)
    then have "spec_evict (tx_queue s) = Some (take ?e (tx_queue s) @ drop (Suc ?e) (tx_queue s))"
      using spec_evict_split [OF e(2,3)] by metis
    moreover have "take 15 (can_close_gap ?e 16 (tx_queue s)) = take ?e (tx_queue s) @ drop (Suc ?e) (tx_queue s)"
      using close_gap_take [of 16 "tx_queue s" ?e] e(1) q by simp
    moreover have "length (can_close_gap ?e 16 (tx_queue s)) = 16" using close_gap_nth [of 16 "tx_queue s"] q by simp
    moreover have "unat (tx_queue_count s - 1) = 15" using n by (simp add: unat_sub_le word_le_nat_alt)
    ultimately show ?thesis using n e pend by (simp add: can_room_def can_queue_ok_def can_pending_def Let_def)
  next
    case False
    then have "\<not> replaceable (tx_queue s ! ?e)" using evict_index_none [of 16 "tx_queue s"] q by simp
    with False show ?thesis using n pend by (simp add: can_room_def spec_evict_none Let_def)
  qed
qed

lemma insert_pending:
  fixes m :: CAN_Transport_Message
  assumes "can_queue_ok s" "unat (tx_queue_count s) < 16"
  defines "n \<equiv> unat (tx_queue_count s)"
  defines "i \<equiv> (if high_priority m then can_insert_index (tx_queue s) n 0 else n)"
  shows "take (Suc n) ((can_open_gap n i (tx_queue s))[i := m]) = spec_insert m (can_pending s)"
    "length ((can_open_gap n i (tx_queue s))[i := m]) = 16"
proof -
  have q: "length (tx_queue s) = 16" "n < 16" using assms(1,2) by (simp_all add: can_queue_ok_def n_def)
  let ?tw = "takeWhile high_priority (take n (tx_queue s))"
  have i: "i = (if high_priority m then length ?tw else n)"
    using insert_index_scan [of 0 n "tx_queue s"] q by (simp add: i_def)
  then have le: "i \<le> n" using length_takeWhile_le [of high_priority "take n (tx_queue s)"] q by auto
  have "take (Suc n) ((can_open_gap n i (tx_queue s))[i := m]) = take i (tx_queue s) @ m # drop i (take n (tx_queue s))"
    using open_gap_insert [of n "tx_queue s" i] le q by simp
  also have "take i (tx_queue s) = take i (take n (tx_queue s))" using le by (simp add: min_absorb1)
  finally show "take (Suc n) ((can_open_gap n i (tx_queue s))[i := m]) = spec_insert m (can_pending s)"
    using q takeWhile_eq_take [of high_priority "take n (tx_queue s)", symmetric]
      dropWhile_eq_drop [of high_priority "take n (tx_queue s)", symmetric]
    by (cases "high_priority m") (simp_all add: spec_insert_def can_pending_def i n_def [symmetric])
  show "length ((can_open_gap n i (tx_queue s))[i := m]) = 16"
    using open_gap_nth [of n "tx_queue s" i] le q by simp
qed

lemma enqueue_refines:
  assumes ok: "can_queue_ok s" and run: "CAN_Transport_Enqueue hal m s w = (res, s', w')"
  shows "can_queue_ok s' \<and> can_handle s' = can_handle s \<and> (case spec_enqueue m (can_pending s) of
      None \<Rightarrow> res = CAN_TRANSPORT_QUEUE_FULL \<and> can_pending s' = can_pending s
    | Some q \<Rightarrow> res = CAN_TRANSPORT_QUEUED \<and> can_pending s' = q)"
proof -
  note room = room_refines [OF ok, of m]
  have cap: "CAN_TRANSPORT_TX_QUEUE_CAPACITY \<le> tx_queue_count s \<longleftrightarrow> \<not> unat (tx_queue_count s) < 16"
    by (simp add: CAN_TRANSPORT_TX_QUEUE_CAPACITY_def word_le_nat_alt not_less)
  show ?thesis
  proof (cases "can_room m s")
    case None
    then have "CAN_Transport_Enqueue hal m s w
        = (CAN_TRANSPORT_QUEUE_FULL, ct_count (\<lambda>t. t\<lparr>queue_overflow := queue_overflow t + 1\<rparr>) s, w)"
      by (auto simp: CAN_Transport_Enqueue_def cap can_room_def Let_def split: if_splits)
    then show ?thesis using run room None ok
      by (auto simp: spec_enqueue_def can_queue_ok_def can_pending_def)
  next
    case (Some s1)
    define n where "n = unat (tx_queue_count s1)"
    define i where "i = (if high_priority m then can_insert_index (tx_queue s1) n 0 else n)"
    have s1: "can_queue_ok s1" "n < 16" "can_handle s1 = can_handle s" using room Some by (simp_all add: n_def)
    have "tx_queue s' = (can_open_gap n i (tx_queue s1))[i := m] \<and> tx_queue_count s' = tx_queue_count s1 + 1
        \<and> can_handle s' = can_handle s1 \<and> res = CAN_TRANSPORT_QUEUED"
      using run Some
      by (auto simp: CAN_Transport_Enqueue_def cap can_room_def Let_def i_def n_def split: if_splits prod.splits)
    moreover have "unat (tx_queue_count s1 + 1) = Suc n" using s1(2) by (simp add: n_def unat_add_small)
    moreover note insert_pending [OF s1(1), of m, folded n_def, OF s1(2), folded i_def]
    ultimately have new: "can_queue_ok s'" "can_pending s' = spec_insert m (can_pending s1)"
      "can_handle s' = can_handle s" "res = CAN_TRANSPORT_QUEUED"
      using s1 by (simp_all add: can_queue_ok_def can_pending_def)
    then show ?thesis using room Some by (auto simp: spec_enqueue_def split: if_splits)
  qed
qed


section \<open>Order and keys\<close>

text \<open>
  Events come before everything else; an event is never replaceable; at most one replaceable
  message waits for every identifier.
\<close>

abbreviation can_key :: "CAN_Transport_Message \<Rightarrow> u32 \<times> CAN_Transport_IdType" where
  "can_key m \<equiv> (msg_identifier m, id_type m)"

definition can_event :: "CAN_Transport_Message \<Rightarrow> bool" where "can_event m \<longleftrightarrow> high_priority m"

definition can_plain :: "CAN_Transport_Message \<Rightarrow> bool" where
  "can_plain m \<longleftrightarrow> \<not> high_priority m \<and> \<not> replaceable m"

definition can_periodic :: "u32 \<times> CAN_Transport_IdType \<Rightarrow> CAN_Transport_Message \<Rightarrow> bool" where
  "can_periodic k m \<longleftrightarrow> replaceable m \<and> can_key m = k"

definition can_ordered :: "CAN_Transport_Message list \<Rightarrow> bool" where
  "can_ordered q \<longleftrightarrow> sorted_wrt (\<lambda>x y. high_priority y \<longrightarrow> high_priority x) q
     \<and> (\<forall>m \<in> set q. (high_priority m \<longrightarrow> \<not> replaceable m) \<and> length (msg_data m) = 8)
     \<and> distinct (map can_key (filter replaceable q))"

lemma insert_split:
  assumes "can_ordered q"
  obtains a b where "q = a @ b" "\<forall>m \<in> set a. high_priority m" "\<forall>m \<in> set b. \<not> high_priority m"
    "spec_insert m q = (if high_priority m then a @ m # b else a @ b @ [m])"
proof -
  let ?a = "takeWhile high_priority q" and ?b = "dropWhile high_priority q"
  have sw: "sorted_wrt (\<lambda>x y. high_priority y \<longrightarrow> high_priority x) ?b"
    using assms by (metis can_ordered_def sorted_wrt_append takeWhile_dropWhile_id)
  have "\<forall>m \<in> set ?b. \<not> high_priority m"
  proof (cases ?b)
    case (Cons y ys)
    then have "\<not> high_priority y" by (metis hd_dropWhile list.sel(1) list.simps(3))
    with sw show ?thesis unfolding Cons by auto
  next
    case Nil
    show ?thesis unfolding Nil by simp
  qed
  moreover have "spec_insert m q = (if high_priority m then ?a @ m # ?b else ?a @ ?b @ [m])"
    unfolding spec_insert_def append_assoc [symmetric] takeWhile_dropWhile_id by simp
  ultimately show ?thesis using that [of ?a ?b] by (metis set_takeWhileD takeWhile_dropWhile_id)
qed

lemma insert_ordered:
  assumes "can_ordered q" "high_priority m \<longrightarrow> \<not> replaceable m" "length (msg_data m) = 8"
    "replaceable m \<longrightarrow> can_key m \<notin> can_key ` set (filter replaceable q)"
  shows "can_ordered (spec_insert m q)"
proof -
  obtain a b where q: "q = a @ b" "\<forall>m \<in> set a. high_priority m" "\<forall>m \<in> set b. \<not> high_priority m"
    and ins: "spec_insert m q = (if high_priority m then a @ m # b else a @ b @ [m])"
    using insert_split [OF assms(1), of m] by metis
  note ins = ins [unfolded q(1)]
  have "sorted_wrt (\<lambda>x y. high_priority y \<longrightarrow> high_priority x) (spec_insert m q)"
    using assms(1) q(2,3) unfolding q(1) ins by (auto simp: can_ordered_def sorted_wrt_append)
  moreover have "set (spec_insert m q) = insert m (set q)" unfolding q(1) ins by auto
  moreover have "distinct (map can_key (filter replaceable (spec_insert m q)))"
    using assms unfolding q(1) ins by (auto simp: can_ordered_def)
  ultimately show ?thesis using assms by (simp add: can_ordered_def)
qed

lemma insert_filters:
  assumes "can_ordered q"
  shows "filter can_event (spec_insert m q) = filter can_event (q @ [m])"
    "filter can_plain (spec_insert m q) = filter can_plain (q @ [m])"
    "high_priority m \<longrightarrow> \<not> replaceable m \<Longrightarrow> filter (can_periodic k) (spec_insert m q) = filter (can_periodic k) (q @ [m])"
proof -
  obtain a b where q: "q = a @ b" "\<forall>m \<in> set a. high_priority m" "\<forall>m \<in> set b. \<not> high_priority m"
    and ins: "spec_insert m q = (if high_priority m then a @ m # b else a @ b @ [m])"
    using insert_split [OF assms, of m] by metis
  note ins = ins [unfolded q(1)]
  have "filter can_event b = []" "filter can_plain a = []" using q by (auto simp: can_event_def can_plain_def filter_empty_conv)
  then show "filter can_event (spec_insert m q) = filter can_event (q @ [m])"
    "filter can_plain (spec_insert m q) = filter can_plain (q @ [m])"
    "high_priority m \<longrightarrow> \<not> replaceable m \<Longrightarrow> filter (can_periodic k) (spec_insert m q) = filter (can_periodic k) (q @ [m])"
    unfolding q(1) ins by (auto simp: can_event_def can_plain_def can_periodic_def)
qed

lemma evict_cases:
  assumes "spec_evict q = Some q'"
  obtains a x b where "q = a @ x # b" "q' = a @ b" "replaceable x"
proof -
  from assms obtain x before where d: "dropWhile (\<lambda>m. \<not> replaceable m) (rev q) = x # before"
    and q': "q' = rev before @ rev (takeWhile (\<lambda>m. \<not> replaceable m) (rev q))"
    by (auto simp: spec_evict_def split: list.splits)
  have "rev q = takeWhile (\<lambda>m. \<not> replaceable m) (rev q) @ x # before" by (simp flip: d)
  then have "q = rev before @ x # rev (takeWhile (\<lambda>m. \<not> replaceable m) (rev q))"
    by (metis append.assoc append_Cons append_Nil rev.simps(2) rev_append rev_rev_ident)
  moreover have "replaceable x" using d hd_dropWhile [of "\<lambda>m. \<not> replaceable m" "rev q"] by simp
  ultimately show ?thesis using that q' by blast
qed

lemma ordered_remove: "can_ordered (a @ x # b) \<Longrightarrow> can_ordered (a @ b)"
  by (auto simp: can_ordered_def sorted_wrt_append split: if_splits)

lemma evict_filters:
  assumes "can_ordered q" "spec_evict q = Some q'"
  shows "can_ordered q'" "filter can_event q' = filter can_event q" "filter can_plain q' = filter can_plain q"
    "subseq (filter (can_periodic k) q') (filter (can_periodic k) q)" "set q' \<subseteq> set q"
proof -
  obtain a x b where q: "q = a @ x # b" "q' = a @ b" "replaceable x" using evict_cases [OF assms(2)] .
  then show "can_ordered q'" using assms(1) ordered_remove by simp
  have "\<not> high_priority x" using assms(1) q by (auto simp: can_ordered_def)
  then show "filter can_event q' = filter can_event q" "filter can_plain q' = filter can_plain q"
    using q by (simp_all add: can_event_def can_plain_def)
  have "subseq q' q" unfolding q by (intro list_emb_append_mono) auto
  then show "subseq (filter (can_periodic k) q') (filter (can_periodic k) q)" by (rule subseq_filter)
  show "set q' \<subseteq> set q" using q by auto
qed


section \<open>Sending and draining\<close>

text \<open>A HAL that records the frames the peripheral accepts.\<close>

definition can_logged :: "'w can_hal \<Rightarrow> ('w \<times> (FDCAN_TxHeader \<times> bytes) list) can_hal" where
  "can_logged hal = \<lparr>
     HAL_GetTick = (\<lambda>(w, l). case HAL_GetTick hal w of (t, w') \<Rightarrow> (t, w', l)),
     HAL_FDCAN_GetTxFifoFreeLevel = (\<lambda>h (w, l). case HAL_FDCAN_GetTxFifoFreeLevel hal h w of (n, w') \<Rightarrow> (n, w', l)),
     HAL_FDCAN_AddMessageToTxFifoQ = (\<lambda>h hd d (w, l). case HAL_FDCAN_AddMessageToTxFifoQ hal h hd d w of
       (ok, w') \<Rightarrow> (ok, w', if ok then l @ [(hd, d)] else l))\<rparr>"

definition can_frame :: "CAN_Transport_Message \<Rightarrow> FDCAN_TxHeader \<times> bytes" where
  "can_frame m = (can_tx_header m, msg_data m)"

lemma health_keeps:
  assumes "CAN_Transport_UpdateQueueHealth (can_logged hal) s (w, l) = (s', w', l')"
  shows "tx_queue s' = tx_queue s" "tx_queue_count s' = tx_queue_count s" "can_handle s' = can_handle s" "l' = l"
  using assms by (auto simp: CAN_Transport_UpdateQueueHealth_def can_logged_def Let_def split: if_splits prod.splits)

lemma try_send_logs:
  assumes "CAN_Transport_TryHardwareSend (can_logged hal) h m (w, l) = (res, w', l')"
  shows "l' = (if res = CAN_TRANSPORT_OK then l @ [can_frame m] else l)"
  using assms by (auto simp: CAN_Transport_TryHardwareSend_def can_logged_def can_frame_def split: if_splits prod.splits)

lemma copy_data: "length d = 8 \<Longrightarrow> CAN_Transport_CopyData d x = map ((!) x) [0..<8]"
  by (rule nth_equalityI) (simp_all add: CAN_Transport_CopyData_def nth_copy_bytes)

lemma enqueue_logs: "CAN_Transport_Enqueue (can_logged hal) m s (w, l) = (res, s', w', l') \<Longrightarrow> l' = l"
  by (auto simp: CAN_Transport_Enqueue_def can_logged_def Let_def split: if_splits prod.splits sum.splits)


lemma find_pending:
  assumes ok: "can_queue_ok s"
  shows "case CAN_Transport_FindPending ident idt s of
      None \<Rightarrow> (ident, idt) \<notin> can_key ` set (filter replaceable (can_pending s))
    | Some i \<Rightarrow> i < unat (tx_queue_count s) \<and> can_periodic (ident, idt) (tx_queue s ! i)"
proof -
  have "unat (tx_queue_count s) \<le> length (tx_queue s)" using ok by (simp add: can_queue_ok_def)
  then have "set (can_pending s) = (!) (tx_queue s) ` {..<unat (tx_queue_count s)}"
    by (simp add: can_pending_def lessThan_atLeast0 nth_image)
  then show ?thesis
    by (auto simp: CAN_Transport_FindPending_def find_None_iff find_Some_iff can_periodic_def split: option.splits)
qed

lemma update_pending:
  assumes "can_queue_ok s" "i < unat (tx_queue_count s)"
  obtains a b where "can_pending s = a @ tx_queue s ! i # b"
    "take (unat (tx_queue_count s)) ((tx_queue s)[i := m]) = a @ m # b"
proof -
  let ?n = "unat (tx_queue_count s)"
  have i: "i < length (can_pending s)" "can_pending s ! i = tx_queue s ! i"
    using assms length_pending [OF assms(1)] by (simp_all add: can_pending_def)
  have "take ?n ((tx_queue s)[i := m]) = (can_pending s)[i := m]" by (simp add: can_pending_def take_update_swap)
  also have "\<dots> = take i (can_pending s) @ m # drop (Suc i) (can_pending s)" using i by (simp add: upd_conv_take_nth_drop)
  finally show ?thesis using that id_take_nth_drop [OF i(1)] i(2) by metis
qed

text \<open>What one send does: it is refused, goes out, replaces the waiting copy, or is enqueued.\<close>

lemma send_cases:
  assumes ok: "can_queue_ok s" and once: "rp \<longrightarrow> \<not> hp" and ordered: "can_ordered (can_pending s)"
    and run: "CAN_Transport_SendClassicInternal (can_logged hal) ident idt data rp hp s (w, l) = (res, s', w', l')"
  obtains (refused) "res \<notin> {CAN_TRANSPORT_OK, CAN_TRANSPORT_QUEUED}" "can_pending s' = can_pending s" "l' = l"
      "can_queue_ok s'" "can_handle s' = can_handle s"
  | (direct) m where "m = can_make_message ident idt (the data) rp hp" "res = CAN_TRANSPORT_OK" "can_pending s = []"
      "can_pending s' = []" "l' = l @ [can_frame m]" "can_queue_ok s'" "can_handle s' = can_handle s"
  | (replaced) m a x b where "m = can_make_message ident idt (the data) rp hp" "res = CAN_TRANSPORT_QUEUED"
      "can_pending s = a @ x # b" "can_pending s' = a @ m # b" "replaceable x" "can_key x = can_key m" "rp" "l' = l"
      "can_queue_ok s'" "can_handle s' = can_handle s"
  | (queued) m where "m = can_make_message ident idt (the data) rp hp" "res = CAN_TRANSPORT_QUEUED"
      "rp \<longrightarrow> (ident, idt) \<notin> can_key ` set (filter replaceable (can_pending s))"
      "spec_enqueue m (can_pending s) = Some (can_pending s')" "l' = l" "can_queue_ok s'" "can_handle s' = can_handle s"
proof (cases "can_handle s = None \<or> data = None \<or> idt = CAN_TRANSPORT_ID_STANDARD \<and> 0x7FF < ident
    \<or> idt = CAN_TRANSPORT_ID_EXTENDED \<and> 0x1FFFFFFF < ident
    \<or> idt \<noteq> CAN_TRANSPORT_ID_STANDARD \<and> idt \<noteq> CAN_TRANSPORT_ID_EXTENDED")
  case True
  then have "res \<notin> {CAN_TRANSPORT_OK, CAN_TRANSPORT_QUEUED} \<and> s' = s \<and> l' = l"
    using run by (auto simp: CAN_Transport_SendClassicInternal_def split: option.splits if_splits)
  then show ?thesis using refused ok by simp
next
  case False
  then obtain h d where h: "can_handle s = Some h" "data = Some d" by auto
  obtain s1 w1 l1 where hl: "CAN_Transport_UpdateQueueHealth (can_logged hal) s (w, l) = (s1, w1, l1)"
    by (metis prod.exhaust)
  note keep = health_keeps [OF hl]
  have s1: "can_pending s1 = can_pending s" "can_queue_ok s1" "can_handle s1 = can_handle s"
    using keep ok by (simp_all add: can_pending_def can_queue_ok_def)
  define m where "m = can_make_message ident idt d rp hp"
  obtain r w2 l2 where tried: "CAN_Transport_TryHardwareSend (can_logged hal) h m (w1, l1) = (r, w2, l2)"
    by (metis prod.exhaust)
  note log = try_send_logs [OF tried]
  have valid: "\<not> (idt = CAN_TRANSPORT_ID_STANDARD \<and> 0x7FF < ident)" "\<not> (idt = CAN_TRANSPORT_ID_EXTENDED \<and> 0x1FFFFFFF < ident)"
    "\<not> (idt \<noteq> CAN_TRANSPORT_ID_STANDARD \<and> idt \<noteq> CAN_TRANSPORT_ID_EXTENDED)" using False by simp_all
  define after where "after = (\<lambda>(sent, s2, w3, l3).
      if sent then (CAN_TRANSPORT_OK, s2, w3, l3)
      else case (if rp then CAN_Transport_FindPending ident idt s2 else None) of
           Some i \<Rightarrow> (CAN_TRANSPORT_QUEUED,
             ct_count (\<lambda>t. t\<lparr>coalesced := coalesced t + 1\<rparr>)
               (s2\<lparr>tx_queue := (tx_queue s2)[i := (tx_queue s2 ! i)
                 \<lparr>msg_data := CAN_Transport_CopyData (msg_data (tx_queue s2 ! i)) d\<rparr>]\<rparr>), w3, l3)
         | None \<Rightarrow> CAN_Transport_Enqueue (can_logged hal) m s2 (w3, l3))"
  have body: "CAN_Transport_SendClassicInternal (can_logged hal) ident idt data rp hp s (w, l)
    = after (if tx_queue_count s1 = 0 then
        (if r = CAN_TRANSPORT_OK then (True, ct_count (\<lambda>t. t\<lparr>sent_direct := sent_direct t + 1\<rparr>) s1, w2, l2)
         else if r = CAN_TRANSPORT_HAL_ERROR then (False, ct_count (\<lambda>t. t\<lparr>hal_error := hal_error t + 1\<rparr>) s1, w2, l2)
         else (False, s1, w2, l2)) else (False, s1, w1, l1))"
    by (simp only: CAN_Transport_SendClassicInternal_def h option.case valid if_False hl prod.case
        m_def [symmetric] tried Let_def after_def split: if_split) simp
  show ?thesis
  proof (cases "tx_queue_count s1 = 0 \<and> r = CAN_TRANSPORT_OK")
    case True
    then have "res = CAN_TRANSPORT_OK \<and> l' = l2 \<and> tx_queue s' = tx_queue s1 \<and> tx_queue_count s' = tx_queue_count s1
        \<and> can_handle s' = can_handle s1"
      using run by (auto simp: body after_def)
    then show ?thesis using direct [of m] True s1 log keep(4) h
      by (simp add: can_pending_def can_queue_ok_def m_def)
  next
    case busy: False
    define s2 where "s2 = (if tx_queue_count s1 = 0 \<and> r = CAN_TRANSPORT_HAL_ERROR
      then ct_count (\<lambda>t. t\<lparr>hal_error := hal_error t + 1\<rparr>) s1 else s1)"
    define w3 where "w3 = (if tx_queue_count s1 = 0 then w2 else w1)"
    have rest: "CAN_Transport_SendClassicInternal (can_logged hal) ident idt data rp hp s (w, l) = after (False, s2, w3, l)"
      using busy log keep(4) by (auto simp: body s2_def w3_def)
    have s2: "tx_queue s2 = tx_queue s1" "tx_queue_count s2 = tx_queue_count s1" "can_handle s2 = can_handle s1"
      by (simp_all add: s2_def)
    have s2': "can_queue_ok s2" "can_pending s2 = can_pending s" using s1 s2 by (simp_all add: can_pending_def can_queue_ok_def)
    show ?thesis
    proof (cases "if rp then CAN_Transport_FindPending ident idt s2 else None")
      case (Some i)
      then have rp: "rp" and find: "CAN_Transport_FindPending ident idt s2 = Some i" by (simp_all split: if_splits)
      then have i: "i < unat (tx_queue_count s2)" "can_periodic (ident, idt) (tx_queue s2 ! i)"
        using find_pending [OF s2'(1), of ident idt] by simp_all
      let ?x = "tx_queue s2 ! i"
      obtain a b where ab: "can_pending s2 = a @ ?x # b" "take (unat (tx_queue_count s2)) ((tx_queue s2)[i := m]) = a @ m # b"
        using update_pending [OF s2'(1) i(1), of m] .
      have "?x \<in> set (can_pending s)" using ab s2' by simp
      then have "length (msg_data ?x) = 8" "\<not> high_priority ?x"
        using ordered i(2) by (auto simp: can_ordered_def can_periodic_def)
      then have "?x\<lparr>msg_data := CAN_Transport_CopyData (msg_data ?x) d\<rparr> = m"
        using i(2) rp once by (simp add: m_def can_make_message_def can_periodic_def copy_data)
      then have fin: "res = CAN_TRANSPORT_QUEUED" "tx_queue s' = (tx_queue s2)[i := m]" "tx_queue_count s' = tx_queue_count s2"
        "can_handle s' = can_handle s2" "l' = l"
        using run Some by (auto simp: rest after_def)
      show ?thesis
        by (rule replaced [of m a ?x b])
          (use fin ab s2' s2 s1 i(2) rp h in \<open>simp_all add: m_def can_pending_def can_queue_ok_def can_periodic_def can_make_message_def\<close>)
    next
      case None
      then have enq: "CAN_Transport_Enqueue (can_logged hal) m s2 (w3, l) = (res, s', w', l')" using run None by (simp add: rest after_def)
      have free: "rp \<longrightarrow> (ident, idt) \<notin> can_key ` set (filter replaceable (can_pending s))"
        using None find_pending [OF s2'(1), of ident idt] s2'(2) by (auto split: if_splits)
      show ?thesis
        using enqueue_refines [OF s2'(1) enq] enqueue_logs [OF enq] free s2' s2 s1 queued [of m] refused h
        by (cases "spec_enqueue m (can_pending s)") (simp_all add: m_def)
    qed
  qed
qed


section \<open>Delivery\<close>

text \<open>
  The accepted messages, the frames on the bus and the waiting messages fit together: the
  messages sent so far followed by the waiting ones are, for the events and for the plain
  messages, exactly the accepted ones in order; for every periodic identifier they are a
  subsequence of the accepted ones.
\<close>

definition can_history :: "CAN_Transport \<Rightarrow> (FDCAN_TxHeader \<times> bytes) list \<Rightarrow> CAN_Transport_Message list \<Rightarrow> bool" where
  "can_history s log acc \<longleftrightarrow> (\<exists>sent. log = map can_frame sent
     \<and> filter can_event (sent @ can_pending s) = filter can_event acc
     \<and> filter can_plain (sent @ can_pending s) = filter can_plain acc
     \<and> (\<forall>k. subseq (filter (can_periodic k) (sent @ can_pending s)) (filter (can_periodic k) acc)))"

definition can_inv :: "CAN_Transport \<Rightarrow> bool" where
  "can_inv s \<longleftrightarrow> can_queue_ok s \<and> can_ordered (can_pending s)"

lemma make_message_fields [simp]:
  "high_priority (can_make_message ident idt d rp hp) = hp" "replaceable (can_make_message ident idt d rp hp) = rp"
  "can_key (can_make_message ident idt d rp hp) = (ident, idt)"
  "length (msg_data (can_make_message ident idt d rp hp)) = 8"
  by (simp_all add: can_make_message_def CAN_Transport_CopyData_def)

lemma insert_history:
  assumes "can_ordered q" "can_ordered q0" "high_priority m \<longrightarrow> \<not> replaceable m"
    "filter can_event q = filter can_event q0" "filter can_plain q = filter can_plain q0"
    "\<And>k. subseq (filter (can_periodic k) q) (filter (can_periodic k) q0)"
    and "filter can_event (sent @ q0) = filter can_event acc" "filter can_plain (sent @ q0) = filter can_plain acc"
    "\<And>k. subseq (filter (can_periodic k) (sent @ q0)) (filter (can_periodic k) acc)"
  shows "filter can_event (sent @ spec_insert m q) = filter can_event (acc @ [m])"
    "filter can_plain (sent @ spec_insert m q) = filter can_plain (acc @ [m])"
    "subseq (filter (can_periodic k) (sent @ spec_insert m q)) (filter (can_periodic k) (acc @ [m]))"
proof -
  note ins = insert_filters [OF assms(1), of m]
  show "filter can_event (sent @ spec_insert m q) = filter can_event (acc @ [m])"
    "filter can_plain (sent @ spec_insert m q) = filter can_plain (acc @ [m])"
    using ins assms by (simp_all flip: append_assoc)
  have "subseq (filter (can_periodic k) (sent @ q)) (filter (can_periodic k) (sent @ q0))"
    using assms(6) by (simp add: list_emb_append_mono)
  then have "subseq (filter (can_periodic k) (sent @ q)) (filter (can_periodic k) acc)"
    using assms(9) subseq_order.order_trans by blast
  then have "subseq (filter (can_periodic k) (sent @ q) @ filter (can_periodic k) [m])
      (filter (can_periodic k) acc @ filter (can_periodic k) [m])" by (intro list_emb_append_mono) auto
  then show "subseq (filter (can_periodic k) (sent @ spec_insert m q)) (filter (can_periodic k) (acc @ [m]))"
    using ins(3) [OF assms(3)] by simp
qed

lemma other_keys:
  assumes o: "can_ordered (a @ x # b)" and x: "replaceable x"
  shows "filter (can_periodic (can_key x)) a = []" "filter (can_periodic (can_key x)) b = []"
proof -
  have xk: "can_key x \<notin> can_key ` set (filter replaceable (a @ b))" using o x by (auto simp: can_ordered_def)
  have "\<not> can_periodic (can_key x) y" if y: "y \<in> set a \<union> set b" for y
  proof
    assume per: "can_periodic (can_key x) y"
    then have "can_key y = can_key x" "y \<in> set (filter replaceable (a @ b))" using y by (auto simp: can_periodic_def)
    then show False using xk imageI [of y "set (filter replaceable (a @ b))" can_key] by simp
  qed
  then show "filter (can_periodic (can_key x)) a = []" "filter (can_periodic (can_key x)) b = []"
    by (auto simp: filter_empty_conv)
qed

lemma periodic_unique:
  assumes "can_ordered q" "x \<in> set q" "replaceable x"
  shows "filter (can_periodic (can_key x)) q = [x]"
proof -
  obtain a b where q: "q = a @ x # b" using assms(2) by (auto dest: split_list)
  show ?thesis using other_keys [OF assms(1) [unfolded q] assms(3)] assms(3) by (simp add: q can_periodic_def)
qed

lemma replaced_ordered:
  assumes "can_ordered (a @ x # b)" "replaceable m" "\<not> high_priority m" "can_key x = can_key m"
    "length (msg_data m) = 8" "replaceable x"
  shows "can_ordered (a @ m # b)"
  using assms by (auto simp: can_ordered_def sorted_wrt_append)

lemma enqueue_split:
  assumes o: "can_ordered p" and e: "spec_enqueue m p = Some p'"
  obtains q where "p' = spec_insert m q" "can_ordered q"
      "filter can_event q = filter can_event p" "filter can_plain q = filter can_plain p"
      "\<And>k. subseq (filter (can_periodic k) q) (filter (can_periodic k) p)" "set q \<subseteq> set p"
proof (cases "length p < 16")
  case True
  then show ?thesis using that [of p] e o by (simp add: spec_enqueue_def)
next
  case False
  then obtain q where q: "spec_evict p = Some q" "p' = spec_insert m q"
    using e by (auto simp: spec_enqueue_def split: if_splits)
  show ?thesis by (rule that [OF q(2)]) (use evict_filters [OF o q(1)] in blast)+
qed

text \<open>A send keeps the queue well formed.\<close>

lemma send_inv:
  assumes inv: "can_inv s" and once: "rp \<longrightarrow> \<not> hp"
    and run: "CAN_Transport_SendClassicInternal (can_logged hal) ident idt data rp hp s (w, l) = (res, s', w', l')"
  shows "can_inv s' \<and> can_handle s' = can_handle s"
proof -
  have ok: "can_queue_ok s" and o: "can_ordered (can_pending s)" using inv by (simp_all add: can_inv_def)
  from ok once o run show ?thesis
  proof (cases rule: send_cases)
    case refused
    then show ?thesis using inv by (simp add: can_inv_def)
  next
    case (direct m)
    then show ?thesis by (simp add: can_inv_def can_ordered_def)
  next
    case (replaced m a x b)
    have m: "replaceable m" "\<not> high_priority m" "length (msg_data m) = 8" using replaced(1,7) once by simp_all
    show ?thesis using replaced_ordered [OF o [unfolded replaced(3)] m(1,2) replaced(6) m(3) replaced(5)] replaced
      by (simp add: can_inv_def)
  next
    case (queued m)
    obtain q where q: "can_pending s' = spec_insert m q" "can_ordered q" "set q \<subseteq> set (can_pending s)"
      using enqueue_split [OF o queued(4)] by metis
    have "can_ordered (can_pending s')" unfolding q(1)
      by (rule insert_ordered [OF q(2)]) (use queued(1,3) once q(3) in auto)
    then show ?thesis using queued by (simp add: can_inv_def)
  qed
qed

lemma replaced_history:
  assumes o: "can_ordered (a @ x # b)" and m: "replaceable m" "\<not> high_priority m" "can_key x = can_key m"
    "length (msg_data m) = 8" and x: "replaceable x"
    and "filter can_event (sent @ a @ x # b) = filter can_event acc"
    "filter can_plain (sent @ a @ x # b) = filter can_plain acc"
    "\<And>k. subseq (filter (can_periodic k) (sent @ a @ x # b)) (filter (can_periodic k) acc)"
  shows "filter can_event (sent @ a @ m # b) = filter can_event (acc @ [m])"
    "filter can_plain (sent @ a @ m # b) = filter can_plain (acc @ [m])"
    "subseq (filter (can_periodic k) (sent @ a @ m # b)) (filter (can_periodic k) (acc @ [m]))"
proof -
  have nx: "\<not> high_priority x" using o x by (auto simp: can_ordered_def)
  show "filter can_event (sent @ a @ m # b) = filter can_event (acc @ [m])"
    "filter can_plain (sent @ a @ m # b) = filter can_plain (acc @ [m])"
    using assms nx by (simp_all add: can_event_def can_plain_def)
  show "subseq (filter (can_periodic k) (sent @ a @ m # b)) (filter (can_periodic k) (acc @ [m]))"
  proof (cases "k = can_key m")
    case True
    have "filter (can_periodic k) a = []" "filter (can_periodic k) b = []"
      using other_keys [OF o x] m(3) True by simp_all
    moreover have "subseq (filter (can_periodic k) sent) (filter (can_periodic k) (sent @ a @ x # b))"
      by (simp add: prefix_imp_subseq)
    then have "subseq (filter (can_periodic k) sent) (filter (can_periodic k) acc)"
      using assms(9) [of k] by (rule subseq_order.order_trans)
    ultimately show ?thesis using m True by (auto simp: can_periodic_def intro: list_emb_append_mono)
  next
    case False
    then show ?thesis using assms(9) [of k] m x by (simp add: can_periodic_def)
  qed
qed

lemma send_history:
  assumes inv: "can_inv s" "can_history s l acc" and once: "rp \<longrightarrow> \<not> hp"
    and run: "CAN_Transport_SendClassicInternal (can_logged hal) ident idt data rp hp s (w, l) = (res, s', w', l')"
  shows "can_history s' l' (acc @
    (if res \<in> {CAN_TRANSPORT_OK, CAN_TRANSPORT_QUEUED} then [can_make_message ident idt (the data) rp hp] else []))"
proof -
  have ok: "can_queue_ok s" and o: "can_ordered (can_pending s)" using inv by (simp_all add: can_inv_def)
  from inv(2) obtain sent where sent: "l = map can_frame sent"
    "filter can_event (sent @ can_pending s) = filter can_event acc"
    "filter can_plain (sent @ can_pending s) = filter can_plain acc"
    "\<And>k. subseq (filter (can_periodic k) (sent @ can_pending s)) (filter (can_periodic k) acc)"
    by (auto simp: can_history_def)
  from ok once o run show ?thesis
  proof (cases rule: send_cases)
    case refused
    then show ?thesis using inv by (simp add: can_history_def)
  next
    case (direct m)
    have "subseq (filter (can_periodic k) (sent @ [m])) (filter (can_periodic k) (acc @ [m]))" for k
      using sent(4) [of k] direct(3) by (auto intro: list_emb_append_mono)
    then have "can_history s' l' (acc @ [m])" unfolding can_history_def
      using direct sent by (intro exI [of _ "sent @ [m]"]) simp
    then show ?thesis using direct by simp
  next
    case (replaced m a x b)
    have m: "replaceable m" "\<not> high_priority m" "length (msg_data m) = 8" using replaced(1,7) once by simp_all
    note new = replaced_history [OF o [unfolded replaced(3)] m(1,2) replaced(6) m(3) replaced(5)
        sent(2-4) [unfolded replaced(3)]]
    have "can_history s' l' (acc @ [m])" unfolding can_history_def
      unfolding replaced(4,8) using sent(1) new by blast
    then show ?thesis using replaced by simp
  next
    case (queued m)
    have m: "high_priority m \<longrightarrow> \<not> replaceable m" using queued(1) once by auto
    obtain q where q: "can_pending s' = spec_insert m q" "can_ordered q"
      "filter can_event q = filter can_event (can_pending s)" "filter can_plain q = filter can_plain (can_pending s)"
      "\<And>k. subseq (filter (can_periodic k) q) (filter (can_periodic k) (can_pending s))"
      using enqueue_split [OF o queued(4)] by metis
    have "can_history s' l' (acc @ [m])" unfolding can_history_def q(1)
      using insert_history [OF q(2) o m q(3-5) sent(2-4)] sent(1) queued(5) by blast
    then show ?thesis using queued by simp
  qed
qed

lemma drop_first:
  assumes "can_queue_ok s" "tx_queue_count s \<noteq> 0"
  defines "s' \<equiv> s\<lparr>tx_queue_count := tx_queue_count s - 1,
      tx_queue := can_close_gap 0 (unat (tx_queue_count s - 1) + 1) (tx_queue s)\<rparr>"
  shows "can_pending s = tx_queue s ! 0 # can_pending s'" "can_queue_ok s'"
proof -
  let ?n = "unat (tx_queue_count s)"
  have pos: "0 < ?n" using assms(2) by (simp add: unat_gt_0)
  have n: "unat (tx_queue_count s - 1) = ?n - 1" using pos by (intro unat_dec) (simp add: word_less_nat_alt)
  then have n1: "unat (tx_queue_count s - 1) + 1 = ?n" using pos by simp
  have q: "length (tx_queue s) = 16" "?n \<le> 16" using assms(1) by (simp_all add: can_queue_ok_def)
  have "can_pending s' = drop (Suc 0) (take ?n (tx_queue s))"
    using close_gap_take [of ?n "tx_queue s" 0] pos q by (simp add: s'_def can_pending_def n1 n)
  moreover have "can_pending s = tx_queue s ! 0 # drop (Suc 0) (take ?n (tx_queue s))"
    using pos q by (cases "tx_queue s"; cases ?n) (simp_all add: can_pending_def)
  ultimately show "can_pending s = tx_queue s ! 0 # can_pending s'" by simp
  show "can_queue_ok s'" using close_gap_nth [of ?n "tx_queue s" 0] q pos by (simp add: s'_def can_queue_ok_def n)
qed

text \<open>Draining moves a first part of the queue to the bus.\<close>

lemma loop_sends:
  assumes "can_queue_ok s"
    and "CAN_Transport_Process_loop (can_logged hal) h s (w, l) = (s', w', l')"
  shows "\<exists>out. l' = l @ map can_frame out \<and> can_pending s = out @ can_pending s' \<and> can_queue_ok s'
    \<and> can_handle s' = can_handle s"
  using assms
proof (induction "unat (tx_queue_count s)" arbitrary: s w l rule: less_induct)
  case less
  show ?case
  proof (cases "tx_queue_count s = 0")
    case True
    then show ?thesis using less.prems by (simp add: CAN_Transport_Process_loop.simps [of _ _ s])
  next
    case nz: False
    obtain r w1 l1 where tried: "CAN_Transport_TryHardwareSend (can_logged hal) h (tx_queue s ! 0) (w, l) = (r, w1, l1)"
      by (metis prod.exhaust)
    note log = try_send_logs [OF tried]
    show ?thesis
    proof (cases "r = CAN_TRANSPORT_OK")
      case False
      then have "tx_queue s' = tx_queue s \<and> tx_queue_count s' = tx_queue_count s \<and> can_handle s' = can_handle s \<and> l' = l"
        using less.prems(2) nz log by (auto simp: CAN_Transport_Process_loop.simps [of _ _ s] tried)
      then show ?thesis using less.prems(1) by (simp add: can_queue_ok_def can_pending_def)
    next
      case True
      define s1 where "s1 = s\<lparr>tx_queue_count := tx_queue_count s - 1,
        tx_queue := can_close_gap 0 (unat (tx_queue_count s - 1) + 1) (tx_queue s)\<rparr>"
      define s2 where "s2 = ct_count (\<lambda>t. t\<lparr>sent_from_queue := sent_from_queue t + 1\<rparr>) s1"
      have run: "CAN_Transport_Process_loop (can_logged hal) h s2 (w1, l1) = (s', w', l')"
        using less.prems(2) nz True by (simp add: CAN_Transport_Process_loop.simps [of _ _ s] tried s2_def s1_def Let_def)
      note first = drop_first [OF less.prems(1) nz, folded s1_def]
      have s2: "can_pending s2 = can_pending s1" "can_queue_ok s2" "can_handle s2 = can_handle s"
        using first(2) by (simp_all add: s2_def s1_def can_pending_def can_queue_ok_def)
      have "unat (tx_queue_count s2) < unat (tx_queue_count s)"
        using nz by (simp add: s2_def s1_def unat_dec word_less_nat_alt unat_gt_0)
      from less.hyps [OF this s2(2) run] obtain out where "l' = l1 @ map can_frame out"
        "can_pending s2 = out @ can_pending s'" "can_queue_ok s'" "can_handle s' = can_handle s2" by blast
      then show ?thesis using log True first(1) s2 by (intro exI [of _ "tx_queue s ! 0 # out"]) simp
    qed
  qed
qed

lemma health_queue:
  assumes "can_queue_ok s" "CAN_Transport_UpdateQueueHealth (can_logged hal) s (w, l) = (s', w', l')"
  shows "can_queue_ok s'" "can_pending s' = can_pending s" "can_handle s' = can_handle s" "l' = l"
  using assms(1) health_keeps [OF assms(2)] by (simp_all add: can_queue_ok_def can_pending_def)

lemma process_sends:
  assumes "can_queue_ok s" "CAN_Transport_Process (can_logged hal) s (w, l) = (s', w', l')"
  shows "\<exists>out. l' = l @ map can_frame out \<and> can_pending s = out @ can_pending s' \<and> can_queue_ok s'
    \<and> can_handle s' = can_handle s"
proof (cases "can_handle s")
  case (Some h)
  obtain s1 w1 l1 where a: "CAN_Transport_UpdateQueueHealth (can_logged hal) s (w, l) = (s1, w1, l1)" by (metis prod.exhaust)
  obtain s2 w2 l2 where b: "CAN_Transport_Process_loop (can_logged hal) h s1 (w1, l1) = (s2, w2, l2)" by (metis prod.exhaust)
  have c: "CAN_Transport_UpdateQueueHealth (can_logged hal) s2 (w2, l2) = (s', w', l')"
    using assms(2) Some by (simp add: CAN_Transport_Process_def a b)
  note ka = health_queue [OF assms(1) a]
  from loop_sends [OF ka(1) b] obtain out where out: "l2 = l1 @ map can_frame out"
    "can_pending s1 = out @ can_pending s2" "can_queue_ok s2" "can_handle s2 = can_handle s1" by blast
  show ?thesis using ka out health_queue [OF out(3) c] by auto
qed (use assms in \<open>simp add: CAN_Transport_Process_def\<close>)

lemma ordered_suffix: "can_ordered (a @ b) \<Longrightarrow> can_ordered b"
  by (auto simp: can_ordered_def sorted_wrt_append)

lemma health_history:
  assumes "can_inv s" "can_history s l acc" "CAN_Transport_UpdateQueueHealth (can_logged hal) s (w, l) = (s', w', l')"
  shows "can_inv s' \<and> can_handle s' = can_handle s \<and> can_history s' l' acc"
  using assms(1,2) health_keeps [OF assms(3)]
  by (simp add: can_inv_def can_history_def can_queue_ok_def can_pending_def)

lemma process_history:
  assumes "can_inv s" "can_history s l acc" "CAN_Transport_Process (can_logged hal) s (w, l) = (s', w', l')"
  shows "can_inv s' \<and> can_handle s' = can_handle s \<and> can_history s' l' acc"
proof -
  from process_sends [OF _ assms(3)] assms(1) obtain out where out: "l' = l @ map can_frame out"
    "can_pending s = out @ can_pending s'" "can_queue_ok s'" "can_handle s' = can_handle s" by (auto simp: can_inv_def)
  from assms(2) obtain sent where "l = map can_frame sent"
    "filter can_event (sent @ can_pending s) = filter can_event acc"
    "filter can_plain (sent @ can_pending s) = filter can_plain acc"
    "\<forall>k. subseq (filter (can_periodic k) (sent @ can_pending s)) (filter (can_periodic k) acc)"
    by (auto simp: can_history_def)
  then have "can_history s' l' acc" unfolding can_history_def
    using out by (intro exI [of _ "sent @ out"]) simp
  then show ?thesis using out assms(1) ordered_suffix [of out "can_pending s'"] by (simp add: can_inv_def)
qed

text \<open>The calls of the interface, with the list of the messages it accepted.\<close>

datatype can_call = Can_Send u32 CAN_Transport_IdType "bytes option"
  | Can_SendLatest u32 CAN_Transport_IdType "bytes option"
  | Can_SendHighPriority u32 CAN_Transport_IdType "bytes option" | Can_Process | Can_GetStats

definition can_accept :: "CAN_Transport_Message \<Rightarrow> CAN_Transport_Message list \<Rightarrow> CAN_Transport_Result \<times> CAN_Transport \<times> 'w
    \<Rightarrow> CAN_Transport \<times> 'w \<times> CAN_Transport_Message list" where
  "can_accept m acc = (\<lambda>(res, s, w). (s, w, if res = CAN_TRANSPORT_OK \<or> res = CAN_TRANSPORT_QUEUED then acc @ [m] else acc))"

fun can_step :: "'w can_hal \<Rightarrow> can_call \<Rightarrow> CAN_Transport \<times> 'w \<times> CAN_Transport_Message list
    \<Rightarrow> CAN_Transport \<times> 'w \<times> CAN_Transport_Message list" where
  "can_step hal (Can_Send ident idt data) (s, w, acc) = can_accept (can_make_message ident idt (the data) False False) acc
     (CAN_Transport_SendClassic hal ident idt data s w)"
| "can_step hal (Can_SendLatest ident idt data) (s, w, acc) = can_accept (can_make_message ident idt (the data) True False) acc
     (CAN_Transport_SendClassicLatest hal ident idt data s w)"
| "can_step hal (Can_SendHighPriority ident idt data) (s, w, acc) = can_accept (can_make_message ident idt (the data) False True) acc
     (CAN_Transport_SendClassicHighPriority hal ident idt data s w)"
| "can_step hal Can_Process (s, w, acc) = (case CAN_Transport_Process hal s w of (s, w) \<Rightarrow> (s, w, acc))"
| "can_step hal Can_GetStats (s, w, acc) = (case CAN_Transport_GetStats hal (Some can_stats_zero) s w of (_, s, w) \<Rightarrow> (s, w, acc))"

lemma step_history:
  assumes "can_inv s" "can_history s l acc" "can_step (can_logged hal) c (s, (w, l), acc) = (s', (w', l'), acc')"
  shows "can_inv s' \<and> can_handle s' = can_handle s \<and> can_history s' l' acc'"
proof -
  have send: "can_inv s' \<and> can_handle s' = can_handle s \<and> can_history s' l' acc'"
    if "rp \<longrightarrow> \<not> hp" and "can_accept (can_make_message ident idt (the data) rp hp) acc
      (CAN_Transport_SendClassicInternal (can_logged hal) ident idt data rp hp s (w, l)) = (s', (w', l'), acc')"
    for ident idt data rp hp
  proof -
    obtain res s1 w1 l1 where run: "CAN_Transport_SendClassicInternal (can_logged hal) ident idt data rp hp s (w, l)
      = (res, s1, w1, l1)" by (metis prod.exhaust)
    show ?thesis using send_history [OF assms(1,2) that(1) run] send_inv [OF assms(1) that(1) run] that(2) run
      by (cases "res = CAN_TRANSPORT_OK \<or> res = CAN_TRANSPORT_QUEUED") (simp_all add: can_accept_def)
  qed
  show ?thesis
  proof (cases c)
    case Can_Process
    then have "CAN_Transport_Process (can_logged hal) s (w, l) = (s', w', l')" "acc' = acc"
      using assms(3) by (auto split: prod.splits)
    with process_history [OF assms(1,2) this(1)] show ?thesis by simp
  next
    case Can_GetStats
    then have "CAN_Transport_UpdateQueueHealth (can_logged hal) s (w, l) = (s', w', l')" "acc' = acc"
      using assms(3) by (auto simp: CAN_Transport_GetStats_def split: prod.splits)
    with health_history [OF assms(1,2) this(1)] show ?thesis by simp
  next
    case (Can_Send i t d)
    show ?thesis by (rule send [of False False i t d]) (use assms(3) Can_Send in \<open>simp_all add: CAN_Transport_SendClassic_def\<close>)
  next
    case (Can_SendLatest i t d)
    show ?thesis by (rule send [of True False i t d]) (use assms(3) Can_SendLatest in \<open>simp_all add: CAN_Transport_SendClassicLatest_def\<close>)
  next
    case (Can_SendHighPriority i t d)
    show ?thesis by (rule send [of False True i t d])
        (use assms(3) Can_SendHighPriority in \<open>simp_all add: CAN_Transport_SendClassicHighPriority_def\<close>)
  qed
qed

lemma run_history:
  assumes "fold (can_step (can_logged hal)) calls (CAN_Transport_Init (Some h) can_transport_static, (w, []), [])
    = (s, (w', log), acc)"
  shows "can_inv s \<and> can_handle s = Some h \<and> can_history s log acc"
proof -
  let ?s = "CAN_Transport_Init (Some h) can_transport_static"
  have "can_inv ?s" "can_handle ?s = Some h" "can_history ?s [] []"
    by (simp_all add: can_inv_def can_history_def can_queue_ok_def can_pending_def can_ordered_def
        CAN_Transport_Init_def can_transport_static_def)
  then show ?thesis using assms
  proof (induction calls arbitrary: s w' log acc rule: rev_induct)
    case (snoc c cs)
    obtain s1 w1 l1 acc1 where mid: "fold (can_step (can_logged hal)) cs (?s, (w, []), []) = (s1, (w1, l1), acc1)"
      by (metis prod.exhaust)
    from snoc.IH [OF snoc.prems(1-3) mid] step_history [of s1 l1 acc1 hal c w1 s w' log acc] snoc.prems(4) mid
    show ?case by simp
  qed simp
qed

text \<open>
  C16. Whatever sequence of calls is made on the initialised transport and however the
  peripheral answers, the frames on the bus followed by the waiting messages contain the
  accepted events exactly once and in order, the accepted plain messages exactly once and in
  order, and for every periodic identifier a subsequence of its accepted messages. Never more
  than 16 messages wait, all events before everything else, and at most one message per
  periodic identifier.
\<close>

theorem can_messages_exactly_once:
  assumes "fold (can_step (can_logged hal)) calls (CAN_Transport_Init (Some h) can_transport_static, (w, []), [])
    = (s, (w', log), acc)"
  shows "length (can_pending s) \<le> 16 \<and> can_ordered (can_pending s) \<and> (\<exists>sent. log = map can_frame sent
     \<and> filter can_event (sent @ can_pending s) = filter can_event acc
     \<and> filter can_plain (sent @ can_pending s) = filter can_plain acc
     \<and> (\<forall>k. subseq (filter (can_periodic k) (sent @ can_pending s)) (filter (can_periodic k) acc)))"
  using run_history [OF assms] length_pending [of s] by (auto simp: can_inv_def can_history_def can_queue_ok_def)

lemma enqueue_member: "spec_enqueue m q = Some q' \<Longrightarrow> m \<in> set q'"
  by (auto simp: spec_enqueue_def spec_insert_def split: if_splits)

text \<open>
  A periodic message that is accepted while the bus is busy waits exactly once, with the
  newest payload, whatever was waiting before.
\<close>

theorem can_latest_waits_once:
  assumes "fold (can_step (can_logged hal)) calls (CAN_Transport_Init (Some h) can_transport_static, (w, []), [])
    = (s, (w1, log), acc)"
    and "CAN_Transport_SendClassicLatest (can_logged hal) ident idt (Some data) s (w1, log)
      = (CAN_TRANSPORT_QUEUED, s', w2, log')"
  shows "log' = log \<and> map msg_data (filter (can_periodic (ident, idt)) (can_pending s')) = [map ((!) data) [0..<8]]"
proof -
  have inv: "can_inv s" using run_history [OF assms(1)] by simp
  then have ok: "can_queue_ok s" "can_ordered (can_pending s)" by (simp_all add: can_inv_def)
  let ?m = "can_make_message ident idt data True False"
  have run: "CAN_Transport_SendClassicInternal (can_logged hal) ident idt (Some data) True False s (w1, log)
    = (CAN_TRANSPORT_QUEUED, s', w2, log')" using assms(2) by (simp add: CAN_Transport_SendClassicLatest_def)
  have m: "msg_data ?m = map ((!) data) [0..<8]" by (simp add: can_make_message_def copy_data)
  have "can_ordered (can_pending s')"
    using send_inv [OF inv _ run] by (simp add: can_inv_def)
  moreover have once: "True \<longrightarrow> \<not> False" by simp
  moreover from ok(1) once ok(2) run have "?m \<in> set (can_pending s') \<and> log' = log"
  proof (cases rule: send_cases)
    case queued
    then show ?thesis using enqueue_member [of ?m "can_pending s" "can_pending s'"] by simp
  qed simp_all
  ultimately show ?thesis using periodic_unique [of "can_pending s'" ?m] m by simp
qed


lemma send_accepted:
  assumes "\<forall>h w. fst (HAL_FDCAN_GetTxFifoFreeLevel hal h w) \<noteq> 0"
    "\<forall>h hd d w. fst (HAL_FDCAN_AddMessageToTxFifoQ hal h hd d w)"
  shows "\<exists>w'. CAN_Transport_TryHardwareSend (can_logged hal) h m (w, l) = (CAN_TRANSPORT_OK, w', l @ [can_frame m])"
proof -
  obtain n wa where a: "HAL_FDCAN_GetTxFifoFreeLevel hal h w = (n, wa)" "n \<noteq> 0"
    using assms(1) by (metis prod.collapse)
  obtain wb where b: "HAL_FDCAN_AddMessageToTxFifoQ hal h (can_tx_header m) (msg_data m) wa = (True, wb)"
    using assms(2) by (metis prod.collapse)
  show ?thesis by (simp add: CAN_Transport_TryHardwareSend_def can_logged_def a b can_frame_def)
qed

lemma loop_drains:
  assumes "can_queue_ok s" "\<forall>h w. fst (HAL_FDCAN_GetTxFifoFreeLevel hal h w) \<noteq> 0"
    "\<forall>h hd d w. fst (HAL_FDCAN_AddMessageToTxFifoQ hal h hd d w)"
  shows "\<exists>s' w'. CAN_Transport_Process_loop (can_logged hal) h s (w, l) = (s', w', l @ map can_frame (can_pending s))
    \<and> tx_queue_count s' = 0"
  using assms(1)
proof (induction "unat (tx_queue_count s)" arbitrary: s w l rule: less_induct)
  case less
  show ?case
  proof (cases "tx_queue_count s = 0")
    case True
    then show ?thesis by (simp add: CAN_Transport_Process_loop.simps [of _ _ s] can_pending_def)
  next
    case nz: False
    let ?m = "tx_queue s ! 0"
    obtain w1 where tried: "CAN_Transport_TryHardwareSend (can_logged hal) h ?m (w, l)
        = (CAN_TRANSPORT_OK, w1, l @ [can_frame ?m])" using send_accepted [OF assms(2,3)] by blast
    define s1 where "s1 = s\<lparr>tx_queue_count := tx_queue_count s - 1,
      tx_queue := can_close_gap 0 (unat (tx_queue_count s - 1) + 1) (tx_queue s)\<rparr>"
    define s2 where "s2 = ct_count (\<lambda>t. t\<lparr>sent_from_queue := sent_from_queue t + 1\<rparr>) s1"
    have run: "CAN_Transport_Process_loop (can_logged hal) h s (w, l) = CAN_Transport_Process_loop (can_logged hal) h s2 (w1, l @ [can_frame ?m])"
      using nz by (simp add: CAN_Transport_Process_loop.simps [of _ _ s] tried s2_def s1_def Let_def)
    note first = drop_first [OF less.prems nz, folded s1_def]
    have s2: "can_pending s2 = can_pending s1" "can_queue_ok s2"
      using first(2) by (simp_all add: s2_def s1_def can_pending_def can_queue_ok_def)
    have "unat (tx_queue_count s2) < unat (tx_queue_count s)"
      using nz by (simp add: s2_def s1_def unat_dec word_less_nat_alt unat_gt_0)
    from less.hyps [OF this s2(2), of w1 "l @ [can_frame ?m]"] show ?thesis
      using run first(1) s2(1) by simp
  qed
qed

text \<open>
  C19. Draining ends, and once the peripheral takes every frame (however it answered before) one
  call sends all waiting messages, in the order of the queue, and leaves nothing behind.
\<close>

theorem can_process_drains:
  assumes "fold (can_step (can_logged hal0)) calls (CAN_Transport_Init (Some h) can_transport_static, (w, []), [])
    = (s, (w1, log), acc)"
    and "\<forall>h w. fst (HAL_FDCAN_GetTxFifoFreeLevel hal h w) \<noteq> 0"
    and "\<forall>h hd d w. fst (HAL_FDCAN_AddMessageToTxFifoQ hal h hd d w)"
  shows "\<exists>s' w2. CAN_Transport_Process (can_logged hal) s (w1, log) = (s', w2, log @ map can_frame (can_pending s))
    \<and> can_pending s' = [] \<and> current_pending_ms (transport_stats s') = 0 \<and> \<not> queue_stuck_active (transport_stats s')"
proof -
  have inv: "can_queue_ok s" "can_handle s = Some h" using run_history [OF assms(1)] by (simp_all add: can_inv_def)
  obtain s1 wa la where a: "CAN_Transport_UpdateQueueHealth (can_logged hal) s (w1, log) = (s1, wa, la)" by (metis prod.exhaust)
  note ka = health_keeps [OF a]
  have s1: "can_queue_ok s1" "can_pending s1 = can_pending s" using inv ka by (simp_all add: can_queue_ok_def can_pending_def)
  obtain s2 wb where b: "CAN_Transport_Process_loop (can_logged hal) h s1 (wa, la)
      = (s2, wb, la @ map can_frame (can_pending s1))" "tx_queue_count s2 = 0"
    using loop_drains [OF s1(1) assms(2,3)] by metis
  obtain s' wc lc where c: "CAN_Transport_UpdateQueueHealth (can_logged hal) s2 (wb, la @ map can_frame (can_pending s1)) = (s', wc, lc)"
    by (metis prod.exhaust)
  have "current_pending_ms (transport_stats s') = 0" "\<not> queue_stuck_active (transport_stats s')"
    using c b(2) by (auto simp: CAN_Transport_UpdateQueueHealth_def Let_def split: prod.splits if_splits)
  moreover have "can_pending s' = []" using health_keeps [OF c] b(2) by (simp add: can_pending_def)
  moreover have "CAN_Transport_Process (can_logged hal) s (w1, log) = (s', wc, log @ map can_frame (can_pending s))"
    using inv(2) a b(1) c ka(4) s1(2) health_keeps(4) [OF c] by (simp add: CAN_Transport_Process_def)
  ultimately show ?thesis by blast
qed

text \<open>A peripheral that takes every frame, and one that takes none.\<close>

definition demo_open_hal :: "nat can_hal" where
  "demo_open_hal = \<lparr>HAL_GetTick = (\<lambda>w. (0, w)), HAL_FDCAN_GetTxFifoFreeLevel = (\<lambda>h w. (3, w)),
     HAL_FDCAN_AddMessageToTxFifoQ = (\<lambda>h hd d w. (True, w + 1))\<rparr>"

definition demo_busy_hal :: "nat can_hal" where
  "demo_busy_hal = demo_open_hal\<lparr>HAL_FDCAN_GetTxFifoFreeLevel := (\<lambda>h w. (0, w))\<rparr>"

definition demo_can_calls :: "can_call list" where
  "demo_can_calls = [Can_SendLatest 0x100 CAN_TRANSPORT_ID_STANDARD (Some (replicate 8 1)),
     Can_SendHighPriority 0x200 CAN_TRANSPORT_ID_STANDARD (Some (replicate 8 2))]"

definition demo_can_run :: "CAN_Transport \<times> (nat \<times> (FDCAN_TxHeader \<times> bytes) list) \<times> CAN_Transport_Message list" where
  "demo_can_run = fold (can_step (can_logged demo_busy_hal)) demo_can_calls
     (CAN_Transport_Init (Some 1) can_transport_static, (0, []), [])"

lemma demo_can_run: "\<exists>s acc. fold (can_step (can_logged demo_busy_hal)) demo_can_calls
     (CAN_Transport_Init (Some 1) can_transport_static, (0, []), []) = (s, (0, []), acc)
   \<and> map msg_identifier (can_pending s) = [0x200, 0x100] \<and> length acc = 2
   \<and> fst (CAN_Transport_SendClassicLatest (can_logged demo_busy_hal) 0x100 CAN_TRANSPORT_ID_STANDARD
       (Some (replicate 8 7)) s (0, [])) = CAN_TRANSPORT_QUEUED"
proof -
  have "(case demo_can_run of (s, w, acc) \<Rightarrow> w = (0, [])
     \<and> map msg_identifier (can_pending s) = [0x200, 0x100] \<and> length acc = 2
     \<and> fst (CAN_Transport_SendClassicLatest (can_logged demo_busy_hal) 0x100 CAN_TRANSPORT_ID_STANDARD
       (Some (replicate 8 7)) s (0, [])) = CAN_TRANSPORT_QUEUED)" by code_simp
  then show ?thesis unfolding demo_can_run_def by (auto split: prod.splits)
qed

theorem can_messages_exactly_once_witness:
  "\<exists>s acc. can_ordered (can_pending s) \<and> map msg_identifier (can_pending s) = [0x200, 0x100]
     \<and> filter can_event (can_pending s) = filter can_event acc \<and> length acc = 2"
proof -
  obtain s acc where run: "fold (can_step (can_logged demo_busy_hal)) demo_can_calls
     (CAN_Transport_Init (Some 1) can_transport_static, (0, []), []) = (s, (0, []), acc)"
    and s: "map msg_identifier (can_pending s) = [0x200, 0x100]" "length acc = 2" using demo_can_run by (elim exE conjE) (rule that, assumption+)
  from can_messages_exactly_once [OF run] have "can_ordered (can_pending s)"
    "filter can_event (can_pending s) = filter can_event acc" by auto
  with s show ?thesis by (intro exI [of _ s] exI [of _ acc]) simp
qed

theorem can_latest_waits_once_witness:
  "\<exists>s s' w2. CAN_Transport_SendClassicLatest (can_logged demo_busy_hal) 0x100 CAN_TRANSPORT_ID_STANDARD
       (Some (replicate 8 7)) s (0, []) = (CAN_TRANSPORT_QUEUED, s', w2, [])
     \<and> map msg_data (filter (can_periodic (0x100, CAN_TRANSPORT_ID_STANDARD)) (can_pending s')) = [replicate 8 7]"
proof -
  obtain s acc where run: "fold (can_step (can_logged demo_busy_hal)) demo_can_calls
     (CAN_Transport_Init (Some 1) can_transport_static, (0, []), []) = (s, (0, []), acc)"
    and s: "fst (CAN_Transport_SendClassicLatest (can_logged demo_busy_hal) 0x100 CAN_TRANSPORT_ID_STANDARD
       (Some (replicate 8 7)) s (0, [])) = CAN_TRANSPORT_QUEUED" using demo_can_run by (elim exE conjE) (rule that, assumption+)
  obtain s' w2 l2 where send: "CAN_Transport_SendClassicLatest (can_logged demo_busy_hal) 0x100 CAN_TRANSPORT_ID_STANDARD
       (Some (replicate 8 7)) s (0, []) = (CAN_TRANSPORT_QUEUED, s', w2, l2)" using s by (metis prod.collapse)
  have "map ((!) (replicate 8 7)) [0..<8] = (replicate 8 7 :: bytes)" by (intro nth_equalityI) simp_all
  with can_latest_waits_once [OF run send] send show ?thesis by (intro exI [of _ s] exI [of _ s'] exI [of _ w2]) simp
qed

theorem can_process_drains_witness:
  "\<exists>s s' w2 frames. CAN_Transport_Process (can_logged demo_open_hal) s (0, []) = (s', w2, frames)
     \<and> map (Identifier \<circ> fst) frames = [0x200, 0x100] \<and> can_pending s' = []"
proof -
  obtain s acc where run: "fold (can_step (can_logged demo_busy_hal)) demo_can_calls
     (CAN_Transport_Init (Some 1) can_transport_static, (0, []), []) = (s, (0, []), acc)"
    and s: "map msg_identifier (can_pending s) = [0x200, 0x100]" using demo_can_run by (elim exE conjE) (rule that, assumption+)
  have "\<exists>s' w2. CAN_Transport_Process (can_logged demo_open_hal) s (0, []) = (s', w2, [] @ map can_frame (can_pending s))
    \<and> can_pending s' = [] \<and> current_pending_ms (transport_stats s') = 0 \<and> \<not> queue_stuck_active (transport_stats s')"
    by (rule can_process_drains [OF run]) (simp_all add: demo_open_hal_def)
  moreover have "map (Identifier \<circ> fst) (map can_frame (can_pending s)) = map msg_identifier (can_pending s)"
    by (simp add: can_frame_def can_tx_header_def comp_def)
  ultimately show ?thesis using s by (metis append_Nil)
qed

end
