(* ===== verification/CanIsoTp.thy ===== *)
theory CanIsoTp
  imports IsoTpTransfer CanTransportDelivery
begin

text \<open>
  The ISO-TP channel on the diagnostic identifiers, \<open>src/Core/Src/can_isotp.c\<close>: one channel with
  two buffers of 512 bytes, whose frames go to the transmit queue as events. The file's static
  variables are the record \<open>CAN_IsoTp\<close>; \<open>CAN_Transport_SendClassicHighPriority\<close> is the argument
  \<open>send\<close> of the operations, over a state \<open>'t\<close>, and is the model of that function in the
  properties. A local frame that the C code leaves uninitialised is \<open>can_isotp_frame\<close>; the channel
  overwrites it before it is used.
\<close>

section \<open>Data\<close>

definition CAN_PROTOCOL_DIAGNOSTIC_REQUEST_RX_ID :: u32 where "CAN_PROTOCOL_DIAGNOSTIC_REQUEST_RX_ID = 0x7E0"
definition CAN_PROTOCOL_DIAGNOSTIC_RESPONSE_TX_ID :: u32 where "CAN_PROTOCOL_DIAGNOSTIC_RESPONSE_TX_ID = 0x7E8"
definition CAN_ISOTP_BUFFER_CAPACITY :: u16 where "CAN_ISOTP_BUFFER_CAPACITY = 512"
definition CAN_ISOTP_FLOW_CONTROL_TIMEOUT_US :: u32 where "CAN_ISOTP_FLOW_CONTROL_TIMEOUT_US = 1000000"
definition CAN_ISOTP_CONSECUTIVE_FRAME_TIMEOUT_US :: u32 where
  "CAN_ISOTP_CONSECUTIVE_FRAME_TIMEOUT_US = 1000000"
definition CAN_ISOTP_RX_BLOCK_SIZE :: u8 where "CAN_ISOTP_RX_BLOCK_SIZE = 8"
definition CAN_ISOTP_RX_ST_MIN :: u8 where "CAN_ISOTP_RX_ST_MIN = 5"
definition CAN_ISOTP_MAX_WAIT_FRAMES :: u8 where "CAN_ISOTP_MAX_WAIT_FRAMES = 1"

lemmas can_isotp_consts = CAN_ISOTP_BUFFER_CAPACITY_def CAN_ISOTP_FLOW_CONTROL_TIMEOUT_US_def
  CAN_ISOTP_CONSECUTIVE_FRAME_TIMEOUT_US_def CAN_ISOTP_RX_BLOCK_SIZE_def CAN_ISOTP_RX_ST_MIN_def
  CAN_ISOTP_MAX_WAIT_FRAMES_def

datatype CAN_IsoTp_Result = CAN_ISOTP_RESULT_OK | CAN_ISOTP_RESULT_NO_WORK
  | CAN_ISOTP_RESULT_REQUEST_READY | CAN_ISOTP_RESULT_BUSY | CAN_ISOTP_RESULT_INVALID_ARGUMENT
  | CAN_ISOTP_RESULT_PAYLOAD_TOO_LARGE | CAN_ISOTP_RESULT_PROTOCOL_ERROR
  | CAN_ISOTP_RESULT_RECEIVE_OVERFLOW | CAN_ISOTP_RESULT_TIMEOUT
  | CAN_ISOTP_RESULT_TRANSPORT_ERROR | CAN_ISOTP_RESULT_TRANSMIT_ABORTED

record CAN_IsoTp_Stats =
  rx_frames :: u32
  rx_messages :: u32
  rx_protocol_errors :: u32
  rx_overflows :: u32
  rx_busy :: u32
  rx_aborted :: u32
  sequence_errors :: u32
  unexpected_frames :: u32
  timeout_events :: u32
  tx_messages_started :: u32
  tx_messages_completed :: u32
  tx_busy :: u32
  tx_frames_enqueued :: u32
  tx_transport_failures :: u32
  tx_aborted :: u32
  last_core_result :: IsoTp_Result
  last_transport_result :: CAN_Transport_Result

record CAN_IsoTp =
  isotp_channel :: IsoTp_Channel
  isotp_stats :: CAN_IsoTp_Stats

type_synonym 't can_send = "u32 \<Rightarrow> CAN_Transport_IdType \<Rightarrow> bytes option \<Rightarrow> 't \<Rightarrow> CAN_Transport_Result \<times> 't"

abbreviation ci_count :: "(CAN_IsoTp_Stats \<Rightarrow> CAN_IsoTp_Stats) \<Rightarrow> CAN_IsoTp \<Rightarrow> CAN_IsoTp" where
  "ci_count f s \<equiv> s\<lparr>isotp_stats := f (isotp_stats s)\<rparr>"

definition can_isotp_stats_zero :: CAN_IsoTp_Stats where
  "can_isotp_stats_zero = \<lparr>rx_frames = 0, rx_messages = 0, rx_protocol_errors = 0, rx_overflows = 0,
     rx_busy = 0, rx_aborted = 0, sequence_errors = 0, unexpected_frames = 0, timeout_events = 0,
     tx_messages_started = 0, tx_messages_completed = 0, tx_busy = 0, tx_frames_enqueued = 0,
     tx_transport_failures = 0, tx_aborted = 0, last_core_result = ISOTP_RESULT_OK,
     last_transport_result = CAN_TRANSPORT_OK\<rparr>"

text \<open>The static variables before the initialisation.\<close>

definition can_isotp_static :: CAN_IsoTp where
  "can_isotp_static = \<lparr>isotp_channel = \<lparr>ch_config = \<lparr>rx_buffer_capacity = 0, tx_buffer_capacity = 0,
         flow_control_timeout_us = 0, consecutive_frame_timeout_us = 0, rx_block_size = 0,
         rx_st_min = 0, max_wait_frames = 0\<rparr>,
       rx_buffer = replicate 512 0, tx_buffer = replicate 512 0, rx_state = ISOTP_RX_IDLE,
       tx_state = ISOTP_TX_IDLE, rx_length = 0, rx_offset = 0, tx_length = 0, tx_offset = 0,
       rx_deadline_us = 0, tx_deadline_us = 0, tx_st_min_us = 0, rx_next_sequence = 0,
       rx_block_count = 0, tx_next_sequence = 0, tx_block_remaining = 0, tx_wait_count = 0,
       ch_initialized = False\<rparr>,
     isotp_stats = can_isotp_stats_zero\<rparr>"

definition can_isotp_frame :: IsoTp_CanFrame where
  "can_isotp_frame = \<lparr>frame_data = replicate 8 0, frame_dlc = 0\<rparr>"

section \<open>Operations\<close>

definition CAN_IsoTp_SendFrame :: "'t can_send \<Rightarrow> IsoTp_CanFrame \<Rightarrow> bool \<Rightarrow> CAN_IsoTp \<Rightarrow> 't
    \<Rightarrow> CAN_IsoTp_Result \<times> CAN_IsoTp \<times> 't" where
  "CAN_IsoTp_SendFrame send frame abort_receive_on_failure s t =
    (case send CAN_PROTOCOL_DIAGNOSTIC_RESPONSE_TX_ID CAN_TRANSPORT_ID_STANDARD (Some (frame_data frame)) t of
      (transport_result, t) \<Rightarrow>
        let s = ci_count (\<lambda>x. x\<lparr>last_transport_result := transport_result\<rparr>) s
        in if transport_result = CAN_TRANSPORT_OK \<or> transport_result = CAN_TRANSPORT_QUEUED
           then (CAN_ISOTP_RESULT_OK, ci_count (\<lambda>x. x\<lparr>tx_frames_enqueued := tx_frames_enqueued x + 1\<rparr>) s, t)
           else
            let s = ci_count (\<lambda>x. x\<lparr>tx_transport_failures := tx_transport_failures x + 1\<rparr>) s
            in (CAN_ISOTP_RESULT_TRANSPORT_ERROR,
                if abort_receive_on_failure
                then (ci_count (\<lambda>x. x\<lparr>rx_aborted := rx_aborted x + 1\<rparr>) s)
                  \<lparr>isotp_channel := the (IsoTp_CancelReceive (Some (isotp_channel s)))\<rparr>
                else (ci_count (\<lambda>x. x\<lparr>tx_aborted := tx_aborted x + 1\<rparr>) s)
                  \<lparr>isotp_channel := the (IsoTp_CancelTransmit (Some (isotp_channel s)))\<rparr>, t))"

definition CAN_IsoTp_RecordCoreError :: "IsoTp_Result \<Rightarrow> CAN_IsoTp \<Rightarrow> CAN_IsoTp_Result \<times> CAN_IsoTp" where
  "CAN_IsoTp_RecordCoreError result s = (case result of
     ISOTP_RESULT_BUSY \<Rightarrow> (CAN_ISOTP_RESULT_BUSY, ci_count (\<lambda>x. x\<lparr>rx_busy := rx_busy x + 1\<rparr>) s)
   | ISOTP_RESULT_SEQUENCE_ERROR \<Rightarrow> (CAN_ISOTP_RESULT_PROTOCOL_ERROR,
       ci_count (\<lambda>x. x\<lparr>sequence_errors := sequence_errors x + 1, rx_protocol_errors := rx_protocol_errors x + 1\<rparr>) s)
   | ISOTP_RESULT_UNEXPECTED_FRAME \<Rightarrow> (CAN_ISOTP_RESULT_PROTOCOL_ERROR,
       ci_count (\<lambda>x. x\<lparr>unexpected_frames := unexpected_frames x + 1, rx_protocol_errors := rx_protocol_errors x + 1\<rparr>) s)
   | ISOTP_RESULT_TIMEOUT \<Rightarrow> (CAN_ISOTP_RESULT_TIMEOUT,
       ci_count (\<lambda>x. x\<lparr>timeout_events := timeout_events x + 1\<rparr>) s)
   | ISOTP_RESULT_PAYLOAD_TOO_LARGE \<Rightarrow> (CAN_ISOTP_RESULT_PAYLOAD_TOO_LARGE, s)
   | ISOTP_RESULT_REMOTE_OVERFLOW \<Rightarrow> (CAN_ISOTP_RESULT_TRANSMIT_ABORTED, s)
   | ISOTP_RESULT_WAIT_LIMIT \<Rightarrow> (CAN_ISOTP_RESULT_TRANSMIT_ABORTED, s)
   | ISOTP_RESULT_INVALID_ARGUMENT \<Rightarrow> (CAN_ISOTP_RESULT_INVALID_ARGUMENT, s)
   | _ \<Rightarrow> (CAN_ISOTP_RESULT_PROTOCOL_ERROR,
       ci_count (\<lambda>x. x\<lparr>rx_protocol_errors := rx_protocol_errors x + 1\<rparr>) s))"

definition CAN_IsoTp_Init :: "CAN_IsoTp \<Rightarrow> CAN_IsoTp" where
  "CAN_IsoTp_Init s =
    (let s = s\<lparr>isotp_stats := can_isotp_stats_zero\<lparr>last_transport_result := CAN_TRANSPORT_NOT_INITIALIZED\<rparr>\<rparr>;
         config = \<lparr>rx_buffer_capacity = CAN_ISOTP_BUFFER_CAPACITY, tx_buffer_capacity = CAN_ISOTP_BUFFER_CAPACITY,
           flow_control_timeout_us = CAN_ISOTP_FLOW_CONTROL_TIMEOUT_US,
           consecutive_frame_timeout_us = CAN_ISOTP_CONSECUTIVE_FRAME_TIMEOUT_US,
           rx_block_size = CAN_ISOTP_RX_BLOCK_SIZE, rx_st_min = CAN_ISOTP_RX_ST_MIN,
           max_wait_frames = CAN_ISOTP_MAX_WAIT_FRAMES\<rparr>
     in case IsoTp_Init (Some (isotp_channel s)) (Some (config, Some (rx_buffer (isotp_channel s)),
            Some (tx_buffer (isotp_channel s)))) of
          (res, ch) \<Rightarrow> ci_count (\<lambda>x. x\<lparr>last_core_result := res\<rparr>) (s\<lparr>isotp_channel := the ch\<rparr>))"

text \<open>The bookkeeping after a call of the channel: a reception or a transmission that it aborted.\<close>

definition can_isotp_note_aborts :: "IsoTp_Channel \<Rightarrow> CAN_IsoTp \<Rightarrow> CAN_IsoTp" where
  "can_isotp_note_aborts before s =
    (let s = (if rx_state before = ISOTP_RX_RECEIVING \<and> rx_state (isotp_channel s) = ISOTP_RX_IDLE
           then ci_count (\<lambda>x. x\<lparr>rx_aborted := rx_aborted x + 1\<rparr>) s else s)
     in if (tx_state before = ISOTP_TX_WAIT_FLOW_CONTROL \<or> tx_state before = ISOTP_TX_SEND_CONSECUTIVE)
          \<and> tx_state (isotp_channel s) = ISOTP_TX_IDLE
        then ci_count (\<lambda>x. x\<lparr>tx_aborted := tx_aborted x + 1\<rparr>) s else s)"

definition CAN_IsoTp_OnCanFrame :: "'t can_send \<Rightarrow> bytes option \<Rightarrow> u8 \<Rightarrow> u32 \<Rightarrow> CAN_IsoTp \<Rightarrow> 't
    \<Rightarrow> CAN_IsoTp_Result \<times> CAN_IsoTp \<times> 't" where
  "CAN_IsoTp_OnCanFrame send data dlc now_us s t = (case data of
     None \<Rightarrow> (CAN_ISOTP_RESULT_INVALID_ARGUMENT, s, t)
   | Some data \<Rightarrow>
     if dlc = 0 \<or> 8 < dlc then (CAN_ISOTP_RESULT_INVALID_ARGUMENT, s, t)
     else
      let input_frame = \<lparr>frame_data = copy_bytes (unat dlc) (replicate 8 0) 0 data 0, frame_dlc = dlc\<rparr>;
          before = isotp_channel s;
          s = ci_count (\<lambda>x. x\<lparr>rx_frames := rx_frames x + 1\<rparr>) s
      in case IsoTp_OnCanFrame (Some before) (Some input_frame) now_us (Some can_isotp_frame) of
           (core_result, ch, response_frame) \<Rightarrow>
        let s = ci_count (\<lambda>x. x\<lparr>last_core_result := core_result\<rparr>) (s\<lparr>isotp_channel := the ch\<rparr>);
            s = can_isotp_note_aborts before s
        in if core_result = ISOTP_RESULT_MESSAGE_READY
           then (CAN_ISOTP_RESULT_REQUEST_READY, ci_count (\<lambda>x. x\<lparr>rx_messages := rx_messages x + 1\<rparr>) s, t)
           else if core_result = ISOTP_RESULT_FRAME_READY \<or> core_result = ISOTP_RESULT_RECEIVE_OVERFLOW then
            (let s = (if core_result = ISOTP_RESULT_RECEIVE_OVERFLOW
                  then ci_count (\<lambda>x. x\<lparr>rx_overflows := rx_overflows x + 1\<rparr>) s else s)
             in case CAN_IsoTp_SendFrame send (the response_frame) True s t of (send_result, s, t) \<Rightarrow>
               if send_result \<noteq> CAN_ISOTP_RESULT_OK then (send_result, s, t)
               else (if core_result = ISOTP_RESULT_RECEIVE_OVERFLOW then CAN_ISOTP_RESULT_RECEIVE_OVERFLOW
                     else CAN_ISOTP_RESULT_OK, s, t))
           else if core_result = ISOTP_RESULT_OK \<or> core_result = ISOTP_RESULT_WAIT
           then (CAN_ISOTP_RESULT_OK, s, t)
           else (case CAN_IsoTp_RecordCoreError core_result s of (res, s) \<Rightarrow> (res, s, t)))"

definition CAN_IsoTp_Process :: "'t can_send \<Rightarrow> u32 \<Rightarrow> CAN_IsoTp \<Rightarrow> 't
    \<Rightarrow> CAN_IsoTp_Result \<times> CAN_IsoTp \<times> 't" where
  "CAN_IsoTp_Process send now_us s t =
    (let before = isotp_channel s
     in case IsoTp_Process (Some before) now_us (Some can_isotp_frame) of (core_result, ch, frame) \<Rightarrow>
      let s = ci_count (\<lambda>x. x\<lparr>last_core_result := core_result\<rparr>) (s\<lparr>isotp_channel := the ch\<rparr>);
          s = can_isotp_note_aborts before s
      in if core_result = ISOTP_RESULT_WAIT then (CAN_ISOTP_RESULT_NO_WORK, s, t)
         else if core_result = ISOTP_RESULT_FRAME_READY then
          (case CAN_IsoTp_SendFrame send (the frame) False s t of (send_result, s, t) \<Rightarrow>
             if send_result \<noteq> CAN_ISOTP_RESULT_OK then (send_result, s, t)
             else (CAN_ISOTP_RESULT_OK,
               if IsoTp_IsTransmitComplete (Some (isotp_channel s))
               then ci_count (\<lambda>x. x\<lparr>tx_messages_completed := tx_messages_completed x + 1\<rparr>) s else s, t))
         else (case CAN_IsoTp_RecordCoreError core_result s of (res, s) \<Rightarrow> (res, s, t)))"

definition CAN_IsoTp_StartResponse :: "'t can_send \<Rightarrow> bytes option \<Rightarrow> u16 \<Rightarrow> u32 \<Rightarrow> CAN_IsoTp \<Rightarrow> 't
    \<Rightarrow> CAN_IsoTp_Result \<times> CAN_IsoTp \<times> 't" where
  "CAN_IsoTp_StartResponse send payload payload_length now_us s t =
    (case IsoTp_StartTransmit (Some (isotp_channel s)) payload payload_length now_us (Some can_isotp_frame) of
      (core_result, ch, frame) \<Rightarrow>
      let s = ci_count (\<lambda>x. x\<lparr>last_core_result := core_result\<rparr>) (s\<lparr>isotp_channel := the ch\<rparr>)
      in if core_result = ISOTP_RESULT_BUSY
         then (CAN_ISOTP_RESULT_BUSY, ci_count (\<lambda>x. x\<lparr>tx_busy := tx_busy x + 1\<rparr>) s, t)
         else if core_result \<noteq> ISOTP_RESULT_FRAME_READY
         then (case CAN_IsoTp_RecordCoreError core_result s of (res, s) \<Rightarrow> (res, s, t))
         else
          let s = ci_count (\<lambda>x. x\<lparr>tx_messages_started := tx_messages_started x + 1\<rparr>) s
          in case CAN_IsoTp_SendFrame send (the frame) False s t of (send_result, s, t) \<Rightarrow>
             if send_result \<noteq> CAN_ISOTP_RESULT_OK then (send_result, s, t)
             else (CAN_ISOTP_RESULT_OK,
               if IsoTp_IsTransmitComplete (Some (isotp_channel s))
               then ci_count (\<lambda>x. x\<lparr>tx_messages_completed := tx_messages_completed x + 1\<rparr>) s else s, t))"

definition CAN_IsoTp_HasRequest :: "CAN_IsoTp \<Rightarrow> bool" where
  "CAN_IsoTp_HasRequest s = IsoTp_HasReceivedMessage (Some (isotp_channel s))"

definition CAN_IsoTp_GetRequestData :: "CAN_IsoTp \<Rightarrow> bytes option" where
  "CAN_IsoTp_GetRequestData s = IsoTp_GetReceivedData (Some (isotp_channel s))"

definition CAN_IsoTp_GetRequestLength :: "CAN_IsoTp \<Rightarrow> u16" where
  "CAN_IsoTp_GetRequestLength s = IsoTp_GetReceivedLength (Some (isotp_channel s))"

definition CAN_IsoTp_ReleaseRequest :: "CAN_IsoTp \<Rightarrow> CAN_IsoTp" where
  "CAN_IsoTp_ReleaseRequest s = s\<lparr>isotp_channel := the (IsoTp_ReleaseReceivedMessage (Some (isotp_channel s)))\<rparr>"

definition CAN_IsoTp_GetStats :: "CAN_IsoTp_Stats option \<Rightarrow> CAN_IsoTp \<Rightarrow> CAN_IsoTp_Stats option" where
  "CAN_IsoTp_GetStats stats s = map_option (\<lambda>_. isotp_stats s) stats"

end
