(* ===== verification/CanIsoTpResponse.thy ===== *)
theory CanIsoTpResponse
  imports CanIsoTp
begin

text \<open>
  The diagnostic channel of \<open>src/Core/Src/can_isotp.c\<close> over the transmit queue: what the bus promises
  the channel (locale \<open>frame_sink\<close>, interpreted by the model of \<open>can_transport.c\<close>), and that a
  response appears on the bus as its ISO 15765-2 frames, in order and with nothing between them.
\<close>

section \<open>The bus as an interface\<close>

text \<open>
  What the diagnostic channel relies on: a frame is either added at the end of what is on the
  bus (or waiting for it) under the diagnostic identifier, or refused without effect; and a call of
  another user of the bus that does not use this identifier leaves these frames alone.
\<close>

locale frame_sink =
  fixes send :: "'t can_send" and other :: "'c \<Rightarrow> 't \<Rightarrow> 't"
    and foreign :: "'c \<Rightarrow> bool" and sink_ok :: "'t \<Rightarrow> bool" and frames :: "'t \<Rightarrow> bytes list"
  assumes send_frame: "sink_ok t \<Longrightarrow> length d = 8 \<Longrightarrow>
      send CAN_PROTOCOL_DIAGNOSTIC_RESPONSE_TX_ID CAN_TRANSPORT_ID_STANDARD (Some d) t = (r, t') \<Longrightarrow>
      sink_ok t' \<and> frames t' = frames t @ (if r = CAN_TRANSPORT_OK \<or> r = CAN_TRANSPORT_QUEUED then [d] else [])"
    and other_frames: "sink_ok t \<Longrightarrow> foreign c \<Longrightarrow> sink_ok (other c t) \<and> frames (other c t) = frames t"

text \<open>The transport as such an interface: the diagnostic frames on the bus and in the queue.\<close>

definition diag_send :: "'w can_hal \<Rightarrow> (CAN_Transport \<times> 'w \<times> (FDCAN_TxHeader \<times> bytes) list) can_send" where
  "diag_send hal ident idt data = (\<lambda>(s, x).
     case CAN_Transport_SendClassicHighPriority (can_logged hal) ident idt data s x of (r, s, x) \<Rightarrow> (r, (s, x)))"

definition diag_frame :: "FDCAN_TxHeader \<times> bytes \<Rightarrow> bool" where
  "diag_frame f \<longleftrightarrow> Identifier (fst f) = CAN_PROTOCOL_DIAGNOSTIC_RESPONSE_TX_ID"

definition diag_frames :: "CAN_Transport \<times> 'w \<times> (FDCAN_TxHeader \<times> bytes) list \<Rightarrow> bytes list" where
  "diag_frames = (\<lambda>(s, w, log). map snd (filter diag_frame (log @ map can_frame (can_pending s))))"

definition diag_ok :: "CAN_Transport \<times> 'w \<times> (FDCAN_TxHeader \<times> bytes) list \<Rightarrow> bool" where
  "diag_ok = (\<lambda>(s, w, log). can_inv s
     \<and> (\<forall>m \<in> set (can_pending s). diag_frame (can_frame m) \<longrightarrow> high_priority m))"

fun diag_foreign :: "can_call \<Rightarrow> bool" where
  "diag_foreign (Can_Send i _ _) \<longleftrightarrow> i \<noteq> CAN_PROTOCOL_DIAGNOSTIC_RESPONSE_TX_ID"
| "diag_foreign (Can_SendLatest i _ _) \<longleftrightarrow> i \<noteq> CAN_PROTOCOL_DIAGNOSTIC_RESPONSE_TX_ID"
| "diag_foreign (Can_SendHighPriority i _ _) \<longleftrightarrow> i \<noteq> CAN_PROTOCOL_DIAGNOSTIC_RESPONSE_TX_ID"
| "diag_foreign _ \<longleftrightarrow> True"

text \<open>
  The other users of the bus: any call of the transport. The firmware does not keep them from the diagnostic
  identifier (a slot may be configured for it), so that a run in which they do not use it is a hypothesis.
\<close>

definition diag_other :: "'w can_hal \<Rightarrow> can_call \<Rightarrow> CAN_Transport \<times> 'w \<times> (FDCAN_TxHeader \<times> bytes) list
    \<Rightarrow> CAN_Transport \<times> 'w \<times> (FDCAN_TxHeader \<times> bytes) list" where
  "diag_other hal c = (\<lambda>(s, x). case can_step (can_logged hal) c (s, x, []) of (s', x', _) \<Rightarrow> (s', x'))"

lemma diag_frame_make: "diag_frame (can_frame (can_make_message i t d rp hp))
    \<longleftrightarrow> i = CAN_PROTOCOL_DIAGNOSTIC_RESPONSE_TX_ID"
  by (simp add: diag_frame_def can_frame_def can_tx_header_def can_make_message_def)

lemma diag_frame_key: "can_key x = can_key m \<Longrightarrow> diag_frame (can_frame x) \<longleftrightarrow> diag_frame (can_frame m)"
  by (simp add: diag_frame_def can_frame_def can_tx_header_def)

abbreviation diag_of :: "CAN_Transport_Message list \<Rightarrow> CAN_Transport_Message list" where
  "diag_of q \<equiv> filter (\<lambda>m. diag_frame (can_frame m)) q"

lemma diag_enqueue:
  assumes "can_ordered q" "spec_enqueue m q = Some q'" "\<forall>x \<in> set q. diag_frame (can_frame x) \<longrightarrow> high_priority x"
    and "diag_frame (can_frame m) \<longrightarrow> high_priority m"
  shows "diag_of q' = diag_of (q @ [m])" "\<forall>x \<in> set q'. diag_frame (can_frame x) \<longrightarrow> high_priority x"
proof -
  obtain r where r: "q' = spec_insert m r" "can_ordered r" "set r \<subseteq> set q" "diag_of r = diag_of q"
  proof (cases "length q < 16")
    case True
    then show ?thesis using that [of q] assms by (simp add: spec_enqueue_def)
  next
    case False
    then obtain r where r: "spec_evict q = Some r" "q' = spec_insert m r"
      using assms(2) by (auto simp: spec_enqueue_def split: if_splits)
    obtain a x b where q: "q = a @ x # b" "r = a @ b" "replaceable x" using evict_cases [OF r(1)] .
    have "\<not> diag_frame (can_frame x)" using assms(1,3) q by (auto simp: can_ordered_def)
    then show ?thesis using that [of r] r q evict_filters [OF assms(1) r(1)] by simp
  qed
  obtain a b where ab: "r = a @ b" "\<forall>m \<in> set b. \<not> high_priority m"
    and ins: "spec_insert m r = (if high_priority m then a @ m # b else a @ b @ [m])"
    using insert_split [OF r(2), of m] by metis
  have "diag_of b = []" using ab r(3) assms(3) by (auto simp: filter_empty_conv)
  then have "diag_of q' = diag_of (r @ [m])" unfolding r(1) ins unfolding ab(1) using assms(4) by auto
  then show "diag_of q' = diag_of (q @ [m])" using r(4) by simp
  have "set q' = insert m (set r)" unfolding r(1) ins unfolding ab(1) by auto
  then show "\<forall>x \<in> set q'. diag_frame (can_frame x) \<longrightarrow> high_priority x" using assms(3,4) r(3) by auto
qed

lemma diag_send_step:
  assumes "diag_ok (s, w, l)" "rp \<longrightarrow> \<not> hp" "ident = CAN_PROTOCOL_DIAGNOSTIC_RESPONSE_TX_ID \<longrightarrow> hp"
    and "CAN_Transport_SendClassicInternal (can_logged hal) ident idt data rp hp s (w, l) = (res, s', w', l')"
  shows "diag_ok (s', w', l')" "diag_frames (s', w', l') = diag_frames (s, w, l)
    @ (if ident = CAN_PROTOCOL_DIAGNOSTIC_RESPONSE_TX_ID \<and> (res = CAN_TRANSPORT_OK \<or> res = CAN_TRANSPORT_QUEUED)
       then [msg_data (can_make_message ident idt (the data) rp hp)] else [])"
proof -
  let ?m = "can_make_message ident idt (the data) rp hp"
  have inv: "can_queue_ok s" "can_ordered (can_pending s)"
    and hi: "\<forall>m \<in> set (can_pending s). diag_frame (can_frame m) \<longrightarrow> high_priority m"
    using assms(1) by (simp_all add: diag_ok_def can_inv_def)
  have fm: "diag_frame (can_frame ?m) \<longleftrightarrow> ident = CAN_PROTOCOL_DIAGNOSTIC_RESPONSE_TX_ID" by (simp add: diag_frame_make)
  have ord: "can_inv s'" using send_inv [OF _ assms(2,4)] inv by (simp add: can_inv_def)
  have "(\<forall>m \<in> set (can_pending s'). diag_frame (can_frame m) \<longrightarrow> high_priority m)
    \<and> diag_frames (s', w', l') = diag_frames (s, w, l)
    @ (if ident = CAN_PROTOCOL_DIAGNOSTIC_RESPONSE_TX_ID \<and> (res = CAN_TRANSPORT_OK \<or> res = CAN_TRANSPORT_QUEUED)
       then [msg_data ?m] else [])"
  proof (cases rule: send_cases [OF inv(1) assms(2) inv(2) assms(4)])
    case 1
    then show ?thesis using hi by (simp add: diag_frames_def)
  next
    case (2 m)
    then show ?thesis using fm by (simp add: diag_frames_def can_frame_def)
  next
    case (3 m a x b)
    then have "\<not> diag_frame (can_frame x)" "\<not> diag_frame (can_frame m)"
      using assms(2,3) fm diag_frame_key [OF 3(6)] by auto
    then show ?thesis using 3 hi fm by (simp add: diag_frames_def)
  next
    case (4 m)
    have "diag_frame (can_frame m) \<longrightarrow> high_priority m" using assms(3) fm 4(1) by simp
    from diag_enqueue [OF inv(2) 4(4) hi this] show ?thesis using 4 fm
      by (simp add: diag_frames_def filter_map comp_def can_frame_def)
  qed
  then show "diag_ok (s', w', l')" "diag_frames (s', w', l') = diag_frames (s, w, l)
    @ (if ident = CAN_PROTOCOL_DIAGNOSTIC_RESPONSE_TX_ID \<and> (res = CAN_TRANSPORT_OK \<or> res = CAN_TRANSPORT_QUEUED)
       then [msg_data ?m] else [])" using ord by (simp_all add: diag_ok_def)
qed


lemma diag_queue_step:
  assumes "diag_ok (s, w, l)" "can_queue_ok s'" "l' = l @ map can_frame out" "can_pending s = out @ can_pending s'"
  shows "diag_ok (s', w', l') \<and> diag_frames (s', w', l') = diag_frames (s, w, l)"
  using assms ordered_suffix [of out "can_pending s'"] by (auto simp: diag_ok_def can_inv_def diag_frames_def)

lemma diag_other_step:
  assumes "diag_ok t" and foreign: "diag_foreign c"
  shows "diag_ok (diag_other hal c t) \<and> diag_frames (diag_other hal c t) = diag_frames t"
proof -
  obtain s w l where t: "t = (s, w, l)" by (metis prod.exhaust)
  have send: "diag_ok (s', w', l') \<and> diag_frames (s', w', l') = diag_frames t"
    if "CAN_Transport_SendClassicInternal (can_logged hal) i idt d rp hp s (w, l) = (res, s', w', l')"
      "i \<noteq> CAN_PROTOCOL_DIAGNOSTIC_RESPONSE_TX_ID" "rp \<longrightarrow> \<not> hp" for i idt d rp hp res s' w' l'
    using diag_send_step [OF assms(1) [unfolded t] that(3) _ that(1)] that(2) by (simp add: t)
  obtain s' w' l' acc where run: "can_step (can_logged hal) c (s, (w, l), []) = (s', (w', l'), acc)" by (metis prod.exhaust)
  have ok: "can_queue_ok s" using assms(1) by (simp add: t diag_ok_def can_inv_def)
  have "diag_ok (s', w', l') \<and> diag_frames (s', w', l') = diag_frames t"
  proof (cases c)
    case (Can_Send i idt d)
    then show ?thesis using run foreign send [where rp = False and hp = False and i = i and idt = idt and d = d]
      by (auto simp: can_accept_def CAN_Transport_SendClassic_def split: prod.splits)
  next
    case (Can_SendLatest i idt d)
    then show ?thesis using run foreign send [where rp = True and hp = False and i = i and idt = idt and d = d]
      by (auto simp: can_accept_def CAN_Transport_SendClassicLatest_def split: prod.splits)
  next
    case (Can_SendHighPriority i idt d)
    then show ?thesis using run foreign send [where rp = False and hp = True and i = i and idt = idt and d = d]
      by (auto simp: can_accept_def CAN_Transport_SendClassicHighPriority_def split: prod.splits)
  next
    case Can_Process
    then have "CAN_Transport_Process (can_logged hal) s (w, l) = (s', w', l')" using run by (auto split: prod.splits)
    from process_sends [OF ok this] show ?thesis using diag_queue_step [OF assms(1) [unfolded t]] t by metis
  next
    case Can_GetStats
    then have "CAN_Transport_UpdateQueueHealth (can_logged hal) s (w, l) = (s', w', l')"
      using run by (auto simp: CAN_Transport_GetStats_def split: prod.splits)
    from health_queue [OF ok this] show ?thesis
      using diag_queue_step [OF assms(1) [unfolded t], of s' l' "[]" w'] t by simp
  qed
  then show ?thesis using run by (simp add: diag_other_def t)
qed

interpretation diag: frame_sink "diag_send hal" "diag_other hal" diag_foreign diag_ok diag_frames
proof
  fix t :: "CAN_Transport \<times> 'a \<times> (FDCAN_TxHeader \<times> bytes) list" and d r t'
  assume ok: "diag_ok t" and d: "length d = 8"
    and run: "diag_send hal CAN_PROTOCOL_DIAGNOSTIC_RESPONSE_TX_ID CAN_TRANSPORT_ID_STANDARD (Some d) t = (r, t')"
  obtain s w l where t: "t = (s, w, l)" by (metis prod.exhaust)
  obtain s' w' l' where run': "CAN_Transport_SendClassicInternal (can_logged hal) CAN_PROTOCOL_DIAGNOSTIC_RESPONSE_TX_ID
      CAN_TRANSPORT_ID_STANDARD (Some d) False True s (w, l) = (r, s', w', l')" "t' = (s', w', l')"
    using run by (cases t') (auto simp: diag_send_def t CAN_Transport_SendClassicHighPriority_def split: prod.splits)
  have "map ((!) d) [0..<8] = d" using d by (metis map_nth)
  then have "msg_data (can_make_message i idt d False True) = d" for i idt
    by (simp add: can_make_message_def copy_data)
  then show "diag_ok t' \<and> diag_frames t' = diag_frames t
      @ (if r = CAN_TRANSPORT_OK \<or> r = CAN_TRANSPORT_QUEUED then [d] else [])"
    using diag_send_step [OF ok [unfolded t] _ _ run'(1)] by (simp add: run'(2) t)
next
  fix t :: "CAN_Transport \<times> 'a \<times> (FDCAN_TxHeader \<times> bytes) list" and c
  assume "diag_ok t" "diag_foreign c"
  then show "diag_ok (diag_other hal c t) \<and> diag_frames (diag_other hal c t) = diag_frames t" by (rule diag_other_step)
qed

section \<open>The frames of a response\<close>

lemma consecutive_nth:
  "i < length (isotp_consecutive k xs) \<Longrightarrow> isotp_consecutive k xs ! i
    = isotp_pad (word_of_nat (32 + (k + i) mod 16) # take 7 (drop (7 * i) xs))"
proof (induction k xs arbitrary: i rule: isotp_consecutive.induct)
  case (1 k xs)
  show ?case
  proof (cases "xs = []")
    case False
    then have eq: "isotp_consecutive k xs = isotp_pad (word_of_nat (32 + k mod 16) # take 7 xs)
      # isotp_consecutive (Suc k) (drop 7 xs)" by (simp add: isotp_consecutive.simps [of k xs])
    show ?thesis using 1 False by (cases i) (auto simp: eq add.commute)
  qed (use 1 in \<open>simp add: isotp_consecutive.simps [of k "[]"]\<close>)
qed

lemma length_consecutive: "length (isotp_consecutive k xs) = (length xs + 6) div 7"
proof (induction k xs rule: isotp_consecutive.induct)
  case (1 k xs)
  show ?case
  proof (cases "xs = []")
    case False
    then have "length xs \<ge> 1" by (cases xs) simp_all
    then have "(length xs + 6) div 7 = Suc ((length xs - 7 + 6) div 7)" by (cases "length xs < 7") auto
    then show ?thesis using 1 False by (simp add: isotp_consecutive.simps [of k xs])
  qed (simp add: isotp_consecutive.simps [of k "[]"])
qed

lemma segment_length: "length (isotp_segment p) = (if length p \<le> 7 then 1 else 1 + length p div 7)"
proof (cases "length p \<le> 7")
  case False
  then have "length p - 6 + 6 = length p" by simp
  then show ?thesis using False by (simp add: isotp_segment_def length_consecutive)
qed (simp add: isotp_segment_def)

lemma segment_nth:
  assumes "7 < length p" "1 \<le> n" "n < length (isotp_segment p)"
  shows "isotp_segment p ! n = isotp_pad (word_of_nat (32 + n mod 16) # take 7 (drop (6 + 7 * (n - 1)) p))"
  using assms consecutive_nth [of "n - 1" 1 "drop 6 p"]
  by (cases n) (auto simp: isotp_segment_def add.commute)


text \<open>
  A channel that has handed out the first \<open>n\<close> frames of the message \<open>p\<close>: in progress it still
  holds \<open>p\<close> and stands at the next frame, complete it has handed out all of them.
\<close>

definition isotp_responding :: "bytes \<Rightarrow> nat \<Rightarrow> IsoTp_Channel \<Rightarrow> bool" where
  "isotp_responding p n ch \<longleftrightarrow> isotp_inv ch \<and> n \<le> length (isotp_segment p)
     \<and> (case tx_state ch of ISOTP_TX_IDLE \<Rightarrow> True
        | ISOTP_TX_COMPLETE \<Rightarrow> n = length (isotp_segment p)
        | _ \<Rightarrow> 7 < length p \<and> take (length p) (tx_buffer ch) = p \<and> unat (tx_length ch) = length p
            \<and> 1 \<le> n \<and> unat (tx_offset ch) = 6 + 7 * (n - 1))"

text \<open>The parts of the channel that concern transmission, kept or given up.\<close>

definition isotp_tx_kept :: "IsoTp_Channel \<Rightarrow> IsoTp_Channel \<Rightarrow> bool" where
  "isotp_tx_kept a b \<longleftrightarrow> tx_state b = ISOTP_TX_IDLE
     \<or> (tx_buffer b = tx_buffer a \<and> tx_length b = tx_length a \<and> tx_offset b = tx_offset a
        \<and> (tx_state b = tx_state a
           \<or> tx_state a = ISOTP_TX_WAIT_FLOW_CONTROL \<and> tx_state b = ISOTP_TX_SEND_CONSECUTIVE))"

lemma responding_kept:
  "isotp_responding p n a \<Longrightarrow> isotp_tx_kept a b \<Longrightarrow> isotp_inv b \<Longrightarrow> isotp_responding p n b"
  by (auto simp: isotp_responding_def isotp_tx_kept_def split: IsoTp_TxState.splits)

lemma OnCanFrame_kept:
  assumes "IsoTp_OnCanFrame_body ch f now rf = (r, ch', rf')"
  shows "isotp_tx_kept ch ch'"
    "r = ISOTP_RESULT_FRAME_READY \<or> r = ISOTP_RESULT_RECEIVE_OVERFLOW \<Longrightarrow>
      length (frame_data rf') = 8 \<and> frame_data rf' ! 0 AND 0xF0 = 0x30"
proof -
  have fc: "length (frame_data (IsoTp_BuildFlowControl c s g)) = 8
    \<and> (s \<in> {0, 2} \<longrightarrow> frame_data (IsoTp_BuildFlowControl c s g) ! 0 AND 0xF0 = 0x30)" for c s g
    by (auto simp: IsoTp_BuildFlowControl_def IsoTp_ClearFrame_def Let_def)
  have "isotp_tx_kept ch ch' \<and> (r = ISOTP_RESULT_FRAME_READY \<or> r = ISOTP_RESULT_RECEIVE_OVERFLOW \<longrightarrow>
      length (frame_data rf') = 8 \<and> frame_data rf' ! 0 AND 0xF0 = 0x30)"
    using assms fc
    by (auto simp: IsoTp_OnCanFrame_body_def IsoTp_ReceiveSingleFrame_def IsoTp_ReceiveFirstFrame_def
        IsoTp_ReceiveConsecutiveFrame_def IsoTp_ReceiveFlowControl_def isotp_tx_kept_def Let_def
        IsoTp_ResetReceiveState_def IsoTp_ResetTransmitState_def split: if_splits option.splits prod.splits)
  then show "isotp_tx_kept ch ch'" "r = ISOTP_RESULT_FRAME_READY \<or> r = ISOTP_RESULT_RECEIVE_OVERFLOW \<Longrightarrow>
      length (frame_data rf') = 8 \<and> frame_data rf' ! 0 AND 0xF0 = 0x30" by blast+
qed

lemma Process_kept:
  assumes "IsoTp_Process_body ch now f = (r, ch', f')" "r \<noteq> ISOTP_RESULT_FRAME_READY"
  shows "isotp_tx_kept ch ch'"
  using assms by (auto simp: IsoTp_Process_body_def isotp_tx_kept_def Let_def IsoTp_ResetReceiveState_def
      IsoTp_ResetTransmitState_def split: if_splits)

text \<open>A consecutive frame is the next frame of the message.\<close>

lemma Process_next:
  assumes resp: "isotp_responding p n ch" and run: "IsoTp_Process_body ch now f = (ISOTP_RESULT_FRAME_READY, ch', f')"
  shows "n < length (isotp_segment p)" "f' = isotp_segment p ! n" "isotp_responding p (Suc n) ch'"
proof -
  have inv: "isotp_inv ch" "isotp_inv ch'" using resp inv_Process [of ch now f] run by (simp_all add: isotp_responding_def)
  have st: "tx_state ch = ISOTP_TX_SEND_CONSECUTIVE" and due: "time_reached now (tx_deadline_us ch)"
    and rx: "rx_state ch \<noteq> ISOTP_RX_RECEIVING \<or> \<not> time_reached now (rx_deadline_us ch)"
    using run by (auto simp: IsoTp_Process_body_def IsoTp_DeadlineReached_eq split: if_splits)
  define off where "off = unat (tx_offset ch)"
  have p: "7 < length p" "take (length p) (tx_buffer ch) = p" "unat (tx_length ch) = length p" "1 \<le> n"
    "off = 6 + 7 * (n - 1)" using resp st by (simp_all add: isotp_responding_def off_def)
  have lt: "off < length p" using inv(1) st p(3) by (auto simp: isotp_inv_def isotp_tx_inv_def isotp_progress_ok_def
        off_def nat_of_word)
  from Process_sends [OF inv(1) st rx due, of f] run
  have f': "f' = isotp_pad (word_of_nat (32 + ((off - 6) div 7 + 1) mod 16) # take (min 7 (length p - off)) (drop off (tx_buffer ch)))"
    and off': "unat (tx_offset ch') = off + min 7 (length p - off)" and same: "tx_length ch' = tx_length ch" "tx_buffer ch' = tx_buffer ch"
    and st': "if off + min 7 (length p - off) = length p then tx_state ch' = ISOTP_TX_COMPLETE
      else tx_state ch' = ISOTP_TX_WAIT_FLOW_CONTROL \<or> tx_state ch' = ISOTP_TX_SEND_CONSECUTIVE"
    by (auto simp: off_def p(3) split: if_splits)
  have seg: "length (isotp_segment p) = 1 + length p div 7" using p(1) by (simp add: segment_length)
  show n: "n < length (isotp_segment p)" using lt p(4,5) seg by linarith
  have "take (min 7 (length p - off)) (drop off (tx_buffer ch)) = take 7 (drop off p)"
    using p(2) by (metis drop_take min.commute take_take)
  moreover have "(off - 6) div 7 + 1 = n" using p(4,5) by simp
  ultimately show "f' = isotp_segment p ! n" using segment_nth [OF p(1) p(4) n] f' p(5) by simp
  show "isotp_responding p (Suc n) ch'"
  proof (cases "off + min 7 (length p - off) = length p")
    case True
    have "Suc n = length (isotp_segment p)" using True lt p(4,5) seg by linarith
    then show ?thesis using True st' inv(2) by (simp add: isotp_responding_def)
  next
    case False
    then have "off + 7 < length p" "min 7 (length p - off) = 7" using lt by auto
    then show ?thesis using st' False inv(2) same p off' n by (auto simp: isotp_responding_def)
  qed
qed


section \<open>Every call on the channel\<close>

datatype 'c can_isotp_call = Ci_Rx "bytes option" u8 u32 | Ci_Poll u32 | Ci_Release
  | Ci_Respond "bytes option" u16 u32 | Ci_Other 'c

fun can_isotp_step :: "'t can_send \<Rightarrow> ('c \<Rightarrow> 't \<Rightarrow> 't) \<Rightarrow> 'c can_isotp_call \<Rightarrow> CAN_IsoTp \<times> 't \<Rightarrow> CAN_IsoTp \<times> 't" where
  "can_isotp_step send other (Ci_Rx d dlc now) (s, t) = snd (CAN_IsoTp_OnCanFrame send d dlc now s t)"
| "can_isotp_step send other (Ci_Poll now) (s, t) = snd (CAN_IsoTp_Process send now s t)"
| "can_isotp_step send other Ci_Release (s, t) = (CAN_IsoTp_ReleaseRequest s, t)"
| "can_isotp_step send other (Ci_Respond d n now) (s, t) = snd (CAN_IsoTp_StartResponse send d n now s t)"
| "can_isotp_step send other (Ci_Other c) (s, t) = (s, other c t)"

fun can_isotp_responds :: "'c can_isotp_call \<Rightarrow> bool" where
  "can_isotp_responds (Ci_Respond d n now) \<longleftrightarrow> True"
| "can_isotp_responds _ \<longleftrightarrow> False"

text \<open>A call in which no other user sends under the diagnostic identifier.\<close>

fun can_isotp_foreign :: "('c \<Rightarrow> bool) \<Rightarrow> 'c can_isotp_call \<Rightarrow> bool" where
  "can_isotp_foreign foreign (Ci_Other c) \<longleftrightarrow> foreign c"
| "can_isotp_foreign foreign _ \<longleftrightarrow> True"

text \<open>The frames that carry data: all but the flow control frames.\<close>

definition carries_data :: "bytes \<Rightarrow> bool" where
  "carries_data d \<longleftrightarrow> d ! 0 AND 0xF0 \<noteq> 0x30"

lemma segment_frames:
  assumes "length p \<le> 4095" "f \<in> set (isotp_segment p)"
  shows "length (frame_data f) = 8" "carries_data (frame_data f)"
proof -
  have small: "(word_of_nat k :: u8) AND 0xF0 \<noteq> 0x30" if "k \<le> 7 \<or> 16 \<le> k \<and> k < 32 \<or> 32 \<le> k \<and> k < 48" for k
  proof -
    have "list_all (\<lambda>k. (word_of_nat k :: u8) AND 0xF0 \<noteq> 0x30) ([0..<8] @ [16..<48])" by code_simp
    moreover have "k \<in> set ([0..<8] @ [16..<48])" using that unfolding set_append set_upt by auto
    ultimately show ?thesis unfolding list_all_iff by (rule bspec)
  qed
  have cons: "length (frame_data g) = 8 \<and> carries_data (frame_data g)" if "g \<in> set (isotp_consecutive k xs)" for g k xs
    using that
  proof (induction k xs rule: isotp_consecutive.induct)
    case (1 k xs)
    then show ?case using small [of "32 + k mod 16"]
      by (auto simp: isotp_consecutive.simps [of k xs] carries_data_def simp del: of_nat_add split: if_splits)
  qed
  have "length (frame_data (isotp_first p)) = 8 \<and> carries_data (frame_data (isotp_first p))"
    using small [of "length p"] small [of "16 + length p div 256"] assms(1) div_le_mono [of "length p" 4095 256]
    by (auto simp: isotp_first_def carries_data_def simp del: of_nat_add)
  then show "length (frame_data f) = 8" "carries_data (frame_data f)"
    using assms(2) cons by (auto simp: isotp_segment_def split: if_splits)
qed

lemma StartTransmit_cut:
  assumes "unat n \<le> length p"
  shows "IsoTp_StartTransmit_body ch p n now f = IsoTp_StartTransmit_body ch (take (unat n) p) (word_of_nat (unat n)) now f"
proof -
  have "copy_bytes (unat n) d 0 p 0 = copy_bytes (unat n) d 0 (take (unat n) p) 0" for d
    by (intro nth_equalityI) (simp_all add: nth_copy_bytes)
  then show ?thesis by (simp add: IsoTp_StartTransmit_body_def Let_def)
qed

text \<open>A message that the channel takes starts with its first frame.\<close>

lemma StartTransmit_responds:
  assumes inv: "isotp_inv ch" and len: "unat n \<le> length payload"
    and run: "IsoTp_StartTransmit_body ch payload n now f = (ISOTP_RESULT_FRAME_READY, ch', f')"
  defines "p \<equiv> take (unat n) payload"
  shows "length p \<le> 4095" "f' = isotp_segment p ! 0" "isotp_responding p 1 ch'"
proof -
  have ok: "n \<noteq> 0" "\<not> n > 4095" "\<not> n > tx_buffer_capacity (ch_config ch)"
    "tx_state ch \<in> {ISOTP_TX_IDLE, ISOTP_TX_COMPLETE}"
    using run by (auto simp: IsoTp_StartTransmit_body_def split: if_splits intro: IsoTp_TxState.exhaust [of "tx_state ch"])
  have l: "length p = unat n" using len by (simp add: p_def)
  have cap: "length p \<le> unat (tx_buffer_capacity (ch_config ch))" and small: "length p \<le> 4095"
    using ok by (simp_all add: l nat_of_word)
  have ne: "p \<noteq> []" using ok(1) l by (auto simp: unat_eq_0)
  have run': "IsoTp_StartTransmit_body ch p (word_of_nat (length p)) now f = (ISOTP_RESULT_FRAME_READY, ch', f')"
    using run StartTransmit_cut [OF len, of ch now f] by (simp add: p_def len)
  have inv': "isotp_inv ch'" by (rule inv_StartTransmit [OF inv run])
  show "length p \<le> 4095" by (rule small)
  have seg: "1 \<le> length (isotp_segment p)" by (simp add: segment_length)
  have "f' = isotp_first p \<and> isotp_responding p 1 ch'"
  proof (cases "length p \<le> 7")
    case True
    from StartTransmit_single [OF inv ne True cap ok(4), of now f] run' show ?thesis
      using inv' True by (auto simp: isotp_responding_def segment_length)
  next
    case False
    from StartTransmit_first [OF inv _ small cap ok(4), of now f] run' False show ?thesis
      using inv' seg small by (auto simp: isotp_responding_def segment_length unat_of_nat)
  qed
  then show "f' = isotp_segment p ! 0" "isotp_responding p 1 ch'" by (simp_all add: isotp_segment_def)
qed


section \<open>The response on the bus\<close>

context frame_sink
begin

lemma send_frame_cases:
  assumes ok: "sink_ok t" and len: "length (frame_data f) = 8" and run: "CAN_IsoTp_SendFrame send f b s t = (r, s', t')"
  obtains "r = CAN_ISOTP_RESULT_OK" "isotp_channel s' = isotp_channel s" "sink_ok t'" "frames t' = frames t @ [frame_data f]"
  | "r = CAN_ISOTP_RESULT_TRANSPORT_ERROR" "sink_ok t'" "frames t' = frames t"
    "isotp_channel s' = (if b then the (IsoTp_CancelReceive (Some (isotp_channel s)))
       else the (IsoTp_CancelTransmit (Some (isotp_channel s))))"
proof -
  obtain tr t1 where tr: "send CAN_PROTOCOL_DIAGNOSTIC_RESPONSE_TX_ID CAN_TRANSPORT_ID_STANDARD (Some (frame_data f)) t = (tr, t1)"
    by fastforce
  from send_frame [OF ok len tr] run tr that show thesis
    by (auto simp: CAN_IsoTp_SendFrame_def Let_def split: if_splits)
qed

text \<open>The invariant while \<open>p\<close> is sent; \<open>base\<close> is what the bus carried before.\<close>

definition sending :: "bytes list \<Rightarrow> bytes \<Rightarrow> nat \<Rightarrow> CAN_IsoTp \<times> 't \<Rightarrow> bool" where
  "sending base p n x \<longleftrightarrow> sink_ok (snd x) \<and> isotp_responding p n (isotp_channel (fst x))
     \<and> filter carries_data (frames (snd x)) = base @ take n (map frame_data (isotp_segment p))"

lemma kept_cancel:
  "isotp_tx_kept a b \<Longrightarrow> isotp_tx_kept a (the (IsoTp_CancelReceive (Some b)))"
  "isotp_tx_kept a (the (IsoTp_CancelTransmit (Some b))) \<or> \<not> ch_initialized b"
  "isotp_tx_kept a (the (IsoTp_ReleaseReceivedMessage (Some a)))"
  by (auto simp: isotp_tx_kept_def IsoTp_CancelReceive_def IsoTp_CancelTransmit_def
      IsoTp_ReleaseReceivedMessage_def IsoTp_ResetReceiveState_def IsoTp_ResetTransmitState_def)

lemma inv_cancel:
  "isotp_inv b \<Longrightarrow> isotp_inv (the (IsoTp_CancelReceive (Some b)))"
  "isotp_inv b \<Longrightarrow> isotp_inv (the (IsoTp_CancelTransmit (Some b)))"
  "isotp_inv b \<Longrightarrow> isotp_inv (the (IsoTp_ReleaseReceivedMessage (Some b)))"
  by (auto simp: IsoTp_CancelReceive_def IsoTp_CancelTransmit_def IsoTp_ReleaseReceivedMessage_def)

lemma rx_sending:
  assumes "sending base p n (s, t)" "CAN_IsoTp_OnCanFrame send d dlc now s t = (r, s', t')"
  shows "sending base p n (s', t')"
proof (cases "d = None \<or> dlc = 0 \<or> 8 < dlc")
  case True
  then show ?thesis using assms by (auto simp: CAN_IsoTp_OnCanFrame_def split: option.splits)
next
  case False
  then obtain bs where d: "d = Some bs" by auto
  obtain r1 ch1 f1 where core: "IsoTp_OnCanFrame_body (isotp_channel s)
      \<lparr>frame_data = copy_bytes (unat dlc) (replicate 8 0) 0 bs 0, frame_dlc = dlc\<rparr> now can_isotp_frame = (r1, ch1, f1)"
    by (metis prod.exhaust)
  have st: "sink_ok t" "isotp_responding p n (isotp_channel s)" "isotp_inv (isotp_channel s)"
    using assms(1) by (simp_all add: sending_def isotp_responding_def)
  note kept = OnCanFrame_kept [OF core] and inv = inv_OnCanFrame [OF st(3) core]
  have resp: "isotp_responding p n ch1" by (rule responding_kept [OF st(2) kept(1) inv])
  define s1 where "s1 = can_isotp_note_aborts (isotp_channel s) (ci_count (\<lambda>x. x\<lparr>last_core_result := r1\<rparr>)
      ((ci_count (\<lambda>x. x\<lparr>rx_frames := rx_frames x + 1\<rparr>) s)\<lparr>isotp_channel := ch1\<rparr>))"
  have s1: "isotp_channel s1 = ch1" by (simp add: s1_def can_isotp_note_aborts_def Let_def)
  show ?thesis
  proof (cases "r1 = ISOTP_RESULT_FRAME_READY \<or> r1 = ISOTP_RESULT_RECEIVE_OVERFLOW")
    case False
    then have "isotp_channel s' = ch1 \<and> t' = t" using assms(2) d core \<open>\<not> (d = None \<or> dlc = 0 \<or> 8 < dlc)\<close>
      by (auto simp: CAN_IsoTp_OnCanFrame_def IsoTp_OnCanFrame_def Let_def CAN_IsoTp_RecordCoreError_def
          can_isotp_note_aborts_def split: if_splits IsoTp_Result.splits)
    then show ?thesis using assms(1) resp by (simp add: sending_def)
  next
    case True
    define s2 where "s2 = (if r1 = ISOTP_RESULT_RECEIVE_OVERFLOW then ci_count (\<lambda>x. x\<lparr>rx_overflows := rx_overflows x + 1\<rparr>) s1 else s1)"
    obtain r2 s3 t3 where sent: "CAN_IsoTp_SendFrame send f1 True s2 t = (r2, s3, t3)" by (metis prod.exhaust)
    have "s' = s3 \<and> t' = t3" using assms(2) d core sent True \<open>\<not> (d = None \<or> dlc = 0 \<or> 8 < dlc)\<close>
      by (auto simp: CAN_IsoTp_OnCanFrame_def IsoTp_OnCanFrame_def Let_def s1_def s2_def split: if_splits)
    moreover have "isotp_channel s2 = ch1" using s1 by (simp add: s2_def)
    moreover have "\<not> carries_data (frame_data f1)" using kept(2) [OF True] by (simp add: carries_data_def)
    ultimately show ?thesis using assms(1) resp kept inv responding_kept [OF st(2) kept_cancel(1) [OF kept(1)] inv_cancel(1) [OF inv]]
      by (cases rule: send_frame_cases [OF st(1) _ sent]) (simp_all add: sending_def True)
  qed
qed


lemma poll_core:
  assumes run: "CAN_IsoTp_Process send now s t = (r, s', t')"
    and core: "IsoTp_Process_body (isotp_channel s) now can_isotp_frame = (r1, ch1, f1)"
  obtains "r1 \<noteq> ISOTP_RESULT_FRAME_READY" "isotp_channel s' = ch1" "t' = t"
  | s2 r2 s3 where "r1 = ISOTP_RESULT_FRAME_READY" "isotp_channel s2 = ch1"
    "CAN_IsoTp_SendFrame send f1 False s2 t = (r2, s3, t')" "isotp_channel s' = isotp_channel s3"
proof (cases "r1 = ISOTP_RESULT_FRAME_READY")
  case False
  then have "isotp_channel s' = ch1 \<and> t' = t" using run core
    by (auto simp: CAN_IsoTp_Process_def IsoTp_Process_def Let_def CAN_IsoTp_RecordCoreError_def
        can_isotp_note_aborts_def split: if_splits IsoTp_Result.splits)
  with False that(1) show thesis by simp
next
  case True
  define s2 where "s2 = can_isotp_note_aborts (isotp_channel s) (ci_count (\<lambda>x. x\<lparr>last_core_result := r1\<rparr>) (s\<lparr>isotp_channel := ch1\<rparr>))"
  obtain r2 s3 t3 where sent: "CAN_IsoTp_SendFrame send f1 False s2 t = (r2, s3, t3)" by (metis prod.exhaust)
  have "isotp_channel s' = isotp_channel s3 \<and> t' = t3" using run core sent True
    by (auto simp: CAN_IsoTp_Process_def IsoTp_Process_def Let_def s2_def split: if_splits)
  moreover have "isotp_channel s2 = ch1" by (simp add: s2_def can_isotp_note_aborts_def Let_def)
  ultimately show thesis using True sent that(2) by blast
qed

lemma cancelled_responding:
  assumes "isotp_responding p n a" "isotp_inv b"
  shows "isotp_responding p n (the (IsoTp_CancelTransmit (Some b)))"
proof -
  have "tx_state (the (IsoTp_CancelTransmit (Some b))) = ISOTP_TX_IDLE" using assms(2)
    by (simp add: IsoTp_CancelTransmit_def isotp_inv_def IsoTp_ResetTransmitState_def)
  then show ?thesis using inv_cancel(2) [OF assms(2)] assms(1) by (simp add: isotp_responding_def)
qed

lemma poll_sending:
  assumes p: "length p \<le> 4095" and now: "sending base p n (s, t)" "CAN_IsoTp_Process send now s t = (r, s', t')"
  shows "\<exists>n'. sending base p n' (s', t')"
proof -
  have st: "sink_ok t" "isotp_responding p n (isotp_channel s)" "isotp_inv (isotp_channel s)"
    using now(1) by (simp_all add: sending_def isotp_responding_def)
  obtain r1 ch1 f1 where core: "IsoTp_Process_body (isotp_channel s) now can_isotp_frame = (r1, ch1, f1)" by (metis prod.exhaust)
  note inv = inv_Process [OF st(3) core]
  show ?thesis
  proof (cases rule: poll_core [OF now(2) core])
    case 1
    have "isotp_responding p n ch1" by (rule responding_kept [OF st(2) Process_kept [OF core 1(1)] inv])
    then show ?thesis using now(1) 1 by (intro exI [of _ n]) (simp add: sending_def)
  next
    case (2 s2 r2 s3)
    from Process_next [OF st(2) core [unfolded 2(1)]]
    have next_frame: "n < length (isotp_segment p)" "f1 = isotp_segment p ! n" "isotp_responding p (Suc n) ch1" by blast+
    then have f1: "length (frame_data f1) = 8" "carries_data (frame_data f1)" using segment_frames [OF p] by simp_all
    show ?thesis
    proof (cases rule: send_frame_cases [OF st(1) f1(1) 2(3)])
      case 1
      have "filter carries_data (frames t') = base @ take (Suc n) (map frame_data (isotp_segment p))"
        using 1 now(1) next_frame f1 by (simp add: sending_def take_Suc_conv_app_nth)
      then show ?thesis using 1 next_frame(3) 2 by (intro exI [of _ "Suc n"]) (simp add: sending_def)
    next
      case c: 2
      have "isotp_responding p n (isotp_channel s')" using cancelled_responding [OF st(2) inv] c 2 by simp
      then show ?thesis using c now(1) 2 by (intro exI [of _ n]) (simp add: sending_def)
    qed
  qed
qed

lemma step_sending:
  assumes "length p \<le> 4095" "sending base p n x" "\<not> can_isotp_responds c" "can_isotp_foreign foreign c"
  shows "\<exists>n'. sending base p n' (can_isotp_step send other c x)"
proof (cases c)
  case (Ci_Rx d dlc now)
  then show ?thesis using rx_sending assms(2) by (metis can_isotp_step.simps(1) prod.collapse)
next
  case (Ci_Poll now)
  then show ?thesis using poll_sending [OF assms(1)] assms(2) by (metis can_isotp_step.simps(2) prod.collapse)
next
  case Ci_Release
  have inv: "isotp_inv (isotp_channel (fst x))" "isotp_responding p n (isotp_channel (fst x))"
    using assms(2) by (simp_all add: sending_def isotp_responding_def)
  show ?thesis using responding_kept [OF inv(2) kept_cancel(3) inv_cancel(3) [OF inv(1)]] assms(2) Ci_Release
    by (cases x) (auto simp: sending_def CAN_IsoTp_ReleaseRequest_def)
next
  case (Ci_Other y)
  then show ?thesis using other_frames [of "snd x" y] assms(2,4) by (cases x) (auto simp: sending_def)
qed (use assms(3) in simp)

lemma steps_sending:
  "length p \<le> 4095 \<Longrightarrow> sending base p n x \<Longrightarrow> \<forall>c \<in> set cs. \<not> can_isotp_responds c \<and> can_isotp_foreign foreign c
    \<Longrightarrow> \<exists>n'. sending base p n' (fold (can_isotp_step send other) cs x)"
proof (induction cs arbitrary: n x)
  case (Cons c cs)
  obtain n' where "sending base p n' (can_isotp_step send other c x)" using step_sending [OF Cons.prems(1,2), of c] Cons.prems(3) by auto
  from Cons.IH [OF Cons.prems(1) this] show ?case using Cons.prems(3) by simp
qed auto

text \<open>Starting a response puts the first frame on the bus.\<close>

lemma respond_sending:
  assumes ok: "sink_ok t" "isotp_inv (isotp_channel s)" "unat len \<le> length payload"
    and run: "CAN_IsoTp_StartResponse send (Some payload) len now s t = (CAN_ISOTP_RESULT_OK, s', t')"
  shows "sending (filter carries_data (frames t)) (take (unat len) payload) 1 (s', t')" "unat len \<le> 4095"
proof -
  obtain r1 ch1 f1 where core: "IsoTp_StartTransmit_body (isotp_channel s) payload len now can_isotp_frame = (r1, ch1, f1)"
    by (metis prod.exhaust)
  have fr: "r1 = ISOTP_RESULT_FRAME_READY" using run core
    by (auto simp: CAN_IsoTp_StartResponse_def IsoTp_StartTransmit_def Let_def CAN_IsoTp_RecordCoreError_def
        split: if_splits IsoTp_Result.splits)
  define s2 where "s2 = ci_count (\<lambda>x. x\<lparr>tx_messages_started := tx_messages_started x + 1\<rparr>)
     (ci_count (\<lambda>x. x\<lparr>last_core_result := r1\<rparr>) (s\<lparr>isotp_channel := ch1\<rparr>))"
  obtain r2 s3 t3 where sent: "CAN_IsoTp_SendFrame send f1 False s2 t = (r2, s3, t3)" by (metis prod.exhaust)
  have s': "r2 = CAN_ISOTP_RESULT_OK" "isotp_channel s' = isotp_channel s3" "t' = t3" using run core sent fr
    by (auto simp: CAN_IsoTp_StartResponse_def IsoTp_StartTransmit_def Let_def s2_def split: if_splits)
  have s2: "isotp_channel s2 = ch1" by (simp add: s2_def)
  let ?p = "take (unat len) payload"
  note start = StartTransmit_responds [OF ok(2,3) core [unfolded fr]]
  have ne: "isotp_segment ?p \<noteq> []" by (simp add: isotp_segment_def)
  have f1: "length (frame_data f1) = 8" "carries_data (frame_data f1)"
    using segment_frames [OF start(1), of f1] start(2) ne by simp_all
  show "sending (filter carries_data (frames t)) ?p 1 (s', t')"
  proof (cases rule: send_frame_cases [OF ok(1) f1(1) sent])
    case 1
    have "take 1 (map frame_data (isotp_segment ?p)) = [frame_data f1]" using ne start(2) by (cases "isotp_segment ?p") simp_all
    then show ?thesis using 1 s' s2 start(3) f1 by (simp add: sending_def)
  qed (use s' in simp)
  show "unat len \<le> 4095" using start(1) ok(3) by simp
qed

lemma respond_inv:
  assumes ok: "sink_ok t" "isotp_inv (isotp_channel s)"
    and run: "CAN_IsoTp_StartResponse send d len now s t = (r, s', t')"
  shows "sink_ok t' \<and> isotp_inv (isotp_channel s')"
proof (cases "d")
  case None
  then show ?thesis using ok run by (auto simp: CAN_IsoTp_StartResponse_def IsoTp_StartTransmit_def Let_def CAN_IsoTp_RecordCoreError_def)
next
  case (Some payload)
  obtain r1 ch1 f1 where core: "IsoTp_StartTransmit_body (isotp_channel s) payload len now can_isotp_frame = (r1, ch1, f1)"
    by (metis prod.exhaust)
  note inv = inv_StartTransmit [OF ok(2) core]
  show ?thesis
  proof (cases "r1 = ISOTP_RESULT_FRAME_READY")
    case False
    then show ?thesis using run core inv ok Some
      by (auto simp: CAN_IsoTp_StartResponse_def IsoTp_StartTransmit_def Let_def CAN_IsoTp_RecordCoreError_def
          split: if_splits IsoTp_Result.splits)
  next
    case True
    define s2 where "s2 = ci_count (\<lambda>x. x\<lparr>tx_messages_started := tx_messages_started x + 1\<rparr>)
       (ci_count (\<lambda>x. x\<lparr>last_core_result := r1\<rparr>) (s\<lparr>isotp_channel := ch1\<rparr>))"
    obtain r2 s3 t3 where sent: "CAN_IsoTp_SendFrame send f1 False s2 t = (r2, s3, t3)" by (metis prod.exhaust)
    have s': "isotp_channel s' = isotp_channel s3" "t' = t3" using run core sent True Some
      by (auto simp: CAN_IsoTp_StartResponse_def IsoTp_StartTransmit_def Let_def s2_def split: if_splits)
    have s2: "isotp_channel s2 = ch1" by (simp add: s2_def)
    have len8: "length (frame_data f1) = 8" using core True
      by (auto simp: IsoTp_StartTransmit_body_def Let_def IsoTp_ClearFrame_def split: if_splits)
    show ?thesis
      by (cases rule: send_frame_cases [OF ok(1) len8 sent]) (simp_all add: s' s2 inv inv_cancel(2))
  qed
qed


definition ready :: "CAN_IsoTp \<times> 't \<Rightarrow> bool" where
  "ready x \<longleftrightarrow> sink_ok (snd x) \<and> isotp_inv (isotp_channel (fst x))"

lemma send_ready:
  assumes "ready (s, t)" "length (frame_data f) = 8" "CAN_IsoTp_SendFrame send f b s t = (r, s', t')"
  shows "ready (s', t')"
proof -
  have ok: "sink_ok t" "isotp_inv (isotp_channel s)" using assms(1) by (simp_all add: ready_def)
  show ?thesis
    by (cases rule: send_frame_cases [OF ok(1) assms(2,3)]) (simp_all add: ready_def ok(2) inv_cancel)
qed

lemma rx_ready:
  assumes "ready (s, t)" "CAN_IsoTp_OnCanFrame send d dlc now s t = (r, s', t')"
  shows "ready (s', t')"
proof (cases "d = None \<or> dlc = 0 \<or> 8 < dlc")
  case True
  then show ?thesis using assms by (auto simp: CAN_IsoTp_OnCanFrame_def split: option.splits)
next
  case False
  then obtain bs where d: "d = Some bs" by auto
  obtain r1 ch1 f1 where core: "IsoTp_OnCanFrame_body (isotp_channel s)
      \<lparr>frame_data = copy_bytes (unat dlc) (replicate 8 0) 0 bs 0, frame_dlc = dlc\<rparr> now can_isotp_frame = (r1, ch1, f1)"
    by (metis prod.exhaust)
  have st: "sink_ok t" "isotp_inv (isotp_channel s)" using assms(1) by (simp_all add: ready_def)
  note kept = OnCanFrame_kept [OF core] and inv = inv_OnCanFrame [OF st(2) core]
  define s1 where "s1 = can_isotp_note_aborts (isotp_channel s) (ci_count (\<lambda>x. x\<lparr>last_core_result := r1\<rparr>)
      ((ci_count (\<lambda>x. x\<lparr>rx_frames := rx_frames x + 1\<rparr>) s)\<lparr>isotp_channel := ch1\<rparr>))"
  have s1: "isotp_channel s1 = ch1" by (simp add: s1_def can_isotp_note_aborts_def Let_def)
  show ?thesis
  proof (cases "r1 = ISOTP_RESULT_FRAME_READY \<or> r1 = ISOTP_RESULT_RECEIVE_OVERFLOW")
    case no: False
    have "isotp_channel s' = ch1 \<and> t' = t" using assms(2) d core no False
      by (auto simp: CAN_IsoTp_OnCanFrame_def IsoTp_OnCanFrame_def Let_def CAN_IsoTp_RecordCoreError_def
          can_isotp_note_aborts_def split: if_splits IsoTp_Result.splits)
    then show ?thesis using st(1) inv by (simp add: ready_def)
  next
    case True
    define s2 where "s2 = (if r1 = ISOTP_RESULT_RECEIVE_OVERFLOW then ci_count (\<lambda>x. x\<lparr>rx_overflows := rx_overflows x + 1\<rparr>) s1 else s1)"
    obtain r2 s3 t3 where sent: "CAN_IsoTp_SendFrame send f1 True s2 t = (r2, s3, t3)" by (metis prod.exhaust)
    have "s' = s3 \<and> t' = t3" using assms(2) d core sent True False
      by (auto simp: CAN_IsoTp_OnCanFrame_def IsoTp_OnCanFrame_def Let_def s1_def s2_def split: if_splits)
    moreover have "ready (s2, t)" using s1 st(1) inv by (simp add: s2_def ready_def)
    ultimately show ?thesis using send_ready [OF _ _ sent] kept(2) [OF True] by simp
  qed
qed

lemma poll_ready:
  assumes "ready (s, t)" "CAN_IsoTp_Process send now s t = (r, s', t')"
  shows "ready (s', t')"
proof -
  obtain r1 ch1 f1 where core: "IsoTp_Process_body (isotp_channel s) now can_isotp_frame = (r1, ch1, f1)" by (metis prod.exhaust)
  have st: "sink_ok t" "isotp_inv (isotp_channel s)" using assms(1) by (simp_all add: ready_def)
  note inv = inv_Process [OF st(2) core]
  show ?thesis
  proof (cases rule: poll_core [OF assms(2) core])
    case 1
    then show ?thesis using st(1) inv by (simp add: ready_def)
  next
    case (2 s2 r2 s3)
    have "length (frame_data f1) = 8" using core 2(1)
      by (auto simp: IsoTp_Process_body_def Let_def IsoTp_ClearFrame_def split: if_splits)
    from send_ready [OF _ this 2(3)] show ?thesis using 2 st(1) inv by (simp add: ready_def)
  qed
qed

lemma step_ready:
  assumes "can_isotp_foreign foreign c"
  shows "ready x \<Longrightarrow> ready (can_isotp_step send other c x)"
proof (cases c)
  case (Ci_Rx d dlc now)
  then show "ready x \<Longrightarrow> ?thesis" using rx_ready by (metis can_isotp_step.simps(1) prod.collapse)
next
  case (Ci_Poll now)
  then show "ready x \<Longrightarrow> ?thesis" using poll_ready by (metis can_isotp_step.simps(2) prod.collapse)
next
  case Ci_Release
  then show "ready x \<Longrightarrow> ?thesis" using inv_cancel(3) by (cases x) (auto simp: ready_def CAN_IsoTp_ReleaseRequest_def)
next
  case (Ci_Respond d len now)
  show "ready x \<Longrightarrow> ?thesis"
  proof -
    assume "ready x"
    moreover obtain s t where x: "x = (s, t)" by (cases x)
    moreover obtain r s' t' where "CAN_IsoTp_StartResponse send d len now s t = (r, s', t')" by (metis prod.exhaust)
    ultimately show ?thesis using respond_inv [of t s d len now r s' t'] Ci_Respond by (simp add: ready_def)
  qed
next
  case (Ci_Other y)
  then show "ready x \<Longrightarrow> ?thesis" using other_frames [of "snd x" y] assms by (cases x) (auto simp: ready_def)
qed

lemma steps_ready: "ready x \<Longrightarrow> \<forall>c \<in> set cs. can_isotp_foreign foreign c \<Longrightarrow> ready (fold (can_isotp_step send other) cs x)"
  by (induction cs arbitrary: x) (simp_all add: step_ready)

text \<open>The frames a response has on the bus after any further calls but another response.\<close>

lemma response_frames:
  assumes "ready (s0, t0)"
    and "CAN_IsoTp_StartResponse send (Some payload) len now s0 t0 = (CAN_ISOTP_RESULT_OK, s1, t1)"
    and "unat len \<le> length payload" "\<forall>c \<in> set cs. \<not> can_isotp_responds c \<and> can_isotp_foreign foreign c"
    and "fold (can_isotp_step send other) cs (s1, t1) = (s2, t2)"
  shows "\<exists>n \<le> length (isotp_segment (take (unat len) payload)).
    filter carries_data (frames t2) = filter carries_data (frames t0)
      @ map frame_data (take n (isotp_segment (take (unat len) payload)))
    \<and> (tx_state (isotp_channel s2) = ISOTP_TX_COMPLETE \<longrightarrow> n = length (isotp_segment (take (unat len) payload)))"
proof -
  have ok: "sink_ok t0" "isotp_inv (isotp_channel s0)" using assms(1) by (simp_all add: ready_def)
  note start = respond_sending [OF ok assms(3,2)]
  have "length (take (unat len) payload) \<le> 4095" using start(2) by simp
  from steps_sending [OF this start(1) assms(4)] obtain n
    where "sending (filter carries_data (frames t0)) (take (unat len) payload) n (s2, t2)" using assms(5) by auto
  then show ?thesis by (intro exI [of _ n]) (auto simp: sending_def isotp_responding_def take_map)
qed

end

text \<open>The channel and the transport after the initialisation at start.\<close>

abbreviation can_started :: "fdcan_handle \<Rightarrow> 'w \<Rightarrow> CAN_IsoTp \<times> CAN_Transport \<times> 'w \<times> (FDCAN_TxHeader \<times> bytes) list" where
  "can_started h w \<equiv> (CAN_IsoTp_Init can_isotp_static, CAN_Transport_Init (Some h) can_transport_static, w, [])"

lemma can_started_ready: "diag.ready (can_started h w)"
proof -
  have "isotp_inv (isotp_channel (CAN_IsoTp_Init can_isotp_static))"
    by (simp add: CAN_IsoTp_Init_def IsoTp_Init_def can_isotp_static_def can_isotp_consts isotp_inv_def
        isotp_config_ok_def isotp_rx_inv_def isotp_tx_inv_def IsoTp_DecodeStMin_def)
  moreover have "diag_ok (CAN_Transport_Init (Some h) can_transport_static, w, [])"
    by (simp add: diag_ok_def can_inv_def can_queue_ok_def can_pending_def can_ordered_def
        CAN_Transport_Init_def can_transport_static_def)
  ultimately show ?thesis by (simp add: diag.ready_def)
qed

text \<open>
  C20. Provided that no other user of the bus sends under the diagnostic response identifier 0x7E8: whatever
  happened on the diagnostic channel and on the bus before, a response that was
  accepted puts the ISO 15765-2 frames of its payload on the bus, each once and in order, with
  no frame of another message between them: after any further frames from the tester, polls and
  calls of other users of the bus, the data frames on the diagnostic identifier are the earlier
  ones and then the first frames of the segmentation, all of them once the channel is complete. The
  transport itself does not reserve the identifier, so that the condition on the other users is needed.
\<close>

theorem can_response_frames:
  assumes "\<forall>c \<in> set (before @ calls). can_isotp_foreign diag_foreign c"
    and "fold (can_isotp_step (diag_send hal) (diag_other hal)) before (can_started h w) = (s0, t0)"
    and "CAN_IsoTp_StartResponse (diag_send hal) (Some payload) len now s0 t0 = (CAN_ISOTP_RESULT_OK, s1, t1)"
    and "unat len \<le> length payload"
    and "\<forall>c \<in> set calls. \<not> can_isotp_responds c"
    and "fold (can_isotp_step (diag_send hal) (diag_other hal)) calls (s1, t1) = (s2, t2)"
  shows "\<exists>n \<le> length (isotp_segment (take (unat len) payload)).
    filter carries_data (diag_frames t2) = filter carries_data (diag_frames t0)
      @ map frame_data (take n (isotp_segment (take (unat len) payload)))
    \<and> (tx_state (isotp_channel s2) = ISOTP_TX_COMPLETE \<longrightarrow> n = length (isotp_segment (take (unat len) payload)))"
proof (rule diag.response_frames [OF _ assms(3,4) _ assms(6)])
  show "diag.ready (s0, t0)"
    using diag.steps_ready [OF can_started_ready, of before hal h w] assms(1,2) by simp
  show "\<forall>c \<in> set calls. \<not> can_isotp_responds c \<and> can_isotp_foreign diag_foreign c" using assms(1,5) by simp
qed

text \<open>A tester that reads twelve bytes: the peripheral is free, one flow control frame arrives.\<close>

definition demo_response :: bytes where
  "demo_response = [0x62, 0xF1, 0x90, 1, 2, 3, 4, 5, 6, 7, 8, 9]"

definition demo_tester_calls :: "can_call can_isotp_call list" where
  "demo_tester_calls = [Ci_Rx (Some [0x30, 0, 0, 0, 0, 0, 0, 0]) 8 200, Ci_Poll 300]"

lemma send_open:
  assumes "can_handle s = Some 1" "tx_queue_count s = 0"
  shows "\<exists>s' w' l'. diag_send demo_open_hal CAN_PROTOCOL_DIAGNOSTIC_RESPONSE_TX_ID CAN_TRANSPORT_ID_STANDARD (Some d) (s, w, l)
     = (CAN_TRANSPORT_OK, s', w', l') \<and> can_handle s' = Some 1 \<and> tx_queue_count s' = 0"
  using assms
  by (simp add: diag_send_def CAN_Transport_SendClassicHighPriority_def CAN_Transport_SendClassicInternal_def Let_def
      CAN_Transport_TryHardwareSend_def demo_open_hal_def can_logged_def CAN_Transport_UpdateQueueHealth_def
      CAN_PROTOCOL_DIAGNOSTIC_RESPONSE_TX_ID_def)

lemma demo_respond:
  "\<exists>s1 t1 s2 t2. CAN_IsoTp_StartResponse (diag_send demo_open_hal) (Some demo_response) 12 100
       (CAN_IsoTp_Init can_isotp_static) (CAN_Transport_Init (Some 1) can_transport_static, 0, []) = (CAN_ISOTP_RESULT_OK, s1, t1)
   \<and> fold (can_isotp_step (diag_send demo_open_hal) (diag_other demo_open_hal)) demo_tester_calls (s1, t1) = (s2, t2)
   \<and> tx_state (isotp_channel s2) = ISOTP_TX_COMPLETE"
proof -
  let ?s = "CAN_IsoTp_Init can_isotp_static" and ?c = "CAN_Transport_Init (Some 1) can_transport_static"
  define send where "send = diag_send demo_open_hal"
  have open_send: "\<exists>s' w' l'. send CAN_PROTOCOL_DIAGNOSTIC_RESPONSE_TX_ID CAN_TRANSPORT_ID_STANDARD (Some d) (c, w, l)
     = (CAN_TRANSPORT_OK, s', w', l') \<and> can_handle s' = Some 1 \<and> tx_queue_count s' = 0"
    if "can_handle c = Some 1" "tx_queue_count c = 0" for c d w l unfolding send_def by (rule send_open [OF that])
  have c: "can_handle ?c = Some 1" "tx_queue_count ?c = 0" by (simp_all add: CAN_Transport_Init_def)
  have cfg: "ch_config (isotp_channel ?s) = \<lparr>rx_buffer_capacity = 512, tx_buffer_capacity = 512,
      flow_control_timeout_us = 1000000, consecutive_frame_timeout_us = 1000000, rx_block_size = 8, rx_st_min = 5, max_wait_frames = 1\<rparr>"
    and st: "tx_state (isotp_channel ?s) = ISOTP_TX_IDLE" "rx_state (isotp_channel ?s) = ISOTP_RX_IDLE"
    "ch_initialized (isotp_channel ?s)"
    by (simp_all add: CAN_IsoTp_Init_def IsoTp_Init_def can_isotp_consts IsoTp_DecodeStMin_def)
  obtain ch1 f1 where a: "IsoTp_StartTransmit_body (isotp_channel ?s) demo_response 12 100 can_isotp_frame = (ISOTP_RESULT_FRAME_READY, ch1, f1)"
    "tx_state ch1 = ISOTP_TX_WAIT_FLOW_CONTROL" "tx_deadline_us ch1 = 1000100" "rx_state ch1 = ISOTP_RX_IDLE" "ch_initialized ch1"
    "tx_offset ch1 = 6" "tx_length ch1 = 12"
    using st cfg by (auto simp: IsoTp_StartTransmit_body_def Let_def)
  obtain c1 w1 l1 where s1: "send CAN_PROTOCOL_DIAGNOSTIC_RESPONSE_TX_ID CAN_TRANSPORT_ID_STANDARD (Some (frame_data f1)) (?c, 0, [])
      = (CAN_TRANSPORT_OK, c1, w1, l1)" and c1: "can_handle c1 = Some 1" "tx_queue_count c1 = 0" using open_send [OF c] by blast
  obtain x1 where r1: "CAN_IsoTp_StartResponse send (Some demo_response) 12 100 ?s (?c, 0, []) = (CAN_ISOTP_RESULT_OK, x1, c1, w1, l1)"
    and x1: "isotp_channel x1 = ch1"
    using a s1 by (auto simp: CAN_IsoTp_StartResponse_def IsoTp_StartTransmit_def Let_def CAN_IsoTp_SendFrame_def IsoTp_IsTransmitComplete_def)
  let ?f = "\<lparr>frame_data = copy_bytes 8 (replicate 8 0) 0 [0x30, 0, 0, 0, 0, 0, 0, 0] 0, frame_dlc = 8\<rparr> :: IsoTp_CanFrame"
  have d: "copy_bytes 8 (replicate 8 0) 0 [0x30, 0, 0, 0, 0, 0, 0, 0] 0 = ([0x30, 0, 0, 0, 0, 0, 0, 0] :: bytes)" by code_simp
  obtain ch2 where b: "IsoTp_OnCanFrame_body ch1 ?f 200 can_isotp_frame = (ISOTP_RESULT_OK, ch2, can_isotp_frame)"
    "tx_state ch2 = ISOTP_TX_SEND_CONSECUTIVE" "tx_deadline_us ch2 = 200" "rx_state ch2 = ISOTP_RX_IDLE" "ch_initialized ch2"
    "tx_offset ch2 = 6" "tx_length ch2 = 12"
    using a(2-) by (auto simp: IsoTp_OnCanFrame_body_def IsoTp_ReceiveFlowControl_def Let_def d IsoTp_DeadlineReached_def IsoTp_DecodeStMin_def)
  obtain x2 where r2: "CAN_IsoTp_OnCanFrame send (Some [0x30, 0, 0, 0, 0, 0, 0, 0]) 8 200 x1 (c1, w1, l1) = (CAN_ISOTP_RESULT_OK, x2, c1, w1, l1)"
    and x2: "isotp_channel x2 = ch2"
    using b x1 a by (auto simp: CAN_IsoTp_OnCanFrame_def IsoTp_OnCanFrame_def Let_def can_isotp_note_aborts_def)
  obtain ch3 f3 where e: "IsoTp_Process_body ch2 300 can_isotp_frame = (ISOTP_RESULT_FRAME_READY, ch3, f3)" "tx_state ch3 = ISOTP_TX_COMPLETE"
    using b by (auto simp: IsoTp_Process_body_def Let_def IsoTp_DeadlineReached_def)
  obtain c3 w3 l3 where s3: "send CAN_PROTOCOL_DIAGNOSTIC_RESPONSE_TX_ID CAN_TRANSPORT_ID_STANDARD (Some (frame_data f3)) (c1, w1, l1)
      = (CAN_TRANSPORT_OK, c3, w3, l3)" using open_send [OF c1] by blast
  obtain x3 where r3: "CAN_IsoTp_Process send 300 x2 (c1, w1, l1) = (CAN_ISOTP_RESULT_OK, x3, c3, w3, l3)" "isotp_channel x3 = ch3"
    using e s3 x2 b by (auto simp: CAN_IsoTp_Process_def IsoTp_Process_def Let_def can_isotp_note_aborts_def CAN_IsoTp_SendFrame_def)
  show ?thesis using r1 r2 r3 e(2) by (auto simp: demo_tester_calls_def send_def)
qed

theorem can_response_frames_witness:
  "\<exists>s1 t1 t2. CAN_IsoTp_StartResponse (diag_send demo_open_hal) (Some demo_response) 12 100
       (CAN_IsoTp_Init can_isotp_static) (CAN_Transport_Init (Some 1) can_transport_static, 0, []) = (CAN_ISOTP_RESULT_OK, s1, t1)
   \<and> snd (fold (can_isotp_step (diag_send demo_open_hal) (diag_other demo_open_hal)) demo_tester_calls (s1, t1)) = t2
   \<and> filter carries_data (diag_frames t2) = map frame_data (isotp_segment demo_response)"
proof -
  obtain s1 t1 s2 t2 where run: "CAN_IsoTp_StartResponse (diag_send demo_open_hal) (Some demo_response) 12 100
       (CAN_IsoTp_Init can_isotp_static) (CAN_Transport_Init (Some 1) can_transport_static, 0, []) = (CAN_ISOTP_RESULT_OK, s1, t1)"
    "fold (can_isotp_step (diag_send demo_open_hal) (diag_other demo_open_hal)) demo_tester_calls (s1, t1) = (s2, t2)"
    "tx_state (isotp_channel s2) = ISOTP_TX_COMPLETE" using demo_respond by blast
  let ?p = "take (unat (12 :: u16)) demo_response"
  have "\<exists>n \<le> length (isotp_segment ?p).
    filter carries_data (diag_frames t2) = filter carries_data (diag_frames (CAN_Transport_Init (Some 1) can_transport_static, 0 :: nat, []))
      @ map frame_data (take n (isotp_segment ?p))
    \<and> (tx_state (isotp_channel s2) = ISOTP_TX_COMPLETE \<longrightarrow> n = length (isotp_segment ?p))"
    by (rule can_response_frames [of "[]" _ demo_open_hal 1 0, OF _ _ run(1) _ _ run(2)])
      (simp_all add: demo_response_def demo_tester_calls_def)
  moreover have "?p = demo_response" by (simp add: demo_response_def)
  ultimately have "filter carries_data (diag_frames t2) = map frame_data (isotp_segment demo_response)"
    using run(3) by (auto simp: diag_frames_def can_pending_def CAN_Transport_Init_def)
  with run(1,2) show ?thesis by (metis snd_conv)
qed

end
