(* ===== verification/AppLog.thy ===== *)
theory AppLog
  imports Prelude
begin

text \<open>
  The event log of \<open>src/Core/Src/app_log.c\<close>: a ring of 64 records of 32 bytes in retained memory. A
  slot is the union of the C code: eight 32-bit words, of which \<open>app_log_record\<close> is the view as a
  record and \<open>app_log_words\<close> its inverse (little endian, in the order of the fields). The file's
  static variables are the record \<open>App_Log\<close>. The enabling of the backup domain is the argument
  \<open>storage_ready\<close> of the initialisation, the tick an argument of the writing; the interrupt lock
  and the cache maintenance have no counterpart.
\<close>

section \<open>Data\<close>

definition APP_LOG_RAM_CAPACITY :: u32 where "APP_LOG_RAM_CAPACITY = 64"
definition APP_LOG_RECORD_MAGIC :: u32 where "APP_LOG_RECORD_MAGIC = 0x4C4F4731"
definition APP_LOG_COMMIT_MARKER :: u16 where "APP_LOG_COMMIT_MARKER = 0xA55A"
definition APP_LOG_SOURCE_PWM :: u32 where "APP_LOG_SOURCE_PWM = 5"
definition APP_LOG_SEVERITY_FAULT :: u32 where "APP_LOG_SEVERITY_FAULT = 2"

record App_Log_Record =
  magic :: u32
  sequence :: u32
  uptime_ms :: u32
  rtc_epoch_s :: u32
  event_code :: u16
  source :: u8
  severity :: u8
  data_0 :: u32
  data_1 :: u32
  crc16 :: u16
  commit_marker :: u16

type_synonym App_Log_StorageSlot = "u32 list"

definition app_log_record :: "App_Log_StorageSlot \<Rightarrow> App_Log_Record" where
  "app_log_record w = \<lparr>magic = w ! 0, sequence = w ! 1, uptime_ms = w ! 2, rtc_epoch_s = w ! 3,
     event_code = ucast (w ! 4), source = ucast (drop_bit 16 (w ! 4)), severity = ucast (drop_bit 24 (w ! 4)),
     data_0 = w ! 5, data_1 = w ! 6, crc16 = ucast (w ! 7), commit_marker = ucast (drop_bit 16 (w ! 7))\<rparr>"

definition app_log_words :: "App_Log_Record \<Rightarrow> App_Log_StorageSlot" where
  "app_log_words r = [magic r, sequence r, uptime_ms r, rtc_epoch_s r,
     ucast (event_code r) OR push_bit 16 (ucast (source r)) OR push_bit 24 (ucast (severity r)),
     data_0 r, data_1 r, ucast (crc16 r) OR push_bit 16 (ucast (commit_marker r))]"

text \<open>The bytes of a record, as the code reads them through a byte pointer.\<close>

definition app_log_bytes :: "App_Log_Record \<Rightarrow> bytes" where
  "app_log_bytes r = concat (map (\<lambda>w. [ucast w, ucast (drop_bit 8 w), ucast (drop_bit 16 w), ucast (drop_bit 24 w)])
     (app_log_words r))"

record App_Log_Debug =
  write_count :: u32
  overwrite_count :: u32
  rejected_count :: u32
  dbg_next_sequence :: u32
  last_sequence :: u32
  dbg_count :: u16
  head_index :: u16
  tail_index :: u16
  last_event_code :: u16
  recovered_count :: u16
  invalid_retained_count :: u16
  storage_ready :: bool

record App_Log_Info =
  info_write_count :: u32
  info_overwrite_count :: u32
  oldest_sequence :: u32
  latest_sequence :: u32
  info_count :: u16
  capacity :: u16
  record_size :: u16

record App_Log =
  g_appLogRecords :: "App_Log_StorageSlot list"
  g_appLogDebug :: App_Log_Debug
  app_log_head_index :: u16
  app_log_tail_index :: u16
  app_log_count :: u16
  app_log_next_sequence :: u32

definition app_log_debug_zero :: App_Log_Debug where
  "app_log_debug_zero = \<lparr>write_count = 0, overwrite_count = 0, rejected_count = 0, dbg_next_sequence = 0,
     last_sequence = 0, dbg_count = 0, head_index = 0, tail_index = 0, last_event_code = 0,
     recovered_count = 0, invalid_retained_count = 0, storage_ready = False\<rparr>"

section \<open>Operations\<close>

definition app_log_crc16_bit :: "u16 \<Rightarrow> u16" where
  "app_log_crc16_bit crc = (if crc AND 0x8000 \<noteq> 0 then push_bit 1 crc XOR 0x1021 else push_bit 1 crc)"

definition app_log_crc16_byte :: "u8 \<Rightarrow> u16 \<Rightarrow> u16" where
  "app_log_crc16_byte b crc = (app_log_crc16_bit ^^ 8) (crc XOR push_bit 8 (ucast b))"

definition App_Log_CalculateCrc16 :: "bytes \<Rightarrow> nat \<Rightarrow> u16" where
  "App_Log_CalculateCrc16 data n = fold (\<lambda>i. app_log_crc16_byte (data ! i)) [0..<n] 0xFFFF"

definition App_Log_IsInputValid :: "u32 \<Rightarrow> u32 \<Rightarrow> bool" where
  "App_Log_IsInputValid src sev = (if src > APP_LOG_SOURCE_PWM then False
     else if sev > APP_LOG_SEVERITY_FAULT then False else True)"

definition App_Log_UpdateDebugAfterWrite :: "App_Log_Record \<Rightarrow> App_Log \<Rightarrow> App_Log" where
  "App_Log_UpdateDebugAfterWrite r s = s\<lparr>g_appLogDebug := (g_appLogDebug s)\<lparr>
     write_count := write_count (g_appLogDebug s) + 1,
     dbg_next_sequence := app_log_next_sequence s, last_sequence := sequence r,
     dbg_count := app_log_count s, head_index := app_log_head_index s,
     tail_index := app_log_tail_index s, last_event_code := event_code r\<rparr>\<rparr>"

definition App_Log_IsSequenceNewer :: "u32 \<Rightarrow> u32 \<Rightarrow> bool" where
  "App_Log_IsSequenceNewer candidate reference = (sint (candidate - reference) > 0)"

definition App_Log_PreviousSequence :: "u32 \<Rightarrow> u32" where
  "App_Log_PreviousSequence s = (if s = 1 then 0xFFFFFFFF else s - 1)"

definition App_Log_ClearRetainedStorage :: "App_Log \<Rightarrow> App_Log" where
  "App_Log_ClearRetainedStorage s = s\<lparr>g_appLogRecords :=
     fold (\<lambda>slot rs. rs[slot := fold (\<lambda>w ws. ws[w := 0]) [0..<8] (rs ! slot)]) [0..<64] (g_appLogRecords s)\<rparr>"

text \<open>The stores of a commit in their order: the last word is cleared first and written last.\<close>

definition app_log_commit_stores :: "App_Log_Record \<Rightarrow> (nat \<times> u32) list" where
  "app_log_commit_stores r = (7, 0) # map (\<lambda>w. (w, app_log_words r ! w)) [0..<7] @ [(7, app_log_words r ! 7)]"

definition app_log_store :: "(nat \<times> u32) list \<Rightarrow> u16 \<Rightarrow> App_Log \<Rightarrow> App_Log" where
  "app_log_store stores index s = s\<lparr>g_appLogRecords := (g_appLogRecords s)
     [unat index := fold (\<lambda>(w, v) ws. ws[w := v]) stores (g_appLogRecords s ! unat index)]\<rparr>"

definition App_Log_CommitRecord :: "u16 \<Rightarrow> App_Log_Record \<Rightarrow> App_Log \<Rightarrow> App_Log" where
  "App_Log_CommitRecord index r = app_log_store (app_log_commit_stores r) index"

definition App_Log_IsRecordValid :: "App_Log_Record option \<Rightarrow> bool" where
  "App_Log_IsRecordValid r = (case r of None \<Rightarrow> False | Some r \<Rightarrow>
     if magic r \<noteq> APP_LOG_RECORD_MAGIC \<or> commit_marker r \<noteq> APP_LOG_COMMIT_MARKER then False
     else App_Log_CalculateCrc16 (app_log_bytes r) 28 = crc16 r)"

definition app_log_slot :: "App_Log \<Rightarrow> u16 \<Rightarrow> App_Log_Record" where
  "app_log_slot s index = app_log_record (g_appLogRecords s ! unat index)"

text \<open>Indices are computed in 32 bits and stored in 16.\<close>

definition app_log_wrap :: "u32 \<Rightarrow> u16" where
  "app_log_wrap x = ucast (x mod APP_LOG_RAM_CAPACITY)"

text \<open>The scan of the recovery: the newest valid record and the number of damaged ones.\<close>

definition app_log_scan_step :: "App_Log \<Rightarrow> u16 \<Rightarrow> u16 \<times> u32 \<times> bool \<times> u16 \<Rightarrow> u16 \<times> u32 \<times> bool \<times> u16" where
  "app_log_scan_step s index = (\<lambda>(newest_index, newest_sequence, found, invalid_count).
     if \<not> App_Log_IsRecordValid (Some (app_log_slot s index)) then
       (newest_index, newest_sequence, found,
        if commit_marker (app_log_slot s index) = APP_LOG_COMMIT_MARKER then invalid_count + 1 else invalid_count)
     else if \<not> found \<or> App_Log_IsSequenceNewer (sequence (app_log_slot s index)) newest_sequence then
       (index, sequence (app_log_slot s index), True, invalid_count)
     else (newest_index, newest_sequence, found, invalid_count))"

definition app_log_scan :: "App_Log \<Rightarrow> u16 \<times> u32 \<times> bool \<times> u16" where
  "app_log_scan s = fold (\<lambda>i. app_log_scan_step s (word_of_nat i)) [0..<64] (0, 0, False, 0)"

text \<open>The walk back from the newest record as long as the sequence continues; \<open>n\<close> slots are left.\<close>

fun app_log_walk :: "nat \<Rightarrow> App_Log \<Rightarrow> u16 \<Rightarrow> u32 \<Rightarrow> u16 \<Rightarrow> u16" where
  "app_log_walk 0 s index expected_sequence recovered = recovered"
| "app_log_walk (Suc n) s index expected_sequence recovered =
    (if App_Log_IsRecordValid (Some (app_log_slot s index)) \<and> sequence (app_log_slot s index) = expected_sequence
     then app_log_walk n s (app_log_wrap (ucast index + APP_LOG_RAM_CAPACITY - 1))
       (App_Log_PreviousSequence expected_sequence) (recovered + 1)
     else recovered)"

definition App_Log_Recover :: "App_Log \<Rightarrow> App_Log" where
  "App_Log_Recover s = (case app_log_scan s of (newest_index, newest_sequence, found, invalid_count) \<Rightarrow>
    let (recovered, s) =
         (if \<not> found then
           (0, (App_Log_ClearRetainedStorage s)\<lparr>app_log_head_index := 0, app_log_tail_index := 0,
              app_log_count := 0, app_log_next_sequence := 1\<rparr>)
          else
           (let recovered = app_log_walk 64 s newest_index newest_sequence 0;
                head = app_log_wrap (ucast newest_index + 1)
            in (recovered, s\<lparr>app_log_count := recovered, app_log_head_index := head,
              app_log_tail_index := app_log_wrap (ucast head + APP_LOG_RAM_CAPACITY - ucast recovered),
              app_log_next_sequence := (if newest_sequence + 1 = 0 then 1 else newest_sequence + 1)\<rparr>)));
        s = s\<lparr>g_appLogDebug := (g_appLogDebug s)\<lparr>recovered_count := recovered,
          invalid_retained_count := invalid_count, write_count := ucast recovered,
          dbg_next_sequence := app_log_next_sequence s, dbg_count := app_log_count s,
          head_index := app_log_head_index s, tail_index := app_log_tail_index s\<rparr>\<rparr>
    in if found
       then s\<lparr>g_appLogDebug := (g_appLogDebug s)\<lparr>last_sequence := newest_sequence,
          last_event_code := event_code (app_log_slot s newest_index)\<rparr>\<rparr>
       else s)"

definition App_Log_Init :: "bool \<Rightarrow> App_Log \<Rightarrow> App_Log" where
  "App_Log_Init enabled s =
    (let s = s\<lparr>g_appLogDebug := app_log_debug_zero\<lparr>storage_ready := enabled\<rparr>\<rparr>
     in if storage_ready (g_appLogDebug s) then App_Log_Recover s
        else
         (let s = s\<lparr>app_log_head_index := 0, app_log_tail_index := 0, app_log_count := 0,
                app_log_next_sequence := 1\<rparr>
          in s\<lparr>g_appLogDebug := (g_appLogDebug s)\<lparr>dbg_next_sequence := app_log_next_sequence s\<rparr>\<rparr>))"

text \<open>The record that is written, with its check value and its marker.\<close>

definition app_log_new_record :: "u32 \<Rightarrow> u32 \<Rightarrow> u32 \<Rightarrow> u32 \<Rightarrow> u32 \<Rightarrow> u32 \<Rightarrow> u32 \<Rightarrow> u32 \<Rightarrow> App_Log_Record" where
  "app_log_new_record tick src sev code epoch d0 d1 seqno =
    (let r = \<lparr>magic = APP_LOG_RECORD_MAGIC, sequence = seqno, uptime_ms = tick, rtc_epoch_s = epoch,
           event_code = ucast code, source = ucast src, severity = ucast sev, data_0 = d0, data_1 = d1,
           crc16 = 0, commit_marker = 0\<rparr>;
         r = r\<lparr>crc16 := App_Log_CalculateCrc16 (app_log_bytes r) 28\<rparr>
     in r\<lparr>commit_marker := APP_LOG_COMMIT_MARKER\<rparr>)"

definition app_log_reject :: "App_Log \<Rightarrow> App_Log" where
  "app_log_reject s = s\<lparr>g_appLogDebug := (g_appLogDebug s)\<lparr>rejected_count := rejected_count (g_appLogDebug s) + 1\<rparr>\<rparr>"

definition App_Log_PushWithRtcTime :: "u32 \<Rightarrow> u32 \<Rightarrow> u32 \<Rightarrow> u32 \<Rightarrow> u32 \<Rightarrow> u32 \<Rightarrow> u32 \<Rightarrow> App_Log \<Rightarrow> bool \<times> App_Log" where
  "App_Log_PushWithRtcTime tick src sev code epoch d0 d1 s =
    (if \<not> App_Log_IsInputValid src sev then (False, app_log_reject s)
     else if \<not> storage_ready (g_appLogDebug s) then (False, app_log_reject s)
     else
      let r = app_log_new_record tick src sev code epoch d0 d1 (app_log_next_sequence s);
          s = s\<lparr>app_log_next_sequence := app_log_next_sequence s + 1\<rparr>;
          s = (if app_log_next_sequence s = 0 then s\<lparr>app_log_next_sequence := 1\<rparr> else s);
          s = App_Log_CommitRecord (app_log_head_index s) r s;
          s = s\<lparr>app_log_head_index := app_log_wrap (ucast (app_log_head_index s) + 1)\<rparr>;
          s = (if ucast (app_log_count s) < APP_LOG_RAM_CAPACITY
             then s\<lparr>app_log_count := app_log_count s + 1\<rparr>
             else s\<lparr>app_log_tail_index := app_log_wrap (ucast (app_log_tail_index s) + 1),
                g_appLogDebug := (g_appLogDebug s)\<lparr>overwrite_count := overwrite_count (g_appLogDebug s) + 1\<rparr>\<rparr>)
      in (True, App_Log_UpdateDebugAfterWrite r s))"

definition App_Log_Push :: "u32 \<Rightarrow> u32 \<Rightarrow> u32 \<Rightarrow> u32 \<Rightarrow> u32 \<Rightarrow> u32 \<Rightarrow> App_Log \<Rightarrow> bool \<times> App_Log" where
  "App_Log_Push tick src sev code d0 d1 = App_Log_PushWithRtcTime tick src sev code 0 d0 d1"

definition App_Log_GetCount :: "App_Log \<Rightarrow> u16" where
  "App_Log_GetCount s = app_log_count s"

text \<open>A reading operation returns the record it stores, \<open>None\<close> when it stores nothing.\<close>

definition App_Log_ReadOldest :: "u16 \<Rightarrow> App_Log \<Rightarrow> App_Log_Record option" where
  "App_Log_ReadOldest age_index s =
    (if age_index \<ge> app_log_count s then None
     else Some (app_log_slot s (app_log_wrap (ucast (app_log_tail_index s) + ucast age_index))))"

definition App_Log_ReadBySequence :: "u32 \<Rightarrow> App_Log \<Rightarrow> App_Log_Record option" where
  "App_Log_ReadBySequence seqno s =
    (if seqno = 0 then None
     else List.find (\<lambda>r. sequence r = seqno)
       (map (\<lambda>age. app_log_slot s (app_log_wrap (ucast (app_log_tail_index s) + word_of_nat age)))
         [0..<unat (app_log_count s)]))"

definition App_Log_GetLatest :: "App_Log \<Rightarrow> App_Log_Record option" where
  "App_Log_GetLatest s =
    (if app_log_count s = 0 then None
     else Some (app_log_slot s (app_log_wrap (ucast (app_log_head_index s) + APP_LOG_RAM_CAPACITY - 1))))"

definition App_Log_GetInfo :: "App_Log \<Rightarrow> App_Log_Info" where
  "App_Log_GetInfo s = \<lparr>info_write_count = write_count (g_appLogDebug s),
     info_overwrite_count = overwrite_count (g_appLogDebug s),
     oldest_sequence = (if app_log_count s = 0 then 0 else sequence (app_log_slot s (app_log_tail_index s))),
     latest_sequence = (if app_log_count s = 0 then 0
       else sequence (app_log_slot s (app_log_wrap (ucast (app_log_head_index s) + APP_LOG_RAM_CAPACITY - 1)))),
     info_count = app_log_count s, capacity = ucast APP_LOG_RAM_CAPACITY, record_size = 32\<rparr>"

definition App_Log_Clear :: "App_Log \<Rightarrow> App_Log" where
  "App_Log_Clear s =
    (let ready = storage_ready (g_appLogDebug s);
         s = s\<lparr>app_log_head_index := 0, app_log_tail_index := 0, app_log_count := 0, app_log_next_sequence := 1\<rparr>;
         s = (if ready then App_Log_ClearRetainedStorage s else s);
         s = s\<lparr>g_appLogDebug := app_log_debug_zero\<rparr>;
         s = s\<lparr>g_appLogDebug := (g_appLogDebug s)\<lparr>storage_ready := ready\<rparr>\<rparr>
     in s\<lparr>g_appLogDebug := (g_appLogDebug s)\<lparr>dbg_next_sequence := app_log_next_sequence s\<rparr>\<rparr>)"

end
