(* ===== verification/AppLogRecovery.thy ===== *)
theory AppLogRecovery
  imports AppLog
begin

text \<open>
  What the event log of \<open>app_log.c\<close> promises: the list of the newest 64 records, kept through resets and
  through a power loss at any store of a commit.
\<close>

section \<open>Records\<close>

lemma app_log_words_length [simp]: "length (app_log_words r) = 8"
  by (simp add: app_log_words_def)

lemma app_log_record_words [simp]: "app_log_record (app_log_words r) = r"
proof (rule App_Log_Record.equality)
  have a: "ucast (ucast (a :: u16) OR push_bit 16 (ucast (b :: u8)) OR push_bit 24 (ucast (c :: u8)) :: u32) = a" for a b c
    by (rule bit_word_eqI) (auto simp: bit_simps)
  have b: "ucast (drop_bit 16 (ucast (a :: u16) OR push_bit 16 (ucast (b :: u8)) OR push_bit 24 (ucast (c :: u8)) :: u32)) = b" for a b c
    by (rule bit_word_eqI) (auto simp: bit_simps dest: bit_imp_le_length)
  have c: "ucast (drop_bit 24 (ucast (a :: u16) OR push_bit 16 (ucast (b :: u8)) OR push_bit 24 (ucast (c :: u8)) :: u32)) = c" for a b c
    by (rule bit_word_eqI) (auto simp: bit_simps dest: bit_imp_le_length)
  have d: "ucast (ucast (a :: u16) OR push_bit 16 (ucast (b :: u16)) :: u32) = a" for a b
    by (rule bit_word_eqI) (auto simp: bit_simps)
  have e: "ucast (drop_bit 16 (ucast (a :: u16) OR push_bit 16 (ucast (b :: u16)) :: u32)) = b" for a b
    by (rule bit_word_eqI) (auto simp: bit_simps dest: bit_imp_le_length)
  show "event_code (app_log_record (app_log_words r)) = event_code r" "source (app_log_record (app_log_words r)) = source r"
    "severity (app_log_record (app_log_words r)) = severity r" "crc16 (app_log_record (app_log_words r)) = crc16 r"
    "commit_marker (app_log_record (app_log_words r)) = commit_marker r"
    by (simp_all add: app_log_record_def app_log_words_def a b c d e del: drop_bit_or)
qed (simp_all add: app_log_record_def app_log_words_def)

lemma crc16_cong: "(\<And>i. i < n \<Longrightarrow> d ! i = e ! i) \<Longrightarrow> App_Log_CalculateCrc16 d n = App_Log_CalculateCrc16 e n"
  unfolding App_Log_CalculateCrc16_def by (rule fold_cong) auto

abbreviation log_valid :: "App_Log_Record \<Rightarrow> bool" where
  "log_valid r \<equiv> App_Log_IsRecordValid (Some r)"

lemma new_record_valid: "log_valid (app_log_new_record tick src sev code epoch d0 d1 q)"
  by (auto simp: app_log_new_record_def Let_def App_Log_IsRecordValid_def app_log_bytes_def app_log_words_def
      nth_append nth_Cons' intro!: crc16_cong)

lemma new_record_sequence: "sequence (app_log_new_record tick src sev code epoch d0 d1 q) = q"
  by (simp add: app_log_new_record_def Let_def)

text \<open>A commit cut after \<open>k\<close> stores: untouched, unreadable, or complete.\<close>

lemma commit_cut:
  fixes r k
  assumes "length w = 8"
  defines "w' \<equiv> fold (\<lambda>(i, v) ws. ws[i := v]) (take k (app_log_commit_stores r)) w"
  shows "length w' = 8" "k = 0 \<Longrightarrow> w' = w" "0 < k \<Longrightarrow> k \<le> 8 \<Longrightarrow> \<not> log_valid (app_log_record w')"
    "9 \<le> k \<Longrightarrow> w' = app_log_words r"
proof -
  obtain a b c d e f g h where w: "w = [a, b, c, d, e, f, g, h]" using assms(1)
    by (auto simp: length_Suc_conv eval_nat_numeral)
  obtain a' b' c' d' e' f' g' h' where r: "app_log_words r = [a', b', c', d', e', f', g', h']"
    by (rule that) (rule app_log_words_def)
  have st: "app_log_commit_stores r = [(7, 0), (0, a'), (1, b'), (2, c'), (3, d'), (4, e'), (5, f'), (6, g'), (7, h')]"
    by (simp add: app_log_commit_stores_def r upt_rec)
  consider "k = 0" | "k \<in> {1, 2, 3, 4, 5, 6, 7, 8}" | "9 \<le> k" by fastforce
  then have "length w' = 8 \<and> (k = 0 \<longrightarrow> w' = w) \<and> (0 < k \<and> k \<le> 8 \<longrightarrow> \<not> log_valid (app_log_record w'))
    \<and> (9 \<le> k \<longrightarrow> w' = app_log_words r)"
  proof cases
    case 1
    then show ?thesis using assms(1) by (simp add: w'_def)
  next
    case 2
    then have "length w' = 8 \<and> w' ! 7 = 0" by (auto simp: w'_def w st)
    then show ?thesis using 2 by (auto simp: App_Log_IsRecordValid_def app_log_record_def APP_LOG_COMMIT_MARKER_def)
  next
    case 3
    then show ?thesis by (simp add: w'_def st w r)
  qed
  then show "length w' = 8" "k = 0 \<Longrightarrow> w' = w" "0 < k \<Longrightarrow> k \<le> 8 \<Longrightarrow> \<not> log_valid (app_log_record w')"
    "9 \<le> k \<Longrightarrow> w' = app_log_words r" by blast+
qed

section \<open>Sequence numbers\<close>

text \<open>The sequence wraps around and leaves out zero.\<close>

definition log_next :: "u32 \<Rightarrow> u32" where
  "log_next q = (if q + 1 = 0 then 1 else q + 1)"

lemma log_next_neq_0: "log_next q \<noteq> 0"
  by (simp add: log_next_def)

lemma log_nexts_neq_0: "q \<noteq> 0 \<Longrightarrow> (log_next ^^ n) q \<noteq> 0"
  by (cases n) (simp_all add: log_next_neq_0)

lemma previous_next: "q \<noteq> 0 \<Longrightarrow> App_Log_PreviousSequence (log_next q) = q"
proof (cases "q + 1 = 0")
  case True
  then have "q = 0xFFFFFFFF" by (simp add: eq_neg_iff_add_eq_0 [symmetric])
  then show ?thesis by (simp add: App_Log_PreviousSequence_def log_next_def)
qed (simp add: App_Log_PreviousSequence_def log_next_def)

lemma log_nexts_ahead:
  assumes "q \<noteq> 0" "n \<le> 64"
  shows "(log_next ^^ n) q = q + of_nat n \<or> (log_next ^^ n) q = q + of_nat n + 1 \<and> 1 \<le> n \<and> unat ((log_next ^^ n) q) \<le> n"
  using assms(2)
proof (induction n)
  case (Suc n)
  define x where "x = (log_next ^^ n) q"
  have step: "(log_next ^^ Suc n) q = log_next x" by (simp add: x_def)
  from Suc consider "x = q + of_nat n" | "x = q + of_nat n + 1" "1 \<le> n" "unat x \<le> n" by (auto simp: x_def)
  then show ?case
  proof cases
    case 1
    show ?thesis
    proof (cases "x + 1 = 0")
      case True
      then show ?thesis using 1 unfolding step by (simp add: log_next_def algebra_simps)
    next
      case False
      then show ?thesis using 1 unfolding step by (simp add: log_next_def algebra_simps)
    qed
  next
    case 2
    have u: "unat (x + 1) = unat x + 1" using 2(3) Suc.prems by (intro trans [OF unat_add_small]) simp_all
    then have "x + 1 \<noteq> 0" by (metis add_is_0 one_neq_zero unat_0)
    then show ?thesis using 2 u Suc.prems unfolding step by (simp add: log_next_def algebra_simps)
  qed
qed simp

lemma sequence_newer:
  assumes "q \<noteq> 0" "i < 64" "j < 64"
  shows "App_Log_IsSequenceNewer ((log_next ^^ j) q) ((log_next ^^ i) q) \<longleftrightarrow> i < j"
proof -
  have ahead: "\<exists>d. 1 \<le> d \<and> d \<le> 65 \<and> (log_next ^^ b) q - (log_next ^^ a) q = of_nat d" if "a < b" "b < 64" for a b
  proof -
    define p where "p = (log_next ^^ a) q"
    have "(log_next ^^ b) q = (log_next ^^ (b - a)) p" using that
      by (simp add: p_def funpow_add [symmetric, THEN fun_cong, simplified comp_def])
    moreover have "p \<noteq> 0" using log_nexts_neq_0 [OF assms(1)] by (simp add: p_def)
    ultimately have "(log_next ^^ b) q = p + of_nat (b - a) \<or> (log_next ^^ b) q = p + of_nat (b - a + 1)"
      using log_nexts_ahead [of p "b - a"] that by (auto simp: algebra_simps)
    then show ?thesis
    proof
      assume "(log_next ^^ b) q = p + of_nat (b - a)"
      then have "(log_next ^^ b) q - (log_next ^^ a) q = of_nat (b - a)" unfolding p_def by (metis add_diff_cancel_left')
      moreover have "1 \<le> b - a" "b - a \<le> 65" using that by linarith+
      ultimately show ?thesis by blast
    next
      assume "(log_next ^^ b) q = p + of_nat (b - a + 1)"
      then have "(log_next ^^ b) q - (log_next ^^ a) q = of_nat (b - a + 1)" unfolding p_def by (metis add_diff_cancel_left')
      moreover have "1 \<le> b - a + 1" "b - a + 1 \<le> 65" using that by linarith+
      ultimately show ?thesis by blast
    qed
  qed
  have pos: "0 < sint (of_nat d :: u32)" if "1 \<le> d" "d \<le> 65" for d
    using that by (simp add: sint_u32 unat_of_nat)
  have neg: "sint (- of_nat d :: u32) < 0" if "1 \<le> d" "d \<le> 65" for d
  proof -
    have d: "unat (of_nat d :: u32) = d" using that by (simp add: unat_of_nat)
    then have "unat (0 - of_nat d :: u32) = 2 ^ 32 - d" using that by (subst unat_sub_if') simp
    then show ?thesis using that by (simp add: sint_u32)
  qed
  consider "i < j" | "i = j" | "j < i" by linarith
  then show ?thesis
  proof cases
    case 1
    from ahead [OF this assms(3)] pos 1 show ?thesis by (auto simp: App_Log_IsSequenceNewer_def)
  next
    case 3
    from ahead [OF this assms(2)] obtain d where "1 \<le> d" "d \<le> 65" "(log_next ^^ j) q - (log_next ^^ i) q = - of_nat d"
      by (metis minus_diff_eq)
    then show ?thesis using neg [of d] 3 by (simp add: App_Log_IsSequenceNewer_def)
  qed (simp add: App_Log_IsSequenceNewer_def)
qed


section \<open>The ring and the list it holds\<close>

definition log_chain :: "App_Log_Record list \<Rightarrow> bool" where
  "log_chain xs \<longleftrightarrow> length xs \<le> 64 \<and> (\<forall>x \<in> set xs. log_valid x)
     \<and> (\<forall>i < length xs. sequence (xs ! i) = (log_next ^^ i) (sequence (xs ! 0)) \<and> sequence (xs ! i) \<noteq> 0)"

text \<open>The ring from position \<open>t\<close> on holds \<open>xs\<close>, and nothing readable behind it.\<close>

definition log_held :: "App_Log_StorageSlot list \<Rightarrow> nat \<Rightarrow> App_Log_Record list \<Rightarrow> bool" where
  "log_held rs t xs \<longleftrightarrow> length rs = 64 \<and> (\<forall>i < 64. length (rs ! i) = 8) \<and> t < 64 \<and>
     (\<forall>i < 64. if i < length xs then rs ! ((t + i) mod 64) = app_log_words (xs ! i)
        else \<not> log_valid (app_log_record (rs ! ((t + i) mod 64))))"

lemma held_slot:
  assumes "log_held rs t xs" "i < length xs" "length xs \<le> 64"
  shows "app_log_record (rs ! ((t + i) mod 64)) = xs ! i"
proof -
  have "rs ! ((t + i) mod 64) = app_log_words (xs ! i)" using assms unfolding log_held_def by (metis order_less_le_trans)
  then show ?thesis by simp
qed

lemma held_rest:
  "log_held rs t xs \<Longrightarrow> length xs \<le> i \<Longrightarrow> i < 64 \<Longrightarrow> \<not> log_valid (app_log_record (rs ! ((t + i) mod 64)))"
  unfolding log_held_def by (metis not_less)

lemma ring_pos_eq:
  assumes "i < 64" "j < 64"
  shows "((t :: nat) + i) mod 64 = (t + j) mod 64 \<longleftrightarrow> i = j"
proof -
  have "a = b" if "(t + a) mod 64 = (t + b) mod 64" "a \<le> b" "b < 64" for a b :: nat
  proof -
    have "64 dvd b - a" using that(1,2) by (metis add_le_cancel_left mod_eq_dvd_iff_nat add_diff_cancel_left)
    then show ?thesis using that(2,3) by (auto dest: dvd_imp_le)
  qed
  then show ?thesis using assms by (metis nle_le)
qed

lemma ring_pos_0: "t < 64 \<Longrightarrow> ((t :: nat) + 0) mod 64 = t"
  by simp

lemma held_append:
  assumes "log_held rs t xs" "length xs < 64"
  shows "log_held (rs[(t + length xs) mod 64 := app_log_words r]) t (xs @ [r])"
  using assms unfolding log_held_def
  by (auto simp: nth_list_update ring_pos_eq nth_append)

lemma held_spoilt:
  assumes "log_held rs t xs" "length xs < 64" "length w = 8" "\<not> log_valid (app_log_record w)"
  shows "log_held (rs[(t + length xs) mod 64 := w]) t xs"
  using assms unfolding log_held_def
  by (auto simp: nth_list_update ring_pos_eq)

lemma held_drop:
  assumes "log_held rs t (x # xs)" "length xs < 64" "length w = 8" "\<not> log_valid (app_log_record w)"
  shows "log_held (rs[t := w]) ((t + 1) mod 64) xs"
proof -
  have rs: "length rs = 64" "\<forall>i < 64. length (rs ! i) = 8" "t < 64" using assms(1) by (simp_all add: log_held_def)
  have "if i < length xs then rs[t := w] ! (((t + 1) mod 64 + i) mod 64) = app_log_words (xs ! i)
        else \<not> log_valid (app_log_record (rs[t := w] ! (((t + 1) mod 64 + i) mod 64)))" if i: "i < 64" for i
  proof (cases "i = 63")
    case True
    then have "((t + 1) mod 64 + i) mod 64 = (t + 64) mod 64" by (simp add: mod_add_left_eq)
    then have "((t + 1) mod 64 + i) mod 64 = t" using rs(3) by simp
    then show ?thesis using assms(2-4) rs True by simp
  next
    case False
    then have p: "((t + 1) mod 64 + i) mod 64 = (t + Suc i) mod 64" "(t + Suc i) mod 64 \<noteq> t" "Suc i < 64"
      using i rs(3) ring_pos_eq [of "Suc i" 0 t] by (simp_all add: mod_add_left_eq)
    have "if Suc i < length (x # xs) then rs ! ((t + Suc i) mod 64) = app_log_words ((x # xs) ! Suc i)
        else \<not> log_valid (app_log_record (rs ! ((t + Suc i) mod 64)))"
      using assms(1) p(3) unfolding log_held_def by blast
    then show ?thesis using p by (auto split: if_splits)
  qed
  moreover have "length (rs[t := w] ! i) = 8" if "i < 64" for i using that rs assms(3) by (simp add: nth_list_update)
  ultimately show ?thesis unfolding log_held_def using rs(1) by (intro conjI allI impI) (assumption | simp)+
qed

lemma unat_wrap: "unat (app_log_wrap x) = unat x mod 64"
proof -
  have "unat (x mod 64) = unat x mod 64" by (simp add: unat_mod_distrib)
  then show ?thesis by (simp add: app_log_wrap_def APP_LOG_RAM_CAPACITY_def unat_ucast_small)
qed


section \<open>The recovery\<close>

lemma chain_valid: "log_chain xs \<Longrightarrow> i < length xs \<Longrightarrow> log_valid (xs ! i)"
  by (simp add: log_chain_def)

lemma chain_newer:
  assumes "log_chain xs" "i < length xs" "j < length xs"
  shows "App_Log_IsSequenceNewer (sequence (xs ! j)) (sequence (xs ! i)) \<longleftrightarrow> i < j"
proof -
  have "sequence (xs ! i) = (log_next ^^ i) (sequence (xs ! 0))" "sequence (xs ! j) = (log_next ^^ j) (sequence (xs ! 0))"
    "i < 64" "j < 64" using assms unfolding log_chain_def by auto
  moreover have "sequence (xs ! 0) \<noteq> 0" using assms unfolding log_chain_def by (metis gr_implies_not_zero not_gr_zero)
  ultimately show ?thesis using sequence_newer by metis
qed

definition log_age :: "nat \<Rightarrow> nat \<Rightarrow> nat" where
  "log_age t p = (p + 64 - t) mod 64"

lemma log_age:
  assumes "t < 64" "p < 64"
  shows "(t + log_age t p) mod 64 = p" "log_age t p < 64"
proof -
  have "(t + (p + 64 - t) mod 64) mod 64 = (t + (p + 64 - t)) mod 64" by (rule mod_add_right_eq)
  then show "(t + log_age t p) mod 64 = p" using assms by (simp add: log_age_def)
qed (simp add: log_age_def)

lemma age_of: "t < 64 \<Longrightarrow> i < 64 \<Longrightarrow> log_age t ((t + i) mod 64) = i"
  using log_age [of t "(t + i) mod 64"] ring_pos_eq [of "log_age t ((t + i) mod 64)" i t] by simp

text \<open>After the first \<open>m\<close> slots the scan knows the youngest record among them.\<close>

lemma scan_prefix:
  assumes held: "log_held (g_appLogRecords s) t xs" and chain: "log_chain xs" and m: "m \<le> 64"
  shows "\<exists>ni q found bad. fold (\<lambda>i. app_log_scan_step s (word_of_nat i)) [0..<m] (0, 0, False, 0) = (ni, q, found, bad)
    \<and> (\<not> found \<longrightarrow> ni = 0 \<and> q = 0 \<and> (\<forall>p < m. length xs \<le> log_age t p))
    \<and> (found \<longrightarrow> unat ni < m \<and> log_age t (unat ni) < length xs \<and> q = sequence (xs ! log_age t (unat ni))
        \<and> (\<forall>p < m. log_age t p < length xs \<longrightarrow> log_age t p \<le> log_age t (unat ni)))"
  using m
proof (induction m)
  case (Suc m)
  have t: "t < 64" and len: "length xs \<le> 64" using held chain by (simp_all add: log_held_def log_chain_def)
  from Suc obtain ni q found bad where run: "fold (\<lambda>i. app_log_scan_step s (word_of_nat i)) [0..<m] (0, 0, False, 0) = (ni, q, found, bad)"
    and ih: "\<not> found \<longrightarrow> ni = 0 \<and> q = 0 \<and> (\<forall>p < m. length xs \<le> log_age t p)"
    "found \<longrightarrow> unat ni < m \<and> log_age t (unat ni) < length xs \<and> q = sequence (xs ! log_age t (unat ni))
        \<and> (\<forall>p < m. log_age t p < length xs \<longrightarrow> log_age t p \<le> log_age t (unat ni))" by auto
  have um: "unat (word_of_nat m :: u16) = m" using Suc.prems by (simp add: unat_of_nat)
  have pos: "(t + log_age t m) mod 64 = m" "log_age t m < 64" using log_age [OF t, of m] Suc.prems by simp_all
  have step: "fold (\<lambda>i. app_log_scan_step s (word_of_nat i)) [0..<Suc m] (0, 0, False, 0)
    = app_log_scan_step s (word_of_nat m) (ni, q, found, bad)" using run by simp
  show ?case
  proof (cases "log_age t m < length xs")
    case False
    then have "\<not> log_valid (app_log_slot s (word_of_nat m))"
      using held_rest [OF held, of "log_age t m"] pos um by (simp add: app_log_slot_def)
    then show ?thesis unfolding step using ih False
      by (auto simp: app_log_scan_step_def less_Suc_eq)
  next
    case True
    then have slot: "app_log_slot s (word_of_nat m) = xs ! log_age t m"
      using held_slot [OF held True len] pos um by (simp add: app_log_slot_def)
    have v: "log_valid (xs ! log_age t m)" by (rule chain_valid [OF chain True])
    show ?thesis
    proof (cases found)
      case False
      then show ?thesis unfolding step using ih True slot v um
        by (auto simp: app_log_scan_step_def less_Suc_eq dest: leD)
    next
      case f: True
      then have q: "log_age t (unat ni) < length xs" "q = sequence (xs ! log_age t (unat ni))" "unat ni < m"
        and max: "\<And>p. p < m \<Longrightarrow> log_age t p < length xs \<Longrightarrow> log_age t p \<le> log_age t (unat ni)" using ih by auto
      note newer = chain_newer [OF chain q(1) True, folded q(2)]
      show ?thesis
      proof (cases "log_age t (unat ni) < log_age t m")
        case lt: True
        have "\<forall>p < Suc m. log_age t p < length xs \<longrightarrow> log_age t p \<le> log_age t m"
          using max lt by (fastforce simp: less_Suc_eq)
        then show ?thesis unfolding step using newer lt slot v um f True
          by (intro exI [of _ "word_of_nat m"] exI [of _ "sequence (xs ! log_age t m)"] exI [of _ True] exI [of _ bad])
            (simp add: app_log_scan_step_def)
      next
        case ge: False
        have "\<forall>p < Suc m. log_age t p < length xs \<longrightarrow> log_age t p \<le> log_age t (unat ni)"
          using max ge by (auto simp: less_Suc_eq)
        then show ?thesis unfolding step using newer ge slot v f q
          by (intro exI [of _ ni] exI [of _ "sequence (xs ! log_age t (unat ni))"] exI [of _ True] exI [of _ bad])
            (simp add: app_log_scan_step_def)
      qed
    qed
  qed
qed auto

lemma scan_newest:
  assumes held: "log_held (g_appLogRecords s) t xs" and chain: "log_chain xs"
  obtains bad where "xs = []" "app_log_scan s = (0, 0, False, bad)"
  | ni bad where "xs \<noteq> []" "unat ni = (t + (length xs - 1)) mod 64" "app_log_scan s = (ni, sequence (last xs), True, bad)"
proof -
  have t: "t < 64" and len: "length xs \<le> 64" using held chain by (simp_all add: log_held_def log_chain_def)
  obtain ni q found bad where run: "app_log_scan s = (ni, q, found, bad)"
    and no: "\<not> found \<longrightarrow> ni = 0 \<and> q = 0 \<and> (\<forall>p < 64. length xs \<le> log_age t p)"
    and yes: "found \<longrightarrow> unat ni < 64 \<and> log_age t (unat ni) < length xs \<and> q = sequence (xs ! log_age t (unat ni))
        \<and> (\<forall>p < 64. log_age t p < length xs \<longrightarrow> log_age t p \<le> log_age t (unat ni))"
    using scan_prefix [OF held chain, of 64] by (auto simp: app_log_scan_def)
  have youngest: "log_age t ((t + (length xs - 1)) mod 64) = length xs - 1" if "xs \<noteq> []"
    using that len by (intro age_of [OF t]) (cases xs; simp)
  show thesis
  proof (cases "xs = []")
    case True
    then show thesis using that(1) run no yes by auto
  next
    case False
    then have n: "length xs - 1 < length xs" "(t + (length xs - 1)) mod 64 < 64" by simp_all
    have f: found using no youngest [OF False] n by (metis not_less)
    have "log_age t (unat ni) = length xs - 1"
      using yes f youngest [OF False] n by (metis Suc_pred' le_antisym length_greater_0_conv less_Suc_eq_le False)
    then have "unat ni = (t + (length xs - 1)) mod 64" "q = sequence (last xs)"
      using yes f log_age(1) [OF t, of "unat ni"] False by (simp_all add: last_conv_nth)
    then show thesis using that(2) [OF False, of ni bad] run f by simp
  qed
qed

lemma unat_wrap_plus:
  assumes "unat w < 65536"
  shows "unat (app_log_wrap (ucast (i :: u16) + w)) = (unat i + unat w) mod 64"
proof -
  have "unat i < 65536" "unat (ucast i :: u32) = unat i" by simp_all
  with assms have "unat (ucast i :: u32) + unat w < 4294967296" by linarith
  then have "unat (ucast i + w :: u32) = unat i + unat w" by (intro trans [OF unat_add_small]) simp_all
  then show ?thesis by (simp add: unat_wrap)
qed

lemma unat_wrap_back: "unat (app_log_wrap (ucast (i :: u16) + APP_LOG_RAM_CAPACITY - 1)) = (unat i + 63) mod 64"
proof -
  have eq: "ucast i + APP_LOG_RAM_CAPACITY - 1 = ucast i + (63 :: u32)" by (simp add: APP_LOG_RAM_CAPACITY_def)
  show ?thesis unfolding eq using unat_wrap_plus [of 63 i] by simp
qed

lemma chain_previous:
  assumes "log_chain xs" "Suc a < length xs"
  shows "App_Log_PreviousSequence (sequence (xs ! Suc a)) = sequence (xs ! a)"
proof -
  have "sequence (xs ! Suc a) = log_next (sequence (xs ! a))" "sequence (xs ! a) \<noteq> 0"
    using assms Suc_lessD [OF assms(2)] unfolding log_chain_def by (metis comp_apply funpow.simps(2)) (metis assms Suc_lessD log_chain_def)
  then show ?thesis by (simp add: previous_next)
qed

text \<open>The walk back counts the records.\<close>

lemma walk_counts:
  assumes held: "log_held (g_appLogRecords s) t xs" and chain: "log_chain xs"
  shows "a < length xs \<Longrightarrow> unat i = (t + a) mod 64 \<Longrightarrow> a < m \<Longrightarrow> m = Suc a \<or> length xs < 64 \<Longrightarrow>
    app_log_walk m s i (sequence (xs ! a)) c = c + of_nat (Suc a)"
proof (induction a arbitrary: i m c)
  case 0
  obtain m' where m: "m = Suc m'" using 0 by (cases m) auto
  have len: "length xs \<le> 64" using chain by (simp add: log_chain_def)
  have slot: "app_log_slot s i = xs ! 0" using held_slot [OF held 0(1) len] 0(2) by (simp add: app_log_slot_def)
  have v: "log_valid (xs ! 0)" by (rule chain_valid [OF chain 0(1)])
  define j where "j = app_log_wrap (ucast i + APP_LOG_RAM_CAPACITY - 1)"
  have "app_log_walk m' s j e (c + 1) = c + 1" for e
  proof (cases m')
    case (Suc m'')
    then have l: "length xs < 64" using 0 m by simp
    have "unat j = (t + 63) mod 64" using 0(2) unat_wrap_back [of i] held by (simp add: j_def log_held_def mod_add_left_eq)
    then have "\<not> log_valid (app_log_slot s j)" using held_rest [OF held, of 63] l by (simp add: app_log_slot_def)
    then show ?thesis using Suc by simp
  qed simp
  then show ?case using slot v by (simp add: m j_def)
next
  case (Suc a)
  obtain m' where m: "m = Suc m'" using Suc.prems by (cases m) auto
  have len: "length xs \<le> 64" using chain by (simp add: log_chain_def)
  have slot: "app_log_slot s i = xs ! Suc a" using held_slot [OF held Suc.prems(1) len] Suc.prems(2) by (simp add: app_log_slot_def)
  have v: "log_valid (xs ! Suc a)" by (rule chain_valid [OF chain Suc.prems(1)])
  define j where "j = app_log_wrap (ucast i + APP_LOG_RAM_CAPACITY - 1)"
  have "(t + Suc a + 63) mod 64 = (t + a) mod 64" by simp
  then have j: "unat j = (t + a) mod 64" using Suc.prems(2) unat_wrap_back [of i] by (simp add: j_def mod_add_left_eq)
  have "app_log_walk m' s j (sequence (xs ! a)) (c + 1) = c + 1 + of_nat (Suc a)"
    using Suc.prems m by (intro Suc.IH [OF _ j]) auto
  then show ?case using slot v chain_previous [OF chain Suc.prems(1)] by (simp add: m j_def)
qed


section \<open>The operations on the list\<close>

definition spec_log_seq :: "App_Log_Record list \<Rightarrow> u32" where
  "spec_log_seq xs = (if xs = [] then 1 else log_next (sequence (last xs)))"

definition spec_log_room :: "App_Log_Record list \<Rightarrow> App_Log_Record list" where
  "spec_log_room xs = (if length xs < 64 then xs else tl xs)"

definition log_rep :: "App_Log \<Rightarrow> App_Log_Record list \<Rightarrow> bool" where
  "log_rep s xs \<longleftrightarrow> storage_ready (g_appLogDebug s) \<and> log_chain xs
     \<and> log_held (g_appLogRecords s) (unat (app_log_tail_index s)) xs
     \<and> unat (app_log_head_index s) = (unat (app_log_tail_index s) + length xs) mod 64
     \<and> unat (app_log_count s) = length xs \<and> app_log_next_sequence s = spec_log_seq xs"

lemma cleared_slots:
  assumes "length rs = 64" "\<forall>i < 64. length (rs ! i) = 8" "g_appLogRecords s = rs"
  shows "g_appLogRecords (App_Log_ClearRetainedStorage s) = replicate 64 (replicate 8 0)"
proof -
  have inner: "fold (\<lambda>w ws. ws[w := 0]) [0..<8] v = replicate 8 (0 :: u32)" if "length v = 8" for v
    using that by (simp only: fold_clear) simp
  have "length (fold (\<lambda>slot rs. rs[slot := fold (\<lambda>w ws. ws[w := 0]) [0..<8] (rs ! slot)]) [0..<n] rs) = 64
    \<and> (\<forall>i < 64. fold (\<lambda>slot rs. rs[slot := fold (\<lambda>w ws. ws[w := 0]) [0..<8] (rs ! slot)]) [0..<n] rs ! i
      = (if i < n then replicate 8 0 else rs ! i))" if "n \<le> 64" for n
    using that
  proof (induction n)
    case (Suc n)
    then show ?case using inner assms by (auto simp: nth_list_update less_Suc_eq)
  qed (use assms in simp)
  from this [of 64] show ?thesis using assms(3)
    by (intro nth_equalityI) (simp_all add: App_Log_ClearRetainedStorage_def)
qed

lemma held_blank: "t < 64 \<Longrightarrow> log_held (replicate 64 (replicate 8 0)) t []"
  by (simp add: log_held_def App_Log_IsRecordValid_def app_log_record_def APP_LOG_RECORD_MAGIC_def)

lemma recover_rep:
  assumes held: "log_held (g_appLogRecords s) t xs" and chain: "log_chain xs" and ready: "storage_ready (g_appLogDebug s)"
  shows "log_rep (App_Log_Recover s) xs"
proof (cases rule: scan_newest [OF held chain])
  case (1 bad)
  have "g_appLogRecords (App_Log_ClearRetainedStorage s) = replicate 64 (replicate 8 0)"
    using held by (intro cleared_slots [OF _ _ refl]) (simp_all add: log_held_def)
  then show ?thesis using 1 ready held_blank [of 0]
    by (simp add: App_Log_Recover_def Let_def log_rep_def log_chain_def spec_log_seq_def App_Log_ClearRetainedStorage_def)
next
  case (2 ni bad)
  have t: "t < 64" and len: "length xs \<le> 64" using held chain by (simp_all add: log_held_def log_chain_def)
  have n: "0 < length xs" "length xs - 1 < length xs" using 2(1) by simp_all
  have "app_log_walk 64 s ni (sequence (xs ! (length xs - 1))) 0 = 0 + of_nat (Suc (length xs - 1))"
    using n 2(2) len by (intro walk_counts [OF held chain]) auto
  then have walk: "app_log_walk 64 s ni (sequence (last xs)) 0 = of_nat (length xs)" using n 2(1) by (simp add: last_conv_nth)
  define head where "head = app_log_wrap (ucast ni + 1)"
  have "unat head = ((t + (length xs - 1)) mod 64 + 1) mod 64" using 2(2) unat_wrap_plus [of 1 ni] by (simp add: head_def)
  also have "\<dots> = (t + (length xs - 1) + 1) mod 64" by (rule mod_add_left_eq)
  also have "t + (length xs - 1) + 1 = t + length xs" using n by simp
  finally have head: "unat head = (t + length xs) mod 64" .
  have cnt: "unat (of_nat (length xs) :: u16) = length xs" using len by (simp add: unat_of_nat)
  define tail where "tail = app_log_wrap (ucast head + APP_LOG_RAM_CAPACITY - ucast (of_nat (length xs) :: u16))"
  have "unat (APP_LOG_RAM_CAPACITY - ucast (of_nat (length xs) :: u16)) = 64 - length xs"
    using cnt len by (intro trans [OF unat_sub_le]) (simp_all add: APP_LOG_RAM_CAPACITY_def word_le_nat_alt)
  then have "unat tail = (unat head + (64 - length xs)) mod 64"
    using unat_wrap_plus [of "APP_LOG_RAM_CAPACITY - ucast (of_nat (length xs) :: u16)" head] by (simp add: tail_def add_diff_eq)
  then have "unat tail = (t + length xs + (64 - length xs)) mod 64" unfolding head by (simp only: mod_add_left_eq)
  also have "t + length xs + (64 - length xs) = t + 64" using len by simp
  finally have tail: "unat tail = t" using t by simp
  show ?thesis using 2 ready walk head tail cnt held chain
    by (simp add: App_Log_Recover_def Let_def log_rep_def head_def [symmetric] tail_def [symmetric] spec_log_seq_def log_next_def)
qed


lemma init_rep:
  assumes "log_held (g_appLogRecords s) t xs" "log_chain xs"
  shows "log_rep (App_Log_Init True s) xs"
  using assms by (simp add: App_Log_Init_def Let_def) (intro recover_rep, simp_all)

lemma clear_rep: "log_rep s xs \<Longrightarrow> log_rep (App_Log_Clear s) []"
  using cleared_slots [OF _ _ refl, of s] held_blank [of 0]
  by (auto simp: log_rep_def App_Log_Clear_def Let_def log_held_def log_chain_def spec_log_seq_def App_Log_ClearRetainedStorage_def)

lemma chain_tail:
  assumes "log_chain (x # xs)"
  shows "log_chain xs"
proof -
  have seq: "\<And>i. i < Suc (length xs) \<Longrightarrow> sequence ((x # xs) ! i) = (log_next ^^ i) (sequence x) \<and> sequence ((x # xs) ! i) \<noteq> 0"
    using assms unfolding log_chain_def by (metis length_Cons nth_Cons_0)
  have "sequence (xs ! i) = (log_next ^^ i) (sequence (xs ! 0)) \<and> sequence (xs ! i) \<noteq> 0" if "i < length xs" for i
  proof -
    have "sequence (xs ! i) = (log_next ^^ Suc i) (sequence x)" "sequence (xs ! i) \<noteq> 0"
      "sequence (xs ! 0) = log_next (sequence x)" using seq [of "Suc i"] seq [of "Suc 0"] that by (auto simp: length_greater_0_conv [symmetric] simp del: length_greater_0_conv)
    then show ?thesis by (simp only: funpow_Suc_right comp_apply simp_thms)
  qed
  moreover have "length xs \<le> 64" "\<forall>x \<in> set xs. log_valid x" using assms by (simp_all add: log_chain_def)
  ultimately show ?thesis unfolding log_chain_def by blast
qed

lemma chain_append:
  assumes "log_chain xs" "length xs < 64" "log_valid r" "sequence r = spec_log_seq xs"
  shows "log_chain (xs @ [r])"
proof -
  have "sequence ((xs @ [r]) ! i) = (log_next ^^ i) (sequence ((xs @ [r]) ! 0)) \<and> sequence ((xs @ [r]) ! i) \<noteq> 0"
    if "i < length (xs @ [r])" for i
  proof (cases "i < length xs")
    case True
    then have "(xs @ [r]) ! i = xs ! i" "(xs @ [r]) ! 0 = xs ! 0" by (auto simp: nth_append)
    then show ?thesis using True assms(1) unfolding log_chain_def by metis
  next
    case False
    then have i: "i = length xs" using that by simp
    show ?thesis
    proof (cases "xs = []")
      case True
      then show ?thesis using i assms(4) by (simp add: spec_log_seq_def)
    next
      case ne: False
      then have k: "length xs - 1 < length xs" "0 < length xs" "Suc (length xs - 1) = length xs" by simp_all
      have "sequence (last xs) = (log_next ^^ (length xs - 1)) (sequence (xs ! 0))" using assms(1) k(1) ne
        unfolding log_chain_def by (metis last_conv_nth)
      then have "log_next (sequence (last xs)) = (log_next ^^ length xs) (sequence (xs ! 0))"
        using k by (metis comp_apply funpow.simps(2))
      then have "sequence r = (log_next ^^ length xs) (sequence (xs ! 0))" using ne assms(4) by (simp add: spec_log_seq_def)
      moreover have "sequence r \<noteq> 0" using assms(4) by (simp add: spec_log_seq_def log_next_neq_0)
      moreover have "(xs @ [r]) ! i = r" "(xs @ [r]) ! 0 = xs ! 0" using i ne by (simp_all add: nth_append)
      ultimately show ?thesis using i by metis
    qed
  qed
  moreover have "length (xs @ [r]) \<le> 64" "\<forall>x \<in> set (xs @ [r]). log_valid x" using assms by (simp_all add: log_chain_def)
  ultimately show ?thesis unfolding log_chain_def by blast
qed

lemma room_seq: "xs \<noteq> [] \<Longrightarrow> 2 \<le> length xs \<Longrightarrow> spec_log_seq (tl xs) = spec_log_seq xs"
  by (cases xs) (auto simp: spec_log_seq_def)

lemma chain_room: "log_chain xs \<Longrightarrow> log_chain (spec_log_room xs) \<and> length (spec_log_room xs) < 64
    \<and> spec_log_seq (spec_log_room xs) = spec_log_seq xs"
proof (cases "length xs < 64")
  case False
  assume c: "log_chain xs"
  have len: "length xs \<le> 64" using c by (simp add: log_chain_def)
  obtain x ys where xs: "xs = x # ys" using False by (cases xs) auto
  have "log_chain ys" using chain_tail c xs by blast
  then show ?thesis using False len room_seq [of xs] xs by (simp add: spec_log_room_def)
qed (simp add: spec_log_room_def)

text \<open>The slot at the head, spoilt or overwritten.\<close>

lemma held_commit:
  assumes held: "log_held rs t xs" and len: "length xs \<le> 64" and w: "length w = 8" "\<not> log_valid (app_log_record w)"
  shows "\<exists>t' < 64. t' = (if length xs < 64 then t else (t + 1) mod 64)
    \<and> log_held (rs[(t + length xs) mod 64 := w]) t' (spec_log_room xs)
    \<and> log_held (rs[(t + length xs) mod 64 := app_log_words r]) t' (spec_log_room xs @ [r])"
proof (cases "length xs < 64")
  case True
  then show ?thesis using held_append [OF held True] held_spoilt [OF held True w] held
    by (intro exI [of _ t]) (simp add: spec_log_room_def log_held_def)
next
  case False
  then obtain x ys where xs: "xs = x # ys" "length ys = 63" using len by (cases xs) auto
  have t: "t < 64" and l: "length rs = 64" using held by (simp_all add: log_held_def)
  have "(t + length xs) mod 64 = t" using t xs by simp
  moreover note d = held_drop [OF held [unfolded xs(1)] _ w]
  moreover have "((t + 1) mod 64 + 63) mod 64 = t" using t by (simp add: mod_add_left_eq)
  ultimately show ?thesis using held_append [OF d, of r] xs by (intro exI [of _ "(t + 1) mod 64"]) (simp add: spec_log_room_def)
qed


section \<open>Writing, also when the power fails\<close>

lemma store_records: "g_appLogRecords (app_log_store st i s) = (g_appLogRecords s)
    [unat i := fold (\<lambda>(w, v) ws. ws[w := v]) st (g_appLogRecords s ! unat i)]"
  by (simp add: app_log_store_def)

lemma push_rep:
  fixes tick code epoch d0 d1
  assumes rep: "log_rep s xs" and ok: "App_Log_IsInputValid src sev"
  defines "r \<equiv> app_log_new_record tick src sev code epoch d0 d1 (spec_log_seq xs)"
  shows "log_rep (snd (App_Log_PushWithRtcTime tick src sev code epoch d0 d1 s)) (spec_log_room xs @ [r])"
proof -
  let ?t = "unat (app_log_tail_index s)" and ?h = "app_log_head_index s"
  have s: "storage_ready (g_appLogDebug s)" "log_chain xs" "log_held (g_appLogRecords s) ?t xs"
    "unat ?h = (?t + length xs) mod 64" "unat (app_log_count s) = length xs" "app_log_next_sequence s = spec_log_seq xs"
    using rep by (simp_all add: log_rep_def)
  have len: "length xs \<le> 64" using s(2) by (simp add: log_chain_def)
  have room: "log_chain (spec_log_room xs)" "length (spec_log_room xs) < 64" "spec_log_seq (spec_log_room xs) = spec_log_seq xs"
    using chain_room [OF s(2)] by blast+
  have r: "log_valid r" "sequence r = spec_log_seq (spec_log_room xs)"
    by (simp_all add: r_def new_record_valid new_record_sequence room(3))
  have chain: "log_chain (spec_log_room xs @ [r])" by (rule chain_append [OF room(1,2) r])
  obtain t' where t': "t' < 64" "t' = (if length xs < 64 then ?t else (?t + 1) mod 64)"
    and held: "log_held ((g_appLogRecords s)[(?t + length xs) mod 64 := app_log_words r]) t' (spec_log_room xs @ [r])"
    using held_commit [OF s(3) len, of "replicate 8 0" r]
    by (auto simp: App_Log_IsRecordValid_def app_log_record_def APP_LOG_RECORD_MAGIC_def)
  have slot: "length (g_appLogRecords s ! unat ?h) = 8" using s(3,4) by (simp add: log_held_def)
  have whole: "fold (\<lambda>(w, v) ws. ws[w := v]) (app_log_commit_stores r) (g_appLogRecords s ! unat ?h) = app_log_words r"
    using commit_cut(4) [OF slot, of 9 r] by (simp add: app_log_commit_stores_def)
  have nxt: "(if spec_log_seq xs + 1 = 0 then 1 else spec_log_seq xs + 1) = spec_log_seq (spec_log_room xs @ [r])"
    using r(2) room(3) by (simp add: spec_log_seq_def [of "spec_log_room xs @ [r]"] log_next_def)
  define s' where "s' = snd (App_Log_PushWithRtcTime tick src sev code epoch d0 d1 s)"
  have full: "ucast (app_log_count s) < APP_LOG_RAM_CAPACITY \<longleftrightarrow> length xs < 64"
    by (simp add: word_less_nat_alt APP_LOG_RAM_CAPACITY_def s(5))
  have s': "g_appLogRecords s' = (g_appLogRecords s)[(?t + length xs) mod 64 := app_log_words r]"
    "storage_ready (g_appLogDebug s')" "app_log_head_index s' = app_log_wrap (ucast ?h + 1)"
    "app_log_next_sequence s' = spec_log_seq (spec_log_room xs @ [r])"
    "app_log_count s' = (if length xs < 64 then app_log_count s + 1 else app_log_count s)"
    "app_log_tail_index s' = (if length xs < 64 then app_log_tail_index s else app_log_wrap (ucast (app_log_tail_index s) + 1))"
    using ok s(1,4,6) whole nxt full
    by (simp_all add: s'_def App_Log_PushWithRtcTime_def Let_def App_Log_CommitRecord_def app_log_store_def
        App_Log_UpdateDebugAfterWrite_def r_def split del: if_split) (simp_all split: if_splits)
  have tl: "unat (app_log_tail_index s') = t'" using t'(2) unat_wrap_plus [of 1 "app_log_tail_index s"] by (simp add: s'(6))
  have hd: "unat (app_log_head_index s') = (t' + length (spec_log_room xs @ [r])) mod 64"
  proof (cases "length xs < 64")
    case True
    have "unat (app_log_head_index s') = ((?t + length xs) mod 64 + 1) mod 64"
      using unat_wrap_plus [of 1 ?h] by (simp add: s'(3) s(4))
    then show ?thesis using True t'(2) by (simp add: spec_log_room_def mod_add_left_eq mod_Suc_eq)
  next
    case False
    then have "length xs = 64" using len by simp
    then show ?thesis using False t' unat_wrap_plus [of 1 ?h] s(3,4) by (simp add: s'(3) spec_log_room_def mod_Suc_eq)
  qed
  have cnt: "unat (app_log_count s') = length (spec_log_room xs @ [r])"
  proof (cases "length xs < 64")
    case True
    then have "unat (app_log_count s + 1) = length xs + 1" using s(5) by (intro trans [OF unat_add_small]) simp_all
    then show ?thesis using True by (simp add: s'(5) spec_log_room_def)
  next
    case False
    then show ?thesis using len s(5) by (simp add: s'(5) spec_log_room_def)
  qed
  have "log_rep s' (spec_log_room xs @ [r])" unfolding log_rep_def tl hd cnt s'(4)
    using s'(1,2) chain held by simp
  then show ?thesis unfolding s'_def .
qed


text \<open>
  What happens to the log: a write, a power loss after \<open>k\<close> stores of a write, a reset, a
  clearing. A reset keeps the retained records; the other static variables start at zero.
\<close>

datatype log_write = Log_Write u32 u32 u32 u32 u32 u32 u32 \<comment> \<open>tick, source, severity, code, epoch, data\<close>

datatype log_event = Log_Push log_write | Log_Power_Loss log_write nat | Log_Reset | Log_Clear

definition app_log_at_start :: "App_Log_StorageSlot list \<Rightarrow> App_Log" where
  "app_log_at_start rs = \<lparr>g_appLogRecords = rs, g_appLogDebug = app_log_debug_zero, app_log_head_index = 0,
     app_log_tail_index = 0, app_log_count = 0, app_log_next_sequence = 0\<rparr>"

fun app_log_torn_push :: "log_write \<Rightarrow> nat \<Rightarrow> App_Log \<Rightarrow> App_Log_StorageSlot list" where
  "app_log_torn_push (Log_Write tick src sev code epoch d0 d1) k s =
    (if App_Log_IsInputValid src sev \<and> storage_ready (g_appLogDebug s)
     then g_appLogRecords (app_log_store
       (take k (app_log_commit_stores (app_log_new_record tick src sev code epoch d0 d1 (app_log_next_sequence s))))
       (app_log_head_index s) s)
     else g_appLogRecords s)"

fun app_log_event :: "log_event \<Rightarrow> App_Log \<Rightarrow> App_Log" where
  "app_log_event (Log_Push (Log_Write tick src sev code epoch d0 d1)) s =
     snd (App_Log_PushWithRtcTime tick src sev code epoch d0 d1 s)"
| "app_log_event (Log_Power_Loss w k) s = App_Log_Init True (app_log_at_start (app_log_torn_push w k s))"
| "app_log_event Log_Reset s = App_Log_Init True (app_log_at_start (g_appLogRecords s))"
| "app_log_event Log_Clear s = App_Log_Clear s"

text \<open>The same on the list of records.\<close>

fun spec_log_write :: "log_write \<Rightarrow> App_Log_Record list \<Rightarrow> App_Log_Record list" where
  "spec_log_write (Log_Write tick src sev code epoch d0 d1) xs =
    (if App_Log_IsInputValid src sev
     then spec_log_room xs @ [app_log_new_record tick src sev code epoch d0 d1 (spec_log_seq xs)] else xs)"

fun spec_log_torn :: "log_write \<Rightarrow> nat \<Rightarrow> App_Log_Record list \<Rightarrow> App_Log_Record list" where
  "spec_log_torn (Log_Write tick src sev code epoch d0 d1) k xs =
    (if k = 0 \<or> \<not> App_Log_IsInputValid src sev then xs
     else if k < 9 then spec_log_room xs
     else spec_log_write (Log_Write tick src sev code epoch d0 d1) xs)"

fun spec_log_event :: "log_event \<Rightarrow> App_Log_Record list \<Rightarrow> App_Log_Record list" where
  "spec_log_event (Log_Push w) xs = spec_log_write w xs"
| "spec_log_event (Log_Power_Loss w k) xs = spec_log_torn w k xs"
| "spec_log_event Log_Reset xs = xs"
| "spec_log_event Log_Clear xs = []"

lemma torn_held:
  assumes rep: "log_rep s xs"
  shows "\<exists>t. log_held (app_log_torn_push w k s) t (spec_log_torn w k xs) \<and> log_chain (spec_log_torn w k xs)"
proof (cases w)
  case (Log_Write tick src sev code epoch d0 d1)
  let ?t = "unat (app_log_tail_index s)" and ?h = "app_log_head_index s"
  have s: "storage_ready (g_appLogDebug s)" "log_chain xs" "log_held (g_appLogRecords s) ?t xs"
    "unat ?h = (?t + length xs) mod 64" "app_log_next_sequence s = spec_log_seq xs"
    using rep by (simp_all add: log_rep_def)
  have len: "length xs \<le> 64" using s(2) by (simp add: log_chain_def)
  note room = chain_room [OF s(2)]
  define r where "r = app_log_new_record tick src sev code epoch d0 d1 (spec_log_seq xs)"
  define v where "v = fold (\<lambda>(i, v) ws. ws[i := v]) (take k (app_log_commit_stores r)) (g_appLogRecords s ! unat ?h)"
  have slot: "length (g_appLogRecords s ! unat ?h) = 8" using s(3,4) by (simp add: log_held_def)
  note cut = commit_cut [OF slot, of k r, folded v_def]
  show ?thesis
  proof (cases "App_Log_IsInputValid src sev")
    case False
    then show ?thesis using Log_Write s by auto
  next
    case ok: True
    have torn: "app_log_torn_push w k s = (g_appLogRecords s)[unat ?h := v]"
      using Log_Write ok s(1,5) by (simp add: store_records v_def r_def)
    consider "k = 0" | "0 < k" "k < 9" | "9 \<le> k" by linarith
    then show ?thesis
    proof cases
      case 1
      then show ?thesis using torn cut(2) s Log_Write by auto
    next
      case 2
      then have bad: "\<not> log_valid (app_log_record v)" using cut(3) by simp
      obtain t' where "log_held ((g_appLogRecords s)[(?t + length xs) mod 64 := v]) t' (spec_log_room xs)"
        using held_commit [OF s(3) len cut(1) bad] by auto
      then show ?thesis using torn 2 Log_Write ok room s(4) by auto
    next
      case 3
      obtain t' where "log_held ((g_appLogRecords s)[(?t + length xs) mod 64 := app_log_words r]) t' (spec_log_room xs @ [r])"
        using held_commit [OF s(3) len, of "replicate 8 0" r]
        by (auto simp: App_Log_IsRecordValid_def app_log_record_def APP_LOG_RECORD_MAGIC_def)
      moreover have "log_chain (spec_log_room xs @ [r])"
        using room by (intro chain_append) (simp_all add: r_def new_record_valid new_record_sequence)
      ultimately show ?thesis using torn 3 Log_Write ok s(4) cut(4) by (auto simp: r_def)
    qed
  qed
qed

lemma rejected_rep:
  assumes "log_rep s xs" "\<not> App_Log_IsInputValid src sev"
  shows "log_rep (snd (App_Log_PushWithRtcTime tick src sev code epoch d0 d1 s)) xs"
  using assms by (simp add: App_Log_PushWithRtcTime_def app_log_reject_def log_rep_def)

lemma event_rep: "log_rep s xs \<Longrightarrow> log_rep (app_log_event e s) (spec_log_event e xs)"
proof (cases e)
  case (Log_Push w)
  assume "log_rep s xs"
  then show ?thesis using Log_Push push_rep rejected_rep by (cases w) auto
next
  case (Log_Power_Loss w k)
  assume "log_rep s xs"
  from torn_held [OF this, of w k] obtain t where "log_held (app_log_torn_push w k s) t (spec_log_torn w k xs)"
    "log_chain (spec_log_torn w k xs)" by blast
  then show ?thesis using Log_Power_Loss init_rep [of "app_log_at_start (app_log_torn_push w k s)" t]
    by (simp add: app_log_at_start_def)
next
  case Log_Reset
  assume "log_rep s xs"
  then have "log_held (g_appLogRecords (app_log_at_start (g_appLogRecords s))) (unat (app_log_tail_index s)) xs" "log_chain xs"
    by (simp_all add: log_rep_def app_log_at_start_def)
  from init_rep [OF this] show ?thesis using Log_Reset by simp
next
  case Log_Clear
  assume "log_rep s xs"
  then show ?thesis using Log_Clear clear_rep by simp
qed

lemma events_rep: "log_rep s xs \<Longrightarrow> log_rep (fold app_log_event es s) (fold spec_log_event es xs)"
  by (induction es arbitrary: s xs) (simp_all add: event_rep)

lemma start_rep:
  assumes "length rs = 64" "\<forall>w \<in> set rs. length w = 8 \<and> \<not> log_valid (app_log_record w)"
  shows "log_rep (App_Log_Init True (app_log_at_start rs)) []"
  using assms by (intro init_rep [of _ 0]) (simp_all add: log_held_def log_chain_def app_log_at_start_def)

section \<open>Reading\<close>

definition app_log_contents :: "App_Log \<Rightarrow> App_Log_Record list" where
  "app_log_contents s = map (\<lambda>i. the (App_Log_ReadOldest (word_of_nat i) s)) [0..<unat (App_Log_GetCount s)]"

lemma rep_slot:
  assumes "log_rep s xs" "i < length xs"
  shows "app_log_slot s (app_log_wrap (ucast (app_log_tail_index s) + word_of_nat i)) = xs ! i"
proof -
  have s: "log_chain xs" "log_held (g_appLogRecords s) (unat (app_log_tail_index s)) xs" using assms(1) by (simp_all add: log_rep_def)
  have len: "length xs \<le> 64" using s(1) by (simp add: log_chain_def)
  have "unat (word_of_nat i :: u32) = i" using assms(2) len by (simp add: unat_of_nat)
  then have "unat (app_log_wrap (ucast (app_log_tail_index s) + word_of_nat i)) = (unat (app_log_tail_index s) + i) mod 64"
    using assms(2) len unat_wrap_plus [of "word_of_nat i"] by simp
  then show ?thesis using held_slot [OF s(2) assms(2) len] by (simp add: app_log_slot_def)
qed

lemma rep_contents: "log_rep s xs \<Longrightarrow> app_log_contents s = xs"
proof (rule nth_equalityI)
  assume rep: "log_rep s xs"
  have c: "unat (app_log_count s) = length xs" "length xs \<le> 64" using rep by (simp_all add: log_rep_def log_chain_def)
  show "length (app_log_contents s) = length xs" by (simp add: app_log_contents_def App_Log_GetCount_def c)
  fix i assume "i < length (app_log_contents s)"
  then have i: "i < length xs" by (simp add: app_log_contents_def App_Log_GetCount_def c)
  then have u: "unat (word_of_nat i :: u16) = i" using c by (simp add: unat_of_nat)
  have "ucast (word_of_nat i :: u16) = (word_of_nat i :: u32)" using i c by (simp add: word_unat_eq_iff u unat_of_nat)
  then show "app_log_contents s ! i = xs ! i" using i rep_slot [OF rep i]
    by (simp add: app_log_contents_def App_Log_GetCount_def c App_Log_ReadOldest_def word_le_nat_alt u)
qed

text \<open>
  C21. The event log survives resets and power failures. Whatever is written and cleared, and
  whenever the power fails, even between any two stores of a record, the log read after the
  restart is the list of the newest at most 64 records: a record that was being written is
  either there completely or not at all, every other record is intact and in order, at most the
  one record that was being overwritten is lost, and the sequence numbers go on without a gap.
\<close>

theorem app_log_survives_power_loss:
  assumes "length rs = 64" "\<forall>w \<in> set rs. length w = 8 \<and> \<not> log_valid (app_log_record w)"
  shows "app_log_contents (fold app_log_event es (App_Log_Init True (app_log_at_start rs))) = fold spec_log_event es []"
  by (intro rep_contents events_rep start_rep assms)

definition demo_log_events :: "log_event list" where
  "demo_log_events = [Log_Push (Log_Write 5 0 0 1 0 7 8), Log_Power_Loss (Log_Write 9 1 2 0x100 0 1 2) 4,
     Log_Push (Log_Write 12 1 1 0x106 0 3 4), Log_Push (Log_Write 13 9 1 0x106 0 3 4), Log_Reset]"

theorem app_log_survives_power_loss_witness:
  "map (\<lambda>r. (sequence r, uptime_ms r)) (app_log_contents (fold app_log_event demo_log_events
     (App_Log_Init True (app_log_at_start (replicate 64 (replicate 8 0)))))) = [(1, 5), (2, 12)]"
proof -
  have "app_log_contents (fold app_log_event demo_log_events (App_Log_Init True (app_log_at_start (replicate 64 (replicate 8 0)))))
    = fold spec_log_event demo_log_events []"
    by (rule app_log_survives_power_loss)
      (simp_all add: App_Log_IsRecordValid_def app_log_record_def APP_LOG_RECORD_MAGIC_def)
  also have "map (\<lambda>r. (sequence r, uptime_ms r)) \<dots> = [(1, 5), (2, 12)]"
    by (simp add: demo_log_events_def App_Log_IsInputValid_def APP_LOG_SOURCE_PWM_def APP_LOG_SEVERITY_FAULT_def
        spec_log_room_def spec_log_seq_def new_record_sequence log_next_def)
      (simp add: app_log_new_record_def Let_def)
  finally show ?thesis .
qed


lemma chain_distinct:
  assumes "log_chain xs" "i < length xs" "j < length xs" "sequence (xs ! i) = sequence (xs ! j)"
  shows "i = j"
  using chain_newer [OF assms(1), of i j] chain_newer [OF assms(1), of j i] chain_newer [OF assms(1), of i i] assms(2-4)
  by (metis nat_neq_iff)

lemma rep_by_sequence:
  assumes rep: "log_rep s xs"
  shows "App_Log_ReadBySequence q s = find (\<lambda>r. sequence r = q) xs"
proof -
  have c: "unat (app_log_count s) = length xs" and chain: "log_chain xs" using rep by (simp_all add: log_rep_def)
  have "map (\<lambda>age. app_log_slot s (app_log_wrap (ucast (app_log_tail_index s) + word_of_nat age))) [0..<length xs] = xs"
    by (intro nth_equalityI) (simp_all add: rep_slot [OF rep])
  moreover have "find (\<lambda>r. sequence r = 0) xs = None"
    using chain by (auto simp: find_None_iff log_chain_def in_set_conv_nth)
  ultimately show ?thesis by (auto simp: App_Log_ReadBySequence_def c)
qed

lemma rep_latest:
  assumes "log_rep s xs" "xs \<noteq> []"
  shows "App_Log_GetLatest s = Some (last xs)"
proof -
  have s: "log_chain xs" "log_held (g_appLogRecords s) (unat (app_log_tail_index s)) xs"
    "unat (app_log_head_index s) = (unat (app_log_tail_index s) + length xs) mod 64" "unat (app_log_count s) = length xs"
    using assms(1) by (simp_all add: log_rep_def)
  have k: "length xs - 1 < length xs" "length xs \<le> 64" using assms(2) s(1) by (simp_all add: log_chain_def)
  have "unat (app_log_wrap (ucast (app_log_head_index s) + APP_LOG_RAM_CAPACITY - 1))
    = (unat (app_log_tail_index s) + length xs + 63) mod 64" by (simp add: unat_wrap_back s(3) mod_add_left_eq)
  also have "unat (app_log_tail_index s) + length xs + 63 = unat (app_log_tail_index s) + (length xs - 1) + 64" using k by linarith
  finally have "app_log_slot s (app_log_wrap (ucast (app_log_head_index s) + APP_LOG_RAM_CAPACITY - 1)) = last xs"
    using held_slot [OF s(2) k] assms(2) by (simp add: app_log_slot_def last_conv_nth)
  moreover have "app_log_count s \<noteq> 0" using s(4) assms(2) by auto
  ultimately show ?thesis by (simp add: App_Log_GetLatest_def)
qed

text \<open>
  After any history of the log, reading by sequence number finds exactly the record with
  that number: every record the log holds, and nothing for a number it does not hold; the
  latest record is the last of the list.
\<close>

theorem app_log_reads_by_sequence:
  assumes "length rs = 64" "\<forall>w \<in> set rs. length w = 8 \<and> \<not> log_valid (app_log_record w)"
    and "s = fold app_log_event es (App_Log_Init True (app_log_at_start rs))"
  shows "(App_Log_ReadBySequence q s = Some r \<longleftrightarrow> r \<in> set (app_log_contents s) \<and> sequence r = q)
    \<and> App_Log_GetLatest s = (if app_log_contents s = [] then None else Some (last (app_log_contents s)))"
proof -
  define xs where "xs = fold spec_log_event es []"
  have rep: "log_rep s xs" unfolding assms(3) xs_def by (intro events_rep start_rep assms(1,2))
  then have chain: "log_chain xs" by (simp add: log_rep_def)
  have "find (\<lambda>r. sequence r = q) xs = Some r \<longleftrightarrow> r \<in> set xs \<and> sequence r = q"
  proof
    assume "find (\<lambda>r. sequence r = q) xs = Some r"
    then show "r \<in> set xs \<and> sequence r = q" by (auto simp: find_Some_iff)
  next
    assume r: "r \<in> set xs \<and> sequence r = q"
    then obtain i where i: "i < length xs" "xs ! i = r" by (auto simp: in_set_conv_nth)
    have "\<forall>j < i. sequence (xs ! j) \<noteq> q" using chain_distinct [OF chain] i r by (metis nat_neq_iff order.strict_trans)
    then show "find (\<lambda>r. sequence r = q) xs = Some r" using i r by (auto simp: find_Some_iff)
  qed
  then have "App_Log_ReadBySequence q s = Some r \<longleftrightarrow> r \<in> set (app_log_contents s) \<and> sequence r = q"
    by (simp add: rep_by_sequence [OF rep] rep_contents [OF rep])
  moreover have "app_log_count s = 0 \<longleftrightarrow> xs = []" using rep by (auto simp: log_rep_def unat_eq_0)
  then have "App_Log_GetLatest s = (if app_log_contents s = [] then None else Some (last (app_log_contents s)))"
    using rep_latest [OF rep] by (auto simp: rep_contents [OF rep] App_Log_GetLatest_def)
  ultimately show ?thesis by blast
qed

theorem app_log_reads_by_sequence_witness:
  "\<exists>r. App_Log_ReadBySequence 2 (fold app_log_event demo_log_events (App_Log_Init True (app_log_at_start
      (replicate 64 (replicate 8 0))))) = Some r \<and> sequence r = 2"
proof -
  define s where "s = fold app_log_event demo_log_events (App_Log_Init True (app_log_at_start (replicate 64 (replicate 8 0))))"
  have blank: "length (replicate 64 (replicate 8 (0 :: u32))) = 64"
    "\<forall>w \<in> set (replicate 64 (replicate 8 0)). length w = 8 \<and> \<not> log_valid (app_log_record w)"
    by (simp_all add: App_Log_IsRecordValid_def app_log_record_def APP_LOG_RECORD_MAGIC_def)
  have "app_log_contents s = fold spec_log_event demo_log_events []"
    unfolding s_def by (intro rep_contents events_rep start_rep blank)
  then have "map sequence (app_log_contents s) = [1, 2]"
    by (simp add: demo_log_events_def App_Log_IsInputValid_def APP_LOG_SOURCE_PWM_def APP_LOG_SEVERITY_FAULT_def
        spec_log_room_def spec_log_seq_def new_record_sequence log_next_def)
  then obtain r where "r \<in> set (app_log_contents s)" "sequence r = 2" by (metis imageE list.set_intros set_map)
  with app_log_reads_by_sequence [OF blank s_def, of 2 r] show ?thesis unfolding s_def by blast
qed

end
