(* ===== verification/AppStartup.thy ===== *)
theory AppStartup
  imports Prelude
begin

text \<open>
  What the firmware remembers of its start: the record of the initialised resources
  (\<open>src/Core/Src/app_startup.c\<close>, the variable \<open>g_appStartup\<close>) and the reason of the last reset
  (\<open>src/Core/Src/app_reset_reason.c\<close>). The reset register is read and acknowledged by the arguments
  of \<open>App_ResetReason_Capture\<close>.
\<close>

section \<open>Resources\<close>

definition APP_STARTUP_RESULT_OK :: u32 where "APP_STARTUP_RESULT_OK = 0"
definition APP_STARTUP_EXPECTED_RESOURCES :: u32 where "APP_STARTUP_EXPECTED_RESOURCES = 0xFF"

record App_Startup_Snapshot =
  expected_mask :: u32
  attempted_mask :: u32
  ready_mask :: u32
  failed_mask :: u32
  record_count :: u32
  failure_count :: u32
  first_failed_resource :: u32
  first_failure_result :: u32
  last_failed_resource :: u32
  last_failure_result :: u32
  degraded :: bool

definition app_startup_zero :: App_Startup_Snapshot where
  "app_startup_zero = \<lparr>expected_mask = 0, attempted_mask = 0, ready_mask = 0, failed_mask = 0, record_count = 0,
     failure_count = 0, first_failed_resource = 0, first_failure_result = 0, last_failed_resource = 0,
     last_failure_result = 0, degraded = False\<rparr>"

definition App_Startup_IsSingleResource :: "u32 \<Rightarrow> bool" where
  "App_Startup_IsSingleResource resource \<longleftrightarrow> resource \<noteq> 0 \<and> resource AND (resource - 1) = 0"

definition App_Startup_Init :: "u32 \<Rightarrow> App_Startup_Snapshot \<Rightarrow> App_Startup_Snapshot" where
  "App_Startup_Init expected s = app_startup_zero\<lparr>expected_mask := expected\<rparr>"

definition App_Startup_Record :: "u32 \<Rightarrow> u32 \<Rightarrow> App_Startup_Snapshot \<Rightarrow> App_Startup_Snapshot" where
  "App_Startup_Record resource result s =
    (if \<not> App_Startup_IsSingleResource resource \<or> resource AND expected_mask s = 0 then s
     else
      let s = s\<lparr>attempted_mask := attempted_mask s OR resource, record_count := record_count s + 1\<rparr>;
          s = (if result = APP_STARTUP_RESULT_OK
             then s\<lparr>ready_mask := ready_mask s OR resource, failed_mask := failed_mask s AND NOT resource\<rparr>
             else
              let s = s\<lparr>ready_mask := ready_mask s AND NOT resource, failed_mask := failed_mask s OR resource,
                     failure_count := failure_count s + 1, last_failed_resource := resource,
                     last_failure_result := result\<rparr>
              in if first_failed_resource s = 0
                 then s\<lparr>first_failed_resource := resource, first_failure_result := result\<rparr> else s)
      in s\<lparr>degraded := failed_mask s \<noteq> 0 \<or> attempted_mask s AND expected_mask s \<noteq> expected_mask s\<rparr>)"

definition App_Startup_IsReady :: "u32 \<Rightarrow> App_Startup_Snapshot \<Rightarrow> bool" where
  "App_Startup_IsReady resource s =
    (if \<not> App_Startup_IsSingleResource resource then False else ready_mask s AND resource \<noteq> 0)"

definition App_Startup_GetSnapshot :: "App_Startup_Snapshot option \<Rightarrow> App_Startup_Snapshot \<Rightarrow> App_Startup_Snapshot option" where
  "App_Startup_GetSnapshot snapshot s = map_option (\<lambda>_. s) snapshot"

section \<open>Reset reason\<close>

record App_ResetReason_Snapshot =
  decoded_flags :: u32
  raw_rsr :: u32
  capture_count :: u32

definition APP_RESET_REASON_IWDG :: u32 where "APP_RESET_REASON_IWDG = 0x10"

definition App_ResetReason_Decode :: "u32 \<Rightarrow> u32" where
  "App_ResetReason_Decode rsr =
    (let d = 0;
         d = (if rsr AND 0x00400000 \<noteq> 0 then d OR 0x01 else d);
         d = (if rsr AND 0x00800000 \<noteq> 0 then d OR 0x02 else d);
         d = (if rsr AND 0x00200000 \<noteq> 0 then d OR 0x04 else d);
         d = (if rsr AND 0x01000000 \<noteq> 0 then d OR 0x08 else d);
         d = (if rsr AND 0x04000000 \<noteq> 0 then d OR APP_RESET_REASON_IWDG else d);
         d = (if rsr AND 0x10000000 \<noteq> 0 then d OR 0x20 else d);
         d = (if rsr AND 0x40000000 \<noteq> 0 then d OR 0x40 else d)
     in d)"

text \<open>The capture reads the register and then has the hardware clear its flags.\<close>

definition App_ResetReason_Capture :: "('w \<Rightarrow> u32) \<Rightarrow> ('w \<Rightarrow> 'w) \<Rightarrow> App_ResetReason_Snapshot \<Rightarrow> 'w
    \<Rightarrow> App_ResetReason_Snapshot \<times> 'w" where
  "App_ResetReason_Capture read_rsr clear_flags s w =
    (let rsr = read_rsr w;
         s = s\<lparr>raw_rsr := rsr, decoded_flags := App_ResetReason_Decode rsr, capture_count := capture_count s + 1\<rparr>
     in (s, clear_flags w))"

definition App_ResetReason_GetSnapshot :: "App_ResetReason_Snapshot option \<Rightarrow> App_ResetReason_Snapshot
    \<Rightarrow> App_ResetReason_Snapshot option" where
  "App_ResetReason_GetSnapshot snapshot s = map_option (\<lambda>_. s) snapshot"

definition App_ResetReason_WasIwdgReset :: "App_ResetReason_Snapshot \<Rightarrow> bool" where
  "App_ResetReason_WasIwdgReset s \<longleftrightarrow> decoded_flags s AND APP_RESET_REASON_IWDG \<noteq> 0"

section \<open>The record tells the truth\<close>

lemma power_of_two_nat: "0 < n \<Longrightarrow> n AND (n - 1) = 0 \<Longrightarrow> \<exists>k. n = 2 ^ k" for n :: nat
proof (induction n rule: less_induct)
  case (less n)
  show ?case
  proof (cases "even n")
    case True
    then obtain m where m: "n = 2 * m" by blast
    have pos: "0 < m" using less.prems(1) m by simp
    then have h: "(2 * m - 1) div 2 = m - 1" by presburger
    have "n AND (n - 1) = of_bool (odd n \<and> odd (n - 1)) + 2 * (n div 2 AND (n - 1) div 2)" by (rule and_nat_rec)
    then have "m AND (m - 1) = 0" using less.prems(2) m h by simp
    then obtain k where "m = 2 ^ k" using less.IH [of m] m pos by auto
    then have "n = 2 ^ Suc k" using m by simp
    then show ?thesis by blast
  next
    case False
    then obtain m where m: "n = Suc (2 * m)" by (metis oddE Suc_eq_plus1)
    have "n AND (n - 1) = of_bool (odd n \<and> odd (n - 1)) + 2 * (n div 2 AND (n - 1) div 2)" by (rule and_nat_rec)
    then have "m = 0" using less.prems(2) m by simp
    then have "n = 2 ^ 0" using m by simp
    then show ?thesis by blast
  qed
qed

lemma single_bit:
  assumes "App_Startup_IsSingleResource r"
  obtains n where "n < 32" "r = 2 ^ n"
proof -
  have r: "r \<noteq> 0" "r AND (r - 1) = 0" using assms by (simp_all add: App_Startup_IsSingleResource_def)
  have pos: "0 < unat r" using r(1) by (simp add: unat_gt_0)
  have "unat (r - 1) = unat r - 1" using r(1) by (intro unat_dec) (simp add: word_gt_0)
  then have "unat r AND (unat r - 1) = 0" using r(2) by (metis unat_0 unsigned_and_eq)
  then obtain n where n: "unat r = 2 ^ n" using power_of_two_nat [OF pos] by blast
  have n32: "n < 32"
  proof (rule ccontr)
    assume "\<not> n < 32"
    then have "2 ^ 32 \<le> unat r" using n power_increasing [of 32 n "2 :: nat"] by simp
    then show False using unat_u32_less [of r] by simp
  qed
  have "word_of_nat (unat r) = (2 ^ n :: u32)" by (simp add: n)
  then have "r = 2 ^ n" by simp
  then show thesis using that n32 by blast
qed

text \<open>The last result recorded for a resource.\<close>

definition startup_last :: "(u32 \<times> u32) list \<Rightarrow> nat \<Rightarrow> u32 option" where
  "startup_last calls n = map_option snd (find (\<lambda>c. fst c = 2 ^ n) (rev calls))"

lemma startup_last_snoc:
  "startup_last (calls @ [c]) n = (if fst c = 2 ^ n then Some (snd c) else startup_last calls n)"
  by (simp add: startup_last_def)

abbreviation startup_run :: "u32 \<Rightarrow> (u32 \<times> u32) list \<Rightarrow> App_Startup_Snapshot" where
  "startup_run expected calls \<equiv> fold (\<lambda>(r, res). App_Startup_Record r res) calls (App_Startup_Init expected app_startup_zero)"

definition startup_truth :: "u32 \<Rightarrow> (u32 \<times> u32) list \<Rightarrow> App_Startup_Snapshot \<Rightarrow> bool" where
  "startup_truth expected calls s \<longleftrightarrow> expected_mask s = expected \<and> (\<forall>n < 32.
     (bit (attempted_mask s) n \<longleftrightarrow> bit expected n \<and> startup_last calls n \<noteq> None)
     \<and> (bit (ready_mask s) n \<longleftrightarrow> bit expected n \<and> startup_last calls n = Some APP_STARTUP_RESULT_OK)
     \<and> (bit (failed_mask s) n \<longleftrightarrow> bit expected n \<and> startup_last calls n \<noteq> None \<and> startup_last calls n \<noteq> Some APP_STARTUP_RESULT_OK))"

lemma word_bits: "(w :: u32) = v \<longleftrightarrow> (\<forall>n < 32. bit w n \<longleftrightarrow> bit v n)"
  by (auto intro!: bit_word_eqI)

lemma single_and: "n < 32 \<Longrightarrow> 2 ^ n AND (w :: u32) = 0 \<longleftrightarrow> \<not> bit w n" "n < 32 \<Longrightarrow> w AND 2 ^ n = 0 \<longleftrightarrow> \<not> bit w n"
  by (auto simp: word_bits bit_simps)

lemma single_push: "n < 32 \<Longrightarrow> App_Startup_IsSingleResource (2 ^ n)"
proof -
  assume n: "n < 32"
  have "2 ^ n - 1 = (Bit_Operations.mask n :: u32)" by (simp add: mask_eq_exp_minus_1)
  moreover have "(2 ^ n :: u32) \<noteq> 0" using n by (auto simp: word_bits bit_simps)
  moreover have "2 ^ n AND (Bit_Operations.mask n :: u32) = 0" by (auto simp: word_bits bit_simps)
  ultimately show ?thesis by (simp only: App_Startup_IsSingleResource_def) simp
qed

lemma record_truth:
  assumes "startup_truth expected calls s"
  shows "startup_truth expected (calls @ [(r, res)]) (App_Startup_Record r res s)"
proof (cases "App_Startup_IsSingleResource r")
  case False
  then have "r \<noteq> 2 ^ n" if "n < 32" for n using single_push [OF that] by auto
  then show ?thesis using assms False by (simp add: startup_truth_def App_Startup_Record_def startup_last_snoc)
next
  case True
  then obtain k where k: "k < 32" "r = 2 ^ k" by (rule single_bit)
  have eq: "2 ^ k = (2 ^ n :: u32) \<longleftrightarrow> n = k" if "n < 32" for n
    using k(1) that by (auto simp: word_bits bit_simps)
  show ?thesis using assms True k eq
    by (auto simp: startup_truth_def App_Startup_Record_def startup_last_snoc single_and bit_simps Let_def)
qed


lemma run_truth: "startup_truth expected calls (startup_run expected calls)"
proof (induction calls rule: rev_induct)
  case Nil
  show ?case by (simp add: startup_truth_def App_Startup_Init_def app_startup_zero_def startup_last_def)
next
  case (snoc c cs)
  then show ?case using record_truth [of expected cs _ "fst c" "snd c"] by (simp add: case_prod_beta)
qed

definition startup_counted :: "u32 \<Rightarrow> (u32 \<times> u32) list \<Rightarrow> bool" where
  "startup_counted expected calls \<longleftrightarrow> (\<exists>n < 32. bit expected n \<and> startup_last calls n \<noteq> None)"

lemma run_degraded:
  assumes "startup_counted expected calls"
  shows "degraded (startup_run expected calls) \<longleftrightarrow>
    failed_mask (startup_run expected calls) \<noteq> 0
    \<or> attempted_mask (startup_run expected calls) AND expected \<noteq> expected"
  using assms
proof (induction calls rule: rev_induct)
  case Nil
  then show ?case by (simp add: startup_counted_def startup_last_def)
next
  case (snoc c cs)
  let ?s = "startup_run expected cs"
  have e: "expected_mask ?s = expected" using run_truth by (simp add: startup_truth_def)
  have run: "startup_run expected (cs @ [c]) = App_Startup_Record (fst c) (snd c) ?s" by (simp add: case_prod_beta)
  show ?case
  proof (cases "App_Startup_IsSingleResource (fst c) \<and> fst c AND expected \<noteq> 0")
    case True
    then show ?thesis unfolding run using e by (simp add: App_Startup_Record_def Let_def)
  next
    case False
    then have same: "startup_run expected (cs @ [c]) = ?s" unfolding run using e by (auto simp: App_Startup_Record_def)
    have "startup_counted expected cs"
    proof -
      from snoc.prems obtain n where n: "n < 32" "bit expected n" "startup_last (cs @ [c]) n \<noteq> None"
        by (auto simp: startup_counted_def)
      have "fst c \<noteq> 2 ^ n" using False n(1,2) single_push [of n] single_and [of n expected] by metis
      then show ?thesis using n by (auto simp: startup_counted_def startup_last_snoc)
    qed
    from snoc.IH [OF this] show ?thesis unfolding same .
  qed
qed

text \<open>
  Whatever is recorded during the start, and in whatever order, a resource is reported
  ready exactly if it is expected and its last recorded result was OK; and as soon as anything
  expected has been recorded, the start is reported degraded exactly if some expected resource
  has failed last or has not been recorded at all.
\<close>

theorem startup_record_is_truthful:
  assumes "s = startup_run expected calls" "n < 32"
  shows "(App_Startup_IsReady (2 ^ n) s \<longleftrightarrow> bit expected n \<and> startup_last calls n = Some APP_STARTUP_RESULT_OK)
    \<and> (startup_counted expected calls \<longrightarrow>
        (degraded s \<longleftrightarrow> (\<exists>k < 32. bit expected k \<and> startup_last calls k \<noteq> Some APP_STARTUP_RESULT_OK)))"
proof (rule conjI)
  note truth = run_truth [of expected calls, folded assms(1)]
  show "App_Startup_IsReady (2 ^ n) s \<longleftrightarrow> bit expected n \<and> startup_last calls n = Some APP_STARTUP_RESULT_OK"
    using truth assms(2) by (simp add: App_Startup_IsReady_def single_push single_and startup_truth_def)
  show "startup_counted expected calls \<longrightarrow>
      (degraded s \<longleftrightarrow> (\<exists>k < 32. bit expected k \<and> startup_last calls k \<noteq> Some APP_STARTUP_RESULT_OK))"
  proof
    assume c: "startup_counted expected calls"
    have "failed_mask s \<noteq> 0 \<longleftrightarrow> (\<exists>k < 32. bit (failed_mask s) k)" by (simp add: word_bits)
    moreover have "attempted_mask s AND expected \<noteq> expected \<longleftrightarrow> (\<exists>k < 32. bit expected k \<and> \<not> bit (attempted_mask s) k)"
      by (auto simp: word_bits bit_simps)
    ultimately show "degraded s \<longleftrightarrow> (\<exists>k < 32. bit expected k \<and> startup_last calls k \<noteq> Some APP_STARTUP_RESULT_OK)"
      using run_degraded [OF c, folded assms(1)] truth by (auto simp: startup_truth_def)
  qed
qed

theorem startup_record_is_truthful_witness:
  "App_Startup_IsReady 2 (startup_run 3 [(2, 0x201), (1, 0), (2, 0), (64, 1)])
   \<and> \<not> degraded (startup_run 3 [(2, 0x201), (1, 0), (2, 0), (64, 1)])"
proof -
  let ?calls = "[(2, 0x201), (1, 0), (2, 0), (64, 1)] :: (u32 \<times> u32) list"
  have last: "startup_last ?calls 0 = Some 0" "startup_last ?calls 1 = Some 0" by (simp_all add: startup_last_def)
  have bits: "bit (3 :: u32) k \<longleftrightarrow> k = 0 \<or> k = 1" for k by (cases k) (simp_all add: bit_Suc bit_1_iff)
  have c: "startup_counted 3 ?calls" using last(1) unfolding startup_counted_def by (intro exI [of _ 0]) (simp add: bits)
  have all: "startup_last ?calls k = Some APP_STARTUP_RESULT_OK" if "bit (3 :: u32) k" for k
    using that last bits [of k] by (auto simp: APP_STARTUP_RESULT_OK_def)
  have one: "bit (3 :: u32) 1" using bits by simp
  have "App_Startup_IsReady (2 ^ 1) (startup_run 3 ?calls) \<and> \<not> degraded (startup_run 3 ?calls)"
    using startup_record_is_truthful [where expected = 3 and calls = ?calls and n = 1, OF refl] c all one by auto
  then show ?thesis unfolding power_one_right .
qed

end
