(* ===== verification/AppTiming.thy ===== *)
theory AppTiming
  imports Prelude
begin

text \<open>
  The run time measurement of \<open>src/Core/Src/app_timing.c\<close>: statistics per service of the main loop and
  a histogram of the command latencies with nine bins, from which percentiles are read. The
  variable \<open>g_appTiming\<close> is the record \<open>App_Timing_Snapshot\<close>. The cycle counter of the core is an
  argument: whether it could be enabled, and its value.
\<close>

section \<open>Data\<close>

definition APP_TIMING_SERVICE_COUNT :: u32 where "APP_TIMING_SERVICE_COUNT = 8"
definition APP_TIMING_ACK_BIN_COUNT :: u32 where "APP_TIMING_ACK_BIN_COUNT = 9"

record App_Timing_ServiceStats =
  sample_count :: u32
  current_cycles :: u32
  minimum_cycles :: u32
  maximum_cycles :: u32
  budget_cycles :: u32
  overrun_count :: u32

record App_Timing_AckStats =
  ack_sample_count :: u32
  ack_current_cycles :: u32
  ack_minimum_cycles :: u32
  ack_maximum_cycles :: u32
  bins :: "u32 list"

record App_Timing_Snapshot =
  core_clock_hz :: u32
  init_count :: u32
  service :: "App_Timing_ServiceStats list"
  ack :: App_Timing_AckStats
  enabled :: bool

record App_Timing_AckSummary =
  sum_sample_count :: u32
  current_us :: u32
  p50_us :: u32
  p95_us :: u32
  p99_us :: u32
  maximum_us :: u32

definition service_budget_us :: "u32 list" where
  "service_budget_us = [50000, 12000, 2000, 12000, 1000, 25000, 5000, 1000]"

definition ack_bin_upper_us :: "u32 list" where
  "ack_bin_upper_us = [100, 250, 500, 1000, 2000, 5000, 10000, 25000]"

definition app_timing_service_zero :: App_Timing_ServiceStats where
  "app_timing_service_zero = \<lparr>sample_count = 0, current_cycles = 0, minimum_cycles = 0, maximum_cycles = 0,
     budget_cycles = 0, overrun_count = 0\<rparr>"

definition app_timing_zero :: App_Timing_Snapshot where
  "app_timing_zero = \<lparr>core_clock_hz = 0, init_count = 0, service = replicate 8 app_timing_service_zero,
     ack = \<lparr>ack_sample_count = 0, ack_current_cycles = 0, ack_minimum_cycles = 0, ack_maximum_cycles = 0,
       bins = replicate 9 0\<rparr>, enabled = False\<rparr>"

section \<open>Operations\<close>

definition App_Timing_MicrosecondsToCycles :: "u32 \<Rightarrow> App_Timing_Snapshot \<Rightarrow> u32" where
  "App_Timing_MicrosecondsToCycles microseconds s =
    (let cycles = (ucast (core_clock_hz s) * ucast microseconds + 999999) div 1000000 :: u64
     in if cycles > 0xFFFFFFFF then 0xFFFFFFFF else ucast cycles)"

definition App_Timing_CyclesToMicroseconds :: "u32 \<Rightarrow> App_Timing_Snapshot \<Rightarrow> u32" where
  "App_Timing_CyclesToMicroseconds cycles s =
    (if core_clock_hz s = 0 then 0
     else let microseconds = (ucast cycles * 1000000 + ucast (core_clock_hz s) - 1) div ucast (core_clock_hz s) :: u64
       in if microseconds > 0xFFFFFFFF then 0xFFFFFFFF else ucast microseconds)"

definition App_Timing_Init :: "bool \<Rightarrow> u32 \<Rightarrow> App_Timing_Snapshot \<Rightarrow> App_Timing_Snapshot" where
  "App_Timing_Init counter_enabled hz s =
    (let s = app_timing_zero\<lparr>core_clock_hz := hz, init_count := 1\<rparr>;
         s = fold (\<lambda>i s. s\<lparr>service := (service s)[i := (service s ! i)\<lparr>minimum_cycles := 0xFFFFFFFF,
               budget_cycles := App_Timing_MicrosecondsToCycles (service_budget_us ! i) s\<rparr>]\<rparr>) [0..<8] s;
         s = s\<lparr>ack := (ack s)\<lparr>ack_minimum_cycles := 0xFFFFFFFF\<rparr>\<rparr>
     in s\<lparr>enabled := counter_enabled\<rparr>)"

definition App_Timing_RecordServiceCycles :: "u32 \<Rightarrow> u32 \<Rightarrow> App_Timing_Snapshot \<Rightarrow> App_Timing_Snapshot" where
  "App_Timing_RecordServiceCycles srv elapsed s =
    (if \<not> enabled s \<or> srv \<ge> APP_TIMING_SERVICE_COUNT then s
     else
      let st = service s ! unat srv;
          st = st\<lparr>sample_count := sample_count st + 1, current_cycles := elapsed\<rparr>;
          st = (if elapsed < minimum_cycles st then st\<lparr>minimum_cycles := elapsed\<rparr> else st);
          st = (if elapsed > maximum_cycles st then st\<lparr>maximum_cycles := elapsed\<rparr> else st);
          st = (if elapsed > budget_cycles st then st\<lparr>overrun_count := overrun_count st + 1\<rparr> else st)
      in s\<lparr>service := (service s)[unat srv := st]\<rparr>)"

definition App_Timing_RecordElapsed :: "u32 \<Rightarrow> u32 \<Rightarrow> u32 \<Rightarrow> App_Timing_Snapshot \<Rightarrow> App_Timing_Snapshot" where
  "App_Timing_RecordElapsed srv start_cycles end_cycles = App_Timing_RecordServiceCycles srv (end_cycles - start_cycles)"

definition App_Timing_Begin :: "u32 \<Rightarrow> u32" where
  "App_Timing_Begin counter = counter"

definition App_Timing_End :: "u32 \<Rightarrow> u32 \<Rightarrow> u32 \<Rightarrow> App_Timing_Snapshot \<Rightarrow> App_Timing_Snapshot" where
  "App_Timing_End counter srv start_cycles = App_Timing_RecordElapsed srv start_cycles counter"

text \<open>The bin of a latency: the first whose upper bound it does not exceed, or the last one.\<close>

definition app_timing_bin :: "u32 \<Rightarrow> nat" where
  "app_timing_bin elapsed_us = (case List.find (\<lambda>b. elapsed_us \<le> ack_bin_upper_us ! b) [0..<8] of
     Some b \<Rightarrow> b | None \<Rightarrow> 8)"

definition App_Timing_RecordAckElapsed :: "u32 \<Rightarrow> u32 \<Rightarrow> App_Timing_Snapshot \<Rightarrow> App_Timing_Snapshot" where
  "App_Timing_RecordAckElapsed start_cycles end_cycles s =
    (if \<not> enabled s then s
     else
      let elapsed = end_cycles - start_cycles;
          elapsed_us = App_Timing_CyclesToMicroseconds elapsed s;
          st = ack s;
          st = st\<lparr>ack_sample_count := ack_sample_count st + 1, ack_current_cycles := elapsed\<rparr>;
          st = (if elapsed < ack_minimum_cycles st then st\<lparr>ack_minimum_cycles := elapsed\<rparr> else st);
          st = (if elapsed > ack_maximum_cycles st then st\<lparr>ack_maximum_cycles := elapsed\<rparr> else st);
          b = app_timing_bin elapsed_us
      in s\<lparr>ack := st\<lparr>bins := (bins st)[b := bins st ! b + 1]\<rparr>\<rparr>)"

text \<open>The loop over the bins: \<open>n\<close> bins are left, the next one is bin \<open>9 - n\<close>.\<close>

fun app_timing_rank_loop :: "nat \<Rightarrow> u32 \<Rightarrow> u32 \<Rightarrow> App_Timing_Snapshot \<Rightarrow> u32" where
  "app_timing_rank_loop 0 cumulative rank s = App_Timing_CyclesToMicroseconds (ack_maximum_cycles (ack s)) s"
| "app_timing_rank_loop (Suc n) cumulative rank s =
    (let bin = 9 - Suc n; cumulative = cumulative + bins (ack s) ! bin
     in if cumulative \<ge> rank
        then (if bin < 8 then ack_bin_upper_us ! bin
              else App_Timing_CyclesToMicroseconds (ack_maximum_cycles (ack s)) s)
        else app_timing_rank_loop n cumulative rank s)"

definition App_Timing_GetPercentileUs :: "u32 \<Rightarrow> App_Timing_Snapshot \<Rightarrow> u32" where
  "App_Timing_GetPercentileUs percentile s =
    (if ack_sample_count (ack s) = 0 then 0
     else
      let scaled_rank = ucast (ack_sample_count (ack s)) * ucast percentile :: u64;
          rank = ucast ((scaled_rank + 99) div 100)
      in app_timing_rank_loop 9 0 rank s)"

definition App_Timing_GetSnapshot :: "App_Timing_Snapshot option \<Rightarrow> App_Timing_Snapshot \<Rightarrow> App_Timing_Snapshot option" where
  "App_Timing_GetSnapshot snapshot s = map_option (\<lambda>_. s
     \<lparr>service := map (\<lambda>st. st\<lparr>minimum_cycles := if sample_count st = 0 then 0 else minimum_cycles st\<rparr>) (service s),
      ack := (ack s)\<lparr>ack_minimum_cycles := if ack_sample_count (ack s) = 0 then 0 else ack_minimum_cycles (ack s)\<rparr>\<rparr>) snapshot"

definition App_Timing_GetAckSummary :: "App_Timing_AckSummary option \<Rightarrow> App_Timing_Snapshot \<Rightarrow> App_Timing_AckSummary option" where
  "App_Timing_GetAckSummary summary s = map_option (\<lambda>_.
     \<lparr>sum_sample_count = ack_sample_count (ack s),
      current_us = App_Timing_CyclesToMicroseconds (ack_current_cycles (ack s)) s,
      p50_us = App_Timing_GetPercentileUs 50 s, p95_us = App_Timing_GetPercentileUs 95 s,
      p99_us = App_Timing_GetPercentileUs 99 s,
      maximum_us = App_Timing_CyclesToMicroseconds (ack_maximum_cycles (ack s)) s\<rparr>) summary"

section \<open>Conversions\<close>

lemma cycles_to_us:
  assumes "core_clock_hz s \<noteq> 0"
  shows "unat (App_Timing_CyclesToMicroseconds c s)
    = min (2 ^ 32 - 1) ((unat c * 1000000 + unat (core_clock_hz s) - 1) div unat (core_clock_hz s))"
proof -
  let ?h = "core_clock_hz s"
  have h: "0 < unat ?h" "unat ?h < 4294967296" "unat c < 4294967296" using assms by (simp_all add: unat_gt_0)
  have up: "unat (ucast c :: u64) = unat c" "unat (ucast ?h :: u64) = unat ?h" by (simp_all add: unat_ucast_up)
  have small: "unat c * 1000000 < 18446744073709551616" "unat c * 1000000 + unat ?h < 18446744073709551616"
    using h by linarith+
  have m: "unat (ucast c * 1000000 :: u64) = unat c * 1000000" using small by (simp add: unat_word_ariths up)
  have a: "unat (ucast c * 1000000 + ucast ?h :: u64) = unat c * 1000000 + unat ?h"
    using small by (intro trans [OF unat_add_small]) (simp_all add: up m)
  have d: "unat (ucast c * 1000000 + ucast ?h - 1 :: u64) = unat c * 1000000 + unat ?h - 1"
    using h a by (intro trans [OF unat_dec]) (simp_all add: word_less_nat_alt)
  define q where "q = (ucast c * 1000000 + ucast ?h - 1 :: u64) div ucast ?h"
  have q: "unat q = (unat c * 1000000 + unat ?h - 1) div unat ?h" by (simp add: q_def unat_div_distrib d up)
  show ?thesis
  proof (cases "q > 0xFFFFFFFF")
    case True
    then have "unat q > 4294967295" by (simp add: word_less_nat_alt)
    then show ?thesis unfolding q [symmetric] using assms True by (simp add: App_Timing_CyclesToMicroseconds_def q_def [symmetric])
  next
    case False
    then have le: "unat q \<le> 4294967295" by (simp add: word_less_nat_alt)
    then have "unat (ucast q :: u32) = unat q" by (intro unat_ucast_small) simp
    then show ?thesis unfolding q [symmetric] using assms False le
      by (simp add: App_Timing_CyclesToMicroseconds_def q_def [symmetric])
  qed
qed

lemma cycles_to_us_mono:
  assumes "core_clock_hz s \<noteq> 0" "c \<le> d"
  shows "App_Timing_CyclesToMicroseconds c s \<le> App_Timing_CyclesToMicroseconds d s"
proof -
  have "unat c \<le> unat d" using assms(2) by (simp add: word_le_nat_alt)
  then have "unat c * 1000000 + unat (core_clock_hz s) - 1 \<le> unat d * 1000000 + unat (core_clock_hz s) - 1" by simp
  from div_le_mono [OF this, of "unat (core_clock_hz s)"] show ?thesis
    unfolding word_le_nat_alt cycles_to_us [OF assms(1)] by (rule min.mono [OF order_refl])
qed

section \<open>The histogram\<close>

lemma find_upt: "List.find P [a..<b] = Some k \<longleftrightarrow> a \<le> k \<and> k < b \<and> P k \<and> (\<forall>j. a \<le> j \<longrightarrow> j < k \<longrightarrow> \<not> P j)"
proof
  assume "List.find P [a..<b] = Some k"
  then obtain i where i: "i < length [a..<b]" "P ([a..<b] ! i)" "k = [a..<b] ! i" "\<forall>j < i. \<not> P ([a..<b] ! j)"
    by (auto simp: find_Some_iff)
  have "\<not> P j" if "a \<le> j" "j < k" for j
    using i(1,3,4) that by (auto dest!: spec [of _ "j - a"])
  then show "a \<le> k \<and> k < b \<and> P k \<and> (\<forall>j. a \<le> j \<longrightarrow> j < k \<longrightarrow> \<not> P j)" using i by auto
next
  assume k: "a \<le> k \<and> k < b \<and> P k \<and> (\<forall>j. a \<le> j \<longrightarrow> j < k \<longrightarrow> \<not> P j)"
  then show "List.find P [a..<b] = Some k" by (auto simp: find_Some_iff intro!: exI [of _ "k - a"])
qed

lemma length_bin_upper: "length ack_bin_upper_us = 8"
  by (simp add: ack_bin_upper_us_def)

lemma bins_increase: "a \<le> b \<Longrightarrow> b < 8 \<Longrightarrow> ack_bin_upper_us ! a \<le> ack_bin_upper_us ! b"
proof -
  assume "a \<le> b" "b < 8"
  moreover have "sorted (map unat ack_bin_upper_us)" by (simp add: ack_bin_upper_us_def)
  ultimately have "map unat ack_bin_upper_us ! a \<le> map unat ack_bin_upper_us ! b"
    by (intro sorted_nth_mono) (simp_all add: length_bin_upper)
  then show "ack_bin_upper_us ! a \<le> ack_bin_upper_us ! b" using \<open>a \<le> b\<close> \<open>b < 8\<close>
    by (simp add: word_le_nat_alt length_bin_upper)
qed

lemma bin_le: "b < 8 \<Longrightarrow> app_timing_bin us \<le> b \<longleftrightarrow> us \<le> ack_bin_upper_us ! b"
proof (cases "List.find (\<lambda>b. us \<le> ack_bin_upper_us ! b) [0..<8]")
  case None
  assume "b < 8"
  then show ?thesis using None None [unfolded find_None_iff] by (simp add: app_timing_bin_def)
next
  case (Some k)
  assume b: "b < 8"
  have k: "k < 8" "us \<le> ack_bin_upper_us ! k" "\<forall>j < k. \<not> us \<le> ack_bin_upper_us ! j" using Some by (auto simp: find_upt)
  have "k \<le> b \<longleftrightarrow> us \<le> ack_bin_upper_us ! b" using k b bins_increase [of k b] by (metis not_less order_trans)
  then show ?thesis using Some by (simp add: app_timing_bin_def)
qed

lemma bin_range: "app_timing_bin us < 9"
  by (auto simp: app_timing_bin_def find_upt split: option.splits)

text \<open>The recorded latencies, in microseconds as the code rounds them up.\<close>

abbreviation ack_us :: "App_Timing_Snapshot \<Rightarrow> u32 \<times> u32 \<Rightarrow> u32" where
  "ack_us s x \<equiv> App_Timing_CyclesToMicroseconds (snd x - fst x) s"

definition ack_history :: "(u32 \<times> u32) list \<Rightarrow> App_Timing_Snapshot \<Rightarrow> bool" where
  "ack_history xs s \<longleftrightarrow> enabled s \<and> length (bins (ack s)) = 9
     \<and> ack_sample_count (ack s) = of_nat (length xs)
     \<and> (\<forall>b < 9. bins (ack s) ! b = of_nat (length (filter (\<lambda>x. app_timing_bin (ack_us s x) = b) xs)))
     \<and> (\<forall>x \<in> set xs. snd x - fst x \<le> ack_maximum_cycles (ack s))
     \<and> (xs = [] \<longrightarrow> ack_maximum_cycles (ack s) = 0)
     \<and> (xs \<noteq> [] \<longrightarrow> (\<exists>x \<in> set xs. snd x - fst x = ack_maximum_cycles (ack s)))"

lemma init_history: "ack_history [] (App_Timing_Init True hz s)"
proof -
  have "ack (fold (\<lambda>i s. s\<lparr>service := (service s)[i := f i s]\<rparr>) is t) = ack t" for f "is" and t :: App_Timing_Snapshot
    by (induction "is" arbitrary: t) simp_all
  then show ?thesis by (simp add: App_Timing_Init_def Let_def ack_history_def app_timing_zero_def)
qed

lemma record_history:
  assumes "ack_history xs s"
  shows "ack_history (xs @ [x]) (App_Timing_RecordAckElapsed (fst x) (snd x) s)"
proof -
  let ?s = "App_Timing_RecordAckElapsed (fst x) (snd x) s"
  have hz: "core_clock_hz ?s = core_clock_hz s" by (simp add: App_Timing_RecordAckElapsed_def Let_def)
  then have us: "App_Timing_CyclesToMicroseconds c ?s = App_Timing_CyclesToMicroseconds c s" for c
    by (simp add: App_Timing_CyclesToMicroseconds_def)
  show ?thesis using assms bin_range [of "ack_us s x"] unfolding ack_history_def us
    by (cases "xs = []") (force simp: App_Timing_RecordAckElapsed_def Let_def nth_list_update not_less)+
qed


abbreviation ack_run :: "u32 \<Rightarrow> App_Timing_Snapshot \<Rightarrow> (u32 \<times> u32) list \<Rightarrow> App_Timing_Snapshot" where
  "ack_run hz s0 xs \<equiv> fold (\<lambda>x. App_Timing_RecordAckElapsed (fst x) (snd x)) xs (App_Timing_Init True hz s0)"

lemma timing_run_history: "ack_history xs (ack_run hz s0 xs)"
  by (induction xs rule: rev_induct) (simp_all add: init_history record_history)

lemma run_clock: "core_clock_hz (ack_run hz s0 xs) = hz"
proof (induction xs rule: rev_induct)
  case Nil
  have "core_clock_hz (fold (\<lambda>i s. s\<lparr>service := (service s)[i := f i s]\<rparr>) is t) = core_clock_hz t"
    for f "is" and t :: App_Timing_Snapshot by (induction "is" arbitrary: t) simp_all
  then show ?case by (simp add: App_Timing_Init_def Let_def)
next
  case (snoc x xs)
  then show ?case by (simp add: App_Timing_RecordAckElapsed_def Let_def)
qed

text \<open>The number of samples in the first bins.\<close>

abbreviation ack_below :: "App_Timing_Snapshot \<Rightarrow> (u32 \<times> u32) list \<Rightarrow> nat \<Rightarrow> nat" where
  "ack_below s xs b \<equiv> length (filter (\<lambda>x. app_timing_bin (ack_us s x) < b) xs)"

lemma below_Suc: "ack_below s xs (Suc b) = ack_below s xs b + length (filter (\<lambda>x. app_timing_bin (ack_us s x) = b) xs)"
  by (induction xs) (auto simp: less_Suc_eq)

lemma rank_loop:
  assumes hist: "ack_history xs s" and len: "length xs < 2 ^ 32" and rank: "unat rank \<le> length xs"
  shows "n \<le> 9 \<Longrightarrow> n \<noteq> 0 \<Longrightarrow> (\<forall>b < 9 - n. ack_below s xs (Suc b) < unat rank) \<Longrightarrow>
    \<exists>b < 9. unat rank \<le> ack_below s xs (Suc b) \<and> (\<forall>a < b. ack_below s xs (Suc a) < unat rank)
      \<and> app_timing_rank_loop n (of_nat (ack_below s xs (9 - n))) rank s
        = (if b < 8 then ack_bin_upper_us ! b else App_Timing_CyclesToMicroseconds (ack_maximum_cycles (ack s)) s)"
proof (induction n)
  case (Suc n)
  define b where "b = 9 - Suc n"
  have b: "b < 9" using Suc.prems by (simp add: b_def)
  have bins: "bins (ack s) ! b = of_nat (length (filter (\<lambda>x. app_timing_bin (ack_us s x) = b) xs))"
    using hist b unfolding ack_history_def by blast
  have cum: "(of_nat (ack_below s xs b) :: u32) + bins (ack s) ! b = of_nat (ack_below s xs (Suc b))"
    unfolding bins below_Suc by simp
  have "ack_below s xs (Suc b) < 2 ^ 32" by (rule order_le_less_trans [OF length_filter_le len])
  then have u: "unat (of_nat (ack_below s xs (Suc b)) :: u32) = ack_below s xs (Suc b)"
    by (intro trans [OF unat_of_nat] mod_less) simp
  have loop: "app_timing_rank_loop (Suc n) (of_nat (ack_below s xs b)) rank s
    = (if rank \<le> of_nat (ack_below s xs (Suc b)) then (if b < 8 then ack_bin_upper_us ! b
          else App_Timing_CyclesToMicroseconds (ack_maximum_cycles (ack s)) s)
       else app_timing_rank_loop n (of_nat (ack_below s xs (Suc b))) rank s)"
    unfolding app_timing_rank_loop.simps Let_def b_def [symmetric] cum ..
  show ?case
  proof (cases "unat rank \<le> ack_below s xs (Suc b)")
    case True
    then show ?thesis using Suc.prems(3) b unfolding b_def [symmetric] loop by (auto simp: word_le_nat_alt u)
  next
    case False
    have full: "ack_below s xs 9 = length xs" using bin_range by (simp add: filter_True)
    have n: "n \<noteq> 0"
    proof
      assume "n = 0"
      then have "Suc b = 9" by (simp add: b_def)
      have "ack_below s xs (Suc b) = length xs" unfolding \<open>Suc b = 9\<close> by (rule full)
      then show False using False rank by (simp only: not_True_eq_False)
    qed
    have sb: "Suc b = 9 - n" using Suc.prems(1) by (simp add: b_def)
    have "\<forall>a < 9 - n. ack_below s xs (Suc a) < unat rank" 
      using Suc.prems(3) False unfolding sb [symmetric] b_def [symmetric] less_Suc_eq not_le by blast
    from Suc.IH [OF _ n this] Suc.prems(1) show ?thesis using False unfolding b_def [symmetric] loop sb [symmetric]
      by (simp add: word_le_nat_alt u)
  qed
qed simp

text \<open>
  C22. The percentiles of the command latency are conservative and as sharp as the bins allow.
  After any sequence of measurements, the reported p-th percentile is a latency that at least p
  percent of the measurements did not exceed (in whole microseconds, rounded up); no bin bound
  below it has this property; and it is a bin bound or else exactly the longest measured latency.
\<close>

theorem timing_percentile_bounds:
  assumes "s = ack_run hz start xs" "hz \<noteq> 0" "xs \<noteq> []" "length xs < 2 ^ 32" "1 \<le> unat p" "unat p \<le> 100"
    and "r = App_Timing_GetPercentileUs p s"
  shows "length xs * unat p \<le> 100 * length (filter (\<lambda>x. ack_us s x \<le> r) xs)
    \<and> (\<forall>b \<in> set ack_bin_upper_us. b < r \<longrightarrow> 100 * length (filter (\<lambda>x. ack_us s x \<le> b) xs) < length xs * unat p)
    \<and> (r \<in> set ack_bin_upper_us \<or> r = Max (ack_us s ` set xs))"
proof -
  let ?n = "length xs"
  have hist: "ack_history xs s" and hz: "core_clock_hz s \<noteq> 0" using timing_run_history run_clock assms(1,2) by simp_all
  have cnt: "ack_sample_count (ack s) = of_nat ?n" using hist by (simp add: ack_history_def)
  have n: "unat (of_nat ?n :: u32) = ?n" "0 < ?n" using assms(3,4) by (simp_all add: unat_of_nat)
  have nz: "ack_sample_count (ack s) \<noteq> 0" unfolding cnt using n by (metis less_numeral_extra(3) unat_0)
  define rank :: u32 where "rank = ucast ((ucast (of_nat ?n :: u32) * ucast p + 99) div 100 :: u64)"
  have np: "?n * unat p \<le> 4294967295 * 100" using assms(4,6) by (intro mult_le_mono) simp_all
  have up: "unat (ucast (of_nat ?n :: u32) :: u64) = ?n" "unat (ucast p :: u64) = unat p" by (simp_all add: unat_ucast_up n)
  have m: "unat (ucast (of_nat ?n :: u32) * ucast p :: u64) = ?n * unat p" using np by (simp add: unat_word_ariths up)
  have a: "unat (ucast (of_nat ?n :: u32) * ucast p + 99 :: u64) = ?n * unat p + 99"
    using np by (intro trans [OF unat_add_small]) (simp_all add: m)
  have d: "unat ((ucast (of_nat ?n :: u32) * ucast p + 99) div 100 :: u64) = (?n * unat p + 99) div 100"
    by (simp add: unat_div_distrib a)
  have "?n * unat p \<le> ?n * 100" using assms(6) by simp
  then have le: "(?n * unat p + 99) div 100 \<le> ?n" by linarith
  have rank: "unat rank = (?n * unat p + 99) div 100" unfolding rank_def using le assms(4)
    by (intro trans [OF unat_ucast_small]) (simp_all add: d)
  have reach: "unat rank \<le> k \<longleftrightarrow> ?n * unat p \<le> 100 * k" for k unfolding rank by linarith
  have r: "r = app_timing_rank_loop 9 (of_nat (ack_below s xs (9 - 9))) rank s"
    using nz by (simp add: assms(7) App_Timing_GetPercentileUs_def Let_def cnt rank_def)
  from rank_loop [OF hist assms(4) _, of rank 9] le rank obtain b where b: "b < 9" "unat rank \<le> ack_below s xs (Suc b)"
    "\<forall>a < b. ack_below s xs (Suc a) < unat rank"
    and rb: "r = (if b < 8 then ack_bin_upper_us ! b else App_Timing_CyclesToMicroseconds (ack_maximum_cycles (ack s)) s)"
    unfolding r by auto
  have below: "ack_below s xs (Suc k) = length (filter (\<lambda>x. ack_us s x \<le> ack_bin_upper_us ! k) xs)" if "k < 8" for k
    using bin_le [OF that] by (simp add: less_Suc_eq_le)
  have max: "\<forall>x \<in> set xs. ack_us s x \<le> App_Timing_CyclesToMicroseconds (ack_maximum_cycles (ack s)) s"
    using hist cycles_to_us_mono [OF hz] by (simp add: ack_history_def)
  have first: "?n * unat p \<le> 100 * length (filter (\<lambda>x. ack_us s x \<le> r) xs)"
  proof (cases "b < 8")
    case True
    then show ?thesis using b(2) below [OF True] rb reach by simp
  next
    case False
    then have "filter (\<lambda>x. ack_us s x \<le> r) xs = xs" using max rb by (simp add: filter_True)
    then show ?thesis using assms(6) by simp
  qed
  have second: "100 * length (filter (\<lambda>x. ack_us s x \<le> ack_bin_upper_us ! k) xs) < ?n * unat p"
    if "k < 8" "ack_bin_upper_us ! k < r" for k
  proof -
    have "k < b"
    proof (rule ccontr)
      assume "\<not> k < b"
      then have "b \<le> k" "b < 8" using that(1) by simp_all
      then have "r \<le> ack_bin_upper_us ! k" using rb bins_increase [of b k] that(1) by simp
      then show False using that(2) by simp
    qed
    then have "\<not> unat rank \<le> ack_below s xs (Suc k)" using b(3) by (simp only: not_le)
    then show ?thesis unfolding below [OF that(1)] reach by simp
  qed
  have third: "r \<in> set ack_bin_upper_us \<or> r = Max (ack_us s ` set xs)"
  proof (cases "b < 8")
    case True
    then show ?thesis using rb by (simp add: length_bin_upper)
  next
    case False
    obtain x where "x \<in> set xs" "snd x - fst x = ack_maximum_cycles (ack s)" using hist assms(3) unfolding ack_history_def by blast
    then have "r \<in> ack_us s ` set xs" using False rb by (intro image_eqI [of _ _ x]) simp_all
    moreover have "\<forall>y \<in> ack_us s ` set xs. y \<le> r" using max False rb by simp
    ultimately show ?thesis by (intro disjI2 Max_eqI [symmetric]) auto
  qed
  have "\<forall>b \<in> set ack_bin_upper_us. b < r \<longrightarrow> 100 * length (filter (\<lambda>x. ack_us s x \<le> b) xs) < ?n * unat p"
  proof (intro ballI impI)
    fix b assume "b \<in> set ack_bin_upper_us" and r: "b < r"
    then obtain k where k: "k < 8" and b: "b = ack_bin_upper_us ! k" by (metis in_set_conv_nth length_bin_upper)
    show "100 * length (filter (\<lambda>x. ack_us s x \<le> b) xs) < ?n * unat p" unfolding b by (rule second [OF k]) (use r b in simp)
  qed
  with first third show ?thesis by (intro conjI)
qed

definition demo_latencies :: "(u32 \<times> u32) list" where
  "demo_latencies = [(0, 90), (10, 310), (4294967286, 600), (5, 45)]"

theorem timing_percentile_bounds_witness:
  "\<exists>r. r = App_Timing_GetPercentileUs 50 (ack_run 1000000 app_timing_zero demo_latencies)
     \<and> 2 \<le> length (filter (\<lambda>x. ack_us (ack_run 1000000 app_timing_zero demo_latencies) x \<le> r) demo_latencies)"
proof -
  from timing_percentile_bounds [where start = app_timing_zero and xs = demo_latencies and hz = 1000000 and p = 50, OF refl _ _ _ _ _ refl]
  have "length demo_latencies * 50 \<le> 100 * length (filter (\<lambda>x. ack_us (ack_run 1000000 app_timing_zero demo_latencies) x
      \<le> App_Timing_GetPercentileUs 50 (ack_run 1000000 app_timing_zero demo_latencies)) demo_latencies)"
    by (simp add: demo_latencies_def)
  then show ?thesis by (intro exI conjI [OF refl]) (simp add: demo_latencies_def)
qed

end
