(* ===== verification/AppDiagnostics.thy ===== *)
theory AppDiagnostics
  imports CanTransport AppTiming AppLog
begin

text \<open>
  The health snapshot of the firmware, \<open>src/Core/Src/app_diagnostics.c\<close>: it collects the counters of
  CAN reception (\<open>CAN_App_RxStats_t\<close> of \<open>can_app.h\<close>), of the transmit queue and of the run time
  measurement, latches issue flags and reports every growth of a monitored counter to the event
  log. The file's static variables are the record \<open>App_Diagnostics\<close>. The log is an argument (source,
  severity, event, two data words); \<open>diag_push\<close> is the event log of \<open>AppLog\<close>.
\<close>

section \<open>Data\<close>

definition APP_LOG_SOURCE_SYSTEM :: u32 where "APP_LOG_SOURCE_SYSTEM = 0"
definition APP_LOG_SOURCE_CAN :: u32 where "APP_LOG_SOURCE_CAN = 1"
definition APP_LOG_SEVERITY_WARNING :: u32 where "APP_LOG_SEVERITY_WARNING = 1"
definition APP_LOG_EVENT_TIMING_OVERRUN :: u32 where "APP_LOG_EVENT_TIMING_OVERRUN = 0x0006"
definition APP_LOG_EVENT_CAN_TX_QUEUE_OVERFLOW :: u32 where "APP_LOG_EVENT_CAN_TX_QUEUE_OVERFLOW = 0x0104"
definition APP_LOG_EVENT_CAN_RX_BUDGET_EXHAUSTED :: u32 where "APP_LOG_EVENT_CAN_RX_BUDGET_EXHAUSTED = 0x0108"
definition APP_LOG_EVENT_CAN_RX_FIFO_WATERMARK :: u32 where "APP_LOG_EVENT_CAN_RX_FIFO_WATERMARK = 0x010A"
definition APP_LOG_EVENT_CAN_RX_FIFO_FULL :: u32 where "APP_LOG_EVENT_CAN_RX_FIFO_FULL = 0x010B"
definition APP_LOG_EVENT_CAN_RX_MESSAGE_LOST :: u32 where "APP_LOG_EVENT_CAN_RX_MESSAGE_LOST = 0x010C"

lemmas diag_event_consts = APP_LOG_EVENT_TIMING_OVERRUN_def APP_LOG_EVENT_CAN_TX_QUEUE_OVERFLOW_def
  APP_LOG_EVENT_CAN_RX_BUDGET_EXHAUSTED_def APP_LOG_EVENT_CAN_RX_FIFO_WATERMARK_def
  APP_LOG_EVENT_CAN_RX_FIFO_FULL_def APP_LOG_EVENT_CAN_RX_MESSAGE_LOST_def

definition APP_DIAGNOSTICS_ISSUE_CAN_RX_HAL :: u32 where "APP_DIAGNOSTICS_ISSUE_CAN_RX_HAL = 0x01"
definition APP_DIAGNOSTICS_ISSUE_CAN_TX_HAL :: u32 where "APP_DIAGNOSTICS_ISSUE_CAN_TX_HAL = 0x02"
definition APP_DIAGNOSTICS_ISSUE_TX_QUEUE_OVERFLOW :: u32 where "APP_DIAGNOSTICS_ISSUE_TX_QUEUE_OVERFLOW = 0x04"
definition APP_DIAGNOSTICS_ISSUE_TX_QUEUE_STUCK :: u32 where "APP_DIAGNOSTICS_ISSUE_TX_QUEUE_STUCK = 0x08"
definition APP_DIAGNOSTICS_ISSUE_CAN_RX_BUDGET :: u32 where "APP_DIAGNOSTICS_ISSUE_CAN_RX_BUDGET = 0x10"
definition APP_DIAGNOSTICS_ISSUE_CAN_RX_PRESSURE :: u32 where "APP_DIAGNOSTICS_ISSUE_CAN_RX_PRESSURE = 0x20"
definition APP_DIAGNOSTICS_ISSUE_CAN_RX_LOST :: u32 where "APP_DIAGNOSTICS_ISSUE_CAN_RX_LOST = 0x40"
definition APP_DIAGNOSTICS_ISSUE_TIMING_OVERRUN :: u32 where "APP_DIAGNOSTICS_ISSUE_TIMING_OVERRUN = 0x80"

lemmas diag_issue_consts = APP_DIAGNOSTICS_ISSUE_CAN_RX_HAL_def APP_DIAGNOSTICS_ISSUE_CAN_TX_HAL_def
  APP_DIAGNOSTICS_ISSUE_TX_QUEUE_OVERFLOW_def APP_DIAGNOSTICS_ISSUE_TX_QUEUE_STUCK_def
  APP_DIAGNOSTICS_ISSUE_CAN_RX_BUDGET_def APP_DIAGNOSTICS_ISSUE_CAN_RX_PRESSURE_def
  APP_DIAGNOSTICS_ISSUE_CAN_RX_LOST_def APP_DIAGNOSTICS_ISSUE_TIMING_OVERRUN_def

definition APP_DIAGNOSTICS_UPDATE_PERIOD_MS :: u32 where "APP_DIAGNOSTICS_UPDATE_PERIOD_MS = 100"

datatype CAN_App_RxRejectReason = CAN_APP_RX_REJECT_NONE | CAN_APP_RX_REJECT_WRONG_ID
  | CAN_APP_RX_REJECT_FRAME_FORMAT | CAN_APP_RX_REJECT_DLC | CAN_APP_RX_REJECT_UNKNOWN_COMMAND
  | CAN_APP_RX_REJECT_INVALID_PAYLOAD | CAN_APP_RX_REJECT_HAL_ERROR | CAN_APP_RX_REJECT_ACCESS_DENIED

record CAN_App_RxStats =
  frames_received :: u32
  commands_accepted :: u32
  rejected_wrong_id :: u32
  rejected_frame_format :: u32
  rejected_dlc :: u32
  rejected_unknown_command :: u32
  rejected_invalid_payload :: u32
  rejected_access_denied :: u32
  command_acks_sent :: u32
  command_ack_tx_failures :: u32
  hal_rx_errors :: u32
  rx_budget_hits :: u32
  rx_new_message_events :: u32
  rx_watermark_events :: u32
  rx_full_events :: u32
  rx_message_lost_events :: u32
  rx_max_fill_level :: u32
  last_reject_reason :: CAN_App_RxRejectReason
  last_rejected_command :: u8

record App_Diagnostics_Snapshot =
  diag_uptime_ms :: u32
  diag_update_count :: u32
  rejected_frames_total :: u32
  latched_issue_flags :: u32
  diag_can_rx :: CAN_App_RxStats
  diag_can_tx :: CAN_Transport_Stats
  diag_timing :: App_Timing_Snapshot

record App_Diagnostics =
  diagnostics_snapshot :: App_Diagnostics_Snapshot
  last_diagnostics_update_tick :: u32
  last_logged_queue_overflow_count :: u32
  last_logged_rx_budget_hit_count :: u32
  last_logged_rx_watermark_count :: u32
  last_logged_rx_full_count :: u32
  last_logged_rx_message_lost_count :: u32
  last_logged_timing_overrun_count :: "u32 list"

type_synonym 'w diag_log = "u32 \<Rightarrow> u32 \<Rightarrow> u32 \<Rightarrow> u32 \<Rightarrow> u32 \<Rightarrow> 'w \<Rightarrow> 'w"

abbreviation diag_snap :: "(App_Diagnostics_Snapshot \<Rightarrow> App_Diagnostics_Snapshot) \<Rightarrow> App_Diagnostics \<Rightarrow> App_Diagnostics" where
  "diag_snap f d \<equiv> d\<lparr>diagnostics_snapshot := f (diagnostics_snapshot d)\<rparr>"

definition diag_rx_zero :: CAN_App_RxStats where
  "diag_rx_zero = \<lparr>frames_received = 0, commands_accepted = 0, rejected_wrong_id = 0, rejected_frame_format = 0,
     rejected_dlc = 0, rejected_unknown_command = 0, rejected_invalid_payload = 0, rejected_access_denied = 0,
     command_acks_sent = 0, command_ack_tx_failures = 0, hal_rx_errors = 0, rx_budget_hits = 0,
     rx_new_message_events = 0, rx_watermark_events = 0, rx_full_events = 0, rx_message_lost_events = 0,
     rx_max_fill_level = 0, last_reject_reason = CAN_APP_RX_REJECT_NONE, last_rejected_command = 0\<rparr>"

definition diag_tx_zero :: CAN_Transport_Stats where
  "diag_tx_zero = \<lparr>sent_direct = 0, enqueued = 0, coalesced = 0, high_priority_enqueued = 0, periodic_evicted = 0,
     sent_from_queue = 0, queue_overflow = 0, hal_error = 0, queue_stuck_events = 0, current_pending_ms = 0,
     longest_pending_ms = 0, pending_count = 0, queue_high_watermark = 0, queue_stuck_active = False\<rparr>"

definition diag_snapshot_zero :: App_Diagnostics_Snapshot where
  "diag_snapshot_zero = \<lparr>diag_uptime_ms = 0, diag_update_count = 0, rejected_frames_total = 0,
     latched_issue_flags = 0, diag_can_rx = diag_rx_zero, diag_can_tx = diag_tx_zero, diag_timing = app_timing_zero\<rparr>"

section \<open>Operations\<close>

text \<open>The new value of the last logged count, and the log.\<close>

definition App_Diagnostics_LogCounterDelta :: "'w diag_log \<Rightarrow> u32 \<Rightarrow> u32 \<Rightarrow> u32 \<Rightarrow> u32 \<Rightarrow> 'w \<Rightarrow> u32 \<times> 'w" where
  "App_Diagnostics_LogCounterDelta push current_count last_logged_count sev code w =
    (if current_count < last_logged_count then (current_count, w)
     else if current_count > last_logged_count then
       (let delta = current_count - last_logged_count
        in (current_count, push APP_LOG_SOURCE_CAN sev code delta current_count w))
     else (last_logged_count, w))"

definition diag_latch :: "bool \<Rightarrow> u32 \<Rightarrow> App_Diagnostics \<Rightarrow> App_Diagnostics" where
  "diag_latch cond issue d = (if cond then
     diag_snap (\<lambda>s. s\<lparr>latched_issue_flags := latched_issue_flags s OR issue\<rparr>) d else d)"

text \<open>One round of the loop over the services.\<close>

definition diag_timing_step :: "'w diag_log \<Rightarrow> App_Timing_Snapshot \<Rightarrow> nat \<Rightarrow> App_Diagnostics \<times> 'w \<Rightarrow> App_Diagnostics \<times> 'w" where
  "diag_timing_step push clock srv = (\<lambda>(d, w).
    let st = service (diag_timing (diagnostics_snapshot d)) ! srv;
        current_count = overrun_count st;
        previous_count = last_logged_timing_overrun_count d ! srv
    in if current_count < previous_count
       then (d\<lparr>last_logged_timing_overrun_count := (last_logged_timing_overrun_count d)[srv := current_count]\<rparr>, w)
       else if current_count > previous_count then
        (let delta = current_count - previous_count;
             packed = (of_nat srv AND 0xFF) OR push_bit 8 (if delta > 0x00FFFFFF then 0x00FFFFFF else delta);
             d = diag_latch True APP_DIAGNOSTICS_ISSUE_TIMING_OVERRUN d;
             w = push APP_LOG_SOURCE_SYSTEM APP_LOG_SEVERITY_WARNING APP_LOG_EVENT_TIMING_OVERRUN packed
                   (App_Timing_CyclesToMicroseconds (maximum_cycles st) clock) w
         in (d\<lparr>last_logged_timing_overrun_count := (last_logged_timing_overrun_count d)[srv := current_count]\<rparr>, w))
       else (d, w))"

text \<open>
  The body of \<open>App_Diagnostics_Capture\<close> behind the three statistics calls. The code writes the
  comparison with the last logged count out for the queue overflows and the budget hits; it is
  the one of \<open>App_Diagnostics_LogCounterDelta\<close>.
\<close>

definition diag_evaluate :: "'w diag_log \<Rightarrow> u32 \<Rightarrow> App_Timing_Snapshot \<Rightarrow> App_Diagnostics \<Rightarrow> 'w \<Rightarrow> App_Diagnostics \<times> 'w" where
  "diag_evaluate push now clock d w =
    (let d = diag_snap (\<lambda>s. s\<lparr>diag_uptime_ms := now, diag_update_count := diag_update_count s + 1\<rparr>) d;
         rx = diag_can_rx (diagnostics_snapshot d); tx = diag_can_tx (diagnostics_snapshot d);
         d = diag_snap (\<lambda>s. s\<lparr>rejected_frames_total := rejected_wrong_id rx + rejected_frame_format rx
               + rejected_dlc rx + rejected_unknown_command rx + rejected_invalid_payload rx
               + rejected_access_denied rx\<rparr>) d;
         d = diag_latch (hal_rx_errors rx \<noteq> 0) APP_DIAGNOSTICS_ISSUE_CAN_RX_HAL d;
         d = diag_latch (hal_error tx \<noteq> 0) APP_DIAGNOSTICS_ISSUE_CAN_TX_HAL d;
         d = diag_latch (queue_overflow tx \<noteq> 0) APP_DIAGNOSTICS_ISSUE_TX_QUEUE_OVERFLOW d;
         (n, w) = App_Diagnostics_LogCounterDelta push (queue_overflow tx) (last_logged_queue_overflow_count d)
           APP_LOG_SEVERITY_WARNING APP_LOG_EVENT_CAN_TX_QUEUE_OVERFLOW w;
         d = d\<lparr>last_logged_queue_overflow_count := n\<rparr>;
         d = diag_latch (queue_stuck_events tx \<noteq> 0) APP_DIAGNOSTICS_ISSUE_TX_QUEUE_STUCK d;
         d = diag_latch (rx_budget_hits rx \<noteq> 0) APP_DIAGNOSTICS_ISSUE_CAN_RX_BUDGET d;
         d = diag_latch (rx_watermark_events rx \<noteq> 0 \<or> rx_full_events rx \<noteq> 0) APP_DIAGNOSTICS_ISSUE_CAN_RX_PRESSURE d;
         d = diag_latch (rx_message_lost_events rx \<noteq> 0) APP_DIAGNOSTICS_ISSUE_CAN_RX_LOST d;
         (n, w) = App_Diagnostics_LogCounterDelta push (rx_budget_hits rx) (last_logged_rx_budget_hit_count d)
           APP_LOG_SEVERITY_WARNING APP_LOG_EVENT_CAN_RX_BUDGET_EXHAUSTED w;
         d = d\<lparr>last_logged_rx_budget_hit_count := n\<rparr>;
         (n, w) = App_Diagnostics_LogCounterDelta push (rx_watermark_events rx) (last_logged_rx_watermark_count d)
           APP_LOG_SEVERITY_WARNING APP_LOG_EVENT_CAN_RX_FIFO_WATERMARK w;
         d = d\<lparr>last_logged_rx_watermark_count := n\<rparr>;
         (n, w) = App_Diagnostics_LogCounterDelta push (rx_full_events rx) (last_logged_rx_full_count d)
           APP_LOG_SEVERITY_WARNING APP_LOG_EVENT_CAN_RX_FIFO_FULL w;
         d = d\<lparr>last_logged_rx_full_count := n\<rparr>;
         (n, w) = App_Diagnostics_LogCounterDelta push (rx_message_lost_events rx) (last_logged_rx_message_lost_count d)
           APP_LOG_SEVERITY_FAULT APP_LOG_EVENT_CAN_RX_MESSAGE_LOST w;
         d = d\<lparr>last_logged_rx_message_lost_count := n\<rparr>
     in fold (diag_timing_step push clock) [0..<8] (d, w))"

text \<open>
  The whole capture: \<open>rx\<close> is the variable \<open>rx_stats\<close> of \<open>can_app.c\<close>, \<open>ct\<close> the transmit queue, whose health
  the call of \<open>CAN_Transport_GetStats\<close> updates, and \<open>clock\<close> the run time measurement.
\<close>

definition diag_observe :: "CAN_App_RxStats \<Rightarrow> CAN_Transport_Stats \<Rightarrow> App_Timing_Snapshot \<Rightarrow> App_Diagnostics \<Rightarrow> App_Diagnostics" where
  "diag_observe rx tx clock = diag_snap (\<lambda>s. s\<lparr>diag_can_rx := rx, diag_can_tx := tx,
     diag_timing := the (App_Timing_GetSnapshot (Some (diag_timing s)) clock)\<rparr>)"

definition App_Diagnostics_Capture :: "'w can_hal \<Rightarrow> 'w diag_log \<Rightarrow> u32 \<Rightarrow> CAN_App_RxStats \<Rightarrow> App_Timing_Snapshot
    \<Rightarrow> App_Diagnostics \<Rightarrow> CAN_Transport \<Rightarrow> 'w \<Rightarrow> App_Diagnostics \<times> CAN_Transport \<times> 'w" where
  "App_Diagnostics_Capture hal push now rx clock d ct w =
    (case CAN_Transport_GetStats hal (Some (diag_can_tx (diagnostics_snapshot d))) ct w of (tx, ct, w) \<Rightarrow>
     case diag_evaluate push now clock (diag_observe rx (the tx) clock d) w of (d, w) \<Rightarrow> (d, ct, w))"

text \<open>The assignments of \<open>App_Diagnostics_Init\<close> before its first capture.\<close>

definition diag_reset :: "App_Diagnostics \<Rightarrow> App_Diagnostics" where
  "diag_reset d = d\<lparr>diagnostics_snapshot := diag_snapshot_zero, last_logged_queue_overflow_count := 0,
     last_logged_rx_budget_hit_count := 0, last_logged_rx_watermark_count := 0, last_logged_rx_full_count := 0,
     last_logged_rx_message_lost_count := 0,
     last_logged_timing_overrun_count := fold (\<lambda>i c. c[i := 0]) [0..<8] (last_logged_timing_overrun_count d)\<rparr>"

definition App_Diagnostics_Init :: "'w can_hal \<Rightarrow> 'w diag_log \<Rightarrow> CAN_App_RxStats \<Rightarrow> App_Timing_Snapshot
    \<Rightarrow> App_Diagnostics \<Rightarrow> CAN_Transport \<Rightarrow> 'w \<Rightarrow> App_Diagnostics \<times> CAN_Transport \<times> 'w" where
  "App_Diagnostics_Init hal push rx clock d ct w =
    (case HAL_GetTick hal w of (tick, w) \<Rightarrow>
       App_Diagnostics_Capture hal push tick rx clock
         ((diag_reset d)\<lparr>last_diagnostics_update_tick := tick\<rparr>) ct w)"

definition App_Diagnostics_Process :: "'w can_hal \<Rightarrow> 'w diag_log \<Rightarrow> CAN_App_RxStats \<Rightarrow> App_Timing_Snapshot
    \<Rightarrow> App_Diagnostics \<Rightarrow> CAN_Transport \<Rightarrow> 'w \<Rightarrow> App_Diagnostics \<times> CAN_Transport \<times> 'w" where
  "App_Diagnostics_Process hal push rx clock d ct w =
    (case HAL_GetTick hal w of (now, w) \<Rightarrow>
       if now - last_diagnostics_update_tick d < APP_DIAGNOSTICS_UPDATE_PERIOD_MS then (d, ct, w)
       else App_Diagnostics_Capture hal push now rx clock (d\<lparr>last_diagnostics_update_tick := now\<rparr>) ct w)"

definition App_Diagnostics_GetSnapshot :: "App_Diagnostics_Snapshot option \<Rightarrow> App_Diagnostics
    \<Rightarrow> App_Diagnostics_Snapshot option" where
  "App_Diagnostics_GetSnapshot snapshot d = map_option (\<lambda>_. diagnostics_snapshot d) snapshot"


text \<open>The event log of the firmware as the log; each call reads the tick anew.\<close>

definition diag_push :: "(App_Log \<Rightarrow> u32) \<Rightarrow> App_Log diag_log" where
  "diag_push tick src sev code d0 d1 s = snd (App_Log_Push (tick s) src sev code d0 d1 s)"

section \<open>What is reported\<close>

text \<open>The calls of the log that one evaluation makes, as a list of their arguments.\<close>

type_synonym diag_event = "u32 \<times> u32 \<times> u32 \<times> u32 \<times> u32"

abbreviation diag_replay :: "'w diag_log \<Rightarrow> diag_event list \<Rightarrow> 'w \<Rightarrow> 'w" where
  "diag_replay push \<equiv> fold (\<lambda>(src, sev, code, d0, d1). push src sev code d0 d1)"

definition counter_event :: "u32 \<Rightarrow> u32 \<Rightarrow> u32 \<Rightarrow> u32 \<Rightarrow> diag_event list" where
  "counter_event sev code prev cur = (if prev < cur then [(APP_LOG_SOURCE_CAN, sev, code, cur - prev, cur)] else [])"

definition service_event :: "App_Timing_Snapshot \<Rightarrow> App_Timing_Snapshot \<Rightarrow> u32 list \<Rightarrow> nat \<Rightarrow> diag_event list" where
  "service_event clock t lasts srv = (let cur = overrun_count (service t ! srv); prev = lasts ! srv in
     if prev < cur then [(APP_LOG_SOURCE_SYSTEM, APP_LOG_SEVERITY_WARNING, APP_LOG_EVENT_TIMING_OVERRUN,
       (of_nat srv AND 0xFF) OR push_bit 8 (if cur - prev > 0x00FFFFFF then 0x00FFFFFF else cur - prev),
       App_Timing_CyclesToMicroseconds (maximum_cycles (service t ! srv)) clock)] else [])"

definition diag_events :: "App_Timing_Snapshot \<Rightarrow> App_Diagnostics \<Rightarrow> diag_event list" where
  "diag_events clock d = (let rx = diag_can_rx (diagnostics_snapshot d); tx = diag_can_tx (diagnostics_snapshot d) in
     counter_event APP_LOG_SEVERITY_WARNING APP_LOG_EVENT_CAN_TX_QUEUE_OVERFLOW
       (last_logged_queue_overflow_count d) (queue_overflow tx)
   @ counter_event APP_LOG_SEVERITY_WARNING APP_LOG_EVENT_CAN_RX_BUDGET_EXHAUSTED
       (last_logged_rx_budget_hit_count d) (rx_budget_hits rx)
   @ counter_event APP_LOG_SEVERITY_WARNING APP_LOG_EVENT_CAN_RX_FIFO_WATERMARK
       (last_logged_rx_watermark_count d) (rx_watermark_events rx)
   @ counter_event APP_LOG_SEVERITY_WARNING APP_LOG_EVENT_CAN_RX_FIFO_FULL
       (last_logged_rx_full_count d) (rx_full_events rx)
   @ counter_event APP_LOG_SEVERITY_FAULT APP_LOG_EVENT_CAN_RX_MESSAGE_LOST
       (last_logged_rx_message_lost_count d) (rx_message_lost_events rx)
   @ concat (map (service_event clock (diag_timing (diagnostics_snapshot d)) (last_logged_timing_overrun_count d)) [0..<8]))"

lemma log_delta: "App_Diagnostics_LogCounterDelta push cur prev sev code w
    = (cur, diag_replay push (counter_event sev code prev cur) w)"
  by (auto simp: App_Diagnostics_LogCounterDelta_def counter_event_def Let_def)

lemma timing_steps:
  assumes "n \<le> length (last_logged_timing_overrun_count d)"
  defines "t \<equiv> diag_timing (diagnostics_snapshot d)" and "l \<equiv> last_logged_timing_overrun_count d"
  shows "fold (diag_timing_step push clock) [0..<n] (d, w) =
    ((diag_latch (\<exists>i < n. l ! i < overrun_count (service t ! i)) APP_DIAGNOSTICS_ISSUE_TIMING_OVERRUN d)
       \<lparr>last_logged_timing_overrun_count := map (\<lambda>i. overrun_count (service t ! i)) [0..<n] @ drop n l\<rparr>,
     diag_replay push (concat (map (service_event clock t l) [0..<n])) w)"
  using assms(1)
proof (induction n)
  case 0
  then show ?case by (simp add: diag_latch_def l_def)
next
  case (Suc n)
  let ?d = "diag_latch (\<exists>i < n. l ! i < overrun_count (service t ! i)) APP_DIAGNOSTICS_ISSUE_TIMING_OVERRUN d"
  have keep: "diag_timing (diagnostics_snapshot ?d) = t" by (simp add: diag_latch_def t_def)
  have upd: "(map f [0..<n] @ drop n l)[n := x] = map f [0..<n] @ x # drop (Suc n) l" for f and x :: u32
    using Suc.prems unfolding l_def by (simp add: list_update_append Cons_nth_drop_Suc [symmetric])
  have same: "map f [0..<n] @ drop n l = map f [0..<n] @ x # drop (Suc n) l" if "l ! n = x" for f and x :: u32
    using Suc.prems that unfolding l_def by (simp add: Cons_nth_drop_Suc [symmetric])
  have nth: "(map f [0..<n] @ drop n l) ! n = l ! n" for f using Suc.prems by (simp add: nth_append l_def)
  have ex: "(\<exists>i < Suc n. l ! i < overrun_count (service t ! i)) \<longleftrightarrow>
      (\<exists>i < n. l ! i < overrun_count (service t ! i)) \<or> l ! n < overrun_count (service t ! n)" by (auto simp: less_Suc_eq)
  have step: "diag_timing_step push clock n (?d\<lparr>last_logged_timing_overrun_count := map f [0..<n] @ drop n l\<rparr>, v)
    = ((diag_latch (\<exists>i < Suc n. l ! i < overrun_count (service t ! i)) APP_DIAGNOSTICS_ISSUE_TIMING_OVERRUN d)
       \<lparr>last_logged_timing_overrun_count := map f [0..<n] @ overrun_count (service t ! n) # drop (Suc n) l\<rparr>,
      diag_replay push (service_event clock t l n) v)" for f v
    unfolding diag_timing_step_def using keep
    by (auto simp: Let_def nth upd ex service_event_def diag_latch_def t_def [symmetric] or.assoc)
      (simp_all add: same [OF refl])
  have "fold (diag_timing_step push clock) [0..<Suc n] (d, w) = diag_timing_step push clock n (fold (diag_timing_step push clock) [0..<n] (d, w))"
    by simp
  also have "\<dots> = ((diag_latch (\<exists>i < Suc n. l ! i < overrun_count (service t ! i)) APP_DIAGNOSTICS_ISSUE_TIMING_OVERRUN d)
       \<lparr>last_logged_timing_overrun_count := map (\<lambda>i. overrun_count (service t ! i)) [0..<Suc n] @ drop (Suc n) l\<rparr>,
     diag_replay push (concat (map (service_event clock t l) [0..<Suc n])) w)"
    using Suc by (simp add: step)
  finally show ?case .
qed


section \<open>One evaluation\<close>

abbreviation diag_flag :: "App_Diagnostics \<Rightarrow> u32" where
  "diag_flag d \<equiv> latched_issue_flags (diagnostics_snapshot d)"

definition diag_bit :: "bool \<Rightarrow> u32 \<Rightarrow> u32" where
  "diag_bit c i = (if c then i else 0)"

lemma latch_flag: "diag_latch c i d = diag_snap (\<lambda>s. s\<lparr>latched_issue_flags := latched_issue_flags s OR diag_bit c i\<rparr>) d"
  by (simp add: diag_latch_def diag_bit_def)

text \<open>The issues an evaluation finds.\<close>

definition diag_issues :: "App_Diagnostics \<Rightarrow> u32" where
  "diag_issues d = (let rx = diag_can_rx (diagnostics_snapshot d); tx = diag_can_tx (diagnostics_snapshot d) in
     diag_bit (hal_rx_errors rx \<noteq> 0) APP_DIAGNOSTICS_ISSUE_CAN_RX_HAL
     OR diag_bit (hal_error tx \<noteq> 0) APP_DIAGNOSTICS_ISSUE_CAN_TX_HAL
     OR diag_bit (queue_overflow tx \<noteq> 0) APP_DIAGNOSTICS_ISSUE_TX_QUEUE_OVERFLOW
     OR diag_bit (queue_stuck_events tx \<noteq> 0) APP_DIAGNOSTICS_ISSUE_TX_QUEUE_STUCK
     OR diag_bit (rx_budget_hits rx \<noteq> 0) APP_DIAGNOSTICS_ISSUE_CAN_RX_BUDGET
     OR diag_bit (rx_watermark_events rx \<noteq> 0 \<or> rx_full_events rx \<noteq> 0) APP_DIAGNOSTICS_ISSUE_CAN_RX_PRESSURE
     OR diag_bit (rx_message_lost_events rx \<noteq> 0) APP_DIAGNOSTICS_ISSUE_CAN_RX_LOST
     OR diag_bit (\<exists>i < 8. last_logged_timing_overrun_count d ! i < overrun_count (service (diag_timing (diagnostics_snapshot d)) ! i))
          APP_DIAGNOSTICS_ISSUE_TIMING_OVERRUN)"

lemma evaluate:
  assumes "length (last_logged_timing_overrun_count d) = 8"
  defines "rx \<equiv> diag_can_rx (diagnostics_snapshot d)" and "tx \<equiv> diag_can_tx (diagnostics_snapshot d)"
  shows "diag_evaluate push now clock d w =
    (d\<lparr>diagnostics_snapshot := (diagnostics_snapshot d)\<lparr>diag_uptime_ms := now,
          diag_update_count := diag_update_count (diagnostics_snapshot d) + 1,
          rejected_frames_total := rejected_wrong_id rx + rejected_frame_format rx
               + rejected_dlc rx + rejected_unknown_command rx + rejected_invalid_payload rx
               + rejected_access_denied rx,
          latched_issue_flags := diag_flag d OR diag_issues d\<rparr>,
        last_logged_queue_overflow_count := queue_overflow tx,
        last_logged_rx_budget_hit_count := rx_budget_hits rx,
        last_logged_rx_watermark_count := rx_watermark_events rx,
        last_logged_rx_full_count := rx_full_events rx,
        last_logged_rx_message_lost_count := rx_message_lost_events rx,
        last_logged_timing_overrun_count := map (\<lambda>i. overrun_count (service (diag_timing (diagnostics_snapshot d)) ! i)) [0..<8]\<rparr>,
     diag_replay push (diag_events clock d) w)"
proof -
  obtain s l0 l1 l2 l3 l4 l5 l6 where d: "d = \<lparr>diagnostics_snapshot = s, last_diagnostics_update_tick = l0,
    last_logged_queue_overflow_count = l1, last_logged_rx_budget_hit_count = l2, last_logged_rx_watermark_count = l3,
    last_logged_rx_full_count = l4, last_logged_rx_message_lost_count = l5, last_logged_timing_overrun_count = l6\<rparr>"
    by (cases d)
  have steps: "fold (diag_timing_step push clock) [0..<8] (e, v) =
    ((diag_latch (\<exists>i < 8. last_logged_timing_overrun_count e ! i < overrun_count (service (diag_timing (diagnostics_snapshot e)) ! i))
        APP_DIAGNOSTICS_ISSUE_TIMING_OVERRUN e)
       \<lparr>last_logged_timing_overrun_count := map (\<lambda>i. overrun_count (service (diag_timing (diagnostics_snapshot e)) ! i)) [0..<8]\<rparr>,
     diag_replay push (concat (map (service_event clock (diag_timing (diagnostics_snapshot e)) (last_logged_timing_overrun_count e)) [0..<8])) v)"
    if "length (last_logged_timing_overrun_count e) = 8" for e v
    using that by (subst timing_steps) simp_all
  have len: "length l6 = 8" using assms(1) by (simp add: d)
  show ?thesis unfolding rx_def tx_def diag_evaluate_def log_delta latch_flag
    by (simp add: d Let_def steps len latch_flag diag_issues_def diag_events_def or.assoc del: upt_conv_Cons upt.simps
        cong: let_weak_cong prod.case_cong_weak)
qed


section \<open>Reports over time\<close>

text \<open>
  A reading: the time, the reception and transmit counters and the run time measurement. The
  growth of a counter over its readings counts each increase from one reading to the next; after
  a restart of the counter (a smaller reading) the counting continues from there.
\<close>

type_synonym diag_reading = "u32 \<times> CAN_App_RxStats \<times> CAN_Transport_Stats \<times> App_Timing_Snapshot"

fun diag_growth :: "nat \<Rightarrow> u32 \<Rightarrow> u32 list \<Rightarrow> nat" where
  "diag_growth cap prev [] = 0"
| "diag_growth cap prev (c # cs) = (if prev < c then min cap (unat (c - prev)) else 0) + diag_growth cap c cs"

fun diag_capture_step :: "'w diag_log \<Rightarrow> diag_reading \<Rightarrow> App_Diagnostics \<times> 'w \<Rightarrow> App_Diagnostics \<times> 'w" where
  "diag_capture_step push (now, rx, tx, clock) (d, w) = diag_evaluate push now clock (diag_observe rx tx clock d) w"

definition diag_captures :: "'w diag_log \<Rightarrow> diag_reading list \<Rightarrow> App_Diagnostics \<Rightarrow> 'w \<Rightarrow> App_Diagnostics \<times> 'w" where
  "diag_captures push rs d w = fold (diag_capture_step push) rs (diag_reset d, w)"

definition diag_monitored :: "(u32 \<times> (diag_reading \<Rightarrow> u32)) list" where
  "diag_monitored =
    [(APP_LOG_EVENT_CAN_TX_QUEUE_OVERFLOW, \<lambda>(now, rx, tx, clock). queue_overflow tx),
     (APP_LOG_EVENT_CAN_RX_BUDGET_EXHAUSTED, \<lambda>(now, rx, tx, clock). rx_budget_hits rx),
     (APP_LOG_EVENT_CAN_RX_FIFO_WATERMARK, \<lambda>(now, rx, tx, clock). rx_watermark_events rx),
     (APP_LOG_EVENT_CAN_RX_FIFO_FULL, \<lambda>(now, rx, tx, clock). rx_full_events rx),
     (APP_LOG_EVENT_CAN_RX_MESSAGE_LOST, \<lambda>(now, rx, tx, clock). rx_message_lost_events rx)]"

definition diag_overruns :: "nat \<Rightarrow> diag_reading \<Rightarrow> u32" where
  "diag_overruns srv = (\<lambda>(now, rx, tx, clock). overrun_count (service clock ! srv))"

definition diag_total :: "u32 \<Rightarrow> diag_event list \<Rightarrow> nat" where
  "diag_total code es = (\<Sum>(src, sev, c, d0, d1) \<leftarrow> es. if c = code then unat d0 else 0)"

definition diag_total_overruns :: "nat \<Rightarrow> diag_event list \<Rightarrow> nat" where
  "diag_total_overruns srv es = (\<Sum>(src, sev, c, d0, d1) \<leftarrow> es.
     if c = APP_LOG_EVENT_TIMING_OVERRUN \<and> d0 AND 0xFF = of_nat srv then unat (drop_bit 8 d0) else 0)"

definition diag_conditions :: "(u32 \<times> (diag_reading \<Rightarrow> bool)) list" where
  "diag_conditions =
    [(APP_DIAGNOSTICS_ISSUE_CAN_RX_HAL, \<lambda>(now, rx, tx, clock). hal_rx_errors rx \<noteq> 0),
     (APP_DIAGNOSTICS_ISSUE_CAN_TX_HAL, \<lambda>(now, rx, tx, clock). hal_error tx \<noteq> 0),
     (APP_DIAGNOSTICS_ISSUE_TX_QUEUE_OVERFLOW, \<lambda>(now, rx, tx, clock). queue_overflow tx \<noteq> 0),
     (APP_DIAGNOSTICS_ISSUE_TX_QUEUE_STUCK, \<lambda>(now, rx, tx, clock). queue_stuck_events tx \<noteq> 0),
     (APP_DIAGNOSTICS_ISSUE_CAN_RX_BUDGET, \<lambda>(now, rx, tx, clock). rx_budget_hits rx \<noteq> 0),
     (APP_DIAGNOSTICS_ISSUE_CAN_RX_PRESSURE,
        \<lambda>(now, rx, tx, clock). rx_watermark_events rx \<noteq> 0 \<or> rx_full_events rx \<noteq> 0),
     (APP_DIAGNOSTICS_ISSUE_CAN_RX_LOST, \<lambda>(now, rx, tx, clock). rx_message_lost_events rx \<noteq> 0)]"

lemma growth_append: "diag_growth cap p (cs @ [c]) = diag_growth cap p cs
    + (if last (p # cs) < c then min cap (unat (c - last (p # cs))) else 0)"
  by (induction cs arbitrary: p) auto

lemma total_append [simp]: "diag_total code (es @ es') = diag_total code es + diag_total code es'"
  "diag_total_overruns srv (es @ es') = diag_total_overruns srv es + diag_total_overruns srv es'"
  by (simp_all add: diag_total_def diag_total_overruns_def)

lemma total_counter: "diag_total code (counter_event sev c prev cur) = (if c = code \<and> prev < cur then unat (cur - prev) else 0)"
  "c \<noteq> APP_LOG_EVENT_TIMING_OVERRUN \<Longrightarrow> diag_total_overruns srv (counter_event sev c prev cur) = 0"
  by (simp_all add: diag_total_def diag_total_overruns_def counter_event_def)

lemma take_bit_small:
  fixes x :: "'a::len word"
  assumes "unat x < 2 ^ n"
  shows "take_bit n x = x"
  using assms by (simp add: word_unat_eq_iff unsigned_take_bit_eq take_bit_nat_eq_self)

lemma packed_bits:
  fixes x :: u32
  assumes "srv < 8" "x \<le> 0xFFFFFF"
  shows "((of_nat srv AND 0xFF) OR push_bit 8 x) AND 0xFF = of_nat srv"
    "drop_bit 8 ((of_nat srv AND 0xFF) OR push_bit 8 x) = x"
proof -
  have ff: "(0xFF :: u32) = mask 8" by (simp add: mask_eq_exp_minus_1)
  have x: "unat x < 2 ^ 24" using assms(2) by (simp add: word_le_nat_alt)
  then have hi: "\<not> bit x n" if "24 \<le> n" for n
    using that bit_take_bit_iff [of 24 x n] unfolding take_bit_small [OF x] by simp
  have s: "unat (of_nat srv :: u32) < 2 ^ 8" using assms(1) by (simp add: unat_of_nat)
  then have lo: "take_bit 8 (of_nat srv :: u32) = of_nat srv" by (rule take_bit_small)
  have "((of_nat srv AND 0xFF) OR push_bit 8 x) AND 0xFF = take_bit 8 (of_nat srv)"
    unfolding ff by (rule bit_word_eqI) (auto simp: bit_simps)
  then show "((of_nat srv AND 0xFF) OR push_bit 8 x) AND 0xFF = of_nat srv" unfolding lo .
  show "drop_bit 8 ((of_nat srv AND 0xFF) OR push_bit 8 x) = x"
    unfolding ff by (rule bit_word_eqI) (auto simp: bit_simps hi intro: ccontr dest: hi simp del: drop_bit_or)
qed

lemma total_service:
  "code \<noteq> APP_LOG_EVENT_TIMING_OVERRUN \<Longrightarrow> diag_total code (service_event clock t l srv) = 0"
  "srv < 8 \<Longrightarrow> diag_total_overruns srv' (service_event clock t l srv) =
    (if of_nat srv' = (of_nat srv :: u32) \<and> l ! srv < overrun_count (service t ! srv)
     then min 0xFFFFFF (unat (overrun_count (service t ! srv) - l ! srv)) else 0)"
  using packed_bits [of srv "overrun_count (service t ! srv) - l ! srv"] packed_bits [of srv "0xFFFFFF :: u32"]
  by (auto simp: diag_total_def diag_total_overruns_def service_event_def Let_def not_less nat_of_word min_def)


lemma total_concat:
  "diag_total code (concat ess) = (\<Sum>es \<leftarrow> ess. diag_total code es)"
  "diag_total_overruns srv (concat ess) = (\<Sum>es \<leftarrow> ess. diag_total_overruns srv es)"
  by (induction ess) (simp_all, simp_all add: diag_total_def diag_total_overruns_def)

lemma total_services:
  "code \<noteq> APP_LOG_EVENT_TIMING_OVERRUN \<Longrightarrow> diag_total code (concat (map (service_event clock t l) is)) = 0"
  "srv < 8 \<Longrightarrow> diag_total_overruns srv (concat (map (service_event clock t l) [0..<8])) =
    (if l ! srv < overrun_count (service t ! srv) then min 0xFFFFFF (unat (overrun_count (service t ! srv) - l ! srv)) else 0)"
proof -
  assume "code \<noteq> APP_LOG_EVENT_TIMING_OVERRUN"
  then show "diag_total code (concat (map (service_event clock t l) is)) = 0"
    by (simp add: total_concat total_service o_def)
next
  assume srv: "srv < 8"
  have eq: "of_nat srv = (of_nat i :: u32) \<longleftrightarrow> i = srv" if "i < 8" for i
    using that srv by (auto simp: word_unat_eq_iff unat_of_nat)
  let ?g = "\<lambda>i. if l ! i < overrun_count (service t ! i) then min 0xFFFFFF (unat (overrun_count (service t ! i) - l ! i)) else 0"
  have "map (diag_total_overruns srv) (map (service_event clock t l) [0..<8]) = map (\<lambda>i. if i = srv then ?g i else 0) [0..<8]"
    unfolding map_map by (rule map_cong [OF refl]) (auto simp: total_service(2) eq)
  then have "diag_total_overruns srv (concat (map (service_event clock t l) [0..<8])) = (\<Sum>i \<leftarrow> [0..<8]. if i = srv then ?g i else 0)"
    unfolding total_concat by (rule arg_cong [where f = sum_list])
  also have "\<dots> = (\<Sum>i \<in> {0..<8}. if i = srv then ?g i else 0)"
    by (simp only: interv_sum_list_conv_sum_set_nat set_upt)
  also have "\<dots> = ?g srv" using srv by simp
  finally show "diag_total_overruns srv (concat (map (service_event clock t l) [0..<8])) = ?g srv" .
qed

text \<open>The state after a history of readings and the calls of the log made on the way.\<close>

definition diag_counted :: "u32 \<Rightarrow> (diag_reading \<Rightarrow> u32) \<Rightarrow> u32 \<Rightarrow> diag_reading list \<Rightarrow> diag_event list \<Rightarrow> bool" where
  "diag_counted code sel logged rs es \<longleftrightarrow> logged = last (0 # map sel rs)
     \<and> diag_total code es = diag_growth (2 ^ 32) 0 (map sel rs)"

definition diag_history :: "diag_reading list \<Rightarrow> App_Diagnostics \<Rightarrow> diag_event list \<Rightarrow> bool" where
  "diag_history rs d es \<longleftrightarrow> length (last_logged_timing_overrun_count d) = 8
     \<and> list_all2 (\<lambda>(code, sel) logged. diag_counted code sel logged rs es) diag_monitored
         [last_logged_queue_overflow_count d, last_logged_rx_budget_hit_count d, last_logged_rx_watermark_count d,
          last_logged_rx_full_count d, last_logged_rx_message_lost_count d]
     \<and> (\<forall>i < 8. last_logged_timing_overrun_count d ! i = last (0 # map (diag_overruns i) rs)
          \<and> diag_total_overruns i es = diag_growth 0xFFFFFF 0 (map (diag_overruns i) rs))
     \<and> (\<forall>(issue, c) \<in> set diag_conditions. diag_flag d AND issue \<noteq> 0 \<longleftrightarrow> (\<exists>r \<in> set rs. c r))
     \<and> (diag_flag d AND APP_DIAGNOSTICS_ISSUE_TIMING_OVERRUN \<noteq> 0 \<longleftrightarrow>
          (\<exists>i < 8. 0 < diag_growth 0xFFFFFF 0 (map (diag_overruns i) rs)))"

lemma counted_step:
  assumes "diag_counted code sel logged rs es"
  shows "diag_counted code sel cur (rs @ [r]) (es @ es') \<longleftrightarrow>
    cur = sel r \<and> diag_total code es' = (if logged < sel r then unat (sel r - logged) else 0)"
proof -
  have "unat (sel r - logged) < 2 ^ 32" by simp
  then have "min (2 ^ 32) (unat (sel r - logged)) = unat (sel r - logged)" by simp
  then show ?thesis using assms unfolding diag_counted_def by (auto simp: growth_append)
qed

lemma reset_history:
  assumes "length (last_logged_timing_overrun_count d) = 8"
  shows "diag_history [] (diag_reset d) []"
proof -
  have "fold (\<lambda>i c. c[i := 0]) [0..<8] (last_logged_timing_overrun_count d) = replicate 8 (0 :: u32)"
    using assms by (intro nth_equalityI) (auto simp: eval_nat_numeral less_Suc_eq nth_list_update)
  then show ?thesis
    by (simp add: diag_history_def diag_reset_def diag_snapshot_zero_def diag_monitored_def diag_counted_def
        diag_total_def diag_total_overruns_def diag_conditions_def)
qed


lemma issue_split:
  "x AND APP_DIAGNOSTICS_ISSUE_CAN_RX_HAL = 0 \<longleftrightarrow> \<not> bit x 0" "x AND APP_DIAGNOSTICS_ISSUE_CAN_TX_HAL = 0 \<longleftrightarrow> \<not> bit x 1"
  "x AND APP_DIAGNOSTICS_ISSUE_TX_QUEUE_OVERFLOW = 0 \<longleftrightarrow> \<not> bit x 2"
  "x AND APP_DIAGNOSTICS_ISSUE_TX_QUEUE_STUCK = 0 \<longleftrightarrow> \<not> bit x 3"
  "x AND APP_DIAGNOSTICS_ISSUE_CAN_RX_BUDGET = 0 \<longleftrightarrow> \<not> bit x 4"
  "x AND APP_DIAGNOSTICS_ISSUE_CAN_RX_PRESSURE = 0 \<longleftrightarrow> \<not> bit x 5"
  "x AND APP_DIAGNOSTICS_ISSUE_CAN_RX_LOST = 0 \<longleftrightarrow> \<not> bit x 6"
  "x AND APP_DIAGNOSTICS_ISSUE_TIMING_OVERRUN = 0 \<longleftrightarrow> \<not> bit x 7"
proof -
  have "x AND 2 ^ n = 0 \<longleftrightarrow> \<not> bit x n" for n by (simp add: and_exp_eq_0_iff_not_bit)
  from this [of 0] this [of 1] this [of 2] this [of 3] this [of 4] this [of 5] this [of 6] this [of 7]
  show "x AND APP_DIAGNOSTICS_ISSUE_CAN_RX_HAL = 0 \<longleftrightarrow> \<not> bit x 0" "x AND APP_DIAGNOSTICS_ISSUE_CAN_TX_HAL = 0 \<longleftrightarrow> \<not> bit x 1"
    "x AND APP_DIAGNOSTICS_ISSUE_TX_QUEUE_OVERFLOW = 0 \<longleftrightarrow> \<not> bit x 2"
    "x AND APP_DIAGNOSTICS_ISSUE_TX_QUEUE_STUCK = 0 \<longleftrightarrow> \<not> bit x 3"
    "x AND APP_DIAGNOSTICS_ISSUE_CAN_RX_BUDGET = 0 \<longleftrightarrow> \<not> bit x 4"
    "x AND APP_DIAGNOSTICS_ISSUE_CAN_RX_PRESSURE = 0 \<longleftrightarrow> \<not> bit x 5"
    "x AND APP_DIAGNOSTICS_ISSUE_CAN_RX_LOST = 0 \<longleftrightarrow> \<not> bit x 6"
    "x AND APP_DIAGNOSTICS_ISSUE_TIMING_OVERRUN = 0 \<longleftrightarrow> \<not> bit x 7"
    by (simp_all add: diag_issue_consts)
qed

lemma bit_of_issue:
  "bit (diag_bit c APP_DIAGNOSTICS_ISSUE_CAN_RX_HAL) n \<longleftrightarrow> c \<and> n = 0"
  "bit (diag_bit c APP_DIAGNOSTICS_ISSUE_CAN_TX_HAL) n \<longleftrightarrow> c \<and> n = 1"
  "bit (diag_bit c APP_DIAGNOSTICS_ISSUE_TX_QUEUE_OVERFLOW) n \<longleftrightarrow> c \<and> n = 2"
  "bit (diag_bit c APP_DIAGNOSTICS_ISSUE_TX_QUEUE_STUCK) n \<longleftrightarrow> c \<and> n = 3"
  "bit (diag_bit c APP_DIAGNOSTICS_ISSUE_CAN_RX_BUDGET) n \<longleftrightarrow> c \<and> n = 4"
  "bit (diag_bit c APP_DIAGNOSTICS_ISSUE_CAN_RX_PRESSURE) n \<longleftrightarrow> c \<and> n = 5"
  "bit (diag_bit c APP_DIAGNOSTICS_ISSUE_CAN_RX_LOST) n \<longleftrightarrow> c \<and> n = 6"
  "bit (diag_bit c APP_DIAGNOSTICS_ISSUE_TIMING_OVERRUN) n \<longleftrightarrow> c \<and> n = 7"
proof -
  have "bit (2 ^ k :: u32) n \<longleftrightarrow> n = k" if "k < 32" for k using that by (auto simp: bit_exp_iff)
  from this [of 0] this [of 1] this [of 2] this [of 3] this [of 4] this [of 5] this [of 6] this [of 7]
  show "bit (diag_bit c APP_DIAGNOSTICS_ISSUE_CAN_RX_HAL) n \<longleftrightarrow> c \<and> n = 0"
    "bit (diag_bit c APP_DIAGNOSTICS_ISSUE_CAN_TX_HAL) n \<longleftrightarrow> c \<and> n = 1"
    "bit (diag_bit c APP_DIAGNOSTICS_ISSUE_TX_QUEUE_OVERFLOW) n \<longleftrightarrow> c \<and> n = 2"
    "bit (diag_bit c APP_DIAGNOSTICS_ISSUE_TX_QUEUE_STUCK) n \<longleftrightarrow> c \<and> n = 3"
    "bit (diag_bit c APP_DIAGNOSTICS_ISSUE_CAN_RX_BUDGET) n \<longleftrightarrow> c \<and> n = 4"
    "bit (diag_bit c APP_DIAGNOSTICS_ISSUE_CAN_RX_PRESSURE) n \<longleftrightarrow> c \<and> n = 5"
    "bit (diag_bit c APP_DIAGNOSTICS_ISSUE_CAN_RX_LOST) n \<longleftrightarrow> c \<and> n = 6"
    "bit (diag_bit c APP_DIAGNOSTICS_ISSUE_TIMING_OVERRUN) n \<longleftrightarrow> c \<and> n = 7"
    by (simp_all add: diag_bit_def diag_issue_consts)
qed

lemma capture_history:
  assumes "diag_history rs d es" "(now, rx, tx, clock) = r" "length (service clock) = 8"
  defines "e \<equiv> diag_events clock (diag_observe rx tx clock d)"
  shows "diag_history (rs @ [r]) (fst (diag_capture_step push r (d, w))) (es @ e)"
    "snd (diag_capture_step push r (d, w)) = diag_replay push e w"
proof -
  let ?d = "diag_observe rx tx clock d"
  have r: "r = (now, rx, tx, clock)" using assms(2) ..
  have len: "length (last_logged_timing_overrun_count d) = 8" using assms(1) by (simp add: diag_history_def)
  have snap: "diag_can_rx (diagnostics_snapshot ?d) = rx" "diag_can_tx (diagnostics_snapshot ?d) = tx"
    "last_logged_timing_overrun_count ?d = last_logged_timing_overrun_count d" "diag_flag ?d = diag_flag d"
    by (simp_all add: diag_observe_def)
  have cnt: "overrun_count (service (diag_timing (diagnostics_snapshot ?d)) ! i) = overrun_count (service clock ! i)"
    if "i < 8" for i using that assms(3) by (simp add: diag_observe_def App_Timing_GetSnapshot_def)
  have run: "diag_capture_step push r (d, w) = diag_evaluate push now clock ?d w" by (simp add: r)
  note ev = evaluate [of ?d push now clock w, unfolded snap, OF len]
  show "snd (diag_capture_step push r (d, w)) = diag_replay push e w" unfolding run ev e_def by simp
  have logs: "last_logged_queue_overflow_count ?d = last_logged_queue_overflow_count d"
    "last_logged_rx_budget_hit_count ?d = last_logged_rx_budget_hit_count d"
    "last_logged_rx_watermark_count ?d = last_logged_rx_watermark_count d"
    "last_logged_rx_full_count ?d = last_logged_rx_full_count d"
    "last_logged_rx_message_lost_count ?d = last_logged_rx_message_lost_count d" by (simp_all add: diag_observe_def)
  let ?g = "\<lambda>c c' p (n :: u32). if c' = (c :: u32) \<and> p < n then unat (n - p) else 0"
  have codes: "diag_total c e =
       ?g c APP_LOG_EVENT_CAN_TX_QUEUE_OVERFLOW (last_logged_queue_overflow_count d) (queue_overflow tx)
     + ?g c APP_LOG_EVENT_CAN_RX_BUDGET_EXHAUSTED (last_logged_rx_budget_hit_count d) (rx_budget_hits rx)
     + ?g c APP_LOG_EVENT_CAN_RX_FIFO_WATERMARK (last_logged_rx_watermark_count d) (rx_watermark_events rx)
     + ?g c APP_LOG_EVENT_CAN_RX_FIFO_FULL (last_logged_rx_full_count d) (rx_full_events rx)
     + ?g c APP_LOG_EVENT_CAN_RX_MESSAGE_LOST (last_logged_rx_message_lost_count d) (rx_message_lost_events rx)"
    if "c \<noteq> APP_LOG_EVENT_TIMING_OVERRUN" for c
    unfolding e_def diag_events_def Let_def snap logs total_append total_counter total_services(1) [OF that] by simp
  have totals:
    "diag_total APP_LOG_EVENT_CAN_TX_QUEUE_OVERFLOW e = (if last_logged_queue_overflow_count d < queue_overflow tx then unat (queue_overflow tx - last_logged_queue_overflow_count d) else 0)"
    "diag_total APP_LOG_EVENT_CAN_RX_BUDGET_EXHAUSTED e = (if last_logged_rx_budget_hit_count d < rx_budget_hits rx then unat (rx_budget_hits rx - last_logged_rx_budget_hit_count d) else 0)"
    "diag_total APP_LOG_EVENT_CAN_RX_FIFO_WATERMARK e = (if last_logged_rx_watermark_count d < rx_watermark_events rx then unat (rx_watermark_events rx - last_logged_rx_watermark_count d) else 0)"
    "diag_total APP_LOG_EVENT_CAN_RX_FIFO_FULL e = (if last_logged_rx_full_count d < rx_full_events rx then unat (rx_full_events rx - last_logged_rx_full_count d) else 0)"
    "diag_total APP_LOG_EVENT_CAN_RX_MESSAGE_LOST e = (if last_logged_rx_message_lost_count d < rx_message_lost_events rx then unat (rx_message_lost_events rx - last_logged_rx_message_lost_count d) else 0)"
    by (simp_all add: codes diag_event_consts)
  have timing: "diag_total_overruns i e = (if last_logged_timing_overrun_count d ! i < overrun_count (service clock ! i)
      then min 0xFFFFFF (unat (overrun_count (service clock ! i) - last_logged_timing_overrun_count d ! i)) else 0)"
    if "i < 8" for i
    unfolding e_def diag_events_def Let_def snap using that
    by (simp add: total_counter total_services(2) cnt diag_event_consts)
  define D where "D = fst (diag_capture_step push r (d, w))"
  have D: "last_logged_queue_overflow_count D = queue_overflow tx" "last_logged_rx_budget_hit_count D = rx_budget_hits rx"
    "last_logged_rx_watermark_count D = rx_watermark_events rx" "last_logged_rx_full_count D = rx_full_events rx"
    "last_logged_rx_message_lost_count D = rx_message_lost_events rx" "diag_flag D = diag_flag d OR diag_issues ?d"
    "last_logged_timing_overrun_count D = map (\<lambda>i. overrun_count (service (diag_timing (diagnostics_snapshot ?d)) ! i)) [0..<8]"
    unfolding D_def run ev by simp_all
  have old: "diag_counted APP_LOG_EVENT_CAN_TX_QUEUE_OVERFLOW (\<lambda>(now, rx, tx, clock). queue_overflow tx) (last_logged_queue_overflow_count d) rs es"
    "diag_counted APP_LOG_EVENT_CAN_RX_BUDGET_EXHAUSTED (\<lambda>(now, rx, tx, clock). rx_budget_hits rx) (last_logged_rx_budget_hit_count d) rs es"
    "diag_counted APP_LOG_EVENT_CAN_RX_FIFO_WATERMARK (\<lambda>(now, rx, tx, clock). rx_watermark_events rx) (last_logged_rx_watermark_count d) rs es"
    "diag_counted APP_LOG_EVENT_CAN_RX_FIFO_FULL (\<lambda>(now, rx, tx, clock). rx_full_events rx) (last_logged_rx_full_count d) rs es"
    "diag_counted APP_LOG_EVENT_CAN_RX_MESSAGE_LOST (\<lambda>(now, rx, tx, clock). rx_message_lost_events rx) (last_logged_rx_message_lost_count d) rs es"
    using assms(1) by (simp_all add: diag_history_def diag_monitored_def)
  have counters: "list_all2 (\<lambda>(code, sel) logged. diag_counted code sel logged (rs @ [r]) (es @ e)) diag_monitored
     [last_logged_queue_overflow_count D, last_logged_rx_budget_hit_count D, last_logged_rx_watermark_count D,
          last_logged_rx_full_count D, last_logged_rx_message_lost_count D]"
    unfolding diag_monitored_def D by (simp add: old [THEN counted_step] totals r)
  have overruns: "last_logged_timing_overrun_count D ! i = last (0 # map (diag_overruns i) (rs @ [r]))
      \<and> diag_total_overruns i (es @ e) = diag_growth 0xFFFFFF 0 (map (diag_overruns i) (rs @ [r]))" if "i < 8" for i
    using assms(1) that unfolding D diag_history_def by (simp add: growth_append timing cnt diag_overruns_def r)
  have grown: "0 < diag_growth 0xFFFFFF 0 (map (diag_overruns i) (rs @ [r])) \<longleftrightarrow>
      0 < diag_growth 0xFFFFFF 0 (map (diag_overruns i) rs) \<or> last_logged_timing_overrun_count d ! i < overrun_count (service clock ! i)"
    if "i < 8" for i
  proof -
    have l: "last (0 # map (diag_overruns i) rs) = last_logged_timing_overrun_count d ! i"
      using assms(1) that by (simp only: diag_history_def)
    have "0 < min 0xFFFFFF (unat (a - b))" if "b < a" for a b :: u32 using that by (simp add: unat_gt_0)
    then show ?thesis unfolding map_append list.map growth_append l by (auto simp: diag_overruns_def r)
  qed
  have bits: "bit (diag_issues ?d) n \<longleftrightarrow> hal_rx_errors rx \<noteq> 0 \<and> n = 0 \<or> hal_error tx \<noteq> 0 \<and> n = 1
      \<or> queue_overflow tx \<noteq> 0 \<and> n = 2 \<or> queue_stuck_events tx \<noteq> 0 \<and> n = 3 \<or> rx_budget_hits rx \<noteq> 0 \<and> n = 4
      \<or> (rx_watermark_events rx \<noteq> 0 \<or> rx_full_events rx \<noteq> 0) \<and> n = 5 \<or> rx_message_lost_events rx \<noteq> 0 \<and> n = 6
      \<or> (\<exists>i < 8. last_logged_timing_overrun_count d ! i < overrun_count (service clock ! i)) \<and> n = 7" for n
    unfolding diag_issues_def Let_def snap bit_or_iff bit_of_issue disj_assoc using cnt by (simp cong: conj_cong)
  have flags: "bit (diag_flag D) n \<longleftrightarrow> bit (diag_flag d) n \<or> bit (diag_issues ?d) n" for n
    unfolding D bit_or_iff ..
  have issues: "\<forall>(issue, c) \<in> set diag_conditions. diag_flag D AND issue \<noteq> 0 \<longleftrightarrow> (\<exists>r \<in> set (rs @ [r]). c r)"
  proof -
    have "\<forall>(issue, c) \<in> set diag_conditions. diag_flag d AND issue \<noteq> 0 \<longleftrightarrow> (\<exists>r \<in> set rs. c r)"
      using assms(1) unfolding diag_history_def by (elim conjE)
    moreover have "\<forall>(issue, c) \<in> set diag_conditions. diag_flag D AND issue \<noteq> 0 \<longleftrightarrow> diag_flag d AND issue \<noteq> 0 \<or> c r"
      unfolding diag_conditions_def list.set by (auto simp: issue_split flags bits r)
    ultimately show ?thesis by fastforce
  qed
  have late: "diag_flag D AND APP_DIAGNOSTICS_ISSUE_TIMING_OVERRUN \<noteq> 0 \<longleftrightarrow>
          (\<exists>i < 8. 0 < diag_growth 0xFFFFFF 0 (map (diag_overruns i) (rs @ [r])))"
  proof -
    have "diag_flag d AND APP_DIAGNOSTICS_ISSUE_TIMING_OVERRUN \<noteq> 0 \<longleftrightarrow>
          (\<exists>i < 8. 0 < diag_growth 0xFFFFFF 0 (map (diag_overruns i) rs))"
      using assms(1) unfolding diag_history_def by (elim conjE)
    then show ?thesis unfolding issue_split flags bits using grown by auto
  qed
  show "diag_history (rs @ [r]) (fst (diag_capture_step push r (d, w))) (es @ e)"
    unfolding D_def [symmetric] diag_history_def using counters overruns issues late by (simp add: D(7))
qed


lemma captures_history:
  assumes "length (last_logged_timing_overrun_count d0) = 8" "\<forall>(now, rx, tx, clock) \<in> set rs. length (service clock) = 8"
  shows "\<exists>es. snd (diag_captures push rs d0 w0) = diag_replay push es w0 \<and> diag_history rs (fst (diag_captures push rs d0 w0)) es"
  using assms(2)
proof (induction rs rule: rev_induct)
  case Nil
  then show ?case using reset_history [OF assms(1)] by (intro exI [of _ "[]"]) (simp add: diag_captures_def)
next
  case (snoc r rs)
  obtain now rx tx clock where r: "(now, rx, tx, clock) = r" by (cases r) auto
  obtain d w where dw: "diag_captures push rs d0 w0 = (d, w)" by fastforce
  obtain es where es: "w = diag_replay push es w0" "diag_history rs d es" using snoc by (auto simp: dw)
  have "length (service clock) = 8" using snoc.prems r by auto
  from capture_history [OF es(2) r this, of push w] es(1)
  show ?case unfolding diag_captures_def fold_append comp_def
    by (intro exI [of _ "es @ diag_events clock (diag_observe rx tx clock d)"])
      (simp add: dw [unfolded diag_captures_def])
qed

text \<open>
  C23. Health reporting neither loses nor duplicates anything. Whatever the captures read after the
  initialisation, the deltas reported to the log under the event code of a monitored counter add
  up to the growth of that counter; those reported for a service add up to the growth of its
  overruns, each report saturated at 24 bits. An issue is flagged exactly when some capture found
  it. All that happens to the log are these reports.
\<close>

theorem diagnostics_report_growth:
  assumes "length (last_logged_timing_overrun_count d0) = 8"
    and "\<forall>(now, rx, tx, clock) \<in> set rs. length (service clock) = 8"
    and "diag_captures push rs d0 w0 = (d, w)"
  shows "\<exists>es. w = diag_replay push es w0
    \<and> (\<forall>(code, sel) \<in> set diag_monitored. diag_total code es = diag_growth (2 ^ 32) 0 (map sel rs))
    \<and> (\<forall>i < 8. diag_total_overruns i es = diag_growth 0xFFFFFF 0 (map (diag_overruns i) rs))
    \<and> (\<forall>(issue, c) \<in> set diag_conditions. diag_flag d AND issue \<noteq> 0 \<longleftrightarrow> (\<exists>r \<in> set rs. c r))
    \<and> (diag_flag d AND APP_DIAGNOSTICS_ISSUE_TIMING_OVERRUN \<noteq> 0 \<longleftrightarrow>
         (\<exists>i < 8. 0 < diag_growth 0xFFFFFF 0 (map (diag_overruns i) rs)))"
proof -
  obtain es where es: "w = diag_replay push es w0" "diag_history rs d es"
    using captures_history [OF assms(1,2), of push w0] unfolding assms(3) by auto
  have "\<forall>(code, sel) \<in> set diag_monitored. diag_total code es = diag_growth (2 ^ 32) 0 (map sel rs)"
    using es(2) by (simp add: diag_history_def diag_monitored_def diag_counted_def)
  with es show ?thesis unfolding diag_history_def by (intro exI [of _ es] conjI) (elim conjE; blast)+
qed

definition demo_readings :: "diag_reading list" where
  "demo_readings =
    [(100, diag_rx_zero\<lparr>rx_full_events := 3\<rparr>, diag_tx_zero, app_timing_zero),
     (200, diag_rx_zero\<lparr>rx_full_events := 4\<rparr>, diag_tx_zero\<lparr>queue_overflow := 7\<rparr>, app_timing_zero)]"

definition demo_diagnostics :: App_Diagnostics where
  "demo_diagnostics = \<lparr>diagnostics_snapshot = diag_snapshot_zero, last_diagnostics_update_tick = 0,
     last_logged_queue_overflow_count = 0, last_logged_rx_budget_hit_count = 0, last_logged_rx_watermark_count = 0,
     last_logged_rx_full_count = 0, last_logged_rx_message_lost_count = 0,
     last_logged_timing_overrun_count = replicate 8 0\<rparr>"

theorem diagnostics_report_growth_witness:
  "\<exists>es. snd (diag_captures (\<lambda>src sev code d0 d1 log. log @ [(code, d0)]) demo_readings demo_diagnostics [])
      = diag_replay (\<lambda>src sev code d0 d1 log. log @ [(code, d0)]) es []
    \<and> diag_total APP_LOG_EVENT_CAN_RX_FIFO_FULL es = 4
    \<and> diag_total APP_LOG_EVENT_CAN_TX_QUEUE_OVERFLOW es = 7"
proof -
  have "length (last_logged_timing_overrun_count demo_diagnostics) = 8" by (simp add: demo_diagnostics_def)
  moreover have "\<forall>(now, rx, tx, clock) \<in> set demo_readings. length (service clock) = 8"
    by (simp add: demo_readings_def app_timing_zero_def)
  moreover obtain d w where "diag_captures (\<lambda>src sev code d0 d1 log. log @ [(code, d0)]) demo_readings demo_diagnostics [] = (d, w)"
    by fastforce
  ultimately show ?thesis
    using diagnostics_report_growth [of demo_diagnostics demo_readings "\<lambda>src sev code d0 d1 log. log @ [(code, d0)]" "[]" d w]
    by (fastforce simp: diag_monitored_def demo_readings_def diag_rx_zero_def diag_tx_zero_def)
qed

end
