(* ===== verification/CanUds.thy ===== *)
theory CanUds
  imports UdsServer UdsDownload CanIsoTp AppStartup AppDiagnostics
begin

text \<open>
  The diagnostic service of the firmware, \<open>src/Core/Src/can_uds.c\<close>: it connects the UDS server with
  the diagnostic ISO-TP channel and answers four data identifiers from the state of the
  application. What the server's callbacks can reach is the record \<open>can_uds_app\<close>: the startup
  record, the reset reason, the health snapshot, the channel, and the context of the programming
  callbacks. The file's static variables are the record \<open>CAN_Uds\<close>.
\<close>

section \<open>Data\<close>

definition CAN_PROTOCOL_UDS_VERSION :: u8 where "CAN_PROTOCOL_UDS_VERSION = 2"
definition CAN_PROTOCOL_VERSION :: u8 where "CAN_PROTOCOL_VERSION = 2"
definition CAN_PROTOCOL_LOG_VERSION :: u8 where "CAN_PROTOCOL_LOG_VERSION = 1"
definition CAN_PROTOCOL_UDS_DID_PROTOCOL_INFO :: u16 where "CAN_PROTOCOL_UDS_DID_PROTOCOL_INFO = 0xF100"
definition CAN_PROTOCOL_UDS_DID_STARTUP_HEALTH :: u16 where "CAN_PROTOCOL_UDS_DID_STARTUP_HEALTH = 0xF101"
definition CAN_PROTOCOL_UDS_DID_RUNTIME_HEALTH :: u16 where "CAN_PROTOCOL_UDS_DID_RUNTIME_HEALTH = 0xF102"
definition CAN_PROTOCOL_UDS_DID_RESET_REASON :: u16 where "CAN_PROTOCOL_UDS_DID_RESET_REASON = 0xF103"

lemmas can_uds_dids = CAN_PROTOCOL_UDS_DID_PROTOCOL_INFO_def CAN_PROTOCOL_UDS_DID_STARTUP_HEALTH_def
  CAN_PROTOCOL_UDS_DID_RUNTIME_HEALTH_def CAN_PROTOCOL_UDS_DID_RESET_REASON_def

datatype CAN_Uds_Result = CAN_UDS_RESULT_OK | CAN_UDS_RESULT_NO_WORK | CAN_UDS_RESULT_RESPONSE_SUPPRESSED
  | CAN_UDS_RESULT_DISPATCH_ERROR | CAN_UDS_RESULT_ISOTP_ERROR

record CAN_Uds_Stats =
  requests_processed :: u32
  responses_started :: u32
  responses_suppressed :: u32
  dispatch_errors :: u32
  isotp_response_failures :: u32
  last_server_result :: Uds_ServerResult
  last_isotp_result :: CAN_IsoTp_Result
  cu_server :: Uds_ServerStats

record 'p can_uds_app =
  app_startup :: App_Startup_Snapshot
  app_reset :: App_ResetReason_Snapshot
  app_diagnostics :: App_Diagnostics
  app_isotp :: CAN_IsoTp
  app_programming :: 'p

record 'p CAN_Uds =
  uds_server :: "'p can_uds_app Uds_Server"
  uds_response_buffer :: bytes
  uds_stats :: CAN_Uds_Stats

definition can_uds_stats_zero :: CAN_Uds_Stats where
  "can_uds_stats_zero = \<lparr>requests_processed = 0, responses_started = 0, responses_suppressed = 0, dispatch_errors = 0,
     isotp_response_failures = 0, last_server_result = UDS_SERVER_RESULT_OK, last_isotp_result = CAN_ISOTP_RESULT_OK,
     cu_server = uds_stats_zero\<rparr>"

abbreviation cu_count :: "(CAN_Uds_Stats \<Rightarrow> CAN_Uds_Stats) \<Rightarrow> 'p CAN_Uds \<Rightarrow> 'p CAN_Uds" where
  "cu_count f s \<equiv> s\<lparr>uds_stats := f (uds_stats s)\<rparr>"

section \<open>Data identifiers\<close>

text \<open>The writers take the position in the buffer that the code passes as a pointer.\<close>

definition CAN_Uds_WriteU16Be :: "nat \<Rightarrow> u16 \<Rightarrow> bytes \<Rightarrow> bytes" where
  "CAN_Uds_WriteU16Be p v d = d[p := ucast (drop_bit 8 v), p + 1 := ucast v]"

definition CAN_Uds_WriteU32Be :: "nat \<Rightarrow> u32 \<Rightarrow> bytes \<Rightarrow> bytes" where
  "CAN_Uds_WriteU32Be p v d = d[p := ucast (drop_bit 24 v), p + 1 := ucast (drop_bit 16 v),
     p + 2 := ucast (drop_bit 8 v), p + 3 := ucast v]"

definition CAN_Uds_ReadProtocolInfo :: "bytes \<Rightarrow> u16 \<Rightarrow> u16 \<Rightarrow> Uds_DidReadResult \<times> bytes \<times> u16" where
  "CAN_Uds_ReadProtocolInfo d cap len =
    (if cap < 9 then (UDS_DID_READ_BUFFER_TOO_SMALL, d, len)
     else
      let d = d[0 := CAN_PROTOCOL_UDS_VERSION, 1 := CAN_PROTOCOL_VERSION, 2 := CAN_PROTOCOL_LOG_VERSION];
          d = CAN_Uds_WriteU16Be 3 CAN_ISOTP_BUFFER_CAPACITY d;
          d = CAN_Uds_WriteU16Be 5 (ucast CAN_PROTOCOL_DIAGNOSTIC_REQUEST_RX_ID) d;
          d = CAN_Uds_WriteU16Be 7 (ucast CAN_PROTOCOL_DIAGNOSTIC_RESPONSE_TX_ID) d
      in (UDS_DID_READ_OK, d, 9))"

definition CAN_Uds_ReadStartupHealth :: "App_Startup_Snapshot \<Rightarrow> bytes \<Rightarrow> u16 \<Rightarrow> u16 \<Rightarrow> Uds_DidReadResult \<times> bytes \<times> u16" where
  "CAN_Uds_ReadStartupHealth s d cap len =
    (if cap < 21 then (UDS_DID_READ_BUFFER_TOO_SMALL, d, len)
     else
      let snapshot = the (App_Startup_GetSnapshot (Some app_startup_zero) s);
          d = CAN_Uds_WriteU32Be 0 (expected_mask snapshot) d;
          d = CAN_Uds_WriteU32Be 4 (ready_mask snapshot) d;
          d = CAN_Uds_WriteU32Be 8 (failed_mask snapshot) d;
          d = CAN_Uds_WriteU32Be 12 (first_failed_resource snapshot) d;
          d = CAN_Uds_WriteU32Be 16 (first_failure_result snapshot) d;
          d = d[20 := of_bool (degraded snapshot)]
      in (UDS_DID_READ_OK, d, 21))"

definition CAN_Uds_ReadRuntimeHealth :: "App_Diagnostics \<Rightarrow> CAN_IsoTp \<Rightarrow> bytes \<Rightarrow> u16 \<Rightarrow> u16
    \<Rightarrow> Uds_DidReadResult \<times> bytes \<times> u16" where
  "CAN_Uds_ReadRuntimeHealth dg ch d cap len =
    (if cap < 28 then (UDS_DID_READ_BUFFER_TOO_SMALL, d, len)
     else
      let diagnostics = the (App_Diagnostics_GetSnapshot (Some diag_snapshot_zero) dg);
          isotp = the (CAN_IsoTp_GetStats (Some can_isotp_stats_zero) ch);
          d = CAN_Uds_WriteU32Be 0 (diag_uptime_ms diagnostics) d;
          d = CAN_Uds_WriteU32Be 4 (latched_issue_flags diagnostics) d;
          d = CAN_Uds_WriteU32Be 8 (rejected_frames_total diagnostics) d;
          d = CAN_Uds_WriteU32Be 12 (rx_message_lost_events (diag_can_rx diagnostics)) d;
          d = CAN_Uds_WriteU32Be 16 (queue_overflow (diag_can_tx diagnostics)) d;
          d = CAN_Uds_WriteU32Be 20 (rx_protocol_errors isotp) d;
          d = CAN_Uds_WriteU32Be 24 (tx_transport_failures isotp) d
      in (UDS_DID_READ_OK, d, 28))"

definition CAN_Uds_ReadResetReason :: "App_ResetReason_Snapshot \<Rightarrow> bytes \<Rightarrow> u16 \<Rightarrow> u16 \<Rightarrow> Uds_DidReadResult \<times> bytes \<times> u16" where
  "CAN_Uds_ReadResetReason s d cap len =
    (if cap < 12 then (UDS_DID_READ_BUFFER_TOO_SMALL, d, len)
     else
      let snapshot = the (App_ResetReason_GetSnapshot (Some s) s);
          d = CAN_Uds_WriteU32Be 0 (decoded_flags snapshot) d;
          d = CAN_Uds_WriteU32Be 4 (raw_rsr snapshot) d;
          d = CAN_Uds_WriteU32Be 8 (capture_count snapshot) d
      in (UDS_DID_READ_OK, d, 12))"

definition CAN_Uds_ReadDid :: "'p can_uds_app Uds_ReadDidCallback" where
  "CAN_Uds_ReadDid did d cap len a =
    (let (res, d, len) =
       (if did = CAN_PROTOCOL_UDS_DID_PROTOCOL_INFO then CAN_Uds_ReadProtocolInfo d cap len
        else if did = CAN_PROTOCOL_UDS_DID_STARTUP_HEALTH then CAN_Uds_ReadStartupHealth (app_startup a) d cap len
        else if did = CAN_PROTOCOL_UDS_DID_RUNTIME_HEALTH
        then CAN_Uds_ReadRuntimeHealth (app_diagnostics a) (app_isotp a) d cap len
        else if did = CAN_PROTOCOL_UDS_DID_RESET_REASON then CAN_Uds_ReadResetReason (app_reset a) d cap len
        else (UDS_DID_READ_NOT_SUPPORTED, d, len))
     in (res, d, len, a))"

section \<open>Service\<close>

text \<open>The programming callbacks work on their context.\<close>

definition can_uds_programming :: "'p Uds_ProgrammingCallback \<Rightarrow> 'p can_uds_app Uds_ProgrammingCallback" where
  "can_uds_programming f sid request n d cap len a =
    (case f sid request n d cap len (app_programming a) of
       (nrc, d, len, p) \<Rightarrow> (nrc, d, len, a\<lparr>app_programming := p\<rparr>))"

definition can_uds_abort :: "'p Uds_ProgrammingAbortCallback \<Rightarrow> 'p can_uds_app Uds_ProgrammingAbortCallback" where
  "can_uds_abort f a = a\<lparr>app_programming := f (app_programming a)\<rparr>"

definition can_uds_config :: "'p Uds_ProgrammingCallback option \<Rightarrow> 'p Uds_ProgrammingAbortCallback option
    \<Rightarrow> 'p can_uds_app Uds_ServerConfig" where
  "can_uds_config prog prog_abort = \<lparr>read_did = Some CAN_Uds_ReadDid,
     programming = map_option can_uds_programming prog, programming_abort = map_option can_uds_abort prog_abort\<rparr>"

definition CAN_Uds_InitWithProgramming :: "'p Uds_ProgrammingCallback option \<Rightarrow> 'p Uds_ProgrammingAbortCallback option
    \<Rightarrow> 'p CAN_Uds \<Rightarrow> 'p CAN_Uds" where
  "CAN_Uds_InitWithProgramming prog prog_abort s =
    (let s = s\<lparr>uds_stats := can_uds_stats_zero\<rparr>
     in case Uds_Server_Init (Some (uds_server s)) (Some (can_uds_config prog prog_abort)) of (res, srv) \<Rightarrow>
       cu_count (\<lambda>t. t\<lparr>last_server_result := res, last_isotp_result := CAN_ISOTP_RESULT_NO_WORK\<rparr>)
         (s\<lparr>uds_server := the srv\<rparr>))"

definition CAN_Uds_Init :: "'p CAN_Uds \<Rightarrow> 'p CAN_Uds" where
  "CAN_Uds_Init s = CAN_Uds_InitWithProgramming None None s"

definition CAN_Uds_Process :: "'t can_send \<Rightarrow> u32 \<Rightarrow> 'p CAN_Uds \<Rightarrow> 'p can_uds_app \<Rightarrow> 't
    \<Rightarrow> CAN_Uds_Result \<times> 'p CAN_Uds \<times> 'p can_uds_app \<times> 't" where
  "CAN_Uds_Process send now_ms s a t =
    (case Uds_Server_Tick (Some (uds_server s)) now_ms a of (srv, a) \<Rightarrow>
     let s = s\<lparr>uds_server := the srv\<rparr>
     in if \<not> CAN_IsoTp_HasRequest (app_isotp a) then (CAN_UDS_RESULT_NO_WORK, s, a, t)
     else
      case Uds_Server_ProcessRequest (Some (uds_server s)) (CAN_IsoTp_GetRequestData (app_isotp a))
          (CAN_IsoTp_GetRequestLength (app_isotp a)) now_ms (Some (uds_response_buffer s))
          CAN_ISOTP_BUFFER_CAPACITY (Some 0) a of (server_result, srv, response, response_length, a) \<Rightarrow>
      let s = s\<lparr>uds_server := the srv, uds_response_buffer := the response\<rparr>;
          s = cu_count (\<lambda>x. x\<lparr>requests_processed := requests_processed x + 1,
                 last_server_result := server_result\<rparr>) s;
          a = a\<lparr>app_isotp := CAN_IsoTp_ReleaseRequest (app_isotp a)\<rparr>
      in if server_result = UDS_SERVER_RESULT_NO_RESPONSE
         then (CAN_UDS_RESULT_RESPONSE_SUPPRESSED,
           cu_count (\<lambda>x. x\<lparr>responses_suppressed := responses_suppressed x + 1\<rparr>) s, a, t)
         else if server_result \<noteq> UDS_SERVER_RESULT_RESPONSE_READY
         then (CAN_UDS_RESULT_DISPATCH_ERROR,
           cu_count (\<lambda>x. x\<lparr>dispatch_errors := dispatch_errors x + 1\<rparr>) s, a, t)
         else
          case CAN_IsoTp_StartResponse send (Some (uds_response_buffer s)) (the response_length)
              (now_ms * 1000) (app_isotp a) t of (isotp_result, ch, t) \<Rightarrow>
          let a = a\<lparr>app_isotp := ch\<rparr>;
              s = cu_count (\<lambda>x. x\<lparr>last_isotp_result := isotp_result\<rparr>) s
          in if isotp_result \<noteq> CAN_ISOTP_RESULT_OK
             then (CAN_UDS_RESULT_ISOTP_ERROR,
               cu_count (\<lambda>x. x\<lparr>isotp_response_failures := isotp_response_failures x + 1\<rparr>) s, a, t)
             else (CAN_UDS_RESULT_OK,
               cu_count (\<lambda>x. x\<lparr>responses_started := responses_started x + 1\<rparr>) s, a, t))"

definition CAN_Uds_GetStats :: "CAN_Uds_Stats option \<Rightarrow> 'p CAN_Uds \<Rightarrow> CAN_Uds_Stats option" where
  "CAN_Uds_GetStats stats s = map_option (\<lambda>_. (uds_stats s)
     \<lparr>cu_server := the (Uds_Server_GetStats (Some (uds_server s)) (Some (cu_server (uds_stats s))))\<rparr>) stats"

section \<open>The callbacks keep to their buffer\<close>

lemma write_len [simp]: "length (CAN_Uds_WriteU16Be p v d) = length d" "length (CAN_Uds_WriteU32Be p x d) = length d"
  by (simp_all add: CAN_Uds_WriteU16Be_def CAN_Uds_WriteU32Be_def)

lemma write_drop: "p + 2 \<le> n \<Longrightarrow> drop n (CAN_Uds_WriteU16Be p v d) = drop n d"
  "p + 4 \<le> n \<Longrightarrow> drop n (CAN_Uds_WriteU32Be p x d) = drop n d"
  by (simp_all add: CAN_Uds_WriteU16Be_def CAN_Uds_WriteU32Be_def)

lemma read_did_bounds:
  assumes "CAN_Uds_ReadDid did d cap len a = (r, d', len', a')"
  shows "length d' = length d \<and> drop (unat cap) d' = drop (unat cap) d \<and> a' = a"
proof -
  have "n \<le> unat cap" if "\<not> cap < of_nat n" "n < 65536" for n
    using that by (simp add: word_less_nat_alt unat_of_nat)
  from this [of 9] this [of 21] this [of 28] this [of 12] assms show ?thesis
    by (auto simp: CAN_Uds_ReadDid_def CAN_Uds_ReadProtocolInfo_def CAN_Uds_ReadStartupHealth_def
        CAN_Uds_ReadRuntimeHealth_def CAN_Uds_ReadResetReason_def Let_def write_drop split: if_splits)
qed



lemma store_response: "dio_response (snd (dl_store_block bs n io)) = dio_response io"
  by (auto simp: dl_store_block_def Let_def split: prod.splits)

lemma fail_response: "dio_response (Uds_Download_Fail io) = dio_response io"
  by (auto simp: Uds_Download_Fail_def Uds_Download_SetState_def Let_def split: option.splits)

lemma start_response: "dio_response (snd (dl_routine_start io)) = dio_response io"
  by (auto simp: dl_routine_start_def Let_def split: prod.splits)

lemma results_response: "dio_response (snd (dl_routine_results io)) = dio_response io"
  by (auto simp: dl_routine_results_def Let_def split: prod.splits)

lemma drop_updates: "k < n \<Longrightarrow> drop n (xs[k := v]) = drop n xs"
  by simp

lemma routine_response:
  assumes "Uds_Download_WriteRoutineResponse f st cap io = (nrc, io')"
  shows "length (dio_response io') = length (dio_response io) \<and> drop (unat cap) (dio_response io') = drop (unat cap) (dio_response io)"
proof (cases "cap < UDS_ROUTINE_RESPONSE_LENGTH")
  case False
  then have "13 \<le> unat cap" by (simp add: UDS_ROUTINE_RESPONSE_LENGTH_def word_less_nat_alt)
  then show ?thesis using assms False
    by (auto simp: Uds_Download_WriteRoutineResponse_def Let_def Uds_Download_WriteU32Be_def)
qed (use assms in \<open>simp add: Uds_Download_WriteRoutineResponse_def\<close>)

lemma handle_response:
  assumes "Uds_Download_Handle_body sid req n cap io = (nrc, io')"
  shows "length (dio_response io') = length (dio_response io) \<and> drop (unat cap) (dio_response io') = drop (unat cap) (dio_response io)"
proof -
  let ?same = "\<lambda>a b. length (dio_response b) = length (dio_response a) \<and> drop (unat cap) (dio_response b) = drop (unat cap) (dio_response a)"
  have routine: "?same i (snd (Uds_Download_ProcessRoutine req n cap i))" for i :: "'a dl_io"
  proof -
    have "?same j (snd (Uds_Download_WriteRoutineResponse f st cap j))" for f st and j :: "'a dl_io"
      using routine_response [of f st cap j] by (metis prod.collapse)
    moreover obtain x j where "(if req ! 1 = UDS_ROUTINE_START then dl_routine_start i
                else if req ! 1 = UDS_ROUTINE_REQUEST_RESULTS then dl_routine_results i
                else (Inl UDS_NRC_SUBFUNCTION_NOT_SUPPORTED, i)) = (x, j)" by fastforce
    moreover from this have "dio_response j = dio_response i"
      using start_response [of i] results_response [of i] by (auto split: if_splits)
    ultimately show ?thesis
      by (auto simp: Uds_Download_ProcessRoutine_def Let_def fail_response Uds_Download_SetState_def
          split: sum.splits Uds_DownloadBackendResult.splits)
  qed
  have three: "3 \<le> unat cap" if "\<not> cap < 3" using that by (simp add: word_less_nat_alt)
  have one: "1 \<le> unat cap" if "\<not> cap < 1" using that by (simp add: word_less_nat_alt)
  have request: "?same i (snd (Uds_Download_ProcessRequestDownload req n cap i))" for i :: "'a dl_io"
    using three by (auto simp: Uds_Download_ProcessRequestDownload_def Let_def Uds_Download_SetState_def)
  have transfer: "?same i (snd (Uds_Download_ProcessTransferData req n cap i))" for i :: "'a dl_io"
    using one store_response [of "drop 2 req" "n - 2" i]
    by (auto simp: Uds_Download_ProcessTransferData_def Let_def fail_response dl_accept_block_def split: prod.splits)
  have exit: "?same i (snd (Uds_Download_ProcessTransferExit n i))" for i :: "'a dl_io"
    by (auto simp: Uds_Download_ProcessTransferExit_def Let_def fail_response Uds_Download_SetState_def split: prod.splits)
  show ?thesis using assms routine [of "io\<lparr>dio_length := 0\<rparr>"] request [of "io\<lparr>dio_length := 0\<rparr>"]
      transfer [of "io\<lparr>dio_length := 0\<rparr>"] exit [of "io\<lparr>dio_length := 0\<rparr>"]
    by (auto simp: Uds_Download_Handle_body_def Let_def split: if_splits)
qed

text \<open>The service without programming, and with a download behind it, meet the server's contract.\<close>

lemma application_bounds:
  assumes "\<And>g sid req n d cap len p nrc d' len' p'. prog = Some g \<Longrightarrow> g sid req n d cap len p = (nrc, d', len', p')
    \<Longrightarrow> length d' = length d \<and> drop (unat cap) d' = drop (unat cap) d"
  shows "uds_application (can_uds_config prog prog_abort)"
proof
  fix f did d cap len a r d' len' a'
  assume "read_did (can_uds_config prog prog_abort) = Some f" "f did d cap len a = (r, d', len', a')"
  then show "length d' = length d \<and> drop (unat cap) d' = drop (unat cap) d"
    using read_did_bounds by (fastforce simp: can_uds_config_def)
next
  fix g sid req n d cap len a nrc d' len' a'
  assume "programming (can_uds_config prog prog_abort) = Some g" "g sid req n d cap len a = (nrc, d', len', a')"
  then obtain h p where "prog = Some h" "h sid req n d cap len (app_programming a) = (nrc, d', len', p)"
    by (auto simp: can_uds_config_def can_uds_programming_def split: prod.splits)
  then show "length d' = length d \<and> drop (unat cap) d' = drop (unat cap) d" using assms by blast
qed

interpretation can_uds_plain: uds_application "can_uds_config None None"
  by (rule application_bounds) simp

interpretation can_uds_download: uds_application "can_uds_config (Some download_callback) (Some download_abort_callback)"
  by (rule application_bounds) (auto simp: download_callback_def dest!: handle_response split: prod.splits)

section \<open>Every request is settled\<close>

text \<open>With room for six bytes each request ends in a response or a suppressed one.\<close>

lemma negative_ready: "3 \<le> cap \<Longrightarrow> fst (Uds_NegativeResponse sid nrc cap io) = UDS_SERVER_RESULT_RESPONSE_READY"
  by (simp add: Uds_NegativeResponse_def not_less)

lemma read_dids_ready:
  assumes "3 \<le> cap"
  shows "fst (uds_read_dids req cap offs off io) = UDS_SERVER_RESULT_RESPONSE_READY"
proof (induction offs arbitrary: off io)
  case (Cons p offs)
  obtain r n off' io' where "uds_read_one_did (push_bit 8 (ucast (req ! p)) OR ucast (req ! Suc p)) cap off io = (r, n, off', io')"
    by (metis prod.exhaust)
  then show ?case using Cons assms by (auto simp: Let_def uds_did_error_def negative_ready)
qed simp

lemma dispatch_settled:
  assumes "6 \<le> cap"
  shows "fst (uds_dispatch req n now cap io) \<in> {UDS_SERVER_RESULT_RESPONSE_READY, UDS_SERVER_RESULT_NO_RESPONSE}"
proof -
  have cap: "(cap < 6) = False" "(cap < 2) = False" "(cap = 0) = False" "3 \<le> cap" using assms by (auto simp: nat_of_word)
  have "fst (Uds_ProcessSessionControl req n now cap io) \<in> {UDS_SERVER_RESULT_RESPONSE_READY, UDS_SERVER_RESULT_NO_RESPONSE}"
    by (simp add: Uds_ProcessSessionControl_def Let_def negative_ready [OF cap(4)] cap(1))
  moreover have "fst (Uds_ProcessReadDid req n cap io) = UDS_SERVER_RESULT_RESPONSE_READY"
    by (simp add: Uds_ProcessReadDid_def negative_ready [OF cap(4)] cap(3) read_dids_ready [OF cap(4)])
  moreover have "fst (Uds_ProcessTesterPresent req n cap io) \<in> {UDS_SERVER_RESULT_RESPONSE_READY, UDS_SERVER_RESULT_NO_RESPONSE}"
    by (simp add: Uds_ProcessTesterPresent_def Let_def negative_ready [OF cap(4)] cap(2))
  moreover have "fst (Uds_ProcessProgramming req n cap io) = UDS_SERVER_RESULT_RESPONSE_READY"
    by (simp add: Uds_ProcessProgramming_def Let_def negative_ready [OF cap(4)] cap(3) split: option.splits prod.splits)
  ultimately show ?thesis unfolding uds_dispatch_def Let_def by (simp add: negative_ready [OF cap(4)])
qed

lemma process_settled:
  assumes "6 \<le> cap" "n \<noteq> 0" "us_initialized (io_server io)"
  shows "fst (Uds_Server_ProcessRequest_body req n now cap io) \<in> {UDS_SERVER_RESULT_RESPONSE_READY, UDS_SERVER_RESULT_NO_RESPONSE}"
  using assms(2,3) dispatch_settled [OF assms(1)]
  by (auto simp: Uds_Server_ProcessRequest_body_def Let_def split: prod.splits)


section \<open>What the identifiers report\<close>

definition be16 :: "u16 \<Rightarrow> bytes" where
  "be16 v = [ucast (drop_bit 8 v), ucast v]"

definition be32 :: "u32 \<Rightarrow> bytes" where
  "be32 v = [ucast (drop_bit 24 v), ucast (drop_bit 16 v), ucast (drop_bit 8 v), ucast v]"

lemma be_length [simp]: "length (be16 x) = 2" "length (be32 v) = 4"
  by (simp_all add: be16_def be32_def)

definition can_uds_report :: "'p can_uds_app \<Rightarrow> u16 \<Rightarrow> bytes option" where
  "can_uds_report a did =
    (let s = app_startup a; g = diagnostics_snapshot (app_diagnostics a); ch = isotp_stats (app_isotp a); r = app_reset a in
     if did = 0xF100 then Some ([2, 2, 1] @ be16 512 @ be16 0x7E0 @ be16 0x7E8)
     else if did = 0xF101 then Some (be32 (expected_mask s) @ be32 (ready_mask s) @ be32 (failed_mask s)
       @ be32 (first_failed_resource s) @ be32 (first_failure_result s) @ [of_bool (degraded s)])
     else if did = 0xF102 then Some (be32 (diag_uptime_ms g) @ be32 (latched_issue_flags g) @ be32 (rejected_frames_total g)
       @ be32 (rx_message_lost_events (diag_can_rx g)) @ be32 (queue_overflow (diag_can_tx g))
       @ be32 (rx_protocol_errors ch) @ be32 (tx_transport_failures ch))
     else if did = 0xF103 then Some (be32 (decoded_flags r) @ be32 (raw_rsr r) @ be32 (capture_count r))
     else None)"

text \<open>The reports of a list of identifiers behind what is already in the response.\<close>

fun can_uds_reports :: "nat \<Rightarrow> 'p can_uds_app \<Rightarrow> u16 list \<Rightarrow> bytes \<Rightarrow> Uds_NegativeResponseCode + bytes" where
  "can_uds_reports cap a [] acc = Inr acc"
| "can_uds_reports cap a (did # dids) acc =
    (if cap < length acc + 2 then Inl UDS_NRC_RESPONSE_TOO_LONG
     else case can_uds_report a did of
       None \<Rightarrow> Inl UDS_NRC_REQUEST_OUT_OF_RANGE
     | Some bs \<Rightarrow> if cap < length acc + 2 + length bs then Inl UDS_NRC_RESPONSE_TOO_LONG
         else can_uds_reports cap a dids (acc @ be16 did @ bs))"

lemma write16_take: "p + 2 \<le> length d \<Longrightarrow> CAN_Uds_WriteU16Be p v d = take p d @ be16 v @ drop (p + 2) d"
  by (simp add: CAN_Uds_WriteU16Be_def be16_def upd_conv_take_nth_drop take_update_swap drop_update_swap list_update_append
      Cons_nth_drop_Suc)

lemma write32_take: "p + 4 \<le> length d \<Longrightarrow> CAN_Uds_WriteU32Be p v d = take p d @ be32 v @ drop (p + 4) d"
  by (intro nth_equalityI) (auto simp: CAN_Uds_WriteU32Be_def be32_def nth_append nth_list_update nth_Cons' not_less)

lemma report_length: "can_uds_report a did = Some bs \<Longrightarrow> length bs \<le> 28"
  by (auto simp: can_uds_report_def Let_def split: if_splits)

lemma read_did_report:
  assumes "unat cap \<le> length d"
  shows "CAN_Uds_ReadDid did d cap 0 a = (case can_uds_report a did of
      None \<Rightarrow> (UDS_DID_READ_NOT_SUPPORTED, d, 0, a)
    | Some bs \<Rightarrow> if length bs \<le> unat cap then (UDS_DID_READ_OK, bs @ drop (length bs) d, of_nat (length bs), a)
        else (UDS_DID_READ_BUFFER_TOO_SMALL, d, 0, a))"
proof -
  have lt: "cap < of_nat n \<longleftrightarrow> \<not> n \<le> unat cap" if "n < 65536" for n using that by (auto simp: word_less_nat_alt unat_of_nat)
  note room = lt [of 9, simplified] lt [of 21, simplified] lt [of 28, simplified] lt [of 12, simplified]
  have "CAN_Uds_ReadProtocolInfo d cap 0 = (if 9 \<le> unat cap
      then (UDS_DID_READ_OK, ([2, 2, 1] @ be16 512 @ be16 0x7E0 @ be16 0x7E8) @ drop 9 d, 9)
      else (UDS_DID_READ_BUFFER_TOO_SMALL, d, 0))"
  proof (cases "9 \<le> unat cap")
    case True
    then have n: "9 \<le> length d" using assms by simp
    then have "d[0 := 2, Suc 0 := 2, 2 := 1] = [2, 2, 1] @ drop 3 d"
      by (intro nth_equalityI) (auto simp: nth_append nth_list_update nth_Cons' not_less)
    then show ?thesis using True n
      by (simp add: CAN_Uds_ReadProtocolInfo_def room Let_def CAN_PROTOCOL_UDS_VERSION_def CAN_PROTOCOL_VERSION_def
          CAN_PROTOCOL_LOG_VERSION_def CAN_ISOTP_BUFFER_CAPACITY_def CAN_PROTOCOL_DIAGNOSTIC_REQUEST_RX_ID_def
          CAN_PROTOCOL_DIAGNOSTIC_RESPONSE_TX_ID_def write16_take)
  qed (simp add: CAN_Uds_ReadProtocolInfo_def room)
  moreover have "CAN_Uds_ReadStartupHealth s d cap 0 = (if 21 \<le> unat cap
      then (UDS_DID_READ_OK, (be32 (expected_mask s) @ be32 (ready_mask s) @ be32 (failed_mask s)
       @ be32 (first_failed_resource s) @ be32 (first_failure_result s) @ [of_bool (degraded s)]) @ drop 21 d, 21)
      else (UDS_DID_READ_BUFFER_TOO_SMALL, d, 0))" for s
  proof (cases "21 \<le> unat cap")
    case True
    then have n: "21 \<le> length d" using assms by simp
    have "(drop 20 d)[0 := x] = x # drop 21 d" for x using n by (simp add: Cons_nth_drop_Suc [symmetric])
    then show ?thesis using True n
      by (simp add: CAN_Uds_ReadStartupHealth_def room Let_def App_Startup_GetSnapshot_def write32_take list_update_append)
  qed (simp add: CAN_Uds_ReadStartupHealth_def room)
  moreover have "CAN_Uds_ReadRuntimeHealth dg ch d cap 0 = (if 28 \<le> unat cap
      then (UDS_DID_READ_OK, (let g = diagnostics_snapshot dg; ch = isotp_stats ch in
        be32 (diag_uptime_ms g) @ be32 (latched_issue_flags g) @ be32 (rejected_frames_total g)
       @ be32 (rx_message_lost_events (diag_can_rx g)) @ be32 (queue_overflow (diag_can_tx g))
       @ be32 (rx_protocol_errors ch) @ be32 (tx_transport_failures ch)) @ drop 28 d, 28)
      else (UDS_DID_READ_BUFFER_TOO_SMALL, d, 0))" for dg ch
    using assms by (simp add: CAN_Uds_ReadRuntimeHealth_def room Let_def App_Diagnostics_GetSnapshot_def CAN_IsoTp_GetStats_def write32_take)
  moreover have "CAN_Uds_ReadResetReason r d cap 0 = (if 12 \<le> unat cap
      then (UDS_DID_READ_OK, (be32 (decoded_flags r) @ be32 (raw_rsr r) @ be32 (capture_count r)) @ drop 12 d, 12)
      else (UDS_DID_READ_BUFFER_TOO_SMALL, d, 0))" for r
    using assms by (simp add: CAN_Uds_ReadResetReason_def room Let_def App_ResetReason_GetSnapshot_def write32_take)
  ultimately show ?thesis
    by (simp add: CAN_Uds_ReadDid_def can_uds_dids can_uds_report_def Let_def)
qed


lemma read_one_report:
  assumes cfg: "read_did (us_config (io_server io)) = Some CAN_Uds_ReadDid"
    and rsp: "unat cap \<le> length (io_response io)" "off \<le> cap" "take (unat off) (io_response io) = acc"
    and one: "uds_read_one_did did cap off io = (r, n, off', io')"
  shows "io_world io' = io_world io \<and> io_server io' = io_server io \<and> length (io_response io') = length (io_response io)
    \<and> (if unat cap < length acc + 2 then r = UDS_DID_READ_BUFFER_TOO_SMALL
       else case can_uds_report (io_world io) did of
         None \<Rightarrow> r = UDS_DID_READ_NOT_SUPPORTED
       | Some bs \<Rightarrow> if unat cap < length acc + 2 + length bs then r = UDS_DID_READ_BUFFER_TOO_SMALL
           else r = UDS_DID_READ_OK \<and> off' + n \<le> cap \<and> unat (off' + n) = length (acc @ be16 did @ bs)
             \<and> take (unat (off' + n)) (io_response io') = acc @ be16 did @ bs)"
proof -
  have le: "unat off \<le> unat cap" using rsp(2) by (simp add: word_le_nat_alt)
  have acc: "length acc = unat off" using rsp(1,3) le by auto
  have diff: "unat (cap - off) = unat cap - unat off" by (rule unat_sub_le [OF rsp(2)])
  show ?thesis
  proof (cases "unat cap < length acc + 2")
    case True
    then have "cap - off < 2" by (simp add: word_less_nat_alt diff acc)
    then show ?thesis using True one cfg by (auto simp: uds_read_one_did_def Let_def)
  next
    case False
    then have big: "\<not> cap - off < 2" by (simp add: word_less_nat_alt diff acc)
    have "unat off + 2 < 65536" using False unat_u16_less [of cap] acc by linarith
    then have off2: "unat (off + 2) = unat off + 2" using unat_add_small [of off 2] by simp
    have "off + 2 \<le> cap" using False acc by (simp add: word_le_nat_alt off2)
    from unat_sub_le [OF this] have room: "unat (cap - (off + 2)) = unat cap - (unat off + 2)" by (simp add: off2)
    let ?rs = "Uds_WriteU16Be (io_response io) (unat off) did"
    have "Uds_WriteU16Be x p v = CAN_Uds_WriteU16Be p v x" for x p v
      by (simp add: Uds_WriteU16Be_def CAN_Uds_WriteU16Be_def)
    then have rs: "?rs = acc @ be16 did @ drop (unat off + 2) (io_response io)"
      using write16_take [of "unat off" "io_response io" did] False acc rsp(1,3) by simp
    define X where "X = drop (unat off + 2) (io_response io)"
    have rest: "drop (unat off + 2) ?rs = X" "take (unat off + 2) ?rs = acc @ be16 did" by (simp_all add: rs acc X_def)
    have fit: "unat (cap - (off + 2)) \<le> length X" using rsp(1) by (simp add: room X_def)
    have X: "length (io_response io) = unat off + 2 + length X" using False acc rsp(1) by (simp add: X_def)
    have body: "uds_read_one_did did cap off io = (case CAN_Uds_ReadDid did X (cap - (off + 2)) 0 (io_world io) of
        (did_result, data, data_length, w) \<Rightarrow>
          (if did_result = UDS_DID_READ_OK \<and> cap - (off + 2) < data_length then UDS_DID_READ_BUFFER_TOO_SMALL else did_result,
           data_length, off + 2, io\<lparr>io_response := (acc @ be16 did) @ data, io_world := w\<rparr>))"
      using cfg big by (simp add: uds_read_one_did_def Let_def off2 rest del: append_assoc add_2_eq_Suc' add_Suc_right)
    show ?thesis
    proof (cases "can_uds_report (io_world io) did")
      case None
      then show ?thesis using one False X unfolding body read_did_report [OF fit] by (auto simp: acc)
    next
      case (Some bs)
      note call = read_did_report [OF fit, of did "io_world io", unfolded Some option.case]
      have small: "length bs < 65536" using report_length [OF Some] by simp
      show ?thesis
      proof (cases "length bs \<le> unat (cap - (off + 2))")
        case no: False
        then have "unat cap < length acc + 2 + length bs" by (simp add: room acc)
        then show ?thesis using one False Some no X unfolding body call by (auto simp: acc)
      next
        case yes: True
        then have tot: "unat off + 2 + length bs \<le> unat cap" using False acc by (simp add: room)
        then have n: "unat (of_nat (length bs) :: u16) = length bs" using small by (simp add: unat_of_nat)
        then have nl: "\<not> cap - (off + 2) < of_nat (length bs)" using yes by (simp add: word_less_nat_alt)
        have "unat (off + 2) + unat (of_nat (length bs) :: u16) < 65536" using tot unat_u16_less [of cap] unfolding n off2 by linarith
        then have sum: "unat (off + 2 + of_nat (length bs)) = unat off + 2 + length bs"
          using unat_add_small [of "off + 2" "of_nat (length bs)"] by (simp add: n off2)
        have "off + 2 + of_nat (length bs) \<le> cap" using tot unfolding word_le_nat_alt sum .
        moreover have "length bs \<le> length X" using yes fit by simp
        moreover have "\<not> unat cap < length acc + 2 + length bs" using tot acc by simp
        ultimately show ?thesis using one False Some yes X nl sum unfolding body call
          by (auto simp: acc simp del: add_2_eq_Suc' of_nat_eq_0_iff)
      qed
    qed
  qed
qed

lemma negative_report:
  assumes "3 \<le> cap" "unat cap \<le> length (io_response io)"
  shows "\<exists>io'. Uds_NegativeResponse sid nrc cap io = (UDS_SERVER_RESULT_RESPONSE_READY, io') \<and> io_length io' = 3
    \<and> take 3 (io_response io') = [0x7F, sid, uds_nrc_byte nrc] \<and> io_world io' = io_world io"
proof -
  have "3 \<le> length (io_response io)" using assms by (simp add: word_le_nat_alt)
  then obtain x y z r where "io_response io = x # y # z # r" by (auto simp: numeral_3_eq_3 Suc_le_length_iff)
  then show ?thesis using assms(1)
    by (auto simp: Uds_NegativeResponse_def UDS_NEGATIVE_RESPONSE_SERVICE_def not_less numeral_3_eq_3)
qed

text \<open>The reports that the request names, or the reason of the refusal.\<close>

definition uds_reported :: "Uds_NegativeResponseCode + bytes \<Rightarrow> u16 \<Rightarrow> bytes \<Rightarrow> bool" where
  "uds_reported x len rsp \<longleftrightarrow> (case x of
     Inr bs \<Rightarrow> unat len = length bs \<and> take (unat len) rsp = bs
   | Inl nrc \<Rightarrow> len = 3 \<and> take 3 rsp = [0x7F, CAN_PROTOCOL_UDS_SERVICE_READ_DATA_BY_IDENTIFIER, uds_nrc_byte nrc])"

lemma read_dids_report:
  assumes "3 \<le> cap" "req ! 0 = CAN_PROTOCOL_UDS_SERVICE_READ_DATA_BY_IDENTIFIER"
    and "list_all2 (\<lambda>p did. push_bit 8 (ucast (req ! p)) OR ucast (req ! (p + 1)) = did) offs dids"
    and "read_did (us_config (io_server io)) = Some CAN_Uds_ReadDid"
    and "unat cap \<le> length (io_response io)" "off \<le> cap" "take (unat off) (io_response io) = acc"
  shows "\<exists>io'. uds_read_dids req cap offs off io = (UDS_SERVER_RESULT_RESPONSE_READY, io') \<and> io_world io' = io_world io
    \<and> uds_reported (can_uds_reports (unat cap) (io_world io) dids acc) (io_length io') (io_response io')"
  using assms(3-)
proof (induction offs dids arbitrary: off acc io rule: list_all2_induct)
  case Nil
  have "unat off \<le> length (io_response io)" using Nil by (simp add: word_le_nat_alt)
  then show ?case using Nil by (auto simp: uds_reported_def)
next
  case (Cons p offs did dids)
  obtain r n off' io' where one: "uds_read_one_did did cap off io = (r, n, off', io')" by (metis prod.exhaust)
  note step = read_one_report [OF Cons.prems(1-4) one]
  have run: "uds_read_dids req cap (p # offs) off io = (if r \<noteq> UDS_DID_READ_OK
      then uds_did_error (req ! 0) r cap io' else uds_read_dids req cap offs (off' + n) io')"
    using Cons.hyps(1) one by (simp add: Let_def)
  have err: "\<exists>io2. uds_did_error (req ! 0) r cap io' = (UDS_SERVER_RESULT_RESPONSE_READY, io2) \<and> io_world io2 = io_world io
    \<and> uds_reported (Inl nrc) (io_length io2) (io_response io2)"
    if "r = UDS_DID_READ_BUFFER_TOO_SMALL \<and> nrc = UDS_NRC_RESPONSE_TOO_LONG \<or> r = UDS_DID_READ_NOT_SUPPORTED \<and> nrc = UDS_NRC_REQUEST_OUT_OF_RANGE" for nrc
    using that step Cons.prems(2) negative_report [OF assms(1), of io' "req ! 0" nrc]
      negative_report [OF assms(1), of "io_count (\<lambda>s. s\<lparr>unsupported_dids := unsupported_dids s + 1\<rparr>) io'" "req ! 0" nrc]
    by (auto simp: uds_did_error_def uds_reported_def assms(2))
  show ?case
  proof (cases "unat cap < length acc + 2")
    case True
    then show ?thesis using step err [of UDS_NRC_RESPONSE_TOO_LONG] by (simp add: run del: uds_read_dids.simps)
  next
    case room: False
    show ?thesis
    proof (cases "can_uds_report (io_world io) did")
      case None
      then show ?thesis using step room err [of UDS_NRC_REQUEST_OUT_OF_RANGE] by (simp add: run del: uds_read_dids.simps)
    next
      case (Some bs)
      show ?thesis
      proof (cases "unat cap < length acc + 2 + length bs")
        case True
        then show ?thesis using step room Some err [of UDS_NRC_RESPONSE_TOO_LONG] by (simp add: run del: uds_read_dids.simps)
      next
        case False
        then have ok: "r = UDS_DID_READ_OK" "off' + n \<le> cap" "take (unat (off' + n)) (io_response io') = acc @ be16 did @ bs"
          and keep: "io_world io' = io_world io" "io_server io' = io_server io" "length (io_response io') = length (io_response io)"
          using step room Some by auto
        have "read_did (us_config (io_server io')) = Some CAN_Uds_ReadDid" "unat cap \<le> length (io_response io')"
          using Cons.prems keep by simp_all
        from Cons.IH [OF this ok(2,3)] show ?thesis using room Some False ok(1) keep(1)
          by (simp add: run del: uds_read_dids.simps)
      qed
    qed
  qed
qed


lemma concat_be16_nth:
  "k < length ds \<Longrightarrow> concat (map be16 ds) ! (2 * k) = ucast (drop_bit 8 (ds ! k))
    \<and> concat (map be16 ds) ! (2 * k + 1) = ucast (ds ! k)"
proof (induction ds arbitrary: k)
  case (Cons d ds)
  then show ?case by (cases k) (auto simp: be16_def)
qed simp

lemma be16_assemble: "push_bit 8 (ucast (ucast (drop_bit 8 x) :: u8)) OR ucast (ucast x :: u8) = (x :: u16)"
  by (rule bit_word_eqI) (auto simp: bit_simps)

text \<open>
  C24. Reading data by identifier. A request that names any list of identifiers is answered, in a
  buffer of any size from three bytes, with the reports of exactly these identifiers in order, each
  behind its identifier, in big-endian byte order, taken from the startup record, the health
  snapshot, the channel statistics and the reset reason; if an identifier is unknown or its report
  does not fit, with the negative response that says so. The application state is not changed,
  except that an expired programming session is aborted.
\<close>

theorem uds_identifiers_reported:
  assumes "us_initialized s" "us_config s = can_uds_config prog prog_abort"
    and "dids \<noteq> []" "length dids < 32767" "3 \<le> unat cap" "unat cap \<le> length rsp"
  shows "\<exists>s' rsp' len' a'. Uds_Server_ProcessRequest (Some s) (Some (0x22 # concat (map be16 dids)))
        (of_nat (1 + 2 * length dids)) now (Some rsp) cap (Some len) a
      = (UDS_SERVER_RESULT_RESPONSE_READY, Some s', Some rsp', Some len', a')
    \<and> uds_reported (can_uds_reports (unat cap) a dids [0x62]) len' rsp'
    \<and> a'\<lparr>app_programming := app_programming a\<rparr> = a"
proof -
  let ?req = "0x22 # concat (map be16 dids) :: bytes" and ?n = "of_nat (1 + 2 * length dids) :: u16"
  let ?io = "\<lparr>io_server = s, io_response = rsp, io_length = len, io_world = a\<rparr>"
  have n: "unat ?n = 1 + 2 * length dids" unfolding unat_of_nat using assms(4) by simp
  have "0 < length dids" using assms(3) by simp
  then have n3: "\<not> ?n < 3" "?n \<noteq> 0" using n by (auto simp: word_less_nat_alt)
  have "unat (?n AND 1) = 1" unfolding unsigned_and_eq n by (simp add: and_one_eq)
  then have odd: "?n AND 1 \<noteq> 0" by (metis unat_0 zero_neq_one)
  obtain s1 a1 where t: "Uds_Server_Tick_body s now a = (s1, a1)" by fastforce
  have a1: "a1\<lparr>app_programming := app_programming a\<rparr> = a" "us_config s1 = us_config s"
    using t assms(2) by (auto simp: Uds_Server_Tick_body_def Let_def Uds_AbortProgramming_def can_uds_config_def can_uds_abort_def
        split: if_splits option.splits)
  have "can_uds_report (a1\<lparr>app_programming := app_programming a\<rparr>) d = can_uds_report a1 d" for d
    by (simp add: can_uds_report_def)
  then have rep: "can_uds_report a1 = can_uds_report a" unfolding a1(1) by (simp add: fun_eq_iff)
  have reps: "can_uds_reports c a1 ds acc = can_uds_reports c a ds acc" for c ds acc
    by (induction ds arbitrary: acc) (simp_all add: rep split: option.splits)
  define io where "io = io_count (\<lambda>s. s\<lparr>requests := requests s + 1, last_service := 0x22\<rparr>)
     \<lparr>io_server = Uds_RefreshSessionTimer s1 now, io_response = rsp, io_length = 0, io_world = a1\<rparr>"
  let ?io2 = "io\<lparr>io_response := rsp[0 := 0x62]\<rparr>"
  have io: "read_did (us_config (io_server ?io2)) = Some CAN_Uds_ReadDid" "io_response io = rsp" "io_world io = a1"
    by (simp_all add: io_def Uds_RefreshSessionTimer_def a1(2) assms(2) can_uds_config_def)
  have cap: "3 \<le> cap" "\<not> cap < 1" "1 \<le> cap" using assms(5) by (simp_all add: nat_of_word)
  define offs where "offs = map (\<lambda>k. 2 * k + 1) [0..<unat ?n div 2]"
  have all: "list_all2 (\<lambda>p did. push_bit 8 (ucast (?req ! p)) OR ucast (?req ! (p + 1)) = did) offs dids"
    unfolding list_all2_conv_all_nth offs_def n using concat_be16_nth [of _ dids] by (simp add: be16_assemble)
  have tk: "take (unat 1) (io_response ?io2) = [0x62]" using assms(5,6) by (cases rsp) auto
  have pre: "unat cap \<le> length (io_response ?io2)" "?req ! 0 = CAN_PROTOCOL_UDS_SERVICE_READ_DATA_BY_IDENTIFIER"
    using assms(6) by (simp_all add: uds_consts)
  obtain io' where "uds_read_dids ?req cap offs 1 ?io2 = (UDS_SERVER_RESULT_RESPONSE_READY, io')" "io_world io' = a1"
    "uds_reported (can_uds_reports (unat cap) a1 dids [0x62]) (io_length io') (io_response io')"
    using read_dids_report [OF cap(1) pre(2) all io(1) pre(1) cap(3) tk] io(3) by auto
  moreover have "Uds_Server_ProcessRequest_body ?req ?n now cap ?io
      = uds_read_dids ?req cap offs 1 ?io2"
    using n3 odd cap(2) assms(1) by (simp add: Uds_Server_ProcessRequest_body_def Let_def t io_def uds_dispatch_def
        Uds_ProcessReadDid_def offs_def uds_consts UDS_POSITIVE_RESPONSE_OFFSET_def)
  ultimately show ?thesis using a1(1) by (auto simp: Uds_Server_ProcessRequest_def reps)
qed


definition demo_uds_app :: "'p \<Rightarrow> 'p can_uds_app" where
  "demo_uds_app p = \<lparr>app_startup = app_startup_zero,
     app_reset = \<lparr>decoded_flags = 0x10, raw_rsr = 0x04000000, capture_count = 1\<rparr>,
     app_diagnostics = demo_diagnostics, app_isotp = can_isotp_static, app_programming = p\<rparr>"

definition demo_can_uds :: "'p CAN_Uds" where
  "demo_can_uds = \<lparr>uds_server = \<lparr>us_config = can_uds_config None None, us_stats = uds_stats_zero,
       session_deadline_ms = 0, session_timer_active = False, us_initialized = False\<rparr>,
     uds_response_buffer = replicate 512 0, uds_stats = can_uds_stats_zero\<rparr>"

theorem uds_identifiers_reported_witness:
  "\<exists>s' rsp' len' a'. Uds_Server_ProcessRequest (Some (uds_server (CAN_Uds_Init demo_can_uds))) (Some [0x22, 0xF1, 0x03]) 3 0
      (Some (replicate 16 0)) 16 (Some 0) (demo_uds_app ()) = (UDS_SERVER_RESULT_RESPONSE_READY, Some s', Some rsp', Some len', a')
    \<and> take (unat len') rsp' = [0x62, 0xF1, 0x03, 0, 0, 0, 0x10, 0x04, 0, 0, 0, 0, 0, 0, 1]"
proof -
  let ?s = "uds_server (CAN_Uds_Init demo_can_uds)"
  have s: "us_initialized ?s" "us_config ?s = can_uds_config None None"
    by (simp_all add: CAN_Uds_Init_def CAN_Uds_InitWithProgramming_def Uds_Server_Init_def)
  have rep: "can_uds_reports 16 (demo_uds_app ()) [0xF103] [0x62]
      = Inr [0x62, 0xF1, 0x03, 0, 0, 0, 0x10, 0x04, 0, 0, 0, 0, 0, 0, 1]"
    by (simp add: can_uds_report_def demo_uds_app_def be16_def be32_def Let_def)
  have "\<exists>s' rsp' len' a'. Uds_Server_ProcessRequest (Some ?s) (Some (0x22 # concat (map be16 [0xF103])))
        (of_nat (1 + 2 * length [0xF103 :: u16])) 0 (Some (replicate 16 0)) 16 (Some 0) (demo_uds_app ())
      = (UDS_SERVER_RESULT_RESPONSE_READY, Some s', Some rsp', Some len', a')
    \<and> uds_reported (can_uds_reports (unat (16 :: u16)) (demo_uds_app ()) [0xF103] [0x62]) len' rsp'
    \<and> a'\<lparr>app_programming := app_programming (demo_uds_app ())\<rparr> = (demo_uds_app ())"
    by (rule uds_identifiers_reported [OF s]) simp_all
  moreover have "concat (map be16 [0xF103]) = [0xF1, 0x03]" by (simp add: be16_def)
  moreover have "of_nat (1 + 2 * length [0xF103 :: u16]) = (3 :: u16)" "unat (16 :: u16) = 16" by simp_all
  ultimately obtain s' rsp' len' a' where "Uds_Server_ProcessRequest (Some ?s) (Some [0x22, 0xF1, 0x03]) 3 0
      (Some (replicate 16 0)) 16 (Some 0) (demo_uds_app ()) = (UDS_SERVER_RESULT_RESPONSE_READY, Some s', Some rsp', Some len', a')"
    and "uds_reported (Inr [0x62, 0xF1, 0x03, 0, 0, 0, 0x10, 0x04, 0, 0, 0, 0, 0, 0, 1]) len' rsp'"
    using rep by (simp only:) blast
  then show ?thesis unfolding uds_reported_def sum.case by blast
qed

end
