(* ===== verification/UdsProgramming.thy ===== *)
theory UdsProgramming
  imports UdsServer
begin

text \<open>
  What the server guarantees to the application behind its callbacks. The locale
  \<open>programming_client\<close> states what an application promises for a predicate on its state and for the
  state in which no programming is going on; the server then keeps the predicate, and outside the
  programming session no programming is going on.
\<close>

locale programming_client =
  fixes cfg :: "'w Uds_ServerConfig" and sound :: "'w \<Rightarrow> bool" and idle :: "'w \<Rightarrow> bool"
  assumes did_keeps: "read_did cfg = Some f \<Longrightarrow> f did buf cap len w = (r, buf', len', w')
      \<Longrightarrow> sound w \<Longrightarrow> sound w' \<and> (idle w \<longrightarrow> idle w')"
    and programming_keeps: "programming cfg = Some g \<Longrightarrow> g srv req n buf cap len w = (nrc, buf', len', w')
      \<Longrightarrow> sound w \<Longrightarrow> sound w'"
    and abort_idles: "programming_abort cfg = Some h \<Longrightarrow> sound w \<Longrightarrow> sound (h w) \<and> idle (h w)"
    and always_idle: "programming_abort cfg = None \<Longrightarrow> sound w \<Longrightarrow> idle w"
begin

definition linked :: "'w Uds_Server \<Rightarrow> 'w \<Rightarrow> bool" where
  "linked s w \<longleftrightarrow> us_config s = cfg \<and> sound w
     \<and> (current_session (us_stats s) \<noteq> CAN_PROTOCOL_UDS_SESSION_PROGRAMMING \<longrightarrow> idle w)"

abbreviation linked_io :: "'w uds_io \<Rightarrow> bool" where
  "linked_io io \<equiv> linked (io_server io) (io_world io)"

lemma linked_same: "linked_io a \<Longrightarrow> same_session a b \<Longrightarrow> io_world b = io_world a \<Longrightarrow> linked_io b"
  by (simp add: linked_def same_session_def)

lemma abort_linked:
  assumes "linked s w" "Uds_AbortProgramming s w = (s', w')"
  shows "us_config s' = cfg" "sound w'" "idle w'"
  using assms abort_idles always_idle by (auto simp: Uds_AbortProgramming_def linked_def split: option.splits)

lemma tick_linked:
  assumes "linked s w" "Uds_Server_Tick_body s now w = (s', w')"
  shows "linked s' w'"
proof -
  obtain s1 w1 where a: "Uds_AbortProgramming s w = (s1, w1)" by fastforce
  from abort_linked [OF assms(1) a] assms show ?thesis
    by (auto simp: Uds_Server_Tick_body_def Let_def a linked_def split: if_splits)
qed

lemma change_linked:
  assumes "linked_io io"
  shows "linked_io (uds_change_session s now io)"
proof -
  obtain s' w' where a: "Uds_AbortProgramming (io_server io) (io_world io) = (s', w')" by fastforce
  from abort_linked [OF assms a] assms show ?thesis
    by (auto simp: uds_change_session_def Let_def a linked_def Uds_RefreshSessionTimer_def)
qed

lemma session_control_linked:
  assumes "linked_io io"
  shows "linked_io (snd (Uds_ProcessSessionControl req n now cap io))"
proof (cases rule: session_control_cases [of io req n now cap])
  case same
  show ?thesis by (rule linked_same [OF assms same])
next
  case (change s)
  show ?thesis by (rule linked_same [OF change_linked [OF assms] change(3,4)])
qed

lemma negative_linked: "linked_io io \<Longrightarrow> linked_io (snd (Uds_NegativeResponse sid nrc cap io))"
  by (simp add: Uds_NegativeResponse_def linked_def)

lemma count_linked: "linked_io io \<Longrightarrow> (\<And>s. current_session (f s) = current_session s) \<Longrightarrow> linked_io (io_count f io)"
  by (simp add: linked_def)

lemma tester_present_linked: "linked_io io \<Longrightarrow> linked_io (snd (Uds_ProcessTesterPresent req n cap io))"
  by (auto simp: Uds_ProcessTesterPresent_def Let_def Uds_NegativeResponse_def linked_def)

lemma read_one_linked:
  assumes "linked_io io" "uds_read_one_did did cap off io = (r, n, off', io')"
  shows "linked_io io'"
  using assms did_keeps by (auto simp: uds_read_one_did_def Let_def linked_def split: option.splits if_splits prod.splits)

lemma read_dids_linked: "linked_io io \<Longrightarrow> linked_io (snd (uds_read_dids req cap offs off io))"
proof (induction offs arbitrary: off io)
  case Nil
  then show ?case by (simp add: linked_def)
next
  case (Cons p offs)
  obtain r n off' io' where one: "uds_read_one_did (push_bit 8 (ucast (req ! p)) OR ucast (req ! Suc p)) cap off io = (r, n, off', io')"
    by (metis prod.exhaust)
  have "linked_io io'" by (rule read_one_linked [OF Cons.prems one])
  then show ?case using Cons.IH by (auto simp: one Let_def uds_did_error_def intro!: negative_linked count_linked)
qed

lemma read_did_linked: "linked_io io \<Longrightarrow> linked_io (snd (Uds_ProcessReadDid req n cap io))"
  by (auto simp: Uds_ProcessReadDid_def intro!: negative_linked count_linked read_dids_linked)

lemma programming_linked:
  assumes "linked_io io"
  shows "linked_io (snd (Uds_ProcessProgramming req n cap io))"
proof -
  have "linked_io (snd (Uds_NegativeResponse s nrc cap (j\<lparr>io_response := b, io_world := w\<rparr>)))"
    if "us_config (io_server j) = cfg" "sound w" "current_session (us_stats (io_server j)) = CAN_PROTOCOL_UDS_SESSION_PROGRAMMING"
    for s nrc j b w using that by (intro negative_linked) (simp add: linked_def)
  then show ?thesis using assms programming_keeps
    by (auto simp: Uds_ProcessProgramming_def Let_def intro!: negative_linked split: option.splits prod.splits)
      (fastforce simp: linked_def)+
qed

lemma dispatch_linked: "linked_io io \<Longrightarrow> linked_io (snd (uds_dispatch req n now cap io))"
  by (auto simp: uds_dispatch_def Let_def session_control_linked read_did_linked tester_present_linked programming_linked
      intro!: negative_linked count_linked)

lemma process_linked:
  assumes "linked_io io"
  shows "linked_io (snd (Uds_Server_ProcessRequest_body req n now cap io))"
proof -
  obtain s w where t: "Uds_Server_Tick_body (io_server io) now (io_world io) = (s, w)" by fastforce
  from tick_linked [OF assms t] have "linked (Uds_RefreshSessionTimer s now) w"
    by (simp add: linked_def Uds_RefreshSessionTimer_def)
  then show ?thesis using assms
    by (auto simp: Uds_Server_ProcessRequest_body_def t Let_def intro!: dispatch_linked) (simp add: linked_def)
qed

end

end
