(* ===== verification/CanUdsService.thy ===== *)
theory CanUdsService
  imports CanUds UdsProgramming UdsDownloadSafety CanIsoTpResponse
begin

text \<open>
  The diagnostic service on the bus: \<open>CAN_Uds_Process\<close> together with the ISO-TP channel of
  \<open>can_isotp.c\<close> and the transmit queue of \<open>can_transport.c\<close>, run by arbitrary sequences of received
  frames, polls, service calls and other uses of the bus. The locale \<open>diagnostic_service\<close> joins the
  server's contract with its application and the channel's contract with the bus.
\<close>

section \<open>Runs\<close>

datatype 'o can_uds_event = Cu_Rx "bytes option" u8 u32 | Cu_Poll u32 | Cu_Serve u32
  | Cu_App App_Startup_Snapshot App_ResetReason_Snapshot App_Diagnostics | Cu_Other 'o

fun can_uds_step :: "'t can_send \<Rightarrow> ('o \<Rightarrow> 't \<Rightarrow> 't) \<Rightarrow> 'o can_uds_event
    \<Rightarrow> 'p CAN_Uds \<times> 'p can_uds_app \<times> 't \<Rightarrow> 'p CAN_Uds \<times> 'p can_uds_app \<times> 't" where
  "can_uds_step send other (Cu_Rx d dlc now) (s, a, t) =
    (case CAN_IsoTp_OnCanFrame send d dlc now (app_isotp a) t of (_, ch, t) \<Rightarrow> (s, a\<lparr>app_isotp := ch\<rparr>, t))"
| "can_uds_step send other (Cu_Poll now) (s, a, t) =
    (case CAN_IsoTp_Process send now (app_isotp a) t of (_, ch, t) \<Rightarrow> (s, a\<lparr>app_isotp := ch\<rparr>, t))"
| "can_uds_step send other (Cu_Serve now) (s, a, t) =
    (case CAN_Uds_Process send now s a t of (_, s, a, t) \<Rightarrow> (s, a, t))"
| "can_uds_step send other (Cu_App st rs dg) (s, a, t) =
    (s, a\<lparr>app_startup := st, app_reset := rs, app_diagnostics := dg\<rparr>, t)"
| "can_uds_step send other (Cu_Other x) (s, a, t) = (s, a, other x t)"

text \<open>An event in which no other user sends under the diagnostic identifier.\<close>

fun can_uds_foreign :: "('o \<Rightarrow> bool) \<Rightarrow> 'o can_uds_event \<Rightarrow> bool" where
  "can_uds_foreign foreign (Cu_Other x) \<longleftrightarrow> foreign x"
| "can_uds_foreign foreign _ \<longleftrightarrow> True"

section \<open>The service keeps its promises\<close>

text \<open>Sending a response does not touch the reception side.\<close>

lemma send_frame_rx:
  assumes "CAN_IsoTp_SendFrame send f False s t = (r, s', t')"
  shows "rx_state (isotp_channel s') = rx_state (isotp_channel s)"
  using assms by (auto simp: CAN_IsoTp_SendFrame_def Let_def IsoTp_CancelTransmit_def IsoTp_ResetTransmitState_def split: prod.splits if_splits)

lemma record_error_channel: "isotp_channel (snd (CAN_IsoTp_RecordCoreError r s)) = isotp_channel s"
  by (cases r) (simp_all add: CAN_IsoTp_RecordCoreError_def)

lemma respond_rx:
  assumes "CAN_IsoTp_StartResponse send d len now s t = (r, s', t')"
  shows "rx_state (isotp_channel s') = rx_state (isotp_channel s)"
proof -
  obtain r1 c1 f1 where core: "IsoTp_StartTransmit (Some (isotp_channel s)) d len now (Some can_isotp_frame) = (r1, c1, f1)"
    by (metis prod.exhaust)
  have c1: "rx_state (the c1) = rx_state (isotp_channel s)" using core
    by (auto simp: IsoTp_StartTransmit_def IsoTp_StartTransmit_body_def Let_def IsoTp_ResetTransmitState_def
        split: option.splits if_splits)
  define s1 where "s1 = ci_count (\<lambda>x. x\<lparr>last_core_result := r1\<rparr>) (s\<lparr>isotp_channel := the c1\<rparr>)"
  have s1: "rx_state (isotp_channel s1) = rx_state (isotp_channel s)" by (simp add: s1_def c1)
  show ?thesis
  proof (cases "r1 = ISOTP_RESULT_FRAME_READY")
    case True
    define s2 where "s2 = ci_count (\<lambda>x. x\<lparr>tx_messages_started := tx_messages_started x + 1\<rparr>) s1"
    obtain r3 s3 t3 where sent: "CAN_IsoTp_SendFrame send (the f1) False s2 t = (r3, s3, t3)" by (metis prod.exhaust)
    have "isotp_channel s' = isotp_channel s3" using assms core sent True
      by (auto simp: CAN_IsoTp_StartResponse_def Let_def s2_def s1_def split: if_splits)
    then show ?thesis using send_frame_rx [OF sent] s1 by (simp add: s2_def)
  next
    case False
    then show ?thesis using assms core s1 record_error_channel [of r1 s1]
      by (auto simp: CAN_IsoTp_StartResponse_def Let_def s1_def split: if_splits prod.splits)
  qed
qed

lemma request_of_inv:
  assumes "isotp_inv (isotp_channel ch)" "CAN_IsoTp_HasRequest ch"
  shows "CAN_IsoTp_GetRequestLength ch \<noteq> 0" "\<exists>req. CAN_IsoTp_GetRequestData ch = Some req"
  using assms by (auto simp: CAN_IsoTp_HasRequest_def CAN_IsoTp_GetRequestLength_def CAN_IsoTp_GetRequestData_def
      IsoTp_HasReceivedMessage_def IsoTp_GetReceivedLength_def IsoTp_GetReceivedData_def isotp_inv_def isotp_rx_inv_def)

lemma release_idle: "\<not> CAN_IsoTp_HasRequest (CAN_IsoTp_ReleaseRequest ch)"
  by (auto simp: CAN_IsoTp_HasRequest_def CAN_IsoTp_ReleaseRequest_def IsoTp_HasReceivedMessage_def
      IsoTp_ReleaseReceivedMessage_def IsoTp_ResetReceiveState_def)

lemma has_request_rx: "CAN_IsoTp_HasRequest ch \<Longrightarrow> rx_state (isotp_channel ch) = ISOTP_RX_COMPLETE"
  by (auto simp: CAN_IsoTp_HasRequest_def IsoTp_HasReceivedMessage_def)

lemma release_rx: "CAN_IsoTp_HasRequest ch \<Longrightarrow> rx_state (isotp_channel (CAN_IsoTp_ReleaseRequest ch)) = ISOTP_RX_IDLE"
  by (auto simp: CAN_IsoTp_HasRequest_def IsoTp_HasReceivedMessage_def CAN_IsoTp_ReleaseRequest_def
      IsoTp_ReleaseReceivedMessage_def IsoTp_ResetReceiveState_def)


text \<open>The server and its callbacks leave the channel alone.\<close>

interpretation can_uds_channel: programming_client "can_uds_config prog prog_abort" "\<lambda>a. app_isotp a = ch" "\<lambda>a. app_isotp a = ch"
  for prog prog_abort ch
proof
  fix f did d cap len a r d' len' a'
  assume "read_did (can_uds_config prog prog_abort) = Some f" "f did d cap len a = (r, d', len', a')" "app_isotp a = ch"
  then show "app_isotp a' = ch \<and> (app_isotp a = ch \<longrightarrow> app_isotp a' = ch)"
    using read_did_bounds by (fastforce simp: can_uds_config_def)
qed (auto simp: can_uds_config_def can_uds_programming_def can_uds_abort_def split: prod.splits)

text \<open>What one call of the service does.\<close>

definition can_uds_served :: "('t \<Rightarrow> bytes list) \<Rightarrow> 'p CAN_Uds \<times> 'p can_uds_app \<times> 't \<Rightarrow> CAN_Uds_Result \<Rightarrow> 'p CAN_Uds \<times> 'p can_uds_app \<times> 't \<Rightarrow> bool" where
  "can_uds_served frames x res y \<longleftrightarrow> (case (x, y) of ((s, a, t), (s', a', t')) \<Rightarrow>
     \<not> CAN_IsoTp_HasRequest (app_isotp a')
   \<and> (if CAN_IsoTp_HasRequest (app_isotp a)
      then res \<in> {CAN_UDS_RESULT_OK, CAN_UDS_RESULT_RESPONSE_SUPPRESSED, CAN_UDS_RESULT_ISOTP_ERROR}
        \<and> requests_processed (uds_stats s') = requests_processed (uds_stats s) + 1
      else res = CAN_UDS_RESULT_NO_WORK \<and> uds_stats s' = uds_stats s)
   \<and> (res = CAN_UDS_RESULT_OK \<longrightarrow> (\<exists>len. uds_answer (the (CAN_IsoTp_GetRequestData (app_isotp a)) ! 0) 512 (uds_response_buffer s') len
        \<and> filter carries_data (frames t') = filter carries_data (frames t)
            @ take 1 (map frame_data (isotp_segment (take (unat len) (uds_response_buffer s')))))))"

locale diagnostic_service = frame_sink send other foreign sink_ok frames + uds_application "can_uds_config prog prog_abort"
  for send :: "'t can_send" and other :: "'o \<Rightarrow> 't \<Rightarrow> 't" and foreign :: "'o \<Rightarrow> bool" and sink_ok :: "'t \<Rightarrow> bool" and frames :: "'t \<Rightarrow> bytes list"
    and prog :: "'p Uds_ProgrammingCallback option" and prog_abort :: "'p Uds_ProgrammingAbortCallback option"
begin

definition serving :: "'p CAN_Uds \<times> 'p can_uds_app \<times> 't \<Rightarrow> bool" where
  "serving x \<longleftrightarrow> (case x of (s, a, t) \<Rightarrow> us_initialized (uds_server s)
     \<and> us_config (uds_server s) = can_uds_config prog prog_abort \<and> uds_session_inv (uds_server s)
     \<and> length (uds_response_buffer s) = 512 \<and> ready (app_isotp a, t) \<and> dispatch_errors (uds_stats s) = 0
     \<and> requests_processed (uds_stats s) = responses_started (uds_stats s) + responses_suppressed (uds_stats s)
         + isotp_response_failures (uds_stats s))"

lemma serve_serving:
  assumes inv: "serving (s, a, t)" and run: "CAN_Uds_Process send now s a t = (res, s', a', t')"
  shows "serving (s', a', t') \<and> can_uds_served frames (s, a, t) res (s', a', t')"
proof -
  have s: "us_initialized (uds_server s)" "us_config (uds_server s) = can_uds_config prog prog_abort"
    "uds_session_inv (uds_server s)" "length (uds_response_buffer s) = 512" "ready (app_isotp a, t)"
    "dispatch_errors (uds_stats s) = 0"
    "requests_processed (uds_stats s) = responses_started (uds_stats s) + responses_suppressed (uds_stats s)
         + isotp_response_failures (uds_stats s)"
    using inv by (simp_all add: serving_def)
  obtain s1 a1 where tick: "Uds_Server_Tick_body (uds_server s) now a = (s1, a1)" by fastforce
  have s1: "us_initialized s1" "us_config s1 = can_uds_config prog prog_abort" "uds_session_inv s1"
    using tick_setup [of "uds_server s" now a] tick_inv [OF s(3), of now a] s(1,2) by (simp_all add: tick same_setup_def)
  have "can_uds_channel.linked prog prog_abort (app_isotp a) (uds_server s) a"
    using s(2) by (simp add: can_uds_channel.linked_def)
  from can_uds_channel.tick_linked [OF this tick] have a1: "app_isotp a1 = app_isotp a"
    by (simp add: can_uds_channel.linked_def)
  show ?thesis
  proof (cases "CAN_IsoTp_HasRequest (app_isotp a)")
    case False
    then have "s' = s\<lparr>uds_server := s1\<rparr>" "a' = a1" "t' = t" "res = CAN_UDS_RESULT_NO_WORK"
      using run by (auto simp: CAN_Uds_Process_def Uds_Server_Tick_def tick a1)
    then show ?thesis using False s s1 a1 by (simp add: serving_def can_uds_served_def)
  next
    case True
    have chan: "isotp_inv (isotp_channel (app_isotp a))" using s(5) by (simp add: ready_def)
    obtain req where req: "CAN_IsoTp_GetRequestData (app_isotp a) = Some req" using request_of_inv [OF chan True] by blast
    define n where "n = CAN_IsoTp_GetRequestLength (app_isotp a)"
    have n: "n \<noteq> 0" using request_of_inv [OF chan True] by (simp add: n_def)
    let ?io = "\<lparr>io_server = s1, io_response = uds_response_buffer s, io_length = 0, io_world = a1\<rparr>"
    obtain r io where proc: "Uds_Server_ProcessRequest_body req n now CAN_ISOTP_BUFFER_CAPACITY ?io = (r, io)" by fastforce
    have cap: "6 \<le> CAN_ISOTP_BUFFER_CAPACITY" "unat CAN_ISOTP_BUFFER_CAPACITY = 512" by (simp_all add: CAN_ISOTP_BUFFER_CAPACITY_def)
    have r: "r \<in> {UDS_SERVER_RESULT_RESPONSE_READY, UDS_SERVER_RESULT_NO_RESPONSE}"
      using process_settled [OF cap(1) n, of ?io req now] s1(1) by (simp add: proc)
    have out: "uds_outcome (req ! 0) CAN_ISOTP_BUFFER_CAPACITY (uds_response_buffer s) (r, io)"
      using process_outcome [of CAN_ISOTP_BUFFER_CAPACITY ?io n req now] s(4) s1 n by (simp add: proc cap)
    have srv: "us_initialized (io_server io)" "us_config (io_server io) = can_uds_config prog prog_abort" "uds_session_inv (io_server io)"
      using process_setup [of ?io req n now CAN_ISOTP_BUFFER_CAPACITY] s1 process_inv [of ?io req n now CAN_ISOTP_BUFFER_CAPACITY]
      by (simp_all add: proc same_setup_def)
    have "can_uds_channel.linked prog prog_abort (app_isotp a) s1 a1"
      using s1(2) a1 by (simp add: can_uds_channel.linked_def)
    then have ch: "app_isotp (io_world io) = app_isotp a"
      using can_uds_channel.process_linked [of prog prog_abort "app_isotp a" ?io req n now CAN_ISOTP_BUFFER_CAPACITY]
      by (simp add: proc can_uds_channel.linked_def)
    have len: "length (io_response io) = 512" using out s(4) by (simp add: uds_outcome_def uds_within_def)
    define ch1 where "ch1 = CAN_IsoTp_ReleaseRequest (app_isotp a)"
    have rdy: "ready (ch1, t)" using s(5) inv_cancel(3) by (simp add: ready_def ch1_def CAN_IsoTp_ReleaseRequest_def)
    show ?thesis
    proof (cases "r = UDS_SERVER_RESULT_NO_RESPONSE")
      case quiet: True
      then have "s' = s\<lparr>uds_server := io_server io, uds_response_buffer := io_response io,
          uds_stats := (uds_stats s)\<lparr>requests_processed := requests_processed (uds_stats s) + 1,
            last_server_result := r, responses_suppressed := responses_suppressed (uds_stats s) + 1\<rparr>\<rparr>"
        "a' = (io_world io)\<lparr>app_isotp := ch1\<rparr>" "t' = t" "res = CAN_UDS_RESULT_RESPONSE_SUPPRESSED"
        using run True by (auto simp: CAN_Uds_Process_def Uds_Server_Tick_def tick a1 req n_def [symmetric]
            Uds_Server_ProcessRequest_def proc ch ch1_def Let_def)
      then show ?thesis using True s srv len rdy release_idle [of "app_isotp a"]
        by (simp add: serving_def can_uds_served_def ch1_def)
    next
      case False
      then have ready: "r = UDS_SERVER_RESULT_RESPONSE_READY" using r by simp
      obtain ir ch2 t2 where st: "CAN_IsoTp_StartResponse send (Some (io_response io)) (io_length io) (now * 1000) ch1 t = (ir, ch2, t2)"
        by (metis prod.exhaust)
      define ok where "ok \<longleftrightarrow> ir = CAN_ISOTP_RESULT_OK"
      have eqs: "s' = s\<lparr>uds_server := io_server io, uds_response_buffer := io_response io,
          uds_stats := (uds_stats s)\<lparr>requests_processed := requests_processed (uds_stats s) + 1,
            last_server_result := r, last_isotp_result := ir,
            responses_started := responses_started (uds_stats s) + (if ok then 1 else 0),
            isotp_response_failures := isotp_response_failures (uds_stats s) + (if ok then 0 else 1)\<rparr>\<rparr>"
        "a' = (io_world io)\<lparr>app_isotp := ch2\<rparr>" "t' = t2"
        "res = (if ok then CAN_UDS_RESULT_OK else CAN_UDS_RESULT_ISOTP_ERROR)"
        using run True ready by (auto simp: CAN_Uds_Process_def Uds_Server_Tick_def tick a1 req n_def [symmetric]
            Uds_Server_ProcessRequest_def proc ch ch1_def [symmetric] Let_def st ok_def split: if_splits)
      have rdy2: "ready (ch2, t2)" using respond_inv [of t ch1, OF _ _ st] rdy by (simp add: ready_def)
      have "rx_state (isotp_channel ch2) \<noteq> ISOTP_RX_COMPLETE" using respond_rx [OF st] release_rx [OF True] by (simp add: ch1_def)
      then have idle: "\<not> CAN_IsoTp_HasRequest ch2" using has_request_rx by blast
      have answer: "uds_answer (req ! 0) 512 (io_response io) (io_length io)"
        using out ready by (simp add: uds_outcome_def CAN_ISOTP_BUFFER_CAPACITY_def)
      then have "unat (io_length io) \<le> length (io_response io)"
        using len by (simp add: uds_answer_def word_le_nat_alt)
      then have "filter carries_data (frames t2) = filter carries_data (frames t)
            @ take 1 (map frame_data (isotp_segment (take (unat (io_length io)) (io_response io))))" if ok
        using respond_sending(1) [of t ch1 "io_length io" "io_response io" "now * 1000" ch2 t2] rdy st that
        by (simp add: ready_def sending_def ok_def)
      then show ?thesis using True s srv len rdy2 idle answer eqs req
        by (auto simp: serving_def can_uds_served_def)
    qed
  qed
qed


lemma step_serving:
  assumes inv: "serving x" and foreign: "can_uds_foreign foreign e"
  shows "serving (can_uds_step send other e x)"
proof -
  obtain s a t where x: "x = (s, a, t)" by (metis prod.exhaust)
  have rdy: "ready (app_isotp a, t)" using inv by (simp add: serving_def x)
  show ?thesis
  proof (cases e)
    case (Cu_Rx d dlc now)
    obtain r ch t' where "CAN_IsoTp_OnCanFrame send d dlc now (app_isotp a) t = (r, ch, t')" by (metis prod.exhaust)
    with rx_ready [OF rdy this] inv show ?thesis by (simp add: Cu_Rx x serving_def)
  next
    case (Cu_Poll now)
    obtain r ch t' where "CAN_IsoTp_Process send now (app_isotp a) t = (r, ch, t')" by (metis prod.exhaust)
    with poll_ready [OF rdy this] inv show ?thesis by (simp add: Cu_Poll x serving_def)
  next
    case (Cu_Serve now)
    obtain r s' a' t' where "CAN_Uds_Process send now s a t = (r, s', a', t')" by (metis prod.exhaust)
    with serve_serving [OF inv [unfolded x] this] show ?thesis by (simp add: Cu_Serve x)
  next
    case (Cu_App st rs dg)
    then show ?thesis using inv by (simp add: x serving_def)
  next
    case (Cu_Other y)
    then show ?thesis using inv foreign other_frames [of t y] by (simp add: x serving_def ready_def)
  qed
qed

lemma steps_serving: "serving x \<Longrightarrow> \<forall>e \<in> set es. can_uds_foreign foreign e \<Longrightarrow> serving (fold (can_uds_step send other) es x)"
  by (induction es arbitrary: x) (simp_all add: step_serving)

lemma init_serving:
  assumes "length (uds_response_buffer s) = 512" "ready (app_isotp a, t)"
  shows "serving (CAN_Uds_InitWithProgramming prog prog_abort s, a, t)"
  using assms by (simp add: serving_def CAN_Uds_InitWithProgramming_def Uds_Server_Init_def can_uds_stats_zero_def
      uds_session_inv_def)

lemma service_answers:
  assumes "length (uds_response_buffer s0) = 512" "ready (app_isotp a0, t0)" "\<forall>e \<in> set es. can_uds_foreign foreign e"
    and "fold (can_uds_step send other) es (CAN_Uds_InitWithProgramming prog prog_abort s0, a0, t0) = (s, a, t)"
    and "CAN_Uds_Process send now s a t = (res, s', a', t')"
  shows "can_uds_served frames (s, a, t) res (s', a', t') \<and> dispatch_errors (uds_stats s') = 0
    \<and> requests_processed (uds_stats s') = responses_started (uds_stats s') + responses_suppressed (uds_stats s')
         + isotp_response_failures (uds_stats s')"
proof -
  have "serving (s, a, t)" using steps_serving [OF init_serving [OF assms(1,2)] assms(3)] by (simp add: assms(4))
  from serve_serving [OF this assms(5)] show ?thesis by (simp add: serving_def)
qed

end

interpretation plain_service: diagnostic_service "diag_send hal" "diag_other hal" diag_foreign diag_ok diag_frames None None
  for hal ..

interpretation download_service: diagnostic_service "diag_send hal" "diag_other hal" diag_foreign diag_ok diag_frames
    "Some download_callback" "Some download_abort_callback"
  for hal ..

text \<open>
  C25. Every diagnostic request gets its answer. Whatever happened before on the bus and in the
  application, as long as no other user of the bus sends under the diagnostic response identifier, a call of the service takes the waiting request, if there is one, off the channel
  and settles it: the response is suppressed as requested, or it is a well-formed answer to that
  request, inside the buffer, whose first frame is handed to the bus, or the channel refuses it.
  Dispatching never fails, and the counters of the outcomes add up to that of the requests. This
  holds for the service as initialised without programming and for one that drives a download.
\<close>

theorem diagnostic_requests_answered:
  fixes prog :: "('v Uds_Download \<times> 'v) Uds_ProgrammingCallback option"
  assumes "(prog, prog_abort) = (None, None) \<or> (prog, prog_abort) = (Some download_callback, Some download_abort_callback)"
    and "length (uds_response_buffer s0) = 512" "\<forall>e \<in> set es. can_uds_foreign diag_foreign e"
    and "fold (can_uds_step (diag_send hal) (diag_other hal)) es (CAN_Uds_InitWithProgramming prog prog_abort s0,
        a0\<lparr>app_isotp := CAN_IsoTp_Init can_isotp_static\<rparr>, CAN_Transport_Init (Some h) can_transport_static, w0, []) = (s, a, t)"
    and "CAN_Uds_Process (diag_send hal) now s a t = (res, s', a', t')"
  shows "can_uds_served diag_frames (s, a, t) res (s', a', t') \<and> dispatch_errors (uds_stats s') = 0
    \<and> requests_processed (uds_stats s') = responses_started (uds_stats s') + responses_suppressed (uds_stats s')
         + isotp_response_failures (uds_stats s')"
proof -
  have rdy: "diag.ready (app_isotp (a0\<lparr>app_isotp := CAN_IsoTp_Init can_isotp_static\<rparr>),
      CAN_Transport_Init (Some h) can_transport_static, w0, [])" using can_started_ready [of h w0] by simp
  from assms(1) show ?thesis
  proof
    assume "(prog, prog_abort) = (None, None)"
    then show ?thesis using plain_service.service_answers [OF assms(2) rdy assms(3) _ assms(5)] assms(4) by simp
  next
    assume "(prog, prog_abort) = (Some download_callback, Some download_abort_callback)"
    then show ?thesis using download_service.service_answers [OF assms(2) rdy assms(3) _ assms(5)] assms(4) by simp
  qed
qed


section \<open>Programming over the bus\<close>

text \<open>
  With a download behind the callbacks: the download keeps its invariant, and outside the
  programming session it is idle.
\<close>

interpretation can_uds_programming: programming_client
  "can_uds_config (Some download_callback) (Some download_abort_callback)"
  "\<lambda>a. dl_inv cfg (app_programming a)" "\<lambda>a. dl_state (dl_stats (fst (app_programming a))) = UDS_DOWNLOAD_STATE_IDLE"
  for cfg
proof
  fix f did d cap len and a :: "(('a \<times> dl_action list) Uds_Download \<times> 'a \<times> dl_action list) can_uds_app" and r d' len' a'
  assume "read_did (can_uds_config (Some download_callback) (Some download_abort_callback)) = Some f"
    "f did d cap len a = (r, d', len', a')" "dl_inv cfg (app_programming a)"
  then show "dl_inv cfg (app_programming a') \<and> (dl_state (dl_stats (fst (app_programming a))) = UDS_DOWNLOAD_STATE_IDLE
      \<longrightarrow> dl_state (dl_stats (fst (app_programming a'))) = UDS_DOWNLOAD_STATE_IDLE)"
    using read_did_bounds by (fastforce simp: can_uds_config_def)
next
  fix g sid req n d cap len and a :: "(('a \<times> dl_action list) Uds_Download \<times> 'a \<times> dl_action list) can_uds_app" and nrc d' len' a'
  assume g: "programming (can_uds_config (Some download_callback) (Some download_abort_callback)) = Some g"
    "g sid req n d cap len a = (nrc, d', len', a')" and inv: "dl_inv cfg (app_programming a)"
  obtain x w where p: "app_programming a = (x, w)" by (metis surj_pair)
  let ?io = "\<lparr>dio_download = x, dio_response = d, dio_length = len, dio_world = w\<rparr>"
  have "app_programming a' = (dio_download (snd (Uds_Download_Handle_body sid req n cap ?io)),
      dio_world (snd (Uds_Download_Handle_body sid req n cap ?io)))"
    using g by (auto simp: can_uds_config_def can_uds_programming_def download_callback_def p split: prod.splits)
  then show "dl_inv cfg (app_programming a')" using handle_inv [of cfg ?io sid req n cap] inv p by simp
next
  fix h :: "(('a \<times> dl_action list) Uds_Download \<times> 'a \<times> dl_action list) can_uds_app Uds_ProgrammingAbortCallback"
    and a :: "(('a \<times> dl_action list) Uds_Download \<times> 'a \<times> dl_action list) can_uds_app"
  assume h: "programming_abort (can_uds_config (Some download_callback) (Some download_abort_callback)) = Some h"
    and inv: "dl_inv cfg (app_programming a)"
  obtain x w where p: "app_programming a = (x, w)" by (metis surj_pair)
  have "app_programming (h a) = Uds_Download_Abort_body x w"
    using h by (auto simp: can_uds_config_def can_uds_abort_def download_abort_callback_def p)
  moreover have "dl_initialized x" using inv by (auto simp: p dl_inv_def dl_setup_def split: prod.splits)
  ultimately show "dl_inv cfg (app_programming (h a)) \<and> dl_state (dl_stats (fst (app_programming (h a)))) = UDS_DOWNLOAD_STATE_IDLE"
    using abort_inv [of cfg x w] inv p by (simp add: Uds_Download_Abort_body_def)
qed (simp add: can_uds_config_def)

lemma serve_linked:
  assumes "can_uds_programming.linked cfg (uds_server s) a" "CAN_Uds_Process send now s a t = (res, s', a', t')"
  shows "can_uds_programming.linked cfg (uds_server s') a'"
proof -
  obtain s1 a1 where tick: "Uds_Server_Tick_body (uds_server s) now a = (s1, a1)" by fastforce
  note l1 = can_uds_programming.tick_linked [OF assms(1) tick]
  have l2: "can_uds_programming.linked cfg (io_server io) ((io_world io)\<lparr>app_isotp := ch\<rparr>)"
    if "Uds_Server_ProcessRequest_body req n now cap \<lparr>io_server = s1, io_response = b, io_length = k, io_world = a1\<rparr> = (r, io)"
    for req n cap b k r io ch
    using can_uds_programming.process_linked [of cfg "\<lparr>io_server = s1, io_response = b, io_length = k, io_world = a1\<rparr>" req n now cap] l1
    by (simp add: that can_uds_programming.linked_def)
  have l3: "can_uds_programming.linked cfg s1 (a1\<lparr>app_isotp := ch\<rparr>)" for ch
    using l1 by (simp add: can_uds_programming.linked_def)
  show ?thesis using assms(2) l1 l2 l3
    by (auto simp: CAN_Uds_Process_def Uds_Server_Tick_def tick Let_def Uds_Server_ProcessRequest_def
        split: if_splits prod.splits option.splits)
qed

lemma step_linked:
  "can_uds_programming.linked cfg (uds_server s) a \<Longrightarrow> can_uds_step send other e (s, a, t) = (s', a', t')
    \<Longrightarrow> can_uds_programming.linked cfg (uds_server s') a'"
proof (cases e)
  case (Cu_Serve now)
  then show "can_uds_programming.linked cfg (uds_server s) a \<Longrightarrow> can_uds_step send other e (s, a, t) = (s', a', t') \<Longrightarrow> ?thesis"
    using serve_linked by (fastforce split: prod.splits)
qed (auto simp: can_uds_programming.linked_def split: prod.splits)

lemma steps_linked:
  "can_uds_programming.linked cfg (uds_server s) a \<Longrightarrow> fold (can_uds_step send other) es (s, a, t) = (s', a', t')
    \<Longrightarrow> can_uds_programming.linked cfg (uds_server s') a'"
proof (induction es arbitrary: s a t)
  case (Cons e es)
  obtain s1 a1 t1 where "can_uds_step send other e (s, a, t) = (s1, a1, t1)" by (metis prod.exhaust)
  with Cons step_linked [OF Cons.prems(1) this] show ?case by simp
qed simp

text \<open>
  C26. Programming over the bus is safe. Whatever frames arrive, however the service is called, and
  whatever the flash backend answers, the backend sees only calls that follow the programming
  protocol on the slot that is not running; and whenever the diagnostic session is not the
  programming session, because it was left or has expired, no download is under way.
\<close>

theorem diagnostic_programming_protocol:
  assumes "Uds_Download_Init (Some d0) (Some (dl_logged cfg)) = (UDS_SERVER_RESULT_OK, Some d)"
    and "app_programming a0 = (d, w0, [])"
    and "fold (can_uds_step send other) es (CAN_Uds_InitWithProgramming (Some download_callback)
        (Some download_abort_callback) s0, a0, t0) = (s, a, t)"
    and "app_programming a = (d', w', log)"
  shows "dl_protocol (dl_inactive_slot cfg) log \<noteq> None
    \<and> (current_session (us_stats (uds_server s)) \<noteq> CAN_PROTOCOL_UDS_SESSION_PROGRAMMING
        \<longrightarrow> dl_state (dl_stats d') = UDS_DOWNLOAD_STATE_IDLE)"
proof -
  have "dl_state (dl_stats d) = UDS_DOWNLOAD_STATE_IDLE"
    using assms(1) by (auto simp: Uds_Download_Init_def dl_stats_zero_def split: if_splits)
  then have "can_uds_programming.linked cfg (uds_server (CAN_Uds_InitWithProgramming (Some download_callback)
        (Some download_abort_callback) s0)) a0"
    using init_inv [OF assms(1), of w0] assms(2)
    by (simp add: can_uds_programming.linked_def CAN_Uds_InitWithProgramming_def Uds_Server_Init_def)
  from steps_linked [OF this assms(3)] show ?thesis
    unfolding can_uds_programming.linked_def assms(4) by (auto simp: dl_inv_def simp del: dl_linked.simps)
qed

section \<open>Witnesses\<close>

text \<open>A tester that opens the programming session and asks for the erase, in two frames.\<close>

definition demo_uds_events :: "can_call can_uds_event list" where
  "demo_uds_events = [Cu_Rx (Some [0x02, 0x10, 0x02, 0, 0, 0, 0, 0]) 8 100, Cu_Serve 1, Cu_Poll 2000,
     Cu_Rx (Some [0x04, 0x31, 0x01, 0xFF, 0x00, 0, 0, 0]) 8 3000, Cu_Serve 4]"

theorem diagnostic_requests_answered_witness:
  "\<exists>s a t res s' a' t'. fold (can_uds_step (diag_send demo_open_hal) (diag_other demo_open_hal)) demo_uds_events
      (CAN_Uds_InitWithProgramming (Some download_callback) (Some download_abort_callback) demo_can_uds,
       (demo_uds_app (demo_download, 0, []))\<lparr>app_isotp := CAN_IsoTp_Init can_isotp_static\<rparr>,
       CAN_Transport_Init (Some 1) can_transport_static, 0, []) = (s, a, t)
    \<and> CAN_Uds_Process (diag_send demo_open_hal) 5 s a t = (res, s', a', t')
    \<and> can_uds_served diag_frames (s, a, t) res (s', a', t') \<and> dispatch_errors (uds_stats s') = 0"
proof -
  let ?start = "(CAN_Uds_InitWithProgramming (Some download_callback) (Some download_abort_callback) demo_can_uds,
       (demo_uds_app (demo_download, 0, []))\<lparr>app_isotp := CAN_IsoTp_Init can_isotp_static\<rparr>,
       CAN_Transport_Init (Some 1) can_transport_static, 0 :: nat, [])"
  obtain s a t where run: "fold (can_uds_step (diag_send demo_open_hal) (diag_other demo_open_hal)) demo_uds_events ?start = (s, a, t)"
    by (metis prod.exhaust)
  obtain res s' a' t' where serve: "CAN_Uds_Process (diag_send demo_open_hal) 5 s a t = (res, s', a', t')" by (metis prod.exhaust)
  have "length (uds_response_buffer demo_can_uds) = 512" by (simp add: demo_can_uds_def)
  moreover have "\<forall>e \<in> set demo_uds_events. can_uds_foreign diag_foreign e" by (simp add: demo_uds_events_def)
  ultimately show ?thesis using diagnostic_requests_answered [OF disjI2 [OF refl] _ _ run serve] run serve by blast
qed

theorem diagnostic_programming_protocol_witness:
  "\<exists>s a t d' w' log. fold (can_uds_step (diag_send demo_open_hal) (diag_other demo_open_hal)) demo_uds_events
      (CAN_Uds_InitWithProgramming (Some download_callback) (Some download_abort_callback) demo_can_uds,
       demo_uds_app (demo_download, 0, []),
       CAN_Transport_Init (Some 1) can_transport_static, 0, []) = (s, a, t)
    \<and> app_programming a = (d', w', log) \<and> dl_protocol BOOT_SLOT_B log \<noteq> None"
proof -
  let ?start = "(CAN_Uds_InitWithProgramming (Some download_callback) (Some download_abort_callback) demo_can_uds,
       demo_uds_app (demo_download, 0, []), CAN_Transport_Init (Some 1) can_transport_static, 0 :: nat, [])"
  obtain s a t where run: "fold (can_uds_step (diag_send demo_open_hal) (diag_other demo_open_hal)) demo_uds_events ?start = (s, a, t)"
    by (metis prod.exhaust)
  obtain d' w' log where p: "app_programming a = (d', w', log)" by (metis prod.exhaust)
  have "app_programming (demo_uds_app (demo_download, 0, [])) = (demo_download, 0, [])" by (simp add: demo_uds_app_def)
  from diagnostic_programming_protocol [OF demo_download_init this run p]
  have "dl_protocol (dl_inactive_slot demo_backend) log \<noteq> None" by blast
  moreover have "dl_inactive_slot demo_backend = BOOT_SLOT_B" by (simp add: dl_inactive_slot_def demo_backend_def)
  ultimately have "dl_protocol BOOT_SLOT_B log \<noteq> None" by simp
  with run p show ?thesis by blast
qed

end
