(* ===== verification/CanProtocol.thy ===== *)
theory CanProtocol
  imports Prelude
begin

text \<open>
  The frame formats of the application protocol, \<open>src/Core/Src/can_protocol.c\<close>. Each message is the
  record of its struct, its fields prefixed by two letters; flag fields are bytes as in the code and
  count as set when they are not zero. An encoder stores into an eight-byte payload.
\<close>

section \<open>Data\<close>

record CAN_Protocol_RtcTime =
  rt_hour :: u8
  rt_minute :: u8
  rt_second :: u8
  rt_hundredth :: u8
  rt_day :: u8
  rt_month :: u8
  rt_year :: u8
  rt_weekday :: u8
  rt_calendar_valid :: u8
  rt_ready :: u8
  rt_osf :: u8

record CAN_Protocol_RtcAlarmEvent =
  ae_event_code :: u8
  ae_alarm_flag :: u8
  ae_interrupt_enabled :: u8
  ae_configuration_valid :: u8
  ae_hour :: u8
  ae_minute :: u8
  ae_second :: u8
  ae_day :: u8
  ae_month :: u8
  ae_year :: u8

record CAN_Protocol_SystemStatus =
  sy_slot_1_running :: u8
  sy_slot_2_running :: u8
  sy_led_1_on :: u8
  sy_led_2_on :: u8
  sy_request_flags :: u8
  sy_physical_flags :: u8
  sy_override_flags :: u8

record CAN_Protocol_CanRxHealth =
  rh_flags :: u8
  rh_max_fifo_fill :: u8
  rh_message_lost_events :: u16
  rh_fifo_full_events :: u16
  rh_watermark_events :: u16

record CAN_Protocol_TimingService =
  ts_service_id :: u8
  ts_flags :: u8
  ts_current_us :: u16
  ts_minimum_us :: u16
  ts_maximum_us :: u16

record CAN_Protocol_TimingAckLatency =
  tl_p50_us :: u16
  tl_p95_us :: u16
  tl_p99_us :: u16
  tl_maximum_us :: u16

record CAN_Protocol_LogHeartbeat =
  lh_latest_sequence :: u32
  lh_record_count :: u8
  lh_ready :: u8
  lh_overwrite_detected :: u8
  lh_alive_counter :: u8

record CAN_Protocol_PwmStatus =
  pw_running :: u8
  pw_duty_percent :: u8
  pw_actual_frequency_hz :: u32
  pw_control_flags :: u8

record CAN_Protocol_InputCaptureStatus =
  ic_signal_detected :: u8
  ic_duty_percent :: u8
  ic_frequency_hz :: u32
  ic_edge_count :: u16

record CAN_Protocol_PwmSelfTestStatus =
  st_state :: u8
  st_current_point :: u8
  st_total_points :: u8
  st_passed_points :: u8
  st_expected_frequency_hz :: u32

record CAN_Protocol_PwmSelfTestResult =
  sr_point :: u8
  sr_passed :: u8
  sr_expected_duty_percent :: u8
  sr_measured_duty_percent :: u8
  sr_measured_frequency_hz :: u32

record CAN_Protocol_Tic12400Status =
  tc_online :: u8
  tc_configuration_valid :: u8
  tc_crc_complete :: u8
  tc_monitoring :: u8
  tc_por_observed :: u8
  tc_service_fault :: u8
  tc_device_id :: u8
  tc_service_result :: u8
  tc_spi_fail :: u8
  tc_parity_fail :: u8
  tc_switch_state_change :: u8
  tc_supply_threshold :: u8
  tc_temperature :: u8
  tc_other_interrupt :: u8
  tc_power_on_reset :: u8
  tc_service_failures :: u16
  tc_last_nonzero_int_status :: u16

record CAN_Protocol_Tic12400SwitchState =
  sw_closed_bitmap :: u32
  sw_valid_mask :: u32
  sw_generation :: u8
  sw_data_valid :: u8

record CAN_Protocol_Tic12400Profile =
  tp_battery_switch_mask :: u32
  tp_battery_capable_mask :: u32
  tp_generation :: u8
  tp_configuration_valid :: u8

record CAN_Protocol_RtcAlarmCommand =
  ac_enable_mask :: u8
  ac_second :: u8
  ac_minute :: u8
  ac_hour :: u8
  ac_day :: u8
  ac_weekday :: u8

section \<open>Byte order, identifiers and token\<close>

definition CAN_Protocol_ReadU16LE :: "bytes \<Rightarrow> nat \<Rightarrow> u16" where
  "CAN_Protocol_ReadU16LE d p = ucast (d ! p) OR push_bit 8 (ucast (d ! (p + 1)))"

definition CAN_Protocol_ReadU32LE :: "bytes \<Rightarrow> nat \<Rightarrow> u32" where
  "CAN_Protocol_ReadU32LE d p = ucast (d ! p) OR push_bit 8 (ucast (d ! (p + 1)))
     OR push_bit 16 (ucast (d ! (p + 2))) OR push_bit 24 (ucast (d ! (p + 3)))"

definition CAN_Protocol_WriteU32LE :: "nat \<Rightarrow> u32 \<Rightarrow> bytes \<Rightarrow> bytes" where
  "CAN_Protocol_WriteU32LE p v d = d[p := ucast (v AND 0xFF), p + 1 := ucast (drop_bit 8 v AND 0xFF),
     p + 2 := ucast (drop_bit 16 v AND 0xFF), p + 3 := ucast (drop_bit 24 v AND 0xFF)]"

definition CAN_Protocol_WriteU16LE :: "nat \<Rightarrow> u16 \<Rightarrow> bytes \<Rightarrow> bytes" where
  "CAN_Protocol_WriteU16LE p v d = d[p := ucast (v AND 0xFF), p + 1 := ucast (drop_bit 8 v AND 0xFF)]"

text \<open>One round of the inner loop and of the outer loop of the token.\<close>

definition can_token_bit :: "u8 \<Rightarrow> u8" where
  "can_token_bit crc = (if crc AND 0x80 \<noteq> 0 then push_bit 1 crc XOR 0x1D else push_bit 1 crc)"

definition can_token_byte :: "u8 \<Rightarrow> u8 \<Rightarrow> u8" where
  "can_token_byte b crc = (can_token_bit ^^ 8) (crc XOR b)"

definition CAN_Protocol_CalculateCommandToken :: "bytes option \<Rightarrow> u8" where
  "CAN_Protocol_CalculateCommandToken payload = (case payload of None \<Rightarrow> 0
     | Some p \<Rightarrow> fold can_token_byte (take 8 p) 0xFF XOR 0xFF)"

definition CAN_Protocol_IsValidId :: "bool \<Rightarrow> u32 \<Rightarrow> bool" where
  "CAN_Protocol_IsValidId is_extended ident = (if \<not> is_extended then ident \<le> 0x7FF else ident \<le> 0x1FFFFFFF)"

section \<open>Commands\<close>

definition CAN_PROTOCOL_RTC_ALARM_ENABLE_SECOND :: u8 where "CAN_PROTOCOL_RTC_ALARM_ENABLE_SECOND = 0x01"
definition CAN_PROTOCOL_RTC_ALARM_ENABLE_MINUTE :: u8 where "CAN_PROTOCOL_RTC_ALARM_ENABLE_MINUTE = 0x02"
definition CAN_PROTOCOL_RTC_ALARM_ENABLE_HOUR :: u8 where "CAN_PROTOCOL_RTC_ALARM_ENABLE_HOUR = 0x04"
definition CAN_PROTOCOL_RTC_ALARM_ENABLE_DAY :: u8 where "CAN_PROTOCOL_RTC_ALARM_ENABLE_DAY = 0x08"
definition CAN_PROTOCOL_RTC_ALARM_ENABLE_WEEKDAY :: u8 where "CAN_PROTOCOL_RTC_ALARM_ENABLE_WEEKDAY = 0x10"
definition CAN_PROTOCOL_RTC_ALARM_ENABLE_MASK :: u8 where "CAN_PROTOCOL_RTC_ALARM_ENABLE_MASK = 0x1F"
definition CAN_PROTOCOL_TIC12400_BATTERY_CAPABLE_MASK :: u32 where "CAN_PROTOCOL_TIC12400_BATTERY_CAPABLE_MASK = 0x3FF"

lemmas alarm_enable_consts = CAN_PROTOCOL_RTC_ALARM_ENABLE_SECOND_def CAN_PROTOCOL_RTC_ALARM_ENABLE_MINUTE_def
  CAN_PROTOCOL_RTC_ALARM_ENABLE_HOUR_def CAN_PROTOCOL_RTC_ALARM_ENABLE_DAY_def
  CAN_PROTOCOL_RTC_ALARM_ENABLE_WEEKDAY_def CAN_PROTOCOL_RTC_ALARM_ENABLE_MASK_def

text \<open>The decoders return what they store, \<open>None\<close> when they report failure.\<close>

definition CAN_Protocol_DecodeRtcAlarmCommand :: "bytes option \<Rightarrow> CAN_Protocol_RtcAlarmCommand option" where
  "CAN_Protocol_DecodeRtcAlarmCommand payload = (case payload of None \<Rightarrow> None
   | Some p \<Rightarrow>
     let m = p ! 1
     in if m AND NOT CAN_PROTOCOL_RTC_ALARM_ENABLE_MASK \<noteq> 0 \<or> p ! 7 \<noteq> 0 then None
        else if (if m AND CAN_PROTOCOL_RTC_ALARM_ENABLE_SECOND \<noteq> 0 then p ! 2 > 59 else p ! 2 \<noteq> 0) then None
        else if (if m AND CAN_PROTOCOL_RTC_ALARM_ENABLE_MINUTE \<noteq> 0 then p ! 3 > 59 else p ! 3 \<noteq> 0) then None
        else if (if m AND CAN_PROTOCOL_RTC_ALARM_ENABLE_HOUR \<noteq> 0 then p ! 4 > 23 else p ! 4 \<noteq> 0) then None
        else if (if m AND CAN_PROTOCOL_RTC_ALARM_ENABLE_DAY \<noteq> 0 then p ! 5 < 1 \<or> p ! 5 > 31 else p ! 5 \<noteq> 0) then None
        else if (if m AND CAN_PROTOCOL_RTC_ALARM_ENABLE_WEEKDAY \<noteq> 0 then p ! 6 > 6 else p ! 6 \<noteq> 0) then None
        else Some \<lparr>ac_enable_mask = m, ac_second = p ! 2, ac_minute = p ! 3, ac_hour = p ! 4, ac_day = p ! 5,
               ac_weekday = p ! 6\<rparr>)"

definition CAN_Protocol_DecodeTic12400PolarityCommand :: "bytes option \<Rightarrow> u32 option" where
  "CAN_Protocol_DecodeTic12400PolarityCommand payload = (case payload of None \<Rightarrow> None
   | Some p \<Rightarrow>
     let decoded_mask = ucast (p ! 1) OR push_bit 8 (ucast (p ! 2)) OR push_bit 16 (ucast (p ! 3))
     in if decoded_mask AND NOT CAN_PROTOCOL_TIC12400_BATTERY_CAPABLE_MASK \<noteq> 0
          \<or> p ! 4 \<noteq> 0 \<or> p ! 5 \<noteq> 0 \<or> p ! 6 \<noteq> 0 \<or> p ! 7 \<noteq> 0 then None
        else Some decoded_mask)"

section \<open>Telemetry\<close>

definition or_flag :: "u8 \<Rightarrow> nat \<Rightarrow> u8 \<Rightarrow> bytes \<Rightarrow> bytes" where
  "or_flag f k m d = (if f \<noteq> 0 then d[k := d ! k OR m] else d)"

definition CAN_Protocol_EncodeRtcStatus :: "u8 \<Rightarrow> u8 \<Rightarrow> u32 \<Rightarrow> bytes \<Rightarrow> bytes" where
  "CAN_Protocol_EncodeRtcStatus status_code hal_status err d =
     d[0 := status_code, 1 := hal_status, 2 := ucast (err AND 0xFF), 3 := ucast (drop_bit 8 err AND 0xFF),
       4 := ucast (drop_bit 16 err AND 0xFF), 5 := ucast (drop_bit 24 err AND 0xFF), 6 := 0, 7 := 0]"

definition CAN_Protocol_EncodeRtcTime :: "CAN_Protocol_RtcTime \<Rightarrow> bytes \<Rightarrow> bytes" where
  "CAN_Protocol_EncodeRtcTime t d =
    (let d = d[0 := rt_hour t, 1 := rt_minute t, 2 := rt_second t, 3 := rt_hundredth t, 4 := rt_day t,
           5 := rt_month t, 6 := rt_year t, 7 := rt_weekday t AND 0x07];
         d = or_flag (rt_calendar_valid t) 7 0x20 d;
         d = or_flag (rt_ready t) 7 0x40 d
     in or_flag (rt_osf t) 7 0x80 d)"

definition CAN_Protocol_EncodeRtcAlarmEvent :: "CAN_Protocol_RtcAlarmEvent \<Rightarrow> bytes \<Rightarrow> bytes" where
  "CAN_Protocol_EncodeRtcAlarmEvent e d =
    (let d = d[0 := ae_event_code e, 1 := 0];
         d = or_flag (ae_alarm_flag e) 1 0x01 d;
         d = or_flag (ae_interrupt_enabled e) 1 0x02 d;
         d = or_flag (ae_configuration_valid e) 1 0x04 d
     in d[2 := ae_hour e, 3 := ae_minute e, 4 := ae_second e, 5 := ae_day e, 6 := ae_month e, 7 := ae_year e])"

definition CAN_Protocol_EncodeSystemStatus :: "CAN_Protocol_SystemStatus \<Rightarrow> bytes \<Rightarrow> bytes" where
  "CAN_Protocol_EncodeSystemStatus s d =
    (let d = d[0 := 0];
         d = or_flag (sy_slot_1_running s) 0 0x01 d;
         d = or_flag (sy_slot_2_running s) 0 0x02 d;
         d = or_flag (sy_led_1_on s) 0 0x04 d;
         d = or_flag (sy_led_2_on s) 0 0x08 d
     in d[1 := sy_slot_1_running s, 2 := sy_slot_2_running s, 3 := sy_led_1_on s, 4 := sy_led_2_on s,
          5 := sy_request_flags s, 6 := sy_physical_flags s, 7 := sy_override_flags s])"

definition CAN_Protocol_EncodeCanRxHealth :: "CAN_Protocol_CanRxHealth \<Rightarrow> bytes \<Rightarrow> bytes" where
  "CAN_Protocol_EncodeCanRxHealth h d =
    (let d = d[0 := rh_flags h, 1 := rh_max_fifo_fill h];
         d = CAN_Protocol_WriteU16LE 2 (rh_message_lost_events h) d;
         d = CAN_Protocol_WriteU16LE 4 (rh_fifo_full_events h) d
     in CAN_Protocol_WriteU16LE 6 (rh_watermark_events h) d)"

definition CAN_Protocol_EncodeTimingService :: "CAN_Protocol_TimingService \<Rightarrow> bytes \<Rightarrow> bytes" where
  "CAN_Protocol_EncodeTimingService t d =
    (let d = d[0 := ts_service_id t, 1 := ts_flags t];
         d = CAN_Protocol_WriteU16LE 2 (ts_current_us t) d;
         d = CAN_Protocol_WriteU16LE 4 (ts_minimum_us t) d
     in CAN_Protocol_WriteU16LE 6 (ts_maximum_us t) d)"

definition CAN_Protocol_EncodeTimingAckLatency :: "CAN_Protocol_TimingAckLatency \<Rightarrow> bytes \<Rightarrow> bytes" where
  "CAN_Protocol_EncodeTimingAckLatency t d =
    (let d = CAN_Protocol_WriteU16LE 0 (tl_p50_us t) d;
         d = CAN_Protocol_WriteU16LE 2 (tl_p95_us t) d;
         d = CAN_Protocol_WriteU16LE 4 (tl_p99_us t) d
     in CAN_Protocol_WriteU16LE 6 (tl_maximum_us t) d)"

definition CAN_Protocol_EncodeLogHeartbeat :: "CAN_Protocol_LogHeartbeat \<Rightarrow> bytes \<Rightarrow> bytes" where
  "CAN_Protocol_EncodeLogHeartbeat h d =
    (let d = d[0 := 1, 1 := 0];
         d = or_flag (lh_ready h) 1 0x01 d;
         d = or_flag (lh_overwrite_detected h) 1 0x02 d;
         d = CAN_Protocol_WriteU32LE 2 (lh_latest_sequence h) d
     in d[6 := lh_record_count h, 7 := lh_alive_counter h])"

definition CAN_Protocol_EncodePwmStatus :: "CAN_Protocol_PwmStatus \<Rightarrow> bytes \<Rightarrow> bytes" where
  "CAN_Protocol_EncodePwmStatus s d =
    (let d = d[0 := pw_running s, 1 := pw_duty_percent s];
         d = CAN_Protocol_WriteU32LE 2 (pw_actual_frequency_hz s) d
     in d[6 := pw_control_flags s, 7 := 0])"

definition CAN_Protocol_EncodeInputCaptureStatus :: "CAN_Protocol_InputCaptureStatus \<Rightarrow> bytes \<Rightarrow> bytes" where
  "CAN_Protocol_EncodeInputCaptureStatus s d =
    (let d = d[0 := ic_signal_detected s, 1 := ic_duty_percent s];
         d = CAN_Protocol_WriteU32LE 2 (ic_frequency_hz s) d
     in CAN_Protocol_WriteU16LE 6 (ic_edge_count s) d)"

definition CAN_Protocol_EncodePwmSelfTestStatus :: "CAN_Protocol_PwmSelfTestStatus \<Rightarrow> bytes \<Rightarrow> bytes" where
  "CAN_Protocol_EncodePwmSelfTestStatus s d =
     CAN_Protocol_WriteU32LE 4 (st_expected_frequency_hz s)
       (d[0 := st_state s, 1 := st_current_point s, 2 := st_total_points s, 3 := st_passed_points s])"

definition CAN_Protocol_EncodePwmSelfTestResult :: "CAN_Protocol_PwmSelfTestResult \<Rightarrow> bytes \<Rightarrow> bytes" where
  "CAN_Protocol_EncodePwmSelfTestResult r d =
     CAN_Protocol_WriteU32LE 4 (sr_measured_frequency_hz r)
       (d[0 := sr_point r, 1 := sr_passed r, 2 := sr_expected_duty_percent r, 3 := sr_measured_duty_percent r])"

definition CAN_Protocol_EncodeTic12400Status :: "CAN_Protocol_Tic12400Status \<Rightarrow> bytes \<Rightarrow> bytes" where
  "CAN_Protocol_EncodeTic12400Status s d =
    (let d = d[0 := 0, 3 := 0];
         d = or_flag (tc_online s) 0 0x01 d;
         d = or_flag (tc_configuration_valid s) 0 0x02 d;
         d = or_flag (tc_crc_complete s) 0 0x04 d;
         d = or_flag (tc_monitoring s) 0 0x08 d;
         d = or_flag (tc_por_observed s) 0 0x20 d;
         d = or_flag (tc_service_fault s) 0 0x40 d;
         d = d[1 := tc_device_id s, 2 := tc_service_result s];
         d = or_flag (tc_spi_fail s) 3 0x01 d;
         d = or_flag (tc_parity_fail s) 3 0x02 d;
         d = or_flag (tc_switch_state_change s) 3 0x04 d;
         d = or_flag (tc_supply_threshold s) 3 0x08 d;
         d = or_flag (tc_temperature s) 3 0x10 d;
         d = or_flag (tc_other_interrupt s) 3 0x20 d;
         d = or_flag (tc_power_on_reset s) 3 0x40 d;
         d = CAN_Protocol_WriteU16LE 4 (tc_service_failures s) d
     in CAN_Protocol_WriteU16LE 6 (tc_last_nonzero_int_status s) d)"

definition CAN_Protocol_EncodeTic12400SwitchState :: "CAN_Protocol_Tic12400SwitchState \<Rightarrow> bytes \<Rightarrow> bytes" where
  "CAN_Protocol_EncodeTic12400SwitchState s d =
    (let closed = sw_closed_bitmap s AND 0x00FFFFFF; valid = sw_valid_mask s AND 0x00FFFFFF
     in d[0 := ucast closed, 1 := ucast (drop_bit 8 closed), 2 := ucast (drop_bit 16 closed),
          3 := ucast valid, 4 := ucast (drop_bit 8 valid), 5 := ucast (drop_bit 16 valid),
          6 := sw_generation s, 7 := if sw_data_valid s \<noteq> 0 then 0x01 else 0])"

definition CAN_Protocol_EncodeTic12400Profile :: "CAN_Protocol_Tic12400Profile \<Rightarrow> bytes \<Rightarrow> bytes" where
  "CAN_Protocol_EncodeTic12400Profile s d =
     d[0 := ucast (tp_battery_switch_mask s AND 0xFF), 1 := ucast (drop_bit 8 (tp_battery_switch_mask s) AND 0xFF),
       2 := ucast (drop_bit 16 (tp_battery_switch_mask s) AND 0xFF),
       3 := ucast (tp_battery_capable_mask s AND 0xFF), 4 := ucast (drop_bit 8 (tp_battery_capable_mask s) AND 0xFF),
       5 := ucast (drop_bit 16 (tp_battery_capable_mask s) AND 0xFF),
       6 := tp_generation s, 7 := if tp_configuration_valid s \<noteq> 0 then 0x01 else 0]"

section \<open>Bytes and flags\<close>

lemma length_encoders [simp]:
  "length (or_flag f k m d) = length d"
  "length (CAN_Protocol_WriteU16LE p v d) = length d"
  "length (CAN_Protocol_WriteU32LE p w d) = length d"
  by (simp_all add: or_flag_def CAN_Protocol_WriteU16LE_def CAN_Protocol_WriteU32LE_def)

definition flag_value :: "u8 \<Rightarrow> u8 \<Rightarrow> u8" where
  "flag_value f m = (if f \<noteq> 0 then m else 0)"

lemma or_flag_nth:
  "k < length d \<Longrightarrow> or_flag f k m d ! j = (if j = k then d ! j OR flag_value f m else d ! j)"
  by (simp add: or_flag_def flag_value_def)

lemma flag_value_and: "flag_value f m AND n = flag_value f (m AND n)"
  by (simp add: flag_value_def)

lemma flag_value_none [simp]: "flag_value f 0 = 0"
  by (simp add: flag_value_def)

lemma flag_value_set [simp]: "m \<noteq> 0 \<Longrightarrow> flag_value f m = 0 \<longleftrightarrow> f = 0"
  by (simp add: flag_value_def)

lemma flag_value_twice [simp]: "m \<noteq> 0 \<Longrightarrow> flag_value (flag_value f m) n = flag_value f n"
  by (simp add: flag_value_def)

lemmas flag_reads = or_flag_nth bit.conj_disj_distrib2 flag_value_and

lemma byte_mask: "ucast (v AND 0xFF) = (ucast (v :: 'a::len word) :: u8)"
proof (rule bit_word_eqI)
  fix n assume "n < LENGTH(8)"
  moreover have m: "(255 :: 'a word) = mask 8" by (simp add: mask_eq_exp_minus_1)
  have "bit (255 :: 'a word) n \<longleftrightarrow> n < LENGTH('a) \<and> n < 8" by (simp only: m bit_mask_iff possible_bit_word)
  ultimately show "bit (ucast (v AND 0xFF) :: u8) n = bit (ucast v :: u8) n"
    by (auto simp: bit_simps dest: bit_imp_le_length)
qed

lemma protocol_byte_order:
  "CAN_Protocol_WriteU32LE p v d = write_u32_le d p v"
  "CAN_Protocol_WriteU16LE p w d = write_u16_le d p w"
  "CAN_Protocol_ReadU32LE d p = read_u32_le d p"
  "CAN_Protocol_ReadU16LE d p = read_u16_le d p"
  by (simp_all add: CAN_Protocol_WriteU32LE_def CAN_Protocol_WriteU16LE_def CAN_Protocol_ReadU32LE_def
      CAN_Protocol_ReadU16LE_def write_u32_le_def write_u16_le_def read_u32_le_def read_u16_le_def byte_mask)

definition read_u24_le :: "bytes \<Rightarrow> nat \<Rightarrow> u32" where
  "read_u24_le d p = ucast (d ! p) OR push_bit 8 (ucast (d ! (p + 1))) OR push_bit 16 (ucast (d ! (p + 2)))"

lemma u24_bytes_rejoin:
  "ucast (ucast (v :: u32) :: u8) OR push_bit 8 (ucast (ucast (drop_bit 8 v) :: u8))
    OR push_bit 16 (ucast (ucast (drop_bit 16 v) :: u8)) = v AND 0xFFFFFF" (is "?l = ?r")
proof (rule bit_word_eqI)
  fix n assume "n < LENGTH(32)"
  then consider "n < 8" | "8 \<le> n" "n < 16" | "16 \<le> n" "n < 24" | "24 \<le> n" "n < 32"
    by fastforce
  moreover have m: "(0xFFFFFF :: u32) = mask 24" by (simp add: mask_eq_exp_minus_1)
  have "bit (0xFFFFFF :: u32) n \<longleftrightarrow> n < 32 \<and> n < 24" by (simp only: m bit_mask_iff possible_bit_word) simp
  ultimately show "bit ?l n = bit ?r n" by cases (auto simp: bit_simps)
qed

section \<open>What a receiver reads\<close>

text \<open>
  The telemetry messages with the identifier each is sent under, the encoding of a message, the
  decoding a receiver does by the identifier of the frame (as \<open>protocol.py\<close> does on the host), and
  the message that survives it: a flag as 0 or 1, the weekday and the switch masks at their width.
\<close>

datatype can_telemetry =
    T_RtcStatus u8 u8 u32
  | T_RtcTime CAN_Protocol_RtcTime
  | T_RtcAlarmEvent CAN_Protocol_RtcAlarmEvent
  | T_SystemStatus CAN_Protocol_SystemStatus
  | T_CanRxHealth CAN_Protocol_CanRxHealth
  | T_TimingService CAN_Protocol_TimingService
  | T_TimingAckLatency CAN_Protocol_TimingAckLatency
  | T_LogHeartbeat CAN_Protocol_LogHeartbeat
  | T_PwmStatus CAN_Protocol_PwmStatus
  | T_InputCaptureStatus CAN_Protocol_InputCaptureStatus
  | T_PwmSelfTestStatus CAN_Protocol_PwmSelfTestStatus
  | T_PwmSelfTestResult CAN_Protocol_PwmSelfTestResult
  | T_Tic12400Status CAN_Protocol_Tic12400Status
  | T_Tic12400SwitchState CAN_Protocol_Tic12400SwitchState
  | T_Tic12400Profile CAN_Protocol_Tic12400Profile

fun telemetry_id :: "can_telemetry \<Rightarrow> u32" where
  "telemetry_id (T_RtcStatus _ _ _) = 0x551"
| "telemetry_id (T_RtcTime _) = 0x556"
| "telemetry_id (T_SystemStatus _) = 0x557"
| "telemetry_id (T_RtcAlarmEvent _) = 0x558"
| "telemetry_id (T_PwmStatus _) = 0x55C"
| "telemetry_id (T_InputCaptureStatus _) = 0x55D"
| "telemetry_id (T_PwmSelfTestStatus _) = 0x55E"
| "telemetry_id (T_PwmSelfTestResult _) = 0x55F"
| "telemetry_id (T_LogHeartbeat _) = 0x55B"
| "telemetry_id (T_Tic12400Status _) = 0x552"
| "telemetry_id (T_Tic12400SwitchState _) = 0x554"
| "telemetry_id (T_Tic12400Profile _) = 0x555"
| "telemetry_id (T_CanRxHealth _) = 0x560"
| "telemetry_id (T_TimingService _) = 0x561"
| "telemetry_id (T_TimingAckLatency _) = 0x562"

fun encode_telemetry :: "can_telemetry \<Rightarrow> bytes \<Rightarrow> bytes" where
  "encode_telemetry (T_RtcStatus c h e) = CAN_Protocol_EncodeRtcStatus c h e"
| "encode_telemetry (T_RtcTime m) = CAN_Protocol_EncodeRtcTime m"
| "encode_telemetry (T_SystemStatus m) = CAN_Protocol_EncodeSystemStatus m"
| "encode_telemetry (T_RtcAlarmEvent m) = CAN_Protocol_EncodeRtcAlarmEvent m"
| "encode_telemetry (T_PwmStatus m) = CAN_Protocol_EncodePwmStatus m"
| "encode_telemetry (T_InputCaptureStatus m) = CAN_Protocol_EncodeInputCaptureStatus m"
| "encode_telemetry (T_PwmSelfTestStatus m) = CAN_Protocol_EncodePwmSelfTestStatus m"
| "encode_telemetry (T_PwmSelfTestResult m) = CAN_Protocol_EncodePwmSelfTestResult m"
| "encode_telemetry (T_LogHeartbeat m) = CAN_Protocol_EncodeLogHeartbeat m"
| "encode_telemetry (T_Tic12400Status m) = CAN_Protocol_EncodeTic12400Status m"
| "encode_telemetry (T_Tic12400SwitchState m) = CAN_Protocol_EncodeTic12400SwitchState m"
| "encode_telemetry (T_Tic12400Profile m) = CAN_Protocol_EncodeTic12400Profile m"
| "encode_telemetry (T_CanRxHealth m) = CAN_Protocol_EncodeCanRxHealth m"
| "encode_telemetry (T_TimingService m) = CAN_Protocol_EncodeTimingService m"
| "encode_telemetry (T_TimingAckLatency m) = CAN_Protocol_EncodeTimingAckLatency m"

definition read_flag :: "bytes \<Rightarrow> nat \<Rightarrow> u8 \<Rightarrow> u8" where
  "read_flag d k m = (if d ! k AND m \<noteq> 0 then 1 else 0)"

definition decode_telemetry :: "u32 \<Rightarrow> bytes \<Rightarrow> can_telemetry option" where
  "decode_telemetry i d =
   (if i = 0x551 then Some (T_RtcStatus (d ! 0) (d ! 1) (read_u32_le d 2))
    else if i = 0x556 then Some (T_RtcTime \<lparr>rt_hour = d ! 0, rt_minute = d ! 1, rt_second = d ! 2,
      rt_hundredth = d ! 3, rt_day = d ! 4, rt_month = d ! 5, rt_year = d ! 6, rt_weekday = d ! 7 AND 7,
      rt_calendar_valid = read_flag d 7 0x20, rt_ready = read_flag d 7 0x40, rt_osf = read_flag d 7 0x80\<rparr>)
    else if i = 0x557 then Some (T_SystemStatus \<lparr>sy_slot_1_running = d ! 1, sy_slot_2_running = d ! 2,
      sy_led_1_on = d ! 3, sy_led_2_on = d ! 4, sy_request_flags = d ! 5, sy_physical_flags = d ! 6,
      sy_override_flags = d ! 7\<rparr>)
    else if i = 0x558 then Some (T_RtcAlarmEvent \<lparr>ae_event_code = d ! 0, ae_alarm_flag = read_flag d 1 1,
      ae_interrupt_enabled = read_flag d 1 2, ae_configuration_valid = read_flag d 1 4,
      ae_hour = d ! 2, ae_minute = d ! 3, ae_second = d ! 4, ae_day = d ! 5, ae_month = d ! 6, ae_year = d ! 7\<rparr>)
    else if i = 0x55C then Some (T_PwmStatus \<lparr>pw_running = d ! 0, pw_duty_percent = d ! 1,
      pw_actual_frequency_hz = read_u32_le d 2, pw_control_flags = d ! 6\<rparr>)
    else if i = 0x55D then Some (T_InputCaptureStatus \<lparr>ic_signal_detected = d ! 0, ic_duty_percent = d ! 1,
      ic_frequency_hz = read_u32_le d 2, ic_edge_count = read_u16_le d 6\<rparr>)
    else if i = 0x55E then Some (T_PwmSelfTestStatus \<lparr>st_state = d ! 0, st_current_point = d ! 1,
      st_total_points = d ! 2, st_passed_points = d ! 3, st_expected_frequency_hz = read_u32_le d 4\<rparr>)
    else if i = 0x55F then Some (T_PwmSelfTestResult \<lparr>sr_point = d ! 0, sr_passed = d ! 1,
      sr_expected_duty_percent = d ! 2, sr_measured_duty_percent = d ! 3,
      sr_measured_frequency_hz = read_u32_le d 4\<rparr>)
    else if i = 0x55B then Some (T_LogHeartbeat \<lparr>lh_latest_sequence = read_u32_le d 2, lh_record_count = d ! 6,
      lh_ready = read_flag d 1 1, lh_overwrite_detected = read_flag d 1 2, lh_alive_counter = d ! 7\<rparr>)
    else if i = 0x552 then Some (T_Tic12400Status \<lparr>tc_online = read_flag d 0 1,
      tc_configuration_valid = read_flag d 0 2, tc_crc_complete = read_flag d 0 4,
      tc_monitoring = read_flag d 0 8, tc_por_observed = read_flag d 0 0x20, tc_service_fault = read_flag d 0 0x40,
      tc_device_id = d ! 1, tc_service_result = d ! 2, tc_spi_fail = read_flag d 3 1,
      tc_parity_fail = read_flag d 3 2, tc_switch_state_change = read_flag d 3 4,
      tc_supply_threshold = read_flag d 3 8, tc_temperature = read_flag d 3 0x10,
      tc_other_interrupt = read_flag d 3 0x20, tc_power_on_reset = read_flag d 3 0x40,
      tc_service_failures = read_u16_le d 4, tc_last_nonzero_int_status = read_u16_le d 6\<rparr>)
    else if i = 0x554 then Some (T_Tic12400SwitchState \<lparr>sw_closed_bitmap = read_u24_le d 0,
      sw_valid_mask = read_u24_le d 3, sw_generation = d ! 6, sw_data_valid = read_flag d 7 1\<rparr>)
    else if i = 0x555 then Some (T_Tic12400Profile \<lparr>tp_battery_switch_mask = read_u24_le d 0,
      tp_battery_capable_mask = read_u24_le d 3, tp_generation = d ! 6, tp_configuration_valid = read_flag d 7 1\<rparr>)
    else if i = 0x560 then Some (T_CanRxHealth \<lparr>rh_flags = d ! 0, rh_max_fifo_fill = d ! 1,
      rh_message_lost_events = read_u16_le d 2, rh_fifo_full_events = read_u16_le d 4,
      rh_watermark_events = read_u16_le d 6\<rparr>)
    else if i = 0x561 then Some (T_TimingService \<lparr>ts_service_id = d ! 0, ts_flags = d ! 1,
      ts_current_us = read_u16_le d 2, ts_minimum_us = read_u16_le d 4, ts_maximum_us = read_u16_le d 6\<rparr>)
    else if i = 0x562 then Some (T_TimingAckLatency \<lparr>tl_p50_us = read_u16_le d 0, tl_p95_us = read_u16_le d 2,
      tl_p99_us = read_u16_le d 4, tl_maximum_us = read_u16_le d 6\<rparr>)
    else None)"

fun received_telemetry :: "can_telemetry \<Rightarrow> can_telemetry" where
  "received_telemetry (T_RtcTime m) = T_RtcTime (m\<lparr>rt_weekday := rt_weekday m AND 7,
     rt_calendar_valid := flag_value (rt_calendar_valid m) 1, rt_ready := flag_value (rt_ready m) 1,
     rt_osf := flag_value (rt_osf m) 1\<rparr>)"
| "received_telemetry (T_RtcAlarmEvent m) = T_RtcAlarmEvent (m\<lparr>ae_alarm_flag := flag_value (ae_alarm_flag m) 1,
     ae_interrupt_enabled := flag_value (ae_interrupt_enabled m) 1,
     ae_configuration_valid := flag_value (ae_configuration_valid m) 1\<rparr>)"
| "received_telemetry (T_LogHeartbeat m) = T_LogHeartbeat (m\<lparr>lh_ready := flag_value (lh_ready m) 1,
     lh_overwrite_detected := flag_value (lh_overwrite_detected m) 1\<rparr>)"
| "received_telemetry (T_Tic12400Status m) = T_Tic12400Status (m\<lparr>tc_online := flag_value (tc_online m) 1,
     tc_configuration_valid := flag_value (tc_configuration_valid m) 1,
     tc_crc_complete := flag_value (tc_crc_complete m) 1, tc_monitoring := flag_value (tc_monitoring m) 1,
     tc_por_observed := flag_value (tc_por_observed m) 1, tc_service_fault := flag_value (tc_service_fault m) 1,
     tc_spi_fail := flag_value (tc_spi_fail m) 1, tc_parity_fail := flag_value (tc_parity_fail m) 1,
     tc_switch_state_change := flag_value (tc_switch_state_change m) 1,
     tc_supply_threshold := flag_value (tc_supply_threshold m) 1,
     tc_temperature := flag_value (tc_temperature m) 1,
     tc_other_interrupt := flag_value (tc_other_interrupt m) 1,
     tc_power_on_reset := flag_value (tc_power_on_reset m) 1\<rparr>)"
| "received_telemetry (T_Tic12400SwitchState m) = T_Tic12400SwitchState
     (m\<lparr>sw_closed_bitmap := sw_closed_bitmap m AND 0xFFFFFF, sw_valid_mask := sw_valid_mask m AND 0xFFFFFF,
     sw_data_valid := flag_value (sw_data_valid m) 1\<rparr>)"
| "received_telemetry (T_Tic12400Profile m) = T_Tic12400Profile
     (m\<lparr>tp_battery_switch_mask := tp_battery_switch_mask m AND 0xFFFFFF,
     tp_battery_capable_mask := tp_battery_capable_mask m AND 0xFFFFFF,
     tp_configuration_valid := flag_value (tp_configuration_valid m) 1\<rparr>)"
| "received_telemetry m = m"

lemma write_update:
  "length (write_u16_le d p v) = length d" "length (write_u32_le d p w) = length d"
  by simp_all

lemma decode_flags:
  "read_flag d k m = flag_value (d ! k AND m) 1"
  by (simp add: read_flag_def flag_value_def)

lemma telemetry_decoded_simple:
  assumes d: "length d = 8"
  shows
    "decode_telemetry 0x551 (CAN_Protocol_EncodeRtcStatus c h e d) = Some (T_RtcStatus c h e)"
    "decode_telemetry 0x557 (CAN_Protocol_EncodeSystemStatus sy d) = Some (T_SystemStatus sy)"
    "decode_telemetry 0x55C (CAN_Protocol_EncodePwmStatus pw d) = Some (T_PwmStatus pw)"
    "decode_telemetry 0x55D (CAN_Protocol_EncodeInputCaptureStatus ic d) = Some (T_InputCaptureStatus ic)"
    "decode_telemetry 0x55E (CAN_Protocol_EncodePwmSelfTestStatus st d) = Some (T_PwmSelfTestStatus st)"
    "decode_telemetry 0x55F (CAN_Protocol_EncodePwmSelfTestResult sr d) = Some (T_PwmSelfTestResult sr)"
    "decode_telemetry 0x560 (CAN_Protocol_EncodeCanRxHealth rh d) = Some (T_CanRxHealth rh)"
    "decode_telemetry 0x561 (CAN_Protocol_EncodeTimingService tse d) = Some (T_TimingService tse)"
    "decode_telemetry 0x562 (CAN_Protocol_EncodeTimingAckLatency tla d) = Some (T_TimingAckLatency tla)"
proof -
  note [simp] = decode_telemetry_def Let_def protocol_byte_order byte_order nth_list_update byte_mask d
  show "decode_telemetry 0x551 (CAN_Protocol_EncodeRtcStatus c h e d) = Some (T_RtcStatus c h e)"
    by (simp add: CAN_Protocol_EncodeRtcStatus_def read_u32_le_def u32_bytes_rejoin)
  show "decode_telemetry 0x557 (CAN_Protocol_EncodeSystemStatus sy d) = Some (T_SystemStatus sy)"
    by (simp add: CAN_Protocol_EncodeSystemStatus_def)
  show "decode_telemetry 0x55C (CAN_Protocol_EncodePwmStatus pw d) = Some (T_PwmStatus pw)"
    by (simp add: CAN_Protocol_EncodePwmStatus_def)
  show "decode_telemetry 0x55D (CAN_Protocol_EncodeInputCaptureStatus ic d) = Some (T_InputCaptureStatus ic)"
    by (simp add: CAN_Protocol_EncodeInputCaptureStatus_def)
  show "decode_telemetry 0x55E (CAN_Protocol_EncodePwmSelfTestStatus st d) = Some (T_PwmSelfTestStatus st)"
    by (simp add: CAN_Protocol_EncodePwmSelfTestStatus_def)
  show "decode_telemetry 0x55F (CAN_Protocol_EncodePwmSelfTestResult sr d) = Some (T_PwmSelfTestResult sr)"
    by (simp add: CAN_Protocol_EncodePwmSelfTestResult_def)
  show "decode_telemetry 0x560 (CAN_Protocol_EncodeCanRxHealth rh d) = Some (T_CanRxHealth rh)"
    by (simp add: CAN_Protocol_EncodeCanRxHealth_def)
  show "decode_telemetry 0x561 (CAN_Protocol_EncodeTimingService tse d) = Some (T_TimingService tse)"
    by (simp add: CAN_Protocol_EncodeTimingService_def)
  show "decode_telemetry 0x562 (CAN_Protocol_EncodeTimingAckLatency tla d) = Some (T_TimingAckLatency tla)"
    by (simp add: CAN_Protocol_EncodeTimingAckLatency_def)
qed

lemma telemetry_decoded_flags:
  assumes d: "length d = 8"
  shows
    "decode_telemetry 0x556 (CAN_Protocol_EncodeRtcTime rt d) = Some (received_telemetry (T_RtcTime rt))"
    "decode_telemetry 0x558 (CAN_Protocol_EncodeRtcAlarmEvent ae d) = Some (received_telemetry (T_RtcAlarmEvent ae))"
    "decode_telemetry 0x55B (CAN_Protocol_EncodeLogHeartbeat lh d) = Some (received_telemetry (T_LogHeartbeat lh))"
proof -
  note [simp] = decode_telemetry_def Let_def protocol_byte_order byte_order nth_list_update flag_reads decode_flags d
  have low: "flag_value f 0x20 AND 7 = 0" "flag_value g 0x40 AND 7 = 0" "flag_value h 0x80 AND 7 = 0"
    "(w AND 7) AND 0x20 = 0" "(w AND 7) AND 0x40 = 0" "(w AND 7) AND 0x80 = 0" for f g h w :: u8
    by (simp_all add: flag_value_and and.assoc)
  show "decode_telemetry 0x556 (CAN_Protocol_EncodeRtcTime rt d) = Some (received_telemetry (T_RtcTime rt))"
    by (simp add: CAN_Protocol_EncodeRtcTime_def low and.assoc)
  show "decode_telemetry 0x558 (CAN_Protocol_EncodeRtcAlarmEvent ae d) = Some (received_telemetry (T_RtcAlarmEvent ae))"
    by (simp add: CAN_Protocol_EncodeRtcAlarmEvent_def)
  show "decode_telemetry 0x55B (CAN_Protocol_EncodeLogHeartbeat lh d) = Some (received_telemetry (T_LogHeartbeat lh))"
    by (simp add: CAN_Protocol_EncodeLogHeartbeat_def)
qed

lemma telemetry_decoded_inputs:
  assumes d: "length d = 8"
  shows
    "decode_telemetry 0x552 (CAN_Protocol_EncodeTic12400Status tc d) = Some (received_telemetry (T_Tic12400Status tc))"
    "decode_telemetry 0x554 (CAN_Protocol_EncodeTic12400SwitchState sw d) = Some (received_telemetry (T_Tic12400SwitchState sw))"
    "decode_telemetry 0x555 (CAN_Protocol_EncodeTic12400Profile tp d) = Some (received_telemetry (T_Tic12400Profile tp))"
proof -
  note [simp] = decode_telemetry_def Let_def protocol_byte_order byte_order nth_list_update flag_reads decode_flags d
    read_u24_le_def u24_bytes_rejoin byte_mask
  show "decode_telemetry 0x552 (CAN_Protocol_EncodeTic12400Status tc d) = Some (received_telemetry (T_Tic12400Status tc))"
    by (cases tc) (simp add: CAN_Protocol_EncodeTic12400Status_def)
  show "decode_telemetry 0x554 (CAN_Protocol_EncodeTic12400SwitchState sw d) = Some (received_telemetry (T_Tic12400SwitchState sw))"
  proof -
    define c v where "c = sw_closed_bitmap sw AND 0xFFFFFF" and "v = sw_valid_mask sw AND 0xFFFFFF"
    have enc: "CAN_Protocol_EncodeTic12400SwitchState sw d = d[0 := ucast c, 1 := ucast (drop_bit 8 c),
        2 := ucast (drop_bit 16 c), 3 := ucast v, 4 := ucast (drop_bit 8 v), 5 := ucast (drop_bit 16 v),
        6 := sw_generation sw, 7 := flag_value (sw_data_valid sw) 1]"
      by (simp only: CAN_Protocol_EncodeTic12400SwitchState_def Let_def c_def v_def flag_value_def)
    have "c AND 0xFFFFFF = c" "v AND 0xFFFFFF = v" by (simp_all add: c_def v_def and.assoc)
    moreover have "sw\<lparr>sw_closed_bitmap := sw_closed_bitmap sw AND 0xFFFFFF,
        sw_valid_mask := sw_valid_mask sw AND 0xFFFFFF, sw_data_valid := flag_value (sw_data_valid sw) 1\<rparr>
      = \<lparr>sw_closed_bitmap = c, sw_valid_mask = v, sw_generation = sw_generation sw,
        sw_data_valid = flag_value (sw_data_valid sw) 1\<rparr>"
      by (cases sw) (simp add: c_def v_def)
    ultimately show ?thesis by (simp add: enc)
  qed
  show "decode_telemetry 0x555 (CAN_Protocol_EncodeTic12400Profile tp d) = Some (received_telemetry (T_Tic12400Profile tp))"
    by (cases tp) (simp add: CAN_Protocol_EncodeTic12400Profile_def flag_value_def)
qed

text \<open>
  C31. Every telemetry message reads back: whatever is in the eight-byte buffer it is encoded into, a
  receiver that picks the format by the frame's identifier recovers the message, its flags as 0 or 1
  and its weekday and switch masks at the width the frame has for them.
\<close>

theorem telemetry_round_trip:
  assumes "length d = 8"
  shows "decode_telemetry (telemetry_id m) (encode_telemetry m d) = Some (received_telemetry m)
    \<and> length (encode_telemetry m d) = 8"
proof -
  have len: "length (encode_telemetry m d) = 8"
    using assms by (cases m) (simp_all add: CAN_Protocol_EncodeRtcStatus_def CAN_Protocol_EncodeSystemStatus_def
      CAN_Protocol_EncodePwmStatus_def CAN_Protocol_EncodeInputCaptureStatus_def
      CAN_Protocol_EncodePwmSelfTestStatus_def CAN_Protocol_EncodePwmSelfTestResult_def
      CAN_Protocol_EncodeCanRxHealth_def CAN_Protocol_EncodeTimingService_def
      CAN_Protocol_EncodeTimingAckLatency_def CAN_Protocol_EncodeRtcTime_def CAN_Protocol_EncodeRtcAlarmEvent_def
      CAN_Protocol_EncodeLogHeartbeat_def CAN_Protocol_EncodeTic12400Status_def
      CAN_Protocol_EncodeTic12400SwitchState_def CAN_Protocol_EncodeTic12400Profile_def Let_def)
  note decoded = telemetry_decoded_simple telemetry_decoded_flags telemetry_decoded_inputs
  show ?thesis using len decoded [OF assms] by (cases m) (simp_all del: received_telemetry.simps(1-6))
qed

theorem telemetry_round_trip_witness:
  "decode_telemetry 0x562 (CAN_Protocol_EncodeTimingAckLatency
      \<lparr>tl_p50_us = 40, tl_p95_us = 300, tl_p99_us = 65535, tl_maximum_us = 1\<rparr> [1, 2, 3, 4, 5, 6, 7, 8])
    = Some (T_TimingAckLatency \<lparr>tl_p50_us = 40, tl_p95_us = 300, tl_p99_us = 65535, tl_maximum_us = 1\<rparr>)"
  using telemetry_round_trip [of "[1, 2, 3, 4, 5, 6, 7, 8]" "T_TimingAckLatency
    \<lparr>tl_p50_us = 40, tl_p95_us = 300, tl_p99_us = 65535, tl_maximum_us = 1\<rparr>"] by simp

section \<open>The command token\<close>

text \<open>
  One round of the token is injective: the polynomial is odd, so the lowest bit of the result tells
  which branch was taken, and the rest is the input shifted.
\<close>

lemma can_token_bit_inj: "can_token_bit a = can_token_bit b \<Longrightarrow> a = b"
proof -
  assume eq: "can_token_bit a = can_token_bit b"
  have top: "(x AND 0x80 \<noteq> 0) = bit x 7" for x :: u8
  proof -
    have "(0x80 :: u8) = 2 ^ 7" by simp
    then show ?thesis by (simp only: and_exp_eq_0_iff_not_bit not_not)
  qed
  have d: "bit (0x1D :: u8) n \<longleftrightarrow> n = 0 \<or> n = 2 \<or> n = 3 \<or> n = 4" if "n < 8" for n
  proof -
    have "n = 0 \<or> n = 1 \<or> n = 2 \<or> n = 3 \<or> n = 4 \<or> n = 5 \<or> n = 6 \<or> n = 7" using that by linarith
    then show ?thesis by (elim disjE) (simp_all add: bit_word_iff_drop_bit_and)
  qed
  have step: "bit (can_token_bit x) n = ((0 < n \<and> bit x (n - 1)) \<noteq> (bit x 7 \<and> bit (0x1D :: u8) n))"
    if "n < 8" for x n
  proof -
    have "bit (push_bit 1 x) n \<longleftrightarrow> 0 < n \<and> bit x (n - 1)"
      unfolding bit_push_bit_iff using that by auto
    then show ?thesis unfolding can_token_bit_def top
      by (cases "bit x 7") (simp_all only: bit_xor_iff if_True if_False simp_thms)
  qed
  have b: "bit (can_token_bit a) n = bit (can_token_bit b) n" for n by (simp add: eq)
  have seven: "bit a 7 = bit b 7" using b [of 0] step [of 0] d [of 0] by simp
  show "a = b"
  proof (rule bit_word_eqI)
    fix n assume "n < LENGTH(8)"
    then have "n = 7 \<or> Suc n < 8" by auto
    then show "bit a n = bit b n"
      using seven b [of "Suc n"] step [of "Suc n"] by auto
  qed
qed

lemma can_token_byte_inj:
  "can_token_byte x a = can_token_byte x b \<Longrightarrow> a = b"
  "can_token_byte x a = can_token_byte y a \<Longrightarrow> x = y"
proof -
  have inj: "(can_token_bit ^^ n) u = (can_token_bit ^^ n) v \<Longrightarrow> u = v" for n u v
    by (induction n) (auto dest: can_token_bit_inj)
  show "can_token_byte x a = can_token_byte x b \<Longrightarrow> a = b"
    unfolding can_token_byte_def by (drule inj) (simp add: xor_cancel)
  show "can_token_byte x a = can_token_byte y a \<Longrightarrow> x = y"
    unfolding can_token_byte_def by (drule inj) (simp add: xor_cancel)
qed

lemma can_token_fold_inj: "fold can_token_byte p a = fold can_token_byte p b \<Longrightarrow> a = b"
  by (induction p arbitrary: a b) (auto dest: can_token_byte_inj(1))

text \<open>
  C32. The token of a command tells apart two payloads that differ in exactly one byte: replacing one
  of the eight bytes by another value always changes the token, and conversely the token that comes
  back in an acknowledgement fixes each byte of the command once the other seven are known.
\<close>

theorem command_token_detects_a_byte:
  assumes "length p = 8" and "k < 8"
  shows "CAN_Protocol_CalculateCommandToken (Some (p[k := x])) = CAN_Protocol_CalculateCommandToken (Some p)
    \<longleftrightarrow> x = p ! k"
proof
  assume eq: "CAN_Protocol_CalculateCommandToken (Some (p[k := x])) = CAN_Protocol_CalculateCommandToken (Some p)"
  define c where "c = fold can_token_byte (take k p) 0xFF"
  have split: "fold can_token_byte q 0xFF = fold can_token_byte (drop (Suc k) q)
      (can_token_byte (q ! k) (fold can_token_byte (take k q) 0xFF))" if "length q = 8" for q
    using id_take_nth_drop [of k q] that assms(2) by (metis fold_Cons fold_append comp_apply)
  have "fold can_token_byte (drop (Suc k) p) (can_token_byte x c)
      = fold can_token_byte (drop (Suc k) p) (can_token_byte (p ! k) c)"
    using eq split [of "p[k := x]"] split [of p] assms
    by (simp add: CAN_Protocol_CalculateCommandToken_def c_def xor_cancel)
  then show "x = p ! k" by (blast dest: can_token_fold_inj can_token_byte_inj(2))
next
  assume "x = p ! k"
  then show "CAN_Protocol_CalculateCommandToken (Some (p[k := x])) = CAN_Protocol_CalculateCommandToken (Some p)"
    by simp
qed

theorem command_token_detects_a_byte_witness:
  "CAN_Protocol_CalculateCommandToken (Some [0x10, 1, 1, 0, 0, 0, 0, 0])
     \<noteq> CAN_Protocol_CalculateCommandToken (Some [0x10, 1, 0, 0, 0, 0, 0, 0])"
  using command_token_detects_a_byte [of "[0x10, 1, 0, 0, 0, 0, 0, 0]" 2 1] by simp

end
