(* ===== verification/Pca2131.thy ===== *)
theory Pca2131
  imports Prelude
begin

text \<open>
  The driver of the PCA2131 real-time clock, \<open>src/Core/Src/pca2131.c\<close>: BCD, the calendar check, and
  the register transactions over I2C. The HAL is the record \<open>i2c_hal\<close> of its calls on a bus state of
  any type; a pointer that may be NULL is an option.
\<close>

section \<open>Data\<close>

datatype HAL_Status = HAL_OK | HAL_ERROR | HAL_BUSY | HAL_TIMEOUT

record 'b i2c_hal =
  HAL_I2C_IsDeviceReady :: "u16 \<Rightarrow> u32 \<Rightarrow> u32 \<Rightarrow> 'b \<Rightarrow> HAL_Status \<times> 'b"
  HAL_I2C_Mem_Read :: "u16 \<Rightarrow> nat \<Rightarrow> nat \<Rightarrow> u32 \<Rightarrow> 'b \<Rightarrow> HAL_Status \<times> bytes \<times> 'b"
  HAL_I2C_Mem_Write :: "u16 \<Rightarrow> nat \<Rightarrow> bytes \<Rightarrow> u32 \<Rightarrow> 'b \<Rightarrow> HAL_Status \<times> 'b"
  HAL_I2C_GetError :: "'b \<Rightarrow> u32"

datatype PCA2131_Result =
    PCA2131_RESULT_OK | PCA2131_RESULT_INVALID_ARGUMENT | PCA2131_RESULT_INVALID_DATETIME
  | PCA2131_RESULT_DEVICE_NOT_READY | PCA2131_RESULT_READ_FAILED | PCA2131_RESULT_CONTROL_READ_FAILED
  | PCA2131_RESULT_STOP_WRITE_FAILED | PCA2131_RESULT_CPR_WRITE_FAILED | PCA2131_RESULT_CALENDAR_WRITE_FAILED
  | PCA2131_RESULT_START_WRITE_FAILED | PCA2131_RESULT_ALARM_READ_FAILED | PCA2131_RESULT_INVALID_ALARM_CONFIG
  | PCA2131_RESULT_ALARM_CONTROL_READ_FAILED | PCA2131_RESULT_ALARM_WRITE_FAILED
  | PCA2131_RESULT_ALARM_STATUS_READ_FAILED | PCA2131_RESULT_ALARM_INTERRUPT_WRITE_FAILED
  | PCA2131_RESULT_ALARM_FLAG_CLEAR_FAILED | PCA2131_RESULT_WATCHDOG_STATUS_READ_FAILED

record PCA2131_DateTime =
  dt_hundredth :: u8
  dt_second :: u8
  dt_minute :: u8
  dt_hour :: u8
  dt_day :: u8
  dt_weekday :: u8
  dt_month :: u8
  dt_year :: u8
  dt_osf :: u8
  dt_calendar_valid :: u8

record PCA2131_OperationStatus =
  op_result :: PCA2131_Result
  op_hal_status :: HAL_Status
  op_hal_error :: u32
  op_recovery_attempted :: bool
  op_recovery_status :: HAL_Status
  op_recovery_error :: u32

record 'b PCA2131_Device =
  dev_i2c :: "'b i2c_hal option"

record PCA2131_AlarmField =
  af_enabled :: u8
  af_value :: u8

record PCA2131_Alarm =
  al_second :: PCA2131_AlarmField
  al_minute :: PCA2131_AlarmField
  al_hour :: PCA2131_AlarmField
  al_day :: PCA2131_AlarmField
  al_weekday :: PCA2131_AlarmField
  al_hour_mode_12 :: bool
  al_hour_pm :: bool
  al_alarm_flag :: bool
  al_interrupt_enabled :: bool
  al_configuration_valid :: bool

record PCA2131_AlarmConfig =
  cf_second :: PCA2131_AlarmField
  cf_minute :: PCA2131_AlarmField
  cf_hour :: PCA2131_AlarmField
  cf_day :: PCA2131_AlarmField
  cf_weekday :: PCA2131_AlarmField

record PCA2131_AlarmStatus =
  as_alarm_flag :: bool
  as_interrupt_enabled :: bool

datatype PCA2131_WatchdogClock = PCA2131_WATCHDOG_CLOCK_64_HZ | PCA2131_WATCHDOG_CLOCK_4_HZ
  | PCA2131_WATCHDOG_CLOCK_1_DIV_4_HZ | PCA2131_WATCHDOG_CLOCK_1_DIV_64_HZ

record PCA2131_WatchdogStatus =
  wd_enabled :: bool
  wd_timeout_flag :: bool
  wd_interrupt_a_masked :: bool
  wd_interrupt_b_masked :: bool
  wd_clock_source :: PCA2131_WatchdogClock
  wd_raw_control_2 :: u8
  wd_raw_int_a_mask1 :: u8
  wd_raw_int_b_mask1 :: u8
  wd_raw_watchdog_control :: u8

definition PCA2131_I2C_TIMEOUT_MS :: u32 where "PCA2131_I2C_TIMEOUT_MS = 10"
definition PCA2131_I2C_ADDR :: u16 where "PCA2131_I2C_ADDR = 0xA6"
definition PCA2131_REG_CONTROL_1 :: nat where "PCA2131_REG_CONTROL_1 = 0x00"
definition PCA2131_REG_CONTROL_2 :: nat where "PCA2131_REG_CONTROL_2 = 0x01"
definition PCA2131_REG_SECOND_ALARM :: nat where "PCA2131_REG_SECOND_ALARM = 0x0E"
definition PCA2131_REG_SR_RESET :: nat where "PCA2131_REG_SR_RESET = 0x05"
definition PCA2131_REG_100TH_SECONDS :: nat where "PCA2131_REG_100TH_SECONDS = 0x06"
definition PCA2131_REG_INT_A_MASK1 :: nat where "PCA2131_REG_INT_A_MASK1 = 0x31"
definition PCA2131_CONTROL1_STOP_BIT :: u8 where "PCA2131_CONTROL1_STOP_BIT = 0x20"
definition PCA2131_CONTROL1_100TH_S_DIS :: u8 where "PCA2131_CONTROL1_100TH_S_DIS = 0x10"
definition PCA2131_CONTROL1_12_24_BIT :: u8 where "PCA2131_CONTROL1_12_24_BIT = 0x04"
definition PCA2131_CONTROL2_AF_BIT :: u8 where "PCA2131_CONTROL2_AF_BIT = 0x10"
definition PCA2131_CONTROL2_AIE_BIT :: u8 where "PCA2131_CONTROL2_AIE_BIT = 0x02"
definition PCA2131_CONTROL2_MSF_BIT :: u8 where "PCA2131_CONTROL2_MSF_BIT = 0x80"
definition PCA2131_CONTROL2_WDTF_BIT :: u8 where "PCA2131_CONTROL2_WDTF_BIT = 0x40"
definition PCA2131_WATCHDOG_ENABLE_BIT :: u8 where "PCA2131_WATCHDOG_ENABLE_BIT = 0x80"
definition PCA2131_WATCHDOG_MASK_BIT :: u8 where "PCA2131_WATCHDOG_MASK_BIT = 0x08"
definition PCA2131_WATCHDOG_CLOCK_MASK :: u8 where "PCA2131_WATCHDOG_CLOCK_MASK = 0x03"
definition PCA2131_ALARM_DISABLE_BIT :: u8 where "PCA2131_ALARM_DISABLE_BIT = 0x80"
definition PCA2131_ALARM_PM_BIT :: u8 where "PCA2131_ALARM_PM_BIT = 0x20"
definition PCA2131_SR_RESET_CPR :: u8 where "PCA2131_SR_RESET_CPR = 0xA4"

lemmas pca_registers = PCA2131_REG_CONTROL_1_def PCA2131_REG_CONTROL_2_def PCA2131_REG_SECOND_ALARM_def
  PCA2131_REG_SR_RESET_def PCA2131_REG_100TH_SECONDS_def PCA2131_REG_INT_A_MASK1_def

lemmas pca_bits = PCA2131_CONTROL1_STOP_BIT_def PCA2131_CONTROL1_100TH_S_DIS_def PCA2131_CONTROL1_12_24_BIT_def
  PCA2131_CONTROL2_AF_BIT_def PCA2131_CONTROL2_AIE_BIT_def PCA2131_CONTROL2_MSF_BIT_def
  PCA2131_CONTROL2_WDTF_BIT_def PCA2131_WATCHDOG_ENABLE_BIT_def PCA2131_WATCHDOG_MASK_BIT_def
  PCA2131_WATCHDOG_CLOCK_MASK_def PCA2131_ALARM_DISABLE_BIT_def PCA2131_ALARM_PM_BIT_def

section \<open>BCD and alarm fields\<close>

definition PCA2131_BcdToDec :: "u8 \<Rightarrow> u8" where
  "PCA2131_BcdToDec bcd = drop_bit 4 bcd * 10 + (bcd AND 0x0F)"

definition PCA2131_DecToBcd :: "u8 \<Rightarrow> u8" where
  "PCA2131_DecToBcd decimal = push_bit 4 (decimal div 10) OR (decimal mod 10)"

definition PCA2131_IsValidBcd :: "u8 \<Rightarrow> bool" where
  "PCA2131_IsValidBcd bcd \<longleftrightarrow> (drop_bit 4 bcd AND 0x0F) \<le> 9 \<and> (bcd AND 0x0F) \<le> 9"

text \<open>The decoders return the field they fill and whether it is acceptable.\<close>

definition PCA2131_DecodeAlarmBcdField :: "u8 \<Rightarrow> u8 \<Rightarrow> u8 \<Rightarrow> u8 \<Rightarrow> PCA2131_AlarmField \<times> bool" where
  "PCA2131_DecodeAlarmBcdField raw_value value_mask minimum maximum =
    (let bcd_value = raw_value AND value_mask;
         enabled = (if raw_value AND PCA2131_ALARM_DISABLE_BIT = 0 then 1 else 0)
     in if \<not> PCA2131_IsValidBcd bcd_value then (\<lparr>af_enabled = enabled, af_value = 0\<rparr>, enabled = 0)
        else let value = PCA2131_BcdToDec bcd_value
        in (\<lparr>af_enabled = enabled, af_value = value\<rparr>,
            if enabled = 0 then True else value \<ge> minimum \<and> value \<le> maximum))"

definition PCA2131_DecodeAlarmWeekday :: "u8 \<Rightarrow> PCA2131_AlarmField \<times> bool" where
  "PCA2131_DecodeAlarmWeekday raw_value =
    (let enabled = (if raw_value AND PCA2131_ALARM_DISABLE_BIT = 0 then 1 else 0); value = raw_value AND 0x07
     in (\<lparr>af_enabled = enabled, af_value = value\<rparr>, if enabled = 0 then True else value \<le> 6))"

definition PCA2131_IsValidAlarmField :: "PCA2131_AlarmField \<Rightarrow> u8 \<Rightarrow> u8 \<Rightarrow> bool" where
  "PCA2131_IsValidAlarmField field minimum maximum \<longleftrightarrow>
    (if af_enabled field > 1 then False else if af_enabled field = 0 then True
     else af_value field \<ge> minimum \<and> af_value field \<le> maximum)"

definition PCA2131_EncodeAlarmField :: "PCA2131_AlarmField \<Rightarrow> u8 \<Rightarrow> u8" where
  "PCA2131_EncodeAlarmField field value_mask =
    (if af_enabled field = 0 then PCA2131_ALARM_DISABLE_BIT else PCA2131_DecToBcd (af_value field) AND value_mask)"

definition PCA2131_EncodeAlarmHour :: "PCA2131_AlarmField \<Rightarrow> bool \<Rightarrow> u8" where
  "PCA2131_EncodeAlarmHour field hour_mode_12 =
    (if af_enabled field = 0 then PCA2131_ALARM_DISABLE_BIT
     else if \<not> hour_mode_12 then PCA2131_DecToBcd (af_value field) AND 0x3F
     else let (hour_12, pm_bit) =
         (if af_value field = 0 then (12, 0)
          else if af_value field < 12 then (af_value field, 0)
          else if af_value field = 12 then (12, PCA2131_ALARM_PM_BIT)
          else (af_value field - 12, PCA2131_ALARM_PM_BIT))
       in (PCA2131_DecToBcd hour_12 AND 0x1F) OR pm_bit)"

section \<open>The calendar\<close>

definition PCA2131_IsLeapYear :: "u8 \<Rightarrow> bool" where
  "PCA2131_IsLeapYear year \<longleftrightarrow> year mod 4 = 0"

definition PCA2131_DaysInMonth :: "u8 \<Rightarrow> u8 \<Rightarrow> u8" where
  "PCA2131_DaysInMonth month year =
    (if month < 1 \<or> month > 12 then 0
     else if month = 2 \<and> PCA2131_IsLeapYear year then 29
     else [31, 28, 31, 30, 31, 30, 31, 31, 30, 31, 30, 31] ! unat (month - 1))"

definition PCA2131_Driver_IsValidDateTime :: "PCA2131_DateTime option \<Rightarrow> bool" where
  "PCA2131_Driver_IsValidDateTime date_time = (case date_time of None \<Rightarrow> False
   | Some t \<Rightarrow>
     if dt_hundredth t > 99 \<or> dt_second t > 59 \<or> dt_minute t > 59 \<or> dt_hour t > 23 \<or> dt_weekday t > 6
       \<or> dt_year t > 99 then False
     else let maximum_day = PCA2131_DaysInMonth (dt_month t) (dt_year t)
       in if dt_day t < 1 \<or> dt_day t > maximum_day then False else True)"

definition PCA2131_Driver_IsValidAlarmConfig :: "PCA2131_AlarmConfig option \<Rightarrow> bool" where
  "PCA2131_Driver_IsValidAlarmConfig config = (case config of None \<Rightarrow> False
   | Some c \<Rightarrow>
     if \<not> PCA2131_IsValidAlarmField (cf_second c) 0 59 \<or> \<not> PCA2131_IsValidAlarmField (cf_minute c) 0 59
       \<or> \<not> PCA2131_IsValidAlarmField (cf_hour c) 0 23 \<or> \<not> PCA2131_IsValidAlarmField (cf_day c) 1 31
       \<or> \<not> PCA2131_IsValidAlarmField (cf_weekday c) 0 6 then False else True)"

section \<open>Register transactions\<close>

definition PCA2131_CreateStatus :: "PCA2131_Result \<Rightarrow> HAL_Status \<Rightarrow> u32 \<Rightarrow> PCA2131_OperationStatus" where
  "PCA2131_CreateStatus result hal_status hal_error = \<lparr>op_result = result, op_hal_status = hal_status,
     op_hal_error = hal_error, op_recovery_attempted = False, op_recovery_status = HAL_OK, op_recovery_error = 0\<rparr>"

text \<open>The test every operation opens with: a device, and a bus handle in it.\<close>

definition pca_bus :: "'b PCA2131_Device option \<Rightarrow> 'b i2c_hal option" where
  "pca_bus device = (case device of None \<Rightarrow> None | Some d \<Rightarrow> dev_i2c d)"

text \<open>One read or write with the device's address and timeout, and the error code fetched after it.\<close>

definition pca_read :: "'b i2c_hal \<Rightarrow> nat \<Rightarrow> nat \<Rightarrow> 'b \<Rightarrow> HAL_Status \<times> u32 \<times> bytes \<times> 'b" where
  "pca_read hal reg n b = (case HAL_I2C_Mem_Read hal PCA2131_I2C_ADDR reg n PCA2131_I2C_TIMEOUT_MS b of
     (status, data, b) \<Rightarrow> (status, HAL_I2C_GetError hal b, data, b))"

definition pca_write :: "'b i2c_hal \<Rightarrow> nat \<Rightarrow> bytes \<Rightarrow> 'b \<Rightarrow> HAL_Status \<times> u32 \<times> 'b" where
  "pca_write hal reg data b = (case HAL_I2C_Mem_Write hal PCA2131_I2C_ADDR reg data PCA2131_I2C_TIMEOUT_MS b of
     (status, b) \<Rightarrow> (status, HAL_I2C_GetError hal b, b))"

definition PCA2131_Driver_Init :: "'b i2c_hal option \<Rightarrow> 'b PCA2131_Device option \<Rightarrow> 'b PCA2131_Device option" where
  "PCA2131_Driver_Init i2c device = map_option (dev_i2c_update (\<lambda>_. i2c)) device"

definition PCA2131_TryReleaseStop ::
  "'b i2c_hal \<Rightarrow> u8 \<Rightarrow> PCA2131_OperationStatus \<Rightarrow> 'b \<Rightarrow> PCA2131_OperationStatus \<times> 'b" where
  "PCA2131_TryReleaseStop hal control1 st b =
    (case pca_write hal PCA2131_REG_CONTROL_1 [control1 AND NOT PCA2131_CONTROL1_STOP_BIT] b of (status, err, b) \<Rightarrow>
       (st\<lparr>op_recovery_attempted := True, op_recovery_status := status, op_recovery_error := err\<rparr>, b))"

definition PCA2131_Driver_CheckReady ::
  "'b PCA2131_Device option \<Rightarrow> 'b \<Rightarrow> PCA2131_OperationStatus \<times> 'b" where
  "PCA2131_Driver_CheckReady device b = (case pca_bus device of
     None \<Rightarrow> (PCA2131_CreateStatus PCA2131_RESULT_INVALID_ARGUMENT HAL_ERROR 0, b)
   | Some hal \<Rightarrow> (case HAL_I2C_IsDeviceReady hal PCA2131_I2C_ADDR 5 PCA2131_I2C_TIMEOUT_MS b of (status, b) \<Rightarrow>
       (PCA2131_CreateStatus (if status \<noteq> HAL_OK then PCA2131_RESULT_DEVICE_NOT_READY else PCA2131_RESULT_OK)
          status (HAL_I2C_GetError hal b), b)))"

definition pca_decode_calendar :: "bytes \<Rightarrow> PCA2131_DateTime" where
  "pca_decode_calendar raw =
    (let t = \<lparr>dt_hundredth = PCA2131_BcdToDec (raw ! 0), dt_second = PCA2131_BcdToDec (raw ! 1 AND 0x7F),
           dt_minute = PCA2131_BcdToDec (raw ! 2 AND 0x7F), dt_hour = PCA2131_BcdToDec (raw ! 3 AND 0x3F),
           dt_day = PCA2131_BcdToDec (raw ! 4 AND 0x3F), dt_weekday = raw ! 5 AND 0x07,
           dt_month = PCA2131_BcdToDec (raw ! 6 AND 0x1F), dt_year = PCA2131_BcdToDec (raw ! 7),
           dt_osf = drop_bit 7 (raw ! 1) AND 0x01, dt_calendar_valid = 0\<rparr>
     in t\<lparr>dt_calendar_valid :=
       (if dt_osf t = 0 \<and> PCA2131_IsValidBcd (raw ! 0) \<and> PCA2131_IsValidBcd (raw ! 1 AND 0x7F)
          \<and> PCA2131_IsValidBcd (raw ! 2 AND 0x7F) \<and> PCA2131_IsValidBcd (raw ! 3 AND 0x3F)
          \<and> PCA2131_IsValidBcd (raw ! 4 AND 0x3F) \<and> PCA2131_IsValidBcd (raw ! 6 AND 0x1F)
          \<and> PCA2131_IsValidBcd (raw ! 7) \<and> PCA2131_Driver_IsValidDateTime (Some t) then 1 else 0)\<rparr>)"

definition PCA2131_Driver_ReadDateTime :: "'b PCA2131_Device option \<Rightarrow> PCA2131_DateTime option \<Rightarrow> 'b
    \<Rightarrow> PCA2131_OperationStatus \<times> PCA2131_DateTime option \<times> 'b" where
  "PCA2131_Driver_ReadDateTime device date_time b = (case (pca_bus device, date_time) of
     (Some hal, Some old) \<Rightarrow> (case pca_read hal PCA2131_REG_100TH_SECONDS 8 b of (status, err, raw, b) \<Rightarrow>
       if status \<noteq> HAL_OK then (PCA2131_CreateStatus PCA2131_RESULT_READ_FAILED status err, date_time, b)
       else (PCA2131_CreateStatus PCA2131_RESULT_OK status err, Some (pca_decode_calendar raw), b))
   | _ \<Rightarrow> (PCA2131_CreateStatus PCA2131_RESULT_INVALID_ARGUMENT HAL_ERROR 0, date_time, b))"

definition pca_alarm_zero :: PCA2131_Alarm where
  "pca_alarm_zero = (let z = \<lparr>af_enabled = 0, af_value = 0\<rparr>
     in \<lparr>al_second = z, al_minute = z, al_hour = z, al_day = z, al_weekday = z, al_hour_mode_12 = False,
       al_hour_pm = False, al_alarm_flag = False, al_interrupt_enabled = False, al_configuration_valid = False\<rparr>)"

definition pca_decode_alarm :: "bytes \<Rightarrow> bytes \<Rightarrow> PCA2131_Alarm" where
  "pca_decode_alarm control_data alarm_data =
    (let mode = (control_data ! 0 AND PCA2131_CONTROL1_12_24_BIT \<noteq> 0);
         (second, c0) = PCA2131_DecodeAlarmBcdField (alarm_data ! 0) 0x7F 0 59;
         (minute, c1) = PCA2131_DecodeAlarmBcdField (alarm_data ! 1) 0x7F 0 59;
         (hour_mask, hour_minimum, hour_maximum, pm) =
           (if mode then (0x1F, 1, 12, alarm_data ! 2 AND PCA2131_ALARM_PM_BIT \<noteq> 0) else (0x3F, 0, 23, False));
         (hour, c2) = PCA2131_DecodeAlarmBcdField (alarm_data ! 2) hour_mask hour_minimum hour_maximum;
         (day, c3) = PCA2131_DecodeAlarmBcdField (alarm_data ! 3) 0x3F 1 31;
         (weekday, c4) = PCA2131_DecodeAlarmWeekday (alarm_data ! 4)
     in \<lparr>al_second = second, al_minute = minute, al_hour = hour, al_day = day, al_weekday = weekday,
         al_hour_mode_12 = mode, al_hour_pm = pm,
         al_alarm_flag = (control_data ! 1 AND PCA2131_CONTROL2_AF_BIT \<noteq> 0),
         al_interrupt_enabled = (control_data ! 1 AND PCA2131_CONTROL2_AIE_BIT \<noteq> 0),
         al_configuration_valid = (c0 \<and> c1 \<and> c2 \<and> c3 \<and> c4)\<rparr>)"

definition PCA2131_Driver_ReadAlarm :: "'b PCA2131_Device option \<Rightarrow> PCA2131_Alarm option \<Rightarrow> 'b
    \<Rightarrow> PCA2131_OperationStatus \<times> PCA2131_Alarm option \<times> 'b" where
  "PCA2131_Driver_ReadAlarm device alarm b = (case (pca_bus device, alarm) of
     (Some hal, Some old) \<Rightarrow> (case pca_read hal PCA2131_REG_CONTROL_1 2 b of (status, err, control_data, b) \<Rightarrow>
       if status \<noteq> HAL_OK then (PCA2131_CreateStatus PCA2131_RESULT_ALARM_READ_FAILED status err, Some pca_alarm_zero, b)
       else (case pca_read hal PCA2131_REG_SECOND_ALARM 5 b of (status, err, alarm_data, b) \<Rightarrow>
         if status \<noteq> HAL_OK then (PCA2131_CreateStatus PCA2131_RESULT_ALARM_READ_FAILED status err, Some pca_alarm_zero, b)
         else (PCA2131_CreateStatus PCA2131_RESULT_OK status err, Some (pca_decode_alarm control_data alarm_data), b)))
   | _ \<Rightarrow> (PCA2131_CreateStatus PCA2131_RESULT_INVALID_ARGUMENT HAL_ERROR 0, alarm, b))"

definition pca_encode_alarm :: "PCA2131_AlarmConfig \<Rightarrow> bool \<Rightarrow> bytes" where
  "pca_encode_alarm c hour_mode_12 =
    [PCA2131_EncodeAlarmField (cf_second c) 0x7F, PCA2131_EncodeAlarmField (cf_minute c) 0x7F,
     PCA2131_EncodeAlarmHour (cf_hour c) hour_mode_12, PCA2131_EncodeAlarmField (cf_day c) 0x3F,
     if af_enabled (cf_weekday c) = 0 then PCA2131_ALARM_DISABLE_BIT else af_value (cf_weekday c) AND 0x07]"

definition PCA2131_Driver_WriteAlarm :: "'b PCA2131_Device option \<Rightarrow> PCA2131_AlarmConfig option \<Rightarrow> 'b
    \<Rightarrow> PCA2131_OperationStatus \<times> 'b" where
  "PCA2131_Driver_WriteAlarm device config b = (case (pca_bus device, config) of
     (Some hal, Some c) \<Rightarrow>
       if \<not> PCA2131_Driver_IsValidAlarmConfig config
       then (PCA2131_CreateStatus PCA2131_RESULT_INVALID_ALARM_CONFIG HAL_ERROR 0, b)
       else (case pca_read hal PCA2131_REG_CONTROL_1 1 b of (status, err, control1, b) \<Rightarrow>
         if status \<noteq> HAL_OK then (PCA2131_CreateStatus PCA2131_RESULT_ALARM_CONTROL_READ_FAILED status err, b)
         else (case pca_write hal PCA2131_REG_SECOND_ALARM
               (pca_encode_alarm c (control1 ! 0 AND PCA2131_CONTROL1_12_24_BIT \<noteq> 0)) b of (status, err, b) \<Rightarrow>
           (PCA2131_CreateStatus (if status \<noteq> HAL_OK then PCA2131_RESULT_ALARM_WRITE_FAILED else PCA2131_RESULT_OK)
              status err, b)))
   | _ \<Rightarrow> (PCA2131_CreateStatus PCA2131_RESULT_INVALID_ARGUMENT HAL_ERROR 0, b))"

definition PCA2131_Driver_ReadAlarmStatus :: "'b PCA2131_Device option \<Rightarrow> PCA2131_AlarmStatus option \<Rightarrow> 'b
    \<Rightarrow> PCA2131_OperationStatus \<times> PCA2131_AlarmStatus option \<times> 'b" where
  "PCA2131_Driver_ReadAlarmStatus device status b = (case (pca_bus device, status) of
     (Some hal, Some old) \<Rightarrow> (case pca_read hal PCA2131_REG_CONTROL_2 1 b of (hs, err, control2, b) \<Rightarrow>
       if hs \<noteq> HAL_OK then (PCA2131_CreateStatus PCA2131_RESULT_ALARM_STATUS_READ_FAILED hs err,
         Some \<lparr>as_alarm_flag = False, as_interrupt_enabled = False\<rparr>, b)
       else (PCA2131_CreateStatus PCA2131_RESULT_OK hs err,
         Some \<lparr>as_alarm_flag = (control2 ! 0 AND PCA2131_CONTROL2_AF_BIT \<noteq> 0),
               as_interrupt_enabled = (control2 ! 0 AND PCA2131_CONTROL2_AIE_BIT \<noteq> 0)\<rparr>, b))
   | _ \<Rightarrow> (PCA2131_CreateStatus PCA2131_RESULT_INVALID_ARGUMENT HAL_ERROR 0, status, b))"

definition PCA2131_Driver_SetAlarmInterruptEnabled :: "'b PCA2131_Device option \<Rightarrow> u8 \<Rightarrow> 'b
    \<Rightarrow> PCA2131_OperationStatus \<times> 'b" where
  "PCA2131_Driver_SetAlarmInterruptEnabled device enabled b = (case pca_bus device of
     Some hal \<Rightarrow>
       if enabled > 1 then (PCA2131_CreateStatus PCA2131_RESULT_INVALID_ARGUMENT HAL_ERROR 0, b)
       else let control2 = PCA2131_CONTROL2_MSF_BIT OR PCA2131_CONTROL2_WDTF_BIT OR PCA2131_CONTROL2_AF_BIT;
                control2 = (if enabled \<noteq> 0 then control2 OR PCA2131_CONTROL2_AIE_BIT else control2)
         in (case pca_write hal PCA2131_REG_CONTROL_2 [control2] b of (status, err, b) \<Rightarrow>
           (PCA2131_CreateStatus (if status \<noteq> HAL_OK then PCA2131_RESULT_ALARM_INTERRUPT_WRITE_FAILED
              else PCA2131_RESULT_OK) status err, b))
   | None \<Rightarrow> (PCA2131_CreateStatus PCA2131_RESULT_INVALID_ARGUMENT HAL_ERROR 0, b))"

definition PCA2131_Driver_ClearAlarmFlag :: "'b PCA2131_Device option \<Rightarrow> 'b \<Rightarrow> PCA2131_OperationStatus \<times> 'b" where
  "PCA2131_Driver_ClearAlarmFlag device b = (case pca_bus device of
     Some hal \<Rightarrow> (case pca_read hal PCA2131_REG_CONTROL_2 1 b of (status, err, control2, b) \<Rightarrow>
       if status \<noteq> HAL_OK then (PCA2131_CreateStatus PCA2131_RESULT_ALARM_STATUS_READ_FAILED status err, b)
       else (case pca_write hal PCA2131_REG_CONTROL_2 [PCA2131_CONTROL2_MSF_BIT OR PCA2131_CONTROL2_WDTF_BIT
               OR (control2 ! 0 AND PCA2131_CONTROL2_AIE_BIT)] b of (status, err, b) \<Rightarrow>
         (PCA2131_CreateStatus (if status \<noteq> HAL_OK then PCA2131_RESULT_ALARM_FLAG_CLEAR_FAILED
            else PCA2131_RESULT_OK) status err, b)))
   | None \<Rightarrow> (PCA2131_CreateStatus PCA2131_RESULT_INVALID_ARGUMENT HAL_ERROR 0, b))"

definition pca_watchdog_zero :: PCA2131_WatchdogStatus where
  "pca_watchdog_zero = \<lparr>wd_enabled = False, wd_timeout_flag = False, wd_interrupt_a_masked = False,
     wd_interrupt_b_masked = False, wd_clock_source = PCA2131_WATCHDOG_CLOCK_64_HZ, wd_raw_control_2 = 0,
     wd_raw_int_a_mask1 = 0, wd_raw_int_b_mask1 = 0, wd_raw_watchdog_control = 0\<rparr>"

definition pca_watchdog_clock :: "u8 \<Rightarrow> PCA2131_WatchdogClock" where
  "pca_watchdog_clock c = (if c = 0 then PCA2131_WATCHDOG_CLOCK_64_HZ else if c = 1 then PCA2131_WATCHDOG_CLOCK_4_HZ
     else if c = 2 then PCA2131_WATCHDOG_CLOCK_1_DIV_4_HZ else PCA2131_WATCHDOG_CLOCK_1_DIV_64_HZ)"

definition PCA2131_Driver_ReadWatchdogStatus :: "'b PCA2131_Device option \<Rightarrow> PCA2131_WatchdogStatus option \<Rightarrow> 'b
    \<Rightarrow> PCA2131_OperationStatus \<times> PCA2131_WatchdogStatus option \<times> 'b" where
  "PCA2131_Driver_ReadWatchdogStatus device status b = (case (pca_bus device, status) of
     (Some hal, Some old) \<Rightarrow> (case pca_read hal PCA2131_REG_CONTROL_2 1 b of (hs, err, control2, b) \<Rightarrow>
       if hs \<noteq> HAL_OK then (PCA2131_CreateStatus PCA2131_RESULT_WATCHDOG_STATUS_READ_FAILED hs err, Some pca_watchdog_zero, b)
       else (case pca_read hal PCA2131_REG_INT_A_MASK1 5 b of (hs, err, masks, b) \<Rightarrow>
         if hs \<noteq> HAL_OK then (PCA2131_CreateStatus PCA2131_RESULT_WATCHDOG_STATUS_READ_FAILED hs err, Some pca_watchdog_zero, b)
         else (PCA2131_CreateStatus PCA2131_RESULT_OK hs err,
           Some \<lparr>wd_enabled = (masks ! 4 AND PCA2131_WATCHDOG_ENABLE_BIT \<noteq> 0),
             wd_timeout_flag = (control2 ! 0 AND PCA2131_CONTROL2_WDTF_BIT \<noteq> 0),
             wd_interrupt_a_masked = (masks ! 0 AND PCA2131_WATCHDOG_MASK_BIT \<noteq> 0),
             wd_interrupt_b_masked = (masks ! 2 AND PCA2131_WATCHDOG_MASK_BIT \<noteq> 0),
             wd_clock_source = pca_watchdog_clock (masks ! 4 AND PCA2131_WATCHDOG_CLOCK_MASK),
             wd_raw_control_2 = control2 ! 0, wd_raw_int_a_mask1 = masks ! 0,
             wd_raw_int_b_mask1 = masks ! 2, wd_raw_watchdog_control = masks ! 4\<rparr>, b)))
   | _ \<Rightarrow> (PCA2131_CreateStatus PCA2131_RESULT_INVALID_ARGUMENT HAL_ERROR 0, status, b))"

definition pca_encode_calendar :: "PCA2131_DateTime \<Rightarrow> bytes" where
  "pca_encode_calendar t =
    [PCA2131_DecToBcd (dt_hundredth t), PCA2131_DecToBcd (dt_second t) AND 0x7F,
     PCA2131_DecToBcd (dt_minute t) AND 0x7F, PCA2131_DecToBcd (dt_hour t) AND 0x3F,
     PCA2131_DecToBcd (dt_day t) AND 0x3F, dt_weekday t AND 0x07, PCA2131_DecToBcd (dt_month t) AND 0x1F,
     PCA2131_DecToBcd (dt_year t)]"

definition PCA2131_Driver_WriteDateTime :: "'b PCA2131_Device option \<Rightarrow> PCA2131_DateTime option \<Rightarrow> 'b
    \<Rightarrow> PCA2131_OperationStatus \<times> 'b" where
  "PCA2131_Driver_WriteDateTime device date_time b = (case (pca_bus device, date_time) of
     (Some hal, Some t) \<Rightarrow>
       if \<not> PCA2131_Driver_IsValidDateTime date_time
       then (PCA2131_CreateStatus PCA2131_RESULT_INVALID_DATETIME HAL_ERROR 0, b)
       else (case pca_read hal PCA2131_REG_CONTROL_1 1 b of (status, err, data, b) \<Rightarrow>
         if status \<noteq> HAL_OK then (PCA2131_CreateStatus PCA2131_RESULT_CONTROL_READ_FAILED status err, b)
         else let control1 = data ! 0 AND NOT (PCA2131_CONTROL1_100TH_S_DIS OR PCA2131_CONTROL1_12_24_BIT);
                  control1 = control1 OR PCA2131_CONTROL1_STOP_BIT
         in (case pca_write hal PCA2131_REG_CONTROL_1 [control1] b of (status, err, b) \<Rightarrow>
           if status \<noteq> HAL_OK then PCA2131_TryReleaseStop hal control1
             (PCA2131_CreateStatus PCA2131_RESULT_STOP_WRITE_FAILED status err) b
           else (case pca_write hal PCA2131_REG_SR_RESET [PCA2131_SR_RESET_CPR] b of (status, err, b) \<Rightarrow>
             if status \<noteq> HAL_OK then PCA2131_TryReleaseStop hal control1
               (PCA2131_CreateStatus PCA2131_RESULT_CPR_WRITE_FAILED status err) b
             else (case pca_write hal PCA2131_REG_100TH_SECONDS (pca_encode_calendar t) b of (status, err, b) \<Rightarrow>
               if status \<noteq> HAL_OK then PCA2131_TryReleaseStop hal control1
                 (PCA2131_CreateStatus PCA2131_RESULT_CALENDAR_WRITE_FAILED status err) b
               else let control1 = control1 AND NOT PCA2131_CONTROL1_STOP_BIT
               in (case pca_write hal PCA2131_REG_CONTROL_1 [control1] b of (status, err, b) \<Rightarrow>
                 if status \<noteq> HAL_OK then PCA2131_TryReleaseStop hal control1
                   (PCA2131_CreateStatus PCA2131_RESULT_START_WRITE_FAILED status err) b
                 else (PCA2131_CreateStatus PCA2131_RESULT_OK status err, b))))))
   | _ \<Rightarrow> (PCA2131_CreateStatus PCA2131_RESULT_INVALID_ARGUMENT HAL_ERROR 0, b))"

section \<open>Round trips of the encodings\<close>

text \<open>The hundred values of a two-digit field, checked one by one.\<close>

lemma bcd_all: "list_all (\<lambda>n. let x = word_of_int n :: u8; c = PCA2131_DecToBcd x in
    PCA2131_BcdToDec c = x \<and> PCA2131_IsValidBcd c
    \<and> (n < 60 \<longrightarrow> c AND 0x7F = c \<and> drop_bit 7 c AND 1 = 0 \<and> c AND 0x80 = 0)
    \<and> (n < 40 \<longrightarrow> c AND 0x3F = c) \<and> (n < 20 \<longrightarrow> c AND 0x1F = c)) (map int [0..<100])"
  by code_simp

lemma bcd_round_trip:
  assumes "x \<le> 99"
  shows "PCA2131_BcdToDec (PCA2131_DecToBcd x) = x" "PCA2131_IsValidBcd (PCA2131_DecToBcd x)"
    "x \<le> 59 \<Longrightarrow> PCA2131_DecToBcd x AND 0x7F = PCA2131_DecToBcd x"
    "x \<le> 59 \<Longrightarrow> drop_bit 7 (PCA2131_DecToBcd x) AND 1 = 0"
    "x \<le> 59 \<Longrightarrow> PCA2131_DecToBcd x AND 0x80 = 0"
    "x \<le> 39 \<Longrightarrow> PCA2131_DecToBcd x AND 0x3F = PCA2131_DecToBcd x"
    "x \<le> 19 \<Longrightarrow> PCA2131_DecToBcd x AND 0x1F = PCA2131_DecToBcd x"
proof -
  define k where "k = unat x"
  have x: "x = word_of_int (int k)" by (simp add: k_def)
  have "k < 100" using assms by (simp add: word_le_nat_alt k_def)
  then have m: "int k \<in> set (map int [0..<100])" unfolding set_map set_upt by (intro imageI) simp
  note all = bspec [OF bcd_all [unfolded list_all_iff] m, folded x, unfolded Let_def]
  show "PCA2131_BcdToDec (PCA2131_DecToBcd x) = x" "PCA2131_IsValidBcd (PCA2131_DecToBcd x)"
    using all by blast+
  have b: "x \<le> 59 \<Longrightarrow> int k < 60" "x \<le> 39 \<Longrightarrow> int k < 40" "x \<le> 19 \<Longrightarrow> int k < 20"
    by (simp_all add: word_le_nat_alt k_def [symmetric] del: uint_nat)
  show "x \<le> 59 \<Longrightarrow> PCA2131_DecToBcd x AND 0x7F = PCA2131_DecToBcd x"
    "x \<le> 59 \<Longrightarrow> drop_bit 7 (PCA2131_DecToBcd x) AND 1 = 0"
    "x \<le> 59 \<Longrightarrow> PCA2131_DecToBcd x AND 0x80 = 0"
    "x \<le> 39 \<Longrightarrow> PCA2131_DecToBcd x AND 0x3F = PCA2131_DecToBcd x"
    "x \<le> 19 \<Longrightarrow> PCA2131_DecToBcd x AND 0x1F = PCA2131_DecToBcd x"
    using all b by blast+
qed

lemma le_trans_numeral:
  fixes x :: u8
  shows "x \<le> 59 \<Longrightarrow> x \<le> 99" "x \<le> 23 \<Longrightarrow> x \<le> 39" "x \<le> 31 \<Longrightarrow> x \<le> 39" "x \<le> 39 \<Longrightarrow> x \<le> 59" "x \<le> 12 \<Longrightarrow> x \<le> 19"
    "x \<le> 19 \<Longrightarrow> x \<le> 39"
  by (simp_all add: word_le_nat_alt)

lemma days_in_month_bound: "PCA2131_DaysInMonth m y \<le> 31"
proof (cases "m < 1 \<or> m > 12")
  case False
  then have "0 < m" "unat m \<le> 12" by (auto simp: not_less word_le_nat_alt word_gt_0)
  then have "unat (m - 1) < 12" by (simp add: unat_dec word_less_nat_alt)
  define days :: "u8 list" where "days = [31, 28, 31, 30, 31, 30, 31, 31, 30, 31, 30, 31]"
  have "\<forall>d \<in> set days. d \<le> 31" "length days = 12" by (simp_all add: days_def)
  with \<open>unat (m - 1) < 12\<close> have "days ! unat (m - 1) \<le> 31" by simp
  then show ?thesis unfolding PCA2131_DaysInMonth_def days_def [symmetric] by auto
qed (simp add: PCA2131_DaysInMonth_def)

lemma one_le_word: "(x :: u8) \<noteq> 0 \<Longrightarrow> 1 \<le> x"
  by (simp add: word_le_nat_alt Suc_le_eq unat_gt_0)

lemma valid_date_time_bounds:
  assumes "PCA2131_Driver_IsValidDateTime (Some t)"
  shows "dt_hundredth t \<le> 99" "dt_second t \<le> 59" "dt_minute t \<le> 59" "dt_hour t \<le> 23" "dt_weekday t \<le> 6"
    "dt_year t \<le> 99" "1 \<le> dt_day t" "dt_day t \<le> PCA2131_DaysInMonth (dt_month t) (dt_year t)"
    "1 \<le> dt_month t" "dt_month t \<le> 12" "dt_day t \<le> 31"
proof -
  show b: "dt_hundredth t \<le> 99" "dt_second t \<le> 59" "dt_minute t \<le> 59" "dt_hour t \<le> 23" "dt_weekday t \<le> 6"
    "dt_year t \<le> 99" "1 \<le> dt_day t" "dt_day t \<le> PCA2131_DaysInMonth (dt_month t) (dt_year t)"
    using assms by (auto simp: PCA2131_Driver_IsValidDateTime_def Let_def not_less one_le_word split: if_splits)
  show "dt_day t \<le> 31" using b(8) days_in_month_bound order_trans by blast
  have "PCA2131_DaysInMonth (dt_month t) (dt_year t) \<noteq> 0" using b(7,8) by (auto simp: word_le_nat_alt)
  then have "\<not> dt_month t < 1 \<and> \<not> dt_month t > 12" by (metis PCA2131_DaysInMonth_def)
  then show "1 \<le> dt_month t" "dt_month t \<le> 12" by (auto simp: one_le_word not_less)
qed

lemma weekday_and: "(x :: u8) \<le> 6 \<Longrightarrow> x AND 7 = x"
proof -
  assume "x \<le> 6"
  then have "unat x < 8" by (simp add: word_le_nat_alt)
  moreover have "x AND 7 = take_bit 3 x" by (simp add: take_bit_eq_mask mask_eq_exp_minus_1)
  ultimately show "x AND 7 = x"
    by (simp add: word_unat_eq_iff unsigned_take_bit_eq take_bit_nat_def)
qed

lemma calendar_round_trip:
  assumes "PCA2131_Driver_IsValidDateTime (Some t)"
  shows "pca_decode_calendar (pca_encode_calendar t) = t\<lparr>dt_osf := 0, dt_calendar_valid := 1\<rparr>"
proof -
  note b = valid_date_time_bounds [OF assms]
  have r: "dt_second t \<le> 99" "dt_minute t \<le> 99" "dt_hour t \<le> 99" "dt_day t \<le> 99" "dt_month t \<le> 99"
    "dt_hour t \<le> 39" "dt_day t \<le> 39" "dt_month t \<le> 19"
    using b by (blast intro: le_trans_numeral)+
  note trips = bcd_round_trip(1,2) bcd_round_trip(3-7)
  have raw: "pca_encode_calendar t = [PCA2131_DecToBcd (dt_hundredth t), PCA2131_DecToBcd (dt_second t),
      PCA2131_DecToBcd (dt_minute t), PCA2131_DecToBcd (dt_hour t), PCA2131_DecToBcd (dt_day t), dt_weekday t,
      PCA2131_DecToBcd (dt_month t), PCA2131_DecToBcd (dt_year t)]"
    using b r by (simp add: pca_encode_calendar_def trips weekday_and)
  have valid: "PCA2131_Driver_IsValidDateTime (Some \<lparr>dt_hundredth = dt_hundredth t, dt_second = dt_second t,
      dt_minute = dt_minute t, dt_hour = dt_hour t, dt_day = dt_day t, dt_weekday = dt_weekday t,
      dt_month = dt_month t, dt_year = dt_year t, dt_osf = 0, dt_calendar_valid = 0\<rparr>)"
    using assms unfolding PCA2131_Driver_IsValidDateTime_def by (simp only: option.case PCA2131_DateTime.select_convs)
  have fin: "t\<lparr>dt_osf := 0, dt_calendar_valid := 1\<rparr> = \<lparr>dt_hundredth = dt_hundredth t,
      dt_second = dt_second t, dt_minute = dt_minute t, dt_hour = dt_hour t, dt_day = dt_day t,
      dt_weekday = dt_weekday t, dt_month = dt_month t, dt_year = dt_year t, dt_osf = 0, dt_calendar_valid = 1\<rparr>"
    by (cases t) simp
  show ?thesis using b r valid by (simp add: pca_decode_calendar_def raw fin trips weekday_and Let_def)
qed

text \<open>
  What an alarm field reads back as, and the hour of an alarm on the 24-hour scale of the interface.
\<close>

definition alarm_field_read :: "PCA2131_AlarmField \<Rightarrow> PCA2131_AlarmField" where
  "alarm_field_read f = (if af_enabled f = 0 then \<lparr>af_enabled = 0, af_value = 0\<rparr> else f)"

definition alarm_hour_24 :: "PCA2131_Alarm \<Rightarrow> u8" where
  "alarm_hour_24 a = (if al_hour_mode_12 a then af_value (al_hour a) mod 12 + (if al_hour_pm a then 12 else 0)
     else af_value (al_hour a))"

lemma alarm_field_round_trip:
  assumes f: "PCA2131_IsValidAlarmField f lo hi" and hi: "hi \<le> 59"
    and fits: "\<And>x. x \<le> hi \<Longrightarrow> PCA2131_DecToBcd x AND m = PCA2131_DecToBcd x" and m: "0x80 AND m = 0"
  shows "PCA2131_DecodeAlarmBcdField (PCA2131_EncodeAlarmField f m) m lo hi = (alarm_field_read f, True)"
proof (cases "af_enabled f = 0")
  case True
  then show ?thesis using m
    by (simp add: PCA2131_DecodeAlarmBcdField_def PCA2131_EncodeAlarmField_def alarm_field_read_def Let_def
        PCA2131_ALARM_DISABLE_BIT_def PCA2131_IsValidBcd_def PCA2131_BcdToDec_def)
next
  case False
  then have v: "af_value f \<le> hi" "lo \<le> af_value f" "af_enabled f = 1"
    using f by (auto simp: PCA2131_IsValidAlarmField_def one_le_word not_less intro: order_antisym split: if_splits)
  have b: "af_value f \<le> 59" using v(1) hi by simp
  then have "af_value f \<le> 99" by (rule le_trans_numeral)
  note trips = bcd_round_trip [OF this]
  show ?thesis using False v fits [OF v(1)] trips(1,2) trips(5) [OF b]
    by (cases f) (simp add: PCA2131_DecodeAlarmBcdField_def PCA2131_EncodeAlarmField_def alarm_field_read_def Let_def
        PCA2131_ALARM_DISABLE_BIT_def)
qed

lemma alarm_weekday_round_trip:
  assumes f: "PCA2131_IsValidAlarmField f 0 6"
  shows "PCA2131_DecodeAlarmWeekday (if af_enabled f = 0 then PCA2131_ALARM_DISABLE_BIT else af_value f AND 0x07)
    = (alarm_field_read f, True)"
proof (cases "af_enabled f = 0")
  case True
  then show ?thesis
    by (simp add: PCA2131_DecodeAlarmWeekday_def alarm_field_read_def PCA2131_ALARM_DISABLE_BIT_def Let_def)
next
  case False
  then have v: "af_value f \<le> 6" "af_enabled f = 1"
    using f by (auto simp: PCA2131_IsValidAlarmField_def one_le_word not_less intro: order_antisym split: if_splits)
  have "af_value f AND 0x80 = (af_value f AND 7) AND 0x80" by (simp add: weekday_and v)
  then have "af_value f AND 0x80 = 0" by (simp add: and.assoc)
  then show ?thesis using False v
    by (cases f) (simp add: PCA2131_DecodeAlarmWeekday_def alarm_field_read_def PCA2131_ALARM_DISABLE_BIT_def
        Let_def weekday_and)
qed

text \<open>The 24 hours in the 12-hour format, one by one.\<close>

lemma alarm_hour_12_all: "list_all (\<lambda>n. let v = word_of_int n :: u8; raw = PCA2131_EncodeAlarmHour \<lparr>af_enabled = 1, af_value = v\<rparr> True;
    (g, valid) = PCA2131_DecodeAlarmBcdField raw 0x1F 1 12
    in valid \<and> af_enabled g = 1 \<and> af_value g mod 12 + (if raw AND PCA2131_ALARM_PM_BIT \<noteq> 0 then 12 else 0) = v)
    (map int [0..<24])"
  by code_simp

lemma alarm_hour_12_round_trip:
  assumes "v \<le> 23"
  shows "case PCA2131_DecodeAlarmBcdField (PCA2131_EncodeAlarmHour \<lparr>af_enabled = 1, af_value = v\<rparr> True) 0x1F 1 12
    of (g, valid) \<Rightarrow> valid \<and> af_enabled g = 1 \<and> af_value g mod 12
      + (if PCA2131_EncodeAlarmHour \<lparr>af_enabled = 1, af_value = v\<rparr> True AND PCA2131_ALARM_PM_BIT \<noteq> 0 then 12 else 0) = v"
proof -
  define k where "k = unat v"
  have v: "v = word_of_int (int k)" by (simp add: k_def)
  have "k < 24" using assms by (simp add: word_le_nat_alt k_def)
  then have m: "int k \<in> set (map int [0..<24])" unfolding set_map set_upt by (intro imageI) simp
  show ?thesis using bspec [OF alarm_hour_12_all [unfolded list_all_iff] m, folded v, unfolded Let_def] .
qed

lemma pca_alarm_round_trip:
  assumes "PCA2131_Driver_IsValidAlarmConfig (Some c)"
    and mode: "mode \<longleftrightarrow> ctl ! 0 AND PCA2131_CONTROL1_12_24_BIT \<noteq> 0"
  shows "let a = pca_decode_alarm ctl (pca_encode_alarm c mode)
    in al_configuration_valid a \<and> al_second a = alarm_field_read (cf_second c)
      \<and> al_minute a = alarm_field_read (cf_minute c) \<and> al_day a = alarm_field_read (cf_day c)
      \<and> al_weekday a = alarm_field_read (cf_weekday c) \<and> af_enabled (al_hour a) = af_enabled (cf_hour c)
      \<and> (af_enabled (cf_hour c) \<noteq> 0 \<longrightarrow> alarm_hour_24 a = af_value (cf_hour c))"
proof -
  have f: "PCA2131_IsValidAlarmField (cf_second c) 0 59" "PCA2131_IsValidAlarmField (cf_minute c) 0 59"
    "PCA2131_IsValidAlarmField (cf_hour c) 0 23" "PCA2131_IsValidAlarmField (cf_day c) 1 31"
    "PCA2131_IsValidAlarmField (cf_weekday c) 0 6"
    using assms(1) by (auto simp: PCA2131_Driver_IsValidAlarmConfig_def split: if_splits)
  note le = le_trans_numeral
  have r: "PCA2131_DecodeAlarmBcdField (PCA2131_EncodeAlarmField (cf_second c) 0x7F) 0x7F 0 59 = (alarm_field_read (cf_second c), True)"
    "PCA2131_DecodeAlarmBcdField (PCA2131_EncodeAlarmField (cf_minute c) 0x7F) 0x7F 0 59 = (alarm_field_read (cf_minute c), True)"
    "PCA2131_DecodeAlarmBcdField (PCA2131_EncodeAlarmField (cf_hour c) 0x3F) 0x3F 0 23 = (alarm_field_read (cf_hour c), True)"
    "PCA2131_DecodeAlarmBcdField (PCA2131_EncodeAlarmField (cf_day c) 0x3F) 0x3F 1 31 = (alarm_field_read (cf_day c), True)"
    by (rule alarm_field_round_trip; use f in \<open>simp add: bcd_round_trip le\<close>)+
  note w = alarm_weekday_round_trip [OF f(5)]
  have off: "af_enabled (cf_hour c) = 0 \<Longrightarrow> PCA2131_EncodeAlarmHour (cf_hour c) mode = PCA2131_ALARM_DISABLE_BIT"
    by (simp add: PCA2131_EncodeAlarmHour_def)
  have off2: "PCA2131_DecodeAlarmBcdField PCA2131_ALARM_DISABLE_BIT 0x1F 1 12 = (\<lparr>af_enabled = 0, af_value = 0\<rparr>, True)"
    by (simp add: PCA2131_DecodeAlarmBcdField_def PCA2131_ALARM_DISABLE_BIT_def PCA2131_IsValidBcd_def PCA2131_BcdToDec_def Let_def)
  have plain: "PCA2131_EncodeAlarmHour (cf_hour c) False = PCA2131_EncodeAlarmField (cf_hour c) 0x3F"
    by (simp add: PCA2131_EncodeAlarmHour_def PCA2131_EncodeAlarmField_def)
  have on: "af_enabled (cf_hour c) \<noteq> 0 \<Longrightarrow> af_enabled (cf_hour c) = 1 \<and> cf_hour c = \<lparr>af_enabled = 1, af_value = af_value (cf_hour c)\<rparr>
      \<and> af_value (cf_hour c) \<le> 23"
    using f(3) by (cases "cf_hour c") (auto simp: PCA2131_IsValidAlarmField_def one_le_word not_less intro: order_antisym split: if_splits)
  show ?thesis
  proof (cases mode)
    case False
    then show ?thesis using mode
      by (auto simp: pca_decode_alarm_def pca_encode_alarm_def Let_def r w plain alarm_hour_24_def alarm_field_read_def)
  next
    case True
    show ?thesis
    proof (cases "af_enabled (cf_hour c) = 0")
      case z: True
      then show ?thesis using True mode off off2
        by (auto simp: pca_decode_alarm_def pca_encode_alarm_def Let_def r w)
    next
      case nz: False
      then show ?thesis using True mode on [OF nz] alarm_hour_12_round_trip [of "af_value (cf_hour c)"]
        by (auto simp: pca_decode_alarm_def pca_encode_alarm_def Let_def r w alarm_hour_24_def split: prod.splits)
    qed
  qed
qed

section \<open>The registers of the clock\<close>

text \<open>
  What the driver relies on in the chip, for the address it uses: a read leaves the registers alone
  and, when it succeeds, returns them; a successful write of registers stores its bytes, where the
  flags AF, MSF and WDTF of \<open>Control_2\<close> take the AND of what they hold and what is written; a
  successful write of the reset register leaves \<open>Control_1\<close> alone. Nothing is said of a failed write.
\<close>

definition pca_flags :: u8 where
  "pca_flags = PCA2131_CONTROL2_MSF_BIT OR PCA2131_CONTROL2_WDTF_BIT OR PCA2131_CONTROL2_AF_BIT"

definition pca_chip :: "'b i2c_hal \<Rightarrow> ('b \<Rightarrow> nat \<Rightarrow> u8) \<Rightarrow> bool" where
  "pca_chip hal regs \<longleftrightarrow>
    (\<forall>reg n t b st data b'. HAL_I2C_Mem_Read hal PCA2131_I2C_ADDR reg n t b = (st, data, b') \<longrightarrow>
       regs b' = regs b \<and> (st = HAL_OK \<longrightarrow> data = map (\<lambda>k. regs b (reg + k)) [0..<n]))
    \<and> (\<forall>reg data t b b'. HAL_I2C_Mem_Write hal PCA2131_I2C_ADDR reg data t b = (HAL_OK, b') \<longrightarrow>
       (if reg = PCA2131_REG_SR_RESET then regs b' PCA2131_REG_CONTROL_1 = regs b PCA2131_REG_CONTROL_1
        else \<forall>k. regs b' k = (if reg \<le> k \<and> k < reg + length data
          then (if k = PCA2131_REG_CONTROL_2
            then data ! (k - reg) AND (regs b k OR NOT pca_flags) else data ! (k - reg))
          else regs b k)))"

lemma pca_chip_read:
  assumes "pca_chip hal regs" "pca_read hal reg n b = (st, err, data, b')"
  shows "regs b' = regs b" "st = HAL_OK \<Longrightarrow> data = map (\<lambda>k. regs b (reg + k)) [0..<n]"
  using assms by (auto simp: pca_chip_def pca_read_def split: prod.splits)

lemma pca_chip_write:
  assumes "pca_chip hal regs" "pca_write hal reg data b = (HAL_OK, err, b')"
  shows "reg = PCA2131_REG_SR_RESET \<Longrightarrow> regs b' PCA2131_REG_CONTROL_1 = regs b PCA2131_REG_CONTROL_1"
    "reg \<noteq> PCA2131_REG_SR_RESET \<Longrightarrow> regs b' k = (if reg \<le> k \<and> k < reg + length data
       then (if k = PCA2131_REG_CONTROL_2 then data ! (k - reg) AND (regs b k OR NOT pca_flags) else data ! (k - reg))
       else regs b k)"
  using assms by (auto simp: pca_chip_def pca_write_def split: prod.splits)

definition pca_running :: "('b \<Rightarrow> nat \<Rightarrow> u8) \<Rightarrow> 'b \<Rightarrow> bool" where
  "pca_running regs b \<longleftrightarrow> regs b PCA2131_REG_CONTROL_1 AND PCA2131_CONTROL1_STOP_BIT = 0"

lemma stop_released:
  assumes "pca_chip hal regs" "PCA2131_TryReleaseStop hal c1 st b = (st', b')"
  shows "op_recovery_attempted st'" "op_recovery_status st' = HAL_OK \<Longrightarrow> pca_running regs b'" "op_result st' = op_result st"
proof -
  show "op_recovery_attempted st'" "op_result st' = op_result st"
    using assms(2) by (auto simp: PCA2131_TryReleaseStop_def split: prod.splits)
  assume ok: "op_recovery_status st' = HAL_OK"
  obtain s e b2 where w: "pca_write hal PCA2131_REG_CONTROL_1 [c1 AND NOT PCA2131_CONTROL1_STOP_BIT] b = (s, e, b2)"
    by (metis prod.exhaust)
  with assms(2) ok have "s = HAL_OK" "b' = b2" by (auto simp: PCA2131_TryReleaseStop_def)
  with w have "pca_write hal PCA2131_REG_CONTROL_1 [c1 AND NOT PCA2131_CONTROL1_STOP_BIT] b = (HAL_OK, e, b')" by simp
  from pca_chip_write(2) [OF assms(1) this, of PCA2131_REG_CONTROL_1]
  show "pca_running regs b'" by (simp add: pca_running_def pca_registers and.assoc PCA2131_CONTROL1_STOP_BIT_def)
qed

section \<open>Properties\<close>

text \<open>The registers after the four writes of a successful setting of the clock.\<close>

lemma pca_set_registers:
  assumes chip: "pca_chip hal regs"
    and w1: "pca_write hal PCA2131_REG_CONTROL_1 [c1] b = (HAL_OK, e1, b1)"
    and w2: "pca_write hal PCA2131_REG_SR_RESET [PCA2131_SR_RESET_CPR] b1 = (HAL_OK, e2, b2)"
    and w3: "pca_write hal PCA2131_REG_100TH_SECONDS (pca_encode_calendar t) b2 = (HAL_OK, e3, b3)"
    and w4: "pca_write hal PCA2131_REG_CONTROL_1 [c1 AND NOT PCA2131_CONTROL1_STOP_BIT] b3 = (HAL_OK, e4, b4)"
  shows "pca_running regs b4" "map (\<lambda>k. regs b4 (PCA2131_REG_100TH_SECONDS + k)) [0..<8] = pca_encode_calendar t"
    "regs b4 PCA2131_REG_CONTROL_1 = c1 AND NOT PCA2131_CONTROL1_STOP_BIT"
proof -
  have len: "length (pca_encode_calendar t) = 8" by (simp add: pca_encode_calendar_def)
  show c: "regs b4 PCA2131_REG_CONTROL_1 = c1 AND NOT PCA2131_CONTROL1_STOP_BIT"
    using pca_chip_write(2) [OF chip w4, of PCA2131_REG_CONTROL_1] by (simp add: pca_registers)
  then show "pca_running regs b4" by (simp add: pca_running_def and.assoc PCA2131_CONTROL1_STOP_BIT_def)
  have "regs b4 (6 + k) = pca_encode_calendar t ! k" if "k < 8" for k
    using pca_chip_write(2) [OF chip w4, of "6 + k"] pca_chip_write(2) [OF chip w3, of "6 + k"] that
    by (simp add: pca_registers len)
  then show "map (\<lambda>k. regs b4 (PCA2131_REG_100TH_SECONDS + k)) [0..<8] = pca_encode_calendar t"
    by (intro nth_equalityI) (simp_all add: len pca_registers)
qed

lemma rtc_set_registers:
  assumes chip: "pca_chip hal regs"
    and run: "PCA2131_Driver_WriteDateTime (Some \<lparr>dev_i2c = Some hal\<rparr>) (Some t) b = (st, b')"
  shows "if op_result st = PCA2131_RESULT_OK
    then PCA2131_Driver_IsValidDateTime (Some t) \<and> pca_running regs b'
      \<and> map (\<lambda>k. regs b' (PCA2131_REG_100TH_SECONDS + k)) [0..<8] = pca_encode_calendar t
      \<and> regs b' PCA2131_REG_CONTROL_1 AND (PCA2131_CONTROL1_100TH_S_DIS OR PCA2131_CONTROL1_12_24_BIT) = 0
    else \<not> op_recovery_attempted st \<and> regs b' = regs b
      \<or> op_recovery_attempted st \<and> (op_recovery_status st = HAL_OK \<longrightarrow> pca_running regs b')"
proof (cases "PCA2131_Driver_IsValidDateTime (Some t)")
  case False
  then show ?thesis using run by (auto simp: PCA2131_Driver_WriteDateTime_def pca_bus_def PCA2131_CreateStatus_def)
next
  case True
  obtain s0 e0 data b0 where r: "pca_read hal PCA2131_REG_CONTROL_1 1 b = (s0, e0, data, b0)" by (metis prod.exhaust)
  define c1 where "c1 = data ! 0 AND NOT (PCA2131_CONTROL1_100TH_S_DIS OR PCA2131_CONTROL1_12_24_BIT)
    OR PCA2131_CONTROL1_STOP_BIT"
  obtain s1 e1 b1 where w1: "pca_write hal PCA2131_REG_CONTROL_1 [c1] b0 = (s1, e1, b1)" by (metis prod.exhaust)
  obtain s2 e2 b2 where w2: "pca_write hal PCA2131_REG_SR_RESET [PCA2131_SR_RESET_CPR] b1 = (s2, e2, b2)"
    by (metis prod.exhaust)
  obtain s3 e3 b3 where w3: "pca_write hal PCA2131_REG_100TH_SECONDS (pca_encode_calendar t) b2 = (s3, e3, b3)"
    by (metis prod.exhaust)
  obtain s4 e4 b4 where w4: "pca_write hal PCA2131_REG_CONTROL_1 [c1 AND NOT PCA2131_CONTROL1_STOP_BIT] b3 = (s4, e4, b4)"
    by (metis prod.exhaust)
  have unfolded: "(st, b') =
    (if s0 \<noteq> HAL_OK then (PCA2131_CreateStatus PCA2131_RESULT_CONTROL_READ_FAILED s0 e0, b0)
     else if s1 \<noteq> HAL_OK then PCA2131_TryReleaseStop hal c1 (PCA2131_CreateStatus PCA2131_RESULT_STOP_WRITE_FAILED s1 e1) b1
     else if s2 \<noteq> HAL_OK then PCA2131_TryReleaseStop hal c1 (PCA2131_CreateStatus PCA2131_RESULT_CPR_WRITE_FAILED s2 e2) b2
     else if s3 \<noteq> HAL_OK then PCA2131_TryReleaseStop hal c1 (PCA2131_CreateStatus PCA2131_RESULT_CALENDAR_WRITE_FAILED s3 e3) b3
     else if s4 \<noteq> HAL_OK then PCA2131_TryReleaseStop hal (c1 AND NOT PCA2131_CONTROL1_STOP_BIT)
       (PCA2131_CreateStatus PCA2131_RESULT_START_WRITE_FAILED s4 e4) b4
     else (PCA2131_CreateStatus PCA2131_RESULT_OK s4 e4, b4))"
    unfolding run [symmetric] PCA2131_Driver_WriteDateTime_def pca_bus_def
    by (simp only: True option.case prod.case PCA2131_Device.select_convs not_True_eq_False if_False
        r Let_def c1_def [symmetric] w1 w2 w3 w4)
  have released: "op_result st \<noteq> PCA2131_RESULT_OK \<and> op_recovery_attempted st
      \<and> (op_recovery_status st = HAL_OK \<longrightarrow> pca_running regs b')"
    if "(st, b') = PCA2131_TryReleaseStop hal c (PCA2131_CreateStatus res s e) bx" "res \<noteq> PCA2131_RESULT_OK" for c res s e bx
    using stop_released [OF chip that(1) [symmetric]] that(2) by (simp add: PCA2131_CreateStatus_def)
  show ?thesis
  proof (cases "s0 = HAL_OK \<and> s1 = HAL_OK \<and> s2 = HAL_OK \<and> s3 = HAL_OK \<and> s4 = HAL_OK")
    case ok: True
    then have st: "st = PCA2131_CreateStatus PCA2131_RESULT_OK s4 e4" "b' = b4" using unfolded by simp_all
    have clear: "(c1 AND NOT PCA2131_CONTROL1_STOP_BIT) AND (PCA2131_CONTROL1_100TH_S_DIS OR PCA2131_CONTROL1_12_24_BIT) = 0"
      unfolding c1_def pca_bits by (simp add: bit.conj_disj_distrib2 and.assoc)
    show ?thesis using True ok pca_set_registers [OF chip, of c1 b0 e1 b1 e2 b2 t e3 b3 e4 b4] w1 w2 w3 w4 clear
      by (simp add: st PCA2131_CreateStatus_def)
  next
    case False
    show ?thesis
    proof (cases "s0 = HAL_OK")
      case fail: False
      then show ?thesis using unfolded pca_chip_read(1) [OF chip r] by (simp add: PCA2131_CreateStatus_def)
    next
      case r0: True
      with False unfolded obtain c res s e bx where
        "(st, b') = PCA2131_TryReleaseStop hal c (PCA2131_CreateStatus res s e) bx" "res \<noteq> PCA2131_RESULT_OK"
        by (cases "s1 = HAL_OK"; cases "s2 = HAL_OK"; cases "s3 = HAL_OK"; cases "s4 = HAL_OK") auto
      from released [OF this] show ?thesis by simp
    qed
  qed
qed

text \<open>
  C29. Setting the clock never leaves it stopped unnoticed. When the operation reports success, the date
  was valid, the registers hold its encoding, the oscillator counts again and the chip is in 24-hour
  mode with hundredths enabled. When it reports any failure, either no register was written, or a
  release of STOP was attempted, and if that write succeeded the clock runs.
\<close>

theorem rtc_set_never_leaves_stopped:
  assumes chip: "pca_chip hal regs"
    and run: "PCA2131_Driver_WriteDateTime (Some \<lparr>dev_i2c = Some hal\<rparr>) (Some t) b = (st, b')"
  shows "if op_result st = PCA2131_RESULT_OK
    then PCA2131_Driver_IsValidDateTime (Some t) \<and> pca_running regs b'
      \<and> map (\<lambda>k. regs b' (PCA2131_REG_100TH_SECONDS + k)) [0..<8] = pca_encode_calendar t
      \<and> regs b' PCA2131_REG_CONTROL_1 AND (PCA2131_CONTROL1_100TH_S_DIS OR PCA2131_CONTROL1_12_24_BIT) = 0
    else \<not> op_recovery_attempted st \<and> regs b' = regs b
      \<or> op_recovery_attempted st \<and> (op_recovery_status st = HAL_OK \<longrightarrow> pca_running regs b')"
  by (rule rtc_set_registers [OF chip run])

text \<open>
  A chip for concrete runs: sixty-four registers, and how many more writes succeed.
\<close>

record sim_clock =
  sim_registers :: bytes
  sim_writes_left :: nat

definition sim_write :: "nat \<Rightarrow> bytes \<Rightarrow> bytes \<Rightarrow> bytes" where
  "sim_write reg data rs = (if reg = PCA2131_REG_SR_RESET then rs
     else fold (\<lambda>k rs. rs[k := if k = PCA2131_REG_CONTROL_2 then data ! (k - reg) AND (rs ! k OR NOT pca_flags)
       else data ! (k - reg)]) [reg..<reg + length data] rs)"

definition sim_hal :: "sim_clock i2c_hal" where
  "sim_hal = \<lparr>HAL_I2C_IsDeviceReady = (\<lambda>addr n t b. (HAL_OK, b)),
     HAL_I2C_Mem_Read = (\<lambda>addr reg n t b. (HAL_OK, map (\<lambda>k. if reg + k < length (sim_registers b) then sim_registers b ! (reg + k) else 0) [0..<n], b)),
     HAL_I2C_Mem_Write = (\<lambda>addr reg data t b. if sim_writes_left b = 0 \<or> length (sim_registers b) < reg + length data then (HAL_ERROR, b)
       else (HAL_OK, b\<lparr>sim_registers := sim_write reg data (sim_registers b), sim_writes_left := sim_writes_left b - 1\<rparr>)),
     HAL_I2C_GetError = (\<lambda>b. if sim_writes_left b = 0 then 4 else 0)\<rparr>"

definition sim_read :: "sim_clock \<Rightarrow> nat \<Rightarrow> u8" where
  "sim_read b k = (if k < length (sim_registers b) then sim_registers b ! k else 0)"

lemma fold_update_range:
  "length (fold (\<lambda>k rs. rs[k := f k (rs ! k)]) [i..<i + n] rs) = length rs"
  "i + n \<le> length rs \<Longrightarrow> j < length rs \<Longrightarrow>
    fold (\<lambda>k rs. rs[k := f k (rs ! k)]) [i..<i + n] rs ! j = (if i \<le> j \<and> j < i + n then f j (rs ! j) else rs ! j)"
  by (induction n) (auto simp: nth_list_update less_Suc_eq)

lemma sim_write_length [simp]: "length (sim_write reg data rs) = length rs"
  using fold_update_range(1) [where f = "\<lambda>k v. if k = PCA2131_REG_CONTROL_2 then data ! (k - reg) AND (v OR NOT pca_flags) else data ! (k - reg)"
      and i = reg and n = "length data" and rs = rs]
  by (simp add: sim_write_def)

lemma sim_write_registers:
  assumes "reg \<noteq> PCA2131_REG_SR_RESET" "reg + length data \<le> length rs" "j < length rs"
  shows "sim_write reg data rs ! j = (if reg \<le> j \<and> j < reg + length data
    then (if j = PCA2131_REG_CONTROL_2 then data ! (j - reg) AND (rs ! j OR NOT pca_flags) else data ! (j - reg)) else rs ! j)"
  using assms fold_update_range [where f = "\<lambda>k v. if k = PCA2131_REG_CONTROL_2 then data ! (k - reg) AND (v OR NOT pca_flags) else data ! (k - reg)"
      and i = reg and n = "length data" and rs = rs]
  by (auto simp: sim_write_def)

lemma sim_chip: "pca_chip sim_hal sim_read"
  unfolding pca_chip_def
proof (intro conjI allI impI)
  fix reg n t b st data b'
  assume "HAL_I2C_Mem_Read sim_hal PCA2131_I2C_ADDR reg n t b = (st, data, b')"
  then show "sim_read b' = sim_read b" "st = HAL_OK \<Longrightarrow> data = map (\<lambda>k. sim_read b (reg + k)) [0..<n]"
    by (auto simp: sim_hal_def sim_read_def)
next
  fix reg data t b b'
  assume "HAL_I2C_Mem_Write sim_hal PCA2131_I2C_ADDR reg data t b = (HAL_OK, b')"
  then have b': "reg + length data \<le> length (sim_registers b)" "sim_registers b' = sim_write reg data (sim_registers b)"
    by (auto simp: sim_hal_def split: if_splits)
  show "if reg = PCA2131_REG_SR_RESET then sim_read b' PCA2131_REG_CONTROL_1 = sim_read b PCA2131_REG_CONTROL_1
    else \<forall>k. sim_read b' k = (if reg \<le> k \<and> k < reg + length data
      then (if k = PCA2131_REG_CONTROL_2 then data ! (k - reg) AND (sim_read b k OR NOT pca_flags) else data ! (k - reg))
      else sim_read b k)"
  proof (cases "reg = PCA2131_REG_SR_RESET")
    case True
    then show ?thesis using b' by (simp add: sim_read_def sim_write_def)
  next
    case False
    then show ?thesis using b' sim_write_registers [OF False b'(1)]
      by (auto simp: sim_read_def)
  qed
qed

definition sim_start :: "nat \<Rightarrow> sim_clock" where
  "sim_start n = \<lparr>sim_registers = replicate 64 0, sim_writes_left = n\<rparr>"

definition leap_day :: PCA2131_DateTime where
  "leap_day = \<lparr>dt_hundredth = 7, dt_second = 58, dt_minute = 59, dt_hour = 23, dt_day = 29, dt_weekday = 2,
     dt_month = 2, dt_year = 28, dt_osf = 1, dt_calendar_valid = 0\<rparr>"

theorem rtc_set_never_leaves_stopped_witness:
  "let run = (\<lambda>n. PCA2131_Driver_WriteDateTime (Some \<lparr>dev_i2c = Some sim_hal\<rparr>) (Some leap_day) (sim_start n))
   in op_result (fst (run 4)) = PCA2131_RESULT_OK \<and> pca_running sim_read (snd (run 4))
     \<and> op_result (fst (run 2)) = PCA2131_RESULT_CALENDAR_WRITE_FAILED \<and> op_recovery_attempted (fst (run 2))"
proof -
  let ?run = "\<lambda>n. PCA2131_Driver_WriteDateTime (Some \<lparr>dev_i2c = Some sim_hal\<rparr>) (Some leap_day) (sim_start n)"
  have r: "op_result (fst (?run 4)) = PCA2131_RESULT_OK" "op_result (fst (?run 2)) = PCA2131_RESULT_CALENDAR_WRITE_FAILED"
    "op_recovery_attempted (fst (?run 2))"
    by code_simp+
  show ?thesis
    using r rtc_set_never_leaves_stopped [OF sim_chip prod.collapse [symmetric], where t = leap_day and b = "sim_start 4"]
    by (simp add: Let_def)
qed

lemma calendar_read_back:
  assumes chip: "pca_chip hal regs"
    and set: "PCA2131_Driver_WriteDateTime (Some \<lparr>dev_i2c = Some hal\<rparr>) (Some t) b = (st, b')" "op_result st = PCA2131_RESULT_OK"
    and same: "\<forall>k<8. regs b2 (PCA2131_REG_100TH_SECONDS + k) = regs b' (PCA2131_REG_100TH_SECONDS + k)"
    and rd: "PCA2131_Driver_ReadDateTime (Some \<lparr>dev_i2c = Some hal\<rparr>) (Some u) b2 = (st2, t2, b3)" "op_result st2 = PCA2131_RESULT_OK"
  shows "t2 = Some (t\<lparr>dt_osf := 0, dt_calendar_valid := 1\<rparr>)"
proof -
  have w: "PCA2131_Driver_IsValidDateTime (Some t)"
    "map (\<lambda>k. regs b' (PCA2131_REG_100TH_SECONDS + k)) [0..<8] = pca_encode_calendar t"
    using rtc_set_registers [OF chip set(1)] set(2) by simp_all
  obtain s e raw b4 where r: "pca_read hal PCA2131_REG_100TH_SECONDS 8 b2 = (s, e, raw, b4)" by (metis prod.exhaust)
  with rd have ok: "s = HAL_OK" "t2 = Some (pca_decode_calendar raw)"
    by (auto simp: PCA2131_Driver_ReadDateTime_def pca_bus_def PCA2131_CreateStatus_def split: if_splits)
  have "raw = map (\<lambda>k. regs b2 (PCA2131_REG_100TH_SECONDS + k)) [0..<8]" by (rule pca_chip_read(2) [OF chip r ok(1)])
  also have "\<dots> = pca_encode_calendar t" unfolding w(2) [symmetric] using same by simp
  finally show ?thesis using ok(2) calendar_round_trip [OF w(1)] by simp
qed

lemma alarm_read_back:
  assumes chip: "pca_chip hal regs"
    and set: "PCA2131_Driver_WriteAlarm (Some \<lparr>dev_i2c = Some hal\<rparr>) (Some c) b = (st, b')" "op_result st = PCA2131_RESULT_OK"
    and same: "\<forall>k<5. regs b2 (PCA2131_REG_SECOND_ALARM + k) = regs b' (PCA2131_REG_SECOND_ALARM + k)"
      "regs b2 PCA2131_REG_CONTROL_1 = regs b' PCA2131_REG_CONTROL_1"
    and rd: "PCA2131_Driver_ReadAlarm (Some \<lparr>dev_i2c = Some hal\<rparr>) (Some u) b2 = (st2, Some a, b3)" "op_result st2 = PCA2131_RESULT_OK"
  shows "PCA2131_Driver_IsValidAlarmConfig (Some c) \<and> (\<exists>ctl mode. (mode \<longleftrightarrow> ctl ! 0 AND PCA2131_CONTROL1_12_24_BIT \<noteq> 0)
    \<and> a = pca_decode_alarm ctl (pca_encode_alarm c mode))"
proof -
  obtain s0 e0 c1 b0 where r0: "pca_read hal PCA2131_REG_CONTROL_1 1 b = (s0, e0, c1, b0)" by (metis prod.exhaust)
  define mode where "mode = (c1 ! 0 AND PCA2131_CONTROL1_12_24_BIT \<noteq> 0)"
  obtain s1 e1 b1 where w1: "pca_write hal PCA2131_REG_SECOND_ALARM (pca_encode_alarm c mode) b0 = (s1, e1, b1)"
    by (metis prod.exhaust)
  have ok: "PCA2131_Driver_IsValidAlarmConfig (Some c)" "s0 = HAL_OK" "s1 = HAL_OK" "b' = b1"
    using set r0 w1 unfolding PCA2131_Driver_WriteAlarm_def pca_bus_def
    by (auto simp: mode_def [symmetric] PCA2131_CreateStatus_def split: if_splits)
  have w1: "pca_write hal PCA2131_REG_SECOND_ALARM (pca_encode_alarm c mode) b0 = (HAL_OK, e1, b')" using w1 ok by simp
  have len: "length (pca_encode_alarm c mode) = 5" by (simp add: pca_encode_alarm_def)
  have regs': "regs b' (PCA2131_REG_SECOND_ALARM + k) = pca_encode_alarm c mode ! k" if "k < 5" for k
    using pca_chip_write(2) [OF chip w1, of "PCA2131_REG_SECOND_ALARM + k"] that by (simp add: pca_registers len)
  have c1': "c1 ! 0 = regs b PCA2131_REG_CONTROL_1" "regs b0 = regs b"
    using pca_chip_read [OF chip r0] ok(2) by simp_all
  have ctl': "regs b' PCA2131_REG_CONTROL_1 = regs b PCA2131_REG_CONTROL_1"
    using pca_chip_write(2) [OF chip w1, of PCA2131_REG_CONTROL_1] c1'(2) by (simp add: pca_registers)
  obtain s2 e2 ctl b4 where r2: "pca_read hal PCA2131_REG_CONTROL_1 2 b2 = (s2, e2, ctl, b4)" by (metis prod.exhaust)
  obtain s3 e3 raw b5 where r3: "pca_read hal PCA2131_REG_SECOND_ALARM 5 b4 = (s3, e3, raw, b5)" by (metis prod.exhaust)
  have ok2: "s2 = HAL_OK" "s3 = HAL_OK" "a = pca_decode_alarm ctl raw"
    using rd r2 r3 by (auto simp: PCA2131_Driver_ReadAlarm_def pca_bus_def PCA2131_CreateStatus_def split: if_splits)
  have "raw = map (\<lambda>k. regs b2 (PCA2131_REG_SECOND_ALARM + k)) [0..<5]"
    using pca_chip_read(2) [OF chip r3 ok2(2)] pca_chip_read(1) [OF chip r2] by simp
  also have "\<dots> = pca_encode_alarm c mode" using same(1) regs' by (intro nth_equalityI) (simp_all add: len)
  finally have raw: "raw = pca_encode_alarm c mode" .
  have "ctl ! 0 = regs b2 PCA2131_REG_CONTROL_1" using pca_chip_read(2) [OF chip r2 ok2(1)] by (simp add: upt_rec)
  then have "mode = (ctl ! 0 AND PCA2131_CONTROL1_12_24_BIT \<noteq> 0)" using same(2) ctl' c1'(1) by (simp add: mode_def)
  with ok(1) ok2(3) raw show ?thesis by blast
qed

text \<open>
  The write of \<open>Control_2\<close> that acknowledges an alarm clears its flag, and keeps the other two flags,
  whatever they became since they were read, and the interrupt enable that was read.
\<close>

lemma alarm_flag_cleared:
  assumes chip: "pca_chip hal regs"
    and run: "PCA2131_Driver_ClearAlarmFlag (Some \<lparr>dev_i2c = Some hal\<rparr>) b = (st, b')" "op_result st = PCA2131_RESULT_OK"
  shows "regs b' PCA2131_REG_CONTROL_2 AND PCA2131_CONTROL2_AF_BIT = 0"
    "regs b' PCA2131_REG_CONTROL_2 AND 0xC2 = regs b PCA2131_REG_CONTROL_2 AND 0xC2"
proof -
  obtain s0 e0 c2 b0 where r0: "pca_read hal PCA2131_REG_CONTROL_2 1 b = (s0, e0, c2, b0)" by (metis prod.exhaust)
  obtain s1 e1 b1 where w1: "pca_write hal PCA2131_REG_CONTROL_2 [PCA2131_CONTROL2_MSF_BIT OR PCA2131_CONTROL2_WDTF_BIT
      OR (c2 ! 0 AND PCA2131_CONTROL2_AIE_BIT)] b0 = (s1, e1, b1)" by (metis prod.exhaust)
  have ok: "s0 = HAL_OK" "s1 = HAL_OK" "b' = b1"
    using run r0 w1 by (auto simp: PCA2131_Driver_ClearAlarmFlag_def pca_bus_def PCA2131_CreateStatus_def split: if_splits)
  have c: "c2 ! 0 = regs b PCA2131_REG_CONTROL_2" "regs b0 = regs b"
    using pca_chip_read [OF chip r0] ok(1) by simp_all
  define r where "r = regs b PCA2131_REG_CONTROL_2"
  have "regs b' PCA2131_REG_CONTROL_2 = (0x80 OR 0x40 OR (r AND 2)) AND (r OR NOT 0xD0)"
    using pca_chip_write(2) [OF chip w1 [unfolded ok(2)], of PCA2131_REG_CONTROL_2] ok(3) c
    by (simp add: pca_registers pca_bits pca_flags_def r_def)
  also have "\<dots> = r AND (0xC0 OR 2)"
  proof (rule bit_word_eqI)
    fix n assume "n < LENGTH(8)"
    then have "n = 0 \<or> n = 1 \<or> n = 2 \<or> n = 3 \<or> n = 4 \<or> n = 5 \<or> n = 6 \<or> n = 7" by simp linarith
    then show "bit ((0x80 OR 0x40 OR (r AND 2)) AND (r OR NOT 0xD0)) n = bit (r AND (0xC0 OR 2)) n"
      by (elim disjE) (simp_all only: bit_and_iff bit_or_iff bit_not_iff, simp_all add: bit_word_iff_drop_bit_and)
  qed
  finally have eq: "regs b' PCA2131_REG_CONTROL_2 = r AND 0xC2" by simp
  then show "regs b' PCA2131_REG_CONTROL_2 AND PCA2131_CONTROL2_AF_BIT = 0"
    "regs b' PCA2131_REG_CONTROL_2 AND 0xC2 = regs b PCA2131_REG_CONTROL_2 AND 0xC2"
    by (simp_all add: pca_bits and.assoc r_def)
qed

text \<open>
  C30. What is set is what is read: after a successful \<open>PCA2131_Driver_WriteDateTime\<close>, a successful
  \<open>PCA2131_Driver_ReadDateTime\<close> from calendar registers that have not advanced returns the same date,
  with the oscillator-stopped flag clear and the calendar marked valid; and an alarm that was written
  reads back with the same fields, valid, and the same hour in the chip's 12- or 24-hour format.
\<close>

theorem rtc_read_back:
  assumes chip: "pca_chip hal regs"
  shows "(\<forall>t b st b' b2 u st2 t2 b3. PCA2131_Driver_WriteDateTime (Some \<lparr>dev_i2c = Some hal\<rparr>) (Some t) b = (st, b')
      \<and> op_result st = PCA2131_RESULT_OK
      \<and> (\<forall>k<8. regs b2 (PCA2131_REG_100TH_SECONDS + k) = regs b' (PCA2131_REG_100TH_SECONDS + k))
      \<and> PCA2131_Driver_ReadDateTime (Some \<lparr>dev_i2c = Some hal\<rparr>) (Some u) b2 = (st2, t2, b3)
      \<and> op_result st2 = PCA2131_RESULT_OK
      \<longrightarrow> t2 = Some (t\<lparr>dt_osf := 0, dt_calendar_valid := 1\<rparr>))
    \<and> (\<forall>c b st b' b2 u st2 a b3. PCA2131_Driver_WriteAlarm (Some \<lparr>dev_i2c = Some hal\<rparr>) (Some c) b = (st, b')
      \<and> op_result st = PCA2131_RESULT_OK
      \<and> (\<forall>k<5. regs b2 (PCA2131_REG_SECOND_ALARM + k) = regs b' (PCA2131_REG_SECOND_ALARM + k))
      \<and> regs b2 PCA2131_REG_CONTROL_1 = regs b' PCA2131_REG_CONTROL_1
      \<and> PCA2131_Driver_ReadAlarm (Some \<lparr>dev_i2c = Some hal\<rparr>) (Some u) b2 = (st2, Some a, b3)
      \<and> op_result st2 = PCA2131_RESULT_OK
      \<longrightarrow> al_configuration_valid a \<and> al_second a = alarm_field_read (cf_second c)
        \<and> al_minute a = alarm_field_read (cf_minute c) \<and> al_day a = alarm_field_read (cf_day c)
        \<and> al_weekday a = alarm_field_read (cf_weekday c) \<and> af_enabled (al_hour a) = af_enabled (cf_hour c)
        \<and> (af_enabled (cf_hour c) \<noteq> 0 \<longrightarrow> alarm_hour_24 a = af_value (cf_hour c)))"
proof (intro conjI allI impI; elim conjE)
  fix t b st b' b2 u st2 t2 b3
  assume "PCA2131_Driver_WriteDateTime (Some \<lparr>dev_i2c = Some hal\<rparr>) (Some t) b = (st, b')" "op_result st = PCA2131_RESULT_OK"
    "\<forall>k<8. regs b2 (PCA2131_REG_100TH_SECONDS + k) = regs b' (PCA2131_REG_100TH_SECONDS + k)"
    "PCA2131_Driver_ReadDateTime (Some \<lparr>dev_i2c = Some hal\<rparr>) (Some u) b2 = (st2, t2, b3)" "op_result st2 = PCA2131_RESULT_OK"
  then show "t2 = Some (t\<lparr>dt_osf := 0, dt_calendar_valid := 1\<rparr>)" by (rule calendar_read_back [OF chip])
next
  fix c b st b' b2 u st2 a b3
  assume "PCA2131_Driver_WriteAlarm (Some \<lparr>dev_i2c = Some hal\<rparr>) (Some c) b = (st, b')" "op_result st = PCA2131_RESULT_OK"
    "\<forall>k<5. regs b2 (PCA2131_REG_SECOND_ALARM + k) = regs b' (PCA2131_REG_SECOND_ALARM + k)"
    "regs b2 PCA2131_REG_CONTROL_1 = regs b' PCA2131_REG_CONTROL_1"
    "PCA2131_Driver_ReadAlarm (Some \<lparr>dev_i2c = Some hal\<rparr>) (Some u) b2 = (st2, Some a, b3)" "op_result st2 = PCA2131_RESULT_OK"
  from alarm_read_back [OF chip this] pca_alarm_round_trip
  show "al_configuration_valid a" "al_second a = alarm_field_read (cf_second c)"
    "al_minute a = alarm_field_read (cf_minute c)" "al_day a = alarm_field_read (cf_day c)"
    "al_weekday a = alarm_field_read (cf_weekday c)" "af_enabled (al_hour a) = af_enabled (cf_hour c)"
    "af_enabled (cf_hour c) \<noteq> 0 \<Longrightarrow> alarm_hour_24 a = af_value (cf_hour c)"
    by (auto simp: Let_def)
qed

definition demo_alarm :: PCA2131_AlarmConfig where
  "demo_alarm = \<lparr>cf_second = \<lparr>af_enabled = 0, af_value = 30\<rparr>, cf_minute = \<lparr>af_enabled = 1, af_value = 45\<rparr>,
     cf_hour = \<lparr>af_enabled = 1, af_value = 13\<rparr>, cf_day = \<lparr>af_enabled = 1, af_value = 31\<rparr>,
     cf_weekday = \<lparr>af_enabled = 1, af_value = 6\<rparr>\<rparr>"

theorem rtc_read_back_witness:
  "let device = Some \<lparr>dev_i2c = Some sim_hal\<rparr>; b = snd (PCA2131_Driver_WriteDateTime device (Some leap_day) (sim_start 5))
   in fst (snd (PCA2131_Driver_ReadDateTime device (Some leap_day) b)) = Some (leap_day\<lparr>dt_osf := 0, dt_calendar_valid := 1\<rparr>)
     \<and> map_option al_configuration_valid (fst (snd (PCA2131_Driver_ReadAlarm device (Some pca_alarm_zero)
           (snd (PCA2131_Driver_WriteAlarm device (Some demo_alarm) b))))) = Some True"
proof -
  let ?d = "Some \<lparr>dev_i2c = Some sim_hal\<rparr>"
  let ?w = "PCA2131_Driver_WriteDateTime ?d (Some leap_day) (sim_start 5)"
  let ?r = "PCA2131_Driver_ReadDateTime ?d (Some leap_day) (snd ?w)"
  let ?wa = "PCA2131_Driver_WriteAlarm ?d (Some demo_alarm) (snd ?w)"
  let ?ra = "PCA2131_Driver_ReadAlarm ?d (Some pca_alarm_zero) (snd ?wa)"
  have ok: "op_result (fst ?w) = PCA2131_RESULT_OK" "op_result (fst ?r) = PCA2131_RESULT_OK"
    "op_result (fst ?wa) = PCA2131_RESULT_OK" "op_result (fst ?ra) = PCA2131_RESULT_OK" "fst (snd ?ra) \<noteq> None"
    by code_simp+
  obtain st b' where w: "?w = (st, b')" by (metis prod.exhaust)
  obtain st2 t2 b3 where r: "?r = (st2, t2, b3)" by (metis prod.exhaust)
  obtain sa ba where wa: "?wa = (sa, ba)" by (metis prod.exhaust)
  obtain sa2 oa b4 where ra: "?ra = (sa2, oa, b4)" by (metis prod.exhaust)
  obtain a where a: "oa = Some a" using ok(5) ra by auto
  note trip = rtc_read_back [OF sim_chip]
  have "t2 = Some (leap_day\<lparr>dt_osf := 0, dt_calendar_valid := 1\<rparr>)"
    by (rule conjunct1 [OF trip, rule_format]) (use w r ok in auto)
  moreover have "al_configuration_valid a"
    by (rule conjunct1 [OF conjunct2 [OF trip, rule_format]]) (use w r wa ra a ok in auto)
  ultimately show ?thesis using w r wa ra a by (simp add: Let_def)
qed

end
