(* ===== verification/CanCommand.thy ===== *)
theory CanCommand
  imports CanProtocol Pca2131
begin

text \<open>
  The checks of a command frame before it is executed: \<open>src/Core/Src/can_command_validation.c\<close> decides
  whether the eight bytes are a command, \<open>src/Core/Src/can_command_guard.c\<close> whether it needs the physical
  access window. The type \<open>can_command\<close> is what the bytes mean; the validator accepts exactly its members.
\<close>

section \<open>The code\<close>

datatype CAN_CommandValidationResult =
    CAN_COMMAND_VALIDATION_VALID | CAN_COMMAND_VALIDATION_UNKNOWN | CAN_COMMAND_VALIDATION_INVALID_PAYLOAD

definition CAN_PROTOCOL_CMD_SET_SLOT_1 :: u8 where "CAN_PROTOCOL_CMD_SET_SLOT_1 = 0x01"
definition CAN_PROTOCOL_CMD_SET_SLOT_2 :: u8 where "CAN_PROTOCOL_CMD_SET_SLOT_2 = 0x02"
definition CAN_PROTOCOL_CMD_LED_CONTROL :: u8 where "CAN_PROTOCOL_CMD_LED_CONTROL = 0x10"
definition CAN_PROTOCOL_CMD_START_SLOT_1_COUNTER :: u8 where "CAN_PROTOCOL_CMD_START_SLOT_1_COUNTER = 0x11"
definition CAN_PROTOCOL_CMD_START_SLOT_2_COUNTER :: u8 where "CAN_PROTOCOL_CMD_START_SLOT_2_COUNTER = 0x12"
definition CAN_PROTOCOL_CMD_RTC_SET_TIME :: u8 where "CAN_PROTOCOL_CMD_RTC_SET_TIME = 0x20"
definition CAN_PROTOCOL_CMD_RTC_SET_DATETIME :: u8 where "CAN_PROTOCOL_CMD_RTC_SET_DATETIME = 0x21"
definition CAN_PROTOCOL_CMD_RTC_SET_ALARM :: u8 where "CAN_PROTOCOL_CMD_RTC_SET_ALARM = 0x22"
definition CAN_PROTOCOL_CMD_LOG_GET_INFO :: u8 where "CAN_PROTOCOL_CMD_LOG_GET_INFO = 0x30"
definition CAN_PROTOCOL_CMD_LOG_READ_SEQUENCE :: u8 where "CAN_PROTOCOL_CMD_LOG_READ_SEQUENCE = 0x31"
definition CAN_PROTOCOL_CMD_PWM_SET :: u8 where "CAN_PROTOCOL_CMD_PWM_SET = 0x40"
definition CAN_PROTOCOL_CMD_PWM_SELF_TEST :: u8 where "CAN_PROTOCOL_CMD_PWM_SELF_TEST = 0x41"
definition CAN_PROTOCOL_CMD_TIC12400_SET_POLARITY :: u8 where "CAN_PROTOCOL_CMD_TIC12400_SET_POLARITY = 0x50"
definition CAN_PROTOCOL_SLOT_FLAG_ENABLE :: u8 where "CAN_PROTOCOL_SLOT_FLAG_ENABLE = 0x01"
definition CAN_PROTOCOL_SLOT_FLAG_EXTENDED_ID :: u8 where "CAN_PROTOCOL_SLOT_FLAG_EXTENDED_ID = 0x02"

lemmas command_codes = CAN_PROTOCOL_CMD_SET_SLOT_1_def CAN_PROTOCOL_CMD_SET_SLOT_2_def
  CAN_PROTOCOL_CMD_LED_CONTROL_def CAN_PROTOCOL_CMD_START_SLOT_1_COUNTER_def
  CAN_PROTOCOL_CMD_START_SLOT_2_COUNTER_def CAN_PROTOCOL_CMD_RTC_SET_TIME_def
  CAN_PROTOCOL_CMD_RTC_SET_DATETIME_def CAN_PROTOCOL_CMD_RTC_SET_ALARM_def
  CAN_PROTOCOL_CMD_LOG_GET_INFO_def CAN_PROTOCOL_CMD_LOG_READ_SEQUENCE_def CAN_PROTOCOL_CMD_PWM_SET_def
  CAN_PROTOCOL_CMD_PWM_SELF_TEST_def CAN_PROTOCOL_CMD_TIC12400_SET_POLARITY_def

definition invalid_if :: "bool \<Rightarrow> CAN_CommandValidationResult" where
  "invalid_if bad = (if bad then CAN_COMMAND_VALIDATION_INVALID_PAYLOAD else CAN_COMMAND_VALIDATION_VALID)"

definition command_date_time :: "bytes \<Rightarrow> PCA2131_DateTime" where
  "command_date_time p = \<lparr>dt_hundredth = p ! 1, dt_second = p ! 2, dt_minute = p ! 3, dt_hour = p ! 4, dt_day = p ! 5,
     dt_weekday = drop_bit 5 (p ! 6) AND 0x07, dt_month = p ! 6 AND 0x1F, dt_year = p ! 7, dt_osf = 0,
     dt_calendar_valid = 0\<rparr>"

definition CAN_CommandValidation_Validate :: "bytes option \<Rightarrow> CAN_CommandValidationResult" where
  "CAN_CommandValidation_Validate payload = (case payload of None \<Rightarrow> CAN_COMMAND_VALIDATION_INVALID_PAYLOAD
   | Some p \<Rightarrow>
     if p ! 0 = CAN_PROTOCOL_CMD_SET_SLOT_1 \<or> p ! 0 = CAN_PROTOCOL_CMD_SET_SLOT_2 then
       (if p ! 1 AND 0xFC \<noteq> 0 then CAN_COMMAND_VALIDATION_INVALID_PAYLOAD
        else invalid_if (\<not> CAN_Protocol_IsValidId (p ! 1 AND CAN_PROTOCOL_SLOT_FLAG_EXTENDED_ID \<noteq> 0)
            (CAN_Protocol_ReadU32LE p 2) \<or> CAN_Protocol_ReadU16LE p 6 = 0))
     else if p ! 0 = CAN_PROTOCOL_CMD_START_SLOT_1_COUNTER \<or> p ! 0 = CAN_PROTOCOL_CMD_START_SLOT_2_COUNTER then
       invalid_if (p ! 1 \<noteq> 0 \<or> p ! 6 \<noteq> 0 \<or> p ! 7 \<noteq> 0)
     else if p ! 0 = CAN_PROTOCOL_CMD_LED_CONTROL then
       invalid_if (p ! 1 < 1 \<or> p ! 1 > 2 \<or> p ! 2 > 1 \<or> p ! 3 \<noteq> 0 \<or> p ! 4 \<noteq> 0 \<or> p ! 5 \<noteq> 0 \<or> p ! 6 \<noteq> 0 \<or> p ! 7 \<noteq> 0)
     else if p ! 0 = CAN_PROTOCOL_CMD_RTC_SET_TIME then
       invalid_if (p ! 1 > 23 \<or> p ! 2 > 59 \<or> p ! 3 > 59 \<or> p ! 4 \<noteq> 0 \<or> p ! 5 \<noteq> 0 \<or> p ! 6 \<noteq> 0 \<or> p ! 7 \<noteq> 0)
     else if p ! 0 = CAN_PROTOCOL_CMD_RTC_SET_DATETIME then
       invalid_if (\<not> PCA2131_Driver_IsValidDateTime (Some (command_date_time p)))
     else if p ! 0 = CAN_PROTOCOL_CMD_RTC_SET_ALARM then
       invalid_if (CAN_Protocol_DecodeRtcAlarmCommand payload = None)
     else if p ! 0 = CAN_PROTOCOL_CMD_LOG_GET_INFO then
       invalid_if (p ! 1 \<noteq> 0 \<or> p ! 2 \<noteq> 0 \<or> p ! 3 \<noteq> 0 \<or> p ! 4 \<noteq> 0 \<or> p ! 5 \<noteq> 0 \<or> p ! 6 \<noteq> 0 \<or> p ! 7 \<noteq> 0)
     else if p ! 0 = CAN_PROTOCOL_CMD_LOG_READ_SEQUENCE then
       invalid_if (CAN_Protocol_ReadU32LE p 1 = 0 \<or> p ! 5 \<noteq> 0 \<or> p ! 6 \<noteq> 0 \<or> p ! 7 \<noteq> 0)
     else if p ! 0 = CAN_PROTOCOL_CMD_PWM_SET then
       invalid_if (CAN_Protocol_ReadU32LE p 1 > 1000000 \<or> p ! 5 > 100 \<or> p ! 6 \<noteq> 0 \<or> p ! 7 \<noteq> 0)
     else if p ! 0 = CAN_PROTOCOL_CMD_PWM_SELF_TEST then
       invalid_if (p ! 1 > 1 \<or> p ! 2 \<noteq> 0 \<or> p ! 3 \<noteq> 0 \<or> p ! 4 \<noteq> 0 \<or> p ! 5 \<noteq> 0 \<or> p ! 6 \<noteq> 0 \<or> p ! 7 \<noteq> 0)
     else if p ! 0 = CAN_PROTOCOL_CMD_TIC12400_SET_POLARITY then
       invalid_if (CAN_Protocol_DecodeTic12400PolarityCommand payload = None)
     else CAN_COMMAND_VALIDATION_UNKNOWN)"

definition CAN_CommandGuard_IsPrivileged :: "bytes option \<Rightarrow> bool" where
  "CAN_CommandGuard_IsPrivileged payload = (case payload of None \<Rightarrow> False
   | Some p \<Rightarrow>
     if p ! 0 = CAN_PROTOCOL_CMD_LOG_GET_INFO \<or> p ! 0 = CAN_PROTOCOL_CMD_LOG_READ_SEQUENCE then False
     else if p ! 0 = CAN_PROTOCOL_CMD_SET_SLOT_1 \<or> p ! 0 = CAN_PROTOCOL_CMD_SET_SLOT_2
       then (if p ! 1 AND CAN_PROTOCOL_SLOT_FLAG_ENABLE = 0 then False else True)
     else if p ! 0 = CAN_PROTOCOL_CMD_START_SLOT_1_COUNTER \<or> p ! 0 = CAN_PROTOCOL_CMD_START_SLOT_2_COUNTER
       then (if CAN_Protocol_ReadU32LE p 2 = 0 then False else True)
     else if p ! 0 = CAN_PROTOCOL_CMD_LED_CONTROL then (if p ! 2 = 0 then False else True)
     else if p ! 0 = CAN_PROTOCOL_CMD_PWM_SET then (if CAN_Protocol_ReadU32LE p 1 = 0 then False else True)
     else if p ! 0 = CAN_PROTOCOL_CMD_PWM_SELF_TEST then (if p ! 1 = 0 then False else True)
     else if p ! 0 = CAN_PROTOCOL_CMD_TIC12400_SET_POLARITY then True
     else True)"

section \<open>The commands\<close>

text \<open>
  A command with its arguments, when it is well formed, its eight bytes, and whether it puts something
  into operation. The slot, counter and LED commands say which of the two they address.
\<close>

datatype can_command =
    Set_Slot bool bool bool u32 u16
  | Set_Led bool bool
  | Start_Counter bool u32
  | Rtc_Set_Time u8 u8 u8
  | Rtc_Set_DateTime PCA2131_DateTime
  | Rtc_Set_Alarm CAN_Protocol_RtcAlarmCommand
  | Log_Get_Info
  | Log_Read u32
  | Pwm_Set u32 u8
  | Pwm_Self_Test bool
  | Set_Polarity u32

definition alarm_field_ok :: "u8 \<Rightarrow> u8 \<Rightarrow> u8 \<Rightarrow> u8 \<Rightarrow> u8 \<Rightarrow> bool" where
  "alarm_field_ok enabled flag lo hi v \<longleftrightarrow> (if enabled AND flag \<noteq> 0 then lo \<le> v \<and> v \<le> hi else v = 0)"

fun wf_command :: "can_command \<Rightarrow> bool" where
  "wf_command (Set_Slot second enabled extended ident period) \<longleftrightarrow> CAN_Protocol_IsValidId extended ident \<and> period \<noteq> 0"
| "wf_command (Set_Led second on) \<longleftrightarrow> True"
| "wf_command (Start_Counter second start) \<longleftrightarrow> True"
| "wf_command (Rtc_Set_Time h m s) \<longleftrightarrow> h \<le> 23 \<and> m \<le> 59 \<and> s \<le> 59"
| "wf_command (Rtc_Set_DateTime t) \<longleftrightarrow> PCA2131_Driver_IsValidDateTime (Some t) \<and> dt_osf t = 0 \<and> dt_calendar_valid t = 0"
| "wf_command (Rtc_Set_Alarm a) \<longleftrightarrow> ac_enable_mask a AND NOT 0x1F = 0
    \<and> alarm_field_ok (ac_enable_mask a) 0x01 0 59 (ac_second a) \<and> alarm_field_ok (ac_enable_mask a) 0x02 0 59 (ac_minute a)
    \<and> alarm_field_ok (ac_enable_mask a) 0x04 0 23 (ac_hour a) \<and> alarm_field_ok (ac_enable_mask a) 0x08 1 31 (ac_day a)
    \<and> alarm_field_ok (ac_enable_mask a) 0x10 0 6 (ac_weekday a)"
| "wf_command Log_Get_Info \<longleftrightarrow> True"
| "wf_command (Log_Read sequence) \<longleftrightarrow> sequence \<noteq> 0"
| "wf_command (Pwm_Set frequency duty) \<longleftrightarrow> frequency \<le> 1000000 \<and> duty \<le> 100"
| "wf_command (Pwm_Self_Test on) \<longleftrightarrow> True"
| "wf_command (Set_Polarity switches) \<longleftrightarrow> switches AND NOT 0x3FF = 0"

definition le_bytes :: "u32 \<Rightarrow> bytes" where
  "le_bytes v = [ucast v, ucast (drop_bit 8 v), ucast (drop_bit 16 v), ucast (drop_bit 24 v)]"

fun command_bytes :: "can_command \<Rightarrow> bytes" where
  "command_bytes (Set_Slot second enabled extended ident period) =
     [if second then 2 else 1, (if enabled then 1 else 0) OR (if extended then 2 else 0)]
     @ le_bytes ident @ [ucast period, ucast (drop_bit 8 period)]"
| "command_bytes (Set_Led second on) = [0x10, if second then 2 else 1, if on then 1 else 0, 0, 0, 0, 0, 0]"
| "command_bytes (Start_Counter second start) = [if second then 0x12 else 0x11, 0] @ le_bytes start @ [0, 0]"
| "command_bytes (Rtc_Set_Time h m s) = [0x20, h, m, s, 0, 0, 0, 0]"
| "command_bytes (Rtc_Set_DateTime t) = [0x21, dt_hundredth t, dt_second t, dt_minute t, dt_hour t, dt_day t,
     push_bit 5 (dt_weekday t) OR dt_month t, dt_year t]"
| "command_bytes (Rtc_Set_Alarm a) = [0x22, ac_enable_mask a, ac_second a, ac_minute a, ac_hour a, ac_day a, ac_weekday a, 0]"
| "command_bytes Log_Get_Info = [0x30, 0, 0, 0, 0, 0, 0, 0]"
| "command_bytes (Log_Read sequence) = [0x31] @ le_bytes sequence @ [0, 0, 0]"
| "command_bytes (Pwm_Set frequency duty) = [0x40] @ le_bytes frequency @ [duty, 0, 0]"
| "command_bytes (Pwm_Self_Test on) = [0x41, if on then 1 else 0, 0, 0, 0, 0, 0, 0]"
| "command_bytes (Set_Polarity switches) = [0x50, ucast switches, ucast (drop_bit 8 switches), ucast (drop_bit 16 switches), 0, 0, 0, 0]"

fun command_activates :: "can_command \<Rightarrow> bool" where
  "command_activates (Set_Slot _ enabled _ _ _) = enabled"
| "command_activates (Set_Led _ on) = on"
| "command_activates (Start_Counter _ start) = (start \<noteq> 0)"
| "command_activates (Pwm_Set frequency _) = (frequency \<noteq> 0)"
| "command_activates (Pwm_Self_Test on) = on"
| "command_activates Log_Get_Info = False"
| "command_activates (Log_Read _) = False"
| "command_activates _ = True"

text \<open>What the bytes of a command frame mean, without judging them.\<close>

definition read_command :: "bytes \<Rightarrow> can_command option" where
  "read_command p =
   (if p ! 0 = 1 \<or> p ! 0 = 2 then Some (Set_Slot (p ! 0 = 2) (bit (p ! 1) 0) (bit (p ! 1) 1) (read_u32_le p 2) (read_u16_le p 6))
    else if p ! 0 = 0x11 \<or> p ! 0 = 0x12 then Some (Start_Counter (p ! 0 = 0x12) (read_u32_le p 2))
    else if p ! 0 = 0x10 then Some (Set_Led (p ! 1 = 2) (p ! 2 = 1))
    else if p ! 0 = 0x20 then Some (Rtc_Set_Time (p ! 1) (p ! 2) (p ! 3))
    else if p ! 0 = 0x21 then Some (Rtc_Set_DateTime (command_date_time p))
    else if p ! 0 = 0x22 then Some (Rtc_Set_Alarm \<lparr>ac_enable_mask = p ! 1, ac_second = p ! 2, ac_minute = p ! 3,
        ac_hour = p ! 4, ac_day = p ! 5, ac_weekday = p ! 6\<rparr>)
    else if p ! 0 = 0x30 then Some Log_Get_Info
    else if p ! 0 = 0x31 then Some (Log_Read (read_u32_le p 1))
    else if p ! 0 = 0x40 then Some (Pwm_Set (read_u32_le p 1) (p ! 5))
    else if p ! 0 = 0x41 then Some (Pwm_Self_Test (p ! 1 = 1))
    else if p ! 0 = 0x50 then Some (Set_Polarity (read_u24_le p 1))
    else None)"

section \<open>Bytes and fields\<close>

lemma le_bytes_read: "le_bytes (read_u32_le p k) = [p ! k, p ! (k + 1), p ! (k + 2), p ! (k + 3)]"
  using read_u32_le_nth [of 0 p k] read_u32_le_nth [of 1 p k] read_u32_le_nth [of 2 p k] read_u32_le_nth [of 3 p k]
  by (simp add: le_bytes_def)

lemma read_le_bytes:
  "read_u32_le (x # le_bytes v @ r) 1 = v" "read_u32_le (x # y # le_bytes v @ r) 2 = v"
  by (simp_all add: read_u32_le_def le_bytes_def u32_bytes_rejoin)

lemma u16_bytes_read:
  "ucast (read_u16_le p k) = p ! k" "ucast (drop_bit 8 (read_u16_le p k)) = p ! (k + 1)"
  by (rule bit_word_eqI, auto simp: read_u16_le_def bit_simps dest: bit_imp_le_length)+

lemma u24_bytes_read:
  "ucast (read_u24_le p k) = p ! k" "ucast (drop_bit 8 (read_u24_le p k)) = p ! (k + 1)"
  "ucast (drop_bit 16 (read_u24_le p k)) = p ! (k + 2)"
  by (rule bit_word_eqI, auto simp: read_u24_le_def bit_simps dest: bit_imp_le_length)+

text \<open>A property of a byte, decided by evaluating it on all of them.\<close>

lemma u8_exhaust:
  assumes "list_all (\<lambda>n. P (word_of_int n :: u8)) (map int [0..<256])"
  shows "P x"
proof -
  define k where "k = unat x"
  have x: "x = word_of_int (int k)" by (simp add: k_def)
  have "k < 256" by (simp add: k_def)
  then have m: "int k \<in> set (map int [0..<256])" unfolding set_map set_upt by (intro imageI) simp
  show ?thesis using bspec [OF assms [unfolded list_all_iff] m] by (simp only: x)
qed

lemma slot_flags: "(f :: u8) AND 0xFC = 0 \<longrightarrow> (if bit f 0 then 1 else 0) OR (if bit f 1 then 2 else 0) = f"
  by (rule u8_exhaust [of _ f]) code_simp

lemma month_weekday_byte: "push_bit 5 (drop_bit 5 x AND 7) OR (x AND 0x1F) = (x :: u8)"
  by (rule u8_exhaust [of _ x]) code_simp

lemma month_weekday_fields:
  "list_all (\<lambda>w. list_all (\<lambda>m. let x = push_bit 5 (word_of_int w) OR word_of_int m :: u8
     in drop_bit 5 x AND 7 = word_of_int w \<and> x AND 0x1F = word_of_int m) (map int [0..<13])) (map int [0..<7])"
  by code_simp

lemma flag_bits: "(f :: u8) AND 1 = 0 \<longleftrightarrow> \<not> bit f 0" "f AND 2 = 0 \<longleftrightarrow> \<not> bit f 1"
  using and_exp_eq_0_iff_not_bit [of f 0] and_exp_eq_0_iff_not_bit [of f 1] by simp_all

lemma slot_flag_bytes:
  "bit ((if e then 1 else 0) OR (if x then 2 else 0) :: u8) 0 = e"
  "bit ((if e then 1 else 0) OR (if x then 2 else 0) :: u8) 1 = x"
  "((if e then 1 else 0) OR (if x then 2 else 0) :: u8) AND 0xFC = 0"
  by (cases e; cases x; simp add: bit_word_iff_drop_bit_and)+

lemma month_weekday_read:
  assumes "w \<le> 6" "m \<le> 12"
  shows "drop_bit 5 (push_bit 5 w OR m) AND 7 = (w :: u8)" "(push_bit 5 w OR m) AND 0x1F = (m :: u8)"
proof -
  define i j where "i = unat w" and "j = unat m"
  have wm: "w = word_of_int (int i)" "m = word_of_int (int j)" by (simp_all add: i_def j_def)
  have "i < 7" "j < 13" using assms by (simp_all add: word_le_nat_alt i_def j_def)
  then have mem: "int i \<in> set (map int [0..<7])" "int j \<in> set (map int [0..<13])"
    unfolding set_map set_upt by (auto intro: imageI)
  show "drop_bit 5 (push_bit 5 w OR m) AND 7 = w" "(push_bit 5 w OR m) AND 0x1F = m"
    using bspec [OF bspec [OF month_weekday_fields [unfolded list_all_iff] mem(1)] mem(2)]
    unfolding wm [symmetric] Let_def by blast+
qed

lemma low_ten_bits: "v AND NOT 0x3FF = 0 \<Longrightarrow> (v :: u32) AND 0xFFFFFF = v"
proof -
  assume z: "v AND NOT 0x3FF = 0"
  have "v = (v AND 0x3FF) OR (v AND NOT 0x3FF)" by (simp flip: bit.conj_disj_distrib)
  then have "v = v AND 0x3FF" using z by simp
  then have "v AND 0xFFFFFF = (v AND 0x3FF) AND 0xFFFFFF" by simp
  also have "\<dots> = v AND 0x3FF" by (simp add: and.assoc)
  finally show "v AND 0xFFFFFF = v" using \<open>v = v AND 0x3FF\<close> by simp
qed

lemma eight_bytes:
  assumes "length p = 8"
  shows "p = [p ! 0, p ! 1, p ! 2, p ! 3, p ! 4, p ! 5, p ! 6, p ! 7]"
  using assms by (intro nth_equalityI) (auto simp: less_Suc_eq numeral_eq_Suc)

lemma led_numbers: "\<not> (x :: u8) < 1 \<Longrightarrow> \<not> x > 2 \<Longrightarrow> x = 1 \<or> x = 2"
  and led_states: "\<not> (x :: u8) > 1 \<Longrightarrow> x = 0 \<or> x = 1"
  unfolding word_less_nat_alt word_unat_eq_iff by auto

section \<open>Reading back a command\<close>

lemma read_command_bytes:
  assumes "wf_command c"
  shows "read_command (command_bytes c) = Some c" "length (command_bytes c) = 8"
proof -
  show "length (command_bytes c) = 8" by (cases c) (simp_all add: le_bytes_def)
  show "read_command (command_bytes c) = Some c"
  proof (cases c)
    case (Set_Slot second enabled extended ident period)
    have "read_u16_le (command_bytes c) 6 = period"
      by (simp add: Set_Slot read_u16_le_def le_bytes_def u16_bytes_rejoin)
    moreover have "read_u32_le (command_bytes c) 2 = ident"
      by (simp add: Set_Slot read_u32_le_def le_bytes_def u32_bytes_rejoin)
    ultimately show ?thesis using Set_Slot slot_flag_bytes [of enabled extended]
      by (cases second) (simp_all add: read_command_def)
  next
    case (Rtc_Set_DateTime t)
    note b = valid_date_time_bounds [of t]
    have t: "PCA2131_Driver_IsValidDateTime (Some t)" "dt_osf t = 0" "dt_calendar_valid t = 0"
      using assms Rtc_Set_DateTime by simp_all
    show ?thesis using Rtc_Set_DateTime t month_weekday_read [OF b(5,10)]
      by (cases t) (simp add: read_command_def command_date_time_def)
  next
    case (Set_Polarity v)
    have "v AND 0xFFFFFF = v" using assms Set_Polarity by (simp add: low_ten_bits)
    then show ?thesis using Set_Polarity by (simp add: read_command_def read_u24_le_def u24_bytes_rejoin)
  next
    case (Set_Led second on)
    then show ?thesis by (cases second; cases on) (simp_all add: read_command_def)
  next
    case (Start_Counter second start)
    then show ?thesis using read_le_bytes(2) [of _ _ start]
      by (cases second) (simp_all add: read_command_def)
  next
    case (Pwm_Set f d)
    then show ?thesis using read_le_bytes(1) [of "0x40" f "[d, 0, 0]"]
      by (simp add: read_command_def) (simp add: le_bytes_def)
  qed (use assms read_le_bytes(1) in \<open>auto simp: read_command_def\<close>)
qed

lemma alarm_decodes:
  "CAN_Protocol_DecodeRtcAlarmCommand (Some p) \<noteq> None \<longleftrightarrow>
    p ! 7 = 0 \<and> wf_command (Rtc_Set_Alarm \<lparr>ac_enable_mask = p ! 1, ac_second = p ! 2, ac_minute = p ! 3,
      ac_hour = p ! 4, ac_day = p ! 5, ac_weekday = p ! 6\<rparr>)"
proof -
  have field: "(if e AND f \<noteq> 0 then v > hi else v \<noteq> 0) \<longleftrightarrow> \<not> alarm_field_ok e f 0 hi v" for e f hi v
    by (auto simp: alarm_field_ok_def)
  have day: "(if e AND f \<noteq> 0 then v < 1 \<or> v > 31 else v \<noteq> 0) \<longleftrightarrow> \<not> alarm_field_ok e f 1 31 v" for e f v
    unfolding alarm_field_ok_def using one_le_word [of v] by auto
  show ?thesis
    unfolding CAN_Protocol_DecodeRtcAlarmCommand_def alarm_enable_consts option.case Let_def field day wf_command.simps
      CAN_Protocol_RtcAlarmCommand.select_convs
    by (simp split: if_split)
qed

lemma polarity_decodes:
  "CAN_Protocol_DecodeTic12400PolarityCommand (Some p) \<noteq> None \<longleftrightarrow>
    wf_command (Set_Polarity (read_u24_le p 1)) \<and> p ! 4 = 0 \<and> p ! 5 = 0 \<and> p ! 6 = 0 \<and> p ! 7 = 0"
  by (auto simp: CAN_Protocol_DecodeTic12400PolarityCommand_def Let_def read_u24_le_def
      CAN_PROTOCOL_TIC12400_BATTERY_CAPABLE_MASK_def numeral_2_eq_2 numeral_3_eq_3)

text \<open>The three steps that every accepted opcode takes: what it reads as, that this is well formed, its bytes.\<close>

lemma command_found:
  assumes "length p = 8" "read_command p = Some c" "wf_command c"
    and "command_bytes c = [p ! 0, p ! 1, p ! 2, p ! 3, p ! 4, p ! 5, p ! 6, p ! 7]"
  shows "\<exists>c. read_command p = Some c \<and> wf_command c \<and> command_bytes c = p"
  using assms(2-) eight_bytes [OF assms(1)] by auto

lemmas validate_unfold = CAN_CommandValidation_Validate_def option.case command_codes invalid_if_def

lemma le_bytes_at: "le_bytes (read_u32_le p 1) = [p ! 1, p ! 2, p ! 3, p ! 4]"
  "le_bytes (read_u32_le p 2) = [p ! 2, p ! 3, p ! 4, p ! 5]"
  using le_bytes_read [of p 1] le_bytes_read [of p 2] by (simp_all add: eval_nat_numeral)

lemma u24_bytes_at:
  "ucast (read_u24_le p 1) = p ! 1" "ucast (drop_bit 8 (read_u24_le p 1)) = p ! 2" "ucast (drop_bit 16 (read_u24_le p 1)) = p ! 3"
  using u24_bytes_read [of p 1] by (simp_all add: eval_nat_numeral)

lemma valid_slot_command:
  assumes len: "length p = 8" and valid: "CAN_CommandValidation_Validate (Some p) = CAN_COMMAND_VALIDATION_VALID"
    and op: "p ! 0 = 1 \<or> p ! 0 = 2 \<or> p ! 0 = 0x11 \<or> p ! 0 = 0x12"
  shows "\<exists>c. read_command p = Some c \<and> wf_command c \<and> command_bytes c = p"
proof (cases "p ! 0 = 1 \<or> p ! 0 = 2")
  case True
  then have c: "p ! 1 AND 0xFC = 0" "CAN_Protocol_IsValidId (bit (p ! 1) 1) (read_u32_le p 2)" "read_u16_le p 6 \<noteq> 0"
    using valid by (auto simp: validate_unfold protocol_byte_order CAN_PROTOCOL_SLOT_FLAG_EXTENDED_ID_def flag_bits split: if_splits)
  have "(if p ! 0 = 2 then 2 else 1) = p ! 0" using True by auto
  then show ?thesis using c True slot_flags [of "p ! 1"] le_bytes_at(2) u16_bytes_read [of p 6]
    by (intro command_found [OF len, where c = "Set_Slot (p ! 0 = 2) (bit (p ! 1) 0) (bit (p ! 1) 1)
      (read_u32_le p 2) (read_u16_le p 6)"]) (simp_all add: read_command_def)
next
  case False
  then have c: "p ! 1 = 0" "p ! 6 = 0" "p ! 7 = 0" and op: "p ! 0 = 0x11 \<or> p ! 0 = 0x12"
    using op valid by (auto simp: validate_unfold split: if_splits)
  have "(if p ! 0 = 0x12 then 0x12 else 0x11) = p ! 0" using op by auto
  then show ?thesis using c op le_bytes_at(2)
    by (intro command_found [OF len, where c = "Start_Counter (p ! 0 = 0x12) (read_u32_le p 2)"])
      (auto simp: read_command_def)
qed

lemma valid_rtc_command:
  assumes len: "length p = 8" and valid: "CAN_CommandValidation_Validate (Some p) = CAN_COMMAND_VALIDATION_VALID"
    and op: "p ! 0 = 0x20 \<or> p ! 0 = 0x21 \<or> p ! 0 = 0x22"
  shows "\<exists>c. read_command p = Some c \<and> wf_command c \<and> command_bytes c = p"
  using op
proof (elim disjE)
  assume "p ! 0 = 0x20"
  then show ?thesis using valid
    by (intro command_found [OF len, where c = "Rtc_Set_Time (p ! 1) (p ! 2) (p ! 3)"])
      (auto simp: validate_unfold read_command_def not_less split: if_splits)
next
  assume "p ! 0 = 0x21"
  then show ?thesis using valid month_weekday_byte [of "p ! 6"]
    by (intro command_found [OF len, where c = "Rtc_Set_DateTime (command_date_time p)"])
      (auto simp: validate_unfold read_command_def command_date_time_def split: if_splits)
next
  let ?c = "Rtc_Set_Alarm \<lparr>ac_enable_mask = p ! 1, ac_second = p ! 2, ac_minute = p ! 3, ac_hour = p ! 4,
    ac_day = p ! 5, ac_weekday = p ! 6\<rparr>"
  assume op: "p ! 0 = 0x22"
  then have "p ! 7 = 0" "wf_command ?c"
    using valid alarm_decodes [of p] by (auto simp: validate_unfold split: if_splits simp del: wf_command.simps)
  then show ?thesis using op by (intro command_found [OF len, where c = ?c]) (simp_all add: read_command_def)
qed

lemma valid_output_command:
  assumes len: "length p = 8" and valid: "CAN_CommandValidation_Validate (Some p) = CAN_COMMAND_VALIDATION_VALID"
    and op: "p ! 0 = 0x10 \<or> p ! 0 = 0x40 \<or> p ! 0 = 0x41 \<or> p ! 0 = 0x50"
  shows "\<exists>c. read_command p = Some c \<and> wf_command c \<and> command_bytes c = p"
  using op
proof (elim disjE)
  assume op: "p ! 0 = 0x10"
  then have "p ! 1 = 1 \<or> p ! 1 = 2" "p ! 2 = 0 \<or> p ! 2 = 1" "p ! 3 = 0" "p ! 4 = 0" "p ! 5 = 0" "p ! 6 = 0" "p ! 7 = 0"
    using valid led_numbers [of "p ! 1"] led_states [of "p ! 2"] by (auto simp: validate_unfold split: if_splits)
  then show ?thesis using op
    by (intro command_found [OF len, where c = "Set_Led (p ! 1 = 2) (p ! 2 = 1)"]) (auto simp: read_command_def)
next
  assume op: "p ! 0 = 0x40"
  then show ?thesis using valid le_bytes_at(1)
    by (intro command_found [OF len, where c = "Pwm_Set (read_u32_le p 1) (p ! 5)"])
      (auto simp: validate_unfold protocol_byte_order read_command_def not_less split: if_splits)
next
  assume op: "p ! 0 = 0x41"
  then show ?thesis using valid led_states [of "p ! 1"]
    by (intro command_found [OF len, where c = "Pwm_Self_Test (p ! 1 = 1)"])
      (auto simp: validate_unfold read_command_def split: if_splits)
next
  assume op: "p ! 0 = 0x50"
  then have "wf_command (Set_Polarity (read_u24_le p 1))" "p ! 4 = 0" "p ! 5 = 0" "p ! 6 = 0" "p ! 7 = 0"
    using valid polarity_decodes [of p] by (auto simp: validate_unfold split: if_splits simp del: wf_command.simps)
  then show ?thesis using op u24_bytes_at
    by (intro command_found [OF len, where c = "Set_Polarity (read_u24_le p 1)"]) (simp_all add: read_command_def)
qed

lemma valid_log_command:
  assumes len: "length p = 8" and valid: "CAN_CommandValidation_Validate (Some p) = CAN_COMMAND_VALIDATION_VALID"
    and op: "p ! 0 = 0x30 \<or> p ! 0 = 0x31"
  shows "\<exists>c. read_command p = Some c \<and> wf_command c \<and> command_bytes c = p"
  using op
proof (elim disjE)
  assume "p ! 0 = 0x30"
  then show ?thesis using valid
    by (intro command_found [OF len, where c = Log_Get_Info]) (auto simp: validate_unfold read_command_def split: if_splits)
next
  assume "p ! 0 = 0x31"
  then show ?thesis using valid le_bytes_at(1)
    by (intro command_found [OF len, where c = "Log_Read (read_u32_le p 1)"])
      (auto simp: validate_unfold protocol_byte_order read_command_def split: if_splits)
qed

lemma valid_command_read:
  assumes len: "length p = 8" and valid: "CAN_CommandValidation_Validate (Some p) = CAN_COMMAND_VALIDATION_VALID"
  shows "\<exists>c. read_command p = Some c \<and> wf_command c \<and> command_bytes c = p"
proof -
  note v = valid [unfolded validate_unfold]
  have "(p ! 0 = 1 \<or> p ! 0 = 2 \<or> p ! 0 = 0x11 \<or> p ! 0 = 0x12) \<or> (p ! 0 = 0x20 \<or> p ! 0 = 0x21 \<or> p ! 0 = 0x22)
    \<or> (p ! 0 = 0x10 \<or> p ! 0 = 0x40 \<or> p ! 0 = 0x41 \<or> p ! 0 = 0x50) \<or> (p ! 0 = 0x30 \<or> p ! 0 = 0x31)"
    using v by (auto split: if_splits)
  then show ?thesis
    using valid_slot_command [OF assms] valid_rtc_command [OF assms] valid_output_command [OF assms]
      valid_log_command [OF assms] by blast
qed

lemma command_bytes_valid:
  assumes "wf_command c"
  shows "CAN_CommandValidation_Validate (Some (command_bytes c)) = CAN_COMMAND_VALIDATION_VALID"
proof -
  note rd = read_command_bytes(1) [OF assms, unfolded read_command_def]
  show ?thesis
  proof (cases c)
    case (Set_Slot second enabled extended ident period)
    then show ?thesis using rd assms slot_flag_bytes [of enabled extended]
      by (cases second) (simp_all add: validate_unfold protocol_byte_order CAN_PROTOCOL_SLOT_FLAG_EXTENDED_ID_def flag_bits)
  next
    case (Set_Led second on)
    then show ?thesis by (cases second; cases on) (simp_all add: validate_unfold)
  next
    case (Start_Counter second start)
    then show ?thesis by (cases second) (simp_all add: validate_unfold le_bytes_def)
  next
    case (Rtc_Set_Alarm a)
    then show ?thesis using assms alarm_decodes [of "command_bytes c"]
      by (cases a) (auto simp: validate_unfold simp del: wf_command.simps)
  next
    case (Set_Polarity v)
    then show ?thesis using rd assms polarity_decodes [of "command_bytes c"]
      by (auto simp: validate_unfold simp del: wf_command.simps)
  next
    case (Log_Read v)
    then show ?thesis using rd assms by (simp add: validate_unfold protocol_byte_order) (simp add: le_bytes_def)
  next
    case (Pwm_Set v d)
    then show ?thesis using rd assms by (simp add: validate_unfold protocol_byte_order not_less) (simp add: le_bytes_def)
  next
    case (Rtc_Set_DateTime t)
    then show ?thesis using rd assms by (simp add: validate_unfold)
  qed (use assms in \<open>auto simp: validate_unfold not_less\<close>)
qed

lemma command_privileged:
  assumes "wf_command c"
  shows "CAN_CommandGuard_IsPrivileged (Some (command_bytes c)) = command_activates c"
proof -
  note rd = read_command_bytes(1) [OF assms, unfolded read_command_def]
  note unfold = CAN_CommandGuard_IsPrivileged_def option.case command_codes
  show ?thesis
  proof (cases c)
    case (Set_Slot second enabled extended ident period)
    then show ?thesis using rd slot_flag_bytes [of enabled extended]
      by (cases second) (simp_all add: unfold CAN_PROTOCOL_SLOT_FLAG_ENABLE_def flag_bits)
  next
    case (Start_Counter second start)
    then show ?thesis using rd by (cases second) (simp_all add: unfold protocol_byte_order)
  next
    case (Pwm_Set v d)
    then show ?thesis using rd by (simp add: unfold protocol_byte_order)
  qed (simp_all add: unfold)
qed

text \<open>The validator and the meaning agree on which codes are unknown, and the guard holds those privileged.\<close>

lemma unknown_command:
  "CAN_CommandValidation_Validate (Some p) = CAN_COMMAND_VALIDATION_UNKNOWN \<longleftrightarrow> read_command p = None"
proof -
  have i: "invalid_if b \<noteq> CAN_COMMAND_VALIDATION_UNKNOWN" for b by (simp add: invalid_if_def)
  have d: "(if b then x else y) = (z :: CAN_CommandValidationResult) \<longleftrightarrow> (if b then x = z else y = z)"
    "(if b then u else v) = (w :: can_command option) \<longleftrightarrow> (if b then u = w else v = w)" for b x y z u v w
    by simp_all
  show ?thesis
    unfolding CAN_CommandValidation_Validate_def option.case command_codes read_command_def d
    by (simp add: i)
qed

lemma unknown_privileged:
  assumes "read_command p = None"
  shows "CAN_CommandGuard_IsPrivileged (Some p)"
proof -
  have "p ! 0 \<noteq> x" if "x = 1 \<or> x = 2 \<or> x = 0x10 \<or> x = 0x11 \<or> x = 0x12 \<or> x = 0x30 \<or> x = 0x31 \<or> x = 0x40 \<or> x = 0x41" for x
    using that assms by (elim disjE) (force simp: read_command_def)+
  then show ?thesis by (simp add: CAN_CommandGuard_IsPrivileged_def command_codes)
qed

section \<open>Properties\<close>

text \<open>
  C27. The accepted frames are exactly the commands: eight bytes are valid precisely when they are the
  bytes of one well-formed command, and of no other; they are unknown precisely when the first byte is
  none of the command codes.
\<close>

theorem command_frames_exact:
  assumes "length p = 8"
  shows "(CAN_CommandValidation_Validate (Some p) = CAN_COMMAND_VALIDATION_VALID
      \<longleftrightarrow> (\<exists>!c. wf_command c \<and> command_bytes c = p))
    \<and> (CAN_CommandValidation_Validate (Some p) = CAN_COMMAND_VALIDATION_UNKNOWN \<longleftrightarrow> read_command p = None)"
proof (intro conjI iffI)
  assume "CAN_CommandValidation_Validate (Some p) = CAN_COMMAND_VALIDATION_VALID"
  from valid_command_read [OF assms this] obtain c where c: "wf_command c" "command_bytes c = p" by blast
  show "\<exists>!c. wf_command c \<and> command_bytes c = p"
  proof (rule ex1I [of _ c])
    show "wf_command c \<and> command_bytes c = p" using c by blast
    fix d assume "wf_command d \<and> command_bytes d = p"
    then show "d = c" using c read_command_bytes(1) [of d] read_command_bytes(1) [of c] by simp
  qed
next
  assume "\<exists>!c. wf_command c \<and> command_bytes c = p"
  then show "CAN_CommandValidation_Validate (Some p) = CAN_COMMAND_VALIDATION_VALID"
    using command_bytes_valid by blast
next
  assume "CAN_CommandValidation_Validate (Some p) = CAN_COMMAND_VALIDATION_UNKNOWN"
  then show "read_command p = None" by (simp only: unknown_command)
next
  assume "read_command p = None"
  then show "CAN_CommandValidation_Validate (Some p) = CAN_COMMAND_VALIDATION_UNKNOWN" by (simp only: unknown_command)
qed

theorem command_frames_exact_witness:
  "\<exists>!c. wf_command c \<and> command_bytes c = [0x21, 7, 58, 59, 23, 29, 0x42, 28]"
proof -
  have "CAN_CommandValidation_Validate (Some [0x21, 7, 58, 59, 23, 29, 0x42, 28]) = CAN_COMMAND_VALIDATION_VALID"
    by code_simp
  then show ?thesis using command_frames_exact [of "[0x21, 7, 58, 59, 23, 29, 0x42, 28]"] by simp
qed

text \<open>
  C28. What passes without the access window cannot put anything into operation: a frame that is not
  invalid and not privileged is a command that reads the log or switches its slot, counter, LED, PWM or
  self-test off, and every such command passes; a frame with an unknown code is privileged.
\<close>

theorem unprivileged_commands_only_switch_off:
  assumes "length p = 8"
  shows "CAN_CommandValidation_Validate (Some p) \<noteq> CAN_COMMAND_VALIDATION_INVALID_PAYLOAD
      \<and> \<not> CAN_CommandGuard_IsPrivileged (Some p)
    \<longleftrightarrow> (\<exists>c. wf_command c \<and> command_bytes c = p \<and> \<not> command_activates c)"
proof
  assume a: "CAN_CommandValidation_Validate (Some p) \<noteq> CAN_COMMAND_VALIDATION_INVALID_PAYLOAD
    \<and> \<not> CAN_CommandGuard_IsPrivileged (Some p)"
  have "CAN_CommandValidation_Validate (Some p) \<noteq> CAN_COMMAND_VALIDATION_UNKNOWN"
    using a unknown_privileged unknown_command by blast
  with a have "CAN_CommandValidation_Validate (Some p) = CAN_COMMAND_VALIDATION_VALID"
    by (cases "CAN_CommandValidation_Validate (Some p)") auto
  from valid_command_read [OF assms this] obtain c where "wf_command c" "command_bytes c = p" by blast
  then show "\<exists>c. wf_command c \<and> command_bytes c = p \<and> \<not> command_activates c"
    using a command_privileged [of c] by auto
next
  assume "\<exists>c. wf_command c \<and> command_bytes c = p \<and> \<not> command_activates c"
  then show "CAN_CommandValidation_Validate (Some p) \<noteq> CAN_COMMAND_VALIDATION_INVALID_PAYLOAD
    \<and> \<not> CAN_CommandGuard_IsPrivileged (Some p)"
    using command_bytes_valid command_privileged by auto
qed

theorem unprivileged_commands_only_switch_off_witness:
  "\<exists>c. wf_command c \<and> command_bytes c = [0x40, 0, 0, 0, 0, 50, 0, 0] \<and> \<not> command_activates c"
proof -
  have "CAN_CommandValidation_Validate (Some [0x40, 0, 0, 0, 0, 50, 0, 0]) = CAN_COMMAND_VALIDATION_VALID"
    "\<not> CAN_CommandGuard_IsPrivileged (Some [0x40, 0, 0, 0, 0, 50, 0, 0])"
    by code_simp+
  then show ?thesis using unprivileged_commands_only_switch_off [of "[0x40, 0, 0, 0, 0, 50, 0, 0]"] by simp
qed

end
