(* ===== verification/AppControlPolicy.thy ===== *)
theory AppControlPolicy
  imports Prelude
begin

text \<open>
  Who may switch what, \<open>src/Core/Src/app_control_policy.c\<close>: the requests of the host and the switches of the
  vehicle are combined into what is effective, permitted, overridden and blocked. The global snapshot is
  the state; its flag bytes are bytes. The reference is a truth table of the last inputs.
\<close>

section \<open>The code\<close>

record App_ControlPolicySnapshot =
  cp_closed_switch_mask :: u32
  cp_update_count :: u32
  cp_switch_data_valid :: u8
  cp_led_1_requested :: u8
  cp_led_2_requested :: u8
  cp_pwm_requested :: u8
  cp_slot_1_requested :: u8
  cp_slot_2_requested :: u8
  cp_led_1_effective :: u8
  cp_led_2_effective :: u8
  cp_pwm_effective :: u8
  cp_slot_1_effective :: u8
  cp_slot_2_effective :: u8
  cp_pwm_permitted :: u8
  cp_slot_1_permitted :: u8
  cp_slot_2_permitted :: u8
  cp_led_1_overridden :: u8
  cp_pwm_blocked :: u8
  cp_slot_1_blocked :: u8
  cp_slot_2_blocked :: u8

definition APP_CONTROL_POLICY_LED1_INPUT :: nat where "APP_CONTROL_POLICY_LED1_INPUT = 0"
definition APP_CONTROL_POLICY_PWM_INPUT :: nat where "APP_CONTROL_POLICY_PWM_INPUT = 1"
definition APP_CONTROL_POLICY_SLOT1_INPUT :: nat where "APP_CONTROL_POLICY_SLOT1_INPUT = 2"
definition APP_CONTROL_POLICY_SLOT2_INPUT :: nat where "APP_CONTROL_POLICY_SLOT2_INPUT = 3"

lemmas policy_inputs_consts = APP_CONTROL_POLICY_LED1_INPUT_def APP_CONTROL_POLICY_PWM_INPUT_def
  APP_CONTROL_POLICY_SLOT1_INPUT_def APP_CONTROL_POLICY_SLOT2_INPUT_def

definition App_ControlPolicy_IsClosed :: "App_ControlPolicySnapshot \<Rightarrow> nat \<Rightarrow> u8" where
  "App_ControlPolicy_IsClosed g input = (if cp_switch_data_valid g = 0 then 0
     else if cp_closed_switch_mask g AND push_bit input 1 \<noteq> 0 then 1 else 0)"

definition App_ControlPolicy_Recalculate :: "App_ControlPolicySnapshot \<Rightarrow> App_ControlPolicySnapshot" where
  "App_ControlPolicy_Recalculate g =
    (let led_1_override = App_ControlPolicy_IsClosed g APP_CONTROL_POLICY_LED1_INPUT;
         pwm_inhibited = App_ControlPolicy_IsClosed g APP_CONTROL_POLICY_PWM_INPUT;
         slot_1_inhibited = App_ControlPolicy_IsClosed g APP_CONTROL_POLICY_SLOT1_INPUT;
         slot_2_inhibited = App_ControlPolicy_IsClosed g APP_CONTROL_POLICY_SLOT2_INPUT;
         g = g\<lparr>cp_led_1_effective := (if cp_led_1_requested g \<noteq> 0 \<or> led_1_override \<noteq> 0 then 1 else 0),
               cp_led_2_effective := cp_led_2_requested g\<rparr>;
         g = g\<lparr>cp_pwm_permitted := (if cp_switch_data_valid g \<noteq> 0 \<and> pwm_inhibited = 0 then 1 else 0),
               cp_slot_1_permitted := (if cp_switch_data_valid g \<noteq> 0 \<and> slot_1_inhibited = 0 then 1 else 0),
               cp_slot_2_permitted := (if cp_switch_data_valid g \<noteq> 0 \<and> slot_2_inhibited = 0 then 1 else 0)\<rparr>;
         g = g\<lparr>cp_pwm_effective := (if cp_pwm_requested g \<noteq> 0 \<and> cp_pwm_permitted g \<noteq> 0 then 1 else 0),
               cp_slot_1_effective := (if cp_slot_1_requested g \<noteq> 0 \<and> cp_slot_1_permitted g \<noteq> 0 then 1 else 0),
               cp_slot_2_effective := (if cp_slot_2_requested g \<noteq> 0 \<and> cp_slot_2_permitted g \<noteq> 0 then 1 else 0)\<rparr>
     in g\<lparr>cp_led_1_overridden := (if led_1_override \<noteq> 0 \<and> cp_led_1_requested g = 0 then 1 else 0),
          cp_pwm_blocked := (if cp_pwm_requested g \<noteq> 0 \<and> cp_pwm_permitted g = 0 then 1 else 0),
          cp_slot_1_blocked := (if cp_slot_1_requested g \<noteq> 0 \<and> cp_slot_1_permitted g = 0 then 1 else 0),
          cp_slot_2_blocked := (if cp_slot_2_requested g \<noteq> 0 \<and> cp_slot_2_permitted g = 0 then 1 else 0)\<rparr>)"

definition App_ControlPolicy_Init :: App_ControlPolicySnapshot where
  "App_ControlPolicy_Init = \<lparr>cp_closed_switch_mask = 0, cp_update_count = 0, cp_switch_data_valid = 0,
     cp_led_1_requested = 0, cp_led_2_requested = 0, cp_pwm_requested = 0, cp_slot_1_requested = 0,
     cp_slot_2_requested = 0, cp_led_1_effective = 0, cp_led_2_effective = 0, cp_pwm_effective = 0,
     cp_slot_1_effective = 0, cp_slot_2_effective = 0, cp_pwm_permitted = 0, cp_slot_1_permitted = 0,
     cp_slot_2_permitted = 0, cp_led_1_overridden = 0, cp_pwm_blocked = 0, cp_slot_1_blocked = 0,
     cp_slot_2_blocked = 0\<rparr>"

definition App_ControlPolicy_UpdateSwitches ::
  "u8 \<Rightarrow> u32 \<Rightarrow> App_ControlPolicySnapshot \<Rightarrow> App_ControlPolicySnapshot" where
  "App_ControlPolicy_UpdateSwitches data_valid closed_switch_mask g =
    (let normalized_valid = (if data_valid \<noteq> 0 then 1 else 0);
         normalized_mask = (if normalized_valid \<noteq> 0 then closed_switch_mask else 0);
         g = (if cp_switch_data_valid g \<noteq> normalized_valid \<or> cp_closed_switch_mask g \<noteq> normalized_mask
              then g\<lparr>cp_switch_data_valid := normalized_valid, cp_closed_switch_mask := normalized_mask,
                     cp_update_count := cp_update_count g + 1\<rparr>
              else g)
     in App_ControlPolicy_Recalculate g)"

definition App_ControlPolicy_SetLedRequest ::
  "u8 \<Rightarrow> u8 \<Rightarrow> App_ControlPolicySnapshot \<Rightarrow> App_ControlPolicySnapshot" where
  "App_ControlPolicy_SetLedRequest led_number requested_on g =
    (let normalized = (if requested_on \<noteq> 0 then 1 else 0)
     in if led_number = 1 then App_ControlPolicy_Recalculate
          (if cp_led_1_requested g \<noteq> normalized
           then g\<lparr>cp_led_1_requested := normalized, cp_update_count := cp_update_count g + 1\<rparr> else g)
        else if led_number = 2 then App_ControlPolicy_Recalculate
          (if cp_led_2_requested g \<noteq> normalized
           then g\<lparr>cp_led_2_requested := normalized, cp_update_count := cp_update_count g + 1\<rparr> else g)
        else g)"

definition App_ControlPolicy_SetPwmRequest :: "u8 \<Rightarrow> App_ControlPolicySnapshot \<Rightarrow> App_ControlPolicySnapshot" where
  "App_ControlPolicy_SetPwmRequest requested_on g =
    (let normalized = (if requested_on \<noteq> 0 then 1 else 0)
     in App_ControlPolicy_Recalculate
          (if cp_pwm_requested g \<noteq> normalized
           then g\<lparr>cp_pwm_requested := normalized, cp_update_count := cp_update_count g + 1\<rparr> else g))"

definition App_ControlPolicy_SetSlotRequest ::
  "u8 \<Rightarrow> u8 \<Rightarrow> App_ControlPolicySnapshot \<Rightarrow> App_ControlPolicySnapshot" where
  "App_ControlPolicy_SetSlotRequest slot_number requested_on g =
    (let normalized = (if requested_on \<noteq> 0 then 1 else 0)
     in if slot_number = 1 then App_ControlPolicy_Recalculate
          (if cp_slot_1_requested g \<noteq> normalized
           then g\<lparr>cp_slot_1_requested := normalized, cp_update_count := cp_update_count g + 1\<rparr> else g)
        else if slot_number = 2 then App_ControlPolicy_Recalculate
          (if cp_slot_2_requested g \<noteq> normalized
           then g\<lparr>cp_slot_2_requested := normalized, cp_update_count := cp_update_count g + 1\<rparr> else g)
        else g)"

definition App_ControlPolicy_GetSnapshot :: "App_ControlPolicySnapshot \<Rightarrow> App_ControlPolicySnapshot" where
  "App_ControlPolicy_GetSnapshot g = g"

section \<open>The truth table\<close>

text \<open>
  The calls of the interface, what the last of each kind said, as truth values, and the table that says
  what follows from them: switch 0 forces the first LED on, switches 1 to 3 inhibit the PWM and the two
  slots, and without valid switch data these three are inhibited.
\<close>

datatype policy_call = Pc_Switches u8 u32 | Pc_Led u8 u8 | Pc_Pwm u8 | Pc_Slot u8 u8

fun policy_call_run :: "policy_call \<Rightarrow> App_ControlPolicySnapshot \<Rightarrow> App_ControlPolicySnapshot" where
  "policy_call_run (Pc_Switches v m) = App_ControlPolicy_UpdateSwitches v m"
| "policy_call_run (Pc_Led n r) = App_ControlPolicy_SetLedRequest n r"
| "policy_call_run (Pc_Pwm r) = App_ControlPolicy_SetPwmRequest r"
| "policy_call_run (Pc_Slot n r) = App_ControlPolicy_SetSlotRequest n r"

text \<open>The history is a list with the latest call first.\<close>

fun policy_valid :: "policy_call list \<Rightarrow> bool" where
  "policy_valid [] = False"
| "policy_valid (Pc_Switches v m # cs) = (v \<noteq> 0)"
| "policy_valid (c # cs) = policy_valid cs"

fun policy_closed :: "policy_call list \<Rightarrow> u32" where
  "policy_closed [] = 0"
| "policy_closed (Pc_Switches v m # cs) = (if v \<noteq> 0 then m else 0)"
| "policy_closed (c # cs) = policy_closed cs"

fun policy_led :: "u8 \<Rightarrow> policy_call list \<Rightarrow> bool" where
  "policy_led k [] = False"
| "policy_led k (Pc_Led n r # cs) = (if n = k then r \<noteq> 0 else policy_led k cs)"
| "policy_led k (c # cs) = policy_led k cs"

fun policy_pwm :: "policy_call list \<Rightarrow> bool" where
  "policy_pwm [] = False"
| "policy_pwm (Pc_Pwm r # cs) = (r \<noteq> 0)"
| "policy_pwm (c # cs) = policy_pwm cs"

fun policy_slot :: "u8 \<Rightarrow> policy_call list \<Rightarrow> bool" where
  "policy_slot k [] = False"
| "policy_slot k (Pc_Slot n r # cs) = (if n = k then r \<noteq> 0 else policy_slot k cs)"
| "policy_slot k (c # cs) = policy_slot k cs"

definition policy_inputs :: "policy_call list \<Rightarrow> bool \<times> u32 \<times> bool \<times> bool \<times> bool \<times> bool \<times> bool" where
  "policy_inputs cs = (policy_valid cs, policy_closed cs, policy_led 1 cs, policy_led 2 cs, policy_pwm cs,
     policy_slot 1 cs, policy_slot 2 cs)"

fun policy_changes :: "policy_call list \<Rightarrow> nat" where
  "policy_changes [] = 0"
| "policy_changes (c # cs) = (if policy_inputs (c # cs) = policy_inputs cs then 0 else 1) + policy_changes cs"

definition policy_table :: "policy_call list \<Rightarrow> App_ControlPolicySnapshot" where
  "policy_table cs =
    (let valid = policy_valid cs; closed = bit (policy_closed cs);
         led_1 = policy_led 1 cs; led_2 = policy_led 2 cs; pwm = policy_pwm cs;
         slot_1 = policy_slot 1 cs; slot_2 = policy_slot 2 cs
     in \<lparr>cp_closed_switch_mask = policy_closed cs, cp_update_count = of_nat (policy_changes cs),
       cp_switch_data_valid = of_bool valid,
       cp_led_1_requested = of_bool led_1, cp_led_2_requested = of_bool led_2, cp_pwm_requested = of_bool pwm,
       cp_slot_1_requested = of_bool slot_1, cp_slot_2_requested = of_bool slot_2,
       cp_led_1_effective = of_bool (led_1 \<or> valid \<and> closed 0), cp_led_2_effective = of_bool led_2,
       cp_pwm_effective = of_bool (pwm \<and> valid \<and> \<not> closed 1),
       cp_slot_1_effective = of_bool (slot_1 \<and> valid \<and> \<not> closed 2),
       cp_slot_2_effective = of_bool (slot_2 \<and> valid \<and> \<not> closed 3),
       cp_pwm_permitted = of_bool (valid \<and> \<not> closed 1), cp_slot_1_permitted = of_bool (valid \<and> \<not> closed 2),
       cp_slot_2_permitted = of_bool (valid \<and> \<not> closed 3),
       cp_led_1_overridden = of_bool (valid \<and> closed 0 \<and> \<not> led_1),
       cp_pwm_blocked = of_bool (pwm \<and> \<not> (valid \<and> \<not> closed 1)),
       cp_slot_1_blocked = of_bool (slot_1 \<and> \<not> (valid \<and> \<not> closed 2)),
       cp_slot_2_blocked = of_bool (slot_2 \<and> \<not> (valid \<and> \<not> closed 3))\<rparr>)"

lemma policy_closed_bit:
  "App_ControlPolicy_IsClosed g k = (if cp_switch_data_valid g \<noteq> 0 \<and> bit (cp_closed_switch_mask g) k then 1 else 0)"
  unfolding App_ControlPolicy_IsClosed_def push_bit_eq_mult mult_1 and_exp_eq_0_iff_not_bit by simp

text \<open>Recalculating completes any snapshot whose inputs and count are those of the history.\<close>

lemma policy_recalculated:
  assumes "cp_closed_switch_mask g = policy_closed cs" "cp_update_count g = of_nat (policy_changes cs)"
    "cp_switch_data_valid g = of_bool (policy_valid cs)" "cp_led_1_requested g = of_bool (policy_led 1 cs)"
    "cp_led_2_requested g = of_bool (policy_led 2 cs)" "cp_pwm_requested g = of_bool (policy_pwm cs)"
    "cp_slot_1_requested g = of_bool (policy_slot 1 cs)" "cp_slot_2_requested g = of_bool (policy_slot 2 cs)"
  shows "App_ControlPolicy_Recalculate g = policy_table cs"
  using assms
  by (cases g) (auto simp: App_ControlPolicy_Recalculate_def policy_table_def policy_closed_bit Let_def
      policy_inputs_consts of_bool_def)

lemma policy_table_fields:
  "cp_closed_switch_mask (policy_table cs) = policy_closed cs"
  "cp_update_count (policy_table cs) = of_nat (policy_changes cs)"
  "cp_switch_data_valid (policy_table cs) = of_bool (policy_valid cs)"
  "cp_led_1_requested (policy_table cs) = of_bool (policy_led 1 cs)"
  "cp_led_2_requested (policy_table cs) = of_bool (policy_led 2 cs)"
  "cp_pwm_requested (policy_table cs) = of_bool (policy_pwm cs)"
  "cp_slot_1_requested (policy_table cs) = of_bool (policy_slot 1 cs)"
  "cp_slot_2_requested (policy_table cs) = of_bool (policy_slot 2 cs)"
  by (simp_all add: policy_table_def Let_def)

lemma policy_invalid_open: "\<not> policy_valid cs \<Longrightarrow> policy_closed cs = 0"
  by (induction cs rule: policy_valid.induct) auto

lemma two_one: "((2 :: u8) = 1) = False"
  by simp

lemma policy_step: "policy_call_run c (policy_table cs) = policy_table (c # cs)"
proof (cases c)
  case (Pc_Switches v m)
  show ?thesis unfolding Pc_Switches policy_call_run.simps App_ControlPolicy_UpdateSwitches_def Let_def
    by (rule policy_recalculated; cases "policy_valid cs")
      (auto simp: policy_table_fields policy_inputs_def policy_invalid_open)
next
  case (Pc_Pwm r)
  show ?thesis unfolding Pc_Pwm policy_call_run.simps App_ControlPolicy_SetPwmRequest_def Let_def
    by (rule policy_recalculated) (auto simp: policy_table_fields policy_inputs_def)
next
  case (Pc_Led n r)
  consider "n = 1" | "n = 2" | "n \<noteq> 1" "n \<noteq> 2" by blast
  then show ?thesis
  proof cases
    case 3
    then show ?thesis using Pc_Led by (simp add: App_ControlPolicy_SetLedRequest_def policy_table_def policy_inputs_def)
  qed (unfold Pc_Led policy_call_run.simps App_ControlPolicy_SetLedRequest_def Let_def, simp_all only: refl two_one if_True if_False,
      (rule policy_recalculated; auto simp: policy_table_fields policy_inputs_def)+)
next
  case (Pc_Slot n r)
  consider "n = 1" | "n = 2" | "n \<noteq> 1" "n \<noteq> 2" by blast
  then show ?thesis
  proof cases
    case 3
    then show ?thesis using Pc_Slot by (simp add: App_ControlPolicy_SetSlotRequest_def policy_table_def policy_inputs_def)
  qed (unfold Pc_Slot policy_call_run.simps App_ControlPolicy_SetSlotRequest_def Let_def, simp_all only: refl two_one if_True if_False,
      (rule policy_recalculated; auto simp: policy_table_fields policy_inputs_def)+)
qed

text \<open>
  C33. The control policy is its truth table: after any sequence of calls from initialisation the
  snapshot is the one the table gives for the last switch data and the last request of each output,
  including which requests are blocked or overridden, and its update count is the number of calls
  that changed an input.
\<close>

theorem control_policy_is_truth_table:
  "App_ControlPolicy_GetSnapshot (foldr policy_call_run cs App_ControlPolicy_Init) = policy_table cs"
proof (induction cs)
  case Nil
  show ?case by (simp add: App_ControlPolicy_GetSnapshot_def App_ControlPolicy_Init_def policy_table_def Let_def)
next
  case (Cons c cs)
  then show ?case by (simp add: App_ControlPolicy_GetSnapshot_def policy_step)
qed

end
