(* ===== verification/CanControlAccess.thy ===== *)
theory CanControlAccess
  imports Prelude
begin

text \<open>
  The service window that the physical button opens, \<open>src/Core/Src/can_control_access.c\<close>: the interrupt
  counts presses, the main loop turns them into a window of four minutes on a wrapping clock. The
  reference keeps the time at which the window was opened, on an unbounded clock.
\<close>

section \<open>The code\<close>

record CAN_ControlAccess =
  ca_request_count :: u32
  ca_handled_request_count :: u32
  ca_active :: bool
  ca_deadline :: u32

datatype CAN_ControlAccessUpdate = CAN_CONTROL_ACCESS_NO_CHANGE | CAN_CONTROL_ACCESS_OPENED | CAN_CONTROL_ACCESS_EXPIRED

definition CAN_CONTROL_ACCESS_WINDOW_MS :: u32 where "CAN_CONTROL_ACCESS_WINDOW_MS = 240000"

definition CAN_ControlAccess_Init :: "CAN_ControlAccess option \<Rightarrow> CAN_ControlAccess option" where
  "CAN_ControlAccess_Init state = map_option (\<lambda>s. s\<lparr>ca_request_count := 0, ca_handled_request_count := 0,
     ca_active := False, ca_deadline := 0\<rparr>) state"

definition CAN_ControlAccess_RequestFromIsr :: "CAN_ControlAccess option \<Rightarrow> CAN_ControlAccess option" where
  "CAN_ControlAccess_RequestFromIsr state = map_option (\<lambda>s. s\<lparr>ca_request_count := ca_request_count s + 1\<rparr>) state"

definition CAN_ControlAccess_Update ::
  "CAN_ControlAccess option \<Rightarrow> u32 \<Rightarrow> CAN_ControlAccessUpdate \<times> CAN_ControlAccess option" where
  "CAN_ControlAccess_Update state now = (case state of None \<Rightarrow> (CAN_CONTROL_ACCESS_NO_CHANGE, None)
   | Some s \<Rightarrow>
     if ca_request_count s \<noteq> ca_handled_request_count s
     then (CAN_CONTROL_ACCESS_OPENED, Some (s\<lparr>ca_handled_request_count := ca_request_count s, ca_active := True,
       ca_deadline := now + CAN_CONTROL_ACCESS_WINDOW_MS\<rparr>))
     else if ca_active s \<and> sint (ca_deadline s - now) \<le> 0
     then (CAN_CONTROL_ACCESS_EXPIRED, Some (s\<lparr>ca_active := False\<rparr>))
     else (CAN_CONTROL_ACCESS_NO_CHANGE, Some s))"

definition CAN_ControlAccess_IsOpen :: "CAN_ControlAccess option \<Rightarrow> bool" where
  "CAN_ControlAccess_IsOpen state = (case state of None \<Rightarrow> False | Some s \<Rightarrow> ca_active s)"

definition CAN_ControlAccess_RemainingMs :: "CAN_ControlAccess option \<Rightarrow> u32 \<Rightarrow> u32" where
  "CAN_ControlAccess_RemainingMs state now = (case state of None \<Rightarrow> 0
   | Some s \<Rightarrow> if \<not> ca_active s \<or> sint (ca_deadline s - now) \<le> 0 then 0 else ca_deadline s - now)"

section \<open>The window on an unbounded clock\<close>

text \<open>Button presses and updates with their time in milliseconds, the latest first.\<close>

datatype access_call = Ca_Press | Ca_Update nat

fun access_call_run :: "access_call \<Rightarrow> CAN_ControlAccess option \<Rightarrow> CAN_ControlAccess option" where
  "access_call_run Ca_Press st = CAN_ControlAccess_RequestFromIsr st"
| "access_call_run (Ca_Update t) st = snd (CAN_ControlAccess_Update st (of_nat t))"

fun access_presses :: "access_call list \<Rightarrow> nat" where
  "access_presses [] = 0"
| "access_presses (Ca_Press # cs) = Suc (access_presses cs)"
| "access_presses (Ca_Update t # cs) = 0"

fun access_opened_at :: "access_call list \<Rightarrow> nat option" where
  "access_opened_at [] = None"
| "access_opened_at (Ca_Press # cs) = access_opened_at cs"
| "access_opened_at (Ca_Update t # cs) = (if access_presses cs \<noteq> 0 then Some t
     else case access_opened_at cs of None \<Rightarrow> None | Some s \<Rightarrow> if t < s + 240000 then Some s else None)"

fun access_time :: "access_call list \<Rightarrow> nat" where
  "access_time [] = 0"
| "access_time (Ca_Press # cs) = access_time cs"
| "access_time (Ca_Update t # cs) = t"

text \<open>
  Updates come in the order of time, at most \<open>2 ^ 31\<close> milliseconds (24 days) apart, with fewer than
  \<open>2 ^ 32\<close> presses between two of them.
\<close>

fun access_timed :: "access_call list \<Rightarrow> bool" where
  "access_timed [] = True"
| "access_timed (Ca_Press # cs) \<longleftrightarrow> access_timed cs \<and> Suc (access_presses cs) < 2 ^ 32"
| "access_timed (Ca_Update t # cs) \<longleftrightarrow> access_timed cs \<and> access_time cs \<le> t \<and> t \<le> access_time cs + 2 ^ 31"

lemma access_expiry:
  assumes "s \<le> n" "n < s + 240000" "n \<le> t" "t \<le> n + 2 ^ 31"
  shows "sint (of_nat s + 240000 - of_nat t :: u32) \<le> 0 \<longleftrightarrow> s + 240000 \<le> t"
    "t < s + 240000 \<Longrightarrow> of_nat s + 240000 - of_nat t = (of_nat (s + 240000 - t) :: u32)"
proof -
  show eq: "of_nat s + 240000 - of_nat t = (of_nat (s + 240000 - t) :: u32)" if "t < s + 240000"
    using that by (simp add: of_nat_diff)
  show "sint (of_nat s + 240000 - of_nat t :: u32) \<le> 0 \<longleftrightarrow> s + 240000 \<le> t"
  proof (cases "t < s + 240000")
    case True
    have small: "s + 240000 - t < 2 ^ 31" "0 < s + 240000 - t" using assms True by simp_all
    then have "unat (of_nat (s + 240000 - t) :: u32) = s + 240000 - t"
      unfolding unat_of_nat by simp
    then show ?thesis unfolding eq [OF True] sint_u32 using small True by simp
  next
    case False
    define d where "d = t - (s + 240000)"
    have d: "d < 2 ^ 31" "of_nat s + 240000 - of_nat t = (0 - of_nat d :: u32)"
      using assms False by (simp_all add: d_def of_nat_diff)
    have u: "unat (of_nat d :: u32) = d" unfolding unat_of_nat using d(1) by simp
    have "unat (0 - of_nat d :: u32) = (if d = 0 then 0 else 2 ^ 32 - d)"
      using u d(1) by (subst unat_sub_if') auto
    then have "sint (0 - of_nat d :: u32) \<le> 0" unfolding sint_u32 using d(1) by auto
    then show ?thesis using d(2) False by simp
  qed
qed

definition access_holds :: "access_call list \<Rightarrow> CAN_ControlAccess \<Rightarrow> bool" where
  "access_holds cs s \<longleftrightarrow> ca_request_count s = ca_handled_request_count s + of_nat (access_presses cs)
     \<and> access_presses cs < 2 ^ 32
     \<and> (case access_opened_at cs of None \<Rightarrow> \<not> ca_active s
        | Some since \<Rightarrow> ca_active s \<and> ca_deadline s = of_nat since + 240000 \<and> since \<le> access_time cs
            \<and> access_time cs < since + 240000)"

lemma access_holds_update:
  assumes h: "access_holds cs s" and t: "access_time cs \<le> t" "t \<le> access_time cs + 2 ^ 31"
  shows "\<exists>s'. snd (CAN_ControlAccess_Update (Some s) (of_nat t)) = Some s' \<and> access_holds (Ca_Update t # cs) s'"
proof (cases "access_presses cs = 0")
  case False
  have "access_presses cs < 2 ^ 32" using h by (simp add: access_holds_def)
  then have "unat (of_nat (access_presses cs) :: u32) = access_presses cs" unfolding unat_of_nat by simp
  then have "(of_nat (access_presses cs) :: u32) \<noteq> 0" using False by force
  then show ?thesis using h False
    by (auto simp: access_holds_def CAN_ControlAccess_Update_def CAN_CONTROL_ACCESS_WINDOW_MS_def)
next
  case True
  show ?thesis
  proof (cases "access_opened_at cs")
    case None
    then show ?thesis using h True by (simp add: access_holds_def CAN_ControlAccess_Update_def)
  next
    case (Some since)
    then have f: "ca_active s" "ca_deadline s = of_nat since + 240000" "since \<le> access_time cs"
      "access_time cs < since + 240000" "ca_request_count s = ca_handled_request_count s"
      using h True by (simp_all add: access_holds_def)
    note e = access_expiry(1) [OF f(3,4) t]
    show ?thesis using f t True Some e
      by (cases "t < since + 240000") (auto simp: access_holds_def CAN_ControlAccess_Update_def)
  qed
qed

lemma access_run_holds:
  assumes "access_timed cs"
  shows "\<exists>s. foldr access_call_run cs (CAN_ControlAccess_Init (Some z)) = Some s \<and> access_holds cs s"
  using assms
proof (induction cs)
  case Nil
  show ?case by (simp add: CAN_ControlAccess_Init_def access_holds_def)
next
  case (Cons c cs)
  then obtain s where s: "foldr access_call_run cs (CAN_ControlAccess_Init (Some z)) = Some s" "access_holds cs s"
    by (cases c) auto
  show ?case
  proof (cases c)
    case Ca_Press
    then show ?thesis using s Cons.prems
      by (auto simp: access_holds_def CAN_ControlAccess_RequestFromIsr_def split: option.splits)
  next
    case (Ca_Update t)
    then show ?thesis using s Cons.prems access_holds_update [OF s(2), of t] by auto
  qed
qed

lemma access_opened_by_press:
  "access_opened_at cs = Some since \<Longrightarrow> Ca_Press \<in> set cs \<and> Ca_Update since \<in> set cs"
proof (induction cs)
  case (Cons c cs)
  have "access_presses cs \<noteq> 0 \<Longrightarrow> Ca_Press \<in> set cs"
    by (cases cs rule: access_presses.cases) auto
  with Cons show ?case by (cases c) (auto split: if_splits option.splits)
qed simp

text \<open>
  C34. The access window: after any presses and updates the window is open exactly when an update that
  followed a press opened it less than four minutes before the latest update, although the clock and
  the press counter wrap; the remaining time reported at any later moment is what is left of the four
  minutes, never more than 240000, and it is zero when the window is closed or over.
\<close>

theorem access_window_exact:
  assumes "access_timed cs" and "access_time cs \<le> t" "t \<le> access_time cs + 2 ^ 31"
  shows "let st = foldr access_call_run cs (CAN_ControlAccess_Init (Some z))
    in (CAN_ControlAccess_IsOpen st \<longleftrightarrow> access_opened_at cs \<noteq> None)
      \<and> CAN_ControlAccess_RemainingMs st (of_nat t)
        = (case access_opened_at cs of None \<Rightarrow> 0 | Some since \<Rightarrow> of_nat (since + 240000 - t))
      \<and> CAN_ControlAccess_RemainingMs st (of_nat t) \<le> CAN_CONTROL_ACCESS_WINDOW_MS
      \<and> (\<forall>since. access_opened_at cs = Some since \<longrightarrow> Ca_Press \<in> set cs \<and> Ca_Update since \<in> set cs
          \<and> since \<le> access_time cs \<and> access_time cs < since + 240000)"
proof -
  obtain s where s: "foldr access_call_run cs (CAN_ControlAccess_Init (Some z)) = Some s" "access_holds cs s"
    using access_run_holds [OF assms(1)] by blast
  show ?thesis
  proof (cases "access_opened_at cs")
    case None
    then show ?thesis using s
      by (simp add: access_holds_def CAN_ControlAccess_IsOpen_def CAN_ControlAccess_RemainingMs_def)
  next
    case (Some since)
    then have f: "ca_active s" "ca_deadline s = of_nat since + 240000" "since \<le> access_time cs"
      "access_time cs < since + 240000"
      using s by (simp_all add: access_holds_def)
    note e = access_expiry [OF f(3,4) assms(2,3)]
    have rem: "CAN_ControlAccess_RemainingMs (Some s) (of_nat t) = of_nat (since + 240000 - t)"
      using f e by (auto simp: CAN_ControlAccess_RemainingMs_def not_le simp del: of_nat_diff)
    have "since + 240000 - t \<le> 240000" using f(3) assms(2) by simp
    then have "(of_nat (since + 240000 - t) :: u32) \<le> 240000"
      unfolding word_le_nat_alt unat_of_nat by simp
    then show ?thesis using s(1) f(3,4) Some rem access_opened_by_press [OF Some]
      by (simp add: CAN_ControlAccess_IsOpen_def f CAN_CONTROL_ACCESS_WINDOW_MS_def del: of_nat_diff)
  qed
qed

definition demo_presses :: "access_call list" where
  "demo_presses = [Ca_Update 4295199999, Ca_Update 4295000000, Ca_Update 4294960000, Ca_Press, Ca_Update 2147483648]"

theorem access_window_exact_witness:
  "CAN_ControlAccess_IsOpen (foldr access_call_run demo_presses (CAN_ControlAccess_Init (Some
     \<lparr>ca_request_count = 7, ca_handled_request_count = 3, ca_active = True, ca_deadline = 5\<rparr>)))
   \<and> CAN_ControlAccess_RemainingMs (foldr access_call_run demo_presses (CAN_ControlAccess_Init (Some
     \<lparr>ca_request_count = 7, ca_handled_request_count = 3, ca_active = True, ca_deadline = 5\<rparr>))) (of_nat 4295199999) = 1"
proof -
  have "access_timed demo_presses" "access_time demo_presses = 4295199999" "access_opened_at demo_presses = Some 4294960000"
    by (simp_all add: demo_presses_def)
  then show ?thesis
    using access_window_exact [of demo_presses 4295199999 "\<lparr>ca_request_count = 7, ca_handled_request_count = 3, ca_active = True, ca_deadline = 5\<rparr>"]
    by (simp add: Let_def)
qed

end
