(* ===== verification/CanRecovery.thy ===== *)
theory CanRecovery
  imports Pca2131 AppLog AppDiagnostics
begin

text \<open>
  Bus-off recovery: \<open>src/Core/Src/can_recovery.c\<close>. The statics of the file are one record; the calls of the
  HAL, the log and the two error registers are a record of functions on a state of any type. The interrupt
  callbacks are operations of their own that run between the calls of the main loop. The lemmas show that
  a recovery is reported only for a bus that carried a frame after a complete restart.
\<close>

section \<open>Data\<close>

definition CAN_RECOVERY_RETRY_INTERVAL_MS :: u32 where "CAN_RECOVERY_RETRY_INTERVAL_MS = 200"
definition CAN_RECOVERY_TX_BUFFER_MASK :: u32 where "CAN_RECOVERY_TX_BUFFER_MASK = 0xFFFFFFFF"
definition FDCAN1 :: u32 where "FDCAN1 = 0x4000A000"
definition FDCAN_IT_RX_FIFO0_NEW_MESSAGE :: u32 where "FDCAN_IT_RX_FIFO0_NEW_MESSAGE = 0x1"
definition FDCAN_IT_RX_FIFO0_WATERMARK :: u32 where "FDCAN_IT_RX_FIFO0_WATERMARK = 0x2"
definition FDCAN_IT_RX_FIFO0_FULL :: u32 where "FDCAN_IT_RX_FIFO0_FULL = 0x4"
definition FDCAN_IT_RX_FIFO0_MESSAGE_LOST :: u32 where "FDCAN_IT_RX_FIFO0_MESSAGE_LOST = 0x8"
definition FDCAN_IT_TX_COMPLETE :: u32 where "FDCAN_IT_TX_COMPLETE = 0x200"
definition FDCAN_IT_ERROR_PASSIVE :: u32 where "FDCAN_IT_ERROR_PASSIVE = 0x800000"
definition FDCAN_IT_BUS_OFF :: u32 where "FDCAN_IT_BUS_OFF = 0x2000000"
definition APP_LOG_SEVERITY_INFO :: u32 where "APP_LOG_SEVERITY_INFO = 0"
definition APP_LOG_EVENT_CAN_BUS_OFF :: u32 where "APP_LOG_EVENT_CAN_BUS_OFF = 0x0100"
definition APP_LOG_EVENT_CAN_RECOVERY_OK :: u32 where "APP_LOG_EVENT_CAN_RECOVERY_OK = 0x0101"
definition APP_LOG_EVENT_CAN_RECOVERY_FAILED :: u32 where "APP_LOG_EVENT_CAN_RECOVERY_FAILED = 0x0102"
definition APP_LOG_EVENT_CAN_ERROR_PASSIVE :: u32 where "APP_LOG_EVENT_CAN_ERROR_PASSIVE = 0x0106"

datatype CAN_Recovery_Step = CAN_RECOVERY_STEP_NONE | CAN_RECOVERY_STEP_STOP | CAN_RECOVERY_STEP_START
  | CAN_RECOVERY_STEP_NOTIFICATION

datatype CAN_Recovery_Phase = CAN_RECOVERY_PHASE_STOP | CAN_RECOVERY_PHASE_START | CAN_RECOVERY_PHASE_NOTIFICATION

fun can_recovery_step_code :: "CAN_Recovery_Step \<Rightarrow> u32" where
  "can_recovery_step_code CAN_RECOVERY_STEP_NONE = 0"
| "can_recovery_step_code CAN_RECOVERY_STEP_STOP = 1"
| "can_recovery_step_code CAN_RECOVERY_STEP_START = 2"
| "can_recovery_step_code CAN_RECOVERY_STEP_NOTIFICATION = 3"

fun hal_status_code :: "HAL_Status \<Rightarrow> u32" where
  "hal_status_code HAL_OK = 0"
| "hal_status_code HAL_ERROR = 1"
| "hal_status_code HAL_BUSY = 2"
| "hal_status_code HAL_TIMEOUT = 3"

record CAN_Recovery_Stats =
  cr_bus_off_events :: u32
  cr_recovery_attempts :: u32
  cr_recovery_successes :: u32
  cr_recovery_failures :: u32
  cr_verification_failures :: u32
  cr_tx_complete_events :: u32
  cr_retry_interval_ms :: u32
  cr_bus_off_log_records :: u32
  cr_bus_off_log_suppressed :: u32
  cr_error_passive_log_records :: u32
  cr_error_passive_log_suppressed :: u32
  cr_last_hal_status :: HAL_Status
  cr_last_failed_step :: CAN_Recovery_Step
  cr_recovery_pending :: u8
  cr_verification_pending :: u8

record CAN_Recovery =
  bus_off_event_count :: u32
  last_bus_off_psr :: u32
  last_bus_off_ecr :: u32
  error_passive_event_count :: u32
  last_error_passive_psr :: u32
  last_error_passive_ecr :: u32
  tx_complete_event_count :: u32
  handled_bus_off_event_count :: u32
  scheduled_bus_off_event_count :: u32
  logged_bus_off_event_count :: u32
  logged_error_passive_event_count :: u32
  verification_bus_off_event_count :: u32
  verification_tx_complete_snapshot :: u32
  next_recovery_attempt_tick :: u32
  recovery_verification_pending :: bool
  bus_off_fault_episode_active :: bool
  bus_off_log_record_count :: u32
  bus_off_log_suppressed_count :: u32
  error_passive_log_record_count :: u32
  error_passive_log_suppressed_count :: u32
  recovery_phase :: CAN_Recovery_Phase
  recovery_stats :: CAN_Recovery_Stats

datatype can_recovery_hal = HAL_FDCAN_Stop | HAL_FDCAN_Start | HAL_FDCAN_ActivateNotification u32 u32

record 'w can_recovery_env =
  cr_hal :: "can_recovery_hal \<Rightarrow> 'w \<Rightarrow> HAL_Status \<times> 'w"
  cr_push :: "u32 \<Rightarrow> u32 \<Rightarrow> u32 \<Rightarrow> u32 \<Rightarrow> u32 \<Rightarrow> 'w \<Rightarrow> 'w"
  cr_psr :: "'w \<Rightarrow> u32"
  cr_ecr :: "'w \<Rightarrow> u32"

section \<open>Operations\<close>

definition can_recovery_stats_zero :: CAN_Recovery_Stats where
  "can_recovery_stats_zero = \<lparr>cr_bus_off_events = 0, cr_recovery_attempts = 0, cr_recovery_successes = 0,
     cr_recovery_failures = 0, cr_verification_failures = 0, cr_tx_complete_events = 0, cr_retry_interval_ms = 0,
     cr_bus_off_log_records = 0, cr_bus_off_log_suppressed = 0, cr_error_passive_log_records = 0,
     cr_error_passive_log_suppressed = 0, cr_last_hal_status = HAL_OK, cr_last_failed_step = CAN_RECOVERY_STEP_NONE,
     cr_recovery_pending = 0, cr_verification_pending = 0\<rparr>"

definition CAN_Recovery_Init :: CAN_Recovery where
  "CAN_Recovery_Init = \<lparr>bus_off_event_count = 0, last_bus_off_psr = 0, last_bus_off_ecr = 0,
     error_passive_event_count = 0, last_error_passive_psr = 0, last_error_passive_ecr = 0, tx_complete_event_count = 0,
     handled_bus_off_event_count = 0, scheduled_bus_off_event_count = 0, logged_bus_off_event_count = 0,
     logged_error_passive_event_count = 0, verification_bus_off_event_count = 0, verification_tx_complete_snapshot = 0,
     next_recovery_attempt_tick = 0, recovery_verification_pending = False, bus_off_fault_episode_active = False,
     bus_off_log_record_count = 0, bus_off_log_suppressed_count = 0, error_passive_log_record_count = 0,
     error_passive_log_suppressed_count = 0, recovery_phase = CAN_RECOVERY_PHASE_STOP,
     recovery_stats = can_recovery_stats_zero\<rparr>"

definition CAN_Recovery_RecordFailure ::
  "'w can_recovery_env \<Rightarrow> CAN_Recovery_Step \<Rightarrow> HAL_Status \<Rightarrow> CAN_Recovery \<Rightarrow> 'w \<Rightarrow> CAN_Recovery \<times> 'w" where
  "CAN_Recovery_RecordFailure env failed_step hal_status s w =
    (let st = recovery_stats s;
         is_new_failure = (cr_last_failed_step st \<noteq> failed_step \<or> cr_last_hal_status st \<noteq> hal_status);
         s = s\<lparr>recovery_stats := st\<lparr>cr_recovery_failures := cr_recovery_failures st + 1,
           cr_last_hal_status := hal_status, cr_last_failed_step := failed_step\<rparr>\<rparr>
     in (s, if is_new_failure
            then cr_push env APP_LOG_SOURCE_CAN APP_LOG_SEVERITY_FAULT APP_LOG_EVENT_CAN_RECOVERY_FAILED
              (can_recovery_step_code failed_step) (hal_status_code hal_status) w
            else w))"

text \<open>The callbacks; the handle is its instance, \<open>None\<close> for a null pointer.\<close>

definition HAL_FDCAN_ErrorStatusCallback :: "u32 option \<Rightarrow> u32 \<Rightarrow> u32 \<Rightarrow> u32 \<Rightarrow> CAN_Recovery \<Rightarrow> CAN_Recovery" where
  "HAL_FDCAN_ErrorStatusCallback hfdcan ErrorStatusITs psr ecr s =
    (if hfdcan \<noteq> Some FDCAN1 then s
     else let s = (if ErrorStatusITs AND FDCAN_IT_ERROR_PASSIVE \<noteq> 0
                   then s\<lparr>last_error_passive_psr := psr, last_error_passive_ecr := ecr,
                     error_passive_event_count := error_passive_event_count s + 1\<rparr>
                   else s)
          in if ErrorStatusITs AND FDCAN_IT_BUS_OFF \<noteq> 0
             then s\<lparr>last_bus_off_psr := psr, last_bus_off_ecr := ecr, bus_off_event_count := bus_off_event_count s + 1\<rparr>
             else s)"

definition HAL_FDCAN_TxBufferCompleteCallback :: "u32 option \<Rightarrow> u32 \<Rightarrow> CAN_Recovery \<Rightarrow> CAN_Recovery" where
  "HAL_FDCAN_TxBufferCompleteCallback hfdcan BufferIndexes s =
    (if hfdcan = Some FDCAN1 \<and> BufferIndexes \<noteq> 0
     then s\<lparr>tx_complete_event_count := tx_complete_event_count s + 1\<rparr> else s)"

definition can_recovery_notifications :: can_recovery_hal where
  "can_recovery_notifications = HAL_FDCAN_ActivateNotification
     (FDCAN_IT_BUS_OFF OR FDCAN_IT_ERROR_PASSIVE OR FDCAN_IT_TX_COMPLETE OR FDCAN_IT_RX_FIFO0_NEW_MESSAGE
      OR FDCAN_IT_RX_FIFO0_WATERMARK OR FDCAN_IT_RX_FIFO0_FULL OR FDCAN_IT_RX_FIFO0_MESSAGE_LOST)
     CAN_RECOVERY_TX_BUFFER_MASK"

definition CAN_Recovery_EnableNotifications :: "'w can_recovery_env \<Rightarrow> 'w \<Rightarrow> HAL_Status \<times> 'w" where
  "CAN_Recovery_EnableNotifications env w = cr_hal env can_recovery_notifications w"

text \<open>The parts of the main-loop handler in their order: error passive, new bus-off events, verification, attempt.\<close>

definition can_note_error_passive :: "'w can_recovery_env \<Rightarrow> CAN_Recovery \<Rightarrow> 'w \<Rightarrow> CAN_Recovery \<times> 'w" where
  "can_note_error_passive env s w =
    (if error_passive_event_count s \<noteq> logged_error_passive_event_count s
     then let event_snapshot = error_passive_event_count s;
              new_event_count = event_snapshot - logged_error_passive_event_count s
          in if \<not> bus_off_fault_episode_active s
             then (s\<lparr>error_passive_log_record_count := error_passive_log_record_count s + 1,
                 error_passive_log_suppressed_count := (if new_event_count > 1
                   then error_passive_log_suppressed_count s + (new_event_count - 1)
                   else error_passive_log_suppressed_count s),
                 logged_error_passive_event_count := event_snapshot\<rparr>,
               cr_push env APP_LOG_SOURCE_CAN APP_LOG_SEVERITY_WARNING APP_LOG_EVENT_CAN_ERROR_PASSIVE
                 (last_error_passive_psr s) (last_error_passive_ecr s) w)
             else (s\<lparr>error_passive_log_suppressed_count := error_passive_log_suppressed_count s + new_event_count,
                 logged_error_passive_event_count := event_snapshot\<rparr>, w)
     else (s, w))"

definition can_note_bus_off :: "'w can_recovery_env \<Rightarrow> u32 \<Rightarrow> CAN_Recovery \<Rightarrow> 'w \<Rightarrow> CAN_Recovery \<times> 'w" where
  "can_note_bus_off env now s w =
    (if bus_off_event_count s \<noteq> scheduled_bus_off_event_count s
     then let event_snapshot = bus_off_event_count s
          in case (if logged_bus_off_event_count s \<noteq> event_snapshot
                   then let new_event_count = event_snapshot - logged_bus_off_event_count s
                        in if \<not> bus_off_fault_episode_active s
                           then (s\<lparr>bus_off_log_record_count := bus_off_log_record_count s + 1,
                               bus_off_fault_episode_active := True,
                               bus_off_log_suppressed_count := (if new_event_count > 1
                                 then bus_off_log_suppressed_count s + (new_event_count - 1)
                                 else bus_off_log_suppressed_count s),
                               logged_bus_off_event_count := event_snapshot\<rparr>,
                             cr_push env APP_LOG_SOURCE_CAN APP_LOG_SEVERITY_FAULT APP_LOG_EVENT_CAN_BUS_OFF
                               (last_bus_off_psr s) (last_bus_off_ecr s) w)
                           else (s\<lparr>bus_off_log_suppressed_count := bus_off_log_suppressed_count s + new_event_count,
                               logged_bus_off_event_count := event_snapshot\<rparr>, w)
                   else (s, w)) of (s, w) \<Rightarrow>
             let s = (if recovery_verification_pending s
                      then s\<lparr>recovery_verification_pending := False, recovery_stats := (recovery_stats s)\<lparr>
                        cr_verification_failures := cr_verification_failures (recovery_stats s) + 1\<rparr>\<rparr>
                      else s)
             in (s\<lparr>scheduled_bus_off_event_count := event_snapshot,
                   next_recovery_attempt_tick := now + CAN_RECOVERY_RETRY_INTERVAL_MS\<rparr>, w)
     else (s, w))"

definition can_verify_recovery :: "'w can_recovery_env \<Rightarrow> CAN_Recovery \<Rightarrow> 'w \<Rightarrow> CAN_Recovery \<times> 'w" where
  "can_verify_recovery env s w =
    (if tx_complete_event_count s \<noteq> verification_tx_complete_snapshot s
        \<and> bus_off_event_count s = verification_bus_off_event_count s
     then (s\<lparr>handled_bus_off_event_count := verification_bus_off_event_count s, recovery_verification_pending := False,
           bus_off_fault_episode_active := False, recovery_stats := (recovery_stats s)\<lparr>
             cr_recovery_successes := cr_recovery_successes (recovery_stats s) + 1, cr_last_hal_status := HAL_OK,
             cr_last_failed_step := CAN_RECOVERY_STEP_NONE\<rparr>\<rparr>,
         cr_push env APP_LOG_SOURCE_CAN APP_LOG_SEVERITY_INFO APP_LOG_EVENT_CAN_RECOVERY_OK (cr_psr env w) (cr_ecr env w) w)
     else (s, w))"

text \<open>An attempt: the phases that succeeded are not repeated, a failed one ends it.\<close>

definition can_restart_notify :: "'w can_recovery_env \<Rightarrow> CAN_Recovery \<Rightarrow> 'w \<Rightarrow> CAN_Recovery \<times> 'w" where
  "can_restart_notify env s w = (case CAN_Recovery_EnableNotifications env w of (hal_status, w) \<Rightarrow>
     if hal_status \<noteq> HAL_OK then CAN_Recovery_RecordFailure env CAN_RECOVERY_STEP_NOTIFICATION hal_status s w
     else (s\<lparr>recovery_phase := CAN_RECOVERY_PHASE_STOP, recovery_stats := (recovery_stats s)\<lparr>cr_last_hal_status := HAL_OK,
         cr_last_failed_step := CAN_RECOVERY_STEP_NONE\<rparr>,
       verification_bus_off_event_count := scheduled_bus_off_event_count s,
       verification_tx_complete_snapshot := tx_complete_event_count s, recovery_verification_pending := True\<rparr>, w))"

definition can_restart_start :: "'w can_recovery_env \<Rightarrow> CAN_Recovery \<Rightarrow> 'w \<Rightarrow> CAN_Recovery \<times> 'w" where
  "can_restart_start env s w =
    (if recovery_phase s = CAN_RECOVERY_PHASE_START
     then case cr_hal env HAL_FDCAN_Start w of (hal_status, w) \<Rightarrow>
       if hal_status \<noteq> HAL_OK then CAN_Recovery_RecordFailure env CAN_RECOVERY_STEP_START hal_status s w
       else can_restart_notify env (s\<lparr>recovery_phase := CAN_RECOVERY_PHASE_NOTIFICATION\<rparr>) w
     else can_restart_notify env s w)"

definition can_restart :: "'w can_recovery_env \<Rightarrow> CAN_Recovery \<Rightarrow> 'w \<Rightarrow> CAN_Recovery \<times> 'w" where
  "can_restart env s w =
    (if recovery_phase s = CAN_RECOVERY_PHASE_STOP
     then case cr_hal env HAL_FDCAN_Stop w of (hal_status, w) \<Rightarrow>
       if hal_status \<noteq> HAL_OK then CAN_Recovery_RecordFailure env CAN_RECOVERY_STEP_STOP hal_status s w
       else can_restart_start env (s\<lparr>recovery_phase := CAN_RECOVERY_PHASE_START\<rparr>) w
     else can_restart_start env s w)"

definition CAN_Handle_BusOff_Recovery :: "'w can_recovery_env \<Rightarrow> u32 \<Rightarrow> CAN_Recovery \<Rightarrow> 'w \<Rightarrow> CAN_Recovery \<times> 'w" where
  "CAN_Handle_BusOff_Recovery env now s w =
    (case can_note_error_passive env s w of (s, w) \<Rightarrow>
     case can_note_bus_off env now s w of (s, w) \<Rightarrow>
       if recovery_verification_pending s then can_verify_recovery env s w
       else if scheduled_bus_off_event_count s = handled_bus_off_event_count s then (s, w)
       else if sint (now - next_recovery_attempt_tick s) < 0 then (s, w)
       else let s = s\<lparr>next_recovery_attempt_tick := now + CAN_RECOVERY_RETRY_INTERVAL_MS, recovery_stats :=
                  (recovery_stats s)\<lparr>cr_recovery_attempts := cr_recovery_attempts (recovery_stats s) + 1\<rparr>\<rparr>
            in can_restart env s w)"

definition CAN_Recovery_GetStats :: "CAN_Recovery \<Rightarrow> CAN_Recovery_Stats option \<Rightarrow> CAN_Recovery_Stats option" where
  "CAN_Recovery_GetStats s stats = map_option (\<lambda>_. (recovery_stats s)\<lparr>cr_bus_off_events := bus_off_event_count s,
     cr_tx_complete_events := tx_complete_event_count s, cr_retry_interval_ms := CAN_RECOVERY_RETRY_INTERVAL_MS,
     cr_bus_off_log_records := bus_off_log_record_count s, cr_bus_off_log_suppressed := bus_off_log_suppressed_count s,
     cr_error_passive_log_records := error_passive_log_record_count s,
     cr_error_passive_log_suppressed := error_passive_log_suppressed_count s,
     cr_recovery_pending := (if scheduled_bus_off_event_count s \<noteq> handled_bus_off_event_count s
       \<or> recovery_verification_pending s then 1 else 0),
     cr_verification_pending := (if recovery_verification_pending s then 1 else 0)\<rparr>) stats"

section \<open>What the bus and the controller see\<close>

text \<open>The interrupts and the calls of the main loop in the order they happen.\<close>

datatype can_recovery_event = Ev_Error u32 u32 u32 | Ev_Tx u32 | Ev_Main u32

datatype can_recovery_item = It_BusOff | It_Tx | It_Hal can_recovery_hal HAL_Status | It_Log u32

definition recovery_logged :: "'w can_recovery_env \<Rightarrow> ('w \<times> can_recovery_item list) can_recovery_env" where
  "recovery_logged env = \<lparr>cr_hal = (\<lambda>c (w, l). case cr_hal env c w of (r, w) \<Rightarrow> (r, w, l @ [It_Hal c r])),
     cr_push = (\<lambda>src sev code d0 d1 (w, l). (cr_push env src sev code d0 d1 w, l @ [It_Log code])),
     cr_psr = (\<lambda>(w, l). cr_psr env w), cr_ecr = (\<lambda>(w, l). cr_ecr env w)\<rparr>"

text \<open>A bus-off interrupt and a completed transmission are noted in the same list as the calls.\<close>

fun recovery_step :: "'w can_recovery_env \<Rightarrow> can_recovery_event \<Rightarrow> CAN_Recovery \<times> 'w \<times> can_recovery_item list
    \<Rightarrow> CAN_Recovery \<times> 'w \<times> can_recovery_item list" where
  "recovery_step env (Ev_Error its psr ecr) (s, w, l) = (HAL_FDCAN_ErrorStatusCallback (Some FDCAN1) its psr ecr s, w,
     if its AND FDCAN_IT_BUS_OFF \<noteq> 0 then l @ [It_BusOff] else l)"
| "recovery_step env (Ev_Tx buffers) (s, w, l) = (HAL_FDCAN_TxBufferCompleteCallback (Some FDCAN1) buffers s, w,
     if buffers \<noteq> 0 then l @ [It_Tx] else l)"
| "recovery_step env (Ev_Main now) (s, w, l) = CAN_Handle_BusOff_Recovery (recovery_logged env) now s (w, l)"

definition recovery_run :: "'w can_recovery_env \<Rightarrow> can_recovery_event list \<Rightarrow> CAN_Recovery \<times> 'w \<times> can_recovery_item list
    \<Rightarrow> CAN_Recovery \<times> 'w \<times> can_recovery_item list" where
  "recovery_run env es x = fold (recovery_step env) es x"

text \<open>The calls that succeeded, and the order in which a restart makes them.\<close>

fun restart_calls :: "can_recovery_item list \<Rightarrow> can_recovery_hal list" where
  "restart_calls [] = []"
| "restart_calls (It_Hal c HAL_OK # l) = c # restart_calls l"
| "restart_calls (x # l) = restart_calls l"

definition restart_order :: "nat \<Rightarrow> can_recovery_hal" where
  "restart_order i = [HAL_FDCAN_Stop, HAL_FDCAN_Start, can_recovery_notifications] ! (i mod 3)"

lemma restart_calls_append [simp]: "restart_calls (l @ k) = restart_calls l @ restart_calls k"
  by (induction l rule: restart_calls.induct) simp_all

definition bus_offs :: "can_recovery_item list \<Rightarrow> nat" where "bus_offs l = length (filter (\<lambda>x. x = It_BusOff) l)"

definition frames_sent :: "can_recovery_item list \<Rightarrow> nat" where "frames_sent l = length (filter (\<lambda>x. x = It_Tx) l)"

lemma trace_counts_append [simp]:
  "bus_offs (l @ k) = bus_offs l + bus_offs k" "frames_sent (l @ k) = frames_sent l + frames_sent k"
  by (simp_all add: bus_offs_def frames_sent_def)

text \<open>A report is in order when a complete restart succeeded before it, after which a frame was sent and the bus never went off.\<close>

definition recovery_earned :: "can_recovery_item list \<Rightarrow> bool" where
  "recovery_earned l \<longleftrightarrow> (\<exists>a b. l = a @ It_Hal can_recovery_notifications HAL_OK # b
     \<and> frames_sent b > 0 \<and> bus_offs b = 0)"

fun phase_number :: "CAN_Recovery_Phase \<Rightarrow> nat" where
  "phase_number CAN_RECOVERY_PHASE_STOP = 0"
| "phase_number CAN_RECOVERY_PHASE_START = 1"
| "phase_number CAN_RECOVERY_PHASE_NOTIFICATION = 2"

definition recovery_inv :: "CAN_Recovery \<Rightarrow> can_recovery_item list \<Rightarrow> bool" where
  "recovery_inv s l \<longleftrightarrow> bus_off_event_count s = of_nat (bus_offs l) \<and> tx_complete_event_count s = of_nat (frames_sent l)
     \<and> restart_calls l = map restart_order [0..<length (restart_calls l)]
     \<and> length (restart_calls l) mod 3 = phase_number (recovery_phase s)
     \<and> (\<forall>a b. l = a @ It_Log APP_LOG_EVENT_CAN_RECOVERY_OK # b \<longrightarrow> recovery_earned a)
     \<and> (recovery_verification_pending s \<longrightarrow> (\<exists>a b. l = a @ It_Hal can_recovery_notifications HAL_OK # b
       \<and> verification_bus_off_event_count s = of_nat (bus_offs a) \<and> verification_tx_complete_snapshot s = of_nat (frames_sent a)))"

lemma split_front: "l @ k = a @ x # b \<Longrightarrow> x \<notin> set k \<Longrightarrow> \<exists>c. l = a @ x # c"
  by (auto simp: append_eq_append_conv2) (metis append_Cons append_Nil in_set_conv_decomp list.exhaust list.inject)

text \<open>Items that neither report nor move the restart on.\<close>

definition quiet_items :: "can_recovery_item list \<Rightarrow> bool" where
  "quiet_items k \<longleftrightarrow> bus_offs k = 0 \<and> frames_sent k = 0 \<and> restart_calls k = []
     \<and> It_Log APP_LOG_EVENT_CAN_RECOVERY_OK \<notin> set k"

lemma recovery_events_differ:
  "APP_LOG_EVENT_CAN_BUS_OFF \<noteq> APP_LOG_EVENT_CAN_RECOVERY_OK" "APP_LOG_EVENT_CAN_RECOVERY_FAILED \<noteq> APP_LOG_EVENT_CAN_RECOVERY_OK"
  "APP_LOG_EVENT_CAN_ERROR_PASSIVE \<noteq> APP_LOG_EVENT_CAN_RECOVERY_OK"
  by (simp_all add: APP_LOG_EVENT_CAN_BUS_OFF_def APP_LOG_EVENT_CAN_RECOVERY_OK_def APP_LOG_EVENT_CAN_RECOVERY_FAILED_def
      APP_LOG_EVENT_CAN_ERROR_PASSIVE_def)

lemma quiet_items_simps [simp]:
  "quiet_items []" "quiet_items (It_Log code # k) \<longleftrightarrow> code \<noteq> APP_LOG_EVENT_CAN_RECOVERY_OK \<and> quiet_items k"
  "r \<noteq> HAL_OK \<Longrightarrow> quiet_items (It_Hal c r # k) \<longleftrightarrow> quiet_items k"
  by (auto simp: quiet_items_def bus_offs_def frames_sent_def) (cases r; simp)+

text \<open>The fields the invariant speaks of are kept, up to a verification that is given up.\<close>

definition same_recovery :: "CAN_Recovery \<Rightarrow> CAN_Recovery \<Rightarrow> bool" where
  "same_recovery s s' \<longleftrightarrow> bus_off_event_count s' = bus_off_event_count s \<and> tx_complete_event_count s' = tx_complete_event_count s
     \<and> recovery_phase s' = recovery_phase s \<and> (recovery_verification_pending s' \<longrightarrow> recovery_verification_pending s
       \<and> verification_bus_off_event_count s' = verification_bus_off_event_count s
       \<and> verification_tx_complete_snapshot s' = verification_tx_complete_snapshot s)"

lemma recovery_inv_quiet:
  assumes "recovery_inv s l" "same_recovery s s'" "quiet_items k"
  shows "recovery_inv s' (l @ k)"
proof -
  have "recovery_earned a" if "l @ k = a @ It_Log APP_LOG_EVENT_CAN_RECOVERY_OK # b" for a b
    using assms(1,3) split_front [OF that] by (auto simp: recovery_inv_def quiet_items_def)
  moreover have "\<exists>a b. l @ k = a @ It_Hal can_recovery_notifications HAL_OK # b
      \<and> verification_bus_off_event_count s' = of_nat (bus_offs a) \<and> verification_tx_complete_snapshot s' = of_nat (frames_sent a)"
    if "recovery_verification_pending s'"
  proof -
    have v: "recovery_verification_pending s" "verification_bus_off_event_count s' = verification_bus_off_event_count s"
      "verification_tx_complete_snapshot s' = verification_tx_complete_snapshot s"
      using assms(2) that by (simp_all add: same_recovery_def)
    obtain a b where "l = a @ It_Hal can_recovery_notifications HAL_OK # b"
      "verification_bus_off_event_count s = of_nat (bus_offs a)" "verification_tx_complete_snapshot s = of_nat (frames_sent a)"
      using assms(1) v(1) unfolding recovery_inv_def by blast
    with v(2,3) show ?thesis by (intro exI [of _ a] exI [of _ "b @ k"]) simp
  qed
  ultimately show ?thesis using assms by (simp add: recovery_inv_def same_recovery_def quiet_items_def)
qed

lemma note_error_passive_same:
  assumes "can_note_error_passive (recovery_logged env) s (w, l) = (s', w', l')"
  shows "same_recovery s s' \<and> (\<exists>k. l' = l @ k \<and> quiet_items k)"
  using assms by (auto simp: can_note_error_passive_def recovery_logged_def same_recovery_def Let_def recovery_events_differ
      split: if_splits)

lemma note_bus_off_same:
  assumes "can_note_bus_off (recovery_logged env) now s (w, l) = (s', w', l')"
  shows "same_recovery s s' \<and> (\<exists>k. l' = l @ k \<and> quiet_items k) \<and> scheduled_bus_off_event_count s' = bus_off_event_count s'"
  using assms by (auto simp: can_note_bus_off_def recovery_logged_def same_recovery_def Let_def recovery_events_differ
      split: if_splits prod.splits)

lemma of_nat_u32_eq: "m < 2 ^ 32 \<Longrightarrow> n < 2 ^ 32 \<Longrightarrow> (of_nat m :: u32) = of_nat n \<longleftrightarrow> m = n"
  using arg_cong [of "of_nat m :: u32" "of_nat n" unat] unfolding unat_of_nat by auto

lemma verify_recovery_inv:
  assumes inv: "recovery_inv s l" and pending: "recovery_verification_pending s" and bound: "bus_offs l < 2 ^ 32"
    and run: "can_verify_recovery (recovery_logged env) s (w, l) = (s', w', l')"
  shows "recovery_inv s' l'"
proof (cases "tx_complete_event_count s \<noteq> verification_tx_complete_snapshot s
    \<and> bus_off_event_count s = verification_bus_off_event_count s")
  case False
  from run have "s' = s" "l' = l" unfolding can_verify_recovery_def if_not_P [OF False] by simp_all
  then show ?thesis using inv by simp
next
  case True
  obtain a b where ab: "l = a @ It_Hal can_recovery_notifications HAL_OK # b"
    "verification_bus_off_event_count s = of_nat (bus_offs a)" "verification_tx_complete_snapshot s = of_nat (frames_sent a)"
    using inv pending by (auto simp: recovery_inv_def)
  have one: "bus_offs (It_Hal c r # b) = bus_offs b" "frames_sent (It_Hal c r # b) = frames_sent b" for c r
    by (simp_all add: bus_offs_def frames_sent_def)
  have "(of_nat (bus_offs l) :: u32) = of_nat (bus_offs a)" using True ab(2) inv by (simp add: recovery_inv_def)
  then have "bus_offs l = bus_offs a" using bound ab(1) by (subst (asm) of_nat_u32_eq) (simp_all add: one)
  then have off: "bus_offs b = 0" using ab(1) by (simp add: one)
  have "frames_sent b \<noteq> 0"
  proof
    assume "frames_sent b = 0"
    then have "frames_sent l = frames_sent a" using ab(1) by (simp add: one)
    then show False using True ab(3) inv by (simp add: recovery_inv_def)
  qed
  then have earned: "recovery_earned l" using ab(1) off unfolding recovery_earned_def by blast
  have "recovery_earned a'" if "l @ [It_Log APP_LOG_EVENT_CAN_RECOVERY_OK] = a' @ It_Log APP_LOG_EVENT_CAN_RECOVERY_OK # b'" for a' b'
    using that inv earned by (cases b' rule: rev_cases) (auto simp: recovery_inv_def)
  then show ?thesis using run True inv
    by (auto simp: can_verify_recovery_def recovery_logged_def recovery_inv_def bus_offs_def frames_sent_def)
qed

lemma record_failure_same:
  assumes "CAN_Recovery_RecordFailure (recovery_logged env) failed_step hal_status s (w, l) = (s', w', l')"
  shows "same_recovery s s' \<and> (\<exists>k. l' = l @ k \<and> quiet_items k)"
  using assms by (auto simp: CAN_Recovery_RecordFailure_def recovery_logged_def same_recovery_def Let_def recovery_events_differ
      split: if_splits)

text \<open>A call that succeeded in its turn.\<close>

lemma recovery_inv_call:
  assumes inv: "recovery_inv s l" and turn: "c = restart_order (phase_number (recovery_phase s))"
    and phase: "phase_number (recovery_phase s') = Suc (phase_number (recovery_phase s)) mod 3"
    and same: "bus_off_event_count s' = bus_off_event_count s" "tx_complete_event_count s' = tx_complete_event_count s"
    and pending: "recovery_verification_pending s' \<Longrightarrow> c = can_recovery_notifications
      \<and> verification_bus_off_event_count s' = bus_off_event_count s \<and> verification_tx_complete_snapshot s' = tx_complete_event_count s"
  shows "recovery_inv s' (l @ [It_Hal c HAL_OK])"
proof -
  let ?n = "length (restart_calls l)"
  have m: "?n mod 3 = phase_number (recovery_phase s)" using inv by (simp add: recovery_inv_def)
  have "restart_order ?n = c" using turn m by (simp add: restart_order_def)
  then have calls: "restart_calls (l @ [It_Hal c HAL_OK]) = map restart_order [0..<length (restart_calls (l @ [It_Hal c HAL_OK]))]"
    using inv by (simp add: recovery_inv_def)
  have "Suc ?n mod 3 = Suc (?n mod 3) mod 3" by (simp add: mod_Suc_eq)
  then have phase': "length (restart_calls (l @ [It_Hal c HAL_OK])) mod 3 = phase_number (recovery_phase s')"
    using m phase by simp
  have earned: "recovery_earned a" if "l @ [It_Hal c HAL_OK] = a @ It_Log APP_LOG_EVENT_CAN_RECOVERY_OK # b" for a b
    using inv split_front [OF that] by (auto simp: recovery_inv_def)
  have "\<exists>a b. l @ [It_Hal c HAL_OK] = a @ It_Hal can_recovery_notifications HAL_OK # b
      \<and> verification_bus_off_event_count s' = of_nat (bus_offs a) \<and> verification_tx_complete_snapshot s' = of_nat (frames_sent a)"
    if "recovery_verification_pending s'"
    using pending [OF that] inv by (intro exI [of _ l] exI [of _ "[]"]) (simp add: recovery_inv_def)
  then show ?thesis using inv same calls phase' earned
    by (simp add: recovery_inv_def bus_offs_def frames_sent_def)
qed

lemma logged_hal:
  "cr_hal (recovery_logged env) c (w, l) = (fst (cr_hal env c w), snd (cr_hal env c w), l @ [It_Hal c (fst (cr_hal env c w))])"
  by (simp add: recovery_logged_def split_beta)

lemma failed_call_inv:
  assumes "recovery_inv s l" "hal_status \<noteq> HAL_OK"
    "CAN_Recovery_RecordFailure (recovery_logged env) failed_step hal_status s (w, l @ [It_Hal c hal_status]) = (s', w', l')"
  shows "recovery_inv s' l' \<and> bus_offs l' = bus_offs l"
proof -
  obtain k where k: "same_recovery s s'" "l' = (l @ [It_Hal c hal_status]) @ k" "quiet_items k"
    using record_failure_same [OF assms(3)] by blast
  have "recovery_inv s' (l @ (It_Hal c hal_status # k))"
    using recovery_inv_quiet [OF assms(1) k(1)] k(3) assms(2) by simp
  moreover have "bus_offs (It_Hal c hal_status # k) = bus_offs k" by (simp add: bus_offs_def)
  ultimately show ?thesis using k(2,3) by (simp add: quiet_items_def)
qed

lemma bus_offs_call [simp]: "bus_offs [It_Hal c r] = 0" by (simp add: bus_offs_def)

lemma restart_notify_inv:
  assumes inv: "recovery_inv s l" and "recovery_phase s = CAN_RECOVERY_PHASE_NOTIFICATION"
    and "scheduled_bus_off_event_count s = bus_off_event_count s"
    and run: "can_restart_notify (recovery_logged env) s (w, l) = (s', w', l')"
  shows "recovery_inv s' l' \<and> bus_offs l' = bus_offs l"
proof (cases "fst (cr_hal env can_recovery_notifications w) = HAL_OK")
  case True
  then have "l' = l @ [It_Hal can_recovery_notifications HAL_OK]" "recovery_phase s' = CAN_RECOVERY_PHASE_STOP"
    "bus_off_event_count s' = bus_off_event_count s" "tx_complete_event_count s' = tx_complete_event_count s"
    "verification_bus_off_event_count s' = bus_off_event_count s" "verification_tx_complete_snapshot s' = tx_complete_event_count s"
    using run assms(3) by (auto simp: can_restart_notify_def CAN_Recovery_EnableNotifications_def logged_hal)
  then show ?thesis using assms(2) by (auto simp: restart_order_def intro!: recovery_inv_call [OF inv])
next
  case False
  then show ?thesis using run failed_call_inv [OF inv False]
    by (simp add: can_restart_notify_def CAN_Recovery_EnableNotifications_def logged_hal)
qed

lemma restart_start_inv:
  assumes inv: "recovery_inv s l" and "recovery_phase s \<noteq> CAN_RECOVERY_PHASE_STOP" and idle: "\<not> recovery_verification_pending s"
    and sched: "scheduled_bus_off_event_count s = bus_off_event_count s"
    and run: "can_restart_start (recovery_logged env) s (w, l) = (s', w', l')"
  shows "recovery_inv s' l' \<and> bus_offs l' = bus_offs l"
proof (cases "recovery_phase s")
  case CAN_RECOVERY_PHASE_START
  let ?s = "s\<lparr>recovery_phase := CAN_RECOVERY_PHASE_NOTIFICATION\<rparr>" and ?r = "cr_hal env HAL_FDCAN_Start w"
  show ?thesis
  proof (cases "fst ?r = HAL_OK")
    case True
    have "recovery_inv ?s (l @ [It_Hal HAL_FDCAN_Start HAL_OK])"
      by (rule recovery_inv_call [OF inv]) (use idle in \<open>simp_all add: CAN_RECOVERY_PHASE_START restart_order_def\<close>)
    from restart_notify_inv [OF this, of env "snd ?r" s' w' l'] show ?thesis
      using run True sched by (auto simp: can_restart_start_def CAN_RECOVERY_PHASE_START logged_hal)
  next
    case False
    then show ?thesis using run failed_call_inv [OF inv False]
      by (simp add: can_restart_start_def CAN_RECOVERY_PHASE_START logged_hal)
  qed
next
  case CAN_RECOVERY_PHASE_NOTIFICATION
  then show ?thesis using restart_notify_inv [OF inv _ sched] run by (simp add: can_restart_start_def)
qed (use assms in simp)

lemma restart_inv:
  assumes inv: "recovery_inv s l" and idle: "\<not> recovery_verification_pending s"
    and sched: "scheduled_bus_off_event_count s = bus_off_event_count s"
    and run: "can_restart (recovery_logged env) s (w, l) = (s', w', l')"
  shows "recovery_inv s' l' \<and> bus_offs l' = bus_offs l"
proof (cases "recovery_phase s = CAN_RECOVERY_PHASE_STOP")
  case stop: True
  let ?s = "s\<lparr>recovery_phase := CAN_RECOVERY_PHASE_START\<rparr>" and ?r = "cr_hal env HAL_FDCAN_Stop w"
  show ?thesis
  proof (cases "fst ?r = HAL_OK")
    case True
    have "recovery_inv ?s (l @ [It_Hal HAL_FDCAN_Stop HAL_OK])"
      by (rule recovery_inv_call [OF inv]) (use idle stop in \<open>simp_all add: restart_order_def\<close>)
    from restart_start_inv [OF this, of env "snd ?r" s' w' l'] show ?thesis
      using run True sched idle stop by (auto simp: can_restart_def logged_hal)
  next
    case False
    then show ?thesis using run stop failed_call_inv [OF inv False] by (simp add: can_restart_def logged_hal)
  qed
next
  case False
  then show ?thesis using restart_start_inv [OF inv False idle sched] run by (simp add: can_restart_def)
qed

lemma verify_grows:
  "can_verify_recovery (recovery_logged env) s (w, l) = (s', w', l') \<Longrightarrow> bus_offs l' = bus_offs l"
  by (cases "tx_complete_event_count s \<noteq> verification_tx_complete_snapshot s
    \<and> bus_off_event_count s = verification_bus_off_event_count s")
    (unfold can_verify_recovery_def recovery_logged_def, simp_all only: if_True if_False can_recovery_env.simps prod.case
      prod.inject, auto simp: bus_offs_def)

lemma recovery_handle_inv:
  assumes inv: "recovery_inv s l" and run: "CAN_Handle_BusOff_Recovery (recovery_logged env) now s (w, l) = (s', w', l')"
    and bound: "bus_offs l < 2 ^ 32"
  shows "recovery_inv s' l' \<and> bus_offs l' = bus_offs l"
proof -
  obtain s1 w1 l1 where e: "can_note_error_passive (recovery_logged env) s (w, l) = (s1, w1, l1)" by (metis prod.exhaust)
  obtain s2 w2 l2 where b: "can_note_bus_off (recovery_logged env) now s1 (w1, l1) = (s2, w2, l2)" by (metis prod.exhaust)
  obtain k1 where k1: "same_recovery s s1" "l1 = l @ k1" "quiet_items k1" using note_error_passive_same [OF e] by blast
  obtain k2 where k2: "same_recovery s1 s2" "l2 = l1 @ k2" "quiet_items k2" "scheduled_bus_off_event_count s2 = bus_off_event_count s2"
    using note_bus_off_same [OF b] by blast
  have inv2: "recovery_inv s2 l2"
    using recovery_inv_quiet [OF recovery_inv_quiet [OF inv k1(1,3)] k2(1,3)] k1(2) k2(2) by simp
  have bound2: "bus_offs l2 < 2 ^ 32" using bound k1 k2 by (simp add: quiet_items_def)
  let ?s = "s2\<lparr>next_recovery_attempt_tick := now + CAN_RECOVERY_RETRY_INTERVAL_MS, recovery_stats :=
      (recovery_stats s2)\<lparr>cr_recovery_attempts := cr_recovery_attempts (recovery_stats s2) + 1\<rparr>\<rparr>"
  have "recovery_inv s' l' \<and> bus_offs l' = bus_offs l2"
  proof (cases "recovery_verification_pending s2")
    case True
    have v: "can_verify_recovery (recovery_logged env) s2 (w2, l2) = (s', w', l')"
      using run unfolding CAN_Handle_BusOff_Recovery_def e b prod.case if_P [OF True] .
    show ?thesis using verify_recovery_inv [OF inv2 True bound2 v] verify_grows [OF v] by simp
  next
    case False
    have "recovery_inv ?s l2" using recovery_inv_quiet [OF inv2, of ?s "[]"] False by (simp add: same_recovery_def)
    note restart = restart_inv [OF this, of env w2 s' w' l']
    have r: "(if scheduled_bus_off_event_count s2 = handled_bus_off_event_count s2 then (s2, w2, l2)
        else if sint (now - next_recovery_attempt_tick s2) < 0 then (s2, w2, l2)
        else can_restart (recovery_logged env) ?s (w2, l2)) = (s', w', l')"
      using run unfolding CAN_Handle_BusOff_Recovery_def e b prod.case Let_def if_not_P [OF False] .
    consider "(s2, w2, l2) = (s', w', l')" | "can_restart (recovery_logged env) ?s (w2, l2) = (s', w', l')"
      using r by (metis (lifting))
    then show ?thesis
    proof cases
      case 1
      then show ?thesis using inv2 by simp
    next
      case 2
      then show ?thesis using restart False k2(4) by simp
    qed
  qed
  then show ?thesis using k1(2,3) k2(2,3) by (simp add: quiet_items_def)
qed

lemma interrupt_inv:
  assumes inv: "recovery_inv s l"
  shows "recovery_inv (HAL_FDCAN_ErrorStatusCallback (Some FDCAN1) its psr ecr s)
      (if its AND FDCAN_IT_BUS_OFF \<noteq> 0 then l @ [It_BusOff] else l)"
    "recovery_inv (HAL_FDCAN_TxBufferCompleteCallback (Some FDCAN1) buffers s) (if buffers \<noteq> 0 then l @ [It_Tx] else l)"
proof -
  have grow: "recovery_inv s' (l @ [x])"
    if "bus_off_event_count s' = of_nat (bus_offs (l @ [x]))" "tx_complete_event_count s' = of_nat (frames_sent (l @ [x]))"
      "recovery_phase s' = recovery_phase s" "recovery_verification_pending s' = recovery_verification_pending s"
      "verification_bus_off_event_count s' = verification_bus_off_event_count s"
      "verification_tx_complete_snapshot s' = verification_tx_complete_snapshot s" "x = It_BusOff \<or> x = It_Tx" for s' x
  proof -
    have "recovery_earned a" if "l @ [x] = a @ It_Log APP_LOG_EVENT_CAN_RECOVERY_OK # b" for a b
      using inv split_front [OF that] \<open>x = It_BusOff \<or> x = It_Tx\<close> by (auto simp: recovery_inv_def)
    moreover have "\<exists>a b. l @ [x] = a @ It_Hal can_recovery_notifications HAL_OK # b
        \<and> verification_bus_off_event_count s' = of_nat (bus_offs a) \<and> verification_tx_complete_snapshot s' = of_nat (frames_sent a)"
      if p: "recovery_verification_pending s'"
    proof -
      obtain a b where "l = a @ It_Hal can_recovery_notifications HAL_OK # b"
        "verification_bus_off_event_count s = of_nat (bus_offs a)" "verification_tx_complete_snapshot s = of_nat (frames_sent a)"
        using inv p \<open>recovery_verification_pending s' = recovery_verification_pending s\<close> unfolding recovery_inv_def by blast
      then show ?thesis
        using \<open>verification_bus_off_event_count s' = _\<close> \<open>verification_tx_complete_snapshot s' = _\<close>
        by (intro exI [of _ a] exI [of _ "b @ [x]"]) simp
    qed
    moreover have "restart_calls (l @ [x]) = restart_calls l" using \<open>x = It_BusOff \<or> x = It_Tx\<close> by auto
    ultimately show ?thesis using inv that(1-3) by (simp add: recovery_inv_def)
  qed
  have one: "bus_offs [It_BusOff] = 1" "frames_sent [It_BusOff] = 0" "bus_offs [It_Tx] = 0" "frames_sent [It_Tx] = 1"
    by (simp_all add: bus_offs_def frames_sent_def)
  have same: "recovery_inv s' l" if "same_recovery s s'" for s'
    using recovery_inv_quiet [OF inv that, of "[]"] by simp
  have counts: "bus_off_event_count s = of_nat (bus_offs l)" "tx_complete_event_count s = of_nat (frames_sent l)"
    using inv by (simp_all add: recovery_inv_def)
  show "recovery_inv (HAL_FDCAN_ErrorStatusCallback (Some FDCAN1) its psr ecr s)
      (if its AND FDCAN_IT_BUS_OFF \<noteq> 0 then l @ [It_BusOff] else l)"
    by (cases "its AND FDCAN_IT_BUS_OFF = 0"; cases "its AND FDCAN_IT_ERROR_PASSIVE = 0")
      (auto simp: HAL_FDCAN_ErrorStatusCallback_def Let_def same_recovery_def counts one intro!: grow same)
  show "recovery_inv (HAL_FDCAN_TxBufferCompleteCallback (Some FDCAN1) buffers s) (if buffers \<noteq> 0 then l @ [It_Tx] else l)"
    using inv by (auto simp: HAL_FDCAN_TxBufferCompleteCallback_def counts one intro!: grow)
qed

lemma recovery_step_inv:
  assumes "recovery_inv s l" "recovery_step env e (s, w, l) = (s', w', l')" "bus_offs l < 2 ^ 32"
  shows "recovery_inv s' l' \<and> bus_offs l' \<le> Suc (bus_offs l)"
proof (cases e)
  case (Ev_Error its psr ecr)
  then show ?thesis using assms(2) interrupt_inv(1) [OF assms(1), of its psr ecr] by (auto simp: bus_offs_def)
next
  case (Ev_Tx buffers)
  then show ?thesis using assms(2) interrupt_inv(2) [OF assms(1), of buffers] by (auto simp: bus_offs_def)
next
  case (Ev_Main now)
  then have run: "CAN_Handle_BusOff_Recovery (recovery_logged env) now s (w, l) = (s', w', l')" using assms(2) by simp
  show ?thesis using recovery_handle_inv [OF assms(1) run assms(3)] by simp
qed

lemma recovery_run_inv:
  assumes "recovery_run env es (CAN_Recovery_Init, w, []) = (s, w', l)" "length es < 2 ^ 32"
  shows "recovery_inv s l \<and> bus_offs l \<le> length es"
  using assms
proof (induction es arbitrary: s w' l rule: rev_induct)
  case Nil
  then show ?case by (auto simp: recovery_run_def recovery_inv_def CAN_Recovery_Init_def bus_offs_def frames_sent_def)
next
  case (snoc e es)
  obtain s1 w1 l1 where r: "recovery_run env es (CAN_Recovery_Init, w, []) = (s1, w1, l1)" by (metis prod.exhaust)
  have i: "recovery_inv s1 l1" "bus_offs l1 \<le> length es" using snoc.IH [OF r] snoc.prems(2) by simp_all
  have "recovery_step env e (s1, w1, l1) = (s, w', l)" using snoc.prems(1) r by (simp add: recovery_run_def)
  from recovery_step_inv [OF i(1) this] show ?case using i(2) snoc.prems(2) by simp
qed

text \<open>
  C39. A recovery is reported only for a bus that works again. Over any history of interrupts and main-loop calls
  since the initialisation (fewer than 2 to the 32 of them, so that no event counter comes round), whatever
  the HAL answers and the clock shows: each report of a recovered bus in the log comes after a complete restart,
  the last call of which enabled the notifications, and after it a frame was sent and the bus did not go off
  again. The restart calls that succeed are always stop, start and notification in this order, over and over:
  no phase is skipped, and none that succeeded is repeated before the restart is complete.\<close>

theorem recovery_reported_when_earned:
  assumes "recovery_run env es (CAN_Recovery_Init, w, []) = (s, w', l)" "length es < 2 ^ 32"
  shows "(\<forall>a b. l = a @ It_Log APP_LOG_EVENT_CAN_RECOVERY_OK # b \<longrightarrow> recovery_earned a)
    \<and> restart_calls l = map restart_order [0..<length (restart_calls l)]"
  using recovery_run_inv [OF assms] unfolding recovery_inv_def by blast

text \<open>A bus that goes off, a start that fails once, and a frame after the second attempt.\<close>

definition demo_recovery_env :: "nat can_recovery_env" where
  "demo_recovery_env = \<lparr>cr_hal = (\<lambda>c n. (if n = 1 then HAL_ERROR else HAL_OK, n + 1)),
     cr_push = (\<lambda>src sev code d0 d1 n. n), cr_psr = (\<lambda>n. 0), cr_ecr = (\<lambda>n. 0)\<rparr>"

definition demo_bus_off :: "can_recovery_event list" where
  "demo_bus_off = [Ev_Error FDCAN_IT_BUS_OFF 7 8, Ev_Main 0, Ev_Main 100, Ev_Main 200, Ev_Main 400, Ev_Main 401, Ev_Tx 1, Ev_Main 402]"

theorem recovery_reported_when_earned_witness:
  "let l = snd (snd (recovery_run demo_recovery_env demo_bus_off (CAN_Recovery_Init, 0, [])))
   in l = [It_BusOff, It_Log APP_LOG_EVENT_CAN_BUS_OFF, It_Hal HAL_FDCAN_Stop HAL_OK, It_Hal HAL_FDCAN_Start HAL_ERROR,
     It_Log APP_LOG_EVENT_CAN_RECOVERY_FAILED, It_Hal HAL_FDCAN_Start HAL_OK, It_Hal can_recovery_notifications HAL_OK,
     It_Tx, It_Log APP_LOG_EVENT_CAN_RECOVERY_OK] \<and> recovery_earned (butlast l)"
proof -
  let ?l = "[It_BusOff, It_Log APP_LOG_EVENT_CAN_BUS_OFF, It_Hal HAL_FDCAN_Stop HAL_OK, It_Hal HAL_FDCAN_Start HAL_ERROR,
     It_Log APP_LOG_EVENT_CAN_RECOVERY_FAILED, It_Hal HAL_FDCAN_Start HAL_OK, It_Hal can_recovery_notifications HAL_OK, It_Tx]"
  have run: "snd (snd (recovery_run demo_recovery_env demo_bus_off (CAN_Recovery_Init, 0, [])))
      = ?l @ [It_Log APP_LOG_EVENT_CAN_RECOVERY_OK]"
    by code_simp
  obtain s w l where r: "recovery_run demo_recovery_env demo_bus_off (CAN_Recovery_Init, 0, []) = (s, w, l)"
    by (metis prod.exhaust)
  have "length demo_bus_off < 2 ^ 32" by (simp add: demo_bus_off_def)
  from recovery_reported_when_earned [OF r this] have "recovery_earned ?l" using run unfolding r by simp
  then show ?thesis unfolding run Let_def by simp
qed

end
