(* ===== verification/CanApp.thy ===== *)
theory CanApp
  imports CanUds AppLog AppDiagnostics AppControlPolicy CanControlAccess CanCommand CanRecovery
begin

text \<open>
  The command loop and the periodic slots of \<open>src/Core/Src/can_app.c\<close>: receiving frames, checking them,
  executing the commands, acknowledging them, and sending the counters of the two slots. The statics of
  the file are the record \<open>CAN_App\<close>, together with the control policy it drives; what it calls in the HAL
  and in other components is the record \<open>can_app_env\<close> of their answers on a state of any type.
\<close>

section \<open>Data\<close>

record CAN_TxSlot =
  sl_configured :: bool
  sl_active :: bool
  sl_requested_running :: bool
  sl_running :: bool
  sl_id_type :: bool
  sl_can_id :: u32
  sl_cycle_time_ms :: u16
  sl_counter_limit :: u32
  sl_counter_value :: u32
  sl_last_tx_time :: u32

record FDCAN_RxHeader =
  rxh_Identifier :: u32
  rxh_IdType :: u32
  rxh_RxFrameType :: u32
  rxh_DataLength :: u32
  rxh_FDFormat :: u32

record CAN_App =
  tx_slot_1 :: CAN_TxSlot
  tx_slot_2 :: CAN_TxSlot
  RxHeader :: FDCAN_RxHeader
  RxData :: bytes
  can_rx_stats :: CAN_App_RxStats
  control_access :: CAN_ControlAccess
  g_appControlPolicy :: App_ControlPolicySnapshot

text \<open>The calls that leave the file, by function and arguments; the answer is a number, 0 for a \<open>void\<close> function.\<close>

datatype can_app_call =
    Do_GetTick
  | Do_GetRxFifoFillLevel
  | Do_App_Log_Push u32 u32 u32 u32 u32
  | Do_App_Timing_Begin
  | Do_App_Timing_RecordAckElapsed u32
  | Do_CAN_IsoTp_OnCanFrame bytes u8 u32
  | Do_CAN_Handle_RTC_Set_Time bytes
  | Do_CAN_Handle_RTC_Set_DateTime bytes
  | Do_CAN_Handle_RTC_Set_Alarm bytes
  | Do_App_Log_Can_SendInfo
  | Do_App_Log_Can_SendRecord u32
  | Do_PWM_SelfTest_IsRunning
  | Do_PWM_SelfTest_Cancel
  | Do_PWM_SelfTest_Start
  | Do_PWM_Control_Set u32 u8
  | Do_CAN_Send_Pwm_Self_Test_Status
  | Do_TIC12400_Probe_SetBatterySwitchMask u32

record 'w can_app_env =
  env_call :: "can_app_call \<Rightarrow> 'w \<Rightarrow> u32 \<times> 'w"
  env_receive :: "'w \<Rightarrow> (FDCAN_RxHeader \<times> bytes) option \<times> 'w"
  env_send_priority :: "u32 \<Rightarrow> CAN_Transport_IdType \<Rightarrow> bytes \<Rightarrow> 'w \<Rightarrow> CAN_Transport_Result \<times> 'w"
  env_send_latest :: "u32 \<Rightarrow> CAN_Transport_IdType \<Rightarrow> bytes \<Rightarrow> 'w \<Rightarrow> CAN_Transport_Result \<times> 'w"
  env_error_code :: "'w \<Rightarrow> u32"

definition CAN_APP_RX_FRAME_BUDGET_PER_PROCESS :: nat where "CAN_APP_RX_FRAME_BUDGET_PER_PROCESS = 8"
definition FDCAN_REMOTE_FRAME :: u32 where "FDCAN_REMOTE_FRAME = 0x20000000"
definition FDCAN_FD_CAN :: u32 where "FDCAN_FD_CAN = 0x00200000"
definition CAN_PROTOCOL_GUI_COMMAND_ID_EXT :: u32 where "CAN_PROTOCOL_GUI_COMMAND_ID_EXT = 0x1894AABB"
definition CAN_PROTOCOL_COMMAND_ACK_TX_ID :: u32 where "CAN_PROTOCOL_COMMAND_ACK_TX_ID = 0x550"
definition CAN_PROTOCOL_COMMAND_ACK_ACCEPTED :: u8 where "CAN_PROTOCOL_COMMAND_ACK_ACCEPTED = 0"
definition CAN_PROTOCOL_COMMAND_ACK_INVALID_PAYLOAD :: u8 where "CAN_PROTOCOL_COMMAND_ACK_INVALID_PAYLOAD = 2"
definition CAN_PROTOCOL_COMMAND_ACK_UNKNOWN_COMMAND :: u8 where "CAN_PROTOCOL_COMMAND_ACK_UNKNOWN_COMMAND = 3"
definition CAN_PROTOCOL_COMMAND_ACK_ACCESS_DENIED :: u8 where "CAN_PROTOCOL_COMMAND_ACK_ACCESS_DENIED = 4"
definition CAN_PROTOCOL_COMMAND_ACK_FLAG_EXECUTED :: u8 where "CAN_PROTOCOL_COMMAND_ACK_FLAG_EXECUTED = 1"
definition CAN_PROTOCOL_COMMAND_ACK_FLAG_ACCESS_OPEN :: u8 where "CAN_PROTOCOL_COMMAND_ACK_FLAG_ACCESS_OPEN = 2"
definition APP_LOG_EVENT_CAN_RX_REJECTED :: u32 where "APP_LOG_EVENT_CAN_RX_REJECTED = 0x0103"
definition APP_LOG_EVENT_CAN_CONTROL_ACCESS_OPENED :: u32 where "APP_LOG_EVENT_CAN_CONTROL_ACCESS_OPENED = 0x0107"

fun can_reject_code :: "CAN_App_RxRejectReason \<Rightarrow> u32" where
  "can_reject_code CAN_APP_RX_REJECT_NONE = 0"
| "can_reject_code CAN_APP_RX_REJECT_WRONG_ID = 1"
| "can_reject_code CAN_APP_RX_REJECT_FRAME_FORMAT = 2"
| "can_reject_code CAN_APP_RX_REJECT_DLC = 3"
| "can_reject_code CAN_APP_RX_REJECT_UNKNOWN_COMMAND = 4"
| "can_reject_code CAN_APP_RX_REJECT_INVALID_PAYLOAD = 5"
| "can_reject_code CAN_APP_RX_REJECT_HAL_ERROR = 6"
| "can_reject_code CAN_APP_RX_REJECT_ACCESS_DENIED = 7"

section \<open>Bookkeeping\<close>

definition CAN_DecodeClassicDlc :: "u32 \<Rightarrow> u8 option" where
  "CAN_DecodeClassicDlc encoded_dlc =
    (if encoded_dlc = 0 \<or> encoded_dlc > FDCAN_DLC_BYTES_8 then None else Some (ucast encoded_dlc))"

definition can_log :: "'w can_app_env \<Rightarrow> u32 \<Rightarrow> u32 \<Rightarrow> u32 \<Rightarrow> u32 \<Rightarrow> u32 \<Rightarrow> 'w \<Rightarrow> 'w" where
  "can_log env src sev code d0 d1 w = snd (env_call env (Do_App_Log_Push src sev code d0 d1) w)"

fun can_count_reject :: "CAN_App_RxRejectReason \<Rightarrow> CAN_App_RxStats \<Rightarrow> CAN_App_RxStats" where
  "can_count_reject CAN_APP_RX_REJECT_WRONG_ID st = st\<lparr>rejected_wrong_id := rejected_wrong_id st + 1\<rparr>"
| "can_count_reject CAN_APP_RX_REJECT_FRAME_FORMAT st = st\<lparr>rejected_frame_format := rejected_frame_format st + 1\<rparr>"
| "can_count_reject CAN_APP_RX_REJECT_DLC st = st\<lparr>rejected_dlc := rejected_dlc st + 1\<rparr>"
| "can_count_reject CAN_APP_RX_REJECT_UNKNOWN_COMMAND st = st\<lparr>rejected_unknown_command := rejected_unknown_command st + 1\<rparr>"
| "can_count_reject CAN_APP_RX_REJECT_INVALID_PAYLOAD st = st\<lparr>rejected_invalid_payload := rejected_invalid_payload st + 1\<rparr>"
| "can_count_reject CAN_APP_RX_REJECT_ACCESS_DENIED st = st\<lparr>rejected_access_denied := rejected_access_denied st + 1\<rparr>"
| "can_count_reject CAN_APP_RX_REJECT_HAL_ERROR st = st\<lparr>hal_rx_errors := hal_rx_errors st + 1\<rparr>"
| "can_count_reject CAN_APP_RX_REJECT_NONE st = st"

definition can_reject_detail ::
  "'w can_app_env \<Rightarrow> CAN_App_RxRejectReason \<Rightarrow> u8 \<Rightarrow> FDCAN_RxHeader \<Rightarrow> 'w \<Rightarrow> u32" where
  "can_reject_detail env reason cmd h w = (case reason of
     CAN_APP_RX_REJECT_WRONG_ID \<Rightarrow> rxh_Identifier h
   | CAN_APP_RX_REJECT_FRAME_FORMAT \<Rightarrow> (if rxh_RxFrameType h = FDCAN_REMOTE_FRAME then 1 else 0)
       OR (if rxh_FDFormat h = FDCAN_FD_CAN then push_bit 1 1 else 0)
   | CAN_APP_RX_REJECT_DLC \<Rightarrow> rxh_DataLength h
   | CAN_APP_RX_REJECT_HAL_ERROR \<Rightarrow> env_error_code env w
   | CAN_APP_RX_REJECT_NONE \<Rightarrow> 0
   | _ \<Rightarrow> ucast cmd)"

definition CAN_Record_Rx_Reject ::
  "'w can_app_env \<Rightarrow> CAN_App_RxRejectReason \<Rightarrow> u8 \<Rightarrow> CAN_App \<Rightarrow> 'w \<Rightarrow> CAN_App \<times> 'w" where
  "CAN_Record_Rx_Reject env reason cmd a w =
    (let st = (can_rx_stats a)\<lparr>last_reject_reason := reason, last_rejected_command := cmd\<rparr>;
         sev = (if reason = CAN_APP_RX_REJECT_HAL_ERROR then APP_LOG_SEVERITY_FAULT else APP_LOG_SEVERITY_WARNING);
         a = a\<lparr>can_rx_stats := can_count_reject reason st\<rparr>
     in if reason = CAN_APP_RX_REJECT_NONE then (a, w)
        else (a, can_log env APP_LOG_SOURCE_CAN sev APP_LOG_EVENT_CAN_RX_REJECTED (can_reject_code reason)
          (can_reject_detail env reason cmd (RxHeader a) w) w))"

definition CAN_App_RequestControlAccessFromIsr :: "CAN_App \<Rightarrow> CAN_App" where
  "CAN_App_RequestControlAccessFromIsr a = (case CAN_ControlAccess_RequestFromIsr (Some (control_access a)) of
     Some c \<Rightarrow> a\<lparr>control_access := c\<rparr> | None \<Rightarrow> a)"

definition CAN_App_UpdateControlAccess :: "'w can_app_env \<Rightarrow> CAN_App \<Rightarrow> 'w \<Rightarrow> CAN_App \<times> 'w" where
  "CAN_App_UpdateControlAccess env a w = (case env_call env Do_GetTick w of (now, w) \<Rightarrow>
     (case CAN_ControlAccess_Update (Some (control_access a)) now of
        (update, Some c) \<Rightarrow> (a\<lparr>control_access := c\<rparr>,
          if update = CAN_CONTROL_ACCESS_OPENED
          then can_log env APP_LOG_SOURCE_CAN APP_LOG_SEVERITY_INFO APP_LOG_EVENT_CAN_CONTROL_ACCESS_OPENED
            CAN_CONTROL_ACCESS_WINDOW_MS (ca_deadline c) w
          else w)
      | (update, None) \<Rightarrow> (a, w)))"

definition can_ack_seconds :: "u32 \<Rightarrow> u8" where
  "can_ack_seconds remaining_ms = (if remaining_ms = 0 then 0
     else if (remaining_ms + 999) div 1000 > 255 then 255 else ucast ((remaining_ms + 999) div 1000))"

definition CAN_Send_Command_Ack ::
  "'w can_app_env \<Rightarrow> u8 \<Rightarrow> u8 \<Rightarrow> u8 \<Rightarrow> u32 \<Rightarrow> CAN_App \<Rightarrow> 'w \<Rightarrow> CAN_App \<times> 'w" where
  "CAN_Send_Command_Ack env cmd status flags frame_start_cycles a w =
    (case env_call env Do_GetTick w of (now, w) \<Rightarrow>
     let remaining_ms = CAN_ControlAccess_RemainingMs (Some (control_access a)) now;
         flags = (if remaining_ms \<noteq> 0 then flags OR CAN_PROTOCOL_COMMAND_ACK_FLAG_ACCESS_OPEN else flags);
         payload = [CAN_PROTOCOL_VERSION, cmd, CAN_Protocol_CalculateCommandToken (Some (RxData a)), status, flags,
           can_ack_seconds remaining_ms, 0, 0]
     in case env_send_priority env CAN_PROTOCOL_COMMAND_ACK_TX_ID CAN_TRANSPORT_ID_STANDARD payload w of (result, w) \<Rightarrow>
     let st = can_rx_stats a;
         a = (if result = CAN_TRANSPORT_OK \<or> result = CAN_TRANSPORT_QUEUED
              then a\<lparr>can_rx_stats := st\<lparr>command_acks_sent := command_acks_sent st + 1\<rparr>\<rparr>
              else a\<lparr>can_rx_stats := st\<lparr>command_ack_tx_failures := command_ack_tx_failures st + 1\<rparr>\<rparr>)
     in (a, snd (env_call env (Do_App_Timing_RecordAckElapsed frame_start_cycles) w)))"

section \<open>Slots\<close>

definition CAN_Reset_Slot :: "CAN_TxSlot \<Rightarrow> CAN_TxSlot" where
  "CAN_Reset_Slot sl = \<lparr>sl_configured = False, sl_active = False, sl_requested_running = False, sl_running = False,
     sl_id_type = False, sl_can_id = 0, sl_cycle_time_ms = 0, sl_counter_limit = 0, sl_counter_value = 0,
     sl_last_tx_time = 0\<rparr>"

definition CAN_Set_Slot_Config :: "bytes \<Rightarrow> CAN_TxSlot \<Rightarrow> CAN_TxSlot" where
  "CAN_Set_Slot_Config data sl =
    (let flags = data ! 1;
         id_type = (flags AND CAN_PROTOCOL_SLOT_FLAG_EXTENDED_ID \<noteq> 0);
         can_id = CAN_Protocol_ReadU32LE data 2;
         cycle_time_ms = CAN_Protocol_ReadU16LE data 6;
         cycle_time_ms = (if cycle_time_ms = 0 then 1 else cycle_time_ms)
     in if \<not> CAN_Protocol_IsValidId id_type can_id
        then sl\<lparr>sl_active := False, sl_requested_running := False, sl_running := False\<rparr>
        else let sl = sl\<lparr>sl_configured := True\<rparr>;
                 sl = (if flags AND CAN_PROTOCOL_SLOT_FLAG_ENABLE \<noteq> 0 then sl\<lparr>sl_active := True\<rparr>
                       else sl\<lparr>sl_active := False, sl_requested_running := False, sl_running := False\<rparr>)
             in sl\<lparr>sl_id_type := id_type, sl_can_id := can_id, sl_cycle_time_ms := cycle_time_ms,
                  sl_running := False, sl_requested_running := False, sl_counter_value := 0\<rparr>)"

text \<open>Start or stop a counter; the slot is given and returned, the policy request goes to the application state.\<close>

definition CAN_Start_Slot_Counter :: "'w can_app_env \<Rightarrow> u8 \<Rightarrow> bytes \<Rightarrow> CAN_TxSlot \<Rightarrow> App_ControlPolicySnapshot \<Rightarrow> 'w
    \<Rightarrow> CAN_TxSlot \<times> App_ControlPolicySnapshot \<times> 'w" where
  "CAN_Start_Slot_Counter env slot_number data sl g w =
    (let counter_limit = CAN_Protocol_ReadU32LE data 2;
         sl = sl\<lparr>sl_counter_limit := counter_limit\<rparr>
     in if \<not> sl_configured sl \<or> \<not> sl_active sl
        then (sl\<lparr>sl_requested_running := False, sl_running := False\<rparr>, App_ControlPolicy_SetSlotRequest slot_number 0 g, w)
        else if counter_limit = 0
        then (sl\<lparr>sl_requested_running := False, sl_running := False, sl_counter_value := 0\<rparr>,
              App_ControlPolicy_SetSlotRequest slot_number 0 g, w)
        else let sl = sl\<lparr>sl_counter_value := 1, sl_requested_running := True\<rparr>;
                 g = App_ControlPolicy_SetSlotRequest slot_number 1 g
             in case env_call env Do_GetTick w of (now, w) \<Rightarrow>
               (sl\<lparr>sl_last_tx_time := now - ucast (sl_cycle_time_ms sl)\<rparr>, g, w))"

definition CAN_Handle_LED_Command :: "bytes \<Rightarrow> App_ControlPolicySnapshot \<Rightarrow> App_ControlPolicySnapshot" where
  "CAN_Handle_LED_Command data g = App_ControlPolicy_SetLedRequest (data ! 1) (data ! 2) g"

definition CAN_Apply_Slot_Policy :: "'w can_app_env \<Rightarrow> u8 \<Rightarrow> CAN_TxSlot \<Rightarrow> 'w \<Rightarrow> CAN_TxSlot \<times> 'w" where
  "CAN_Apply_Slot_Policy env effective_running sl w =
    (let may_run = (effective_running \<noteq> 0 \<and> sl_requested_running sl \<and> sl_configured sl \<and> sl_active sl
           \<and> sl_counter_limit sl \<noteq> 0)
     in if may_run \<and> \<not> sl_running sl
        then (case env_call env Do_GetTick w of (now, w) \<Rightarrow>
          (sl\<lparr>sl_last_tx_time := now - ucast (sl_cycle_time_ms sl), sl_running := may_run\<rparr>, w))
        else (sl\<lparr>sl_running := may_run\<rparr>, w))"

definition CAN_Process_TxSlot :: "'w can_app_env \<Rightarrow> CAN_TxSlot \<Rightarrow> 'w \<Rightarrow> CAN_TxSlot \<times> 'w" where
  "CAN_Process_TxSlot env sl w =
    (if \<not> sl_running sl then (sl, w)
     else if sl_counter_limit sl = 0 then (sl\<lparr>sl_running := False, sl_counter_value := 0\<rparr>, w)
     else let sl = (if sl_counter_value sl = 0 then sl\<lparr>sl_counter_value := 1\<rparr> else sl);
              sl = (if sl_counter_value sl > sl_counter_limit sl then sl\<lparr>sl_counter_value := 1\<rparr> else sl)
     in case env_call env Do_GetTick w of (now, w) \<Rightarrow>
       if now - sl_last_tx_time sl \<ge> ucast (sl_cycle_time_ms sl)
       then let sl = sl\<lparr>sl_last_tx_time := now\<rparr>;
                id_type = (if \<not> sl_id_type sl then CAN_TRANSPORT_ID_STANDARD else CAN_TRANSPORT_ID_EXTENDED)
            in case env_send_latest env (sl_can_id sl) id_type
                 (CAN_Protocol_WriteU32LE 0 (sl_counter_value sl) (replicate 8 0)) w of (result, w) \<Rightarrow>
              (if result = CAN_TRANSPORT_OK \<or> result = CAN_TRANSPORT_QUEUED
               then (if sl_counter_value sl \<ge> sl_counter_limit sl then sl\<lparr>sl_counter_value := 1\<rparr>
                     else sl\<lparr>sl_counter_value := sl_counter_value sl + 1\<rparr>)
               else sl, w)
       else (sl, w))"

definition CAN_Process_TxSlots :: "'w can_app_env \<Rightarrow> CAN_App \<Rightarrow> 'w \<Rightarrow> CAN_App \<times> 'w" where
  "CAN_Process_TxSlots env a w = (case CAN_Process_TxSlot env (tx_slot_1 a) w of (s1, w) \<Rightarrow>
     case CAN_Process_TxSlot env (tx_slot_2 a) w of (s2, w) \<Rightarrow> (a\<lparr>tx_slot_1 := s1, tx_slot_2 := s2\<rparr>, w))"

section \<open>Commands\<close>

text \<open>Executing an accepted command; the flags of its acknowledgement are returned first.\<close>

definition can_execute_command :: "'w can_app_env \<Rightarrow> CAN_App \<Rightarrow> 'w \<Rightarrow> u8 \<times> CAN_App \<times> 'w" where
  "can_execute_command env a w =
    (let d = RxData a; cmd = d ! 0; g = g_appControlPolicy a; ok = CAN_PROTOCOL_COMMAND_ACK_FLAG_EXECUTED;
         call = (\<lambda>c w. snd (env_call env c w))
     in if cmd = CAN_PROTOCOL_CMD_SET_SLOT_1 then
          (ok, a\<lparr>tx_slot_1 := CAN_Set_Slot_Config d (tx_slot_1 a), g_appControlPolicy := App_ControlPolicy_SetSlotRequest 1 0 g\<rparr>, w)
        else if cmd = CAN_PROTOCOL_CMD_SET_SLOT_2 then
          (ok, a\<lparr>tx_slot_2 := CAN_Set_Slot_Config d (tx_slot_2 a), g_appControlPolicy := App_ControlPolicy_SetSlotRequest 2 0 g\<rparr>, w)
        else if cmd = CAN_PROTOCOL_CMD_START_SLOT_1_COUNTER then
          (case CAN_Start_Slot_Counter env 1 d (tx_slot_1 a) g w of (sl, g, w) \<Rightarrow>
            (ok, a\<lparr>tx_slot_1 := sl, g_appControlPolicy := g\<rparr>, w))
        else if cmd = CAN_PROTOCOL_CMD_START_SLOT_2_COUNTER then
          (case CAN_Start_Slot_Counter env 2 d (tx_slot_2 a) g w of (sl, g, w) \<Rightarrow>
            (ok, a\<lparr>tx_slot_2 := sl, g_appControlPolicy := g\<rparr>, w))
        else if cmd = CAN_PROTOCOL_CMD_LED_CONTROL then (ok, a\<lparr>g_appControlPolicy := CAN_Handle_LED_Command d g\<rparr>, w)
        else if cmd = CAN_PROTOCOL_CMD_RTC_SET_TIME then (ok, a, call (Do_CAN_Handle_RTC_Set_Time d) w)
        else if cmd = CAN_PROTOCOL_CMD_RTC_SET_DATETIME then (ok, a, call (Do_CAN_Handle_RTC_Set_DateTime d) w)
        else if cmd = CAN_PROTOCOL_CMD_RTC_SET_ALARM then (ok, a, call (Do_CAN_Handle_RTC_Set_Alarm d) w)
        else if cmd = CAN_PROTOCOL_CMD_LOG_GET_INFO then (ok, a, call Do_App_Log_Can_SendInfo w)
        else if cmd = CAN_PROTOCOL_CMD_LOG_READ_SEQUENCE then
          (ok, a, call (Do_App_Log_Can_SendRecord (CAN_Protocol_ReadU32LE d 1)) w)
        else if cmd = CAN_PROTOCOL_CMD_PWM_SET then
          (case env_call env Do_PWM_SelfTest_IsRunning w of (running, w) \<Rightarrow>
           let freq = CAN_Protocol_ReadU32LE d 1; duty = d ! 5;
               w = (if running \<noteq> 0 then call Do_PWM_SelfTest_Cancel w else w)
           in if freq = 0 then (ok, a\<lparr>g_appControlPolicy := App_ControlPolicy_SetPwmRequest 0 g\<rparr>, w)
              else (case env_call env (Do_PWM_Control_Set freq duty) w of (result, w) \<Rightarrow>
                if result = 0 then (ok, a\<lparr>g_appControlPolicy := App_ControlPolicy_SetPwmRequest 1 g\<rparr>, w)
                else (ok, a, w)))
        else if cmd = CAN_PROTOCOL_CMD_PWM_SELF_TEST then
          (let w = (if d ! 1 = 0 then call Do_PWM_SelfTest_Cancel w
                    else if cp_pwm_permitted g \<noteq> 0 then call Do_PWM_SelfTest_Start w else w)
           in (ok, a, call Do_CAN_Send_Pwm_Self_Test_Status w))
        else if cmd = CAN_PROTOCOL_CMD_TIC12400_SET_POLARITY then
          (case CAN_Protocol_DecodeTic12400PolarityCommand (Some d) of
             None \<Rightarrow> (ok AND NOT CAN_PROTOCOL_COMMAND_ACK_FLAG_EXECUTED, a, w)
           | Some battery_switch_mask \<Rightarrow>
               (case env_call env (Do_TIC12400_Probe_SetBatterySwitchMask battery_switch_mask) w of (r, w) \<Rightarrow>
                 (if r = 0 then ok AND NOT CAN_PROTOCOL_COMMAND_ACK_FLAG_EXECUTED else ok, a, w)))
        else (ok, a, w))"

text \<open>What one received frame leads to, each \<open>continue\<close> of the loop body being a branch.\<close>

definition can_process_command :: "'w can_app_env \<Rightarrow> u32 \<Rightarrow> CAN_App \<Rightarrow> 'w \<Rightarrow> CAN_App \<times> 'w" where
  "can_process_command env frame_start a w =
    (let cmd = RxData a ! 0; validation_result = CAN_CommandValidation_Validate (Some (RxData a))
     in if validation_result = CAN_COMMAND_VALIDATION_UNKNOWN then
          (case CAN_Record_Rx_Reject env CAN_APP_RX_REJECT_UNKNOWN_COMMAND cmd a w of (a, w) \<Rightarrow>
            CAN_Send_Command_Ack env cmd CAN_PROTOCOL_COMMAND_ACK_UNKNOWN_COMMAND 0 frame_start a w)
        else if validation_result = CAN_COMMAND_VALIDATION_INVALID_PAYLOAD then
          (case CAN_Record_Rx_Reject env CAN_APP_RX_REJECT_INVALID_PAYLOAD cmd a w of (a, w) \<Rightarrow>
            CAN_Send_Command_Ack env cmd CAN_PROTOCOL_COMMAND_ACK_INVALID_PAYLOAD 0 frame_start a w)
        else (case CAN_App_UpdateControlAccess env a w of (a, w) \<Rightarrow>
          if CAN_CommandGuard_IsPrivileged (Some (RxData a)) \<and> \<not> CAN_ControlAccess_IsOpen (Some (control_access a)) then
            (case CAN_Record_Rx_Reject env CAN_APP_RX_REJECT_ACCESS_DENIED cmd a w of (a, w) \<Rightarrow>
              CAN_Send_Command_Ack env cmd CAN_PROTOCOL_COMMAND_ACK_ACCESS_DENIED 0 frame_start a w)
          else let a = a\<lparr>can_rx_stats := (can_rx_stats a)\<lparr>commands_accepted := commands_accepted (can_rx_stats a) + 1\<rparr>\<rparr>
            in case can_execute_command env a w of (ack_flags, a, w) \<Rightarrow>
              CAN_Send_Command_Ack env cmd CAN_PROTOCOL_COMMAND_ACK_ACCEPTED ack_flags frame_start a w))"

definition can_process_frame :: "'w can_app_env \<Rightarrow> CAN_App \<Rightarrow> 'w \<Rightarrow> CAN_App \<times> 'w" where
  "can_process_frame env a w =
    (let a = a\<lparr>can_rx_stats := (can_rx_stats a)\<lparr>frames_received := frames_received (can_rx_stats a) + 1\<rparr>\<rparr>; h = RxHeader a
     in case env_call env Do_App_Timing_Begin w of (frame_start_cycles, w) \<Rightarrow>
       if rxh_RxFrameType h \<noteq> FDCAN_DATA_FRAME \<or> rxh_FDFormat h \<noteq> FDCAN_CLASSIC_CAN
       then CAN_Record_Rx_Reject env CAN_APP_RX_REJECT_FRAME_FORMAT 0 a w
       else if rxh_IdType h = FDCAN_STANDARD_ID \<and> rxh_Identifier h = CAN_PROTOCOL_DIAGNOSTIC_REQUEST_RX_ID
       then (case CAN_DecodeClassicDlc (rxh_DataLength h) of
           None \<Rightarrow> CAN_Record_Rx_Reject env CAN_APP_RX_REJECT_DLC 0 a w
         | Some dlc \<Rightarrow> (case env_call env Do_GetTick w of (now, w) \<Rightarrow>
             (a, snd (env_call env (Do_CAN_IsoTp_OnCanFrame (RxData a) dlc (now * 1000)) w))))
       else if rxh_IdType h \<noteq> FDCAN_EXTENDED_ID \<or> rxh_Identifier h \<noteq> CAN_PROTOCOL_GUI_COMMAND_ID_EXT
       then CAN_Record_Rx_Reject env CAN_APP_RX_REJECT_WRONG_ID 0 a w
       else if rxh_DataLength h \<noteq> FDCAN_DLC_BYTES_8
       then CAN_Record_Rx_Reject env CAN_APP_RX_REJECT_DLC 0 a w
       else can_process_command env frame_start_cycles a w)"

text \<open>The loop, by what is left of its budget; it returns how many frames it took.\<close>

fun can_rx_loop :: "'w can_app_env \<Rightarrow> nat \<Rightarrow> nat \<Rightarrow> CAN_App \<Rightarrow> 'w \<Rightarrow> nat \<times> CAN_App \<times> 'w" where
  "can_rx_loop env 0 processed_count a w = (processed_count, a, w)"
| "can_rx_loop env (Suc left) processed_count a w =
    (case env_call env Do_GetRxFifoFillLevel w of (fill, w) \<Rightarrow>
      if fill > 0
      then (case env_receive env w of
          (None, w) \<Rightarrow> (case CAN_Record_Rx_Reject env CAN_APP_RX_REJECT_HAL_ERROR 0 a w of (a, w) \<Rightarrow> (processed_count, a, w))
        | (Some (h, d), w) \<Rightarrow> (case can_process_frame env (a\<lparr>RxHeader := h, RxData := d\<rparr>) w of (a, w) \<Rightarrow>
            can_rx_loop env left (processed_count + 1) a w))
      else (processed_count, a, w))"

definition CAN_Process_Rx_Command :: "'w can_app_env \<Rightarrow> CAN_App \<Rightarrow> 'w \<Rightarrow> CAN_App \<times> 'w" where
  "CAN_Process_Rx_Command env a w = (case CAN_App_UpdateControlAccess env a w of (a, w) \<Rightarrow>
     case can_rx_loop env CAN_APP_RX_FRAME_BUDGET_PER_PROCESS 0 a w of (processed_count, a, w) \<Rightarrow>
       if processed_count = CAN_APP_RX_FRAME_BUDGET_PER_PROCESS
       then (case env_call env Do_GetRxFifoFillLevel w of (fill, w) \<Rightarrow>
         (if fill > 0 then a\<lparr>can_rx_stats := (can_rx_stats a)\<lparr>rx_budget_hits := rx_budget_hits (can_rx_stats a) + 1\<rparr>\<rparr>
          else a, w))
       else (a, w))"

end
