(* ===== verification/CanAppSafety.thy ===== *)
theory CanAppSafety
  imports CanApp
begin

text \<open>
  What the command loop of \<open>CanApp\<close> can do without the service window: it never activates anything. Every
  call it makes is logged, so that the statement covers the calls that leave the file.
\<close>

section \<open>Logging the calls\<close>

definition app_logged :: "'w can_app_env \<Rightarrow> ('w \<times> can_app_call list) can_app_env" where
  "app_logged env = \<lparr>env_call = (\<lambda>c (w, l). case env_call env c w of (r, w) \<Rightarrow> (r, w, l @ [c])),
     env_receive = (\<lambda>(w, l). case env_receive env w of (r, w) \<Rightarrow> (r, w, l)),
     env_send_priority = (\<lambda>i t d (w, l). case env_send_priority env i t d w of (r, w) \<Rightarrow> (r, w, l)),
     env_send_latest = (\<lambda>i t d (w, l). case env_send_latest env i t d w of (r, w) \<Rightarrow> (r, w, l)),
     env_error_code = (\<lambda>(w, l). env_error_code env w)\<rparr>"

lemma app_logged_calls:
  "snd (snd (env_call (app_logged env) c w)) = snd w @ [c]"
  "snd (snd (env_receive (app_logged env) w)) = snd w"
  "snd (snd (env_send_priority (app_logged env) i t d w)) = snd w"
  by (simp_all add: app_logged_def split: prod.split)

lemma app_logged_eqD:
  "env_call (app_logged env) c w = (r, w') \<Longrightarrow> snd w' = snd w @ [c]"
  "env_receive (app_logged env) w = (x, w') \<Longrightarrow> snd w' = snd w"
  "env_send_priority (app_logged env) i t d w = (y, w') \<Longrightarrow> snd w' = snd w"
  using app_logged_calls by (metis snd_conv)+

lemma can_log_logged: "snd (can_log (app_logged env) s1 s2 c d0 d1 w) = snd w @ [Do_App_Log_Push s1 s2 c d0 d1]"
  by (simp add: can_log_def app_logged_calls)

section \<open>Without the window nothing is activated\<close>

text \<open>The calls that put something into operation or set a clock, an alarm or an input polarity.\<close>

fun can_activating :: "can_app_call \<Rightarrow> bool" where
  "can_activating (Do_CAN_Handle_RTC_Set_Time _) = True"
| "can_activating (Do_CAN_Handle_RTC_Set_DateTime _) = True"
| "can_activating (Do_CAN_Handle_RTC_Set_Alarm _) = True"
| "can_activating Do_PWM_SelfTest_Start = True"
| "can_activating (Do_PWM_Control_Set _ _) = True"
| "can_activating (Do_TIC12400_Probe_SetBatterySwitchMask _) = True"
| "can_activating _ = False"

definition slot_not_more :: "CAN_TxSlot \<Rightarrow> CAN_TxSlot \<Rightarrow> bool" where
  "slot_not_more sl sl' \<longleftrightarrow> (sl_active sl' \<longrightarrow> sl_active sl) \<and> (sl_requested_running sl' \<longrightarrow> sl_requested_running sl)
     \<and> (sl_running sl' \<longrightarrow> sl_running sl)"

definition requests_not_more :: "App_ControlPolicySnapshot \<Rightarrow> App_ControlPolicySnapshot \<Rightarrow> bool" where
  "requests_not_more g g' \<longleftrightarrow> (cp_led_1_requested g' \<noteq> 0 \<longrightarrow> cp_led_1_requested g \<noteq> 0)
     \<and> (cp_led_2_requested g' \<noteq> 0 \<longrightarrow> cp_led_2_requested g \<noteq> 0) \<and> (cp_pwm_requested g' \<noteq> 0 \<longrightarrow> cp_pwm_requested g \<noteq> 0)
     \<and> (cp_slot_1_requested g' \<noteq> 0 \<longrightarrow> cp_slot_1_requested g \<noteq> 0)
     \<and> (cp_slot_2_requested g' \<noteq> 0 \<longrightarrow> cp_slot_2_requested g \<noteq> 0)"

text \<open>From one state and log to another, nothing more is active and no activating call was made.\<close>

definition can_quiet :: "CAN_App \<Rightarrow> 'w \<times> can_app_call list \<Rightarrow> CAN_App \<Rightarrow> 'w \<times> can_app_call list \<Rightarrow> bool" where
  "can_quiet a w a' w' \<longleftrightarrow> slot_not_more (tx_slot_1 a) (tx_slot_1 a') \<and> slot_not_more (tx_slot_2 a) (tx_slot_2 a')
     \<and> requests_not_more (g_appControlPolicy a) (g_appControlPolicy a') \<and> control_access a' = control_access a
     \<and> (\<exists>k. snd w' = snd w @ k \<and> \<not> list_ex can_activating k)"

definition access_closed :: "CAN_App \<Rightarrow> bool" where
  "access_closed a \<longleftrightarrow> \<not> ca_active (control_access a)
     \<and> ca_request_count (control_access a) = ca_handled_request_count (control_access a)"

lemma not_more_refl [simp]: "slot_not_more s s" "requests_not_more g g"
  by (simp_all add: slot_not_more_def requests_not_more_def)

lemma can_quiet_trans:
  assumes "can_quiet a w a1 w1" "can_quiet a1 w1 a2 w2"
  shows "can_quiet a w a2 w2"
proof -
  have s: "slot_not_more x z" if "slot_not_more x y" "slot_not_more y z" for x y z
    using that by (auto simp: slot_not_more_def)
  have r: "requests_not_more x z" if "requests_not_more x y" "requests_not_more y z" for x y z
    using that by (auto simp: requests_not_more_def)
  obtain k1 k2 where "snd w1 = snd w @ k1" "snd w2 = snd w1 @ k2" "\<not> list_ex can_activating k1" "\<not> list_ex can_activating k2"
    using assms by (auto simp: can_quiet_def)
  then have "snd w2 = snd w @ (k1 @ k2) \<and> \<not> list_ex can_activating (k1 @ k2)" by simp
  then show ?thesis using assms s r unfolding can_quiet_def by metis
qed

text \<open>A step that leaves slots, requests and window alone and logs only harmless calls.\<close>

lemma can_quietI:
  assumes "tx_slot_1 a' = tx_slot_1 a" "tx_slot_2 a' = tx_slot_2 a" "g_appControlPolicy a' = g_appControlPolicy a"
    "control_access a' = control_access a" "snd w' = snd w @ k" "\<not> list_ex can_activating k"
  shows "can_quiet a w a' w'"
  using assms by (auto simp: can_quiet_def)

lemma can_quiet_call:
  assumes "env_call (app_logged env) c w = (r, w')" "\<not> can_activating c"
  shows "can_quiet a w a w'"
  by (rule can_quietI [where k = "[c]"]) (use assms in \<open>simp_all add: app_logged_eqD(1)\<close>)

lemma can_quiet_reject:
  assumes "CAN_Record_Rx_Reject (app_logged env) reason cmd a w = (a', w')"
  shows "can_quiet a w a' w'" "RxData a' = RxData a" "RxHeader a' = RxHeader a"
proof -
  show "RxData a' = RxData a" "RxHeader a' = RxHeader a"
    using assms by (auto simp: CAN_Record_Rx_Reject_def Let_def split: if_splits)
  have "\<exists>k. snd w' = snd w @ k \<and> \<not> list_ex can_activating k"
    using assms by (auto simp: CAN_Record_Rx_Reject_def Let_def can_log_logged split: if_splits)
  then obtain k where "snd w' = snd w @ k" "\<not> list_ex can_activating k" by blast
  then show "can_quiet a w a' w'" using assms
    by (intro can_quietI [where k = k]) (auto simp: CAN_Record_Rx_Reject_def Let_def split: if_splits)
qed

lemma can_quiet_ack:
  assumes "CAN_Send_Command_Ack (app_logged env) cmd status flags start a w = (a', w')"
  shows "can_quiet a w a' w'"
proof -
  obtain now w1 where t: "env_call (app_logged env) Do_GetTick w = (now, w1)" by (metis prod.exhaust)
  obtain p where p: "CAN_Send_Command_Ack (app_logged env) cmd status flags start a w =
    (case env_send_priority (app_logged env) CAN_PROTOCOL_COMMAND_ACK_TX_ID CAN_TRANSPORT_ID_STANDARD p w1 of (result, w) \<Rightarrow>
      (if result = CAN_TRANSPORT_OK \<or> result = CAN_TRANSPORT_QUEUED
       then a\<lparr>can_rx_stats := (can_rx_stats a)\<lparr>command_acks_sent := command_acks_sent (can_rx_stats a) + 1\<rparr>\<rparr>
       else a\<lparr>can_rx_stats := (can_rx_stats a)\<lparr>command_ack_tx_failures := command_ack_tx_failures (can_rx_stats a) + 1\<rparr>\<rparr>,
       snd (env_call (app_logged env) (Do_App_Timing_RecordAckElapsed start) w)))"
    unfolding CAN_Send_Command_Ack_def t Let_def prod.case by blast
  obtain r w2 where s: "env_send_priority (app_logged env) CAN_PROTOCOL_COMMAND_ACK_TX_ID CAN_TRANSPORT_ID_STANDARD p w1 = (r, w2)"
    by (metis prod.exhaust)
  have "snd w' = snd w @ [Do_GetTick, Do_App_Timing_RecordAckElapsed start]"
    using assms unfolding p s using app_logged_eqD(1) [OF t] app_logged_eqD(3) [OF s] by (auto simp: app_logged_calls)
  then show ?thesis
    by (rule can_quietI [rotated 4]) (use assms in \<open>auto simp: p s split: if_splits\<close>)
qed

lemma can_quiet_update:
  assumes "access_closed a" "CAN_App_UpdateControlAccess (app_logged env) a w = (a', w')"
  shows "can_quiet a w a' w'" "a' = a"
proof -
  obtain now w1 where t: "env_call (app_logged env) Do_GetTick w = (now, w1)" by (metis prod.exhaust)
  have "CAN_ControlAccess_Update (Some (control_access a)) now = (CAN_CONTROL_ACCESS_NO_CHANGE, Some (control_access a))"
    using assms(1) by (simp add: access_closed_def CAN_ControlAccess_Update_def)
  then have eq: "a' = a" "w' = w1" using assms(2) by (simp_all add: CAN_App_UpdateControlAccess_def t)
  then show "can_quiet a w a' w'" "a' = a" using can_quiet_call [OF t] by simp_all
qed

text \<open>Switching off through the policy and the slots takes nothing more into operation.\<close>

lemma requests_off:
  "requests_not_more g (App_ControlPolicy_SetSlotRequest n 0 g)"
  "requests_not_more g (App_ControlPolicy_SetPwmRequest 0 g)"
  "requests_not_more g (App_ControlPolicy_SetLedRequest n 0 g)"
  by (auto simp: requests_not_more_def App_ControlPolicy_SetSlotRequest_def App_ControlPolicy_SetPwmRequest_def
      App_ControlPolicy_SetLedRequest_def App_ControlPolicy_Recalculate_def Let_def)

lemma slot_off:
  "data ! 1 AND CAN_PROTOCOL_SLOT_FLAG_ENABLE = 0 \<Longrightarrow> slot_not_more sl (CAN_Set_Slot_Config data sl)"
  by (auto simp: slot_not_more_def CAN_Set_Slot_Config_def Let_def)

lemma slot_counter_off:
  assumes "CAN_Protocol_ReadU32LE data 2 = 0"
  shows "\<exists>sl'. CAN_Start_Slot_Counter env n data sl g w = (sl', App_ControlPolicy_SetSlotRequest n 0 g, w) \<and> slot_not_more sl sl'"
  using assms by (auto simp: slot_not_more_def CAN_Start_Slot_Counter_def Let_def)

lemma can_quiet_execute:
  assumes "\<not> CAN_CommandGuard_IsPrivileged (Some (RxData a))"
    and run: "can_execute_command (app_logged env) a w = (f, a', w')"
  shows "can_quiet a w a' w'"
proof -
  let ?c = "RxData a ! 0"
  have u: "?c = 0x30 \<or> ?c = 0x31 \<or> ?c = 1 \<or> ?c = 2 \<or> ?c = 0x11 \<or> ?c = 0x12 \<or> ?c = 0x10 \<or> ?c = 0x40 \<or> ?c = 0x41"
  proof (rule ccontr)
    assume "\<not> ?thesis"
    then show False using assms(1) by (simp add: CAN_CommandGuard_IsPrivileged_def command_codes)
  qed
  have off: "(?c = 1 \<or> ?c = 2 \<longrightarrow> RxData a ! 1 AND CAN_PROTOCOL_SLOT_FLAG_ENABLE = 0)
    \<and> (?c = 0x11 \<or> ?c = 0x12 \<longrightarrow> CAN_Protocol_ReadU32LE (RxData a) 2 = 0)
    \<and> (?c = 0x10 \<longrightarrow> RxData a ! 2 = 0) \<and> (?c = 0x40 \<longrightarrow> CAN_Protocol_ReadU32LE (RxData a) 1 = 0)
    \<and> (?c = 0x41 \<longrightarrow> RxData a ! 1 = 0)"
    using assms(1) by (auto simp: CAN_CommandGuard_IsPrivileged_def command_codes split: if_splits)
  note run = run [unfolded can_execute_command_def command_codes Let_def]
  show ?thesis using u
  proof (elim disjE)
    assume c: "?c = 0x30"
    then show ?thesis using run by (intro can_quietI [where k = "[Do_App_Log_Can_SendInfo]"]) (auto simp: app_logged_calls)
  next
    assume c: "?c = 0x31"
    then show ?thesis using run
      by (intro can_quietI [where k = "[Do_App_Log_Can_SendRecord (CAN_Protocol_ReadU32LE (RxData a) 1)]"]) (auto simp: app_logged_calls)
  next
    assume c: "?c = 1"
    then show ?thesis using run off slot_off [of "RxData a" "tx_slot_1 a"] requests_off(1) [of "g_appControlPolicy a" 1]
      by (auto simp: can_quiet_def)
  next
    assume c: "?c = 2"
    then show ?thesis using run off slot_off [of "RxData a" "tx_slot_2 a"] requests_off(1) [of "g_appControlPolicy a" 2]
      by (auto simp: can_quiet_def)
  next
    assume c: "?c = 0x11"
    then show ?thesis using run off requests_off(1) [of "g_appControlPolicy a" 1]
        slot_counter_off [of "RxData a" "app_logged env" 1 "tx_slot_1 a" "g_appControlPolicy a" w]
      by (auto simp: can_quiet_def)
  next
    assume c: "?c = 0x12"
    then show ?thesis using run off requests_off(1) [of "g_appControlPolicy a" 2]
        slot_counter_off [of "RxData a" "app_logged env" 2 "tx_slot_2 a" "g_appControlPolicy a" w]
      by (auto simp: can_quiet_def)
  next
    assume c: "?c = 0x10"
    then show ?thesis using run off requests_off(3) [of "g_appControlPolicy a"]
      by (auto simp: can_quiet_def CAN_Handle_LED_Command_def)
  next
    assume c: "?c = 0x40"
    obtain r w1 where t: "env_call (app_logged env) Do_PWM_SelfTest_IsRunning w = (r, w1)" by (metis prod.exhaust)
    show ?thesis using c t run off requests_off(2) [of "g_appControlPolicy a"] app_logged_eqD(1) [OF t]
      by (cases "r = 0") (auto simp: can_quiet_def app_logged_calls)
  next
    assume c: "?c = 0x41"
    then show ?thesis using run off
      by (intro can_quietI [where k = "[Do_PWM_SelfTest_Cancel, Do_CAN_Send_Pwm_Self_Test_Status]"]) (auto simp: app_logged_calls)
  qed
qed

lemma access_closed_quiet: "can_quiet a w a' w' \<Longrightarrow> access_closed a \<Longrightarrow> access_closed a'"
  by (simp add: can_quiet_def access_closed_def)

lemma can_quiet_command:
  assumes closed: "access_closed a" and run: "can_process_command (app_logged env) start a w = (a', w')"
  shows "can_quiet a w a' w'"
proof -
  note run = run [unfolded can_process_command_def Let_def]
  have reject: "can_quiet a w a' w'"
    if "(case CAN_Record_Rx_Reject (app_logged env) reason cmd b w1 of (a, w) \<Rightarrow>
        CAN_Send_Command_Ack (app_logged env) cmd status 0 start a w) = (a', w')" "can_quiet a w b w1" for reason cmd status b w1
  proof -
    obtain b' w2 where r: "CAN_Record_Rx_Reject (app_logged env) reason cmd b w1 = (b', w2)" by (metis prod.exhaust)
    then have "can_quiet b' w2 a' w'" using that(1) by (intro can_quiet_ack) simp
    then show ?thesis using can_quiet_trans [OF can_quiet_trans [OF that(2) can_quiet_reject(1) [OF r]]] by blast
  qed
  consider "CAN_CommandValidation_Validate (Some (RxData a)) = CAN_COMMAND_VALIDATION_UNKNOWN"
    | "CAN_CommandValidation_Validate (Some (RxData a)) = CAN_COMMAND_VALIDATION_INVALID_PAYLOAD"
    | "CAN_CommandValidation_Validate (Some (RxData a)) = CAN_COMMAND_VALIDATION_VALID"
    by (cases "CAN_CommandValidation_Validate (Some (RxData a))") auto
  then show ?thesis
  proof cases
    case 3
    obtain b w1 where u: "CAN_App_UpdateControlAccess (app_logged env) a w = (b, w1)" by (metis prod.exhaust)
    have b: "b = a" and q: "can_quiet a w a w1" using can_quiet_update [OF closed u] by simp_all
    have shut: "\<not> CAN_ControlAccess_IsOpen (Some (control_access a))"
      using closed by (simp add: access_closed_def CAN_ControlAccess_IsOpen_def)
    show ?thesis
    proof (cases "CAN_CommandGuard_IsPrivileged (Some (RxData a))")
      case True
      then show ?thesis using run 3 u b shut reject q by (simp split del: if_split)
    next
      case False
      define c where "c = a\<lparr>can_rx_stats := (can_rx_stats a)\<lparr>commands_accepted := commands_accepted (can_rx_stats a) + 1\<rparr>\<rparr>"
      obtain f d w2 where e: "can_execute_command (app_logged env) c w1 = (f, d, w2)" by (metis prod.exhaust)
      have "can_quiet a w c w1" using q by (simp add: can_quiet_def c_def)
      moreover have "can_quiet c w1 d w2" using can_quiet_execute [OF _ e] False by (simp add: c_def)
      moreover have "can_quiet d w2 a' w'"
        using run 3 u b False e by (intro can_quiet_ack) (simp add: c_def [symmetric])
      ultimately show ?thesis using can_quiet_trans by metis
    qed
  qed (use run reject in \<open>simp_all add: can_quiet_def\<close>)
qed


lemma can_quiet_frame:
  assumes closed: "access_closed a" and run: "can_process_frame (app_logged env) a w = (a', w')"
  shows "can_quiet a w a' w'"
proof -
  define b where "b = a\<lparr>can_rx_stats := (can_rx_stats a)\<lparr>frames_received := frames_received (can_rx_stats a) + 1\<rparr>\<rparr>"
  obtain t w1 where t: "env_call (app_logged env) Do_App_Timing_Begin w = (t, w1)" by (metis prod.exhaust)
  have q: "can_quiet a w b w1"
    by (rule can_quietI [where k = "[Do_App_Timing_Begin]"]) (simp_all add: b_def app_logged_eqD(1) [OF t])
  have cb: "access_closed b" using closed by (simp add: b_def access_closed_def)
  note run = run [unfolded can_process_frame_def Let_def t prod.case, folded b_def]
  have "can_quiet b w1 a' w'"
  proof -
    consider (reject) reason where "CAN_Record_Rx_Reject (app_logged env) reason 0 b w1 = (a', w')"
      | (diagnostic) dlc where "a' = b" "(case env_call (app_logged env) Do_GetTick w1 of (now, w) \<Rightarrow>
            snd (env_call (app_logged env) (Do_CAN_IsoTp_OnCanFrame (RxData b) dlc (now * 1000)) w)) = w'"
      | (command) "can_process_command (app_logged env) t b w1 = (a', w')"
      using run unfolding b_def by (simp split: if_splits option.splits prod.splits) blast+
    then show ?thesis
    proof cases
      case reject
      then show ?thesis by (rule can_quiet_reject(1))
    next
      case (diagnostic dlc)
      obtain now w2 where n: "env_call (app_logged env) Do_GetTick w1 = (now, w2)" by (metis prod.exhaust)
      show ?thesis
        by (rule can_quietI [where k = "[Do_GetTick, Do_CAN_IsoTp_OnCanFrame (RxData b) dlc (now * 1000)]"])
          (use diagnostic n app_logged_eqD(1) [OF n] in \<open>auto simp: app_logged_calls\<close>)
    next
      case command
      then show ?thesis by (rule can_quiet_command [OF cb])
    qed
  qed
  then show ?thesis using q can_quiet_trans by blast
qed

lemma can_quiet_loop:
  "access_closed a \<Longrightarrow> can_rx_loop (app_logged env) n k a w = (m, a', w') \<Longrightarrow> can_quiet a w a' w'"
proof (induction n arbitrary: k a w)
  case 0
  then show ?case by (auto intro: can_quietI)
next
  case (Suc n)
  obtain fill w1 where f: "env_call (app_logged env) Do_GetRxFifoFillLevel w = (fill, w1)" by (metis prod.exhaust)
  have q: "can_quiet a w a w1" using can_quiet_call [OF f] by simp
  obtain x w2 where x: "env_receive (app_logged env) w1 = (x, w2)" by (metis prod.exhaust)
  have l: "snd w2 = snd w1" using app_logged_eqD(2) [OF x] .
  show ?case
  proof (cases "fill > 0")
    case False
    then show ?thesis using Suc.prems(2) f q by simp
  next
    case True
    show ?thesis
    proof (cases x)
      case None
      obtain b w3 where r: "CAN_Record_Rx_Reject (app_logged env) CAN_APP_RX_REJECT_HAL_ERROR 0 a w2 = (b, w3)"
        by (metis prod.exhaust)
      have "b = a'" "w3 = w'" using Suc.prems(2) True f x None r by simp_all
      then have "can_quiet a w2 a' w'" using can_quiet_reject(1) [OF r] by simp
      moreover have "can_quiet a w a w2" using q l by (simp add: can_quiet_def)
      ultimately show ?thesis using can_quiet_trans by blast
    next
      case (Some hd)
      obtain h d where hd: "hd = (h, d)" by (metis prod.exhaust)
      define b where "b = a\<lparr>RxHeader := h, RxData := d\<rparr>"
      have qb: "can_quiet a w b w2" using q l by (simp add: can_quiet_def b_def)
      have cb: "access_closed b" using Suc.prems(1) by (simp add: b_def access_closed_def)
      obtain c w3 where c: "can_process_frame (app_logged env) b w2 = (c, w3)" by (metis prod.exhaust)
      have qc: "can_quiet b w2 c w3" by (rule can_quiet_frame [OF cb c])
      have "can_rx_loop (app_logged env) n (k + 1) c w3 = (m, a', w')"
        using Suc.prems(2) True f x Some hd c by (simp add: b_def)
      from Suc.IH [OF access_closed_quiet [OF qc cb] this]
      show ?thesis using qb qc can_quiet_trans by blast
    qed
  qed
qed

lemma can_quiet_rx:
  assumes closed: "access_closed a" and run: "CAN_Process_Rx_Command (app_logged env) a w = (a', w')"
  shows "can_quiet a w a' w'"
proof -
  obtain b w1 where u: "CAN_App_UpdateControlAccess (app_logged env) a w = (b, w1)" by (metis prod.exhaust)
  have b: "b = a" and q: "can_quiet a w a w1" using can_quiet_update [OF closed u] by simp_all
  obtain n c w2 where l: "can_rx_loop (app_logged env) CAN_APP_RX_FRAME_BUDGET_PER_PROCESS 0 a w1 = (n, c, w2)"
    by (metis prod.exhaust)
  obtain fill w3 where f: "env_call (app_logged env) Do_GetRxFifoFillLevel w2 = (fill, w3)" by (metis prod.exhaust)
  have "can_quiet c w2 a' w'"
    using run u b l f can_quiet_call [OF f, where a = c]
    by (auto simp: CAN_Process_Rx_Command_def can_quiet_def split: if_splits)
  then show ?thesis using q can_quiet_loop [OF closed l] can_quiet_trans by blast
qed


definition can_rx_passes :: "'w can_app_env \<Rightarrow> nat \<Rightarrow> CAN_App \<Rightarrow> 'w \<Rightarrow> CAN_App \<times> 'w" where
  "can_rx_passes env n a w = ((\<lambda>(a, w). CAN_Process_Rx_Command env a w) ^^ n) (a, w)"

lemma can_quiet_passes:
  assumes "access_closed a" "can_rx_passes (app_logged env) n a w = (a', w')"
  shows "can_quiet a w a' w'"
  using assms(2)
proof (induction n arbitrary: a' w')
  case 0
  then show ?case by (simp add: can_rx_passes_def can_quiet_def)
next
  case (Suc n)
  obtain b w1 where b: "can_rx_passes (app_logged env) n a w = (b, w1)" by (metis prod.exhaust)
  have q: "can_quiet a w b w1" by (rule Suc.IH [OF b])
  have "CAN_Process_Rx_Command (app_logged env) b w1 = (a', w')"
    using Suc.prems b by (simp add: can_rx_passes_def)
  from can_quiet_rx [OF access_closed_quiet [OF q assms(1)] this] show ?case using q can_quiet_trans by blast
qed

text \<open>
  C35. Without the service window the bus cannot activate anything. Start with the window shut and no pending
  button press. Whatever the controller then delivers (any frames, receive errors and fill levels, any
  answers of clock, transport and outputs), over any number of passes of the command loop no slot becomes
  enabled, requested or running that was not so before, no LED, PWM or slot request is raised in the
  control policy, the window stays shut, and no call that sets a clock or an alarm, starts the self test,
  drives the PWM or changes an input's polarity is made.\<close>

theorem closed_window_activates_nothing:
  assumes "access_closed a" and "can_rx_passes (app_logged env) n a (w, []) = (a', w', calls)"
  shows "slot_not_more (tx_slot_1 a) (tx_slot_1 a') \<and> slot_not_more (tx_slot_2 a) (tx_slot_2 a')
    \<and> requests_not_more (g_appControlPolicy a) (g_appControlPolicy a') \<and> access_closed a' \<and> \<not> list_ex can_activating calls"
proof -
  have q: "can_quiet a (w, []) a' (w', calls)" by (rule can_quiet_passes [OF assms])
  then show ?thesis using access_closed_quiet [OF q assms(1)] by (auto simp: can_quiet_def)
qed

text \<open>A controller that holds a queue of frames, a clock that stands and everything else answering 0.\<close>

definition queue_env :: "(FDCAN_RxHeader \<times> bytes) list can_app_env" where
  "queue_env = \<lparr>env_call = (\<lambda>c q. (if c = Do_GetRxFifoFillLevel then of_nat (length q) else 0, q)),
     env_receive = (\<lambda>q. (Some (hd q), tl q)), env_send_priority = (\<lambda>i t d q. (CAN_TRANSPORT_OK, q)),
     env_send_latest = (\<lambda>i t d q. (CAN_TRANSPORT_OK, q)), env_error_code = (\<lambda>q. 0)\<rparr>"

definition demo_app :: CAN_App where
  "demo_app =
    (let slot = \<lparr>sl_configured = False, sl_active = False, sl_requested_running = False, sl_running = False,
        sl_id_type = False, sl_can_id = 0, sl_cycle_time_ms = 0, sl_counter_limit = 0, sl_counter_value = 0,
        sl_last_tx_time = 0\<rparr>
     in \<lparr>tx_slot_1 = slot, tx_slot_2 = slot,
     RxHeader = \<lparr>rxh_Identifier = 0, rxh_IdType = 0, rxh_RxFrameType = 0, rxh_DataLength = 0, rxh_FDFormat = 0\<rparr>,
     RxData = replicate 8 0,
     can_rx_stats = \<lparr>frames_received = 0, commands_accepted = 0, rejected_wrong_id = 0, rejected_frame_format = 0,
       rejected_dlc = 0, rejected_unknown_command = 0, rejected_invalid_payload = 0, rejected_access_denied = 0,
       command_acks_sent = 0, command_ack_tx_failures = 0, hal_rx_errors = 0, rx_budget_hits = 0,
       rx_new_message_events = 0, rx_watermark_events = 0, rx_full_events = 0, rx_message_lost_events = 0,
       rx_max_fill_level = 0, last_reject_reason = CAN_APP_RX_REJECT_NONE, last_rejected_command = 0\<rparr>,
     control_access = \<lparr>ca_request_count = 0, ca_handled_request_count = 0, ca_active = False, ca_deadline = 0\<rparr>,
     g_appControlPolicy = \<lparr>cp_closed_switch_mask = 0, cp_update_count = 0, cp_switch_data_valid = 0,
       cp_led_1_requested = 0, cp_led_2_requested = 1, cp_pwm_requested = 0, cp_slot_1_requested = 0,
       cp_slot_2_requested = 0, cp_led_1_effective = 0, cp_led_2_effective = 1, cp_pwm_effective = 0,
       cp_slot_1_effective = 0, cp_slot_2_effective = 0, cp_pwm_permitted = 1, cp_slot_1_permitted = 1,
       cp_slot_2_permitted = 1, cp_led_1_overridden = 0, cp_pwm_blocked = 0, cp_slot_1_blocked = 0,
       cp_slot_2_blocked = 0\<rparr>\<rparr>)"

definition demo_frame :: "bytes \<Rightarrow> FDCAN_RxHeader \<times> bytes" where
  "demo_frame d = (\<lparr>rxh_Identifier = CAN_PROTOCOL_GUI_COMMAND_ID_EXT, rxh_IdType = FDCAN_EXTENDED_ID,
     rxh_RxFrameType = FDCAN_DATA_FRAME, rxh_DataLength = FDCAN_DLC_BYTES_8, rxh_FDFormat = FDCAN_CLASSIC_CAN\<rparr>, d)"

lemma demo_closed: "access_closed demo_app" by (simp add: access_closed_def demo_app_def Let_def)

text \<open>Without the window a command that sets the PWM is logged and refused, one that switches an LED off is executed.\<close>

theorem closed_window_activates_nothing_witness:
  "let r = can_rx_passes (app_logged queue_env) 1 demo_app
      ([demo_frame [0x40, 0xE8, 3, 0, 0, 50, 0, 0], demo_frame [0x10, 2, 0, 0, 0, 0, 0, 0]], [])
   in access_closed (fst r) \<and> \<not> list_ex can_activating (snd (snd r))
     \<and> rejected_access_denied (can_rx_stats (fst r)) = 1 \<and> commands_accepted (can_rx_stats (fst r)) = 1
     \<and> cp_led_2_requested (g_appControlPolicy (fst r)) = 0 \<and> cp_pwm_requested (g_appControlPolicy (fst r)) = 0"
proof -
  define q where "q = [demo_frame [0x40, 0xE8, 3, 0, 0, 50, 0, 0], demo_frame [0x10, 2, 0, 0, 0, 0, 0, 0]]"
  have run: "(\<lambda>(a, w). (rejected_access_denied (can_rx_stats a), commands_accepted (can_rx_stats a),
      cp_led_2_requested (g_appControlPolicy a), cp_pwm_requested (g_appControlPolicy a)))
      (can_rx_passes (app_logged queue_env) 1 demo_app (q, [])) = (1, 1, 0, 0)"
    unfolding q_def by code_simp
  obtain a' w' calls where r: "can_rx_passes (app_logged queue_env) 1 demo_app (q, []) = (a', w', calls)" by (metis prod.exhaust)
  from closed_window_activates_nothing [OF demo_closed r] show ?thesis
    using run unfolding q_def [symmetric] r Let_def by simp
qed

end
