(* ===== verification/CanAppTraffic.thy ===== *)
theory CanAppTraffic
  imports CanAppSafety
begin

text \<open>
  What passes through \<open>CanApp\<close>: every frame the command loop takes from the controller is counted exactly once and
  every command acknowledged exactly once, right after it, and a running slot offers its counter values in order.
\<close>

section \<open>The traffic of a run\<close>

text \<open>Every call that leaves the file, with what the controller delivered and what the transport answered.\<close>

datatype can_traffic = Did_Call can_app_call | Did_Receive "(FDCAN_RxHeader \<times> bytes) option"
  | Did_Send u32 bytes CAN_Transport_Result

definition traffic_logged :: "'w can_app_env \<Rightarrow> ('w \<times> can_traffic list) can_app_env" where
  "traffic_logged env = \<lparr>env_call = (\<lambda>c (w, l). case env_call env c w of (r, w) \<Rightarrow> (r, w, l @ [Did_Call c])),
     env_receive = (\<lambda>(w, l). case env_receive env w of (r, w) \<Rightarrow> (r, w, l @ [Did_Receive r])),
     env_send_priority = (\<lambda>i t d (w, l). case env_send_priority env i t d w of (r, w) \<Rightarrow> (r, w, l @ [Did_Send i d r])),
     env_send_latest = (\<lambda>i t d (w, l). case env_send_latest env i t d w of (r, w) \<Rightarrow> (r, w, l @ [Did_Send i d r])),
     env_error_code = (\<lambda>(w, l). env_error_code env w)\<rparr>"

lemma traffic_logged_calls:
  "snd (snd (env_call (traffic_logged env) c w)) = snd w @ [Did_Call c]"
  by (simp add: traffic_logged_def split: prod.split)

lemma traffic_logged_eqD:
  "env_call (traffic_logged env) c w = (r, w') \<Longrightarrow> snd w' = snd w @ [Did_Call c]"
  "env_receive (traffic_logged env) w = (x, w') \<Longrightarrow> snd w' = snd w @ [Did_Receive x]"
  "env_send_priority (traffic_logged env) i t d w = (y, w') \<Longrightarrow> snd w' = snd w @ [Did_Send i d y]"
  by (auto simp: traffic_logged_def split: prod.splits)

lemma can_log_traffic:
  "snd (can_log (traffic_logged env) s1 s2 c d0 d1 w) = snd w @ [Did_Call (Do_App_Log_Push s1 s2 c d0 d1)]"
  by (simp add: can_log_def traffic_logged_calls)

section \<open>What should happen to a frame\<close>

text \<open>What is seen of the traffic: the frames, a failed read, the acknowledgements, the frames passed on to diagnostics.\<close>

datatype can_seen = Seen_Frame FDCAN_RxHeader bytes | Seen_Failure | Seen_Ack u8 u8 bool | Seen_Diagnostic bytes u8

fun call_seen :: "can_app_call \<Rightarrow> can_seen list" where
  "call_seen (Do_CAN_IsoTp_OnCanFrame d dlc now) = [Seen_Diagnostic d dlc]"
| "call_seen _ = []"

fun traffic_seen :: "can_traffic \<Rightarrow> can_seen list" where
  "traffic_seen (Did_Call c) = call_seen c"
| "traffic_seen (Did_Receive None) = [Seen_Failure]"
| "traffic_seen (Did_Receive (Some (h, d))) = [Seen_Frame h d]"
| "traffic_seen (Did_Send i d r) = (if i = CAN_PROTOCOL_COMMAND_ACK_TX_ID
     then [Seen_Ack (d ! 1) (d ! 2) (r = CAN_TRANSPORT_OK \<or> r = CAN_TRANSPORT_QUEUED)] else [])"

abbreviation seen_of :: "can_traffic list \<Rightarrow> can_seen list" where
  "seen_of l \<equiv> concat (map traffic_seen l)"

datatype frame_fate = Fate_Format | Fate_Diagnostic u8 | Fate_Dlc | Fate_WrongId | Fate_Command

definition frame_fate :: "FDCAN_RxHeader \<Rightarrow> frame_fate" where
  "frame_fate h =
    (if rxh_RxFrameType h \<noteq> FDCAN_DATA_FRAME \<or> rxh_FDFormat h \<noteq> FDCAN_CLASSIC_CAN then Fate_Format
     else if rxh_IdType h = FDCAN_STANDARD_ID \<and> rxh_Identifier h = CAN_PROTOCOL_DIAGNOSTIC_REQUEST_RX_ID
     then (if rxh_DataLength h \<in> {1..8} then Fate_Diagnostic (ucast (rxh_DataLength h)) else Fate_Dlc)
     else if rxh_IdType h = FDCAN_EXTENDED_ID \<and> rxh_Identifier h = CAN_PROTOCOL_GUI_COMMAND_ID_EXT
     then (if rxh_DataLength h = 8 then Fate_Command else Fate_Dlc)
     else Fate_WrongId)"

text \<open>A frame is followed by what it asks for: one acknowledgement of a command, or one call of the diagnostic channel.\<close>

fun can_answered :: "can_seen list \<Rightarrow> bool" where
  "can_answered [] \<longleftrightarrow> True"
| "can_answered (Seen_Failure # S) \<longleftrightarrow> can_answered S"
| "can_answered (Seen_Frame h d # S) \<longleftrightarrow> (case frame_fate h of
     Fate_Command \<Rightarrow> (case S of Seen_Ack cmd token taken # S \<Rightarrow>
         cmd = d ! 0 \<and> token = CAN_Protocol_CalculateCommandToken (Some d) \<and> can_answered S | _ \<Rightarrow> False)
   | Fate_Diagnostic dlc \<Rightarrow> (case S of Seen_Diagnostic d' n # S \<Rightarrow> d' = d \<and> n = dlc \<and> can_answered S | _ \<Rightarrow> False)
   | _ \<Rightarrow> can_answered S)"
| "can_answered _ \<longleftrightarrow> False"

text \<open>The counters, and those that each thing seen adds one to.\<close>

datatype can_tally = T_Received | T_WrongId | T_Format | T_Dlc | T_Unknown | T_Invalid | T_Decided | T_AckSent
  | T_AckFailed | T_Hal

fun tally :: "CAN_App_RxStats \<Rightarrow> can_tally \<Rightarrow> u32" where
  "tally st T_Received = frames_received st"
| "tally st T_WrongId = rejected_wrong_id st"
| "tally st T_Format = rejected_frame_format st"
| "tally st T_Dlc = rejected_dlc st"
| "tally st T_Unknown = rejected_unknown_command st"
| "tally st T_Invalid = rejected_invalid_payload st"
| "tally st T_Decided = commands_accepted st + rejected_access_denied st"
| "tally st T_AckSent = command_acks_sent st"
| "tally st T_AckFailed = command_ack_tx_failures st"
| "tally st T_Hal = hal_rx_errors st"

definition command_tally :: "bytes \<Rightarrow> can_tally" where
  "command_tally d = (case CAN_CommandValidation_Validate (Some d) of
     CAN_COMMAND_VALIDATION_UNKNOWN \<Rightarrow> T_Unknown | CAN_COMMAND_VALIDATION_INVALID_PAYLOAD \<Rightarrow> T_Invalid | _ \<Rightarrow> T_Decided)"

fun seen_tally :: "can_seen \<Rightarrow> can_tally list" where
  "seen_tally (Seen_Frame h d) = T_Received # (case frame_fate h of Fate_Format \<Rightarrow> [T_Format] | Fate_Diagnostic n \<Rightarrow> []
     | Fate_Dlc \<Rightarrow> [T_Dlc] | Fate_WrongId \<Rightarrow> [T_WrongId] | Fate_Command \<Rightarrow> [command_tally d])"
| "seen_tally Seen_Failure = [T_Hal]"
| "seen_tally (Seen_Ack cmd token taken) = [if taken then T_AckSent else T_AckFailed]"
| "seen_tally (Seen_Diagnostic d n) = []"

fun seen_frame :: "can_seen \<Rightarrow> bool" where
  "seen_frame (Seen_Frame h d) = True"
| "seen_frame _ = False"

text \<open>A step: which counters it adds one to, and what is seen of it.\<close>

definition tally_add :: "can_tally list \<Rightarrow> CAN_App_RxStats \<Rightarrow> CAN_App_RxStats \<Rightarrow> bool" where
  "tally_add ts st st' \<longleftrightarrow> (\<forall>x. tally st' x = tally st x + of_nat (count_list ts x))"

definition can_moves :: "can_tally list \<Rightarrow> can_seen list \<Rightarrow> CAN_App \<Rightarrow> 'w \<times> can_traffic list \<Rightarrow> CAN_App \<Rightarrow> 'w \<times> can_traffic list \<Rightarrow> bool" where
  "can_moves ts S a w a' w' \<longleftrightarrow> tally_add ts (can_rx_stats a) (can_rx_stats a') \<and> RxData a' = RxData a
     \<and> (\<exists>k. snd w' = snd w @ k \<and> seen_of k = S)"

lemma count_append: "count_list (xs @ ys) x = count_list xs x + count_list ys x"
  by (induction xs) simp_all

lemma tally_add_trans: "tally_add ts st st1 \<Longrightarrow> tally_add us st1 st2 \<Longrightarrow> tally_add (ts @ us) st st2"
  by (simp add: tally_add_def count_append add.assoc)

lemma tally_add_none [simp]: "tally_add [] st st" by (simp add: tally_add_def)

lemma can_moves_trans:
  assumes "can_moves ts S a w a1 w1" "can_moves us R a1 w1 a2 w2"
  shows "can_moves (ts @ us) (S @ R) a w a2 w2"
proof -
  obtain k l where "snd w1 = snd w @ k" "seen_of k = S" "snd w2 = snd w1 @ l" "seen_of l = R"
    using assms by (auto simp: can_moves_def)
  then have "snd w2 = snd w @ k @ l" "seen_of (k @ l) = S @ R" by simp_all
  then show ?thesis using assms tally_add_trans unfolding can_moves_def by metis
qed

text \<open>A step that leaves the counters alone and of which nothing is seen.\<close>

lemma can_movesI:
  assumes "can_rx_stats a' = can_rx_stats a" "RxData a' = RxData a" "snd w' = snd w @ k" "seen_of k = []"
  shows "can_moves [] [] a w a' w'"
  using assms by (auto simp: can_moves_def)

lemma can_moves_call:
  assumes "env_call (traffic_logged env) c w = (r, w')" "call_seen c = []"
  shows "can_moves [] [] a w a w'"
  by (rule can_movesI [where k = "[Did_Call c]"]) (use assms in \<open>simp_all add: traffic_logged_eqD(1)\<close>)

section \<open>Rejections and acknowledgements\<close>

fun reject_tally :: "CAN_App_RxRejectReason \<Rightarrow> can_tally list" where
  "reject_tally CAN_APP_RX_REJECT_NONE = []"
| "reject_tally CAN_APP_RX_REJECT_WRONG_ID = [T_WrongId]"
| "reject_tally CAN_APP_RX_REJECT_FRAME_FORMAT = [T_Format]"
| "reject_tally CAN_APP_RX_REJECT_DLC = [T_Dlc]"
| "reject_tally CAN_APP_RX_REJECT_UNKNOWN_COMMAND = [T_Unknown]"
| "reject_tally CAN_APP_RX_REJECT_INVALID_PAYLOAD = [T_Invalid]"
| "reject_tally CAN_APP_RX_REJECT_HAL_ERROR = [T_Hal]"
| "reject_tally CAN_APP_RX_REJECT_ACCESS_DENIED = [T_Decided]"

lemma can_moves_reject:
  assumes "CAN_Record_Rx_Reject (traffic_logged env) reason cmd a w = (a', w')"
  shows "can_moves (reject_tally reason) [] a w a' w'"
proof -
  have st: "can_rx_stats a' = can_count_reject reason ((can_rx_stats a)\<lparr>last_reject_reason := reason, last_rejected_command := cmd\<rparr>)"
    and d: "RxData a' = RxData a"
    using assms by (auto simp: CAN_Record_Rx_Reject_def Let_def split: if_splits)
  have k: "\<exists>k. snd w' = snd w @ k \<and> seen_of k = []"
    using assms by (auto simp: CAN_Record_Rx_Reject_def Let_def can_log_traffic split: if_splits)
  have "tally_add (reject_tally reason) (can_rx_stats a) (can_rx_stats a')"
    unfolding st tally_add_def
  proof
    fix x show "tally (can_count_reject reason ((can_rx_stats a)\<lparr>last_reject_reason := reason, last_rejected_command := cmd\<rparr>)) x
      = tally (can_rx_stats a) x + of_nat (count_list (reject_tally reason) x)"
      by (cases reason; cases x) simp_all
  qed
  then show ?thesis using d k by (simp add: can_moves_def)
qed

lemma can_moves_ack:
  assumes "CAN_Send_Command_Ack (traffic_logged env) cmd status flags start a w = (a', w')"
  shows "\<exists>taken. can_moves [if taken then T_AckSent else T_AckFailed]
    [Seen_Ack cmd (CAN_Protocol_CalculateCommandToken (Some (RxData a))) taken] a w a' w'"
proof -
  obtain now w1 where t: "env_call (traffic_logged env) Do_GetTick w = (now, w1)" by (metis prod.exhaust)
  obtain p where pd: "p ! 1 = cmd" "p ! 2 = CAN_Protocol_CalculateCommandToken (Some (RxData a))"
    and p: "CAN_Send_Command_Ack (traffic_logged env) cmd status flags start a w =
    (case env_send_priority (traffic_logged env) CAN_PROTOCOL_COMMAND_ACK_TX_ID CAN_TRANSPORT_ID_STANDARD p w1 of (result, w) \<Rightarrow>
      (if result = CAN_TRANSPORT_OK \<or> result = CAN_TRANSPORT_QUEUED
       then a\<lparr>can_rx_stats := (can_rx_stats a)\<lparr>command_acks_sent := command_acks_sent (can_rx_stats a) + 1\<rparr>\<rparr>
       else a\<lparr>can_rx_stats := (can_rx_stats a)\<lparr>command_ack_tx_failures := command_ack_tx_failures (can_rx_stats a) + 1\<rparr>\<rparr>,
       snd (env_call (traffic_logged env) (Do_App_Timing_RecordAckElapsed start) w)))"
  proof -
    let ?rem = "CAN_ControlAccess_RemainingMs (Some (control_access a)) now"
    let ?p = "[CAN_PROTOCOL_VERSION, cmd, CAN_Protocol_CalculateCommandToken (Some (RxData a)), status,
      if ?rem \<noteq> 0 then flags OR CAN_PROTOCOL_COMMAND_ACK_FLAG_ACCESS_OPEN else flags, can_ack_seconds ?rem, 0, 0]"
    show ?thesis by (rule that [of ?p]) (simp_all only: CAN_Send_Command_Ack_def t Let_def prod.case, simp_all)
  qed
  obtain r w2 where s: "env_send_priority (traffic_logged env) CAN_PROTOCOL_COMMAND_ACK_TX_ID CAN_TRANSPORT_ID_STANDARD p w1 = (r, w2)"
    by (metis prod.exhaust)
  define taken where "taken \<longleftrightarrow> r = CAN_TRANSPORT_OK \<or> r = CAN_TRANSPORT_QUEUED"
  have e: "a' = (if taken
      then a\<lparr>can_rx_stats := (can_rx_stats a)\<lparr>command_acks_sent := command_acks_sent (can_rx_stats a) + 1\<rparr>\<rparr>
      else a\<lparr>can_rx_stats := (can_rx_stats a)\<lparr>command_ack_tx_failures := command_ack_tx_failures (can_rx_stats a) + 1\<rparr>\<rparr>)"
    and w': "w' = snd (env_call (traffic_logged env) (Do_App_Timing_RecordAckElapsed start) w2)"
    using assms unfolding p s by (simp_all add: taken_def)
  have "snd w' = snd w @ [Did_Call Do_GetTick, Did_Send CAN_PROTOCOL_COMMAND_ACK_TX_ID p r, Did_Call (Do_App_Timing_RecordAckElapsed start)]"
    unfolding w' using traffic_logged_eqD(1) [OF t] traffic_logged_eqD(3) [OF s] by (simp add: traffic_logged_calls)
  moreover have "tally_add [if taken then T_AckSent else T_AckFailed] (can_rx_stats a) (can_rx_stats a')"
    unfolding tally_add_def
  proof
    fix x show "tally (can_rx_stats a') x = tally (can_rx_stats a) x + of_nat (count_list [if taken then T_AckSent else T_AckFailed] x)"
      by (cases x) (simp_all add: e)
  qed
  ultimately show ?thesis using pd by (intro exI [of _ taken]) (simp add: can_moves_def e taken_def)
qed

lemma can_moves_update:
  assumes "CAN_App_UpdateControlAccess (traffic_logged env) a w = (a', w')"
  shows "can_moves [] [] a w a' w'"
proof -
  obtain now w1 where t: "env_call (traffic_logged env) Do_GetTick w = (now, w1)" by (metis prod.exhaust)
  have "can_rx_stats a' = can_rx_stats a \<and> RxData a' = RxData a \<and> (\<exists>k. snd w' = snd w @ k \<and> seen_of k = [])"
    using assms traffic_logged_eqD(1) [OF t]
    by (auto simp: CAN_App_UpdateControlAccess_def t can_log_traffic split: prod.splits option.splits if_splits)
  then show ?thesis using can_movesI by blast
qed

section \<open>Executing a command\<close>

lemma if_eqE:
  assumes "(if b then x else y) = z"
  obtains "b" "x = z" | "\<not> b" "y = z"
  using assms by (cases b) auto

text \<open>Executing a command leaves the counters alone and passes nothing to the diagnostic channel.\<close>

lemma can_moves_slot:
  assumes "CAN_Start_Slot_Counter (traffic_logged env) n d sl g w = (sl', g', w')"
  shows "\<exists>k. snd w' = snd w @ k \<and> seen_of k = []"
proof -
  obtain now w1 where t: "env_call (traffic_logged env) Do_GetTick w = (now, w1)" by (metis prod.exhaust)
  show ?thesis using assms traffic_logged_eqD(1) [OF t]
    by (auto simp: CAN_Start_Slot_Counter_def Let_def t split: if_splits)
qed

lemma can_moves_pwm_set:
  assumes "(case env_call (traffic_logged env) Do_PWM_SelfTest_IsRunning w of (running, w) \<Rightarrow>
     let w = (if running \<noteq> 0 then snd (env_call (traffic_logged env) Do_PWM_SelfTest_Cancel w) else w)
     in if freq = 0 then (f, a\<lparr>g_appControlPolicy := g1\<rparr>, w)
        else (case env_call (traffic_logged env) (Do_PWM_Control_Set freq duty) w of (result, w) \<Rightarrow>
          if result = 0 then (f, a\<lparr>g_appControlPolicy := g2\<rparr>, w) else (f, a, w))) = (f', a', w')"
  shows "can_moves [] [] a w a' w'"
proof -
  obtain r w1 where t: "env_call (traffic_logged env) Do_PWM_SelfTest_IsRunning w = (r, w1)" by (metis prod.exhaust)
  define w2 where "w2 = (if r \<noteq> 0 then snd (env_call (traffic_logged env) Do_PWM_SelfTest_Cancel w1) else w1)"
  obtain x w3 where s: "env_call (traffic_logged env) (Do_PWM_Control_Set freq duty) w2 = (x, w3)" by (metis prod.exhaust)
  have "\<exists>k. snd w2 = snd w @ k \<and> seen_of k = []"
    using traffic_logged_eqD(1) [OF t] by (simp add: w2_def traffic_logged_calls)
  then obtain k where k: "snd w2 = snd w @ k" "seen_of k = []" by blast
  have e: "(if freq = 0 then (f, a\<lparr>g_appControlPolicy := g1\<rparr>, w2)
      else if x = 0 then (f, a\<lparr>g_appControlPolicy := g2\<rparr>, w3) else (f, a, w3)) = (f', a', w')"
    using assms unfolding t prod.case Let_def w2_def [symmetric] s prod.case .
  have "snd w' = snd w @ (if freq = 0 then k else k @ [Did_Call (Do_PWM_Control_Set freq duty)])"
    using e k traffic_logged_eqD(1) [OF s] by (auto split: if_splits)
  then show ?thesis
    by (rule can_movesI [rotated 2]) (use e k in \<open>auto split: if_splits\<close>)
qed

lemma can_moves_self_test:
  assumes "w' = snd (env_call (traffic_logged env) Do_CAN_Send_Pwm_Self_Test_Status
      (if b then snd (env_call (traffic_logged env) Do_PWM_SelfTest_Cancel w)
       else if c then snd (env_call (traffic_logged env) Do_PWM_SelfTest_Start w) else w))"
  shows "can_moves [] [] a w a w'"
  by (rule can_movesI [where k = "(if b then [Did_Call Do_PWM_SelfTest_Cancel] else if c then [Did_Call Do_PWM_SelfTest_Start] else [])
      @ [Did_Call Do_CAN_Send_Pwm_Self_Test_Status]"]) (use assms in \<open>simp_all add: traffic_logged_calls\<close>)

lemma can_moves_polarity:
  assumes "(case m of None \<Rightarrow> (f1, a, w) | Some msk \<Rightarrow>
      (case env_call (traffic_logged env) (Do_TIC12400_Probe_SetBatterySwitchMask msk) w of (r, w) \<Rightarrow>
        (if r = 0 then f2 else f3, a, w))) = (f', a', w')"
  shows "can_moves [] [] a w a' w'"
proof (cases m)
  case None
  then show ?thesis using assms by (simp add: can_moves_def)
next
  case (Some msk)
  obtain r w1 where t: "env_call (traffic_logged env) (Do_TIC12400_Probe_SetBatterySwitchMask msk) w = (r, w1)"
    by (metis prod.exhaust)
  show ?thesis using assms Some t can_moves_call [OF t] by simp
qed

lemma can_moves_execute:
  assumes "can_execute_command (traffic_logged env) a w = (f, a', w')"
  shows "can_moves [] [] a w a' w'"
proof -
  let ?d = "RxData a" and ?g = "g_appControlPolicy a" and ?call = "\<lambda>c w. snd (env_call (traffic_logged env) c w)"
  have same: "can_moves [] [] a w b w" if "can_rx_stats b = can_rx_stats a" "RxData b = RxData a" for b
    by (rule can_movesI [where k = "[]"]) (use that in simp_all)
  have call: "can_moves [] [] a w a (?call c w)" if "call_seen c = []" for c
    by (rule can_moves_call [OF surjective_pairing that])
  have slot: "can_moves [] [] a w b (snd (snd (CAN_Start_Slot_Counter (traffic_logged env) n ?d sl ?g w)))"
    if "can_rx_stats b = can_rx_stats a" "RxData b = RxData a" for n sl b
  proof -
    obtain k where "snd (snd (snd (CAN_Start_Slot_Counter (traffic_logged env) n ?d sl ?g w))) = snd w @ k \<and> seen_of k = []"
      using can_moves_slot by (metis prod.exhaust_sel)
    then show ?thesis using can_movesI that by blast
  qed
  note run = assms [unfolded can_execute_command_def command_codes Let_def]
  show ?thesis
    using run
  proof (elim if_eqE, goal_cases)
    case 3
    then show ?case using slot by (auto simp: split_beta)
  next
    case 4
    then show ?case using slot by (auto simp: split_beta)
  next
    case 11
    then show ?case by (elim can_moves_pwm_set [unfolded Let_def])
  next
    case 12
    have e: "a' = a" using 12(13) by (elim Pair_inject) (erule sym)
    have "w' = ?call Do_CAN_Send_Pwm_Self_Test_Status (if ?d ! 1 = 0 then ?call Do_PWM_SelfTest_Cancel w
        else if cp_pwm_permitted ?g \<noteq> 0 then ?call Do_PWM_SelfTest_Start w else w)"
      using 12(13) by (elim Pair_inject) (erule sym)
    then show ?case unfolding e by (rule can_moves_self_test)
  next
    case 13
    then show ?case by (elim can_moves_polarity)
  qed (use same call in auto)
qed

section \<open>Every frame is accounted for\<close>

text \<open>A command adds to one counter of its fate and is answered once.\<close>

lemma can_moves_command:
  assumes "can_process_command (traffic_logged env) start a w = (a', w')"
  shows "\<exists>taken. can_moves [command_tally (RxData a), if taken then T_AckSent else T_AckFailed]
    [Seen_Ack (RxData a ! 0) (CAN_Protocol_CalculateCommandToken (Some (RxData a))) taken] a w a' w'"
proof -
  note run = assms [unfolded can_process_command_def Let_def]
  let ?seen = "\<lambda>taken b. [Seen_Ack (RxData b ! 0) (CAN_Protocol_CalculateCommandToken (Some (RxData b))) taken]"
  have reject: "\<exists>taken. can_moves (reject_tally reason @ [if taken then T_AckSent else T_AckFailed]) (?seen taken b) b w1 a' w'"
    if "(case CAN_Record_Rx_Reject (traffic_logged env) reason (RxData b ! 0) b w1 of (a, w) \<Rightarrow>
        CAN_Send_Command_Ack (traffic_logged env) (RxData b ! 0) status 0 start a w) = (a', w')" for reason status b w1
  proof -
    obtain b' w2 where r: "CAN_Record_Rx_Reject (traffic_logged env) reason (RxData b ! 0) b w1 = (b', w2)" by (metis prod.exhaust)
    have "CAN_Send_Command_Ack (traffic_logged env) (RxData b ! 0) status 0 start b' w2 = (a', w')" using that r by simp
    from can_moves_ack [OF this] obtain taken where "can_moves [if taken then T_AckSent else T_AckFailed]
      [Seen_Ack (RxData b ! 0) (CAN_Protocol_CalculateCommandToken (Some (RxData b'))) taken] b' w2 a' w'" by blast
    moreover have "RxData b' = RxData b" using can_moves_reject [OF r] by (simp add: can_moves_def)
    ultimately have "can_moves (reject_tally reason @ [if taken then T_AckSent else T_AckFailed]) ([] @ ?seen taken b) b w1 a' w'"
      by (intro can_moves_trans [OF can_moves_reject [OF r]]) simp
    then show ?thesis by (intro exI [of _ taken]) simp
  qed
  obtain b w1 where u: "CAN_App_UpdateControlAccess (traffic_logged env) a w = (b, w1)" by (metis prod.exhaust)
  have q: "can_moves [] [] a w b w1" by (rule can_moves_update [OF u])
  then have data: "RxData b = RxData a" by (simp add: can_moves_def)
  define c where "c = b\<lparr>can_rx_stats := (can_rx_stats b)\<lparr>commands_accepted := commands_accepted (can_rx_stats b) + 1\<rparr>\<rparr>"
  have "tally_add [T_Decided] (can_rx_stats b) (can_rx_stats c)"
    unfolding tally_add_def by (intro allI, case_tac x) (simp_all add: c_def)
  then have acc: "can_moves [T_Decided] [] b w1 c w1" by (simp add: can_moves_def c_def)
  obtain f d w2 where e: "can_execute_command (traffic_logged env) c w1 = (f, d, w2)" by (metis prod.exhaust)
  have first: "\<exists>taken. can_moves (T # us taken) (?seen taken a) a w a' w'"
    if some: "\<exists>taken. can_moves (T # us taken) (?seen taken b) b w1 a' w'" for T us
  proof -
    obtain taken where "can_moves (T # us taken) (?seen taken b) b w1 a' w'" using some by blast
    from can_moves_trans [OF q this] show ?thesis using data by (intro exI [of _ taken]) simp
  qed
  have kind: "command_tally (RxData a) = (if CAN_CommandValidation_Validate (Some (RxData a)) = CAN_COMMAND_VALIDATION_UNKNOWN
      then T_Unknown else if CAN_CommandValidation_Validate (Some (RxData a)) = CAN_COMMAND_VALIDATION_INVALID_PAYLOAD
      then T_Invalid else T_Decided)"
    by (cases "CAN_CommandValidation_Validate (Some (RxData a))") (simp_all add: command_tally_def)
  show ?thesis
    using run unfolding u prod.case c_def [symmetric] e
  proof (elim if_eqE, goal_cases)
    case 1
    from reject [OF 1(2)] show ?case using kind 1(1) by simp
  next
    case 2
    from reject [OF 2(3)] show ?case using kind 2(1,2) by simp
  next
    case 3
    from reject [OF 3(4) [folded data]]
    have "\<exists>taken. can_moves (T_Decided # [if taken then T_AckSent else T_AckFailed]) (?seen taken b) b w1 a' w'" by simp
    from first [OF this] show ?case using kind 3(1,2) by simp
  next
    case 4
    have dd: "RxData d = RxData b" using can_moves_execute [OF e] acc by (simp add: can_moves_def)
    obtain taken where "can_moves [if taken then T_AckSent else T_AckFailed] (?seen taken b) d w2 a' w'"
      using can_moves_ack [OF 4(4)] dd data by auto
    from can_moves_trans [OF can_moves_trans [OF acc can_moves_execute [OF e]] this]
    have "can_moves (T_Decided # [if taken then T_AckSent else T_AckFailed]) (?seen taken b) b w1 a' w'" by simp
    then have "\<exists>taken. can_moves (T_Decided # [if taken then T_AckSent else T_AckFailed]) (?seen taken b) b w1 a' w'" by (rule exI)
    from first [OF this] show ?case using kind 4(1,2) by simp
  qed
qed

text \<open>A frame that was stored leads to the rest of what it asks for.\<close>

definition frame_seen :: "FDCAN_RxHeader \<Rightarrow> bytes \<Rightarrow> bool \<Rightarrow> can_seen list" where
  "frame_seen h d taken = (case frame_fate h of
     Fate_Command \<Rightarrow> [Seen_Ack (d ! 0) (CAN_Protocol_CalculateCommandToken (Some d)) taken]
   | Fate_Diagnostic n \<Rightarrow> [Seen_Diagnostic d n] | _ \<Rightarrow> [])"

lemma dlc_decoded: "CAN_DecodeClassicDlc l = (if l \<in> {1..8} then Some (ucast l) else None)"
proof -
  have "l \<in> {1..8} \<longleftrightarrow> \<not> (l = 0 \<or> l > 8)" by (auto simp: word_le_nat_alt word_less_nat_alt Suc_le_eq unat_gt_0)
  then show ?thesis by (simp add: CAN_DecodeClassicDlc_def FDCAN_DLC_BYTES_8_def)
qed

lemma can_moves_frame:
  assumes "can_process_frame (traffic_logged env) a w = (a', w')"
  shows "\<exists>taken. can_moves (seen_tally (Seen_Frame (RxHeader a) (RxData a)) @ concat (map seen_tally (frame_seen (RxHeader a) (RxData a) taken)))
    (frame_seen (RxHeader a) (RxData a) taken) a w a' w'"
proof -
  let ?h = "RxHeader a" and ?d = "RxData a"
  define b where "b = a\<lparr>can_rx_stats := (can_rx_stats a)\<lparr>frames_received := frames_received (can_rx_stats a) + 1\<rparr>\<rparr>"
  have b: "RxHeader b = ?h" "RxData b = ?d" by (simp_all add: b_def)
  obtain t w1 where t: "env_call (traffic_logged env) Do_App_Timing_Begin w = (t, w1)" by (metis prod.exhaust)
  have "tally_add [T_Received] (can_rx_stats a) (can_rx_stats b)"
    unfolding tally_add_def by (intro allI, case_tac x) (simp_all add: b_def)
  then have q: "can_moves [T_Received] [] a w b w1"
    using traffic_logged_eqD(1) [OF t] by (simp add: can_moves_def b_def)
  define rest where "rest = (\<lambda>taken. (case frame_fate ?h of Fate_Format \<Rightarrow> [T_Format] | Fate_Diagnostic n \<Rightarrow> []
     | Fate_Dlc \<Rightarrow> [T_Dlc] | Fate_WrongId \<Rightarrow> [T_WrongId] | Fate_Command \<Rightarrow> [command_tally ?d])
     @ concat (map seen_tally (frame_seen ?h ?d taken)))"
  have "\<exists>taken. can_moves (rest taken) (frame_seen ?h ?d taken) b w1 a' w'"
  proof -
    note run = assms [unfolded can_process_frame_def Let_def t prod.case, folded b_def, unfolded b dlc_decoded]
    have reject: ?thesis
      if "CAN_Record_Rx_Reject (traffic_logged env) reason 0 b w1 = (a', w')" "rest True = reject_tally reason" "frame_seen ?h ?d True = []"
      for reason
      using can_moves_reject [OF that(1)] that(2,3) by (intro exI [of _ True]) simp
    show ?thesis
    proof (cases "frame_fate ?h")
      case Fate_Format
      then have "CAN_Record_Rx_Reject (traffic_logged env) CAN_APP_RX_REJECT_FRAME_FORMAT 0 b w1 = (a', w')"
        using run by (simp add: frame_fate_def split: if_splits)
      from reject [OF this] show ?thesis using Fate_Format by (simp add: rest_def frame_seen_def)
    next
      case Fate_Dlc
      then have "CAN_Record_Rx_Reject (traffic_logged env) CAN_APP_RX_REJECT_DLC 0 b w1 = (a', w')"
        using run by (simp add: frame_fate_def FDCAN_DLC_BYTES_8_def split: if_splits)
      from reject [OF this] show ?thesis using Fate_Dlc by (simp add: rest_def frame_seen_def)
    next
      case Fate_WrongId
      then have "CAN_Record_Rx_Reject (traffic_logged env) CAN_APP_RX_REJECT_WRONG_ID 0 b w1 = (a', w')"
        using run by (simp add: frame_fate_def split: if_splits)
      from reject [OF this] show ?thesis using Fate_WrongId by (simp add: rest_def frame_seen_def)
    next
      case (Fate_Diagnostic n)
      obtain now w2 where n: "env_call (traffic_logged env) Do_GetTick w1 = (now, w2)" by (metis prod.exhaust)
      have e: "a' = b" "w' = snd (env_call (traffic_logged env) (Do_CAN_IsoTp_OnCanFrame ?d n (now * 1000)) w2)"
        using run Fate_Diagnostic by (simp_all add: frame_fate_def n split: if_splits)
      have "snd w' = snd w1 @ [Did_Call Do_GetTick, Did_Call (Do_CAN_IsoTp_OnCanFrame ?d n (now * 1000))]"
        using traffic_logged_eqD(1) [OF n] by (simp add: e(2) traffic_logged_calls)
      then show ?thesis using Fate_Diagnostic e(1) by (intro exI [of _ True]) (simp add: can_moves_def rest_def frame_seen_def)
    next
      case Fate_Command
      then have "can_process_command (traffic_logged env) t b w1 = (a', w')"
        using run by (simp add: frame_fate_def FDCAN_DLC_BYTES_8_def split: if_splits)
      from can_moves_command [OF this] show ?thesis using Fate_Command b by (simp add: rest_def frame_seen_def)
    qed
  qed
  then obtain taken where "can_moves (rest taken) (frame_seen ?h ?d taken) b w1 a' w'" ..
  from can_moves_trans [OF q this] show ?thesis by (intro exI [of _ taken]) (simp add: rest_def)
qed

text \<open>A run of the loop: what is seen of it is answered, and the counters are those of what is seen.\<close>

definition can_passes :: "can_seen list \<Rightarrow> CAN_App \<Rightarrow> 'w \<times> can_traffic list \<Rightarrow> CAN_App \<Rightarrow> 'w \<times> can_traffic list \<Rightarrow> bool" where
  "can_passes S a w a' w' \<longleftrightarrow> can_answered S \<and> tally_add (concat (map seen_tally S)) (can_rx_stats a) (can_rx_stats a')
     \<and> (\<exists>k. snd w' = snd w @ k \<and> seen_of k = S)"

lemma answered_append: "can_answered S \<Longrightarrow> can_answered R \<Longrightarrow> can_answered (S @ R)"
  by (induction S rule: can_answered.induct) (auto split: frame_fate.splits list.splits can_seen.splits)

lemma can_passes_trans:
  assumes "can_passes S a w a1 w1" "can_passes R a1 w1 a2 w2"
  shows "can_passes (S @ R) a w a2 w2"
proof -
  obtain k l where "snd w1 = snd w @ k" "seen_of k = S" "snd w2 = snd w1 @ l" "seen_of l = R"
    using assms by (auto simp: can_passes_def)
  then have "snd w2 = snd w @ k @ l" "seen_of (k @ l) = S @ R" by simp_all
  moreover have "tally_add (concat (map seen_tally (S @ R))) (can_rx_stats a) (can_rx_stats a2)" "can_answered (S @ R)"
    using assms tally_add_trans [of "concat (map seen_tally S)"] answered_append by (auto simp: can_passes_def)
  ultimately show ?thesis unfolding can_passes_def by blast
qed

lemma can_passes_quiet: "can_moves [] [] a w a' w' \<Longrightarrow> can_passes [] a w a' w'"
  by (simp add: can_moves_def can_passes_def)

lemma frame_passes:
  assumes "env_receive (traffic_logged env) w = (Some (h, d), w1)"
    and "can_process_frame (traffic_logged env) (a\<lparr>RxHeader := h, RxData := d\<rparr>) w1 = (a', w')"
  shows "\<exists>taken. can_passes (Seen_Frame h d # frame_seen h d taken) a w a' w'"
proof -
  obtain taken where m: "can_moves (seen_tally (Seen_Frame h d) @ concat (map seen_tally (frame_seen h d taken)))
      (frame_seen h d taken) (a\<lparr>RxHeader := h, RxData := d\<rparr>) w1 a' w'"
    using can_moves_frame [OF assms(2)] by auto
  then obtain k where k: "snd w' = snd w1 @ k" "seen_of k = frame_seen h d taken" by (auto simp: can_moves_def)
  have "snd w' = snd w @ Did_Receive (Some (h, d)) # k" using k(1) traffic_logged_eqD(2) [OF assms(1)] by simp
  moreover have "seen_of (Did_Receive (Some (h, d)) # k) = Seen_Frame h d # frame_seen h d taken" using k(2) by simp
  moreover have "can_answered (Seen_Frame h d # frame_seen h d taken)" by (simp add: frame_seen_def split: frame_fate.split)
  moreover have "tally_add (concat (map seen_tally (Seen_Frame h d # frame_seen h d taken))) (can_rx_stats a) (can_rx_stats a')"
    using m by (simp add: can_moves_def)
  ultimately show ?thesis unfolding can_passes_def by blast
qed

lemma loop_passes:
  "can_rx_loop (traffic_logged env) n k a w = (m, a', w')
    \<Longrightarrow> \<exists>S. can_passes S a w a' w' \<and> length (filter seen_frame S) \<le> n"
proof (induction n arbitrary: k a w)
  case 0
  then show ?case by (intro exI [of _ "[]"]) (simp add: can_passes_def)
next
  case (Suc n)
  obtain fill w1 where f: "env_call (traffic_logged env) Do_GetRxFifoFillLevel w = (fill, w1)" by (metis prod.exhaust)
  have q: "can_passes [] a w a w1" using can_moves_call [OF f] by (intro can_passes_quiet) simp
  obtain x w2 where x: "env_receive (traffic_logged env) w1 = (x, w2)" by (metis prod.exhaust)
  note l = traffic_logged_eqD(2) [OF x]
  show ?case
  proof (cases "fill > 0")
    case False
    then show ?thesis using Suc.prems f q by (intro exI [of _ "[]"]) simp
  next
    case True
    show ?thesis
    proof (cases x)
      case None
      have r: "CAN_Record_Rx_Reject (traffic_logged env) CAN_APP_RX_REJECT_HAL_ERROR 0 a w2 = (a', w')"
        using Suc.prems True f x None by (simp split: prod.splits)
      from can_moves_reject [OF r] obtain j where "snd w' = snd w2 @ j" "seen_of j = []"
        "tally_add [T_Hal] (can_rx_stats a) (can_rx_stats a')" by (auto simp: can_moves_def)
      then have "can_passes [Seen_Failure] a w1 a' w'" using l None
        by (simp add: can_passes_def)
      from can_passes_trans [OF q this] show ?thesis by (intro exI [of _ "[Seen_Failure]"]) simp
    next
      case (Some hd)
      obtain h d where hd: "hd = (h, d)" by (metis prod.exhaust)
      obtain c w3 where c: "can_process_frame (traffic_logged env) (a\<lparr>RxHeader := h, RxData := d\<rparr>) w2 = (c, w3)" by (metis prod.exhaust)
      have "can_rx_loop (traffic_logged env) n (k + 1) c w3 = (m, a', w')"
        using Suc.prems True f x Some hd c by simp
      from Suc.IH [OF this] obtain S where S: "can_passes S c w3 a' w'" "length (filter seen_frame S) \<le> n" by blast
      obtain taken where "can_passes (Seen_Frame h d # frame_seen h d taken) a w1 c w3"
        using frame_passes [OF x [unfolded Some hd] c] by blast
      from can_passes_trans [OF can_passes_trans [OF q this] S(1)]
      have "can_passes (Seen_Frame h d # frame_seen h d taken @ S) a w a' w'" by simp
      moreover have "filter seen_frame (frame_seen h d taken) = []" by (simp add: frame_seen_def split: frame_fate.split)
      ultimately show ?thesis using S(2) by (intro exI conjI) (assumption, simp)
    qed
  qed
qed

text \<open>
  C36. No frame is lost and no command left without its answer. In every pass of the command loop, whatever the
  controller delivers and whatever transport, clock and outputs answer: of each frame taken from the controller, a
  command is followed, before the next frame is taken, by exactly one acknowledgement that carries its code and the
  token of its bytes, a frame for the diagnostic channel by exactly one call of the channel with its bytes and
  length, and any other frame by nothing; no acknowledgement or call comes without a frame. The counters grow by exactly what
  was taken and sent: one received frame each and, by its kind, one rejection for its format, its length, its identifier, an unknown
  code or an invalid payload, or one command that was accepted or denied; one acknowledgement sent or failed each, and
  one error of the controller for a failed read. At most eight frames are taken.
\<close>

theorem every_frame_accounted:
  "case CAN_Process_Rx_Command (traffic_logged env) a (w, []) of (a', w', traffic) \<Rightarrow>
     can_answered (seen_of traffic)
     \<and> (\<forall>x. tally (can_rx_stats a') x = tally (can_rx_stats a) x + of_nat (count_list (concat (map seen_tally (seen_of traffic))) x))
     \<and> length (filter seen_frame (seen_of traffic)) \<le> 8"
proof -
  obtain a' w' where run: "CAN_Process_Rx_Command (traffic_logged env) a (w, []) = (a', w')" by (metis prod.exhaust)
  obtain b w1 where u: "CAN_App_UpdateControlAccess (traffic_logged env) a (w, []) = (b, w1)" by (metis prod.exhaust)
  obtain n c w2 where l: "can_rx_loop (traffic_logged env) CAN_APP_RX_FRAME_BUDGET_PER_PROCESS 0 b w1 = (n, c, w2)"
    by (metis prod.exhaust)
  obtain fill w3 where f: "env_call (traffic_logged env) Do_GetRxFifoFillLevel w2 = (fill, w3)" by (metis prod.exhaust)
  obtain S where S: "can_passes S b w1 c w2" "length (filter seen_frame S) \<le> 8"
    using loop_passes [OF l] by (auto simp: CAN_APP_RX_FRAME_BUDGET_PER_PROCESS_def)
  have hit: "tally (st\<lparr>rx_budget_hits := v\<rparr>) x = tally st x" for st v x by (cases x) simp_all
  have "a' = c \<or> a' = c\<lparr>can_rx_stats := (can_rx_stats c)\<lparr>rx_budget_hits := rx_budget_hits (can_rx_stats c) + 1\<rparr>\<rparr>"
    and k: "w' = w2 \<or> w' = w3"
    using run u l f by (auto simp: CAN_Process_Rx_Command_def split: if_splits)
  then have "tally_add [] (can_rx_stats c) (can_rx_stats a')" by (auto simp: tally_add_def hit)
  moreover have "\<exists>k. snd w' = snd w2 @ k \<and> seen_of k = []" using k traffic_logged_eqD(1) [OF f] by auto
  ultimately have "can_passes [] c w2 a' w'" by (simp add: can_passes_def)
  from can_passes_trans [OF can_passes_trans [OF can_passes_quiet [OF can_moves_update [OF u]] S(1)] this]
  have "can_passes S a (w, []) a' w'" by simp
  then have "can_answered S" "tally_add (concat (map seen_tally S)) (can_rx_stats a) (can_rx_stats a')" "seen_of (snd w') = S"
    by (auto simp: can_passes_def)
  then show ?thesis using run S(2) by (cases w') (simp add: tally_add_def)
qed

section \<open>The counter of a slot\<close>

text \<open>A transport that notes each frame it is offered and whether it accepts it: sends it at once or keeps it in its queue.\<close>

type_synonym slot_offer = "(u32 \<times> CAN_Transport_IdType \<times> bytes) \<times> bool"

definition latest_logged :: "'w can_app_env \<Rightarrow> ('w \<times> slot_offer list) can_app_env" where
  "latest_logged env = \<lparr>env_call = (\<lambda>c (w, l). case env_call env c w of (r, w) \<Rightarrow> (r, w, l)),
     env_receive = (\<lambda>(w, l). case env_receive env w of (r, w) \<Rightarrow> (r, w, l)),
     env_send_priority = (\<lambda>i t d (w, l). case env_send_priority env i t d w of (r, w) \<Rightarrow> (r, w, l)),
     env_send_latest = (\<lambda>i t d (w, l). case env_send_latest env i t d w of (r, w) \<Rightarrow>
       (r, w, l @ [((i, t, d), r = CAN_TRANSPORT_OK \<or> r = CAN_TRANSPORT_QUEUED)])),
     env_error_code = (\<lambda>(w, l). env_error_code env w)\<rparr>"

definition slot_passes :: "'w can_app_env \<Rightarrow> nat \<Rightarrow> CAN_TxSlot \<Rightarrow> 'w \<Rightarrow> CAN_TxSlot \<times> 'w" where
  "slot_passes env n sl w = ((\<lambda>(sl, w). CAN_Process_TxSlot env sl w) ^^ n) (sl, w)"

text \<open>The frame with the \<open>k\<close>-th value: 1, 2, up to the limit, and again from 1.\<close>

definition slot_frame :: "CAN_TxSlot \<Rightarrow> nat \<Rightarrow> u32 \<times> CAN_Transport_IdType \<times> bytes" where
  "slot_frame sl k = (sl_can_id sl, if sl_id_type sl then CAN_TRANSPORT_ID_EXTENDED else CAN_TRANSPORT_ID_STANDARD,
     le_bytes (of_nat (k mod unat (sl_counter_limit sl) + 1)) @ [0, 0, 0, 0])"

abbreviation accepted :: "slot_offer list \<Rightarrow> nat" where
  "accepted l \<equiv> length (filter snd l)"

definition slot_follows :: "CAN_TxSlot \<Rightarrow> CAN_TxSlot \<Rightarrow> slot_offer list \<Rightarrow> bool" where
  "slot_follows sl sl' l \<longleftrightarrow> sl_running sl' \<and> sl_can_id sl' = sl_can_id sl \<and> sl_id_type sl' = sl_id_type sl
     \<and> sl_counter_limit sl' = sl_counter_limit sl
     \<and> unat (sl_counter_value sl') = accepted l mod unat (sl_counter_limit sl) + 1
     \<and> (\<forall>k < length l. fst (l ! k) = slot_frame sl (accepted (take k l)))
     \<and> map fst (filter snd l) = map (slot_frame sl) [0..<accepted l]"

lemma slot_follows_offer:
  assumes "\<forall>k < length l. fst (l ! k) = slot_frame sl (accepted (take k l))"
  shows "\<forall>k < length (l @ [(slot_frame sl (accepted l), b)]).
    fst ((l @ [(slot_frame sl (accepted l), b)]) ! k) = slot_frame sl (accepted (take k (l @ [(slot_frame sl (accepted l), b)])))"
  using assms by (auto simp: nth_append less_Suc_eq)

lemma word_of_nat_unat_eq: "of_nat (unat (v :: u32)) = v" by simp

lemma slot_payload: "CAN_Protocol_WriteU32LE 0 v (replicate 8 0) = le_bytes v @ [0, 0, 0, 0]"
  by (simp add: CAN_Protocol_WriteU32LE_def le_bytes_def byte_mask numeral_eq_Suc)

lemma next_counter:
  assumes "L \<noteq> 0" "unat (v :: u32) = k mod unat L + 1"
  shows "unat (if v \<ge> L then 1 else v + 1) = Suc k mod unat L + 1"
proof -
  have m: "k mod unat L < unat L" using assms(1) by (simp add: unat_gt_0)
  show ?thesis
  proof (cases "v \<ge> L")
    case True
    then have "k mod unat L + 1 = unat L" using m assms(2) by (simp add: word_le_nat_alt)
    then have "Suc k mod unat L = 0" by (simp add: mod_Suc)
    then show ?thesis using True by simp
  next
    case False
    then have l: "unat v < unat L" by (simp add: word_le_nat_alt)
    have "unat L < 2 ^ 32" by simp
    then have "unat v + 1 < 2 ^ 32" using l by linarith
    then have "unat (v + 1) = unat v + 1" by (simp add: unat_add_small)
    moreover have "Suc k mod unat L = Suc (k mod unat L)" using l assms(2) by (simp add: mod_Suc)
    ultimately show ?thesis using False assms(2) by simp
  qed
qed

lemma slot_step:
  assumes inv: "slot_follows sl s l" and L: "sl_counter_limit sl \<noteq> 0"
    and run: "CAN_Process_TxSlot (latest_logged env) s (w, l) = (s', w', l')"
  shows "slot_follows sl s' l'"
proof -
  note i = inv [unfolded slot_follows_def]
  have m: "accepted l mod unat (sl_counter_limit sl) < unat (sl_counter_limit sl)" using L by (simp add: unat_gt_0)
  have v: "sl_counter_value s \<noteq> 0" using i by auto
  have le: "\<not> sl_counter_value s > sl_counter_limit s" using i m by (simp add: word_less_nat_alt)
  obtain now w1 where t: "env_call env Do_GetTick w = (now, w1)" by (metis prod.exhaust)
  define idt where "idt = (if sl_id_type s then CAN_TRANSPORT_ID_EXTENDED else CAN_TRANSPORT_ID_STANDARD)"
  obtain r w2 where r: "env_send_latest env (sl_can_id s) idt (le_bytes (sl_counter_value s) @ [0, 0, 0, 0]) w1 = (r, w2)"
    by (metis prod.exhaust)
  define c where "c = (if sl_counter_value s \<ge> sl_counter_limit s then 1 else sl_counter_value s + 1)"
  have nxt: "unat c = Suc (accepted l) mod unat (sl_counter_limit sl) + 1"
    unfolding c_def using next_counter [OF L] i by simp
  have "sl_counter_value s = of_nat (accepted l mod unat (sl_counter_limit sl) + 1)"
    using i arg_cong [of _ _ "of_nat :: nat \<Rightarrow> u32"] by (metis word_of_nat_unat_eq)
  then have frame: "(sl_can_id s, idt, le_bytes (sl_counter_value s) @ [0, 0, 0, 0]) = slot_frame sl (accepted l)"
    using i by (simp add: slot_frame_def idt_def)
  have t': "env_call (latest_logged env) Do_GetTick (w, l) = (now, w1, l)" by (simp add: latest_logged_def t)
  have r': "env_send_latest (latest_logged env) (sl_can_id s) idt (CAN_Protocol_WriteU32LE 0 (sl_counter_value s) (replicate 8 0)) (w1, l)
      = (r, w2, l @ [(slot_frame sl (accepted l), r = CAN_TRANSPORT_OK \<or> r = CAN_TRANSPORT_QUEUED)])"
    unfolding slot_payload using r frame by (simp add: latest_logged_def)
  have limit: "sl_counter_limit s \<noteq> 0" and on: "sl_running s" using i L by simp_all
  have e: "(s', l') = (if now - sl_last_tx_time s \<ge> ucast (sl_cycle_time_ms s)
      then if r = CAN_TRANSPORT_OK \<or> r = CAN_TRANSPORT_QUEUED
        then (s\<lparr>sl_last_tx_time := now, sl_counter_value := c\<rparr>, l @ [(slot_frame sl (accepted l), True)])
        else (s\<lparr>sl_last_tx_time := now\<rparr>, l @ [(slot_frame sl (accepted l), False)])
      else (s, l))"
    using run v le limit on r'
    by (cases "sl_id_type s") (simp_all add: CAN_Process_TxSlot_def Let_def t' idt_def c_def split: if_splits, blast+)
  show ?thesis
    using e i nxt slot_follows_offer [of l sl] unfolding slot_follows_def by (auto split: if_splits)
qed

lemma slot_passes_follow:
  assumes "slot_follows sl s l" "sl_counter_limit sl \<noteq> 0" "slot_passes (latest_logged env) n s (w, l) = (s', w', l')"
  shows "slot_follows sl s' l'"
  using assms(3)
proof (induction n arbitrary: s' w' l')
  case 0
  then show ?case using assms(1) by (simp add: slot_passes_def)
next
  case (Suc n)
  obtain s1 w1 l1 where p: "slot_passes (latest_logged env) n s (w, l) = (s1, w1, l1)" by (metis prod.exhaust)
  then have "CAN_Process_TxSlot (latest_logged env) s1 (w1, l1) = (s', w', l')" using Suc.prems by (simp add: slot_passes_def)
  from slot_step [OF Suc.IH [OF p] assms(2) this] show ?case .
qed

text \<open>
  C37. A running slot counts without a gap up to the transport. From the start of its counter, over any number of passes and
  whatever the clock shows and the transport answers, the frames the slot offers to the transport carry its
  identifier, the type of that identifier and the values 1, 2, and so on to the limit, and again from 1: each
  offer has the value that follows the last accepted one, so that a frame the transport refuses is offered
  again with the same value, and the accepted frames have no value left out or repeated. The slot keeps running,
  and its counter is the next value. Accepted means sent at once or queued; the transport may still
  replace a queued frame of a slot by its successor, or evict it, so that the bus carries a subsequence of
  the accepted frames.\<close>

theorem slot_counts_without_gap:
  assumes "sl_running sl" "sl_counter_value sl = 1" "sl_counter_limit sl \<noteq> 0"
    and "slot_passes (latest_logged env) n sl (w, []) = (sl', w', offers)"
  shows "(\<forall>k < length offers. fst (offers ! k) = slot_frame sl (accepted (take k offers)))
    \<and> map fst (filter snd offers) = map (slot_frame sl) [0..<accepted offers]
    \<and> sl_running sl' \<and> sl_counter_value sl' = of_nat (accepted offers mod unat (sl_counter_limit sl) + 1)"
proof -
  have "slot_follows sl sl []" using assms(1-3) by (simp add: slot_follows_def)
  from slot_passes_follow [OF this assms(3,4)] have f: "slot_follows sl sl' offers" .
  then have "sl_counter_value sl' = of_nat (accepted offers mod unat (sl_counter_limit sl) + 1)"
    unfolding slot_follows_def by (metis word_of_nat_unat_eq)
  then show ?thesis using f unfolding slot_follows_def by blast
qed

text \<open>A counter to 3 over a transport that refuses the second frame: 1, 2, 2, 3, 1 are offered in five passes.\<close>

definition refusing_env :: "nat can_app_env" where
  "refusing_env = \<lparr>env_call = (\<lambda>c n. (of_nat n, n)), env_receive = (\<lambda>n. (None, n)),
     env_send_priority = (\<lambda>i t d n. (CAN_TRANSPORT_OK, n)),
     env_send_latest = (\<lambda>i t d n. (if n = 1 then CAN_TRANSPORT_QUEUE_FULL else CAN_TRANSPORT_OK, n + 1)),
     env_error_code = (\<lambda>n. 0)\<rparr>"

definition demo_slot :: CAN_TxSlot where
  "demo_slot = \<lparr>sl_configured = True, sl_active = True, sl_requested_running = True, sl_running = True,
     sl_id_type = False, sl_can_id = 0x123, sl_cycle_time_ms = 1, sl_counter_limit = 3, sl_counter_value = 1,
     sl_last_tx_time = - 1\<rparr>"

theorem slot_counts_without_gap_witness:
  "let r = slot_passes (latest_logged refusing_env) 5 demo_slot (0, [])
   in map (\<lambda>((i, t, d), taken). (d ! 0, taken)) (snd (snd r)) = [(1, True), (2, False), (2, True), (3, True), (1, True)]
     \<and> sl_counter_value (fst r) = 2 \<and> sl_running (fst r)
     \<and> map fst (filter snd (snd (snd r))) = map (slot_frame demo_slot) [0..<4]"
proof -
  have run: "(\<lambda>(s, w, l). map (\<lambda>((i, t, d), taken). (d ! 0, taken)) l) (slot_passes (latest_logged refusing_env) 5 demo_slot (0, []))
      = [(1, True), (2, False), (2, True), (3, True), (1, True)]"
    by code_simp
  have start: "sl_running demo_slot" "sl_counter_value demo_slot = 1" "sl_counter_limit demo_slot \<noteq> 0"
    "sl_counter_limit demo_slot = 3" by (simp_all add: demo_slot_def)
  obtain s w l where r: "slot_passes (latest_logged refusing_env) 5 demo_slot (0, []) = (s, w, l)" by (metis prod.exhaust)
  have d: "map (\<lambda>((i, t, d), taken). (d ! 0, taken)) l = [(1, True), (2, False), (2, True), (3, True), (1, True)]"
    using run unfolding r by simp
  have "map snd k = map snd (map (\<lambda>((i, t, d), taken). (d ! 0, taken)) k)" for k :: "slot_offer list"
    by (induction k) auto
  then have taken: "map snd l = [True, False, True, True, True]" by (simp only: d) simp
  have "accepted k = length (filter id (map snd k))" for k :: "slot_offer list" by (induction k) auto
  then have "accepted l = 4" by (simp only: taken) simp
  with slot_counts_without_gap [OF start(1-3) r] show ?thesis
    unfolding r Let_def start(4) using d by simp
qed

end
