(* ===== verification/AppWatchdog.thy ===== *)
theory AppWatchdog
  imports Pca2131
begin

text \<open>
  The watchdog gate and its retained evidence: \<open>src/Core/Src/app_watchdog.c\<close> and
  \<open>src/Core/Src/app_watchdog_evidence.c\<close>, as built for the target (without the host test hooks). The time is
  an argument, the refresh of the peripheral a function on a state of any type. The lemmas show that the
  watchdog is refreshed at most once more when one of the three services stops reporting, and that the boot
  after the reset then names the service.
\<close>

section \<open>Data\<close>

record IWDG_Handle =
  iwdg_Instance :: u32
  iwdg_Prescaler :: u32
  iwdg_Reload :: u32
  iwdg_Window :: u32

definition IWDG1 :: u32 where "IWDG1 = 0x58004800"
definition IWDG_PRESCALER_128 :: u32 where "IWDG_PRESCALER_128 = 5"
definition IWDG_WINDOW_DISABLE :: u32 where "IWDG_WINDOW_DISABLE = 0xFFF"
definition APP_WATCHDOG_RELOAD_VALUE :: u32 where "APP_WATCHDOG_RELOAD_VALUE = 999"
definition APP_WATCHDOG_REFRESH_PERIOD_MS :: u32 where "APP_WATCHDOG_REFRESH_PERIOD_MS = 250"
definition APP_WATCHDOG_HEARTBEAT_MAIN_LOOP :: u32 where "APP_WATCHDOG_HEARTBEAT_MAIN_LOOP = 1"
definition APP_WATCHDOG_HEARTBEAT_CAN_APP :: u32 where "APP_WATCHDOG_HEARTBEAT_CAN_APP = 2"
definition APP_WATCHDOG_HEARTBEAT_RTC_SERVICE :: u32 where "APP_WATCHDOG_HEARTBEAT_RTC_SERVICE = 4"

definition APP_WATCHDOG_REQUIRED_HEARTBEATS :: u32 where
  "APP_WATCHDOG_REQUIRED_HEARTBEATS =
     APP_WATCHDOG_HEARTBEAT_MAIN_LOOP OR APP_WATCHDOG_HEARTBEAT_CAN_APP OR APP_WATCHDOG_HEARTBEAT_RTC_SERVICE"

record App_Watchdog_Diagnostics =
  wd_init_count :: u32
  wd_init_error_count :: u32
  wd_refresh_count :: u32
  wd_refresh_error_count :: u32
  wd_last_refresh_tick :: u32
  wd_last_health_check_tick :: u32
  wd_required_heartbeat_mask :: u32
  wd_reported_heartbeat_mask :: u32
  wd_observed_heartbeat_mask :: u32
  wd_last_missing_heartbeat_mask :: u32
  wd_health_gate_reject_count :: u32
  wd_main_loop_heartbeat_count :: u32
  wd_can_app_heartbeat_count :: u32
  wd_rtc_service_heartbeat_count :: u32
  wd_main_loop_last_heartbeat_tick :: u32
  wd_can_app_last_heartbeat_tick :: u32
  wd_rtc_service_last_heartbeat_tick :: u32
  wd_main_loop_max_heartbeat_interval_ms :: u32
  wd_can_app_max_heartbeat_interval_ms :: u32
  wd_rtc_service_max_heartbeat_interval_ms :: u32
  wd_initialized :: u8

definition APP_WATCHDOG_EVIDENCE_MAGIC :: u32 where "APP_WATCHDOG_EVIDENCE_MAGIC = 0x57444752"
definition APP_WATCHDOG_EVIDENCE_VERSION :: u16 where "APP_WATCHDOG_EVIDENCE_VERSION = 1"
definition APP_WATCHDOG_EVIDENCE_COMMIT_MARKER :: u32 where "APP_WATCHDOG_EVIDENCE_COMMIT_MARKER = 0xC35AA53C"
definition APP_WATCHDOG_EVIDENCE_HARD_STALL :: u32 where "APP_WATCHDOG_EVIDENCE_HARD_STALL = 1"
definition APP_WATCHDOG_EVIDENCE_HEALTH_GATE_REJECTED :: u32 where "APP_WATCHDOG_EVIDENCE_HEALTH_GATE_REJECTED = 2"
definition APP_WATCHDOG_EVIDENCE_REFRESH_ERROR :: u32 where "APP_WATCHDOG_EVIDENCE_REFRESH_ERROR = 3"

record App_Watchdog_RetainedRecord =
  wr_magic :: u32
  wr_version :: u16
  wr_size :: u16
  wr_sequence :: u32
  wr_cause :: u32
  wr_required_heartbeat_mask :: u32
  wr_observed_heartbeat_mask :: u32
  wr_missing_heartbeat_mask :: u32
  wr_health_check_tick :: u32
  wr_refresh_tick :: u32
  wr_checksum :: u32
  wr_commit_marker :: u32

record App_Watchdog_ResetEvidence =
  we_sequence :: u32
  we_cause :: u32
  we_required_heartbeat_mask :: u32
  we_observed_heartbeat_mask :: u32
  we_missing_heartbeat_mask :: u32
  we_health_check_tick :: u32
  we_refresh_tick :: u32
  we_capture_count :: u32
  we_validation_error_count :: u32
  we_stale_record_count :: u32
  we_valid :: u8
  we_storage_ready :: u8

text \<open>The statics of the two files.\<close>

record App_Watchdog_Evidence =
  app_watchdog_retained_record :: App_Watchdog_RetainedRecord
  app_watchdog_evidence_sequence :: u32
  app_watchdog_evidence_storage_ready :: u8
  g_appWatchdogResetEvidence :: App_Watchdog_ResetEvidence

record App_Watchdog =
  app_iwdg :: "IWDG_Handle option"
  g_appWatchdogDiagnostics :: App_Watchdog_Diagnostics
  wd_evidence :: App_Watchdog_Evidence

section \<open>The retained record\<close>

definition wd_crc_bit :: "u32 \<Rightarrow> u32" where
  "wd_crc_bit crc = (let mask = - (crc AND 1) in drop_bit 1 crc XOR (0xEDB88320 AND mask))"

definition App_Watchdog_Evidence_CalculateChecksum :: "bytes \<Rightarrow> nat \<Rightarrow> u32" where
  "App_Watchdog_Evidence_CalculateChecksum data len =
    NOT (fold (\<lambda>i crc. (wd_crc_bit ^^ 8) (crc XOR ucast (data ! i))) [0..<len] 0xFFFFFFFF)"

definition wd_word_bytes :: "u32 \<Rightarrow> bytes" where
  "wd_word_bytes v = map (\<lambda>i. ucast (drop_bit (8 * i) v)) [0..<4]"

text \<open>The bytes in front of the checksum, 36 in number.\<close>

definition wd_record_bytes :: "App_Watchdog_RetainedRecord \<Rightarrow> bytes" where
  "wd_record_bytes r = wd_word_bytes (wr_magic r) @ [ucast (wr_version r), ucast (drop_bit 8 (wr_version r)),
     ucast (wr_size r), ucast (drop_bit 8 (wr_size r))]
     @ concat (map wd_word_bytes [wr_sequence r, wr_cause r, wr_required_heartbeat_mask r, wr_observed_heartbeat_mask r,
       wr_missing_heartbeat_mask r, wr_health_check_tick r, wr_refresh_tick r])"

definition App_Watchdog_Evidence_IsCauseValid :: "u32 \<Rightarrow> bool" where
  "App_Watchdog_Evidence_IsCauseValid cause \<longleftrightarrow>
     cause \<ge> APP_WATCHDOG_EVIDENCE_HARD_STALL \<and> cause \<le> APP_WATCHDOG_EVIDENCE_REFRESH_ERROR"

definition App_Watchdog_Evidence_IsRecordValid :: "App_Watchdog_RetainedRecord \<Rightarrow> bool" where
  "App_Watchdog_Evidence_IsRecordValid r =
    (if wr_magic r \<noteq> APP_WATCHDOG_EVIDENCE_MAGIC \<or> wr_version r \<noteq> APP_WATCHDOG_EVIDENCE_VERSION
        \<or> wr_size r \<noteq> 44 \<or> wr_commit_marker r \<noteq> APP_WATCHDOG_EVIDENCE_COMMIT_MARKER
        \<or> wr_sequence r = 0 \<or> \<not> App_Watchdog_Evidence_IsCauseValid (wr_cause r)
     then False
     else App_Watchdog_Evidence_CalculateChecksum (wd_record_bytes r) 36 = wr_checksum r)"

text \<open>The stores of a commit in their order; the copy of the structure brings a cleared marker with it.\<close>

definition App_Watchdog_Evidence_Commit :: "App_Watchdog_RetainedRecord \<Rightarrow> App_Watchdog_Evidence \<Rightarrow> App_Watchdog_Evidence" where
  "App_Watchdog_Evidence_Commit r e =
    (let e = e\<lparr>app_watchdog_retained_record := (app_watchdog_retained_record e)\<lparr>wr_commit_marker := 0\<rparr>\<rparr>;
         e = e\<lparr>app_watchdog_retained_record := r\<rparr>
     in e\<lparr>app_watchdog_retained_record :=
          (app_watchdog_retained_record e)\<lparr>wr_commit_marker := APP_WATCHDOG_EVIDENCE_COMMIT_MARKER\<rparr>\<rparr>)"

definition wd_evidence_zero :: App_Watchdog_ResetEvidence where
  "wd_evidence_zero = \<lparr>we_sequence = 0, we_cause = 0, we_required_heartbeat_mask = 0, we_observed_heartbeat_mask = 0,
     we_missing_heartbeat_mask = 0, we_health_check_tick = 0, we_refresh_tick = 0, we_capture_count = 0,
     we_validation_error_count = 0, we_stale_record_count = 0, we_valid = 0, we_storage_ready = 0\<rparr>"

text \<open>At boot; what enabling the backup storage answers is an argument.\<close>

definition App_Watchdog_Evidence_CaptureBoot :: "HAL_Status \<Rightarrow> u8 \<Rightarrow> App_Watchdog_Evidence \<Rightarrow> App_Watchdog_Evidence" where
  "App_Watchdog_Evidence_CaptureBoot storage was_iwdg_reset e =
    (let ready = (if storage = HAL_OK then 1 else 0 :: u8);
         v = wd_evidence_zero\<lparr>we_capture_count := 1, we_storage_ready := ready\<rparr>;
         e = e\<lparr>app_watchdog_evidence_storage_ready := ready, g_appWatchdogResetEvidence := v\<rparr>
     in if ready = 0 then e
        else let r = app_watchdog_retained_record e;
                 ok = App_Watchdog_Evidence_IsRecordValid r;
                 e = (if ok then e\<lparr>app_watchdog_evidence_sequence := wr_sequence r\<rparr> else e);
                 v = (if was_iwdg_reset = 0 then (if ok then v\<lparr>we_stale_record_count := 1\<rparr> else v)
                      else if ok then v\<lparr>we_sequence := wr_sequence r, we_cause := wr_cause r,
                          we_required_heartbeat_mask := wr_required_heartbeat_mask r,
                          we_observed_heartbeat_mask := wr_observed_heartbeat_mask r,
                          we_missing_heartbeat_mask := wr_missing_heartbeat_mask r,
                          we_health_check_tick := wr_health_check_tick r, we_refresh_tick := wr_refresh_tick r, we_valid := 1\<rparr>
                      else if wr_commit_marker r = APP_WATCHDOG_EVIDENCE_COMMIT_MARKER
                      then v\<lparr>we_validation_error_count := 1\<rparr> else v)
             in e\<lparr>g_appWatchdogResetEvidence := v, app_watchdog_retained_record := r\<lparr>wr_commit_marker := 0\<rparr>\<rparr>)"

definition App_Watchdog_Evidence_Record ::
  "u32 \<Rightarrow> u32 \<Rightarrow> u32 \<Rightarrow> u32 \<Rightarrow> u32 \<Rightarrow> u32 \<Rightarrow> App_Watchdog_Evidence \<Rightarrow> App_Watchdog_Evidence" where
  "App_Watchdog_Evidence_Record cause required observed missing health_check_tick refresh_tick e =
    (if app_watchdog_evidence_storage_ready e = 0 \<or> \<not> App_Watchdog_Evidence_IsCauseValid cause then e
     else let e = e\<lparr>app_watchdog_evidence_sequence := app_watchdog_evidence_sequence e + 1\<rparr>;
              e = (if app_watchdog_evidence_sequence e = 0 then e\<lparr>app_watchdog_evidence_sequence := 1\<rparr> else e);
              r = \<lparr>wr_magic = APP_WATCHDOG_EVIDENCE_MAGIC, wr_version = APP_WATCHDOG_EVIDENCE_VERSION, wr_size = 44,
                wr_sequence = app_watchdog_evidence_sequence e, wr_cause = cause, wr_required_heartbeat_mask = required,
                wr_observed_heartbeat_mask = observed, wr_missing_heartbeat_mask = missing,
                wr_health_check_tick = health_check_tick, wr_refresh_tick = refresh_tick, wr_checksum = 0,
                wr_commit_marker = 0\<rparr>;
              r = r\<lparr>wr_checksum := App_Watchdog_Evidence_CalculateChecksum (wd_record_bytes r) 36\<rparr>
          in App_Watchdog_Evidence_Commit r e)"

definition App_Watchdog_Evidence_Get :: "App_Watchdog_Evidence \<Rightarrow> App_Watchdog_ResetEvidence option \<Rightarrow> App_Watchdog_ResetEvidence option" where
  "App_Watchdog_Evidence_Get e evidence = map_option (\<lambda>_. g_appWatchdogResetEvidence e) evidence"

section \<open>The watchdog gate\<close>

text \<open>The count, the last tick and the longest interval of one service.\<close>

definition App_Watchdog_RecordHeartbeat :: "u32 \<Rightarrow> u32 \<times> u32 \<times> u32 \<Rightarrow> u32 \<times> u32 \<times> u32" where
  "App_Watchdog_RecordHeartbeat now x = (case x of (count, last_tick, max_interval_ms) \<Rightarrow>
     (count + 1, now, if count \<noteq> 0 \<and> now - last_tick > max_interval_ms then now - last_tick else max_interval_ms))"

definition App_Watchdog_Init :: "IWDG_Handle option \<Rightarrow> u32 \<Rightarrow> App_Watchdog \<Rightarrow> HAL_Status \<times> App_Watchdog" where
  "App_Watchdog_Init watchdog now s =
    (let d = g_appWatchdogDiagnostics s
     in case watchdog of
       None \<Rightarrow> (HAL_ERROR, s\<lparr>g_appWatchdogDiagnostics := d\<lparr>wd_init_error_count := wd_init_error_count d + 1\<rparr>\<rparr>)
     | Some h \<Rightarrow>
         if iwdg_Instance h \<noteq> IWDG1 \<or> iwdg_Prescaler h \<noteq> IWDG_PRESCALER_128 \<or> iwdg_Window h \<noteq> IWDG_WINDOW_DISABLE
           \<or> iwdg_Reload h \<noteq> APP_WATCHDOG_RELOAD_VALUE
         then (HAL_ERROR, s\<lparr>g_appWatchdogDiagnostics := d\<lparr>wd_init_error_count := wd_init_error_count d + 1\<rparr>\<rparr>)
         else (HAL_OK, s\<lparr>app_iwdg := Some h,
           g_appWatchdogDiagnostics := d\<lparr>wd_initialized := 1, wd_required_heartbeat_mask := APP_WATCHDOG_REQUIRED_HEARTBEATS,
             wd_reported_heartbeat_mask := 0, wd_observed_heartbeat_mask := 0, wd_last_missing_heartbeat_mask := 0,
             wd_init_count := wd_init_count d + 1, wd_last_refresh_tick := now, wd_last_health_check_tick := now\<rparr>,
           wd_evidence := App_Watchdog_Evidence_Record APP_WATCHDOG_EVIDENCE_HARD_STALL APP_WATCHDOG_REQUIRED_HEARTBEATS
             0 0 now now (wd_evidence s)\<rparr>))"

definition App_Watchdog_CheckIn :: "u32 \<Rightarrow> u32 \<Rightarrow> App_Watchdog \<Rightarrow> App_Watchdog" where
  "App_Watchdog_CheckIn heartbeat now s =
    (let d = g_appWatchdogDiagnostics s
     in if wd_initialized d = 0 then s
        else let heartbeat_mask = heartbeat AND APP_WATCHDOG_REQUIRED_HEARTBEATS;
                 d = d\<lparr>wd_reported_heartbeat_mask := wd_reported_heartbeat_mask d OR heartbeat_mask\<rparr>;
                 d = (if heartbeat_mask AND APP_WATCHDOG_HEARTBEAT_MAIN_LOOP \<noteq> 0
                      then case App_Watchdog_RecordHeartbeat now (wd_main_loop_heartbeat_count d,
                          wd_main_loop_last_heartbeat_tick d, wd_main_loop_max_heartbeat_interval_ms d) of (n, t, m) \<Rightarrow>
                        d\<lparr>wd_main_loop_heartbeat_count := n, wd_main_loop_last_heartbeat_tick := t,
                          wd_main_loop_max_heartbeat_interval_ms := m\<rparr>
                      else d);
                 d = (if heartbeat_mask AND APP_WATCHDOG_HEARTBEAT_CAN_APP \<noteq> 0
                      then case App_Watchdog_RecordHeartbeat now (wd_can_app_heartbeat_count d,
                          wd_can_app_last_heartbeat_tick d, wd_can_app_max_heartbeat_interval_ms d) of (n, t, m) \<Rightarrow>
                        d\<lparr>wd_can_app_heartbeat_count := n, wd_can_app_last_heartbeat_tick := t,
                          wd_can_app_max_heartbeat_interval_ms := m\<rparr>
                      else d);
                 d = (if heartbeat_mask AND APP_WATCHDOG_HEARTBEAT_RTC_SERVICE \<noteq> 0
                      then case App_Watchdog_RecordHeartbeat now (wd_rtc_service_heartbeat_count d,
                          wd_rtc_service_last_heartbeat_tick d, wd_rtc_service_max_heartbeat_interval_ms d) of (n, t, m) \<Rightarrow>
                        d\<lparr>wd_rtc_service_heartbeat_count := n, wd_rtc_service_last_heartbeat_tick := t,
                          wd_rtc_service_max_heartbeat_interval_ms := m\<rparr>
                      else d)
             in s\<lparr>g_appWatchdogDiagnostics :=
                  d\<lparr>wd_observed_heartbeat_mask := wd_observed_heartbeat_mask d OR heartbeat_mask\<rparr>\<rparr>)"

text \<open>The health check; \<open>refresh\<close> is \<open>HAL_IWDG_Refresh\<close> on the stored handle.\<close>

definition App_Watchdog_Process ::
  "(IWDG_Handle option \<Rightarrow> 'w \<Rightarrow> HAL_Status \<times> 'w) \<Rightarrow> u32 \<Rightarrow> App_Watchdog \<Rightarrow> 'w \<Rightarrow> App_Watchdog \<times> 'w" where
  "App_Watchdog_Process refresh now s w =
    (let d = g_appWatchdogDiagnostics s
     in if wd_initialized d = 0 then (s, w)
        else if now - wd_last_health_check_tick d < APP_WATCHDOG_REFRESH_PERIOD_MS then (s, w)
        else let observed_mask = wd_observed_heartbeat_mask d;
                 missing_mask = APP_WATCHDOG_REQUIRED_HEARTBEATS AND NOT observed_mask;
                 d = d\<lparr>wd_last_health_check_tick := now, wd_reported_heartbeat_mask := 0, wd_observed_heartbeat_mask := 0,
                   wd_last_missing_heartbeat_mask := missing_mask\<rparr>
             in if missing_mask \<noteq> 0
                then (s\<lparr>g_appWatchdogDiagnostics := d\<lparr>wd_health_gate_reject_count := wd_health_gate_reject_count d + 1\<rparr>,
                  wd_evidence := App_Watchdog_Evidence_Record APP_WATCHDOG_EVIDENCE_HEALTH_GATE_REJECTED
                    APP_WATCHDOG_REQUIRED_HEARTBEATS observed_mask missing_mask now (wd_last_refresh_tick d) (wd_evidence s)\<rparr>, w)
                else case refresh (app_iwdg s) w of (result, w) \<Rightarrow>
                  if result = HAL_OK
                  then (s\<lparr>g_appWatchdogDiagnostics := d\<lparr>wd_refresh_count := wd_refresh_count d + 1, wd_last_refresh_tick := now\<rparr>,
                    wd_evidence := App_Watchdog_Evidence_Record APP_WATCHDOG_EVIDENCE_HARD_STALL
                      APP_WATCHDOG_REQUIRED_HEARTBEATS observed_mask 0 now now (wd_evidence s)\<rparr>, w)
                  else (s\<lparr>g_appWatchdogDiagnostics := d\<lparr>wd_refresh_error_count := wd_refresh_error_count d + 1\<rparr>,
                    wd_evidence := App_Watchdog_Evidence_Record APP_WATCHDOG_EVIDENCE_REFRESH_ERROR
                      APP_WATCHDOG_REQUIRED_HEARTBEATS observed_mask 0 now (wd_last_refresh_tick d) (wd_evidence s)\<rparr>, w))"

section \<open>The evidence read at boot\<close>

lemma wd_valid_cause: "App_Watchdog_Evidence_IsCauseValid cause \<longleftrightarrow> cause \<in> {1, 2, 3}"
proof -
  have "cause \<in> {1, 2, 3}" if "1 \<le> cause" "cause \<le> 3"
  proof -
    have "unat cause \<in> {1, 2, 3}" using that by (auto simp: word_le_nat_alt)
    moreover have "cause = of_nat (unat cause)" by simp
    ultimately show ?thesis by (elim insertE) simp_all
  qed
  then show ?thesis
    by (auto simp: App_Watchdog_Evidence_IsCauseValid_def APP_WATCHDOG_EVIDENCE_HARD_STALL_def APP_WATCHDOG_EVIDENCE_REFRESH_ERROR_def)
qed

text \<open>A recorded evidence is read back at the boot after a watchdog reset; a record whose commit was cut off is not.\<close>

definition wd_record_holds :: "u32 \<Rightarrow> u32 \<Rightarrow> u32 \<Rightarrow> App_Watchdog_Evidence \<Rightarrow> bool" where
  "wd_record_holds cause observed missing e \<longleftrightarrow> (let r = app_watchdog_retained_record e in
     App_Watchdog_Evidence_IsRecordValid r \<and> wr_cause r = cause \<and> wr_observed_heartbeat_mask r = observed
     \<and> wr_missing_heartbeat_mask r = missing)"

lemma wd_record_kept:
  assumes "app_watchdog_evidence_storage_ready e \<noteq> 0" "cause \<in> {1, 2, 3}"
  shows "wd_record_holds cause observed missing (App_Watchdog_Evidence_Record cause required observed missing t1 t2 e)"
    "app_watchdog_evidence_storage_ready (App_Watchdog_Evidence_Record cause required observed missing t1 t2 e) \<noteq> 0"
  using assms
  by (simp_all add: App_Watchdog_Evidence_Record_def App_Watchdog_Evidence_Commit_def Let_def wd_record_holds_def
      App_Watchdog_Evidence_IsRecordValid_def wd_valid_cause wd_record_bytes_def)

lemma wd_boot_reads:
  assumes "wd_record_holds cause observed missing e" "was_iwdg_reset \<noteq> 0"
  shows "let v = g_appWatchdogResetEvidence (App_Watchdog_Evidence_CaptureBoot HAL_OK was_iwdg_reset e) in
     we_valid v = 1 \<and> we_cause v = cause \<and> we_observed_heartbeat_mask v = observed \<and> we_missing_heartbeat_mask v = missing"
  using assms by (simp add: App_Watchdog_Evidence_CaptureBoot_def Let_def wd_record_holds_def)

lemma wd_boot_torn:
  assumes "wr_commit_marker (app_watchdog_retained_record e) = 0"
  shows "we_valid (g_appWatchdogResetEvidence (App_Watchdog_Evidence_CaptureBoot storage was_iwdg_reset e)) = 0"
  using assms by (simp add: App_Watchdog_Evidence_CaptureBoot_def Let_def App_Watchdog_Evidence_IsRecordValid_def
      APP_WATCHDOG_EVIDENCE_COMMIT_MARKER_def wd_evidence_zero_def)

section \<open>A silent service\<close>

text \<open>The main loop as the watchdog sees it: services reporting and health checks, each with its time.\<close>

datatype wd_event = Wd_CheckIn u32 u32 | Wd_Process u32

fun wd_step :: "(IWDG_Handle option \<Rightarrow> 'w \<Rightarrow> HAL_Status \<times> 'w) \<Rightarrow> wd_event \<Rightarrow> App_Watchdog \<times> 'w \<Rightarrow> App_Watchdog \<times> 'w" where
  "wd_step refresh (Wd_CheckIn heartbeat now) (s, w) = (App_Watchdog_CheckIn heartbeat now s, w)"
| "wd_step refresh (Wd_Process now) (s, w) = App_Watchdog_Process refresh now s w"

definition wd_run ::
  "(IWDG_Handle option \<Rightarrow> 'w \<Rightarrow> HAL_Status \<times> 'w) \<Rightarrow> wd_event list \<Rightarrow> App_Watchdog \<times> 'w \<Rightarrow> App_Watchdog \<times> 'w" where
  "wd_run refresh es x = fold (wd_step refresh) es x"

text \<open>The refreshes of the peripheral are counted.\<close>

definition wd_counted :: "('h \<Rightarrow> 'w \<Rightarrow> HAL_Status \<times> 'w) \<Rightarrow> 'h \<Rightarrow> 'w \<times> nat \<Rightarrow> HAL_Status \<times> 'w \<times> nat" where
  "wd_counted refresh h x = (case x of (w, n) \<Rightarrow> case refresh h w of (r, w) \<Rightarrow> (r, w, Suc n))"

text \<open>How many health checks are due in a history: those at least a quarter of a second after the one before.\<close>

fun wd_checks :: "u32 \<Rightarrow> wd_event list \<Rightarrow> nat" where
  "wd_checks last_check [] = 0"
| "wd_checks last_check (Wd_CheckIn heartbeat now # es) = wd_checks last_check es"
| "wd_checks last_check (Wd_Process now # es) =
    (if now - last_check \<ge> 250 then Suc (wd_checks now es) else wd_checks last_check es)"

fun wd_reports :: "u32 \<Rightarrow> wd_event \<Rightarrow> bool" where
  "wd_reports h (Wd_CheckIn heartbeat now) \<longleftrightarrow> heartbeat AND h \<noteq> 0"
| "wd_reports h (Wd_Process now) \<longleftrightarrow> False"

lemma required_heartbeats: "APP_WATCHDOG_REQUIRED_HEARTBEATS = 7"
  by (simp add: APP_WATCHDOG_REQUIRED_HEARTBEATS_def APP_WATCHDOG_HEARTBEAT_MAIN_LOOP_def
      APP_WATCHDOG_HEARTBEAT_CAN_APP_def APP_WATCHDOG_HEARTBEAT_RTC_SERVICE_def)

lemma wd_missing:
  assumes "h \<in> {1, 2, 4}" "observed AND h = 0"
  shows "(7 AND NOT observed) AND h = (h :: u32)"
proof -
  have seven: "7 AND h = h" using assms(1) by auto
  have "(7 AND NOT observed) AND h = (7 AND h) AND NOT observed" by (simp add: ac_simps)
  also have "\<dots> = h AND NOT observed" by (simp add: seven)
  also have "\<dots> = h"
    by (rule bit_word_eqI) (use assms(2) in \<open>auto simp: bit_simps dest!: arg_cong [of _ _ "\<lambda>v. bit v _"]\<close>)
  finally show ?thesis .
qed

text \<open>What holds after \<open>k\<close> health checks since the service fell silent, with \<open>n\<close> refreshes.\<close>

definition wd_silent :: "u32 \<Rightarrow> nat \<Rightarrow> nat \<Rightarrow> App_Watchdog \<Rightarrow> bool" where
  "wd_silent h k n s \<longleftrightarrow> wd_initialized (g_appWatchdogDiagnostics s) \<noteq> 0
     \<and> app_watchdog_evidence_storage_ready (wd_evidence s) \<noteq> 0 \<and> n \<le> min 1 k
     \<and> (k \<ge> 1 \<longrightarrow> wd_observed_heartbeat_mask (g_appWatchdogDiagnostics s) AND h = 0)
     \<and> (k \<ge> 2 \<longrightarrow> (\<exists>observed missing. observed AND h = 0 \<and> missing = 7 AND NOT observed
       \<and> wd_record_holds APP_WATCHDOG_EVIDENCE_HEALTH_GATE_REJECTED observed missing (wd_evidence s)))"

lemma wd_checkin_masks:
  "wd_initialized (g_appWatchdogDiagnostics (App_Watchdog_CheckIn heartbeat now s)) = wd_initialized (g_appWatchdogDiagnostics s)"
  "wd_last_health_check_tick (g_appWatchdogDiagnostics (App_Watchdog_CheckIn heartbeat now s))
    = wd_last_health_check_tick (g_appWatchdogDiagnostics s)"
  "wd_evidence (App_Watchdog_CheckIn heartbeat now s) = wd_evidence s"
  "wd_initialized (g_appWatchdogDiagnostics s) \<noteq> 0 \<Longrightarrow>
    wd_observed_heartbeat_mask (g_appWatchdogDiagnostics (App_Watchdog_CheckIn heartbeat now s))
      = wd_observed_heartbeat_mask (g_appWatchdogDiagnostics s) OR (heartbeat AND 7)"
  by (simp_all add: App_Watchdog_CheckIn_def Let_def required_heartbeats split: prod.split)

lemma wd_silent_checkin:
  assumes "wd_silent h k n s" "\<not> wd_reports h (Wd_CheckIn heartbeat now)"
  shows "wd_silent h k n (App_Watchdog_CheckIn heartbeat now s)"
proof -
  have "(heartbeat AND 7) AND h = 0" using assms(2) by (simp add: and.assoc and.commute [of 7]) (simp flip: and.assoc)
  then have "(m OR (heartbeat AND 7)) AND h = m AND h" for m by (simp add: bit.conj_disj_distrib2)
  then show ?thesis using assms(1) by (simp add: wd_silent_def wd_checkin_masks)
qed

definition wd_due :: "u32 \<Rightarrow> App_Watchdog \<Rightarrow> bool" where
  "wd_due now s \<longleftrightarrow> now - wd_last_health_check_tick (g_appWatchdogDiagnostics s) \<ge> 250"

lemma wd_process_cases:
  assumes "wd_initialized (g_appWatchdogDiagnostics s) \<noteq> 0"
    and "App_Watchdog_Process (wd_counted refresh) now s (w, n) = (s', w', n')"
  obtains (waits) "\<not> wd_due now s" "s' = s" "n' = n"
  | (checks) cause missing t1 t2 where "wd_due now s"
    "missing = 7 AND NOT (wd_observed_heartbeat_mask (g_appWatchdogDiagnostics s))"
    "n' = (if missing = 0 then Suc n else n)" "cause \<in> {1, 2, 3}" "missing \<noteq> 0 \<longrightarrow> cause = 2"
    "wd_initialized (g_appWatchdogDiagnostics s') = wd_initialized (g_appWatchdogDiagnostics s)"
    "wd_last_health_check_tick (g_appWatchdogDiagnostics s') = now"
    "wd_observed_heartbeat_mask (g_appWatchdogDiagnostics s') = 0"
    "wd_evidence s' = App_Watchdog_Evidence_Record cause 7
       (wd_observed_heartbeat_mask (g_appWatchdogDiagnostics s)) missing t1 t2 (wd_evidence s)"
proof (cases "wd_due now s")
  case False
  then show thesis using waits assms
    by (simp add: App_Watchdog_Process_def Let_def wd_due_def APP_WATCHDOG_REFRESH_PERIOD_MS_def not_le)
next
  case True
  define missing where "missing = 7 AND NOT (wd_observed_heartbeat_mask (g_appWatchdogDiagnostics s))"
  obtain r w1 where r: "refresh (app_iwdg s) w = (r, w1)" by (metis prod.exhaust)
  note unfold = App_Watchdog_Process_def Let_def wd_counted_def r required_heartbeats missing_def [symmetric]
    APP_WATCHDOG_REFRESH_PERIOD_MS_def APP_WATCHDOG_EVIDENCE_HARD_STALL_def APP_WATCHDOG_EVIDENCE_HEALTH_GATE_REJECTED_def
    APP_WATCHDOG_EVIDENCE_REFRESH_ERROR_def
  have due: "\<not> now - wd_last_health_check_tick (g_appWatchdogDiagnostics s) < 250" using True by (simp add: wd_due_def not_less)
  show thesis
  proof (cases "missing = 0")
    case m: True
    show thesis
    proof (cases "r = HAL_OK")
      case True
      show thesis by (rule checks [of missing 1]) (use assms due m True \<open>wd_due now s\<close> in \<open>auto simp: unfold\<close>)
    next
      case False
      show thesis by (rule checks [of missing 3]) (use assms due m False \<open>wd_due now s\<close> in \<open>auto simp: unfold\<close>)
    qed
  next
    case False
    show thesis by (rule checks [of missing 2]) (use assms due False \<open>wd_due now s\<close> in \<open>auto simp: unfold\<close>)
  qed
qed

lemma wd_silent_process:
  assumes h: "h \<in> {1, 2, 4}" and inv: "wd_silent h k n s"
    and run: "App_Watchdog_Process (wd_counted refresh) now s (w, n) = (s', w', n')"
  shows "wd_silent h (if wd_due now s then Suc k else k) n' s'
    \<and> wd_last_health_check_tick (g_appWatchdogDiagnostics s')
      = (if wd_due now s then now else wd_last_health_check_tick (g_appWatchdogDiagnostics s))"
proof -
  note i = inv [unfolded wd_silent_def]
  from i have on: "wd_initialized (g_appWatchdogDiagnostics s) \<noteq> 0" by simp
  show ?thesis
  proof (rule wd_process_cases [OF on run], goal_cases)
    case 1
    then show ?case using inv by simp
  next
    case (2 cause missing t1 t2)
    let ?obs = "wd_observed_heartbeat_mask (g_appWatchdogDiagnostics s)"
    have ready: "app_watchdog_evidence_storage_ready (wd_evidence s) \<noteq> 0" using i by simp
    note kept = wd_record_kept [OF ready 2(4), where observed = ?obs and missing = missing and required = 7 and ?t1.0 = t1 and ?t2.0 = t2, folded 2(9)]
    have miss: "missing AND h = h" if "k \<ge> 1" using wd_missing [OF h] i that 2(2) by simp
    have "h \<noteq> 0" using h by auto
    then have nz: "missing \<noteq> 0" if "k \<ge> 1" using miss [OF that] by auto
    have n: "n' \<le> 1" using 2(3) i nz by (cases k) auto
    have rec: "\<exists>observed missing. observed AND h = 0 \<and> missing = 7 AND NOT observed
       \<and> wd_record_holds APP_WATCHDOG_EVIDENCE_HEALTH_GATE_REJECTED observed missing (wd_evidence s')" if "k \<ge> 1"
      using kept(1) nz [OF that] 2(2,5) i that by (auto simp: APP_WATCHDOG_EVIDENCE_HEALTH_GATE_REJECTED_def)
    show ?case
      using 2(1,6-8) on kept(2) n rec by (simp add: wd_silent_def)
  qed
qed

lemma wd_silent_run:
  assumes h: "h \<in> {1, 2, 4}"
  shows "\<lbrakk>wd_silent h k n s; \<forall>e\<in>set es. \<not> wd_reports h e; wd_run (wd_counted refresh) es (s, w, n) = (s', w', n')\<rbrakk>
    \<Longrightarrow> wd_silent h (k + wd_checks (wd_last_health_check_tick (g_appWatchdogDiagnostics s)) es) n' s'"
proof (induction es arbitrary: k n s w)
  case Nil
  then show ?case by (simp add: wd_run_def)
next
  case (Cons e es)
  show ?case
  proof (cases e)
    case (Wd_CheckIn heartbeat now)
    have "wd_silent h k n (App_Watchdog_CheckIn heartbeat now s)"
      using wd_silent_checkin [OF Cons.prems(1)] Cons.prems(2) Wd_CheckIn by simp
    from Cons.IH [OF this] show ?thesis using Cons.prems(2,3) Wd_CheckIn by (simp add: wd_run_def wd_checkin_masks)
  next
    case (Wd_Process now)
    obtain s1 w1 n1 where p: "App_Watchdog_Process (wd_counted refresh) now s (w, n) = (s1, w1, n1)" by (metis prod.exhaust)
    from wd_silent_process [OF h Cons.prems(1) p] have
      q: "wd_silent h (if wd_due now s then Suc k else k) n1 s1"
      and t: "wd_last_health_check_tick (g_appWatchdogDiagnostics s1)
        = (if wd_due now s then now else wd_last_health_check_tick (g_appWatchdogDiagnostics s))" by simp_all
    from Cons.IH [OF q] show ?thesis
      using Cons.prems(2,3) Wd_Process p t by (simp add: wd_run_def wd_due_def split: if_splits)
  qed
qed

text \<open>
  C38. A service that stops reporting ends in a reset that names it. Take the running watchdog and let one of
  the main loop, the CAN application and the clock service (\<open>h\<close>) not report any more, while the others report
  and the health checks are called as they like and the peripheral answers what it likes. Then the watchdog is
  refreshed at most once more. Once two health checks were due, every boot that finds the watchdog as the
  reason of its reset reads valid evidence that the health gate refused the refresh and that \<open>h\<close> was missing;
  the missing services are exactly those not observed.\<close>

theorem silent_service_is_reported:
  assumes "h \<in> {APP_WATCHDOG_HEARTBEAT_MAIN_LOOP, APP_WATCHDOG_HEARTBEAT_CAN_APP, APP_WATCHDOG_HEARTBEAT_RTC_SERVICE}"
    and "wd_initialized (g_appWatchdogDiagnostics s) \<noteq> 0" "app_watchdog_evidence_storage_ready (wd_evidence s) \<noteq> 0"
    and "\<forall>e\<in>set es. \<not> wd_reports h e" and "wd_run (wd_counted refresh) es (s, w, 0) = (s', w', n)"
  shows "n \<le> 1 \<and> (wd_checks (wd_last_health_check_tick (g_appWatchdogDiagnostics s)) es \<ge> 2 \<longrightarrow>
    (let v = g_appWatchdogResetEvidence (App_Watchdog_Evidence_CaptureBoot HAL_OK 1 (wd_evidence s'))
     in we_valid v = 1 \<and> we_cause v = APP_WATCHDOG_EVIDENCE_HEALTH_GATE_REJECTED
       \<and> we_missing_heartbeat_mask v = APP_WATCHDOG_REQUIRED_HEARTBEATS AND NOT (we_observed_heartbeat_mask v)
       \<and> we_missing_heartbeat_mask v AND h = h))"
proof -
  have h: "h \<in> {1, 2, 4}" using assms(1) by (simp add: APP_WATCHDOG_HEARTBEAT_MAIN_LOOP_def
      APP_WATCHDOG_HEARTBEAT_CAN_APP_def APP_WATCHDOG_HEARTBEAT_RTC_SERVICE_def)
  have "wd_silent h 0 0 s" using assms(2,3) by (simp add: wd_silent_def)
  from wd_silent_run [OF h this assms(4,5)]
  have inv: "wd_silent h (wd_checks (wd_last_health_check_tick (g_appWatchdogDiagnostics s)) es) n s'" by simp
  then show ?thesis
    using wd_boot_reads [of _ _ _ "wd_evidence s'" 1] wd_missing [OF h]
    by (fastforce simp: wd_silent_def Let_def required_heartbeats)
qed

definition demo_watchdog :: App_Watchdog where
  "demo_watchdog = \<lparr>app_iwdg = None,
     g_appWatchdogDiagnostics = \<lparr>wd_init_count = 0, wd_init_error_count = 0, wd_refresh_count = 0, wd_refresh_error_count = 0,
       wd_last_refresh_tick = 0, wd_last_health_check_tick = 0, wd_required_heartbeat_mask = 0,
       wd_reported_heartbeat_mask = 0, wd_observed_heartbeat_mask = 0, wd_last_missing_heartbeat_mask = 0,
       wd_health_gate_reject_count = 0, wd_main_loop_heartbeat_count = 0, wd_can_app_heartbeat_count = 0,
       wd_rtc_service_heartbeat_count = 0, wd_main_loop_last_heartbeat_tick = 0, wd_can_app_last_heartbeat_tick = 0,
       wd_rtc_service_last_heartbeat_tick = 0, wd_main_loop_max_heartbeat_interval_ms = 0,
       wd_can_app_max_heartbeat_interval_ms = 0, wd_rtc_service_max_heartbeat_interval_ms = 0, wd_initialized = 0\<rparr>,
     wd_evidence = \<lparr>app_watchdog_retained_record = \<lparr>wr_magic = 0, wr_version = 0, wr_size = 0, wr_sequence = 0,
         wr_cause = 0, wr_required_heartbeat_mask = 0, wr_observed_heartbeat_mask = 0, wr_missing_heartbeat_mask = 0,
         wr_health_check_tick = 0, wr_refresh_tick = 0, wr_checksum = 0, wr_commit_marker = 0\<rparr>,
       app_watchdog_evidence_sequence = 0, app_watchdog_evidence_storage_ready = 1,
       g_appWatchdogResetEvidence = wd_evidence_zero\<rparr>\<rparr>"

definition demo_iwdg :: IWDG_Handle where
  "demo_iwdg = \<lparr>iwdg_Instance = IWDG1, iwdg_Prescaler = IWDG_PRESCALER_128, iwdg_Reload = APP_WATCHDOG_RELOAD_VALUE,
     iwdg_Window = IWDG_WINDOW_DISABLE\<rparr>"

text \<open>The clock service reports once and hangs: the first health check refreshes, the second names it.\<close>

definition demo_silence :: "wd_event list" where
  "demo_silence = [Wd_CheckIn 1 240, Wd_CheckIn 2 245, Wd_Process 250, Wd_CheckIn 1 300, Wd_CheckIn 2 400, Wd_Process 510]"

theorem silent_service_is_reported_witness:
  "let s = App_Watchdog_CheckIn 4 100 (snd (App_Watchdog_Init (Some demo_iwdg) 0 demo_watchdog));
       r = wd_run (wd_counted (\<lambda>h w. (HAL_OK, w))) demo_silence (s, (), 0);
       v = g_appWatchdogResetEvidence (App_Watchdog_Evidence_CaptureBoot HAL_OK 1 (wd_evidence (fst r)))
   in snd (snd r) \<le> 1 \<and> we_valid v = 1 \<and> we_cause v = APP_WATCHDOG_EVIDENCE_HEALTH_GATE_REJECTED
     \<and> we_missing_heartbeat_mask v AND 4 = 4"
proof -
  define s where "s = App_Watchdog_CheckIn 4 100 (snd (App_Watchdog_Init (Some demo_iwdg) 0 demo_watchdog))"
  have s: "wd_initialized (g_appWatchdogDiagnostics s) = 1" "wd_last_health_check_tick (g_appWatchdogDiagnostics s) = 0"
    "app_watchdog_evidence_storage_ready (wd_evidence s) \<noteq> 0"
    using wd_record_kept(2) by (simp_all add: s_def App_Watchdog_Init_def demo_iwdg_def demo_watchdog_def wd_checkin_masks Let_def
        APP_WATCHDOG_EVIDENCE_HARD_STALL_def)
  have silent: "\<forall>e\<in>set demo_silence. \<not> wd_reports APP_WATCHDOG_HEARTBEAT_RTC_SERVICE e"
    by (simp add: demo_silence_def APP_WATCHDOG_HEARTBEAT_RTC_SERVICE_def)
  have checks: "wd_checks 0 demo_silence = 2" by (simp add: demo_silence_def)
  obtain s' w' n where r: "wd_run (wd_counted (\<lambda>h w. (HAL_OK, w))) demo_silence (s, (), 0) = (s', w', n)"
    by (metis prod.exhaust)
  have "wd_initialized (g_appWatchdogDiagnostics s) \<noteq> 0" by (simp add: s(1))
  from silent_service_is_reported [OF _ this s(3) silent r] show ?thesis
    unfolding Let_def s_def [symmetric] r by (simp add: s(2) checks Let_def APP_WATCHDOG_HEARTBEAT_RTC_SERVICE_def) metis
qed

end
