(* ===== verification/AppOutputs.thy ===== *)
theory AppOutputs
  imports AppControlPolicy AppLog AppDiagnostics CanRecovery
begin

text \<open>
  The outputs: \<open>src/Core/Src/pwm_control.c\<close>, \<open>src/Core/Src/pwm_self_test.c\<close> and \<open>src/Core/Src/app_control.c\<close>. The
  statics of the three files are one record, together with the control policy they apply; the timer, the LEDs,
  the safe state and the log are calls on a state of any type. The lemmas show that the local PWM switch
  stops the output in every pass of the main loop, whatever the bus asked for and the self test was doing.
\<close>

section \<open>Data\<close>

datatype PWM_Control_Result = PWM_CONTROL_OK | PWM_CONTROL_ERROR_NOT_INITIALIZED | PWM_CONTROL_ERROR_INVALID_FREQUENCY
  | PWM_CONTROL_ERROR_INVALID_DUTY | PWM_CONTROL_ERROR_HAL

record PWM_Control_State =
  pc_initialized :: u8
  pc_running :: u8
  pc_duty_percent :: u8
  pc_requested_frequency_hz :: u32
  pc_actual_frequency_hz :: u32
  pc_counter_clock_hz :: u32
  pc_period_ticks :: u32
  pc_pulse_ticks :: u32
  pc_last_result :: PWM_Control_Result

datatype PWM_SelfTest_StateCode = PWM_SELF_TEST_STATE_IDLE | PWM_SELF_TEST_STATE_RUNNING | PWM_SELF_TEST_STATE_PASSED
  | PWM_SELF_TEST_STATE_FAILED | PWM_SELF_TEST_STATE_CANCELLED | PWM_SELF_TEST_STATE_ERROR

datatype PWM_SelfTest_ResultCode = PWM_SELF_TEST_OK | PWM_SELF_TEST_BUSY | PWM_SELF_TEST_CONTROL_ERROR

datatype PWM_SelfTest_Phase = PWM_SELF_TEST_PHASE_IDLE | PWM_SELF_TEST_PHASE_APPLY | PWM_SELF_TEST_PHASE_SETTLE

record PWM_SelfTest_PointResult =
  pr_point :: u8
  pr_passed :: u8
  pr_expected_duty_percent :: u8
  pr_measured_duty_percent :: u8
  pr_expected_frequency_hz :: u32
  pr_measured_frequency_hz :: u32

record PWM_SelfTest_State =
  ps_state :: PWM_SelfTest_StateCode
  ps_current_point :: u8
  ps_total_points :: u8
  ps_passed_points :: u8
  ps_expected_frequency_hz :: u32
  ps_expected_duty_percent :: u8
  ps_result_sequence :: u32
  ps_last_result :: PWM_SelfTest_PointResult

record PWM_SelfTest_Point =
  pt_frequency_hz :: u32
  pt_duty_percent :: u8
  pt_expect_signal :: u8

record Input_Capture_State =
  ip_initialized :: u8
  ip_signal_detected :: u8
  ip_frequency_hz :: u32
  ip_duty_percent :: u8
  ip_period_ticks :: u32
  ip_pulse_ticks :: u32
  ip_edge_count :: u32
  ip_overflow_count :: u32
  ip_counter_clock_hz :: u32

record App_ControlSnapshot =
  ac_process_count :: u32
  ac_output_change_count :: u32
  ac_self_test_cancel_count :: u32
  ac_led_1_on :: u8
  ac_led_2_on :: u8
  ac_pwm_running :: u8

text \<open>The statics; the timer is its handle, here a number.\<close>

record App_Outputs =
  g_pwmControlState :: PWM_Control_State
  pwm_timer :: "u32 option"
  pwm_channel :: u32
  self_test_state :: PWM_SelfTest_State
  self_test_phase :: PWM_SelfTest_Phase
  saved_pwm_state :: PWM_Control_State
  point_index :: u8
  failed_points :: u8
  failed_point_mask :: u16
  phase_started_at :: u32
  g_appControl :: App_ControlSnapshot
  out_policy :: App_ControlPolicySnapshot

datatype output_call = Do_SetAutoreload u32 | Do_SetCompare u32 u32 | Do_HAL_TIM_PWM_Start u32 | Do_HAL_TIM_PWM_Stop u32
  | Do_SafeState_Engage | Do_LED_On u8 | Do_LED_Off u8 | Do_Log u32 u32 u32 u32

record 'w output_env =
  out_call :: "output_call \<Rightarrow> 'w \<Rightarrow> HAL_Status \<times> 'w"
  out_tick :: "'w \<Rightarrow> u32 \<times> 'w"
  out_capture :: "'w \<Rightarrow> Input_Capture_State \<times> 'w"
  out_switches :: "'w \<Rightarrow> (u8 \<times> u32) \<times> 'w"

section \<open>The PWM output\<close>

definition PWM_Control_RecordResult :: "PWM_Control_Result \<Rightarrow> App_Outputs \<Rightarrow> PWM_Control_Result \<times> App_Outputs" where
  "PWM_Control_RecordResult result s = (result, s\<lparr>g_pwmControlState := (g_pwmControlState s)\<lparr>pc_last_result := result\<rparr>\<rparr>)"

definition PWM_Control_Init :: "u32 option \<Rightarrow> u32 \<Rightarrow> u32 \<Rightarrow> App_Outputs \<Rightarrow> PWM_Control_Result \<times> App_Outputs" where
  "PWM_Control_Init timer_handle channel counter_clock_hz s =
    (if timer_handle = None \<or> counter_clock_hz = 0 then PWM_Control_RecordResult PWM_CONTROL_ERROR_NOT_INITIALIZED s
     else PWM_Control_RecordResult PWM_CONTROL_OK (s\<lparr>pwm_timer := timer_handle, pwm_channel := channel,
       g_pwmControlState := (g_pwmControlState s)\<lparr>pc_counter_clock_hz := counter_clock_hz, pc_initialized := 1,
         pc_running := 0\<rparr>\<rparr>))"

definition pwm_unavailable :: "App_Outputs \<Rightarrow> bool" where
  "pwm_unavailable s \<longleftrightarrow> pc_initialized (g_pwmControlState s) = 0 \<or> pwm_timer s = None"

definition PWM_Control_Set ::
  "'w output_env \<Rightarrow> u32 \<Rightarrow> u8 \<Rightarrow> App_Outputs \<Rightarrow> 'w \<Rightarrow> PWM_Control_Result \<times> App_Outputs \<times> 'w" where
  "PWM_Control_Set env frequency_hz duty_percent s w =
    (let st = g_pwmControlState s; record = (\<lambda>r s w. case PWM_Control_RecordResult r s of (r, s) \<Rightarrow> (r, s, w))
     in if pwm_unavailable s then record PWM_CONTROL_ERROR_NOT_INITIALIZED s w
        else if frequency_hz < 1 \<or> frequency_hz > 1000000 then record PWM_CONTROL_ERROR_INVALID_FREQUENCY s w
        else if duty_percent > 100 then record PWM_CONTROL_ERROR_INVALID_DUTY s w
        else let period_ticks = (pc_counter_clock_hz st + frequency_hz div 2) div frequency_hz
             in if period_ticks < 1 then record PWM_CONTROL_ERROR_INVALID_FREQUENCY s w
                else let pulse_ticks = ucast ((ucast period_ticks * ucast duty_percent + 50 :: 64 word) div 100) :: u32;
                         w = snd (out_call env (Do_SetAutoreload (period_ticks - 1)) w);
                         w = snd (out_call env (Do_SetCompare (pwm_channel s) pulse_ticks) w);
                         st = st\<lparr>pc_requested_frequency_hz := frequency_hz,
                           pc_actual_frequency_hz := pc_counter_clock_hz st div period_ticks,
                           pc_duty_percent := ucast ((ucast pulse_ticks * 100 + ucast (period_ticks div 2) :: 64 word)
                             div ucast period_ticks),
                           pc_period_ticks := period_ticks, pc_pulse_ticks := pulse_ticks\<rparr>
                     in record PWM_CONTROL_OK (s\<lparr>g_pwmControlState := st\<rparr>) w)"

definition PWM_Control_Stop :: "'w output_env \<Rightarrow> App_Outputs \<Rightarrow> 'w \<Rightarrow> PWM_Control_Result \<times> App_Outputs \<times> 'w" where
  "PWM_Control_Stop env s w =
    (let record = (\<lambda>r s w. case PWM_Control_RecordResult r s of (r, s) \<Rightarrow> (r, s, w));
         off = s\<lparr>g_pwmControlState := (g_pwmControlState s)\<lparr>pc_running := 0\<rparr>\<rparr>
     in if pwm_unavailable s then record PWM_CONTROL_ERROR_NOT_INITIALIZED s w
        else if pc_running (g_pwmControlState s) = 0 then record PWM_CONTROL_OK s w
        else case out_call env (Do_HAL_TIM_PWM_Stop (pwm_channel s)) w of (status, w) \<Rightarrow>
          if status \<noteq> HAL_OK then record PWM_CONTROL_ERROR_HAL off (snd (out_call env Do_SafeState_Engage w))
          else record PWM_CONTROL_OK off w)"

definition PWM_Control_Start :: "'w output_env \<Rightarrow> App_Outputs \<Rightarrow> 'w \<Rightarrow> PWM_Control_Result \<times> App_Outputs \<times> 'w" where
  "PWM_Control_Start env s w =
    (let record = (\<lambda>r s w. case PWM_Control_RecordResult r s of (r, s) \<Rightarrow> (r, s, w))
     in if pwm_unavailable s then record PWM_CONTROL_ERROR_NOT_INITIALIZED s w
        else if pc_running (g_pwmControlState s) \<noteq> 0 then record PWM_CONTROL_OK s w
        else case out_call env (Do_HAL_TIM_PWM_Start (pwm_channel s)) w of (status, w) \<Rightarrow>
          if status \<noteq> HAL_OK then record PWM_CONTROL_ERROR_HAL s w
          else record PWM_CONTROL_OK (s\<lparr>g_pwmControlState := (g_pwmControlState s)\<lparr>pc_running := 1\<rparr>\<rparr>) w)"

definition PWM_Control_GetState :: "App_Outputs \<Rightarrow> PWM_Control_State" where
  "PWM_Control_GetState s = g_pwmControlState s"

section \<open>The self test\<close>

definition PWM_SELF_TEST_SETTLE_MS :: u32 where "PWM_SELF_TEST_SETTLE_MS = 300"
definition PWM_SELF_TEST_TOTAL_POINTS :: u8 where "PWM_SELF_TEST_TOTAL_POINTS = 10"
definition APP_LOG_EVENT_PWM_SELF_TEST_COMPLETED :: u32 where "APP_LOG_EVENT_PWM_SELF_TEST_COMPLETED = 0x0500"

definition test_points :: "PWM_SelfTest_Point list" where
  "test_points = map (\<lambda>(f, d, e). \<lparr>pt_frequency_hz = f, pt_duty_percent = d, pt_expect_signal = e\<rparr>)
     [(1000, 50, 1), (10000, 50, 1), (100000, 50, 1), (500000, 50, 1), (10000, 10, 1), (10000, 25, 1), (10000, 50, 1),
      (10000, 75, 1), (10000, 90, 1), (0, 0, 0)]"

fun self_test_code :: "PWM_SelfTest_StateCode \<Rightarrow> u32" where
  "self_test_code PWM_SELF_TEST_STATE_IDLE = 0"
| "self_test_code PWM_SELF_TEST_STATE_RUNNING = 1"
| "self_test_code PWM_SELF_TEST_STATE_PASSED = 2"
| "self_test_code PWM_SELF_TEST_STATE_FAILED = 3"
| "self_test_code PWM_SELF_TEST_STATE_CANCELLED = 4"
| "self_test_code PWM_SELF_TEST_STATE_ERROR = 5"

definition PWM_SelfTest_LogTerminalResult :: "'w output_env \<Rightarrow> App_Outputs \<Rightarrow> 'w \<Rightarrow> 'w" where
  "PWM_SelfTest_LogTerminalResult env s w =
    (let t = self_test_state s;
         sev = (if ps_state t = PWM_SELF_TEST_STATE_FAILED then APP_LOG_SEVERITY_WARNING
           else if ps_state t = PWM_SELF_TEST_STATE_ERROR then APP_LOG_SEVERITY_FAULT else APP_LOG_SEVERITY_INFO);
         summary = self_test_code (ps_state t) OR push_bit 8 (ucast (ps_passed_points t))
           OR push_bit 16 (ucast (ps_total_points t)) OR push_bit 24 (ucast (failed_points s))
     in snd (out_call env (Do_Log sev APP_LOG_EVENT_PWM_SELF_TEST_COMPLETED summary (ucast (failed_point_mask s))) w))"

definition PWM_SelfTest_AbsoluteDifference :: "u32 \<Rightarrow> u32 \<Rightarrow> u32" where
  "PWM_SelfTest_AbsoluteDifference a b = (if a \<ge> b then a - b else b - a)"

definition PWM_SelfTest_FrequencyMatches :: "u32 \<Rightarrow> u32 \<Rightarrow> bool" where
  "PWM_SelfTest_FrequencyMatches measured expected =
    (let tolerance = expected div 50; tolerance = (if tolerance < 2 then 2 else tolerance)
     in PWM_SelfTest_AbsoluteDifference measured expected \<le> tolerance)"

definition PWM_SelfTest_DutyMatches :: "u8 \<Rightarrow> u8 \<Rightarrow> bool" where
  "PWM_SelfTest_DutyMatches measured expected =
    ((if measured \<ge> expected then measured - expected else expected - measured) \<le> 2)"

definition PWM_SelfTest_RestoreOutput ::
  "'w output_env \<Rightarrow> App_Outputs \<Rightarrow> 'w \<Rightarrow> PWM_SelfTest_ResultCode \<times> App_Outputs \<times> 'w" where
  "PWM_SelfTest_RestoreOutput env s w =
    (let saved = saved_pwm_state s;
         verdict = (\<lambda>(r, s, w). (if r = PWM_CONTROL_OK then PWM_SELF_TEST_OK else PWM_SELF_TEST_CONTROL_ERROR, s, w));
         restart = (\<lambda>s w. if pc_running saved \<noteq> 0 then verdict (PWM_Control_Start env s w) else verdict (PWM_Control_Stop env s w))
     in if pc_requested_frequency_hz saved \<noteq> 0
        then (case PWM_Control_Set env (pc_requested_frequency_hz saved) (pc_duty_percent saved) s w of (r, s, w) \<Rightarrow>
          if r \<noteq> PWM_CONTROL_OK then (PWM_SELF_TEST_CONTROL_ERROR, s, w) else restart s w)
        else restart s w)"

definition PWM_SelfTest_ApplyPoint ::
  "'w output_env \<Rightarrow> App_Outputs \<Rightarrow> 'w \<Rightarrow> PWM_SelfTest_ResultCode \<times> App_Outputs \<times> 'w" where
  "PWM_SelfTest_ApplyPoint env s w =
    (let point = test_points ! unat (point_index s);
         verdict = (\<lambda>(r, s, w). (if r = PWM_CONTROL_OK then PWM_SELF_TEST_OK else PWM_SELF_TEST_CONTROL_ERROR, s, w))
     in if pt_expect_signal point = 0 then verdict (PWM_Control_Stop env s w)
        else case PWM_Control_Set env (pt_frequency_hz point) (pt_duty_percent point) s w of (r, s, w) \<Rightarrow>
          if r \<noteq> PWM_CONTROL_OK then (PWM_SELF_TEST_CONTROL_ERROR, s, w) else verdict (PWM_Control_Start env s w))"

definition PWM_SelfTest_RecordPoint :: "'w output_env \<Rightarrow> App_Outputs \<Rightarrow> 'w \<Rightarrow> App_Outputs \<times> 'w" where
  "PWM_SelfTest_RecordPoint env s w =
    (let point = test_points ! unat (point_index s); output = g_pwmControlState s
     in case out_capture env w of (capture, w) \<Rightarrow>
     let passed = (if pt_expect_signal point = 0 then ip_signal_detected capture = 0
           else pc_running output \<noteq> 0 \<and> ip_signal_detected capture \<noteq> 0
             \<and> PWM_SelfTest_FrequencyMatches (ip_frequency_hz capture) (pc_actual_frequency_hz output)
             \<and> PWM_SelfTest_DutyMatches (ip_duty_percent capture) (pc_duty_percent output));
         t = self_test_state s;
         t = t\<lparr>ps_last_result := \<lparr>pr_point = point_index s + 1, pr_passed = (if passed then 1 else 0),
             pr_expected_duty_percent = pt_duty_percent point, pr_measured_duty_percent = ip_duty_percent capture,
             pr_expected_frequency_hz = pt_frequency_hz point, pr_measured_frequency_hz = ip_frequency_hz capture\<rparr>,
           ps_result_sequence := ps_result_sequence t + 1\<rparr>
     in (if passed then s\<lparr>self_test_state := t\<lparr>ps_passed_points := ps_passed_points t + 1\<rparr>\<rparr>
         else s\<lparr>self_test_state := t, failed_points := failed_points s + 1,
           failed_point_mask := failed_point_mask s OR push_bit (unat (point_index s)) 1\<rparr>, w))"

definition self_test_state_zero :: PWM_SelfTest_State where
  "self_test_state_zero = \<lparr>ps_state = PWM_SELF_TEST_STATE_IDLE, ps_current_point = 0, ps_total_points = 0,
     ps_passed_points = 0, ps_expected_frequency_hz = 0, ps_expected_duty_percent = 0, ps_result_sequence = 0,
     ps_last_result = \<lparr>pr_point = 0, pr_passed = 0, pr_expected_duty_percent = 0, pr_measured_duty_percent = 0,
       pr_expected_frequency_hz = 0, pr_measured_frequency_hz = 0\<rparr>\<rparr>"

definition PWM_SelfTest_Init :: "App_Outputs \<Rightarrow> App_Outputs" where
  "PWM_SelfTest_Init s = s\<lparr>self_test_state := self_test_state_zero\<lparr>ps_total_points := PWM_SELF_TEST_TOTAL_POINTS\<rparr>,
     self_test_phase := PWM_SELF_TEST_PHASE_IDLE\<rparr>"

definition PWM_SelfTest_IsRunning :: "App_Outputs \<Rightarrow> bool" where
  "PWM_SelfTest_IsRunning s \<longleftrightarrow> ps_state (self_test_state s) = PWM_SELF_TEST_STATE_RUNNING"

definition PWM_SelfTest_Start ::
  "'w output_env \<Rightarrow> App_Outputs \<Rightarrow> 'w \<Rightarrow> PWM_SelfTest_ResultCode \<times> App_Outputs \<times> 'w" where
  "PWM_SelfTest_Start env s w =
    (let t = self_test_state s; pwm_state = g_pwmControlState s
     in if ps_state t = PWM_SELF_TEST_STATE_RUNNING then (PWM_SELF_TEST_BUSY, s, w)
        else case out_capture env w of (capture, w) \<Rightarrow>
          if pc_initialized pwm_state = 0 \<or> ip_initialized capture = 0
          then (PWM_SELF_TEST_CONTROL_ERROR, s\<lparr>self_test_state := t\<lparr>ps_state := PWM_SELF_TEST_STATE_ERROR\<rparr>\<rparr>, w)
          else (PWM_SELF_TEST_OK, s\<lparr>saved_pwm_state := pwm_state, point_index := 0, failed_points := 0, failed_point_mask := 0,
            self_test_state := t\<lparr>ps_state := PWM_SELF_TEST_STATE_RUNNING, ps_current_point := 1,
              ps_total_points := PWM_SELF_TEST_TOTAL_POINTS, ps_passed_points := 0,
              ps_expected_frequency_hz := pt_frequency_hz (test_points ! 0),
              ps_expected_duty_percent := pt_duty_percent (test_points ! 0)\<rparr>,
            self_test_phase := PWM_SELF_TEST_PHASE_APPLY\<rparr>, w))"

definition self_test_set :: "PWM_SelfTest_StateCode \<Rightarrow> App_Outputs \<Rightarrow> App_Outputs" where
  "self_test_set code s = s\<lparr>self_test_state := (self_test_state s)\<lparr>ps_state := code\<rparr>\<rparr>"

definition PWM_SelfTest_Cancel :: "'w output_env \<Rightarrow> App_Outputs \<Rightarrow> 'w \<Rightarrow> App_Outputs \<times> 'w" where
  "PWM_SelfTest_Cancel env s w =
    (if \<not> PWM_SelfTest_IsRunning s then (s, w)
     else case PWM_SelfTest_RestoreOutput env (s\<lparr>self_test_phase := PWM_SELF_TEST_PHASE_IDLE\<rparr>) w of (r, s, w) \<Rightarrow>
       let s = self_test_set (if r = PWM_SELF_TEST_OK then PWM_SELF_TEST_STATE_CANCELLED else PWM_SELF_TEST_STATE_ERROR) s
       in (s, PWM_SelfTest_LogTerminalResult env s w))"

definition PWM_SelfTest_Process :: "'w output_env \<Rightarrow> App_Outputs \<Rightarrow> 'w \<Rightarrow> App_Outputs \<times> 'w" where
  "PWM_SelfTest_Process env s w =
    (if \<not> PWM_SelfTest_IsRunning s then (s, w)
     else case out_tick env w of (now, w) \<Rightarrow>
       if self_test_phase s = PWM_SELF_TEST_PHASE_APPLY
       then (case PWM_SelfTest_ApplyPoint env s w of (r, s, w) \<Rightarrow>
         if r \<noteq> PWM_SELF_TEST_OK
         then let s = (self_test_set PWM_SELF_TEST_STATE_ERROR s)\<lparr>self_test_phase := PWM_SELF_TEST_PHASE_IDLE\<rparr>
              in case PWM_SelfTest_RestoreOutput env s w of (r, s, w) \<Rightarrow> (s, PWM_SelfTest_LogTerminalResult env s w)
         else (s\<lparr>phase_started_at := now, self_test_phase := PWM_SELF_TEST_PHASE_SETTLE\<rparr>, w))
       else if self_test_phase s \<noteq> PWM_SELF_TEST_PHASE_SETTLE \<or> now - phase_started_at s < PWM_SELF_TEST_SETTLE_MS then (s, w)
       else case PWM_SelfTest_RecordPoint env s w of (s, w) \<Rightarrow>
         let s = s\<lparr>point_index := point_index s + 1\<rparr>
         in if point_index s \<ge> PWM_SELF_TEST_TOTAL_POINTS
            then (case PWM_SelfTest_RestoreOutput env (s\<lparr>self_test_phase := PWM_SELF_TEST_PHASE_IDLE\<rparr>) w of (r, s, w) \<Rightarrow>
              let s = self_test_set (if r \<noteq> PWM_SELF_TEST_OK then PWM_SELF_TEST_STATE_ERROR
                    else if failed_points s = 0 then PWM_SELF_TEST_STATE_PASSED else PWM_SELF_TEST_STATE_FAILED) s
              in (s, PWM_SelfTest_LogTerminalResult env s w))
            else (s\<lparr>self_test_state := (self_test_state s)\<lparr>ps_current_point := point_index s + 1,
                ps_expected_frequency_hz := pt_frequency_hz (test_points ! unat (point_index s)),
                ps_expected_duty_percent := pt_duty_percent (test_points ! unat (point_index s))\<rparr>,
              self_test_phase := PWM_SELF_TEST_PHASE_APPLY\<rparr>, w))"

definition PWM_SelfTest_GetState :: "App_Outputs \<Rightarrow> PWM_SelfTest_State" where
  "PWM_SelfTest_GetState s = self_test_state s"

section \<open>Applying the policy\<close>

definition App_Control_ApplyLed :: "'w output_env \<Rightarrow> u8 \<Rightarrow> u8 \<Rightarrow> App_Outputs \<Rightarrow> 'w \<Rightarrow> App_Outputs \<times> 'w" where
  "App_Control_ApplyLed env led_number effective_on s w =
    (let c = g_appControl s; current = (if led_number = 1 then ac_led_1_on c else ac_led_2_on c)
     in if current = effective_on then (s, w)
        else let c = (if led_number = 1 then c\<lparr>ac_led_1_on := effective_on\<rparr> else c\<lparr>ac_led_2_on := effective_on\<rparr>);
                 c = c\<lparr>ac_output_change_count := ac_output_change_count c + 1\<rparr>;
                 led = (if led_number = 1 then 1 else 2)
             in (s\<lparr>g_appControl := c\<rparr>, snd (out_call env (if effective_on \<noteq> 0 then Do_LED_On led else Do_LED_Off led) w)))"

definition App_Control_ApplyPwm :: "'w output_env \<Rightarrow> App_ControlPolicySnapshot \<Rightarrow> App_Outputs \<Rightarrow> 'w \<Rightarrow> App_Outputs \<times> 'w" where
  "App_Control_ApplyPwm env policy s w =
    (let previous_reported_state = ac_pwm_running (g_appControl s)
     in case (if PWM_SelfTest_IsRunning s
              then if cp_pwm_permitted policy = 0
                   then (case PWM_SelfTest_Cancel env s w of (s, w) \<Rightarrow>
                     let c = g_appControl s;
                         s = s\<lparr>g_appControl := c\<lparr>ac_self_test_cancel_count := ac_self_test_cancel_count c + 1\<rparr>\<rparr>
                     in snd (PWM_Control_Stop env s w))
                   else (s, w)
              else if cp_pwm_effective policy \<noteq> 0 then snd (PWM_Control_Start env s w)
              else snd (PWM_Control_Stop env s w)) of (s, w) \<Rightarrow>
       let c = (g_appControl s)\<lparr>ac_pwm_running := pc_running (g_pwmControlState s)\<rparr>;
           c = (if ac_pwm_running c \<noteq> previous_reported_state
                then c\<lparr>ac_output_change_count := ac_output_change_count c + 1\<rparr> else c)
       in (s\<lparr>g_appControl := c\<rparr>, w))"

definition App_Control_Init :: "App_Outputs \<Rightarrow> App_Outputs" where
  "App_Control_Init s = s\<lparr>g_appControl := \<lparr>ac_process_count = 0, ac_output_change_count = 0, ac_self_test_cancel_count = 0,
     ac_led_1_on = 0, ac_led_2_on = 0, ac_pwm_running = 0\<rparr>, out_policy := App_ControlPolicy_Init\<rparr>"

text \<open>The switches are what the switch monitor answers: whether its data is valid and which inputs are closed.\<close>

definition App_Control_Process :: "'w output_env \<Rightarrow> App_Outputs \<Rightarrow> 'w \<Rightarrow> App_Outputs \<times> 'w" where
  "App_Control_Process env s w =
    (case out_switches env w of ((data_valid, closed_bitmap), w) \<Rightarrow>
     let s = s\<lparr>out_policy := App_ControlPolicy_UpdateSwitches data_valid closed_bitmap (out_policy s)\<rparr>; policy = out_policy s
     in case App_Control_ApplyLed env 1 (cp_led_1_effective policy) s w of (s, w) \<Rightarrow>
     case App_Control_ApplyLed env 2 (cp_led_2_effective policy) s w of (s, w) \<Rightarrow>
     case App_Control_ApplyPwm env policy s w of (s, w) \<Rightarrow>
     case PWM_SelfTest_Process env s w of (s, w) \<Rightarrow>
     case App_Control_ApplyPwm env (out_policy s) s w of (s, w) \<Rightarrow>
       (s\<lparr>g_appControl := (g_appControl s)\<lparr>ac_process_count := ac_process_count (g_appControl s) + 1\<rparr>\<rparr>, w))"

definition App_Control_GetSnapshot :: "App_Outputs \<Rightarrow> App_ControlSnapshot" where
  "App_Control_GetSnapshot s = g_appControl s"

section \<open>The timer output as the calls leave it\<close>

text \<open>Calls with their status in their order, and whether the timer drives the pin after them.\<close>

definition output_logged :: "'w output_env \<Rightarrow> ('w \<times> (output_call \<times> HAL_Status) list) output_env" where
  "output_logged env = \<lparr>out_call = (\<lambda>c (w, l). case out_call env c w of (r, w) \<Rightarrow> (r, w, l @ [(c, r)])),
     out_tick = (\<lambda>(w, l). case out_tick env w of (r, w) \<Rightarrow> (r, w, l)),
     out_capture = (\<lambda>(w, l). case out_capture env w of (r, w) \<Rightarrow> (r, w, l)),
     out_switches = (\<lambda>(w, l). case out_switches env w of (r, w) \<Rightarrow> (r, w, l))\<rparr>"

fun pwm_pin :: "bool \<Rightarrow> output_call \<times> HAL_Status \<Rightarrow> bool" where
  "pwm_pin on (Do_HAL_TIM_PWM_Start c, r) = (on \<or> r = HAL_OK)"
| "pwm_pin on (Do_HAL_TIM_PWM_Stop c, r) = (on \<and> r \<noteq> HAL_OK)"
| "pwm_pin on (Do_SafeState_Engage, r) = False"
| "pwm_pin on (c, r) = on"

definition pwm_driven :: "(output_call \<times> HAL_Status) list \<Rightarrow> bool" where
  "pwm_driven l = fold (\<lambda>x on. pwm_pin on x) l False"

lemma pwm_driven_append [simp]: "pwm_driven (l @ k) = fold (\<lambda>x on. pwm_pin on x) k (pwm_driven l)"
  by (simp add: pwm_driven_def)

lemma pwm_driven_Nil [simp]: "\<not> pwm_driven []" by (simp add: pwm_driven_def)

text \<open>The state knows whether the pin is driven, and it is driven only by an initialised driver.\<close>

definition output_inv :: "App_Outputs \<Rightarrow> 'w \<times> (output_call \<times> HAL_Status) list \<Rightarrow> bool" where
  "output_inv s w \<longleftrightarrow> (pc_running (g_pwmControlState s) \<noteq> 0 \<longleftrightarrow> pwm_driven (snd w))
     \<and> (pwm_unavailable s \<longrightarrow> pc_running (g_pwmControlState s) = 0)"

lemma output_logged_calls:
  "out_call (output_logged env) c w = (fst (out_call env c (fst w)), snd (out_call env c (fst w)), snd w @ [(c, fst (out_call env c (fst w)))])"
  "out_capture (output_logged env) w = (fst (out_capture env (fst w)), snd (out_capture env (fst w)), snd w)"
  "out_tick (output_logged env) w = (fst (out_tick env (fst w)), snd (out_tick env (fst w)), snd w)"
  "out_switches (output_logged env) w = (fst (out_switches env (fst w)), snd (out_switches env (fst w)), snd w)"
  by (simp_all add: output_logged_def split: prod.split)

text \<open>What an operation of the drivers keeps.\<close>

definition output_keeps :: "App_Outputs \<Rightarrow> 'w \<times> (output_call \<times> HAL_Status) list \<Rightarrow> App_Outputs
    \<Rightarrow> 'w \<times> (output_call \<times> HAL_Status) list \<Rightarrow> bool" where
  "output_keeps s w s' w' \<longleftrightarrow> (output_inv s w \<longrightarrow> output_inv s' w') \<and> out_policy s' = out_policy s"

lemma output_keeps_trans: "output_keeps s w s1 w1 \<Longrightarrow> output_keeps s1 w1 s' w' \<Longrightarrow> output_keeps s w s' w'"
  by (simp add: output_keeps_def)

lemma output_keepsI:
  assumes "g_pwmControlState s' = g_pwmControlState s" "pwm_timer s' = pwm_timer s" "out_policy s' = out_policy s"
    "pwm_driven (snd w') = pwm_driven (snd w)"
  shows "output_keeps s w s' w'"
  using assms by (simp add: output_keeps_def output_inv_def pwm_unavailable_def)

lemma control_keeps:
  "PWM_Control_Set (output_logged env) f d s w = (r, s', w') \<Longrightarrow> output_keeps s w s' w'"
  "PWM_Control_Stop (output_logged env) s w = (r, s', w') \<Longrightarrow> output_keeps s w s' w'
     \<and> (output_inv s w \<longrightarrow> pc_running (g_pwmControlState s') = 0)"
  "PWM_Control_Start (output_logged env) s w = (r, s', w') \<Longrightarrow> output_keeps s w s' w'"
  by (auto simp: PWM_Control_Set_def PWM_Control_Stop_def PWM_Control_Start_def PWM_Control_RecordResult_def Let_def
      output_keeps_def output_inv_def pwm_unavailable_def output_logged_calls split: if_splits)

lemma log_keeps: "output_keeps s w s' w' \<Longrightarrow> output_keeps s w s' (PWM_SelfTest_LogTerminalResult (output_logged env) s0 w')"
  by (simp add: output_keeps_def output_inv_def PWM_SelfTest_LogTerminalResult_def Let_def output_logged_calls)

lemma restore_keeps:
  assumes "PWM_SelfTest_RestoreOutput (output_logged env) s w = (r, s', w')"
  shows "output_keeps s w s' w'"
proof -
  let ?sv = "saved_pwm_state s"
  obtain q s1 w1 where set: "PWM_Control_Set (output_logged env) (pc_requested_frequency_hz ?sv) (pc_duty_percent ?sv) s w = (q, s1, w1)"
    by (metis prod.exhaust)
  obtain r2 s2 w2 where start1: "PWM_Control_Start (output_logged env) s1 w1 = (r2, s2, w2)" by (metis prod.exhaust)
  obtain r3 s3 w3 where stop1: "PWM_Control_Stop (output_logged env) s1 w1 = (r3, s3, w3)" by (metis prod.exhaust)
  obtain r4 s4 w4 where start: "PWM_Control_Start (output_logged env) s w = (r4, s4, w4)" by (metis prod.exhaust)
  obtain r5 s5 w5 where stop: "PWM_Control_Stop (output_logged env) s w = (r5, s5, w5)" by (metis prod.exhaust)
  have "(s', w') \<in> {(s1, w1), (s2, w2), (s3, w3), (s4, w4), (s5, w5)}"
    using assms unfolding PWM_SelfTest_RestoreOutput_def Let_def set prod.case start1 stop1 start stop by (simp split: if_splits)
  then show ?thesis
    using control_keeps(1) [OF set] control_keeps(2) [OF stop1] control_keeps(3) [OF start1] control_keeps(2) [OF stop]
      control_keeps(3) [OF start] output_keeps_trans by blast
qed

lemma apply_point_keeps:
  assumes "PWM_SelfTest_ApplyPoint (output_logged env) s w = (r, s', w')"
  shows "output_keeps s w s' w'"
proof -
  let ?p = "test_points ! unat (point_index s)"
  obtain q s1 w1 where set: "PWM_Control_Set (output_logged env) (pt_frequency_hz ?p) (pt_duty_percent ?p) s w = (q, s1, w1)"
    by (metis prod.exhaust)
  obtain r1 s2 w2 where start: "PWM_Control_Start (output_logged env) s1 w1 = (r1, s2, w2)" by (metis prod.exhaust)
  obtain r2 s3 w3 where stop: "PWM_Control_Stop (output_logged env) s w = (r2, s3, w3)" by (metis prod.exhaust)
  have "(s', w') \<in> {(s3, w3), (s1, w1), (s2, w2)}"
    using assms unfolding PWM_SelfTest_ApplyPoint_def Let_def set stop prod.case start by (simp split: if_splits)
  then show ?thesis
    using control_keeps(2) [OF stop] control_keeps(1) [OF set] control_keeps(3) [OF start] output_keeps_trans by blast
qed

lemma record_point_keeps:
  assumes "PWM_SelfTest_RecordPoint (output_logged env) s w = (s', w')"
  shows "output_keeps s w s' w'"
  using assms unfolding PWM_SelfTest_RecordPoint_def Let_def output_logged_calls prod.case
  by (intro output_keepsI) (auto split: if_splits)

lemma self_test_set_keeps: "output_keeps s w s' w' \<Longrightarrow> output_keeps s w (self_test_set code s') w'"
  by (simp add: output_keeps_def output_inv_def pwm_unavailable_def self_test_set_def)

lemma cancel_keeps:
  assumes "PWM_SelfTest_Cancel (output_logged env) s w = (s', w')"
  shows "output_keeps s w s' w'"
proof (cases "PWM_SelfTest_IsRunning s")
  case False
  then show ?thesis using assms by (simp add: PWM_SelfTest_Cancel_def output_keeps_def)
next
  case True
  let ?s = "s\<lparr>self_test_phase := PWM_SELF_TEST_PHASE_IDLE\<rparr>"
  obtain r s1 w1 where r: "PWM_SelfTest_RestoreOutput (output_logged env) ?s w = (r, s1, w1)" by (metis prod.exhaust)
  have "output_keeps s w ?s w" by (rule output_keepsI) simp_all
  then have "output_keeps s w s1 w1" using restore_keeps [OF r] output_keeps_trans by blast
  then show ?thesis using assms True r
    by (auto simp: PWM_SelfTest_Cancel_def Let_def intro!: log_keeps self_test_set_keeps)
qed

lemma self_test_process_keeps:
  assumes "PWM_SelfTest_Process (output_logged env) s w = (s', w')"
  shows "output_keeps s w s' w'"
proof (cases "PWM_SelfTest_IsRunning s")
  case False
  then show ?thesis using assms by (simp add: PWM_SelfTest_Process_def output_keeps_def)
next
  case True
  obtain now w0 where t: "out_tick (output_logged env) w = (now, w0)" by (metis prod.exhaust)
  have w0: "output_keeps s w s w0" using t by (intro output_keepsI) (auto simp: output_logged_calls)
  obtain r s1 w1 where a: "PWM_SelfTest_ApplyPoint (output_logged env) s w0 = (r, s1, w1)" by (metis prod.exhaust)
  obtain s4 w4 where p: "PWM_SelfTest_RecordPoint (output_logged env) s w0 = (s4, w4)" by (metis prod.exhaust)
  have s1: "output_keeps s w s1 w1" by (rule output_keeps_trans [OF w0 apply_point_keeps [OF a]])
  have s4: "output_keeps s w s4 w4" by (rule output_keeps_trans [OF w0 record_point_keeps [OF p]])
  have upd: "output_keeps s w t v" if "output_keeps s w u v" "g_pwmControlState t = g_pwmControlState u"
    "pwm_timer t = pwm_timer u" "out_policy t = out_policy u" for t u v
    by (rule output_keeps_trans [OF that(1) output_keepsI]) (use that in simp_all)
  have restored: "output_keeps s w (self_test_set code s3) (PWM_SelfTest_LogTerminalResult (output_logged env) s5 w3)
      \<and> output_keeps s w s3 (PWM_SelfTest_LogTerminalResult (output_logged env) s5 w3)"
    if "PWM_SelfTest_RestoreOutput (output_logged env) u v = (q, s3, w3)" "output_keeps s w u v" for q s3 w3 u v code s5
    using output_keeps_trans [OF that(2) restore_keeps [OF that(1)]] by (intro conjI log_keeps self_test_set_keeps)
  have nn: "\<not> \<not> PWM_SelfTest_IsRunning s" using True by simp
  note run = assms [unfolded PWM_SelfTest_Process_def if_not_P [OF nn] t prod.case a p Let_def]
  let ?u1 = "(self_test_set PWM_SELF_TEST_STATE_ERROR s1)\<lparr>self_test_phase := PWM_SELF_TEST_PHASE_IDLE\<rparr>"
  let ?u4 = "s4\<lparr>point_index := point_index s4 + 1, self_test_phase := PWM_SELF_TEST_PHASE_IDLE\<rparr>"
  obtain q1 s2 w2 where r1: "PWM_SelfTest_RestoreOutput (output_logged env) ?u1 w1 = (q1, s2, w2)" by (metis prod.exhaust)
  obtain q4 s5 w5 where r4: "PWM_SelfTest_RestoreOutput (output_logged env) ?u4 w4 = (q4, s5, w5)" by (metis prod.exhaust)
  have u1: "output_keeps s w ?u1 w1" by (rule upd [OF s1]) (simp_all add: self_test_set_def)
  have u4: "output_keeps s w ?u4 w4" by (rule upd [OF s4]) simp_all
  show ?thesis
    using run restored [OF r1 u1] restored [OF r4 u4] w0 upd [OF s1] upd [OF s4] unfolding r1 r4 prod.case
    by (auto split: if_splits)
qed

lemma led_keeps:
  assumes "App_Control_ApplyLed (output_logged env) n on s w = (s', w')"
  shows "output_keeps s w s' w'"
  using assms by (auto simp: App_Control_ApplyLed_def Let_def output_logged_calls output_keeps_def output_inv_def
      pwm_unavailable_def split: if_splits)

text \<open>Applying the policy leaves the pin driven only for a running test or a request, and never against the switch.\<close>

lemma apply_pwm_keeps:
  assumes run: "App_Control_ApplyPwm (output_logged env) policy s w = (s', w')"
    and sound: "cp_pwm_effective policy \<noteq> 0 \<longrightarrow> cp_pwm_permitted policy \<noteq> 0"
  shows "output_keeps s w s' w' \<and> (output_inv s w \<and> pwm_driven (snd w') \<longrightarrow>
    cp_pwm_permitted policy \<noteq> 0 \<and> (PWM_SelfTest_IsRunning s' \<or> cp_pwm_effective policy \<noteq> 0))"
proof -
  obtain s1 w1 where c: "PWM_SelfTest_Cancel (output_logged env) s w = (s1, w1)" by (metis prod.exhaust)
  let ?s1 = "s1\<lparr>g_appControl := (g_appControl s1)\<lparr>ac_self_test_cancel_count := ac_self_test_cancel_count (g_appControl s1) + 1\<rparr>\<rparr>"
  obtain r2 s2 w2 where stop1: "PWM_Control_Stop (output_logged env) ?s1 w1 = (r2, s2, w2)" by (metis prod.exhaust)
  obtain r3 s3 w3 where start: "PWM_Control_Start (output_logged env) s w = (r3, s3, w3)" by (metis prod.exhaust)
  obtain r4 s4 w4 where stop: "PWM_Control_Stop (output_logged env) s w = (r4, s4, w4)" by (metis prod.exhaust)
  have "output_keeps s1 w1 ?s1 w1" by (rule output_keepsI) simp_all
  then have one: "output_keeps s w ?s1 w1" using cancel_keeps [OF c] output_keeps_trans by blast
  have two: "output_keeps s w s2 w2" using output_keeps_trans [OF one] control_keeps(2) [OF stop1] by blast
  define post where "post t = t\<lparr>g_appControl := (let c = (g_appControl t)\<lparr>ac_pwm_running := pc_running (g_pwmControlState t)\<rparr>
      in if ac_pwm_running c \<noteq> ac_pwm_running (g_appControl s)
         then c\<lparr>ac_output_change_count := ac_output_change_count c + 1\<rparr> else c)\<rparr>" for t :: App_Outputs
  have same: "g_pwmControlState (post t) = g_pwmControlState t" "pwm_timer (post t) = pwm_timer t"
    "out_policy (post t) = out_policy t" "PWM_SelfTest_IsRunning (post t) = PWM_SelfTest_IsRunning t" for t
    by (simp_all add: post_def PWM_SelfTest_IsRunning_def)
  have post: "output_keeps s w t v \<Longrightarrow> output_keeps s w (post t) v" for t v
    by (erule output_keeps_trans, rule output_keepsI) (simp_all add: same)
  have off: "\<not> pwm_driven (snd v)" if "output_keeps s w t v" "output_inv s w" "pc_running (g_pwmControlState t) = 0" for t v
    using that by (simp add: output_keeps_def output_inv_def)
  have stopped: "output_inv s w \<longrightarrow> \<not> pwm_driven (snd w2)" "output_inv s w \<longrightarrow> \<not> pwm_driven (snd w4)"
    using off [OF two] control_keeps(2) [OF stop1] off [of s4 w4] control_keeps(2) [OF stop] one
    by (auto simp: output_keeps_def)
  have res: "(s', w') = (if PWM_SelfTest_IsRunning s
      then if cp_pwm_permitted policy = 0 then (post s2, w2) else (post s, w)
      else if cp_pwm_effective policy \<noteq> 0 then (post s3, w3) else (post s4, w4))"
    using run unfolding App_Control_ApplyPwm_def Let_def c prod.case stop1 start stop post_def snd_conv
    by (simp split: if_splits)
  have refl: "output_keeps s w s w" by (simp add: output_keeps_def)
  show ?thesis
    using res post [OF two] post [OF refl] post [of s3 w3] post [of s4 w4] control_keeps(3) [OF start]
      control_keeps(2) [OF stop] stopped sound same(4) [of s]
    by (auto split: if_splits)
qed

section \<open>The local switch\<close>

text \<open>What the bus and the main loop do to the outputs, in any order.\<close>

datatype output_op = Op_Process | Op_Request policy_call | Op_PwmSet u32 u8 | Op_SelfTest_Start | Op_SelfTest_Cancel

fun output_step :: "'w output_env \<Rightarrow> output_op \<Rightarrow> App_Outputs \<times> 'w \<Rightarrow> App_Outputs \<times> 'w" where
  "output_step env Op_Process (s, w) = App_Control_Process env s w"
| "output_step env (Op_Request c) (s, w) = (s\<lparr>out_policy := policy_call_run c (out_policy s)\<rparr>, w)"
| "output_step env (Op_PwmSet f d) (s, w) = snd (PWM_Control_Set env f d s w)"
| "output_step env Op_SelfTest_Start (s, w) = snd (PWM_SelfTest_Start env s w)"
| "output_step env Op_SelfTest_Cancel (s, w) = PWM_SelfTest_Cancel env s w"

definition output_run :: "'w output_env \<Rightarrow> output_op list \<Rightarrow> App_Outputs \<times> 'w \<Rightarrow> App_Outputs \<times> 'w" where
  "output_run env ops x = fold (output_step env) ops x"

lemma policy_after_switches:
  "cp_pwm_permitted (App_ControlPolicy_UpdateSwitches v m g) \<noteq> 0 \<longleftrightarrow> v \<noteq> 0 \<and> \<not> bit m 1"
  "cp_pwm_effective (App_ControlPolicy_UpdateSwitches v m g) \<noteq> 0 \<longleftrightarrow> cp_pwm_requested g \<noteq> 0 \<and> v \<noteq> 0 \<and> \<not> bit m 1"
  by (auto simp: App_ControlPolicy_UpdateSwitches_def App_ControlPolicy_Recalculate_def Let_def policy_closed_bit
      APP_CONTROL_POLICY_PWM_INPUT_def)

lemma control_process_outcome:
  assumes run: "App_Control_Process (output_logged env) s w = (s', w')" and sw: "out_switches env (fst w) = ((v, m), w0)"
  shows "(output_inv s w \<longrightarrow> output_inv s' w') \<and> (output_inv s w \<and> pwm_driven (snd w') \<longrightarrow>
    v \<noteq> 0 \<and> \<not> bit m 1 \<and> (PWM_SelfTest_IsRunning s' \<or> cp_pwm_requested (out_policy s) \<noteq> 0))"
proof -
  have q: "out_switches (output_logged env) w = ((v, m), w0, snd w)" using sw by (simp add: output_logged_calls)
  define p where "p = App_ControlPolicy_UpdateSwitches v m (out_policy s)"
  define s0 where "s0 = s\<lparr>out_policy := p\<rparr>"
  obtain s1 w1 where l1: "App_Control_ApplyLed (output_logged env) 1 (cp_led_1_effective p) s0 (w0, snd w) = (s1, w1)"
    by (metis prod.exhaust)
  obtain s2 w2 where l2: "App_Control_ApplyLed (output_logged env) 2 (cp_led_2_effective p) s1 w1 = (s2, w2)" by (metis prod.exhaust)
  obtain s3 w3 where a1: "App_Control_ApplyPwm (output_logged env) p s2 w2 = (s3, w3)" by (metis prod.exhaust)
  obtain s4 w4 where t: "PWM_SelfTest_Process (output_logged env) s3 w3 = (s4, w4)" by (metis prod.exhaust)
  obtain s5 w5 where a2: "App_Control_ApplyPwm (output_logged env) p s4 w4 = (s5, w5)" by (metis prod.exhaust)
  have sound: "cp_pwm_effective p \<noteq> 0 \<longrightarrow> cp_pwm_permitted p \<noteq> 0" by (simp add: p_def policy_after_switches)
  have four: "output_keeps s0 (w0, snd w) s4 w4"
    using led_keeps [OF l1] led_keeps [OF l2] apply_pwm_keeps [OF a1 sound] self_test_process_keeps [OF t] output_keeps_trans by metis
  then have p4: "out_policy s4 = p" and p0: "out_policy s0 = p" by (simp_all add: output_keeps_def s0_def)
  have res: "s' = s5\<lparr>g_appControl := (g_appControl s5)\<lparr>ac_process_count := ac_process_count (g_appControl s5) + 1\<rparr>\<rparr>" "w' = w5"
    using run unfolding App_Control_Process_def q prod.case Let_def p_def [symmetric] s0_def [symmetric] p0 l1 l2 a1 t p4 a2
    by simp_all
  have last: "output_keeps s0 (w0, snd w) s5 w5" using output_keeps_trans [OF four] apply_pwm_keeps [OF a2 sound] by blast
  have start: "output_inv s0 (w0, snd w) = output_inv s w"
    by (simp add: output_inv_def s0_def pwm_unavailable_def)
  have inv4: "output_inv s w \<longrightarrow> output_inv s4 w4" using four start by (simp add: output_keeps_def)
  show ?thesis
    using last start inv4 apply_pwm_keeps [OF a2 sound]
    by (auto simp: res output_keeps_def output_inv_def pwm_unavailable_def PWM_SelfTest_IsRunning_def p_def policy_after_switches)
qed

lemma output_step_inv:
  assumes "output_inv s w" "output_step (output_logged env) op (s, w) = (s', w')"
  shows "output_inv s' w'"
proof (cases op)
  case Op_Process
  obtain v m w0 where "out_switches env (fst w) = ((v, m), w0)" by (metis prod.exhaust)
  then show ?thesis using assms control_process_outcome Op_Process by fastforce
next
  case (Op_Request c)
  then show ?thesis using assms by (auto simp: output_inv_def pwm_unavailable_def)
next
  case (Op_PwmSet f d)
  then show ?thesis using assms control_keeps(1) [of env f d s w] by (cases "PWM_Control_Set (output_logged env) f d s w")
      (auto simp: output_keeps_def)
next
  case Op_SelfTest_Start
  then show ?thesis using assms
    by (auto simp: PWM_SelfTest_Start_def output_inv_def pwm_unavailable_def Let_def output_logged_calls split: if_splits)
next
  case Op_SelfTest_Cancel
  then show ?thesis using assms cancel_keeps [of env s w s' w'] by (simp add: output_keeps_def)
qed

lemma output_run_inv:
  "output_inv s w \<Longrightarrow> output_run (output_logged env) ops (s, w) = (s', w') \<Longrightarrow> output_inv s' w'"
proof (induction ops arbitrary: s w)
  case (Cons op ops)
  obtain s1 w1 where o: "output_step (output_logged env) op (s, w) = (s1, w1)" by (metis prod.exhaust)
  show ?case using Cons.IH [OF output_step_inv [OF Cons.prems(1) o]] Cons.prems(2) o by (simp add: output_run_def)
qed (simp add: output_run_def)

text \<open>
  C40. The local switch decides over the PWM output. Start with the output stopped and let commands, requests and
  self tests come in any order, whatever timer, capture unit and clock answer. After a pass of the control
  loop the timer drives the pin only if the switch data of that pass is valid and switch 1 is open, and then
  only for a running self test or a request; so a closed switch or lost switch data has stopped the output
  at the end of the pass, also in the middle of a self test. Whether the pin is driven is read from the calls to
  the timer: a start that succeeds drives it, a stop that succeeds or the safe state does not.\<close>

theorem pwm_obeys_local_switch:
  assumes "pc_running (g_pwmControlState s) = 0"
    and "output_run (output_logged env) ops (s, w, []) = (s1, w1, l1)"
    and "out_switches env w1 = ((data_valid, closed), w2)"
    and "App_Control_Process (output_logged env) s1 (w1, l1) = (s', w', l')"
  shows "pwm_driven l' \<longrightarrow> data_valid \<noteq> 0 \<and> \<not> bit closed 1
    \<and> (PWM_SelfTest_IsRunning s' \<or> cp_pwm_requested (out_policy s1) \<noteq> 0)"
proof -
  have "output_inv s (w, [])" using assms(1) by (simp add: output_inv_def)
  from output_run_inv [OF this assms(2)] show ?thesis
    using control_process_outcome [OF assms(4), of data_valid closed w2] assms(3) by simp
qed

text \<open>The output runs on request until the switch closes.\<close>

definition demo_outputs_env :: "nat output_env" where
  "demo_outputs_env = \<lparr>out_call = (\<lambda>c n. (HAL_OK, n)), out_tick = (\<lambda>n. (0, n)),
     out_capture = (\<lambda>n. (\<lparr>ip_initialized = 0, ip_signal_detected = 0, ip_frequency_hz = 0, ip_duty_percent = 0,
       ip_period_ticks = 0, ip_pulse_ticks = 0, ip_edge_count = 0, ip_overflow_count = 0, ip_counter_clock_hz = 0\<rparr>, n)),
     out_switches = (\<lambda>n. ((1, if n = 0 then 0 else 2), n + 1))\<rparr>"

definition demo_outputs :: App_Outputs where
  "demo_outputs =
    (let pwm = \<lparr>pc_initialized = 0, pc_running = 0, pc_duty_percent = 0, pc_requested_frequency_hz = 0,
        pc_actual_frequency_hz = 0, pc_counter_clock_hz = 0, pc_period_ticks = 0, pc_pulse_ticks = 0,
        pc_last_result = PWM_CONTROL_OK\<rparr>
     in snd (PWM_Control_Init (Some 0) 0 1000000 (App_Control_Init (PWM_SelfTest_Init
       \<lparr>g_pwmControlState = pwm, pwm_timer = None, pwm_channel = 0, self_test_state = self_test_state_zero,
        self_test_phase = PWM_SELF_TEST_PHASE_IDLE, saved_pwm_state = pwm, point_index = 0, failed_points = 0,
        failed_point_mask = 0, phase_started_at = 0, g_appControl = \<lparr>ac_process_count = 0, ac_output_change_count = 0,
          ac_self_test_cancel_count = 0, ac_led_1_on = 0, ac_led_2_on = 0, ac_pwm_running = 0\<rparr>,
        out_policy = App_ControlPolicy_Init\<rparr>))))"

theorem pwm_obeys_local_switch_witness:
  "let r = output_run (output_logged demo_outputs_env) [Op_PwmSet 1000 50, Op_Request (Pc_Pwm 1), Op_Process] (demo_outputs, 0, [])
   in pwm_driven (snd (snd r))
     \<and> \<not> pwm_driven (snd (snd (App_Control_Process (output_logged demo_outputs_env) (fst r) (snd r))))"
proof -
  let ?ops = "[Op_PwmSet 1000 50, Op_Request (Pc_Pwm 1), Op_Process]"
  have run: "(\<lambda>(s, n, l). (n, pwm_driven l)) (output_run (output_logged demo_outputs_env) ?ops (demo_outputs, 0, [])) = (1, True)"
    by code_simp
  obtain s1 n l1 where r: "output_run (output_logged demo_outputs_env) ?ops (demo_outputs, 0, []) = (s1, n, l1)" by (metis prod.exhaust)
  obtain s2 n2 l2 where p: "App_Control_Process (output_logged demo_outputs_env) s1 (n, l1) = (s2, n2, l2)" by (metis prod.exhaust)
  have n: "n = 1" "pwm_driven l1" using run unfolding r by simp_all
  have sw: "out_switches demo_outputs_env n = ((1, 2), n + 1)" by (simp add: demo_outputs_env_def n)
  have start: "pc_running (g_pwmControlState demo_outputs) = 0" by code_simp
  have "bit (2 :: u32) 1" by simp
  with pwm_obeys_local_switch [OF start r sw p] have "\<not> pwm_driven l2" by blast
  then show ?thesis unfolding r Let_def using n(2) p by simp
qed

end
