(* ===== verification/Deadline.thy ===== *)
theory Deadline
  imports Prelude "HOL-Library.While_Combinator"
begin

text \<open>
  The \<open>do\<close> loops that move a periodic deadline beyond the time, as \<open>src/Core/Src/can_app.c\<close> and
  \<open>src/Core/Src/app_log_can.c\<close> have them: they end, and the deadlines stay on one grid however late the
  calls are, also when the 32-bit time wraps around.
\<close>

section \<open>The loops\<close>

definition next_deadline :: "u32 \<Rightarrow> u32 \<Rightarrow> u32 \<Rightarrow> u32" where
  "next_deadline period now next_tick = while (time_reached now) (\<lambda>t. t + period) (next_tick + period)"

text \<open>The same loop with the count of the periods that it skips.\<close>

definition missed_step :: "u32 \<Rightarrow> u32 \<Rightarrow> u32 \<times> u32 \<Rightarrow> u32 \<times> u32" where
  "missed_step period now = (\<lambda>(t, missed). let t = t + period in (t, if time_reached now t then missed + 1 else missed))"

definition next_deadline_missed :: "u32 \<Rightarrow> u32 \<Rightarrow> u32 \<Rightarrow> u32 \<times> u32" where
  "next_deadline_missed period now next_tick =
    while (\<lambda>(t, missed). time_reached now t) (missed_step period now) (missed_step period now (next_tick, 0))"

section \<open>The grid of deadlines\<close>

definition grid_tick :: "u32 \<Rightarrow> u32 \<Rightarrow> nat \<Rightarrow> u32" where
  "grid_tick period start n = start + of_nat (unat period * n)"

lemma grid_tick_Suc: "grid_tick period start n + period = grid_tick period start (Suc n)"
  by (simp add: grid_tick_def algebra_simps)

lemma grid_reached:
  assumes "unat period * n \<le> T + 2 ^ 31" "T < unat period * n + 2 ^ 31"
  shows "time_reached (start + of_nat T) (grid_tick period start n) \<longleftrightarrow> unat period * n \<le> T"
proof (cases "unat period * n \<le> T")
  case True
  then have "(start + of_nat T) - grid_tick period start n = of_nat (T - unat period * n)"
    by (simp add: grid_tick_def of_nat_diff)
  moreover have "T - unat period * n < 2 ^ 31" using assms True by linarith
  ultimately have "unat ((start + of_nat T) - grid_tick period start n) < 2 ^ 31" by (simp only:) (simp add: unat_of_nat)
  then show ?thesis using True by (simp only: time_reached_nat)
next
  case False
  define d where "d = unat period * n - T"
  have d: "0 < d" "d \<le> 2 ^ 31" "unat period * n = T + d" using False assms by (simp_all add: d_def)
  then have "(start + of_nat T) - grid_tick period start n = - (of_nat d :: u32)"
    by (simp add: grid_tick_def)
  moreover have "unat (- (of_nat d :: u32)) = 2 ^ 32 - d"
  proof -
    have "- (of_nat d :: u32) = of_nat (2 ^ 32 - d)" using d by (simp add: of_nat_diff)
    moreover have "unat (of_nat (2 ^ 32 - d) :: u32) = 2 ^ 32 - d" using d by (simp only: unat_of_nat take_bit_nat_eq_self_iff) simp
    ultimately show ?thesis by (simp only:)
  qed
  ultimately have "unat ((start + of_nat T) - grid_tick period start n) = 2 ^ 32 - d" by (simp only:)
  then show ?thesis using False d by (simp add: time_reached_nat)
qed

lemma grid_loop:
  assumes "0 < period" "period \<le> 0x7FFFFFFF" "n \<le> T div unat period + 1" "T < unat period * n + 2 ^ 31"
  shows "while_option (time_reached (start + of_nat T)) (\<lambda>t. t + period) (grid_tick period start n)
    = Some (grid_tick period start (T div unat period + 1))"
  using assms(3,4)
proof (induction "T div unat period + 1 - n" arbitrary: n)
  case 0
  then have n: "n = T div unat period + 1" by simp
  have p: "0 < unat period" "unat period \<le> 0x7FFFFFFF" using assms by (simp_all add: unat_gt_0 word_le_nat_alt)
  have "T < unat period * n" "unat period * n \<le> T + unat period"
    using p by (auto simp: n algebra_simps dividend_less_times_div)
  then have "\<not> time_reached (start + of_nat T) (grid_tick period start n)" using p grid_reached [of period n T start] by simp
  then show ?case by (subst while_option_unfold) (simp add: n)
next
  case (Suc k)
  have p: "0 < unat period" using assms by (simp add: unat_gt_0)
  have n: "n \<le> T div unat period" using Suc by simp
  then have "unat period * n \<le> T" by (metis le_trans mult_le_mono2 times_div_less_eq_dividend)
  then have "time_reached (start + of_nat T) (grid_tick period start n)"
    using grid_reached [of period n T start] Suc.prems by simp
  moreover have "while_option (time_reached (start + of_nat T)) (\<lambda>t. t + period) (grid_tick period start (Suc n))
    = Some (grid_tick period start (T div unat period + 1))"
    using Suc n by (intro Suc.hyps(1)) auto
  ultimately show ?case by (subst while_option_unfold) (simp add: grid_tick_Suc)
qed

theorem next_deadline_on_grid:
  assumes "0 < period" "period \<le> 0x7FFFFFFF" "unat period * n \<le> T" "T < unat period * n + 2 ^ 31"
  shows "next_deadline period (start + of_nat T) (grid_tick period start n) = grid_tick period start (T div unat period + 1)"
proof -
  have p: "0 < unat period" using assms by (simp add: unat_gt_0)
  have "n \<le> T div unat period" using assms p by (metis div_le_mono nonzero_mult_div_cancel_left not_gr0)
  then have "while_option (time_reached (start + of_nat T)) (\<lambda>t. t + period) (grid_tick period start (Suc n))
    = Some (grid_tick period start (T div unat period + 1))"
    using assms by (intro grid_loop) auto
  then show ?thesis by (simp add: next_deadline_def while_def grid_tick_Suc)
qed

lemma grid_loop_missed:
  assumes "0 < period" "period \<le> 0x7FFFFFFF" "n \<le> T div unat period + 1" "T < unat period * n + 2 ^ 31"
  shows "while_option (\<lambda>(t, missed). time_reached (start + of_nat T) t) (missed_step period (start + of_nat T))
      (grid_tick period start n, missed)
    = Some (grid_tick period start (T div unat period + 1), missed + of_nat (T div unat period - n))"
  using assms(3,4)
proof (induction "T div unat period + 1 - n" arbitrary: n missed)
  case 0
  then have n: "n = T div unat period + 1" by simp
  have p: "0 < unat period" "unat period \<le> 0x7FFFFFFF" using assms by (simp_all add: unat_gt_0 word_le_nat_alt)
  have "T < unat period * n" "unat period * n \<le> T + unat period"
    using p by (auto simp: n algebra_simps dividend_less_times_div)
  then have "\<not> time_reached (start + of_nat T) (grid_tick period start n)" using p grid_reached [of period n T start] by simp
  then show ?case by (subst while_option_unfold) (simp add: n)
next
  case (Suc k)
  have p: "0 < unat period" "unat period \<le> 0x7FFFFFFF" using assms by (simp_all add: unat_gt_0 word_le_nat_alt)
  have n: "n \<le> T div unat period" using Suc by simp
  then have le: "unat period * n \<le> T" by (metis le_trans mult_le_mono2 times_div_less_eq_dividend)
  then have now: "time_reached (start + of_nat T) (grid_tick period start n)"
    using grid_reached [of period n T start] Suc.prems by simp
  have "time_reached (start + of_nat T) (grid_tick period start (Suc n)) \<longleftrightarrow> unat period * Suc n \<le> T"
    using le p Suc.prems by (intro grid_reached) auto
  also have "\<dots> \<longleftrightarrow> Suc n \<le> T div unat period" using p by (simp add: less_eq_div_iff_mult_less_eq mult.commute)
  finally have later: "time_reached (start + of_nat T) (grid_tick period start (Suc n)) \<longleftrightarrow> n < T div unat period"
    by (simp add: Suc_le_eq)
  have rec: "while_option (\<lambda>(t, missed). time_reached (start + of_nat T) t) (missed_step period (start + of_nat T))
      (grid_tick period start (Suc n), m)
    = Some (grid_tick period start (T div unat period + 1), m + of_nat (T div unat period - Suc n))" for m
    using Suc n by (intro Suc.hyps(1)) auto
  have step: "missed_step period (start + of_nat T) (grid_tick period start n, missed)
    = (grid_tick period start (Suc n), if n < T div unat period then missed + 1 else missed)"
    using later by (simp add: missed_step_def Let_def grid_tick_Suc)
  show ?case
  proof (cases "n < T div unat period")
    case True
    then have "T div unat period - n = Suc (T div unat period - Suc n)" by simp
    then show ?thesis
      using now rec [of "missed + 1"] True by (subst while_option_unfold) (simp add: step)
  next
    case False
    then have "T div unat period - n = 0" "T div unat period - Suc n = 0" using n by simp_all
    then show ?thesis
      using now rec [of missed] False by (subst while_option_unfold) (simp add: step)
  qed
qed

theorem next_deadline_missed_on_grid:
  assumes "0 < period" "period \<le> 0x7FFFFFFF" "unat period * n \<le> T" "T < unat period * n + 2 ^ 31"
  shows "next_deadline_missed period (start + of_nat T) (grid_tick period start n)
    = (grid_tick period start (T div unat period + 1), of_nat (T div unat period - n))"
proof -
  have p: "0 < unat period" using assms by (simp add: unat_gt_0)
  have n: "n \<le> T div unat period" using assms p by (metis div_le_mono nonzero_mult_div_cancel_left not_gr0)
  have now: "time_reached (start + of_nat T) (grid_tick period start n)" using grid_reached assms by simp
  have "while_option (\<lambda>(t, missed). time_reached (start + of_nat T) t) (missed_step period (start + of_nat T))
      (grid_tick period start n, 0)
    = Some (grid_tick period start (T div unat period + 1), 0 + of_nat (T div unat period - n))"
    using assms n by (intro grid_loop_missed) auto
  then have "while_option (\<lambda>(t, missed). time_reached (start + of_nat T) t) (missed_step period (start + of_nat T))
      (missed_step period (start + of_nat T) (grid_tick period start n, 0))
    = Some (grid_tick period start (T div unat period + 1), of_nat (T div unat period - n))"
    using now by (subst (asm) while_option_unfold) simp
  then show ?thesis by (simp add: next_deadline_missed_def while_def)
qed

end
