(* ===== verification/CanAppTelemetry.thy ===== *)
theory CanAppTelemetry
  imports CanApp AppOutputs Deadline AppTiming CanProtocol
begin

text \<open>
  The rest of \<open>src/Core/Src/can_app.c\<close>: the periodic telemetry, the application of the slot policy, and the reception
  interrupt with its counters in \<open>src/Core/Src/can_rx_health.c\<close>. What the messages report is given by the states
  of the components that own it; a message is sent through the transport of \<open>can_app_env\<close>. The theorem shows that
  the measurements are sent on a fixed grid of times, however late the calls are.
\<close>

section \<open>Data\<close>

definition SYSTEM_STATUS_PERIOD_MS :: u32 where "SYSTEM_STATUS_PERIOD_MS = 500"
definition CAN_TIMING_SERVICE_PERIOD_MS :: u32 where "CAN_TIMING_SERVICE_PERIOD_MS = 100"
definition CAN_TIMING_ACK_PERIOD_MS :: u32 where "CAN_TIMING_ACK_PERIOD_MS = 500"
definition CAN_PROTOCOL_SYSTEM_STATUS_TX_ID :: u32 where "CAN_PROTOCOL_SYSTEM_STATUS_TX_ID = 0x557"
definition CAN_PROTOCOL_PWM_STATUS_TX_ID :: u32 where "CAN_PROTOCOL_PWM_STATUS_TX_ID = 0x55C"
definition CAN_PROTOCOL_INPUT_CAPTURE_STATUS_TX_ID :: u32 where "CAN_PROTOCOL_INPUT_CAPTURE_STATUS_TX_ID = 0x55D"
definition CAN_PROTOCOL_PWM_SELF_TEST_STATUS_TX_ID :: u32 where "CAN_PROTOCOL_PWM_SELF_TEST_STATUS_TX_ID = 0x55E"
definition CAN_PROTOCOL_PWM_SELF_TEST_RESULT_TX_ID :: u32 where "CAN_PROTOCOL_PWM_SELF_TEST_RESULT_TX_ID = 0x55F"
definition CAN_PROTOCOL_CAN_RX_HEALTH_TX_ID :: u32 where "CAN_PROTOCOL_CAN_RX_HEALTH_TX_ID = 0x560"
definition CAN_PROTOCOL_TIMING_SERVICE_TX_ID :: u32 where "CAN_PROTOCOL_TIMING_SERVICE_TX_ID = 0x561"
definition CAN_PROTOCOL_TIMING_ACK_LATENCY_TX_ID :: u32 where "CAN_PROTOCOL_TIMING_ACK_LATENCY_TX_ID = 0x562"

record CAN_RxHealth_Stats =
  hs_new_message_events :: u32
  hs_watermark_events :: u32
  hs_full_events :: u32
  hs_message_lost_events :: u32
  hs_max_fill_level :: u32

definition CAN_RX_HEALTH_EVENT_NEW_MESSAGE :: u32 where "CAN_RX_HEALTH_EVENT_NEW_MESSAGE = 1"
definition CAN_RX_HEALTH_EVENT_WATERMARK :: u32 where "CAN_RX_HEALTH_EVENT_WATERMARK = 2"
definition CAN_RX_HEALTH_EVENT_FULL :: u32 where "CAN_RX_HEALTH_EVENT_FULL = 4"
definition CAN_RX_HEALTH_EVENT_MESSAGE_LOST :: u32 where "CAN_RX_HEALTH_EVENT_MESSAGE_LOST = 8"

text \<open>The statics of the telemetry; the last time of the system status is the local static of its function.\<close>

record CAN_AppTelemetry =
  pwm_self_test_result_sequence_sent :: u32
  control_policy_update_applied :: u32
  control_output_update_applied :: u32
  timing_service_next_tick :: u32
  timing_ack_next_tick :: u32
  timing_service_index :: u8
  last_system_status_time :: u32

section \<open>Reception health\<close>

definition CAN_RxHealth_Init :: CAN_RxHealth_Stats where
  "CAN_RxHealth_Init = \<lparr>hs_new_message_events = 0, hs_watermark_events = 0, hs_full_events = 0,
     hs_message_lost_events = 0, hs_max_fill_level = 0\<rparr>"

definition CAN_RxHealth_RecordIsr :: "u32 \<Rightarrow> u32 \<Rightarrow> CAN_RxHealth_Stats \<Rightarrow> CAN_RxHealth_Stats" where
  "CAN_RxHealth_RecordIsr events fill_level s =
    (let s = (if events AND CAN_RX_HEALTH_EVENT_NEW_MESSAGE \<noteq> 0
              then s\<lparr>hs_new_message_events := hs_new_message_events s + 1\<rparr> else s);
         s = (if events AND CAN_RX_HEALTH_EVENT_WATERMARK \<noteq> 0
              then s\<lparr>hs_watermark_events := hs_watermark_events s + 1\<rparr> else s);
         s = (if events AND CAN_RX_HEALTH_EVENT_FULL \<noteq> 0 then s\<lparr>hs_full_events := hs_full_events s + 1\<rparr> else s);
         s = (if events AND CAN_RX_HEALTH_EVENT_MESSAGE_LOST \<noteq> 0
              then s\<lparr>hs_message_lost_events := hs_message_lost_events s + 1\<rparr> else s)
     in if fill_level > hs_max_fill_level s then s\<lparr>hs_max_fill_level := fill_level\<rparr> else s)"

definition CAN_RxHealth_GetStats :: "CAN_RxHealth_Stats \<Rightarrow> CAN_RxHealth_Stats option \<Rightarrow> CAN_RxHealth_Stats option" where
  "CAN_RxHealth_GetStats s stats = map_option (\<lambda>_. s) stats"

text \<open>The interrupt: the flags of the peripheral become events; the fill level is what the HAL answers then.\<close>

definition HAL_FDCAN_RxFifo0Callback :: "u32 option \<Rightarrow> u32 \<Rightarrow> u32 \<Rightarrow> CAN_RxHealth_Stats \<Rightarrow> CAN_RxHealth_Stats" where
  "HAL_FDCAN_RxFifo0Callback hfdcan RxFifo0ITs fill_level s =
    (if hfdcan \<noteq> Some FDCAN1 then s
     else let pick = (\<lambda>it ev. if RxFifo0ITs AND it \<noteq> 0 then ev else 0)
          in CAN_RxHealth_RecordIsr
            (pick FDCAN_IT_RX_FIFO0_NEW_MESSAGE CAN_RX_HEALTH_EVENT_NEW_MESSAGE
             OR pick FDCAN_IT_RX_FIFO0_WATERMARK CAN_RX_HEALTH_EVENT_WATERMARK
             OR pick FDCAN_IT_RX_FIFO0_FULL CAN_RX_HEALTH_EVENT_FULL
             OR pick FDCAN_IT_RX_FIFO0_MESSAGE_LOST CAN_RX_HEALTH_EVENT_MESSAGE_LOST) fill_level s)"

definition CAN_App_GetRxStats :: "CAN_App \<Rightarrow> CAN_RxHealth_Stats \<Rightarrow> CAN_App_RxStats option \<Rightarrow> CAN_App_RxStats option" where
  "CAN_App_GetRxStats a health stats = map_option (\<lambda>_. (can_rx_stats a)\<lparr>
     rx_new_message_events := hs_new_message_events health, rx_watermark_events := hs_watermark_events health,
     rx_full_events := hs_full_events health, rx_message_lost_events := hs_message_lost_events health,
     rx_max_fill_level := hs_max_fill_level health\<rparr>) stats"

section \<open>Messages\<close>

definition CAN_SaturateU16 :: "u32 \<Rightarrow> u16" where
  "CAN_SaturateU16 v = (if v > 0xFFFF then 0xFFFF else ucast v)"

definition can_flag :: "bool \<Rightarrow> u8 \<Rightarrow> u8" where
  "can_flag b m = (if b then m else 0)"

definition can_send_status :: "'w can_app_env \<Rightarrow> u32 \<Rightarrow> bytes \<Rightarrow> 'w \<Rightarrow> 'w" where
  "can_send_status env identifier payload w = snd (env_send_latest env identifier CAN_TRANSPORT_ID_STANDARD payload w)"

definition CAN_Send_Pwm_Self_Test_Status :: "'w can_app_env \<Rightarrow> PWM_SelfTest_State \<Rightarrow> 'w \<Rightarrow> 'w" where
  "CAN_Send_Pwm_Self_Test_Status env t w = can_send_status env CAN_PROTOCOL_PWM_SELF_TEST_STATUS_TX_ID
     (CAN_Protocol_EncodePwmSelfTestStatus \<lparr>st_state = ucast (self_test_code (ps_state t)), st_current_point = ps_current_point t,
       st_total_points = ps_total_points t, st_passed_points = ps_passed_points t,
       st_expected_frequency_hz = ps_expected_frequency_hz t\<rparr> (replicate 8 0)) w"

definition CAN_Send_Pwm_Self_Test_Result ::
  "'w can_app_env \<Rightarrow> PWM_SelfTest_State \<Rightarrow> CAN_AppTelemetry \<Rightarrow> 'w \<Rightarrow> CAN_AppTelemetry \<times> 'w" where
  "CAN_Send_Pwm_Self_Test_Result env t m w =
    (if ps_result_sequence t = pwm_self_test_result_sequence_sent m then (m, w)
     else let r = ps_last_result t
          in case env_send_priority env CAN_PROTOCOL_PWM_SELF_TEST_RESULT_TX_ID CAN_TRANSPORT_ID_STANDARD
            (CAN_Protocol_EncodePwmSelfTestResult \<lparr>sr_point = pr_point r, sr_passed = pr_passed r,
              sr_expected_duty_percent = pr_expected_duty_percent r, sr_measured_duty_percent = pr_measured_duty_percent r,
              sr_measured_frequency_hz = pr_measured_frequency_hz r\<rparr> (replicate 8 0)) w of (result, w) \<Rightarrow>
            (if result \<noteq> CAN_TRANSPORT_QUEUE_FULL then m\<lparr>pwm_self_test_result_sequence_sent := ps_result_sequence t\<rparr> else m, w))"

definition CAN_Send_Input_Capture_Status :: "'w can_app_env \<Rightarrow> Input_Capture_State \<Rightarrow> 'w \<Rightarrow> 'w" where
  "CAN_Send_Input_Capture_Status env c w = can_send_status env CAN_PROTOCOL_INPUT_CAPTURE_STATUS_TX_ID
     (CAN_Protocol_EncodeInputCaptureStatus \<lparr>ic_signal_detected = ip_signal_detected c, ic_duty_percent = ip_duty_percent c,
       ic_frequency_hz = ip_frequency_hz c, ic_edge_count = ucast (ip_edge_count c)\<rparr> (replicate 8 0)) w"

definition can_system_status :: "CAN_App \<Rightarrow> App_ControlSnapshot \<Rightarrow> CAN_Protocol_SystemStatus" where
  "can_system_status a outputs =
    (let g = g_appControlPolicy a;
         closed = (\<lambda>input. cp_closed_switch_mask g AND push_bit input 1 \<noteq> 0)
     in \<lparr>sy_slot_1_running = (if sl_running (tx_slot_1 a) then 1 else 0), sy_slot_2_running = (if sl_running (tx_slot_2 a) then 1 else 0),
       sy_led_1_on = ac_led_1_on outputs, sy_led_2_on = ac_led_2_on outputs,
       sy_request_flags = can_flag (cp_slot_1_requested g \<noteq> 0) 0x01 OR can_flag (cp_slot_2_requested g \<noteq> 0) 0x02
         OR can_flag (cp_led_1_requested g \<noteq> 0) 0x04 OR can_flag (cp_led_2_requested g \<noteq> 0) 0x08
         OR can_flag (cp_pwm_requested g \<noteq> 0) 0x10,
       sy_physical_flags = can_flag (cp_switch_data_valid g \<noteq> 0) 0x01 OR can_flag (closed APP_CONTROL_POLICY_LED1_INPUT) 0x02
         OR can_flag (closed APP_CONTROL_POLICY_PWM_INPUT) 0x04 OR can_flag (closed APP_CONTROL_POLICY_SLOT1_INPUT) 0x08
         OR can_flag (closed APP_CONTROL_POLICY_SLOT2_INPUT) 0x10,
       sy_override_flags = can_flag (cp_slot_1_blocked g \<noteq> 0) 0x01 OR can_flag (cp_slot_2_blocked g \<noteq> 0) 0x02
         OR can_flag (cp_led_1_overridden g \<noteq> 0) 0x04 OR can_flag (cp_pwm_blocked g \<noteq> 0) 0x10\<rparr>)"

definition CAN_Send_System_Status :: "'w can_app_env \<Rightarrow> CAN_App \<Rightarrow> App_ControlSnapshot \<Rightarrow> 'w \<Rightarrow> 'w" where
  "CAN_Send_System_Status env a outputs w = can_send_status env CAN_PROTOCOL_SYSTEM_STATUS_TX_ID
     (CAN_Protocol_EncodeSystemStatus (can_system_status a outputs) (replicate 8 0)) w"

definition CAN_Send_Rx_Health :: "'w can_app_env \<Rightarrow> CAN_App \<Rightarrow> CAN_RxHealth_Stats \<Rightarrow> 'w \<Rightarrow> 'w" where
  "CAN_Send_Rx_Health env a health w =
    (case CAN_App_GetRxStats a health (Some (can_rx_stats a)) of None \<Rightarrow> w | Some st \<Rightarrow>
     can_send_status env CAN_PROTOCOL_CAN_RX_HEALTH_TX_ID
       (CAN_Protocol_EncodeCanRxHealth
         \<lparr>rh_flags = can_flag (rx_watermark_events st \<noteq> 0) 0x01 OR can_flag (rx_full_events st \<noteq> 0) 0x02
            OR can_flag (rx_message_lost_events st \<noteq> 0) 0x04 OR can_flag (rx_budget_hits st \<noteq> 0) 0x08
            OR can_flag (hal_rx_errors st \<noteq> 0) 0x10,
          rh_max_fifo_fill = (if rx_max_fill_level st > 0xFF then 0xFF else ucast (rx_max_fill_level st)),
          rh_message_lost_events = CAN_SaturateU16 (rx_message_lost_events st),
          rh_fifo_full_events = CAN_SaturateU16 (rx_full_events st),
          rh_watermark_events = CAN_SaturateU16 (rx_watermark_events st)\<rparr> (replicate 8 0)) w)"

definition CAN_Send_Pwm_Status :: "'w can_app_env \<Rightarrow> CAN_App \<Rightarrow> PWM_Control_State \<Rightarrow> 'w \<Rightarrow> 'w" where
  "CAN_Send_Pwm_Status env a pwm w =
    (let g = g_appControlPolicy a
     in can_send_status env CAN_PROTOCOL_PWM_STATUS_TX_ID
       (CAN_Protocol_EncodePwmStatus
         \<lparr>pw_running = pc_running pwm, pw_duty_percent = pc_duty_percent pwm, pw_actual_frequency_hz = pc_actual_frequency_hz pwm,
          pw_control_flags = can_flag (cp_pwm_requested g \<noteq> 0) 0x01 OR can_flag (cp_pwm_permitted g \<noteq> 0) 0x02
            OR can_flag (cp_pwm_blocked g \<noteq> 0) 0x04 OR can_flag (cp_switch_data_valid g \<noteq> 0) 0x08\<rparr> (replicate 8 0)) w)"

section \<open>Periodic processing\<close>

text \<open>What the messages report, read from the components that own it.\<close>

record can_app_sources =
  src_outputs :: App_Outputs
  src_capture :: Input_Capture_State
  src_health :: CAN_RxHealth_Stats
  src_timing :: App_Timing_Snapshot

definition CAN_Apply_SlotPolicy ::
  "'w can_app_env \<Rightarrow> can_app_sources \<Rightarrow> CAN_App \<Rightarrow> CAN_AppTelemetry \<Rightarrow> 'w \<Rightarrow> CAN_App \<times> CAN_AppTelemetry \<times> 'w" where
  "CAN_Apply_SlotPolicy env src a m w =
    (let outputs = App_Control_GetSnapshot (src_outputs src);
         policy = App_ControlPolicy_GetSnapshot (g_appControlPolicy a);
         previous_slot_1 = sl_running (tx_slot_1 a);
         previous_slot_2 = sl_running (tx_slot_2 a)
     in case CAN_Apply_Slot_Policy env (cp_slot_1_effective policy) (tx_slot_1 a) w of (s1, w) \<Rightarrow>
        case CAN_Apply_Slot_Policy env (cp_slot_2_effective policy) (tx_slot_2 a) w of (s2, w) \<Rightarrow>
        let status_changed = (cp_update_count policy \<noteq> control_policy_update_applied m
              \<or> ac_output_change_count outputs \<noteq> control_output_update_applied m
              \<or> previous_slot_1 \<noteq> sl_running s1 \<or> previous_slot_2 \<noteq> sl_running s2);
            a = a\<lparr>tx_slot_1 := s1, tx_slot_2 := s2\<rparr>;
            m = m\<lparr>control_policy_update_applied := cp_update_count policy,
                  control_output_update_applied := ac_output_change_count outputs\<rparr>
        in (a, m, if status_changed
                  then CAN_Send_Pwm_Status env a (PWM_Control_GetState (src_outputs src))
                    (CAN_Send_System_Status env a outputs w)
                  else w))"

definition System_Status_Process ::
  "'w can_app_env \<Rightarrow> can_app_sources \<Rightarrow> CAN_App \<Rightarrow> CAN_AppTelemetry \<Rightarrow> 'w \<Rightarrow> CAN_AppTelemetry \<times> 'w" where
  "System_Status_Process env src a m w =
    (case env_call env Do_GetTick w of (now, w) \<Rightarrow>
     if now - last_system_status_time m \<ge> SYSTEM_STATUS_PERIOD_MS
     then let m = m\<lparr>last_system_status_time := now\<rparr>;
              w = CAN_Send_System_Status env a (App_Control_GetSnapshot (src_outputs src)) w;
              w = CAN_Send_Pwm_Status env a (PWM_Control_GetState (src_outputs src)) w;
              w = CAN_Send_Input_Capture_Status env (src_capture src) w;
              w = CAN_Send_Pwm_Self_Test_Status env (PWM_SelfTest_GetState (src_outputs src)) w
          in (m, CAN_Send_Rx_Health env a (src_health src) w)
     else (m, w))"

definition can_timing_service :: "u8 \<Rightarrow> App_Timing_Snapshot \<Rightarrow> App_Timing_Snapshot \<Rightarrow> CAN_Protocol_TimingService" where
  "can_timing_service index snapshot timing =
    (let st = service snapshot ! unat index;
         us = (\<lambda>cycles. CAN_SaturateU16 (App_Timing_CyclesToMicroseconds cycles timing))
     in \<lparr>ts_service_id = index,
       ts_flags = can_flag (enabled snapshot) 0x01 OR can_flag (current_cycles st > budget_cycles st) 0x02
         OR can_flag (overrun_count st \<noteq> 0) 0x04,
       ts_current_us = us (current_cycles st), ts_minimum_us = us (minimum_cycles st),
       ts_maximum_us = us (maximum_cycles st)\<rparr>)"

definition can_send_timing_service ::
  "'w can_app_env \<Rightarrow> App_Timing_Snapshot \<Rightarrow> CAN_AppTelemetry \<Rightarrow> 'w \<Rightarrow> CAN_AppTelemetry \<times> 'w" where
  "can_send_timing_service env timing m w =
    (case App_Timing_GetSnapshot (Some timing) timing of None \<Rightarrow> (m, w) | Some snapshot \<Rightarrow>
     let index = timing_service_index m;
         w = can_send_status env CAN_PROTOCOL_TIMING_SERVICE_TX_ID
           (CAN_Protocol_EncodeTimingService (can_timing_service index snapshot timing) (replicate 8 0)) w;
         index = index + 1
     in (m\<lparr>timing_service_index := (if index \<ge> ucast APP_TIMING_SERVICE_COUNT then 0 else index)\<rparr>, w))"

definition can_send_timing_ack :: "'w can_app_env \<Rightarrow> App_Timing_Snapshot \<Rightarrow> 'w \<Rightarrow> 'w" where
  "can_send_timing_ack env timing w =
    (case App_Timing_GetAckSummary
       (Some \<lparr>sum_sample_count = 0, current_us = 0, p50_us = 0, p95_us = 0, p99_us = 0, maximum_us = 0\<rparr>) timing of
       None \<Rightarrow> w
     | Some su \<Rightarrow> can_send_status env CAN_PROTOCOL_TIMING_ACK_LATENCY_TX_ID
         (CAN_Protocol_EncodeTimingAckLatency
           \<lparr>tl_p50_us = CAN_SaturateU16 (p50_us su), tl_p95_us = CAN_SaturateU16 (p95_us su),
            tl_p99_us = CAN_SaturateU16 (p99_us su), tl_maximum_us = CAN_SaturateU16 (maximum_us su)\<rparr> (replicate 8 0)) w)"

definition CAN_Timing_Telemetry_Process ::
  "'w can_app_env \<Rightarrow> App_Timing_Snapshot \<Rightarrow> CAN_AppTelemetry \<Rightarrow> 'w \<Rightarrow> CAN_AppTelemetry \<times> 'w" where
  "CAN_Timing_Telemetry_Process env timing m w =
    (case env_call env Do_GetTick w of (now, w) \<Rightarrow>
     case (if time_reached now (timing_service_next_tick m)
           then can_send_timing_service env timing (m\<lparr>timing_service_next_tick :=
             next_deadline CAN_TIMING_SERVICE_PERIOD_MS now (timing_service_next_tick m)\<rparr>) w
           else (m, w)) of (m, w) \<Rightarrow>
     if \<not> time_reached now (timing_ack_next_tick m) then (m, w)
     else (m\<lparr>timing_ack_next_tick := next_deadline CAN_TIMING_ACK_PERIOD_MS now (timing_ack_next_tick m)\<rparr>,
           can_send_timing_ack env timing w))"

section \<open>The timing messages\<close>

text \<open>
  The world of a run: the time the calls read, the messages handed to the transport, and the rest.
\<close>

definition telemetry_logged :: "'w can_app_env \<Rightarrow> (u32 \<times> (u32 \<times> bytes) list \<times> 'w) can_app_env" where
  "telemetry_logged env = \<lparr>
     env_call = (\<lambda>c (now, sent, w). case c of Do_GetTick \<Rightarrow> (now, now, sent, w)
       | _ \<Rightarrow> (case env_call env c w of (r, w) \<Rightarrow> (r, now, sent, w))),
     env_receive = (\<lambda>(now, sent, w). case env_receive env w of (r, w) \<Rightarrow> (r, now, sent, w)),
     env_send_priority = (\<lambda>identifier ty data (now, sent, w). case env_send_priority env identifier ty data w of (r, w) \<Rightarrow>
       (r, now, sent @ [(identifier, data)], w)),
     env_send_latest = (\<lambda>identifier ty data (now, sent, w). case env_send_latest env identifier ty data w of (r, w) \<Rightarrow>
       (r, now, sent @ [(identifier, data)], w)),
     env_error_code = (\<lambda>(now, sent, w). env_error_code env w)\<rparr>"

text \<open>The calls of a run: the milliseconds since the start and what is measured then.\<close>

definition telemetry_call :: "'w can_app_env \<Rightarrow> u32 \<Rightarrow> nat \<times> App_Timing_Snapshot
    \<Rightarrow> CAN_AppTelemetry \<times> u32 \<times> (u32 \<times> bytes) list \<times> 'w \<Rightarrow> CAN_AppTelemetry \<times> u32 \<times> (u32 \<times> bytes) list \<times> 'w" where
  "telemetry_call env start = (\<lambda>(T, timing) (m, now, sent, w).
     CAN_Timing_Telemetry_Process (telemetry_logged env) timing m (start + of_nat T, sent, w))"

definition telemetry_run :: "'w can_app_env \<Rightarrow> u32 \<Rightarrow> (nat \<times> App_Timing_Snapshot) list
    \<Rightarrow> CAN_AppTelemetry \<times> u32 \<times> (u32 \<times> bytes) list \<times> 'w \<Rightarrow> CAN_AppTelemetry \<times> u32 \<times> (u32 \<times> bytes) list \<times> 'w" where
  "telemetry_run env start calls s = fold (telemetry_call env start) calls s"

text \<open>What the run should send: one message for each call that passes a multiple of the period.\<close>

definition timing_service_message :: "nat \<Rightarrow> App_Timing_Snapshot \<Rightarrow> u32 \<times> bytes" where
  "timing_service_message i timing = (CAN_PROTOCOL_TIMING_SERVICE_TX_ID, CAN_Protocol_EncodeTimingService
     (can_timing_service (of_nat i) (the (App_Timing_GetSnapshot (Some timing) timing)) timing) (replicate 8 0))"

definition timing_ack_message :: "App_Timing_Snapshot \<Rightarrow> u32 \<times> bytes" where
  "timing_ack_message timing = (CAN_PROTOCOL_TIMING_ACK_LATENCY_TX_ID, CAN_Protocol_EncodeTimingAckLatency
     \<lparr>tl_p50_us = CAN_SaturateU16 (App_Timing_GetPercentileUs 50 timing), tl_p95_us = CAN_SaturateU16 (App_Timing_GetPercentileUs 95 timing),
      tl_p99_us = CAN_SaturateU16 (App_Timing_GetPercentileUs 99 timing),
      tl_maximum_us = CAN_SaturateU16 (App_Timing_CyclesToMicroseconds (ack_maximum_cycles (App_Timing_Snapshot.ack timing)) timing)\<rparr>
     (replicate 8 0))"

fun telemetry_grid :: "nat \<Rightarrow> nat \<Rightarrow> (nat \<times> App_Timing_Snapshot) list \<Rightarrow> (u32 \<times> bytes) list" where
  "telemetry_grid past i [] = []"
| "telemetry_grid past i ((T, timing) # calls) =
    (let due = past div 100 < T div 100
     in (if due then [timing_service_message i timing] else [])
        @ (if past div 500 < T div 500 then [timing_ack_message timing] else [])
        @ telemetry_grid T (if due then (i + 1) mod 8 else i) calls)"

text \<open>Time does not run backwards, and no call is later than the 32-bit comparison can see.\<close>

fun telemetry_times :: "nat \<Rightarrow> (nat \<times> App_Timing_Snapshot) list \<Rightarrow> bool" where
  "telemetry_times past [] \<longleftrightarrow> True"
| "telemetry_times past ((T, timing) # calls) \<longleftrightarrow> past \<le> T \<and> T < past + 2 ^ 31 \<and> telemetry_times T calls"

definition telemetry_at :: "u32 \<Rightarrow> nat \<Rightarrow> nat \<Rightarrow> CAN_AppTelemetry \<Rightarrow> bool" where
  "telemetry_at start past i m \<longleftrightarrow>
    timing_service_next_tick m = grid_tick CAN_TIMING_SERVICE_PERIOD_MS start (past div 100 + 1)
    \<and> timing_ack_next_tick m = grid_tick CAN_TIMING_ACK_PERIOD_MS start (past div 500 + 1)
    \<and> timing_service_index m = of_nat i \<and> i < 8"

lemma grid_due:
  assumes "past \<le> T" "T < past + 2 ^ 31" "0 < unat period" "unat period \<le> 0x7FFFFFFF"
  shows "time_reached (start + of_nat T) (grid_tick period start (past div unat period + 1))
    \<longleftrightarrow> past div unat period < T div unat period"
proof -
  let ?p = "unat period" and ?n = "past div unat period + 1"
  define Q where "Q = ?p * ?n"
  have "Q \<le> past + ?p" "past < Q" using assms(3) by (auto simp: Q_def dividend_less_times_div)
  then have "Q \<le> T + 2 ^ 31" "T < Q + 2 ^ 31" using assms by simp_all
  then have "time_reached (start + of_nat T) (grid_tick period start ?n) \<longleftrightarrow> ?p * ?n \<le> T"
    unfolding Q_def by (rule grid_reached)
  also have "\<dots> \<longleftrightarrow> ?n \<le> T div ?p" using assms(3) by (simp add: less_eq_div_iff_mult_less_eq mult.commute)
  finally show ?thesis by (simp add: Suc_le_eq)
qed

lemma grid_moved:
  assumes "past \<le> T" "T < past + 2 ^ 31" "past div unat period < T div unat period" "0 < unat period"
    "unat period \<le> 0x7FFFFFFF"
  shows "next_deadline period (start + of_nat T) (grid_tick period start (past div unat period + 1))
    = grid_tick period start (T div unat period + 1)"
proof (rule next_deadline_on_grid)
  show "0 < period" "period \<le> 0x7FFFFFFF" using assms by (simp_all add: word_less_nat_alt word_le_nat_alt)
  have "past div unat period + 1 \<le> T div unat period" using assms by simp
  then show "unat period * (past div unat period + 1) \<le> T"
    by (metis le_trans mult_le_mono2 times_div_less_eq_dividend)
  have "past < unat period * (past div unat period + 1)" using assms(4) by (simp add: dividend_less_times_div)
  then show "T < unat period * (past div unat period + 1) + 2 ^ 31" using assms by simp
qed

lemma telemetry_step:
  assumes "telemetry_at start past i m" "past \<le> T" "T < past + 2 ^ 31"
  shows "\<exists>m' w'. telemetry_call env start (T, timing) (m, now, sent, w)
      = (m', start + of_nat T, sent @ (if past div 100 < T div 100 then [timing_service_message i timing] else [])
          @ (if past div 500 < T div 500 then [timing_ack_message timing] else []), w')
    \<and> telemetry_at start T (if past div 100 < T div 100 then (i + 1) mod 8 else i) m'"
proof -
  let ?now = "start + of_nat T" and ?env = "telemetry_logged env"
  have c: "unat CAN_TIMING_SERVICE_PERIOD_MS = 100" "unat CAN_TIMING_ACK_PERIOD_MS = 500"
    by (simp_all add: CAN_TIMING_SERVICE_PERIOD_MS_def CAN_TIMING_ACK_PERIOD_MS_def)
  have m: "timing_service_next_tick m = grid_tick CAN_TIMING_SERVICE_PERIOD_MS start (past div 100 + 1)"
    "timing_ack_next_tick m = grid_tick CAN_TIMING_ACK_PERIOD_MS start (past div 500 + 1)"
    "timing_service_index m = of_nat i" "i < 8"
    using assms(1) by (simp_all add: telemetry_at_def)
  have due: "time_reached ?now (timing_service_next_tick m) \<longleftrightarrow> past div 100 < T div 100"
    "time_reached ?now (timing_ack_next_tick m) \<longleftrightarrow> past div 500 < T div 500"
    using grid_due [of past T CAN_TIMING_SERVICE_PERIOD_MS start] grid_due [of past T CAN_TIMING_ACK_PERIOD_MS start] assms(2,3)
    unfolding m c by simp_all
  have moved: "past div 100 < T div 100 \<Longrightarrow> next_deadline CAN_TIMING_SERVICE_PERIOD_MS ?now (timing_service_next_tick m)
      = grid_tick CAN_TIMING_SERVICE_PERIOD_MS start (T div 100 + 1)"
    "past div 500 < T div 500 \<Longrightarrow> next_deadline CAN_TIMING_ACK_PERIOD_MS ?now (timing_ack_next_tick m)
      = grid_tick CAN_TIMING_ACK_PERIOD_MS start (T div 500 + 1)"
    using grid_moved [of past T CAN_TIMING_SERVICE_PERIOD_MS start] grid_moved [of past T CAN_TIMING_ACK_PERIOD_MS start] assms(2,3)
    unfolding m c by simp_all
  have kept: "\<not> past div 100 < T div 100 \<Longrightarrow> past div 100 = T div 100" "\<not> past div 500 < T div 500 \<Longrightarrow> past div 500 = T div 500"
    using assms(2) by (simp_all add: div_le_mono order_antisym)
  have index: "(if timing_service_index m + 1 \<ge> ucast APP_TIMING_SERVICE_COUNT then 0 else timing_service_index m + 1)
      = of_nat ((i + 1) mod 8)"
  proof -
    have "i \<in> {0, 1, 2, 3, 4, 5, 6, 7}" using m(4) by auto
    then show ?thesis unfolding m(3) APP_TIMING_SERVICE_COUNT_def by (elim insertE emptyE) (simp_all add: word_le_nat_alt)
  qed
  have send: "\<exists>w'. can_send_status ?env ident data (now, sent, w) = (now, sent @ [(ident, data)], w')"
    for ident data now sent w
    by (cases "env_send_latest env ident CAN_TRANSPORT_ID_STANDARD data w")
      (simp add: can_send_status_def telemetry_logged_def)
  have service: "\<exists>w'. can_send_timing_service ?env timing x (?now, sent, w)
      = (x\<lparr>timing_service_index := of_nat ((i + 1) mod 8)\<rparr>, ?now, sent @ [timing_service_message i timing], w')"
    if "timing_service_index x = timing_service_index m" for x sent w
    using send [of CAN_PROTOCOL_TIMING_SERVICE_TX_ID "snd (timing_service_message i timing)" ?now sent w] index that m(3)
    by (auto simp: can_send_timing_service_def timing_service_message_def App_Timing_GetSnapshot_def Let_def)
  have acked: "\<exists>w'. can_send_timing_ack ?env timing (?now, sent, w) = (?now, sent @ [timing_ack_message timing], w')" for sent w
    using send [of CAN_PROTOCOL_TIMING_ACK_LATENCY_TX_ID "snd (timing_ack_message timing)" ?now sent w]
    by (auto simp: can_send_timing_ack_def timing_ack_message_def App_Timing_GetAckSummary_def)
  obtain m1 sent1 w1 where one: "(if time_reached ?now (timing_service_next_tick m)
       then can_send_timing_service ?env timing (m\<lparr>timing_service_next_tick :=
         next_deadline CAN_TIMING_SERVICE_PERIOD_MS ?now (timing_service_next_tick m)\<rparr>) (?now, sent, w)
       else (m, ?now, sent, w)) = (m1, ?now, sent1, w1)"
    and one': "sent1 = sent @ (if past div 100 < T div 100 then [timing_service_message i timing] else [])"
    "timing_service_next_tick m1 = grid_tick CAN_TIMING_SERVICE_PERIOD_MS start (T div 100 + 1)"
    "timing_ack_next_tick m1 = timing_ack_next_tick m"
    "timing_service_index m1 = of_nat (if past div 100 < T div 100 then (i + 1) mod 8 else i)"
  proof (cases "past div 100 < T div 100")
    case True
    then show ?thesis
      using that service [of "m\<lparr>timing_service_next_tick :=
         next_deadline CAN_TIMING_SERVICE_PERIOD_MS ?now (timing_service_next_tick m)\<rparr>" sent w] moved(1) due(1)
      by auto
  next
    case False
    then show ?thesis using that [of m sent w] kept(1) due(1) m by simp
  qed
  have tick: "env_call ?env Do_GetTick (?now, sent, w) = (?now, ?now, sent, w)" by (simp add: telemetry_logged_def)
  show ?thesis
  proof (cases "past div 500 < T div 500")
    case True
    then show ?thesis
      using acked [of sent1 w1] one one' moved(2) due(2) m(4)
      by (auto simp: telemetry_call_def CAN_Timing_Telemetry_Process_def tick telemetry_at_def)
  next
    case False
    then show ?thesis
      using one one' kept(2) due(2) m(2,4)
      by (auto simp: telemetry_call_def CAN_Timing_Telemetry_Process_def tick telemetry_at_def)
  qed
qed

lemma telemetry_steps:
  assumes "telemetry_at start past i m" "telemetry_times past calls"
  shows "\<exists>m' now' w'. telemetry_run env start calls (m, now, sent, w) = (m', now', sent @ telemetry_grid past i calls, w')"
  using assms
proof (induction calls arbitrary: past i m now sent w)
  case Nil
  then show ?case by (simp add: telemetry_run_def)
next
  case (Cons call calls)
  obtain T timing where call: "call = (T, timing)" by (cases call)
  let ?i = "if past div 100 < T div 100 then (i + 1) mod 8 else i"
  have t: "past \<le> T" "T < past + 2 ^ 31" "telemetry_times T calls" using Cons.prems call by simp_all
  obtain m1 w1 where one: "telemetry_call env start call (m, now, sent, w) = (m1, start + of_nat T,
      sent @ (if past div 100 < T div 100 then [timing_service_message i timing] else [])
        @ (if past div 500 < T div 500 then [timing_ack_message timing] else []), w1)" "telemetry_at start T ?i m1"
    using telemetry_step [OF Cons.prems(1) t(1,2), of env timing now sent w] unfolding call by blast
  show ?case
    using Cons.IH [OF one(2) t(3), of "start + of_nat T"
      "sent @ (if past div 100 < T div 100 then [timing_service_message i timing] else [])
        @ (if past div 500 < T div 500 then [timing_ack_message timing] else [])" w1]
    by (simp only: telemetry_run_def fold.simps o_apply one(1)) (simp add: call Let_def)
qed

text \<open>What \<open>CAN_App_Init\<close> stores.\<close>

definition can_telemetry_init :: "u32 \<Rightarrow> u32 \<Rightarrow> CAN_AppTelemetry \<Rightarrow> CAN_AppTelemetry" where
  "can_telemetry_init service_now ack_now m = m\<lparr>control_policy_update_applied := - 1, control_output_update_applied := - 1,
     timing_service_next_tick := service_now + CAN_TIMING_SERVICE_PERIOD_MS,
     timing_ack_next_tick := ack_now + CAN_TIMING_ACK_PERIOD_MS, timing_service_index := 0\<rparr>"

text \<open>
  The timing messages keep their grid, which starts where the initialisation reads the time (both deadlines in
  the same millisecond). Whatever the calls of the main loop are late, and whatever the
  transport answers, also when the 32-bit time wraps around: a call sends the record of one service exactly
  when a multiple of 100 ms since the start has passed since the call before, and the latency summary exactly
  when a multiple of 500 ms has; the services are reported in turn, each with what was measured then.
\<close>

theorem timing_messages_keep_grid:
  assumes "telemetry_times 0 calls"
  shows "fst (snd (snd (telemetry_run env start calls (can_telemetry_init start start m, now, [], w)))) = telemetry_grid 0 0 calls"
proof -
  have "telemetry_at start 0 0 (can_telemetry_init start start m)"
    by (simp add: telemetry_at_def can_telemetry_init_def grid_tick_def CAN_TIMING_SERVICE_PERIOD_MS_def CAN_TIMING_ACK_PERIOD_MS_def)
  from telemetry_steps [OF this assms, of env now "[]" w] show ?thesis by auto
qed

definition demo_timing_env :: "nat can_app_env" where
  "demo_timing_env = \<lparr>env_call = (\<lambda>c w. (0, w)), env_receive = (\<lambda>w. (None, w)),
     env_send_priority = (\<lambda>_ _ _ w. (CAN_TRANSPORT_OK, w)), env_send_latest = (\<lambda>_ _ _ w. (CAN_TRANSPORT_OK, w + 1)),
     env_error_code = (\<lambda>_. 0)\<rparr>"

definition demo_timing_start :: CAN_AppTelemetry where
  "demo_timing_start = \<lparr>pwm_self_test_result_sequence_sent = 0, control_policy_update_applied = 0,
     control_output_update_applied = 0, timing_service_next_tick = 0, timing_ack_next_tick = 0, timing_service_index = 0,
     last_system_status_time = 0\<rparr>"

text \<open>The calls at 40, 130, 199, 760 and 1010 ms, started 150 ms before the time wraps around.\<close>

lemma timing_messages_keep_grid_witness:
  "map fst (fst (snd (snd (telemetry_run demo_timing_env (- 150)
      (map (\<lambda>T. (T, app_timing_zero)) [40, 130, 199, 760, 1010]) (can_telemetry_init (- 150) (- 150) demo_timing_start, 0, [], 0)))))
    = [CAN_PROTOCOL_TIMING_SERVICE_TX_ID, CAN_PROTOCOL_TIMING_SERVICE_TX_ID, CAN_PROTOCOL_TIMING_ACK_LATENCY_TX_ID,
       CAN_PROTOCOL_TIMING_SERVICE_TX_ID, CAN_PROTOCOL_TIMING_ACK_LATENCY_TX_ID]"
proof -
  have "telemetry_times 0 (map (\<lambda>T. (T, app_timing_zero)) [40, 130, 199, 760, 1010])" by simp
  from timing_messages_keep_grid [OF this, of demo_timing_env "- 150" demo_timing_start 0 0]
  show ?thesis by (simp add: Let_def timing_service_message_def timing_ack_message_def)
qed

end
