(* ===== verification/AppLogCan.thy ===== *)
theory AppLogCan
  imports Deadline AppLogRecovery CanProtocol CanTransport
begin

text \<open>
  Reading the event log over CAN, \<open>src/Core/Src/app_log_can.c\<close>: a record or the description of the log as
  numbered fragments of seven bytes, and the heartbeat. The statics of the file are one record; the time and
  the two ways into the transport are a record of functions on a state of any type. The lemmas show that a
  tester reads exactly the records the log holds, and what the alive counter of the heartbeat means.
\<close>

section \<open>Data\<close>

record App_Log_Can_Stats =
  lc_info_requests :: u32
  lc_record_requests :: u32
  lc_info_responses :: u32
  lc_records_sent :: u32
  lc_records_not_found :: u32
  lc_fragments_sent :: u32
  lc_tx_failures :: u32
  lc_last_requested_sequence :: u32
  lc_heartbeat_attempts :: u32
  lc_heartbeats_sent :: u32
  lc_heartbeat_missed_periods :: u32
  lc_last_heartbeat_tick :: u32
  lc_last_heartbeat_alive_counter :: u8

record App_Log_Can =
  app_log_can_stats :: App_Log_Can_Stats
  app_log_can_next_heartbeat_tick :: u32
  app_log_can_alive_counter :: u8

record 'w app_log_can_env =
  lc_tick :: "'w \<Rightarrow> u32 \<times> 'w"
  lc_send_priority :: "u32 \<Rightarrow> CAN_Transport_IdType \<Rightarrow> bytes \<Rightarrow> 'w \<Rightarrow> CAN_Transport_Result \<times> 'w"
  lc_send_latest :: "u32 \<Rightarrow> CAN_Transport_IdType \<Rightarrow> bytes \<Rightarrow> 'w \<Rightarrow> CAN_Transport_Result \<times> 'w"

definition APP_LOG_CAN_HEARTBEAT_PERIOD_MS :: u32 where "APP_LOG_CAN_HEARTBEAT_PERIOD_MS = 100"
definition CAN_PROTOCOL_LOG_RESPONSE_TX_ID :: u32 where "CAN_PROTOCOL_LOG_RESPONSE_TX_ID = 0x55A"
definition CAN_PROTOCOL_LOG_HEARTBEAT_TX_ID :: u32 where "CAN_PROTOCOL_LOG_HEARTBEAT_TX_ID = 0x55B"
definition CAN_PROTOCOL_LOG_FRAGMENT_DATA_SIZE :: u32 where "CAN_PROTOCOL_LOG_FRAGMENT_DATA_SIZE = 7"
definition CAN_PROTOCOL_LOG_INFO_FRAGMENT_BASE :: u8 where "CAN_PROTOCOL_LOG_INFO_FRAGMENT_BASE = 0x70"
definition CAN_PROTOCOL_LOG_RECORD_FRAGMENT_BASE :: u8 where "CAN_PROTOCOL_LOG_RECORD_FRAGMENT_BASE = 0x80"
definition CAN_PROTOCOL_LOG_ERROR_FRAME :: u8 where "CAN_PROTOCOL_LOG_ERROR_FRAME = 0xF0"
definition CAN_PROTOCOL_LOG_VERSION :: u8 where "CAN_PROTOCOL_LOG_VERSION = 1"

definition log_can_taken :: "CAN_Transport_Result \<Rightarrow> bool" where
  "log_can_taken r \<longleftrightarrow> r = CAN_TRANSPORT_OK \<or> r = CAN_TRANSPORT_QUEUED"

definition lc_count :: "(App_Log_Can_Stats \<Rightarrow> App_Log_Can_Stats) \<Rightarrow> App_Log_Can \<Rightarrow> App_Log_Can" where
  "lc_count f c = c\<lparr>app_log_can_stats := f (app_log_can_stats c)\<rparr>"

definition log_can_stats_zero :: App_Log_Can_Stats where
  "log_can_stats_zero = \<lparr>lc_info_requests = 0, lc_record_requests = 0, lc_info_responses = 0, lc_records_sent = 0,
     lc_records_not_found = 0, lc_fragments_sent = 0, lc_tx_failures = 0, lc_last_requested_sequence = 0,
     lc_heartbeat_attempts = 0, lc_heartbeats_sent = 0, lc_heartbeat_missed_periods = 0, lc_last_heartbeat_tick = 0,
     lc_last_heartbeat_alive_counter = 0\<rparr>"

section \<open>Operations\<close>

definition log_can_fragment :: "u8 \<Rightarrow> bytes \<Rightarrow> u32 \<Rightarrow> u8 \<Rightarrow> bytes" where
  "log_can_fragment fragment_base data byte_count fragment_index =
    (fragment_base OR fragment_index) # map (\<lambda>payload_index.
      let source_index = ucast fragment_index * CAN_PROTOCOL_LOG_FRAGMENT_DATA_SIZE + (of_nat payload_index - 1)
      in if source_index < byte_count then data ! unat source_index else 0) [1..<8]"

text \<open>The fragments that are left, from the given one on; the answer is whether all were taken.\<close>

fun log_can_fragments :: "'w app_log_can_env \<Rightarrow> u8 \<Rightarrow> bytes \<Rightarrow> u32 \<Rightarrow> nat \<Rightarrow> u8 \<Rightarrow> App_Log_Can \<Rightarrow> 'w
    \<Rightarrow> bool \<times> App_Log_Can \<times> 'w" where
  "log_can_fragments env fragment_base data byte_count 0 fragment_index c w = (True, c, w)"
| "log_can_fragments env fragment_base data byte_count (Suc left) fragment_index c w =
    (case lc_send_priority env CAN_PROTOCOL_LOG_RESPONSE_TX_ID CAN_TRANSPORT_ID_STANDARD
        (log_can_fragment fragment_base data byte_count fragment_index) w of (result, w) \<Rightarrow>
     if \<not> log_can_taken result then (False, lc_count (\<lambda>t. t\<lparr>lc_tx_failures := lc_tx_failures t + 1\<rparr>) c, w)
     else log_can_fragments env fragment_base data byte_count left (fragment_index + 1)
            (lc_count (\<lambda>t. t\<lparr>lc_fragments_sent := lc_fragments_sent t + 1\<rparr>) c) w)"

definition App_Log_Can_SendFragments :: "'w app_log_can_env \<Rightarrow> u8 \<Rightarrow> bytes \<Rightarrow> u32 \<Rightarrow> u8 \<Rightarrow> App_Log_Can \<Rightarrow> 'w
    \<Rightarrow> bool \<times> App_Log_Can \<times> 'w" where
  "App_Log_Can_SendFragments env fragment_base data byte_count fragment_count c w =
    log_can_fragments env fragment_base data byte_count (unat fragment_count) 0 c w"

definition App_Log_Can_WriteU16LE :: "nat \<Rightarrow> u16 \<Rightarrow> bytes \<Rightarrow> bytes" where
  "App_Log_Can_WriteU16LE p v d = d[p := ucast (v AND 0xFF), p + 1 := ucast (drop_bit 8 v AND 0xFF)]"

definition App_Log_Can_SendNotFound :: "'w app_log_can_env \<Rightarrow> u32 \<Rightarrow> App_Log_Can \<Rightarrow> 'w \<Rightarrow> App_Log_Can \<times> 'w" where
  "App_Log_Can_SendNotFound env seqno c w =
    (case lc_send_priority env CAN_PROTOCOL_LOG_RESPONSE_TX_ID CAN_TRANSPORT_ID_STANDARD
        (CAN_Protocol_WriteU32LE 4 seqno
          ((replicate 8 0)[0 := CAN_PROTOCOL_LOG_ERROR_FRAME, 1 := 0x31, 2 := 0x01])) w of (result, w) \<Rightarrow>
     (lc_count (\<lambda>t. if log_can_taken result then t\<lparr>lc_fragments_sent := lc_fragments_sent t + 1\<rparr>
                    else t\<lparr>lc_tx_failures := lc_tx_failures t + 1\<rparr>) c, w))"

definition App_Log_Can_Init :: "'w app_log_can_env \<Rightarrow> 'w \<Rightarrow> App_Log_Can \<times> 'w" where
  "App_Log_Can_Init env w = (case lc_tick env w of (now, w) \<Rightarrow>
     (\<lparr>app_log_can_stats = log_can_stats_zero, app_log_can_next_heartbeat_tick = now, app_log_can_alive_counter = 0\<rparr>, w))"

definition log_can_heartbeat :: "App_Log_Info \<Rightarrow> u8 \<Rightarrow> bytes" where
  "log_can_heartbeat info alive = CAN_Protocol_EncodeLogHeartbeat
     \<lparr>lh_latest_sequence = latest_sequence info, lh_record_count = ucast (info_count info), lh_ready = 1,
      lh_overwrite_detected = (if info_overwrite_count info \<noteq> 0 then 1 else 0), lh_alive_counter = alive\<rparr> (replicate 8 0)"

definition App_Log_Can_Process :: "'w app_log_can_env \<Rightarrow> App_Log \<Rightarrow> App_Log_Can \<Rightarrow> 'w \<Rightarrow> App_Log_Can \<times> 'w" where
  "App_Log_Can_Process env log c w =
    (case lc_tick env w of (now, w) \<Rightarrow>
     if \<not> time_reached now (app_log_can_next_heartbeat_tick c) then (c, w)
     else case next_deadline_missed APP_LOG_CAN_HEARTBEAT_PERIOD_MS now (app_log_can_next_heartbeat_tick c) of
       (next_tick, missed_periods) \<Rightarrow>
       let alive = app_log_can_alive_counter c + ucast missed_periods;
           payload = log_can_heartbeat (App_Log_GetInfo log) alive;
           c = lc_count (\<lambda>t. t\<lparr>lc_heartbeat_attempts := lc_heartbeat_attempts t + 1,
                 lc_heartbeat_missed_periods := lc_heartbeat_missed_periods t + missed_periods,
                 lc_last_heartbeat_tick := now, lc_last_heartbeat_alive_counter := alive\<rparr>)
               (c\<lparr>app_log_can_next_heartbeat_tick := next_tick, app_log_can_alive_counter := alive + 1\<rparr>)
       in case lc_send_latest env CAN_PROTOCOL_LOG_HEARTBEAT_TX_ID CAN_TRANSPORT_ID_STANDARD payload w of (result, w) \<Rightarrow>
         (lc_count (\<lambda>t. if log_can_taken result then t\<lparr>lc_heartbeats_sent := lc_heartbeats_sent t + 1\<rparr>
                        else t\<lparr>lc_tx_failures := lc_tx_failures t + 1\<rparr>) c, w))"

definition App_Log_Can_SendInfo :: "'w app_log_can_env \<Rightarrow> App_Log \<Rightarrow> App_Log_Can \<Rightarrow> 'w \<Rightarrow> App_Log_Can \<times> 'w" where
  "App_Log_Can_SendInfo env log c w =
    (let c = lc_count (\<lambda>t. t\<lparr>lc_info_requests := lc_info_requests t + 1\<rparr>) c;
         info = App_Log_GetInfo log;
         wire_info = (replicate 18 0)[0 := CAN_PROTOCOL_LOG_VERSION, 1 := ucast (record_size info)];
         wire_info = App_Log_Can_WriteU16LE 2 (info_count info) wire_info;
         wire_info = App_Log_Can_WriteU16LE 4 (App_Log_Info.capacity info) wire_info;
         wire_info = CAN_Protocol_WriteU32LE 6 (oldest_sequence info) wire_info;
         wire_info = CAN_Protocol_WriteU32LE 10 (latest_sequence info) wire_info;
         wire_info = CAN_Protocol_WriteU32LE 14 (info_overwrite_count info) wire_info
     in case App_Log_Can_SendFragments env CAN_PROTOCOL_LOG_INFO_FRAGMENT_BASE wire_info 18 3 c w of (sent, c, w) \<Rightarrow>
        (if sent then lc_count (\<lambda>t. t\<lparr>lc_info_responses := lc_info_responses t + 1\<rparr>) c else c, w))"

definition App_Log_Can_SendRecord :: "'w app_log_can_env \<Rightarrow> App_Log \<Rightarrow> u32 \<Rightarrow> App_Log_Can \<Rightarrow> 'w \<Rightarrow> App_Log_Can \<times> 'w" where
  "App_Log_Can_SendRecord env log seqno c w =
    (let c = lc_count (\<lambda>t. t\<lparr>lc_record_requests := lc_record_requests t + 1, lc_last_requested_sequence := seqno\<rparr>) c
     in case App_Log_ReadBySequence seqno log of
          None \<Rightarrow> App_Log_Can_SendNotFound env seqno
            (lc_count (\<lambda>t. t\<lparr>lc_records_not_found := lc_records_not_found t + 1\<rparr>) c) w
        | Some r \<Rightarrow>
          (case App_Log_Can_SendFragments env CAN_PROTOCOL_LOG_RECORD_FRAGMENT_BASE (app_log_bytes r) 32 5 c w of (sent, c, w) \<Rightarrow>
           (if sent then lc_count (\<lambda>t. t\<lparr>lc_records_sent := lc_records_sent t + 1\<rparr>) c else c, w)))"

definition App_Log_Can_GetStats :: "App_Log_Can \<Rightarrow> App_Log_Can_Stats option \<Rightarrow> App_Log_Can_Stats option" where
  "App_Log_Can_GetStats c stats = map_option (\<lambda>_. app_log_can_stats c) stats"

section \<open>Reading a record\<close>

text \<open>The same calls with a history of the priority messages and whether the transport took them.\<close>

definition log_can_logged :: "'w app_log_can_env \<Rightarrow> ('w \<times> (u32 \<times> bytes \<times> bool) list) app_log_can_env" where
  "log_can_logged env = \<lparr>
     lc_tick = (\<lambda>(w, h). case lc_tick env w of (t, w) \<Rightarrow> (t, w, h)),
     lc_send_priority = (\<lambda>ident ty data (w, h). case lc_send_priority env ident ty data w of (r, w) \<Rightarrow>
       (r, w, h @ [(ident, data, log_can_taken r)])),
     lc_send_latest = (\<lambda>ident ty data (w, h). case lc_send_latest env ident ty data w of (r, w) \<Rightarrow>
       (r, w, h @ [(ident, data, log_can_taken r)]))\<rparr>"

text \<open>What a tester makes of the messages: the record of five numbered fragments, or the report that it is missing.\<close>

datatype log_reply = Log_Record App_Log_Record | Log_Missing u32 | Log_Garbled

definition log_assembled :: "bytes list \<Rightarrow> App_Log_Record" where
  "log_assembled fs = app_log_record (map (\<lambda>i. read_u32_le (concat (map tl fs)) (4 * i)) [0..<8])"

definition log_read_reply :: "bytes list \<Rightarrow> log_reply" where
  "log_read_reply fs =
    (if map hd fs = [0x80, 0x81, 0x82, 0x83, 0x84] then Log_Record (log_assembled fs)
     else if map (take 3) fs = [[0xF0, 0x31, 0x01]] then Log_Missing (read_u32_le (hd fs) 4)
     else Log_Garbled)"

definition log_fragments :: "bytes \<Rightarrow> bytes list" where
  "log_fragments data = map (log_can_fragment CAN_PROTOCOL_LOG_RECORD_FRAGMENT_BASE data 32) [0, 1, 2, 3, 4]"

lemma log_indices:
  "[0..<8] = [0, 1, 2, 3, 4, 5, 6, 7]" "[1..<8] = [1, 2, 3, 4, 5, 6, 7]"
  "[0..<32] = [0, 1, 2, 3, 4, 5, 6, 7, 8, 9, 10, 11, 12, 13, 14, 15, 16, 17, 18, 19, 20, 21, 22, 23, 24, 25, 26, 27, 28, 29, 30, 31]"
  by code_simp+

lemma log_bytes_list:
  assumes "length data = 32"
  shows "log_fragments data = [0x80 # take 7 data, 0x81 # take 7 (drop 7 data), 0x82 # take 7 (drop 14 data),
    0x83 # take 7 (drop 21 data), 0x84 # drop 28 data @ [0, 0, 0]]"
proof -
  have "data = map ((!) data) [0..<32]" using assms by (metis map_nth)
  then obtain f where f: "data = map f [0..<32]" by blast
  show ?thesis
    unfolding log_fragments_def log_can_fragment_def f log_indices
    by (simp add: CAN_PROTOCOL_LOG_RECORD_FRAGMENT_BASE_def CAN_PROTOCOL_LOG_FRAGMENT_DATA_SIZE_def Let_def)
qed

lemma log_bytes_length: "length (app_log_bytes r) = 32"
  by (simp add: app_log_bytes_def app_log_words_def)

lemma log_fragments_read: "log_read_reply (log_fragments (app_log_bytes r)) = Log_Record r"
proof -
  let ?d = "app_log_bytes r" and ?z = "[0, 0, 0] :: bytes"
  obtain a b c d e f g h where ws: "app_log_words r = [a, b, c, d, e, f, g, h]" by (simp add: app_log_words_def)
  have "concat (map tl (log_fragments ?d)) = ?d @ ?z"
    by (simp add: log_bytes_list log_bytes_length) (simp add: app_log_bytes_def ws)
  moreover have "map (\<lambda>i. read_u32_le (?d @ ?z) (4 * i)) [0..<8] = app_log_words r"
    by (simp add: app_log_bytes_def ws read_u32_le_def u32_bytes_rejoin log_indices)
  ultimately show ?thesis by (simp add: log_read_reply_def log_assembled_def) (simp add: log_bytes_list log_bytes_length)
qed

lemma log_fragments_sent:
  assumes "log_can_fragments (log_can_logged env) base data n left i c (w, h) = (sent, c', w', h')"
  shows "\<exists>k. h' = h @ map (\<lambda>j. (CAN_PROTOCOL_LOG_RESPONSE_TX_ID, log_can_fragment base data n (i + of_nat j), True)) [0..<k]
        @ (if sent then [] else [(CAN_PROTOCOL_LOG_RESPONSE_TX_ID, log_can_fragment base data n (i + of_nat k), False)])
      \<and> (if sent then k = left else k < left)
      \<and> lc_tx_failures (app_log_can_stats c') = lc_tx_failures (app_log_can_stats c) + (if sent then 0 else 1)
      \<and> lc_fragments_sent (app_log_can_stats c') = lc_fragments_sent (app_log_can_stats c) + of_nat k"
  using assms
proof (induction left arbitrary: i c w h)
  case 0
  then show ?case by auto
next
  case (Suc left)
  obtain r w1 where r: "lc_send_priority env CAN_PROTOCOL_LOG_RESPONSE_TX_ID CAN_TRANSPORT_ID_STANDARD
      (log_can_fragment base data n i) w = (r, w1)" by (metis prod.exhaust)
  show ?case
  proof (cases "log_can_taken r")
    case False
    then show ?thesis using Suc.prems r by (auto simp: log_can_logged_def lc_count_def intro!: exI [of _ 0])
  next
    case True
    have "log_can_fragments (log_can_logged env) base data n left (i + 1)
        (lc_count (\<lambda>t. t\<lparr>lc_fragments_sent := lc_fragments_sent t + 1\<rparr>) c)
        (w1, h @ [(CAN_PROTOCOL_LOG_RESPONSE_TX_ID, log_can_fragment base data n i, True)]) = (sent, c', w', h')"
      using Suc.prems r True by (simp add: log_can_logged_def)
    from Suc.IH [OF this] obtain k where k: "h' = (h @ [(CAN_PROTOCOL_LOG_RESPONSE_TX_ID, log_can_fragment base data n i, True)])
        @ map (\<lambda>j. (CAN_PROTOCOL_LOG_RESPONSE_TX_ID, log_can_fragment base data n (i + 1 + of_nat j), True)) [0..<k]
        @ (if sent then [] else [(CAN_PROTOCOL_LOG_RESPONSE_TX_ID, log_can_fragment base data n (i + 1 + of_nat k), False)])"
      "if sent then k = left else k < left"
      "lc_tx_failures (app_log_can_stats c') = lc_tx_failures (app_log_can_stats c) + (if sent then 0 else 1)"
      "lc_fragments_sent (app_log_can_stats c') = lc_fragments_sent (app_log_can_stats c) + 1 + of_nat k"
      by (auto simp: lc_count_def)
    have "map (\<lambda>j. (CAN_PROTOCOL_LOG_RESPONSE_TX_ID, log_can_fragment base data n (i + of_nat j), True)) [0..<Suc k]
      = (CAN_PROTOCOL_LOG_RESPONSE_TX_ID, log_can_fragment base data n i, True)
        # map (\<lambda>j. (CAN_PROTOCOL_LOG_RESPONSE_TX_ID, log_can_fragment base data n (i + 1 + of_nat j), True)) [0..<k]"
      unfolding map_upt_Suc by (simp add: add.assoc)
    then show ?thesis using k by (intro exI [of _ "Suc k"]) (auto simp: add.assoc)
  qed
qed

lemma log_not_found_frame:
  assumes "App_Log_Can_SendNotFound (log_can_logged env) q c (w, h) = (c', w', h')"
  shows "\<exists>taken. h' = h @ [(CAN_PROTOCOL_LOG_RESPONSE_TX_ID, CAN_Protocol_WriteU32LE 4 q [0xF0, 0x31, 1, 0, 0, 0, 0, 0], taken)]
      \<and> lc_tx_failures (app_log_can_stats c') = lc_tx_failures (app_log_can_stats c) + (if taken then 0 else 1)
      \<and> lc_fragments_sent (app_log_can_stats c') = lc_fragments_sent (app_log_can_stats c) + (if taken then 1 else 0)"
proof -
  obtain r w1 where r: "lc_send_priority env CAN_PROTOCOL_LOG_RESPONSE_TX_ID CAN_TRANSPORT_ID_STANDARD
      (CAN_Protocol_WriteU32LE 4 q [0xF0, 0x31, 1, 0, 0, 0, 0, 0]) w = (r, w1)" by (metis prod.exhaust)
  have "(replicate 8 0)[0 := CAN_PROTOCOL_LOG_ERROR_FRAME, 1 := 0x31, 2 := 0x01] = [0xF0, 0x31, 1, 0, 0, 0, 0, 0 :: u8]"
    by code_simp
  then have "App_Log_Can_SendNotFound (log_can_logged env) q c (w, h)
    = (lc_count (\<lambda>t. if log_can_taken r then t\<lparr>lc_fragments_sent := lc_fragments_sent t + 1\<rparr>
         else t\<lparr>lc_tx_failures := lc_tx_failures t + 1\<rparr>) c,
       w1, h @ [(CAN_PROTOCOL_LOG_RESPONSE_TX_ID, CAN_Protocol_WriteU32LE 4 q [0xF0, 0x31, 1, 0, 0, 0, 0, 0], log_can_taken r)])"
    unfolding App_Log_Can_SendNotFound_def by (simp only:) (simp add: log_can_logged_def r)
  then show ?thesis using assms by (auto simp: lc_count_def)
qed

lemma log_not_found_read: "log_read_reply [CAN_Protocol_WriteU32LE 4 q [0xF0, 0x31, 1, 0, 0, 0, 0, 0]] = Log_Missing q"
  by (simp add: log_read_reply_def protocol_byte_order write_u32_le_def read_u32_le_def u32_bytes_rejoin)

lemma log_record_frames:
  assumes "App_Log_Can_SendRecord (log_can_logged env) log q c (w, []) = (c', w', h)"
  shows "\<exists>frames. log_read_reply frames = (case App_Log_ReadBySequence q log of Some r \<Rightarrow> Log_Record r | None \<Rightarrow> Log_Missing q)
      \<and> (\<exists>k \<le> length frames. h = map (\<lambda>f. (CAN_PROTOCOL_LOG_RESPONSE_TX_ID, f, True)) (take k frames)
          @ (if k = length frames then [] else [(CAN_PROTOCOL_LOG_RESPONSE_TX_ID, frames ! k, False)])
        \<and> lc_tx_failures (app_log_can_stats c') = lc_tx_failures (app_log_can_stats c) + (if k = length frames then 0 else 1)
        \<and> lc_fragments_sent (app_log_can_stats c') = lc_fragments_sent (app_log_can_stats c) + of_nat k)"
proof (cases "App_Log_ReadBySequence q log")
  case None
  let ?f = "CAN_Protocol_WriteU32LE 4 q [0xF0, 0x31, 1, 0, 0, 0, 0, 0]"
  obtain c1 where c1: "App_Log_Can_SendNotFound (log_can_logged env) q c1 (w, []) = (c', w', h)"
    "lc_tx_failures (app_log_can_stats c1) = lc_tx_failures (app_log_can_stats c)"
    "lc_fragments_sent (app_log_can_stats c1) = lc_fragments_sent (app_log_can_stats c)"
    using assms None by (auto simp: App_Log_Can_SendRecord_def lc_count_def)
  from log_not_found_frame [OF c1(1)] obtain taken where "h = [(CAN_PROTOCOL_LOG_RESPONSE_TX_ID, ?f, taken)]"
    "lc_tx_failures (app_log_can_stats c') = lc_tx_failures (app_log_can_stats c) + (if taken then 0 else 1)"
    "lc_fragments_sent (app_log_can_stats c') = lc_fragments_sent (app_log_can_stats c) + (if taken then 1 else 0)"
    using c1(2,3) by auto
  then show ?thesis using None log_not_found_read [of q]
    by (intro exI [of _ "[?f]"] conjI exI [of _ "if taken then 1 else 0"]) auto
next
  case (Some r)
  let ?f = "log_fragments (app_log_bytes r)"
  have len: "length ?f = 5" by (simp add: log_fragments_def)
  obtain c1 sent c2 w2 h2 where c1:
    "log_can_fragments (log_can_logged env) CAN_PROTOCOL_LOG_RECORD_FRAGMENT_BASE (app_log_bytes r) 32 5 0 c1 (w, [])
      = (sent, c2, w2, h2)"
    "lc_tx_failures (app_log_can_stats c1) = lc_tx_failures (app_log_can_stats c)"
    "lc_fragments_sent (app_log_can_stats c1) = lc_fragments_sent (app_log_can_stats c)"
    "h = h2" "lc_tx_failures (app_log_can_stats c') = lc_tx_failures (app_log_can_stats c2)"
    "lc_fragments_sent (app_log_can_stats c') = lc_fragments_sent (app_log_can_stats c2)"
    using assms Some
    by (auto simp: App_Log_Can_SendRecord_def App_Log_Can_SendFragments_def Let_def lc_count_def split: prod.splits if_splits)
  from log_fragments_sent [OF c1(1)] obtain k where k0:
    "h2 = [] @ map (\<lambda>j. (CAN_PROTOCOL_LOG_RESPONSE_TX_ID, log_can_fragment CAN_PROTOCOL_LOG_RECORD_FRAGMENT_BASE (app_log_bytes r) 32 (0 + of_nat j), True)) [0..<k]
      @ (if sent then [] else [(CAN_PROTOCOL_LOG_RESPONSE_TX_ID, log_can_fragment CAN_PROTOCOL_LOG_RECORD_FRAGMENT_BASE (app_log_bytes r) 32 (0 + of_nat k), False)])"
    "if sent then k = 5 else k < 5"
    "lc_tx_failures (app_log_can_stats c2) = lc_tx_failures (app_log_can_stats c1) + (if sent then 0 else 1)"
    "lc_fragments_sent (app_log_can_stats c2) = lc_fragments_sent (app_log_can_stats c1) + of_nat k" by blast
  have k: "h = map (\<lambda>j. (CAN_PROTOCOL_LOG_RESPONSE_TX_ID, log_can_fragment CAN_PROTOCOL_LOG_RECORD_FRAGMENT_BASE (app_log_bytes r) 32 (of_nat j), True)) [0..<k]
      @ (if sent then [] else [(CAN_PROTOCOL_LOG_RESPONSE_TX_ID, log_can_fragment CAN_PROTOCOL_LOG_RECORD_FRAGMENT_BASE (app_log_bytes r) 32 (of_nat k), False)])"
    "if sent then k = 5 else k < 5"
    "lc_tx_failures (app_log_can_stats c') = lc_tx_failures (app_log_can_stats c) + (if sent then 0 else 1)"
    "lc_fragments_sent (app_log_can_stats c') = lc_fragments_sent (app_log_can_stats c) + of_nat k"
    using k0 c1(2-6) by (simp_all only: add_0_left append_Nil)
  have nth: "?f ! j = log_can_fragment CAN_PROTOCOL_LOG_RECORD_FRAGMENT_BASE (app_log_bytes r) 32 (of_nat j)" if "j < 5" for j
  proof -
    have "j \<in> {0, 1, 2, 3, 4}" using that by auto
    then show ?thesis unfolding log_fragments_def by (elim insertE emptyE) simp_all
  qed
  have "take k ?f = map ((!) ?f) [0..<k]" using k(2) len by (intro nth_equalityI) (auto split: if_splits)
  also have "\<dots> = map (\<lambda>j. log_can_fragment CAN_PROTOCOL_LOG_RECORD_FRAGMENT_BASE (app_log_bytes r) 32 (of_nat j)) [0..<k]"
    using k(2) by (intro map_cong) (auto simp: nth split: if_splits)
  finally have "take k ?f = \<dots>" .
  then have "h = map (\<lambda>f. (CAN_PROTOCOL_LOG_RESPONSE_TX_ID, f, True)) (take k ?f)
      @ (if k = length ?f then [] else [(CAN_PROTOCOL_LOG_RESPONSE_TX_ID, ?f ! k, False)])"
    using k(1,2) nth [of k] len by (auto simp: comp_def split: if_splits)
  then show ?thesis using Some log_fragments_read [of r] k len
    by (intro exI [of _ ?f] conjI exI [of _ k]) (auto split: if_splits)
qed

text \<open>
  What a tester reads over CAN is what the log holds. After any records, clearings and restarts, a request for a
  sequence number whose messages the transport takes is answered on the response identifier with the record of
  that number, or with the report that there is none.
\<close>

theorem log_read_over_can:
  assumes "length rs = 64" "\<forall>w \<in> set rs. length w = 8 \<and> \<not> log_valid (app_log_record w)"
    and "s = fold app_log_event es (App_Log_Init True (app_log_at_start rs))"
    and "App_Log_Can_SendRecord (log_can_logged env) s q c (w, []) = (c', w', h)"
    and "\<forall>(ident, data, taken) \<in> set h. taken"
  shows "(\<forall>(ident, data, taken) \<in> set h. ident = CAN_PROTOCOL_LOG_RESPONSE_TX_ID)
    \<and> (case log_read_reply (map (\<lambda>(ident, data, taken). data) h) of
        Log_Record r \<Rightarrow> r \<in> set (app_log_contents s) \<and> sequence r = q
      | Log_Missing q' \<Rightarrow> q' = q \<and> (\<forall>r \<in> set (app_log_contents s). sequence r \<noteq> q)
      | Log_Garbled \<Rightarrow> False)"
proof -
  from log_record_frames [OF assms(4)] obtain frames k where f:
    "log_read_reply frames = (case App_Log_ReadBySequence q s of Some r \<Rightarrow> Log_Record r | None \<Rightarrow> Log_Missing q)"
    "h = map (\<lambda>f. (CAN_PROTOCOL_LOG_RESPONSE_TX_ID, f, True)) (take k frames)
      @ (if k = length frames then [] else [(CAN_PROTOCOL_LOG_RESPONSE_TX_ID, frames ! k, False)])" by blast
  then have k: "k = length frames" using assms(5) by (auto split: if_splits)
  then have "map (\<lambda>(ident, data, taken). data) h = frames" using f(2) by (simp add: comp_def)
  moreover have "\<forall>(ident, data, taken) \<in> set h. ident = CAN_PROTOCOL_LOG_RESPONSE_TX_ID" using f(2) k by auto
  ultimately show ?thesis
    using f(1) conjunct1 [OF app_log_reads_by_sequence [OF assms(1-3), of q]]
    by (cases "App_Log_ReadBySequence q s") auto
qed

section \<open>The heartbeat\<close>

text \<open>
  The alive counter counts the periods since the start, sent or skipped: a call at the time \<open>T\<close> after the start
  sends a heartbeat if the deadline has come, with the number of the current period modulo 256, and moves the
  deadline to the next period.
\<close>

theorem heartbeat_counts_periods:
  assumes "app_log_can_next_heartbeat_tick c = grid_tick APP_LOG_CAN_HEARTBEAT_PERIOD_MS start n"
    and "app_log_can_alive_counter c = of_nat n"
    and "100 * n \<le> T + 2 ^ 31" "T < 100 * n + 2 ^ 31"
    and "lc_tick env w = (start + of_nat T, w1)"
  shows "if 100 * n \<le> T
     then (case App_Log_Can_Process env log c w of (c', w') \<Rightarrow>
         app_log_can_next_heartbeat_tick c' = grid_tick APP_LOG_CAN_HEARTBEAT_PERIOD_MS start (T div 100 + 1)
         \<and> app_log_can_alive_counter c' = of_nat (T div 100 + 1)
         \<and> w' = snd (lc_send_latest env CAN_PROTOCOL_LOG_HEARTBEAT_TX_ID CAN_TRANSPORT_ID_STANDARD
             (log_can_heartbeat (App_Log_GetInfo log) (of_nat (T div 100))) w1))
     else App_Log_Can_Process env log c w = (c, w1)"
proof -
  have p: "unat APP_LOG_CAN_HEARTBEAT_PERIOD_MS = 100" "0 < APP_LOG_CAN_HEARTBEAT_PERIOD_MS"
    "APP_LOG_CAN_HEARTBEAT_PERIOD_MS \<le> 0x7FFFFFFF" by (simp_all add: APP_LOG_CAN_HEARTBEAT_PERIOD_MS_def)
  have due: "time_reached (start + of_nat T) (app_log_can_next_heartbeat_tick c) \<longleftrightarrow> 100 * n \<le> T"
    unfolding assms(1) using grid_reached [of APP_LOG_CAN_HEARTBEAT_PERIOD_MS n T start] assms(3,4) by (simp add: p)
  show ?thesis
  proof (cases "100 * n \<le> T")
    case False
    then show ?thesis using due assms(5) by (simp add: App_Log_Can_Process_def)
  next
    case True
    then have n: "n \<le> T div 100" by (metis div_le_mono nonzero_mult_div_cancel_left zero_neq_numeral)
    have m: "next_deadline_missed APP_LOG_CAN_HEARTBEAT_PERIOD_MS (start + of_nat T) (app_log_can_next_heartbeat_tick c)
      = (grid_tick APP_LOG_CAN_HEARTBEAT_PERIOD_MS start (T div 100 + 1), of_nat (T div 100 - n))"
      unfolding assms(1) using next_deadline_missed_on_grid [OF p(2,3), of n T start] True assms(4) by (simp add: p)
    have narrow: "ucast (of_nat k :: u32) = (of_nat k :: u8)" for k
      by (rule bit_word_eqI) (auto simp: bit_simps)
    have "(of_nat n :: u8) + of_nat (T div 100 - n) = of_nat (n + (T div 100 - n))" by (simp only: of_nat_add)
    also have "n + (T div 100 - n) = T div 100" using n by simp
    finally have alive: "app_log_can_alive_counter c + ucast (of_nat (T div 100 - n) :: u32) = of_nat (T div 100)"
      unfolding assms(2) narrow .
    obtain missed where "next_deadline_missed APP_LOG_CAN_HEARTBEAT_PERIOD_MS (start + of_nat T) (app_log_can_next_heartbeat_tick c)
        = (grid_tick APP_LOG_CAN_HEARTBEAT_PERIOD_MS start (T div 100 + 1), missed)"
      "app_log_can_alive_counter c + ucast missed = of_nat (T div 100)" using m alive by blast
    then show ?thesis using True due
      by (auto simp: App_Log_Can_Process_def assms(5) Let_def lc_count_def split: prod.split)
  qed
qed

end
