(* ===== verification/Spec2Isabelle.thy ===== *)
theory Spec2Isabelle
  imports Prelude IsoTpTransport IsoTpTransfer BootMap BootControl BootFlash BootFlashStm32 BootImage BootTarget UdsServer UdsDownload
    UdsDownloadSafety UdsDownloadTransfer CanTransport CanTransportDelivery CanIsoTp CanIsoTpResponse AppLog AppLogRecovery AppStartup AppTiming
    AppDiagnostics
    CanUds
    UdsProgramming
    CanUdsService
    CanProtocol
    Pca2131
    CanCommand
    AppControlPolicy
    CanControlAccess
    CanApp
    CanAppSafety
    CanAppTraffic
    AppWatchdog
    CanRecovery
    AppOutputs
    Deadline
    CanAppTelemetry
    AppLogCan
begin

text \<open>
  The firmware of an STM32H7A3 board that is controlled and diagnosed over CAN: a verification library of its
  portable core under \<open>src/Core/Src\<close> and \<open>src/Core/Inc\<close>. This theory imports all others; the properties
  C1 to C40 stand in the theories of the parts they are about.

  \<^bold>\<open>The program.\<close> \<open>main.c\<close> starts the peripherals and calls the services of the firmware in an endless loop.
  Frames of the host enter through the reception queue of the controller: an extended frame with the command
  identifier is checked, guarded by a service window that a button opens, executed and acknowledged by
  \<open>can_app.c\<close>; a standard frame with the identifier 0x7E0 goes to the ISO-TP channel of \<open>can_isotp.c\<close>, whose messages
  the UDS server of \<open>uds_server.c\<close> answers through \<open>can_uds.c\<close>, reading health data and downloading new images.
  Everything that is sent goes through the queue of \<open>can_transport.c\<close>. The outputs (LEDs, PWM, periodic
  slots) follow both the requests of the host and local switches. Events are kept in a log in retained
  memory; a watchdog gate refreshes the watchdog only while all services report. A boot loader selects one of two
  image slots by a record that is kept twice in flash, checks the image and jumps to it.

  \<^bold>\<open>How the code is modelled.\<close> A file's static variables are one record, with the source's field names (a prefix is
  added where two records share a name), and each function of the source is one definition of the same name that
  returns its result and the new state; a large function is split where its comments or branches split it, and the parts
  are named after it. Integers have the width of the source and wrap around; enumerations are datatypes; a pointer that
  may be NULL is an option; arrays are byte lists. Loops are structural recursion, \<open>function\<close> with a termination
  proof, or \<open>while\<close> with a proof that it ends. What a file calls outside itself is a record of functions on
  a state of any type, so that the lemmas hold whatever these functions answer; where a component relies on
  a property of another, the property is a locale that is interpreted on the model of the other one.

  \<^bold>\<open>Theories and files.\<close>

  \<^item> \<open>Prelude\<close>: integer types, byte order, the copy loops, the wrap-safe comparison of times, and the
    collections of simplification rules.
  \<^item> Transport protocol. \<open>IsoTpTransport\<close>: \<open>isotp_transport.c\<close>, the bounds of its buffers (C6) and its reception
    timeout (C13). \<open>IsoTpTransfer\<close>: two channels exchange a message; the frames are compared with an
    independent segmentation (C1).
  \<^item> Boot loader. \<open>BootMap\<close>: \<open>boot_memory_map.h\<close>. \<open>BootControl\<close>: \<open>boot_control.c\<close>, the record and its life cycle, against an
    abstract life cycle (C5, C7 to C10). \<open>BootFlash\<close>: \<open>boot_flash.c\<close> over any backend that keeps the contract
    \<open>flash_backend\<close>. \<open>BootFlashStm32\<close>: \<open>boot_flash_stm32.c\<close> keeps the contract, so an update is atomic (C2) and succeeds on
    working flash (C11). \<open>BootImage\<close>: \<open>boot_image.c\<close> and \<open>boot_jump.c\<close> (C4, C12). \<open>BootTarget\<close>:
    \<open>boot_target.c\<close>, the boot sequence over its callbacks (C3).
  \<^item> Diagnostics. \<open>UdsServer\<close>: \<open>uds_server.c\<close> (C17, C18). \<open>UdsDownload\<close>: \<open>uds_download.c\<close>; \<open>UdsDownloadSafety\<close>: the calls of
    the flash backend follow a protocol automaton (C14); \<open>UdsDownloadTransfer\<close>: an image that is sent arrives (C15).
    \<open>UdsProgramming\<close>: what the server promises to the application behind its callbacks. \<open>CanUds\<close>:
    \<open>can_uds.c\<close> (C24). \<open>CanUdsService\<close>: the stack from the bus to the backend (C25, C26).
  \<^item> The bus. \<open>CanTransport\<close>: \<open>can_transport.c\<close>; \<open>CanTransportDelivery\<close>: it refines an abstract list of waiting
    messages (C16, C19). \<open>CanIsoTp\<close>: \<open>can_isotp.c\<close>; \<open>CanIsoTpResponse\<close>: what a response looks like on the bus (C20).
    \<open>CanRecovery\<close>: \<open>can_recovery.c\<close> (C39). \<open>CanProtocol\<close>: \<open>can_protocol.c\<close>, the frame formats (C31, C32).
  \<^item> Commands. \<open>CanCommand\<close>: \<open>can_command_validation.c\<close> and \<open>can_command_guard.c\<close> (C27, C28). \<open>CanControlAccess\<close>:
    \<open>can_control_access.c\<close>, the service window (C34). \<open>CanApp\<close>: the command loop and the slots of
    \<open>can_app.c\<close>; \<open>CanAppSafety\<close> (C35) and \<open>CanAppTraffic\<close> (C36, C37): what they do. \<open>Deadline\<close>: the loops that move a periodic
    deadline, and that they keep a grid. \<open>CanAppTelemetry\<close>: the telemetry of \<open>can_app.c\<close>, the slot policy, and
    \<open>can_rx_health.c\<close>. \<open>AppLogCan\<close>: \<open>app_log_can.c\<close>, reading the log over CAN and the heartbeat.
  \<^item> Outputs. \<open>AppControlPolicy\<close>: \<open>app_control_policy.c\<close> (C33). \<open>AppOutputs\<close>: \<open>pwm_control.c\<close>, \<open>pwm_self_test.c\<close> and
    \<open>app_control.c\<close> (C40).
  \<^item> Health. \<open>AppLog\<close>: \<open>app_log.c\<close>; \<open>AppLogRecovery\<close>: it survives resets and power loss (C21). \<open>AppStartup\<close>:
    \<open>app_startup.c\<close> and \<open>app_reset_reason.c\<close>. \<open>AppTiming\<close>: \<open>app_timing.c\<close> (C22). \<open>AppDiagnostics\<close>: \<open>app_diagnostics.c\<close>
    (C23). \<open>AppWatchdog\<close>: \<open>app_watchdog.c\<close> and \<open>app_watchdog_evidence.c\<close> (C38). \<open>Pca2131\<close>: \<open>pca2131.c\<close>, the clock driver
    (C29, C30).
\<close>

text \<open>
  \<^bold>\<open>The interfaces.\<close> \<open>flash_backend\<close> and \<open>working_flash_backend\<close> (in \<open>BootFlash\<close>) state what the persistence needs of the
  flash; \<open>documented_hal\<close> and \<open>working_hal\<close> (in \<open>BootFlashStm32\<close>) give them for the driver of the board.
  \<open>frame_sink\<close> (in \<open>CanIsoTpResponse\<close>) states what the ISO-TP channel needs of the transmit queue; the model of
  \<open>can_transport.c\<close> gives it. \<open>uds_application\<close> (in \<open>UdsServer\<close>) and \<open>programming_client\<close> (in \<open>UdsProgramming\<close>) state what
  the server needs of its callbacks and what it promises them; the callbacks of \<open>can_uds.c\<close> and
  \<open>uds_download.c\<close> give it. \<open>diagnostic_service\<close> (in \<open>CanUdsService\<close>) puts them together.

  \<^bold>\<open>Bounds.\<close> The reception loop takes at most eight frames in a pass, as in the source; its recursion is over what is left of that
  budget. The transmit queue has 16 entries, and draining it decreases their number. The log has 64
  records; its recovery walks over each of them once. The deadline loops end because a deadline moves by one period,
  which is less than half of the range of the counter, until it is in the future. Times wrap around after
  \<open>2 ^ 32\<close>; where a property compares times, it says that calls are less than half of the range apart.

  \<^bold>\<open>Conditions on what is outside.\<close>

  \<^item> Flash (C2, C11): the calls of the HAL alter only the sector or unit they work on (\<open>hal_flash_documented\<close>); any of
    them may fail and leave anything there, as a reset in its middle does. For C11 they also do what they
    are asked to. C2 leaves one case open: an erase that is not confirmed may leave anything in
    the sector, in principle also a different record with valid magic, checksum and commit marker.
  \<^item> Boot (C3, C4): the reading of flash, the signature and digest checks and the jump are arguments; the properties
    say on which bytes they were called and what they answered.
  \<^item> Response identifier (C20, C25): no other user of the transport sends under 0x7E8 (\<open>can_isotp_foreign\<close>,
    \<open>can_uds_foreign\<close>). The firmware does not enforce it: a slot may be configured with this identifier, because
    \<open>CAN_Protocol_IsValidId\<close> checks only the range.
  \<^item> Slots (C37): accepted means sent or queued. The queue replaces a waiting periodic frame by its successor and may evict
    it for an urgent one, so that the bus carries a subsequence (C16).
  \<^item> Clock chip (C30): its registers keep what is written, as described at \<open>pca_chip\<close>; C29 holds for any answers of the bus.
  \<^item> Watchdog (C38): the retained storage is available and keeps its contents over the reset.
  \<^item> Everything else (the controller, the timers, the other services) answers as it likes.
\<close>

text \<open>
  \<^bold>\<open>Not modelled.\<close> Interrupts run between the calls of the main loop, not inside one; critical sections, cache
  maintenance and memory barriers have no counterpart. A power loss is possible between any two stores of a log
  record, not inside \<open>App_Log_Clear\<close>. Functions and branches that are compiled for the host tests
  only are left out (\<open>App_Log_GetDebug\<close>, the hooks of the watchdog). \<open>CAN_Uds_InitWithProgramming\<close> and the download are
  modelled although only the tests install a backend so far. The guards of \<open>Boot_Flash_Stm32ProgramUnit\<close> and
  \<open>Boot_Flash_Stm32Read\<close> against a NULL buffer have no counterpart, because the buffer is a list here. The order in
  which \<open>CAN_App_Process\<close> calls its services is not a definition; the properties of the services hold for every order
  and environment.

  Left out as a whole: the HAL, CMSIS and board support under \<open>src/Drivers\<close> (vendor code, seen through the parameters
  above); \<open>main.c\<close>, \<open>stm32h7xx_it.c\<close>, \<open>stm32h7xx_hal_msp.c\<close> and \<open>system_stm32h7xx.c\<close> (generated start-up code);
  \<open>boot_jump_stm32.c\<close>, \<open>app_fault.c\<close>, \<open>app_safe_state.c\<close> and \<open>app_irq_policy.c\<close> (core registers, assembly and pins);
  \<open>can_app_init.c\<close>, \<open>watchdog.c\<close> and \<open>input_capture.c\<close> (configuration and timer registers); \<open>rtc_app.c\<close> (scheduling and
  reporting around the clock driver); the driver and monitor of the switches (\<open>tic12400.c\<close> and the files named after it),
  which appears as the switch data that the control policy is given; the desktop application in Python, the
  generator of the protocol header, the tests and the linker scripts.

  \<^bold>\<open>What modelling showed.\<close> A tester that polls a failed erase again makes \<open>uds_download.c\<close> count and abort the download
  again with every poll. A slot may send under the response identifier of the diagnostics, between the frames of a
  response. The comment of \<open>can_command_guard.h\<close> speaks of every command that changes active
  state; commands that only switch off pass without the window, as the README says and C28 makes exact.
\<close>

end
